(* ===== verification/Prelude.thy ===== *)
theory Prelude
  imports Main "HOL-Library.Word"
begin

text \<open>
  Shared vocabulary of the development: the machine integer types of the C code, the
  bit fields of a 32-bit word with the rules that let the simplifier read a field out
  of an encoded instruction, C's truncating division, and the byte order of the host
  (the emulator is compiled big endian, while A64 instructions are always fetched
  little endian).
\<close>

unbundle bit_operations_syntax

type_synonym u8 = "8 word"
type_synonym u16 = "16 word"
type_synonym u32 = "32 word"
type_synonym u64 = "64 word"
type_synonym u128 = "128 word"

named_theorems mask_simps \<open>constant AND masks as truncations\<close>
named_theorems fld_simps \<open>reading a bit field of an encoded word\<close>

section \<open>C arithmetic\<close>

text \<open>Division of a promoted signed operand by a positive constant: C truncates towards zero.\<close>

definition c_div :: "u32 \<Rightarrow> u32 \<Rightarrow> u32" where
  "c_div a d = word_of_int (sgn (sint a) * (\<bar>sint a\<bar> div sint d))"

text \<open>\<open>__builtin_popcount\<close>.\<close>

definition popcount :: "'a::len word \<Rightarrow> nat" where
  "popcount w = length (filter (bit w) [0..<LENGTH('a)])"

text \<open>\<open>__builtin_ffs\<close>: one plus the index of the least significant set bit, 0 for 0.\<close>

definition ffs :: "'a::len word \<Rightarrow> nat" where
  "ffs w = (case filter (bit w) [0..<LENGTH('a)] of [] \<Rightarrow> 0 | i # _ \<Rightarrow> Suc i)"

text \<open>\<open>__builtin_ctz\<close> and the index of the most significant set bit, for a nonzero word.\<close>

definition ctz :: "'a::len word \<Rightarrow> nat" where
  "ctz w = hd (filter (bit w) [0..<LENGTH('a)])"

definition msb_index :: "'a::len word \<Rightarrow> nat" where
  "msb_index w = last (filter (bit w) [0..<LENGTH('a)])"

text \<open>Searching a range of indices.\<close>

lemma find_upt_Some: "find P [a..<b] = Some i \<Longrightarrow> a \<le> i \<and> i < b \<and> P i"
  by (auto simp: find_Some_iff)

lemma find_upt_None: "find P [a..<b] = None \<Longrightarrow> a \<le> i \<Longrightarrow> i < b \<Longrightarrow> \<not> P i"
  by (auto simp: find_None_iff)

section \<open>Masks and fields\<close>

lemma and_mask_numerals [mask_simps]:
  fixes x :: "'a::len word"
  shows "x AND 1 = take_bit 1 x" "x AND 3 = take_bit 2 x" "x AND 7 = take_bit 3 x"
    "x AND 15 = take_bit 4 x" "x AND 31 = take_bit 5 x" "x AND 63 = take_bit 6 x"
    "x AND 0x7f = take_bit 7 x" "x AND 0xff = take_bit 8 x" "x AND 0x1ff = take_bit 9 x"
    "x AND 0xfff = take_bit 12 x" "x AND 0x3fff = take_bit 14 x" "x AND 0xffff = take_bit 16 x"
    "x AND 0x7ffff = take_bit 19 x" "x AND 0x3ffffff = take_bit 26 x"
  by (simp_all add: take_bit_eq_mask mask_eq_exp_minus_1)

text \<open>The field of \<open>n\<close> bits that starts at bit \<open>lo\<close>.\<close>

definition fld :: "nat \<Rightarrow> nat \<Rightarrow> u32 \<Rightarrow> u32" where
  "fld lo n w = take_bit n (drop_bit lo w)"

lemma bit_fld [bit_simps]:
  "bit (fld lo n w) i \<longleftrightarrow> i < n \<and> bit w (lo + i)"
  by (auto simp: fld_def bit_simps)

lemma fld_or [fld_simps]: "fld lo n (x OR y) = fld lo n x OR fld lo n y"
  by (rule bit_eqI) (auto simp: bit_simps)

lemma fld_numeral [fld_simps]:
  "fld lo n (numeral w) = take_bit n (drop_bit lo (numeral w))"
  by (simp add: fld_def)

lemma fld_0 [fld_simps]: "fld lo n 0 = 0"
  by (simp add: fld_def)

lemma fld_1 [fld_simps]: "fld lo n 1 = take_bit n (drop_bit lo 1)"
  by (simp add: fld_def)

lemma fld_take_outside [fld_simps]:
  "m \<le> lo \<Longrightarrow> fld lo n (take_bit m x) = 0"
  by (rule bit_eqI) (auto simp: bit_simps)

lemma fld_take_low [fld_simps]:
  "fld 0 n (take_bit m x) = take_bit (min m n) x"
  by (rule bit_eqI) (auto simp: bit_simps)

lemma fld_take_inside [fld_simps]:
  "lo + n \<le> m \<Longrightarrow> fld lo n (take_bit m x) = fld lo n x"
  by (rule bit_eqI) (auto simp: bit_simps)

lemma fld_push_below [fld_simps]:
  "lo + n \<le> k \<Longrightarrow> fld lo n (push_bit k x) = 0"
  by (rule bit_eqI) (auto simp: bit_simps)

lemma fld_push_above [fld_simps]:
  "k + m \<le> lo \<Longrightarrow> fld lo n (push_bit k (take_bit m x)) = 0"
  by (rule bit_eqI) (auto simp: bit_simps)

lemma fld_push_same [fld_simps]:
  "lo + min m n \<le> 32 \<Longrightarrow>
   fld lo n (push_bit lo (take_bit m x)) = take_bit (min m n) x"
  by (rule bit_eqI) (auto simp: bit_simps)

lemma fld_push_same_full [fld_simps]:
  "lo + n \<le> 32 \<Longrightarrow> fld lo n (push_bit lo x) = take_bit n x"
  by (rule bit_eqI) (auto simp: bit_simps)

lemma fld_push_inside [fld_simps]:
  "k < lo \<Longrightarrow> lo + n \<le> k + m \<Longrightarrow> k + m \<le> 32 \<Longrightarrow>
   fld lo n (push_bit k (take_bit m x)) = fld (lo - k) n x"
  by (rule bit_eqI) (auto simp: bit_simps)

lemma fld_push_partial [fld_simps]:
  "lo < k \<Longrightarrow> k < lo + n \<Longrightarrow> lo + n \<le> 32 \<Longrightarrow>
   fld lo n (push_bit k x) = take_bit n (push_bit (k - lo) x)"
  by (rule bit_eqI) (auto simp: bit_simps add.commute)

lemma take_bit_ucast_u8_u32:
  "take_bit n (ucast (r :: u8) :: u32) = ucast (take_bit n r)"
  by (rule bit_eqI) (auto simp: bit_simps)

lemma take_bit_ucast_u16_u32:
  "take_bit n (ucast (r :: u16) :: u32) = ucast (take_bit n r)"
  by (rule bit_eqI) (auto simp: bit_simps)

lemma ucast_ucast_u8 [simp]: "(ucast (ucast (r :: u8) :: u32) :: u8) = r"
  by (rule bit_eqI) (auto simp: bit_simps)

lemma ucast_ucast_u16 [simp]: "(ucast (ucast (r :: u16) :: u32) :: u16) = r"
  by (rule bit_eqI) (auto simp: bit_simps)

lemma ucast_u8_u32_eq_iff [simp]: "(ucast (r :: u8) :: u32) = ucast s \<longleftrightarrow> r = s"
  by (metis ucast_ucast_u8)

lemma take_bit_5_reg: "r < 32 \<Longrightarrow> take_bit 5 (r :: u8) = r"
  using less_mask_eq [of r 5] by (simp add: take_bit_eq_mask)

section \<open>Byte order\<close>

text \<open>The value a big-endian host reads from four consecutive bytes.\<close>

definition be32 :: "u8 \<Rightarrow> u8 \<Rightarrow> u8 \<Rightarrow> u8 \<Rightarrow> u32" where
  "be32 x0 x1 x2 x3 =
     push_bit 24 (ucast x0) OR push_bit 16 (ucast x1) OR push_bit 8 (ucast x2) OR ucast x3"

text \<open>The bytes in memory, from the lowest address, of a word a big-endian host stores.\<close>

definition bytes_be32 :: "u32 \<Rightarrow> u8 list" where
  "bytes_be32 w = [ucast (drop_bit 24 w), ucast (drop_bit 16 w), ucast (drop_bit 8 w), ucast w]"

text \<open>The value read little endian from four bytes, as the instruction fetch does.\<close>

definition le32_of :: "u8 list \<Rightarrow> u32" where
  "le32_of bs = be32 (bs ! 3) (bs ! 2) (bs ! 1) (bs ! 0)"

end
