(* ===== verification/A64_Encode.thy ===== *)
theory A64_Encode
  imports Prelude
begin

text \<open>
  The A64 instruction encoders of \<open>emu68/include/A64.h\<close>, one definition per inline
  function, for branches, system, load/store and integer data processing instructions.
  An encoder assembles the 32-bit instruction from its operands, each masked to its
  field, and \<open>I32\<close> turns it into the value that a big-endian host has to store so that
  the bytes in memory are in little-endian order.

  Operands keep the C types: a \<open>uint8_t\<close> register is an \<open>8 word\<close> that the integer
  promotion zero-extends (\<open>ucast\<close>), a signed offset is sign-extended (\<open>scast\<close>), and
  all the arithmetic of an encoder happens in 32 bits. The C parameters named \<open>ror\<close>,
  \<open>lsl\<close>, \<open>bit\<close>, \<open>index\<close>, \<open>shift\<close> and \<open>code\<close> are written \<open>rot\<close>, \<open>sh\<close>, \<open>bitno\<close>, \<open>idx\<close>,
  \<open>st\<close> and \<open>imm16\<close>; functions whose name is too short to be a constant of a theory
  carry the suffix \<open>_i\<close> (\<open>b_i\<close>, \<open>ror_i\<close>, \<open>ret_i\<close>).

  Some encoders also run \<open>RESET_FLAGS\<close> (they clear the variable \<open>host_flags\<close>, as the
  instruction overwrites the host's flags). The encoders here are the pure part; the
  effect is \<open>RESET_FLAGS\<close> of theory \<open>Jit_State\<close>, applied by \<open>EMIT_rf\<close>.
\<close>

section \<open>Operand enumerations and the instruction word\<close>

datatype reg_extend_t = UXTB | UXTH | UXTW | UXTX | SXTB | SXTH | SXTW | SXTX

fun reg_extend_val :: "reg_extend_t \<Rightarrow> u32" where
  "reg_extend_val UXTB = 0" | "reg_extend_val UXTH = 1" | "reg_extend_val UXTW = 2"
| "reg_extend_val UXTX = 3" | "reg_extend_val SXTB = 4" | "reg_extend_val SXTH = 5"
| "reg_extend_val SXTW = 6" | "reg_extend_val SXTX = 7"

datatype shift_t = LSL | LSR | ASR | ROR

fun shift_val :: "shift_t \<Rightarrow> u32" where
  "shift_val LSL = 0" | "shift_val LSR = 1" | "shift_val ASR = 2" | "shift_val ROR = 3"

text \<open>The 32-bit instruction, converted so that a big-endian host stores it little endian.\<close>

definition I32 :: "u32 \<Rightarrow> u32" where
  "I32 insn =
     (let u3 = ucast (drop_bit 24 insn AND 0xff);
          u2 = ucast (drop_bit 16 insn AND 0xff);
          u1 = ucast (drop_bit 8 insn AND 0xff);
          u0 = ucast (insn AND 0xff)
      in be32 u0 u1 u2 u3)"

definition INSN_TO_LE :: "u32 \<Rightarrow> u32" where
  "INSN_TO_LE insn = I32 insn"

text \<open>The condition codes.\<close>

definition A64_CC_EQ :: u8 where "A64_CC_EQ = 0x00"
definition A64_CC_NE :: u8 where "A64_CC_NE = 0x01"
definition A64_CC_CS :: u8 where "A64_CC_CS = 0x02"
definition A64_CC_CC :: u8 where "A64_CC_CC = 0x03"
definition A64_CC_MI :: u8 where "A64_CC_MI = 0x04"
definition A64_CC_PL :: u8 where "A64_CC_PL = 0x05"
definition A64_CC_VS :: u8 where "A64_CC_VS = 0x06"
definition A64_CC_VC :: u8 where "A64_CC_VC = 0x07"
definition A64_CC_HI :: u8 where "A64_CC_HI = 0x08"
definition A64_CC_LS :: u8 where "A64_CC_LS = 0x09"
definition A64_CC_GE :: u8 where "A64_CC_GE = 0x0a"
definition A64_CC_LT :: u8 where "A64_CC_LT = 0x0b"
definition A64_CC_GT :: u8 where "A64_CC_GT = 0x0c"
definition A64_CC_LE :: u8 where "A64_CC_LE = 0x0d"
definition A64_CC_AL :: u8 where "A64_CC_AL = 0x0e"
definition A64_CC_NV :: u8 where "A64_CC_NV = 0x0f"

lemmas a64_cc_defs =
  A64_CC_EQ_def A64_CC_NE_def A64_CC_CS_def A64_CC_CC_def A64_CC_MI_def A64_CC_PL_def
  A64_CC_VS_def A64_CC_VC_def A64_CC_HI_def A64_CC_LS_def A64_CC_GE_def A64_CC_LT_def
  A64_CC_GT_def A64_CC_LE_def A64_CC_AL_def A64_CC_NV_def


section \<open>Branches\<close>

definition b_cc :: "u8 \<Rightarrow> u32 \<Rightarrow> u32" where
  "b_cc cc offset19 = I32 (0x54000000 OR (ucast cc AND 15) OR push_bit 5 (offset19 AND 0x7ffff))"

definition b_i :: "u32 \<Rightarrow> u32" where
  "b_i offset = I32 (0x14000000 OR (offset AND 0x3ffffff))"

definition bl_i :: "u32 \<Rightarrow> u32" where
  "bl_i offset = I32 (0x94000000 OR (offset AND 0x3ffffff))"

definition blr_i :: "u8 \<Rightarrow> u32" where
  "blr_i rt = I32 (0xd63f0000 OR push_bit 5 (ucast rt AND 31))"

definition br_i :: "u8 \<Rightarrow> u32" where
  "br_i rt = I32 (0xd61f0000 OR push_bit 5 (ucast rt AND 31))"

definition cbnz :: "u8 \<Rightarrow> u32 \<Rightarrow> u32" where
  "cbnz rt offset19 = I32 (0x35000000 OR push_bit 5 (offset19 AND 0x7ffff) OR (ucast rt AND 31))"

definition cbnz_64 :: "u8 \<Rightarrow> u32 \<Rightarrow> u32" where
  "cbnz_64 rt offset19 =
     I32 (0xb5000000 OR push_bit 5 (offset19 AND 0x7ffff) OR (ucast rt AND 31))"

definition cbz :: "u8 \<Rightarrow> u32 \<Rightarrow> u32" where
  "cbz rt offset19 = I32 (0x34000000 OR push_bit 5 (offset19 AND 0x7ffff) OR (ucast rt AND 31))"

definition cbz_64 :: "u8 \<Rightarrow> u32 \<Rightarrow> u32" where
  "cbz_64 rt offset19 =
     I32 (0xb4000000 OR push_bit 5 (offset19 AND 0x7ffff) OR (ucast rt AND 31))"

definition ret_i :: "u32" where
  "ret_i = I32 (0xd65f0000 OR push_bit 5 30)"

definition ret_reg :: "u8 \<Rightarrow> u32" where
  "ret_reg rt = I32 (0xd65f0000 OR push_bit 5 (ucast rt AND 31))"

definition tbnz :: "u8 \<Rightarrow> u8 \<Rightarrow> u16 \<Rightarrow> u32" where
  "tbnz rt bitno offset =
     I32 (if (ucast bitno AND 32 :: u32) \<noteq> 0 then 0xb7000000 else 0x37000000
      OR push_bit 19 (ucast bitno AND 31) OR push_bit 5 (ucast offset AND 0x3fff)
      OR (ucast rt AND 31))"

definition tbz :: "u8 \<Rightarrow> u8 \<Rightarrow> u16 \<Rightarrow> u32" where
  "tbz rt bitno offset =
     I32 (if (ucast bitno AND 32 :: u32) \<noteq> 0 then 0xb6000000 else 0x36000000
      OR push_bit 19 (ucast bitno AND 31) OR push_bit 5 (ucast offset AND 0x3fff)
      OR (ucast rt AND 31))"

definition bx_lr :: "u32" where
  "bx_lr = ret_i"

section \<open>System instructions\<close>

definition mrs_i :: "u8 \<Rightarrow> u8 \<Rightarrow> u8 \<Rightarrow> u8 \<Rightarrow> u8 \<Rightarrow> u8 \<Rightarrow> u32" where
  "mrs_i rt op0 op1 crn crm op2 =
     I32 (0xd5300000 OR (ucast rt AND 31) OR (if op0 = 3 then 0x80000 else 0)
      OR push_bit 16 (ucast op1 AND 7) OR push_bit 12 (ucast crn AND 15)
      OR push_bit 8 (ucast crm AND 15) OR push_bit 5 (ucast op2 AND 7))"

definition msr_i :: "u8 \<Rightarrow> u8 \<Rightarrow> u8 \<Rightarrow> u8 \<Rightarrow> u8 \<Rightarrow> u8 \<Rightarrow> u32" where
  "msr_i rt op0 op1 crn crm op2 =
     I32 (0xd5100000 OR (ucast rt AND 31) OR (if op0 = 3 then 0x80000 else 0)
      OR push_bit 16 (ucast op1 AND 7) OR push_bit 12 (ucast crn AND 15)
      OR push_bit 8 (ucast crm AND 15) OR push_bit 5 (ucast op2 AND 7))"

definition msr_imm :: "u8 \<Rightarrow> u8 \<Rightarrow> u8 \<Rightarrow> u32" where
  "msr_imm op1 op2 imm =
     I32 (0xd500401f OR push_bit 16 (ucast op1 AND 7) OR push_bit 5 (ucast op2 AND 7)
      OR push_bit 8 (ucast imm AND 15))"

definition brk_i :: "u16 \<Rightarrow> u32" where
  "brk_i imm16 = I32 (0xd4200000 OR push_bit 5 (ucast imm16))"

definition hlt_i :: "u16 \<Rightarrow> u32" where
  "hlt_i imm16 = I32 (0xd4400000 OR push_bit 5 (ucast imm16))"

definition udf_i :: "u16 \<Rightarrow> u32" where
  "udf_i imm16 = hlt_i imm16"

definition hint_i :: "u8 \<Rightarrow> u32" where
  "hint_i imm7 = I32 (0xd503201f OR push_bit 5 (ucast imm7 AND 0x7f))"

definition yield_i :: "u32" where
  "yield_i = hint_i 1"

definition wfe_i :: "u32" where
  "wfe_i = hint_i 2"

definition wfi_i :: "u32" where
  "wfi_i = hint_i 3"

definition sev_i :: "u32" where
  "sev_i = hint_i 4"

definition sevl_i :: "u32" where
  "sevl_i = hint_i 5"

definition get_nzcv :: "u8 \<Rightarrow> u32" where
  "get_nzcv rt = mrs_i rt 3 3 4 2 0"

definition set_nzcv :: "u8 \<Rightarrow> u32" where
  "set_nzcv rt = msr_i rt 3 3 4 2 0"

definition get_fpcr :: "u8 \<Rightarrow> u32" where
  "get_fpcr rt = mrs_i rt 3 3 4 4 0"

definition set_fpcr :: "u8 \<Rightarrow> u32" where
  "set_fpcr rt = msr_i rt 3 3 4 4 0"

definition cfinv :: "u32" where
  "cfinv = I32 0xd500401f"

definition sys_i :: "u8 \<Rightarrow> u8 \<Rightarrow> u8 \<Rightarrow> u8 \<Rightarrow> u8 \<Rightarrow> u32" where
  "sys_i rt op1 cn cm op2 =
     I32 (0xd5080000 OR push_bit 16 (ucast op1 AND 7) OR push_bit 5 (ucast op2 AND 7)
      OR push_bit 12 (ucast cn AND 15) OR push_bit 8 (ucast cm AND 15) OR (ucast rt AND 31))"

definition sysl_i :: "u8 \<Rightarrow> u8 \<Rightarrow> u8 \<Rightarrow> u8 \<Rightarrow> u8 \<Rightarrow> u32" where
  "sysl_i rt op1 cn cm op2 =
     I32 (0xd5280000 OR push_bit 16 (ucast op1 AND 7) OR push_bit 5 (ucast op2 AND 7)
      OR push_bit 12 (ucast cn AND 15) OR push_bit 8 (ucast cm AND 15) OR (ucast rt AND 31))"

definition dc_ivac :: "u8 \<Rightarrow> u32" where
  "dc_ivac rt = sys_i rt 0 7 6 1"

definition dc_civac :: "u8 \<Rightarrow> u32" where
  "dc_civac rt = sys_i rt 3 7 14 1"

definition dc_cvac :: "u8 \<Rightarrow> u32" where
  "dc_cvac rt = sys_i rt 3 7 10 1"

definition dc_zva :: "u8 \<Rightarrow> u32" where
  "dc_zva rt = sys_i rt 3 7 4 1"

definition dsb_sy :: "u32" where
  "dsb_sy = I32 0xd5033f9f"

definition isb_i :: "u32" where
  "isb_i = I32 0xd5033fdf"

definition dmb_ish :: "u32" where
  "dmb_ish = I32 0xd5033bbf"

definition dmb_sy :: "u32" where
  "dmb_sy = I32 0xd5033fbf"

definition nop_i :: "u32" where
  "nop_i = I32 0xd503201f"

definition svc_i :: "u16 \<Rightarrow> u32" where
  "svc_i imm16 = I32 (0xd4000001 OR push_bit 5 (ucast imm16))"

definition prfm_pst :: "u8 \<Rightarrow> u32" where
  "prfm_pst rt = I32 (0xf9800010 OR push_bit 5 (ucast rt))"

definition prfm_pld :: "u8 \<Rightarrow> u32" where
  "prfm_pld rt = I32 (0xf9800000 OR push_bit 5 (ucast rt))"

section \<open>Load PC-relative address\<close>

definition adr_i :: "u8 \<Rightarrow> u32 \<Rightarrow> u32" where
  "adr_i rd imm21 =
     I32 (0x10000000 OR (ucast rd AND 31) OR push_bit 29 (imm21 AND 3)
      OR push_bit 5 (drop_bit 2 imm21 AND 0x7ffff))"

definition adrp :: "u8 \<Rightarrow> u32 \<Rightarrow> u32" where
  "adrp rd imm21 =
     I32 (0x90000000 OR (ucast rd AND 31) OR push_bit 29 (imm21 AND 3)
      OR push_bit 5 (drop_bit 2 imm21 AND 0x7ffff))"

section \<open>Loads relative to the PC\<close>

definition ldr_pcrel :: "u8 \<Rightarrow> u32 \<Rightarrow> u32" where
  "ldr_pcrel rt offset19 =
     I32 (0x18000000 OR push_bit 5 (offset19 AND 0x7ffff) OR (ucast rt AND 31))"

definition ldr64_pcrel :: "u8 \<Rightarrow> u32 \<Rightarrow> u32" where
  "ldr64_pcrel rt offset19 =
     I32 (0x58000000 OR push_bit 5 (offset19 AND 0x7ffff) OR (ucast rt AND 31))"

definition ldrsw_pcrel :: "u8 \<Rightarrow> u32 \<Rightarrow> u32" where
  "ldrsw_pcrel rt offset19 =
     I32 (0x98000000 OR push_bit 5 (offset19 AND 0x7ffff) OR (ucast rt AND 31))"

section \<open>Load/Store with register offset\<close>

definition ldr_regoffset :: "u8 \<Rightarrow> u8 \<Rightarrow> u8 \<Rightarrow> reg_extend_t \<Rightarrow> u8 \<Rightarrow> u32" where
  "ldr_regoffset rn rt rm ext lsl2 =
     I32 (0xb8600800 OR (ucast rt AND 31) OR push_bit 5 (ucast rn AND 31)
      OR push_bit 16 (ucast rm AND 31) OR (if lsl2 \<noteq> 0 then 0x1000 else 0)
      OR push_bit 13 (reg_extend_val ext AND 7))"

definition ldr64_regoffset :: "u8 \<Rightarrow> u8 \<Rightarrow> u8 \<Rightarrow> reg_extend_t \<Rightarrow> u8 \<Rightarrow> u32" where
  "ldr64_regoffset rn rt rm ext lsl3 =
     I32 (0xf8600800 OR (ucast rt AND 31) OR push_bit 5 (ucast rn AND 31)
      OR push_bit 16 (ucast rm AND 31) OR (if lsl3 \<noteq> 0 then 0x1000 else 0)
      OR push_bit 13 (reg_extend_val ext AND 7))"

definition ldrb_regoffset :: "u8 \<Rightarrow> u8 \<Rightarrow> u8 \<Rightarrow> reg_extend_t \<Rightarrow> u32" where
  "ldrb_regoffset rn rt rm ext =
     I32 (0x38600800 OR (ucast rt AND 31) OR push_bit 5 (ucast rn AND 31)
      OR push_bit 16 (ucast rm AND 31) OR push_bit 13 (reg_extend_val ext AND 7))"

definition ldrsb_regoffset :: "u8 \<Rightarrow> u8 \<Rightarrow> u8 \<Rightarrow> reg_extend_t \<Rightarrow> u32" where
  "ldrsb_regoffset rn rt rm ext =
     I32 (0x38e00800 OR (ucast rt AND 31) OR push_bit 5 (ucast rn AND 31)
      OR push_bit 16 (ucast rm AND 31) OR push_bit 13 (reg_extend_val ext AND 7))"

definition ldrsb64_regoffset :: "u8 \<Rightarrow> u8 \<Rightarrow> u8 \<Rightarrow> reg_extend_t \<Rightarrow> u32" where
  "ldrsb64_regoffset rn rt rm ext =
     I32 (0x38a00800 OR (ucast rt AND 31) OR push_bit 5 (ucast rn AND 31)
      OR push_bit 16 (ucast rm AND 31) OR push_bit 13 (reg_extend_val ext AND 7))"

definition ldrh_regoffset :: "u8 \<Rightarrow> u8 \<Rightarrow> u8 \<Rightarrow> reg_extend_t \<Rightarrow> u8 \<Rightarrow> u32" where
  "ldrh_regoffset rn rt rm ext lsl1 =
     I32 (0x78600800 OR (ucast rt AND 31) OR push_bit 5 (ucast rn AND 31)
      OR push_bit 16 (ucast rm AND 31) OR (if lsl1 \<noteq> 0 then 0x1000 else 0)
      OR push_bit 13 (reg_extend_val ext AND 7))"

definition ldrsh_regoffset :: "u8 \<Rightarrow> u8 \<Rightarrow> u8 \<Rightarrow> reg_extend_t \<Rightarrow> u8 \<Rightarrow> u32" where
  "ldrsh_regoffset rn rt rm ext lsl1 =
     I32 (0x78e00800 OR (ucast rt AND 31) OR push_bit 5 (ucast rn AND 31)
      OR push_bit 16 (ucast rm AND 31) OR (if lsl1 \<noteq> 0 then 0x1000 else 0)
      OR push_bit 13 (reg_extend_val ext AND 7))"

definition ldrsh64_regoffset :: "u8 \<Rightarrow> u8 \<Rightarrow> u8 \<Rightarrow> reg_extend_t \<Rightarrow> u8 \<Rightarrow> u32" where
  "ldrsh64_regoffset rn rt rm ext lsl1 =
     I32 (0x78a00800 OR (ucast rt AND 31) OR push_bit 5 (ucast rn AND 31)
      OR push_bit 16 (ucast rm AND 31) OR (if lsl1 \<noteq> 0 then 0x1000 else 0)
      OR push_bit 13 (reg_extend_val ext AND 7))"

definition ldrsw_regoffset :: "u8 \<Rightarrow> u8 \<Rightarrow> u8 \<Rightarrow> reg_extend_t \<Rightarrow> u8 \<Rightarrow> u32" where
  "ldrsw_regoffset rn rt rm ext lsl2 =
     I32 (0xb8a00800 OR (ucast rt AND 31) OR push_bit 5 (ucast rn AND 31)
      OR push_bit 16 (ucast rm AND 31) OR (if lsl2 \<noteq> 0 then 0x1000 else 0)
      OR push_bit 13 (reg_extend_val ext AND 7))"

definition str_regoffset :: "u8 \<Rightarrow> u8 \<Rightarrow> u8 \<Rightarrow> reg_extend_t \<Rightarrow> u8 \<Rightarrow> u32" where
  "str_regoffset rn rt rm ext lsl2 =
     I32 (0xb8200800 OR (ucast rt AND 31) OR push_bit 5 (ucast rn AND 31)
      OR push_bit 16 (ucast rm AND 31) OR (if lsl2 \<noteq> 0 then 0x1000 else 0)
      OR push_bit 13 (reg_extend_val ext AND 7))"

definition str64_regoffset :: "u8 \<Rightarrow> u8 \<Rightarrow> u8 \<Rightarrow> reg_extend_t \<Rightarrow> u8 \<Rightarrow> u32" where
  "str64_regoffset rn rt rm ext lsl3 =
     I32 (0xf8200800 OR (ucast rt AND 31) OR push_bit 5 (ucast rn AND 31)
      OR push_bit 16 (ucast rm AND 31) OR (if lsl3 \<noteq> 0 then 0x1000 else 0)
      OR push_bit 13 (reg_extend_val ext AND 7))"

definition strb_regoffset :: "u8 \<Rightarrow> u8 \<Rightarrow> u8 \<Rightarrow> reg_extend_t \<Rightarrow> u32" where
  "strb_regoffset rn rt rm ext =
     I32 (0x38200800 OR (ucast rt AND 31) OR push_bit 5 (ucast rn AND 31)
      OR push_bit 16 (ucast rm AND 31) OR push_bit 13 (reg_extend_val ext AND 7))"

definition strh_regoffset :: "u8 \<Rightarrow> u8 \<Rightarrow> u8 \<Rightarrow> reg_extend_t \<Rightarrow> u8 \<Rightarrow> u32" where
  "strh_regoffset rn rt rm ext lsl1 =
     I32 (0x78200800 OR (ucast rt AND 31) OR push_bit 5 (ucast rn AND 31)
      OR push_bit 16 (ucast rm AND 31) OR (if lsl1 \<noteq> 0 then 0x1000 else 0)
      OR push_bit 13 (reg_extend_val ext AND 7))"

section \<open>Load/Store with scaled offset\<close>

definition ldr_offset :: "u8 \<Rightarrow> u8 \<Rightarrow> u16 \<Rightarrow> u32" where
  "ldr_offset rn rt offset14 =
     I32 (0xb9400000 OR (ucast rt AND 31) OR push_bit 5 (ucast rn AND 31)
      OR push_bit 10 (drop_bit 2 (ucast offset14) AND 0xfff))"

definition ldr_offset_postindex :: "u8 \<Rightarrow> u8 \<Rightarrow> u16 \<Rightarrow> u32" where
  "ldr_offset_postindex rn rt offset9 =
     I32 (0xb8400400 OR (ucast rt AND 31) OR push_bit 5 (ucast rn AND 31)
      OR push_bit 12 (scast offset9 AND 0x1ff))"

definition ldr_offset_preindex :: "u8 \<Rightarrow> u8 \<Rightarrow> u16 \<Rightarrow> u32" where
  "ldr_offset_preindex rn rt offset9 =
     I32 (0xb8400c00 OR (ucast rt AND 31) OR push_bit 5 (ucast rn AND 31)
      OR push_bit 12 (scast offset9 AND 0x1ff))"

definition ldr64_offset :: "u8 \<Rightarrow> u8 \<Rightarrow> u16 \<Rightarrow> u32" where
  "ldr64_offset rn rt offset15 =
     I32 (0xf9400000 OR (ucast rt AND 31) OR push_bit 5 (ucast rn AND 31)
      OR push_bit 10 (drop_bit 3 (ucast offset15) AND 0xfff))"

definition ldr64_offset_postindex :: "u8 \<Rightarrow> u8 \<Rightarrow> u16 \<Rightarrow> u32" where
  "ldr64_offset_postindex rn rt offset9 =
     I32 (0xf8400400 OR (ucast rt AND 31) OR push_bit 5 (ucast rn AND 31)
      OR push_bit 12 (scast offset9 AND 0x1ff))"

definition ldr64_offset_preindex :: "u8 \<Rightarrow> u8 \<Rightarrow> u16 \<Rightarrow> u32" where
  "ldr64_offset_preindex rn rt offset9 =
     I32 (0xf8400c00 OR (ucast rt AND 31) OR push_bit 5 (ucast rn AND 31)
      OR push_bit 12 (scast offset9 AND 0x1ff))"

definition ldrb_offset :: "u8 \<Rightarrow> u8 \<Rightarrow> u16 \<Rightarrow> u32" where
  "ldrb_offset rn rt offset12 =
     I32 (0x39400000 OR (ucast rt AND 31) OR push_bit 5 (ucast rn AND 31)
      OR push_bit 10 (ucast offset12 AND 0xfff))"

definition ldrb_offset_postindex :: "u8 \<Rightarrow> u8 \<Rightarrow> u16 \<Rightarrow> u32" where
  "ldrb_offset_postindex rn rt offset9 =
     I32 (0x38400400 OR (ucast rt AND 31) OR push_bit 5 (ucast rn AND 31)
      OR push_bit 12 (scast offset9 AND 0x1ff))"

definition ldrb_offset_preindex :: "u8 \<Rightarrow> u8 \<Rightarrow> u16 \<Rightarrow> u32" where
  "ldrb_offset_preindex rn rt offset9 =
     I32 (0x38400c00 OR (ucast rt AND 31) OR push_bit 5 (ucast rn AND 31)
      OR push_bit 12 (scast offset9 AND 0x1ff))"

definition ldrsb_offset :: "u8 \<Rightarrow> u8 \<Rightarrow> u16 \<Rightarrow> u32" where
  "ldrsb_offset rn rt offset12 =
     I32 (0x39c00000 OR (ucast rt AND 31) OR push_bit 5 (ucast rn AND 31)
      OR push_bit 10 (ucast offset12 AND 0xfff))"

definition ldrsb_offset_postindex :: "u8 \<Rightarrow> u8 \<Rightarrow> u16 \<Rightarrow> u32" where
  "ldrsb_offset_postindex rn rt offset9 =
     I32 (0x38c00400 OR (ucast rt AND 31) OR push_bit 5 (ucast rn AND 31)
      OR push_bit 12 (scast offset9 AND 0x1ff))"

definition ldrsb_offset_preindex :: "u8 \<Rightarrow> u8 \<Rightarrow> u16 \<Rightarrow> u32" where
  "ldrsb_offset_preindex rn rt offset9 =
     I32 (0x38c00c00 OR (ucast rt AND 31) OR push_bit 5 (ucast rn AND 31)
      OR push_bit 12 (scast offset9 AND 0x1ff))"

definition ldrsb64_offset :: "u8 \<Rightarrow> u8 \<Rightarrow> u16 \<Rightarrow> u32" where
  "ldrsb64_offset rn rt offset12 =
     I32 (0x39800000 OR (ucast rt AND 31) OR push_bit 5 (ucast rn AND 31)
      OR push_bit 10 (ucast offset12 AND 0xfff))"

definition ldrsb64_offset_postindex :: "u8 \<Rightarrow> u8 \<Rightarrow> u16 \<Rightarrow> u32" where
  "ldrsb64_offset_postindex rn rt offset9 =
     I32 (0x38800400 OR (ucast rt AND 31) OR push_bit 5 (ucast rn AND 31)
      OR push_bit 12 (scast offset9 AND 0x1ff))"

definition ldrsb64_offset_preindex :: "u8 \<Rightarrow> u8 \<Rightarrow> u16 \<Rightarrow> u32" where
  "ldrsb64_offset_preindex rn rt offset9 =
     I32 (0x38800c00 OR (ucast rt AND 31) OR push_bit 5 (ucast rn AND 31)
      OR push_bit 12 (scast offset9 AND 0x1ff))"

definition ldrh_offset :: "u8 \<Rightarrow> u8 \<Rightarrow> u16 \<Rightarrow> u32" where
  "ldrh_offset rn rt offset13 =
     I32 (0x79400000 OR (ucast rt AND 31) OR push_bit 5 (ucast rn AND 31)
      OR push_bit 10 (drop_bit 1 (ucast offset13) AND 0xfff))"

definition ldrh_offset_postindex :: "u8 \<Rightarrow> u8 \<Rightarrow> u16 \<Rightarrow> u32" where
  "ldrh_offset_postindex rn rt offset9 =
     I32 (0x78400400 OR (ucast rt AND 31) OR push_bit 5 (ucast rn AND 31)
      OR push_bit 12 (scast offset9 AND 0x1ff))"

definition ldrh_offset_preindex :: "u8 \<Rightarrow> u8 \<Rightarrow> u16 \<Rightarrow> u32" where
  "ldrh_offset_preindex rn rt offset9 =
     I32 (0x78400c00 OR (ucast rt AND 31) OR push_bit 5 (ucast rn AND 31)
      OR push_bit 12 (scast offset9 AND 0x1ff))"

definition ldrsh_offset :: "u8 \<Rightarrow> u8 \<Rightarrow> u16 \<Rightarrow> u32" where
  "ldrsh_offset rn rt offset13 =
     I32 (0x79c00000 OR (ucast rt AND 31) OR push_bit 5 (ucast rn AND 31)
      OR push_bit 10 (drop_bit 1 (ucast offset13) AND 0xfff))"

definition ldrsh_offset_postindex :: "u8 \<Rightarrow> u8 \<Rightarrow> u16 \<Rightarrow> u32" where
  "ldrsh_offset_postindex rn rt offset9 =
     I32 (0x78c00400 OR (ucast rt AND 31) OR push_bit 5 (ucast rn AND 31)
      OR push_bit 12 (scast offset9 AND 0x1ff))"

definition ldrsh_offset_preindex :: "u8 \<Rightarrow> u8 \<Rightarrow> u16 \<Rightarrow> u32" where
  "ldrsh_offset_preindex rn rt offset9 =
     I32 (0x78c00c00 OR (ucast rt AND 31) OR push_bit 5 (ucast rn AND 31)
      OR push_bit 12 (scast offset9 AND 0x1ff))"

definition ldrsh64_offset :: "u8 \<Rightarrow> u8 \<Rightarrow> u16 \<Rightarrow> u32" where
  "ldrsh64_offset rn rt offset13 =
     I32 (0x79800000 OR (ucast rt AND 31) OR push_bit 5 (ucast rn AND 31)
      OR push_bit 10 (drop_bit 1 (ucast offset13) AND 0xfff))"

definition ldrsh64_offset_postindex :: "u8 \<Rightarrow> u8 \<Rightarrow> u16 \<Rightarrow> u32" where
  "ldrsh64_offset_postindex rn rt offset9 =
     I32 (0x78800400 OR (ucast rt AND 31) OR push_bit 5 (ucast rn AND 31)
      OR push_bit 12 (scast offset9 AND 0x1ff))"

definition ldrsh64_offset_preindex :: "u8 \<Rightarrow> u8 \<Rightarrow> u16 \<Rightarrow> u32" where
  "ldrsh64_offset_preindex rn rt offset9 =
     I32 (0x78800c00 OR (ucast rt AND 31) OR push_bit 5 (ucast rn AND 31)
      OR push_bit 12 (scast offset9 AND 0x1ff))"

definition ldrsw_offset :: "u8 \<Rightarrow> u8 \<Rightarrow> u16 \<Rightarrow> u32" where
  "ldrsw_offset rn rt offset14 =
     I32 (0xb9800000 OR (ucast rt AND 31) OR push_bit 5 (ucast rn AND 31)
      OR push_bit 10 (drop_bit 2 (ucast offset14) AND 0xfff))"

definition ldrsw_offset_postindex :: "u8 \<Rightarrow> u8 \<Rightarrow> u16 \<Rightarrow> u32" where
  "ldrsw_offset_postindex rn rt offset9 =
     I32 (0xb8800400 OR (ucast rt AND 31) OR push_bit 5 (ucast rn AND 31)
      OR push_bit 12 (scast offset9 AND 0x1ff))"

definition ldrsw_offset_preindex :: "u8 \<Rightarrow> u8 \<Rightarrow> u16 \<Rightarrow> u32" where
  "ldrsw_offset_preindex rn rt offset9 =
     I32 (0xb8800c00 OR (ucast rt AND 31) OR push_bit 5 (ucast rn AND 31)
      OR push_bit 12 (scast offset9 AND 0x1ff))"

definition str_offset :: "u8 \<Rightarrow> u8 \<Rightarrow> u16 \<Rightarrow> u32" where
  "str_offset rn rt offset14 =
     I32 (0xb9000000 OR (ucast rt AND 31) OR push_bit 5 (ucast rn AND 31)
      OR push_bit 10 (drop_bit 2 (ucast offset14) AND 0xfff))"

definition str_offset_postindex :: "u8 \<Rightarrow> u8 \<Rightarrow> u16 \<Rightarrow> u32" where
  "str_offset_postindex rn rt offset9 =
     I32 (0xb8000400 OR (ucast rt AND 31) OR push_bit 5 (ucast rn AND 31)
      OR push_bit 12 (scast offset9 AND 0x1ff))"

definition str_offset_preindex :: "u8 \<Rightarrow> u8 \<Rightarrow> u16 \<Rightarrow> u32" where
  "str_offset_preindex rn rt offset9 =
     I32 (0xb8000c00 OR (ucast rt AND 31) OR push_bit 5 (ucast rn AND 31)
      OR push_bit 12 (scast offset9 AND 0x1ff))"

definition str64_offset :: "u8 \<Rightarrow> u8 \<Rightarrow> u16 \<Rightarrow> u32" where
  "str64_offset rn rt offset15 =
     I32 (0xf9000000 OR (ucast rt AND 31) OR push_bit 5 (ucast rn AND 31)
      OR push_bit 10 (drop_bit 3 (ucast offset15) AND 0xfff))"

definition str64_offset_postindex :: "u8 \<Rightarrow> u8 \<Rightarrow> u16 \<Rightarrow> u32" where
  "str64_offset_postindex rn rt offset9 =
     I32 (0xf8000400 OR (ucast rt AND 31) OR push_bit 5 (ucast rn AND 31)
      OR push_bit 12 (scast offset9 AND 0x1ff))"

definition str64_offset_preindex :: "u8 \<Rightarrow> u8 \<Rightarrow> u16 \<Rightarrow> u32" where
  "str64_offset_preindex rn rt offset9 =
     I32 (0xf8000c00 OR (ucast rt AND 31) OR push_bit 5 (ucast rn AND 31)
      OR push_bit 12 (scast offset9 AND 0x1ff))"

definition strh_offset :: "u8 \<Rightarrow> u8 \<Rightarrow> u16 \<Rightarrow> u32" where
  "strh_offset rn rt offset13 =
     I32 (0x79000000 OR (ucast rt AND 31) OR push_bit 5 (ucast rn AND 31)
      OR push_bit 10 (drop_bit 1 (ucast offset13) AND 0xfff))"

definition strh_offset_postindex :: "u8 \<Rightarrow> u8 \<Rightarrow> u16 \<Rightarrow> u32" where
  "strh_offset_postindex rn rt offset9 =
     I32 (0x78000400 OR (ucast rt AND 31) OR push_bit 5 (ucast rn AND 31)
      OR push_bit 12 (scast offset9 AND 0x1ff))"

definition strh_offset_preindex :: "u8 \<Rightarrow> u8 \<Rightarrow> u16 \<Rightarrow> u32" where
  "strh_offset_preindex rn rt offset9 =
     I32 (0x78000c00 OR (ucast rt AND 31) OR push_bit 5 (ucast rn AND 31)
      OR push_bit 12 (scast offset9 AND 0x1ff))"

definition strb_offset :: "u8 \<Rightarrow> u8 \<Rightarrow> u16 \<Rightarrow> u32" where
  "strb_offset rn rt offset12 =
     I32 (0x39000000 OR (ucast rt AND 31) OR push_bit 5 (ucast rn AND 31)
      OR push_bit 10 (ucast offset12 AND 0xfff))"

definition strb_offset_postindex :: "u8 \<Rightarrow> u8 \<Rightarrow> u16 \<Rightarrow> u32" where
  "strb_offset_postindex rn rt offset9 =
     I32 (0x38000400 OR (ucast rt AND 31) OR push_bit 5 (ucast rn AND 31)
      OR push_bit 12 (scast offset9 AND 0x1ff))"

definition strb_offset_preindex :: "u8 \<Rightarrow> u8 \<Rightarrow> u16 \<Rightarrow> u32" where
  "strb_offset_preindex rn rt offset9 =
     I32 (0x38000c00 OR (ucast rt AND 31) OR push_bit 5 (ucast rn AND 31)
      OR push_bit 12 (scast offset9 AND 0x1ff))"

definition ldxr :: "u8 \<Rightarrow> u8 \<Rightarrow> u32" where
  "ldxr rn rt = I32 (0x885f7c00 OR push_bit 5 (ucast rn AND 31) OR (ucast rt AND 31))"

section \<open>Load/Store exclusive and acquire/release\<close>

definition ldxr64 :: "u8 \<Rightarrow> u8 \<Rightarrow> u32" where
  "ldxr64 rn rt = I32 (0xc85f7c00 OR push_bit 5 (ucast rn AND 31) OR (ucast rt AND 31))"

definition ldxrh :: "u8 \<Rightarrow> u8 \<Rightarrow> u32" where
  "ldxrh rn rt = I32 (0x485f7c00 OR push_bit 5 (ucast rn AND 31) OR (ucast rt AND 31))"

definition ldxrb :: "u8 \<Rightarrow> u8 \<Rightarrow> u32" where
  "ldxrb rn rt = I32 (0x085f7c00 OR push_bit 5 (ucast rn AND 31) OR (ucast rt AND 31))"

definition ldxp :: "u8 \<Rightarrow> u8 \<Rightarrow> u8 \<Rightarrow> u32" where
  "ldxp rn rt rt2 =
     I32 (0x887f0000 OR push_bit 10 (ucast rt2 AND 31) OR push_bit 5 (ucast rn AND 31)
      OR (ucast rt AND 31))"

definition ldxp64 :: "u8 \<Rightarrow> u8 \<Rightarrow> u8 \<Rightarrow> u32" where
  "ldxp64 rn rt rt2 =
     I32 (0xc87f0000 OR push_bit 10 (ucast rt2 AND 31) OR push_bit 5 (ucast rn AND 31)
      OR (ucast rt AND 31))"

definition stxr :: "u8 \<Rightarrow> u8 \<Rightarrow> u8 \<Rightarrow> u32" where
  "stxr rn rt rs =
     I32 (0x88007c00 OR push_bit 16 (ucast rs AND 31) OR push_bit 5 (ucast rn AND 31)
      OR (ucast rt AND 31))"

definition stxr64 :: "u8 \<Rightarrow> u8 \<Rightarrow> u8 \<Rightarrow> u32" where
  "stxr64 rn rt rs =
     I32 (0xc8007c00 OR push_bit 16 (ucast rs AND 31) OR push_bit 5 (ucast rn AND 31)
      OR (ucast rt AND 31))"

definition stxrh :: "u8 \<Rightarrow> u8 \<Rightarrow> u8 \<Rightarrow> u32" where
  "stxrh rn rt rs =
     I32 (0x48007c00 OR push_bit 16 (ucast rs AND 31) OR push_bit 5 (ucast rn AND 31)
      OR (ucast rt AND 31))"

definition stxrb :: "u8 \<Rightarrow> u8 \<Rightarrow> u8 \<Rightarrow> u32" where
  "stxrb rn rt rs =
     I32 (0x08007c00 OR push_bit 16 (ucast rs AND 31) OR push_bit 5 (ucast rn AND 31)
      OR (ucast rt AND 31))"

definition stxp :: "u8 \<Rightarrow> u8 \<Rightarrow> u8 \<Rightarrow> u8 \<Rightarrow> u32" where
  "stxp rn rt rt2 rs =
     I32 (0x88200000 OR push_bit 16 (ucast rs AND 31) OR push_bit 10 (ucast rt2 AND 31)
      OR push_bit 5 (ucast rn AND 31) OR (ucast rt AND 31))"

definition stxp64 :: "u8 \<Rightarrow> u8 \<Rightarrow> u8 \<Rightarrow> u8 \<Rightarrow> u32" where
  "stxp64 rn rt rt2 rs =
     I32 (0xc8200000 OR push_bit 16 (ucast rs AND 31) OR push_bit 10 (ucast rt2 AND 31)
      OR push_bit 5 (ucast rn AND 31) OR (ucast rt AND 31))"

definition ldaxr :: "u8 \<Rightarrow> u8 \<Rightarrow> u32" where
  "ldaxr rn rt = I32 (0x885ffc00 OR push_bit 5 (ucast rn AND 31) OR (ucast rt AND 31))"

definition ldaxr64 :: "u8 \<Rightarrow> u8 \<Rightarrow> u32" where
  "ldaxr64 rn rt = I32 (0xc85ffc00 OR push_bit 5 (ucast rn AND 31) OR (ucast rt AND 31))"

definition ldaxrh :: "u8 \<Rightarrow> u8 \<Rightarrow> u32" where
  "ldaxrh rn rt = I32 (0x485ffc00 OR push_bit 5 (ucast rn AND 31) OR (ucast rt AND 31))"

definition ldaxrb :: "u8 \<Rightarrow> u8 \<Rightarrow> u32" where
  "ldaxrb rn rt = I32 (0x085ffc00 OR push_bit 5 (ucast rn AND 31) OR (ucast rt AND 31))"

definition ldaxp :: "u8 \<Rightarrow> u8 \<Rightarrow> u8 \<Rightarrow> u32" where
  "ldaxp rn rt rt2 =
     I32 (0x887f8000 OR push_bit 10 (ucast rt2 AND 31) OR push_bit 5 (ucast rn AND 31)
      OR (ucast rt AND 31))"

definition ldaxp64 :: "u8 \<Rightarrow> u8 \<Rightarrow> u8 \<Rightarrow> u32" where
  "ldaxp64 rn rt rt2 =
     I32 (0xc87f8000 OR push_bit 10 (ucast rt2 AND 31) OR push_bit 5 (ucast rn AND 31)
      OR (ucast rt AND 31))"

definition stlxr :: "u8 \<Rightarrow> u8 \<Rightarrow> u8 \<Rightarrow> u32" where
  "stlxr rn rt rs =
     I32 (0x8800fc00 OR push_bit 16 (ucast rs AND 31) OR push_bit 5 (ucast rn AND 31)
      OR (ucast rt AND 31))"

definition stlxr64 :: "u8 \<Rightarrow> u8 \<Rightarrow> u8 \<Rightarrow> u32" where
  "stlxr64 rn rt rs =
     I32 (0xc800fc00 OR push_bit 16 (ucast rs AND 31) OR push_bit 5 (ucast rn AND 31)
      OR (ucast rt AND 31))"

definition stlxrh :: "u8 \<Rightarrow> u8 \<Rightarrow> u8 \<Rightarrow> u32" where
  "stlxrh rn rt rs =
     I32 (0x4800fc00 OR push_bit 16 (ucast rs AND 31) OR push_bit 5 (ucast rn AND 31)
      OR (ucast rt AND 31))"

definition stlxrb :: "u8 \<Rightarrow> u8 \<Rightarrow> u8 \<Rightarrow> u32" where
  "stlxrb rn rt rs =
     I32 (0x0800fc00 OR push_bit 16 (ucast rs AND 31) OR push_bit 5 (ucast rn AND 31)
      OR (ucast rt AND 31))"

definition stlxp :: "u8 \<Rightarrow> u8 \<Rightarrow> u8 \<Rightarrow> u8 \<Rightarrow> u32" where
  "stlxp rn rt rt2 rs =
     I32 (0x88208000 OR push_bit 16 (ucast rs AND 31) OR push_bit 10 (ucast rt2 AND 31)
      OR push_bit 5 (ucast rn AND 31) OR (ucast rt AND 31))"

definition stlxp64 :: "u8 \<Rightarrow> u8 \<Rightarrow> u8 \<Rightarrow> u8 \<Rightarrow> u32" where
  "stlxp64 rn rt rt2 rs =
     I32 (0xc8208000 OR push_bit 16 (ucast rs AND 31) OR push_bit 10 (ucast rt2 AND 31)
      OR push_bit 5 (ucast rn AND 31) OR (ucast rt AND 31))"

section \<open>Load/Store pair\<close>

definition ldp :: "u8 \<Rightarrow> u8 \<Rightarrow> u8 \<Rightarrow> u16 \<Rightarrow> u32" where
  "ldp rn rt1 rt2 imm =
     I32 (0x29400000 OR (ucast rt1 AND 31) OR push_bit 10 (ucast rt2 AND 31)
      OR push_bit 5 (ucast rn AND 31) OR push_bit 15 (c_div (scast imm) 4 AND 0x7f))"

definition ldpsw :: "u8 \<Rightarrow> u8 \<Rightarrow> u8 \<Rightarrow> u16 \<Rightarrow> u32" where
  "ldpsw rn rt1 rt2 imm =
     I32 (0x69400000 OR (ucast rt1 AND 31) OR push_bit 10 (ucast rt2 AND 31)
      OR push_bit 5 (ucast rn AND 31) OR push_bit 15 (c_div (scast imm) 4 AND 0x7f))"

definition ldp64 :: "u8 \<Rightarrow> u8 \<Rightarrow> u8 \<Rightarrow> u16 \<Rightarrow> u32" where
  "ldp64 rn rt1 rt2 imm =
     I32 (0xa9400000 OR (ucast rt1 AND 31) OR push_bit 10 (ucast rt2 AND 31)
      OR push_bit 5 (ucast rn AND 31) OR push_bit 15 (c_div (scast imm) 8 AND 0x7f))"

definition ldp_postindex :: "u8 \<Rightarrow> u8 \<Rightarrow> u8 \<Rightarrow> u16 \<Rightarrow> u32" where
  "ldp_postindex rn rt1 rt2 imm =
     I32 (0x28c00000 OR (ucast rt1 AND 31) OR push_bit 10 (ucast rt2 AND 31)
      OR push_bit 5 (ucast rn AND 31) OR push_bit 15 (c_div (scast imm) 4 AND 0x7f))"

definition ldpsw_postindex :: "u8 \<Rightarrow> u8 \<Rightarrow> u8 \<Rightarrow> u16 \<Rightarrow> u32" where
  "ldpsw_postindex rn rt1 rt2 imm =
     I32 (0x68c00000 OR (ucast rt1 AND 31) OR push_bit 10 (ucast rt2 AND 31)
      OR push_bit 5 (ucast rn AND 31) OR push_bit 15 (c_div (scast imm) 4 AND 0x7f))"

definition ldp64_postindex :: "u8 \<Rightarrow> u8 \<Rightarrow> u8 \<Rightarrow> u16 \<Rightarrow> u32" where
  "ldp64_postindex rn rt1 rt2 imm =
     I32 (0xa8c00000 OR (ucast rt1 AND 31) OR push_bit 10 (ucast rt2 AND 31)
      OR push_bit 5 (ucast rn AND 31) OR push_bit 15 (c_div (scast imm) 8 AND 0x7f))"

definition ldp_preindex :: "u8 \<Rightarrow> u8 \<Rightarrow> u8 \<Rightarrow> u16 \<Rightarrow> u32" where
  "ldp_preindex rn rt1 rt2 imm =
     I32 (0x29c00000 OR (ucast rt1 AND 31) OR push_bit 10 (ucast rt2 AND 31)
      OR push_bit 5 (ucast rn AND 31) OR push_bit 15 (c_div (scast imm) 4 AND 0x7f))"

definition ldpsw_preindex :: "u8 \<Rightarrow> u8 \<Rightarrow> u8 \<Rightarrow> u16 \<Rightarrow> u32" where
  "ldpsw_preindex rn rt1 rt2 imm =
     I32 (0x69c00000 OR (ucast rt1 AND 31) OR push_bit 10 (ucast rt2 AND 31)
      OR push_bit 5 (ucast rn AND 31) OR push_bit 15 (c_div (scast imm) 4 AND 0x7f))"

definition ldp64_preindex :: "u8 \<Rightarrow> u8 \<Rightarrow> u8 \<Rightarrow> u16 \<Rightarrow> u32" where
  "ldp64_preindex rn rt1 rt2 imm =
     I32 (0xa9c00000 OR (ucast rt1 AND 31) OR push_bit 10 (ucast rt2 AND 31)
      OR push_bit 5 (ucast rn AND 31) OR push_bit 15 (c_div (scast imm) 8 AND 0x7f))"

definition stp :: "u8 \<Rightarrow> u8 \<Rightarrow> u8 \<Rightarrow> u16 \<Rightarrow> u32" where
  "stp rn rt1 rt2 imm =
     I32 (0x29000000 OR (ucast rt1 AND 31) OR push_bit 10 (ucast rt2 AND 31)
      OR push_bit 5 (ucast rn AND 31) OR push_bit 15 (c_div (scast imm) 4 AND 0x7f))"

definition stp64 :: "u8 \<Rightarrow> u8 \<Rightarrow> u8 \<Rightarrow> u16 \<Rightarrow> u32" where
  "stp64 rn rt1 rt2 imm =
     I32 (0xa9000000 OR (ucast rt1 AND 31) OR push_bit 10 (ucast rt2 AND 31)
      OR push_bit 5 (ucast rn AND 31) OR push_bit 15 (c_div (scast imm) 8 AND 0x7f))"

definition stp_postindex :: "u8 \<Rightarrow> u8 \<Rightarrow> u8 \<Rightarrow> u16 \<Rightarrow> u32" where
  "stp_postindex rn rt1 rt2 imm =
     I32 (0x28800000 OR (ucast rt1 AND 31) OR push_bit 10 (ucast rt2 AND 31)
      OR push_bit 5 (ucast rn AND 31) OR push_bit 15 (c_div (scast imm) 4 AND 0x7f))"

definition stp64_postindex :: "u8 \<Rightarrow> u8 \<Rightarrow> u8 \<Rightarrow> u16 \<Rightarrow> u32" where
  "stp64_postindex rn rt1 rt2 imm =
     I32 (0xa8800000 OR (ucast rt1 AND 31) OR push_bit 10 (ucast rt2 AND 31)
      OR push_bit 5 (ucast rn AND 31) OR push_bit 15 (c_div (scast imm) 8 AND 0x7f))"

definition stp_preindex :: "u8 \<Rightarrow> u8 \<Rightarrow> u8 \<Rightarrow> u16 \<Rightarrow> u32" where
  "stp_preindex rn rt1 rt2 imm =
     I32 (0x29800000 OR (ucast rt1 AND 31) OR push_bit 10 (ucast rt2 AND 31)
      OR push_bit 5 (ucast rn AND 31) OR push_bit 15 (c_div (scast imm) 4 AND 0x7f))"

definition stp64_preindex :: "u8 \<Rightarrow> u8 \<Rightarrow> u8 \<Rightarrow> u16 \<Rightarrow> u32" where
  "stp64_preindex rn rt1 rt2 imm =
     I32 (0xa9800000 OR (ucast rt1 AND 31) OR push_bit 10 (ucast rt2 AND 31)
      OR push_bit 5 (ucast rn AND 31) OR push_bit 15 (c_div (scast imm) 8 AND 0x7f))"

section \<open>Load/Store with unscaled offset\<close>

definition ldur_offset :: "u8 \<Rightarrow> u8 \<Rightarrow> u16 \<Rightarrow> u32" where
  "ldur_offset rn rt offset9 =
     I32 (0xb8400000 OR (ucast rt AND 31) OR push_bit 5 (ucast rn AND 31)
      OR push_bit 12 (scast offset9 AND 0x1ff))"

definition ldur64_offset :: "u8 \<Rightarrow> u8 \<Rightarrow> u16 \<Rightarrow> u32" where
  "ldur64_offset rn rt offset9 =
     I32 (0xf8400000 OR (ucast rt AND 31) OR push_bit 5 (ucast rn AND 31)
      OR push_bit 12 (scast offset9 AND 0x1ff))"

definition ldurb_offset :: "u8 \<Rightarrow> u8 \<Rightarrow> u16 \<Rightarrow> u32" where
  "ldurb_offset rn rt offset9 =
     I32 (0x38400000 OR (ucast rt AND 31) OR push_bit 5 (ucast rn AND 31)
      OR push_bit 12 (scast offset9 AND 0x1ff))"

definition ldursb_offset :: "u8 \<Rightarrow> u8 \<Rightarrow> u16 \<Rightarrow> u32" where
  "ldursb_offset rn rt offset9 =
     I32 (0x38c00000 OR (ucast rt AND 31) OR push_bit 5 (ucast rn AND 31)
      OR push_bit 12 (scast offset9 AND 0x1ff))"

definition ldursb64_offset :: "u8 \<Rightarrow> u8 \<Rightarrow> u16 \<Rightarrow> u32" where
  "ldursb64_offset rn rt offset9 =
     I32 (0x38800000 OR (ucast rt AND 31) OR push_bit 5 (ucast rn AND 31)
      OR push_bit 12 (scast offset9 AND 0x1ff))"

definition ldurh_offset :: "u8 \<Rightarrow> u8 \<Rightarrow> u16 \<Rightarrow> u32" where
  "ldurh_offset rn rt offset9 =
     I32 (0x78400000 OR (ucast rt AND 31) OR push_bit 5 (ucast rn AND 31)
      OR push_bit 12 (scast offset9 AND 0x1ff))"

definition ldursh_offset :: "u8 \<Rightarrow> u8 \<Rightarrow> u16 \<Rightarrow> u32" where
  "ldursh_offset rn rt offset9 =
     I32 (0x78c00000 OR (ucast rt AND 31) OR push_bit 5 (ucast rn AND 31)
      OR push_bit 12 (scast offset9 AND 0x1ff))"

definition ldursh64_offset :: "u8 \<Rightarrow> u8 \<Rightarrow> u16 \<Rightarrow> u32" where
  "ldursh64_offset rn rt offset9 =
     I32 (0x78800000 OR (ucast rt AND 31) OR push_bit 5 (ucast rn AND 31)
      OR push_bit 12 (scast offset9 AND 0x1ff))"

definition ldursw_offset :: "u8 \<Rightarrow> u8 \<Rightarrow> u16 \<Rightarrow> u32" where
  "ldursw_offset rn rt offset9 =
     I32 (0xb8800000 OR (ucast rt AND 31) OR push_bit 5 (ucast rn AND 31)
      OR push_bit 12 (scast offset9 AND 0x1ff))"

definition stur_offset :: "u8 \<Rightarrow> u8 \<Rightarrow> u16 \<Rightarrow> u32" where
  "stur_offset rn rt offset9 =
     I32 (0xb8000000 OR (ucast rt AND 31) OR push_bit 5 (ucast rn AND 31)
      OR push_bit 12 (scast offset9 AND 0x1ff))"

definition stur64_offset :: "u8 \<Rightarrow> u8 \<Rightarrow> u16 \<Rightarrow> u32" where
  "stur64_offset rn rt offset9 =
     I32 (0xf8000000 OR (ucast rt AND 31) OR push_bit 5 (ucast rn AND 31)
      OR push_bit 12 (scast offset9 AND 0x1ff))"

definition sturb_offset :: "u8 \<Rightarrow> u8 \<Rightarrow> u16 \<Rightarrow> u32" where
  "sturb_offset rn rt offset9 =
     I32 (0x38000000 OR (ucast rt AND 31) OR push_bit 5 (ucast rn AND 31)
      OR push_bit 12 (scast offset9 AND 0x1ff))"

definition sturh_offset :: "u8 \<Rightarrow> u8 \<Rightarrow> u16 \<Rightarrow> u32" where
  "sturh_offset rn rt offset9 =
     I32 (0x78000000 OR (ucast rt AND 31) OR push_bit 5 (ucast rn AND 31)
      OR push_bit 12 (scast offset9 AND 0x1ff))"

section \<open>Data processing: immediate\<close>

definition add_immed :: "u8 \<Rightarrow> u8 \<Rightarrow> u16 \<Rightarrow> u32" where
  "add_immed rd rn imm12 =
     I32 (0x11000000 OR push_bit 10 (ucast imm12 AND 0xfff) OR push_bit 5 (ucast rn AND 31)
      OR (ucast rd AND 31))"

definition add64_immed :: "u8 \<Rightarrow> u8 \<Rightarrow> u16 \<Rightarrow> u32" where
  "add64_immed rd rn imm12 =
     I32 (0x91000000 OR push_bit 10 (ucast imm12 AND 0xfff) OR push_bit 5 (ucast rn AND 31)
      OR (ucast rd AND 31))"

definition adds_immed :: "u8 \<Rightarrow> u8 \<Rightarrow> u16 \<Rightarrow> u32" where
  "adds_immed rd rn imm12 =
     I32 (0x31000000 OR push_bit 10 (ucast imm12 AND 0xfff) OR push_bit 5 (ucast rn AND 31)
      OR (ucast rd AND 31))"

definition adds64_immed :: "u8 \<Rightarrow> u8 \<Rightarrow> u16 \<Rightarrow> u32" where
  "adds64_immed rd rn imm12 =
     I32 (0xb1000000 OR push_bit 10 (ucast imm12 AND 0xfff) OR push_bit 5 (ucast rn AND 31)
      OR (ucast rd AND 31))"

definition sub_immed :: "u8 \<Rightarrow> u8 \<Rightarrow> u16 \<Rightarrow> u32" where
  "sub_immed rd rn imm12 =
     I32 (0x51000000 OR push_bit 10 (ucast imm12 AND 0xfff) OR push_bit 5 (ucast rn AND 31)
      OR (ucast rd AND 31))"

definition sub64_immed :: "u8 \<Rightarrow> u8 \<Rightarrow> u16 \<Rightarrow> u32" where
  "sub64_immed rd rn imm12 =
     I32 (0xd1000000 OR push_bit 10 (ucast imm12 AND 0xfff) OR push_bit 5 (ucast rn AND 31)
      OR (ucast rd AND 31))"

definition subs_immed :: "u8 \<Rightarrow> u8 \<Rightarrow> u16 \<Rightarrow> u32" where
  "subs_immed rd rn imm12 =
     I32 (0x71000000 OR push_bit 10 (ucast imm12 AND 0xfff) OR push_bit 5 (ucast rn AND 31)
      OR (ucast rd AND 31))"

definition subs64_immed :: "u8 \<Rightarrow> u8 \<Rightarrow> u16 \<Rightarrow> u32" where
  "subs64_immed rd rn imm12 =
     I32 (0xf1000000 OR push_bit 10 (ucast imm12 AND 0xfff) OR push_bit 5 (ucast rn AND 31)
      OR (ucast rd AND 31))"

definition cmp_immed :: "u8 \<Rightarrow> u16 \<Rightarrow> u32" where
  "cmp_immed rn imm12 = subs_immed 31 rn imm12"

definition cmp64_immed :: "u8 \<Rightarrow> u16 \<Rightarrow> u32" where
  "cmp64_immed rn imm12 = subs64_immed 31 rn imm12"

definition cmn_immed :: "u8 \<Rightarrow> u16 \<Rightarrow> u32" where
  "cmn_immed rn imm12 = adds_immed 31 rn imm12"

definition cmn64_immed :: "u8 \<Rightarrow> u16 \<Rightarrow> u32" where
  "cmn64_immed rn imm12 = adds64_immed 31 rn imm12"

definition add_immed_lsl12 :: "u8 \<Rightarrow> u8 \<Rightarrow> u16 \<Rightarrow> u32" where
  "add_immed_lsl12 rd rn imm12 =
     I32 (0x11000000 OR push_bit 22 1 OR push_bit 10 (ucast imm12 AND 0xfff)
      OR push_bit 5 (ucast rn AND 31) OR (ucast rd AND 31))"

definition add64_immed_lsl12 :: "u8 \<Rightarrow> u8 \<Rightarrow> u16 \<Rightarrow> u32" where
  "add64_immed_lsl12 rd rn imm12 =
     I32 (0x91000000 OR push_bit 22 1 OR push_bit 10 (ucast imm12 AND 0xfff)
      OR push_bit 5 (ucast rn AND 31) OR (ucast rd AND 31))"

definition adds_immed_lsl12 :: "u8 \<Rightarrow> u8 \<Rightarrow> u16 \<Rightarrow> u32" where
  "adds_immed_lsl12 rd rn imm12 =
     I32 (0x31000000 OR push_bit 22 1 OR push_bit 10 (ucast imm12 AND 0xfff)
      OR push_bit 5 (ucast rn AND 31) OR (ucast rd AND 31))"

definition adds64_immed_lsl12 :: "u8 \<Rightarrow> u8 \<Rightarrow> u16 \<Rightarrow> u32" where
  "adds64_immed_lsl12 rd rn imm12 =
     I32 (0xb1000000 OR push_bit 22 1 OR push_bit 10 (ucast imm12 AND 0xfff)
      OR push_bit 5 (ucast rn AND 31) OR (ucast rd AND 31))"

definition sub_immed_lsl12 :: "u8 \<Rightarrow> u8 \<Rightarrow> u16 \<Rightarrow> u32" where
  "sub_immed_lsl12 rd rn imm12 =
     I32 (0x51000000 OR push_bit 22 1 OR push_bit 10 (ucast imm12 AND 0xfff)
      OR push_bit 5 (ucast rn AND 31) OR (ucast rd AND 31))"

definition sub64_immed_lsl12 :: "u8 \<Rightarrow> u8 \<Rightarrow> u16 \<Rightarrow> u32" where
  "sub64_immed_lsl12 rd rn imm12 =
     I32 (0xd1000000 OR push_bit 22 1 OR push_bit 10 (ucast imm12 AND 0xfff)
      OR push_bit 5 (ucast rn AND 31) OR (ucast rd AND 31))"

definition subs_immed_lsl12 :: "u8 \<Rightarrow> u8 \<Rightarrow> u16 \<Rightarrow> u32" where
  "subs_immed_lsl12 rd rn imm12 =
     I32 (0x71000000 OR push_bit 22 1 OR push_bit 10 (ucast imm12 AND 0xfff)
      OR push_bit 5 (ucast rn AND 31) OR (ucast rd AND 31))"

definition subs64_immed_lsl12 :: "u8 \<Rightarrow> u8 \<Rightarrow> u16 \<Rightarrow> u32" where
  "subs64_immed_lsl12 rd rn imm12 =
     I32 (0xf1000000 OR push_bit 22 1 OR push_bit 10 (ucast imm12 AND 0xfff)
      OR push_bit 5 (ucast rn AND 31) OR (ucast rd AND 31))"

definition cmp_immed_lsl12 :: "u8 \<Rightarrow> u16 \<Rightarrow> u32" where
  "cmp_immed_lsl12 rn imm12 = subs_immed_lsl12 31 rn imm12"

definition cmp64_immed_lsl12 :: "u8 \<Rightarrow> u16 \<Rightarrow> u32" where
  "cmp64_immed_lsl12 rn imm12 = subs64_immed_lsl12 31 rn imm12"

definition cmn_immed_lsl12 :: "u8 \<Rightarrow> u16 \<Rightarrow> u32" where
  "cmn_immed_lsl12 rn imm12 = adds_immed_lsl12 31 rn imm12"

definition cmn64_immed_lsl12 :: "u8 \<Rightarrow> u16 \<Rightarrow> u32" where
  "cmn64_immed_lsl12 rn imm12 = adds64_immed_lsl12 31 rn imm12"

definition and_immed :: "u8 \<Rightarrow> u8 \<Rightarrow> u8 \<Rightarrow> u8 \<Rightarrow> u32" where
  "and_immed rd rn width rot =
     I32 (0x12000000 OR (ucast rd AND 31) OR push_bit 5 (ucast rn AND 31)
      OR push_bit 10 (ucast width - 1 AND 0x3f) OR push_bit 16 (ucast rot AND 0x3f))"

definition and64_immed :: "u8 \<Rightarrow> u8 \<Rightarrow> u8 \<Rightarrow> u8 \<Rightarrow> u8 \<Rightarrow> u32" where
  "and64_immed rd rn width rot n =
     I32 (0x92000000 OR (if n \<noteq> 0 then push_bit 22 1 else 0) OR (ucast rd AND 31)
      OR push_bit 5 (ucast rn AND 31) OR push_bit 10 (ucast width - 1 AND 0x3f)
      OR push_bit 16 (ucast rot AND 0x3f))"

definition bic_immed :: "u8 \<Rightarrow> u8 \<Rightarrow> u8 \<Rightarrow> u8 \<Rightarrow> u32" where
  "bic_immed rd rn width rot =
     and_immed rd rn (ucast (32 - ucast width :: u32)) (ucast (ucast rot - ucast width :: u32))"

definition bic64_immed :: "u8 \<Rightarrow> u8 \<Rightarrow> u8 \<Rightarrow> u8 \<Rightarrow> u8 \<Rightarrow> u32" where
  "bic64_immed rd rn width rot n =
     and64_immed rd rn (ucast (64 - ucast width :: u32)) (ucast (ucast rot - ucast width :: u32)) n"

definition ands_immed :: "u8 \<Rightarrow> u8 \<Rightarrow> u8 \<Rightarrow> u8 \<Rightarrow> u32" where
  "ands_immed rd rn width rot =
     I32 (0x72000000 OR (ucast rd AND 31) OR push_bit 5 (ucast rn AND 31)
      OR push_bit 10 (ucast width - 1 AND 0x3f) OR push_bit 16 (ucast rot AND 0x3f))"

definition ands64_immed :: "u8 \<Rightarrow> u8 \<Rightarrow> u8 \<Rightarrow> u8 \<Rightarrow> u8 \<Rightarrow> u32" where
  "ands64_immed rd rn width rot n =
     I32 (0xf2000000 OR (if n \<noteq> 0 then push_bit 22 1 else 0) OR (ucast rd AND 31)
      OR push_bit 5 (ucast rn AND 31) OR push_bit 10 (ucast width - 1 AND 0x3f)
      OR push_bit 16 (ucast rot AND 0x3f))"

definition bics_immed :: "u8 \<Rightarrow> u8 \<Rightarrow> u8 \<Rightarrow> u8 \<Rightarrow> u32" where
  "bics_immed rd rn width rot =
     ands_immed rd rn (ucast (32 - ucast width :: u32)) (ucast (ucast rot - ucast width :: u32))"

definition eor_immed :: "u8 \<Rightarrow> u8 \<Rightarrow> u8 \<Rightarrow> u8 \<Rightarrow> u32" where
  "eor_immed rd rn width rot =
     I32 (0x52000000 OR (ucast rd AND 31) OR push_bit 5 (ucast rn AND 31)
      OR push_bit 10 (ucast width - 1 AND 0x3f) OR push_bit 16 (ucast rot AND 0x3f))"

definition eor64_immed :: "u8 \<Rightarrow> u8 \<Rightarrow> u8 \<Rightarrow> u8 \<Rightarrow> u8 \<Rightarrow> u32" where
  "eor64_immed rd rn width rot n =
     I32 (0xd2000000 OR (if n \<noteq> 0 then push_bit 22 1 else 0) OR (ucast rd AND 31)
      OR push_bit 5 (ucast rn AND 31) OR push_bit 10 (ucast width - 1 AND 0x3f)
      OR push_bit 16 (ucast rot AND 0x3f))"

definition orr_immed :: "u8 \<Rightarrow> u8 \<Rightarrow> u8 \<Rightarrow> u8 \<Rightarrow> u32" where
  "orr_immed rd rn width rot =
     I32 (0x32000000 OR (ucast rd AND 31) OR push_bit 5 (ucast rn AND 31)
      OR push_bit 10 (ucast width - 1 AND 0x3f) OR push_bit 16 (ucast rot AND 0x3f))"

definition orr64_immed :: "u8 \<Rightarrow> u8 \<Rightarrow> u8 \<Rightarrow> u8 \<Rightarrow> u8 \<Rightarrow> u32" where
  "orr64_immed rd rn width rot n =
     I32 (0xb2000000 OR (if n \<noteq> 0 then push_bit 22 1 else 0) OR (ucast rd AND 31)
      OR push_bit 5 (ucast rn AND 31) OR push_bit 10 (ucast width - 1 AND 0x3f)
      OR push_bit 16 (ucast rot AND 0x3f))"

definition tst_immed :: "u8 \<Rightarrow> u8 \<Rightarrow> u8 \<Rightarrow> u32" where
  "tst_immed rn width rot = ands_immed 31 rn width rot"

definition tst64_immed :: "u8 \<Rightarrow> u8 \<Rightarrow> u8 \<Rightarrow> u8 \<Rightarrow> u32" where
  "tst64_immed rn width rot n = ands64_immed 31 rn width rot n"

section \<open>Data processing: bitfields\<close>

definition bfm :: "u8 \<Rightarrow> u8 \<Rightarrow> u8 \<Rightarrow> u8 \<Rightarrow> u32" where
  "bfm rd rn immr imms =
     I32 (0x33000000 OR (ucast rd AND 31) OR push_bit 5 (ucast rn AND 31)
      OR push_bit 16 (ucast immr AND 0x3f) OR push_bit 10 (ucast imms AND 0x3f))"

definition bfm64 :: "u8 \<Rightarrow> u8 \<Rightarrow> u8 \<Rightarrow> u8 \<Rightarrow> u32" where
  "bfm64 rd rn immr imms =
     I32 (0xb3400000 OR (ucast rd AND 31) OR push_bit 5 (ucast rn AND 31)
      OR push_bit 16 (ucast immr AND 0x3f) OR push_bit 10 (ucast imms AND 0x3f))"

definition sbfm :: "u8 \<Rightarrow> u8 \<Rightarrow> u8 \<Rightarrow> u8 \<Rightarrow> u32" where
  "sbfm rd rn immr imms =
     I32 (0x13000000 OR (ucast rd AND 31) OR push_bit 5 (ucast rn AND 31)
      OR push_bit 16 (ucast immr AND 0x3f) OR push_bit 10 (ucast imms AND 0x3f))"

definition sbfm64 :: "u8 \<Rightarrow> u8 \<Rightarrow> u8 \<Rightarrow> u8 \<Rightarrow> u32" where
  "sbfm64 rd rn immr imms =
     I32 (0x93400000 OR (ucast rd AND 31) OR push_bit 5 (ucast rn AND 31)
      OR push_bit 16 (ucast immr AND 0x3f) OR push_bit 10 (ucast imms AND 0x3f))"

definition ubfm :: "u8 \<Rightarrow> u8 \<Rightarrow> u8 \<Rightarrow> u8 \<Rightarrow> u32" where
  "ubfm rd rn immr imms =
     I32 (0x53000000 OR (ucast rd AND 31) OR push_bit 5 (ucast rn AND 31)
      OR push_bit 16 (ucast immr AND 0x3f) OR push_bit 10 (ucast imms AND 0x3f))"

definition ubfm64 :: "u8 \<Rightarrow> u8 \<Rightarrow> u8 \<Rightarrow> u8 \<Rightarrow> u32" where
  "ubfm64 rd rn immr imms =
     I32 (0xd3400000 OR (ucast rd AND 31) OR push_bit 5 (ucast rn AND 31)
      OR push_bit 16 (ucast immr AND 0x3f) OR push_bit 10 (ucast imms AND 0x3f))"

definition bfi :: "u8 \<Rightarrow> u8 \<Rightarrow> u8 \<Rightarrow> u8 \<Rightarrow> u32" where
  "bfi rd rn lsb width =
     bfm rd rn (ucast (31 AND 32 - ucast lsb :: u32)) (ucast (ucast width - 1 :: u32))"

definition bfi64 :: "u8 \<Rightarrow> u8 \<Rightarrow> u8 \<Rightarrow> u8 \<Rightarrow> u32" where
  "bfi64 rd rn lsb width =
     bfm64 rd rn (ucast (63 AND 64 - ucast lsb :: u32)) (ucast (ucast width - 1 :: u32))"

definition bfxil :: "u8 \<Rightarrow> u8 \<Rightarrow> u8 \<Rightarrow> u8 \<Rightarrow> u32" where
  "bfxil rd rn lsb width = bfm rd rn lsb (ucast (ucast lsb + ucast width - 1 :: u32))"

definition bfxil64 :: "u8 \<Rightarrow> u8 \<Rightarrow> u8 \<Rightarrow> u8 \<Rightarrow> u32" where
  "bfxil64 rd rn lsb width = bfm64 rd rn lsb (ucast (ucast lsb + ucast width - 1 :: u32))"

definition sbfx :: "u8 \<Rightarrow> u8 \<Rightarrow> u8 \<Rightarrow> u8 \<Rightarrow> u32" where
  "sbfx rd rn lsb width = sbfm rd rn lsb (ucast (ucast lsb + ucast width - 1 :: u32))"

definition sbfx64 :: "u8 \<Rightarrow> u8 \<Rightarrow> u8 \<Rightarrow> u8 \<Rightarrow> u32" where
  "sbfx64 rd rn lsb width = sbfm64 rd rn lsb (ucast (ucast lsb + ucast width - 1 :: u32))"

definition sbfiz :: "u8 \<Rightarrow> u8 \<Rightarrow> u8 \<Rightarrow> u8 \<Rightarrow> u32" where
  "sbfiz rd rn lsb width =
     sbfm rd rn (ucast (31 AND 32 - ucast lsb :: u32)) (ucast (ucast width - 1 :: u32))"

definition sbfiz64 :: "u8 \<Rightarrow> u8 \<Rightarrow> u8 \<Rightarrow> u8 \<Rightarrow> u32" where
  "sbfiz64 rd rn lsb width =
     sbfm64 rd rn (ucast (63 AND 64 - ucast lsb :: u32)) (ucast (ucast width - 1 :: u32))"

definition ubfx :: "u8 \<Rightarrow> u8 \<Rightarrow> u8 \<Rightarrow> u8 \<Rightarrow> u32" where
  "ubfx rd rn lsb width = ubfm rd rn lsb (ucast (ucast lsb + ucast width - 1 :: u32))"

definition ubfx64 :: "u8 \<Rightarrow> u8 \<Rightarrow> u8 \<Rightarrow> u8 \<Rightarrow> u32" where
  "ubfx64 rd rn lsb width = ubfm64 rd rn lsb (ucast (ucast lsb + ucast width - 1 :: u32))"

definition ubfiz :: "u8 \<Rightarrow> u8 \<Rightarrow> u8 \<Rightarrow> u8 \<Rightarrow> u32" where
  "ubfiz rd rn lsb width =
     ubfm rd rn (ucast (31 AND 32 - ucast lsb :: u32)) (ucast (ucast width - 1 :: u32))"

definition ubfiz64 :: "u8 \<Rightarrow> u8 \<Rightarrow> u8 \<Rightarrow> u8 \<Rightarrow> u32" where
  "ubfiz64 rd rn lsb width =
     ubfm64 rd rn (ucast (63 AND 64 - ucast lsb :: u32)) (ucast (ucast width - 1 :: u32))"

definition extr :: "u8 \<Rightarrow> u8 \<Rightarrow> u8 \<Rightarrow> u8 \<Rightarrow> u32" where
  "extr rd rn rm lsb =
     I32 (0x13800000 OR (ucast rd AND 31) OR push_bit 5 (ucast rn AND 31)
      OR push_bit 16 (ucast rm AND 31) OR push_bit 10 (ucast lsb AND 63))"

section \<open>Data processing: extract, shift immediate, extend\<close>

definition extr64 :: "u8 \<Rightarrow> u8 \<Rightarrow> u8 \<Rightarrow> u8 \<Rightarrow> u32" where
  "extr64 rd rn rm lsb =
     I32 (0x93c00000 OR (ucast rd AND 31) OR push_bit 5 (ucast rn AND 31)
      OR push_bit 16 (ucast rm AND 31) OR push_bit 10 (ucast lsb AND 63))"

definition asr_i :: "u8 \<Rightarrow> u8 \<Rightarrow> u8 \<Rightarrow> u32" where
  "asr_i rd rn lsb = sbfm rd rn lsb 31"

definition asr64 :: "u8 \<Rightarrow> u8 \<Rightarrow> u8 \<Rightarrow> u32" where
  "asr64 rd rn lsb = sbfm64 rd rn lsb 63"

definition lsl_i :: "u8 \<Rightarrow> u8 \<Rightarrow> u8 \<Rightarrow> u32" where
  "lsl_i rd rn lsb =
     ubfm rd rn (ucast (31 AND 32 - ucast lsb :: u32)) (ucast (31 - ucast lsb :: u32))"

definition lsl64 :: "u8 \<Rightarrow> u8 \<Rightarrow> u8 \<Rightarrow> u32" where
  "lsl64 rd rn lsb =
     ubfm64 rd rn (ucast (63 AND 64 - ucast lsb :: u32)) (ucast (63 - ucast lsb :: u32))"

definition lsr_i :: "u8 \<Rightarrow> u8 \<Rightarrow> u8 \<Rightarrow> u32" where
  "lsr_i rd rn lsb = ubfm rd rn lsb 31"

definition lsr64 :: "u8 \<Rightarrow> u8 \<Rightarrow> u8 \<Rightarrow> u32" where
  "lsr64 rd rn lsb = ubfm64 rd rn lsb 63"

definition ror_i :: "u8 \<Rightarrow> u8 \<Rightarrow> u8 \<Rightarrow> u32" where
  "ror_i rd rn lsb = extr rd rn rn lsb"

definition ror64 :: "u8 \<Rightarrow> u8 \<Rightarrow> u8 \<Rightarrow> u32" where
  "ror64 rd rn lsb = extr64 rd rn rn lsb"

definition sxtb :: "u8 \<Rightarrow> u8 \<Rightarrow> u32" where
  "sxtb rd rn = sbfm rd rn 0 7"

definition sxtb64 :: "u8 \<Rightarrow> u8 \<Rightarrow> u32" where
  "sxtb64 rd rn = sbfm64 rd rn 0 7"

definition sxth :: "u8 \<Rightarrow> u8 \<Rightarrow> u32" where
  "sxth rd rn = sbfm rd rn 0 15"

definition sxth64 :: "u8 \<Rightarrow> u8 \<Rightarrow> u32" where
  "sxth64 rd rn = sbfm64 rd rn 0 15"

definition sxtw64 :: "u8 \<Rightarrow> u8 \<Rightarrow> u32" where
  "sxtw64 rd rn = sbfm64 rd rn 0 31"

definition uxtb :: "u8 \<Rightarrow> u8 \<Rightarrow> u32" where
  "uxtb rd rn = ubfm rd rn 0 7"

definition uxtb64 :: "u8 \<Rightarrow> u8 \<Rightarrow> u32" where
  "uxtb64 rd rn = ubfm64 rd rn 0 7"

definition uxth :: "u8 \<Rightarrow> u8 \<Rightarrow> u32" where
  "uxth rd rn = ubfm rd rn 0 15"

definition uxth64 :: "u8 \<Rightarrow> u8 \<Rightarrow> u32" where
  "uxth64 rd rn = ubfm64 rd rn 0 15"

section \<open>Data processing: move\<close>

definition mov_immed_u16 :: "u8 \<Rightarrow> u16 \<Rightarrow> u8 \<Rightarrow> u32" where
  "mov_immed_u16 reg val shift16 =
     I32 (0x52800000 OR push_bit 21 (ucast shift16 AND 3) OR push_bit 5 (ucast val)
      OR (ucast reg AND 31))"

definition mov64_immed_u16 :: "u8 \<Rightarrow> u16 \<Rightarrow> u8 \<Rightarrow> u32" where
  "mov64_immed_u16 reg val shift16 =
     I32 (0xd2800000 OR push_bit 21 (ucast shift16 AND 3) OR push_bit 5 (ucast val)
      OR (ucast reg AND 31))"

definition movk_immed_u16 :: "u8 \<Rightarrow> u16 \<Rightarrow> u8 \<Rightarrow> u32" where
  "movk_immed_u16 reg val shift16 =
     I32 (0x72800000 OR push_bit 21 (ucast shift16 AND 3) OR push_bit 5 (ucast val)
      OR (ucast reg AND 31))"

definition movk64_immed_u16 :: "u8 \<Rightarrow> u16 \<Rightarrow> u8 \<Rightarrow> u32" where
  "movk64_immed_u16 reg val shift16 =
     I32 (0xf2800000 OR push_bit 21 (ucast shift16 AND 3) OR push_bit 5 (ucast val)
      OR (ucast reg AND 31))"

definition movn_immed_u16 :: "u8 \<Rightarrow> u16 \<Rightarrow> u8 \<Rightarrow> u32" where
  "movn_immed_u16 reg val shift16 =
     I32 (0x12800000 OR push_bit 21 (ucast shift16 AND 3) OR push_bit 5 (ucast val)
      OR (ucast reg AND 31))"

definition movn64_immed_u16 :: "u8 \<Rightarrow> u16 \<Rightarrow> u8 \<Rightarrow> u32" where
  "movn64_immed_u16 reg val shift16 =
     I32 (0x92800000 OR push_bit 21 (ucast shift16 AND 3) OR push_bit 5 (ucast val)
      OR (ucast reg AND 31))"

definition mov_immed_s8 :: "u8 \<Rightarrow> u8 \<Rightarrow> u32" where
  "mov_immed_s8 reg val =
     (if val <s 0 then movn_immed_u16 reg (ucast (- (scast val) - 1 :: u32)) 0 else
       mov_immed_u16 reg (ucast (scast val :: u32)) 0)"

definition mov_immed_u8 :: "u8 \<Rightarrow> u8 \<Rightarrow> u32" where
  "mov_immed_u8 reg val = mov_immed_u16 reg (ucast (ucast val :: u32)) 0"

section \<open>Data processing: register\<close>

definition add_reg :: "u8 \<Rightarrow> u8 \<Rightarrow> u8 \<Rightarrow> shift_t \<Rightarrow> u8 \<Rightarrow> u32" where
  "add_reg rd rn rm st amount =
     I32 (0x0b000000 OR push_bit 22 (shift_val st) OR (ucast rd AND 31)
      OR push_bit 5 (ucast rn AND 31) OR push_bit 16 (ucast rm AND 31)
      OR push_bit 10 (ucast amount AND 63))"

definition add64_reg :: "u8 \<Rightarrow> u8 \<Rightarrow> u8 \<Rightarrow> shift_t \<Rightarrow> u8 \<Rightarrow> u32" where
  "add64_reg rd rn rm st amount =
     I32 (0x8b000000 OR push_bit 22 (shift_val st) OR (ucast rd AND 31)
      OR push_bit 5 (ucast rn AND 31) OR push_bit 16 (ucast rm AND 31)
      OR push_bit 10 (ucast amount AND 63))"

definition adds_reg :: "u8 \<Rightarrow> u8 \<Rightarrow> u8 \<Rightarrow> shift_t \<Rightarrow> u8 \<Rightarrow> u32" where
  "adds_reg rd rn rm st amount =
     I32 (0x2b000000 OR push_bit 22 (shift_val st) OR (ucast rd AND 31)
      OR push_bit 5 (ucast rn AND 31) OR push_bit 16 (ucast rm AND 31)
      OR push_bit 10 (ucast amount AND 63))"

definition adds64_reg :: "u8 \<Rightarrow> u8 \<Rightarrow> u8 \<Rightarrow> shift_t \<Rightarrow> u8 \<Rightarrow> u32" where
  "adds64_reg rd rn rm st amount =
     I32 (0xab000000 OR push_bit 22 (shift_val st) OR (ucast rd AND 31)
      OR push_bit 5 (ucast rn AND 31) OR push_bit 16 (ucast rm AND 31)
      OR push_bit 10 (ucast amount AND 63))"

definition sub_reg :: "u8 \<Rightarrow> u8 \<Rightarrow> u8 \<Rightarrow> shift_t \<Rightarrow> u8 \<Rightarrow> u32" where
  "sub_reg rd rn rm st amount =
     I32 (0x4b000000 OR push_bit 22 (shift_val st) OR (ucast rd AND 31)
      OR push_bit 5 (ucast rn AND 31) OR push_bit 16 (ucast rm AND 31)
      OR push_bit 10 (ucast amount AND 63))"

definition sub64_reg :: "u8 \<Rightarrow> u8 \<Rightarrow> u8 \<Rightarrow> shift_t \<Rightarrow> u8 \<Rightarrow> u32" where
  "sub64_reg rd rn rm st amount =
     I32 (0xcb000000 OR push_bit 22 (shift_val st) OR (ucast rd AND 31)
      OR push_bit 5 (ucast rn AND 31) OR push_bit 16 (ucast rm AND 31)
      OR push_bit 10 (ucast amount AND 63))"

definition subs_reg :: "u8 \<Rightarrow> u8 \<Rightarrow> u8 \<Rightarrow> shift_t \<Rightarrow> u8 \<Rightarrow> u32" where
  "subs_reg rd rn rm st amount =
     I32 (0x6b000000 OR push_bit 22 (shift_val st) OR (ucast rd AND 31)
      OR push_bit 5 (ucast rn AND 31) OR push_bit 16 (ucast rm AND 31)
      OR push_bit 10 (ucast amount AND 63))"

definition subs64_reg :: "u8 \<Rightarrow> u8 \<Rightarrow> u8 \<Rightarrow> shift_t \<Rightarrow> u8 \<Rightarrow> u32" where
  "subs64_reg rd rn rm st amount =
     I32 (0xeb000000 OR push_bit 22 (shift_val st) OR (ucast rd AND 31)
      OR push_bit 5 (ucast rn AND 31) OR push_bit 16 (ucast rm AND 31)
      OR push_bit 10 (ucast amount AND 63))"

definition cmn_reg :: "u8 \<Rightarrow> u8 \<Rightarrow> shift_t \<Rightarrow> u8 \<Rightarrow> u32" where
  "cmn_reg rn rm st amount = adds_reg 31 rn rm st amount"

definition cmn64_reg :: "u8 \<Rightarrow> u8 \<Rightarrow> shift_t \<Rightarrow> u8 \<Rightarrow> u32" where
  "cmn64_reg rn rm st amount = adds64_reg 31 rn rm st amount"

definition cmp_reg :: "u8 \<Rightarrow> u8 \<Rightarrow> shift_t \<Rightarrow> u8 \<Rightarrow> u32" where
  "cmp_reg rn rm st amount = subs_reg 31 rn rm st amount"

definition cmp64_reg :: "u8 \<Rightarrow> u8 \<Rightarrow> shift_t \<Rightarrow> u8 \<Rightarrow> u32" where
  "cmp64_reg rn rm st amount = subs64_reg 31 rn rm st amount"

definition ccmp_reg :: "u8 \<Rightarrow> u8 \<Rightarrow> u8 \<Rightarrow> u8 \<Rightarrow> u32" where
  "ccmp_reg rn rm alt_cc cond =
     I32 (0x7a400000 OR push_bit 5 (ucast rn AND 31) OR push_bit 16 (ucast rm AND 31)
      OR push_bit 12 (ucast cond AND 15) OR (ucast alt_cc AND 15))"

definition ccmp64_reg :: "u8 \<Rightarrow> u8 \<Rightarrow> u8 \<Rightarrow> u8 \<Rightarrow> u32" where
  "ccmp64_reg rn rm alt_cc cond =
     I32 (0xfa400000 OR push_bit 5 (ucast rn AND 31) OR push_bit 16 (ucast rm AND 31)
      OR push_bit 12 (ucast cond AND 15) OR (ucast alt_cc AND 15))"

definition ccmn_reg :: "u8 \<Rightarrow> u8 \<Rightarrow> u8 \<Rightarrow> u8 \<Rightarrow> u32" where
  "ccmn_reg rn rm alt_cc cond =
     I32 (0x3a400000 OR push_bit 5 (ucast rn AND 31) OR push_bit 16 (ucast rm AND 31)
      OR push_bit 12 (ucast cond AND 15) OR (ucast alt_cc AND 15))"

definition ccmn64_reg :: "u8 \<Rightarrow> u8 \<Rightarrow> u8 \<Rightarrow> u8 \<Rightarrow> u32" where
  "ccmn64_reg rn rm alt_cc cond =
     I32 (0xba400000 OR push_bit 5 (ucast rn AND 31) OR push_bit 16 (ucast rm AND 31)
      OR push_bit 12 (ucast cond AND 15) OR (ucast alt_cc AND 15))"

definition neg_reg :: "u8 \<Rightarrow> u8 \<Rightarrow> shift_t \<Rightarrow> u8 \<Rightarrow> u32" where
  "neg_reg rd rm st amount = sub_reg rd 31 rm st amount"

definition neg64_reg :: "u8 \<Rightarrow> u8 \<Rightarrow> shift_t \<Rightarrow> u8 \<Rightarrow> u32" where
  "neg64_reg rd rm st amount = sub64_reg rd 31 rm st amount"

definition negs_reg :: "u8 \<Rightarrow> u8 \<Rightarrow> shift_t \<Rightarrow> u8 \<Rightarrow> u32" where
  "negs_reg rd rm st amount = subs_reg rd 31 rm st amount"

definition negs64_reg :: "u8 \<Rightarrow> u8 \<Rightarrow> shift_t \<Rightarrow> u8 \<Rightarrow> u32" where
  "negs64_reg rd rm st amount = subs64_reg rd 31 rm st amount"

section \<open>Data processing: register with extend\<close>

definition add_reg_ext :: "u8 \<Rightarrow> u8 \<Rightarrow> u8 \<Rightarrow> reg_extend_t \<Rightarrow> u8 \<Rightarrow> u32" where
  "add_reg_ext rd rn rm extend sh =
     I32 (0x0b200000 OR push_bit 10 (ucast sh AND 7) OR (ucast rd AND 31)
      OR push_bit 5 (ucast rn AND 31) OR push_bit 16 (ucast rm AND 31)
      OR push_bit 13 (reg_extend_val extend AND 7))"

definition add64_reg_ext :: "u8 \<Rightarrow> u8 \<Rightarrow> u8 \<Rightarrow> reg_extend_t \<Rightarrow> u8 \<Rightarrow> u32" where
  "add64_reg_ext rd rn rm extend sh =
     I32 (0x8b200000 OR push_bit 10 (ucast sh AND 7) OR (ucast rd AND 31)
      OR push_bit 5 (ucast rn AND 31) OR push_bit 16 (ucast rm AND 31)
      OR push_bit 13 (reg_extend_val extend AND 7))"

definition adds_reg_ext :: "u8 \<Rightarrow> u8 \<Rightarrow> u8 \<Rightarrow> reg_extend_t \<Rightarrow> u8 \<Rightarrow> u32" where
  "adds_reg_ext rd rn rm extend sh =
     I32 (0x2b200000 OR push_bit 10 (ucast sh AND 7) OR (ucast rd AND 31)
      OR push_bit 5 (ucast rn AND 31) OR push_bit 16 (ucast rm AND 31)
      OR push_bit 13 (reg_extend_val extend AND 7))"

definition adds64_reg_ext :: "u8 \<Rightarrow> u8 \<Rightarrow> u8 \<Rightarrow> reg_extend_t \<Rightarrow> u8 \<Rightarrow> u32" where
  "adds64_reg_ext rd rn rm extend sh =
     I32 (0xab200000 OR push_bit 10 (ucast sh AND 7) OR (ucast rd AND 31)
      OR push_bit 5 (ucast rn AND 31) OR push_bit 16 (ucast rm AND 31)
      OR push_bit 13 (reg_extend_val extend AND 7))"

definition sub_reg_ext :: "u8 \<Rightarrow> u8 \<Rightarrow> u8 \<Rightarrow> reg_extend_t \<Rightarrow> u8 \<Rightarrow> u32" where
  "sub_reg_ext rd rn rm extend sh =
     I32 (0x4b200000 OR push_bit 10 (ucast sh AND 7) OR (ucast rd AND 31)
      OR push_bit 5 (ucast rn AND 31) OR push_bit 16 (ucast rm AND 31)
      OR push_bit 13 (reg_extend_val extend AND 7))"

definition sub64_reg_ext :: "u8 \<Rightarrow> u8 \<Rightarrow> u8 \<Rightarrow> reg_extend_t \<Rightarrow> u8 \<Rightarrow> u32" where
  "sub64_reg_ext rd rn rm extend sh =
     I32 (0xcb200000 OR push_bit 10 (ucast sh AND 7) OR (ucast rd AND 31)
      OR push_bit 5 (ucast rn AND 31) OR push_bit 16 (ucast rm AND 31)
      OR push_bit 13 (reg_extend_val extend AND 7))"

definition subs_reg_ext :: "u8 \<Rightarrow> u8 \<Rightarrow> u8 \<Rightarrow> reg_extend_t \<Rightarrow> u8 \<Rightarrow> u32" where
  "subs_reg_ext rd rn rm extend sh =
     I32 (0x6b200000 OR push_bit 10 (ucast sh AND 7) OR (ucast rd AND 31)
      OR push_bit 5 (ucast rn AND 31) OR push_bit 16 (ucast rm AND 31)
      OR push_bit 13 (reg_extend_val extend AND 7))"

definition subs64_reg_ext :: "u8 \<Rightarrow> u8 \<Rightarrow> u8 \<Rightarrow> reg_extend_t \<Rightarrow> u8 \<Rightarrow> u32" where
  "subs64_reg_ext rd rn rm extend sh =
     I32 (0xeb200000 OR push_bit 10 (ucast sh AND 7) OR (ucast rd AND 31)
      OR push_bit 5 (ucast rn AND 31) OR push_bit 16 (ucast rm AND 31)
      OR push_bit 13 (reg_extend_val extend AND 7))"

definition cmn_reg_ext :: "u8 \<Rightarrow> u8 \<Rightarrow> reg_extend_t \<Rightarrow> u8 \<Rightarrow> u32" where
  "cmn_reg_ext rn rm extend sh = adds_reg_ext 31 rn rm extend sh"

definition cmn64_reg_ext :: "u8 \<Rightarrow> u8 \<Rightarrow> reg_extend_t \<Rightarrow> u8 \<Rightarrow> u32" where
  "cmn64_reg_ext rn rm extend sh = adds64_reg_ext 31 rn rm extend sh"

definition cmp_reg_ext :: "u8 \<Rightarrow> u8 \<Rightarrow> reg_extend_t \<Rightarrow> u8 \<Rightarrow> u32" where
  "cmp_reg_ext rn rm extend sh = subs_reg_ext 31 rn rm extend sh"

definition cmp64_reg_ext :: "u8 \<Rightarrow> u8 \<Rightarrow> reg_extend_t \<Rightarrow> u8 \<Rightarrow> u32" where
  "cmp64_reg_ext rn rm extend sh = subs64_reg_ext 31 rn rm extend sh"

definition neg_reg_ext :: "u8 \<Rightarrow> u8 \<Rightarrow> reg_extend_t \<Rightarrow> u8 \<Rightarrow> u32" where
  "neg_reg_ext rd rm extend sh = sub_reg_ext rd 31 rm extend sh"

definition neg64_reg_ext :: "u8 \<Rightarrow> u8 \<Rightarrow> reg_extend_t \<Rightarrow> u8 \<Rightarrow> u32" where
  "neg64_reg_ext rd rm extend sh = sub64_reg_ext rd 31 rm extend sh"

definition negs_reg_ext :: "u8 \<Rightarrow> u8 \<Rightarrow> reg_extend_t \<Rightarrow> u8 \<Rightarrow> u32" where
  "negs_reg_ext rd rm extend sh = subs_reg_ext rd 31 rm extend sh"

definition negs64_reg_ext :: "u8 \<Rightarrow> u8 \<Rightarrow> reg_extend_t \<Rightarrow> u8 \<Rightarrow> u32" where
  "negs64_reg_ext rd rm extend sh = subs64_reg_ext rd 31 rm extend sh"

section \<open>Data processing: arithmetic with carry\<close>

definition adc_i :: "u8 \<Rightarrow> u8 \<Rightarrow> u8 \<Rightarrow> u32" where
  "adc_i rd rn rm =
     I32 (0x1a000000 OR (ucast rd AND 31) OR push_bit 5 (ucast rn AND 31)
      OR push_bit 16 (ucast rm AND 31))"

definition adc64 :: "u8 \<Rightarrow> u8 \<Rightarrow> u8 \<Rightarrow> u32" where
  "adc64 rd rn rm =
     I32 (0x9a000000 OR (ucast rd AND 31) OR push_bit 5 (ucast rn AND 31)
      OR push_bit 16 (ucast rm AND 31))"

definition adcs :: "u8 \<Rightarrow> u8 \<Rightarrow> u8 \<Rightarrow> u32" where
  "adcs rd rn rm =
     I32 (0x3a000000 OR (ucast rd AND 31) OR push_bit 5 (ucast rn AND 31)
      OR push_bit 16 (ucast rm AND 31))"

definition adcs64 :: "u8 \<Rightarrow> u8 \<Rightarrow> u8 \<Rightarrow> u32" where
  "adcs64 rd rn rm =
     I32 (0xba000000 OR (ucast rd AND 31) OR push_bit 5 (ucast rn AND 31)
      OR push_bit 16 (ucast rm AND 31))"

definition sbc_i :: "u8 \<Rightarrow> u8 \<Rightarrow> u8 \<Rightarrow> u32" where
  "sbc_i rd rn rm =
     I32 (0x5a000000 OR (ucast rd AND 31) OR push_bit 5 (ucast rn AND 31)
      OR push_bit 16 (ucast rm AND 31))"

definition sbc64 :: "u8 \<Rightarrow> u8 \<Rightarrow> u8 \<Rightarrow> u32" where
  "sbc64 rd rn rm =
     I32 (0xda000000 OR (ucast rd AND 31) OR push_bit 5 (ucast rn AND 31)
      OR push_bit 16 (ucast rm AND 31))"

definition sbcs :: "u8 \<Rightarrow> u8 \<Rightarrow> u8 \<Rightarrow> u32" where
  "sbcs rd rn rm =
     I32 (0x7a000000 OR (ucast rd AND 31) OR push_bit 5 (ucast rn AND 31)
      OR push_bit 16 (ucast rm AND 31))"

definition sbcs64 :: "u8 \<Rightarrow> u8 \<Rightarrow> u8 \<Rightarrow> u32" where
  "sbcs64 rd rn rm =
     I32 (0xfa000000 OR (ucast rd AND 31) OR push_bit 5 (ucast rn AND 31)
      OR push_bit 16 (ucast rm AND 31))"

definition ngc :: "u8 \<Rightarrow> u8 \<Rightarrow> u32" where
  "ngc rd rm = sbc_i rd 31 rm"

definition ngc64 :: "u8 \<Rightarrow> u8 \<Rightarrow> u32" where
  "ngc64 rd rm = sbc64 rd 31 rm"

definition ngcs :: "u8 \<Rightarrow> u8 \<Rightarrow> u32" where
  "ngcs rd rm = sbcs rd 31 rm"

definition ngcs64 :: "u8 \<Rightarrow> u8 \<Rightarrow> u32" where
  "ngcs64 rd rm = sbcs64 rd 31 rm"

section \<open>Data processing: conditional select\<close>

definition csel :: "u8 \<Rightarrow> u8 \<Rightarrow> u8 \<Rightarrow> u8 \<Rightarrow> u32" where
  "csel rd rn rm cond =
     I32 (0x1a800000 OR (ucast rd AND 31) OR push_bit 5 (ucast rn AND 31)
      OR push_bit 16 (ucast rm AND 31) OR push_bit 12 (ucast cond AND 15))"

definition csel64 :: "u8 \<Rightarrow> u8 \<Rightarrow> u8 \<Rightarrow> u8 \<Rightarrow> u32" where
  "csel64 rd rn rm cond =
     I32 (0x9a800000 OR (ucast rd AND 31) OR push_bit 5 (ucast rn AND 31)
      OR push_bit 6 (ucast rm AND 31) OR push_bit 12 (ucast cond AND 15))"

definition csinc :: "u8 \<Rightarrow> u8 \<Rightarrow> u8 \<Rightarrow> u8 \<Rightarrow> u32" where
  "csinc rd rn rm cond =
     I32 (0x1a800400 OR (ucast rd AND 31) OR push_bit 5 (ucast rn AND 31)
      OR push_bit 16 (ucast rm AND 31) OR push_bit 12 (ucast cond AND 15))"

definition csinc64 :: "u8 \<Rightarrow> u8 \<Rightarrow> u8 \<Rightarrow> u8 \<Rightarrow> u32" where
  "csinc64 rd rn rm cond =
     I32 (0x9a800400 OR (ucast rd AND 31) OR push_bit 5 (ucast rn AND 31)
      OR push_bit 16 (ucast rm AND 31) OR push_bit 12 (ucast cond AND 15))"

definition csinv :: "u8 \<Rightarrow> u8 \<Rightarrow> u8 \<Rightarrow> u8 \<Rightarrow> u32" where
  "csinv rd rn rm cond =
     I32 (0x5a800000 OR (ucast rd AND 31) OR push_bit 5 (ucast rn AND 31)
      OR push_bit 16 (ucast rm AND 31) OR push_bit 12 (ucast cond AND 15))"

definition csinv64 :: "u8 \<Rightarrow> u8 \<Rightarrow> u8 \<Rightarrow> u8 \<Rightarrow> u32" where
  "csinv64 rd rn rm cond =
     I32 (0xda800000 OR (ucast rd AND 31) OR push_bit 5 (ucast rn AND 31)
      OR push_bit 16 (ucast rm AND 31) OR push_bit 12 (ucast cond AND 15))"

definition csetm :: "u8 \<Rightarrow> u8 \<Rightarrow> u32" where
  "csetm rd cond = csinv rd 31 31 (ucast (ucast cond XOR 1 :: u32))"

definition csetm64 :: "u8 \<Rightarrow> u8 \<Rightarrow> u32" where
  "csetm64 rd cond = csinv64 rd 31 31 (ucast (ucast cond XOR 1 :: u32))"

definition cset :: "u8 \<Rightarrow> u8 \<Rightarrow> u32" where
  "cset rd cond = csinc rd 31 31 (ucast (ucast cond XOR 1 :: u32))"

definition cset64 :: "u8 \<Rightarrow> u8 \<Rightarrow> u32" where
  "cset64 rd cond = csinc64 rd 31 31 (ucast (ucast cond XOR 1 :: u32))"

definition cinc :: "u8 \<Rightarrow> u8 \<Rightarrow> u8 \<Rightarrow> u32" where
  "cinc rd rn cond = csinc rd rn rn (ucast (ucast cond XOR 1 :: u32))"

definition and_reg :: "u8 \<Rightarrow> u8 \<Rightarrow> u8 \<Rightarrow> shift_t \<Rightarrow> u8 \<Rightarrow> u32" where
  "and_reg rd rn rm st amount =
     I32 (0x0a000000 OR push_bit 22 (shift_val st) OR (ucast rd AND 31)
      OR push_bit 5 (ucast rn AND 31) OR push_bit 16 (ucast rm AND 31)
      OR push_bit 10 (ucast amount AND 63))"

section \<open>Data processing: logic\<close>

definition and64_reg :: "u8 \<Rightarrow> u8 \<Rightarrow> u8 \<Rightarrow> shift_t \<Rightarrow> u8 \<Rightarrow> u32" where
  "and64_reg rd rn rm st amount =
     I32 (0x8a000000 OR push_bit 22 (shift_val st) OR (ucast rd AND 31)
      OR push_bit 5 (ucast rn AND 31) OR push_bit 16 (ucast rm AND 31)
      OR push_bit 10 (ucast amount AND 63))"

definition ands_reg :: "u8 \<Rightarrow> u8 \<Rightarrow> u8 \<Rightarrow> shift_t \<Rightarrow> u8 \<Rightarrow> u32" where
  "ands_reg rd rn rm st amount =
     I32 (0x6a000000 OR push_bit 22 (shift_val st) OR (ucast rd AND 31)
      OR push_bit 5 (ucast rn AND 31) OR push_bit 16 (ucast rm AND 31)
      OR push_bit 10 (ucast amount AND 63))"

definition ands64_reg :: "u8 \<Rightarrow> u8 \<Rightarrow> u8 \<Rightarrow> shift_t \<Rightarrow> u8 \<Rightarrow> u32" where
  "ands64_reg rd rn rm st amount =
     I32 (0xea000000 OR push_bit 22 (shift_val st) OR (ucast rd AND 31)
      OR push_bit 5 (ucast rn AND 31) OR push_bit 16 (ucast rm AND 31)
      OR push_bit 10 (ucast amount AND 63))"

definition bic_reg :: "u8 \<Rightarrow> u8 \<Rightarrow> u8 \<Rightarrow> shift_t \<Rightarrow> u8 \<Rightarrow> u32" where
  "bic_reg rd rn rm st amount =
     I32 (0x0a200000 OR push_bit 22 (shift_val st) OR (ucast rd AND 31)
      OR push_bit 5 (ucast rn AND 31) OR push_bit 16 (ucast rm AND 31)
      OR push_bit 10 (ucast amount AND 63))"

definition bic64_reg :: "u8 \<Rightarrow> u8 \<Rightarrow> u8 \<Rightarrow> shift_t \<Rightarrow> u8 \<Rightarrow> u32" where
  "bic64_reg rd rn rm st amount =
     I32 (0x8a200000 OR push_bit 22 (shift_val st) OR (ucast rd AND 31)
      OR push_bit 5 (ucast rn AND 31) OR push_bit 16 (ucast rm AND 31)
      OR push_bit 10 (ucast amount AND 63))"

definition bics_reg :: "u8 \<Rightarrow> u8 \<Rightarrow> u8 \<Rightarrow> shift_t \<Rightarrow> u8 \<Rightarrow> u32" where
  "bics_reg rd rn rm st amount =
     I32 (0x6a200000 OR push_bit 22 (shift_val st) OR (ucast rd AND 31)
      OR push_bit 5 (ucast rn AND 31) OR push_bit 16 (ucast rm AND 31)
      OR push_bit 10 (ucast amount AND 63))"

definition bics64_reg :: "u8 \<Rightarrow> u8 \<Rightarrow> u8 \<Rightarrow> shift_t \<Rightarrow> u8 \<Rightarrow> u32" where
  "bics64_reg rd rn rm st amount =
     I32 (0xea200000 OR push_bit 22 (shift_val st) OR (ucast rd AND 31)
      OR push_bit 5 (ucast rn AND 31) OR push_bit 16 (ucast rm AND 31)
      OR push_bit 10 (ucast amount AND 63))"

definition eon_reg :: "u8 \<Rightarrow> u8 \<Rightarrow> u8 \<Rightarrow> shift_t \<Rightarrow> u8 \<Rightarrow> u32" where
  "eon_reg rd rn rm st amount =
     I32 (0x4a200000 OR push_bit 22 (shift_val st) OR (ucast rd AND 31)
      OR push_bit 5 (ucast rn AND 31) OR push_bit 16 (ucast rm AND 31)
      OR push_bit 10 (ucast amount AND 63))"

definition eon64_reg :: "u8 \<Rightarrow> u8 \<Rightarrow> u8 \<Rightarrow> shift_t \<Rightarrow> u8 \<Rightarrow> u32" where
  "eon64_reg rd rn rm st amount =
     I32 (0xca200000 OR push_bit 22 (shift_val st) OR (ucast rd AND 31)
      OR push_bit 5 (ucast rn AND 31) OR push_bit 16 (ucast rm AND 31)
      OR push_bit 10 (ucast amount AND 63))"

definition eor_reg :: "u8 \<Rightarrow> u8 \<Rightarrow> u8 \<Rightarrow> shift_t \<Rightarrow> u8 \<Rightarrow> u32" where
  "eor_reg rd rn rm st amount =
     I32 (0x4a000000 OR push_bit 22 (shift_val st) OR (ucast rd AND 31)
      OR push_bit 5 (ucast rn AND 31) OR push_bit 16 (ucast rm AND 31)
      OR push_bit 10 (ucast amount AND 63))"

definition eor64_reg :: "u8 \<Rightarrow> u8 \<Rightarrow> u8 \<Rightarrow> shift_t \<Rightarrow> u8 \<Rightarrow> u32" where
  "eor64_reg rd rn rm st amount =
     I32 (0xca000000 OR push_bit 22 (shift_val st) OR (ucast rd AND 31)
      OR push_bit 5 (ucast rn AND 31) OR push_bit 16 (ucast rm AND 31)
      OR push_bit 10 (ucast amount AND 63))"

definition orr_reg :: "u8 \<Rightarrow> u8 \<Rightarrow> u8 \<Rightarrow> shift_t \<Rightarrow> u8 \<Rightarrow> u32" where
  "orr_reg rd rn rm st amount =
     I32 (0x2a000000 OR push_bit 22 (shift_val st) OR (ucast rd AND 31)
      OR push_bit 5 (ucast rn AND 31) OR push_bit 16 (ucast rm AND 31)
      OR push_bit 10 (ucast amount AND 63))"

definition orr64_reg :: "u8 \<Rightarrow> u8 \<Rightarrow> u8 \<Rightarrow> shift_t \<Rightarrow> u8 \<Rightarrow> u32" where
  "orr64_reg rd rn rm st amount =
     I32 (0xaa000000 OR push_bit 22 (shift_val st) OR (ucast rd AND 31)
      OR push_bit 5 (ucast rn AND 31) OR push_bit 16 (ucast rm AND 31)
      OR push_bit 10 (ucast amount AND 63))"

definition orn_reg :: "u8 \<Rightarrow> u8 \<Rightarrow> u8 \<Rightarrow> shift_t \<Rightarrow> u8 \<Rightarrow> u32" where
  "orn_reg rd rn rm st amount =
     I32 (0x2a200000 OR push_bit 22 (shift_val st) OR (ucast rd AND 31)
      OR push_bit 5 (ucast rn AND 31) OR push_bit 16 (ucast rm AND 31)
      OR push_bit 10 (ucast amount AND 63))"

definition orn64_reg :: "u8 \<Rightarrow> u8 \<Rightarrow> u8 \<Rightarrow> shift_t \<Rightarrow> u8 \<Rightarrow> u32" where
  "orn64_reg rd rn rm st amount =
     I32 (0xaa200000 OR push_bit 22 (shift_val st) OR (ucast rd AND 31)
      OR push_bit 5 (ucast rn AND 31) OR push_bit 16 (ucast rm AND 31)
      OR push_bit 10 (ucast amount AND 63))"

definition mvn_reg :: "u8 \<Rightarrow> u8 \<Rightarrow> shift_t \<Rightarrow> u8 \<Rightarrow> u32" where
  "mvn_reg rd rm st amount = orn_reg rd 31 rm st amount"

definition mvn64_reg :: "u8 \<Rightarrow> u8 \<Rightarrow> shift_t \<Rightarrow> u8 \<Rightarrow> u32" where
  "mvn64_reg rd rm st amount = orn64_reg rd 31 rm st amount"

definition tst_reg :: "u8 \<Rightarrow> u8 \<Rightarrow> shift_t \<Rightarrow> u8 \<Rightarrow> u32" where
  "tst_reg rn rm st amount = ands_reg 31 rn rm st amount"

definition tst64_reg :: "u8 \<Rightarrow> u8 \<Rightarrow> shift_t \<Rightarrow> u8 \<Rightarrow> u32" where
  "tst64_reg rn rm st amount = ands64_reg 31 rn rm st amount"

definition mov_reg :: "u8 \<Rightarrow> u8 \<Rightarrow> u32" where
  "mov_reg rd rm = orr_reg rd 31 rm LSL 0"

definition mov64_reg :: "u8 \<Rightarrow> u8 \<Rightarrow> u32" where
  "mov64_reg rd rm = orr64_reg rd 31 rm LSL 0"

section \<open>Data processing: move register, shift register\<close>

definition asrv :: "u8 \<Rightarrow> u8 \<Rightarrow> u8 \<Rightarrow> u32" where
  "asrv rd rn rm =
     I32 (0x1ac02800 OR (ucast rd AND 31) OR push_bit 5 (ucast rn AND 31)
      OR push_bit 16 (ucast rm AND 31))"

definition asrv64 :: "u8 \<Rightarrow> u8 \<Rightarrow> u8 \<Rightarrow> u32" where
  "asrv64 rd rn rm =
     I32 (0x9ac02800 OR (ucast rd AND 31) OR push_bit 5 (ucast rn AND 31)
      OR push_bit 16 (ucast rm AND 31))"

definition lslv :: "u8 \<Rightarrow> u8 \<Rightarrow> u8 \<Rightarrow> u32" where
  "lslv rd rn rm =
     I32 (0x1ac02000 OR (ucast rd AND 31) OR push_bit 5 (ucast rn AND 31)
      OR push_bit 16 (ucast rm AND 31))"

definition lslv64 :: "u8 \<Rightarrow> u8 \<Rightarrow> u8 \<Rightarrow> u32" where
  "lslv64 rd rn rm =
     I32 (0x9ac02000 OR (ucast rd AND 31) OR push_bit 5 (ucast rn AND 31)
      OR push_bit 16 (ucast rm AND 31))"

definition lsrv :: "u8 \<Rightarrow> u8 \<Rightarrow> u8 \<Rightarrow> u32" where
  "lsrv rd rn rm =
     I32 (0x1ac02400 OR (ucast rd AND 31) OR push_bit 5 (ucast rn AND 31)
      OR push_bit 16 (ucast rm AND 31))"

definition lsrv64 :: "u8 \<Rightarrow> u8 \<Rightarrow> u8 \<Rightarrow> u32" where
  "lsrv64 rd rn rm =
     I32 (0x9ac02400 OR (ucast rd AND 31) OR push_bit 5 (ucast rn AND 31)
      OR push_bit 16 (ucast rm AND 31))"

definition rorv :: "u8 \<Rightarrow> u8 \<Rightarrow> u8 \<Rightarrow> u32" where
  "rorv rd rn rm =
     I32 (0x1ac02c00 OR (ucast rd AND 31) OR push_bit 5 (ucast rn AND 31)
      OR push_bit 16 (ucast rm AND 31))"

definition rorv64 :: "u8 \<Rightarrow> u8 \<Rightarrow> u8 \<Rightarrow> u32" where
  "rorv64 rd rn rm =
     I32 (0x9ac02c00 OR (ucast rd AND 31) OR push_bit 5 (ucast rn AND 31)
      OR push_bit 16 (ucast rm AND 31))"

definition madd_i :: "u8 \<Rightarrow> u8 \<Rightarrow> u8 \<Rightarrow> u8 \<Rightarrow> u32" where
  "madd_i rd ra rn rm =
     I32 (0x1b000000 OR (ucast rd AND 31) OR push_bit 5 (ucast rn AND 31)
      OR push_bit 10 (ucast ra AND 31) OR push_bit 16 (ucast rm AND 31))"

definition madd64 :: "u8 \<Rightarrow> u8 \<Rightarrow> u8 \<Rightarrow> u8 \<Rightarrow> u32" where
  "madd64 rd ra rn rm =
     I32 (0x9b000000 OR (ucast rd AND 31) OR push_bit 5 (ucast rn AND 31)
      OR push_bit 10 (ucast ra AND 31) OR push_bit 16 (ucast rm AND 31))"

section \<open>Data processing: multiply and divide\<close>

definition msub_i :: "u8 \<Rightarrow> u8 \<Rightarrow> u8 \<Rightarrow> u8 \<Rightarrow> u32" where
  "msub_i rd ra rn rm =
     I32 (0x1b008000 OR (ucast rd AND 31) OR push_bit 5 (ucast rn AND 31)
      OR push_bit 10 (ucast ra AND 31) OR push_bit 16 (ucast rm AND 31))"

definition msub64 :: "u8 \<Rightarrow> u8 \<Rightarrow> u8 \<Rightarrow> u8 \<Rightarrow> u32" where
  "msub64 rd ra rn rm =
     I32 (0x9b008000 OR (ucast rd AND 31) OR push_bit 5 (ucast rn AND 31)
      OR push_bit 10 (ucast ra AND 31) OR push_bit 16 (ucast rm AND 31))"

definition mneg_i :: "u8 \<Rightarrow> u8 \<Rightarrow> u8 \<Rightarrow> u32" where
  "mneg_i rd rn rm = msub_i rd 31 rn rm"

definition mneg64 :: "u8 \<Rightarrow> u8 \<Rightarrow> u8 \<Rightarrow> u32" where
  "mneg64 rd rn rm = msub64 rd 31 rn rm"

definition mul_i :: "u8 \<Rightarrow> u8 \<Rightarrow> u8 \<Rightarrow> u32" where
  "mul_i rd rn rm = madd_i rd 31 rn rm"

definition mul64 :: "u8 \<Rightarrow> u8 \<Rightarrow> u8 \<Rightarrow> u32" where
  "mul64 rd rn rm = madd64 rd 31 rn rm"

definition smaddl :: "u8 \<Rightarrow> u8 \<Rightarrow> u8 \<Rightarrow> u8 \<Rightarrow> u32" where
  "smaddl rd ra rn rm =
     I32 (0x9b200000 OR (ucast rd AND 31) OR push_bit 5 (ucast rn AND 31)
      OR push_bit 10 (ucast ra AND 31) OR push_bit 16 (ucast rm AND 31))"

definition smsubl :: "u8 \<Rightarrow> u8 \<Rightarrow> u8 \<Rightarrow> u8 \<Rightarrow> u32" where
  "smsubl rd ra rn rm =
     I32 (0x9b208000 OR (ucast rd AND 31) OR push_bit 5 (ucast rn AND 31)
      OR push_bit 10 (ucast ra AND 31) OR push_bit 16 (ucast rm AND 31))"

definition smnegl :: "u8 \<Rightarrow> u8 \<Rightarrow> u8 \<Rightarrow> u32" where
  "smnegl rd rn rm = smsubl rd 31 rn rm"

definition smull :: "u8 \<Rightarrow> u8 \<Rightarrow> u8 \<Rightarrow> u32" where
  "smull rd rn rm = smaddl rd 31 rn rm"

definition umaddl :: "u8 \<Rightarrow> u8 \<Rightarrow> u8 \<Rightarrow> u8 \<Rightarrow> u32" where
  "umaddl rd ra rn rm =
     I32 (0x9ba00000 OR (ucast rd AND 31) OR push_bit 5 (ucast rn AND 31)
      OR push_bit 10 (ucast ra AND 31) OR push_bit 16 (ucast rm AND 31))"

definition umsubl :: "u8 \<Rightarrow> u8 \<Rightarrow> u8 \<Rightarrow> u8 \<Rightarrow> u32" where
  "umsubl rd ra rn rm =
     I32 (0x9ba08000 OR (ucast rd AND 31) OR push_bit 5 (ucast rn AND 31)
      OR push_bit 10 (ucast ra AND 31) OR push_bit 16 (ucast rm AND 31))"

definition umnegl :: "u8 \<Rightarrow> u8 \<Rightarrow> u8 \<Rightarrow> u32" where
  "umnegl rd rn rm = umsubl rd 31 rn rm"

definition umull :: "u8 \<Rightarrow> u8 \<Rightarrow> u8 \<Rightarrow> u32" where
  "umull rd rn rm = umaddl rd 31 rn rm"

definition umulh :: "u8 \<Rightarrow> u8 \<Rightarrow> u8 \<Rightarrow> u32" where
  "umulh rd rn rm =
     I32 (0x9bc07c00 OR (ucast rd AND 31) OR push_bit 5 (ucast rn AND 31)
      OR push_bit 16 (ucast rm AND 31))"

definition smulh :: "u8 \<Rightarrow> u8 \<Rightarrow> u8 \<Rightarrow> u32" where
  "smulh rd rn rm =
     I32 (0x9b407c00 OR (ucast rd AND 31) OR push_bit 5 (ucast rn AND 31)
      OR push_bit 16 (ucast rm AND 31))"

definition sdiv_i :: "u8 \<Rightarrow> u8 \<Rightarrow> u8 \<Rightarrow> u32" where
  "sdiv_i rd rn rm =
     I32 (0x1ac00c00 OR (ucast rd AND 31) OR push_bit 5 (ucast rn AND 31)
      OR push_bit 16 (ucast rm AND 31))"

definition sdiv64 :: "u8 \<Rightarrow> u8 \<Rightarrow> u8 \<Rightarrow> u32" where
  "sdiv64 rd rn rm =
     I32 (0x9ac00c00 OR (ucast rd AND 31) OR push_bit 5 (ucast rn AND 31)
      OR push_bit 16 (ucast rm AND 31))"

definition udiv_i :: "u8 \<Rightarrow> u8 \<Rightarrow> u8 \<Rightarrow> u32" where
  "udiv_i rd rn rm =
     I32 (0x1ac00800 OR (ucast rd AND 31) OR push_bit 5 (ucast rn AND 31)
      OR push_bit 16 (ucast rm AND 31))"

definition udiv64 :: "u8 \<Rightarrow> u8 \<Rightarrow> u8 \<Rightarrow> u32" where
  "udiv64 rd rn rm =
     I32 (0x9ac00800 OR (ucast rd AND 31) OR push_bit 5 (ucast rn AND 31)
      OR push_bit 16 (ucast rm AND 31))"

definition cls_i :: "u8 \<Rightarrow> u8 \<Rightarrow> u32" where
  "cls_i rd rn = I32 (0x5ac01400 OR (ucast rd AND 31) OR push_bit 5 (ucast rn AND 31))"

definition cls64 :: "u8 \<Rightarrow> u8 \<Rightarrow> u32" where
  "cls64 rd rn = I32 (0xdac01400 OR (ucast rd AND 31) OR push_bit 5 (ucast rn AND 31))"

definition clz_i :: "u8 \<Rightarrow> u8 \<Rightarrow> u32" where
  "clz_i rd rn = I32 (0x5ac01000 OR (ucast rd AND 31) OR push_bit 5 (ucast rn AND 31))"

definition clz64 :: "u8 \<Rightarrow> u8 \<Rightarrow> u32" where
  "clz64 rd rn = I32 (0xdac01000 OR (ucast rd AND 31) OR push_bit 5 (ucast rn AND 31))"

definition rbit :: "u8 \<Rightarrow> u8 \<Rightarrow> u32" where
  "rbit rd rn = I32 (0x5ac00000 OR (ucast rd AND 31) OR push_bit 5 (ucast rn AND 31))"

section \<open>Data processing: bit operations\<close>

definition rbit64 :: "u8 \<Rightarrow> u8 \<Rightarrow> u32" where
  "rbit64 rd rn = I32 (0xdac00000 OR (ucast rd AND 31) OR push_bit 5 (ucast rn AND 31))"

definition rev_i :: "u8 \<Rightarrow> u8 \<Rightarrow> u32" where
  "rev_i rd rn = I32 (0x5ac00800 OR (ucast rd AND 31) OR push_bit 5 (ucast rn AND 31))"

definition rev16 :: "u8 \<Rightarrow> u8 \<Rightarrow> u32" where
  "rev16 rd rn = I32 (0x5ac00400 OR (ucast rd AND 31) OR push_bit 5 (ucast rn AND 31))"

definition rev16_64 :: "u8 \<Rightarrow> u8 \<Rightarrow> u32" where
  "rev16_64 rd rn = I32 (0xdac00400 OR (ucast rd AND 31) OR push_bit 5 (ucast rn AND 31))"

definition rev32 :: "u8 \<Rightarrow> u8 \<Rightarrow> u32" where
  "rev32 rd rn = I32 (0xdac00800 OR (ucast rd AND 31) OR push_bit 5 (ucast rn AND 31))"

definition rev64 :: "u8 \<Rightarrow> u8 \<Rightarrow> u32" where
  "rev64 rd rn = I32 (0xdac00c00 OR (ucast rd AND 31) OR push_bit 5 (ucast rn AND 31))"

end
