(* ===== verification/A64_FP.thy ===== *)
theory A64_FP
  imports A64_Encode
begin

text \<open>
  The floating-point and SIMD encoders of \<open>emu68/include/A64.h\<close>, in the order of the
  header, with the conventions of theory \<open>A64_Encode\<close>. The two functions that move a
  general register to and from one lane of a vector register
  (\<open>mov_reg_to_simd\<close>, \<open>mov_simd_to_reg\<close>) carry the emulated status registers: the
  translator keeps SR, FPCR and FPSR in lanes of \<open>v19\<close>.
\<close>

datatype ts_t = TS_B | TS_H | TS_S | TS_D

fun ts_val :: "ts_t \<Rightarrow> u32" where
  "ts_val TS_B = 1" | "ts_val TS_H = 2" | "ts_val TS_S = 4" | "ts_val TS_D = 8"

definition fabsd :: "u8 \<Rightarrow> u8 \<Rightarrow> u32" where
  "fabsd v_dst v_src =
     I32 (0x1e60c000 OR (ucast v_dst AND 31) OR push_bit 5 (ucast v_src AND 31))"

definition fabss :: "u8 \<Rightarrow> u8 \<Rightarrow> u32" where
  "fabss v_dst v_src =
     I32 (0x1e20c000 OR (ucast v_dst AND 31) OR push_bit 5 (ucast v_src AND 31))"

definition faddd :: "u8 \<Rightarrow> u8 \<Rightarrow> u8 \<Rightarrow> u32" where
  "faddd v_dst v_first v_second =
     I32 (0x1e602800 OR (ucast v_dst AND 31) OR push_bit 5 (ucast v_first AND 31)
      OR push_bit 16 (ucast v_second AND 31))"

definition fadds :: "u8 \<Rightarrow> u8 \<Rightarrow> u8 \<Rightarrow> u32" where
  "fadds v_dst v_first v_second =
     I32 (0x1e202800 OR (ucast v_dst AND 31) OR push_bit 5 (ucast v_first AND 31)
      OR push_bit 16 (ucast v_second AND 31))"

definition fcmpd :: "u8 \<Rightarrow> u8 \<Rightarrow> u32" where
  "fcmpd v_dst v_src =
     I32 (0x1e602000 OR push_bit 5 (ucast v_dst AND 31) OR push_bit 16 (ucast v_src AND 31))"

definition fcmps :: "u8 \<Rightarrow> u8 \<Rightarrow> u32" where
  "fcmps v_dst v_src =
     I32 (0x1e202000 OR push_bit 5 (ucast v_dst AND 31) OR push_bit 16 (ucast v_src AND 31))"

definition fcmpzd :: "u8 \<Rightarrow> u32" where
  "fcmpzd v_src = I32 (0x1e602008 OR push_bit 5 (ucast v_src AND 31))"

definition fcmpzs :: "u8 \<Rightarrow> u32" where
  "fcmpzs v_src = I32 (0x1e202008 OR push_bit 5 (ucast v_src AND 31))"

definition fcpyd :: "u8 \<Rightarrow> u8 \<Rightarrow> u32" where
  "fcpyd v_dst v_src =
     I32 (0x1e604000 OR (ucast v_dst AND 31) OR push_bit 5 (ucast v_src AND 31))"

definition fcvtds :: "u8 \<Rightarrow> u8 \<Rightarrow> u32" where
  "fcvtds d_dst s_src =
     I32 (0x1e22c000 OR (ucast d_dst AND 31) OR push_bit 5 (ucast s_src AND 31))"

definition fcvtsd :: "u8 \<Rightarrow> u8 \<Rightarrow> u32" where
  "fcvtsd s_dst d_src =
     I32 (0x1e624000 OR (ucast s_dst AND 31) OR push_bit 5 (ucast d_src AND 31))"

definition fdivd :: "u8 \<Rightarrow> u8 \<Rightarrow> u8 \<Rightarrow> u32" where
  "fdivd v_dst v_dividend v_divisor =
     I32 (0x1e601800 OR (ucast v_dst AND 31) OR push_bit 5 (ucast v_dividend AND 31)
      OR push_bit 16 (ucast v_divisor AND 31))"

definition fldd :: "u8 \<Rightarrow> u8 \<Rightarrow> u16 \<Rightarrow> u32" where
  "fldd v_dst base offset9 =
     I32 (0xfc400000 OR push_bit 5 (ucast base AND 31) OR (ucast v_dst AND 31)
      OR push_bit 12 (scast offset9 AND 0x1ff))"

definition fldd_preindex :: "u8 \<Rightarrow> u8 \<Rightarrow> u16 \<Rightarrow> u32" where
  "fldd_preindex v_dst base offset9 =
     I32 (0xfc400c00 OR push_bit 5 (ucast base AND 31) OR (ucast v_dst AND 31)
      OR push_bit 12 (scast offset9 AND 0x1ff))"

definition fldd_postindex :: "u8 \<Rightarrow> u8 \<Rightarrow> u16 \<Rightarrow> u32" where
  "fldd_postindex v_dst base offset9 =
     I32 (0xfc400400 OR push_bit 5 (ucast base AND 31) OR (ucast v_dst AND 31)
      OR push_bit 12 (scast offset9 AND 0x1ff))"

definition fldd_pimm :: "u8 \<Rightarrow> u8 \<Rightarrow> u16 \<Rightarrow> u32" where
  "fldd_pimm v_dst base offset12 =
     I32 (0xfd400000 OR push_bit 5 (ucast base AND 31) OR (ucast v_dst AND 31)
      OR push_bit 10 (ucast offset12 AND 0xfff))"

definition flds_preindex :: "u8 \<Rightarrow> u8 \<Rightarrow> u16 \<Rightarrow> u32" where
  "flds_preindex v_dst base offset9 =
     I32 (0xbc400c00 OR push_bit 5 (ucast base AND 31) OR (ucast v_dst AND 31)
      OR push_bit 12 (scast offset9 AND 0x1ff))"

definition flds_postindex :: "u8 \<Rightarrow> u8 \<Rightarrow> u16 \<Rightarrow> u32" where
  "flds_postindex v_dst base offset9 =
     I32 (0xbc400400 OR push_bit 5 (ucast base AND 31) OR (ucast v_dst AND 31)
      OR push_bit 12 (scast offset9 AND 0x1ff))"

definition flds :: "u8 \<Rightarrow> u8 \<Rightarrow> u16 \<Rightarrow> u32" where
  "flds v_dst base offset9 =
     I32 (0xbc400000 OR push_bit 5 (ucast base AND 31) OR (ucast v_dst AND 31)
      OR push_bit 12 (scast offset9 AND 0x1ff))"

definition flds_pimm :: "u8 \<Rightarrow> u8 \<Rightarrow> u16 \<Rightarrow> u32" where
  "flds_pimm v_dst base offset12 =
     I32 (0xbd400000 OR push_bit 5 (ucast base AND 31) OR (ucast v_dst AND 31)
      OR push_bit 10 (ucast offset12 AND 0xfff))"

definition fldq_preindex :: "u8 \<Rightarrow> u8 \<Rightarrow> u16 \<Rightarrow> u32" where
  "fldq_preindex v_dst base offset9 =
     I32 (0x3cc00c00 OR push_bit 5 (ucast base AND 31) OR (ucast v_dst AND 31)
      OR push_bit 12 (scast offset9 AND 0x1ff))"

definition fldq_postindex :: "u8 \<Rightarrow> u8 \<Rightarrow> u16 \<Rightarrow> u32" where
  "fldq_postindex v_dst base offset9 =
     I32 (0x3cc00400 OR push_bit 5 (ucast base AND 31) OR (ucast v_dst AND 31)
      OR push_bit 12 (scast offset9 AND 0x1ff))"

definition fldq :: "u8 \<Rightarrow> u8 \<Rightarrow> u16 \<Rightarrow> u32" where
  "fldq v_dst base offset9 =
     I32 (0x3cc00000 OR push_bit 5 (ucast base AND 31) OR (ucast v_dst AND 31)
      OR push_bit 12 (scast offset9 AND 0x1ff))"

definition fldq_pimm :: "u8 \<Rightarrow> u8 \<Rightarrow> u16 \<Rightarrow> u32" where
  "fldq_pimm v_dst base offset12 =
     I32 (0x3dc00000 OR push_bit 5 (ucast base AND 31) OR (ucast v_dst AND 31)
      OR push_bit 10 (ucast offset12 AND 0xfff))"

definition fmaddd :: "u8 \<Rightarrow> u8 \<Rightarrow> u8 \<Rightarrow> u8 \<Rightarrow> u32" where
  "fmaddd v_dst v_n v_m v_a =
     I32 (0x1f400000 OR push_bit 5 (ucast v_n AND 31) OR push_bit 10 (ucast v_a AND 31)
      OR push_bit 16 (ucast v_m AND 31) OR (ucast v_dst AND 31))"

definition fmadds :: "u8 \<Rightarrow> u8 \<Rightarrow> u8 \<Rightarrow> u8 \<Rightarrow> u32" where
  "fmadds v_dst v_n v_m v_a =
     I32 (0x1f000000 OR push_bit 5 (ucast v_n AND 31) OR push_bit 10 (ucast v_a AND 31)
      OR push_bit 16 (ucast v_m AND 31) OR (ucast v_dst AND 31))"

definition fldd_pcrel :: "u8 \<Rightarrow> u32 \<Rightarrow> u32" where
  "fldd_pcrel v_dst imm19 =
     I32 (0x5c000000 OR (ucast v_dst AND 31) OR push_bit 5 (imm19 AND 0x7ffff))"

definition flds_pcrel :: "u8 \<Rightarrow> u32 \<Rightarrow> u32" where
  "flds_pcrel v_dst imm19 =
     I32 (0x1c000000 OR (ucast v_dst AND 31) OR push_bit 5 (imm19 AND 0x7ffff))"

definition fldq_pcrel :: "u8 \<Rightarrow> u32 \<Rightarrow> u32" where
  "fldq_pcrel v_dst imm19 =
     I32 (0x9c000000 OR (ucast v_dst AND 31) OR push_bit 5 (imm19 AND 0x7ffff))"

definition mov_reg_to_simd :: "u8 \<Rightarrow> ts_t \<Rightarrow> u8 \<Rightarrow> u8 \<Rightarrow> u32" where
  "mov_reg_to_simd v_dst ts idx rn =
     I32 (0x4e001c00
      OR (if ts = TS_B then push_bit 17 (ucast idx AND 0xf) else if ts = TS_H then push_bit 18
        (ucast idx AND 7) else if ts = TS_S then push_bit 19 (ucast idx AND 3) else if ts = TS_D
        then push_bit 20 (ucast idx AND 1) else 0)
      OR push_bit 16 (ts_val ts AND 31) OR (ucast v_dst AND 31)
      OR push_bit 5 (ucast rn AND 31))"

definition mov_simd_to_reg :: "u8 \<Rightarrow> u8 \<Rightarrow> ts_t \<Rightarrow> u8 \<Rightarrow> u32" where
  "mov_simd_to_reg rd v_src ts idx =
     I32 ((if ts = TS_D then 0x4e003c00 else 0x0e003c00)
      OR (if ts = TS_B then push_bit 17 (ucast idx AND 0xf) else if ts = TS_H then push_bit 18
        (ucast idx AND 7) else if ts = TS_S then push_bit 19 (ucast idx AND 3) else if ts = TS_D
        then push_bit 20 (ucast idx AND 1) else 0)
      OR push_bit 16 (ts_val ts AND 31) OR (ucast rd AND 31)
      OR push_bit 5 (ucast v_src AND 31))"

definition fmsr :: "u8 \<Rightarrow> u8 \<Rightarrow> u32" where
  "fmsr v_dst src = mov_reg_to_simd v_dst TS_S 0 src"

definition fmdhr :: "u8 \<Rightarrow> u8 \<Rightarrow> u32" where
  "fmdhr v_dst src = mov_reg_to_simd v_dst TS_S 1 src"

definition fmdlr :: "u8 \<Rightarrow> u8 \<Rightarrow> u32" where
  "fmdlr v_dst src = mov_reg_to_simd v_dst TS_S 0 src"

definition fmdxr :: "u8 \<Rightarrow> u8 \<Rightarrow> u32" where
  "fmdxr v_dst src = mov_reg_to_simd v_dst TS_D 0 src"

definition fmrs :: "u8 \<Rightarrow> u8 \<Rightarrow> u32" where
  "fmrs dst v_src = mov_simd_to_reg dst v_src TS_S 0"

definition fmov_from_reg :: "u8 \<Rightarrow> u8 \<Rightarrow> u32" where
  "fmov_from_reg v_dst src =
     I32 (0x9e670000 OR (ucast v_dst AND 31) OR push_bit 5 (ucast src AND 31))"

definition fmuld :: "u8 \<Rightarrow> u8 \<Rightarrow> u8 \<Rightarrow> u32" where
  "fmuld v_dst v_first v_second =
     I32 (0x1e600800 OR (ucast v_dst AND 31) OR push_bit 5 (ucast v_first AND 31)
      OR push_bit 16 (ucast v_second AND 31))"

definition fnegd :: "u8 \<Rightarrow> u8 \<Rightarrow> u32" where
  "fnegd v_dst v_src =
     I32 (0x1e614000 OR (ucast v_dst AND 31) OR push_bit 5 (ucast v_src AND 31))"

definition fsqrtd :: "u8 \<Rightarrow> u8 \<Rightarrow> u32" where
  "fsqrtd v_dst v_src =
     I32 (0x1e61c000 OR (ucast v_dst AND 31) OR push_bit 5 (ucast v_src AND 31))"

definition fsubd :: "u8 \<Rightarrow> u8 \<Rightarrow> u8 \<Rightarrow> u32" where
  "fsubd v_dst v_first v_second =
     I32 (0x1e603800 OR (ucast v_dst AND 31) OR push_bit 5 (ucast v_first AND 31)
      OR push_bit 16 (ucast v_second AND 31))"

definition fstd_preindex :: "u8 \<Rightarrow> u8 \<Rightarrow> u16 \<Rightarrow> u32" where
  "fstd_preindex v_dst base offset9 =
     I32 (0xfc000c00 OR push_bit 5 (ucast base AND 31) OR (ucast v_dst AND 31)
      OR push_bit 12 (scast offset9 AND 0x1ff))"

definition fstd_postindex :: "u8 \<Rightarrow> u8 \<Rightarrow> u16 \<Rightarrow> u32" where
  "fstd_postindex v_dst base offset9 =
     I32 (0xfc000400 OR push_bit 5 (ucast base AND 31) OR (ucast v_dst AND 31)
      OR push_bit 12 (scast offset9 AND 0x1ff))"

definition fstd :: "u8 \<Rightarrow> u8 \<Rightarrow> u16 \<Rightarrow> u32" where
  "fstd v_dst base offset9 =
     I32 (0xfc000000 OR push_bit 5 (ucast base AND 31) OR (ucast v_dst AND 31)
      OR push_bit 12 (scast offset9 AND 0x1ff))"

definition fstd_pimm :: "u8 \<Rightarrow> u8 \<Rightarrow> u16 \<Rightarrow> u32" where
  "fstd_pimm v_dst base offset12 =
     I32 (0xfd000000 OR push_bit 5 (ucast base AND 31) OR (ucast v_dst AND 31)
      OR push_bit 10 (ucast offset12 AND 0xfff))"

definition fsts_preindex :: "u8 \<Rightarrow> u8 \<Rightarrow> u16 \<Rightarrow> u32" where
  "fsts_preindex v_dst base offset9 =
     I32 (0xbc000c00 OR push_bit 5 (ucast base AND 31) OR (ucast v_dst AND 31)
      OR push_bit 12 (scast offset9 AND 0x1ff))"

definition fsts_postindex :: "u8 \<Rightarrow> u8 \<Rightarrow> u16 \<Rightarrow> u32" where
  "fsts_postindex v_dst base offset9 =
     I32 (0xbc000400 OR push_bit 5 (ucast base AND 31) OR (ucast v_dst AND 31)
      OR push_bit 12 (scast offset9 AND 0x1ff))"

definition fsts :: "u8 \<Rightarrow> u8 \<Rightarrow> u16 \<Rightarrow> u32" where
  "fsts v_dst base offset9 =
     I32 (0xbc000000 OR push_bit 5 (ucast base AND 31) OR (ucast v_dst AND 31)
      OR push_bit 12 (scast offset9 AND 0x1ff))"

definition fsts_regoffset :: "u8 \<Rightarrow> u8 \<Rightarrow> u8 \<Rightarrow> u8 \<Rightarrow> u8 \<Rightarrow> u32" where
  "fsts_regoffset v_dst base rm opt amount =
     I32 (0xbc000800 OR push_bit 5 (ucast base AND 31) OR (ucast v_dst AND 31)
      OR push_bit 16 (ucast rm AND 31) OR push_bit 13 (ucast opt AND 7)
      OR (if amount \<noteq> 0 then push_bit 12 1 else 0))"

definition fsts_pimm :: "u8 \<Rightarrow> u8 \<Rightarrow> u16 \<Rightarrow> u32" where
  "fsts_pimm v_dst base offset12 =
     I32 (0xbd000000 OR push_bit 5 (ucast base AND 31) OR (ucast v_dst AND 31)
      OR push_bit 10 (ucast offset12 AND 0xfff))"

definition fstq_preindex :: "u8 \<Rightarrow> u8 \<Rightarrow> u16 \<Rightarrow> u32" where
  "fstq_preindex v_dst base offset9 =
     I32 (0x3c800c00 OR push_bit 5 (ucast base AND 31) OR (ucast v_dst AND 31)
      OR push_bit 12 (scast offset9 AND 0x1ff))"

definition fstq_postindex :: "u8 \<Rightarrow> u8 \<Rightarrow> u16 \<Rightarrow> u32" where
  "fstq_postindex v_dst base offset9 =
     I32 (0x3c800400 OR push_bit 5 (ucast base AND 31) OR (ucast v_dst AND 31)
      OR push_bit 12 (scast offset9 AND 0x1ff))"

definition fstq :: "u8 \<Rightarrow> u8 \<Rightarrow> u16 \<Rightarrow> u32" where
  "fstq v_dst base offset9 =
     I32 (0x3c800000 OR push_bit 5 (ucast base AND 31) OR (ucast v_dst AND 31)
      OR push_bit 12 (scast offset9 AND 0x1ff))"

definition fstq_pimm :: "u8 \<Rightarrow> u8 \<Rightarrow> u16 \<Rightarrow> u32" where
  "fstq_pimm v_dst base offset12 =
     I32 (0x3d800000 OR push_bit 5 (ucast base AND 31) OR (ucast v_dst AND 31)
      OR push_bit 10 (ucast offset12 AND 0xfff))"

definition fmov_f64 :: "u8 \<Rightarrow> u8 \<Rightarrow> u32" where
  "fmov_f64 v_dst imm = I32 (0x1e601000 OR push_bit 13 (ucast imm) OR (ucast v_dst AND 31))"

definition fmov_f32 :: "u8 \<Rightarrow> u8 \<Rightarrow> u32" where
  "fmov_f32 v_dst imm = I32 (0x1e201000 OR push_bit 13 (ucast imm) OR (ucast v_dst AND 31))"

definition fmov :: "u8 \<Rightarrow> u8 \<Rightarrow> u32" where
  "fmov v_dst imm = fmov_f64 v_dst imm"

definition movi_f64 :: "u8 \<Rightarrow> u8 \<Rightarrow> u32" where
  "movi_f64 v_dst imm =
     I32 (0x2f00e400 OR (ucast v_dst AND 31) OR push_bit 5 (ucast imm AND 31)
      OR push_bit 16 (of_bool (5 < imm) AND 7))"

definition movi_v64 :: "u8 \<Rightarrow> u8 \<Rightarrow> u32" where
  "movi_v64 v_dst imm =
     I32 (0x6f00e400 OR (ucast v_dst AND 31) OR push_bit 5 (ucast imm AND 31)
      OR push_bit 16 (of_bool (5 < imm) AND 7))"

definition fmov_0 :: "u8 \<Rightarrow> u32" where
  "fmov_0 v_dst = movi_f64 v_dst 0"

definition fmov_1 :: "u8 \<Rightarrow> u32" where
  "fmov_1 v_dst = fmov_f64 v_dst 112"

definition scvtf_32toS :: "u8 \<Rightarrow> u8 \<Rightarrow> u32" where
  "scvtf_32toS v_dst src =
     I32 (0x1e220000 OR (ucast v_dst AND 31) OR push_bit 5 (ucast src AND 31))"

definition scvtf_32toD :: "u8 \<Rightarrow> u8 \<Rightarrow> u32" where
  "scvtf_32toD v_dst src =
     I32 (0x1e620000 OR (ucast v_dst AND 31) OR push_bit 5 (ucast src AND 31))"

definition scvtf_64toS :: "u8 \<Rightarrow> u8 \<Rightarrow> u32" where
  "scvtf_64toS v_dst src =
     I32 (0x9e220000 OR (ucast v_dst AND 31) OR push_bit 5 (ucast src AND 31))"

definition scvtf_64toD :: "u8 \<Rightarrow> u8 \<Rightarrow> u32" where
  "scvtf_64toD v_dst src =
     I32 (0x9e620000 OR (ucast v_dst AND 31) OR push_bit 5 (ucast src AND 31))"

definition fcvtzs :: "u8 \<Rightarrow> u8 \<Rightarrow> u8 \<Rightarrow> u8 \<Rightarrow> u32" where
  "fcvtzs dst v_src sf ftype =
     I32 (0x1e380000 OR push_bit 31 (ucast sf AND 1) OR push_bit 22 (ucast ftype AND 3)
      OR push_bit 5 (ucast v_src AND 31) OR (ucast dst AND 31))"

definition fcvtzs_Sto32 :: "u8 \<Rightarrow> u8 \<Rightarrow> u32" where
  "fcvtzs_Sto32 dst v_src = fcvtzs dst v_src 0 0"

definition fcvtzs_Sto64 :: "u8 \<Rightarrow> u8 \<Rightarrow> u32" where
  "fcvtzs_Sto64 dst v_src = fcvtzs dst v_src 1 0"

definition fcvtzs_Dto32 :: "u8 \<Rightarrow> u8 \<Rightarrow> u32" where
  "fcvtzs_Dto32 dst v_src = fcvtzs dst v_src 0 1"

definition fcvtzs_Dto64 :: "u8 \<Rightarrow> u8 \<Rightarrow> u32" where
  "fcvtzs_Dto64 dst v_src = fcvtzs dst v_src 1 1"

definition frint64x :: "u8 \<Rightarrow> u8 \<Rightarrow> u32" where
  "frint64x v_dst v_src =
     I32 (0x1e67c000 OR (ucast v_dst AND 31) OR push_bit 5 (ucast v_src AND 31))"

definition frint64z :: "u8 \<Rightarrow> u8 \<Rightarrow> u32" where
  "frint64z v_dst v_src =
     I32 (0x1e65c000 OR (ucast v_dst AND 31) OR push_bit 5 (ucast v_src AND 31))"

definition vadd_2d :: "u8 \<Rightarrow> u8 \<Rightarrow> u8 \<Rightarrow> u32" where
  "vadd_2d v_dst v_rn v_rm =
     I32 (0x4ee08400 OR (ucast v_dst AND 31) OR push_bit 5 (ucast v_rn AND 31)
      OR push_bit 16 (ucast v_rm AND 31))"

definition vldur :: "u8 \<Rightarrow> u8 \<Rightarrow> u16 \<Rightarrow> u32" where
  "vldur rn v_rt imm9 =
     I32 (0x3cc00000 OR push_bit 5 (ucast rn AND 31) OR (ucast v_rt AND 31)
      OR push_bit 12 (ucast imm9 AND 0x1ff))"

definition vldr_pcrel :: "u8 \<Rightarrow> u32 \<Rightarrow> u32" where
  "vldr_pcrel v_rt imm19 =
     I32 (0x9c000000 OR (ucast v_rt AND 31) OR push_bit 5 (imm19 AND 0x7ffff))"

end
