(* ===== verification/A64_Machine.thy ===== *)
theory A64_Machine
  imports A64_FP
begin

text \<open>
  A reference semantics of the A64 instructions that the modelled emitters produce: the
  specification side of the translator's correctness. It follows the Arm architecture
  manual (the encoding classes, \<open>DecodeBitMasks\<close>, \<open>ConditionHolds\<close>, the 32-bit
  operations that clear the upper half of a register, register 31 as zero register or
  stack pointer) and models no code of the repository. \<open>decode\<close> reads an instruction
  word, \<open>exec\<close> runs it, and \<open>run\<close> runs a straight line of host words as they lie in
  the translation buffer, failing on a word it does not know.
\<close>

section \<open>Machine state\<close>

record mstate =
  m_x :: "u8 \<Rightarrow> u64"
  m_sp :: u64
  m_n :: bool
  m_z :: bool
  m_c :: bool
  m_v :: bool
  m_simd :: "u8 \<Rightarrow> u128"
  m_pc :: u64
  m_mem :: "u64 \<Rightarrow> u8"

text \<open>A machine with everything zero, to run examples on.\<close>

definition m_reset :: mstate where
  "m_reset = \<lparr>m_x = (\<lambda>_. 0), m_sp = 0, m_n = False, m_z = False, m_c = False, m_v = False,
     m_simd = (\<lambda>_. 0), m_pc = 0, m_mem = (\<lambda>_. 0)\<rparr>"

definition rdX :: "mstate \<Rightarrow> u8 \<Rightarrow> u64" where
  "rdX m r = (if r = 31 then 0 else m_x m r)"

definition rdW :: "mstate \<Rightarrow> u8 \<Rightarrow> u32" where
  "rdW m r = ucast (rdX m r)"

definition wrX :: "u8 \<Rightarrow> u64 \<Rightarrow> mstate \<Rightarrow> mstate" where
  "wrX r v m = (if r = 31 then m else m\<lparr>m_x := (m_x m)(r := v)\<rparr>)"

definition wrW :: "u8 \<Rightarrow> u32 \<Rightarrow> mstate \<Rightarrow> mstate" where
  "wrW r v m = wrX r (ucast v) m"

text \<open>Register 31 as the stack pointer, for the instructions that read it so.\<close>

definition rdXsp :: "mstate \<Rightarrow> u8 \<Rightarrow> u64" where
  "rdXsp m r = (if r = 31 then m_sp m else m_x m r)"

definition wrXsp :: "u8 \<Rightarrow> u64 \<Rightarrow> mstate \<Rightarrow> mstate" where
  "wrXsp r v m = (if r = 31 then m\<lparr>m_sp := v\<rparr> else m\<lparr>m_x := (m_x m)(r := v)\<rparr>)"

definition set_nz :: "u32 \<Rightarrow> mstate \<Rightarrow> mstate" where
  "set_nz w m = m\<lparr>m_n := bit w 31, m_z := (w = 0), m_c := False, m_v := False\<rparr>"

text \<open>The flags as the register \<open>NZCV\<close> holds them.\<close>

definition nzcv_word :: "mstate \<Rightarrow> u32" where
  "nzcv_word m = push_bit 31 (of_bool (m_n m)) OR push_bit 30 (of_bool (m_z m))
     OR push_bit 29 (of_bool (m_c m)) OR push_bit 28 (of_bool (m_v m))"

text \<open>\<open>ConditionHolds\<close> of the architecture manual.\<close>

definition cond_holds :: "u8 \<Rightarrow> mstate \<Rightarrow> bool" where
  "cond_holds cc m =
     (let k = take_bit 3 (drop_bit 1 cc);
          base = (if k = 0 then m_z m
                  else if k = 1 then m_c m
                  else if k = 2 then m_n m
                  else if k = 3 then m_v m
                  else if k = 4 then m_c m \<and> \<not> m_z m
                  else if k = 5 then m_n m = m_v m
                  else if k = 6 then m_n m = m_v m \<and> \<not> m_z m
                  else True)
      in if bit cc 0 \<and> take_bit 4 cc \<noteq> 15 then \<not> base else base)"

section \<open>Instructions\<close>

datatype logop = And_op | Orr_op | Eor_op | Ands_op
datatype wideop = Movn | Movz | Movk
datatype bfop = Sbfm_op | Bfm_op | Ubfm_op
datatype selop = Csel_op | Csinc_op | Csinv_op | Csneg_op

text \<open>How an address is formed: base plus offset, with the base updated before or after, or an extended register.\<close>

datatype amode = Off u64 | Pre u64 | Post u64 | Idx u8 nat nat

text \<open>A store, a load that clears the rest of the register, loads that extend the sign to 32 or 64 bits.\<close>

datatype ldop = St | Ld | Ld_s64 | Ld_s32

datatype a64 =
    Bcc u8 u32
  | TestBranch bool u8 nat u32
  | LogImm logop u8 u8 u32
  | AddSubImm bool bool u8 u8 u64
  | MovWide wideop u8 u32 nat
  | Bitfield bfop u8 u8 nat nat
  | Extr u8 u8 u8 nat
  | LogReg logop bool u8 u8 u8 shift_t nat
  | CondSel selop u8 u8 u8 u8
  | MrsNzcv u8
  | MsrNzcv u8
  | InsLane u8 nat nat u8
  | UmovLane u8 u8 nat nat
  | LoadPair64 u8 u8 u8 u64
  | StorePair64 u8 u8 u8 u64
  | Load64 u8 u8 u64
  | Store64 u8 u8 u64
  | AddSubFlags bool u8 u8 u32
  | AddSubReg bool bool u8 u8 u8 shift_t nat
  | LdSt nat ldop amode u8 u8
  | Barrier

text \<open>
  \<open>DecodeBitMasks\<close> for a 32-bit logical immediate (\<open>N = 0\<close>): the element size comes
  from the leading ones of \<open>imms\<close>, an element is \<open>S + 1\<close> ones rotated right by \<open>R\<close>,
  repeated over the register. An element of all ones is not an encoding.
\<close>

definition mask_esize :: "nat \<Rightarrow> nat" where
  "mask_esize imms =
     (if imms < 32 then 32 else if imms < 48 then 16 else if imms < 56 then 8
      else if imms < 60 then 4 else if imms < 62 then 2 else 0)"

definition rep_ones :: "nat \<Rightarrow> nat \<Rightarrow> nat \<Rightarrow> u32" where
  "rep_ones e n r = horner_sum of_bool 2 (map (\<lambda>i. (i + r) mod e < n) [0..<32])"

definition bitmask_imm :: "nat \<Rightarrow> nat \<Rightarrow> u32 option" where
  "bitmask_imm imms immr =
     (let e = mask_esize imms; S = imms mod e; R = immr mod e
      in if e = 0 \<or> S = e - 1 then None else Some (rep_ones e (S + 1) R))"

definition reg5 :: "nat \<Rightarrow> u32 \<Rightarrow> u8" where
  "reg5 lo w = ucast (fld lo 5 w)"

definition logop_of :: "u32 \<Rightarrow> logop" where
  "logop_of k = (if k = 0 then And_op else if k = 1 then Orr_op else if k = 2 then Eor_op
                 else Ands_op)"

definition shift_of :: "u32 \<Rightarrow> shift_t" where
  "shift_of k = (if k = 0 then LSL else if k = 1 then LSR else if k = 2 then ASR else ROR)"

text \<open>Size in bits and index of the lane an \<open>imm5\<close> field selects.\<close>

definition lane_of :: "u32 \<Rightarrow> (nat \<times> nat) option" where
  "lane_of imm5 =
     (if fld 0 1 imm5 = 1 then Some (8, unat (fld 1 4 imm5))
      else if fld 1 1 imm5 = 1 then Some (16, unat (fld 2 3 imm5))
      else if fld 2 1 imm5 = 1 then Some (32, unat (fld 3 2 imm5))
      else if fld 3 1 imm5 = 1 then Some (64, unat (fld 4 1 imm5))
      else None)"

definition dec_log_imm :: "u32 \<Rightarrow> a64 option" where
  "dec_log_imm w =
     (if fld 31 1 w = 0 \<and> fld 22 1 w = 0
      then map_option (LogImm (logop_of (fld 29 2 w)) (reg5 0 w) (reg5 5 w))
             (bitmask_imm (unat (fld 10 6 w)) (unat (fld 16 6 w)))
      else None)"

definition dec_addsub_imm :: "u32 \<Rightarrow> a64 option" where
  "dec_addsub_imm w =
     (if fld 29 1 w = 0
      then Some (AddSubImm (fld 31 1 w = 1) (fld 30 1 w = 1) (reg5 0 w) (reg5 5 w)
             (push_bit (if fld 22 1 w = 1 then 12 else 0) (ucast (fld 10 12 w))))
      else if fld 31 1 w = 0
      then Some (AddSubFlags (fld 30 1 w = 1) (reg5 0 w) (reg5 5 w)
             (push_bit (if fld 22 1 w = 1 then 12 else 0) (fld 10 12 w)))
      else None)"

definition dec_mov_wide :: "u32 \<Rightarrow> a64 option" where
  "dec_mov_wide w =
     (if fld 31 1 w = 0 \<and> fld 21 2 w < 2 \<and> fld 29 2 w \<noteq> 1
      then Some (MovWide (if fld 29 2 w = 0 then Movn else if fld 29 2 w = 2 then Movz else Movk)
             (reg5 0 w) (fld 5 16 w) (16 * unat (fld 21 2 w)))
      else None)"

definition dec_bitfield :: "u32 \<Rightarrow> a64 option" where
  "dec_bitfield w =
     (if fld 31 1 w = 0 \<and> fld 22 1 w = 0 \<and> fld 21 1 w = 0 \<and> fld 15 1 w = 0 \<and> fld 29 2 w \<noteq> 3
      then Some (Bitfield (if fld 29 2 w = 0 then Sbfm_op else if fld 29 2 w = 1 then Bfm_op
                           else Ubfm_op)
             (reg5 0 w) (reg5 5 w) (unat (fld 16 6 w)) (unat (fld 10 6 w)))
      else None)"

definition dec_extr :: "u32 \<Rightarrow> a64 option" where
  "dec_extr w =
     (if fld 29 3 w = 0 \<and> fld 21 2 w = 0 \<and> fld 15 1 w = 0
      then Some (Extr (reg5 0 w) (reg5 5 w) (reg5 16 w) (unat (fld 10 6 w)))
      else None)"

definition dec_log_reg :: "u32 \<Rightarrow> a64 option" where
  "dec_log_reg w =
     (if fld 31 1 w = 0 \<and> fld 15 1 w = 0
      then Some (LogReg (logop_of (fld 29 2 w)) (fld 21 1 w = 1) (reg5 0 w) (reg5 5 w)
             (reg5 16 w) (shift_of (fld 22 2 w)) (unat (fld 10 6 w)))
      else None)"

definition dec_cond_sel :: "u32 \<Rightarrow> a64 option" where
  "dec_cond_sel w =
     (if fld 31 1 w = 0 \<and> fld 29 1 w = 0 \<and> fld 11 1 w = 0
      then Some (CondSel (if fld 30 1 w = 0 then (if fld 10 1 w = 0 then Csel_op else Csinc_op)
                          else (if fld 10 1 w = 0 then Csinv_op else Csneg_op))
             (reg5 0 w) (reg5 5 w) (reg5 16 w) (ucast (fld 12 4 w)))
      else None)"

definition dec_simd :: "u32 \<Rightarrow> a64 option" where
  "dec_simd w =
     (case lane_of (fld 16 5 w) of
        None \<Rightarrow> None
      | Some (sz, i) \<Rightarrow>
          (if fld 10 6 w = 0x07 \<and> fld 21 11 w = 0x270
           then Some (InsLane (reg5 0 w) sz i (reg5 5 w))
           else if fld 10 6 w = 0x0f \<and> fld 21 11 w = (if sz = 64 then 0x270 else 0x070)
           then Some (UmovLane (reg5 0 w) (reg5 5 w) sz i)
           else None))"

definition dec_ldst64 :: "u32 \<Rightarrow> a64 option" where
  "dec_ldst64 w =
     (if fld 22 10 w = 0x2a5
      then Some (LoadPair64 (reg5 0 w) (reg5 10 w) (reg5 5 w)
                  (8 * scast (ucast (fld 15 7 w) :: 7 word)))
      else if fld 22 10 w = 0x2a4
      then Some (StorePair64 (reg5 0 w) (reg5 10 w) (reg5 5 w)
                  (8 * scast (ucast (fld 15 7 w) :: 7 word)))
      else if fld 22 10 w = 0x3e5
      then Some (Load64 (reg5 0 w) (reg5 5 w) (8 * ucast (fld 10 12 w)))
      else if fld 22 10 w = 0x3e4
      then Some (Store64 (reg5 0 w) (reg5 5 w) (8 * ucast (fld 10 12 w)))
      else None)"

definition dec_addsub_reg :: "u32 \<Rightarrow> a64 option" where
  "dec_addsub_reg w =
     (if fld 31 1 w = 0 \<and> fld 21 1 w = 0 \<and> fld 15 1 w = 0 \<and> fld 22 2 w < 3
      then Some (AddSubReg (fld 30 1 w = 1) (fld 29 1 w = 1) (reg5 0 w) (reg5 5 w) (reg5 16 w)
             (shift_of (fld 22 2 w)) (unat (fld 10 6 w)))
      else None)"

text \<open>
  Loads and stores of one general register of 8, 16 or 32 bits. Updating the base register
  with the register loaded or stored is unpredictable, so it does not decode.
\<close>

definition ldop_of :: "u32 \<Rightarrow> ldop" where
  "ldop_of k = (if k = 0 then St else if k = 1 then Ld else if k = 2 then Ld_s64 else Ld_s32)"

definition imm9 :: "u32 \<Rightarrow> u64" where
  "imm9 w = scast (ucast (fld 12 9 w) :: 9 word)"

definition dec_ldst :: "u32 \<Rightarrow> a64 option" where
  "dec_ldst w =
     (let sz = unat (fld 30 2 w); bytes = 2 ^ sz; opc = fld 22 2 w; p = ldop_of opc; t = reg5 0 w; n = reg5 5 w
      in if fld 27 3 w \<noteq> 7 \<or> fld 26 1 w \<noteq> 0 \<or> sz = 3 \<or> (sz = 2 \<and> opc = 3) then None
         else if fld 24 2 w = 1 then Some (LdSt bytes p (Off (of_nat bytes * ucast (fld 10 12 w))) t n)
         else if fld 24 2 w \<noteq> 0 then None
         else if fld 21 1 w = 1 then
           (if fld 10 2 w = 2 \<and> fld 14 1 w = 1
            then Some (LdSt bytes p (Idx (reg5 16 w) (unat (fld 13 3 w)) (if fld 12 1 w = 1 then sz else 0)) t n)
            else None)
         else if fld 10 2 w = 0 then Some (LdSt bytes p (Off (imm9 w)) t n)
         else if fld 10 2 w = 2 \<or> (t = n \<and> n \<noteq> 31) then None
         else if fld 10 2 w = 1 then Some (LdSt bytes p (Post (imm9 w)) t n)
         else Some (LdSt bytes p (Pre (imm9 w)) t n))"

definition decode :: "u32 \<Rightarrow> a64 option" where
  "decode w =
     (if fld 27 1 w = 1 \<and> fld 25 1 w = 0 then (case dec_ldst64 w of None \<Rightarrow> dec_ldst w | Some i \<Rightarrow> Some i)
      else if fld 24 8 w = 0x54 \<and> fld 4 1 w = 0
      then Some (Bcc (ucast (fld 0 4 w)) (fld 5 19 w))
      else if fld 25 6 w = 0x1b
      then Some (TestBranch (fld 24 1 w = 1) (reg5 0 w)
                   (32 * unat (fld 31 1 w) + unat (fld 19 5 w)) (fld 5 14 w))
      else if fld 23 6 w = 0x24 then dec_log_imm w
      else if fld 23 6 w = 0x22 then dec_addsub_imm w
      else if fld 23 6 w = 0x25 then dec_mov_wide w
      else if fld 23 6 w = 0x26 then dec_bitfield w
      else if fld 23 6 w = 0x27 then dec_extr w
      else if fld 24 5 w = 0x0a then dec_log_reg w
      else if fld 24 5 w = 0x0b then dec_addsub_reg w
      else if fld 21 8 w = 0xd4 then dec_cond_sel w
      else if fld 21 8 w = 0x70 then dec_simd w
      else if fld 5 27 w = 0x6a9da10 then Some (MrsNzcv (reg5 0 w))
      else if fld 5 27 w = 0x6a8da10 then Some (MsrNzcv (reg5 0 w))
      else if w = 0xd5033f9f then Some Barrier
      else None)"

section \<open>Execution\<close>

fun shifted :: "shift_t \<Rightarrow> nat \<Rightarrow> u32 \<Rightarrow> u32" where
  "shifted LSL n x = push_bit n x"
| "shifted LSR n x = drop_bit n x"
| "shifted ASR n x = signed_drop_bit n x"
| "shifted ROR n x = word_rotr n x"

fun logop_val :: "logop \<Rightarrow> u32 \<Rightarrow> u32 \<Rightarrow> u32" where
  "logop_val And_op x y = x AND y"
| "logop_val Orr_op x y = x OR y"
| "logop_val Eor_op x y = x XOR y"
| "logop_val Ands_op x y = x AND y"

fun bitfield_val :: "bfop \<Rightarrow> nat \<Rightarrow> nat \<Rightarrow> u32 \<Rightarrow> u32 \<Rightarrow> u32" where
  "bitfield_val Bfm_op immr imms src dst =
     (if immr \<le> imms
      then (dst AND NOT (mask (imms - immr + 1))) OR take_bit (imms - immr + 1) (drop_bit immr src)
      else (dst AND NOT (push_bit (32 - immr) (mask (imms + 1))))
             OR push_bit (32 - immr) (take_bit (imms + 1) src))"
| "bitfield_val Ubfm_op immr imms src dst =
     (if immr \<le> imms then take_bit (imms - immr + 1) (drop_bit immr src)
      else push_bit (32 - immr) (take_bit (imms + 1) src))"
| "bitfield_val Sbfm_op immr imms src dst =
     (if immr \<le> imms then signed_take_bit (imms - immr) (drop_bit immr src)
      else push_bit (32 - immr) (signed_take_bit imms src))"

fun selop_val :: "selop \<Rightarrow> u32 \<Rightarrow> u32" where
  "selop_val Csel_op x = x"
| "selop_val Csinc_op x = x + 1"
| "selop_val Csinv_op x = NOT x"
| "selop_val Csneg_op x = - x"

definition rd64be :: "(u64 \<Rightarrow> u8) \<Rightarrow> u64 \<Rightarrow> u64" where
  "rd64be f a = foldl (\<lambda>v i. push_bit 8 v OR ucast (f (a + i))) 0 [0, 1, 2, 3, 4, 5, 6, 7]"

definition wr64be :: "(u64 \<Rightarrow> u8) \<Rightarrow> u64 \<Rightarrow> u64 \<Rightarrow> (u64 \<Rightarrow> u8)" where
  "wr64be f a v = f(a := ucast (drop_bit 56 v), a + 1 := ucast (drop_bit 48 v),
     a + 2 := ucast (drop_bit 40 v), a + 3 := ucast (drop_bit 32 v),
     a + 4 := ucast (drop_bit 24 v), a + 5 := ucast (drop_bit 16 v),
     a + 6 := ucast (drop_bit 8 v), a + 7 := ucast v)"

definition lane_get :: "nat \<Rightarrow> nat \<Rightarrow> u128 \<Rightarrow> u64" where
  "lane_get sz i q = ucast (take_bit sz (drop_bit (sz * i) q))"

definition lane_set :: "nat \<Rightarrow> nat \<Rightarrow> u64 \<Rightarrow> u128 \<Rightarrow> u128" where
  "lane_set sz i x q =
     (q AND NOT (push_bit (sz * i) (mask sz))) OR push_bit (sz * i) (take_bit sz (ucast x))"

definition next_pc :: "mstate \<Rightarrow> mstate" where
  "next_pc m = m\<lparr>m_pc := m_pc m + 4\<rparr>"

text \<open>Big-endian data accesses of \<open>n\<close> bytes.\<close>

definition rd_be :: "(u64 \<Rightarrow> u8) \<Rightarrow> u64 \<Rightarrow> nat \<Rightarrow> u32" where
  "rd_be f a n = foldl (\<lambda>v i. push_bit 8 v OR ucast (f (a + of_nat i))) 0 [0..<n]"

definition wr_be :: "(u64 \<Rightarrow> u8) \<Rightarrow> u64 \<Rightarrow> nat \<Rightarrow> u32 \<Rightarrow> (u64 \<Rightarrow> u8)" where
  "wr_be f a n v =
     (\<lambda>x. if unat (x - a) < n then ucast (drop_bit (8 * (n - Suc (unat (x - a)))) v) else f x)"

definition idx_extend :: "nat \<Rightarrow> u8 \<Rightarrow> mstate \<Rightarrow> u64" where
  "idx_extend k r m = (if k = 2 then ucast (rdW m r) else if k = 6 then scast (rdW m r) else rdX m r)"

fun amode_addr :: "amode \<Rightarrow> u8 \<Rightarrow> mstate \<Rightarrow> u64" where
  "amode_addr (Off k) n m = rdXsp m n + k"
| "amode_addr (Pre k) n m = rdXsp m n + k"
| "amode_addr (Post k) n m = rdXsp m n"
| "amode_addr (Idx r e s) n m = rdXsp m n + push_bit s (idx_extend e r m)"

fun amode_back :: "amode \<Rightarrow> u8 \<Rightarrow> mstate \<Rightarrow> mstate" where
  "amode_back (Pre k) n m = wrXsp n (rdXsp m n + k) m"
| "amode_back (Post k) n m = wrXsp n (rdXsp m n + k) m"
| "amode_back _ n m = m"

fun ld_val :: "ldop \<Rightarrow> nat \<Rightarrow> u32 \<Rightarrow> u64" where
  "ld_val Ld_s64 n v = scast (signed_take_bit (8 * n - 1) v)"
| "ld_val Ld_s32 n v = ucast (signed_take_bit (8 * n - 1) v)"
| "ld_val _ n v = ucast v"

text \<open>\<open>AddWithCarry\<close>: the sum and the flags.\<close>

definition add_flags :: "u32 \<Rightarrow> u32 \<Rightarrow> bool \<Rightarrow> mstate \<Rightarrow> mstate" where
  "add_flags x y c m =
     (let r = x + y + of_bool c
      in m\<lparr>m_n := bit r 31, m_z := (r = 0), m_c := (2 ^ 32 \<le> unat x + unat y + of_bool c),
           m_v := (sint x + sint y + of_bool c \<noteq> sint r)\<rparr>)"

text \<open>The effect of an instruction that is not a branch, without the program counter.\<close>

fun exec_data :: "a64 \<Rightarrow> mstate \<Rightarrow> mstate" where
  "exec_data (LogImm p d n i) m =
     (let w = logop_val p (rdW m n) i
      in if p = Ands_op then wrW d w (set_nz w m) else wrXsp d (ucast w) m)"
| "exec_data (AddSubImm sf sub d n i) m =
     (let r = (if sub then rdXsp m n - i else rdXsp m n + i)
      in wrXsp d (if sf then r else ucast (ucast r :: u32)) m)"
| "exec_data (MovWide Movz d i s) m = wrW d (push_bit s i) m"
| "exec_data (MovWide Movn d i s) m = wrW d (NOT (push_bit s i)) m"
| "exec_data (MovWide Movk d i s) m =
     wrW d ((rdW m d AND NOT (push_bit s (mask 16))) OR push_bit s i) m"
| "exec_data (Bitfield p d n immr imms) m =
     wrW d (bitfield_val p immr imms (rdW m n) (rdW m d)) m"
| "exec_data (Extr d n r lsb) m =
     wrW d (if lsb = 0 then rdW m r
            else drop_bit lsb (rdW m r) OR push_bit (32 - lsb) (rdW m n)) m"
| "exec_data (LogReg p neg d n r s k) m =
     (let x = shifted s k (rdW m r);
          w = logop_val p (rdW m n) (if neg then NOT x else x)
      in wrW d w (if p = Ands_op then set_nz w m else m))"
| "exec_data (CondSel p d n r cc) m =
     wrW d (if cond_holds cc m then rdW m n else selop_val p (rdW m r)) m"
| "exec_data (MrsNzcv t) m = wrX t (ucast (nzcv_word m)) m"
| "exec_data (MsrNzcv t) m =
     m\<lparr>m_n := bit (rdX m t) 31, m_z := bit (rdX m t) 30,
       m_c := bit (rdX m t) 29, m_v := bit (rdX m t) 28\<rparr>"
| "exec_data (InsLane d sz i n) m =
     m\<lparr>m_simd := (m_simd m)(d := lane_set sz i (rdX m n) (m_simd m d))\<rparr>"
| "exec_data (UmovLane d n sz i) m = wrX d (lane_get sz i (m_simd m n)) m"
| "exec_data (LoadPair64 t1 t2 n off) m =
     (let a = rdXsp m n + off
      in wrX t2 (rd64be (m_mem m) (a + 8)) (wrX t1 (rd64be (m_mem m) a) m))"
| "exec_data (StorePair64 t1 t2 n off) m =
     (let a = rdXsp m n + off
      in m\<lparr>m_mem := wr64be (wr64be (m_mem m) a (rdX m t1)) (a + 8) (rdX m t2)\<rparr>)"
| "exec_data (Load64 t n off) m = wrX t (rd64be (m_mem m) (rdXsp m n + off)) m"
| "exec_data (Store64 t n off) m = m\<lparr>m_mem := wr64be (m_mem m) (rdXsp m n + off) (rdX m t)\<rparr>"
| "exec_data (AddSubFlags sub d n i) m =
     (let x = ucast (rdXsp m n); y = (if sub then NOT i else i)
      in wrW d (x + y + of_bool sub) (add_flags x y sub m))"
| "exec_data (AddSubReg sub fl d n r s k) m =
     (let x = rdW m n; z = shifted s k (rdW m r); y = (if sub then NOT z else z)
      in wrW d (x + y + of_bool sub) (if fl then add_flags x y sub m else m))"
| "exec_data (LdSt bytes p am t n) m =
     (let a = amode_addr am n m
      in if p = St then amode_back am n (m\<lparr>m_mem := wr_be (m_mem m) a bytes (rdW m t)\<rparr>)
         else wrX t (ld_val p bytes (rd_be (m_mem m) a bytes)) (amode_back am n m))"
| "exec_data Barrier m = m"
| "exec_data (Bcc cc off) m = m"
| "exec_data (TestBranch nz t k off) m = m"

fun branch_taken :: "a64 \<Rightarrow> mstate \<Rightarrow> bool" where
  "branch_taken (Bcc cc off) m = cond_holds cc m"
| "branch_taken (TestBranch nz t k off) m = (bit (rdX m t) k = nz)"
| "branch_taken _ m = False"

fun branch_offset :: "a64 \<Rightarrow> u64" where
  "branch_offset (Bcc cc off) = 4 * scast (ucast off :: 19 word)"
| "branch_offset (TestBranch nz t k off) = 4 * scast (ucast off :: 14 word)"
| "branch_offset _ = 4"

fun is_branch :: "a64 \<Rightarrow> bool" where
  "is_branch (Bcc _ _) = True"
| "is_branch (TestBranch _ _ _ _) = True"
| "is_branch _ = False"

definition exec :: "a64 \<Rightarrow> mstate \<Rightarrow> mstate" where
  "exec i m = (exec_data i m)
     \<lparr>m_pc := m_pc m + (if is_branch i \<and> branch_taken i m then branch_offset i else 4)\<rparr>"

text \<open>
  Instructions are fetched little endian from the bytes a big-endian host stored.
\<close>

definition fetch :: "u32 \<Rightarrow> u32" where
  "fetch w = le32_of (bytes_be32 w)"

text \<open>
  Running a straight line of words from the translation buffer: every word has to
  decode, and only the last one may be a branch.
\<close>

fun run :: "u32 list \<Rightarrow> mstate \<Rightarrow> mstate option" where
  "run [] m = Some m"
| "run (w # ws) m =
     (case decode (fetch w) of
        None \<Rightarrow> None
      | Some i \<Rightarrow> if is_branch i \<and> ws \<noteq> [] then None else run ws (exec i m))"

end
