(* ===== verification/A64_Decode.thy ===== *)
theory A64_Decode
  imports A64_Machine
begin

text \<open>
  The encoders meet the machine: what each encoder that the modelled emitters use
  decodes to. Every lemma goes through the bytes in memory: \<open>I32\<close> stores the word
  swapped, the fetch reads it back little endian, and the fields are those of the
  architecture's encoding class. The collection \<open>a64_decode\<close> drives the symbolic
  execution of emitted code.
\<close>

named_theorems a64_decode \<open>what an encoder decodes to\<close>

section \<open>From the instruction word to memory and back\<close>

lemma ucast_u8_be32:
  "(ucast (be32 a b c d) :: u8) = d" "(ucast (drop_bit 8 (be32 a b c d)) :: u8) = c"
  "(ucast (drop_bit 16 (be32 a b c d)) :: u8) = b" "(ucast (drop_bit 24 (be32 a b c d)) :: u8) = a"
  by (rule bit_word_eqI; auto simp: be32_def bit_simps dest: bit_imp_le_length)+

lemma bytes_be32_be32 [simp]: "bytes_be32 (be32 a b c d) = [a, b, c, d]"
  by (simp add: bytes_be32_def ucast_u8_be32)

lemma be32_bytes:
  "be32 (ucast (drop_bit 24 w)) (ucast (drop_bit 16 w)) (ucast (drop_bit 8 w)) (ucast w) = w"
  (is "?l = w")
proof (rule bit_word_eqI)
  fix i assume "i < LENGTH(32)"
  then have i: "i < 32" by simp
  then consider "i < 8" | "8 \<le> i" "i < 16" | "16 \<le> i" "i < 24" | "24 \<le> i" by linarith
  then show "bit ?l i = bit w i"
  proof cases
    case 1 with i show ?thesis by (simp add: be32_def bit_simps)
  next
    case 2
    then have "i - 8 < 8" by arith
    with 2 show ?thesis by (simp add: be32_def bit_simps)
  next
    case 3
    then have "i - 16 < 8" "\<not> i - 8 < 8" by arith+
    with 3 show ?thesis by (simp add: be32_def bit_simps)
  next
    case 4
    with i have "i - 24 < 8" "\<not> i - 8 < 8" "\<not> i - 16 < 8" by arith+
    with 4 i show ?thesis by (simp add: be32_def bit_simps)
  qed
qed

lemma ucast_and_ff: "(ucast (x AND 0xff :: u32) :: u8) = ucast x"
  by (rule bit_word_eqI) (auto simp: mask_simps bit_simps)

lemma fetch_I32 [simp]: "fetch (I32 w) = w"
  by (simp add: fetch_def le32_of_def I32_def Let_def ucast_and_ff be32_bytes)

lemma bytes_I32:
  "bytes_be32 (I32 w) =
     [ucast w, ucast (drop_bit 8 w), ucast (drop_bit 16 w), ucast (drop_bit 24 w)]"
  by (simp add: I32_def Let_def ucast_and_ff)

section \<open>Operand fields\<close>

lemma ucast_take_u8 [simp]: "(ucast (take_bit n (ucast (r :: u8) :: u32)) :: u8) = take_bit n r"
  by (rule bit_eqI) (auto simp: bit_simps)

lemma unat_ucast_u8_u32 [simp]: "unat (ucast (r :: u8) :: u32) = unat r"
proof -
  have "unat r < 2 ^ LENGTH(8)" by (rule unsigned_less)
  then show ?thesis by (simp add: unsigned_ucast_eq take_bit_nat_eq_self_iff)
qed

lemma unat_take_u8 [simp]: "unat (take_bit n (ucast (r :: u8) :: u32)) = unat (take_bit n r)"
  by (simp add: take_bit_ucast_u8_u32)

lemma take_6_small:
  assumes "k < 32"
  shows "take_bit 6 (ucast (k :: u8) :: u32) = take_bit 5 (ucast k)"
proof -
  from assms have k: "take_bit 5 k = k" by (rule take_bit_5_reg)
  have "take_bit 6 (take_bit 5 (ucast k) :: u32) = take_bit 5 (ucast k)"
    by (simp add: take_bit_take_bit)
  then show ?thesis by (simp add: take_bit_ucast_u8_u32 k)
qed

lemma bit_u16_less: "bit (v :: u16) n \<Longrightarrow> n < 16"
  using bit_imp_le_length [of v n] by simp

lemma fld_push_u16_above [fld_simps]:
  "k + 16 \<le> lo \<Longrightarrow> fld lo n (push_bit k (ucast (v :: u16))) = 0"
  by (rule bit_eqI) (auto simp: bit_simps dest: bit_u16_less)

lemma take_16_ucast_u16 [simp]: "take_bit 16 (ucast (v :: u16) :: u32) = ucast v"
  by (rule bit_eqI) (auto simp: bit_simps dest: bit_u16_less)

lemma ucast_take_12_u16 [simp]:
  "(ucast (take_bit 12 (ucast (v :: u16) :: u32)) :: u64) = ucast (take_bit 12 v)"
  by (rule bit_eqI) (auto simp: bit_simps)

lemma ucast_take_12_u16_shift [simp]:
  "(ucast (take_bit 12 (drop_bit 3 (ucast (v :: u16) :: u32))) :: u64)
     = ucast (take_bit 12 (drop_bit 3 v))"
  by (rule bit_eqI) (auto simp: bit_simps)

lemma take_5_31 [simp]: "take_bit 5 (31 :: u8) = 31"
  by simp

lemma take_bit_2_small: "s < 2 \<Longrightarrow> take_bit 2 (s :: u8) = s"
proof -
  assume "s < 2"
  also have "(2 :: u8) < 2 ^ 2" by simp
  finally show ?thesis using less_mask_eq [of s 2] by (simp add: take_bit_eq_mask)
qed

lemma u8_less_2: "(s :: u8) < 2 \<longleftrightarrow> s = 0 \<or> s = 1"
  by (simp add: word_less_nat_alt word_unat_eq_iff) arith

lemmas decode_simps = decode_def reg5_def fld_simps mask_simps

section \<open>Branches\<close>

lemma decode_b_cc [a64_decode]:
  "decode (fetch (b_cc cc off)) = Some (Bcc (take_bit 4 cc) (take_bit 19 off))"
  by (simp add: b_cc_def decode_simps split del: if_split)

lemma and_32_clear: "k < 32 \<Longrightarrow> (ucast (k :: u8) AND 32 :: u32) = 0"
proof -
  assume "k < 32"
  then have "take_bit 5 k = k" by (rule take_bit_5_reg)
  then have "(ucast k :: u32) = take_bit 5 (ucast k)" by (simp add: take_bit_ucast_u8_u32)
  moreover have "take_bit 5 x AND 32 = 0" for x :: u32
    by (simp add: take_bit_eq_mask and.assoc mask_eq_exp_minus_1)
  ultimately show ?thesis by metis
qed

lemma decode_tbnz [a64_decode]:
  "k < 32 \<Longrightarrow> decode (fetch (tbnz rt k off)) =
     Some (TestBranch True (take_bit 5 rt) (unat k) (take_bit 14 (ucast off)))"
  by (simp add: tbnz_def and_32_clear decode_simps take_bit_5_reg split del: if_split)

lemma decode_tbz [a64_decode]:
  "k < 32 \<Longrightarrow> decode (fetch (tbz rt k off)) =
     Some (TestBranch False (take_bit 5 rt) (unat k) (take_bit 14 (ucast off)))"
  by (simp add: tbz_def and_32_clear decode_simps take_bit_5_reg split del: if_split)

section \<open>Immediates\<close>

lemma decode_add_immed [a64_decode]:
  "decode (fetch (add_immed rd rn imm12)) =
     Some (AddSubImm False False (take_bit 5 rd) (take_bit 5 rn) (ucast (take_bit 12 imm12)))"
  by (simp add: add_immed_def decode_simps dec_addsub_imm_def split del: if_split)

lemma decode_sub_immed [a64_decode]:
  "decode (fetch (sub_immed rd rn imm12)) =
     Some (AddSubImm False True (take_bit 5 rd) (take_bit 5 rn) (ucast (take_bit 12 imm12)))"
  by (simp add: sub_immed_def decode_simps dec_addsub_imm_def split del: if_split)

lemma decode_add64_immed [a64_decode]:
  "decode (fetch (add64_immed rd rn imm12)) =
     Some (AddSubImm True False (take_bit 5 rd) (take_bit 5 rn) (ucast (take_bit 12 imm12)))"
  by (simp add: add64_immed_def decode_simps dec_addsub_imm_def split del: if_split)

lemma decode_sub64_immed [a64_decode]:
  "decode (fetch (sub64_immed rd rn imm12)) =
     Some (AddSubImm True True (take_bit 5 rd) (take_bit 5 rn) (ucast (take_bit 12 imm12)))"
  by (simp add: sub64_immed_def decode_simps dec_addsub_imm_def split del: if_split)

text \<open>The logical immediates name a mask by its width and its rotation.\<close>

definition imm_mask :: "u8 \<Rightarrow> u8 \<Rightarrow> u32 option" where
  "imm_mask width rot = bitmask_imm (unat (take_bit 6 (width - 1))) (unat (take_bit 6 rot))"

lemma unat_take_6_minus_1 [simp]:
  "unat (take_bit 6 (ucast (w :: u8) - 1 :: u32)) = unat (take_bit 6 (w - 1))"
proof -
  have "uint w < 2 ^ LENGTH(8)" by (rule unsigned_less)
  then have "uint w mod 4294967296 = uint w" by simp
  then have "uint (take_bit 6 (ucast w - 1 :: u32)) = uint (take_bit 6 (w - 1))"
    by (simp add: unsigned_take_bit_eq uint_word_ariths take_bit_eq_mod [where ?'a = int]
        mod_mod_cancel unsigned_ucast_eq)
  then show ?thesis by (simp only: unat_eq_nat_uint)
qed

lemma decode_ands_immed [a64_decode]:
  "decode (fetch (ands_immed rd rn width rot)) =
     map_option (LogImm Ands_op (take_bit 5 rd) (take_bit 5 rn)) (imm_mask width rot)"
  by (simp add: ands_immed_def decode_simps dec_log_imm_def logop_of_def imm_mask_def
      split del: if_split)

lemma decode_and_immed [a64_decode]:
  "decode (fetch (and_immed rd rn width rot)) =
     map_option (LogImm And_op (take_bit 5 rd) (take_bit 5 rn)) (imm_mask width rot)"
  by (simp add: and_immed_def decode_simps dec_log_imm_def logop_of_def imm_mask_def
      split del: if_split)

lemma decode_orr_immed [a64_decode]:
  "decode (fetch (orr_immed rd rn width rot)) =
     map_option (LogImm Orr_op (take_bit 5 rd) (take_bit 5 rn)) (imm_mask width rot)"
  by (simp add: orr_immed_def decode_simps dec_log_imm_def logop_of_def imm_mask_def
      split del: if_split)

lemma decode_eor_immed [a64_decode]:
  "decode (fetch (eor_immed rd rn width rot)) =
     map_option (LogImm Eor_op (take_bit 5 rd) (take_bit 5 rn)) (imm_mask width rot)"
  by (simp add: eor_immed_def decode_simps dec_log_imm_def logop_of_def imm_mask_def
      split del: if_split)

lemma decode_mov_immed_u16 [a64_decode]:
  "s < 2 \<Longrightarrow> decode (fetch (mov_immed_u16 rd v s)) =
     Some (MovWide Movz (take_bit 5 rd) (ucast v) (16 * unat s))"
  by (auto simp: u8_less_2 mov_immed_u16_def decode_simps dec_mov_wide_def split del: if_split)

lemma decode_movk_immed_u16 [a64_decode]:
  "s < 2 \<Longrightarrow> decode (fetch (movk_immed_u16 rd v s)) =
     Some (MovWide Movk (take_bit 5 rd) (ucast v) (16 * unat s))"
  by (auto simp: u8_less_2 movk_immed_u16_def decode_simps dec_mov_wide_def split del: if_split)

lemma decode_movn_immed_u16 [a64_decode]:
  "s < 2 \<Longrightarrow> decode (fetch (movn_immed_u16 rd v s)) =
     Some (MovWide Movn (take_bit 5 rd) (ucast v) (16 * unat s))"
  by (auto simp: u8_less_2 movn_immed_u16_def decode_simps dec_mov_wide_def split del: if_split)

section \<open>Registers\<close>

lemma unat_take_5: "k < 32 \<Longrightarrow> unat (take_bit 5 (k :: u8)) = unat k"
  by (simp add: take_bit_5_reg)

lemmas decode_log_reg_simps =
  decode_simps dec_log_reg_def logop_of_def shift_of_def take_6_small unat_take_5

lemma decode_orr_reg [a64_decode]:
  "k < 32 \<Longrightarrow> decode (fetch (orr_reg rd rn rm sh k)) =
     Some (LogReg Orr_op False (take_bit 5 rd) (take_bit 5 rn) (take_bit 5 rm) sh (unat k))"
  by (cases sh; simp add: orr_reg_def decode_log_reg_simps split del: if_split)

lemma decode_orn_reg [a64_decode]:
  "k < 32 \<Longrightarrow> decode (fetch (orn_reg rd rn rm sh k)) =
     Some (LogReg Orr_op True (take_bit 5 rd) (take_bit 5 rn) (take_bit 5 rm) sh (unat k))"
  by (cases sh; simp add: orn_reg_def decode_log_reg_simps split del: if_split)

lemma decode_bic_reg [a64_decode]:
  "k < 32 \<Longrightarrow> decode (fetch (bic_reg rd rn rm sh k)) =
     Some (LogReg And_op True (take_bit 5 rd) (take_bit 5 rn) (take_bit 5 rm) sh (unat k))"
  by (cases sh; simp add: bic_reg_def decode_log_reg_simps split del: if_split)

lemma decode_ands_reg [a64_decode]:
  "k < 32 \<Longrightarrow> decode (fetch (ands_reg rd rn rm sh k)) =
     Some (LogReg Ands_op False (take_bit 5 rd) (take_bit 5 rn) (take_bit 5 rm) sh (unat k))"
  by (cases sh; simp add: ands_reg_def decode_log_reg_simps split del: if_split)

lemma decode_mov_reg [a64_decode]:
  "decode (fetch (mov_reg rd rm)) =
     Some (LogReg Orr_op False (take_bit 5 rd) 31 (take_bit 5 rm) LSL 0)"
  by (simp add: mov_reg_def decode_orr_reg)

lemma decode_mvn_reg [a64_decode]:
  "k < 32 \<Longrightarrow> decode (fetch (mvn_reg rd rm sh k)) =
     Some (LogReg Orr_op True (take_bit 5 rd) 31 (take_bit 5 rm) sh (unat k))"
  by (simp add: mvn_reg_def decode_orn_reg)

lemma decode_extr [a64_decode]:
  "k < 32 \<Longrightarrow> decode (fetch (extr rd rn rm k)) =
     Some (Extr (take_bit 5 rd) (take_bit 5 rn) (take_bit 5 rm) (unat k))"
  by (simp add: extr_def decode_simps dec_extr_def take_6_small unat_take_5 split del: if_split)

lemma decode_ror [a64_decode]:
  "k < 32 \<Longrightarrow> decode (fetch (ror_i rd rn k)) =
     Some (Extr (take_bit 5 rd) (take_bit 5 rn) (take_bit 5 rn) (unat k))"
  by (simp add: ror_i_def decode_extr)

lemma decode_bfm [a64_decode]:
  "immr < 32 \<Longrightarrow> imms < 32 \<Longrightarrow> decode (fetch (bfm rd rn immr imms)) =
     Some (Bitfield Bfm_op (take_bit 5 rd) (take_bit 5 rn) (unat immr) (unat imms))"
  by (simp add: bfm_def decode_simps dec_bitfield_def take_6_small unat_take_5 split del: if_split)

lemma decode_ubfm [a64_decode]:
  "immr < 32 \<Longrightarrow> imms < 32 \<Longrightarrow> decode (fetch (ubfm rd rn immr imms)) =
     Some (Bitfield Ubfm_op (take_bit 5 rd) (take_bit 5 rn) (unat immr) (unat imms))"
  by (simp add: ubfm_def decode_simps dec_bitfield_def take_6_small unat_take_5 split del: if_split)

lemma decode_sbfm [a64_decode]:
  "immr < 32 \<Longrightarrow> imms < 32 \<Longrightarrow> decode (fetch (sbfm rd rn immr imms)) =
     Some (Bitfield Sbfm_op (take_bit 5 rd) (take_bit 5 rn) (unat immr) (unat imms))"
  by (simp add: sbfm_def decode_simps dec_bitfield_def take_6_small unat_take_5 split del: if_split)

lemma decode_csel [a64_decode]:
  "decode (fetch (csel rd rn rm cond)) = Some (CondSel Csel_op (take_bit 5 rd) (take_bit 5 rn)
     (take_bit 5 rm) (take_bit 4 cond))"
  by (simp add: csel_def decode_simps dec_cond_sel_def split del: if_split)

lemma decode_csinc [a64_decode]:
  "decode (fetch (csinc rd rn rm cond)) = Some (CondSel Csinc_op (take_bit 5 rd) (take_bit 5 rn)
     (take_bit 5 rm) (take_bit 4 cond))"
  by (simp add: csinc_def decode_simps dec_cond_sel_def split del: if_split)

lemma decode_csinv [a64_decode]:
  "decode (fetch (csinv rd rn rm cond)) = Some (CondSel Csinv_op (take_bit 5 rd) (take_bit 5 rn)
     (take_bit 5 rm) (take_bit 4 cond))"
  by (simp add: csinv_def decode_simps dec_cond_sel_def split del: if_split)

section \<open>Status register, vector lanes, memory\<close>

lemma decode_get_nzcv [a64_decode]: "decode (fetch (get_nzcv rt)) = Some (MrsNzcv (take_bit 5 rt))"
  by (simp add: get_nzcv_def mrs_i_def decode_simps split del: if_split)

lemma decode_set_nzcv [a64_decode]: "decode (fetch (set_nzcv rt)) = Some (MsrNzcv (take_bit 5 rt))"
  by (simp add: set_nzcv_def msr_i_def decode_simps split del: if_split)

lemma decode_umov [a64_decode]:
  "decode (fetch (mov_simd_to_reg rd v TS_H 4)) = Some (UmovLane (take_bit 5 rd) (take_bit 5 v) 16 4)"
  "decode (fetch (mov_simd_to_reg rd v TS_H 5)) = Some (UmovLane (take_bit 5 rd) (take_bit 5 v) 16 5)"
  "decode (fetch (mov_simd_to_reg rd v TS_S 0)) = Some (UmovLane (take_bit 5 rd) (take_bit 5 v) 32 0)"
  "decode (fetch (mov_simd_to_reg rd v TS_D 1)) = Some (UmovLane (take_bit 5 rd) (take_bit 5 v) 64 1)"
  by (simp_all add: mov_simd_to_reg_def decode_simps dec_simd_def lane_of_def split del: if_split)

lemma decode_ins [a64_decode]:
  "decode (fetch (mov_reg_to_simd v TS_H 4 rn)) = Some (InsLane (take_bit 5 v) 16 4 (take_bit 5 rn))"
  "decode (fetch (mov_reg_to_simd v TS_H 5 rn)) = Some (InsLane (take_bit 5 v) 16 5 (take_bit 5 rn))"
  "decode (fetch (mov_reg_to_simd v TS_S 0 rn)) = Some (InsLane (take_bit 5 v) 32 0 (take_bit 5 rn))"
  "decode (fetch (mov_reg_to_simd v TS_D 1 rn)) = Some (InsLane (take_bit 5 v) 64 1 (take_bit 5 rn))"
  by (simp_all add: mov_reg_to_simd_def decode_simps dec_simd_def lane_of_def split del: if_split)

lemma decode_ldr64_offset [a64_decode]:
  "decode (fetch (ldr64_offset rn rt off)) =
     Some (Load64 (take_bit 5 rt) (take_bit 5 rn) (8 * ucast (take_bit 12 (drop_bit 3 off))))"
  by (simp add: ldr64_offset_def decode_simps dec_ldst64_def split del: if_split)

lemma decode_str64_offset [a64_decode]:
  "decode (fetch (str64_offset rn rt off)) =
     Some (Store64 (take_bit 5 rt) (take_bit 5 rn) (8 * ucast (take_bit 12 (drop_bit 3 off))))"
  by (simp add: str64_offset_def decode_simps dec_ldst64_def split del: if_split)

lemma decode_ldp64 [a64_decode]:
  "decode (fetch (ldp64 rn rt1 rt2 imm)) =
     Some (LoadPair64 (take_bit 5 rt1) (take_bit 5 rt2) (take_bit 5 rn)
       (8 * scast (ucast (take_bit 7 (c_div (scast imm) 8)) :: 7 word)))"
  by (simp add: ldp64_def decode_simps dec_ldst64_def split del: if_split)

lemma decode_stp64 [a64_decode]:
  "decode (fetch (stp64 rn rt1 rt2 imm)) =
     Some (StorePair64 (take_bit 5 rt1) (take_bit 5 rt2) (take_bit 5 rn)
       (8 * scast (ucast (take_bit 7 (c_div (scast imm) 8)) :: 7 word)))"
  by (simp add: stp64_def decode_simps dec_ldst64_def split del: if_split)

end
