(* ===== verification/Jit_State.thy ===== *)
theory Jit_State
  imports A64_Decode
begin

text \<open>
  The state the code generator threads through its emitters: the translation buffer of
  \<open>struct TranslatorContext\<close> (\<open>emu68/include/A64.h\<close>, macro \<open>EMIT\<close>), the file-level
  variables of \<open>emu68/src/aarch64/RegisterAllocator64.c\<close>, and the globals
  \<open>host_flags\<close> and \<open>_pc_rel\<close> of \<open>emu68/src/M68k_Translator.c\<close>.

  The buffer is the list of words emitted so far, with the number of words that fit
  (\<open>tc_CodeEnd\<close> minus the start of the buffer). \<open>EMIT\<close> does not stop at the end: it prints
  a warning and writes on, so the model only records that it warned.
\<close>

record jit =
  register_pool :: u16
  changed_mask :: u16
  last_allocated :: nat
  fpu_allocstate :: u8
  reg_CC :: u8
  mod_CC :: u8
  reg_CTX :: u8
  reg_FPCR :: u8
  mod_FPCR :: u8
  reg_FPSR :: u8
  mod_FPSR :: u8
  host_flags :: u8
  pc_rel :: int
  tc_code :: "u32 list"
  tc_room :: nat
  tc_warned :: bool

definition EMIT :: "u32 list \<Rightarrow> jit \<Rightarrow> jit" where
  "EMIT ws j =
     j\<lparr>tc_warned := tc_warned j \<or> tc_room j < length (tc_code j) + length ws,
       tc_code := tc_code j @ ws\<rparr>"

definition RESET_FLAGS :: "jit \<Rightarrow> jit" where
  "RESET_FLAGS j = j\<lparr>host_flags := 0\<rparr>"

text \<open>
  An \<open>EMIT\<close> one of whose encoders runs \<open>RESET_FLAGS\<close>: the arguments are evaluated
  before the words are written.
\<close>

definition EMIT_rf :: "u32 list \<Rightarrow> jit \<Rightarrow> jit" where
  "EMIT_rf ws j = EMIT ws (RESET_FLAGS j)"

text \<open>The static initialisers of the translator, with an empty buffer.\<close>

definition jit_init :: "nat \<Rightarrow> jit" where
  "jit_init room =
     \<lparr>register_pool = 0, changed_mask = 0, last_allocated = 0, fpu_allocstate = 0,
      reg_CC = 0xff, mod_CC = 0, reg_CTX = 0xff, reg_FPCR = 0xff, mod_FPCR = 0,
      reg_FPSR = 0xff, mod_FPSR = 0, host_flags = 0, pc_rel = 0, tc_code = [],
      tc_room = room, tc_warned = False\<rparr>"

section \<open>Registers and flags of the emulated processor\<close>

text \<open>Numbers from \<open>emu68/include/M68k.h\<close>.\<close>

definition REG_PC :: u8 where "REG_PC = 18"

definition SR_C :: u8 where "SR_C = 0x01"
definition SR_V :: u8 where "SR_V = 0x02"
definition SR_VC :: u8 where "SR_VC = 0x03"
definition SR_Z :: u8 where "SR_Z = 0x04"
definition SR_N :: u8 where "SR_N = 0x08"
definition SR_NV :: u8 where "SR_NV = 0x0a"
definition SR_NZ :: u8 where "SR_NZ = 0x0c"
definition SR_NZV :: u8 where "SR_NZV = 0x0e"
definition SR_NZVC :: u8 where "SR_NZVC = 0x0f"
definition SR_CCR :: u8 where "SR_CCR = 0x1f"

definition SRB_Calt :: u8 where "SRB_Calt = 1"
definition SRB_Valt :: u8 where "SRB_Valt = 0"
definition SRB_Z :: u8 where "SRB_Z = 2"
definition SRB_N :: u8 where "SRB_N = 3"

lemmas sr_defs =
  SR_C_def SR_V_def SR_VC_def SR_Z_def SR_N_def SR_NV_def SR_NZ_def SR_NZV_def SR_NZVC_def
  SR_CCR_def SRB_Calt_def SRB_Valt_def SRB_Z_def SRB_N_def

section \<open>Emitted code\<close>

lemma tc_code_EMIT [simp]: "tc_code (EMIT ws j) = tc_code j @ ws"
  by (simp add: EMIT_def)

lemma tc_code_EMIT_rf [simp]: "tc_code (EMIT_rf ws j) = tc_code j @ ws"
  by (simp add: EMIT_rf_def RESET_FLAGS_def)

lemma EMIT_fields [simp]:
  "register_pool (EMIT ws j) = register_pool j" "changed_mask (EMIT ws j) = changed_mask j"
  "last_allocated (EMIT ws j) = last_allocated j" "fpu_allocstate (EMIT ws j) = fpu_allocstate j"
  "reg_CC (EMIT ws j) = reg_CC j" "mod_CC (EMIT ws j) = mod_CC j"
  "reg_CTX (EMIT ws j) = reg_CTX j" "reg_FPCR (EMIT ws j) = reg_FPCR j"
  "mod_FPCR (EMIT ws j) = mod_FPCR j" "reg_FPSR (EMIT ws j) = reg_FPSR j"
  "mod_FPSR (EMIT ws j) = mod_FPSR j" "host_flags (EMIT ws j) = host_flags j"
  "pc_rel (EMIT ws j) = pc_rel j" "tc_room (EMIT ws j) = tc_room j"
  by (simp_all add: EMIT_def)

lemma EMIT_rf_fields [simp]:
  "register_pool (EMIT_rf ws j) = register_pool j" "last_allocated (EMIT_rf ws j) = last_allocated j"
  "reg_CC (EMIT_rf ws j) = reg_CC j" "mod_CC (EMIT_rf ws j) = mod_CC j"
  "reg_CTX (EMIT_rf ws j) = reg_CTX j" "reg_FPCR (EMIT_rf ws j) = reg_FPCR j"
  "mod_FPCR (EMIT_rf ws j) = mod_FPCR j" "reg_FPSR (EMIT_rf ws j) = reg_FPSR j"
  "mod_FPSR (EMIT_rf ws j) = mod_FPSR j" "host_flags (EMIT_rf ws j) = 0"
  "pc_rel (EMIT_rf ws j) = pc_rel j"
  by (simp_all add: EMIT_rf_def RESET_FLAGS_def)

text \<open>The words an emitter added to the buffer, and what running them does.\<close>

definition emitted :: "jit \<Rightarrow> jit \<Rightarrow> u32 list" where
  "emitted j j' = drop (length (tc_code j)) (tc_code j')"

lemma emittedI: "tc_code j' = tc_code j @ ws \<Longrightarrow> emitted j j' = ws"
  by (simp add: emitted_def)

definition no_branches :: "u32 list \<Rightarrow> bool" where
  "no_branches ws = list_all (\<lambda>w. case decode (fetch w) of None \<Rightarrow> True | Some i \<Rightarrow> \<not> is_branch i) ws"

lemma run_append:
  "no_branches xs \<Longrightarrow> run (xs @ ys) m = Option.bind (run xs m) (run ys)"
proof (induction xs arbitrary: m)
  case Nil
  then show ?case by simp
next
  case (Cons w xs)
  then show ?case by (auto simp: no_branches_def split: option.splits)
qed

section \<open>Reading and writing machine registers\<close>

lemma rdX_wrX [simp]: "rdX (wrX r v m) s = (if r = s \<and> r \<noteq> 31 then v else rdX m s)"
  by (simp add: rdX_def wrX_def)

lemma rdW_wrX [simp]: "rdW (wrX r v m) s = (if r = s \<and> r \<noteq> 31 then ucast v else rdW m s)"
  by (auto simp: rdW_def)

lemma ucast_u32_u64 [simp]: "(ucast (ucast (v :: u32) :: u64) :: u32) = v"
  by (rule bit_eqI) (auto simp: bit_simps)

lemma rdX_wrW [simp]: "rdX (wrW r v m) s = (if r = s \<and> r \<noteq> 31 then ucast v else rdX m s)"
  by (simp add: wrW_def)

lemma rdW_wrW [simp]: "rdW (wrW r v m) s = (if r = s \<and> r \<noteq> 31 then v else rdW m s)"
  by (auto simp: wrW_def)

lemma rdX_wrXsp [simp]: "r \<noteq> 31 \<Longrightarrow> rdX (wrXsp r v m) s = (if r = s then v else rdX m s)"
  by (simp add: rdX_def wrXsp_def)

lemma rdW_wrXsp [simp]: "r \<noteq> 31 \<Longrightarrow> rdW (wrXsp r v m) s = (if r = s then ucast v else rdW m s)"
  by (simp add: rdW_def)

lemma rdW_31 [simp]: "rdW m 31 = 0" "rdX m 31 = 0"
  by (simp_all add: rdW_def rdX_def)

lemma wr_flags [simp]:
  "m_n (wrX r v m) = m_n m" "m_z (wrX r v m) = m_z m" "m_c (wrX r v m) = m_c m"
  "m_v (wrX r v m) = m_v m" "m_n (wrW r w m) = m_n m" "m_z (wrW r w m) = m_z m"
  "m_c (wrW r w m) = m_c m" "m_v (wrW r w m) = m_v m" "m_n (wrXsp r v m) = m_n m"
  "m_z (wrXsp r v m) = m_z m" "m_c (wrXsp r v m) = m_c m" "m_v (wrXsp r v m) = m_v m"
  by (simp_all add: wrX_def wrW_def wrXsp_def)

lemma wr_other [simp]:
  "m_simd (wrX r v m) = m_simd m" "m_simd (wrW r w m) = m_simd m" "m_simd (wrXsp r v m) = m_simd m"
  "m_mem (wrX r v m) = m_mem m" "m_mem (wrW r w m) = m_mem m" "m_mem (wrXsp r v m) = m_mem m"
  "m_sp (wrX r v m) = m_sp m" "m_sp (wrW r w m) = m_sp m"
  "m_pc (wrX r v m) = m_pc m" "m_pc (wrW r w m) = m_pc m" "m_pc (wrXsp r v m) = m_pc m"
  by (simp_all add: wrX_def wrW_def wrXsp_def)

lemma rd_updates [simp]:
  "rdX (m\<lparr>m_pc := p\<rparr>) r = rdX m r" "rdW (m\<lparr>m_pc := p\<rparr>) r = rdW m r"
  "rdX (m\<lparr>m_simd := q\<rparr>) r = rdX m r" "rdW (m\<lparr>m_simd := q\<rparr>) r = rdW m r"
  "rdX (m\<lparr>m_mem := f\<rparr>) r = rdX m r" "rdW (m\<lparr>m_mem := f\<rparr>) r = rdW m r"
  "rdX (m\<lparr>m_n := b1\<rparr>) r = rdX m r" "rdX (m\<lparr>m_z := b1\<rparr>) r = rdX m r"
  "rdX (m\<lparr>m_c := b1\<rparr>) r = rdX m r" "rdX (m\<lparr>m_v := b1\<rparr>) r = rdX m r"
  "rdW (m\<lparr>m_n := b1\<rparr>) r = rdW m r" "rdW (m\<lparr>m_z := b1\<rparr>) r = rdW m r"
  "rdW (m\<lparr>m_c := b1\<rparr>) r = rdW m r" "rdW (m\<lparr>m_v := b1\<rparr>) r = rdW m r"
  by (simp_all add: rdW_def rdX_def)

lemma set_nz_fields [simp]:
  "rdX (set_nz w m) r = rdX m r" "rdW (set_nz w m) r = rdW m r"
  "m_n (set_nz w m) = bit w 31" "m_z (set_nz w m) = (w = 0)"
  "m_c (set_nz w m) = False" "m_v (set_nz w m) = False"
  "m_simd (set_nz w m) = m_simd m" "m_mem (set_nz w m) = m_mem m" "m_sp (set_nz w m) = m_sp m"
  "m_pc (set_nz w m) = m_pc m"
  by (simp_all add: set_nz_def rdW_def rdX_def)

text \<open>One emitted word: what it decodes to is what it does.\<close>

lemma run_Cons:
  "decode (fetch w) = Some i \<Longrightarrow> \<not> is_branch i \<or> ws = [] \<Longrightarrow> run (w # ws) m = run ws (exec i m)"
  by auto

lemmas a64_run = a64_decode exec_def option.map

end
