(* ===== verification/RegAlloc.thy ===== *)
theory RegAlloc
  imports Jit_State
begin

text \<open>
  The register allocator of \<open>emu68/src/aarch64/RegisterAllocator64.c\<close>: the pool of
  temporary registers, handed out round robin, and the emulated status registers CC,
  FPCR, FPSR and the context pointer, which live in lanes of vector registers and are
  cached in a temporary while an instruction is translated. The m68k registers are
  mapped to fixed host registers.

  The contract that the emitters rely on is the locale \<open>reg_allocator\<close>; both the integer
  and the floating-point allocator are interpretations of it.
\<close>

section \<open>The code\<close>

subsection \<open>Temporary registers\<close>

text \<open>The scan starts after the register handed out last; \<open>x0\<close> to \<open>x3\<close> are never free.\<close>

definition int_arm_alloc_reg :: "jit \<Rightarrow> u8 \<times> jit" where
  "int_arm_alloc_reg j =
     (case find (\<lambda>i. (register_pool j OR 15)
                       AND push_bit ((last_allocated j + i) mod 12) 1 = 0) [1..<13] of
        None \<Rightarrow> (0xff, j)
      | Some i \<Rightarrow>
          let reg = (last_allocated j + i) mod 12
          in (of_nat reg,
              j\<lparr>register_pool := register_pool j OR push_bit reg 1,
                changed_mask := changed_mask j OR push_bit reg 1,
                last_allocated := reg\<rparr>))"

definition RA_FreeARMRegister :: "u8 \<Rightarrow> jit \<Rightarrow> jit" where
  "RA_FreeARMRegister arm_reg j =
     (if 11 < arm_reg then j
      else j\<lparr>register_pool := register_pool j AND NOT (push_bit (unat arm_reg) 1)\<rparr>)"

definition RA_GetTempAllocMask :: "jit \<Rightarrow> u16" where
  "RA_GetTempAllocMask j = register_pool j"

definition RA_StoreFPCR :: "jit \<Rightarrow> jit" where
  "RA_StoreFPCR j =
     (if reg_FPCR j \<noteq> 0xff \<and> mod_FPCR j \<noteq> 0
      then EMIT [mov_reg_to_simd 19 TS_H 4 (reg_FPCR j)] j else j)"

definition RA_FlushFPCR :: "jit \<Rightarrow> jit" where
  "RA_FlushFPCR j =
     (let j1 = (if reg_FPCR j \<noteq> 0xff
                then RA_FreeARMRegister (reg_FPCR j)
                       (if mod_FPCR j \<noteq> 0
                        then EMIT [mov_reg_to_simd 19 TS_H 4 (reg_FPCR j)] j else j)
                else j)
      in j1\<lparr>reg_FPCR := 0xff, mod_FPCR := 0\<rparr>)"

definition RA_StoreFPSR :: "jit \<Rightarrow> jit" where
  "RA_StoreFPSR j =
     (if reg_FPSR j \<noteq> 0xff \<and> mod_FPSR j \<noteq> 0
      then EMIT [mov_reg_to_simd 19 TS_S 0 (reg_FPSR j)] j else j)"

definition RA_FlushFPSR :: "jit \<Rightarrow> jit" where
  "RA_FlushFPSR j =
     (let j1 = (if reg_FPSR j \<noteq> 0xff
                then RA_FreeARMRegister (reg_FPSR j)
                       (if mod_FPSR j \<noteq> 0
                        then EMIT [mov_reg_to_simd 19 TS_S 0 (reg_FPSR j)] j else j)
                else j)
      in j1\<lparr>reg_FPSR := 0xff, mod_FPSR := 0\<rparr>)"

definition RA_StoreCC :: "jit \<Rightarrow> jit" where
  "RA_StoreCC j =
     (if reg_CC j \<noteq> 0xff \<and> mod_CC j \<noteq> 0
      then EMIT [mov_reg_to_simd 19 TS_H 5 (reg_CC j)] j else j)"

definition RA_FlushCC :: "jit \<Rightarrow> jit" where
  "RA_FlushCC j =
     (let j1 = (if reg_CC j \<noteq> 0xff
                then RA_FreeARMRegister (reg_CC j)
                       (if mod_CC j \<noteq> 0
                        then EMIT [mov_reg_to_simd 19 TS_H 5 (reg_CC j)] j else j)
                else j)
      in j1\<lparr>reg_CC := 0xff, mod_CC := 0\<rparr>)"

text \<open>
  When the pool is exhausted the allocator gives up the cached status registers, one
  after the other, writing a modified one back first.
\<close>

definition RA_AllocARMRegister :: "jit \<Rightarrow> u8 \<times> jit" where
  "RA_AllocARMRegister j =
     (case int_arm_alloc_reg j of (reg, j1) \<Rightarrow>
        if reg \<noteq> 0xff then (reg, j1)
        else (case int_arm_alloc_reg (RA_FlushFPCR j1) of (reg, j2) \<Rightarrow>
          if reg \<noteq> 0xff then (reg, j2)
          else (case int_arm_alloc_reg (RA_FlushFPSR j2) of (reg, j3) \<Rightarrow>
            if reg \<noteq> 0xff then (reg, j3)
            else (case int_arm_alloc_reg (RA_FlushCC j3) of (reg, j4) \<Rightarrow>
              if reg \<noteq> 0xff then (reg, j4) else (0xff, j4)))))"

subsection \<open>The cached status registers\<close>

definition RA_TryCTX :: "jit \<Rightarrow> u8" where
  "RA_TryCTX j = reg_CTX j"

definition RA_GetCTX :: "jit \<Rightarrow> u8 \<times> jit" where
  "RA_GetCTX j =
     (if reg_CTX j = 0xff
      then (case RA_AllocARMRegister j of (r, j1) \<Rightarrow>
              (r, EMIT [mov_simd_to_reg r 20 TS_D 1] (j1\<lparr>reg_CTX := r\<rparr>)))
      else (reg_CTX j, j))"

definition RA_FlushCTX :: "jit \<Rightarrow> jit" where
  "RA_FlushCTX j =
     (let j1 = (if reg_CTX j \<noteq> 0xff then RA_FreeARMRegister (reg_CTX j) j else j)
      in j1\<lparr>reg_CTX := 0xff\<rparr>)"

definition RA_GetFPCR :: "jit \<Rightarrow> u8 \<times> jit" where
  "RA_GetFPCR j =
     (if reg_FPCR j = 0xff
      then (case RA_AllocARMRegister j of (r, j1) \<Rightarrow>
              (r, (EMIT [mov_simd_to_reg r 19 TS_H 4] (j1\<lparr>reg_FPCR := r\<rparr>))\<lparr>mod_FPCR := 0\<rparr>))
      else (reg_FPCR j, j))"

definition RA_ModifyFPCR :: "jit \<Rightarrow> u8 \<times> jit" where
  "RA_ModifyFPCR j = (case RA_GetFPCR j of (fpcr, j1) \<Rightarrow> (fpcr, j1\<lparr>mod_FPCR := 1\<rparr>))"

definition RA_GetFPSR :: "jit \<Rightarrow> u8 \<times> jit" where
  "RA_GetFPSR j =
     (if reg_FPSR j = 0xff
      then (case RA_AllocARMRegister j of (r, j1) \<Rightarrow>
              (r, (EMIT [mov_simd_to_reg r 19 TS_S 0] (j1\<lparr>reg_FPSR := r\<rparr>))\<lparr>mod_FPSR := 0\<rparr>))
      else (reg_FPSR j, j))"

definition RA_ModifyFPSR :: "jit \<Rightarrow> u8 \<times> jit" where
  "RA_ModifyFPSR j = (case RA_GetFPSR j of (fpsr, j1) \<Rightarrow> (fpsr, j1\<lparr>mod_FPSR := 1\<rparr>))"

definition RA_GetCC :: "jit \<Rightarrow> u8 \<times> jit" where
  "RA_GetCC j =
     (if reg_CC j = 0xff
      then (case RA_AllocARMRegister j of (r, j1) \<Rightarrow>
              (r, (EMIT [mov_simd_to_reg r 19 TS_H 5] (j1\<lparr>reg_CC := r\<rparr>))\<lparr>mod_CC := 0\<rparr>))
      else (reg_CC j, j))"

definition RA_ModifyCC :: "jit \<Rightarrow> u8 \<times> jit" where
  "RA_ModifyCC j = (case RA_GetCC j of (cc, j1) \<Rightarrow> (cc, j1\<lparr>mod_CC := 1\<rparr>))"

definition RA_IsCCLoaded :: "jit \<Rightarrow> bool" where
  "RA_IsCCLoaded j \<longleftrightarrow> reg_CC j \<noteq> 0xff"

definition RA_IsCCModified :: "jit \<Rightarrow> bool" where
  "RA_IsCCModified j \<longleftrightarrow> mod_CC j \<noteq> 0"

subsection \<open>Floating-point temporaries and the fixed mappings\<close>

definition RA_ResetFPUAllocator :: "jit \<Rightarrow> jit" where
  "RA_ResetFPUAllocator j = j\<lparr>fpu_allocstate := 0\<rparr>"

definition RA_MapFPURegister :: "u8 \<Rightarrow> u8" where
  "RA_MapFPURegister fpu_reg = (fpu_reg AND 7) + 8"

definition RA_MapFPURegisterForWrite :: "u8 \<Rightarrow> u8" where
  "RA_MapFPURegisterForWrite fpu_reg = (fpu_reg AND 7) + 8"

definition RA_AllocFPURegister :: "jit \<Rightarrow> u8 \<times> jit" where
  "RA_AllocFPURegister j =
     (case find (\<lambda>i. fpu_allocstate j AND push_bit i 1 = 0) [2..<8] of
        None \<Rightarrow> (0xff, j)
      | Some i \<Rightarrow> (of_nat i, j\<lparr>fpu_allocstate := fpu_allocstate j OR push_bit i 1\<rparr>))"

definition RA_FreeFPURegister :: "u8 \<Rightarrow> jit \<Rightarrow> jit" where
  "RA_FreeFPURegister arm_reg j =
     (if arm_reg < 8
      then (if fpu_allocstate j AND push_bit (unat arm_reg) 1 \<noteq> 0
            then j\<lparr>fpu_allocstate := fpu_allocstate j AND NOT (push_bit (unat arm_reg) 1)\<rparr>
            else j)
      else j)"

definition reg_map_m68k_to_arm :: "u8 list" where
  "reg_map_m68k_to_arm =
     [19, 20, 21, 22, 23, 24, 25, 26, 13, 14, 15, 16, 17, 27, 28, 29]"

definition RA_IsM68kRegister :: "u8 \<Rightarrow> bool" where
  "RA_IsM68kRegister arm_reg \<longleftrightarrow>
     (let test_field = push_bit 19 1 OR push_bit 20 1 OR push_bit 21 1 OR push_bit 22 1 OR
            push_bit 23 1 OR push_bit 24 1 OR push_bit 25 1 OR push_bit 26 1 OR
            push_bit 13 1 OR push_bit 14 1 OR push_bit 15 1 OR push_bit 16 1 OR
            push_bit 17 1 OR push_bit 27 1 OR push_bit 28 1 OR push_bit 29 (1 :: u32)
      in if 32 \<le> arm_reg then False else test_field AND push_bit (unat arm_reg) 1 \<noteq> 0)"

definition RA_MapM68kRegister :: "u8 \<Rightarrow> u8" where
  "RA_MapM68kRegister m68k_reg = reg_map_m68k_to_arm ! unat (m68k_reg AND 15)"

definition RA_MapM68kRegisterForWrite :: "u8 \<Rightarrow> u8" where
  "RA_MapM68kRegisterForWrite m68k_reg = reg_map_m68k_to_arm ! unat (m68k_reg AND 15)"

definition RA_CopyFromM68kRegister :: "u8 \<Rightarrow> jit \<Rightarrow> u8 \<times> jit" where
  "RA_CopyFromM68kRegister m68k_reg j =
     (case RA_AllocARMRegister j of (arm_reg, j1) \<Rightarrow>
        (arm_reg, EMIT [mov_reg arm_reg (reg_map_m68k_to_arm ! unat (m68k_reg AND 15))] j1))"

section \<open>The contract of an allocator\<close>

text \<open>
  What the emitters rely on: a register handed out was not live and is live now, \<open>0xff\<close>
  is returned exactly when nothing is free, freeing gives one register back.
\<close>

locale reg_allocator =
  fixes alloc :: "'s \<Rightarrow> u8 \<times> 's"
    and free :: "u8 \<Rightarrow> 's \<Rightarrow> 's"
    and live :: "'s \<Rightarrow> u8 set"
    and avail :: "u8 set"
  assumes fin_avail: "finite avail"
    and ff_not_avail: "0xff \<notin> avail"
    and alloc_ok: "alloc s = (r, s') \<Longrightarrow> r \<noteq> 0xff \<Longrightarrow>
      r \<in> avail \<and> r \<notin> live s \<and> live s' = insert r (live s)"
    and alloc_fail: "alloc s = (0xff, s') \<Longrightarrow> s' = s \<and> avail \<subseteq> live s"
    and free_live: "r \<in> avail \<Longrightarrow> live (free r s) = live s - {r}"
begin

primrec alloc_n :: "nat \<Rightarrow> 's \<Rightarrow> u8 list \<times> 's" where
  "alloc_n 0 s = ([], s)"
| "alloc_n (Suc n) s =
     (case alloc s of (r, s1) \<Rightarrow> case alloc_n n s1 of (rs, s2) \<Rightarrow> (r # rs, s2))"

lemma alloc_succeeds:
  assumes "\<not> avail \<subseteq> live s"
  obtains r s' where "alloc s = (r, s')" "r \<in> avail" "r \<notin> live s" "live s' = insert r (live s)"
proof -
  obtain r s' where rs: "alloc s = (r, s')" by fastforce
  with assms alloc_fail have "r \<noteq> 0xff" by blast
  from alloc_ok [OF rs this] rs that show ?thesis by blast
qed

text \<open>A temporary that is freed again leaves the set of live registers as it was.\<close>

lemma alloc_free_live:
  assumes "alloc s = (r, s')" "r \<noteq> 0xff"
  shows "live (free r s') = live s"
  using alloc_ok [OF assms] free_live [of r s'] by blast

text \<open>Registers handed out one after the other are distinct, and none was live before.\<close>

lemma alloc_n_distinct:
  "alloc_n n s = (rs, s') \<Longrightarrow> 0xff \<notin> set rs \<Longrightarrow>
     distinct rs \<and> set rs \<subseteq> avail \<and> set rs \<inter> live s = {} \<and> live s' = live s \<union> set rs"
proof (induction n arbitrary: s rs)
  case 0
  then show ?case by simp
next
  case (Suc n)
  obtain r s1 rs1 where a: "alloc s = (r, s1)" "alloc_n n s1 = (rs1, s')" "rs = r # rs1"
    using Suc.prems(1) by (auto split: prod.splits)
  with Suc.prems(2) have "r \<noteq> 0xff" "0xff \<notin> set rs1" by auto
  with Suc.IH [OF a(2)] alloc_ok [OF a(1)] a(3) show ?case by auto
qed

text \<open>As many allocations succeed as there are registers free.\<close>

lemma alloc_n_succeeds:
  "n \<le> card (avail - live s) \<Longrightarrow> 0xff \<notin> set (fst (alloc_n n s))"
proof (induction n arbitrary: s)
  case 0
  then show ?case by simp
next
  case (Suc n)
  then have "avail - live s \<noteq> {}" by (metis Suc_n_not_le_n card.empty le0 order_trans)
  then have "\<not> avail \<subseteq> live s" by blast
  then obtain r s1 where a: "alloc s = (r, s1)" "r \<in> avail" "r \<notin> live s"
      "live s1 = insert r (live s)" by (rule alloc_succeeds)
  have "avail - live s1 = (avail - live s) - {r}" using a(4) by blast
  with a(2,3) fin_avail have "card (avail - live s1) = card (avail - live s) - 1"
    by (simp add: card_Diff_singleton)
  with Suc.prems have "n \<le> card (avail - live s1)" by simp
  with Suc.IH [of s1] a ff_not_avail show ?case by (auto split: prod.splits)
qed

end

section \<open>The integer allocator\<close>

lemma and_push_1_eq_0: "(w :: 'a::len word) AND 2 ^ k = 0 \<longleftrightarrow> \<not> bit w k"
  by (simp add: bit_iff_and_push_bit_not_eq_0)

definition arm_temps :: "u8 set" where
  "arm_temps = {r. 4 \<le> unat r \<and> unat r < 12}"

definition live_temps :: "jit \<Rightarrow> u8 set" where
  "live_temps j = {r \<in> arm_temps. bit (register_pool j) (unat r)}"

lemma bit_or_15: "bit ((p :: u16) OR 15) k \<longleftrightarrow> bit p k \<or> k < 4"
proof -
  have m: "(15 :: u16) = mask 4" by (simp add: mask_eq_exp_minus_1)
  show ?thesis unfolding m by (auto simp: bit_simps)
qed

lemma int_arm_alloc_reg_cases:
  obtains (fail) "int_arm_alloc_reg j = (0xff, j)" "\<And>i. 4 \<le> i \<Longrightarrow> i < 12 \<Longrightarrow> bit (register_pool j) i"
  | (ok) i where "4 \<le> i" "i < 12" "\<not> bit (register_pool j) i"
      "int_arm_alloc_reg j = (of_nat i, j\<lparr>register_pool := register_pool j OR push_bit i 1,
         changed_mask := changed_mask j OR push_bit i 1, last_allocated := i\<rparr>)"
proof (cases "find (\<lambda>i. (register_pool j OR 15)
                AND push_bit ((last_allocated j + i) mod 12) 1 = 0) [1..<13]")
  case None
  have "bit (register_pool j) i" if i: "4 \<le> i" "i < 12" for i
  proof -
    obtain d where d: "1 \<le> d" "d < 13" "(last_allocated j + d) mod 12 = i"
    proof
      let ?a = "last_allocated j mod 12"
      let ?d = "if ?a < i then i - ?a else i + 12 - ?a"
      have a: "?a < 12" by simp
      show "1 \<le> ?d" "?d < 13" using a i by auto
      have "(last_allocated j + ?d) mod 12 = (?a + ?d) mod 12" by (simp add: mod_add_left_eq)
      also have "\<dots> = i" using a i by auto
      finally show "(last_allocated j + ?d) mod 12 = i" .
    qed
    with find_upt_None [OF None d(1,2)] have "bit (register_pool j OR 15) i"
      by (simp add: and_push_1_eq_0)
    with i show ?thesis by (simp add: bit_or_15)
  qed
  with None show ?thesis by (intro fail) (simp_all add: int_arm_alloc_reg_def)
next
  case (Some i)
  let ?r = "(last_allocated j + i) mod 12"
  from find_upt_Some [OF Some] have "\<not> bit (register_pool j OR 15) ?r"
    by (simp add: and_push_1_eq_0)
  then have "4 \<le> ?r" "\<not> bit (register_pool j) ?r" by (simp_all add: bit_or_15)
  with Some show ?thesis by (intro ok [of ?r]) (simp_all add: int_arm_alloc_reg_def Let_def)
qed

lemma unat_of_nat_temp [simp]: "i < 12 \<Longrightarrow> unat (of_nat i :: u8) = i"
  by (simp add: unat_of_nat)

lemma of_nat_temp_noteq_ff: "i < 12 \<Longrightarrow> (of_nat i :: u8) \<noteq> 0xff"
proof
  assume "i < 12" "(of_nat i :: u8) = 0xff"
  then have "unat (0xff :: u8) = i" using unat_of_nat_temp by metis
  with \<open>i < 12\<close> show False by simp
qed

lemma bit_or_push: "bit (p OR 2 ^ i) k \<longleftrightarrow> bit p k \<or> (k = i \<and> i < 16)" for p :: u16
  by (auto simp: bit_simps)

lemma bit_andnot_push: "bit (p AND NOT (2 ^ i)) k \<longleftrightarrow> bit p k \<and> k \<noteq> i" for p :: u16
  by (auto simp: bit_simps dest: bit_imp_le_length)

lemma int_arm_alloc_reg_live:
  assumes "int_arm_alloc_reg j = (r, j')" "r \<noteq> 0xff"
  shows "r \<in> arm_temps" "r \<notin> live_temps j" "live_temps j' = insert r (live_temps j)"
proof -
  obtain i where i: "4 \<le> i" "i < 12" "\<not> bit (register_pool j) i" "r = of_nat i"
      "register_pool j' = register_pool j OR push_bit i 1"
    using assms by (cases j rule: int_arm_alloc_reg_cases) auto
  then have r: "unat r = i" by simp
  with i show "r \<in> arm_temps" "r \<notin> live_temps j"
    by (simp_all add: arm_temps_def live_temps_def)
  show "live_temps j' = insert r (live_temps j)"
    using i r by (auto simp: live_temps_def arm_temps_def bit_or_push word_unat_eq_iff [where ?'a = 8])
qed

interpretation temps: reg_allocator int_arm_alloc_reg RA_FreeARMRegister live_temps arm_temps
proof
  show "finite arm_temps" by simp
  show "0xff \<notin> arm_temps" by (simp add: arm_temps_def)
  fix s s' r
  assume "int_arm_alloc_reg s = (r, s')" "r \<noteq> 0xff"
  then show "r \<in> arm_temps \<and> r \<notin> live_temps s \<and> live_temps s' = insert r (live_temps s)"
    using int_arm_alloc_reg_live by blast
next
  fix s s'
  assume a: "int_arm_alloc_reg s = (0xff, s')"
  show "s' = s \<and> arm_temps \<subseteq> live_temps s"
  proof (cases s rule: int_arm_alloc_reg_cases)
    case fail
    with a show ?thesis by (auto simp: live_temps_def arm_temps_def)
  next
    case (ok i)
    with a of_nat_temp_noteq_ff show ?thesis by auto
  qed
next
  fix r s
  assume r: "r \<in> arm_temps"
  then have "\<not> 11 < r" by (simp add: arm_temps_def word_less_nat_alt)
  with r show "live_temps (RA_FreeARMRegister r s) = live_temps s - {r}"
    by (auto simp: live_temps_def arm_temps_def RA_FreeARMRegister_def bit_andnot_push
        word_unat_eq_iff [where ?'a = 8])
qed

section \<open>The floating-point allocator\<close>

definition fpu_temps :: "u8 set" where
  "fpu_temps = {r. 2 \<le> unat r \<and> unat r < 8}"

definition live_fpu :: "jit \<Rightarrow> u8 set" where
  "live_fpu j = {r \<in> fpu_temps. bit (fpu_allocstate j) (unat r)}"

lemma bit_or_push_u8: "bit (p OR 2 ^ i) k \<longleftrightarrow> bit p k \<or> (k = i \<and> i < 8)" for p :: u8
  by (auto simp: bit_simps)

lemma bit_andnot_push_u8: "bit (p AND NOT (2 ^ i)) k \<longleftrightarrow> bit p k \<and> k \<noteq> i" for p :: u8
  by (auto simp: bit_simps dest: bit_imp_le_length)

interpretation fpu: reg_allocator RA_AllocFPURegister RA_FreeFPURegister live_fpu fpu_temps
proof
  show "finite fpu_temps" by simp
  show "0xff \<notin> fpu_temps" by (simp add: fpu_temps_def)
next
  fix s s' r
  assume a: "RA_AllocFPURegister s = (r, s')" "r \<noteq> 0xff"
  then obtain i where i: "find (\<lambda>i. fpu_allocstate s AND push_bit i 1 = 0) [2..<8] = Some i"
      "r = of_nat i" "fpu_allocstate s' = fpu_allocstate s OR push_bit i 1"
    by (cases "find (\<lambda>i. fpu_allocstate s AND push_bit i 1 = 0) [2..<8]")
      (auto simp: RA_AllocFPURegister_def simp del: upt_rec_numeral)
  from find_upt_Some [OF i(1)] have "2 \<le> i" "i < 8" "\<not> bit (fpu_allocstate s) i"
    by (simp_all add: and_push_1_eq_0)
  moreover from this i(2) have u: "unat r = i" by simp
  moreover have "live_fpu s' = {x \<in> fpu_temps. bit (fpu_allocstate s OR push_bit i 1) (unat x)}"
    by (simp add: live_fpu_def i(3))
  moreover have "x = r \<longleftrightarrow> unat x = i" for x
    using u by (metis word_unat_eq_iff)
  ultimately show "r \<in> fpu_temps \<and> r \<notin> live_fpu s \<and> live_fpu s' = insert r (live_fpu s)"
    by (auto simp: live_fpu_def fpu_temps_def bit_or_push_u8)
next
  fix s s'
  assume a: "RA_AllocFPURegister s = (0xff, s')"
  show "s' = s \<and> fpu_temps \<subseteq> live_fpu s"
  proof (cases "find (\<lambda>i. fpu_allocstate s AND push_bit i 1 = 0) [2..<8]")
    case None
    with a have "s' = s" by (simp add: RA_AllocFPURegister_def)
    with find_upt_None [OF None] show ?thesis
      by (auto simp: live_fpu_def fpu_temps_def and_push_1_eq_0)
  next
    case (Some i)
    from find_upt_Some [OF this] have "i < 12" by simp
    with a Some of_nat_temp_noteq_ff show ?thesis by (auto simp: RA_AllocFPURegister_def)
  qed
next
  fix r s
  assume r: "r \<in> fpu_temps"
  then have "r < 8" by (simp add: fpu_temps_def word_less_nat_alt)
  moreover have "x = r \<longleftrightarrow> unat x = unat r" for x by (simp add: word_unat_eq_iff)
  ultimately show "live_fpu (RA_FreeFPURegister r s) = live_fpu s - {r}"
    by (auto simp: live_fpu_def RA_FreeFPURegister_def bit_andnot_push_u8 and_push_1_eq_0)
qed

end
