(* ===== verification/RA_Status.thy ===== *)
theory RA_Status
  imports RegAlloc
begin

text \<open>
  The emulated status registers under the register allocator. The condition codes,
  FPCR and FPSR live in lanes of vector register 19 and may be cached in a temporary;
  what the program sees is the cached register when there is one and the lane
  otherwise (\<open>cc_view\<close>, \<open>fpcr_view\<close>, \<open>fpsr_view\<close>). The lemmas show that the code the
  allocator emits on its own never changes that view, whatever registers it evicts.
\<close>

section \<open>Well-formed allocator states\<close>

definition status_regs :: "jit \<Rightarrow> u8 list" where
  "status_regs j = filter (\<lambda>r. r \<noteq> 0xff) [reg_CTX j, reg_FPCR j, reg_FPSR j, reg_CC j]"

text \<open>The cached registers are distinct temporaries, and every one of them is allocated.\<close>

definition ra_wf :: "jit \<Rightarrow> bool" where
  "ra_wf j \<longleftrightarrow> distinct (status_regs j) \<and>
     list_all (\<lambda>r. 4 \<le> unat r \<and> unat r < 12 \<and> bit (register_pool j) (unat r)) (status_regs j)"

lemma ra_wf_live: "ra_wf j \<longleftrightarrow> distinct (status_regs j) \<and> set (status_regs j) \<subseteq> live_temps j"
  by (auto simp: ra_wf_def list_all_iff live_temps_def arm_temps_def)

lemma jit_init_wf: "ra_wf (jit_init n)"
  by (simp add: ra_wf_def jit_init_def status_regs_def)

lemma status_regs_EMIT [simp]:
  "status_regs (EMIT ws j) = status_regs j" "live_temps (EMIT ws j) = live_temps j"
  "ra_wf (EMIT ws j) = ra_wf j"
  by (simp_all add: status_regs_def live_temps_def ra_wf_def)

lemma status_reg_temp:
  assumes "ra_wf j" "r \<in> {reg_CTX j, reg_FPCR j, reg_FPSR j, reg_CC j}" "r \<noteq> 0xff"
  shows "r \<in> arm_temps" "r \<in> live_temps j"
proof -
  have "r \<in> set (status_regs j)"
    unfolding status_regs_def set_filter using assms(2,3) by simp
  with assms(1) show "r \<in> live_temps j" by (auto simp: ra_wf_live)
  then show "r \<in> arm_temps" by (simp add: live_temps_def)
qed

lemma arm_temps_less: "r \<in> arm_temps \<Longrightarrow> r < 32 \<and> r \<noteq> 31 \<and> r \<noteq> 0xff \<and> take_bit 5 r = r"
  by (auto simp: arm_temps_def word_less_nat_alt intro: take_bit_5_reg)

section \<open>Lanes\<close>

definition lane_cc :: "u128 \<Rightarrow> u16" where "lane_cc q = ucast (lane_get 16 5 q)"
definition lane_fpcr :: "u128 \<Rightarrow> u16" where "lane_fpcr q = ucast (lane_get 16 4 q)"
definition lane_fpsr :: "u128 \<Rightarrow> u32" where "lane_fpsr q = ucast (lane_get 32 0 q)"

lemma lane_get_set_same:
  "sz \<le> 64 \<Longrightarrow> sz * i + sz \<le> 128 \<Longrightarrow> lane_get sz i (lane_set sz i x q) = take_bit sz x"
  by (rule bit_eqI) (auto simp: lane_get_def lane_set_def bit_simps)

lemma lane_get_set_other:
  "sz * i + sz \<le> 128 \<Longrightarrow> sz * i + sz \<le> sz' * i' \<or> sz' * i' + sz' \<le> sz * i \<Longrightarrow>
   lane_get sz i (lane_set sz' i' x q) = lane_get sz i q"
  by (rule bit_eqI) (auto simp: lane_get_def lane_set_def bit_simps)

lemma ucast_take_16 [simp]: "(ucast (take_bit 16 (x :: u64)) :: u16) = ucast x"
  by (rule bit_eqI) (auto simp: bit_simps dest: bit_imp_le_length)

lemma ucast_take_32 [simp]: "(ucast (take_bit 32 (x :: u64)) :: u32) = ucast x"
  by (rule bit_eqI) (auto simp: bit_simps dest: bit_imp_le_length)

lemma lane_set_get [simp]:
  "lane_cc (lane_set 16 5 x q) = ucast x" "lane_cc (lane_set 16 4 x q) = lane_cc q"
  "lane_cc (lane_set 32 0 x q) = lane_cc q"
  "lane_fpcr (lane_set 16 4 x q) = ucast x" "lane_fpcr (lane_set 16 5 x q) = lane_fpcr q"
  "lane_fpcr (lane_set 32 0 x q) = lane_fpcr q"
  "lane_fpsr (lane_set 32 0 x q) = ucast x" "lane_fpsr (lane_set 16 5 x q) = lane_fpsr q"
  "lane_fpsr (lane_set 16 4 x q) = lane_fpsr q"
  by (simp_all add: lane_cc_def lane_fpcr_def lane_fpsr_def lane_get_set_same lane_get_set_other)

section \<open>What the emulated program sees\<close>

definition cc_view :: "jit \<Rightarrow> mstate \<Rightarrow> u16" where
  "cc_view j m =
     (if reg_CC j = 0xff then lane_cc (m_simd m 19) else ucast (rdX m (reg_CC j)))"

definition fpcr_view :: "jit \<Rightarrow> mstate \<Rightarrow> u16" where
  "fpcr_view j m =
     (if reg_FPCR j = 0xff then lane_fpcr (m_simd m 19) else ucast (rdX m (reg_FPCR j)))"

definition fpsr_view :: "jit \<Rightarrow> mstate \<Rightarrow> u32" where
  "fpsr_view j m =
     (if reg_FPSR j = 0xff then lane_fpsr (m_simd m 19) else ucast (rdX m (reg_FPSR j)))"

text \<open>A cached register that is not marked modified still holds what its lane holds.\<close>

definition coherent :: "jit \<Rightarrow> mstate \<Rightarrow> bool" where
  "coherent j m \<longleftrightarrow>
     (mod_CC j = 0 \<longrightarrow> cc_view j m = lane_cc (m_simd m 19)) \<and>
     (mod_FPCR j = 0 \<longrightarrow> fpcr_view j m = lane_fpcr (m_simd m 19)) \<and>
     (mod_FPSR j = 0 \<longrightarrow> fpsr_view j m = lane_fpsr (m_simd m 19))"

definition same_status :: "jit \<Rightarrow> mstate \<Rightarrow> jit \<Rightarrow> mstate \<Rightarrow> bool" where
  "same_status j m j' m' \<longleftrightarrow>
     cc_view j' m' = cc_view j m \<and> fpcr_view j' m' = fpcr_view j m \<and>
     fpsr_view j' m' = fpsr_view j m"

lemmas view_defs = cc_view_def fpcr_view_def fpsr_view_def coherent_def same_status_def

text \<open>An emitter that appended straight-line code, and what that code does.\<close>

definition produces :: "jit \<Rightarrow> mstate \<Rightarrow> jit \<Rightarrow> mstate \<Rightarrow> bool" where
  "produces j m j' m' \<longleftrightarrow>
     (\<exists>ws. tc_code j' = tc_code j @ ws \<and> no_branches ws \<and> run ws m = Some m')"

lemma produces_same: "tc_code j' = tc_code j \<Longrightarrow> produces j m j' m"
  by (auto simp: produces_def no_branches_def)

lemma no_branches_append: "no_branches (xs @ ys) \<longleftrightarrow> no_branches xs \<and> no_branches ys"
  by (simp add: no_branches_def)

lemma produces_trans:
  assumes "produces j m j1 m1" "produces j1 m1 j2 m2"
  shows "produces j m j2 m2"
proof -
  from assms obtain xs ys where
    "tc_code j1 = tc_code j @ xs" "no_branches xs" "run xs m = Some m1"
    "tc_code j2 = tc_code j1 @ ys" "no_branches ys" "run ys m1 = Some m2"
    by (auto simp: produces_def)
  then show ?thesis
    by (auto simp: produces_def no_branches_append run_append intro!: exI [of _ "xs @ ys"])
qed

lemma produces_run: "produces j m j' m' \<Longrightarrow> run (emitted j j') m = Some m'"
  by (auto simp: produces_def emitted_def)

lemma produces_EMIT:
  assumes "no_branches ws" "run ws m = Some m'"
  shows "produces j m (EMIT ws j) m'"
  using assms by (auto simp: produces_def)

lemma produces_ctx [simp]:
  "produces j m (RA_FreeARMRegister r j') m' = produces j m j' m'"
  "produces (RA_FreeARMRegister r j') m j m' = produces j' m j m'"
  by (simp_all add: produces_def RA_FreeARMRegister_def)

text \<open>
  Code that touches only vector register 19 and the program counter, and neither the
  status the program sees nor the allocator's invariants.
\<close>

definition only_lanes :: "mstate \<Rightarrow> mstate \<Rightarrow> bool" where
  "only_lanes m m' \<longleftrightarrow> (\<exists>q p. m' = m\<lparr>m_simd := (m_simd m)(19 := q), m_pc := p\<rparr>)"

lemma only_lanes_refl [simp]: "only_lanes m m"
  unfolding only_lanes_def by (rule exI [of _ "m_simd m 19"], rule exI [of _ "m_pc m"]) simp

lemma only_lanes_trans: "only_lanes m m1 \<Longrightarrow> only_lanes m1 m2 \<Longrightarrow> only_lanes m m2"
  unfolding only_lanes_def by fastforce

lemma only_lanes_regs:
  assumes "only_lanes m m'"
  shows "rdX m' r = rdX m r" "rdW m' r = rdW m r" "m_mem m' = m_mem m" "m_sp m' = m_sp m"
    "m_n m' = m_n m" "m_z m' = m_z m" "m_c m' = m_c m" "m_v m' = m_v m"
    "k \<noteq> 19 \<Longrightarrow> m_simd m' k = m_simd m k"
  using assms by (auto simp: only_lanes_def)

definition evicts :: "jit \<Rightarrow> mstate \<Rightarrow> jit \<Rightarrow> mstate \<Rightarrow> bool" where
  "evicts j m j' m' \<longleftrightarrow> produces j m j' m' \<and> only_lanes m m' \<and>
     (coherent j m \<longrightarrow> coherent j' m' \<and> same_status j m j' m') \<and> (ra_wf j \<longrightarrow> ra_wf j')"

lemma evicts_trans: "evicts j m j1 m1 \<Longrightarrow> evicts j1 m1 j2 m2 \<Longrightarrow> evicts j m j2 m2"
  unfolding evicts_def same_status_def using produces_trans only_lanes_trans by metis

lemma evicts_refl:
  assumes "tc_code j' = tc_code j" "reg_CC j' = reg_CC j" "mod_CC j' = mod_CC j"
    "reg_FPCR j' = reg_FPCR j" "mod_FPCR j' = mod_FPCR j" "reg_FPSR j' = reg_FPSR j"
    "mod_FPSR j' = mod_FPSR j" "ra_wf j \<Longrightarrow> ra_wf j'"
  shows "evicts j m j' m"
  using assms by (simp add: evicts_def produces_same view_defs)

section \<open>Giving a cached status register up\<close>

lemma run_ins:
  assumes "r \<in> arm_temps"
  shows "run [mov_reg_to_simd 19 TS_H 5 r] m = Some (m\<lparr>m_simd := (m_simd m)
           (19 := lane_set 16 5 (rdX m r) (m_simd m 19)), m_pc := m_pc m + 4\<rparr>)"
    "run [mov_reg_to_simd 19 TS_H 4 r] m = Some (m\<lparr>m_simd := (m_simd m)
           (19 := lane_set 16 4 (rdX m r) (m_simd m 19)), m_pc := m_pc m + 4\<rparr>)"
    "run [mov_reg_to_simd 19 TS_S 0 r] m = Some (m\<lparr>m_simd := (m_simd m)
           (19 := lane_set 32 0 (rdX m r) (m_simd m 19)), m_pc := m_pc m + 4\<rparr>)"
    "no_branches [mov_reg_to_simd 19 TS_H 5 r]" "no_branches [mov_reg_to_simd 19 TS_H 4 r]"
    "no_branches [mov_reg_to_simd 19 TS_S 0 r]"
  using arm_temps_less [OF assms] by (simp_all add: a64_run no_branches_def)

lemma live_Free: "r \<in> arm_temps \<Longrightarrow> live_temps (RA_FreeARMRegister r j) = live_temps j - {r}"
  by (rule temps.free_live)

lemma Free_fields [simp]:
  "reg_CC (RA_FreeARMRegister r j) = reg_CC j" "mod_CC (RA_FreeARMRegister r j) = mod_CC j"
  "reg_CTX (RA_FreeARMRegister r j) = reg_CTX j" "reg_FPCR (RA_FreeARMRegister r j) = reg_FPCR j"
  "mod_FPCR (RA_FreeARMRegister r j) = mod_FPCR j" "reg_FPSR (RA_FreeARMRegister r j) = reg_FPSR j"
  "mod_FPSR (RA_FreeARMRegister r j) = mod_FPSR j"
  "host_flags (RA_FreeARMRegister r j) = host_flags j"
  "pc_rel (RA_FreeARMRegister r j) = pc_rel j" "tc_code (RA_FreeARMRegister r j) = tc_code j"
  "status_regs (RA_FreeARMRegister r j) = status_regs j"
  by (simp_all add: RA_FreeARMRegister_def status_regs_def)

lemma views_Free [simp]:
  "cc_view (RA_FreeARMRegister r j) m = cc_view j m"
  "fpcr_view (RA_FreeARMRegister r j) m = fpcr_view j m"
  "fpsr_view (RA_FreeARMRegister r j) m = fpsr_view j m"
  by (simp_all add: view_defs)

text \<open>Freeing a temporary that caches no status register keeps the state well formed.\<close>

lemma ra_wf_Free:
  assumes "ra_wf j" "r \<in> arm_temps" "r \<notin> set (status_regs j)"
  shows "ra_wf (RA_FreeARMRegister r j)"
  using assms by (auto simp: ra_wf_live live_Free)

lemma status_regs_drop:
  "set (status_regs (j\<lparr>reg_CC := 0xff, mod_CC := x\<rparr>)) \<subseteq> set (status_regs j)"
  "set (status_regs (j\<lparr>reg_FPCR := 0xff, mod_FPCR := x\<rparr>)) \<subseteq> set (status_regs j)"
  "set (status_regs (j\<lparr>reg_FPSR := 0xff, mod_FPSR := x\<rparr>)) \<subseteq> set (status_regs j)"
  by (auto simp: status_regs_def)

lemma distinct_status:
  "distinct (status_regs j) \<longleftrightarrow>
     (reg_CTX j \<noteq> 0xff \<longrightarrow> reg_CTX j \<notin> {reg_FPCR j, reg_FPSR j, reg_CC j}) \<and>
     (reg_FPCR j \<noteq> 0xff \<longrightarrow> reg_FPCR j \<notin> {reg_FPSR j, reg_CC j}) \<and>
     (reg_FPSR j \<noteq> 0xff \<longrightarrow> reg_FPSR j \<noteq> reg_CC j)"
  by (auto simp: status_regs_def)

lemma set_status:
  "set (status_regs j) = {reg_CTX j, reg_FPCR j, reg_FPSR j, reg_CC j} - {0xff}"
  by (auto simp: status_regs_def)

lemma live_temps_upd [simp]:
  "live_temps (j\<lparr>reg_CC := r, mod_CC := x\<rparr>) = live_temps j"
  "live_temps (j\<lparr>reg_FPCR := r, mod_FPCR := x\<rparr>) = live_temps j"
  "live_temps (j\<lparr>reg_FPSR := r, mod_FPSR := x\<rparr>) = live_temps j"
  "live_temps (j\<lparr>reg_CTX := r\<rparr>) = live_temps j"
  by (simp_all add: live_temps_def)

lemmas flush_defs = RA_FlushCC_def RA_FlushFPCR_def RA_FlushFPSR_def Let_def

lemma flush_fields:
  "reg_CC (RA_FlushCC j) = 0xff"
  "reg_FPCR (RA_FlushCC j) = reg_FPCR j"
  "reg_FPSR (RA_FlushCC j) = reg_FPSR j"
  "reg_CTX (RA_FlushCC j) = reg_CTX j"
  "reg_CC (RA_FlushFPCR j) = reg_CC j"
  "reg_FPCR (RA_FlushFPCR j) = 0xff"
  "reg_FPSR (RA_FlushFPCR j) = reg_FPSR j"
  "reg_CTX (RA_FlushFPCR j) = reg_CTX j"
  "reg_CC (RA_FlushFPSR j) = reg_CC j"
  "reg_FPCR (RA_FlushFPSR j) = reg_FPCR j"
  "reg_FPSR (RA_FlushFPSR j) = 0xff"
  "reg_CTX (RA_FlushFPSR j) = reg_CTX j"
  "mod_CC (RA_FlushCC j) = 0"
  "mod_FPCR (RA_FlushCC j) = mod_FPCR j"
  "mod_FPSR (RA_FlushCC j) = mod_FPSR j"
  "mod_CC (RA_FlushFPCR j) = mod_CC j"
  "mod_FPCR (RA_FlushFPCR j) = 0"
  "mod_FPSR (RA_FlushFPCR j) = mod_FPSR j"
  "mod_CC (RA_FlushFPSR j) = mod_CC j"
  "mod_FPCR (RA_FlushFPSR j) = mod_FPCR j"
  "mod_FPSR (RA_FlushFPSR j) = 0"
  by (simp_all add: flush_defs)

lemma flush_live:
  assumes "ra_wf j"
  shows "live_temps (RA_FlushCC j) = live_temps j - {reg_CC j}"
    "live_temps (RA_FlushFPCR j) = live_temps j - {reg_FPCR j}"
    "live_temps (RA_FlushFPSR j) = live_temps j - {reg_FPSR j}"
proof -
  have ff: "0xff \<notin> live_temps j" by (simp add: live_temps_def arm_temps_def)
  show "live_temps (RA_FlushCC j) = live_temps j - {reg_CC j}"
    using ff live_Free status_reg_temp(1) [OF assms, of "reg_CC j"] by (simp add: flush_defs)
  show "live_temps (RA_FlushFPCR j) = live_temps j - {reg_FPCR j}"
    using ff live_Free status_reg_temp(1) [OF assms, of "reg_FPCR j"] by (simp add: flush_defs)
  show "live_temps (RA_FlushFPSR j) = live_temps j - {reg_FPSR j}"
    using ff live_Free status_reg_temp(1) [OF assms, of "reg_FPSR j"] by (simp add: flush_defs)
qed

lemma ra_wf_drop:
  assumes "ra_wf j" "live_temps j' = live_temps j - {r}" "distinct (status_regs j')"
    "set (status_regs j') \<subseteq> set (status_regs j) - {r}"
  shows "ra_wf j'"
  using assms unfolding ra_wf_live by blast

lemma flush_wf:
  assumes "ra_wf j"
  shows "ra_wf (RA_FlushCC j)" "ra_wf (RA_FlushFPCR j)" "ra_wf (RA_FlushFPSR j)"
proof -
  from assms have d: "distinct (status_regs j)" by (simp add: ra_wf_def)
  note d' = d [unfolded distinct_status]
  show "ra_wf (RA_FlushCC j)"
    by (rule ra_wf_drop [OF assms flush_live(1) [OF assms]])
      (use d' in \<open>auto simp: distinct_status set_status flush_fields\<close>)
  show "ra_wf (RA_FlushFPCR j)"
    by (rule ra_wf_drop [OF assms flush_live(2) [OF assms]])
      (use d' in \<open>auto simp: distinct_status set_status flush_fields\<close>)
  show "ra_wf (RA_FlushFPSR j)"
    by (rule ra_wf_drop [OF assms flush_live(3) [OF assms]])
      (use d' in \<open>auto simp: distinct_status set_status flush_fields\<close>)
qed

lemma only_lanes_upd [simp]: "only_lanes m (m\<lparr>m_simd := (m_simd m)(19 := q), m_pc := p\<rparr>)"
  unfolding only_lanes_def by blast

lemma RA_FlushCC_evicts:
  assumes "ra_wf j"
  shows "\<exists>m'. evicts j m (RA_FlushCC j) m' \<and>
     (coherent j m \<longrightarrow> lane_cc (m_simd m' 19) = cc_view j m)"
proof (cases "reg_CC j \<noteq> 0xff \<and> mod_CC j \<noteq> 0")
  case True
  then have t: "reg_CC j \<in> arm_temps" using status_reg_temp(1) [OF assms] by simp
  note r = run_ins(1,4) [OF t]
  let ?m = "m\<lparr>m_simd := (m_simd m)(19 := lane_set 16 5 (rdX m (reg_CC j)) (m_simd m 19)),
              m_pc := m_pc m + 4\<rparr>"
  have "produces j m (RA_FlushCC j) ?m"
    using True r produces_EMIT [OF r(2,1), of j] by (simp add: RA_FlushCC_def produces_def)
  moreover have "same_status j m (RA_FlushCC j) ?m"
    using True by (simp add: view_defs flush_fields)
  moreover have "coherent j m \<longrightarrow> coherent (RA_FlushCC j) ?m"
    using True by (simp add: view_defs flush_fields)
  moreover have "lane_cc (m_simd ?m 19) = cc_view j m" using True by (simp add: cc_view_def)
  ultimately show ?thesis using flush_wf(1) [OF assms] unfolding evicts_def
    by (intro exI [of _ ?m]) simp
next
  case False
  then have "produces j m (RA_FlushCC j) m"
    by (auto simp: RA_FlushCC_def intro!: produces_same)
  moreover have "coherent j m \<longrightarrow> coherent (RA_FlushCC j) m \<and>
      same_status j m (RA_FlushCC j) m \<and> lane_cc (m_simd m 19) = cc_view j m"
    using False by (auto simp: view_defs flush_fields)
  ultimately show ?thesis using flush_wf(1) [OF assms] unfolding evicts_def
    by (intro exI [of _ m]) simp
qed

lemma RA_FlushFPCR_evicts:
  assumes "ra_wf j"
  shows "\<exists>m'. evicts j m (RA_FlushFPCR j) m' \<and>
     (coherent j m \<longrightarrow> lane_fpcr (m_simd m' 19) = fpcr_view j m)"
proof (cases "reg_FPCR j \<noteq> 0xff \<and> mod_FPCR j \<noteq> 0")
  case True
  then have t: "reg_FPCR j \<in> arm_temps" using status_reg_temp(1) [OF assms] by simp
  note r = run_ins(2,5) [OF t]
  let ?m = "m\<lparr>m_simd := (m_simd m)(19 := lane_set 16 4 (rdX m (reg_FPCR j)) (m_simd m 19)),
              m_pc := m_pc m + 4\<rparr>"
  have "produces j m (RA_FlushFPCR j) ?m"
    using True r produces_EMIT [OF r(2,1), of j] by (simp add: RA_FlushFPCR_def produces_def)
  moreover have "same_status j m (RA_FlushFPCR j) ?m"
    using True by (simp add: view_defs flush_fields)
  moreover have "coherent j m \<longrightarrow> coherent (RA_FlushFPCR j) ?m"
    using True by (simp add: view_defs flush_fields)
  moreover have "lane_fpcr (m_simd ?m 19) = fpcr_view j m" using True by (simp add: fpcr_view_def)
  ultimately show ?thesis using flush_wf(2) [OF assms] unfolding evicts_def
    by (intro exI [of _ ?m]) simp
next
  case False
  then have "produces j m (RA_FlushFPCR j) m"
    by (auto simp: RA_FlushFPCR_def intro!: produces_same)
  moreover have "coherent j m \<longrightarrow> coherent (RA_FlushFPCR j) m \<and>
      same_status j m (RA_FlushFPCR j) m \<and> lane_fpcr (m_simd m 19) = fpcr_view j m"
    using False by (auto simp: view_defs flush_fields)
  ultimately show ?thesis using flush_wf(2) [OF assms] unfolding evicts_def
    by (intro exI [of _ m]) simp
qed

lemma RA_FlushFPSR_evicts:
  assumes "ra_wf j"
  shows "\<exists>m'. evicts j m (RA_FlushFPSR j) m' \<and>
     (coherent j m \<longrightarrow> lane_fpsr (m_simd m' 19) = fpsr_view j m)"
proof (cases "reg_FPSR j \<noteq> 0xff \<and> mod_FPSR j \<noteq> 0")
  case True
  then have t: "reg_FPSR j \<in> arm_temps" using status_reg_temp(1) [OF assms] by simp
  note r = run_ins(3,6) [OF t]
  let ?m = "m\<lparr>m_simd := (m_simd m)(19 := lane_set 32 0 (rdX m (reg_FPSR j)) (m_simd m 19)),
              m_pc := m_pc m + 4\<rparr>"
  have "produces j m (RA_FlushFPSR j) ?m"
    using True r produces_EMIT [OF r(2,1), of j] by (simp add: RA_FlushFPSR_def produces_def)
  moreover have "same_status j m (RA_FlushFPSR j) ?m"
    using True by (simp add: view_defs flush_fields)
  moreover have "coherent j m \<longrightarrow> coherent (RA_FlushFPSR j) ?m"
    using True by (simp add: view_defs flush_fields)
  moreover have "lane_fpsr (m_simd ?m 19) = fpsr_view j m" using True by (simp add: fpsr_view_def)
  ultimately show ?thesis using flush_wf(3) [OF assms] unfolding evicts_def
    by (intro exI [of _ ?m]) simp
next
  case False
  then have "produces j m (RA_FlushFPSR j) m"
    by (auto simp: RA_FlushFPSR_def intro!: produces_same)
  moreover have "coherent j m \<longrightarrow> coherent (RA_FlushFPSR j) m \<and>
      same_status j m (RA_FlushFPSR j) m \<and> lane_fpsr (m_simd m 19) = fpsr_view j m"
    using False by (auto simp: view_defs flush_fields)
  ultimately show ?thesis using flush_wf(3) [OF assms] unfolding evicts_def
    by (intro exI [of _ m]) simp
qed

section \<open>Allocation\<close>

lemma int_alloc_fields:
  assumes "int_arm_alloc_reg j = (r, j')"
  shows "reg_CC j' = reg_CC j" "mod_CC j' = mod_CC j" "reg_FPCR j' = reg_FPCR j"
    "mod_FPCR j' = mod_FPCR j" "reg_FPSR j' = reg_FPSR j" "mod_FPSR j' = mod_FPSR j"
    "reg_CTX j' = reg_CTX j" "host_flags j' = host_flags j" "pc_rel j' = pc_rel j"
    "tc_code j' = tc_code j" "status_regs j' = status_regs j"
  using assms by (cases j rule: int_arm_alloc_reg_cases; auto simp: status_regs_def)+

lemma int_alloc_wf:
  assumes "int_arm_alloc_reg j = (r, j')" "ra_wf j"
  shows "ra_wf j'" "r \<notin> set (status_regs j')" "evicts j m j' m"
proof -
  have "live_temps j \<subseteq> live_temps j'"
    using temps.alloc_ok [OF assms(1)] temps.alloc_fail [of j j'] assms(1) by (cases "r = 0xff") auto
  then show wf: "ra_wf j'"
    using assms by (auto simp: ra_wf_live int_alloc_fields [OF assms(1)])
  show "r \<notin> set (status_regs j')"
    using temps.alloc_ok [OF assms(1)] assms(2)
    by (cases "r = 0xff") (auto simp: ra_wf_live int_alloc_fields [OF assms(1)] status_regs_def)
  show "evicts j m j' m"
    using int_alloc_fields [OF assms(1)] wf by (intro evicts_refl) simp_all
qed

text \<open>One eviction of an exhausted pool: it frees exactly the register it gave up.\<close>

lemma stage:
  assumes "arm_temps \<subseteq> live_temps j" "live_temps j1 = live_temps j - {c}"
    "c = 0xff \<or> c \<in> arm_temps" "int_arm_alloc_reg j1 = (r, j2)"
  shows "if c = 0xff then r = 0xff \<and> j2 = j1 \<and> arm_temps \<subseteq> live_temps j1
         else r = c \<and> live_temps j2 = live_temps j"
proof (cases "c = 0xff")
  case True
  moreover have "0xff \<notin> live_temps j" by (simp add: live_temps_def arm_temps_def)
  ultimately have "arm_temps \<subseteq> live_temps j1" using assms(1,2) by simp
  with temps.alloc_ok [OF assms(4)] temps.alloc_fail [of j1 j2] assms(4) True
  show ?thesis by (cases "r = 0xff") auto
next
  case False
  with assms(1,2,3) have "c \<in> live_temps j" "\<not> arm_temps \<subseteq> live_temps j1" by auto
  with temps.alloc_fail [of j1 j2] temps.alloc_ok [OF assms(4)] assms False
  show ?thesis by (cases "r = 0xff") auto
qed

lemma RA_Alloc_cases:
  assumes "ra_wf j" "RA_AllocARMRegister j = (r, j')"
  obtains
    (free) "\<not> arm_temps \<subseteq> live_temps j" "int_arm_alloc_reg j = (r, j')" "r \<noteq> 0xff"
  | (fpcr) "arm_temps \<subseteq> live_temps j" "r = reg_FPCR j" "r \<noteq> 0xff"
      "int_arm_alloc_reg (RA_FlushFPCR j) = (r, j')" "live_temps j' = live_temps j"
  | (fpsr) "arm_temps \<subseteq> live_temps j" "reg_FPCR j = 0xff" "r = reg_FPSR j" "r \<noteq> 0xff"
      "int_arm_alloc_reg (RA_FlushFPSR (RA_FlushFPCR j)) = (r, j')" "live_temps j' = live_temps j"
  | (cc) "arm_temps \<subseteq> live_temps j" "reg_FPCR j = 0xff" "reg_FPSR j = 0xff" "r = reg_CC j"
      "int_arm_alloc_reg (RA_FlushCC (RA_FlushFPSR (RA_FlushFPCR j))) = (r, j')"
      "live_temps j' = live_temps j"
proof -
  obtain r1 j1 where a1: "int_arm_alloc_reg j = (r1, j1)" by fastforce
  let ?f2 = "RA_FlushFPCR j" and ?f3 = "RA_FlushFPSR (RA_FlushFPCR j)"
  let ?f4 = "RA_FlushCC (RA_FlushFPSR (RA_FlushFPCR j))"
  obtain r2 j2 where a2: "int_arm_alloc_reg ?f2 = (r2, j2)" by fastforce
  obtain r3 j3 where a3: "int_arm_alloc_reg ?f3 = (r3, j3)" by fastforce
  obtain r4 j4 where a4: "int_arm_alloc_reg ?f4 = (r4, j4)" by fastforce
  note w2 = flush_wf(2) [OF assms(1)]
  note w3 = flush_wf(3) [OF w2]
  have c2: "reg_FPCR j = 0xff \<or> reg_FPCR j \<in> arm_temps"
    and c3: "reg_FPSR j = 0xff \<or> reg_FPSR j \<in> arm_temps"
    and c4: "reg_CC j = 0xff \<or> reg_CC j \<in> arm_temps"
    using status_reg_temp(1) [OF assms(1)] by blast+
  show thesis
  proof (cases "arm_temps \<subseteq> live_temps j")
    case False
    with temps.alloc_fail [of j j1] a1 have "r1 \<noteq> 0xff" by auto
    with a1 assms(2) have "r = r1" "j' = j1" by (simp_all add: RA_AllocARMRegister_def)
    with False a1 \<open>r1 \<noteq> 0xff\<close> show thesis by (intro free) simp_all
  next
    case full: True
    with temps.alloc_ok [OF a1] temps.alloc_fail [of j j1] a1 have n1: "r1 = 0xff" "j1 = j"
      by (cases "r1 = 0xff"; auto)+
    from stage [OF full flush_live(2) [OF assms(1)] c2 a2]
    have s2: "if reg_FPCR j = 0xff then r2 = 0xff \<and> j2 = ?f2 \<and> arm_temps \<subseteq> live_temps ?f2
        else r2 = reg_FPCR j \<and> live_temps j2 = live_temps j" .
    show thesis
    proof (cases "reg_FPCR j = 0xff")
      case False
      with s2 a1 a2 n1 assms(2) have "r = r2" "j' = j2" by (simp_all add: RA_AllocARMRegister_def)
      with False s2 a2 full show thesis by (intro fpcr) simp_all
    next
      case f2: True
      with s2 have n2: "r2 = 0xff" "j2 = ?f2" "arm_temps \<subseteq> live_temps ?f2" by simp_all
      have l2: "live_temps ?f2 = live_temps j"
        using flush_live(2) [OF assms(1)] f2 n2(3) by (auto simp: live_temps_def)
      from stage [OF n2(3) flush_live(3) [OF w2] _ a3] c3
      have s3: "if reg_FPSR j = 0xff then r3 = 0xff \<and> j3 = ?f3 \<and> arm_temps \<subseteq> live_temps ?f3
          else r3 = reg_FPSR j \<and> live_temps j3 = live_temps j" by (simp add: flush_fields l2)
      show thesis
      proof (cases "reg_FPSR j = 0xff")
        case False
        with s3 a1 a2 a3 n1 n2 assms(2) have "r = r3" "j' = j3"
          by (simp_all add: RA_AllocARMRegister_def)
        with False f2 s3 a3 full show thesis by (intro fpsr) simp_all
      next
        case f3: True
        with s3 have n3: "r3 = 0xff" "j3 = ?f3" "arm_temps \<subseteq> live_temps ?f3" by simp_all
        have l3: "live_temps ?f3 = live_temps j"
          using full n3(3) by (auto simp: live_temps_def)
        from stage [OF n3(3) flush_live(1) [OF w3] _ a4] c4
        have s4: "if reg_CC j = 0xff then r4 = 0xff \<and> j4 = ?f4 \<and> arm_temps \<subseteq> live_temps ?f4
            else r4 = reg_CC j \<and> live_temps j4 = live_temps j" by (simp add: flush_fields l3)
        have e: "r = r4" "j' = j4"
          using a1 a2 a3 a4 n1 n2 n3 assms(2) by (auto simp: RA_AllocARMRegister_def split: if_splits)
        have "live_temps j4 = live_temps j" "r4 = reg_CC j"
          using s4 full by (auto simp: live_temps_def split: if_splits)
        with e f2 f3 a4 full show thesis by (intro cc) simp_all
      qed
    qed
  qed
qed

lemma RA_Alloc_evicts:
  assumes "ra_wf j" "RA_AllocARMRegister j = (r, j')"
  shows "\<exists>m'. evicts j m j' m'"
proof -
  note w2 = flush_wf(2) [OF assms(1)]
  note w3 = flush_wf(3) [OF w2]
  from RA_FlushFPCR_evicts [OF assms(1)] obtain m2 where e2: "evicts j m (RA_FlushFPCR j) m2" by blast
  from RA_FlushFPSR_evicts [OF w2] obtain m3
    where e3: "evicts (RA_FlushFPCR j) m2 (RA_FlushFPSR (RA_FlushFPCR j)) m3" by blast
  from RA_FlushCC_evicts [OF w3] obtain m4 where
    e4: "evicts (RA_FlushFPSR (RA_FlushFPCR j)) m3 (RA_FlushCC (RA_FlushFPSR (RA_FlushFPCR j))) m4"
    by blast
  note e23 = evicts_trans [OF e2 e3]
  note e234 = evicts_trans [OF e23 e4]
  show ?thesis
  proof (cases rule: RA_Alloc_cases [OF assms])
    case 1
    with int_alloc_wf(3) assms(1) show ?thesis by blast
  next
    case 2
    with evicts_trans [OF e2] int_alloc_wf(3) w2 show ?thesis by blast
  next
    case 3
    with evicts_trans [OF e23] int_alloc_wf(3) w3 show ?thesis by blast
  next
    case 4
    with evicts_trans [OF e234] int_alloc_wf(3) flush_wf(1) [OF w3] show ?thesis by blast
  qed
qed

lemma RA_Alloc_wf:
  assumes "ra_wf j" "RA_AllocARMRegister j = (r, j')"
  shows "ra_wf j'" "r \<notin> set (status_regs j')"
proof -
  note w2 = flush_wf(2) [OF assms(1)]
  note w3 = flush_wf(3) [OF w2]
  have "ra_wf j' \<and> r \<notin> set (status_regs j')"
    by (cases rule: RA_Alloc_cases [OF assms])
      (use int_alloc_wf(1,2) assms(1) w2 w3 flush_wf(1) [OF w3] in blast)+
  then show "ra_wf j'" "r \<notin> set (status_regs j')" by simp_all
qed

lemma RA_Alloc_live:
  assumes "ra_wf j" "RA_AllocARMRegister j = (r, j')" "r \<noteq> 0xff"
  shows "r \<in> arm_temps" "r \<in> live_temps j'" "live_temps j' = insert r (live_temps j)"
proof -
  have "r \<in> arm_temps \<and> live_temps j' = insert r (live_temps j)"
  proof (cases rule: RA_Alloc_cases [OF assms(1,2)])
    case 1
    with temps.alloc_ok show ?thesis by blast
  next
    case 2
    with status_reg_temp [OF assms(1), of r] show ?thesis by auto
  next
    case 3
    with status_reg_temp [OF assms(1), of r] show ?thesis by auto
  next
    case 4
    with status_reg_temp [OF assms(1), of r] assms(3) show ?thesis by auto
  qed
  then show "r \<in> arm_temps" "live_temps j' = insert r (live_temps j)" "r \<in> live_temps j'"
    by auto
qed

lemma RA_Alloc_keeps_CTX:
  assumes "ra_wf j" "RA_AllocARMRegister j = (r, j')"
  shows "reg_CTX j' = reg_CTX j" "reg_FPCR j' \<in> {reg_FPCR j, 0xff}"
    "reg_FPSR j' \<in> {reg_FPSR j, 0xff}" "reg_CC j' \<in> {reg_CC j, 0xff}"
  by (cases rule: RA_Alloc_cases [OF assms]; auto dest: int_alloc_fields simp: flush_fields)+

section \<open>Loading a status register\<close>

lemma run_umov:
  assumes "r \<in> arm_temps"
  shows "run [mov_simd_to_reg r 19 TS_H 5] m =
      Some ((wrX r (lane_get 16 5 (m_simd m 19)) m)\<lparr>m_pc := m_pc m + 4\<rparr>)"
    "run [mov_simd_to_reg r 19 TS_H 4] m =
      Some ((wrX r (lane_get 16 4 (m_simd m 19)) m)\<lparr>m_pc := m_pc m + 4\<rparr>)"
    "run [mov_simd_to_reg r 19 TS_S 0] m =
      Some ((wrX r (lane_get 32 0 (m_simd m 19)) m)\<lparr>m_pc := m_pc m + 4\<rparr>)"
    "no_branches [mov_simd_to_reg r 19 TS_H 5]" "no_branches [mov_simd_to_reg r 19 TS_H 4]"
    "no_branches [mov_simd_to_reg r 19 TS_S 0]"
  using arm_temps_less [OF assms] by (simp_all add: a64_run no_branches_def)

text \<open>
  What loading a status register promises: the code runs, only the register itself and
  the evicted lanes change, the program still sees the same status, and the allocator's
  state stays well formed.
\<close>

definition loads :: "u8 \<Rightarrow> jit \<Rightarrow> mstate \<Rightarrow> jit \<Rightarrow> mstate \<Rightarrow> bool" where
  "loads r j m j' m' \<longleftrightarrow> produces j m j' m' \<and> same_status j m j' m' \<and> coherent j' m' \<and> ra_wf j' \<and>
     r \<in> arm_temps \<and> (\<forall>s. s \<noteq> r \<longrightarrow> rdX m' s = rdX m s) \<and> m_mem m' = m_mem m \<and>
     m_n m' = m_n m \<and> m_z m' = m_z m \<and> m_c m' = m_c m \<and> m_v m' = m_v m"

end
