(* ===== verification/RA_Load.thy ===== *)
theory RA_Load
  imports RA_Status
begin

text \<open>
  Loading, modifying and writing back a cached status register, and the properties of
  the register allocator that the emitters build on.
\<close>

section \<open>Loading\<close>

lemma ra_wf_load:
  assumes "ra_wf j" "r \<in> live_temps j" "live_temps j' = live_temps j"
    "set (status_regs j') \<subseteq> insert r (set (status_regs j))" "distinct (status_regs j')"
  shows "ra_wf j'"
  using assms by (auto simp: ra_wf_live)

text \<open>What the allocation in front of a load provides.\<close>

lemma alloc_for_load:
  assumes "ra_wf j" "coherent j m" "RA_AllocARMRegister j = (r, j1)" "r \<noteq> 0xff"
  obtains m1 where "evicts j m j1 m1" "coherent j1 m1" "same_status j m j1 m1" "only_lanes m m1"
    "ra_wf j1" "distinct (status_regs j1)" "r \<in> arm_temps" "r \<in> live_temps j1"
    "reg_CTX j1 \<noteq> r" "reg_FPCR j1 \<noteq> r" "reg_FPSR j1 \<noteq> r" "reg_CC j1 \<noteq> r"
proof -
  obtain m1 where ev: "evicts j m j1 m1" using RA_Alloc_evicts [OF assms(1,3)] by blast
  note wf1 = RA_Alloc_wf [OF assms(1,3)]
  note lv = RA_Alloc_live [OF assms(1,3,4)]
  from ev assms(2) have "coherent j1 m1" "same_status j m j1 m1" "only_lanes m m1"
    by (simp_all add: evicts_def)
  moreover have "reg_CTX j1 \<noteq> r" "reg_FPCR j1 \<noteq> r" "reg_FPSR j1 \<noteq> r" "reg_CC j1 \<noteq> r"
    using wf1(2) assms(4) by (auto simp: set_status)
  moreover have "distinct (status_regs j1)" using wf1(1) by (simp add: ra_wf_def)
  ultimately show thesis using that [OF ev] wf1(1) lv(1,2) by blast
qed

lemma loads_cached:
  assumes "ra_wf j" "coherent j m" "r \<in> {reg_FPCR j, reg_FPSR j, reg_CC j}" "r \<noteq> 0xff"
  shows "loads r j m j m"
  using assms status_reg_temp(1) [OF assms(1), of r]
  by (simp add: loads_def produces_same same_status_def)

lemma loads_intro:
  assumes "evicts j m j1 m1" "same_status j m j1 m1" "only_lanes m m1" "r \<in> arm_temps"
    "produces j1 m1 j' ((wrX r v m1)\<lparr>m_pc := p\<rparr>)" "coherent j' ((wrX r v m1)\<lparr>m_pc := p\<rparr>)"
    "same_status j1 m1 j' ((wrX r v m1)\<lparr>m_pc := p\<rparr>)" "ra_wf j'"
  shows "loads r j m j' ((wrX r v m1)\<lparr>m_pc := p\<rparr>)"
proof -
  from assms(1,5) have "produces j m j' ((wrX r v m1)\<lparr>m_pc := p\<rparr>)"
    unfolding evicts_def using produces_trans by blast
  with assms only_lanes_regs [OF assms(3)] show ?thesis by (simp add: loads_def same_status_def)
qed

lemmas lane_defs = lane_cc_def lane_fpcr_def lane_fpsr_def

lemma RA_GetCC_cases:
  "reg_CC j \<noteq> 0xff \<Longrightarrow> RA_GetCC j = (reg_CC j, j)"
  "reg_CC j = 0xff \<Longrightarrow> RA_AllocARMRegister j = (r, j1) \<Longrightarrow> RA_GetCC j =
     (r, (EMIT [mov_simd_to_reg r 19 TS_H 5] (j1\<lparr>reg_CC := r\<rparr>))\<lparr>mod_CC := 0\<rparr>)"
  by (simp_all add: RA_GetCC_def)

lemma RA_GetCC_reg:
  assumes "RA_GetCC j = (r, j')"
  shows "reg_CC j' = r"
  using RA_GetCC_cases [of j] assms
  by (cases "RA_AllocARMRegister j"; cases "reg_CC j = 0xff") auto

lemma RA_GetCC_loads:
  assumes "ra_wf j" "coherent j m" "RA_GetCC j = (r, j')" "r \<noteq> 0xff"
  shows "\<exists>m'. loads r j m j' m' \<and> ucast (rdX m' r) = cc_view j m"
proof (cases "reg_CC j = 0xff")
  case False
  from RA_GetCC_cases(1) [OF False] assms(3) have e: "r = reg_CC j" "j' = j" by auto
  then have "loads r j m j' m" using loads_cached [OF assms(1,2), of r] assms(4) by simp
  with e False show ?thesis by (intro exI [of _ m]) (simp add: cc_view_def)
next
  case True
  obtain j1 where a: "RA_AllocARMRegister j = (r, j1)"
      "j' = (EMIT [mov_simd_to_reg r 19 TS_H 5] (j1\<lparr>reg_CC := r\<rparr>))\<lparr>mod_CC := 0\<rparr>"
    using RA_GetCC_cases(2) [OF True] assms(3) by (cases "RA_AllocARMRegister j") auto
  obtain m1 where ev: "evicts j m j1 m1" and co: "coherent j1 m1" and ss: "same_status j m j1 m1"
    and ol: "only_lanes m m1" and wf: "ra_wf j1" and d: "distinct (status_regs j1)"
    and lv: "r \<in> arm_temps" "r \<in> live_temps j1" and ne: "reg_CTX j1 \<noteq> r" "reg_FPCR j1 \<noteq> r"
      "reg_FPSR j1 \<noteq> r" "reg_CC j1 \<noteq> r"
    using alloc_for_load [OF assms(1,2) a(1) assms(4)] .
  note t = arm_temps_less [OF lv(1)]
  have c1: "reg_CC j1 = 0xff" using RA_Alloc_keeps_CTX [OF assms(1) a(1)] True by simp
  let ?m = "(wrX r (lane_get 16 5 (m_simd m1 19)) m1)\<lparr>m_pc := m_pc m1 + 4\<rparr>"
  have p: "produces j1 m1 j' ?m" using run_umov(1,4) [OF lv(1)] by (simp add: a(2) produces_def)
  have v: "cc_view j' ?m = cc_view j1 m1" "fpcr_view j' ?m = fpcr_view j1 m1"
      "fpsr_view j' ?m = fpsr_view j1 m1" "ucast (rdX ?m r) = cc_view j1 m1"
    using t c1 ne [symmetric]
    by (simp_all add: a(2) cc_view_def fpcr_view_def fpsr_view_def lane_defs)
  have "coherent j' ?m" using co c1 unfolding coherent_def v by (simp add: a(2) cc_view_def)
  moreover have "ra_wf j'"
  proof (rule ra_wf_load [OF wf lv(2)])
    show "live_temps j' = live_temps j1" by (simp add: a(2) live_temps_def)
    show "set (status_regs j') \<subseteq> insert r (set (status_regs j1))"
      unfolding set_status a(2) by simp blast
    show "distinct (status_regs j')" using d ne ne [symmetric] c1 t unfolding distinct_status a(2) by simp
  qed
  ultimately have "loads r j m j' ?m"
    using v by (intro loads_intro [OF ev ss ol lv(1) p]) (simp_all add: same_status_def)
  moreover have "ucast (rdX ?m r) = cc_view j m" using v(4) ss by (simp add: same_status_def)
  ultimately show ?thesis by blast
qed

lemma RA_GetFPCR_cases:
  "reg_FPCR j \<noteq> 0xff \<Longrightarrow> RA_GetFPCR j = (reg_FPCR j, j)"
  "reg_FPCR j = 0xff \<Longrightarrow> RA_AllocARMRegister j = (r, j1) \<Longrightarrow> RA_GetFPCR j =
     (r, (EMIT [mov_simd_to_reg r 19 TS_H 4] (j1\<lparr>reg_FPCR := r\<rparr>))\<lparr>mod_FPCR := 0\<rparr>)"
  by (simp_all add: RA_GetFPCR_def)

lemma RA_GetFPCR_reg:
  assumes "RA_GetFPCR j = (r, j')"
  shows "reg_FPCR j' = r"
  using RA_GetFPCR_cases [of j] assms
  by (cases "RA_AllocARMRegister j"; cases "reg_FPCR j = 0xff") auto

lemma RA_GetFPCR_loads:
  assumes "ra_wf j" "coherent j m" "RA_GetFPCR j = (r, j')" "r \<noteq> 0xff"
  shows "\<exists>m'. loads r j m j' m' \<and> ucast (rdX m' r) = fpcr_view j m"
proof (cases "reg_FPCR j = 0xff")
  case False
  from RA_GetFPCR_cases(1) [OF False] assms(3) have e: "r = reg_FPCR j" "j' = j" by auto
  then have "loads r j m j' m" using loads_cached [OF assms(1,2), of r] assms(4) by simp
  with e False show ?thesis by (intro exI [of _ m]) (simp add: fpcr_view_def)
next
  case True
  obtain j1 where a: "RA_AllocARMRegister j = (r, j1)"
      "j' = (EMIT [mov_simd_to_reg r 19 TS_H 4] (j1\<lparr>reg_FPCR := r\<rparr>))\<lparr>mod_FPCR := 0\<rparr>"
    using RA_GetFPCR_cases(2) [OF True] assms(3) by (cases "RA_AllocARMRegister j") auto
  obtain m1 where ev: "evicts j m j1 m1" and co: "coherent j1 m1" and ss: "same_status j m j1 m1"
    and ol: "only_lanes m m1" and wf: "ra_wf j1" and d: "distinct (status_regs j1)"
    and lv: "r \<in> arm_temps" "r \<in> live_temps j1" and ne: "reg_CTX j1 \<noteq> r" "reg_FPCR j1 \<noteq> r"
      "reg_FPSR j1 \<noteq> r" "reg_CC j1 \<noteq> r"
    using alloc_for_load [OF assms(1,2) a(1) assms(4)] .
  note t = arm_temps_less [OF lv(1)]
  have c1: "reg_FPCR j1 = 0xff" using RA_Alloc_keeps_CTX [OF assms(1) a(1)] True by simp
  let ?m = "(wrX r (lane_get 16 4 (m_simd m1 19)) m1)\<lparr>m_pc := m_pc m1 + 4\<rparr>"
  have p: "produces j1 m1 j' ?m" using run_umov(2,5) [OF lv(1)] by (simp add: a(2) produces_def)
  have v: "cc_view j' ?m = cc_view j1 m1" "fpcr_view j' ?m = fpcr_view j1 m1"
      "fpsr_view j' ?m = fpsr_view j1 m1" "ucast (rdX ?m r) = fpcr_view j1 m1"
    using t c1 ne [symmetric]
    by (simp_all add: a(2) cc_view_def fpcr_view_def fpsr_view_def lane_defs)
  have "coherent j' ?m" using co c1 unfolding coherent_def v by (simp add: a(2) fpcr_view_def)
  moreover have "ra_wf j'"
  proof (rule ra_wf_load [OF wf lv(2)])
    show "live_temps j' = live_temps j1" by (simp add: a(2) live_temps_def)
    show "set (status_regs j') \<subseteq> insert r (set (status_regs j1))"
      unfolding set_status a(2) by simp blast
    show "distinct (status_regs j')" using d ne ne [symmetric] c1 t unfolding distinct_status a(2) by simp
  qed
  ultimately have "loads r j m j' ?m"
    using v by (intro loads_intro [OF ev ss ol lv(1) p]) (simp_all add: same_status_def)
  moreover have "ucast (rdX ?m r) = fpcr_view j m" using v(4) ss by (simp add: same_status_def)
  ultimately show ?thesis by blast
qed

lemma RA_GetFPSR_cases:
  "reg_FPSR j \<noteq> 0xff \<Longrightarrow> RA_GetFPSR j = (reg_FPSR j, j)"
  "reg_FPSR j = 0xff \<Longrightarrow> RA_AllocARMRegister j = (r, j1) \<Longrightarrow> RA_GetFPSR j =
     (r, (EMIT [mov_simd_to_reg r 19 TS_S 0] (j1\<lparr>reg_FPSR := r\<rparr>))\<lparr>mod_FPSR := 0\<rparr>)"
  by (simp_all add: RA_GetFPSR_def)

lemma RA_GetFPSR_reg:
  assumes "RA_GetFPSR j = (r, j')"
  shows "reg_FPSR j' = r"
  using RA_GetFPSR_cases [of j] assms
  by (cases "RA_AllocARMRegister j"; cases "reg_FPSR j = 0xff") auto

lemma RA_GetFPSR_loads:
  assumes "ra_wf j" "coherent j m" "RA_GetFPSR j = (r, j')" "r \<noteq> 0xff"
  shows "\<exists>m'. loads r j m j' m' \<and> ucast (rdX m' r) = fpsr_view j m"
proof (cases "reg_FPSR j = 0xff")
  case False
  from RA_GetFPSR_cases(1) [OF False] assms(3) have e: "r = reg_FPSR j" "j' = j" by auto
  then have "loads r j m j' m" using loads_cached [OF assms(1,2), of r] assms(4) by simp
  with e False show ?thesis by (intro exI [of _ m]) (simp add: fpsr_view_def)
next
  case True
  obtain j1 where a: "RA_AllocARMRegister j = (r, j1)"
      "j' = (EMIT [mov_simd_to_reg r 19 TS_S 0] (j1\<lparr>reg_FPSR := r\<rparr>))\<lparr>mod_FPSR := 0\<rparr>"
    using RA_GetFPSR_cases(2) [OF True] assms(3) by (cases "RA_AllocARMRegister j") auto
  obtain m1 where ev: "evicts j m j1 m1" and co: "coherent j1 m1" and ss: "same_status j m j1 m1"
    and ol: "only_lanes m m1" and wf: "ra_wf j1" and d: "distinct (status_regs j1)"
    and lv: "r \<in> arm_temps" "r \<in> live_temps j1" and ne: "reg_CTX j1 \<noteq> r" "reg_FPCR j1 \<noteq> r"
      "reg_FPSR j1 \<noteq> r" "reg_CC j1 \<noteq> r"
    using alloc_for_load [OF assms(1,2) a(1) assms(4)] .
  note t = arm_temps_less [OF lv(1)]
  have c1: "reg_FPSR j1 = 0xff" using RA_Alloc_keeps_CTX [OF assms(1) a(1)] True by simp
  let ?m = "(wrX r (lane_get 32 0 (m_simd m1 19)) m1)\<lparr>m_pc := m_pc m1 + 4\<rparr>"
  have p: "produces j1 m1 j' ?m" using run_umov(3,6) [OF lv(1)] by (simp add: a(2) produces_def)
  have v: "cc_view j' ?m = cc_view j1 m1" "fpcr_view j' ?m = fpcr_view j1 m1"
      "fpsr_view j' ?m = fpsr_view j1 m1" "ucast (rdX ?m r) = fpsr_view j1 m1"
    using t c1 ne [symmetric]
    by (simp_all add: a(2) cc_view_def fpcr_view_def fpsr_view_def lane_defs)
  have "coherent j' ?m" using co c1 unfolding coherent_def v by (simp add: a(2) fpsr_view_def)
  moreover have "ra_wf j'"
  proof (rule ra_wf_load [OF wf lv(2)])
    show "live_temps j' = live_temps j1" by (simp add: a(2) live_temps_def)
    show "set (status_regs j') \<subseteq> insert r (set (status_regs j1))"
      unfolding set_status a(2) by simp blast
    show "distinct (status_regs j')" using d ne ne [symmetric] c1 t unfolding distinct_status a(2) by simp
  qed
  ultimately have "loads r j m j' ?m"
    using v by (intro loads_intro [OF ev ss ol lv(1) p]) (simp_all add: same_status_def)
  moreover have "ucast (rdX ?m r) = fpsr_view j m" using v(4) ss by (simp add: same_status_def)
  ultimately show ?thesis by blast
qed

text \<open>Marking a loaded register as modified changes nothing that the program sees.\<close>

lemma views_mod [simp]:
  "cc_view (j\<lparr>mod_CC := x\<rparr>) m = cc_view j m" "cc_view (j\<lparr>mod_FPSR := x\<rparr>) m = cc_view j m"
  "fpcr_view (j\<lparr>mod_CC := x\<rparr>) m = fpcr_view j m" "fpcr_view (j\<lparr>mod_FPSR := x\<rparr>) m = fpcr_view j m"
  "fpsr_view (j\<lparr>mod_CC := x\<rparr>) m = fpsr_view j m" "fpsr_view (j\<lparr>mod_FPSR := x\<rparr>) m = fpsr_view j m"
  by (simp_all add: cc_view_def fpcr_view_def fpsr_view_def)

lemma ra_wf_mod [simp]:
  "ra_wf (j\<lparr>mod_CC := x\<rparr>) = ra_wf j" "ra_wf (j\<lparr>mod_FPSR := x\<rparr>) = ra_wf j"
  by (simp_all add: ra_wf_def status_regs_def)

lemma loads_mod:
  assumes "loads r j m j' m'"
  shows "loads r j m (j'\<lparr>mod_CC := 1\<rparr>) m'" "loads r j m (j'\<lparr>mod_FPSR := 1\<rparr>) m'"
proof -
  from assms have p: "produces j m (j'\<lparr>mod_CC := 1\<rparr>) m'" "produces j m (j'\<lparr>mod_FPSR := 1\<rparr>) m'"
    by (auto simp: loads_def produces_def)
  from assms have "coherent (j'\<lparr>mod_CC := 1\<rparr>) m'" "coherent (j'\<lparr>mod_FPSR := 1\<rparr>) m'"
    unfolding loads_def coherent_def by simp_all
  with assms p show "loads r j m (j'\<lparr>mod_CC := 1\<rparr>) m'" "loads r j m (j'\<lparr>mod_FPSR := 1\<rparr>) m'"
    by (simp_all add: loads_def same_status_def)
qed

section \<open>Properties\<close>

text \<open>
  C26. A register that \<open>RA_AllocARMRegister\<close> hands out is one of \<open>x4\<close> to \<open>x11\<close>, is marked
  allocated, caches no status register any more, and was free before unless the pool was
  exhausted; the call fails only when every temporary is allocated and no status register
  is left to evict. The allocator's invariant is kept.
\<close>

theorem RA_AllocARMRegister_correct:
  assumes "ra_wf j" "RA_AllocARMRegister j = (r, j')"
  shows "ra_wf j' \<and> r \<notin> set (status_regs j') \<and>
    (r = 0xff \<longleftrightarrow> arm_temps \<subseteq> live_temps j \<and>
       reg_FPCR j = 0xff \<and> reg_FPSR j = 0xff \<and> reg_CC j = 0xff) \<and>
    (r \<noteq> 0xff \<longrightarrow> 4 \<le> unat r \<and> unat r < 12 \<and> live_temps j' = insert r (live_temps j) \<and>
       (r \<in> live_temps j \<longrightarrow> arm_temps \<subseteq> live_temps j \<and> r \<in> {reg_FPCR j, reg_FPSR j, reg_CC j}))"
proof -
  have t: "4 \<le> unat r \<and> unat r < 12 \<and> live_temps j' = insert r (live_temps j)" if "r \<noteq> 0xff"
    using RA_Alloc_live [OF assms that] by (simp add: arm_temps_def)
  have "(r = 0xff \<longleftrightarrow> arm_temps \<subseteq> live_temps j \<and>
       reg_FPCR j = 0xff \<and> reg_FPSR j = 0xff \<and> reg_CC j = 0xff) \<and>
     (r \<noteq> 0xff \<longrightarrow> r \<in> live_temps j \<longrightarrow>
       arm_temps \<subseteq> live_temps j \<and> r \<in> {reg_FPCR j, reg_FPSR j, reg_CC j})"
    by (cases rule: RA_Alloc_cases [OF assms]) (auto dest: temps.alloc_ok)
  with t RA_Alloc_wf [OF assms] show ?thesis by blast
qed

theorem RA_AllocARMRegister_correct_witness:
  "ra_wf (snd (RA_AllocARMRegister (jit_init 8))) \<and> fst (RA_AllocARMRegister (jit_init 8)) = 4"
proof -
  have "fst (RA_AllocARMRegister (jit_init 8)) = 4" by code_simp
  then show ?thesis
    using RA_AllocARMRegister_correct [OF jit_init_wf [of 8] prod.collapse [symmetric]] by blast
qed

text \<open>
  C25. Whatever the allocator evicts, the code it emits runs, changes no general register,
  no flag and no memory, and the emulated program sees the same CCR, FPCR and FPSR.
\<close>

theorem RA_AllocARMRegister_status:
  assumes "ra_wf j" "coherent j m" "RA_AllocARMRegister j = (r, j')"
  shows "\<exists>m'. run (emitted j j') m = Some m' \<and> same_status j m j' m' \<and> coherent j' m' \<and>
    (\<forall>s. rdX m' s = rdX m s) \<and> m_mem m' = m_mem m \<and>
    m_n m' = m_n m \<and> m_z m' = m_z m \<and> m_c m' = m_c m \<and> m_v m' = m_v m"
proof -
  from RA_Alloc_evicts [OF assms(1,3)] obtain m' where e: "evicts j m j' m'" by blast
  then have "only_lanes m m'" by (simp add: evicts_def)
  with e assms(2) produces_run [of j m j' m'] only_lanes_regs show ?thesis
    by (intro exI [of _ m']) (simp add: evicts_def)
qed

text \<open>An allocator state with every temporary taken and the three status registers cached.\<close>

definition crowded :: jit where
  "crowded = (jit_init 64)\<lparr>register_pool := 0xff0, reg_CC := 4, mod_CC := 1,
     reg_FPCR := 5, mod_FPCR := 1, reg_FPSR := 6, mod_FPSR := 1\<rparr>"

lemma crowded_wf: "ra_wf crowded" "coherent crowded m"
  by (simp_all add: crowded_def ra_wf_def status_regs_def jit_init_def coherent_def)

theorem RA_AllocARMRegister_status_witness:
  "fst (RA_AllocARMRegister crowded) = 5 \<and>
   (\<exists>m'. run (emitted crowded (snd (RA_AllocARMRegister crowded))) m_reset = Some m' \<and>
      same_status crowded m_reset (snd (RA_AllocARMRegister crowded)) m')"
proof -
  have "fst (RA_AllocARMRegister crowded) = 5" by code_simp
  with RA_AllocARMRegister_status [OF crowded_wf prod.collapse [symmetric], of m_reset]
  show ?thesis by blast
qed

text \<open>
  C37. A value that an instruction writes to the register \<open>RA_ModifyCC\<close> gave it is in the
  CCR lane after \<open>RA_FlushCC\<close>; FPCR and FPSR are what they were before.
\<close>

theorem cc_roundtrip:
  assumes "ra_wf j" "coherent j m" "RA_ModifyCC j = (r, j1)" "r \<noteq> 0xff"
  shows "\<exists>m1 m2. run (emitted j j1) m = Some m1 \<and> ucast (rdX m1 r) = cc_view j m \<and>
    run (emitted j1 (RA_FlushCC j1)) (wrX r v m1) = Some m2 \<and>
    lane_cc (m_simd m2 19) = ucast v \<and> reg_CC (RA_FlushCC j1) = 0xff \<and>
    fpcr_view (RA_FlushCC j1) m2 = fpcr_view j m \<and> fpsr_view (RA_FlushCC j1) m2 = fpsr_view j m"
proof -
  obtain j0 where g: "RA_GetCC j = (r, j0)" and j1: "j1 = j0\<lparr>mod_CC := 1\<rparr>"
    using assms(3) by (auto simp: RA_ModifyCC_def split: prod.splits)
  obtain m1 where l: "loads r j m j1 m1" and v: "ucast (rdX m1 r) = cc_view j m"
    using RA_GetCC_loads [OF assms(1,2) g assms(4)] loads_mod(1) j1 by blast
  have r1: "reg_CC j1 = r" using RA_GetCC_reg [OF g] j1 by simp
  from l have wf: "ra_wf j1" and t: "r \<in> arm_temps" and co: "coherent j1 m1"
    and ss: "same_status j m j1 m1" and p: "run (emitted j j1) m = Some m1"
    using produces_run by (simp_all add: loads_def)
  have d: "distinct (status_regs j1)" using wf by (simp add: ra_wf_def)
  let ?m = "wrX r v m1"
  have ne: "reg_FPCR j1 \<noteq> r" "reg_FPSR j1 \<noteq> r"
    using d r1 assms(4) unfolding distinct_status by auto
  then have fp: "fpcr_view j1 ?m = fpcr_view j1 m1" "fpsr_view j1 ?m = fpsr_view j1 m1"
    using ne [symmetric] by (simp_all add: fpcr_view_def fpsr_view_def)
  have cc: "cc_view j1 ?m = ucast v"
    using r1 assms(4) arm_temps_less [OF t] by (simp add: cc_view_def)
  have co': "coherent j1 ?m" using co unfolding coherent_def fp by (simp add: j1)
  obtain m2 where e: "evicts j1 ?m (RA_FlushCC j1) m2" "lane_cc (m_simd m2 19) = cc_view j1 ?m"
    using RA_FlushCC_evicts [OF wf] co' by blast
  then have "run (emitted j1 (RA_FlushCC j1)) ?m = Some m2" "same_status j1 ?m (RA_FlushCC j1) m2"
    using produces_run co' by (simp_all add: evicts_def)
  with e(2) cc fp ss p v flush_fields(4) show ?thesis
    by (intro exI [of _ m1] exI [of _ m2]) (simp add: same_status_def flush_fields)
qed

theorem cc_roundtrip_witness:
  "fst (RA_ModifyCC (jit_init 64)) = 4 \<and>
   (\<exists>m1 m2. run (emitted (jit_init 64) (snd (RA_ModifyCC (jit_init 64)))) m_reset = Some m1 \<and>
      run (emitted (snd (RA_ModifyCC (jit_init 64))) (RA_FlushCC (snd (RA_ModifyCC (jit_init 64)))))
        (wrX 4 0x1f m1) = Some m2 \<and> lane_cc (m_simd m2 19) = 0x1f)"
proof -
  have a: "fst (RA_ModifyCC (jit_init 64)) = 4" by code_simp
  have "RA_ModifyCC (jit_init 64) = (4, snd (RA_ModifyCC (jit_init 64)))"
    by (metis a prod.collapse)
  moreover have "coherent (jit_init 64) m_reset" by (simp add: coherent_def view_defs jit_init_def)
  ultimately show ?thesis using a cc_roundtrip [OF jit_init_wf [of 64], of m_reset 4 _ "0x1f"]
    by simp blast
qed

text \<open>
  When the pool is exhausted and only the condition codes are cached, the next
  allocation hands out the register that holds them: an emitter that fetched the register
  with \<open>RA_GetCC\<close> before still uses it, while it is somebody else's temporary.
\<close>

theorem RA_AllocARMRegister_takes_CC:
  assumes "ra_wf j" "arm_temps \<subseteq> live_temps j" "reg_FPCR j = 0xff" "reg_FPSR j = 0xff"
    "RA_GetCC j = (c, j)" "c \<noteq> 0xff"
  shows "fst (RA_AllocARMRegister j) = c \<and> reg_CC (snd (RA_AllocARMRegister j)) = 0xff"
proof -
  obtain r j' where a: "RA_AllocARMRegister j = (r, j')" by fastforce
  have c: "reg_CC j = c" using RA_GetCC_reg [OF assms(5)] .
  have "r = c \<and> reg_CC j' = 0xff"
    by (cases rule: RA_Alloc_cases [OF assms(1) a])
      (use assms c in \<open>auto dest: int_alloc_fields simp: flush_fields\<close>)
  with a show ?thesis by simp
qed

theorem RA_AllocARMRegister_takes_CC_witness:
  "fst (RA_GetCC ((jit_init 64)\<lparr>register_pool := 0xff0, reg_CC := 7\<rparr>)) = 7 \<and>
   fst (RA_AllocARMRegister ((jit_init 64)\<lparr>register_pool := 0xff0, reg_CC := 7\<rparr>)) = 7"
proof -
  let ?j = "(jit_init 64)\<lparr>register_pool := 0xff0, reg_CC := 7\<rparr>"
  have p: "bit (0xff0 :: u16) k" if "4 \<le> k" "k < 12" for k
  proof -
    have "bit (push_bit 4 (mask 8) :: u16) k" using that by (simp add: bit_simps) arith
    then show ?thesis by (simp add: mask_eq_exp_minus_1)
  qed
  have "ra_wf ?j" by (simp add: ra_wf_def status_regs_def jit_init_def)
  moreover have "register_pool ?j = 0xff0" by simp
  then have "arm_temps \<subseteq> live_temps ?j" unfolding arm_temps_def live_temps_def by (auto simp only: p)
  moreover have "RA_GetCC ?j = (7, ?j)" by (simp add: RA_GetCC_def)
  ultimately show ?thesis
    using RA_AllocARMRegister_takes_CC [of ?j 7] by (simp add: jit_init_def)
qed

text \<open>
  The sixteen m68k registers are mapped to sixteen different host registers, none of
  them a temporary, the emulated PC or a register above 29, and \<open>RA_IsM68kRegister\<close> answers
  yes exactly for those.
\<close>

theorem m68k_register_map:
  "distinct (map RA_MapM68kRegister (map of_nat [0..<16])) \<and>
   RA_IsM68kRegister r = (\<exists>k. RA_MapM68kRegister k = r) \<and>
   RA_MapM68kRegister k \<notin> arm_temps \<and> RA_MapM68kRegister k \<noteq> REG_PC \<and> RA_MapM68kRegister k < 30 \<and>
   RA_MapM68kRegisterForWrite k = RA_MapM68kRegister k"
proof -
  have d: "distinct (map RA_MapM68kRegister (map of_nat [0..<16]))" by code_simp
  have m: "RA_MapM68kRegister k \<in> set reg_map_m68k_to_arm" for k
  proof -
    have "k AND 15 = take_bit 4 k" by (simp add: take_bit_eq_mask mask_eq_exp_minus_1)
    then have "unat (k AND 15) < 16"
      using take_bit_nat_less_exp [of 4 "unat k"] by (simp add: unsigned_take_bit_eq)
    moreover have "length reg_map_m68k_to_arm = 16" by (simp add: reg_map_m68k_to_arm_def)
    ultimately show ?thesis unfolding RA_MapM68kRegister_def by (metis nth_mem)
  qed
  have s: "r \<in> set reg_map_m68k_to_arm \<Longrightarrow> \<exists>k. RA_MapM68kRegister k = r" for r
  proof -
    assume "r \<in> set reg_map_m68k_to_arm"
    moreover have "set reg_map_m68k_to_arm = set (map RA_MapM68kRegister (map of_nat [0..<16]))"
      by code_simp
    ultimately show ?thesis by auto
  qed
  have u: "RA_IsM68kRegister r \<longleftrightarrow> r \<in> set reg_map_m68k_to_arm" if "r < 32" for r
  proof -
    have "\<forall>r \<in> set (map of_nat [0..<32] :: u8 list).
        RA_IsM68kRegister r = (r \<in> set reg_map_m68k_to_arm)" by code_simp
    moreover have "r \<in> set (map of_nat [0..<32])"
      using that by (auto simp: word_less_nat_alt intro!: image_eqI [of _ _ "unat r"])
    ultimately show ?thesis by blast
  qed
  have b: "\<forall>r \<in> set reg_map_m68k_to_arm. r \<noteq> REG_PC \<and> r < 30 \<and> (unat r < 4 \<or> 12 \<le> unat r)"
    by code_simp
  have "RA_IsM68kRegister r = (\<exists>k. RA_MapM68kRegister k = r)"
  proof (cases "r < 32")
    case True
    with u [OF True] m s show ?thesis by blast
  next
    case False
    have "r < 30 \<Longrightarrow> r < 32" by (erule less_trans) simp
    with False m b have "\<not> (\<exists>k. RA_MapM68kRegister k = r)" by blast
    with False show ?thesis by (simp add: RA_IsM68kRegister_def not_less)
  qed
  moreover have "RA_MapM68kRegister k \<notin> arm_temps \<and> RA_MapM68kRegister k \<noteq> REG_PC \<and>
      RA_MapM68kRegister k < 30"
    using bspec [OF b m [of k]] by (auto simp: arm_temps_def)
  moreover have "RA_MapM68kRegisterForWrite k = RA_MapM68kRegister k"
    by (simp add: RA_MapM68kRegisterForWrite_def RA_MapM68kRegister_def)
  ultimately show ?thesis using d by blast
qed

end
