(* ===== verification/A64_Alias.thy ===== *)
theory A64_Alias
  imports Jit_State
begin

text \<open>
  The alias encoders (shifts, bit field moves, conditional sets, masks given by width and
  rotation) run on the reference machine: each computes what its name says. The
  collection \<open>a64_alias\<close> is what the correctness proofs of the flag and condition
  emitters rewrite with.
\<close>

named_theorems a64_alias \<open>what an alias encoder decodes to\<close>

section \<open>Masks by width and rotation\<close>

lemma bit_rep_ones:
  "bit (rep_ones e n r) i \<longleftrightarrow> i < 32 \<and> (i + r) mod e < n"
  by (simp add: rep_ones_def bit_horner_sum_bit_word_iff) (auto simp: nth_map)

lemma rep_ones_rotr: "n \<le> 32 \<Longrightarrow> rep_ones 32 n r = (word_rotr r (mask n) :: u32)"
  by (rule bit_word_eqI) (auto simp: bit_rep_ones bit_word_rotr_iff bit_simps)

lemma word_rotr_mod: "word_rotr (n mod 32) (w :: u32) = word_rotr n w"
  by (rule bit_word_eqI) (simp add: bit_word_rotr_iff mod_simps)

lemma unat_take_6_u8: "unat (take_bit 6 (r :: u8)) = unat r mod 64"
  by (simp only: unsigned_take_bit_eq take_bit_eq_mod [where ?'a = nat]) simp

lemma imm_mask_rotr:
  assumes "1 \<le> unat w" "unat w \<le> 31"
  shows "imm_mask w r = Some (word_rotr (unat r) (mask (unat w)))"
proof -
  have "w \<noteq> 0" using assms(1) by auto
  then have w: "unat (w - 1) = unat w - 1" by (simp add: unat_minus_one)
  have a: "unat (take_bit 6 (w - 1)) = unat w - 1"
    unfolding unat_take_6_u8 w using assms(2) by simp
  have "unat r mod 64 mod 32 = unat r mod 32" by (rule mod_mod_cancel) simp
  then have "rep_ones 32 (unat w) (unat r mod 64 mod 32) = word_rotr (unat r) (mask (unat w))"
    using assms(2) word_rotr_mod [of "unat r" "mask (unat w)"] by (simp add: rep_ones_rotr)
  moreover have "(unat w - 1) mod 32 = unat w - 1" "Suc (unat w - 1) = unat w" "unat w - 1 \<noteq> 31"
    "unat w - 1 < 32" using assms by simp_all
  ultimately show ?thesis unfolding imm_mask_def bitmask_imm_def a
    by (simp add: mask_esize_def unat_take_6_u8 Let_def)
qed

text \<open>The mask that \<open>bic_immed\<close> clears is the complement of the one it encodes.\<close>

lemma rotr_not: "word_rotr n (NOT w) = NOT (word_rotr n w)" for w :: u32
  by (rule bit_word_eqI) (simp add: bit_word_rotr_iff bit_simps)

lemma rotr_complement:
  assumes "w \<le> 32"
  shows "word_rotr (r + (32 - w)) (mask (32 - w)) = NOT (word_rotr r (mask w) :: u32)"
proof (rule bit_word_eqI)
  fix i assume "i < LENGTH(32)"
  have "(i + (r + (32 - w))) mod 32 = ((i + r) mod 32 + (32 - w)) mod 32"
    by (simp add: mod_simps add.assoc)
  moreover have "(x + (32 - w)) mod 32 < 32 - w \<longleftrightarrow> \<not> x < w" if "x < 32" for x
  proof (cases "x < w")
    case True
    then have "x + (32 - w) < 32" using assms by simp
    with True show ?thesis by simp
  next
    case False
    then have "x + (32 - w) = (x - w) + 32" using assms by simp
    then have "(x + (32 - w)) mod 32 = x - w" using that by (metis mod_add_self2 mod_less less_imp_diff_less)
    with False that assms show ?thesis by simp
  qed
  ultimately show "bit (word_rotr (r + (32 - w)) (mask (32 - w)) :: u32) i =
      bit (NOT (word_rotr r (mask w) :: u32)) i"
    using \<open>i < LENGTH(32)\<close> assms by (auto simp: bit_word_rotr_iff bit_simps)
qed

lemma ucast_u8_sub: "(ucast (a - b :: u32) :: u8) = ucast a - ucast b"
proof transfer
  fix a b :: int
  have "(a mod 2 ^ 32 - b mod 2 ^ 32) mod 256 = ((a mod 2 ^ 32) mod 256 - (b mod 2 ^ 32) mod 256) mod 256"
    by (simp add: mod_diff_eq)
  also have "\<dots> = (a - b) mod 256" by (simp add: mod_mod_cancel mod_diff_eq)
  finally show "take_bit LENGTH(8) (take_bit LENGTH(32) (a - b)) =
      take_bit LENGTH(8) (take_bit LENGTH(32) a - take_bit LENGTH(32) b)"
    by (simp add: take_bit_eq_mod mod_mod_cancel)
qed

lemma imm_mask_bic:
  fixes w r :: u8
  assumes "1 \<le> unat w" "unat w \<le> 31" "unat r < 32"
  shows "imm_mask (ucast (32 - ucast w :: u32)) (ucast (ucast r - ucast w :: u32)) =
     Some (NOT (word_rotr (unat r) (mask (unat w))))"
proof -
  have "w \<le> 32" using assms(2) by (simp add: word_le_nat_alt)
  have e: "ucast (32 - ucast w :: u32) = 32 - w" "ucast (ucast r - ucast w :: u32) = r - w"
    by (simp_all add: ucast_u8_sub)
  have u: "unat (32 - w) = 32 - unat w" using \<open>w \<le> 32\<close> by (simp add: unat_sub)
  have "imm_mask (32 - w) (r - w) = Some (word_rotr (unat (r - w)) (mask (32 - unat w)))"
    using imm_mask_rotr [of "32 - w" "r - w"] u assms by simp
  moreover have "unat (r - w) mod 32 = (unat r + (32 - unat w)) mod 32"
  proof -
    have "unat (r - w) = (unat r + (256 - unat w)) mod 256"
    proof (cases "unat w \<le> unat r")
      case True
      then have "unat r + (256 - unat w) = (unat r - unat w) + 256" using assms by simp
      then have "(unat r + (256 - unat w)) mod 256 = (unat r - unat w) mod 256"
        by (simp only: mod_add_self2)
      with True assms show ?thesis by (simp add: unat_sub_if_size)
    next
      case False
      with assms show ?thesis by (simp add: unat_sub_if_size word_size)
    qed
    then have "unat (r - w) mod 32 = (unat r + (256 - unat w)) mod 32"
      by (simp add: mod_mod_cancel)
    also have "unat r + (256 - unat w) = (unat r + (32 - unat w)) + 7 * 32" using assms(2) by simp
    finally show ?thesis by (simp only: mod_mult_self1)
  qed
  then have "word_rotr (unat (r - w)) (mask (32 - unat w)) =
      (word_rotr (unat r + (32 - unat w)) (mask (32 - unat w)) :: u32)"
    by (metis word_rotr_mod)
  ultimately show ?thesis using rotr_complement [of "unat w" "unat r"] assms(2) e by simp
qed

section \<open>What the aliases decode to\<close>

lemma decode_tst_immed [a64_alias]:
  "1 \<le> unat w \<Longrightarrow> unat w \<le> 31 \<Longrightarrow> decode (fetch (tst_immed rn w r)) =
     Some (LogImm Ands_op 31 (take_bit 5 rn) (word_rotr (unat r) (mask (unat w))))"
  by (simp add: tst_immed_def decode_ands_immed imm_mask_rotr)

lemma decode_logical_immed [a64_alias]:
  assumes "1 \<le> unat w" "unat w \<le> 31"
  shows "decode (fetch (orr_immed rd rn w r)) =
      Some (LogImm Orr_op (take_bit 5 rd) (take_bit 5 rn) (word_rotr (unat r) (mask (unat w))))"
    "decode (fetch (eor_immed rd rn w r)) =
      Some (LogImm Eor_op (take_bit 5 rd) (take_bit 5 rn) (word_rotr (unat r) (mask (unat w))))"
    "decode (fetch (and_immed rd rn w r)) =
      Some (LogImm And_op (take_bit 5 rd) (take_bit 5 rn) (word_rotr (unat r) (mask (unat w))))"
  using assms by (simp_all add: a64_decode imm_mask_rotr)

lemma decode_bic_immed [a64_alias]:
  "1 \<le> unat w \<Longrightarrow> unat w \<le> 31 \<Longrightarrow> unat r < 32 \<Longrightarrow> decode (fetch (bic_immed rd rn w r)) =
     Some (LogImm And_op (take_bit 5 rd) (take_bit 5 rn) (NOT (word_rotr (unat r) (mask (unat w)))))"
  by (simp add: bic_immed_def decode_and_immed imm_mask_bic)

lemma decode_cset [a64_alias]:
  "decode (fetch (cset rd cc)) =
     Some (CondSel Csinc_op (take_bit 5 rd) 31 31 (take_bit 4 (cc XOR 1)))"
proof -
  have "(ucast (ucast cc XOR 1 :: u32) :: u8) = cc XOR 1" by (rule bit_word_eqI) (auto simp: bit_simps)
  then show ?thesis by (simp add: cset_def decode_csinc)
qed

lemma decode_cinc [a64_alias]:
  "decode (fetch (cinc rd rn cc)) =
     Some (CondSel Csinc_op (take_bit 5 rd) (take_bit 5 rn) (take_bit 5 rn) (take_bit 4 (cc XOR 1)))"
proof -
  have "(ucast (ucast cc XOR 1 :: u32) :: u8) = cc XOR 1" by (rule bit_word_eqI) (auto simp: bit_simps)
  then show ?thesis by (simp add: cinc_def decode_csinc)
qed

text \<open>The inverted condition holds exactly when the condition does not, always and never apart.\<close>

lemma cond_holds_inv:
  assumes "cc < 14"
  shows "cond_holds (take_bit 4 (cc XOR 1)) m = (\<not> cond_holds cc m)"
proof -
  have "cc < 2 ^ 4" using assms by (rule less_trans) simp
  then have c: "take_bit 4 cc = cc" using less_mask_eq [of cc 4] by (simp add: take_bit_eq_mask)
  then have x: "take_bit 4 (cc XOR 1) = cc XOR 1" by (simp add: take_bit_xor)
  have "cc XOR 1 \<noteq> 15"
  proof
    assume "cc XOR 1 = 15"
    then have "(cc XOR 1) XOR 1 = 15 XOR 1" by simp
    then have "cc = 14" by (simp add: xor.assoc)
    with assms show False by simp
  qed
  moreover have "cc \<noteq> 15" using assms by auto
  moreover have "take_bit 3 (drop_bit 1 (cc XOR 1)) = take_bit 3 (drop_bit 1 cc)"
    by (rule bit_word_eqI) (auto simp: bit_simps)
  moreover have "bit (cc XOR 1) 0 \<longleftrightarrow> \<not> bit cc 0" by (simp add: bit_simps)
  ultimately show ?thesis unfolding cond_holds_def x c by (simp only: Let_def) simp
qed

section \<open>Bit field moves and shifts\<close>

text \<open>A negative shift amount as the encoders write it: \<open>31 & (32 - lsb)\<close>.\<close>

lemma unat_neg_shift:
  fixes l :: u8
  assumes "unat l < 32"
  shows "unat (ucast (31 AND 32 - ucast l :: u32) :: u8) = (32 - unat l) mod 32"
proof -
  have m: "(31 :: u8) = mask 5" by (simp add: mask_eq_exp_minus_1)
  have "ucast (31 AND 32 - ucast l :: u32) = (31 AND (32 - l) :: u8)"
    using ucast_u8_sub [of 32 "ucast l"] by (simp add: unsigned_and_eq)
  moreover have "unat (32 - l) = 32 - unat l" using assms by (simp add: unat_sub word_le_nat_alt)
  then have "unat (31 AND (32 - l)) = (32 - unat l) mod 32"
    unfolding m and.commute [of "mask 5"] take_bit_eq_mask [symmetric]
    by (simp only: unsigned_take_bit_eq take_bit_eq_mod [where ?'a = nat]) simp
  ultimately show ?thesis by simp
qed

lemma less_32_unat: "(k :: u8) < 32 \<longleftrightarrow> unat k < 32"
  by (simp add: word_less_nat_alt)

lemma unat_width_1: "1 \<le> unat w \<Longrightarrow> unat (ucast (ucast (w :: u8) - 1 :: u32) :: u8) = unat w - 1"
proof -
  assume "1 \<le> unat w"
  then have "w \<noteq> 0" by auto
  then show ?thesis using ucast_u8_sub [of "ucast w" 1] by (simp add: unat_minus_one)
qed

lemma unat_lsb_width:
  fixes l w :: u8
  assumes "1 \<le> unat w" "unat l + unat w \<le> 32"
  shows "unat (ucast (ucast l + ucast w - 1 :: u32) :: u8) = unat l + unat w - 1"
proof -
  have "(ucast (ucast l + ucast w :: u32) :: u8) = l + w"
    using ucast_u8_sub [of "ucast l" "- ucast w"] ucast_u8_sub [of 0 "ucast w"] by simp
  then have "ucast (ucast l + ucast w - 1 :: u32) = l + w - 1"
    using ucast_u8_sub [of "ucast l + ucast w" 1] by simp
  moreover have u: "unat (l + w) = unat l + unat w" using assms(2) by (simp add: unat_word_ariths)
  moreover have "l + w \<noteq> 0" using u assms(1) by (metis add_is_0 not_one_le_zero unat_0)
  ultimately show ?thesis by (simp add: unat_minus_one)
qed

definition bfi_val :: "nat \<Rightarrow> nat \<Rightarrow> u32 \<Rightarrow> u32 \<Rightarrow> u32" where
  "bfi_val l w src dst = (dst AND NOT (push_bit l (mask w))) OR push_bit l (take_bit w src)"

lemma bit_bfi_val [bit_simps]:
  "bit (bfi_val l w src dst) i \<longleftrightarrow>
     i < 32 \<and> (if l \<le> i \<and> i < l + w then bit src (i - l) else bit dst i)"
  by (cases "i < 32") (auto simp: bfi_val_def bit_simps dest: bit_imp_le_length)

text \<open>In straight-line code, one instruction that writes a 32-bit value to a register.\<close>

definition step_writes :: "u32 \<Rightarrow> u8 \<Rightarrow> (mstate \<Rightarrow> u32) \<Rightarrow> mstate \<Rightarrow> bool" where
  "step_writes w rd f m \<longleftrightarrow>
     (\<forall>ws. run (w # ws) m = run ws ((wrW rd (f m) m)\<lparr>m_pc := m_pc m + 4\<rparr>))"

lemma step_writesI:
  "decode (fetch w) = Some i \<Longrightarrow> \<not> is_branch i \<Longrightarrow> exec_data i m = wrW rd (f m) m \<Longrightarrow>
   step_writes w rd f m"
  by (simp add: step_writes_def exec_def)

lemma bitfield_bfi:
  assumes "1 \<le> w" "l + w \<le> 32"
  shows "bitfield_val Bfm_op ((32 - l) mod 32) (w - 1) src dst = bfi_val l w src dst"
proof (cases "l = 0")
  case True
  with assms show ?thesis by (simp add: bfi_val_def)
next
  case False
  with assms have "\<not> (32 - l) mod 32 \<le> w - 1" "32 - (32 - l) mod 32 = l" "Suc (w - 1) = w" by auto
  then show ?thesis by (simp add: bfi_val_def)
qed

lemma bitfield_lsl:
  assumes "k < 32"
  shows "bitfield_val Ubfm_op ((32 - k) mod 32) (31 - k) src dst = push_bit k src"
proof (cases "k = 0")
  case True
  then show ?thesis by (simp add: take_bit_word_eq_self)
next
  case False
  with assms have "\<not> (32 - k) mod 32 \<le> 31 - k" "32 - (32 - k) mod 32 = k" "Suc (31 - k) = 32 - k"
    by auto
  moreover have "push_bit k (take_bit (32 - k) src) = push_bit k src"
    by (rule bit_word_eqI) (auto simp: bit_simps)
  ultimately show ?thesis by simp
qed

lemma take_drop_full: "k < 32 \<Longrightarrow> take_bit (32 - k) (drop_bit k (x :: u32)) = drop_bit k x"
  by (rule bit_word_eqI) (auto simp: bit_simps dest: bit_imp_le_length)

lemma signed_take_drop:
  assumes "k < 32"
  shows "signed_take_bit (31 - k) (drop_bit k (x :: u32)) = signed_drop_bit k x"
proof (rule bit_word_eqI)
  fix n assume "n < LENGTH(32)"
  then have n: "n < 32" by simp
  show "bit (signed_take_bit (31 - k) (drop_bit k x)) n = bit (signed_drop_bit k x) n"
  proof (cases "32 - k \<le> n")
    case True
    with assms have "min (31 - k) n = 31 - k" "k + (31 - k) = 31" by auto
    with True n show ?thesis
      by (simp add: bit_signed_take_bit_iff bit_signed_drop_bit_iff bit_drop_bit_eq)
  next
    case False
    with assms have "min (31 - k) n = n" by auto
    with False n show ?thesis
      by (simp add: bit_signed_take_bit_iff bit_signed_drop_bit_iff bit_drop_bit_eq)
  qed
qed

lemma word_rotr_0: "word_rotr 0 (w :: u32) = w"
  by (rule bit_word_eqI) (simp add: bit_word_rotr_iff)

lemma extr_rotr:
  assumes "k < 32" "k \<noteq> 0"
  shows "drop_bit k x OR push_bit (32 - k) x = word_rotr k (x :: u32)"
proof (rule bit_word_eqI)
  fix n assume "n < LENGTH(32)"
  then have n: "n < 32" by simp
  show "bit (drop_bit k x OR push_bit (32 - k) x) n = bit (word_rotr k x) n"
  proof (cases "n + k < 32")
    case True
    with n show ?thesis by (auto simp: bit_simps bit_word_rotr_iff add.commute)
  next
    case False
    then have "(n + k) mod 32 = n - (32 - k)" using assms n by (simp add: mod_if)
    moreover have "\<not> bit x (k + n)" using False bit_imp_le_length [of x "k + n"] by auto
    ultimately show ?thesis using False n assms by (auto simp: bit_simps bit_word_rotr_iff)
  qed
qed

lemma shift_steps:
  assumes "k < 32" "rd < 32" "rn < 32"
  shows "step_writes (lsl_i rd rn k) rd (\<lambda>m. push_bit (unat k) (rdW m rn)) m \<and>
    step_writes (lsr_i rd rn k) rd (\<lambda>m. drop_bit (unat k) (rdW m rn)) m \<and>
    step_writes (asr_i rd rn k) rd (\<lambda>m. signed_drop_bit (unat k) (rdW m rn)) m \<and>
    step_writes (ror_i rd rn k) rd (\<lambda>m. word_rotr (unat k) (rdW m rn)) m"
proof -
  note r = take_bit_5_reg [OF assms(2)] take_bit_5_reg [OF assms(3)]
  have k: "unat k < 32" using assms(1) by (simp add: less_32_unat)
  let ?a = "ucast (31 AND 32 - ucast k :: u32) :: u8" and ?b = "ucast (31 - ucast k :: u32) :: u8"
  have ua: "unat ?a = (32 - unat k) mod 32" by (rule unat_neg_shift [OF k])
  have ub: "unat ?b = 31 - unat k"
    using ucast_u8_sub [of 31 "ucast k"] k by (simp add: unat_sub word_le_nat_alt)
  have "step_writes (lsl_i rd rn k) rd (\<lambda>m. push_bit (unat k) (rdW m rn)) m"
    by (rule step_writesI [of _ "Bitfield Ubfm_op rd rn ((32 - unat k) mod 32) (31 - unat k)"])
      (use k r bitfield_lsl [OF k] in \<open>simp_all add: lsl_i_def decode_ubfm less_32_unat ua ub
         del: bitfield_val.simps\<close>)
  moreover have "step_writes (lsr_i rd rn k) rd (\<lambda>m. drop_bit (unat k) (rdW m rn)) m"
    by (rule step_writesI [of _ "Bitfield Ubfm_op rd rn (unat k) 31"])
      (use k r assms take_drop_full [OF k] in \<open>simp_all add: lsr_i_def decode_ubfm Suc_diff_le [symmetric]\<close>)
  moreover have "step_writes (asr_i rd rn k) rd (\<lambda>m. signed_drop_bit (unat k) (rdW m rn)) m"
    by (rule step_writesI [of _ "Bitfield Sbfm_op rd rn (unat k) 31"])
      (use k r assms signed_take_drop [OF k] in \<open>simp_all add: asr_i_def decode_sbfm\<close>)
  moreover have "step_writes (ror_i rd rn k) rd (\<lambda>m. word_rotr (unat k) (rdW m rn)) m"
  proof (rule step_writesI)
    show "decode (fetch (ror_i rd rn k)) = Some (Extr rd rn rn (unat k))"
      using assms r by (simp add: a64_decode)
    show "exec_data (Extr rd rn rn (unat k)) m = wrW rd (word_rotr (unat k) (rdW m rn)) m"
      using extr_rotr [OF k] by (cases "unat k = 0") (simp_all add: word_rotr_0)
  qed simp
  ultimately show ?thesis by blast
qed

lemma bitfield_steps:
  assumes "1 \<le> unat w" "unat l + unat w \<le> 32" "rd < 32" "rn < 32"
  shows "step_writes (bfi rd rn l w) rd (\<lambda>m. bfi_val (unat l) (unat w) (rdW m rn) (rdW m rd)) m \<and>
    step_writes (bfxil rd rn l w) rd
      (\<lambda>m. bfi_val 0 (unat w) (drop_bit (unat l) (rdW m rn)) (rdW m rd)) m \<and>
    step_writes (ubfx rd rn l w) rd (\<lambda>m. take_bit (unat w) (drop_bit (unat l) (rdW m rn))) m \<and>
    step_writes (sbfx rd rn l w) rd
      (\<lambda>m. signed_take_bit (unat w - 1) (drop_bit (unat l) (rdW m rn))) m"
proof -
  note r = take_bit_5_reg [OF assms(3)] take_bit_5_reg [OF assms(4)]
  have l: "unat l < 32" using assms(1,2) by simp
  let ?a = "ucast (31 AND 32 - ucast l :: u32) :: u8" and ?b = "ucast (ucast w - 1 :: u32) :: u8"
  let ?c = "ucast (ucast l + ucast w - 1 :: u32) :: u8"
  have ua: "unat ?a = (32 - unat l) mod 32" by (rule unat_neg_shift [OF l])
  have ub: "unat ?b = unat w - 1" by (rule unat_width_1 [OF assms(1)])
  have uc: "unat ?c = unat l + unat w - 1" by (rule unat_lsb_width [OF assms(1,2)])
  have le: "unat l \<le> unat l + unat w - 1" "Suc (unat l + unat w - 1 - unat l) = unat w"
    "unat l + unat w - 1 - unat l = unat w - 1" "unat l + unat w - 1 < 32" "unat w - 1 < 32"
    using assms(1,2) by auto
  have "step_writes (bfi rd rn l w) rd (\<lambda>m. bfi_val (unat l) (unat w) (rdW m rn) (rdW m rd)) m"
  proof (rule step_writesI)
    show "decode (fetch (bfi rd rn l w)) =
        Some (Bitfield Bfm_op rd rn ((32 - unat l) mod 32) (unat w - 1))"
      using r le by (simp add: bfi_def decode_bfm less_32_unat ua ub)
    show "exec_data (Bitfield Bfm_op rd rn ((32 - unat l) mod 32) (unat w - 1)) m =
        wrW rd (bfi_val (unat l) (unat w) (rdW m rn) (rdW m rd)) m"
      using bitfield_bfi [OF assms(1,2)] by (simp del: bitfield_val.simps)
  qed simp
  moreover have d: "decode (fetch (bfm rd rn l ?c)) = Some (Bitfield Bfm_op rd rn (unat l) (unat ?c))"
    "decode (fetch (ubfm rd rn l ?c)) = Some (Bitfield Ubfm_op rd rn (unat l) (unat ?c))"
    "decode (fetch (sbfm rd rn l ?c)) = Some (Bitfield Sbfm_op rd rn (unat l) (unat ?c))"
    using r l le uc by (simp_all add: decode_bfm decode_ubfm decode_sbfm less_32_unat)
  have "step_writes (bfxil rd rn l w) rd
      (\<lambda>m. bfi_val 0 (unat w) (drop_bit (unat l) (rdW m rn)) (rdW m rd)) m"
    by (rule step_writesI [OF d(1) [folded bfxil_def]]) (use le in \<open>simp_all add: uc bfi_val_def\<close>)
  moreover have "step_writes (ubfx rd rn l w) rd
      (\<lambda>m. take_bit (unat w) (drop_bit (unat l) (rdW m rn))) m"
    by (rule step_writesI [OF d(2) [folded ubfx_def]]) (use le in \<open>simp_all add: uc\<close>)
  moreover have "step_writes (sbfx rd rn l w) rd
      (\<lambda>m. signed_take_bit (unat w - 1) (drop_bit (unat l) (rdW m rn))) m"
    by (rule step_writesI [OF d(3) [folded sbfx_def]]) (use le in \<open>simp_all add: uc\<close>)
  ultimately show ?thesis by blast
qed

section \<open>Running alias instructions\<close>

text \<open>Symbolic execution of one instruction, in the forms the emitters use.\<close>

lemma run_bfi:
  assumes "1 \<le> unat w" "unat l + unat w \<le> 32" "rd < 32" "rn < 32"
  shows "run (bfi rd rn l w # ws) m =
    run ws ((wrW rd (bfi_val (unat l) (unat w) (rdW m rn) (rdW m rd)) m)\<lparr>m_pc := m_pc m + 4\<rparr>)"
  using bitfield_steps [OF assms, of m] by (simp add: step_writes_def)

lemma run_bfxil:
  assumes "1 \<le> unat w" "unat l + unat w \<le> 32" "rd < 32" "rn < 32"
  shows "run (bfxil rd rn l w # ws) m =
    run ws ((wrW rd (bfi_val 0 (unat w) (drop_bit (unat l) (rdW m rn)) (rdW m rd)) m)
      \<lparr>m_pc := m_pc m + 4\<rparr>)"
  using bitfield_steps [OF assms, of m] by (simp add: step_writes_def)

lemma cset_step:
  assumes "cc < 14" "rd < 32"
  shows "step_writes (cset rd cc) rd (\<lambda>m. of_bool (cond_holds cc m)) m"
  by (rule step_writesI [OF decode_cset])
    (use assms take_bit_5_reg cond_holds_inv [OF assms(1), of m] in simp_all)

lemma cinc_step:
  assumes "cc < 14" "rd < 32" "rn < 32"
  shows "step_writes (cinc rd rn cc) rd (\<lambda>m. rdW m rn + of_bool (cond_holds cc m)) m"
  by (rule step_writesI [OF decode_cinc])
    (use assms take_bit_5_reg cond_holds_inv [OF assms(1), of m] in simp_all)

lemma csel_step:
  assumes "rd < 32" "rn < 32" "rm < 32"
  shows "step_writes (csel rd rn rm cc) rd
    (\<lambda>m. if cond_holds (take_bit 4 cc) m then rdW m rn else rdW m rm) m"
  by (rule step_writesI [OF decode_csel]) (use assms take_bit_5_reg in simp_all)

lemma bic_step:
  assumes "1 \<le> unat w" "unat w \<le> 31" "unat r < 32" "rd < 31" "rn < 32"
  shows "step_writes (bic_immed rd rn w r) rd
    (\<lambda>m. rdW m rn AND NOT (word_rotr (unat r) (mask (unat w)))) m"
proof -
  have "rd < 32" using assms(4) by (rule less_trans) simp
  with assms(5) have r: "take_bit 5 rd = rd" "take_bit 5 rn = rn" by (simp_all add: take_bit_5_reg)
  have "rd \<noteq> 31" using assms(4) by auto
  then show ?thesis
    by (intro step_writesI [OF decode_bic_immed [OF assms(1-3)]])
      (simp_all add: r wrW_def wrX_def wrXsp_def)
qed

lemma orr_immed_step:
  assumes "1 \<le> unat w" "unat w \<le> 31" "rd < 31" "rn < 32"
  shows "step_writes (orr_immed rd rn w r) rd
    (\<lambda>m. rdW m rn OR word_rotr (unat r) (mask (unat w))) m"
proof -
  have "rd < 32" using assms(3) by (rule less_trans) simp
  with assms(4) have r: "take_bit 5 rd = rd" "take_bit 5 rn = rn" by (simp_all add: take_bit_5_reg)
  have "rd \<noteq> 31" using assms(3) by auto
  then show ?thesis
    by (intro step_writesI [OF decode_logical_immed(1) [OF assms(1,2)]])
      (simp_all add: r wrW_def wrX_def wrXsp_def)
qed

section \<open>Properties\<close>

text \<open>
  The immediate shifts compute shifts: each is encoded as a bit field move whose field
  bounds wrap around for \<open>lsl\<close>, and \<open>ror\<close> as an extract from the same register twice.
\<close>

theorem shift_immediates:
  assumes "k < 32" "rd < 32" "rn < 32"
  shows "step_writes (lsl_i rd rn k) rd (\<lambda>m. push_bit (unat k) (rdW m rn)) m \<and>
    step_writes (lsr_i rd rn k) rd (\<lambda>m. drop_bit (unat k) (rdW m rn)) m \<and>
    step_writes (asr_i rd rn k) rd (\<lambda>m. signed_drop_bit (unat k) (rdW m rn)) m \<and>
    step_writes (ror_i rd rn k) rd (\<lambda>m. word_rotr (unat k) (rdW m rn)) m"
  by (rule shift_steps [OF assms])

theorem shift_immediates_witness:
  "run [lsl_i 5 6 4] (m_reset\<lparr>m_x := (\<lambda>_. 0)(6 := 0x123)\<rparr>) =
     Some ((wrW 5 0x1230 (m_reset\<lparr>m_x := (\<lambda>_. 0)(6 := 0x123)\<rparr>))\<lparr>m_pc := 4\<rparr>)"
  using shift_immediates [of 4 5 6 "m_reset\<lparr>m_x := (\<lambda>_. 0)(6 := 0x123)\<rparr>"]
  by (simp add: step_writes_def rdW_def rdX_def m_reset_def)

text \<open>
  The bit field aliases move the field their arguments name: \<open>bfi\<close> inserts the low
  bits, \<open>bfxil\<close> extracts into the low bits, \<open>ubfx\<close> and \<open>sbfx\<close> extract with zero and sign
  extension. All other bits of a destination that is inserted into stay.
\<close>

theorem bitfield_moves:
  assumes "1 \<le> unat w" "unat l + unat w \<le> 32" "rd < 32" "rn < 32"
  shows "step_writes (bfi rd rn l w) rd (\<lambda>m. bfi_val (unat l) (unat w) (rdW m rn) (rdW m rd)) m \<and>
    step_writes (bfxil rd rn l w) rd
      (\<lambda>m. bfi_val 0 (unat w) (drop_bit (unat l) (rdW m rn)) (rdW m rd)) m \<and>
    step_writes (ubfx rd rn l w) rd (\<lambda>m. take_bit (unat w) (drop_bit (unat l) (rdW m rn))) m \<and>
    step_writes (sbfx rd rn l w) rd
      (\<lambda>m. signed_take_bit (unat w - 1) (drop_bit (unat l) (rdW m rn))) m"
  by (rule bitfield_steps [OF assms])

theorem bitfield_moves_witness:
  "run [bfi 5 6 2 1] (m_reset\<lparr>m_x := (\<lambda>_. 0)(6 := 1)\<rparr>) =
     Some ((wrW 5 4 (m_reset\<lparr>m_x := (\<lambda>_. 0)(6 := 1)\<rparr>))\<lparr>m_pc := 4\<rparr>)"
  using bitfield_moves [of 1 2 5 6 "m_reset\<lparr>m_x := (\<lambda>_. 0)(6 := 1)\<rparr>"]
  by (simp add: step_writes_def rdW_def rdX_def m_reset_def bfi_val_def)

text \<open>
  The conditional aliases select on the condition they are given, although they are
  encoded with the inverted one.
\<close>

theorem conditional_selects:
  assumes "cc < 14" "rd < 32" "rn < 32" "rm < 32"
  shows "step_writes (cset rd cc) rd (\<lambda>m. of_bool (cond_holds cc m)) m \<and>
    step_writes (cinc rd rn cc) rd (\<lambda>m. rdW m rn + of_bool (cond_holds cc m)) m \<and>
    step_writes (csel rd rn rm cc) rd (\<lambda>m. if cond_holds cc m then rdW m rn else rdW m rm) m"
proof -
  have "cc < 2 ^ 4" using assms(1) by (rule less_trans) simp
  then have "take_bit 4 cc = cc" using less_mask_eq [of cc 4] by (simp add: take_bit_eq_mask)
  then show ?thesis
    using cset_step [OF assms(1,2)] cinc_step [OF assms(1-3)] csel_step [OF assms(2-4), of cc] by simp
qed

theorem conditional_selects_witness:
  "run [cset 7 A64_CC_EQ] (m_reset\<lparr>m_z := True\<rparr>) =
     Some ((wrW 7 1 (m_reset\<lparr>m_z := True\<rparr>))\<lparr>m_pc := 4\<rparr>)"
  using conditional_selects [of A64_CC_EQ 7 0 0 "m_reset\<lparr>m_z := True\<rparr>"]
  by (simp add: step_writes_def a64_cc_defs cond_holds_def m_reset_def)

text \<open>
  An instruction word stored to the translation buffer by the big-endian host is
  fetched as the word that was encoded, from four bytes in little-endian order.
\<close>

theorem insn_fetch_roundtrip:
  "fetch (I32 w) = w \<and>
   bytes_be32 (I32 w) = [ucast w, ucast (drop_bit 8 w), ucast (drop_bit 16 w), ucast (drop_bit 24 w)]"
  by (simp add: bytes_I32)

text \<open>
  \<open>csel64\<close> puts the third register at bit 6, inside the field of the second one: the
  register it selects when the condition fails is always \<open>x0\<close>, and the second operand is
  read from a register that mixes both numbers. \<open>csel\<close> has both fields right.
\<close>

theorem csel64_operands:
  "fld 16 5 (fetch (csel64 rd rn rm cc)) = 0 \<and>
   fld 5 5 (fetch (csel64 rd rn rm cc)) = take_bit 5 (ucast rn) OR take_bit 5 (push_bit 1 (ucast rm)) \<and>
   fld 16 5 (fetch (csel rd rn rm cc)) = take_bit 5 (ucast rm) \<and>
   fld 5 5 (fetch (csel rd rn rm cc)) = take_bit 5 (ucast rn)"
proof -
  have "take_bit 5 (push_bit 1 (take_bit 5 x)) = take_bit 5 (push_bit 1 x)" for x :: u32
    by (simp only: take_bit_push_bit take_bit_take_bit) (simp add: min_def)
  then have "take_bit 5 (take_bit 5 x * 2) = take_bit 5 (x * 2)" for x :: u32
    by simp
  then show ?thesis by (simp add: csel64_def csel_def fld_simps mask_simps)
qed

text \<open>
  \<open>tbz\<close> and \<open>tbnz\<close> on a bit of the upper half lose every operand: the conditional
  expression in the source spans the whole rest of the word, so the result tests bit 32 of
  \<open>x0\<close> and branches to itself.
\<close>

theorem tbz_upper_half:
  assumes "bit k 5"
  shows "decode (fetch (tbz rt k off)) = Some (TestBranch False 0 32 0) \<and>
    decode (fetch (tbnz rt k off)) = Some (TestBranch True 0 32 0)"
proof -
  have "(ucast k AND 32 :: u32) \<noteq> 0"
    using assms bit_iff_and_push_bit_not_eq_0 [of "ucast k :: u32" 5] by (simp add: bit_simps)
  then show ?thesis by (simp add: tbz_def tbnz_def decode_simps split del: if_split) 
qed

theorem tbz_upper_half_witness:
  "decode (fetch (tbz 7 40 100)) = Some (TestBranch False 0 32 0)"
  using tbz_upper_half [of 40 7 100] by simp

text \<open>The opcodes of the architecture manual for operations on three registers.\<close>

definition three_reg_opcodes :: "((u8 \<Rightarrow> u8 \<Rightarrow> u8 \<Rightarrow> u32) \<times> u32) list" where
  "three_reg_opcodes =
    [(adc_i, 0x1a000000), (adc64, 0x9a000000), (adcs, 0x3a000000),
     (adcs64, 0xba000000), (sbc_i, 0x5a000000), (sbc64, 0xda000000),
     (sbcs, 0x7a000000), (sbcs64, 0xfa000000), (asrv, 0x1ac02800),
     (asrv64, 0x9ac02800), (lslv, 0x1ac02000), (lslv64, 0x9ac02000),
     (lsrv, 0x1ac02400), (lsrv64, 0x9ac02400), (rorv, 0x1ac02c00),
     (rorv64, 0x9ac02c00), (sdiv_i, 0x1ac00c00), (sdiv64, 0x9ac00c00),
     (udiv_i, 0x1ac00800), (udiv64, 0x9ac00800), (mul_i, 0x1b007c00),
     (mul64, 0x9b007c00), (mneg_i, 0x1b00fc00), (mneg64, 0x9b00fc00),
     (smull, 0x9b207c00), (umull, 0x9ba07c00), (smulh, 0x9b407c00),
     (umulh, 0x9bc07c00), (smnegl, 0x9b20fc00), (umnegl, 0x9ba0fc00)]"

definition three_reg_fields :: "u32 \<Rightarrow> u32 \<Rightarrow> u8 \<Rightarrow> u8 \<Rightarrow> u8 \<Rightarrow> bool" where
  "three_reg_fields w op rd rn rm \<longleftrightarrow>
     fld 0 5 w = take_bit 5 (ucast rd) \<and> fld 5 5 w = take_bit 5 (ucast rn) \<and>
     fld 16 5 w = take_bit 5 (ucast rm) \<and> fld 10 6 w = fld 10 6 op \<and> fld 21 11 w = fld 21 11 op"

lemmas mul_encoders =
  mul_i_def mul64_def mneg_i_def mneg64_def smull_def umull_def smulh_def umulh_def smnegl_def
  umnegl_def madd_i_def madd64_def msub_i_def msub64_def smaddl_def smsubl_def umaddl_def umsubl_def

lemmas alu_encoders =
  adc_i_def adc64_def adcs_def adcs64_def sbc_i_def sbc64_def sbcs_def sbcs64_def asrv_def
  asrv64_def lslv_def lslv64_def lsrv_def lsrv64_def rorv_def rorv64_def sdiv_i_def sdiv64_def
  udiv_i_def udiv64_def

text \<open>
  The encoders for operations on three registers put the destination at bit 0, the
  first source at bit 5, the second at bit 16, and leave the opcode of the architecture
  manual around them untouched, for all register numbers.
\<close>

theorem three_register_encodings:
  "list_all (\<lambda>(f, op). three_reg_fields (fetch (f rd rn rm)) op rd rn rm) three_reg_opcodes"
  unfolding three_reg_opcodes_def list.pred_inject prod.case
  by (intro conjI TrueI; simp add: three_reg_fields_def alu_encoders mul_encoders fld_simps mask_simps)

end
