(* ===== verification/Flags.thy ===== *)
theory Flags
  imports RA_Load A64_Alias
begin

text \<open>
  The emitters that keep the emulated condition codes (\<open>emu68/include/A64.h\<close>): they copy
  the host's NZCV flags into the register that caches the CCR, clear or set flags by mask,
  and derive the FPU condition byte. A mask is in the m68k order (C, V, Z, N, X from bit
  0); the register holds C and V swapped, so that its low four bits are in the host's
  order. \<open>nd\<close> is the mask \<open>*not_done\<close>; each emitter returns it updated.
\<close>

section \<open>The code\<close>

definition EMIT_GetFPUFlags :: "u8 \<Rightarrow> jit \<Rightarrow> jit" where
  "EMIT_GetFPUFlags fpsr j =
     (case RA_AllocARMRegister j of (tmp_reg, j1) \<Rightarrow>
        RA_FreeARMRegister tmp_reg
          (EMIT [bic_immed fpsr fpsr 4 8, get_nzcv tmp_reg, bic_immed tmp_reg tmp_reg 1 3,
                 orr_reg fpsr fpsr tmp_reg LSR 4] (j1\<lparr>host_flags := 0\<rparr>)))"

definition EMIT_ClearFlags :: "u8 \<Rightarrow> u8 \<Rightarrow> jit \<Rightarrow> jit" where
  "EMIT_ClearFlags cc flags j =
     (if flags = 0 then j
      else if flags = 1 then EMIT [bic_immed cc cc 1 0] j
      else if flags = 3 then EMIT [bic_immed cc cc 2 0] j
      else if flags = 7 then EMIT [bic_immed cc cc 3 0] j
      else if flags = 15 then EMIT [bic_immed cc cc 4 0] j
      else if flags = 31 then EMIT [bic_immed cc cc 5 0] j
      else if flags = 2 then EMIT [bic_immed cc cc 1 31] j
      else if flags = 6 then EMIT [bic_immed cc cc 2 31] j
      else if flags = 14 then EMIT [bic_immed cc cc 3 31] j
      else if flags = 30 then EMIT [bic_immed cc cc 4 31] j
      else if flags = 4 then EMIT [bic_immed cc cc 1 30] j
      else if flags = 12 then EMIT [bic_immed cc cc 2 30] j
      else if flags = 28 then EMIT [bic_immed cc cc 3 30] j
      else if flags = 8 then EMIT [bic_immed cc cc 1 29] j
      else if flags = 24 then EMIT [bic_immed cc cc 2 29] j
      else if flags = 16 then EMIT [bic_immed cc cc 1 28] j
      else (case RA_AllocARMRegister j of (tmp_reg, j1) \<Rightarrow>
        RA_FreeARMRegister tmp_reg
          (EMIT [mov_immed_u16 tmp_reg (ucast flags) 0, bic_reg cc cc tmp_reg LSL 0] j1)))"

definition EMIT_SetFlags :: "u8 \<Rightarrow> u8 \<Rightarrow> jit \<Rightarrow> jit" where
  "EMIT_SetFlags cc flags j =
     (if flags = 0 then j
      else if flags = 1 then EMIT [orr_immed cc cc 1 0] j
      else if flags = 3 then EMIT [orr_immed cc cc 2 0] j
      else if flags = 7 then EMIT [orr_immed cc cc 3 0] j
      else if flags = 15 then EMIT [orr_immed cc cc 4 0] j
      else if flags = 31 then EMIT [orr_immed cc cc 5 0] j
      else if flags = 2 then EMIT [orr_immed cc cc 1 31] j
      else if flags = 6 then EMIT [orr_immed cc cc 2 31] j
      else if flags = 14 then EMIT [orr_immed cc cc 3 31] j
      else if flags = 30 then EMIT [orr_immed cc cc 4 31] j
      else if flags = 4 then EMIT [orr_immed cc cc 1 30] j
      else if flags = 12 then EMIT [orr_immed cc cc 2 30] j
      else if flags = 28 then EMIT [orr_immed cc cc 3 30] j
      else if flags = 8 then EMIT [orr_immed cc cc 1 29] j
      else if flags = 24 then EMIT [orr_immed cc cc 2 29] j
      else if flags = 16 then EMIT [orr_immed cc cc 1 28] j
      else (case RA_AllocARMRegister j of (tmp_reg, j1) \<Rightarrow>
        RA_FreeARMRegister tmp_reg
          (EMIT [mov_immed_u16 tmp_reg (ucast flags) 0, orr_reg cc cc tmp_reg LSL 0] j1)))"

text \<open>The case of all five flags sets four, as the source does.\<close>

definition EMIT_SetFlagsConditional :: "u8 \<Rightarrow> u8 \<Rightarrow> u8 \<Rightarrow> jit \<Rightarrow> jit" where
  "EMIT_SetFlagsConditional cc flags cond j0 =
     (case RA_AllocARMRegister j0 of (tmp_reg, j) \<Rightarrow> RA_FreeARMRegister tmp_reg
     (if flags = 0 then j
      else if flags = 1 then EMIT [orr_immed tmp_reg cc 1 0, csel cc tmp_reg cc cond] j
      else if flags = 3 then EMIT [orr_immed tmp_reg cc 2 0, csel cc tmp_reg cc cond] j
      else if flags = 7 then EMIT [orr_immed tmp_reg cc 3 0, csel cc tmp_reg cc cond] j
      else if flags = 15 then EMIT [orr_immed tmp_reg cc 4 0, csel cc tmp_reg cc cond] j
      else if flags = 31 then EMIT [orr_immed tmp_reg cc 4 0, csel cc tmp_reg cc cond] j
      else if flags = 2 then EMIT [orr_immed tmp_reg cc 1 31, csel cc tmp_reg cc cond] j
      else if flags = 6 then EMIT [orr_immed tmp_reg cc 2 31, csel cc tmp_reg cc cond] j
      else if flags = 14 then EMIT [orr_immed tmp_reg cc 3 31, csel cc tmp_reg cc cond] j
      else if flags = 30 then EMIT [orr_immed tmp_reg cc 4 31, csel cc tmp_reg cc cond] j
      else if flags = 4 then EMIT [orr_immed tmp_reg cc 1 30, csel cc tmp_reg cc cond] j
      else if flags = 12 then EMIT [orr_immed tmp_reg cc 2 30, csel cc tmp_reg cc cond] j
      else if flags = 28 then EMIT [orr_immed tmp_reg cc 3 30, csel cc tmp_reg cc cond] j
      else if flags = 8 then EMIT [orr_immed tmp_reg cc 1 29, csel cc tmp_reg cc cond] j
      else if flags = 24 then EMIT [orr_immed tmp_reg cc 2 29, csel cc tmp_reg cc cond] j
      else if flags = 16 then EMIT [orr_immed tmp_reg cc 1 28, csel cc tmp_reg cc cond] j
      else EMIT [mov_immed_u16 tmp_reg (ucast flags) 0, csel tmp_reg tmp_reg 31 cond,
                 orr_reg cc cc tmp_reg LSL 0] j))"

definition EMIT_GetNZ00 :: "u8 \<Rightarrow> u8 \<Rightarrow> jit \<Rightarrow> u8 \<times> jit" where
  "EMIT_GetNZ00 cc nd j =
     (let j0 = j\<lparr>host_flags := nd AND SR_NZ\<rparr>
      in if nd = 0 then (nd, j0)
      else case RA_AllocARMRegister j0 of (tmp, j1) \<Rightarrow>
      (case if popcount nd = 1 then
         (if nd = 1 then (nd AND NOT 1, EMIT [bic_immed cc cc 1 31] j1)
         else if nd = 2 then (nd AND NOT 2, EMIT [bic_immed cc cc 1 0] j1)
         else if nd = 4 then (nd AND NOT 4, EMIT [cset tmp A64_CC_EQ, bfi cc tmp 2 1] j1)
         else if nd = 8 then (nd AND NOT 8, EMIT [cset tmp A64_CC_MI, bfi cc tmp 3 1] j1)
         else (nd, j1))
       else case RA_AllocARMRegister j1 of (tmp_2, j2) \<Rightarrow>
        (nd AND 0x10, RA_FreeARMRegister tmp_2
          (if nd AND SR_NZ = SR_NZ
           then EMIT [cinc tmp 31 A64_CC_LE, cinc tmp tmp A64_CC_MI, bfi cc tmp 2 2]
                  (if nd AND SR_VC \<noteq> 0 then EMIT [bic_immed cc cc 4 0] j2 else j2)
           else if nd AND SR_NZ = SR_Z
           then EMIT [bic_immed cc cc 4 0, orr_immed tmp cc 1 30, csel cc tmp cc A64_CC_EQ] j2
           else if nd AND SR_NZ = SR_N
           then EMIT [bic_immed cc cc 4 0, orr_immed tmp cc 1 29, csel cc tmp cc A64_CC_MI] j2
           else j2))
       of (nd', j3) \<Rightarrow> (nd', RA_FreeARMRegister tmp j3)))"

definition EMIT_GetNZxx :: "u8 \<Rightarrow> u8 \<Rightarrow> jit \<Rightarrow> u8 \<times> jit" where
  "EMIT_GetNZxx cc nd j =
     (let j0 = j\<lparr>host_flags := nd AND SR_NZ\<rparr>
      in if nd = 0 then (nd, j0)
      else case RA_AllocARMRegister j0 of (tmp, j1) \<Rightarrow>
      (case if popcount nd = 1 then
         (if nd = 4 then (nd AND NOT 4, EMIT [cset tmp A64_CC_EQ, bfi cc tmp 2 1] j1)
         else if nd = 8 then (nd AND NOT 8, EMIT [cset tmp A64_CC_MI, bfi cc tmp 3 1] j1)
         else (nd, j1))
       else (nd AND 0x13, EMIT [cinc tmp 31 A64_CC_LE, cinc tmp tmp A64_CC_MI, bfi cc tmp 2 2] j1)
       of (nd', j3) \<Rightarrow> (nd', RA_FreeARMRegister tmp j3)))"

text \<open>
  The last step of the next four: what is left of the mask is cleared, with the two low
  bits swapped into the register's order.
\<close>

definition swap_vc :: "u8 \<Rightarrow> u8" where
  "swap_vc f = (if f AND 3 \<noteq> 0 \<and> f AND 3 < 3 then f XOR 3 else f)"

definition clear_rest :: "u8 \<Rightarrow> u8 \<Rightarrow> jit \<Rightarrow> jit" where
  "clear_rest cc nd j = (if nd \<noteq> 0 then EMIT_ClearFlags cc (swap_vc nd) j else j)"

definition EMIT_GetNZCV :: "u8 \<Rightarrow> u8 \<Rightarrow> jit \<Rightarrow> u8 \<times> jit" where
  "EMIT_GetNZCV cc nd j =
     (let j0 = j\<lparr>host_flags := nd AND SR_NZVC\<rparr>
      in if nd = 0 then (nd, j0)
      else case RA_AllocARMRegister j0 of (tmp, j1) \<Rightarrow>
      (case if popcount nd = 1 then
         (if nd = 1 then (nd AND NOT 1, EMIT [cset tmp A64_CC_CS, bfi cc tmp 1 1] j1)
         else if nd = 2 then (nd AND NOT 2, EMIT [cset tmp A64_CC_VS, bfi cc tmp 0 1] j1)
         else if nd = 4 then (nd AND NOT 4, EMIT [cset tmp A64_CC_EQ, bfi cc tmp 2 1] j1)
         else if nd = 8 then (nd AND NOT 8, EMIT [cset tmp A64_CC_MI, bfi cc tmp 3 1] j1)
         else (nd, j1))
       else (nd AND 0x10, EMIT [get_nzcv tmp, bfxil cc tmp 28 4] j1)
       of (nd', j3) \<Rightarrow> (nd', RA_FreeARMRegister tmp (clear_rest cc nd' j3))))"

definition EMIT_GetNZCVX :: "u8 \<Rightarrow> u8 \<Rightarrow> jit \<Rightarrow> u8 \<times> jit" where
  "EMIT_GetNZCVX cc nd j =
     (let j0 = j\<lparr>host_flags := nd AND SR_NZVC\<rparr>
      in if nd = 0 then (nd, j0)
      else case RA_AllocARMRegister j0 of (tmp, j1) \<Rightarrow>
      (case if popcount nd = 1 then
         (if nd = 1 then (nd AND NOT 1, EMIT [cset tmp A64_CC_CS, bfi cc tmp 1 1] j1)
         else if nd = 2 then (nd AND NOT 2, EMIT [cset tmp A64_CC_VS, bfi cc tmp 0 1] j1)
         else if nd = 4 then (nd AND NOT 4, EMIT [cset tmp A64_CC_EQ, bfi cc tmp 2 1] j1)
         else if nd = 8 then (nd AND NOT 8, EMIT [cset tmp A64_CC_MI, bfi cc tmp 3 1] j1)
         else if nd = 16 then (nd AND NOT 16, EMIT [cset tmp A64_CC_CS, bfi cc tmp 4 1] j1)
         else (nd, j1))
       else if 2 < popcount nd then
         (0, (if nd AND 0x10 \<noteq> 0 then EMIT [cset tmp A64_CC_CS, bfi cc tmp 4 1] else id)
               (EMIT [get_nzcv tmp, bfxil cc tmp 28 4] j1))
       else (nd, j1)
       of (nd', j3) \<Rightarrow> (nd', RA_FreeARMRegister tmp (clear_rest cc nd' j3))))"

definition EMIT_GetNZnCV :: "u8 \<Rightarrow> u8 \<Rightarrow> jit \<Rightarrow> u8 \<times> jit" where
  "EMIT_GetNZnCV cc nd j =
     (let j0 = j\<lparr>host_flags := nd AND SR_NZV\<rparr>
      in if nd = 0 then (nd, j0)
      else case RA_AllocARMRegister j0 of (tmp, j1) \<Rightarrow>
      (case if popcount nd = 1 then
         (if nd = 1 then (nd AND NOT 1, EMIT [cset tmp A64_CC_CC, bfi cc tmp 1 1] j1)
         else if nd = 2 then (nd AND NOT 2, EMIT [cset tmp A64_CC_VS, bfi cc tmp 0 1] j1)
         else if nd = 4 then (nd AND NOT 4, EMIT [cset tmp A64_CC_EQ, bfi cc tmp 2 1] j1)
         else if nd = 8 then (nd AND NOT 8, EMIT [cset tmp A64_CC_MI, bfi cc tmp 3 1] j1)
         else (nd, j1))
       else (nd AND 0x10, EMIT [bfxil cc tmp 28 4]
         ((if nd AND 1 \<noteq> 0 then EMIT [eor_immed tmp tmp 1 3] else id) (EMIT [get_nzcv tmp] j1)))
       of (nd', j3) \<Rightarrow> (nd', RA_FreeARMRegister tmp (clear_rest cc nd' j3))))"

definition EMIT_GetNZnCVX :: "u8 \<Rightarrow> u8 \<Rightarrow> jit \<Rightarrow> u8 \<times> jit" where
  "EMIT_GetNZnCVX cc nd j =
     (let j0 = j\<lparr>host_flags := nd AND SR_NZV\<rparr>
      in if nd = 0 then (nd, j0)
      else case RA_AllocARMRegister j0 of (tmp, j1) \<Rightarrow>
      (case if popcount nd = 1 then
         (if nd = 1 then (nd AND NOT 1, EMIT [cset tmp A64_CC_CC, bfi cc tmp 1 1] j1)
         else if nd = 2 then (nd AND NOT 2, EMIT [cset tmp A64_CC_VS, bfi cc tmp 0 1] j1)
         else if nd = 4 then (nd AND NOT 4, EMIT [cset tmp A64_CC_EQ, bfi cc tmp 2 1] j1)
         else if nd = 8 then (nd AND NOT 8, EMIT [cset tmp A64_CC_MI, bfi cc tmp 3 1] j1)
         else if nd = 16 then (nd AND NOT 16, EMIT [cset tmp A64_CC_CC, bfi cc tmp 4 1] j1)
         else (nd, j1))
       else if 2 < popcount nd then
         (0, (if nd AND 0x10 \<noteq> 0 then EMIT [cset tmp A64_CC_CC, bfi cc tmp 4 1] else id)
               (EMIT [bfxil cc tmp 28 4]
                 ((if nd AND 0x11 \<noteq> 0 then EMIT [eor_immed tmp tmp 1 3] else id)
                   (EMIT [get_nzcv tmp] j1))))
       else (nd, j1)
       of (nd', j3) \<Rightarrow> (nd', RA_FreeARMRegister tmp (clear_rest cc nd' j3))))"

section \<open>The end of an addition and of a subtraction\<close>

text \<open>
  What \<open>EMIT_ADD\<close> (\<open>emu68/src/M68k_LINED.c\<close>) and \<open>EMIT_SUB\<close> (\<open>emu68/src/M68k_LINE9.c\<close>) do
  with the mask of flags that later instructions need: flags the copying emitter left in
  the mask are clear by then and are set on their conditions.
\<close>

definition SR_X :: u8 where "SR_X = 0x10"
definition SR_Calt :: u8 where "SR_Calt = 0x02"
definition SR_Valt :: u8 where "SR_Valt = 0x01"

definition set_rest :: "u8 \<Rightarrow> u8 \<Rightarrow> u8 \<Rightarrow> jit \<Rightarrow> jit" where
  "set_rest carry cc um j =
     (let j1 = (if um AND SR_Z \<noteq> 0 then EMIT_SetFlagsConditional cc SR_Z A64_CC_EQ j else j);
          j2 = (if um AND SR_N \<noteq> 0 then EMIT_SetFlagsConditional cc SR_N A64_CC_MI j1 else j1);
          j3 = (if um AND SR_V \<noteq> 0 then EMIT_SetFlagsConditional cc SR_Valt A64_CC_VS j2 else j2)
      in if um AND (SR_X OR SR_C) \<noteq> 0 then
           if um AND (SR_X OR SR_C) = SR_X then EMIT_SetFlagsConditional cc SR_X carry j3
           else if um AND (SR_X OR SR_C) = SR_C then EMIT_SetFlagsConditional cc SR_Calt carry j3
           else EMIT_SetFlagsConditional cc (SR_Calt OR SR_X) carry j3
         else j3)"

definition update_flags_add :: "u8 \<Rightarrow> jit \<Rightarrow> jit" where
  "update_flags_add update_mask j =
     (if update_mask \<noteq> 0 then
        (case RA_ModifyCC j of (cc, j1) \<Rightarrow>
         case (if update_mask AND SR_X \<noteq> 0 then EMIT_GetNZCVX cc update_mask j1
               else EMIT_GetNZCV cc update_mask j1) of (um, j2) \<Rightarrow>
           set_rest A64_CC_CS cc um j2)
      else j)"

definition update_flags_sub :: "u8 \<Rightarrow> jit \<Rightarrow> jit" where
  "update_flags_sub update_mask j =
     (if update_mask \<noteq> 0 then
        (case RA_ModifyCC j of (cc, j1) \<Rightarrow>
         case (if update_mask AND SR_X \<noteq> 0 then EMIT_GetNZnCVX cc update_mask j1
               else EMIT_GetNZnCV cc update_mask j1) of (um, j2) \<Rightarrow>
           set_rest A64_CC_CC cc um j2)
      else j)"

end
