(* ===== verification/Flag_Lemmas.thy ===== *)
theory Flag_Lemmas
  imports Flags
begin

text \<open>
  Symbolic execution of the flag emitters. \<open>free_temps n j\<close> says that \<open>n\<close> temporaries are
  free, so that \<open>n\<close> allocations evict nothing; \<open>updates\<close> is the contract of an emitter
  that writes the CCR register: the emitted code runs, and only the registers named and free
  temporaries change.
\<close>

section \<open>Free temporaries\<close>

definition free_temps :: "nat \<Rightarrow> jit \<Rightarrow> bool" where
  "free_temps n j \<longleftrightarrow> n \<le> card (arm_temps - live_temps j)"

lemma finite_arm_temps: "finite arm_temps" by (rule temps.fin_avail)

text \<open>What the state records about the cached status registers.\<close>

definition status_part :: "jit \<Rightarrow> (u8 \<times> u8) list" where
  "status_part j = [(reg_CC j, mod_CC j), (reg_FPCR j, mod_FPCR j), (reg_FPSR j, mod_FPSR j),
     (reg_CTX j, 0)]"

lemma status_part_EMIT [simp]: "status_part (EMIT ws j) = status_part j"
  "status_part (RA_FreeARMRegister r j) = status_part j"
  by (simp_all add: status_part_def)

lemma status_part_regs: "status_part j' = status_part j \<Longrightarrow> status_regs j' = status_regs j"
  by (simp add: status_part_def status_regs_def)

text \<open>An allocation that finds a free register evicts nothing.\<close>

definition alloc_result :: "jit \<Rightarrow> u8 \<Rightarrow> jit \<Rightarrow> bool" where
  "alloc_result j r j' \<longleftrightarrow> RA_AllocARMRegister j = (r, j') \<and> r \<in> arm_temps \<and> r \<notin> live_temps j \<and>
     live_temps j' = insert r (live_temps j) \<and> tc_code j' = tc_code j \<and>
     host_flags j' = host_flags j \<and> reg_CC j' = reg_CC j \<and> mod_CC j' = mod_CC j \<and>
     status_part j' = status_part j \<and> pc_rel j' = pc_rel j \<and> reg_FPSR j' = reg_FPSR j"

lemma free_temps_alloc:
  assumes "free_temps (Suc n) j"
  obtains r j' where "alloc_result j r j'" "free_temps n j'"
proof -
  from assms have "card (arm_temps - live_temps j) \<noteq> 0"
    unfolding free_temps_def by linarith
  then have "arm_temps - live_temps j \<noteq> {}" by (metis card.empty)
  then have "\<not> arm_temps \<subseteq> live_temps j" by blast
  then obtain r j' where a: "int_arm_alloc_reg j = (r, j')" "r \<in> arm_temps" "r \<notin> live_temps j"
      "live_temps j' = insert r (live_temps j)" by (rule temps.alloc_succeeds)
  have "r \<noteq> 0xff" using arm_temps_less [OF a(2)] by simp
  with a have "alloc_result j r j'"
    by (simp add: alloc_result_def RA_AllocARMRegister_def int_alloc_fields [OF a(1)] status_part_def)
  moreover have "free_temps n j'"
  proof -
    have "arm_temps - live_temps j' = (arm_temps - live_temps j) - {r}" using a(4) by blast
    with a(2,3) have "card (arm_temps - live_temps j') = card (arm_temps - live_temps j) - 1"
      by (simp add: card_Diff_singleton)
    with assms show ?thesis by (simp add: free_temps_def)
  qed
  ultimately show thesis by (rule that)
qed

lemma free_temps_mono: "free_temps n j \<Longrightarrow> k \<le> n \<Longrightarrow> free_temps k j"
  by (simp add: free_temps_def)

lemma live_Free_insert:
  "r \<in> arm_temps \<Longrightarrow> r \<notin> L \<Longrightarrow> live_temps j = insert r L \<Longrightarrow> live_temps (RA_FreeARMRegister r j) = L"
  by (auto simp: live_Free)

lemma live_temps_host [simp]: "live_temps (j\<lparr>host_flags := h\<rparr>) = live_temps j"
  by (simp add: live_temps_def)

lemma free_temps_host [simp]: "free_temps n (j\<lparr>host_flags := h\<rparr>) = free_temps n j"
  by (simp add: free_temps_def)

lemma live_temps_arm: "r \<in> live_temps j \<Longrightarrow> r \<in> arm_temps"
  by (simp add: live_temps_def)

section \<open>The contract of an emitter that updates the CCR register\<close>

definition updates :: "u8 set \<Rightarrow> jit \<Rightarrow> mstate \<Rightarrow> jit \<Rightarrow> mstate \<Rightarrow> bool" where
  "updates S j m j' m' \<longleftrightarrow> produces j m j' m' \<and>
     (\<forall>r. r \<notin> S \<longrightarrow> r \<notin> arm_temps - live_temps j \<longrightarrow> rdX m' r = rdX m r) \<and>
     m_simd m' = m_simd m \<and> m_mem m' = m_mem m \<and>
     m_n m' = m_n m \<and> m_z m' = m_z m \<and> m_c m' = m_c m \<and> m_v m' = m_v m \<and>
     live_temps j' = live_temps j \<and> reg_CC j' = reg_CC j \<and> status_part j' = status_part j"

lemma updates_refl:
  "tc_code j' = tc_code j \<Longrightarrow> live_temps j' = live_temps j \<Longrightarrow> reg_CC j' = reg_CC j \<Longrightarrow>
   status_part j' = status_part j \<Longrightarrow> updates S j m j' m"
  by (simp add: updates_def produces_same)

lemma updates_trans:
  assumes "updates S j m j1 m1" "updates S j1 m1 j2 m2"
  shows "updates S j m j2 m2"
proof -
  from assms have "produces j m j2 m2" unfolding updates_def using produces_trans by blast
  with assms show ?thesis by (simp add: updates_def)
qed

lemma updates_mono: "updates S j m j' m' \<Longrightarrow> S \<subseteq> T \<Longrightarrow> updates T j m j' m'"
  by (auto simp: updates_def)

lemma updates_host [simp]:
  "updates S (j\<lparr>host_flags := h\<rparr>) m j' m' = updates S j m j' m'"
  "updates S j m (j'\<lparr>host_flags := h\<rparr>) m' = updates S j m j' m'"
  by (simp_all add: updates_def produces_def status_part_def)

lemma updates_EMIT:
  assumes "no_branches ws" "run ws m = Some m'" "\<And>s. \<forall>x\<in>S. x \<noteq> s \<Longrightarrow> rdX m' s = rdX m s"
    "m_simd m' = m_simd m" "m_mem m' = m_mem m" "m_n m' = m_n m" "m_z m' = m_z m"
    "m_c m' = m_c m" "m_v m' = m_v m"
  shows "updates S j m (EMIT ws j) m'"
proof -
  have "rdX m' s = rdX m s" if "s \<notin> S" for s using assms(3) [of s] that by blast
  with assms show ?thesis by (simp add: updates_def produces_def)
qed

text \<open>A temporary that is allocated around an emitter and freed after it leaves no trace.\<close>

lemma updates_alloc:
  assumes "alloc_result j r j1" "updates (insert r S) j1 m j' m'"
  shows "updates S j m (RA_FreeARMRegister r j') m'"
proof -
  have "live_temps (RA_FreeARMRegister r j') = live_temps j"
    using assms live_Free_insert [of r "live_temps j" j'] by (simp add: updates_def alloc_result_def)
  moreover have "produces j m j' m'"
    using assms by (simp add: updates_def alloc_result_def produces_def)
  moreover have "rdX m' s = rdX m s" if "s \<notin> S" "s \<notin> arm_temps - live_temps j" for s
    using assms that by (cases "s = r") (auto simp: updates_def alloc_result_def)
  ultimately show ?thesis using assms by (simp add: updates_def alloc_result_def)
qed

lemma updates_run: "updates S j m j' m' \<Longrightarrow> run (emitted j j') m = Some m'"
  by (simp add: updates_def produces_run)

section \<open>Single instructions\<close>

lemma cond_holds_other [simp]:
  "cond_holds c (wrW r v m) = cond_holds c m" "cond_holds c (wrX r w m) = cond_holds c m"
  "cond_holds c (m\<lparr>m_pc := p\<rparr>) = cond_holds c m"
  by (simp_all add: cond_holds_def)

lemma cond_values [simp]:
  "cond_holds A64_CC_EQ m = m_z m" "cond_holds A64_CC_NE m = (\<not> m_z m)"
  "cond_holds A64_CC_CS m = m_c m" "cond_holds A64_CC_CC m = (\<not> m_c m)"
  "cond_holds A64_CC_MI m = m_n m" "cond_holds A64_CC_PL m = (\<not> m_n m)"
  "cond_holds A64_CC_VS m = m_v m" "cond_holds A64_CC_VC m = (\<not> m_v m)"
  "cond_holds A64_CC_HI m = (m_c m \<and> \<not> m_z m)" "cond_holds A64_CC_LS m = (m_z m \<or> \<not> m_c m)"
  "cond_holds A64_CC_GE m = (m_n m = m_v m)" "cond_holds A64_CC_LT m = (m_n m \<noteq> m_v m)"
  "cond_holds A64_CC_GT m = (m_n m = m_v m \<and> \<not> m_z m)"
  "cond_holds A64_CC_LE m = (m_z m \<or> m_n m \<noteq> m_v m)"
  by (auto simp: cond_holds_def a64_cc_defs)

lemma cc_bounds [simp]:
  "A64_CC_EQ < 14" "A64_CC_NE < 14" "A64_CC_CS < 14" "A64_CC_CC < 14" "A64_CC_MI < 14"
  "A64_CC_PL < 14" "A64_CC_VS < 14" "A64_CC_VC < 14" "A64_CC_LE < 14" "A64_CC_GT < 14"
  "take_bit 4 A64_CC_EQ = A64_CC_EQ" "take_bit 4 A64_CC_MI = A64_CC_MI"
  "take_bit 4 A64_CC_VS = A64_CC_VS" "take_bit 4 A64_CC_CS = A64_CC_CS"
  "take_bit 4 A64_CC_CC = A64_CC_CC" "take_bit 4 A64_CC_NE = A64_CC_NE"
  by (simp_all add: a64_cc_defs)

text \<open>
  A register number that the emitters pass around: a temporary, or one of the m68k
  registers; never 31.
\<close>

definition is_reg :: "u8 \<Rightarrow> bool" where "is_reg r \<longleftrightarrow> r < 31"

lemma arm_temps_is_reg: "r \<in> arm_temps \<Longrightarrow> is_reg r"
  by (simp add: is_reg_def arm_temps_def word_less_nat_alt)

lemma is_regD: "is_reg r \<Longrightarrow> r < 32" "is_reg r \<Longrightarrow> r \<noteq> 31" "is_reg r \<Longrightarrow> take_bit 5 r = r"
proof -
  show a: "r < 32" if "is_reg r" using that less_trans [of r 31 32] by (simp add: is_reg_def)
  show "r \<noteq> 31" if "is_reg r" using that by (auto simp: is_reg_def)
  show "take_bit 5 r = r" if "is_reg r" using a [OF that] by (rule take_bit_5_reg)
qed

lemmas step_run = step_writes_def [THEN iffD1, THEN spec]

lemma run_cset:
  "is_reg rd \<Longrightarrow> c < 14 \<Longrightarrow> run (cset rd c # ws) m =
     run ws ((wrW rd (of_bool (cond_holds c m)) m)\<lparr>m_pc := m_pc m + 4\<rparr>)"
  using step_run [OF cset_step [of c rd m]] is_regD(1) by simp

lemma run_cinc:
  "is_reg rd \<Longrightarrow> rn < 32 \<Longrightarrow> c < 14 \<Longrightarrow> run (cinc rd rn c # ws) m =
     run ws ((wrW rd (rdW m rn + of_bool (cond_holds c m)) m)\<lparr>m_pc := m_pc m + 4\<rparr>)"
  using step_run [OF cinc_step [of c rd rn m]] is_regD(1) by simp

lemma run_csel:
  "is_reg rd \<Longrightarrow> rn < 32 \<Longrightarrow> rm < 32 \<Longrightarrow> run (csel rd rn rm c # ws) m = run ws
     ((wrW rd (if cond_holds (take_bit 4 c) m then rdW m rn else rdW m rm) m)\<lparr>m_pc := m_pc m + 4\<rparr>)"
  using step_run [OF csel_step [of rd rn rm c m]] is_regD(1) by simp

lemma run_bic_immed:
  "is_reg rd \<Longrightarrow> is_reg rn \<Longrightarrow> 1 \<le> unat w \<Longrightarrow> unat w \<le> 31 \<Longrightarrow> unat r < 32 \<Longrightarrow>
   run (bic_immed rd rn w r # ws) m = run ws
     ((wrW rd (rdW m rn AND NOT (word_rotr (unat r) (mask (unat w)))) m)\<lparr>m_pc := m_pc m + 4\<rparr>)"
  using step_run [OF bic_step [of w r rd rn m]] is_regD(1) by (simp add: is_reg_def)

lemma run_orr_immed:
  "is_reg rd \<Longrightarrow> is_reg rn \<Longrightarrow> 1 \<le> unat w \<Longrightarrow> unat w \<le> 31 \<Longrightarrow>
   run (orr_immed rd rn w r # ws) m = run ws
     ((wrW rd (rdW m rn OR word_rotr (unat r) (mask (unat w))) m)\<lparr>m_pc := m_pc m + 4\<rparr>)"
  using step_run [OF orr_immed_step [of w rd rn r m]] is_regD(1) by (simp add: is_reg_def)

lemma run_bfi_reg:
  "is_reg rd \<Longrightarrow> is_reg rn \<Longrightarrow> 1 \<le> unat w \<Longrightarrow> unat l + unat w \<le> 32 \<Longrightarrow> run (bfi rd rn l w # ws) m =
    run ws ((wrW rd (bfi_val (unat l) (unat w) (rdW m rn) (rdW m rd)) m)\<lparr>m_pc := m_pc m + 4\<rparr>)"
  using run_bfi [of w l rd rn ws m] is_regD(1) by simp

lemma run_bfxil_reg:
  "is_reg rd \<Longrightarrow> is_reg rn \<Longrightarrow> 1 \<le> unat w \<Longrightarrow> unat l + unat w \<le> 32 \<Longrightarrow>
   run (bfxil rd rn l w # ws) m =
    run ws ((wrW rd (bfi_val 0 (unat w) (drop_bit (unat l) (rdW m rn)) (rdW m rd)) m)
      \<lparr>m_pc := m_pc m + 4\<rparr>)"
  using run_bfxil [of w l rd rn ws m] is_regD(1) by simp

end
