(* ===== verification/Flag_Props.thy ===== *)
theory Flag_Props
  imports Flag_Lemmas
begin

text \<open>
  Correctness of the flag emitters: for every mask, what the emitted code leaves in the
  CCR register.
\<close>

section \<open>Clearing and setting by mask\<close>

text \<open>The masks that are a run of ones, with the width and rotation the sources give for them.\<close>

definition mask_runs :: "(u8 \<times> u8 \<times> u8) list" where
  "mask_runs = [(1, 1, 0), (3, 2, 0), (7, 3, 0), (15, 4, 0), (31, 5, 0), (2, 1, 31), (6, 2, 31),
     (14, 3, 31), (30, 4, 31), (4, 1, 30), (12, 2, 30), (28, 3, 30), (8, 1, 29), (24, 2, 29),
     (16, 1, 28)]"

lemma mask_runs_ok:
  "list_all (\<lambda>(f, w, r). 1 \<le> unat w \<and> unat w \<le> 31 \<and> unat r < 32 \<and>
     word_rotr (unat r) (mask (unat w)) = (ucast f :: u32)) mask_runs"
  by code_simp

lemma mask_runs_Some:
  assumes "map_of mask_runs f = Some (w, r)"
  shows "1 \<le> unat w" "unat w \<le> 31" "unat r < 32" "word_rotr (unat r) (mask (unat w)) = (ucast f :: u32)"
  using mask_runs_ok map_of_SomeD [OF assms] by (auto simp: list_all_iff)

lemma EMIT_ClearFlags_alt:
  "EMIT_ClearFlags cc flags j =
     (if flags = 0 then j
      else case map_of mask_runs flags of
        Some (w, r) \<Rightarrow> EMIT [bic_immed cc cc w r] j
      | None \<Rightarrow> (case RA_AllocARMRegister j of (tmp_reg, j1) \<Rightarrow>
          RA_FreeARMRegister tmp_reg
            (EMIT [mov_immed_u16 tmp_reg (ucast flags) 0, bic_reg cc cc tmp_reg LSL 0] j1)))"
  unfolding EMIT_ClearFlags_def mask_runs_def 
  by (simp add: if_distrib [where f = "case_option d g" for d g] split del: if_split cong: if_cong)

lemma EMIT_SetFlags_alt:
  "EMIT_SetFlags cc flags j =
     (if flags = 0 then j
      else case map_of mask_runs flags of
        Some (w, r) \<Rightarrow> EMIT [orr_immed cc cc w r] j
      | None \<Rightarrow> (case RA_AllocARMRegister j of (tmp_reg, j1) \<Rightarrow>
          RA_FreeARMRegister tmp_reg
            (EMIT [mov_immed_u16 tmp_reg (ucast flags) 0, orr_reg cc cc tmp_reg LSL 0] j1)))"
  unfolding EMIT_SetFlags_def mask_runs_def 
  by (simp add: if_distrib [where f = "case_option d g" for d g] split del: if_split cong: if_cong)

text \<open>The default path of both: the mask goes through a temporary.\<close>

lemma run_mov_u16:
  "is_reg rd \<Longrightarrow> run (mov_immed_u16 rd v 0 # ws) m =
     run ws ((wrW rd (ucast v) m)\<lparr>m_pc := m_pc m + 4\<rparr>)"
  by (simp add: decode_mov_immed_u16 exec_def is_regD)

lemma run_bic_reg:
  "is_reg rd \<Longrightarrow> is_reg rn \<Longrightarrow> is_reg rm \<Longrightarrow> run (bic_reg rd rn rm LSL 0 # ws) m =
     run ws ((wrW rd (rdW m rn AND NOT (rdW m rm)) m)\<lparr>m_pc := m_pc m + 4\<rparr>)"
  by (simp add: decode_bic_reg exec_def is_regD Let_def)

lemma run_orr_reg:
  "is_reg rd \<Longrightarrow> is_reg rn \<Longrightarrow> is_reg rm \<Longrightarrow> run (orr_reg rd rn rm LSL 0 # ws) m =
     run ws ((wrW rd (rdW m rn OR rdW m rm) m)\<lparr>m_pc := m_pc m + 4\<rparr>)"
  by (simp add: decode_orr_reg exec_def is_regD Let_def)

lemmas run_steps =
  run_cset run_cinc run_csel run_bic_immed run_orr_immed run_bfi_reg run_bfxil_reg run_mov_u16
  run_bic_reg run_orr_reg

declare run.simps(2) [simp del]

text \<open>Straight-line code: the words of the flag emitters never branch.\<close>

lemma no_branchesI:
  "(\<And>w. w \<in> set ws \<Longrightarrow> \<exists>i. decode (fetch w) = Some i \<and> \<not> is_branch i) \<Longrightarrow> no_branches ws"
  by (force simp: no_branches_def list_all_iff)

lemma no_branches_Cons:
  "no_branches (w # ws) \<longleftrightarrow> no_branches [w] \<and> no_branches ws"
  by (simp add: no_branches_def)

lemma no_branches_flag [simp]:
  "no_branches [cset rd c]" "no_branches [cinc rd rn c]" "no_branches [csel rd rn rm c]"
  "no_branches [bic_immed rd rn w r]" "no_branches [orr_immed rd rn w r]"
  "no_branches [eor_immed rd rn w r]" "no_branches [get_nzcv rt]"
  "no_branches [mov_immed_u16 rd v 0]" "no_branches [bic_reg rd rn rm LSL 0]"
  "no_branches [orr_reg rd rn rm LSL 0]" "no_branches [orr_reg rd rn rm LSR 4]" "no_branches []"
  by (simp_all add: no_branches_def decode_cset decode_cinc a64_decode bic_immed_def
      split: option.splits)

lemma no_branches_bf [simp]:
  "1 \<le> unat w \<Longrightarrow> unat l + unat w \<le> 32 \<Longrightarrow> no_branches [bfi rd rn l w]"
  "1 \<le> unat w \<Longrightarrow> unat l + unat w \<le> 32 \<Longrightarrow> no_branches [bfxil rd rn l w]"
proof -
  assume a: "1 \<le> unat w" "unat l + unat w \<le> 32"
  then have l: "unat l < 32" by simp
  show "no_branches [bfi rd rn l w]" "no_branches [bfxil rd rn l w]"
    using a l by (simp_all add: no_branches_def bfi_def bfxil_def decode_bfm less_32_unat
        unat_neg_shift unat_width_1 unat_lsb_width)
qed

lemma free_temps_1: "free_temps 1 j \<Longrightarrow> \<exists>r j1. alloc_result j r j1"
proof -
  assume "free_temps 1 j"
  then have "free_temps (Suc 0) j" by simp
  then show ?thesis by (rule free_temps_alloc) blast
qed

lemma ucast_u8_u16_u32 [simp]: "(ucast (ucast (f :: u8) :: u16) :: u32) = ucast f"
  by (rule bit_word_eqI) (auto simp: bit_simps dest: bit_imp_le_length)

text \<open>Facts about the CCR register and a temporary that the proofs below start from.\<close>

lemma cc_tmp:
  assumes "cc \<in> live_temps j" "alloc_result j r j1"
  shows "is_reg cc" "is_reg r" "r \<noteq> cc" "cc \<noteq> r" "cc \<noteq> 31" "r \<noteq> 31"
    "live_temps (RA_FreeARMRegister r j1) = live_temps j"
    "live_temps (RA_FreeARMRegister r (EMIT ws j1)) = live_temps j"
  using assms arm_temps_is_reg live_temps_arm is_regD live_Free_insert [of r "live_temps j"]
  by (auto simp: alloc_result_def)

lemma tmp_result:
  assumes "alloc_result j r j1"
  shows "RA_AllocARMRegister j = (r, j1)" "tc_code j1 = tc_code j" "reg_CC j1 = reg_CC j"
    "status_part j1 = status_part j" "host_flags j1 = host_flags j"
  using assms by (simp_all add: alloc_result_def)

lemma EMIT_ClearFlags_updates:
  assumes "cc \<in> live_temps j" "free_temps 1 j"
  shows "\<exists>m'. updates {cc} j m (EMIT_ClearFlags cc flags j) m' \<and>
    rdW m' cc = rdW m cc AND NOT (ucast flags)"
proof -
  have cc: "is_reg cc" using assms(1) live_temps_arm arm_temps_is_reg by blast
  show ?thesis
  proof (cases "flags = 0")
    case True
    then have "updates {cc} j m (EMIT_ClearFlags cc flags j) m"
      by (simp add: EMIT_ClearFlags_def updates_refl)
    with True show ?thesis by (intro exI [of _ m]) simp
  next
    case nz: False
    show ?thesis
    proof (cases "map_of mask_runs flags")
      case (Some wr)
      obtain w r where wr: "wr = (w, r)" by fastforce
      note ok = mask_runs_Some [OF Some [unfolded wr]]
      let ?m = "(wrW cc (rdW m cc AND NOT (ucast flags)) m)\<lparr>m_pc := m_pc m + 4\<rparr>"
      have "updates {cc} j m (EMIT [bic_immed cc cc w r] j) ?m"
        using ok by (intro updates_EMIT) (simp_all add: run_bic_immed cc)
      moreover have "rdW ?m cc = rdW m cc AND NOT (ucast flags)" using is_regD(2) [OF cc] by simp
      ultimately show ?thesis using nz Some wr by (auto simp: EMIT_ClearFlags_alt)
    next
      case None
      obtain r j1 where a: "alloc_result j r j1" using free_temps_1 [OF assms(2)] by blast
      note f = cc_tmp [OF assms(1) a] tmp_result [OF a]
      let ?m = "(wrW cc (rdW m cc AND NOT (ucast flags))
          ((wrW r (ucast flags) m)\<lparr>m_pc := m_pc m + 4\<rparr>))\<lparr>m_pc := m_pc m + 4 + 4\<rparr>"
      have "updates {r, cc} j1 m (EMIT [mov_immed_u16 r (ucast flags) 0, bic_reg cc cc r LSL 0] j1) ?m"
        by (rule updates_EMIT) (use f in \<open>simp_all add: no_branches_Cons [of _ "[_]"] run_steps\<close>)
      then have "updates {cc} j m (EMIT_ClearFlags cc flags j) ?m"
        using updates_alloc [OF a] f by (simp add: EMIT_ClearFlags_alt nz None)
      moreover have "rdW ?m cc = rdW m cc AND NOT (ucast flags)" using f by simp
      ultimately show ?thesis by blast
    qed
  qed
qed

lemma EMIT_SetFlags_updates:
  assumes "cc \<in> live_temps j" "free_temps 1 j"
  shows "\<exists>m'. updates {cc} j m (EMIT_SetFlags cc flags j) m' \<and>
    rdW m' cc = rdW m cc OR ucast flags"
proof -
  have cc: "is_reg cc" using assms(1) live_temps_arm arm_temps_is_reg by blast
  show ?thesis
  proof (cases "flags = 0")
    case True
    then have "updates {cc} j m (EMIT_SetFlags cc flags j) m"
      by (simp add: EMIT_SetFlags_def updates_refl)
    with True show ?thesis by (intro exI [of _ m]) simp
  next
    case nz: False
    show ?thesis
    proof (cases "map_of mask_runs flags")
      case (Some wr)
      obtain w r where wr: "wr = (w, r)" by fastforce
      note ok = mask_runs_Some [OF Some [unfolded wr]]
      let ?m = "(wrW cc (rdW m cc OR ucast flags) m)\<lparr>m_pc := m_pc m + 4\<rparr>"
      have "updates {cc} j m (EMIT [orr_immed cc cc w r] j) ?m"
        using ok by (intro updates_EMIT) (simp_all add: run_orr_immed cc)
      moreover have "rdW ?m cc = rdW m cc OR ucast flags" using is_regD(2) [OF cc] by simp
      ultimately show ?thesis using nz Some wr by (auto simp: EMIT_SetFlags_alt)
    next
      case None
      obtain r j1 where a: "alloc_result j r j1" using free_temps_1 [OF assms(2)] by blast
      note f = cc_tmp [OF assms(1) a] tmp_result [OF a]
      let ?m = "(wrW cc (rdW m cc OR ucast flags)
          ((wrW r (ucast flags) m)\<lparr>m_pc := m_pc m + 4\<rparr>))\<lparr>m_pc := m_pc m + 4 + 4\<rparr>"
      have "updates {r, cc} j1 m (EMIT [mov_immed_u16 r (ucast flags) 0, orr_reg cc cc r LSL 0] j1) ?m"
        by (rule updates_EMIT) (use f in \<open>simp_all add: no_branches_Cons [of _ "[_]"] run_steps\<close>)
      then have "updates {cc} j m (EMIT_SetFlags cc flags j) ?m"
        using updates_alloc [OF a] f by (simp add: EMIT_SetFlags_alt nz None)
      moreover have "rdW ?m cc = rdW m cc OR ucast flags" using f by simp
      ultimately show ?thesis by blast
    qed
  qed
qed

text \<open>The rows of the conditional emitter: as above, but the mask of all five sets four.\<close>

definition cond_mask :: "u8 \<Rightarrow> u8" where
  "cond_mask flags = (if flags = 31 then 15 else flags)"

lemma mask_runs_cond:
  "flags \<noteq> 31 \<Longrightarrow> map_of (mask_runs [4 := (31, 4, 0)]) flags = map_of mask_runs flags"
  "map_of (mask_runs [4 := (31, 4, 0)]) 31 = Some (4, 0)"
  "map_of mask_runs 15 = Some (4, 0)"
  by (simp_all add: mask_runs_def)

lemma EMIT_SetFlagsConditional_alt:
  "EMIT_SetFlagsConditional cc flags cond j0 =
     (case RA_AllocARMRegister j0 of (tmp, j) \<Rightarrow> RA_FreeARMRegister tmp
       (if flags = 0 then j
        else case map_of (mask_runs [4 := (31, 4, 0)]) flags of
          Some (w, r) \<Rightarrow> EMIT [orr_immed tmp cc w r, csel cc tmp cc cond] j
        | None \<Rightarrow> EMIT [mov_immed_u16 tmp (ucast flags) 0, csel tmp tmp 31 cond,
                 orr_reg cc cc tmp LSL 0] j))"
  unfolding EMIT_SetFlagsConditional_def mask_runs_def
  by (simp add: if_distrib [where f = "case_option d g" for d g] split del: if_split cong: if_cong)

lemma EMIT_SetFlagsConditional_updates:
  assumes "cc \<in> live_temps j" "free_temps 1 j" "c < 14"
  shows "\<exists>m'. updates {cc} j m (EMIT_SetFlagsConditional cc flags c j) m' \<and>
    rdW m' cc = (if cond_holds c m then rdW m cc OR ucast (cond_mask flags) else rdW m cc)"
proof -
  obtain r j1 where a: "alloc_result j r j1" using free_temps_1 [OF assms(2)] by blast
  note f = cc_tmp [OF assms(1) a] tmp_result [OF a]
  have "c < 2 ^ 4" using assms(3) by (rule less_trans) simp
  then have c: "take_bit 4 c = c" using less_mask_eq [of c 4] by (simp add: take_bit_eq_mask)
  let ?v = "if cond_holds c m then rdW m cc OR ucast (cond_mask flags) else rdW m cc"
  show ?thesis
  proof (cases "flags = 0")
    case True
    then have "updates {cc} j m (EMIT_SetFlagsConditional cc flags c j) m"
      using f by (intro updates_refl) (simp_all add: EMIT_SetFlagsConditional_def)
    with True show ?thesis by (intro exI [of _ m]) (simp add: cond_mask_def)
  next
    case nz: False
    show ?thesis
    proof (cases "map_of (mask_runs [4 := (31, 4, 0)]) flags")
      case (Some wr)
      obtain w k where wr: "wr = (w, k)" by fastforce
      have "map_of mask_runs (cond_mask flags) = Some (w, k)"
        using Some wr mask_runs_cond by (cases "flags = 31") (simp_all add: cond_mask_def)
      note ok = mask_runs_Some [OF this]
      let ?m = "(wrW cc ?v ((wrW r (rdW m cc OR ucast (cond_mask flags)) m)\<lparr>m_pc := m_pc m + 4\<rparr>))
          \<lparr>m_pc := m_pc m + 4 + 4\<rparr>"
      have "updates {r, cc} j1 m (EMIT [orr_immed r cc w k, csel cc r cc c] j1) ?m"
        by (rule updates_EMIT) (use f ok is_regD in \<open>simp_all add: no_branches_Cons [of _ "[_]"]
          run_steps c cong: if_cong split del: if_split\<close>)
      then have "updates {cc} j m (EMIT_SetFlagsConditional cc flags c j) ?m"
        using updates_alloc [OF a] f by (simp add: EMIT_SetFlagsConditional_alt nz Some wr)
      moreover have "rdW ?m cc = ?v" using f by simp
      ultimately show ?thesis by blast
    next
      case None
      then have "flags \<noteq> 31" using mask_runs_cond(2) by auto
      then have cm: "cond_mask flags = flags" by (simp add: cond_mask_def)
      let ?m1 = "(wrW r (ucast flags) m)\<lparr>m_pc := m_pc m + 4\<rparr>"
      let ?m2 = "(wrW r (if cond_holds c m then ucast flags else 0) ?m1)\<lparr>m_pc := m_pc m + 4 + 4\<rparr>"
      let ?m = "(wrW cc (rdW m cc OR (if cond_holds c m then ucast flags else 0)) ?m2)
          \<lparr>m_pc := m_pc m + 4 + 4 + 4\<rparr>"
      have "updates {r, cc} j1 m (EMIT [mov_immed_u16 r (ucast flags) 0, csel r r 31 c,
          orr_reg cc cc r LSL 0] j1) ?m"
        by (rule updates_EMIT) (use f is_regD in \<open>simp_all add: no_branches_Cons [of _ "_ # _"]
          run_steps c cong: if_cong split del: if_split\<close>)
      then have "updates {cc} j m (EMIT_SetFlagsConditional cc flags c j) ?m"
        using updates_alloc [OF a] f by (simp add: EMIT_SetFlagsConditional_alt nz None)
      moreover have "rdW ?m cc = ?v" using f cm by simp
      ultimately show ?thesis by blast
    qed
  qed
qed

end
