(* ===== verification/Flag_Host.thy ===== *)
theory Flag_Host
  imports Flag_Props
begin

text \<open>
  Copying the host's flags to the CCR register. The m68k flags are named by \<open>ccflag\<close>;
  \<open>sr_bit\<close> is a flag's place in a mask and in the status register, \<open>alt_bit\<close> its place
  in the register that caches the CCR, where V and C are swapped.
\<close>

section \<open>Flags\<close>

datatype ccflag = Cf | Vf | Zf | Nf | Xf

fun sr_bit :: "ccflag \<Rightarrow> nat" where
  "sr_bit Cf = 0" | "sr_bit Vf = 1" | "sr_bit Zf = 2" | "sr_bit Nf = 3" | "sr_bit Xf = 4"

fun alt_bit :: "ccflag \<Rightarrow> nat" where
  "alt_bit Cf = 1" | "alt_bit Vf = 0" | "alt_bit Zf = 2" | "alt_bit Nf = 3" | "alt_bit Xf = 4"

definition ccr :: "u32 \<Rightarrow> ccflag \<Rightarrow> bool" where
  "ccr w f = bit w (alt_bit f)"

definition in_mask :: "ccflag \<Rightarrow> u8 \<Rightarrow> bool" where
  "in_mask f nd = bit nd (sr_bit f)"

lemma ccflag_all: "(\<forall>f. P f) \<longleftrightarrow> P Cf \<and> P Vf \<and> P Zf \<and> P Nf \<and> P Xf"
  by (metis ccflag.exhaust)

text \<open>All bits of the CCR register that are not flags.\<close>

definition same_upper :: "u32 \<Rightarrow> u32 \<Rightarrow> bool" where
  "same_upper v w \<longleftrightarrow> drop_bit 5 v = drop_bit 5 w"

lemma same_upper_iff: "same_upper v w \<longleftrightarrow> (\<forall>k. 5 \<le> k \<longrightarrow> k < 32 \<longrightarrow> bit v k = bit w k)"
proof
  assume "same_upper v w"
  then have "bit (drop_bit 5 v) (k - 5) = bit (drop_bit 5 w) (k - 5)" for k
    by (simp add: same_upper_def)
  then show "\<forall>k. 5 \<le> k \<longrightarrow> k < 32 \<longrightarrow> bit v k = bit w k"
    by (metis bit_drop_bit_eq comp_apply le_add_diff_inverse)
next
  assume r: "\<forall>k. 5 \<le> k \<longrightarrow> k < 32 \<longrightarrow> bit v k = bit w k"
  show "same_upper v w" unfolding same_upper_def
  proof (rule bit_word_eqI)
    fix n assume "n < LENGTH(32)"
    show "bit (drop_bit 5 v) n = bit (drop_bit 5 w) n"
    proof (cases "5 + n < 32")
      case True
      with r show ?thesis by (simp add: bit_drop_bit_eq)
    next
      case False
      then show ?thesis by (auto simp: bit_drop_bit_eq dest: bit_imp_le_length)
    qed
  qed
qed

text \<open>Masks of five flags, by enumeration.\<close>

definition masks :: "u8 list" where "masks = map of_nat [0..<32]"

lemma in_masks: "nd < 32 \<Longrightarrow> nd \<in> set masks"
proof -
  assume "nd < 32"
  then have "unat nd \<in> {0..<32}" by (simp add: word_less_nat_alt)
  then have "of_nat (unat nd) \<in> set masks" unfolding masks_def set_map set_upt by (rule imageI)
  then show ?thesis by simp
qed

lemma popcount_1: "(nd :: u8) < 32 \<Longrightarrow> popcount nd = 1 \<longleftrightarrow> nd \<in> {1, 2, 4, 8, 16}"
proof -
  have "list_all (\<lambda>nd. (popcount nd = 1) = (nd \<in> {1, 2, 4, 8, 16})) masks" by code_simp
  then show "nd < 32 \<Longrightarrow> ?thesis" using in_masks unfolding list_all_iff by blast
qed

lemma bit_swap_vc: "nd < 32 \<Longrightarrow> bit (swap_vc nd) (alt_bit f) = in_mask f nd"
proof -
  have "list_all (\<lambda>nd. list_all (\<lambda>f. bit (swap_vc nd) (alt_bit f) = in_mask f nd)
      [Cf, Vf, Zf, Nf, Xf]) masks" by code_simp
  then show "nd < 32 \<Longrightarrow> ?thesis" using in_masks by (cases f) (auto simp: list_all_iff)
qed

lemma swap_vc_less: "nd < 32 \<Longrightarrow> 5 \<le> k \<Longrightarrow> \<not> bit (swap_vc nd) k"
proof -
  have "list_all (\<lambda>nd. swap_vc nd < 32) masks" by code_simp
  then have "nd < 32 \<Longrightarrow> swap_vc nd < 2 ^ 5" using in_masks by (simp add: list_all_iff)
  then show "nd < 32 \<Longrightarrow> 5 \<le> k \<Longrightarrow> \<not> bit (swap_vc nd) k"
    using less_mask_eq [of "swap_vc nd" 5] by (metis bit_and_iff bit_mask_iff not_less)
qed

lemma popcount_2:
  "(nd :: u8) < 32 \<Longrightarrow> popcount nd = 1 \<or> 2 < popcount nd \<or> popcount nd = 2 \<or> nd = 0"
proof -
  have "list_all (\<lambda>nd. popcount nd = 1 \<or> 2 < popcount nd \<or> popcount nd = 2 \<or> nd = 0) masks"
    by code_simp
  then show "nd < 32 \<Longrightarrow> ?thesis" using in_masks unfolding list_all_iff by blast
qed

section \<open>Segments of emitted code\<close>

text \<open>One flag from a host condition, all four from NZCV, and the clearing of the rest.\<close>

definition regs2 :: "u8 \<Rightarrow> u8 \<Rightarrow> bool" where
  "regs2 cc r \<longleftrightarrow> is_reg cc \<and> is_reg r \<and> cc \<noteq> r \<and> r \<noteq> cc \<and> cc \<noteq> 31 \<and> r \<noteq> 31"

lemma cc_tmp_regs2: "cc \<in> live_temps j \<Longrightarrow> alloc_result j r j1 \<Longrightarrow> regs2 cc r"
  using cc_tmp [of cc j r j1] by (simp add: regs2_def)

lemma seg_flag:
  assumes "regs2 cc r" "c < 14" "unat b < 32"
  shows "\<exists>m'. updates {r, cc} j1 m (EMIT [cset r c, bfi cc r b 1] j1) m' \<and>
    rdW m' cc = bfi_val (unat b) 1 (of_bool (cond_holds c m)) (rdW m cc)"
proof -
  note f = assms(1) [unfolded regs2_def]
  let ?m = "(wrW cc (bfi_val (unat b) 1 (of_bool (cond_holds c m)) (rdW m cc))
      ((wrW r (of_bool (cond_holds c m)) m)\<lparr>m_pc := m_pc m + 4\<rparr>))\<lparr>m_pc := m_pc m + 4 + 4\<rparr>"
  have "updates {r, cc} j1 m (EMIT [cset r c, bfi cc r b 1] j1) ?m"
    by (rule updates_EMIT)
      (use f assms(2,3) in \<open>simp_all add: no_branches_Cons [of _ "[_]"] run_steps\<close>)
  moreover have "rdW ?m cc = bfi_val (unat b) 1 (of_bool (cond_holds c m)) (rdW m cc)" using f by simp
  ultimately show ?thesis by blast
qed

lemma run_get_nzcv:
  "is_reg r \<Longrightarrow> run (get_nzcv r # ws) m =
     run ws ((wrX r (ucast (nzcv_word m)) m)\<lparr>m_pc := m_pc m + 4\<rparr>)"
  by (simp add: decode_get_nzcv exec_def is_regD run.simps(2))

lemma run_eor_immed:
  assumes "is_reg rd" "is_reg rn" "1 \<le> unat w" "unat w \<le> 31"
  shows "run (eor_immed rd rn w r # ws) m = run ws
     ((wrW rd (rdW m rn XOR word_rotr (unat r) (mask (unat w))) m)\<lparr>m_pc := m_pc m + 4\<rparr>)"
  using assms is_regD [OF assms(1)] is_regD [OF assms(2)]
  by (simp add: decode_logical_immed(2) exec_def run.simps(2) wrW_def wrX_def wrXsp_def)

lemma bit_nzcv_28:
  "bit (drop_bit 28 (nzcv_word m)) k \<longleftrightarrow>
     (k = 0 \<and> m_v m) \<or> (k = 1 \<and> m_c m) \<or> (k = 2 \<and> m_z m) \<or> (k = 3 \<and> m_n m)"
  by (auto simp: nzcv_word_def bit_simps)

lemma seg_nzcv:
  assumes "regs2 cc r"
  shows "\<exists>m'. updates {r, cc} j1 m (EMIT [get_nzcv r, bfxil cc r 28 4] j1) m' \<and>
    rdW m' cc = bfi_val 0 4 (drop_bit 28 (nzcv_word m)) (rdW m cc)"
proof -
  note f = assms [unfolded regs2_def]
  let ?m = "(wrW cc (bfi_val 0 4 (drop_bit 28 (nzcv_word m)) (rdW m cc))
      ((wrX r (ucast (nzcv_word m)) m)\<lparr>m_pc := m_pc m + 4\<rparr>))\<lparr>m_pc := m_pc m + 4 + 4\<rparr>"
  have "updates {r, cc} j1 m (EMIT [get_nzcv r, bfxil cc r 28 4] j1) ?m"
    by (rule updates_EMIT)
      (use f in \<open>simp_all add: no_branches_Cons [of _ "[_]"] run_steps run_get_nzcv\<close>)
  moreover have "rdW ?m cc = bfi_val 0 4 (drop_bit 28 (nzcv_word m)) (rdW m cc)" using f by simp
  ultimately show ?thesis by blast
qed

text \<open>The same with the carry inverted on the way, when \<open>e\<close> asks for it.\<close>

definition nzcv_inv :: "bool \<Rightarrow> mstate \<Rightarrow> u32" where
  "nzcv_inv e m = (if e then nzcv_word m XOR word_rotr 3 (mask 1) else nzcv_word m)"

lemma seg_nzcv_inv:
  assumes "regs2 cc r"
  shows "\<exists>m'. updates {r, cc} j1 m (EMIT [bfxil cc r 28 4]
      ((if e then EMIT [eor_immed r r 1 3] else id) (EMIT [get_nzcv r] j1))) m' \<and>
    rdW m' cc = bfi_val 0 4 (drop_bit 28 (nzcv_inv e m)) (rdW m cc)"
proof -
  note f = assms [unfolded regs2_def]
  let ?m1 = "(wrX r (ucast (nzcv_word m)) m)\<lparr>m_pc := m_pc m + 4\<rparr>"
  let ?m2 = "if e then (wrW r (nzcv_inv True m) ?m1)\<lparr>m_pc := m_pc m + 4 + 4\<rparr> else ?m1"
  let ?m3 = "(wrW cc (bfi_val 0 4 (drop_bit 28 (nzcv_inv e m)) (rdW m cc)) ?m2)
      \<lparr>m_pc := m_pc ?m2 + 4\<rparr>"
  have u1: "updates {r, cc} j1 m (EMIT [get_nzcv r] j1) ?m1"
    by (rule updates_EMIT) (use f in \<open>simp_all add: run_get_nzcv\<close>)
  have "updates {r, cc} (EMIT [get_nzcv r] j1) ?m1 (EMIT [eor_immed r r 1 3] (EMIT [get_nzcv r] j1))
      ((wrW r (nzcv_inv True m) ?m1)\<lparr>m_pc := m_pc m + 4 + 4\<rparr>)"
    by (rule updates_EMIT) (use f in \<open>simp_all add: run_eor_immed nzcv_inv_def\<close>)
  with u1 have u2: "updates {r, cc} j1 m
      ((if e then EMIT [eor_immed r r 1 3] else id) (EMIT [get_nzcv r] j1)) ?m2"
    using updates_trans [OF u1] by simp
  have "updates {r, cc} j ?m2 (EMIT [bfxil cc r 28 4] j) ?m3" for j
    by (rule updates_EMIT) (use f in \<open>simp_all add: run_steps nzcv_inv_def split: if_splits\<close>)
  with u2 have "updates {r, cc} j1 m (EMIT [bfxil cc r 28 4]
      ((if e then EMIT [eor_immed r r 1 3] else id) (EMIT [get_nzcv r] j1))) ?m3"
    by (rule updates_trans)
  moreover have "rdW ?m3 cc = bfi_val 0 4 (drop_bit 28 (nzcv_inv e m)) (rdW m cc)" using f by simp
  ultimately show ?thesis by blast
qed

lemma bit_nzcv_inv:
  "bit (drop_bit 28 (nzcv_inv e m)) k \<longleftrightarrow>
     (k = 0 \<and> m_v m) \<or> (k = 1 \<and> m_c m \<noteq> e) \<or> (k = 2 \<and> m_z m) \<or> (k = 3 \<and> m_n m)"
proof -
  have w: "word_rotr 3 (mask 1) = (push_bit 29 1 :: u32)" by code_simp
  have "bit (drop_bit 28 (nzcv_word m XOR push_bit 29 1)) k \<longleftrightarrow>
      bit (drop_bit 28 (nzcv_word m)) k \<noteq> (k = 1)"
    by (auto simp: bit_simps)
  then show ?thesis unfolding nzcv_inv_def w using bit_nzcv_28 [of m k] by auto
qed

lemma seg_clear:
  assumes "cc \<in> live_temps j" "free_temps 1 j" "nd < 32"
  shows "\<exists>m'. updates {cc} j m (clear_rest cc nd j) m' \<and>
    (\<forall>f. ccr (rdW m' cc) f \<longleftrightarrow> ccr (rdW m cc) f \<and> \<not> in_mask f nd) \<and>
    same_upper (rdW m' cc) (rdW m cc)"
proof (cases "nd = 0")
  case True
  then have "updates {cc} j m (clear_rest cc nd j) m" by (simp add: clear_rest_def updates_refl)
  with True show ?thesis by (intro exI [of _ m]) (simp add: in_mask_def same_upper_def)
next
  case False
  from EMIT_ClearFlags_updates [OF assms(1,2), of m "swap_vc nd"] obtain m' where
    u: "updates {cc} j m (EMIT_ClearFlags cc (swap_vc nd) j) m'"
    and v: "rdW m' cc = rdW m cc AND NOT (ucast (swap_vc nd))" by blast
  have "ccr (rdW m' cc) f \<longleftrightarrow> ccr (rdW m cc) f \<and> \<not> in_mask f nd" for f
    using bit_swap_vc [OF assms(3), of f]
    by (cases f) (auto simp: v ccr_def bit_simps in_mask_def)
  moreover have "same_upper (rdW m' cc) (rdW m cc)"
    using swap_vc_less [OF assms(3)] by (auto simp: v same_upper_iff bit_simps)
  ultimately show ?thesis using u False by (auto simp: clear_rest_def)
qed

section \<open>Host flags to CCR\<close>

text \<open>The host condition behind each m68k flag, and with the carry inverted after a subtraction.\<close>

fun host_flag :: "mstate \<Rightarrow> ccflag \<Rightarrow> bool" where
  "host_flag m Cf = m_c m" | "host_flag m Vf = m_v m" | "host_flag m Zf = m_z m"
| "host_flag m Nf = m_n m" | "host_flag m Xf = m_c m"

fun host_flag_sub :: "mstate \<Rightarrow> ccflag \<Rightarrow> bool" where
  "host_flag_sub m Cf = (\<not> m_c m)" | "host_flag_sub m Vf = m_v m" | "host_flag_sub m Zf = m_z m"
| "host_flag_sub m Nf = m_n m" | "host_flag_sub m Xf = (\<not> m_c m)"

text \<open>
  What copying promises for the flags of a mask. On the way, the flags reported as done
  have the host's value (\<open>copying\<close>); at the end, those still to be done are clear
  (\<open>copied\<close>). Everything outside the five flags is unchanged, and X unless the mask names it.
\<close>

definition copying :: "(mstate \<Rightarrow> ccflag \<Rightarrow> bool) \<Rightarrow> mstate \<Rightarrow> u8 \<Rightarrow> u8 \<Rightarrow> u32 \<Rightarrow> u32 \<Rightarrow> bool" where
  "copying h m nd nd' v w \<longleftrightarrow>
     (\<forall>f. in_mask f nd \<longrightarrow> \<not> in_mask f nd' \<longrightarrow> ccr w f = h m f) \<and>
     (\<not> in_mask Xf nd \<longrightarrow> ccr w Xf = ccr v Xf) \<and> same_upper w v"

definition copied :: "(mstate \<Rightarrow> ccflag \<Rightarrow> bool) \<Rightarrow> mstate \<Rightarrow> u8 \<Rightarrow> u8 \<Rightarrow> u32 \<Rightarrow> u32 \<Rightarrow> bool" where
  "copied h m nd nd' v w \<longleftrightarrow>
     copying h m nd nd' v w \<and> (\<forall>f. in_mask f nd' \<longrightarrow> in_mask f nd \<and> \<not> ccr w f)"

lemma copying_flag:
  assumes "\<And>g. in_mask g nd \<longleftrightarrow> g = f" "b = alt_bit f" "c = h m f"
  shows "copying h m nd nd' v (bfi_val b 1 (of_bool c) v)"
proof -
  have "5 > alt_bit f" by (cases f) simp_all
  then show ?thesis using assms
    by (cases f) (auto simp: copying_def ccr_def same_upper_iff bit_bfi_val)
qed

lemma copying_nzcv:
  assumes "\<And>f. in_mask f nd \<Longrightarrow> \<not> in_mask f nd' \<Longrightarrow> f \<noteq> Xf \<and> h m f = host_flag m f"
  shows "copying h m nd nd' v (bfi_val 0 4 (drop_bit 28 (nzcv_word m)) v)"
proof -
  have "ccr (bfi_val 0 4 (drop_bit 28 (nzcv_word m)) v) f = (if f = Xf then ccr v Xf else host_flag m f)"
    for f by (cases f) (simp_all add: ccr_def bit_bfi_val bit_nzcv_28)
  moreover have "same_upper (bfi_val 0 4 (drop_bit 28 (nzcv_word m)) v) v"
    by (simp add: same_upper_iff bit_bfi_val)
  ultimately show ?thesis using assms by (auto simp: copying_def)
qed

lemma copying_nzcv_inv:
  assumes "\<And>f. in_mask f nd \<Longrightarrow> \<not> in_mask f nd' \<Longrightarrow> f \<noteq> Xf \<and> (f = Cf \<longrightarrow> e)"
  shows "copying host_flag_sub m nd nd' v (bfi_val 0 4 (drop_bit 28 (nzcv_inv e m)) v)"
proof -
  have "ccr (bfi_val 0 4 (drop_bit 28 (nzcv_inv e m)) v) f =
      (if f = Xf then ccr v Xf else if f = Cf then m_c m \<noteq> e else host_flag m f)"
    for f by (cases f) (simp_all add: ccr_def bit_bfi_val bit_nzcv_inv)
  moreover have "host_flag_sub m f = host_flag m f" if "f \<noteq> Cf" "f \<noteq> Xf" for f
    using that by (cases f) simp_all
  moreover have "same_upper (bfi_val 0 4 (drop_bit 28 (nzcv_inv e m)) v) v"
    by (simp add: same_upper_iff bit_bfi_val)
  ultimately show ?thesis using assms by (auto simp: copying_def)
qed

text \<open>X on top of the other four.\<close>

lemma copying_x:
  assumes "copying h m nd (nd AND 16) v w" "in_mask Xf nd"
  shows "copying h m nd 0 v (bfi_val 4 1 (of_bool (h m Xf)) w)"
proof -
  have "ccr (bfi_val 4 1 (of_bool (h m Xf)) w) f = (if f = Xf then h m Xf else ccr w f)" for f
    by (cases f) (simp_all add: ccr_def bit_bfi_val)
  moreover have "in_mask f (nd AND 16) = (f = Xf \<and> in_mask f nd)" for f
    by (cases f) (simp_all add: in_mask_def bit_simps)
  moreover have "\<not> in_mask f 0" for f by (simp add: in_mask_def)
  moreover have "same_upper (bfi_val 4 1 (of_bool (h m Xf)) w) w"
    by (simp add: same_upper_iff bit_bfi_val)
  ultimately show ?thesis using assms by (auto simp: copying_def same_upper_def)
qed

text \<open>The flags named by a mask with a single bit, as a list.\<close>

lemma in_mask_single [simp]:
  "in_mask f 1 \<longleftrightarrow> f = Cf" "in_mask f 2 \<longleftrightarrow> f = Vf" "in_mask f 4 \<longleftrightarrow> f = Zf"
  "in_mask f 8 \<longleftrightarrow> f = Nf" "in_mask f 16 \<longleftrightarrow> f = Xf" "\<not> in_mask f 0"
proof -
  have "list_all (\<lambda>f. (in_mask f 1 \<longleftrightarrow> f = Cf) \<and> (in_mask f 2 \<longleftrightarrow> f = Vf) \<and> (in_mask f 4 \<longleftrightarrow> f = Zf) \<and>
    (in_mask f 8 \<longleftrightarrow> f = Nf) \<and> (in_mask f 16 \<longleftrightarrow> f = Xf) \<and> \<not> in_mask f 0) [Cf, Vf, Zf, Nf, Xf]"
    by code_simp
  then show "in_mask f 1 \<longleftrightarrow> f = Cf" "in_mask f 2 \<longleftrightarrow> f = Vf" "in_mask f 4 \<longleftrightarrow> f = Zf"
    "in_mask f 8 \<longleftrightarrow> f = Nf" "in_mask f 16 \<longleftrightarrow> f = Xf" "\<not> in_mask f 0"
    by (cases f; simp)+
qed

lemma in_mask_and [simp]: "in_mask f (a AND b) \<longleftrightarrow> in_mask f a \<and> in_mask f b"
  by (simp add: in_mask_def bit_simps)

lemma in_mask_Xf: "in_mask Xf nd \<longleftrightarrow> nd AND 16 \<noteq> 0"
  using bit_iff_and_push_bit_not_eq_0 [of nd 4] by (simp add: in_mask_def)

lemma copying_refl: "(\<And>f. in_mask f nd \<Longrightarrow> in_mask f nd') \<Longrightarrow> copying h m nd nd' v v"
  by (auto simp: copying_def same_upper_def)

section \<open>The four copying emitters\<close>

lemma inner_flag:
  assumes "regs2 cc r" "c < 14"
    "\<And>g. in_mask g nd \<longleftrightarrow> g = f" "unat b = alt_bit f" "cond_holds c m = h m f"
  shows "\<exists>m1. updates {r, cc} j1 m (EMIT [cset r c, bfi cc r b 1] j1) m1 \<and>
    copying h m nd nd' (rdW m cc) (rdW m1 cc)"
proof -
  have "unat b < 32" using assms(4) by (cases f) simp_all
  from seg_flag [OF assms(1,2) this, of j1 m] obtain m1 where
    "updates {r, cc} j1 m (EMIT [cset r c, bfi cc r b 1] j1) m1"
    "rdW m1 cc = bfi_val (unat b) 1 (of_bool (cond_holds c m)) (rdW m cc)" by blast
  with copying_flag [OF assms(3,4), of "cond_holds c m" h m nd' "rdW m cc"] assms(5)
  show ?thesis by auto
qed

text \<open>The code for a mask of one flag: \<open>cC\<close> is the host condition for the carry.\<close>

definition one_flag :: "u8 \<Rightarrow> u8 \<Rightarrow> u8 \<Rightarrow> u8 \<Rightarrow> u32 list" where
  "one_flag cc r cC nd =
     (if nd = 1 then [cset r cC, bfi cc r 1 1] else if nd = 2 then [cset r A64_CC_VS, bfi cc r 0 1]
      else if nd = 4 then [cset r A64_CC_EQ, bfi cc r 2 1]
      else if nd = 8 then [cset r A64_CC_MI, bfi cc r 3 1] else [cset r cC, bfi cc r 4 1])"

lemma inner_one:
  assumes "regs2 cc r" "nd \<in> {1, 2, 4, 8, 16}" "cC < 14" "cond_holds cC m = h m Cf"
    "h m Xf = h m Cf" "h m Vf = m_v m" "h m Zf = m_z m" "h m Nf = m_n m"
  shows "\<exists>m1. updates {r, cc} j1 m (EMIT (one_flag cc r cC nd) j1) m1 \<and>
    copying h m nd nd' (rdW m cc) (rdW m1 cc)"
proof -
  from assms(2) consider "nd = 1" | "nd = 2" | "nd = 4" | "nd = 8" | "nd = 16" by auto
  then show ?thesis
  proof cases
    case 1 then show ?thesis
      using inner_flag [OF assms(1,3), of 1 Cf 1] assms(4) by (simp add: one_flag_def)
  next
    case 2 then show ?thesis
      using inner_flag [OF assms(1), of A64_CC_VS 2 Vf 0] assms(6) by (simp add: one_flag_def)
  next
    case 3 then show ?thesis
      using inner_flag [OF assms(1), of A64_CC_EQ 4 Zf 2] assms(7) by (simp add: one_flag_def)
  next
    case 4 then show ?thesis
      using inner_flag [OF assms(1), of A64_CC_MI 8 Nf 3] assms(8) by (simp add: one_flag_def)
  next
    case 5 then show ?thesis
      using inner_flag [OF assms(1,3), of 16 Xf 4] assms(4,5) by (simp add: one_flag_def)
  qed
qed

lemma cond_holds_cong:
  "m_n m1 = m_n m \<Longrightarrow> m_z m1 = m_z m \<Longrightarrow> m_c m1 = m_c m \<Longrightarrow> m_v m1 = m_v m \<Longrightarrow>
   cond_holds c m1 = cond_holds c m"
  by (simp only: cond_holds_def)

text \<open>X after the other four.\<close>

lemma inner_x:
  assumes "regs2 cc r" "cC < 14" "in_mask Xf nd" "cond_holds cC m = h m Xf"
    "\<exists>m1. updates {r, cc} j1 m j2 m1 \<and> copying h m nd (nd AND 16) (rdW m cc) (rdW m1 cc)"
  shows "\<exists>m1. updates {r, cc} j1 m (EMIT [cset r cC, bfi cc r 4 1] j2) m1 \<and>
    copying h m nd 0 (rdW m cc) (rdW m1 cc)"
proof -
  from assms(5) obtain m1 where u1: "updates {r, cc} j1 m j2 m1"
    and c1: "copying h m nd (nd AND 16) (rdW m cc) (rdW m1 cc)" by blast
  from seg_flag [OF assms(1,2), of 4 j2 m1] obtain m2 where
    u2: "updates {r, cc} j2 m1 (EMIT [cset r cC, bfi cc r 4 1] j2) m2"
    and v2: "rdW m2 cc = bfi_val 4 1 (of_bool (cond_holds cC m1)) (rdW m1 cc)" by auto
  have "cond_holds cC m1 = h m Xf"
    using u1 assms(4) cond_holds_cong [of m1 m cC] by (simp add: updates_def)
  with copying_x [OF c1 assms(3)] v2 updates_trans [OF u1 u2] show ?thesis by auto
qed

lemma inner_none:
  "(\<And>f. in_mask f nd \<Longrightarrow> in_mask f nd') \<Longrightarrow>
   \<exists>m1. updates S j1 m j1 m1 \<and> copying h m nd nd' (rdW m cc) (rdW m1 cc)"
  by (rule exI [of _ m]) (simp add: updates_refl copying_refl)

lemma get_wrap:
  assumes "cc \<in> live_temps j" "alloc_result j r j1" "free_temps 1 j1"
    "\<exists>m1. updates {r, cc} j1 m j3 m1 \<and> copying h m nd nd' (rdW m cc) (rdW m1 cc)"
    "nd' < 32" "\<And>f. in_mask f nd' \<Longrightarrow> in_mask f nd"
  shows "\<exists>m'. updates {cc} j m (RA_FreeARMRegister r (clear_rest cc nd' j3)) m' \<and>
    copied h m nd nd' (rdW m cc) (rdW m' cc)"
proof -
  from assms(4) obtain m1 where u1: "updates {r, cc} j1 m j3 m1"
    and c1: "copying h m nd nd' (rdW m cc) (rdW m1 cc)" by blast
  from u1 assms(1-3) have "cc \<in> live_temps j3" "free_temps 1 j3"
    by (simp_all add: updates_def alloc_result_def free_temps_def)
  from seg_clear [OF this assms(5), of m1] obtain m2 where
    u2: "updates {cc} j3 m1 (clear_rest cc nd' j3) m2"
    and c2: "\<forall>f. ccr (rdW m2 cc) f \<longleftrightarrow> ccr (rdW m1 cc) f \<and> \<not> in_mask f nd'"
      "same_upper (rdW m2 cc) (rdW m1 cc)" by blast
  have "updates {r, cc} j1 m (clear_rest cc nd' j3) m2"
    using updates_trans [OF u1 updates_mono [OF u2]] by blast
  then have "updates {cc} j m (RA_FreeARMRegister r (clear_rest cc nd' j3)) m2"
    by (rule updates_alloc [OF assms(2)])
  moreover have "copied h m nd nd' (rdW m cc) (rdW m2 cc)"
    using c1 c2 assms(6) by (auto simp: copied_def copying_def same_upper_def)
  ultimately show ?thesis by blast
qed

lemma free_temps_2:
  assumes "free_temps 2 j"
  obtains r j1 where "alloc_result j r j1" "free_temps 1 j1"
  using free_temps_alloc [of 1 j] assms by (metis Suc_1)

lemma alloc_result_host [simp]:
  "alloc_result (j\<lparr>host_flags := h\<rparr>) r j1 \<Longrightarrow> RA_AllocARMRegister (j\<lparr>host_flags := h\<rparr>) = (r, j1)"
  by (simp add: alloc_result_def)

lemma and16_less: "nd AND 16 < (32 :: u8)"
proof -
  have "nd AND 16 \<le> 16" by (rule word_and_le1)
  then show ?thesis by (rule le_less_trans) simp
qed

lemma getter:
  assumes "cc \<in> live_temps j" "free_temps 2 j" "nd < 32"
    and code: "\<And>r j1. RA_AllocARMRegister (j\<lparr>host_flags := hf\<rparr>) = (r, j1) \<Longrightarrow>
      res = (if nd = 0 then (nd, j\<lparr>host_flags := hf\<rparr>)
             else (nd', RA_FreeARMRegister r (clear_rest cc nd' (j3 r j1))))"
    and inner: "\<And>r j1. regs2 cc r \<Longrightarrow> nd \<noteq> 0 \<Longrightarrow>
      \<exists>m1. updates {r, cc} j1 m (j3 r j1) m1 \<and> copying h m nd nd' (rdW m cc) (rdW m1 cc)"
    and "nd' < 32" "\<And>f. in_mask f nd' \<Longrightarrow> in_mask f nd" "nd = 0 \<Longrightarrow> nd' = 0"
  shows "fst res = nd'"
    "\<exists>m'. updates {cc} j m (snd res) m' \<and> copied h m nd nd' (rdW m cc) (rdW m' cc)"
proof -
  let ?j0 = "j\<lparr>host_flags := hf\<rparr>"
  obtain r j1 where a: "alloc_result ?j0 r j1" and fr: "free_temps 1 j1"
    using free_temps_2 [of ?j0] assms(2) by auto
  have cc: "cc \<in> live_temps ?j0" using assms(1) by simp
  note res = code [OF alloc_result_host [OF a]]
  show "fst res = nd'" using assms(8) by (simp add: res)
  show "\<exists>m'. updates {cc} j m (snd res) m' \<and> copied h m nd nd' (rdW m cc) (rdW m' cc)"
  proof (cases "nd = 0")
    case True
    then have "copying h m nd nd' (rdW m cc) (rdW m cc)"
      using assms(8) by (intro copying_refl) simp
    with True have "updates {cc} j m (snd res) m \<and> copied h m nd nd' (rdW m cc) (rdW m cc)"
      using assms(8) by (simp add: res updates_refl copied_def status_part_def)
    then show ?thesis by (rule exI)
  next
    case False
    from get_wrap [OF cc a fr inner [OF cc_tmp_regs2 [OF cc a] False] assms(6,7)]
    show ?thesis using False by (simp add: res)
  qed
qed

lemma in_mask_Cf: "in_mask Cf nd \<longleftrightarrow> nd AND 1 \<noteq> 0"
  using bit_iff_and_push_bit_not_eq_0 [of nd 0] by (simp add: in_mask_def)

lemma in_mask_17: "in_mask Cf nd \<Longrightarrow> nd AND 17 \<noteq> 0"
proof -
  assume "in_mask Cf nd"
  then have b: "bit (nd AND 17) 0" by (simp add: in_mask_def bit_simps)
  have "bit w 0 \<Longrightarrow> w \<noteq> 0" for w :: u8 by auto
  from this [OF b] show ?thesis .
qed

lemma popcount_0: "popcount (0 :: u8) \<noteq> 2" by code_simp

lemma EMIT_GetNZCV_copies:
  assumes "cc \<in> live_temps j" "free_temps 2 j" "nd < 32"
  shows "fst (EMIT_GetNZCV cc nd j) = nd AND 16"
    "\<exists>m'. updates {cc} j m (snd (EMIT_GetNZCV cc nd j)) m' \<and>
      copied host_flag m nd (nd AND 16) (rdW m cc) (rdW m' cc)"
proof -
  define j3 where "j3 r j1 = (if popcount nd = 1 then (if nd = 16 then j1 else EMIT (one_flag cc r A64_CC_CS nd) j1)
      else EMIT [get_nzcv r, bfxil cc r 28 4] j1)" for r j1
  note p1 = popcount_1 [OF assms(3)]
  have code: "EMIT_GetNZCV cc nd j = (if nd = 0 then (nd, j\<lparr>host_flags := nd AND SR_NZVC\<rparr>)
      else (nd AND 16, RA_FreeARMRegister r (clear_rest cc (nd AND 16) (j3 r j1))))"
    if "RA_AllocARMRegister (j\<lparr>host_flags := nd AND SR_NZVC\<rparr>) = (r, j1)" for r j1
    using that p1 popcount_2 [OF assms(3)] by (auto simp: EMIT_GetNZCV_def j3_def one_flag_def)
  have inner: "\<exists>m1. updates {r, cc} j1 m (j3 r j1) m1 \<and>
      copying host_flag m nd (nd AND 16) (rdW m cc) (rdW m1 cc)" if "regs2 cc r" "nd \<noteq> 0" for r j1
  proof (cases "popcount nd = 1")
    case True
    show ?thesis
    proof (cases "nd = 16")
      case True
      then show ?thesis using \<open>popcount nd = 1\<close> inner_none [of 16 16] by (simp add: j3_def)
    next
      case False
      then show ?thesis
        using inner_one [OF that(1), of nd A64_CC_CS m host_flag j1] p1 \<open>popcount nd = 1\<close>
        by (simp add: j3_def)
    qed
  next
    case False
    from seg_nzcv [OF that(1), of j1 m] copying_nzcv [of nd "nd AND 16" host_flag m "rdW m cc"] False
    show ?thesis by (auto simp: j3_def)
  qed
  have sub: "in_mask f (nd AND 16) \<Longrightarrow> in_mask f nd" for f by (auto split: if_splits)
  have small: "nd AND 16 < 32" using assms(3) and16_less by simp
  show "fst (EMIT_GetNZCV cc nd j) = nd AND 16"
    "\<exists>m'. updates {cc} j m (snd (EMIT_GetNZCV cc nd j)) m' \<and>
      copied host_flag m nd (nd AND 16) (rdW m cc) (rdW m' cc)"
    using getter [OF assms code inner small sub] popcount_0 by simp_all
qed

lemma EMIT_GetNZCVX_copies:
  assumes "cc \<in> live_temps j" "free_temps 2 j" "nd < 32"
  shows "fst (EMIT_GetNZCVX cc nd j) = (if popcount nd = 2 then nd else 0)"
    "\<exists>m'. updates {cc} j m (snd (EMIT_GetNZCVX cc nd j)) m' \<and>
      copied host_flag m nd ((if popcount nd = 2 then nd else 0)) (rdW m cc) (rdW m' cc)"
proof -
  define j3 where "j3 r j1 = (if popcount nd = 1 then EMIT (one_flag cc r A64_CC_CS nd) j1
      else if 2 < popcount nd then
        (if nd AND 16 \<noteq> 0 then EMIT [cset r A64_CC_CS, bfi cc r 4 1] else id)
          (EMIT [get_nzcv r, bfxil cc r 28 4] j1) else j1)" for r j1
  note p1 = popcount_1 [OF assms(3)]
  have code: "EMIT_GetNZCVX cc nd j = (if nd = 0 then (nd, j\<lparr>host_flags := nd AND SR_NZVC\<rparr>)
      else ((if popcount nd = 2 then nd else 0), RA_FreeARMRegister r (clear_rest cc ((if popcount nd = 2 then nd else 0)) (j3 r j1))))"
    if "RA_AllocARMRegister (j\<lparr>host_flags := nd AND SR_NZVC\<rparr>) = (r, j1)" for r j1
    using that p1 popcount_2 [OF assms(3)] by (auto simp: EMIT_GetNZCVX_def j3_def one_flag_def)
  have inner: "\<exists>m1. updates {r, cc} j1 m (j3 r j1) m1 \<and>
      copying host_flag m nd ((if popcount nd = 2 then nd else 0)) (rdW m cc) (rdW m1 cc)" if "regs2 cc r" "nd \<noteq> 0" for r j1
  proof -
    note nz = that(2)
    have four: "\<exists>m1. updates {r, cc} j1 m (EMIT [get_nzcv r, bfxil cc r 28 4] j1) m1 \<and>
        copying host_flag m nd (nd AND 16) (rdW m cc) (rdW m1 cc)"
      using seg_nzcv [OF that(1), of j1 m] copying_nzcv [of nd "nd AND 16" host_flag m "rdW m cc"]
      by auto
    consider "popcount nd = 1" | "2 < popcount nd" "in_mask Xf nd" | "2 < popcount nd" "\<not> in_mask Xf nd"
      | "popcount nd = 2" using popcount_2 [OF assms(3)] nz by auto
    then show ?thesis
    proof cases
      case 1
      then show ?thesis
        using inner_one [OF that(1), of nd A64_CC_CS m host_flag j1] p1 by (simp add: j3_def)
    next
      case 2
      then show ?thesis using inner_x [OF that(1) _ _ _ four, of A64_CC_CS]
        by (simp add: j3_def in_mask_Xf)
    next
      case 3
      then have "nd AND 16 = 0" by (simp add: in_mask_Xf)
      with four 3 show ?thesis by (simp add: j3_def)
    next
      case 4
      then show ?thesis using inner_none by (simp add: j3_def)
    qed
  qed
  have sub: "in_mask f ((if popcount nd = 2 then nd else 0)) \<Longrightarrow> in_mask f nd" for f by (auto split: if_splits)
  have small: "(if popcount nd = 2 then nd else 0) < 32" using assms(3) and16_less by simp
  show "fst (EMIT_GetNZCVX cc nd j) = (if popcount nd = 2 then nd else 0)"
    "\<exists>m'. updates {cc} j m (snd (EMIT_GetNZCVX cc nd j)) m' \<and>
      copied host_flag m nd ((if popcount nd = 2 then nd else 0)) (rdW m cc) (rdW m' cc)"
    using getter [OF assms code inner small sub] popcount_0 by simp_all
qed

lemma EMIT_GetNZnCV_copies:
  assumes "cc \<in> live_temps j" "free_temps 2 j" "nd < 32"
  shows "fst (EMIT_GetNZnCV cc nd j) = nd AND 16"
    "\<exists>m'. updates {cc} j m (snd (EMIT_GetNZnCV cc nd j)) m' \<and>
      copied host_flag_sub m nd (nd AND 16) (rdW m cc) (rdW m' cc)"
proof -
  define j3 where "j3 r j1 = (if popcount nd = 1 then (if nd = 16 then j1 else EMIT (one_flag cc r A64_CC_CC nd) j1)
      else EMIT [bfxil cc r 28 4]
        ((if nd AND 1 \<noteq> 0 then EMIT [eor_immed r r 1 3] else id) (EMIT [get_nzcv r] j1)))" for r j1
  note p1 = popcount_1 [OF assms(3)]
  have code: "EMIT_GetNZnCV cc nd j = (if nd = 0 then (nd, j\<lparr>host_flags := nd AND SR_NZV\<rparr>)
      else (nd AND 16, RA_FreeARMRegister r (clear_rest cc (nd AND 16) (j3 r j1))))"
    if "RA_AllocARMRegister (j\<lparr>host_flags := nd AND SR_NZV\<rparr>) = (r, j1)" for r j1
    using that p1 popcount_2 [OF assms(3)] by (auto simp: EMIT_GetNZnCV_def j3_def one_flag_def)
  have inner: "\<exists>m1. updates {r, cc} j1 m (j3 r j1) m1 \<and>
      copying host_flag_sub m nd (nd AND 16) (rdW m cc) (rdW m1 cc)" if "regs2 cc r" "nd \<noteq> 0" for r j1
  proof (cases "popcount nd = 1")
    case True
    show ?thesis
    proof (cases "nd = 16")
      case True
      then show ?thesis using \<open>popcount nd = 1\<close> inner_none [of 16 16] by (simp add: j3_def)
    next
      case False
      then show ?thesis
        using inner_one [OF that(1), of nd A64_CC_CC m host_flag_sub j1] p1 \<open>popcount nd = 1\<close>
        by (simp add: j3_def)
    qed
  next
    case False
    note reg = \<open>regs2 cc r\<close>
    have "copying host_flag_sub m nd (nd AND 16) (rdW m cc)
        (bfi_val 0 4 (drop_bit 28 (nzcv_inv (nd AND 1 \<noteq> 0) m)) (rdW m cc))"
      by (rule copying_nzcv_inv) (auto simp: in_mask_Cf)
    moreover obtain m1 where "updates {r, cc} j1 m (EMIT [bfxil cc r 28 4]
        ((if nd AND 1 \<noteq> 0 then EMIT [eor_immed r r 1 3] else id) (EMIT [get_nzcv r] j1))) m1"
      "rdW m1 cc = bfi_val 0 4 (drop_bit 28 (nzcv_inv (nd AND 1 \<noteq> 0) m)) (rdW m cc)"
      using seg_nzcv_inv [OF reg] by blast
    ultimately show ?thesis using False unfolding j3_def by (intro exI [of _ m1]) (simp only: if_False)
  qed
  have sub: "in_mask f (nd AND 16) \<Longrightarrow> in_mask f nd" for f by (auto split: if_splits)
  have small: "nd AND 16 < 32" using assms(3) and16_less by simp
  show "fst (EMIT_GetNZnCV cc nd j) = nd AND 16"
    "\<exists>m'. updates {cc} j m (snd (EMIT_GetNZnCV cc nd j)) m' \<and>
      copied host_flag_sub m nd (nd AND 16) (rdW m cc) (rdW m' cc)"
    using getter [OF assms code inner small sub] popcount_0 by simp_all
qed

lemma EMIT_GetNZnCVX_copies:
  assumes "cc \<in> live_temps j" "free_temps 2 j" "nd < 32"
  shows "fst (EMIT_GetNZnCVX cc nd j) = (if popcount nd = 2 then nd else 0)"
    "\<exists>m'. updates {cc} j m (snd (EMIT_GetNZnCVX cc nd j)) m' \<and>
      copied host_flag_sub m nd ((if popcount nd = 2 then nd else 0)) (rdW m cc) (rdW m' cc)"
proof -
  define j3 where "j3 r j1 = (if popcount nd = 1 then EMIT (one_flag cc r A64_CC_CC nd) j1
      else if 2 < popcount nd then
        (if nd AND 16 \<noteq> 0 then EMIT [cset r A64_CC_CC, bfi cc r 4 1] else id)
          (EMIT [bfxil cc r 28 4]
            ((if nd AND 17 \<noteq> 0 then EMIT [eor_immed r r 1 3] else id) (EMIT [get_nzcv r] j1)))
      else j1)" for r j1
  note p1 = popcount_1 [OF assms(3)]
  have code: "EMIT_GetNZnCVX cc nd j = (if nd = 0 then (nd, j\<lparr>host_flags := nd AND SR_NZV\<rparr>)
      else ((if popcount nd = 2 then nd else 0), RA_FreeARMRegister r (clear_rest cc ((if popcount nd = 2 then nd else 0)) (j3 r j1))))"
    if "RA_AllocARMRegister (j\<lparr>host_flags := nd AND SR_NZV\<rparr>) = (r, j1)" for r j1
    using that p1 popcount_2 [OF assms(3)] by (auto simp: EMIT_GetNZnCVX_def j3_def one_flag_def)
  have inner: "\<exists>m1. updates {r, cc} j1 m (j3 r j1) m1 \<and>
      copying host_flag_sub m nd ((if popcount nd = 2 then nd else 0)) (rdW m cc) (rdW m1 cc)" if "regs2 cc r" "nd \<noteq> 0" for r j1
  proof -
    let ?w = "EMIT [bfxil cc r 28 4]
            ((if nd AND 17 \<noteq> 0 then EMIT [eor_immed r r 1 3] else id) (EMIT [get_nzcv r] j1))"
    note nz = that(2)
    have four: "\<exists>m1. updates {r, cc} j1 m ?w m1 \<and>
        copying host_flag_sub m nd (nd AND 16) (rdW m cc) (rdW m1 cc)"
    proof -
      have "copying host_flag_sub m nd (nd AND 16) (rdW m cc)
          (bfi_val 0 4 (drop_bit 28 (nzcv_inv (nd AND 17 \<noteq> 0) m)) (rdW m cc))"
        by (rule copying_nzcv_inv) (auto dest: in_mask_17)
      then show ?thesis using seg_nzcv_inv [OF that(1), of j1 m "nd AND 17 \<noteq> 0"] by metis
    qed
    consider "popcount nd = 1" | "2 < popcount nd" "in_mask Xf nd" | "2 < popcount nd" "\<not> in_mask Xf nd"
      | "popcount nd = 2" using popcount_2 [OF assms(3)] nz by auto
    then show ?thesis
    proof cases
      case 1
      then show ?thesis
        using inner_one [OF that(1), of nd A64_CC_CC m host_flag_sub j1] p1 by (simp add: j3_def)
    next
      case 2
      then show ?thesis using inner_x [OF that(1) _ _ _ four, of A64_CC_CC]
        by (simp add: j3_def in_mask_Xf)
    next
      case 3
      then have "nd AND 16 = 0" by (simp add: in_mask_Xf)
      with four 3 show ?thesis by (simp add: j3_def)
    next
      case 4
      then show ?thesis using inner_none by (simp add: j3_def)
    qed
  qed
  have sub: "in_mask f ((if popcount nd = 2 then nd else 0)) \<Longrightarrow> in_mask f nd" for f by (auto split: if_splits)
  have small: "(if popcount nd = 2 then nd else 0) < 32" using assms(3) and16_less by simp
  show "fst (EMIT_GetNZnCVX cc nd j) = (if popcount nd = 2 then nd else 0)"
    "\<exists>m'. updates {cc} j m (snd (EMIT_GetNZnCVX cc nd j)) m' \<and>
      copied host_flag_sub m nd ((if popcount nd = 2 then nd else 0)) (rdW m cc) (rdW m' cc)"
    using getter [OF assms code inner small sub] popcount_0 by simp_all
qed

end
