(* ===== verification/Flag_Logic.thy ===== *)
theory Flag_Logic
  imports Flag_Host
begin

text \<open>
  The emitters for logical results, where the host's V and C are clear
  (\<open>EMIT_GetNZ00\<close>, \<open>EMIT_GetNZxx\<close>), the tail that every arithmetic instruction runs
  after them, and the properties of the condition code emitters.
\<close>

section \<open>Logical results\<close>

fun host_flag_logic :: "mstate \<Rightarrow> ccflag \<Rightarrow> bool" where
  "host_flag_logic m Zf = m_z m" | "host_flag_logic m Nf = m_n m"
| "host_flag_logic m _ = False"

lemma seg_bic:
  assumes "is_reg cc" "1 \<le> unat w" "unat w \<le> 31" "unat k < 32"
  shows "\<exists>m'. updates {r, cc} j1 m (EMIT [bic_immed cc cc w k] j1) m' \<and>
    rdW m' cc = rdW m cc AND NOT (word_rotr (unat k) (mask (unat w)))"
proof -
  let ?m = "(wrW cc (rdW m cc AND NOT (word_rotr (unat k) (mask (unat w)))) m)\<lparr>m_pc := m_pc m + 4\<rparr>"
  have "updates {r, cc} j1 m (EMIT [bic_immed cc cc w k] j1) ?m"
    by (rule updates_EMIT) (use assms in \<open>simp_all add: run_steps\<close>)
  moreover have "rdW ?m cc = rdW m cc AND NOT (word_rotr (unat k) (mask (unat w)))"
    using is_regD(2) [OF assms(1)] by simp
  ultimately show ?thesis by blast
qed

definition nz_count :: "mstate \<Rightarrow> u32" where
  "nz_count m = of_bool (m_z m \<or> m_n m \<noteq> m_v m) + of_bool (m_n m)"

lemma bit_nz_count:
  assumes "\<not> m_v m" "\<not> (m_n m \<and> m_z m)"
  shows "bit (nz_count m) 0 \<longleftrightarrow> m_z m" "bit (nz_count m) (Suc 0) \<longleftrightarrow> m_n m"
  using assms by (cases "m_n m"; cases "m_z m"; simp add: nz_count_def)+

lemma seg_nz:
  assumes "regs2 cc r"
  shows "\<exists>m'. updates {r, cc} j1 m
      (EMIT [cinc r 31 A64_CC_LE, cinc r r A64_CC_MI, bfi cc r 2 2] j1) m' \<and>
    rdW m' cc = bfi_val 2 2 (nz_count m) (rdW m cc)"
proof -
  note f = assms [unfolded regs2_def]
  let ?m1 = "(wrW r (of_bool (m_z m \<or> m_n m \<noteq> m_v m)) m)\<lparr>m_pc := m_pc m + 4\<rparr>"
  let ?m2 = "(wrW r (nz_count m) ?m1)\<lparr>m_pc := m_pc m + 4 + 4\<rparr>"
  let ?m = "(wrW cc (bfi_val 2 2 (nz_count m) (rdW m cc)) ?m2)\<lparr>m_pc := m_pc m + 4 + 4 + 4\<rparr>"
  have "updates {r, cc} j1 m (EMIT [cinc r 31 A64_CC_LE, cinc r r A64_CC_MI, bfi cc r 2 2] j1) ?m"
    by (rule updates_EMIT) (use f is_regD in \<open>simp_all add: no_branches_Cons [of _ "_ # _"]
      run_steps nz_count_def\<close>)
  moreover have "rdW ?m cc = bfi_val 2 2 (nz_count m) (rdW m cc)" using f by simp
  ultimately show ?thesis by blast
qed

lemma copying_nz:
  assumes "\<not> m_v m" "\<not> (m_n m \<and> m_z m)" "\<not> in_mask Xf nd" "same_upper w v"
    "ccr w Xf = ccr v Xf" "in_mask Cf nd \<or> in_mask Vf nd \<longrightarrow> \<not> ccr w Cf \<and> \<not> ccr w Vf"
  shows "copying host_flag_logic m nd nd' v (bfi_val 2 2 (nz_count m) w)"
proof -
  have "ccr (bfi_val 2 2 (nz_count m) w) f =
      (if f = Zf then m_z m else if f = Nf then m_n m else ccr w f)" for f
    by (cases f) (simp_all add: ccr_def bit_bfi_val bit_nz_count [OF assms(1,2)])
  moreover have "host_flag_logic m f = (if f = Zf then m_z m else if f = Nf then m_n m else False)"
    for f by (cases f) simp_all
  moreover have "same_upper (bfi_val 2 2 (nz_count m) w) w"
    by (simp add: same_upper_iff bit_bfi_val)
  ultimately show ?thesis using assms(3-6)
    by (auto simp: copying_def same_upper_def) (metis ccflag.exhaust)+
qed

text \<open>All four low flags cleared, then one set on a condition.\<close>

lemma seg_clear_set:
  assumes "regs2 cc r" "1 \<le> unat w" "unat w \<le> 31" "c \<in> {A64_CC_EQ, A64_CC_MI}"
    "word_rotr (unat k) (mask (unat w)) = x" "b = cond_holds c m"
  shows "\<exists>m'. updates {r, cc} j1 m
      (EMIT [bic_immed cc cc 4 0, orr_immed r cc w k, csel cc r cc c] j1) m' \<and>
    rdW m' cc = (if b then (rdW m cc AND NOT 15) OR x else rdW m cc AND NOT 15)"
proof -
  note f = assms(1) [unfolded regs2_def]
  have m4: "word_rotr 0 (mask 4) = (15 :: u32)" by code_simp
  have c: "take_bit 4 c = c" using assms(4) by auto
  let ?v = "rdW m cc AND NOT 15"
  let ?t = "?v OR x"
  let ?m1 = "(wrW cc ?v m)\<lparr>m_pc := m_pc m + 4\<rparr>"
  let ?m2 = "(wrW r ?t ?m1)\<lparr>m_pc := m_pc m + 4 + 4\<rparr>"
  let ?m = "(wrW cc (if b then ?t else ?v) ?m2)\<lparr>m_pc := m_pc m + 4 + 4 + 4\<rparr>"
  have "updates {r, cc} j1 m (EMIT [bic_immed cc cc 4 0, orr_immed r cc w k, csel cc r cc c] j1) ?m"
    by (rule updates_EMIT) (use f is_regD assms(2,3) in \<open>simp_all add: no_branches_Cons [of _ "_ # _"]
      run_steps c m4 assms(5,6) cong: if_cong split del: if_split\<close>)
  moreover have "rdW ?m cc = (if b then ?t else ?v)" using f by simp
  ultimately show ?thesis by blast
qed

lemma mask_4_u32: "(15 :: u32) = mask 4"
  by (simp add: mask_eq_exp_minus_1)

lemma copying_clear_set:
  assumes "\<not> in_mask Xf nd" "f \<in> {Zf, Nf}" "\<And>g. in_mask g nd \<Longrightarrow> g \<in> {Zf, Nf} \<Longrightarrow> g = f"
    "c = host_flag_logic m f"
  shows "copying host_flag_logic m nd nd' v
    (if c then (v AND NOT 15) OR 2 ^ alt_bit f else v AND NOT 15)"
proof -
  let ?w = "if c then (v AND NOT 15) OR 2 ^ alt_bit f else v AND NOT 15"
  have b: "bit (2 ^ alt_bit f :: u32) k \<longleftrightarrow> k = alt_bit f" for k
    using assms(2) by (auto simp: bit_exp_iff)
  have "ccr ?w g = (if g = Xf then ccr v Xf else g = f \<and> c)" for g
    unfolding mask_4_u32 using assms(2) by (cases g) (auto simp: ccr_def bit_simps b)
  moreover have "same_upper ?w v"
    unfolding mask_4_u32 using assms(2) by (auto simp: same_upper_iff bit_simps b)
  moreover have "g \<noteq> Zf \<Longrightarrow> g \<noteq> Nf \<Longrightarrow> \<not> host_flag_logic m g" for g by (cases g) simp_all
  ultimately show ?thesis using assms by (auto simp: copying_def)
qed

text \<open>The masks with one flag, and those with both N and Z, or one of them.\<close>

lemma and_NZ:
  fixes nd :: u8
  assumes "nd < 16"
  shows "nd AND 12 = 12 \<longleftrightarrow> in_mask Zf nd \<and> in_mask Nf nd"
    "nd AND 12 = 4 \<longleftrightarrow> in_mask Zf nd \<and> \<not> in_mask Nf nd"
    "nd AND 12 = 8 \<longleftrightarrow> \<not> in_mask Zf nd \<and> in_mask Nf nd"
    "nd AND 3 \<noteq> 0 \<longleftrightarrow> in_mask Cf nd \<or> in_mask Vf nd" "\<not> in_mask Xf nd" "nd AND 16 = 0"
    "nd \<noteq> 0 \<Longrightarrow> popcount nd \<noteq> 1 \<Longrightarrow> nd \<noteq> 3 \<Longrightarrow> in_mask Zf nd \<or> in_mask Nf nd"
proof -
  have "list_all (\<lambda>nd. nd < 16 \<longrightarrow> (nd AND 12 = 12 \<longleftrightarrow> in_mask Zf nd \<and> in_mask Nf nd) \<and>
    (nd AND 12 = 4 \<longleftrightarrow> in_mask Zf nd \<and> \<not> in_mask Nf nd) \<and>
    (nd AND 12 = 8 \<longleftrightarrow> \<not> in_mask Zf nd \<and> in_mask Nf nd) \<and>
    (nd AND 3 \<noteq> 0 \<longleftrightarrow> in_mask Cf nd \<or> in_mask Vf nd) \<and> \<not> in_mask Xf nd \<and> nd AND 16 = 0 \<and>
    (nd = 0 \<or> popcount nd = 1 \<or> nd = 3 \<or> in_mask Zf nd \<or> in_mask Nf nd)) masks" by code_simp
  moreover have "nd < 32" using assms by (rule less_trans) simp
  ultimately have a: "(nd AND 12 = 12 \<longleftrightarrow> in_mask Zf nd \<and> in_mask Nf nd) \<and>
    (nd AND 12 = 4 \<longleftrightarrow> in_mask Zf nd \<and> \<not> in_mask Nf nd) \<and>
    (nd AND 12 = 8 \<longleftrightarrow> \<not> in_mask Zf nd \<and> in_mask Nf nd) \<and>
    (nd AND 3 \<noteq> 0 \<longleftrightarrow> in_mask Cf nd \<or> in_mask Vf nd) \<and> \<not> in_mask Xf nd \<and> nd AND 16 = 0 \<and>
    (nd = 0 \<or> popcount nd = 1 \<or> nd = 3 \<or> in_mask Zf nd \<or> in_mask Nf nd)"
    using in_masks [of nd] assms unfolding list_all_iff by blast
  show "nd AND 12 = 12 \<longleftrightarrow> in_mask Zf nd \<and> in_mask Nf nd"
    "nd AND 12 = 4 \<longleftrightarrow> in_mask Zf nd \<and> \<not> in_mask Nf nd"
    "nd AND 12 = 8 \<longleftrightarrow> \<not> in_mask Zf nd \<and> in_mask Nf nd"
    "nd AND 3 \<noteq> 0 \<longleftrightarrow> in_mask Cf nd \<or> in_mask Vf nd" "\<not> in_mask Xf nd" "nd AND 16 = 0"
    using a by blast+
  show "nd \<noteq> 0 \<Longrightarrow> popcount nd \<noteq> 1 \<Longrightarrow> nd \<noteq> 3 \<Longrightarrow> in_mask Zf nd \<or> in_mask Nf nd"
    using a by blast
qed

text \<open>Several flags at once: the three code sequences of \<open>EMIT_GetNZ00\<close>.\<close>

definition nz00_many :: "u8 \<Rightarrow> u8 \<Rightarrow> u8 \<Rightarrow> jit \<Rightarrow> jit" where
  "nz00_many cc nd tmp j2 =
     (if nd AND SR_NZ = SR_NZ
      then EMIT [cinc tmp 31 A64_CC_LE, cinc tmp tmp A64_CC_MI, bfi cc tmp 2 2]
             (if nd AND SR_VC \<noteq> 0 then EMIT [bic_immed cc cc 4 0] j2 else j2)
      else if nd AND SR_NZ = SR_Z
      then EMIT [bic_immed cc cc 4 0, orr_immed tmp cc 1 30, csel cc tmp cc A64_CC_EQ] j2
      else if nd AND SR_NZ = SR_N
      then EMIT [bic_immed cc cc 4 0, orr_immed tmp cc 1 29, csel cc tmp cc A64_CC_MI] j2
      else j2)"

lemma nz00_many_copies:
  assumes "regs2 cc r" "nd < 16" "nd \<noteq> 0" "popcount nd \<noteq> 1" "nd \<noteq> 3"
    "\<not> m_v m" "\<not> (m_n m \<and> m_z m)"
  shows "\<exists>m1. updates {r, cc} j2 m (nz00_many cc nd r j2) m1 \<and>
    copying host_flag_logic m nd nd' (rdW m cc) (rdW m1 cc)"
proof -
  note nz = and_NZ [OF assms(2)]
  have cc: "is_reg cc" using assms(1) by (simp add: regs2_def)
  have rot: "word_rotr (unat (30 :: u8)) (mask (unat (1 :: u8))) = (2 ^ alt_bit Zf :: u32)"
    "word_rotr (unat (29 :: u8)) (mask (unat (1 :: u8))) = (2 ^ alt_bit Nf :: u32)"
    "word_rotr (unat (0 :: u8)) (mask (unat (4 :: u8))) = (mask 4 :: u32)"
    by code_simp+
  consider "in_mask Zf nd" "in_mask Nf nd" | "in_mask Zf nd" "\<not> in_mask Nf nd"
    | "\<not> in_mask Zf nd" "in_mask Nf nd" using nz(7) [OF assms(3-5)] by blast
  then show ?thesis
  proof cases
    case 1
    let ?j = "if nd AND SR_VC \<noteq> 0 then EMIT [bic_immed cc cc 4 0] j2 else j2"
    have "\<exists>m0. updates {r, cc} j2 m ?j m0 \<and> same_upper (rdW m0 cc) (rdW m cc) \<and>
        ccr (rdW m0 cc) Xf = ccr (rdW m cc) Xf \<and>
        (in_mask Cf nd \<or> in_mask Vf nd \<longrightarrow> \<not> ccr (rdW m0 cc) Cf \<and> \<not> ccr (rdW m0 cc) Vf)"
    proof (cases "nd AND SR_VC \<noteq> 0")
      case True
      from seg_bic [OF cc, of 4 0 r j2 m] obtain m0 where
        "updates {r, cc} j2 m (EMIT [bic_immed cc cc 4 0] j2) m0" "rdW m0 cc = rdW m cc AND NOT (mask 4)"
        unfolding rot by auto
      with True show ?thesis
        by (intro exI [of _ m0]) (simp add: same_upper_iff ccr_def bit_simps)
    next
      case False
      then have "\<not> (in_mask Cf nd \<or> in_mask Vf nd)" using nz(4) by (simp add: SR_VC_def)
      with False show ?thesis
        by (intro exI [of _ m]) (simp add: updates_refl same_upper_def)
    qed
    then obtain m0 where m0: "updates {r, cc} j2 m ?j m0" "same_upper (rdW m0 cc) (rdW m cc)"
        "ccr (rdW m0 cc) Xf = ccr (rdW m cc) Xf"
        "in_mask Cf nd \<or> in_mask Vf nd \<longrightarrow> \<not> ccr (rdW m0 cc) Cf \<and> \<not> ccr (rdW m0 cc) Vf" by blast
    have "nz_count m0 = nz_count m" using m0(1) by (simp add: nz_count_def updates_def)
    with seg_nz [OF assms(1), of ?j m0] obtain m1 where
      m1: "updates {r, cc} ?j m0 (nz00_many cc nd r j2) m1"
        "rdW m1 cc = bfi_val 2 2 (nz_count m) (rdW m0 cc)"
      using 1 nz(1) by (auto simp: nz00_many_def SR_NZ_def)
    from copying_nz [OF assms(6,7) nz(5) m0(2-4)] updates_trans [OF m0(1) m1(1)] m1(2)
    show ?thesis by auto
  next
    case 2
    have e: "nz00_many cc nd r j2 =
        EMIT [bic_immed cc cc 4 0, orr_immed r cc 1 30, csel cc r cc A64_CC_EQ] j2"
      using 2 nz(1,2) by (simp add: nz00_many_def SR_NZ_def SR_Z_def SR_N_def)
    obtain m1 where m1: "updates {r, cc} j2 m (nz00_many cc nd r j2) m1" "rdW m1 cc =
        (if m_z m then (rdW m cc AND NOT 15) OR 2 ^ alt_bit Zf else rdW m cc AND NOT 15)"
      using seg_clear_set [OF assms(1), of 1 A64_CC_EQ 30 "2 ^ alt_bit Zf" "m_z m" m j2, OF _ _ _ rot(1)]
      unfolding e by auto
    have "copying host_flag_logic m nd nd' (rdW m cc) (rdW m1 cc)"
      unfolding m1(2) by (rule copying_clear_set) (use 2 nz(5) in auto)
    with m1(1) show ?thesis by blast
  next
    case 3
    have e: "nz00_many cc nd r j2 =
        EMIT [bic_immed cc cc 4 0, orr_immed r cc 1 29, csel cc r cc A64_CC_MI] j2"
      using 3 nz(1,2,3) by (simp add: nz00_many_def SR_NZ_def SR_Z_def SR_N_def)
    obtain m1 where m1: "updates {r, cc} j2 m (nz00_many cc nd r j2) m1" "rdW m1 cc =
        (if m_n m then (rdW m cc AND NOT 15) OR 2 ^ alt_bit Nf else rdW m cc AND NOT 15)"
      using seg_clear_set [OF assms(1), of 1 A64_CC_MI 29 "2 ^ alt_bit Nf" "m_n m" m j2, OF _ _ _ rot(2)]
      unfolding e by auto
    have "copying host_flag_logic m nd nd' (rdW m cc) (rdW m1 cc)"
      unfolding m1(2) by (rule copying_clear_set) (use 3 nz(5) in auto)
    with m1(1) show ?thesis by blast
  qed
qed

lemma copied_0: "copied h m nd 0 v w \<longleftrightarrow> copying h m nd 0 v w"
  by (simp add: copied_def)

lemma seg_bic_copies:
  assumes "is_reg cc" "(nd, w, k) \<in> {(1, 1, 31), (2, 1, 0)}"
  shows "\<exists>m1. updates {r, cc} j1 m (EMIT [bic_immed cc cc w k] j1) m1 \<and>
    copying host_flag_logic m nd nd' (rdW m cc) (rdW m1 cc)"
proof -
  have "word_rotr (unat (31 :: u8)) (mask (unat (1 :: u8))) = (push_bit 1 1 :: u32)"
    "word_rotr (unat (0 :: u8)) (mask (unat (1 :: u8))) = (push_bit 0 1 :: u32)" by code_simp+
  then have rot: "word_rotr (unat k) (mask (unat w)) = (push_bit (if nd = 1 then 1 else 0) 1 :: u32)"
    using assms(2) by auto
  have w: "1 \<le> unat w" "unat w \<le> 31" "unat k < 32" using assms(2) by auto
  obtain m1 where m1: "updates {r, cc} j1 m (EMIT [bic_immed cc cc w k] j1) m1"
    "rdW m1 cc = rdW m cc AND NOT (word_rotr (unat k) (mask (unat w)))"
    using seg_bic [OF assms(1) w] by blast
  have "copying host_flag_logic m nd nd' (rdW m cc) (rdW m1 cc)"
    unfolding m1(2) rot using assms(2)
    by (auto simp: copying_def same_upper_iff ccr_def bit_simps)
  with m1(1) show ?thesis by blast
qed

lemma EMIT_GetNZ00_copies:
  assumes "cc \<in> live_temps j" "free_temps 2 j" "nd < 16" "nd \<noteq> 3" "\<not> m_v m" "\<not> (m_n m \<and> m_z m)"
  shows "fst (EMIT_GetNZ00 cc nd j) = 0"
    "\<exists>m'. updates {cc} j m (snd (EMIT_GetNZ00 cc nd j)) m' \<and>
      copied host_flag_logic m nd 0 (rdW m cc) (rdW m' cc)"
proof -
  have "nd < 32" using assms(3) by (rule less_trans) simp
  note p1 = popcount_1 [OF this]
  have n16: "nd \<noteq> 16" using assms(3) by auto
  let ?j0 = "j\<lparr>host_flags := nd AND SR_NZ\<rparr>"
  obtain r j1 where a: "alloc_result ?j0 r j1" and fr: "free_temps 1 j1"
    using free_temps_2 [of ?j0] assms(2) by auto
  have cc0: "cc \<in> live_temps ?j0" using assms(1) by simp
  obtain r2 j2 where a2: "alloc_result j1 r2 j2" using free_temps_1 [OF fr] by blast
  note rg = cc_tmp_regs2 [OF cc0 a]
  have cc: "is_reg cc" using rg by (simp add: regs2_def)
  define j3 where "j3 = (if popcount nd = 1 then
      (if nd = 1 then EMIT [bic_immed cc cc 1 31] j1 else if nd = 2 then EMIT [bic_immed cc cc 1 0] j1
       else EMIT (one_flag cc r A64_CC_CS nd) j1)
     else RA_FreeARMRegister r2 (nz00_many cc nd r j2))"
  have code: "EMIT_GetNZ00 cc nd j = (0, if nd = 0 then ?j0 else RA_FreeARMRegister r j3)"
    using alloc_result_host [OF a] tmp_result(1) [OF a2] p1 n16 and_NZ(6) [OF assms(3)]
    by (auto simp: EMIT_GetNZ00_def j3_def one_flag_def nz00_many_def)
  show "fst (EMIT_GetNZ00 cc nd j) = 0" by (simp add: code)
  have "\<exists>m1. updates {r, cc} j1 m j3 m1 \<and> copying host_flag_logic m nd 0 (rdW m cc) (rdW m1 cc)"
    if "nd \<noteq> 0"
  proof (cases "popcount nd = 1")
    case True
    then consider "nd = 1" | "nd = 2" | "nd = 4" | "nd = 8" using p1 n16 by auto
    then show ?thesis
    proof cases
      case 1 then show ?thesis using seg_bic_copies [OF cc, of 1 1 31] True by (simp add: j3_def)
    next
      case 2 then show ?thesis using seg_bic_copies [OF cc, of 2 1 0] True by (simp add: j3_def)
    next
      case 3 then show ?thesis
        using inner_flag [OF rg, of A64_CC_EQ 4 Zf 2 m host_flag_logic] True
        by (simp add: j3_def one_flag_def)
    next
      case 4 then show ?thesis
        using inner_flag [OF rg, of A64_CC_MI 8 Nf 3 m host_flag_logic] True
        by (simp add: j3_def one_flag_def)
    qed
  next
    case False
    obtain m1 where m1: "updates {r, cc} j2 m (nz00_many cc nd r j2) m1"
      "copying host_flag_logic m nd 0 (rdW m cc) (rdW m1 cc)"
      using nz00_many_copies [OF rg assms(3) \<open>nd \<noteq> 0\<close> False assms(4-6)] by blast
    have "updates {r, cc} j1 m (RA_FreeARMRegister r2 (nz00_many cc nd r j2)) m1"
      by (rule updates_alloc [OF a2 updates_mono [OF m1(1)]]) blast
    with m1(2) False show ?thesis by (auto simp: j3_def)
  qed
  then have "nd \<noteq> 0 \<Longrightarrow> \<exists>m'. updates {cc} ?j0 m (snd (EMIT_GetNZ00 cc nd j)) m' \<and>
      copied host_flag_logic m nd 0 (rdW m cc) (rdW m' cc)"
    using updates_alloc [OF a, of "{cc}"] by (auto simp: code copied_0)
  moreover have "\<exists>m'. updates {cc} j m (snd (EMIT_GetNZ00 cc nd j)) m' \<and>
      copied host_flag_logic m nd 0 (rdW m cc) (rdW m' cc)" if z: "nd = 0"
  proof (intro exI conjI)
    have "snd (EMIT_GetNZ00 cc nd j) = ?j0" unfolding code snd_conv using z by (rule if_P)
    then show "updates {cc} j m (snd (EMIT_GetNZ00 cc nd j)) m"
      by (simp add: updates_refl status_part_def)
    show "copied host_flag_logic m nd 0 (rdW m cc) (rdW m cc)"
      unfolding copied_0 by (rule copying_refl) (simp add: z)
  qed
  ultimately show "\<exists>m'. updates {cc} j m (snd (EMIT_GetNZ00 cc nd j)) m' \<and>
      copied host_flag_logic m nd 0 (rdW m cc) (rdW m' cc)" by auto
qed

end
