(* ===== verification/Flag_Update.thy ===== *)
theory Flag_Update
  imports Flag_Logic
begin

text \<open>
  The whole update of the condition codes at the end of an addition or subtraction, from
  the allocation of the CCR register to the last conditional set, and the properties of
  the condition code emitters.
\<close>

section \<open>Setting what the copying emitter left\<close>

lemma bit_or_ucast: "bit (w OR ucast (x :: u8) :: u32) k \<longleftrightarrow> bit w k \<or> bit x k"
  by (auto simp: bit_simps dest: bit_imp_le_length)

text \<open>One conditional set of the tail, for a flag and its mask in the register's order.\<close>

definition sets_flags :: "ccflag set \<Rightarrow> bool \<Rightarrow> u32 \<Rightarrow> u32 \<Rightarrow> bool" where
  "sets_flags S b v w \<longleftrightarrow> (\<forall>f. ccr w f \<longleftrightarrow> ccr v f \<or> (f \<in> S \<and> b)) \<and> same_upper w v"

lemma sets_mask:
  assumes "\<And>f. bit x (alt_bit f) \<longleftrightarrow> f \<in> S" "x < 32"
  shows "sets_flags S True v (v OR ucast (x :: u8))"
proof -
  have "x < 2 ^ 5" using assms(2) by simp
  then have "\<not> bit x k" if "5 \<le> k" for k
    using that less_mask_eq [of x 5] by (metis bit_and_iff bit_mask_iff not_less)
  with assms(1) show ?thesis by (auto simp: sets_flags_def ccr_def bit_or_ucast same_upper_iff)
qed

lemma tail_masks:
  "(x, S) \<in> {(4, {Zf}), (8, {Nf}), (1, {Vf}), (16, {Xf}), (2, {Cf}), (18, {Cf, Xf})} \<Longrightarrow>
   (\<forall>f. bit (x :: u8) (alt_bit f) \<longleftrightarrow> f \<in> S) \<and> x < 32 \<and> cond_mask x = x"
proof -
  have "list_all (\<lambda>(x :: u8, S). list_all (\<lambda>f. bit x (alt_bit f) \<longleftrightarrow> f \<in> set S) [Cf, Vf, Zf, Nf, Xf] \<and>
      x < 32 \<and> cond_mask x = x)
    [(4, [Zf]), (8, [Nf]), (1, [Vf]), (16, [Xf]), (2, [Cf]), (18, [Cf, Xf])]" by code_simp
  then show "(x, S) \<in> {(4, {Zf}), (8, {Nf}), (1, {Vf}), (16, {Xf}), (2, {Cf}), (18, {Cf, Xf})} \<Longrightarrow>
      ?thesis" by (auto simp: ccflag_all)
qed

lemma seg_set:
  assumes "cc \<in> live_temps j" "free_temps 1 j" "c < 14"
    "(x, S) \<in> {(4, {Zf}), (8, {Nf}), (1, {Vf}), (16, {Xf}), (2, {Cf}), (18, {Cf, Xf})}"
  shows "\<exists>m'. updates {cc} j m (EMIT_SetFlagsConditional cc x c j) m' \<and>
    sets_flags S (cond_holds c m) (rdW m cc) (rdW m' cc)"
proof -
  note t = tail_masks [OF assms(4)]
  from EMIT_SetFlagsConditional_updates [OF assms(1-3), of m x] t obtain m' where
    u: "updates {cc} j m (EMIT_SetFlagsConditional cc x c j) m'"
      "rdW m' cc = (if cond_holds c m then rdW m cc OR ucast x else rdW m cc)" by auto
  have "sets_flags S (cond_holds c m) (rdW m cc) (rdW m' cc)"
    using t sets_mask [of x S "rdW m cc"] u(2)
    by (cases "cond_holds c m") (simp_all add: sets_flags_def same_upper_def)
  with u(1) show ?thesis by blast
qed

text \<open>A step of the tail that is taken only when the mask asks for it.\<close>

lemma step_set:
  assumes "updates {cc} j m j1 m1" "cc \<in> live_temps j" "free_temps 1 j" "c < 14"
    "(x, S) \<in> {(4, {Zf}), (8, {Nf}), (1, {Vf}), (16, {Xf}), (2, {Cf}), (18, {Cf, Xf})}"
  shows "\<exists>m2. updates {cc} j m (if b then EMIT_SetFlagsConditional cc x c j1 else j1) m2 \<and>
    sets_flags S (b \<and> cond_holds c m) (rdW m1 cc) (rdW m2 cc)"
proof (cases b)
  case True
  from assms(1-3) have "cc \<in> live_temps j1" "free_temps 1 j1"
    by (auto simp: updates_def free_temps_def)
  from seg_set [OF this assms(4,5), of m1] obtain m2 where
    "updates {cc} j1 m1 (EMIT_SetFlagsConditional cc x c j1) m2"
    "sets_flags S (cond_holds c m1) (rdW m1 cc) (rdW m2 cc)" by blast
  moreover have "cond_holds c m1 = cond_holds c m"
    using assms(1) by (intro cond_holds_cong) (simp_all add: updates_def)
  ultimately show ?thesis using True updates_trans [OF assms(1)] by auto
next
  case False
  with assms(1) show ?thesis by (auto simp: sets_flags_def same_upper_def)
qed

lemma mask_tests:
  assumes "um < 32"
  shows "um AND SR_Z \<noteq> 0 \<longleftrightarrow> in_mask Zf um" "um AND SR_N \<noteq> 0 \<longleftrightarrow> in_mask Nf um"
    "um AND SR_V \<noteq> 0 \<longleftrightarrow> in_mask Vf um" "um AND SR_X \<noteq> 0 \<longleftrightarrow> in_mask Xf um"
    "um AND (SR_X OR SR_C) \<noteq> 0 \<longleftrightarrow> in_mask Xf um \<or> in_mask Cf um"
    "um AND (SR_X OR SR_C) = SR_X \<longleftrightarrow> in_mask Xf um \<and> \<not> in_mask Cf um"
    "um AND (SR_X OR SR_C) = SR_C \<longleftrightarrow> \<not> in_mask Xf um \<and> in_mask Cf um"
proof -
  have "list_all (\<lambda>um. (um AND SR_Z \<noteq> 0 \<longleftrightarrow> in_mask Zf um) \<and> (um AND SR_N \<noteq> 0 \<longleftrightarrow> in_mask Nf um) \<and>
    (um AND SR_V \<noteq> 0 \<longleftrightarrow> in_mask Vf um) \<and> (um AND SR_X \<noteq> 0 \<longleftrightarrow> in_mask Xf um) \<and>
    (um AND (SR_X OR SR_C) \<noteq> 0 \<longleftrightarrow> in_mask Xf um \<or> in_mask Cf um) \<and>
    (um AND (SR_X OR SR_C) = SR_X \<longleftrightarrow> in_mask Xf um \<and> \<not> in_mask Cf um) \<and>
    (um AND (SR_X OR SR_C) = SR_C \<longleftrightarrow> \<not> in_mask Xf um \<and> in_mask Cf um)) masks" by code_simp
  note a = this [unfolded list_all_iff, THEN bspec, OF in_masks [OF assms]]
  show "um AND SR_Z \<noteq> 0 \<longleftrightarrow> in_mask Zf um" "um AND SR_N \<noteq> 0 \<longleftrightarrow> in_mask Nf um"
    "um AND SR_V \<noteq> 0 \<longleftrightarrow> in_mask Vf um" "um AND SR_X \<noteq> 0 \<longleftrightarrow> in_mask Xf um"
    "um AND (SR_X OR SR_C) \<noteq> 0 \<longleftrightarrow> in_mask Xf um \<or> in_mask Cf um"
    "um AND (SR_X OR SR_C) = SR_X \<longleftrightarrow> in_mask Xf um \<and> \<not> in_mask Cf um"
    "um AND (SR_X OR SR_C) = SR_C \<longleftrightarrow> \<not> in_mask Xf um \<and> in_mask Cf um"
    using a by blast+
qed

text \<open>The whole tail: every flag of the mask is set on its condition, no other changes.\<close>

fun tail_flag :: "bool \<Rightarrow> mstate \<Rightarrow> ccflag \<Rightarrow> bool" where
  "tail_flag carry m Zf = m_z m" | "tail_flag carry m Nf = m_n m" | "tail_flag carry m Vf = m_v m"
| "tail_flag carry m Cf = carry" | "tail_flag carry m Xf = carry"

lemma set_rest_updates:
  assumes "cc \<in> live_temps j" "free_temps 1 j" "c < 14" "um < 32"
  shows "\<exists>m'. updates {cc} j m (set_rest c cc um j) m' \<and>
    (\<forall>f. ccr (rdW m' cc) f \<longleftrightarrow>
       ccr (rdW m cc) f \<or> (in_mask f um \<and> tail_flag (cond_holds c m) m f)) \<and>
    same_upper (rdW m' cc) (rdW m cc)"
proof -
  let ?j1 = "if in_mask Zf um then EMIT_SetFlagsConditional cc 4 A64_CC_EQ j else j"
  let ?j2 = "if in_mask Nf um then EMIT_SetFlagsConditional cc 8 A64_CC_MI ?j1 else ?j1"
  let ?j3 = "if in_mask Vf um then EMIT_SetFlagsConditional cc 1 A64_CC_VS ?j2 else ?j2"
  let ?b = "in_mask Xf um \<or> in_mask Cf um"
  obtain x S where x: "(x, S) \<in> {(4, {Zf}), (8, {Nf}), (1, {Vf}), (16, {Xf}), (2, {Cf}), (18, {Cf, Xf})}"
    and j4: "set_rest c cc um j = (if ?b then EMIT_SetFlagsConditional cc x c ?j3 else ?j3)"
    and S: "?b \<Longrightarrow> f \<in> S \<longleftrightarrow> (f = Cf \<or> f = Xf) \<and> in_mask f um" for f
  proof -
    define x :: u8 where "x = (if \<not> in_mask Cf um then 16 else if \<not> in_mask Xf um then 2 else 18)"
    define S where "S = (if \<not> in_mask Cf um then {Xf} else if \<not> in_mask Xf um then {Cf} else {Cf, Xf})"
    have o: "SR_Calt OR SR_X = 18" by (simp add: SR_Calt_def SR_X_def)
    have "set_rest c cc um j = (if ?b then EMIT_SetFlagsConditional cc x c ?j3 else ?j3)"
      unfolding set_rest_def mask_tests [OF assms(4)] o x_def Let_def
      by (simp add: sr_defs SR_X_def SR_Calt_def SR_Valt_def)
    then show thesis using that [of x S] by (auto simp: x_def S_def split: if_splits)
  qed
  have u0: "updates {cc} j m j m" by (simp add: updates_refl)
  obtain m1 where u1: "updates {cc} j m ?j1 m1"
    and s1: "sets_flags {Zf} (in_mask Zf um \<and> m_z m) (rdW m cc) (rdW m1 cc)"
    using step_set [OF u0 assms(1,2), of A64_CC_EQ 4 "{Zf}" "in_mask Zf um"] by auto
  obtain m2 where u2: "updates {cc} j m ?j2 m2"
    and s2: "sets_flags {Nf} (in_mask Nf um \<and> m_n m) (rdW m1 cc) (rdW m2 cc)"
    using step_set [OF u1 assms(1,2), of A64_CC_MI 8 "{Nf}" "in_mask Nf um"] by auto
  obtain m3 where u3: "updates {cc} j m ?j3 m3"
    and s3: "sets_flags {Vf} (in_mask Vf um \<and> m_v m) (rdW m2 cc) (rdW m3 cc)"
    using step_set [OF u2 assms(1,2), of A64_CC_VS 1 "{Vf}" "in_mask Vf um"] by auto
  obtain m4 where u4: "updates {cc} j m (set_rest c cc um j) m4"
    and s4: "sets_flags S (?b \<and> cond_holds c m) (rdW m3 cc) (rdW m4 cc)"
    using step_set [OF u3 assms(1,2,3) x, of ?b] unfolding j4 by auto
  have "ccr (rdW m4 cc) f \<longleftrightarrow>
      ccr (rdW m cc) f \<or> (in_mask f um \<and> tail_flag (cond_holds c m) m f)" for f
    using s1 s2 s3 s4 S [of f] unfolding sets_flags_def by (cases f) auto
  moreover have "same_upper (rdW m4 cc) (rdW m cc)"
    using s1 s2 s3 s4 by (simp add: sets_flags_def same_upper_def)
  ultimately show ?thesis using u4 by blast
qed

section \<open>The whole update\<close>

text \<open>
  What the program sees after an update of the flags in a mask: the emitted code has no
  branch and runs (\<open>produces\<close>), these flags are the host's
  (\<open>h\<close>), X is kept unless the mask names it, and so are the rest of the status registers.
\<close>

definition flags_from :: "(mstate \<Rightarrow> ccflag \<Rightarrow> bool) \<Rightarrow> u8 \<Rightarrow> jit \<Rightarrow> mstate \<Rightarrow> jit \<Rightarrow> mstate \<Rightarrow> bool" where
  "flags_from h um j m j' m' \<longleftrightarrow>
     produces j m j' m' \<and> ra_wf j' \<and> coherent j' m' \<and>
     (\<forall>f. in_mask f um \<longrightarrow> bit (cc_view j' m') (alt_bit f) = h m f) \<and>
     (\<not> in_mask Xf um \<longrightarrow> bit (cc_view j' m') 4 = bit (cc_view j m) 4) \<and>
     drop_bit 5 (cc_view j' m') = drop_bit 5 (cc_view j m) \<and>
     fpcr_view j' m' = fpcr_view j m \<and> fpsr_view j' m' = fpsr_view j m \<and>
     (\<forall>s. s \<notin> arm_temps \<longrightarrow> rdX m' s = rdX m s) \<and> m_mem m' = m_mem m \<and>
     m_n m' = m_n m \<and> m_z m' = m_z m \<and> m_c m' = m_c m \<and> m_v m' = m_v m"

lemma cc_bits:
  assumes "reg_CC j = cc" "cc \<noteq> 0xff"
  shows "bit (cc_view j m) (alt_bit f) = ccr (rdW m cc) f"
    "same_upper (rdW m' cc) (rdW m cc) \<Longrightarrow>
     drop_bit 5 (ucast (rdX m' cc) :: u16) = drop_bit 5 (ucast (rdX m cc))"
proof -
  have "alt_bit f < 16" by (cases f) simp_all
  with assms show "bit (cc_view j m) (alt_bit f) = ccr (rdW m cc) f"
    by (simp add: cc_view_def ccr_def rdW_def bit_simps)
  assume u: "same_upper (rdW m' cc) (rdW m cc)"
  show "drop_bit 5 (ucast (rdX m' cc) :: u16) = drop_bit 5 (ucast (rdX m cc))"
  proof (rule bit_word_eqI)
    fix n assume n: "n < LENGTH(16)"
    have "bit (rdX m' cc) (5 + n) = bit (rdX m cc) (5 + n)" if "5 + n < 16"
      using u [unfolded same_upper_iff, rule_format, of "5 + n"] that
      by (simp add: rdW_def bit_simps)
    then show "bit (drop_bit 5 (ucast (rdX m' cc) :: u16)) n =
        bit (drop_bit 5 (ucast (rdX m cc)) :: u16) n"
      by (auto simp: bit_simps)
  qed
qed

lemma updates_views:
  assumes "updates {cc} j m j' m'" "ra_wf j" "coherent j m" "reg_CC j = cc" "cc \<noteq> 0xff" "mod_CC j = 1"
  shows "ra_wf j'" "coherent j' m'" "fpcr_view j' m' = fpcr_view j m" "fpsr_view j' m' = fpsr_view j m"
    "reg_CC j' = cc"
proof -
  have s: "status_part j' = status_part j" "live_temps j' = live_temps j"
    using assms(1) by (simp_all add: updates_def)
  then have f: "reg_CC j' = cc" "mod_CC j' = 1" "reg_FPCR j' = reg_FPCR j" "mod_FPCR j' = mod_FPCR j"
      "reg_FPSR j' = reg_FPSR j" "mod_FPSR j' = mod_FPSR j"
    using assms(4,6) by (simp_all add: status_part_def)
  show "ra_wf j'" using assms(2) status_part_regs [OF s(1)] s(2) by (simp add: ra_wf_live)
  have d: "distinct (status_regs j)" using assms(2) by (simp add: ra_wf_def)
  have r: "rdX m' x = rdX m x" if "x \<in> {reg_FPCR j, reg_FPSR j}" "x \<noteq> 0xff" for x
  proof -
    have "x \<in> live_temps j" using status_reg_temp [OF assms(2), of x] that by blast
    moreover have "x \<noteq> cc" using d that assms(4,5) unfolding distinct_status by auto
    ultimately show ?thesis using assms(1) by (simp add: updates_def)
  qed
  have simd: "m_simd m' = m_simd m" using assms(1) by (simp add: updates_def)
  show v: "fpcr_view j' m' = fpcr_view j m" "fpsr_view j' m' = fpsr_view j m"
    using r f simd by (simp_all add: fpcr_view_def fpsr_view_def)
  show "coherent j' m'" using assms(3) f v simd by (simp add: coherent_def)
  show "reg_CC j' = cc" by (rule f)
qed

text \<open>The register that \<open>RA_ModifyCC\<close> returns, with one temporary less.\<close>

lemma RA_ModifyCC_free:
  assumes "ra_wf j" "coherent j m" "free_temps (Suc n) j" "RA_ModifyCC j = (cc, j1)"
  shows "\<exists>m1. loads cc j m j1 m1 \<and> ucast (rdX m1 cc) = cc_view j m"
    "reg_CC j1 = cc" "mod_CC j1 = 1" "cc \<noteq> 0xff" "cc \<in> live_temps j1" "free_temps n j1"
proof -
  obtain j0 where g: "RA_GetCC j = (cc, j0)" and j1: "j1 = j0\<lparr>mod_CC := 1\<rparr>"
    using assms(4) by (auto simp: RA_ModifyCC_def split: prod.splits)
  have "cc \<noteq> 0xff \<and> free_temps n j0"
  proof (cases "reg_CC j = 0xff")
    case True
    obtain r j2 where a: "alloc_result j r j2" "free_temps n j2"
      using free_temps_alloc [OF assms(3)] .
    then have e: "cc = r" "j0 = (EMIT [mov_simd_to_reg r 19 TS_H 5] (j2\<lparr>reg_CC := r\<rparr>))\<lparr>mod_CC := 0\<rparr>"
      using RA_GetCC_cases(2) [OF True, of r j2] g by (simp_all add: alloc_result_def)
    have "r \<noteq> 0xff" using arm_temps_less [of r] a(1) by (simp add: alloc_result_def)
    with a(2) show ?thesis unfolding e by (simp add: free_temps_def live_temps_def)
  next
    case False
    then have "cc = reg_CC j" "j0 = j" using RA_GetCC_cases(1) [OF False] g by simp_all
    with False show ?thesis using free_temps_mono [OF assms(3), of n] by simp
  qed
  then show n: "cc \<noteq> 0xff" "free_temps n j1" by (simp_all add: j1 free_temps_def live_temps_def)
  obtain m1 where l: "loads cc j m j0 m1" "ucast (rdX m1 cc) = cc_view j m"
    using RA_GetCC_loads [OF assms(1,2) g n(1)] by blast
  then show "\<exists>m1. loads cc j m j1 m1 \<and> ucast (rdX m1 cc) = cc_view j m"
    using loads_mod(1) unfolding j1 by blast
  show r: "reg_CC j1 = cc" "mod_CC j1 = 1" using RA_GetCC_reg [OF g] by (simp_all add: j1)
  have "ra_wf j1" using l(1) by (simp add: loads_def j1)
  then show "cc \<in> live_temps j1" using status_reg_temp [of j1 cc] r n by simp
qed

lemma copied_tail:
  assumes "copied h m um um' v w" "\<And>f. tail_flag b m f = h m f"
    "\<And>f. ccr u f \<longleftrightarrow> ccr w f \<or> (in_mask f um' \<and> tail_flag b m f)" "same_upper u w"
  shows "(\<forall>f. in_mask f um \<longrightarrow> ccr u f = h m f) \<and> (\<not> in_mask Xf um \<longrightarrow> ccr u Xf = ccr v Xf) \<and>
    same_upper u v"
  using assms unfolding copied_def copying_def same_upper_def by metis

lemma tail_flag_cong:
  "m_n m' = m_n m \<Longrightarrow> m_z m' = m_z m \<Longrightarrow> m_v m' = m_v m \<Longrightarrow> tail_flag b m' f = tail_flag b m f"
  by (cases f) simp_all

lemma update_flags_from:
  assumes "ra_wf j" "coherent j m" "free_temps 3 j" "RA_ModifyCC j = (cc, j1)"
    and getter: "\<And>m1. cc \<in> live_temps j1 \<Longrightarrow> free_temps 2 j1 \<Longrightarrow> \<exists>m2. updates {cc} j1 m1 j2 m2 \<and>
      copied h m1 um um' (rdW m1 cc) (rdW m2 cc)"
    and c: "um' < 32" "c < 14" "\<And>m f. tail_flag (cond_holds c m) m f = h m f"
  shows "\<exists>m'. flags_from h um j m (set_rest c cc um' j2) m'" "free_temps 2 (set_rest c cc um' j2)"
proof -
  have "free_temps (Suc 2) j" using assms(3) by simp
  note g = RA_ModifyCC_free [OF assms(1,2) this assms(4)]
  obtain m1 where l: "loads cc j m j1 m1" "ucast (rdX m1 cc) = cc_view j m" using g(1) by blast
  obtain m2 where u1: "updates {cc} j1 m1 j2 m2" and cp: "copied h m1 um um' (rdW m1 cc) (rdW m2 cc)"
    using getter g by blast
  have lv: "cc \<in> live_temps j2" "free_temps 1 j2" using u1 g by (simp_all add: updates_def free_temps_def)
  obtain m3 where u2: "updates {cc} j2 m2 (set_rest c cc um' j2) m3"
    and t: "\<And>f. ccr (rdW m3 cc) f \<longleftrightarrow> ccr (rdW m2 cc) f \<or> (in_mask f um' \<and> tail_flag (cond_holds c m2) m2 f)"
    and up: "same_upper (rdW m3 cc) (rdW m2 cc)"
    using set_rest_updates [OF lv c(2,1), of m2] by blast
  let ?j' = "set_rest c cc um' j2"
  have u: "updates {cc} j1 m1 ?j' m3" using updates_trans [OF u1 u2] .
  have ld: "ra_wf j1" "coherent j1 m1" "same_status j m j1 m1" "cc \<in> arm_temps" "produces j m j1 m1"
      "\<forall>s. s \<noteq> cc \<longrightarrow> rdX m1 s = rdX m s" "m_mem m1 = m_mem m"
    using l(1) by (simp_all add: loads_def)
  note v = updates_views [OF u ld(1,2) g(2,4,3)]
  have "m_n m1 = m_n m \<and> m_z m1 = m_z m \<and> m_c m1 = m_c m \<and> m_v m1 = m_v m \<and>
      m_n m2 = m_n m1 \<and> m_z m2 = m_z m1 \<and> m_c m2 = m_c m1 \<and> m_v m2 = m_v m1"
    using l(1) u1 by (simp add: loads_def updates_def)
  then have fl: "tail_flag (cond_holds c m1) m1 f = tail_flag (cond_holds c m) m f"
      "tail_flag (cond_holds c m2) m2 f = tail_flag (cond_holds c m1) m1 f" for f
    using cond_holds_cong [of m1 m c] cond_holds_cong [of m2 m1 c]
    by (simp_all add: tail_flag_cong [of m1 m] tail_flag_cong [of m2 m1])
  have k: "(\<forall>f. in_mask f um \<longrightarrow> ccr (rdW m3 cc) f = h m1 f) \<and>
      (\<not> in_mask Xf um \<longrightarrow> ccr (rdW m3 cc) Xf = ccr (rdW m1 cc) Xf) \<and>
      same_upper (rdW m3 cc) (rdW m1 cc)"
    by (rule copied_tail [OF cp c(3)]) (use t up fl in \<open>simp_all\<close>)
  have h: "h m1 f = h m f" for f using fl(1) c(3) by metis
  have b1: "cc_view j1 m1 = cc_view j m" using ld(3) by (simp add: same_status_def)
  have "produces j m ?j' m3"
    using produces_trans [OF ld(5)] u by (simp add: updates_def)
  moreover have "bit (cc_view ?j' m3) 4 = bit (cc_view j m) 4" if "\<not> in_mask Xf um"
    using k that cc_bits(1) [OF v(5) g(4), of m3 Xf] cc_bits(1) [OF g(2,4), of m1 Xf] b1 by simp
  moreover have "drop_bit 5 (cc_view ?j' m3) = drop_bit 5 (cc_view j m)"
    using k cc_bits(2) [OF g(2,4), of m3 m1] v(5) g(2,4) unfolding b1 [symmetric]
    by (simp add: cc_view_def)
  moreover have "rdX m3 s = rdX m s" if "s \<notin> arm_temps" for s
    using u ld(4,6) that by (auto simp: updates_def)
  moreover have "m_mem m3 = m_mem m" using u ld(7) by (simp add: updates_def)
  moreover have "m_n m3 = m_n m \<and> m_z m3 = m_z m \<and> m_c m3 = m_c m \<and> m_v m3 = m_v m"
    using u l(1) by (simp add: loads_def updates_def)
  ultimately have "flags_from h um j m ?j' m3" using v k h ld(3) cc_bits(1) [OF v(5) g(4)]
    unfolding flags_from_def same_status_def by metis
  then show "\<exists>m'. flags_from h um j m (set_rest c cc um' j2) m'" by blast
  show "free_temps 2 ?j'" using u g(6) by (simp add: updates_def free_temps_def)
qed

end
