(* ===== verification/Cond_Codes.thy ===== *)
theory Cond_Codes
  imports Flag_Update
begin

text \<open>
  Conditions (\<open>emu68/src/M68k_CC.c\<close>): the emitters that jump on an m68k condition, or leave
  it in the host's flags for the instruction that follows. Where \<open>host_flags\<close> says that the
  host still holds the flags of the last instruction, they are used as they are; otherwise
  the CCR register is tested. The constants are those of \<open>emu68/include/M68k.h\<close>.
\<close>

section \<open>The code\<close>

definition M_CC_T :: u8 where "M_CC_T = 0"
definition M_CC_F :: u8 where "M_CC_F = 1"
definition M_CC_HI :: u8 where "M_CC_HI = 2"
definition M_CC_LS :: u8 where "M_CC_LS = 3"
definition M_CC_CC :: u8 where "M_CC_CC = 4"
definition M_CC_CS :: u8 where "M_CC_CS = 5"
definition M_CC_NE :: u8 where "M_CC_NE = 6"
definition M_CC_EQ :: u8 where "M_CC_EQ = 7"
definition M_CC_VC :: u8 where "M_CC_VC = 8"
definition M_CC_VS :: u8 where "M_CC_VS = 9"
definition M_CC_PL :: u8 where "M_CC_PL = 10"
definition M_CC_MI :: u8 where "M_CC_MI = 11"
definition M_CC_GE :: u8 where "M_CC_GE = 12"
definition M_CC_LT :: u8 where "M_CC_LT = 13"
definition M_CC_GT :: u8 where "M_CC_GT = 14"
definition M_CC_LE :: u8 where "M_CC_LE = 15"

definition F_CC_EQ :: u8 where "F_CC_EQ = 1"
definition F_CC_NE :: u8 where "F_CC_NE = 14"
definition F_CC_OGT :: u8 where "F_CC_OGT = 2"
definition F_CC_ULE :: u8 where "F_CC_ULE = 13"
definition F_CC_OGE :: u8 where "F_CC_OGE = 3"
definition F_CC_ULT :: u8 where "F_CC_ULT = 12"
definition F_CC_OLT :: u8 where "F_CC_OLT = 4"
definition F_CC_UGE :: u8 where "F_CC_UGE = 11"
definition F_CC_OLE :: u8 where "F_CC_OLE = 5"
definition F_CC_UGT :: u8 where "F_CC_UGT = 10"
definition F_CC_OGL :: u8 where "F_CC_OGL = 6"
definition F_CC_UEQ :: u8 where "F_CC_UEQ = 9"
definition F_CC_OR :: u8 where "F_CC_OR = 7"
definition F_CC_UN :: u8 where "F_CC_UN = 8"
definition F_CC_F :: u8 where "F_CC_F = 0"
definition F_CC_T :: u8 where "F_CC_T = 15"

definition FPSR_N :: u32 where "FPSR_N = 0x08000000"
definition FPSR_Z :: u32 where "FPSR_Z = 0x04000000"
definition FPSR_NAN :: u32 where "FPSR_NAN = 0x01000000"
definition FPSRB_N :: u8 where "FPSRB_N = 27"
definition FPSRB_Z :: u8 where "FPSRB_Z = 26"
definition FPSRB_I :: u8 where "FPSRB_I = 25"
definition FPSRB_NAN :: u8 where "FPSRB_NAN = 24"

definition FIXUP_BCC :: u32 where "FIXUP_BCC = 0x00000bcc"
definition FIXUP_TBZ :: u32 where "FIXUP_TBZ = 0x00000036"

lemmas m_cc_defs =
  M_CC_T_def M_CC_F_def M_CC_HI_def M_CC_LS_def M_CC_CC_def M_CC_CS_def M_CC_NE_def M_CC_EQ_def M_CC_VC_def M_CC_VS_def M_CC_PL_def M_CC_MI_def M_CC_GE_def M_CC_LT_def M_CC_GT_def M_CC_LE_def
lemmas f_cc_defs =
  F_CC_EQ_def F_CC_NE_def F_CC_OGT_def F_CC_ULE_def F_CC_OGE_def F_CC_ULT_def F_CC_OLT_def F_CC_UGE_def F_CC_OLE_def F_CC_UGT_def F_CC_OGL_def F_CC_UEQ_def F_CC_OR_def F_CC_UN_def F_CC_F_def F_CC_T_def
lemmas fpsr_defs =
  FPSR_N_def FPSR_Z_def FPSR_NAN_def FPSRB_N_def FPSRB_Z_def FPSRB_I_def FPSRB_NAN_def

text \<open>
  The first component of the result is what the emitter stores through \<open>jump_type\<close>, when
  it stores anything; the distance is in words from the branch.
\<close>

definition EMIT_JumpOnCondition :: "u8 \<Rightarrow> u32 \<Rightarrow> jit \<Rightarrow> u32 option \<times> jit" where
  "EMIT_JumpOnCondition m68k_condition distance j0 =
     (case RA_GetCC j0 of (cc, j) \<Rightarrow>
      case (
      if m68k_condition = M_CC_EQ then
        (if host_flags j AND SR_Z \<noteq> 0
         then (Some FIXUP_BCC, 0xff, EMIT [b_cc A64_CC_EQ distance] j)
         else (Some FIXUP_TBZ, 0xff, EMIT [tbnz cc SRB_Z (ucast distance)] j))
      else if m68k_condition = M_CC_NE then
        (if host_flags j AND SR_Z \<noteq> 0
         then (Some FIXUP_BCC, 0xff, EMIT [b_cc A64_CC_NE distance] j)
         else (Some FIXUP_TBZ, 0xff, EMIT [tbz cc SRB_Z (ucast distance)] j))
      else if m68k_condition = M_CC_CS then
        (if host_flags j AND SR_C \<noteq> 0
         then (Some FIXUP_BCC, 0xff, EMIT [b_cc A64_CC_CS distance] j)
         else (Some FIXUP_TBZ, 0xff, EMIT [tbnz cc SRB_Calt (ucast distance)] j))
      else if m68k_condition = M_CC_CC then
        (if host_flags j AND SR_C \<noteq> 0
         then (Some FIXUP_BCC, 0xff, EMIT [b_cc A64_CC_CC distance] j)
         else (Some FIXUP_TBZ, 0xff, EMIT [tbz cc SRB_Calt (ucast distance)] j))
      else if m68k_condition = M_CC_PL then
        (if host_flags j AND SR_N \<noteq> 0
         then (Some FIXUP_BCC, 0xff, EMIT [b_cc A64_CC_PL distance] j)
         else (Some FIXUP_TBZ, 0xff, EMIT [tbz cc SRB_N (ucast distance)] j))
      else if m68k_condition = M_CC_MI then
        (if host_flags j AND SR_N \<noteq> 0
         then (Some FIXUP_BCC, 0xff, EMIT [b_cc A64_CC_MI distance] j)
         else (Some FIXUP_TBZ, 0xff, EMIT [tbnz cc SRB_N (ucast distance)] j))
      else if m68k_condition = M_CC_VS then
        (if host_flags j AND SR_V \<noteq> 0
         then (Some FIXUP_BCC, 0xff, EMIT [b_cc A64_CC_VS distance] j)
         else (Some FIXUP_TBZ, 0xff, EMIT [tbnz cc SRB_Valt (ucast distance)] j))
      else if m68k_condition = M_CC_VC then
        (if host_flags j AND SR_V \<noteq> 0
         then (Some FIXUP_BCC, 0xff, EMIT [b_cc A64_CC_VC distance] j)
         else (Some FIXUP_TBZ, 0xff, EMIT [tbz cc SRB_Valt (ucast distance)] j))
      else if m68k_condition = M_CC_LS then
        (Some FIXUP_BCC, 0xff, EMIT_rf [tst_immed cc 2 31, b_cc A64_CC_NE distance] j)
      else if m68k_condition = M_CC_HI then
        (Some FIXUP_BCC, 0xff, EMIT_rf [tst_immed cc 2 31, b_cc A64_CC_EQ distance] j)
      else if m68k_condition = M_CC_GE then
        (if host_flags j AND SR_NV = SR_NV
         then (Some FIXUP_BCC, 0xff, EMIT [b_cc A64_CC_GE distance] j)
         else case RA_AllocARMRegister j of (cond_tmp, j1) \<Rightarrow>
           (Some FIXUP_BCC, cond_tmp,
            EMIT [ror_i cond_tmp cc 4, set_nzcv cond_tmp, b_cc A64_CC_GE distance] j1))
      else if m68k_condition = M_CC_LT then
        (if host_flags j AND SR_NV = SR_NV
         then (Some FIXUP_BCC, 0xff, EMIT [b_cc A64_CC_LT distance] j)
         else case RA_AllocARMRegister j of (cond_tmp, j1) \<Rightarrow>
           (Some FIXUP_BCC, cond_tmp,
            EMIT [ror_i cond_tmp cc 4, set_nzcv cond_tmp, b_cc A64_CC_LT distance] j1))
      else if m68k_condition = M_CC_GT then
        (if host_flags j AND SR_NZV = SR_NZV
         then (Some FIXUP_BCC, 0xff, EMIT [b_cc A64_CC_GT distance] j)
         else case RA_AllocARMRegister j of (cond_tmp, j1) \<Rightarrow>
           (Some FIXUP_BCC, cond_tmp,
            EMIT [ror_i cond_tmp cc 4, set_nzcv cond_tmp, b_cc A64_CC_GT distance] j1))
      else if m68k_condition = M_CC_LE then
        (if host_flags j AND SR_NZV = SR_NZV
         then (Some FIXUP_BCC, 0xff, EMIT [b_cc A64_CC_LE distance] j)
         else case RA_AllocARMRegister j of (cond_tmp, j1) \<Rightarrow>
           (Some FIXUP_BCC, cond_tmp,
            EMIT [ror_i cond_tmp cc 4, set_nzcv cond_tmp, b_cc A64_CC_LE distance] j1))
      else (None, 0xff, EMIT [udf_i 0x0bcc] j))
      of (jump_type, cond_tmp, j') \<Rightarrow> (jump_type, RA_FreeARMRegister cond_tmp j'))"

text \<open>
  At the end of a unit the translator places the code of its exits and aims each branch
  there: the field for the distance of the reported kind is replaced.
\<close>

definition fixup :: "u32 \<Rightarrow> u32 \<Rightarrow> u32 \<Rightarrow> u32" where
  "fixup kind distance w =
    (if kind = FIXUP_BCC then I32 (I32 w AND NOT (push_bit 5 0x7ffff) OR push_bit 5 (distance AND 0x7ffff))
     else if kind = FIXUP_TBZ then I32 (I32 w AND NOT (push_bit 5 0x3fff) OR push_bit 5 (distance AND 0x3fff))
     else w)"

text \<open>The result is the host condition that holds after the emitted code.\<close>

definition EMIT_TestCondition :: "u8 \<Rightarrow> jit \<Rightarrow> u8 \<times> jit" where
  "EMIT_TestCondition m68k_condition j0 =
     (case RA_GetCC j0 of (cc, j) \<Rightarrow>
      case (
      if m68k_condition = M_CC_EQ then
        (if host_flags j AND SR_Z \<noteq> 0 then (A64_CC_EQ, 0xff, j)
         else (A64_CC_NE, 0xff, EMIT_rf [tst_immed cc 1 (31 AND (32 - SRB_Z))] j))
      else if m68k_condition = M_CC_NE then
        (if host_flags j AND SR_Z \<noteq> 0 then (A64_CC_NE, 0xff, j)
         else (A64_CC_EQ, 0xff, EMIT_rf [tst_immed cc 1 (31 AND (32 - SRB_Z))] j))
      else if m68k_condition = M_CC_CS then
        (if host_flags j AND SR_C \<noteq> 0 then (A64_CC_CS, 0xff, j)
         else (A64_CC_NE, 0xff, EMIT_rf [tst_immed cc 1 (31 AND (32 - SRB_Calt))] j))
      else if m68k_condition = M_CC_CC then
        (if host_flags j AND SR_C \<noteq> 0 then (A64_CC_CC, 0xff, j)
         else (A64_CC_EQ, 0xff, EMIT_rf [tst_immed cc 1 (31 AND (32 - SRB_Calt))] j))
      else if m68k_condition = M_CC_PL then
        (if host_flags j AND SR_N \<noteq> 0 then (A64_CC_PL, 0xff, j)
         else (A64_CC_EQ, 0xff, EMIT_rf [tst_immed cc 1 (31 AND (32 - SRB_N))] j))
      else if m68k_condition = M_CC_MI then
        (if host_flags j AND SR_N \<noteq> 0 then (A64_CC_MI, 0xff, j)
         else (A64_CC_NE, 0xff, EMIT_rf [tst_immed cc 1 (31 AND (32 - SRB_N))] j))
      else if m68k_condition = M_CC_VS then
        (if host_flags j AND SR_V \<noteq> 0 then (A64_CC_VS, 0xff, j)
         else (A64_CC_NE, 0xff, EMIT_rf [tst_immed cc 1 (31 AND (32 - SRB_Valt))] j))
      else if m68k_condition = M_CC_VC then
        (if host_flags j AND SR_V \<noteq> 0 then (A64_CC_VC, 0xff, j)
         else (A64_CC_EQ, 0xff, EMIT_rf [tst_immed cc 1 (31 AND (32 - SRB_Valt))] j))
      else if m68k_condition = M_CC_LS then (A64_CC_NE, 0xff, EMIT_rf [tst_immed cc 2 31] j)
      else if m68k_condition = M_CC_HI then (A64_CC_EQ, 0xff, EMIT_rf [tst_immed cc 2 31] j)
      else if m68k_condition = M_CC_GE then
        (if host_flags j AND SR_NV \<noteq> SR_NV
         then case RA_AllocARMRegister j of (cond_tmp, j1) \<Rightarrow>
           (A64_CC_GE, cond_tmp, EMIT [ror_i cond_tmp cc 4, set_nzcv cond_tmp] j1)
         else (A64_CC_GE, 0xff, j))
      else if m68k_condition = M_CC_LT then
        (if host_flags j AND SR_NV \<noteq> SR_NV
         then case RA_AllocARMRegister j of (cond_tmp, j1) \<Rightarrow>
           (A64_CC_LT, cond_tmp, EMIT [ror_i cond_tmp cc 4, set_nzcv cond_tmp] j1)
         else (A64_CC_LT, 0xff, j))
      else if m68k_condition = M_CC_GT then
        (if host_flags j AND SR_NZV \<noteq> SR_NZV
         then case RA_AllocARMRegister j of (cond_tmp, j1) \<Rightarrow>
           (A64_CC_GT, cond_tmp, EMIT [ror_i cond_tmp cc 4, set_nzcv cond_tmp] j1)
         else (A64_CC_GT, 0xff, j))
      else if m68k_condition = M_CC_LE then
        (if host_flags j AND SR_NZV \<noteq> SR_NZV
         then case RA_AllocARMRegister j of (cond_tmp, j1) \<Rightarrow>
           (A64_CC_LE, cond_tmp, EMIT [ror_i cond_tmp cc 4, set_nzcv cond_tmp] j1)
         else (A64_CC_LE, 0xff, j))
      else (0, 0xff, EMIT [udf_i 0x0bcc] j))
      of (success_condition, cond_tmp, j') \<Rightarrow> (success_condition, RA_FreeARMRegister cond_tmp j'))"

definition EMIT_TestFPUCondition :: "u8 \<Rightarrow> jit \<Rightarrow> u8 \<times> jit" where
  "EMIT_TestFPUCondition predicate j0 =
     (case RA_GetFPSR j0 of (fpsr, j) \<Rightarrow>
      case (
      if predicate AND 0x0f = F_CC_EQ then (A64_CC_NE, 0xff, EMIT_rf [tst_immed fpsr 1 (31 AND (32 - FPSRB_Z))] j)
      else if predicate AND 0x0f = F_CC_NE then (A64_CC_EQ, 0xff, EMIT_rf [tst_immed fpsr 1 (31 AND (32 - FPSRB_Z))] j)
      else if predicate AND 0x0f = F_CC_OGT then
        (case RA_AllocARMRegister j of (tmp_cc, j1) \<Rightarrow>
           (A64_CC_EQ, tmp_cc, EMIT_rf
             [mov_immed_u16 tmp_cc (ucast (drop_bit 16 (FPSR_Z OR FPSR_N OR FPSR_NAN))) 1,
              tst_reg fpsr tmp_cc LSL 0] j1))
      else if predicate AND 0x0f = F_CC_ULE then
        (case RA_AllocARMRegister j of (tmp_cc, j1) \<Rightarrow>
           (A64_CC_NE, tmp_cc, EMIT_rf
             [mov_immed_u16 tmp_cc (ucast (drop_bit 16 (FPSR_Z OR FPSR_N OR FPSR_NAN))) 1,
              tst_reg fpsr tmp_cc LSL 0] j1))
      else if predicate AND 0x0f = F_CC_OGE then
        (case RA_AllocARMRegister j of (tmp_cc, j1) \<Rightarrow>
           (A64_CC_NE, tmp_cc, EMIT_rf
             [tst_immed fpsr 1 (31 AND (32 - FPSRB_Z)),
              b_cc A64_CC_NE 4,
              orr_reg tmp_cc fpsr fpsr LSL 3,
              eor_immed tmp_cc tmp_cc 1 (31 AND (32 - FPSRB_N)),
              tst_immed tmp_cc 1 (31 AND (32 - FPSRB_N))] j1))
      else if predicate AND 0x0f = F_CC_ULT then
        (case RA_AllocARMRegister j of (tmp_cc, j1) \<Rightarrow>
           (A64_CC_NE, tmp_cc, EMIT_rf
             [tst_immed fpsr 1 (31 AND (32 - FPSRB_NAN)),
              b_cc A64_CC_NE 4,
              eor_immed tmp_cc fpsr 1 (31 AND (32 - FPSRB_Z)),
              and_reg tmp_cc tmp_cc tmp_cc LSL 1,
              tst_immed tmp_cc 1 (31 AND (32 - FPSRB_N))] j1))
      else if predicate AND 0x0f = F_CC_OLT then
        (case RA_AllocARMRegister j of (tmp_cc, j1) \<Rightarrow>
           (A64_CC_EQ, tmp_cc, EMIT_rf
             [bic_immed tmp_cc fpsr 1 (31 AND (32 - FPSRB_I)),
              orr_reg tmp_cc tmp_cc tmp_cc LSL 2,
              eor_immed tmp_cc tmp_cc 1 (31 AND (32 - FPSRB_N)),
              tst_immed tmp_cc 2 (31 AND (32 - FPSRB_Z))] j1))
      else if predicate AND 0x0f = F_CC_UGE then
        (case RA_AllocARMRegister j of (tmp_cc, j1) \<Rightarrow>
           (A64_CC_NE, tmp_cc, EMIT_rf
             [eor_immed tmp_cc fpsr 1 (31 AND (32 - FPSRB_N)),
              bic_immed tmp_cc tmp_cc 1 (31 AND (32 - FPSRB_I)),
              tst_immed tmp_cc 4 (31 AND (32 - FPSRB_NAN))] j1))
      else if predicate AND 0x0f = F_CC_OLE then
        (case RA_AllocARMRegister j of (tmp_cc, j1) \<Rightarrow>
           (A64_CC_NE, tmp_cc, EMIT_rf
             [tst_immed fpsr 1 (31 AND (32 - FPSRB_Z)),
              b_cc A64_CC_NE 4,
              eor_immed tmp_cc fpsr 1 (31 AND (32 - FPSRB_NAN)),
              and_reg tmp_cc tmp_cc tmp_cc LSL 3,
              tst_immed tmp_cc 1 (31 AND (32 - FPSRB_N))] j1))
      else if predicate AND 0x0f = F_CC_UGT then
        (case RA_AllocARMRegister j of (tmp_cc, j1) \<Rightarrow>
           (A64_CC_NE, tmp_cc, EMIT_rf
             [tst_immed fpsr 1 (31 AND (32 - FPSRB_NAN)),
              b_cc A64_CC_NE 4,
              orr_reg tmp_cc fpsr fpsr LSR 1,
              mvn_reg tmp_cc tmp_cc LSL 0,
              tst_immed tmp_cc 1 (31 AND (32 - FPSRB_Z))] j1))
      else if predicate AND 0x0f = F_CC_OGL then
        (case RA_AllocARMRegister j of (tmp_cc, j1) \<Rightarrow>
           (A64_CC_EQ, tmp_cc, EMIT_rf
             [mov_immed_u16 tmp_cc (ucast (drop_bit 16 (FPSR_Z OR FPSR_NAN))) 1,
              tst_reg fpsr tmp_cc LSL 0] j1))
      else if predicate AND 0x0f = F_CC_UEQ then
        (case RA_AllocARMRegister j of (tmp_cc, j1) \<Rightarrow>
           (A64_CC_NE, tmp_cc, EMIT_rf
             [mov_immed_u16 tmp_cc (ucast (drop_bit 16 (FPSR_Z OR FPSR_NAN))) 1,
              tst_reg fpsr tmp_cc LSL 0] j1))
      else if predicate AND 0x0f = F_CC_OR then (A64_CC_EQ, 0xff, EMIT_rf [tst_immed fpsr 1 (31 AND (32 - FPSRB_NAN))] j)
      else if predicate AND 0x0f = F_CC_UN then (A64_CC_NE, 0xff, EMIT_rf [tst_immed fpsr 1 (31 AND (32 - FPSRB_NAN))] j)
      else if predicate AND 0x0f = F_CC_F then (A64_CC_NV, 0xff, j)
      else if predicate AND 0x0f = F_CC_T then (A64_CC_AL, 0xff, j)
      else (0, 0xff, j))
      of (success_condition, tmp_cc, j') \<Rightarrow> (success_condition, RA_FreeARMRegister tmp_cc j'))"

end
