(* ===== verification/Cond_Test.thy ===== *)
theory Cond_Test
  imports Cond_Codes
begin

text \<open>
  What the condition emitters compute: the meaning of the sixteen m68k conditions over the
  flags of the CCR, the contract of an emitter that may change the host's flags and a
  temporary but nothing the emulated program sees, and the property of
  \<open>EMIT_TestCondition\<close>.
\<close>

section \<open>Conditions\<close>

definition m68k_cond :: "u8 \<Rightarrow> (ccflag \<Rightarrow> bool) \<Rightarrow> bool" where
  "m68k_cond c f =
     (if c = M_CC_T then True else if c = M_CC_F then False
      else if c = M_CC_HI then \<not> f Cf \<and> \<not> f Zf else if c = M_CC_LS then f Cf \<or> f Zf
      else if c = M_CC_CC then \<not> f Cf else if c = M_CC_CS then f Cf
      else if c = M_CC_NE then \<not> f Zf else if c = M_CC_EQ then f Zf
      else if c = M_CC_VC then \<not> f Vf else if c = M_CC_VS then f Vf
      else if c = M_CC_PL then \<not> f Nf else if c = M_CC_MI then f Nf
      else if c = M_CC_GE then f Nf = f Vf else if c = M_CC_LT then f Nf \<noteq> f Vf
      else if c = M_CC_GT then f Nf = f Vf \<and> \<not> f Zf
      else f Nf \<noteq> f Vf \<or> f Zf)"

definition view_flag :: "jit \<Rightarrow> mstate \<Rightarrow> ccflag \<Rightarrow> bool" where
  "view_flag j m f = bit (cc_view j m) (alt_bit f)"

text \<open>The flags that \<open>host_flags\<close> names are in the host's flags as they are in the CCR.\<close>

definition host_ok :: "jit \<Rightarrow> mstate \<Rightarrow> bool" where
  "host_ok j m \<longleftrightarrow> (\<forall>f. f \<noteq> Xf \<longrightarrow> in_mask f (host_flags j) \<longrightarrow> host_flag m f = view_flag j m f)"

lemma host_ok_0: "host_flags j = 0 \<Longrightarrow> host_ok j m"
  by (simp add: host_ok_def)

section \<open>Emitters that only test\<close>

definition keeps :: "jit \<Rightarrow> mstate \<Rightarrow> jit \<Rightarrow> mstate \<Rightarrow> bool" where
  "keeps j m j' m' \<longleftrightarrow>
     (\<forall>r. r \<notin> arm_temps - live_temps j \<longrightarrow> rdX m' r = rdX m r) \<and>
     m_simd m' = m_simd m \<and> m_mem m' = m_mem m \<and>
     live_temps j' = live_temps j \<and> status_part j' = status_part j"

lemma keeps_refl: "keeps j m j m" by (simp add: keeps_def)

lemma keeps_alloc:
  assumes "alloc_result j r j1" "live_temps j' = live_temps j1" "status_part j' = status_part j1"
    "\<And>s. s \<noteq> r \<Longrightarrow> rdX m' s = rdX m s" "m_simd m' = m_simd m" "m_mem m' = m_mem m"
  shows "keeps j m (RA_FreeARMRegister r j') m'"
proof -
  have "live_temps (RA_FreeARMRegister r j') = live_temps j"
    using assms(1,2) live_Free_insert [of r "live_temps j" j'] by (simp add: alloc_result_def)
  moreover have "rdX m' s = rdX m s" if "s \<notin> arm_temps - live_temps j" for s
    using assms(1) that by (intro assms(4)) (auto simp: alloc_result_def)
  ultimately show ?thesis using assms(1,3,5,6) by (simp add: keeps_def alloc_result_def)
qed

lemma keeps_views:
  assumes "keeps j m j' m'" "ra_wf j" "coherent j m"
  shows "ra_wf j'" "coherent j' m'" "same_status j m j' m'"
proof -
  have s: "status_part j' = status_part j" "live_temps j' = live_temps j" "m_simd m' = m_simd m"
    using assms(1) by (simp_all add: keeps_def)
  then have f: "reg_CC j' = reg_CC j" "mod_CC j' = mod_CC j" "reg_FPCR j' = reg_FPCR j"
      "mod_FPCR j' = mod_FPCR j" "reg_FPSR j' = reg_FPSR j" "mod_FPSR j' = mod_FPSR j"
    by (simp_all add: status_part_def)
  show "ra_wf j'" using assms(2) status_part_regs [OF s(1)] s(2) by (simp add: ra_wf_live)
  have "rdX m' x = rdX m x" if "x \<in> {reg_CC j, reg_FPCR j, reg_FPSR j}" "x \<noteq> 0xff" for x
  proof -
    have "x \<in> live_temps j" using status_reg_temp [OF assms(2), of x] that by blast
    then show ?thesis using assms(1) by (simp add: keeps_def)
  qed
  then have v: "cc_view j' m' = cc_view j m" "fpcr_view j' m' = fpcr_view j m"
      "fpsr_view j' m' = fpsr_view j m"
    using f s(3) by (simp_all add: cc_view_def fpcr_view_def fpsr_view_def)
  then show "same_status j m j' m'" by (simp add: same_status_def)
  show "coherent j' m'" using assms(3) f v s(3) by (simp add: coherent_def)
qed

text \<open>
  What a whole test promises from before the CCR register was fetched: the emulated program
  sees nothing of it.
\<close>

definition tests :: "jit \<Rightarrow> mstate \<Rightarrow> jit \<Rightarrow> mstate \<Rightarrow> bool" where
  "tests j m j' m' \<longleftrightarrow> ra_wf j' \<and> coherent j' m' \<and> same_status j m j' m' \<and>
     (\<forall>r. r \<notin> arm_temps \<longrightarrow> rdX m' r = rdX m r) \<and> m_mem m' = m_mem m"

lemma loads_keeps_tests:
  assumes "loads r j m j1 m1" "keeps j1 m1 j' m'"
  shows "tests j m j' m'"
proof -
  have l: "ra_wf j1" "coherent j1 m1" "same_status j m j1 m1" "r \<in> arm_temps"
      "\<forall>s. s \<noteq> r \<longrightarrow> rdX m1 s = rdX m s" "m_mem m1 = m_mem m"
    using assms(1) by (simp_all add: loads_def)
  note v = keeps_views [OF assms(2) l(1,2)]
  have "rdX m' s = rdX m s" if "s \<notin> arm_temps" for s
    using assms(2) l(4,5) that unfolding keeps_def by (metis DiffD1)
  moreover have "m_mem m' = m_mem m" using assms(2) l(6) by (simp add: keeps_def)
  ultimately show ?thesis using v l(3) by (simp add: tests_def same_status_def)
qed

section \<open>The CCR register\<close>

lemma RA_GetCC_free:
  assumes "ra_wf j" "coherent j m" "free_temps (Suc n) j" "RA_GetCC j = (cc, j1)"
  shows "\<exists>m1. loads cc j m j1 m1 \<and> ucast (rdX m1 cc) = cc_view j m"
    "reg_CC j1 = cc" "cc \<noteq> 0xff" "cc \<in> live_temps j1" "free_temps n j1" "host_flags j1 = host_flags j"
proof -
  have m: "RA_ModifyCC j = (cc, j1\<lparr>mod_CC := 1\<rparr>)" using assms(4) by (simp add: RA_ModifyCC_def)
  note f = RA_ModifyCC_free [OF assms(1-3) m]
  show n: "cc \<noteq> 0xff" by (rule f(4))
  show "\<exists>m1. loads cc j m j1 m1 \<and> ucast (rdX m1 cc) = cc_view j m"
    by (rule RA_GetCC_loads [OF assms(1,2,4) n])
  show "reg_CC j1 = cc" using f(2) by simp
  show "cc \<in> live_temps j1" "free_temps n j1" using f(5,6) by (simp_all add: live_temps_def free_temps_def)
  show "host_flags j1 = host_flags j"
  proof (cases "reg_CC j = 0xff")
    case True
    obtain r j2 where a: "alloc_result j r j2" "free_temps n j2" using free_temps_alloc [OF assms(3)] .
    with RA_GetCC_cases(2) [OF True, of r j2] assms(4) show ?thesis by (auto simp: alloc_result_def)
  next
    case False
    with RA_GetCC_cases(1) [OF False] assms(4) show ?thesis by simp
  qed
qed

section \<open>The two ways to test\<close>

lemma run_tst_immed:
  "is_reg rn \<Longrightarrow> 1 \<le> unat w \<Longrightarrow> unat w \<le> 31 \<Longrightarrow> run (tst_immed rn w r # ws) m =
     run ws ((set_nz (rdW m rn AND word_rotr (unat r) (mask (unat w))) m)\<lparr>m_pc := m_pc m + 4\<rparr>)"
  by (simp add: decode_tst_immed exec_def is_regD run.simps(2) wrW_def wrX_def)

lemma run_ror:
  "is_reg rd \<Longrightarrow> is_reg rn \<Longrightarrow> run (ror_i rd rn 4 # ws) m =
     run ws ((wrW rd (word_rotr 4 (rdW m rn)) m)\<lparr>m_pc := m_pc m + 4\<rparr>)"
proof -
  have "drop_bit 4 w OR push_bit 28 w = (word_rotr 4 w :: u32)" for w
    by (rule bit_word_eqI) (auto simp: bit_simps bit_word_rotr_iff mod_if add.commute dest: bit_imp_le_length)
  then show "is_reg rd \<Longrightarrow> is_reg rn \<Longrightarrow> ?thesis"
    by (simp add: decode_ror exec_def is_regD run.simps(2))
qed

lemma run_set_nzcv:
  "is_reg rt \<Longrightarrow> run (set_nzcv rt # ws) m =
     run ws (m\<lparr>m_n := bit (rdX m rt) 31, m_z := bit (rdX m rt) 30, m_c := bit (rdX m rt) 29,
       m_v := bit (rdX m rt) 28, m_pc := m_pc m + 4\<rparr>)"
  by (simp add: decode_set_nzcv exec_def is_regD run.simps(2))

lemma no_branches_test [simp]:
  "1 \<le> unat w \<Longrightarrow> unat w \<le> 31 \<Longrightarrow> no_branches [tst_immed rn w r]"
  "no_branches [ror_i rd rn 4]" "no_branches [set_nzcv rt]"
  by (simp_all add: no_branches_def decode_tst_immed decode_ror decode_set_nzcv)

text \<open>Single bits, and the pair of Z and C.\<close>

lemma and_bit_zero: "(w :: u32) AND push_bit k 1 = 0 \<longleftrightarrow> \<not> bit w k"
  using bit_iff_and_push_bit_not_eq_0 [of w k] by simp

lemma rot_masks:
  "word_rotr (unat (31 AND (32 - SRB_Z))) (mask (unat (1 :: u8))) = (push_bit 2 1 :: u32)"
  "word_rotr (unat (31 AND (32 - SRB_N))) (mask (unat (1 :: u8))) = (push_bit 3 1 :: u32)"
  "word_rotr (unat (31 AND (32 - SRB_Calt))) (mask (unat (1 :: u8))) = (push_bit 1 1 :: u32)"
  "word_rotr (unat (31 AND (32 - SRB_Valt))) (mask (unat (1 :: u8))) = (push_bit 0 1 :: u32)"
  "word_rotr (unat (31 :: u8)) (mask (unat (2 :: u8))) = (push_bit 1 1 OR push_bit 2 1 :: u32)"
  by code_simp+

lemma and_pair_zero:
  "(w :: u32) AND (push_bit i 1 OR push_bit k 1) = 0 \<longleftrightarrow> \<not> bit w i \<and> \<not> bit w k"
proof -
  have "w AND (push_bit i 1 OR push_bit k 1) = (w AND push_bit i 1) OR (w AND push_bit k 1)"
    by (rule bit_word_eqI) (auto simp: bit_simps)
  also have "\<dots> = 0 \<longleftrightarrow> w AND push_bit i 1 = 0 \<and> w AND push_bit k 1 = 0" by (rule or_eq_0_iff)
  finally show ?thesis unfolding and_bit_zero .
qed

text \<open>Testing bits of a register: the host's Z tells whether they are all clear.\<close>

definition after_tst :: "u8 \<Rightarrow> u8 \<Rightarrow> u8 \<Rightarrow> mstate \<Rightarrow> mstate" where
  "after_tst rn w r m =
     (set_nz (rdW m rn AND word_rotr (unat r) (mask (unat w))) m)\<lparr>m_pc := m_pc m + 4\<rparr>"

lemma seg_tst:
  assumes "is_reg rn" "1 \<le> unat w" "unat w \<le> 31"
  shows "produces j m (EMIT_rf [tst_immed rn w r] j) (after_tst rn w r m)"
    "keeps j m (EMIT_rf [tst_immed rn w r] j) (after_tst rn w r m)"
    "m_z (after_tst rn w r m) \<longleftrightarrow> rdW m rn AND word_rotr (unat r) (mask (unat w)) = 0"
  using assms
  by (simp_all add: produces_def run_tst_immed after_tst_def keeps_def EMIT_rf_def RESET_FLAGS_def
      status_part_def live_temps_def)

text \<open>Moving the CCR to the host's flags.\<close>

definition after_nzcv :: "u8 \<Rightarrow> u8 \<Rightarrow> mstate \<Rightarrow> mstate" where
  "after_nzcv cc r m = (let w = rdW m cc in
     (wrW r (word_rotr 4 w) m)\<lparr>m_n := bit w 3, m_z := bit w 2, m_c := bit w 1, m_v := bit w 0,
       m_pc := m_pc m + 4 + 4\<rparr>)"

lemma bit_rotr_4: "k < 4 \<Longrightarrow> bit (word_rotr 4 w :: u32) (28 + k) = bit w k"
  by (simp add: bit_word_rotr_iff mod_if)

lemma seg_to_nzcv:
  assumes "cc \<in> live_temps j" "alloc_result j r j1"
  shows "run [ror_i r cc 4, set_nzcv r] m = Some (after_nzcv cc r m)"
    "produces j m (RA_FreeARMRegister r (EMIT [ror_i r cc 4, set_nzcv r] j1)) (after_nzcv cc r m)"
    "keeps j m (RA_FreeARMRegister r (EMIT [ror_i r cc 4, set_nzcv r] j1)) (after_nzcv cc r m)"
    "\<And>f. host_flag (after_nzcv cc r m) f = ccr (rdW m cc) (if f = Xf then Cf else f)"
proof -
  note f = cc_tmp [OF assms] tmp_result [OF assms(2)]
  have b: "bit (rdX (wrW r (word_rotr 4 w) m) r) (28 + k) = bit w k" if "k < 4" for w k
    using f that bit_rotr_4 [OF that, of w] by (simp add: bit_simps)
  show r: "run [ror_i r cc 4, set_nzcv r] m = Some (after_nzcv cc r m)"
    using f b [of 0] b [of 1] b [of 2] b [of 3]
    by (simp add: run_ror run_set_nzcv after_nzcv_def Let_def)
  then show "produces j m (RA_FreeARMRegister r (EMIT [ror_i r cc 4, set_nzcv r] j1)) (after_nzcv cc r m)"
    using f by (simp add: produces_def no_branches_Cons [of _ "[_]"])
  show "keeps j m (RA_FreeARMRegister r (EMIT [ror_i r cc 4, set_nzcv r] j1)) (after_nzcv cc r m)"
    by (rule keeps_alloc [OF assms(2)]) (use f in \<open>auto simp: after_nzcv_def Let_def\<close>)
  show "host_flag (after_nzcv cc r m) g = ccr (rdW m cc) (if g = Xf then Cf else g)" for g
    by (cases g) (simp_all add: after_nzcv_def Let_def ccr_def)
qed

section \<open>The emitter\<close>

lemma condition_cases:
  assumes "2 \<le> c" "c < 16"
  shows "c \<in> {M_CC_HI, M_CC_LS, M_CC_CC, M_CC_CS, M_CC_NE, M_CC_EQ, M_CC_VC, M_CC_VS, M_CC_PL,
    M_CC_MI, M_CC_GE, M_CC_LT, M_CC_GT, M_CC_LE}"
proof -
  have "unat c \<in> set [2..<16]" unfolding set_upt atLeastLessThan_iff
    using assms by (simp add: word_less_nat_alt word_le_nat_alt)
  then have "of_nat (unat c) \<in> set (map of_nat [2..<16] :: u8 list)" unfolding set_map by (rule imageI)
  moreover have "set (map of_nat [2..<16] :: u8 list) = {M_CC_HI, M_CC_LS, M_CC_CC, M_CC_CS, M_CC_NE,
      M_CC_EQ, M_CC_VC, M_CC_VS, M_CC_PL, M_CC_MI, M_CC_GE, M_CC_LT, M_CC_GT, M_CC_LE}"
    by (simp add: m_cc_defs upt_rec)
  moreover have "of_nat (unat c) = c" by simp
  ultimately show ?thesis by (simp only:)
qed

text \<open>What a test leaves: a host condition that has the m68k condition's value.\<close>

definition decides :: "u8 \<Rightarrow> (ccflag \<Rightarrow> bool) \<Rightarrow> u8 \<Rightarrow> jit \<Rightarrow> mstate \<Rightarrow> jit \<Rightarrow> mstate \<Rightarrow> bool" where
  "decides c fl s j m j' m' \<longleftrightarrow> produces j m j' m' \<and> keeps j m j' m' \<and>
     cond_holds s m' = m68k_cond c fl \<and>
     (host_flags j' = 0 \<or> (\<forall>f. f \<noteq> Xf \<longrightarrow> in_mask f (host_flags j') \<longrightarrow> host_flag m' f = fl f))"

lemma decides_host:
  assumes "\<forall>f. f \<noteq> Xf \<longrightarrow> in_mask f (host_flags j) \<longrightarrow> host_flag m f = fl f"
    "cond_holds s m = m68k_cond c fl"
  shows "\<exists>m'. decides c fl s j m (RA_FreeARMRegister 0xff j) m'"
  using assms by (intro exI [of _ m])
    (simp add: decides_def keeps_refl produces_same RA_FreeARMRegister_def)

lemma decides_tst:
  assumes "is_reg cc" "1 \<le> unat w" "unat w \<le> 31"
    "(rdW m cc AND word_rotr (unat r) (mask (unat w)) = 0) = (m68k_cond c fl = b)"
    "s = (if b then A64_CC_EQ else A64_CC_NE)"
  shows "\<exists>m'. decides c fl s j m (RA_FreeARMRegister 0xff (EMIT_rf [tst_immed cc w r] j)) m'"
  using seg_tst(1,2) [OF assms(1-3), of j m r] seg_tst(3) [OF assms(1-3), of r m] assms(4,5)
  by (intro exI [of _ "after_tst cc w r m"]) (auto simp: decides_def RA_FreeARMRegister_def)

lemma decides_nzcv:
  assumes "cc \<in> live_temps j" "alloc_result j r j1"
    "\<And>f. f \<noteq> Xf \<Longrightarrow> fl f = ccr (rdW m cc) f"
    "cond_holds s (after_nzcv cc r m) = m68k_cond c fl"
  shows "\<exists>m'. decides c fl s j m
    (RA_FreeARMRegister r (EMIT [ror_i r cc 4, set_nzcv r] j1)) m'"
  using seg_to_nzcv [OF assms(1,2), of m] assms(3,4)
  by (intro exI [of _ "after_nzcv cc r m"]) (auto simp: decides_def)

lemma mask_flags [simp]:
  "h AND SR_Z \<noteq> 0 \<longleftrightarrow> in_mask Zf h" "h AND SR_C \<noteq> 0 \<longleftrightarrow> in_mask Cf h"
  "h AND SR_N \<noteq> 0 \<longleftrightarrow> in_mask Nf h" "h AND SR_V \<noteq> 0 \<longleftrightarrow> in_mask Vf h"
  using bit_iff_and_push_bit_not_eq_0 [of h 0] bit_iff_and_push_bit_not_eq_0 [of h 1]
    bit_iff_and_push_bit_not_eq_0 [of h 2] bit_iff_and_push_bit_not_eq_0 [of h 3]
  by (simp_all add: in_mask_def sr_defs)

lemma mask_all:
  "h AND SR_NV = SR_NV \<Longrightarrow> in_mask Nf h \<and> in_mask Vf h"
  "h AND SR_NZV = SR_NZV \<Longrightarrow> in_mask Nf h \<and> in_mask Zf h \<and> in_mask Vf h"
proof -
  have b: "bit SR_NV 3" "bit SR_NV 1" "bit SR_NZV 3" "bit SR_NZV 2" "bit SR_NZV 1" by code_simp+
  show "h AND SR_NV = SR_NV \<Longrightarrow> in_mask Nf h \<and> in_mask Vf h"
    using b by (metis bit_and_iff in_mask_def sr_bit.simps(2,4))
  show "h AND SR_NZV = SR_NZV \<Longrightarrow> in_mask Nf h \<and> in_mask Zf h \<and> in_mask Vf h"
    using b by (metis bit_and_iff in_mask_def sr_bit.simps(2,3,4))
qed

text \<open>
  The conditions in three groups: eight test one flag (the flag, its bit in the CCR register,
  the host's condition, whether the flag has to be set), four compare N with V, and two
  test Z and C together.
\<close>

definition flag_rows :: "(u8 \<times> ccflag \<times> u8 \<times> u8 \<times> bool) list" where
  "flag_rows =
     [(M_CC_EQ, Zf, SRB_Z, A64_CC_EQ, True), (M_CC_NE, Zf, SRB_Z, A64_CC_NE, False),
      (M_CC_CS, Cf, SRB_Calt, A64_CC_CS, True), (M_CC_CC, Cf, SRB_Calt, A64_CC_CC, False),
      (M_CC_PL, Nf, SRB_N, A64_CC_PL, False), (M_CC_MI, Nf, SRB_N, A64_CC_MI, True),
      (M_CC_VS, Vf, SRB_Valt, A64_CC_VS, True), (M_CC_VC, Vf, SRB_Valt, A64_CC_VC, False)]"

definition sign_rows :: "(u8 \<times> u8 \<times> u8) list" where
  "sign_rows = [(M_CC_GE, A64_CC_GE, SR_NV), (M_CC_LT, A64_CC_LT, SR_NV),
     (M_CC_GT, A64_CC_GT, SR_NZV), (M_CC_LE, A64_CC_LE, SR_NZV)]"

definition pair_rows :: "(u8 \<times> bool) list" where
  "pair_rows = [(M_CC_LS, False), (M_CC_HI, True)]"

lemmas rows_defs = flag_rows_def sign_rows_def pair_rows_def

lemma condition_rows:
  assumes "2 \<le> c" "c < 16"
  obtains (flag) f b h p where "(c, f, b, h, p) \<in> set flag_rows"
    | (sign) h k where "(c, h, k) \<in> set sign_rows" | (pair) e where "(c, e) \<in> set pair_rows"
proof -
  have "c \<in> fst ` set flag_rows \<or> c \<in> fst ` set sign_rows \<or> c \<in> fst ` set pair_rows"
    using condition_cases [OF assms] unfolding rows_defs list.set image_insert fst_conv by blast
  then show thesis using flag sign pair by (elim disjE imageE) auto
qed

lemma flag_row:
  assumes "(c, f, b, h, p) \<in> set flag_rows"
  shows "m68k_cond c fl = (fl f = p)" "cond_holds h m = (host_flag m f = p)"
    "word_rotr (unat (31 AND (32 - b))) (mask (unat (1 :: u8))) = (push_bit (alt_bit f) 1 :: u32)"
    "f \<noteq> Xf" "unat b = alt_bit f" "h < 14"
  using assms rot_masks unfolding flag_rows_def
  by (auto simp: m68k_cond_def m_cc_defs sr_defs a64_cc_defs cond_values [unfolded a64_cc_defs])

lemma sign_row:
  assumes "(c, h, k) \<in> set sign_rows"
  shows "cond_holds h m = m68k_cond c (host_flag m)"
    "x AND k = k \<Longrightarrow> (\<And>f. f \<noteq> Xf \<Longrightarrow> in_mask f x \<Longrightarrow> g f = fl f) \<Longrightarrow> m68k_cond c g = m68k_cond c fl"
    "(\<And>f. f \<noteq> Xf \<Longrightarrow> g f = fl f) \<Longrightarrow> m68k_cond c g = m68k_cond c fl" "h < 14"
  using assms mask_all [of x] unfolding sign_rows_def
  by (auto simp: m68k_cond_def m_cc_defs a64_cc_defs cond_values [unfolded a64_cc_defs])

lemma pair_row:
  assumes "(c, e) \<in> set pair_rows"
  shows "(\<not> fl Cf \<and> \<not> fl Zf) = (m68k_cond c fl = e)"
  using assms unfolding pair_rows_def by (auto simp: m68k_cond_def m_cc_defs)

lemma TestCondition_rows:
  assumes "RA_GetCC j0 = (cc, j)"
  shows "(c, f, b, h, p) \<in> set flag_rows \<Longrightarrow> EMIT_TestCondition c j0 =
      (if in_mask f (host_flags j) then (h, RA_FreeARMRegister 0xff j)
       else (if p then A64_CC_NE else A64_CC_EQ,
             RA_FreeARMRegister 0xff (EMIT_rf [tst_immed cc 1 (31 AND (32 - b))] j)))"
    "(c, h, k) \<in> set sign_rows \<Longrightarrow> EMIT_TestCondition c j0 =
      (if host_flags j AND k = k then (h, RA_FreeARMRegister 0xff j)
       else case RA_AllocARMRegister j of (r, j1) \<Rightarrow>
         (h, RA_FreeARMRegister r (EMIT [ror_i r cc 4, set_nzcv r] j1)))"
    "(c, e) \<in> set pair_rows \<Longrightarrow> EMIT_TestCondition c j0 =
      (if e then A64_CC_EQ else A64_CC_NE, RA_FreeARMRegister 0xff (EMIT_rf [tst_immed cc 2 31] j))"
proof -
  note code = EMIT_TestCondition_def assms prod.case m_cc_defs
  assume "(c, f, b, h, p) \<in> set flag_rows"
  then show "EMIT_TestCondition c j0 =
      (if in_mask f (host_flags j) then (h, RA_FreeARMRegister 0xff j)
       else (if p then A64_CC_NE else A64_CC_EQ,
             RA_FreeARMRegister 0xff (EMIT_rf [tst_immed cc 1 (31 AND (32 - b))] j)))"
    by (simp only: flag_rows_def list.set insert_iff empty_iff prod.inject)
      (elim disjE conjE FalseE; simp add: code)
next
  note code = EMIT_TestCondition_def assms prod.case m_cc_defs
  assume "(c, h, k) \<in> set sign_rows"
  then show "EMIT_TestCondition c j0 =
      (if host_flags j AND k = k then (h, RA_FreeARMRegister 0xff j)
       else case RA_AllocARMRegister j of (r, j1) \<Rightarrow>
         (h, RA_FreeARMRegister r (EMIT [ror_i r cc 4, set_nzcv r] j1)))"
    by (simp only: sign_rows_def list.set insert_iff empty_iff prod.inject)
      (elim disjE conjE FalseE; simp add: code split: prod.splits)
next
  note code = EMIT_TestCondition_def assms prod.case m_cc_defs
  assume "(c, e) \<in> set pair_rows"
  then show "EMIT_TestCondition c j0 =
      (if e then A64_CC_EQ else A64_CC_NE, RA_FreeARMRegister 0xff (EMIT_rf [tst_immed cc 2 31] j))"
    by (simp only: pair_rows_def list.set insert_iff empty_iff prod.inject)
      (elim disjE conjE FalseE; simp add: code)
qed

lemma EMIT_TestCondition_decides:
  assumes "RA_GetCC j0 = (cc, j)" "cc \<in> live_temps j" "free_temps 1 j" "2 \<le> c" "c < 16"
    "EMIT_TestCondition c j0 = (s, j')" "\<And>f. f \<noteq> Xf \<Longrightarrow> fl f = ccr (rdW m cc) f"
    "\<forall>f. f \<noteq> Xf \<longrightarrow> in_mask f (host_flags j) \<longrightarrow> host_flag m f = fl f"
  shows "\<exists>m'. decides c fl s j m j' m'"
proof -
  have cc: "is_reg cc" using assms(2) live_temps_arm arm_temps_is_reg by blast
  obtain r j1 where a: "alloc_result j r j1" using free_temps_1 [OF assms(3)] by blast
  note d = TestCondition_rows [OF assms(1), of c]
  from assms(4,5) show ?thesis
  proof (cases rule: condition_rows)
    case (flag f b h p)
    note r = flag_row [OF flag]
    show ?thesis
    proof (cases "in_mask f (host_flags j)")
      case True
      with d(1) [OF flag] assms(6) have "s = h" "j' = RA_FreeARMRegister 0xff j" by auto
      with decides_host [OF assms(8)] r assms(8) True show ?thesis by simp
    next
      case False
      with d(1) [OF flag] assms(6) have e: "s = (if \<not> p then A64_CC_EQ else A64_CC_NE)"
        "j' = RA_FreeARMRegister 0xff (EMIT_rf [tst_immed cc 1 (31 AND (32 - b))] j)" by auto
      have "(rdW m cc AND push_bit (alt_bit f) 1 = 0) = (m68k_cond c fl = (\<not> p))"
        unfolding and_bit_zero r(1) using assms(7) [OF r(4)] by (auto simp: ccr_def)
      then show ?thesis unfolding e(2)
        by (intro decides_tst [OF cc _ _ _ e(1)]) (simp_all add: r(3) [simplified])
    qed
  next
    case (sign h k)
    note r = sign_row [OF sign]
    show ?thesis
    proof (cases "host_flags j AND k = k")
      case True
      with d(2) [OF sign] assms(6) have "s = h" "j' = RA_FreeARMRegister 0xff j" by auto
      with decides_host [OF assms(8), of h c] r(1) r(2) [OF True, of "host_flag m" fl] assms(8)
      show ?thesis by simp
    next
      case False
      with d(2) [OF sign] assms(6) tmp_result(1) [OF a]
      have e: "s = h" "j' = RA_FreeARMRegister r (EMIT [ror_i r cc 4, set_nzcv r] j1)" by auto
      have "m68k_cond c (host_flag (after_nzcv cc r m)) = m68k_cond c fl"
        by (rule r(3)) (simp add: seg_to_nzcv(4) [OF assms(2) a] assms(7))
      then show ?thesis unfolding e
        by (intro decides_nzcv [OF assms(2) a assms(7)]) (simp_all add: r(1))
    qed
  next
    case (pair e)
    with d(3) [OF pair] assms(6) have s: "s = (if e then A64_CC_EQ else A64_CC_NE)"
      "j' = RA_FreeARMRegister 0xff (EMIT_rf [tst_immed cc 2 31] j)" by auto
    have "(rdW m cc AND (push_bit 1 1 OR push_bit 2 1) = 0) = (m68k_cond c fl = e)"
      unfolding and_pair_zero pair_row [OF pair, symmetric] using assms(7) [of Cf] assms(7) [of Zf]
      by (simp add: ccr_def)
    then show ?thesis unfolding s(2)
      by (intro decides_tst [OF cc _ _ _ s(1)]) (simp_all add: rot_masks(5) [simplified])
  qed
qed

end
