(* ===== verification/Flag_Theorems.thy ===== *)
theory Flag_Theorems
  imports Flag_Update Flag_Logic
begin

text \<open>
  The properties of the condition code emitters: what the code they emit does to the CCR
  and FPSR, for every mask, and where the source's tables depart from that.
\<close>

section \<open>Masks\<close>

lemma seg_result:
  assumes "updates {cc} j m j' m'"
  shows "run (emitted j j') m = Some m'"
    "\<forall>s. s \<noteq> cc \<longrightarrow> s \<notin> arm_temps - live_temps j \<longrightarrow> rdX m' s = rdX m s"
    "live_temps j' = live_temps j"
proof -
  show "run (emitted j j') m = Some m'" by (rule updates_run [OF assms])
  show "\<forall>s. s \<noteq> cc \<longrightarrow> s \<notin> arm_temps - live_temps j \<longrightarrow> rdX m' s = rdX m s"
    "live_temps j' = live_temps j" using assms by (simp_all add: updates_def)
qed

text \<open>
  C36. The code that \<open>EMIT_ClearFlags\<close> and \<open>EMIT_SetFlags\<close> emit clears and sets exactly
  the flags of the mask in the register, for each of the 256 masks, and touches no other
  register that is in use.
\<close>

theorem flags_by_mask:
  assumes "cc \<in> live_temps j" "free_temps 1 j"
  shows "(\<exists>m'. run (emitted j (EMIT_ClearFlags cc flags j)) m = Some m' \<and>
      rdW m' cc = rdW m cc AND NOT (ucast flags) \<and>
      (\<forall>s. s \<noteq> cc \<longrightarrow> s \<notin> arm_temps - live_temps j \<longrightarrow> rdX m' s = rdX m s)) \<and>
    (\<exists>m'. run (emitted j (EMIT_SetFlags cc flags j)) m = Some m' \<and>
      rdW m' cc = rdW m cc OR ucast flags \<and>
      (\<forall>s. s \<noteq> cc \<longrightarrow> s \<notin> arm_temps - live_temps j \<longrightarrow> rdX m' s = rdX m s))"
  using EMIT_ClearFlags_updates [OF assms, of m flags] EMIT_SetFlags_updates [OF assms, of m flags]
  by (meson seg_result)

text \<open>A state with the condition codes cached in \<open>x4\<close> and everything else free.\<close>

definition cc_cached :: jit where
  "cc_cached = (jit_init 64)\<lparr>register_pool := 0x10, reg_CC := 4, mod_CC := 1\<rparr>"

lemma cc_cached_ok: "4 \<in> live_temps cc_cached" "free_temps 3 cc_cached" "free_temps 2 cc_cached"
  "free_temps 1 cc_cached" "ra_wf cc_cached" "coherent cc_cached m_reset"
proof -
  have rp: "register_pool cc_cached = push_bit 4 1" by (simp add: cc_cached_def)
  have p: "bit (register_pool cc_cached) k \<longleftrightarrow> k = 4" for k
    unfolding rp bit_push_bit_iff bit_1_iff by auto
  have l: "live_temps cc_cached = {r \<in> arm_temps. unat r = 4}"
    by (simp add: live_temps_def p)
  moreover have "4 \<in> arm_temps" by (simp add: arm_temps_def)
  moreover have "unat r = 4 \<longleftrightarrow> r = 4" for r :: u8 using word_unat_eq_iff [of r 4] by simp
  ultimately have e: "live_temps cc_cached = {4}" by auto
  then show "4 \<in> live_temps cc_cached" by simp
  have temps: "arm_temps = set (map of_nat [4..<12])"
  proof
    show "arm_temps \<subseteq> set (map of_nat [4..<12])"
    proof
      fix r assume "r \<in> arm_temps"
      then have "unat r \<in> set [4..<12]"
        unfolding set_upt atLeastLessThan_iff arm_temps_def by blast
      then have "of_nat (unat r) \<in> set (map of_nat [4..<12] :: u8 list)"
        unfolding set_map by (rule imageI)
      then show "r \<in> set (map of_nat [4..<12])" by simp
    qed
    show "set (map of_nat [4..<12]) \<subseteq> arm_temps" by (simp add: arm_temps_def upt_rec)
  qed
  have "arm_temps - live_temps cc_cached = set (map of_nat [5..<12])"
    unfolding e temps by (simp add: upt_rec insert_Diff_if)
  then have "card (arm_temps - live_temps cc_cached) = 7" by (simp add: upt_rec)
  then show "free_temps 3 cc_cached" "free_temps 2 cc_cached" "free_temps 1 cc_cached"
    by (simp_all add: free_temps_def)
  show "ra_wf cc_cached"
    unfolding ra_wf_def p by (simp add: status_regs_def cc_cached_def jit_init_def)
  show "coherent cc_cached m_reset"
    by (simp add: coherent_def view_defs cc_cached_def jit_init_def)
qed

theorem flags_by_mask_witness:
  "(\<exists>m'. run (emitted cc_cached (EMIT_SetFlags 4 21 cc_cached)) m_reset = Some m' \<and>
      rdW m' 4 = rdW m_reset 4 OR 21) \<and>
   (\<exists>m'. run (emitted cc_cached (EMIT_ClearFlags 4 21 cc_cached)) m_reset = Some m' \<and>
      rdW m' 4 = rdW m_reset 4 AND NOT 21)"
  using flags_by_mask [OF cc_cached_ok(1,4), of 21 m_reset] by auto

text \<open>
  \<open>EMIT_SetFlagsConditional\<close> sets the flags of the mask when the condition holds and
  leaves the register alone otherwise, for every mask but the one that names all five
  flags. It keeps the host's flags, so that conditions can follow one another.
\<close>

theorem flags_on_condition:
  assumes "cc \<in> live_temps j" "free_temps 1 j" "c < 14" "flags \<noteq> 31"
  shows "\<exists>m'. run (emitted j (EMIT_SetFlagsConditional cc flags c j)) m = Some m' \<and>
    rdW m' cc = (if cond_holds c m then rdW m cc OR ucast flags else rdW m cc) \<and>
    (\<forall>d. cond_holds d m' = cond_holds d m)"
proof -
  obtain m' where u: "updates {cc} j m (EMIT_SetFlagsConditional cc flags c j) m'"
    "rdW m' cc = (if cond_holds c m then rdW m cc OR ucast (cond_mask flags) else rdW m cc)"
    using EMIT_SetFlagsConditional_updates [OF assms(1-3), of m flags] by blast
  have "cond_holds d m' = cond_holds d m" for d
    using u(1) by (intro cond_holds_cong) (simp_all add: updates_def)
  with u updates_run [OF u(1)] assms(4) show ?thesis by (auto simp: cond_mask_def)
qed

theorem flags_on_condition_witness:
  "\<exists>m'. run (emitted cc_cached (EMIT_SetFlagsConditional 4 18 A64_CC_CC cc_cached)) m_reset = Some m' \<and>
     rdW m' 4 = rdW m_reset 4 OR 18"
proof -
  have "A64_CC_CC < 14" by (simp add: A64_CC_CC_def)
  moreover have "cond_holds A64_CC_CC m_reset" unfolding cond_values by (simp add: m_reset_def)
  ultimately show ?thesis
    using flags_on_condition [OF cc_cached_ok(1,4), of A64_CC_CC 18 m_reset] by auto
qed

text \<open>
  The exception: asked to set all five flags, the conditional emitter sets the low
  four and never X.
\<close>

theorem all_flags_on_condition:
  assumes "cc \<in> live_temps j" "free_temps 1 j" "c < 14" "cond_holds c m"
  shows "\<exists>m'. run (emitted j (EMIT_SetFlagsConditional cc 31 c j)) m = Some m' \<and>
    rdW m' cc = rdW m cc OR 15 \<and> bit (rdW m' cc) 4 = bit (rdW m cc) 4"
proof -
  obtain m' where u: "updates {cc} j m (EMIT_SetFlagsConditional cc 31 c j) m'"
    "rdW m' cc = rdW m cc OR ucast (cond_mask 31)"
    using EMIT_SetFlagsConditional_updates [OF assms(1-3), of m 31] assms(4) by auto
  have f: "(15 :: u32) = mask 4" by (simp add: mask_eq_exp_minus_1)
  have "\<not> bit (15 :: u32) 4" unfolding f by (simp only: bit_mask_iff) simp
  with u updates_run [OF u(1)] show ?thesis by (auto simp: cond_mask_def bit_or_iff)
qed

theorem all_flags_on_condition_witness:
  "\<exists>m'. run (emitted cc_cached (EMIT_SetFlagsConditional 4 31 A64_CC_CC cc_cached)) m_reset = Some m' \<and>
     rdW m' 4 = rdW m_reset 4 OR 15 \<and> bit (rdW m' 4) 4 = bit (rdW m_reset 4) 4"
proof -
  have "A64_CC_CC < 14" by (simp add: A64_CC_CC_def)
  moreover have "cond_holds A64_CC_CC m_reset" unfolding cond_values by (simp add: m_reset_def)
  ultimately show ?thesis
    using all_flags_on_condition [OF cc_cached_ok(1,4), of A64_CC_CC m_reset] by auto
qed

section \<open>Addition and subtraction\<close>

lemma GetNZCV_less: "um < 32 \<Longrightarrow> fst (EMIT_GetNZCV cc um j) = x \<Longrightarrow> x = um AND 16 \<Longrightarrow> x < 32"
  using and16_less by simp

lemma tail_host: "tail_flag (cond_holds A64_CC_CS m) m f = host_flag m f"
  "tail_flag (cond_holds A64_CC_CC m) m f = host_flag_sub m f"
  by (cases f; simp)+

lemma flags_from_0: "ra_wf j \<Longrightarrow> coherent j m \<Longrightarrow> flags_from h 0 j m j m"
  by (simp add: flags_from_def produces_same)

lemma update_flags_add_flags:
  assumes "ra_wf j" "coherent j m" "free_temps 3 j" "um < 32"
  shows "\<exists>m'. flags_from host_flag um j m (update_flags_add um j) m'" "free_temps 2 (update_flags_add um j)"
proof -
  have "(\<exists>m'. flags_from host_flag um j m (update_flags_add um j) m') \<and> free_temps 2 (update_flags_add um j)"
  proof (cases "um = 0")
    case True
    then show ?thesis using flags_from_0 [OF assms(1,2)] free_temps_mono [OF assms(3)]
        by (auto simp: update_flags_add_def)
  next
    case False
    obtain cc j1 where g: "RA_ModifyCC j = (cc, j1)" by fastforce
    obtain um' j2 where e: "(if um AND SR_X \<noteq> 0 then EMIT_GetNZCVX cc um j1 else EMIT_GetNZCV cc um j1) = (um', j2)"
      by fastforce
    note s = EMIT_GetNZCV_copies [of cc j1 um] EMIT_GetNZCVX_copies [of cc j1 um]
    have "\<exists>m2. updates {cc} j1 m1 j2 m2 \<and> copied host_flag m1 um um' (rdW m1 cc) (rdW m2 cc)"
        "um' < 32" if "cc \<in> live_temps j1" "free_temps 2 j1" for m1
      using s [OF that assms(4)] e assms(4) and16_less [of um] by (auto split: if_splits)
    moreover have "cc \<in> live_temps j1" "free_temps 2 j1"
      using RA_ModifyCC_free(5,6) [of j m 2, OF assms(1,2) _ g] assms(3) by simp_all
    moreover have "A64_CC_CS < 14" by (simp add: A64_CC_CS_def)
    ultimately have "(\<exists>m'. flags_from host_flag um j m (set_rest A64_CC_CS cc um' j2) m') \<and>
        free_temps 2 (set_rest A64_CC_CS cc um' j2)"
      by (intro conjI update_flags_from [OF assms(1-3) g _ _ _ tail_host(1)]) blast+
    with e g False show ?thesis by (simp add: update_flags_add_def)
  qed
  then show "\<exists>m'. flags_from host_flag um j m (update_flags_add um j) m'" "free_temps 2 (update_flags_add um j)"
    by blast+
qed

text \<open>
  C18. After an addition, the code that updates the condition codes gives each of the flags
  in the mask the value of the host's flag, X and C the carry; X stays as it was when the
  mask does not name it, and so do FPCR, FPSR, memory and every register that is not a
  temporary. This holds for all 32 masks, although the copying emitters leave some of them
  to be set one by one.
\<close>

theorem update_flags_add_correct:
  assumes "ra_wf j" "coherent j m" "free_temps 3 j" "um < 32"
  shows "\<exists>m'. flags_from host_flag um j m (update_flags_add um j) m'"
  by (rule update_flags_add_flags [OF assms])

theorem update_flags_add_correct_witness:
  "\<exists>m'. flags_from host_flag 31 cc_cached m_reset (update_flags_add 31 cc_cached) m'"
  by (rule update_flags_add_correct [OF cc_cached_ok(5,6,2)]) simp

lemma update_flags_sub_flags:
  assumes "ra_wf j" "coherent j m" "free_temps 3 j" "um < 32"
  shows "\<exists>m'. flags_from host_flag_sub um j m (update_flags_sub um j) m'" "free_temps 2 (update_flags_sub um j)"
proof -
  have "(\<exists>m'. flags_from host_flag_sub um j m (update_flags_sub um j) m') \<and> free_temps 2 (update_flags_sub um j)"
  proof (cases "um = 0")
    case True
    then show ?thesis using flags_from_0 [OF assms(1,2)] free_temps_mono [OF assms(3)]
        by (auto simp: update_flags_sub_def)
  next
    case False
    obtain cc j1 where g: "RA_ModifyCC j = (cc, j1)" by fastforce
    obtain um' j2 where e: "(if um AND SR_X \<noteq> 0 then EMIT_GetNZnCVX cc um j1 else EMIT_GetNZnCV cc um j1) = (um', j2)"
      by fastforce
    note s = EMIT_GetNZnCV_copies [of cc j1 um] EMIT_GetNZnCVX_copies [of cc j1 um]
    have "\<exists>m2. updates {cc} j1 m1 j2 m2 \<and> copied host_flag_sub m1 um um' (rdW m1 cc) (rdW m2 cc)"
        "um' < 32" if "cc \<in> live_temps j1" "free_temps 2 j1" for m1
      using s [OF that assms(4)] e assms(4) and16_less [of um] by (auto split: if_splits)
    moreover have "cc \<in> live_temps j1" "free_temps 2 j1"
      using RA_ModifyCC_free(5,6) [of j m 2, OF assms(1,2) _ g] assms(3) by simp_all
    moreover have "A64_CC_CC < 14" by (simp add: A64_CC_CC_def)
    ultimately have "(\<exists>m'. flags_from host_flag_sub um j m (set_rest A64_CC_CC cc um' j2) m') \<and>
        free_temps 2 (set_rest A64_CC_CC cc um' j2)"
      by (intro conjI update_flags_from [OF assms(1-3) g _ _ _ tail_host(2)]) blast+
    with e g False show ?thesis by (simp add: update_flags_sub_def)
  qed
  then show "\<exists>m'. flags_from host_flag_sub um j m (update_flags_sub um j) m'" "free_temps 2 (update_flags_sub um j)"
    by blast+
qed

text \<open>
  C17. The same after a subtraction, where the m68k carry is the inverse of the host's: C
  and X are set when the host's carry is clear.
\<close>

theorem update_flags_sub_correct:
  assumes "ra_wf j" "coherent j m" "free_temps 3 j" "um < 32"
  shows "\<exists>m'. flags_from host_flag_sub um j m (update_flags_sub um j) m'"
  by (rule update_flags_sub_flags [OF assms])

theorem update_flags_sub_correct_witness:
  "\<exists>m'. flags_from host_flag_sub 17 cc_cached m_reset (update_flags_sub 17 cc_cached) m'"
  by (rule update_flags_sub_correct [OF cc_cached_ok(5,6,2)]) simp

section \<open>Logic operations and the FPU\<close>

text \<open>
  C34. After a logic operation (the host's V is clear) \<open>EMIT_GetNZ00\<close> copies N and Z to
  the CCR and clears V and C when the mask names them, for every mask without X except
  the one that names just V and C.
\<close>

theorem logic_flags:
  assumes "cc \<in> live_temps j" "free_temps 2 j" "nd < 16" "nd \<noteq> 3" "\<not> m_v m" "\<not> (m_n m \<and> m_z m)"
  shows "fst (EMIT_GetNZ00 cc nd j) = 0 \<and>
    (\<exists>m'. run (emitted j (snd (EMIT_GetNZ00 cc nd j))) m = Some m' \<and>
      (\<forall>f. in_mask f nd \<longrightarrow> ccr (rdW m' cc) f = host_flag_logic m f) \<and>
      ccr (rdW m' cc) Xf = ccr (rdW m cc) Xf \<and> same_upper (rdW m' cc) (rdW m cc))"
proof -
  have "nd < 2 ^ 4" using assms(3) by simp
  then have "\<not> bit nd 4"
    using less_mask_eq [of nd 4] by (metis bit_and_iff bit_mask_iff less_irrefl)
  then have x: "\<not> in_mask Xf nd" by (simp add: in_mask_def)
  obtain m' where u: "updates {cc} j m (snd (EMIT_GetNZ00 cc nd j)) m'"
    "copied host_flag_logic m nd 0 (rdW m cc) (rdW m' cc)"
    using EMIT_GetNZ00_copies(2) [OF assms(1-4), of m] assms(5,6) by blast
  with x have "run (emitted j (snd (EMIT_GetNZ00 cc nd j))) m = Some m' \<and>
      (\<forall>f. in_mask f nd \<longrightarrow> ccr (rdW m' cc) f = host_flag_logic m f) \<and>
      ccr (rdW m' cc) Xf = ccr (rdW m cc) Xf \<and> same_upper (rdW m' cc) (rdW m cc)"
    using updates_run [OF u(1)] by (simp add: copied_def copying_def)
  with EMIT_GetNZ00_copies(1) [OF assms(1-4), of m] assms(5,6) show ?thesis by blast
qed

theorem logic_flags_witness:
  "fst (EMIT_GetNZ00 4 15 cc_cached) = 0 \<and>
   (\<exists>m'. run (emitted cc_cached (snd (EMIT_GetNZ00 4 15 cc_cached))) (m_reset\<lparr>m_z := True\<rparr>) = Some m' \<and>
      ccr (rdW m' 4) Zf)"
proof -
  have "\<not> m_v (m_reset\<lparr>m_z := True\<rparr>)" "\<not> (m_n (m_reset\<lparr>m_z := True\<rparr>) \<and> m_z (m_reset\<lparr>m_z := True\<rparr>))"
    by (simp_all add: m_reset_def)
  moreover have "in_mask Zf 15" unfolding in_mask_def by code_simp
  moreover have "host_flag_logic (m_reset\<lparr>m_z := True\<rparr>) Zf" by simp
  ultimately show ?thesis
    using logic_flags [OF cc_cached_ok(1,3), of 15 "m_reset\<lparr>m_z := True\<rparr>"] by force
qed

text \<open>
  C38. For the mask that names just V and C, \<open>EMIT_GetNZ00\<close> emits nothing at all and
  still reports both flags as done: they keep the values of an earlier instruction.
\<close>

theorem logic_flags_vc:
  assumes "free_temps 2 j"
  shows "fst (EMIT_GetNZ00 cc 3 j) = 0 \<and> emitted j (snd (EMIT_GetNZ00 cc 3 j)) = []"
proof -
  let ?j0 = "j\<lparr>host_flags := 3 AND SR_NZ\<rparr>"
  obtain r j1 where a: "alloc_result ?j0 r j1" "free_temps 1 j1"
    using free_temps_2 [of ?j0] assms by auto
  obtain r2 j2 where b: "alloc_result j1 r2 j2" using free_temps_1 [OF a(2)] by blast
  have p: "popcount (3 :: u8) \<noteq> 1" "(3 :: u8) AND SR_NZ = 0" "SR_NZ \<noteq> 0" "SR_Z \<noteq> 0" "SR_N \<noteq> 0"
    "(3 :: u8) AND 16 = 0" "popcount (3 :: u8) \<noteq> Suc 0" by code_simp+
  have "RA_AllocARMRegister (j\<lparr>host_flags := 0\<rparr>) = (r, j1)"
    using alloc_result_host [OF a(1)] by (simp add: p(2))
  then have "EMIT_GetNZ00 cc 3 j = (0, RA_FreeARMRegister r (RA_FreeARMRegister r2 j2))"
    using tmp_result(1) [OF b] p(3-5) [symmetric]
    by (simp add: EMIT_GetNZ00_def p Let_def)
  moreover have "tc_code j2 = tc_code j"
    using tmp_result(2) [OF a(1)] tmp_result(2) [OF b] by simp
  ultimately show ?thesis by (simp add: emitted_def)
qed

theorem logic_flags_vc_witness:
  "fst (EMIT_GetNZ00 4 3 cc_cached) = 0 \<and> emitted cc_cached (snd (EMIT_GetNZ00 4 3 cc_cached)) = []"
  by (rule logic_flags_vc [OF cc_cached_ok(3)])

lemma run_orr_LSR:
  "is_reg rd \<Longrightarrow> is_reg rn \<Longrightarrow> is_reg rm \<Longrightarrow> run (orr_reg rd rn rm LSR 4 # ws) m =
     run ws ((wrW rd (rdW m rn OR drop_bit 4 (rdW m rm)) m)\<lparr>m_pc := m_pc m + 4\<rparr>)"
  by (simp add: decode_orr_reg exec_def is_regD Let_def run.simps(2))

text \<open>
  C35. After a floating-point comparison \<open>EMIT_GetFPUFlags\<close> puts N and Z and the unordered
  outcome (the host's V) into bits 27, 26 and 24 of the FPSR, clears bit 25 and keeps the
  other 28 bits.
\<close>

theorem fpu_flags:
  assumes "fpsr \<in> live_temps j" "free_temps 1 j" "k < 32"
  shows "\<exists>m'. run (emitted j (EMIT_GetFPUFlags fpsr j)) m = Some m' \<and>
    bit (rdW m' fpsr) k =
      (if k = 27 then m_n m else if k = 26 then m_z m else if k = 25 then False
       else if k = 24 then m_v m else bit (rdW m fpsr) k)"
proof -
  let ?j0 = "j\<lparr>host_flags := 0\<rparr>"
  obtain r j1 where a: "alloc_result j r j1" using free_temps_1 [OF assms(2)] by blast
  note f = cc_tmp [OF assms(1) a] tmp_result [OF a]
  let ?w1 = "rdW m fpsr AND NOT (push_bit 24 (mask 4))"
  let ?w2 = "nzcv_word m AND NOT (push_bit 29 1)"
  let ?m1 = "(wrW fpsr ?w1 m)\<lparr>m_pc := m_pc m + 4\<rparr>"
  let ?m2 = "(wrX r (ucast (nzcv_word m)) ?m1)\<lparr>m_pc := m_pc m + 4 + 4\<rparr>"
  let ?m3 = "(wrW r ?w2 ?m2)\<lparr>m_pc := m_pc m + 4 + 4 + 4\<rparr>"
  let ?m = "(wrW fpsr (?w1 OR drop_bit 4 ?w2) ?m3)\<lparr>m_pc := m_pc m + 4 + 4 + 4 + 4\<rparr>"
  have w: "word_rotr 8 (mask 4) = (push_bit 24 (mask 4) :: u32)"
    "word_rotr 3 1 = (push_bit 29 1 :: u32)" "word_rotr 3 (mask 1) = (push_bit 29 1 :: u32)"
    by code_simp+
  have nz: "nzcv_word ?m1 = nzcv_word m" by (simp add: nzcv_word_def)
  let ?ws = "[bic_immed fpsr fpsr 4 8, get_nzcv r, bic_immed r r 1 3, orr_reg fpsr fpsr r LSR 4]"
  have "run ?ws m = Some ?m"
    using f by (simp add: run_steps run_orr_LSR run_get_nzcv w nz is_regD del: push_bit_of_1)
  moreover have "emitted j (EMIT_GetFPUFlags fpsr j) = ?ws"
    using f by (simp add: EMIT_GetFPUFlags_def emitted_def)
  moreover have "rdW ?m fpsr = ?w1 OR drop_bit 4 ?w2" using f by simp
  moreover have "bit (?w1 OR drop_bit 4 ?w2) k = (if k = 27 then m_n m else if k = 26 then m_z m
       else if k = 25 then False else if k = 24 then m_v m else bit (rdW m fpsr) k)"
    using assms(3) by (auto simp: nzcv_word_def bit_simps)
  ultimately show ?thesis by auto
qed

theorem fpu_flags_witness:
  "\<exists>m'. run (emitted cc_cached (EMIT_GetFPUFlags 4 cc_cached)) (m_reset\<lparr>m_v := True\<rparr>) = Some m' \<and>
     bit (rdW m' 4) 24"
  using fpu_flags [OF cc_cached_ok(1,4), of 24 "m_reset\<lparr>m_v := True\<rparr>"] by simp

end
