(* ===== verification/Cond_Jump.thy ===== *)
theory Cond_Jump
  imports Cond_Test Flag_Theorems
begin

text \<open>
  The properties of \<open>EMIT_TestCondition\<close> and \<open>EMIT_JumpOnCondition\<close>
  (\<open>emu68/src/M68k_CC.c\<close>): whatever the host's flags still hold, the code decides on the m68k
  condition over the CCR that the emulated program sees.
\<close>

section \<open>Testing\<close>

lemma view_flag_cc:
  assumes "ucast (rdX m1 cc) = cc_view j m"
  shows "ccr (rdW m1 cc) f = view_flag j m f"
proof -
  have "alt_bit f < 16" by (cases f) simp_all
  then show ?thesis unfolding view_flag_def ccr_def assms [symmetric] rdW_def by (simp add: bit_simps)
qed

lemma host_flag_cong:
  "m_n m' = m_n m \<Longrightarrow> m_z m' = m_z m \<Longrightarrow> m_c m' = m_c m \<Longrightarrow> m_v m' = m_v m \<Longrightarrow>
   host_flag m' f = host_flag m f"
  by (cases f) simp_all

lemma loads_host:
  assumes "loads r j m j1 m1"
  shows "host_flag m1 f = host_flag m f" "cond_holds c m1 = cond_holds c m"
proof -
  have "m_n m1 = m_n m" "m_z m1 = m_z m" "m_c m1 = m_c m" "m_v m1 = m_v m"
    using assms by (simp_all add: loads_def)
  then show "host_flag m1 f = host_flag m f" "cond_holds c m1 = cond_holds c m"
    using host_flag_cong cond_holds_cong by blast+
qed

text \<open>
  C14. \<open>EMIT_TestCondition\<close> returns a host condition that, after the emitted code has run,
  holds exactly when the m68k condition holds of the CCR; the code shows the emulated
  program nothing, and \<open>host_flags\<close> still tells the truth for the next test.
\<close>

theorem EMIT_TestCondition_correct:
  assumes "ra_wf j" "coherent j m" "free_temps 2 j" "host_ok j m" "2 \<le> c" "c < 16"
    "EMIT_TestCondition c j = (s, j')"
  shows "\<exists>m'. run (emitted j j') m = Some m' \<and> cond_holds s m' = m68k_cond c (view_flag j m) \<and>
    tests j m j' m' \<and> host_ok j' m'"
proof -
  obtain cc j1 where g: "RA_GetCC j = (cc, j1)" by fastforce
  have "free_temps (Suc 1) j" using assms(3) by (simp add: numeral_2_eq_2)
  note f = RA_GetCC_free [OF assms(1,2) this g]
  obtain m1 where l: "loads cc j m j1 m1" "ucast (rdX m1 cc) = cc_view j m" using f(1) by blast
  have v: "view_flag j m f = ccr (rdW m1 cc) f" for f by (rule view_flag_cc [OF l(2), symmetric])
  have h: "\<forall>f. f \<noteq> Xf \<longrightarrow> in_mask f (host_flags j1) \<longrightarrow> host_flag m1 f = view_flag j m f"
    using assms(4) f(6) loads_host(1) [OF l(1)] by (simp add: host_ok_def)
  obtain m' where d: "decides c (view_flag j m) s j1 m1 j' m'"
    using EMIT_TestCondition_decides [OF g f(4,5) assms(5-7) v h] by blast
  have p: "run (emitted j j') m = Some m'"
    using d l(1) produces_run produces_trans unfolding decides_def loads_def by blast
  have t: "tests j m j' m'" using loads_keeps_tests [OF l(1)] d by (simp add: decides_def)
  then have w: "view_flag j' m' f = view_flag j m f" for f
    by (simp add: tests_def same_status_def view_flag_def)
  have "host_ok j' m'" unfolding host_ok_def w using d host_ok_0 unfolding decides_def
    by (metis in_mask_single(6))
  moreover have "cond_holds s m' = m68k_cond c (view_flag j m)" using d by (simp only: decides_def)
  ultimately show ?thesis using p t by blast
qed

text \<open>A state whose CCR is cached in \<open>x4\<close> and holds N without V, with no host flag kept.\<close>

lemma cc_state:
  assumes "v < 32"
  shows "ra_wf cc_cached" "coherent cc_cached (wrX 4 v m_reset)" "free_temps 2 cc_cached"
    "host_ok cc_cached (wrX 4 v m_reset)" "view_flag cc_cached (wrX 4 v m_reset) f = bit v (alt_bit f)"
proof -
  show "ra_wf cc_cached" "free_temps 2 cc_cached" by (rule cc_cached_ok)+
  show "coherent cc_cached (wrX 4 v m_reset)"
    by (simp add: coherent_def view_defs cc_cached_def jit_init_def)
  show "host_ok cc_cached (wrX 4 v m_reset)"
    by (rule host_ok_0) (simp add: cc_cached_def jit_init_def)
  have "alt_bit f < 16" by (cases f) simp_all
  then show "view_flag cc_cached (wrX 4 v m_reset) f = bit v (alt_bit f)"
    by (simp add: view_flag_def cc_view_def cc_cached_def jit_init_def bit_simps)
qed

theorem EMIT_TestCondition_correct_witness:
  "\<exists>s j' m'. EMIT_TestCondition M_CC_LT cc_cached = (s, j') \<and>
     run (emitted cc_cached j') (wrX 4 8 m_reset) = Some m' \<and> cond_holds s m'"
proof -
  obtain s j' where e: "EMIT_TestCondition M_CC_LT cc_cached = (s, j')" by fastforce
  have b: "bit (8 :: u64) 3" "\<not> bit (8 :: u64) 0" by code_simp+
  have l: "2 \<le> M_CC_LT" "M_CC_LT < 16" by (simp_all add: M_CC_LT_def)
  have "(8 :: u64) < 32" by simp
  note s = cc_state [OF this]
  have "m68k_cond M_CC_LT (view_flag cc_cached (wrX 4 8 m_reset))"
    by (simp add: m68k_cond_def m_cc_defs s(5) b)
  with EMIT_TestCondition_correct [OF s(1-4) l e] e show ?thesis by blast
qed

section \<open>Jumping\<close>

definition branches :: "bool \<Rightarrow> u32 \<Rightarrow> u32 \<Rightarrow> mstate \<Rightarrow> bool" where
  "branches b d w m \<longleftrightarrow>
     (\<exists>i. decode (fetch w) = Some i \<and> is_branch i \<and> branch_taken i m = b \<and> branch_offset i = 4 * ucast d)"

text \<open>The last word branches, by \<open>d\<close> as it stands and by any distance it is aimed at later.\<close>

definition jumps :: "u32 \<Rightarrow> bool \<Rightarrow> u32 \<Rightarrow> jit \<Rightarrow> mstate \<Rightarrow> jit \<Rightarrow> mstate \<Rightarrow> bool" where
  "jumps kind b d j m j' m1 \<longleftrightarrow>
     (\<exists>ws w. tc_code j' = tc_code j @ ws @ [w] \<and> no_branches ws \<and> run ws m = Some m1 \<and>
        branches b d w m1 \<and> (\<forall>d'<0x2000. branches b d' (fixup kind d' w) m1))"

lemma exec_branch: "is_branch i \<Longrightarrow> exec i m = m\<lparr>m_pc := m_pc m +
    (if branch_taken i m then branch_offset i else 4)\<rparr>"
  by (cases i) (simp_all add: exec_def)

lemma branches_run:
  assumes "no_branches ws" "run ws m = Some m1" "branches b d w m1"
  shows "run (ws @ [w]) m = Some (m1\<lparr>m_pc := m_pc m1 + (if b then 4 * ucast d else 4)\<rparr>)"
  using assms by (auto simp: branches_def run_append run.simps(2) exec_branch)

lemma jumps_run:
  assumes "produces j0 m0 j m" "jumps kind b d j m j' m1"
  shows "\<exists>ws w. emitted j0 j' = ws @ [w] \<and>
    run (ws @ [w]) m0 = Some (m1\<lparr>m_pc := m_pc m1 + (if b then 4 * ucast d else 4)\<rparr>) \<and>
    (\<forall>d'<0x2000. run (ws @ [fixup kind d' w]) m0 = Some (m1\<lparr>m_pc := m_pc m1 + (if b then 4 * ucast d' else 4)\<rparr>))"
proof -
  obtain us where u: "tc_code j = tc_code j0 @ us" "no_branches us" "run us m0 = Some m"
    using assms(1) by (auto simp: produces_def)
  obtain ws w where w: "tc_code j' = tc_code j @ ws @ [w]" "no_branches ws" "run ws m = Some m1"
    "branches b d w m1" "\<forall>d'<0x2000. branches b d' (fixup kind d' w) m1"
    using assms(2) by (auto simp: jumps_def)
  have nb: "no_branches (us @ ws)" "run (us @ ws) m0 = Some m1" using u w by (simp_all add: run_append no_branches_append)
  have "emitted j0 j' = (us @ ws) @ [w]" using u w by (intro emittedI) simp
  then show ?thesis using branches_run [OF nb] w(4,5) by blast
qed

text \<open>Aiming a branch gives the branch that would have been emitted for the distance.\<close>

lemma I32_I32 [simp]: "I32 (I32 w) = w"
proof -
  have "I32 x = be32 (ucast x) (ucast (drop_bit 8 x)) (ucast (drop_bit 16 x)) (ucast (drop_bit 24 x))" for x
    by (simp add: I32_def Let_def ucast_and_ff)
  moreover have "ucast (drop_bit 24 (I32 w)) = (ucast w :: u8)" "ucast (drop_bit 16 (I32 w)) = (ucast (drop_bit 8 w) :: u8)"
    "ucast (drop_bit 8 (I32 w)) = (ucast (drop_bit 16 w) :: u8)" "ucast (I32 w) = (ucast (drop_bit 24 w) :: u8)"
    using bytes_I32 [of w] by (simp_all add: bytes_be32_def)
  ultimately show ?thesis using be32_bytes [of w] by simp
qed

lemma replace_field:
  fixes base :: u32
  assumes "base AND push_bit 5 (mask n) = 0"
  shows "(base OR push_bit 5 (x AND mask n)) AND NOT (push_bit 5 (mask n)) OR push_bit 5 (y AND mask n) = base OR push_bit 5 (y AND mask n)"
proof (rule bit_word_eqI)
  fix i assume i: "i < LENGTH(32)"
  then show "bit ((base OR push_bit 5 (x AND mask n)) AND NOT (push_bit 5 (mask n)) OR push_bit 5 (y AND mask n)) i =
      bit (base OR push_bit 5 (y AND mask n)) i"
    using arg_cong [OF assms, of "\<lambda>w. bit w i"] by (auto simp: bit_simps)
qed

lemma fixup_branches:
  "fixup FIXUP_BCC d' (b_cc h d) = b_cc h d'"
  "k < 32 \<Longrightarrow> fixup FIXUP_TBZ d' (tbz cc k (ucast d)) = tbz cc k (ucast d')"
  "k < 32 \<Longrightarrow> fixup FIXUP_TBZ d' (tbnz cc k (ucast d)) = tbnz cc k (ucast d')"
proof -
  have m: "(0x7ffff :: u32) = mask 19" "(0x3fff :: u32) = mask 14" "(31 :: u32) = mask 5" "(15 :: u32) = mask 4"
    by (simp_all add: mask_eq_exp_minus_1)
  have c: "(0x54000000 :: u32) AND push_bit 5 (mask 19) = 0" "(0x36000000 :: u32) AND push_bit 5 (mask 14) = 0"
    "(0x37000000 :: u32) AND push_bit 5 (mask 14) = 0" by (simp_all add: mask_eq_exp_minus_1)
  have f: "(ucast h AND mask 4) AND push_bit 5 (mask n) = (0 :: u32)" "(ucast cc AND mask 5) AND push_bit 5 (mask n) = (0 :: u32)"
    "push_bit 19 (ucast k AND mask 5) AND push_bit 5 (mask 14) = (0 :: u32)" for n
    by (rule bit_word_eqI; auto simp: bit_simps)+
  have a: "(0x54000000 OR (ucast h AND mask 4)) AND push_bit 5 (mask 19) = (0 :: u32)"
    "(0x36000000 OR push_bit 19 (ucast k AND mask 5) OR (ucast cc AND mask 5)) AND push_bit 5 (mask 14) = (0 :: u32)"
    "(0x37000000 OR push_bit 19 (ucast k AND mask 5) OR (ucast cc AND mask 5)) AND push_bit 5 (mask 14) = (0 :: u32)"
    unfolding bit.conj_disj_distrib2 c f by simp_all
  show "fixup FIXUP_BCC d' (b_cc h d) = b_cc h d'"
    using replace_field [OF a(1), of d d'] by (simp add: fixup_def b_cc_def m or.assoc)
  have s: "(ucast (ucast x :: u16) AND mask 14 :: u32) = x AND mask 14" for x :: u32
    by (rule bit_word_eqI) (auto simp: bit_simps)
  have k: "FIXUP_TBZ \<noteq> FIXUP_BCC" by (simp add: FIXUP_TBZ_def FIXUP_BCC_def)
  show "fixup FIXUP_TBZ d' (tbz cc k (ucast d)) = tbz cc k (ucast d')" if "k < 32"
    using replace_field [OF a(2), of d d'] and_32_clear [OF that]
    by (simp add: fixup_def k tbz_def m s or.assoc or.commute or.left_commute)
  show "fixup FIXUP_TBZ d' (tbnz cc k (ucast d)) = tbnz cc k (ucast d')" if "k < 32"
    using replace_field [OF a(3), of d d'] and_32_clear [OF that]
    by (simp add: fixup_def k tbnz_def m s or.assoc or.commute or.left_commute)
qed

lemma small_distance:
  assumes "d < 0x2000"
  shows "(scast (ucast (take_bit 19 d :: u32) :: 19 word) :: u64) = ucast d"
    "(scast (ucast (take_bit 14 (ucast (ucast d :: u16)) :: u32) :: 14 word) :: u64) = ucast d"
proof -
  have "d < 2 ^ 13" using assms by simp
  then have b: "\<not> bit d k" if "13 \<le> k" for k
    using that less_mask_eq [of d 13] by (metis bit_and_iff bit_mask_iff not_less)
  show "(scast (ucast (take_bit 19 d :: u32) :: 19 word) :: u64) = ucast d"
    by (rule bit_word_eqI) (auto simp: bit_simps b min_def not_less)
  show "(scast (ucast (take_bit 14 (ucast (ucast d :: u16)) :: u32) :: 14 word) :: u64) = ucast d"
    by (rule bit_word_eqI) (auto simp: bit_simps b min_def not_less)
qed

lemma branches_bcc:
  assumes "h < 14" "d < 0x2000"
  shows "branches (cond_holds h m) d (b_cc h d) m"
proof -
  have "h < 2 ^ 4" using assms(1) by (rule less_trans) simp
  then have "take_bit 4 h = h" using less_mask_eq [of h 4] by (simp add: take_bit_eq_mask)
  with small_distance(1) [OF assms(2)] show ?thesis by (simp add: branches_def decode_b_cc)
qed

lemma branches_tbz:
  assumes "is_reg cc" "k < 32" "d < 0x2000"
  shows "branches (bit (rdW m cc) (unat k) = p) d (if p then tbnz cc k (ucast d) else tbz cc k (ucast d)) m"
proof -
  have "unat k < 32" using assms(2) by (simp add: word_less_nat_alt)
  then have "bit (rdX m cc) (unat k) = bit (rdW m cc) (unat k)" by (simp add: rdW_def bit_simps)
  with assms small_distance(2) [OF assms(3)] is_regD(3) [OF assms(1)] show ?thesis
    by (simp add: branches_def decode_tbz decode_tbnz)
qed

lemma jumps_bcc:
  assumes "h < 14" "d < 0x2000" "no_branches ws" "run ws m = Some m1"
    "tc_code j' = tc_code j @ ws @ [b_cc h d]" "cond_holds h m1 = b"
  shows "jumps FIXUP_BCC b d j m j' m1"
  unfolding jumps_def using assms(2-5) branches_bcc [OF assms(1), of _ m1]
  by (intro exI [of _ ws] exI [of _ "b_cc h d"]) (simp add: fixup_branches assms(6))

lemma jumps_tbz:
  assumes "is_reg cc" "k < 32" "d < 0x2000"
    "tc_code j' = tc_code j @ [if p then tbnz cc k (ucast d) else tbz cc k (ucast d)]"
    "b = (bit (rdW m cc) (unat k) = p)"
  shows "jumps FIXUP_TBZ b d j m j' m"
  unfolding jumps_def using assms(2-4) branches_tbz [OF assms(1,2), of _ m p]
  by (intro exI [of _ "[]"] exI [of _ "if p then tbnz cc k (ucast d) else tbz cc k (ucast d)"])
    (cases p; simp add: fixup_branches assms(5))

lemma JumpOnCondition_rows:
  assumes "RA_GetCC j0 = (cc, j)"
  shows "(c, f, b, h, p) \<in> set flag_rows \<Longrightarrow> EMIT_JumpOnCondition c d j0 =
      (if in_mask f (host_flags j) then (Some FIXUP_BCC, RA_FreeARMRegister 0xff (EMIT [b_cc h d] j))
       else (Some FIXUP_TBZ, RA_FreeARMRegister 0xff
         (EMIT [if p then tbnz cc b (ucast d) else tbz cc b (ucast d)] j)))"
    "(c, h, k) \<in> set sign_rows \<Longrightarrow> EMIT_JumpOnCondition c d j0 =
      (if host_flags j AND k = k then (Some FIXUP_BCC, RA_FreeARMRegister 0xff (EMIT [b_cc h d] j))
       else case RA_AllocARMRegister j of (r, j1) \<Rightarrow>
         (Some FIXUP_BCC, RA_FreeARMRegister r (EMIT [ror_i r cc 4, set_nzcv r, b_cc h d] j1)))"
    "(c, e) \<in> set pair_rows \<Longrightarrow> EMIT_JumpOnCondition c d j0 =
      (Some FIXUP_BCC, RA_FreeARMRegister 0xff
        (EMIT_rf [tst_immed cc 2 31, b_cc (if e then A64_CC_EQ else A64_CC_NE) d] j))"
proof -
  note code = EMIT_JumpOnCondition_def assms prod.case m_cc_defs
  assume "(c, f, b, h, p) \<in> set flag_rows"
  then show "EMIT_JumpOnCondition c d j0 =
      (if in_mask f (host_flags j) then (Some FIXUP_BCC, RA_FreeARMRegister 0xff (EMIT [b_cc h d] j))
       else (Some FIXUP_TBZ, RA_FreeARMRegister 0xff
         (EMIT [if p then tbnz cc b (ucast d) else tbz cc b (ucast d)] j)))"
    by (simp only: flag_rows_def list.set insert_iff empty_iff prod.inject)
      (elim disjE conjE FalseE; simp add: code)
next
  note code = EMIT_JumpOnCondition_def assms prod.case m_cc_defs
  assume "(c, h, k) \<in> set sign_rows"
  then show "EMIT_JumpOnCondition c d j0 =
      (if host_flags j AND k = k then (Some FIXUP_BCC, RA_FreeARMRegister 0xff (EMIT [b_cc h d] j))
       else case RA_AllocARMRegister j of (r, j1) \<Rightarrow>
         (Some FIXUP_BCC, RA_FreeARMRegister r (EMIT [ror_i r cc 4, set_nzcv r, b_cc h d] j1)))"
    by (simp only: sign_rows_def list.set insert_iff empty_iff prod.inject)
      (elim disjE conjE FalseE; simp add: code split: prod.splits)
next
  note code = EMIT_JumpOnCondition_def assms prod.case m_cc_defs
  assume "(c, e) \<in> set pair_rows"
  then show "EMIT_JumpOnCondition c d j0 =
      (Some FIXUP_BCC, RA_FreeARMRegister 0xff
        (EMIT_rf [tst_immed cc 2 31, b_cc (if e then A64_CC_EQ else A64_CC_NE) d] j))"
    by (simp only: pair_rows_def list.set insert_iff empty_iff prod.inject)
      (elim disjE conjE FalseE; simp add: code)
qed

lemma EMIT_JumpOnCondition_jumps:
  assumes "RA_GetCC j0 = (cc, j)" "cc \<in> live_temps j" "free_temps 1 j" "2 \<le> c" "c < 16"
    "EMIT_JumpOnCondition c d j0 = (ty, j')" "\<And>f. f \<noteq> Xf \<Longrightarrow> fl f = ccr (rdW m cc) f"
    "\<forall>f. f \<noteq> Xf \<longrightarrow> in_mask f (host_flags j) \<longrightarrow> host_flag m f = fl f" "d < 0x2000"
  shows "\<exists>kind m1. ty = Some kind \<and> jumps kind (m68k_cond c fl) d j m j' m1 \<and> keeps j m j' m1"
proof -
  have cc: "is_reg cc" using assms(2) live_temps_arm arm_temps_is_reg by blast
  obtain r j1 where a: "alloc_result j r j1" using free_temps_1 [OF assms(3)] by blast
  note d = JumpOnCondition_rows [OF assms(1), of c]
  have k: "keeps j m (RA_FreeARMRegister 0xff (EMIT ws j)) m"
    "keeps j m (RA_FreeARMRegister 0xff (EMIT_rf ws j)) m1 = keeps j m (EMIT_rf [] j) m1" for ws m1
    by (simp_all add: keeps_def RA_FreeARMRegister_def EMIT_rf_def RESET_FLAGS_def status_part_def
        live_temps_def)
  show ?thesis
    using assms(4,5)
  proof (cases rule: condition_rows)
    case (flag f b h p)
    note r = flag_row [OF flag]
    show ?thesis
    proof (cases "in_mask f (host_flags j)")
      case True
      with d(1) [OF flag] assms(6) have e: "ty = Some FIXUP_BCC"
        "j' = RA_FreeARMRegister 0xff (EMIT [b_cc h d] j)" by auto
      have "jumps FIXUP_BCC (m68k_cond c fl) d j m j' m"
        by (rule jumps_bcc [OF r(6) assms(9), of "[]"])
          (use e r(1,2,4) assms(8) True in \<open>simp_all add: RA_FreeARMRegister_def\<close>)
      with e k(1) show ?thesis by blast
    next
      case False
      with d(1) [OF flag] assms(6) have e: "ty = Some FIXUP_TBZ" "j' = RA_FreeARMRegister 0xff
          (EMIT [if p then tbnz cc b (ucast d) else tbz cc b (ucast d)] j)" by auto
      have b: "b < 32" using r(5) by (cases f) (simp_all add: word_less_nat_alt)
      have "jumps FIXUP_TBZ (m68k_cond c fl) d j m j' m"
        by (rule jumps_tbz [OF cc b assms(9)])
          (use e r(1,5) assms(7) [OF r(4)] in \<open>simp_all add: RA_FreeARMRegister_def ccr_def\<close>)
      with e k(1) show ?thesis by blast
    qed
  next
    case (sign h k')
    note r = sign_row [OF sign]
    show ?thesis
    proof (cases "host_flags j AND k' = k'")
      case True
      with d(2) [OF sign] assms(6) have e: "ty = Some FIXUP_BCC"
        "j' = RA_FreeARMRegister 0xff (EMIT [b_cc h d] j)" by auto
      have "jumps FIXUP_BCC (m68k_cond c fl) d j m j' m"
        by (rule jumps_bcc [OF r(4) assms(9), of "[]"])
          (use e r(1) r(2) [OF True, of "host_flag m" fl] assms(8) in \<open>simp_all add: RA_FreeARMRegister_def\<close>)
      with e k(1) show ?thesis by blast
    next
      case False
      with d(2) [OF sign] assms(6) tmp_result(1) [OF a]
      have e: "ty = Some FIXUP_BCC"
        "j' = RA_FreeARMRegister r (EMIT [ror_i r cc 4, set_nzcv r, b_cc h d] j1)" by auto
      let ?m = "after_nzcv cc r m"
      have "m68k_cond c (host_flag ?m) = m68k_cond c fl"
        by (rule r(3)) (simp add: seg_to_nzcv(4) [OF assms(2) a] assms(7))
      then have "jumps FIXUP_BCC (m68k_cond c fl) d j m j' ?m"
        using seg_to_nzcv(1) [OF assms(2) a, of m] tmp_result(2) [OF a] r(1)
        by (intro jumps_bcc [OF r(4) assms(9), of "[ror_i r cc 4, set_nzcv r]"])
          (simp_all add: e no_branches_Cons [of _ "[_]"])
      moreover have "keeps j m j' ?m" unfolding e
        by (rule keeps_alloc [OF a])
          (use cc_tmp [OF assms(2) a] in \<open>auto simp: after_nzcv_def Let_def\<close>)
      ultimately show ?thesis using e by blast
    qed
  next
    case (pair e)
    let ?h = "if e then A64_CC_EQ else A64_CC_NE"
    from d(3) [OF pair] assms(6) have s: "ty = Some FIXUP_BCC"
      "j' = RA_FreeARMRegister 0xff (EMIT_rf [tst_immed cc 2 31, b_cc ?h d] j)" by auto
    let ?m = "after_tst cc 2 31 m"
    have n: "1 \<le> unat (2 :: u8)" "unat (2 :: u8) \<le> 31" by simp_all
    note t = seg_tst(1,2) [OF cc n, of j m 31]
    have z: "m_z ?m \<longleftrightarrow> m68k_cond c fl = e"
      unfolding seg_tst(3) [OF cc n] rot_masks(5) and_pair_zero pair_row [OF pair, symmetric]
      using assms(7) [of Cf] assms(7) [of Zf] by (simp add: ccr_def)
    have "jumps FIXUP_BCC (m68k_cond c fl) d j m j' ?m"
      by (rule jumps_bcc [OF _ assms(9), of ?h "[tst_immed cc 2 31]"])
        (use z in \<open>auto simp: s(2) RA_FreeARMRegister_def run_tst_immed cc after_tst_def\<close>)
    moreover have "keeps j m j' ?m" unfolding s(2) k(2)
      using t(2) by (simp add: keeps_def EMIT_rf_def RESET_FLAGS_def status_part_def live_temps_def)
    ultimately show ?thesis using s by blast
  qed
qed

text \<open>
  C20. The code that \<open>EMIT_JumpOnCondition\<close> emits branches by the distance given exactly
  when the m68k condition holds of the CCR, and falls through otherwise; and its last word is
  the branch of the kind it reports: when the translator later aims that word at another
  distance by the reported kind, the code branches by that distance under the same condition.
  Both distances are forward and fit the shorter of the two encodings, that is, are below
  \<open>0x2000\<close> words; the conditions are the fourteen besides true and false.
\<close>

theorem EMIT_JumpOnCondition_correct:
  assumes "ra_wf j" "coherent j m" "free_temps 2 j" "host_ok j m" "2 \<le> c" "c < 16" "d < 0x2000"
    "EMIT_JumpOnCondition c d j = (ty, j')"
  shows "\<exists>kind ws w m1. ty = Some kind \<and> tests j m j' m1 \<and> emitted j j' = ws @ [w] \<and>
    run (ws @ [w]) m = Some (m1\<lparr>m_pc := m_pc m1 + (if m68k_cond c (view_flag j m) then 4 * ucast d else 4)\<rparr>) \<and>
    (\<forall>d'<0x2000. run (ws @ [fixup kind d' w]) m =
       Some (m1\<lparr>m_pc := m_pc m1 + (if m68k_cond c (view_flag j m) then 4 * ucast d' else 4)\<rparr>))"
proof -
  obtain cc j1 where g: "RA_GetCC j = (cc, j1)" by fastforce
  have "free_temps (Suc 1) j" using assms(3) by (simp add: numeral_2_eq_2)
  note f = RA_GetCC_free [OF assms(1,2) this g]
  obtain m1 where l: "loads cc j m j1 m1" "ucast (rdX m1 cc) = cc_view j m" using f(1) by blast
  have v: "view_flag j m f = ccr (rdW m1 cc) f" for f by (rule view_flag_cc [OF l(2), symmetric])
  have h: "\<forall>f. f \<noteq> Xf \<longrightarrow> in_mask f (host_flags j1) \<longrightarrow> host_flag m1 f = view_flag j m f"
    using assms(4) f(6) loads_host(1) [OF l(1)] by (simp add: host_ok_def)
  obtain kind m2 where k: "ty = Some kind" "jumps kind (m68k_cond c (view_flag j m)) d j1 m1 j' m2" "keeps j1 m1 j' m2"
    using EMIT_JumpOnCondition_jumps [OF g f(4,5) assms(5,6,8) v h assms(7)] by blast
  have "produces j m j1 m1" using l(1) by (simp add: loads_def)
  from jumps_run [OF this k(2)] show ?thesis using k(1) loads_keeps_tests [OF l(1) k(3)] by blast
qed

theorem EMIT_JumpOnCondition_correct_witness:
  "\<exists>kind ws w j' m'. EMIT_JumpOnCondition M_CC_LT 1 cc_cached = (Some kind, j') \<and> emitted cc_cached j' = ws @ [w] \<and>
     run (ws @ [fixup kind 16 w]) (wrX 4 8 m_reset) = Some m'"
proof -
  obtain ty j' where e: "EMIT_JumpOnCondition M_CC_LT 1 cc_cached = (ty, j')" by fastforce
  have l: "2 \<le> M_CC_LT" "M_CC_LT < 16" "(1 :: u32) < 0x2000" by (simp_all add: M_CC_LT_def)
  have "(8 :: u64) < 32" by simp
  note C = EMIT_JumpOnCondition_correct [OF cc_state(1-4) [OF this] l e]
  have "(16 :: u32) < 0x2000" by simp
  then show ?thesis using C e by blast
qed

end
