(* ===== verification/Cond_Compose.thy ===== *)
theory Cond_Compose
  imports Cond_Jump
begin

text \<open>
  Arithmetic followed by a condition: the flags an addition or subtraction copied to the
  CCR are the ones the next condition is decided on, although the condition emitter may
  take them from the host's flags instead.
\<close>

section \<open>The emitters and \<open>host_flags\<close>\<close>

lemma host_flags_int_alloc [simp]: "host_flags (snd (int_arm_alloc_reg j)) = host_flags j"
  using int_alloc_fields(8) [of j "fst (int_arm_alloc_reg j)" "snd (int_arm_alloc_reg j)"] by simp

lemma host_flags_flush [simp]:
  "host_flags (RA_FlushCC j) = host_flags j" "host_flags (RA_FlushFPCR j) = host_flags j"
  "host_flags (RA_FlushFPSR j) = host_flags j"
  by (simp_all add: flush_defs)

lemma host_flags_alloc [simp]: "host_flags (snd (RA_AllocARMRegister j)) = host_flags j"
  by (simp add: RA_AllocARMRegister_def case_prod_unfold)

lemma host_flags_cond [simp]:
  "host_flags (EMIT_SetFlagsConditional cc f c j) = host_flags j"
  by (simp add: EMIT_SetFlagsConditional_def case_prod_unfold)

lemma host_flags_set_rest [simp]: "host_flags (set_rest c cc um j) = host_flags j"
  by (simp add: set_rest_def Let_def)

lemma host_flags_clear [simp]: "host_flags (clear_rest cc nd j) = host_flags j"
  by (simp add: clear_rest_def EMIT_ClearFlags_def case_prod_unfold)

lemma host_flags_get [simp]:
  "host_flags (snd (EMIT_GetNZCV cc nd j)) = nd AND SR_NZVC"
  "host_flags (snd (EMIT_GetNZCVX cc nd j)) = nd AND SR_NZVC"
  "host_flags (snd (EMIT_GetNZnCV cc nd j)) = nd AND SR_NZV"
  "host_flags (snd (EMIT_GetNZnCVX cc nd j)) = nd AND SR_NZV"
  by (simp_all add: EMIT_GetNZCV_def EMIT_GetNZCVX_def EMIT_GetNZnCV_def EMIT_GetNZnCVX_def
      case_prod_unfold Let_def)

lemma host_flags_update:
  "um \<noteq> 0 \<Longrightarrow> host_flags (update_flags_add um j) = um AND SR_NZVC"
  "um \<noteq> 0 \<Longrightarrow> host_flags (update_flags_sub um j) = um AND SR_NZV"
  by (simp_all add: update_flags_add_def update_flags_sub_def case_prod_unfold Let_def)

lemma in_mask_sets:
  "in_mask f SR_NZVC \<longleftrightarrow> f \<noteq> Xf" "in_mask f SR_NZV \<longleftrightarrow> f \<noteq> Xf \<and> f \<noteq> Cf"
proof -
  have "list_all (\<lambda>f. (in_mask f SR_NZVC \<longleftrightarrow> f \<noteq> Xf) \<and> (in_mask f SR_NZV \<longleftrightarrow> f \<noteq> Xf \<and> f \<noteq> Cf))
    [Cf, Vf, Zf, Nf, Xf]" by code_simp
  then show "in_mask f SR_NZVC \<longleftrightarrow> f \<noteq> Xf" "in_mask f SR_NZV \<longleftrightarrow> f \<noteq> Xf \<and> f \<noteq> Cf"
    by (cases f; simp)+
qed

section \<open>After an update\<close>

lemma flags_from_view:
  "flags_from h um j m j1 m1 \<Longrightarrow> in_mask f um \<Longrightarrow> view_flag j1 m1 f = h m f"
  by (simp add: flags_from_def view_flag_def)

lemma m68k_cond_cong: "(\<And>f. f \<noteq> Xf \<Longrightarrow> g f = h f) \<Longrightarrow> m68k_cond c g = m68k_cond c h"
  by (simp add: m68k_cond_def)

lemma flags_then_test:
  assumes "flags_from h um j m j1 m1" "free_temps 2 j1" "um AND 15 = 15" "2 \<le> c" "c < 16"
    "EMIT_TestCondition c j1 = (s, j2)"
    "\<And>f. f \<noteq> Xf \<Longrightarrow> in_mask f (host_flags j1) \<Longrightarrow> host_flag m f = h m f"
  shows "\<exists>m2. run (emitted j j2) m = Some m2 \<and> cond_holds s m2 = m68k_cond c (h m)"
proof -
  have um: "in_mask f um" if "f \<noteq> Xf" for f
    using assms(3) in_mask_sets(1) [of f] that unfolding SR_NZVC_def by (metis in_mask_and)
  have v: "view_flag j1 m1 f = h m f" if "f \<noteq> Xf" for f
    using flags_from_view [OF assms(1)] um [OF that] by blast
  have fr: "ra_wf j1" "coherent j1 m1" "produces j m j1 m1"
      "m_n m1 = m_n m" "m_z m1 = m_z m" "m_c m1 = m_c m" "m_v m1 = m_v m"
    using assms(1) by (simp_all add: flags_from_def)
  obtain cc j1' where g: "RA_GetCC j1 = (cc, j1')" by fastforce
  have "free_temps (Suc 1) j1" using assms(2) by (simp add: numeral_2_eq_2)
  note f = RA_GetCC_free [OF fr(1,2) this g]
  obtain m1' where l: "loads cc j1 m1 j1' m1'" "ucast (rdX m1' cc) = cc_view j1 m1" using f(1) by blast
  have w: "h m g = ccr (rdW m1' cc) g" if "g \<noteq> Xf" for g
    using v [OF that] view_flag_cc [OF l(2), of g] by simp
  have h: "\<forall>g. g \<noteq> Xf \<longrightarrow> in_mask g (host_flags j1') \<longrightarrow> host_flag m1' g = h m g"
    using assms(7) f(6) loads_host(1) [OF l(1)] host_flag_cong [OF fr(4-7)] by metis
  obtain m2 where d: "decides c (h m) s j1' m1' j2 m2"
    using EMIT_TestCondition_decides [OF g f(4,5) assms(4,5,6) w h] by blast
  have "produces j1 m1 j2 m2" using d l(1) produces_trans unfolding decides_def loads_def by blast
  then have "run (emitted j j2) m = Some m2" using fr(3) produces_trans produces_run by blast
  moreover have "cond_holds s m2 = m68k_cond c (h m)" using d by (simp only: decides_def)
  ultimately show ?thesis by blast
qed

section \<open>Properties\<close>

text \<open>
  When an addition's flags have been copied to the CCR with a mask that covers N, Z, V
  and C, the m68k condition tested next is the condition over the flags the host's
  addition left, whichever way the test takes.
\<close>

theorem add_then_test:
  assumes "ra_wf j" "coherent j m" "free_temps 3 j" "um < 32" "um AND 15 = 15" "2 \<le> c" "c < 16"
    "EMIT_TestCondition c (update_flags_add um j) = (s, j2)"
  shows "\<exists>m2. run (emitted j j2) m = Some m2 \<and> cond_holds s m2 = m68k_cond c (host_flag m)"
proof -
  obtain m1 where "flags_from host_flag um j m (update_flags_add um j) m1"
    using update_flags_add_flags(1) [OF assms(1-4)] by blast
  with flags_then_test [of host_flag um j m _ m1] update_flags_add_flags(2) [OF assms(1-4)] assms(5-8)
  show ?thesis by blast
qed

theorem add_then_test_witness:
  "\<exists>s j2 m2. EMIT_TestCondition M_CC_EQ (update_flags_add 31 cc_cached) = (s, j2) \<and>
     run (emitted cc_cached j2) (m_reset\<lparr>m_z := True\<rparr>) = Some m2 \<and> cond_holds s m2"
proof -
  obtain s j2 where e: "EMIT_TestCondition M_CC_EQ (update_flags_add 31 cc_cached) = (s, j2)" by fastforce
  have "coherent cc_cached (m_reset\<lparr>m_z := True\<rparr>)"
    by (simp add: coherent_def view_defs cc_cached_def jit_init_def)
  moreover have "(31 :: u8) < 32" "(31 :: u8) AND 15 = 15" "2 \<le> M_CC_EQ" "M_CC_EQ < 16"
    by (simp_all add: M_CC_EQ_def)
  moreover have "m68k_cond M_CC_EQ (host_flag (m_reset\<lparr>m_z := True\<rparr>))" by (simp add: m68k_cond_def m_cc_defs)
  ultimately show ?thesis using add_then_test [OF cc_cached_ok(5) _ cc_cached_ok(2) _ _ _ _ e] e by blast
qed

text \<open>
  C19. The same after a subtraction or comparison, with the carry inverted.
\<close>

theorem sub_then_test:
  assumes "ra_wf j" "coherent j m" "free_temps 3 j" "um < 32" "um AND 15 = 15" "2 \<le> c" "c < 16"
    "EMIT_TestCondition c (update_flags_sub um j) = (s, j2)"
  shows "\<exists>m2. run (emitted j j2) m = Some m2 \<and> cond_holds s m2 = m68k_cond c (host_flag_sub m)"
proof -
  have nz: "um \<noteq> 0" using assms(5) by auto
  have h: "host_flag m f = host_flag_sub m f" if "f \<noteq> Xf" "in_mask f (host_flags (update_flags_sub um j))" for f
    using that unfolding host_flags_update(2) [OF nz] in_mask_and in_mask_sets by (cases f) simp_all
  obtain m1 where "flags_from host_flag_sub um j m (update_flags_sub um j) m1"
    using update_flags_sub_flags(1) [OF assms(1-4)] by blast
  with flags_then_test [of host_flag_sub um j m _ m1] update_flags_sub_flags(2) [OF assms(1-4)] assms(5-8) h
  show ?thesis by blast
qed

theorem sub_then_test_witness:
  "\<exists>s j2 m2. EMIT_TestCondition M_CC_CS (update_flags_sub 31 cc_cached) = (s, j2) \<and>
     run (emitted cc_cached j2) m_reset = Some m2 \<and> cond_holds s m2"
proof -
  obtain s j2 where e: "EMIT_TestCondition M_CC_CS (update_flags_sub 31 cc_cached) = (s, j2)" by fastforce
  have "(31 :: u8) < 32" "(31 :: u8) AND 15 = 15" "2 \<le> M_CC_CS" "M_CC_CS < 16"
    by (simp_all add: M_CC_CS_def)
  moreover have "m68k_cond M_CC_CS (host_flag_sub m_reset)"
    by (simp add: m68k_cond_def m_cc_defs m_reset_def)
  ultimately show ?thesis using sub_then_test [OF cc_cached_ok(5,6,2) _ _ _ _ e] e by blast
qed

end
