(* ===== verification/Cond_FPU.thy ===== *)
theory Cond_FPU
  imports Cond_Jump
begin

text \<open>
  Floating-point conditions (\<open>EMIT_TestFPUCondition\<close> in \<open>emu68/src/M68k_CC.c\<close>). Some of the
  code it emits skips its own tail with a short forward branch, so it is run with a
  semantics that follows branches forward inside the emitted words.
\<close>

section \<open>Forward branches\<close>

function run_fwd :: "u32 list \<Rightarrow> mstate \<Rightarrow> mstate option" where
  "run_fwd [] m = Some m"
| "run_fwd (w # ws) m =
     (case decode (fetch w) of
        None \<Rightarrow> None
      | Some i \<Rightarrow>
          if is_branch i \<and> branch_taken i m then
            (let k = unat (branch_offset i) div 4
             in if 0 < k \<and> k \<le> Suc (length ws) then run_fwd (drop (k - 1) ws) (exec i m) else None)
          else run_fwd ws (exec i m))"
  by pat_completeness auto

termination by (relation "measure (\<lambda>(ws, m). length ws)") auto

declare run_fwd.simps(2) [simp del]

lemma run_fwd_data:
  "decode (fetch w) = Some i \<Longrightarrow> \<not> is_branch i \<Longrightarrow> run_fwd (w # ws) m = run_fwd ws (exec i m)"
  by (simp add: run_fwd.simps(2))

text \<open>It extends the straight-line semantics.\<close>

lemma run_fwd_append:
  "no_branches xs \<Longrightarrow> run xs m = Some m1 \<Longrightarrow> run_fwd (xs @ ys) m = run_fwd ys m1"
proof (induction xs arbitrary: m)
  case Nil
  then show ?case by simp
next
  case (Cons w xs)
  then show ?case
    by (auto simp: no_branches_def run_fwd.simps(2) run.simps(2) split: option.splits)
qed

lemma run_fwd_bcc:
  assumes "h < 14" "0 < d" "d < 0x2000" "unat d \<le> Suc (length ws)"
  shows "run_fwd (b_cc h d # ws) m =
    (if cond_holds h m then run_fwd (drop (unat d - 1) ws) (m\<lparr>m_pc := m_pc m + 4 * ucast d\<rparr>)
     else run_fwd ws (m\<lparr>m_pc := m_pc m + 4\<rparr>))"
proof -
  have "h < 2 ^ 4" using assms(1) by (rule less_trans) simp
  then have h: "take_bit 4 h = h" using less_mask_eq [of h 4] by (simp add: take_bit_eq_mask)
  have "unat d < 2 ^ 13" using assms(3) by (simp add: word_less_nat_alt)
  then have "unat (ucast d :: u64) = unat d"
    by (simp add: unsigned_ucast_eq take_bit_nat_eq_self_iff)
  moreover have "unat (4 :: u64) * unat (ucast d :: u64) < 2 ^ 64"
    using \<open>unat d < 2 ^ 13\<close> calculation by simp
  then have "unat (4 * ucast d :: u64) = unat (4 :: u64) * unat (ucast d :: u64)"
    unfolding unat_mult_lem [symmetric] by simp
  ultimately have "unat (4 * ucast d :: u64) = 4 * unat d" by simp
  moreover have "0 < unat d" using assms(2) by (simp add: word_less_nat_alt)
  ultimately show ?thesis using assms(4) small_distance(1) [OF assms(3)] h
    by (simp add: run_fwd.simps(2) decode_b_cc exec_branch Let_def)
qed

section \<open>Words\<close>

lemma decode_and_reg:
  "k < 32 \<Longrightarrow> decode (fetch (and_reg rd rn rm sh k)) =
     Some (LogReg And_op False (take_bit 5 rd) (take_bit 5 rn) (take_bit 5 rm) sh (unat k))"
  by (cases sh; simp add: and_reg_def decode_log_reg_simps split del: if_split)

text \<open>An instruction that only writes register \<open>r\<close>, with a value computed from register \<open>f\<close>.\<close>

definition writes :: "u32 \<Rightarrow> u8 \<Rightarrow> u8 \<Rightarrow> (u32 \<Rightarrow> u32) \<Rightarrow> bool" where
  "writes w r f g \<longleftrightarrow> (\<forall>ws m. run_fwd (w # ws) m =
     run_fwd ws ((wrW r (g (rdW m f)) m)\<lparr>m_pc := m_pc m + 4\<rparr>))"

lemma writes_ops:
  assumes "is_reg r" "is_reg f"
  shows "k < 32 \<Longrightarrow> writes (orr_reg r f f sh k) r f (\<lambda>w. w OR shifted sh (unat k) w)"
    "k < 32 \<Longrightarrow> writes (and_reg r f f sh k) r f (\<lambda>w. w AND shifted sh (unat k) w)"
    "writes (mvn_reg r f LSL 0) r f (\<lambda>w. NOT w)"
    "1 \<le> unat n \<Longrightarrow> unat n \<le> 31 \<Longrightarrow>
      writes (eor_immed r f n b) r f (\<lambda>w. w XOR word_rotr (unat b) (mask (unat n)))"
    "1 \<le> unat n \<Longrightarrow> unat n \<le> 31 \<Longrightarrow> unat b < 32 \<Longrightarrow>
      writes (bic_immed r f n b) r f (\<lambda>w. w AND NOT (word_rotr (unat b) (mask (unat n))))"
    "writes (mov_immed_u16 r v 1) r f (\<lambda>w. push_bit 16 (ucast v))"
  using assms is_regD [OF assms(1)] is_regD [OF assms(2)]
  by (simp_all add: writes_def run_fwd_data decode_orr_reg decode_and_reg decode_mvn_reg
      decode_logical_immed decode_bic_immed decode_mov_immed_u16 exec_def Let_def
      wrW_def wrX_def wrXsp_def)

text \<open>What the test at the end looks at, and the state it leaves.\<close>

definition touches :: "u8 \<Rightarrow> mstate \<Rightarrow> mstate \<Rightarrow> bool" where
  "touches r m m' \<longleftrightarrow> (\<forall>s. s \<noteq> r \<longrightarrow> rdX m' s = rdX m s) \<and> m_simd m' = m_simd m \<and> m_mem m' = m_mem m"

lemma touches_refl: "touches r m m" by (simp add: touches_def)

lemma run_fwd_tst:
  "is_reg rn \<Longrightarrow> 1 \<le> unat w \<Longrightarrow> unat w \<le> 31 \<Longrightarrow> run_fwd (tst_immed rn w r # ws) m =
     run_fwd ws ((set_nz (rdW m rn AND word_rotr (unat r) (mask (unat w))) m)\<lparr>m_pc := m_pc m + 4\<rparr>)"
  by (simp add: run_fwd_data decode_tst_immed exec_def is_regD wrW_def wrX_def)

lemma run_fwd_tst_reg:
  "is_reg rn \<Longrightarrow> is_reg rm \<Longrightarrow> run_fwd (tst_reg rn rm LSL 0 # ws) m =
     run_fwd ws ((set_nz (rdW m rn AND rdW m rm) m)\<lparr>m_pc := m_pc m + 4\<rparr>)"
  by (simp add: run_fwd_data tst_reg_def decode_ands_reg exec_def is_regD wrW_def wrX_def Let_def)

lemma seg_skip:
  assumes "regs2 f r" "writes w1 r f g" "writes w2 r r h"
  shows "\<exists>m'. run_fwd [tst_immed f 1 k1, b_cc A64_CC_NE 4, w1, w2, tst_immed r 1 k2] m = Some m' \<and>
    touches r m m' \<and> (m_z m' \<longleftrightarrow> rdW m f AND word_rotr (unat k1) (mask 1) = 0 \<and>
      h (g (rdW m f)) AND word_rotr (unat k2) (mask 1) = 0)"
proof -
  note r = assms(1) [unfolded regs2_def]
  have n: "1 \<le> unat (1 :: u8)" "unat (1 :: u8) \<le> 31" by simp_all
  have u: "unat (4 :: u32) = 4" "(4 :: u32) < 0x2000" "0 < (4 :: u32)" by simp_all
  let ?m1 = "(set_nz (rdW m f AND word_rotr (unat k1) (mask 1)) m)\<lparr>m_pc := m_pc m + 4\<rparr>"
  show ?thesis
  proof (cases "rdW m f AND word_rotr (unat k1) (mask 1) = 0")
    case True
    then show ?thesis
      using r assms(2,3)
      by (simp add: run_fwd_tst run_fwd_bcc writes_def touches_def)
  next
    case False
    then show ?thesis using r by (simp add: run_fwd_tst run_fwd_bcc touches_def)
  qed
qed

lemma seg_ops:
  assumes "regs2 f r" "writes w1 r f g" "1 \<le> unat n" "unat n \<le> 31"
  shows "writes w2 r r h \<Longrightarrow> writes w3 r r i \<Longrightarrow> \<exists>m'. run_fwd [w1, w2, w3, tst_immed r n k] m = Some m' \<and>
      touches r m m' \<and> (m_z m' \<longleftrightarrow> i (h (g (rdW m f))) AND word_rotr (unat k) (mask (unat n)) = 0)"
    "writes w2 r r h \<Longrightarrow> \<exists>m'. run_fwd [w1, w2, tst_immed r n k] m = Some m' \<and>
      touches r m m' \<and> (m_z m' \<longleftrightarrow> h (g (rdW m f)) AND word_rotr (unat k) (mask (unat n)) = 0)"
    "\<exists>m'. run_fwd [w1, tst_reg f r LSL 0] m = Some m' \<and>
      touches r m m' \<and> (m_z m' \<longleftrightarrow> rdW m f AND g (rdW m f) = 0)"
  using assms [unfolded regs2_def]
  by (simp_all add: run_fwd_tst run_fwd_tst_reg writes_def touches_def)

section \<open>Conditions over the FPSR\<close>

text \<open>
  The predicates of the 68881 over the condition code byte: N, Z and the unordered bit. The
  fifth bit of a predicate only says whether it signals.
\<close>

definition fpu_cond :: "u8 \<Rightarrow> u32 \<Rightarrow> bool" where
  "fpu_cond p w =
     (let n = bit w 27; z = bit w 26; nan = bit w 24
      in if p = F_CC_F then False else if p = F_CC_T then True
         else if p = F_CC_EQ then z else if p = F_CC_NE then \<not> z
         else if p = F_CC_OGT then \<not> (nan \<or> z \<or> n) else if p = F_CC_ULE then nan \<or> z \<or> n
         else if p = F_CC_OGE then z \<or> \<not> (nan \<or> n) else if p = F_CC_ULT then nan \<or> (n \<and> \<not> z)
         else if p = F_CC_OLT then n \<and> \<not> (nan \<or> z) else if p = F_CC_UGE then nan \<or> z \<or> \<not> n
         else if p = F_CC_OLE then z \<or> (n \<and> \<not> nan) else if p = F_CC_UGT then nan \<or> \<not> (n \<or> z)
         else if p = F_CC_OGL then \<not> (nan \<or> z) else if p = F_CC_UEQ then nan \<or> z
         else if p = F_CC_OR then \<not> nan else nan)"

lemma fpsr_masks:
  "word_rotr (unat (31 AND (32 - FPSRB_N))) (mask 1) = (push_bit 27 1 :: u32)"
  "word_rotr (unat (31 AND (32 - FPSRB_Z))) (mask 1) = (push_bit 26 1 :: u32)"
  "word_rotr (unat (31 AND (32 - FPSRB_I))) (mask 1) = (push_bit 25 1 :: u32)"
  "word_rotr (unat (31 AND (32 - FPSRB_NAN))) (mask 1) = (push_bit 24 1 :: u32)"
  "word_rotr (unat (31 AND (32 - FPSRB_Z))) (mask 2) = (push_bit 26 1 OR push_bit 27 1 :: u32)"
  "word_rotr (unat (31 AND (32 - FPSRB_NAN))) (mask 4) =
     ((push_bit 24 1 OR push_bit 25 1) OR (push_bit 26 1 OR push_bit 27 1) :: u32)"
  "push_bit 16 (ucast (ucast (drop_bit 16 (FPSR_Z OR FPSR_N OR FPSR_NAN)) :: u16)) =
     (push_bit 24 1 OR (push_bit 26 1 OR push_bit 27 1) :: u32)"
  "push_bit 16 (ucast (ucast (drop_bit 16 (FPSR_Z OR FPSR_NAN)) :: u16)) =
     (push_bit 24 1 OR push_bit 26 1 :: u32)"
  by code_simp+

lemma and_or_zero: "(w :: u32) AND (a OR b) = 0 \<longleftrightarrow> w AND a = 0 \<and> w AND b = 0"
proof -
  have "w AND (a OR b) = (w AND a) OR (w AND b)" by (rule bit_word_eqI) (auto simp: bit_simps)
  then show ?thesis by (simp only: or_eq_0_iff)
qed

lemmas bit_ops = bit_or_iff bit_and_iff bit_xor_iff bit_not_iff bit_push_bit_iff bit_drop_bit_eq
  comp_apply bit_1_iff and_or_zero and_bit_zero

lemma fpu_bits:
  fixes w :: u32
  shows "((w OR push_bit 3 w) XOR push_bit 27 1) AND push_bit 27 1 = 0 \<longleftrightarrow> bit w 27 \<or> bit w 24"
    "((w XOR push_bit 26 1) AND push_bit 1 (w XOR push_bit 26 1)) AND push_bit 27 1 = 0 \<longleftrightarrow>
       \<not> bit w 27 \<or> bit w 26"
    "(((w AND NOT (push_bit 25 1)) OR push_bit 2 (w AND NOT (push_bit 25 1))) XOR push_bit 27 1) AND
       (push_bit 26 1 OR push_bit 27 1) = 0 \<longleftrightarrow> bit w 27 \<and> \<not> bit w 26 \<and> \<not> bit w 24"
    "((w XOR push_bit 27 1) AND NOT (push_bit 25 1)) AND
       ((push_bit 24 1 OR push_bit 25 1) OR (push_bit 26 1 OR push_bit 27 1)) = 0 \<longleftrightarrow>
       bit w 27 \<and> \<not> bit w 26 \<and> \<not> bit w 24"
    "((w XOR push_bit 24 1) AND push_bit 3 (w XOR push_bit 24 1)) AND push_bit 27 1 = 0 \<longleftrightarrow>
       \<not> bit w 27 \<or> bit w 24"
    "NOT (w OR drop_bit 1 w) AND push_bit 26 1 = 0 \<longleftrightarrow> bit w 26 \<or> bit w 27"
  by (simp_all only: bit_ops possible_bit_word, simp_all) blast+

section \<open>The emitter\<close>

text \<open>What each predicate needs of the code, for a register \<open>f\<close> with the FPSR.\<close>

definition fpu_decides :: "u8 \<Rightarrow> u8 \<Rightarrow> jit \<Rightarrow> mstate \<Rightarrow> u8 \<Rightarrow> jit \<Rightarrow> bool" where
  "fpu_decides p f j m s j' \<longleftrightarrow>
     (\<exists>ws m'. tc_code j' = tc_code j @ ws \<and> run_fwd ws m = Some m' \<and> keeps j m j' m' \<and>
        cond_holds s m' = fpu_cond p (rdW m f))"

lemma fpu_decides_tst:
  assumes "is_reg f" "(rdW m f AND word_rotr (unat k) (mask 1) = 0) = (fpu_cond p (rdW m f) = b)"
  shows "fpu_decides p f j m (if b then A64_CC_EQ else A64_CC_NE)
    (RA_FreeARMRegister 0xff (EMIT_rf [tst_immed f 1 k] j))"
proof -
  let ?m = "(set_nz (rdW m f AND word_rotr (unat k) (mask 1)) m)\<lparr>m_pc := m_pc m + 4\<rparr>"
  have "run_fwd [tst_immed f 1 k] m = Some ?m" using assms(1) by (simp add: run_fwd_tst)
  moreover have "keeps j m (RA_FreeARMRegister 0xff (EMIT_rf [tst_immed f 1 k] j)) ?m"
    by (simp add: keeps_def RA_FreeARMRegister_def EMIT_rf_def RESET_FLAGS_def status_part_def
        live_temps_def)
  ultimately show ?thesis using assms(2) unfolding fpu_decides_def
    by (intro exI [of _ "[tst_immed f 1 k]"] exI [of _ ?m]) (auto simp: RA_FreeARMRegister_def)
qed

lemma fpu_decides_tmp:
  assumes "alloc_result j r j1"
    "\<exists>m'. run_fwd ws m = Some m' \<and> touches r m m' \<and> (m_z m' \<longleftrightarrow> z)" "z = (fpu_cond p (rdW m f) = b)"
  shows "fpu_decides p f j m (if b then A64_CC_EQ else A64_CC_NE)
    (RA_FreeARMRegister r (EMIT_rf ws j1))"
proof -
  obtain m' where m': "run_fwd ws m = Some m'" "touches r m m'" "m_z m' \<longleftrightarrow> z" using assms(2) by blast
  have "keeps j m (RA_FreeARMRegister r (EMIT_rf ws j1)) m'"
    by (rule keeps_alloc [OF assms(1)])
      (use m'(2) in \<open>simp_all add: touches_def EMIT_rf_def RESET_FLAGS_def status_part_def live_temps_def\<close>)
  moreover have "tc_code (RA_FreeARMRegister r (EMIT_rf ws j1)) = tc_code j @ ws"
    using tmp_result(2) [OF assms(1)] by simp
  ultimately show ?thesis using m'(1,3) assms(3) unfolding fpu_decides_def by auto
qed

lemma fpu_cases:
  assumes "p AND 0x0f \<noteq> F_CC_F"
  shows "(p :: u8) AND 0x0f \<in> set [F_CC_EQ, F_CC_NE, F_CC_OGT, F_CC_ULE, F_CC_OGE, F_CC_ULT, F_CC_OLT,
    F_CC_UGE, F_CC_OLE, F_CC_UGT, F_CC_OGL, F_CC_UEQ, F_CC_OR, F_CC_UN, F_CC_T]"
proof -
  have "p AND 0x0f = take_bit 4 p" by (simp add: take_bit_eq_mask mask_eq_exp_minus_1)
  then have "unat (p AND 0x0f) < 16"
    using take_bit_nat_less_exp [of 4 "unat p"] by (simp add: unsigned_take_bit_eq)
  then have "unat (p AND 0x0f) \<in> set [0..<16]" unfolding set_upt by simp
  then have "of_nat (unat (p AND 0x0f)) \<in> set (map of_nat [0..<16] :: u8 list)"
    unfolding set_map by (rule imageI)
  moreover have "list_all (\<lambda>q. q = F_CC_F \<or> q \<in> set [F_CC_EQ, F_CC_NE, F_CC_OGT, F_CC_ULE, F_CC_OGE,
      F_CC_ULT, F_CC_OLT, F_CC_UGE, F_CC_OLE, F_CC_UGT, F_CC_OGL, F_CC_UEQ, F_CC_OR, F_CC_UN, F_CC_T])
      (map of_nat [0..<16])" by code_simp
  moreover have "of_nat (unat (p AND 0x0f)) = p AND 0x0f" by simp
  ultimately show ?thesis using assms unfolding list_all_iff by metis
qed

text \<open>Predicates on one bit, on a set of bits, and those that combine bits.\<close>

definition bit_rows :: "(u8 \<times> u8 \<times> bool) list" where
  "bit_rows = [(F_CC_EQ, FPSRB_Z, True), (F_CC_NE, FPSRB_Z, False), (F_CC_OR, FPSRB_NAN, False),
     (F_CC_UN, FPSRB_NAN, True)]"

definition set_rows :: "(u8 \<times> u32 \<times> bool) list" where
  "set_rows = [(F_CC_OGT, FPSR_Z OR FPSR_N OR FPSR_NAN, False),
     (F_CC_ULE, FPSR_Z OR FPSR_N OR FPSR_NAN, True), (F_CC_OGL, FPSR_Z OR FPSR_NAN, False),
     (F_CC_UEQ, FPSR_Z OR FPSR_NAN, True)]"

definition skip_rows :: "u8 \<Rightarrow> u8 \<Rightarrow> (u8 \<times> u8 \<times> u32 \<times> u32 \<times> u8) list" where
  "skip_rows f r =
     [(F_CC_OGE, FPSRB_Z, orr_reg r f f LSL 3, eor_immed r r 1 (31 AND (32 - FPSRB_N)), FPSRB_N),
      (F_CC_ULT, FPSRB_NAN, eor_immed r f 1 (31 AND (32 - FPSRB_Z)), and_reg r r r LSL 1, FPSRB_N),
      (F_CC_OLE, FPSRB_Z, eor_immed r f 1 (31 AND (32 - FPSRB_NAN)), and_reg r r r LSL 3, FPSRB_N),
      (F_CC_UGT, FPSRB_NAN, orr_reg r f f LSR 1, mvn_reg r r LSL 0, FPSRB_Z)]"

lemma fpu_rows:
  assumes "p AND 0x0f \<noteq> F_CC_F"
  obtains (bits) b c where "(p AND 0x0f, b, c) \<in> set bit_rows"
    | (sets) k c where "(p AND 0x0f, k, c) \<in> set set_rows"
    | (skip) b w1 w2 k where "(p AND 0x0f, b, w1, w2, k) \<in> set (skip_rows f r)"
    | (olt) "p AND 0x0f = F_CC_OLT" | (uge) "p AND 0x0f = F_CC_UGE" | (t) "p AND 0x0f = F_CC_T"
proof -
  have "p AND 0x0f \<in> fst ` set bit_rows \<or> p AND 0x0f \<in> fst ` set set_rows \<or>
      p AND 0x0f \<in> fst ` set (skip_rows f r) \<or>
      p AND 0x0f = F_CC_OLT \<or> p AND 0x0f = F_CC_UGE \<or> p AND 0x0f = F_CC_T"
    using fpu_cases [OF assms]
    unfolding bit_rows_def set_rows_def skip_rows_def list.set image_insert fst_conv by blast
  then show thesis using bits sets skip olt uge t by (elim disjE imageE) auto
qed

lemma FPU_rows:
  assumes "RA_GetFPSR j0 = (f, j)" "RA_AllocARMRegister j = (r, j1)"
  shows "(p AND 0x0f, b, c) \<in> set bit_rows \<Longrightarrow> EMIT_TestFPUCondition p j0 =
      (if c then A64_CC_NE else A64_CC_EQ,
       RA_FreeARMRegister 0xff (EMIT_rf [tst_immed f 1 (31 AND (32 - b))] j))"
    "(p AND 0x0f, k, c) \<in> set set_rows \<Longrightarrow> EMIT_TestFPUCondition p j0 =
      (if c then A64_CC_NE else A64_CC_EQ, RA_FreeARMRegister r
        (EMIT_rf [mov_immed_u16 r (ucast (drop_bit 16 k)) 1, tst_reg f r LSL 0] j1))"
    "(p AND 0x0f, b, w1, w2, k') \<in> set (skip_rows f r) \<Longrightarrow> EMIT_TestFPUCondition p j0 =
      (A64_CC_NE, RA_FreeARMRegister r (EMIT_rf [tst_immed f 1 (31 AND (32 - b)), b_cc A64_CC_NE 4,
         w1, w2, tst_immed r 1 (31 AND (32 - k'))] j1))"
proof -
  note code = EMIT_TestFPUCondition_def assms prod.case f_cc_defs
  show "(p AND 0x0f, b, c) \<in> set bit_rows \<Longrightarrow> EMIT_TestFPUCondition p j0 =
      (if c then A64_CC_NE else A64_CC_EQ,
       RA_FreeARMRegister 0xff (EMIT_rf [tst_immed f 1 (31 AND (32 - b))] j))"
    by (simp only: bit_rows_def list.set insert_iff empty_iff prod.inject)
      (elim disjE conjE FalseE; simp add: code)
  show "(p AND 0x0f, k, c) \<in> set set_rows \<Longrightarrow> EMIT_TestFPUCondition p j0 =
      (if c then A64_CC_NE else A64_CC_EQ, RA_FreeARMRegister r
        (EMIT_rf [mov_immed_u16 r (ucast (drop_bit 16 k)) 1, tst_reg f r LSL 0] j1))"
    by (simp only: set_rows_def list.set insert_iff empty_iff prod.inject)
      (elim disjE conjE FalseE; simp add: code)
  show "(p AND 0x0f, b, w1, w2, k') \<in> set (skip_rows f r) \<Longrightarrow> EMIT_TestFPUCondition p j0 =
      (A64_CC_NE, RA_FreeARMRegister r (EMIT_rf [tst_immed f 1 (31 AND (32 - b)), b_cc A64_CC_NE 4,
         w1, w2, tst_immed r 1 (31 AND (32 - k'))] j1))"
    by (simp only: skip_rows_def list.set insert_iff empty_iff prod.inject)
      (elim disjE conjE FalseE; simp add: code)
qed

lemma small_unats: "unat (1 :: u8) = 1" "unat (2 :: u8) = 2" "unat (3 :: u8) = 3" "unat (4 :: u8) = 4"
  by simp_all

lemmas fpu_vals = fpu_cond_def Let_def f_cc_defs

lemma bit_row:
  "(p, b, c) \<in> set bit_rows \<Longrightarrow>
   ((w :: u32) AND word_rotr (unat (31 AND (32 - b))) (mask 1) = 0) = (fpu_cond p w = (\<not> c))"
  by (simp only: bit_rows_def list.set insert_iff empty_iff prod.inject)
    (elim disjE conjE FalseE; simp only: fpsr_masks and_bit_zero; simp add: fpu_vals)

lemma set_row:
  "(p, k, c) \<in> set set_rows \<Longrightarrow>
   ((w :: u32) AND push_bit 16 (ucast (ucast (drop_bit 16 k) :: u16)) = 0) = (fpu_cond p w = (\<not> c))"
  by (simp only: set_rows_def list.set insert_iff empty_iff prod.inject)
    (elim disjE conjE FalseE; simp only: fpsr_masks and_bit_zero and_or_zero; auto simp: fpu_vals)

lemma skip_row:
  assumes "(p, b, w1, w2, k) \<in> set (skip_rows f r)" "is_reg f" "is_reg r"
  shows "\<exists>g h. writes w1 r f g \<and> writes w2 r r h \<and> (\<forall>w.
    (w AND word_rotr (unat (31 AND (32 - b))) (mask 1) = 0 \<and>
     h (g w) AND word_rotr (unat (31 AND (32 - k))) (mask 1) = 0) = (\<not> fpu_cond p w))"
proof -
  have n: "1 \<le> unat (1 :: u8)" "unat (1 :: u8) \<le> 31" "(3 :: u8) < 32" "(1 :: u8) < 32" by simp_all
  note f = writes_ops(1,4) [OF assms(3,2)] and r = writes_ops(2,3,4) [OF assms(3,3)]
  note v = small_unats shifted.simps fpsr_masks fpu_bits
  from assms(1) show ?thesis unfolding skip_rows_def list.set insert_iff empty_iff prod.inject
  proof (elim disjE conjE FalseE)
    assume e: "p = F_CC_OGE" "b = FPSRB_Z" "w1 = orr_reg r f f LSL 3"
      "w2 = eor_immed r r 1 (31 AND (32 - FPSRB_N))" "k = FPSRB_N"
    show ?thesis unfolding e
      by (rule exI, rule exI, rule conjI, rule f(1) [OF n(3)], rule conjI, rule r(3) [OF n(1,2)])
        (simp only: v, simp only: and_bit_zero, auto simp: fpu_vals)
  next
    assume e: "p = F_CC_ULT" "b = FPSRB_NAN" "w1 = eor_immed r f 1 (31 AND (32 - FPSRB_Z))"
      "w2 = and_reg r r r LSL 1" "k = FPSRB_N"
    show ?thesis unfolding e
      by (rule exI, rule exI, rule conjI, rule f(2) [OF n(1,2)], rule conjI, rule r(1) [OF n(4)])
        (simp only: v, simp only: and_bit_zero, auto simp: fpu_vals)
  next
    assume e: "p = F_CC_OLE" "b = FPSRB_Z" "w1 = eor_immed r f 1 (31 AND (32 - FPSRB_NAN))"
      "w2 = and_reg r r r LSL 3" "k = FPSRB_N"
    show ?thesis unfolding e
      by (rule exI, rule exI, rule conjI, rule f(2) [OF n(1,2)], rule conjI, rule r(1) [OF n(3)])
        (simp only: v, simp only: and_bit_zero, auto simp: fpu_vals)
  next
    assume e: "p = F_CC_UGT" "b = FPSRB_NAN" "w1 = orr_reg r f f LSR 1" "w2 = mvn_reg r r LSL 0"
      "k = FPSRB_Z"
    show ?thesis unfolding e
      by (rule exI, rule exI, rule conjI, rule f(1) [OF n(4)], rule conjI, rule r(2))
        (simp only: v, simp only: and_bit_zero, auto simp: fpu_vals)
  qed
qed

lemma ops_row:
  assumes "is_reg f" "is_reg r" "regs2 f r"
  shows "\<exists>m'. run_fwd [bic_immed r f 1 (31 AND (32 - FPSRB_I)), orr_reg r r r LSL 2,
      eor_immed r r 1 (31 AND (32 - FPSRB_N)), tst_immed r 2 (31 AND (32 - FPSRB_Z))] m = Some m' \<and>
      touches r m m' \<and> (m_z m' \<longleftrightarrow> fpu_cond F_CC_OLT (rdW m f))"
    "\<exists>m'. run_fwd [eor_immed r f 1 (31 AND (32 - FPSRB_N)),
      bic_immed r r 1 (31 AND (32 - FPSRB_I)), tst_immed r 4 (31 AND (32 - FPSRB_NAN))] m = Some m' \<and>
      touches r m m' \<and> (m_z m' \<longleftrightarrow> \<not> fpu_cond F_CC_UGE (rdW m f))"
proof -
  have n1: "1 \<le> unat (1 :: u8)" "unat (1 :: u8) \<le> 31" and n2: "1 \<le> unat (2 :: u8)" "unat (2 :: u8) \<le> 31"
    and n4: "1 \<le> unat (4 :: u8)" "unat (4 :: u8) \<le> 31" and k: "(2 :: u8) < 32"
    "unat (31 AND (32 - FPSRB_I)) < 32" by (simp_all add: FPSRB_I_def)
  note f = writes_ops [OF assms(2,1)] and r = writes_ops [OF assms(2,2)]
  have c: "bit w 27 \<and> \<not> bit w 26 \<and> \<not> bit w 24 \<longleftrightarrow> fpu_cond F_CC_OLT w"
    "fpu_cond F_CC_OLT w \<longleftrightarrow> \<not> fpu_cond F_CC_UGE w" for w by (auto simp: fpu_vals)
  note v = small_unats shifted.simps fpsr_masks fpu_bits c(1)
  show "\<exists>m'. run_fwd [bic_immed r f 1 (31 AND (32 - FPSRB_I)), orr_reg r r r LSL 2,
      eor_immed r r 1 (31 AND (32 - FPSRB_N)), tst_immed r 2 (31 AND (32 - FPSRB_Z))] m = Some m' \<and>
      touches r m m' \<and> (m_z m' \<longleftrightarrow> fpu_cond F_CC_OLT (rdW m f))"
    using seg_ops(1) [OF assms(3) f(5) [OF n1 k(2)] n2 r(1) [OF k(1), of LSL]
      r(4) [OF n1, of "31 AND (32 - FPSRB_N)"], where m = m and k = "31 AND (32 - FPSRB_Z)"]
    by (simp only: v)
  show "\<exists>m'. run_fwd [eor_immed r f 1 (31 AND (32 - FPSRB_N)),
      bic_immed r r 1 (31 AND (32 - FPSRB_I)), tst_immed r 4 (31 AND (32 - FPSRB_NAN))] m = Some m' \<and>
      touches r m m' \<and> (m_z m' \<longleftrightarrow> \<not> fpu_cond F_CC_UGE (rdW m f))"
    using seg_ops(2) [OF assms(3) f(4) [OF n1, of "31 AND (32 - FPSRB_N)"] n4 r(5) [OF n1 k(2)],
      where m = m and k = "31 AND (32 - FPSRB_NAN)"]
    by (simp only: v c(2))
qed

lemma FPU_rest:
  assumes "RA_GetFPSR j0 = (f, j)" "RA_AllocARMRegister j = (r, j1)"
  shows "p AND 0x0f = F_CC_OLT \<Longrightarrow> EMIT_TestFPUCondition p j0 = (A64_CC_EQ, RA_FreeARMRegister r
      (EMIT_rf [bic_immed r f 1 (31 AND (32 - FPSRB_I)), orr_reg r r r LSL 2,
        eor_immed r r 1 (31 AND (32 - FPSRB_N)), tst_immed r 2 (31 AND (32 - FPSRB_Z))] j1))"
    "p AND 0x0f = F_CC_UGE \<Longrightarrow> EMIT_TestFPUCondition p j0 = (A64_CC_NE, RA_FreeARMRegister r
      (EMIT_rf [eor_immed r f 1 (31 AND (32 - FPSRB_N)),
        bic_immed r r 1 (31 AND (32 - FPSRB_I)), tst_immed r 4 (31 AND (32 - FPSRB_NAN))] j1))"
    "p AND 0x0f = F_CC_T \<Longrightarrow> EMIT_TestFPUCondition p j0 = (A64_CC_AL, RA_FreeARMRegister 0xff j)"
    "p AND 0x0f = F_CC_F \<Longrightarrow> EMIT_TestFPUCondition p j0 = (A64_CC_NV, RA_FreeARMRegister 0xff j)"
  by (simp_all add: EMIT_TestFPUCondition_def assms f_cc_defs)

lemma cond_always: "cond_holds A64_CC_AL m" "cond_holds A64_CC_NV m"
  by (simp_all add: cond_holds_def A64_CC_AL_def A64_CC_NV_def)

lemma EMIT_TestFPUCondition_decides:
  assumes "RA_GetFPSR j0 = (f, j)" "f \<in> live_temps j" "free_temps 1 j" "p AND 0x0f \<noteq> F_CC_F"
    "EMIT_TestFPUCondition p j0 = (s, j')"
  shows "fpu_decides (p AND 0x0f) f j m s j'"
proof -
  obtain r j1 where a: "alloc_result j r j1" using free_temps_1 [OF assms(3)] by blast
  have f: "is_reg f" using assms(2) live_temps_arm arm_temps_is_reg by blast
  have fr: "regs2 f r" by (rule cc_tmp_regs2 [OF assms(2) a])
  then have r: "is_reg r" by (simp add: regs2_def)
  note tst = fpu_decides_tst [OF f, of m] and tmp = fpu_decides_tmp [OF a, where m = m and f = f]
  note rows = FPU_rows [OF assms(1) tmp_result(1) [OF a], of p]
  note rest = FPU_rest [OF assms(1) tmp_result(1) [OF a], of p]
  note e = assms(5)
  from assms(4) show ?thesis
  proof (cases rule: fpu_rows [where f = f and r = r])
    case (bits b c)
    from rows(1) [OF bits] e tst [OF bit_row [OF bits], of j] show ?thesis by (cases c) auto
  next
    case (sets k c)
    have "1 \<le> unat (1 :: u8)" by simp
    from rows(2) [OF sets] e
      tmp [OF seg_ops(3) [OF fr writes_ops(6) [OF r f], of 1] set_row [OF sets]]
    show ?thesis by (cases c) auto
  next
    case (skip b w1 w2 k)
    obtain g h where w: "writes w1 r f g" "writes w2 r r h" and z: "\<And>w. (w AND word_rotr
        (unat (31 AND (32 - b))) (mask 1) = 0 \<and> h (g w) AND word_rotr (unat (31 AND (32 - k))) (mask 1) = 0) =
        (fpu_cond (p AND 0x0f) w = False)"
      using skip_row [OF skip f r] by auto
    from rows(3) [OF skip] e tmp [OF seg_skip [OF fr w] z] show ?thesis by auto
  next
    case olt
    from rest(1) [OF olt] e tmp [OF ops_row(1) [OF f r fr], where b = True and p = F_CC_OLT] olt
    show ?thesis by auto
  next
    case uge
    from rest(2) [OF uge] e tmp [OF ops_row(2) [OF f r fr], where b = False and p = F_CC_UGE] uge
    show ?thesis by auto
  next
    case t
    from rest(3) [OF t] e have "s = A64_CC_AL" "j' = RA_FreeARMRegister 0xff j" by simp_all
    moreover have "keeps j m j m" by (rule keeps_refl)
    ultimately show ?thesis unfolding fpu_decides_def t
      by (intro exI [of _ "[]"] exI [of _ m])
        (simp add: RA_FreeARMRegister_def cond_always, simp add: fpu_vals)
  qed
qed

section \<open>Properties\<close>

lemma RA_GetFPSR_free:
  assumes "ra_wf j" "coherent j m" "free_temps (Suc n) j" "RA_GetFPSR j = (f, j1)"
  shows "\<exists>m1. loads f j m j1 m1 \<and> ucast (rdX m1 f) = fpsr_view j m"
    "f \<noteq> 0xff" "f \<in> live_temps j1" "free_temps n j1"
proof -
  have "f \<noteq> 0xff \<and> free_temps n j1"
  proof (cases "reg_FPSR j = 0xff")
    case True
    obtain r j2 where a: "alloc_result j r j2" "free_temps n j2"
      using free_temps_alloc [OF assms(3)] .
    then have e: "f = r" "j1 = (EMIT [mov_simd_to_reg r 19 TS_S 0] (j2\<lparr>reg_FPSR := r\<rparr>))\<lparr>mod_FPSR := 0\<rparr>"
      using RA_GetFPSR_cases(2) [OF True, of r j2] assms(4) by (simp_all add: alloc_result_def)
    have "r \<noteq> 0xff" using arm_temps_less [of r] a(1) by (simp add: alloc_result_def)
    with a(2) show ?thesis unfolding e by (simp add: free_temps_def live_temps_def)
  next
    case False
    then have "f = reg_FPSR j" "j1 = j" using RA_GetFPSR_cases(1) [OF False] assms(4) by simp_all
    with False show ?thesis using free_temps_mono [OF assms(3), of n] by simp
  qed
  then show n: "f \<noteq> 0xff" "free_temps n j1" by simp_all
  show l: "\<exists>m1. loads f j m j1 m1 \<and> ucast (rdX m1 f) = fpsr_view j m"
    by (rule RA_GetFPSR_loads [OF assms(1,2,4) n(1)])
  then have "ra_wf j1" by (auto simp: loads_def)
  then show "f \<in> live_temps j1" using status_reg_temp [of j1 f] RA_GetFPSR_reg [OF assms(4)] n by simp
qed

text \<open>
  C24. For every predicate but false, \<open>EMIT_TestFPUCondition\<close> returns a host condition that
  holds after the emitted code, short cuts included, exactly when the predicate holds of
  the condition bits of the FPSR; the code shows the emulated program nothing.
\<close>

theorem EMIT_TestFPUCondition_correct:
  assumes "ra_wf j" "coherent j m" "free_temps 2 j" "p AND 0x0f \<noteq> F_CC_F"
    "EMIT_TestFPUCondition p j = (s, j')"
  shows "\<exists>m'. run_fwd (emitted j j') m = Some m' \<and>
    cond_holds s m' = fpu_cond (p AND 0x0f) (fpsr_view j m) \<and> tests j m j' m'"
proof -
  obtain f j1 where g: "RA_GetFPSR j = (f, j1)" by fastforce
  have "free_temps (Suc 1) j" using assms(3) by (simp add: numeral_2_eq_2)
  note f = RA_GetFPSR_free [OF assms(1,2) this g]
  obtain m1 where l: "loads f j m j1 m1" "ucast (rdX m1 f) = fpsr_view j m" using f(1) by blast
  obtain ws m' where d: "tc_code j' = tc_code j1 @ ws" "run_fwd ws m1 = Some m'" "keeps j1 m1 j' m'"
    "cond_holds s m' = fpu_cond (p AND 0x0f) (rdW m1 f)"
    using EMIT_TestFPUCondition_decides [OF g f(3,4) assms(4,5), of m1] by (auto simp: fpu_decides_def)
  obtain us where u: "tc_code j1 = tc_code j @ us" "no_branches us" "run us m = Some m1"
    using l(1) by (auto simp: loads_def produces_def)
  have "emitted j j' = us @ ws" using u(1) d(1) by (intro emittedI) simp
  then have "run_fwd (emitted j j') m = Some m'" using run_fwd_append [OF u(2,3)] d(2) by simp
  moreover have "rdW m1 f = fpsr_view j m" using l(2) by (simp add: rdW_def)
  ultimately show ?thesis using d(4) loads_keeps_tests [OF l(1) d(3)] by auto
qed

theorem EMIT_TestFPUCondition_correct_witness:
  "\<exists>s j' m'. EMIT_TestFPUCondition F_CC_OGE (jit_init 64) = (s, j') \<and>
     run_fwd (emitted (jit_init 64) j') m_reset = Some m' \<and> cond_holds s m'"
proof -
  obtain s j' where e: "EMIT_TestFPUCondition F_CC_OGE (jit_init 64) = (s, j')" by fastforce
  have "live_temps (jit_init 64) = {}" by (simp add: live_temps_def jit_init_def)
  then have "free_temps 2 (jit_init 64)"
    using cc_cached_ok(3) card_mono [of arm_temps "arm_temps - live_temps cc_cached"] finite_arm_temps
    by (simp add: free_temps_def)
  moreover have "coherent (jit_init 64) m_reset" by (simp add: coherent_def view_defs jit_init_def)
  moreover have "F_CC_OGE AND 0x0f \<noteq> F_CC_F" "F_CC_OGE AND 0x0f = F_CC_OGE" by (simp_all add: f_cc_defs)
  moreover have "fpsr_view (jit_init 64) m_reset = 0"
    by (simp add: fpsr_view_def jit_init_def m_reset_def lane_fpsr_def lane_get_def)
  moreover have "fpu_cond F_CC_OGE 0" by (simp add: fpu_vals)
  ultimately show ?thesis
    using EMIT_TestFPUCondition_correct [OF jit_init_wf _ _ _ e, of m_reset] e by auto
qed

end
