(* ===== verification/LoadImm.thy ===== *)
theory LoadImm
  imports Flag_Update
begin

text \<open>
  Loading a 32-bit constant (\<open>emu68/src/support.c\<close>): \<open>number_to_mask\<close> recognises the
  numbers that a logical instruction can encode as an immediate, and \<open>EMIT_LoadImmediate\<close>
  picks the shortest way to load a number.
\<close>

section \<open>The code\<close>

text \<open>\<open>__builtin_ctz\<close> and \<open>__builtin_clz\<close>, on arguments that are not zero.\<close>

definition builtin_ctz :: "u32 \<Rightarrow> nat" where
  "builtin_ctz w = length (takeWhile (\<lambda>i. \<not> bit w i) [0..<32])"

definition builtin_clz :: "u32 \<Rightarrow> nat" where
  "builtin_clz w = length (takeWhile (\<lambda>i. \<not> bit w i) (rev [0..<32]))"

text \<open>
  The inner loop: is every chunk of \<open>len\<close> bits of the number like the first. The loop runs
  until \<open>stop\<close>, shifted along, is zero; its step is never zero.
\<close>

function repeating :: "nat \<Rightarrow> u32 \<Rightarrow> u32 \<Rightarrow> u32 \<Rightarrow> bool" where
  "repeating len chunk test_pattern stop =
     (if test_pattern AND mask len \<noteq> chunk then False
      else if drop_bit len stop \<noteq> 0 \<and> 0 < len
           then repeating len chunk (drop_bit len test_pattern) (drop_bit len stop)
           else True)"
  by pat_completeness auto

lemma drop_bit_decreases: "drop_bit len (w :: u32) \<noteq> 0 \<Longrightarrow> 0 < len \<Longrightarrow> unat (drop_bit len w) < unat w"
proof -
  assume a: "drop_bit len w \<noteq> 0" "0 < len"
  then have "w \<noteq> 0" by auto
  then have "unat w \<noteq> 0" by (simp add: unat_eq_0)
  moreover have "take_bit 32 (unat w) = unat w"
    using unsigned_less [of w, where ?'a = nat] by (intro take_bit_nat_eq_self) simp
  then have "unat (drop_bit len w) = unat w div 2 ^ len"
    by (simp only: unsigned_drop_bit_eq drop_bit_eq_div [where ?'a = nat]) simp
  moreover have "(1 :: nat) < 2 ^ len" using a(2) one_less_power [of "2 :: nat" len] by simp
  ultimately show ?thesis by simp
qed

termination repeating
  by (relation "measure (\<lambda>(len, chunk, test_pattern, stop). unat stop)")
    (auto dest: drop_bit_decreases)

text \<open>The outer loop, over the lengths 16, 8, 4 and 2: the pattern and its length.\<close>

fun find_pattern :: "u32 \<Rightarrow> nat list \<Rightarrow> u32 \<times> nat \<Rightarrow> u32 \<times> nat" where
  "find_pattern v [] (pat, n) = (pat, n)"
| "find_pattern v (len # lens) (pat, n) =
     (if repeating len (pat AND mask len) v 0xffffffff
      then find_pattern v lens (pat AND mask len, len) else (pat, n))"

text \<open>
  The search for the rotation that brings the ones to the bottom: nothing when they are
  not in one run, and 0 when the loop runs out.
\<close>

fun find_rotation :: "nat \<Rightarrow> nat \<Rightarrow> nat list \<Rightarrow> u32 \<Rightarrow> nat option" where
  "find_rotation n ones [] rotated = Some 0"
| "find_rotation n ones (r # rs) rotated =
     (if bit rotated 0 \<and> \<not> bit rotated (n - 1) then
        (let first_one = builtin_ctz rotated; last_one = 31 - builtin_clz rotated; width = 1 + last_one - first_one
         in if width = ones then Some r else None)
      else find_rotation n ones rs
             ((push_bit 1 rotated OR drop_bit (n - 1) rotated) AND mask n))"

definition imms_prefix :: "nat \<Rightarrow> u32" where
  "imms_prefix n =
     (if n = 32 then 0x00 else if n = 16 then 0x20 else if n = 8 then 0x30 else if n = 4 then 0x38
      else 0x3c)"

definition number_to_mask :: "u32 \<Rightarrow> u32" where
  "number_to_mask value =
     (if value = 0 \<or> value = 0xffffffff then 0
      else (case find_pattern value [16, 8, 4, 2] (value, 32) of (pat, n) \<Rightarrow>
        let ones_count = popcount pat
        in if ones_count = 0 \<or> ones_count = n then 0
           else (case find_rotation n ones_count [0..<n] pat of
             None \<Rightarrow> 0
           | Some rotation \<Rightarrow>
               push_bit 16 (imms_prefix n OR of_nat ones_count) OR of_nat rotation)))"

definition EMIT_LoadImmediate :: "u8 \<Rightarrow> u32 \<Rightarrow> jit \<Rightarrow> jit" where
  "EMIT_LoadImmediate rd immed j =
     (if immed = 0 then EMIT [mov_reg rd 31] j
      else if immed = 0xffffffff then EMIT [mvn_reg rd 31 LSL 0] j
      else let msk = number_to_mask immed in
        if msk \<noteq> 0 then
          EMIT [orr_immed rd 31 (ucast (drop_bit 16 msk AND 0x3f)) (ucast (msk AND 0x3f))] j
        else if immed AND 0xffff = 0 then
          EMIT [mov_immed_u16 rd (ucast (drop_bit 16 immed AND 0xffff)) 1] j
        else if immed AND 0xffff = 0xffff then
          EMIT [movn_immed_u16 rd (ucast (drop_bit 16 (NOT immed) AND 0xffff)) 1] j
        else if immed AND 0xffff0000 = 0 then
          EMIT [mov_immed_u16 rd (ucast (immed AND 0xffff)) 0] j
        else if immed AND 0xffff0000 = 0xffff0000 then
          EMIT [movn_immed_u16 rd (ucast (NOT immed AND 0xffff)) 0] j
        else EMIT [mov_immed_u16 rd (ucast (immed AND 0xffff)) 0,
                   movk_immed_u16 rd (ucast (drop_bit 16 immed AND 0xffff)) 1] j)"

section \<open>Repetition\<close>

declare repeating.simps [simp del]

lemma repeating_bits:
  "repeating len chunk t s \<Longrightarrow> 0 < len \<Longrightarrow> s = mask n \<Longrightarrow> n \<le> 32 \<Longrightarrow> len dvd n \<Longrightarrow> i < n \<Longrightarrow>
   bit t i = bit chunk (i mod len)"
proof (induction len chunk t s arbitrary: n i rule: repeating.induct)
  case (1 len chunk t s)
  have c: "t AND mask len = chunk"
    using "1.prems"(1) by (subst (asm) repeating.simps) (simp split: if_splits)
  show ?case
  proof (cases "i < len")
    case True
    with c bit_imp_le_length [of t i] show ?thesis by (auto simp: bit_and_iff bit_mask_iff)
  next
    case False
    have d: "drop_bit len s = mask (n - len)" unfolding "1.prems"(3)
      by (rule bit_word_eqI) (use "1.prems"(4) in \<open>auto simp: bit_drop_bit_eq bit_mask_iff\<close>)
    have b: "bit (mask (n - len) :: u32) 0" using False "1.prems"(4,6) by (simp add: bit_mask_iff)
    have nz: "drop_bit len s \<noteq> 0"
    proof
      assume "drop_bit len s = 0"
      with b have "bit (0 :: u32) 0" unfolding d by (simp only:)
      then show False by simp
    qed
    have rec: "repeating len chunk (drop_bit len t) (drop_bit len s)"
      using "1.prems"(1,2) c nz by (subst (asm) repeating.simps) simp
    have "len dvd n - len" using "1.prems"(5) by (simp add: dvd_diff_nat)
    moreover have "n - len \<le> 32" "i - len < n - len" using False "1.prems"(4,6) by simp_all
    ultimately have "bit (drop_bit len t) (i - len) = bit chunk ((i - len) mod len)"
      using "1.IH" [of "n - len" "i - len"] c nz "1.prems"(2) rec d by blast
    moreover have "(i - len) mod len = i mod len" using False by (simp add: le_mod_geq)
    ultimately show ?thesis using False by (simp add: bit_drop_bit_eq)
  qed
qed

text \<open>A number as a pattern of \<open>n\<close> bits, repeated.\<close>

definition periodic :: "u32 \<Rightarrow> u32 \<Rightarrow> nat \<Rightarrow> bool" where
  "periodic v pat n \<longleftrightarrow> 0 < n \<and> n dvd 32 \<and> (\<forall>i<32. bit v i = bit pat (i mod n)) \<and>
     (\<forall>i\<ge>n. \<not> bit pat i)"

lemma periodic_self: "periodic v v 32"
  by (auto simp: periodic_def dest: bit_imp_le_length)

lemma find_pattern_periodic:
  "periodic v pat n \<Longrightarrow> \<forall>len \<in> set lens. 0 < len \<and> len dvd 32 \<Longrightarrow>
   find_pattern v lens (pat, n) = (pat', n') \<Longrightarrow> periodic v pat' n' \<and> n' \<in> insert n (set lens)"
proof (induction lens arbitrary: pat n)
  case Nil
  then show ?case by simp
next
  case (Cons len lens)
  show ?case
  proof (cases "repeating len (pat AND mask len) v 0xffffffff")
    case True
    have len: "0 < len" "len dvd 32" using Cons.prems(2) by simp_all
    have m: "(0xffffffff :: u32) = mask 32" by (simp add: mask_eq_exp_minus_1)
    have "bit v i = bit (pat AND mask len) (i mod len)" if "i < 32" for i
      using repeating_bits [OF True len(1) m order_refl len(2) that] .
    then have "periodic v (pat AND mask len) len"
      using len by (auto simp: periodic_def bit_and_iff bit_mask_iff)
    moreover have "find_pattern v lens (pat AND mask len, len) = (pat', n')"
      using Cons.prems(3) True by simp
    ultimately show ?thesis using Cons.IH Cons.prems(2) by auto
  next
    case False
    with Cons.prems show ?thesis by simp
  qed
qed

section \<open>Counting ones\<close>

lemma popcount_card: "popcount (w :: u32) = card {i. i < 32 \<and> bit w i}"
proof -
  have "popcount w = card (set (filter (bit w) [0..<32]))"
    unfolding popcount_def by (subst distinct_card) simp_all
  also have "set (filter (bit w) [0..<32]) = {i. i < 32 \<and> bit w i}" by auto
  finally show ?thesis .
qed

lemma clz_last:
  assumes "w \<noteq> 0"
  shows "builtin_clz w < 32" "bit w (31 - builtin_clz w)" "31 - builtin_clz w < i \<Longrightarrow> \<not> bit w i"
proof -
  let ?P = "\<lambda>i. \<not> bit w i"
  have n: "rev [0..<32] ! k = 31 - k" if "k < 32" for k :: nat
    using that by (simp add: rev_nth)
  obtain k where k: "bit w k" using assms by (auto simp: bit_eq_iff)
  then have "k < 32" using bit_imp_le_length [of w k] by simp
  then have "k \<in> set (rev [0..<32])" by simp
  then have "takeWhile ?P (rev [0..<32]) \<noteq> rev [0..<32]" using k by (metis takeWhile_eq_all_conv)
  then have "builtin_clz w \<noteq> length (rev [0..<32])"
    unfolding builtin_clz_def by (metis takeWhile_dropWhile_id append_eq_conv_conj take_all order_refl takeWhile_eq_take)
  moreover have "builtin_clz w \<le> length (rev [0..<32])" unfolding builtin_clz_def by (rule length_takeWhile_le)
  ultimately show c: "builtin_clz w < 32" by simp
  then show "bit w (31 - builtin_clz w)"
    using nth_length_takeWhile [of ?P "rev [0..<32]"] n [OF c] unfolding builtin_clz_def by simp
  show "\<not> bit w i" if "31 - builtin_clz w < i"
  proof (cases "i < 32")
    case True
    then have l: "31 - i < builtin_clz w" using that by simp
    have "takeWhile ?P (rev [0..<32]) ! (31 - i) = rev [0..<32] ! (31 - i)"
      using l unfolding builtin_clz_def by (rule takeWhile_nth)
    also have "\<dots> = i" using n [of "31 - i"] True by simp
    finally have "i \<in> set (takeWhile ?P (rev [0..<32]))"
      using l unfolding builtin_clz_def by (metis nth_mem)
    then show ?thesis by (auto dest: set_takeWhileD)
  next
    case False
    then show ?thesis using bit_imp_le_length [of w i] by auto
  qed
qed

lemma ctz_0: "bit w 0 \<Longrightarrow> builtin_ctz w = 0"
  by (simp add: builtin_ctz_def upt_conv_Cons)

lemma run_of_ones:
  assumes "bit w 0" "1 + (31 - builtin_clz w) - builtin_ctz w = popcount w"
  shows "w = mask (popcount w)"
proof -
  let ?h = "31 - builtin_clz w"
  have nz: "w \<noteq> 0" using assms(1) by auto
  note z = clz_last [OF nz]
  have p: "popcount w = Suc ?h" using assms ctz_0 by simp
  have "{i. i < 32 \<and> bit w i} = {..?h}"
  proof (rule card_subset_eq)
    show "{i. i < 32 \<and> bit w i} \<subseteq> {..?h}" using z(3) by (auto simp: not_less [symmetric])
    show "card {i. i < 32 \<and> bit w i} = card {..?h}" using p by (simp add: popcount_card)
  qed simp
  then have "i < 32 \<Longrightarrow> bit w i \<longleftrightarrow> i \<le> ?h" for i by blast
  then have "i < 32 \<Longrightarrow> bit w i \<longleftrightarrow> i < popcount w" for i using p by (simp add: less_Suc_eq_le)
  then show ?thesis by (intro bit_word_eqI) (simp add: bit_mask_iff)
qed

section \<open>Rotation\<close>

text \<open>The pattern rotated left by \<open>r\<close> within its \<open>n\<close> bits.\<close>

definition rotated_at :: "u32 \<Rightarrow> nat \<Rightarrow> nat \<Rightarrow> u32 \<Rightarrow> bool" where
  "rotated_at pat n r w \<longleftrightarrow> (\<forall>i<n. bit w i = bit pat ((i + (n - r)) mod n)) \<and> (\<forall>i\<ge>n. \<not> bit w i)"

lemma rotated_at_0: "\<forall>i\<ge>n. \<not> bit pat i \<Longrightarrow> rotated_at pat n 0 pat"
  by (simp add: rotated_at_def)

lemma rotated_at_step:
  assumes "rotated_at pat n r w" "r < n" "n \<le> 32"
  shows "rotated_at pat n (Suc r) ((push_bit 1 w OR drop_bit (n - 1) w) AND mask n)"
proof -
  have "bit (push_bit 1 w OR drop_bit (n - 1) w) i = bit pat ((i + (n - Suc r)) mod n)" if i: "i < n" for i
  proof (cases i)
    case 0
    have "(n - 1 + (n - r)) mod n = ((n - Suc r) + n) mod n" using assms(2) by (intro arg_cong2 [of _ _ _ _ "(mod)"]) simp_all
    also have "\<dots> = (n - Suc r) mod n" by simp
    finally have "bit w (n - 1) = bit pat ((n - Suc r) mod n)"
      using assms(1,2) by (simp add: rotated_at_def)
    with 0 show ?thesis by (simp only: bit_or_iff bit_push_bit_iff bit_drop_bit_eq) simp
  next
    case (Suc k)
    have "\<not> bit w (n - 1 + i)" using assms(1) Suc by (simp add: rotated_at_def)
    moreover have "bit w k = bit pat ((k + (n - r)) mod n)" using assms(1) i Suc by (simp add: rotated_at_def)
    moreover have "k + (n - r) = i + (n - Suc r)" using Suc assms(2) by simp
    moreover have "i < 32" using i assms(3) by simp
    ultimately show ?thesis using Suc
      by (simp only: bit_or_iff bit_push_bit_iff bit_drop_bit_eq possible_bit_word) simp
  qed
  moreover have "i < n \<Longrightarrow> i < 32" for i using assms(3) by simp
  ultimately show ?thesis by (auto simp: rotated_at_def bit_and_iff bit_mask_iff)
qed

lemma mod_add_back:
  assumes "i < n"
  shows "((i + c) mod n + (n - c mod n)) mod n = (i :: nat)"
proof -
  have "c mod n < n" using assms by simp
  then have "c + (n - c mod n) = (c div n + 1) * n"
    unfolding add_mult_distrib mult_1 using div_mult_mod_eq [of c n] by linarith
  then have "(i + (c + (n - c mod n))) mod n = i" using assms by (simp only: mod_mult_self1) simp
  then show ?thesis by (simp add: mod_add_left_eq add.assoc)
qed

lemma rotated_popcount:
  assumes "rotated_at pat n r w" "\<forall>i\<ge>n. \<not> bit pat i" "0 < n" "n \<le> 32"
  shows "popcount w = popcount pat"
proof -
  let ?f = "\<lambda>i. (i + (n - r)) mod n"
  have inj: "inj_on ?f {..<n}" using mod_add_back by (intro inj_onI) (metis lessThan_iff)
  have "?f ` {i. i < 32 \<and> bit w i} = {i. i < 32 \<and> bit pat i}"
  proof
    show "?f ` {i. i < 32 \<and> bit w i} \<subseteq> {i. i < 32 \<and> bit pat i}"
    proof
      fix k assume "k \<in> ?f ` {i. i < 32 \<and> bit w i}"
      then obtain i where i: "bit w i" "k = ?f i" by blast
      then have "i < n" using assms(1) not_less by (auto simp: rotated_at_def)
      then show "k \<in> {i. i < 32 \<and> bit pat i}"
        using assms i less_le_trans [OF mod_less_divisor [OF assms(3), of "i + (n - r)"] assms(4)]
        by (simp add: rotated_at_def)
    qed
    show "{i. i < 32 \<and> bit pat i} \<subseteq> ?f ` {i. i < 32 \<and> bit w i}"
    proof
      fix k assume k: "k \<in> {i. i < 32 \<and> bit pat i}"
      then have "k < n" using assms(2) not_less by auto
      define i where "i = (k + (n - (n - r) mod n)) mod n"
      have "i < n" using assms(3) by (simp add: i_def)
      moreover have "?f i = k"
      proof -
        have "?f i = (k + ((n - r) + (n - (n - r) mod n))) mod n"
          unfolding i_def mod_add_left_eq by (simp only: ac_simps)
        also have "\<dots> = ((k + (n - r)) mod n + (n - (n - r) mod n)) mod n"
          unfolding mod_add_left_eq by (simp only: ac_simps)
        finally show ?thesis using mod_add_back [OF \<open>k < n\<close>] by simp
      qed
      moreover have "bit w i" using assms(1) \<open>i < n\<close> \<open>?f i = k\<close> k by (simp add: rotated_at_def)
      ultimately have "i \<in> {i. i < 32 \<and> bit w i}" "k = ?f i" using assms(4) by auto
      then show "k \<in> ?f ` {i. i < 32 \<and> bit w i}" by (rule rev_image_eqI)
    qed
  qed
  moreover have "{i. i < 32 \<and> bit w i} \<subseteq> {..<n}"
  proof
    fix i assume "i \<in> {i. i < 32 \<and> bit w i}"
    then have "bit w i" by blast
    then show "i \<in> {..<n}"
      using assms(1) unfolding rotated_at_def lessThan_iff by (meson not_le)
  qed
  then have "card (?f ` {i. i < 32 \<and> bit w i}) = card {i. i < 32 \<and> bit w i}"
    by (intro card_image inj_on_subset [OF inj])
  ultimately show ?thesis unfolding popcount_card by (simp only:)
qed

text \<open>What the search finds is the pattern as a rotated run of ones.\<close>

lemma find_rotation_found:
  "find_rotation n (popcount pat) [r..<n] w = Some k \<Longrightarrow> rotated_at pat n r w \<Longrightarrow>
   \<forall>i\<ge>n. \<not> bit pat i \<Longrightarrow> 0 < n \<Longrightarrow> n \<le> 32 \<Longrightarrow> r \<le> n \<Longrightarrow>
   (k < n \<and> rotated_at pat n k (mask (popcount pat))) \<or>
   (\<forall>r'. r \<le> r' \<longrightarrow> r' < n \<longrightarrow> bit pat ((n - r') mod n) \<longrightarrow> bit pat ((n - 1 + (n - r')) mod n))"
proof (induction "n - r" arbitrary: r w)
  case 0
  then show ?case by simp
next
  case (Suc x)
  then have r: "r < n" by simp
  then have rs: "[r..<n] = r # [Suc r..<n]" by (rule upt_conv_Cons)
  note ra = Suc.prems(2) [unfolded rotated_at_def, THEN conjunct1, rule_format]
  show ?case
  proof (cases "bit w 0 \<and> \<not> bit w (n - 1)")
    case True
    have p: "popcount w = popcount pat" using rotated_popcount Suc.prems by blast
    have "1 + (31 - builtin_clz w) - builtin_ctz w = popcount w" "k = r"
      using Suc.prems(1) True by (simp_all add: rs Let_def p split: if_splits)
    then show ?thesis using run_of_ones [of w] True p Suc.prems(2) r by auto
  next
    case False
    let ?w = "(push_bit 1 w OR drop_bit (n - 1) w) AND mask n"
    have "find_rotation n (popcount pat) [Suc r..<n] ?w = Some k"
      using Suc.prems(1) False unfolding rs find_rotation.simps by (simp only: if_False simp_thms)
    moreover have "rotated_at pat n (Suc r) ?w" using rotated_at_step Suc.prems(2,5) r by blast
    ultimately have ih: "(k < n \<and> rotated_at pat n k (mask (popcount pat))) \<or>
        (\<forall>r'. Suc r \<le> r' \<longrightarrow> r' < n \<longrightarrow> bit pat ((n - r') mod n) \<longrightarrow> bit pat ((n - 1 + (n - r')) mod n))"
      using Suc.hyps(1) [of "Suc r" ?w] Suc.hyps(2) r Suc.prems(3-5) by simp
    have "bit pat ((n - r) mod n) \<longrightarrow> bit pat ((n - 1 + (n - r)) mod n)"
      using False ra [of 0] ra [of "n - 1"] Suc.prems(4) by simp
    with ih show ?thesis by (metis Suc_leI le_neq_implies_less)
  qed
qed

text \<open>A pattern that is neither empty nor full has a rotation that starts a run.\<close>

lemma rotation_exists:
  assumes "\<forall>r'. r' < n \<longrightarrow> bit pat ((n - r') mod n) \<longrightarrow> bit pat ((n - 1 + (n - r')) mod n)"
    "\<forall>i\<ge>n. \<not> bit (pat :: u32) i" "0 < n" "n \<le> 32"
  shows "popcount pat = 0 \<or> popcount pat = n"
proof (cases "\<exists>i<n. bit pat i")
  case False
  then have "{i. i < 32 \<and> bit pat i} = {}" using assms(2) not_less by blast
  then show ?thesis by (simp add: popcount_card)
next
  case True
  then obtain i where i: "i < n" "bit pat i" by blast
  have down: "bit pat ((j + (n - 1)) mod n)" if "j < n" "bit pat j" for j
  proof -
    let ?r = "(n - j) mod n"
    have "?r < n" using assms(3) by simp
    moreover have "(n - ?r) mod n = j" using that by (cases "j = 0") simp_all
    moreover have "(n - 1 + n) mod n = (n - 1) mod n" by (simp only: mod_add_self2)
    then have "(n - 1 + (n - ?r)) mod n = (j + (n - 1)) mod n"
      using that by (cases "j = 0") (simp_all add: ac_simps)
    ultimately show ?thesis using assms(1) that by metis
  qed
  have all: "bit pat ((i + k * (n - 1)) mod n)" for k
  proof (induction k)
    case 0
    then show ?case using i by simp
  next
    case (Suc k)
    have "(i + Suc k * (n - 1)) mod n = ((i + k * (n - 1)) mod n + (n - 1)) mod n"
      unfolding mod_add_left_eq mult_Suc by (simp only: ac_simps)
    with down [OF _ Suc] assms(3) show ?case by simp
  qed
  have "bit pat j" if "j < n" for j
  proof -
    let ?k = "n + i - j"
    have "i + ?k * (n - 1) + ?k = i + ?k * n" using assms(3) by (cases n) simp_all
    then have "i + ?k * (n - 1) + (n + i) = i + ?k * n + j" using that by simp
    then have "i + ?k * (n - 1) = j + (?k - 1) * n" using that i assms(3)
      by (cases ?k) simp_all
    then have "(i + ?k * (n - 1)) mod n = j" using that by simp
    with all [of ?k] show ?thesis by simp
  qed
  moreover have "i < n" if "bit pat i" for i using assms(2) that by (meson not_le)
  ultimately have "{i. i < 32 \<and> bit pat i} = {..<n}" using assms(4) by auto
  then show ?thesis by (simp add: popcount_card)
qed

section \<open>The encoding\<close>

lemma mask_fields:
  assumes "n \<in> {2, 4, 8, 16, 32}" "0 < k" "k < n"
  shows "mask_esize (unat (take_bit 6 (ucast (imms_prefix n OR of_nat k) - 1 :: u8))) = n"
    "unat (take_bit 6 (ucast (imms_prefix n OR of_nat k) - 1 :: u8)) mod n = k - 1"
    "imms_prefix n OR of_nat k < 64"
proof -
  have "list_all (\<lambda>n. list_all (\<lambda>k.
      mask_esize (unat (take_bit 6 (ucast (imms_prefix n OR of_nat k) - 1 :: u8))) = n \<and>
      unat (take_bit 6 (ucast (imms_prefix n OR of_nat k) - 1 :: u8)) mod n = k - 1 \<and>
      imms_prefix n OR of_nat k < 64) [1..<n]) [2, 4, 8, 16, 32]" by code_simp
  moreover have "n \<in> set [2, 4, 8, 16, 32]" "k \<in> set [1..<n]" using assms by auto
  ultimately show "mask_esize (unat (take_bit 6 (ucast (imms_prefix n OR of_nat k) - 1 :: u8))) = n"
    "unat (take_bit 6 (ucast (imms_prefix n OR of_nat k) - 1 :: u8)) mod n = k - 1"
    "imms_prefix n OR of_nat k < 64"
    unfolding list_all_iff by blast+
qed

lemma mask_value:
  assumes "periodic v pat n" "rotated_at pat n r (mask k)" "r < n" "k < n" "0 < k"
  shows "rep_ones n k r = v"
proof (rule bit_word_eqI)
  fix i assume "i < LENGTH(32)"
  then have i: "i < 32" by simp
  let ?i = "(i + r) mod n"
  have "?i < n" using assms(3) by simp
  then have "bit (mask k :: u32) ?i = bit pat ((?i + (n - r)) mod n)"
    using assms(2) by (simp add: rotated_at_def)
  also have "(?i + (n - r)) mod n = (i + (r + (n - r))) mod n"
    unfolding mod_add_left_eq by (simp only: ac_simps)
  also have "\<dots> = i mod n" using assms(3) by simp
  finally have "bit v i = bit (mask k :: u32) ?i" using assms(1) i by (simp add: periodic_def)
  moreover have "n \<le> 32" using assms(1) by (auto simp: periodic_def dest: dvd_imp_le)
  ultimately show "bit (rep_ones n k r) i = bit v i"
    using i \<open>?i < n\<close> by (simp add: bit_rep_ones bit_mask_iff)
qed

lemma pack_fields:
  assumes "a < 64" "b < (64 :: u32)"
  shows "drop_bit 16 (push_bit 16 a OR b) AND 0x3f = a" "(push_bit 16 a OR b) AND 0x3f = b"
proof -
  have m6: "(0x3f :: u32) = mask 6" by (simp add: mask_eq_exp_minus_1)
  have "take_bit 6 a = a" "take_bit 6 b = b"
    using less_mask_eq [of a 6] less_mask_eq [of b 6] assms by (simp_all add: take_bit_eq_mask)
  then have d: "bit a i \<Longrightarrow> i < 6" "bit b i \<Longrightarrow> i < 6" for i by (metis bit_take_bit_iff)+
  show "drop_bit 16 (push_bit 16 a OR b) AND 0x3f = a" unfolding m6
    by (rule bit_word_eqI) (auto simp: bit_simps dest: d)
  show "(push_bit 16 a OR b) AND 0x3f = b" unfolding m6
    by (rule bit_word_eqI) (auto simp: bit_simps dest: d)
qed

text \<open>Every number \<open>number_to_mask\<close> encodes is the immediate its encoding stands for.\<close>

lemma number_to_mask_sound:
  assumes "number_to_mask v \<noteq> 0"
  shows "imm_mask (ucast (drop_bit 16 (number_to_mask v) AND 0x3f)) (ucast (number_to_mask v AND 0x3f)) =
    Some v"
proof -
  obtain pat n where fp: "find_pattern v [16, 8, 4, 2] (v, 32) = (pat, n)" by fastforce
  have "periodic v pat n \<and> n \<in> insert 32 (set [16, 8, 4, 2])"
    by (rule find_pattern_periodic [OF periodic_self _ fp]) auto
  then have pe: "periodic v pat n" and n: "n \<in> {2, 4, 8, 16, 32}" by auto
  have hi: "\<forall>i\<ge>n. \<not> bit pat i" and n0: "0 < n" using pe by (simp_all add: periodic_def)
  have n32: "n \<le> 32" using n by auto
  let ?k = "popcount pat"
  obtain r where fr: "find_rotation n ?k [0..<n] pat = Some r" and k: "?k \<noteq> 0" "?k \<noteq> n"
    and m: "number_to_mask v = push_bit 16 (imms_prefix n OR of_nat ?k) OR of_nat r"
    using assms fp by (auto simp: number_to_mask_def Let_def split: if_splits option.splits)
  have "{i. i < 32 \<and> bit pat i} \<subseteq> {..<n}" using hi by (auto simp: not_le [symmetric])
  then have "?k \<le> n" unfolding popcount_card using card_mono [of "{..<n}"] by simp
  with k have kn: "?k < n" "0 < ?k" by simp_all
  note found = find_rotation_found [OF fr rotated_at_0 [OF hi] hi n0 n32 le0]
  have "\<not> (\<forall>r'. r' < n \<longrightarrow> bit pat ((n - r') mod n) \<longrightarrow> bit pat ((n - 1 + (n - r')) mod n))"
    using rotation_exists [OF _ hi n0 n32] k by blast
  then have ro: "r < n" "rotated_at pat n r (mask ?k)" using found by auto
  note f = mask_fields [OF n kn(2,1)]
  have r6: "of_nat r < (64 :: u32)" "unat (of_nat r :: u32) = r"
    using ro(1) n32 by (simp_all add: word_less_nat_alt unat_of_nat)
  note w = pack_fields [OF f(3) r6(1), folded m]
  have "unat (take_bit 6 (ucast (of_nat r :: u32) :: u8)) = r"
    unfolding unsigned_take_bit_eq unsigned_ucast_eq r6(2)
    using ro(1) n32 by (simp add: take_bit_nat_eq_self)
  then show ?thesis unfolding w imm_mask_def bitmask_imm_def
    using f ro kn mask_value [OF pe ro(2,1) kn] by (simp add: Let_def)
qed

section \<open>Loading\<close>

lemma run_step: "decode (fetch w) = Some i \<Longrightarrow> \<not> is_branch i \<Longrightarrow> run (w # ws) m = run ws (exec i m)"
  by (simp add: run.simps(2))

lemma halves:
  fixes v :: u32
  shows "v AND 0xffff = 0 \<Longrightarrow> push_bit 16 (ucast (ucast (drop_bit 16 v AND 0xffff) :: u16)) = v"
    "v AND 0xffff = 0xffff \<Longrightarrow>
      NOT (push_bit 16 (ucast (ucast (drop_bit 16 (NOT v) AND 0xffff) :: u16))) = v"
    "v AND 0xffff0000 = 0 \<Longrightarrow> ucast (ucast (v AND 0xffff) :: u16) = v"
    "v AND 0xffff0000 = 0xffff0000 \<Longrightarrow> NOT (ucast (ucast (NOT v AND 0xffff) :: u16)) = v"
    "(ucast (ucast (v AND 0xffff) :: u16) AND NOT (push_bit 16 (mask 16))) OR
       push_bit 16 (ucast (ucast (drop_bit 16 v AND 0xffff) :: u16)) = v"
proof -
  have m: "(0xffff :: u32) = mask 16" "(0xffff0000 :: u32) = push_bit 16 (mask 16)"
    by (simp_all add: mask_eq_exp_minus_1)
  have p: "16 + (n - 16) = (if n < 16 then 16 else n)" for n :: nat by simp
  have q: "\<not> n < 16" if "\<forall>i<16. \<not> bit v i" "bit v n" for n using that by blast
  have num16: "(16 :: nat) < 32" by simp
  have b: "(v AND 0xffff = 0) = (\<forall>i<16. \<not> bit v i)" "(v AND 0xffff = 0xffff) = (\<forall>i<16. bit v i)"
    "(v AND 0xffff0000 = 0) = (\<forall>i. 16 \<le> i \<and> i < 32 \<longrightarrow> \<not> bit v i)"
    "(v AND 0xffff0000 = 0xffff0000) = (\<forall>i. 16 \<le> i \<and> i < 32 \<longrightarrow> bit v i)"
    unfolding m by (auto simp: bit_eq_iff bit_simps) (meson less_trans num16)+
  show "push_bit 16 (ucast (ucast (drop_bit 16 v AND 0xffff) :: u16)) = v" if "v AND 0xffff = 0"
    using that unfolding b unfolding m by (intro bit_word_eqI) (auto simp: bit_simps p dest: q)
  show "NOT (push_bit 16 (ucast (ucast (drop_bit 16 (NOT v) AND 0xffff) :: u16))) = v"
    if "v AND 0xffff = 0xffff"
    using that unfolding b unfolding m by (intro bit_word_eqI) (auto simp: bit_simps le_add_diff_inverse p)
  show "ucast (ucast (v AND 0xffff) :: u16) = v" if "v AND 0xffff0000 = 0"
    using that unfolding b unfolding m by (intro bit_word_eqI) (auto simp: bit_simps intro: leI)
  show "NOT (ucast (ucast (NOT v AND 0xffff) :: u16)) = v" if "v AND 0xffff0000 = 0xffff0000"
    using that unfolding b unfolding m by (intro bit_word_eqI) (auto simp: bit_simps intro: leI)
  show "(ucast (ucast (v AND 0xffff) :: u16) AND NOT (push_bit 16 (mask 16))) OR
      push_bit 16 (ucast (ucast (drop_bit 16 v AND 0xffff) :: u16)) = v"
    unfolding m by (rule bit_word_eqI) (auto simp: bit_simps)
qed

text \<open>
  C28. Whenever \<open>number_to_mask\<close> finds an encoding, the immediate that the reference machine
  decodes from the width and the rotation it returns is the number itself, for all
  32-bit numbers.
\<close>

theorem number_to_mask_decodes:
  assumes "number_to_mask v \<noteq> 0"
  shows "decode (fetch (orr_immed rd rn (ucast (drop_bit 16 (number_to_mask v) AND 0x3f))
      (ucast (number_to_mask v AND 0x3f)))) =
    Some (LogImm Orr_op (take_bit 5 rd) (take_bit 5 rn) v)"
  by (simp only: decode_orr_immed number_to_mask_sound [OF assms] option.map)

theorem number_to_mask_decodes_witness:
  "number_to_mask 0x00ff00ff = 0x280000 \<and>
   decode (fetch (orr_immed 4 31 (ucast (drop_bit 16 (number_to_mask 0x00ff00ff) AND 0x3f))
     (ucast (number_to_mask 0x00ff00ff AND 0x3f)))) = Some (LogImm Orr_op 4 31 0x00ff00ff)"
proof -
  have e: "number_to_mask 0x00ff00ff = 0x280000" by code_simp
  then have "number_to_mask 0x00ff00ff \<noteq> 0" by simp
  from number_to_mask_decodes [OF this, of 4 31] e show ?thesis by simp
qed

text \<open>The words that load a number, whichever way is chosen.\<close>

definition loads_number :: "u8 \<Rightarrow> u32 \<Rightarrow> mstate \<Rightarrow> mstate \<Rightarrow> bool" where
  "loads_number rd v m m' \<longleftrightarrow> rdX m' rd = ucast v \<and> (\<forall>s. s \<noteq> rd \<longrightarrow> rdX m' s = rdX m s) \<and>
     m_n m' = m_n m \<and> m_z m' = m_z m \<and> m_c m' = m_c m \<and> m_v m' = m_v m \<and>
     m_mem m' = m_mem m \<and> m_simd m' = m_simd m"

lemma EMIT_LoadImmediate_code:
  assumes "is_reg rd"
  shows "\<exists>ws m'. EMIT_LoadImmediate rd v j = EMIT ws j \<and> no_branches ws \<and> length ws \<in> {1, 2} \<and>
    run ws m = Some m' \<and> loads_number rd v m m'"
proof -
  note r = is_regD [OF assms]
  define w where "w = (\<lambda>ws. no_branches ws \<and> (\<exists>m'. run ws m = Some m' \<and> loads_number rd v m m'))"
  have one: "w [x]" if "decode (fetch x) = Some i" "\<not> is_branch i"
    "exec i m = (wrX rd (ucast v) m)\<lparr>m_pc := m_pc m + 4\<rparr>" for x i
    using that r unfolding w_def by (simp add: run_step no_branches_def loads_number_def)
  let ?k = "number_to_mask v"
  have k: "w [orr_immed rd 31 (ucast (drop_bit 16 ?k AND 0x3f)) (ucast (?k AND 0x3f))]" if "?k \<noteq> 0"
    by (rule one [of _ "LogImm Orr_op rd 31 v"])
      (simp_all only: decode_orr_immed number_to_mask_sound [OF that] option.map r take_5_31,
       use r in \<open>simp_all add: exec_def wrXsp_def wrX_def\<close>)
  have s: "(1 :: u8) < 2" "unat (1 :: u8) = 1" "(0 :: u8) < 2" by simp_all
  note d = decode_mov_immed_u16 [OF s(1)] decode_mov_immed_u16 [OF s(3)] decode_movn_immed_u16 [OF s(1)]
    decode_movn_immed_u16 [OF s(3)] decode_movk_immed_u16 [OF s(1)]
  have hi: "w [mov_immed_u16 rd (ucast (drop_bit 16 v AND 0xffff)) 1]" if "v AND 0xffff = 0"
    by (rule one [OF d(1)]) (use halves(1) [OF that] r in \<open>simp_all add: exec_def wrW_def\<close>)
  have hi1: "w [movn_immed_u16 rd (ucast (drop_bit 16 (NOT v) AND 0xffff)) 1]" if "v AND 0xffff = 0xffff"
    by (rule one [OF d(3)]) (use halves(2) [OF that] r in \<open>simp_all add: exec_def wrW_def\<close>)
  have lo: "w [mov_immed_u16 rd (ucast (v AND 0xffff)) 0]" if "v AND 0xffff0000 = 0"
    by (rule one [OF d(2)]) (use halves(3) [OF that] r in \<open>simp_all add: exec_def wrW_def\<close>)
  have lo1: "w [movn_immed_u16 rd (ucast (NOT v AND 0xffff)) 0]" if "v AND 0xffff0000 = 0xffff0000"
    by (rule one [OF d(4)]) (use halves(4) [OF that] r in \<open>simp_all add: exec_def wrW_def\<close>)
  have two: "w [mov_immed_u16 rd (ucast (v AND 0xffff)) 0, movk_immed_u16 rd (ucast (drop_bit 16 v AND 0xffff)) 1]"
    unfolding w_def using r halves(5) [of v] s(2)
    by (simp add: run_step [OF d(2)] run_step [OF d(5)] exec_def no_branches_def d(2) d(5) loads_number_def)
  have z: "w [mov_reg rd 31]" if "v = 0"
    by (rule one [OF decode_mov_reg]) (use that r in \<open>simp_all add: exec_def wrW_def\<close>)
  have ones: "(ucast (- 1 :: u32) :: u64) = 0xffffffff" by code_simp
  have f: "w [mvn_reg rd 31 LSL 0]" if "v = 0xffffffff"
    by (rule one [OF decode_mvn_reg]) (use that r ones in \<open>simp_all add: exec_def wrW_def Let_def\<close>)
  have "\<exists>ws. EMIT_LoadImmediate rd v j = EMIT ws j \<and> length ws \<in> {1, 2} \<and> w ws"
  proof -
    have x: "\<exists>ws. EMIT xs j = EMIT ws j \<and> length ws \<in> {1, 2} \<and> w ws" if "w xs" "length xs \<in> {1, 2}" for xs
      using that by blast
    show ?thesis unfolding EMIT_LoadImmediate_def Let_def
      by (simp only: split: if_split) (intro conjI impI; rule x; (erule z f k hi hi1 lo lo1 | rule two | simp))
  qed
  then show ?thesis unfolding w_def by blast
qed

text \<open>
  C27. For every number, the code \<open>EMIT_LoadImmediate\<close> emits leaves exactly that number in
  the register, with the upper half cleared, changes nothing else, and is one or two
  instructions long.
\<close>

theorem EMIT_LoadImmediate_correct:
  assumes "is_reg rd"
  shows "\<exists>m'. run (emitted j (EMIT_LoadImmediate rd v j)) m = Some m' \<and>
    rdX m' rd = ucast v \<and> (\<forall>s. s \<noteq> rd \<longrightarrow> rdX m' s = rdX m s) \<and>
    (\<forall>c. cond_holds c m' = cond_holds c m) \<and> m_mem m' = m_mem m \<and> m_simd m' = m_simd m \<and>
    length (emitted j (EMIT_LoadImmediate rd v j)) \<in> {1, 2}"
proof -
  obtain ws m' where c: "EMIT_LoadImmediate rd v j = EMIT ws j" "length ws \<in> {1, 2}" "run ws m = Some m'"
    "loads_number rd v m m'" using EMIT_LoadImmediate_code [OF assms] by blast
  then have "emitted j (EMIT_LoadImmediate rd v j) = ws" by (simp add: emitted_def)
  with c show ?thesis by (intro exI [of _ m']) (simp add: loads_number_def cond_holds_def)
qed

theorem EMIT_LoadImmediate_correct_witness:
  "\<exists>m'. run (emitted (jit_init 64) (EMIT_LoadImmediate 4 0xdeadbeef (jit_init 64))) m_reset = Some m' \<and>
     rdX m' 4 = 0xdeadbeef"
proof -
  have "is_reg 4" by (simp add: is_reg_def)
  from EMIT_LoadImmediate_correct [OF this, of "jit_init 64" "0xdeadbeef" m_reset] show ?thesis by auto
qed

end
