(* ===== verification/Bytes.thy ===== *)
theory Bytes
  imports Prelude
begin

text \<open>
  Values of several bytes as the big-endian host reads and writes them, and the memory
  they lie in: a function from 64-bit addresses to bytes, with block reads
  (\<open>peek\<close>) and block writes (\<open>poke\<close>). The lemmas say how values split and join, which is
  what the routines that put an unaligned access together from smaller ones rely on.
\<close>

section \<open>Big-endian values\<close>

primrec be_val :: "u8 list \<Rightarrow> 'a::len word" where
  "be_val [] = 0"
| "be_val (b # bs) = push_bit (8 * length bs) (ucast b) OR be_val bs"

lemma be_val_append:
  "be_val (xs @ ys) = push_bit (8 * length ys) (be_val xs) OR (be_val ys :: 'a::len word)"
  by (induction xs)
    (simp_all add: push_bit_or or.assoc add_mult_distrib2 add.commute)

lemma be_val_bound: "bit (be_val bs :: 'a::len word) i \<Longrightarrow> i < 8 * length bs"
proof (induction bs)
  case (Cons b bs)
  then show ?case by (auto simp: bit_simps dest: bit_imp_le_length)
qed simp

lemma push_be_val_overflow:
  "LENGTH('a) \<le> 8 * n \<Longrightarrow> push_bit (8 * n) (w :: 'a::len word) = 0"
  by (rule bit_word_eqI) (auto simp: bit_simps)

text \<open>Bytes shifted out at the top are lost.\<close>

lemma be_val_overflow:
  "LENGTH('a) \<le> 8 * length ys \<Longrightarrow> (be_val (xs @ ys) :: 'a::len word) = be_val ys"
  by (simp add: be_val_append push_be_val_overflow)

lemma be_val_join:
  "LENGTH('a) \<le> 8 * (length ys + length zs) \<Longrightarrow>
   push_bit (8 * length zs) (be_val (xs @ ys)) OR be_val zs = (be_val (ys @ zs) :: 'a::len word)"
  using be_val_overflow [of "ys @ zs" xs, where 'a = 'a]
  by (simp add: be_val_append add_mult_distrib2 flip: append_assoc)

lemma drop_be_val:
  assumes "8 * (length xs + length ys) \<le> LENGTH('a)"
  shows "drop_bit (8 * length ys) (be_val (xs @ ys) :: 'a::len word) = be_val xs"
proof (rule bit_word_eqI)
  fix i assume "i < LENGTH('a)"
  show "bit (drop_bit (8 * length ys) (be_val (xs @ ys) :: 'a word)) i = bit (be_val xs :: 'a word) i"
    using assms be_val_bound [of ys "8 * length ys + i", where 'a = 'a]
      be_val_bound [of xs i, where 'a = 'a]
    by (auto simp: bit_simps be_val_append)
qed

lemma ucast_be_val:
  "8 * length bs \<le> LENGTH('b) \<Longrightarrow> (ucast (be_val bs :: 'b::len word) :: 'a::len word) = be_val bs"
proof (induction bs)
  case (Cons b bs)
  have "(ucast (push_bit (8 * length bs) (ucast b :: 'b word)) :: 'a word) = push_bit (8 * length bs) (ucast b)"
    using Cons.prems by (intro bit_word_eqI) (auto simp: bit_simps dest: bit_imp_le_length)
  with Cons show ?case by (simp add: unsigned_or_eq)
qed simp

text \<open>The bytes of a value, from the most significant one.\<close>

definition be_bytes :: "nat \<Rightarrow> 'a::len word \<Rightarrow> u8 list" where
  "be_bytes n w = map (\<lambda>i. ucast (drop_bit (8 * (n - Suc i)) w)) [0..<n]"

lemma length_be_bytes [simp]: "length (be_bytes n w) = n"
  by (simp add: be_bytes_def)

section \<open>Memory\<close>

type_synonym memory = "u64 \<Rightarrow> u8"

definition peek :: "memory \<Rightarrow> u64 \<Rightarrow> nat \<Rightarrow> u8 list" where
  "peek m a n = map (\<lambda>i. m (a + of_nat i)) [0..<n]"

definition poke :: "memory \<Rightarrow> u64 \<Rightarrow> u8 list \<Rightarrow> memory" where
  "poke m a bs = (\<lambda>x. if unat (x - a) < length bs then bs ! unat (x - a) else m x)"

lemma length_peek [simp]: "length (peek m a n) = n"
  by (simp add: peek_def)

lemma peek_split: "peek m a (k + n) = peek m a k @ peek m (a + of_nat k) n"
  by (rule nth_equalityI) (auto simp: peek_def nth_append ac_simps of_nat_diff)

lemma peek_cong: "(\<And>i. i < n \<Longrightarrow> m (a + of_nat i) = m' (a + of_nat i)) \<Longrightarrow> peek m a n = peek m' a n"
  by (simp add: peek_def)

lemma unat_diff_small:
  "unat a + n \<le> 2 ^ 64 \<Longrightarrow> unat ((x :: u64) - a) < n \<longleftrightarrow> unat a \<le> unat x \<and> unat x < unat a + n"
proof -
  assume a: "unat a + n \<le> 2 ^ 64"
  show ?thesis
  proof (cases "a \<le> x")
    case True
    then show ?thesis by (auto simp: unat_sub word_le_nat_alt)
  next
    case False
    have "unat (x - a) = 2 ^ 64 + unat x - unat a"
      using False unat_sub_if_size [of x a] by (simp add: word_size word_le_nat_alt)
    moreover have "unat x < unat a" using False by (simp add: word_le_nat_alt)
    ultimately show ?thesis using a by auto
  qed
qed

lemma peek_poke_same:
  "length bs \<le> 2 ^ 64 \<Longrightarrow> peek (poke m a bs) a (length bs) = bs"
  by (rule nth_equalityI) (auto simp: peek_def poke_def unat_of_nat)

end
