(* ===== verification/Cache.thy ===== *)
theory Cache
  imports Bytes
begin

text \<open>
  The software caches of \<open>cache.c\<close>: two set-associative caches of 128 sets and 8 ways
  with 16-byte lines, over the memory of the machine. The union of a line is its sixteen
  bytes, its wider views are big-endian values of them. The two pointers \<open>IC\<close> and \<open>DC\<close>
  are the two caches of the state, with \<open>set_up\<close> for whether they are not null yet.
  An access through a pointer is \<open>peek\<close> or \<open>poke\<close> on the memory.
\<close>

section \<open>Data\<close>

datatype cache_type = ICACHE | DCACHE

abbreviation CACHE_SET_COUNT :: nat where "CACHE_SET_COUNT \<equiv> 128"
abbreviation CACHE_WAY_COUNT :: nat where "CACHE_WAY_COUNT \<equiv> 8"

definition F_VALID :: u8 where "F_VALID = 0x80"
definition F_DIRTY0 :: u8 where "F_DIRTY0 = 0x01"
definition F_DIRTY1 :: u8 where "F_DIRTY1 = 0x02"
definition F_DIRTY2 :: u8 where "F_DIRTY2 = 0x04"
definition F_DIRTY3 :: u8 where "F_DIRTY3 = 0x08"

record cache =
  c_Lines :: "nat \<Rightarrow> nat \<Rightarrow> nat \<Rightarrow> u8"
  c_Tags :: "nat \<Rightarrow> nat \<Rightarrow> u32"
  c_Flags :: "nat \<Rightarrow> nat \<Rightarrow> u8"
  c_WaySelect :: "nat \<Rightarrow> u32"

record cache_sys =
  IC :: cache
  DC :: cache
  phys :: memory
  set_up :: bool

text \<open>The 128-bit value of \<open>support.h\<close>.\<close>

record uint128 =
  u_hi :: u64
  u_lo :: u64

definition GET_SET :: "u32 \<Rightarrow> nat" where
  "GET_SET x = unat (drop_bit 4 x AND (of_nat CACHE_SET_COUNT - 1))"

definition GET_TAG :: "u32 \<Rightarrow> u32" where
  "GET_TAG x = x AND NOT (of_nat CACHE_SET_COUNT * 16 - 1)"

definition cache_of :: "cache_type \<Rightarrow> cache_sys \<Rightarrow> cache" where
  "cache_of type s = (if type = ICACHE then IC s else DC s)"

definition with_cache :: "cache_type \<Rightarrow> cache \<Rightarrow> cache_sys \<Rightarrow> cache_sys" where
  "with_cache type c s = (if type = ICACHE then s\<lparr>IC := c\<rparr> else s\<lparr>DC := c\<rparr>)"

section \<open>Replacement\<close>

definition cache_mark_hit :: "nat \<Rightarrow> nat \<Rightarrow> cache \<Rightarrow> cache" where
  "cache_mark_hit row way c =
    (let c1 = c\<lparr>c_WaySelect := (c_WaySelect c)(row := c_WaySelect c row OR push_bit way 1)\<rparr>
     in if c_WaySelect c1 row = drop_bit (32 - CACHE_WAY_COUNT) 0xffffffff
        then c1\<lparr>c_WaySelect := (c_WaySelect c1)(row := push_bit way 1)\<rparr> else c1)"

definition cache_get_way :: "cache \<Rightarrow> nat \<Rightarrow> nat" where
  "cache_get_way c row = ffs (NOT (c_WaySelect c row)) - 1"

section \<open>Lines\<close>

text \<open>The first way with the tag and the valid bit, the loop at the head of every access.\<close>

definition find_way :: "cache \<Rightarrow> nat \<Rightarrow> u32 \<Rightarrow> nat option" where
  "find_way c row tag =
    find (\<lambda>i. c_Tags c row i = tag \<and> c_Flags c row i AND F_VALID \<noteq> 0) [0..<CACHE_WAY_COUNT]"

definition line_bytes :: "cache \<Rightarrow> nat \<Rightarrow> nat \<Rightarrow> nat \<Rightarrow> nat \<Rightarrow> u8 list" where
  "line_bytes c row way off n = map (\<lambda>i. c_Lines c row way (off + i)) [0..<n]"

definition line_address :: "cache \<Rightarrow> nat \<Rightarrow> nat \<Rightarrow> u32" where
  "line_address c row way = c_Tags c row way + push_bit 4 (of_nat row)"

text \<open>Writing the dirty longwords of a line back to memory.\<close>

definition write_back_line :: "cache \<Rightarrow> nat \<Rightarrow> nat \<Rightarrow> memory \<Rightarrow> memory" where
  "write_back_line c row way m =
    (let la = line_address c row way; f = c_Flags c row way;
         m = (if f AND F_DIRTY0 \<noteq> 0 then poke m (ucast la) (line_bytes c row way 0 4) else m);
         m = (if f AND F_DIRTY1 \<noteq> 0 then poke m (ucast (la + 4)) (line_bytes c row way 4 4) else m);
         m = (if f AND F_DIRTY2 \<noteq> 0 then poke m (ucast (la + 8)) (line_bytes c row way 8 4) else m)
     in if f AND F_DIRTY3 \<noteq> 0 then poke m (ucast (la + 12)) (line_bytes c row way 12 4) else m)"

definition set_flags :: "nat \<Rightarrow> nat \<Rightarrow> u8 \<Rightarrow> cache \<Rightarrow> cache" where
  "set_flags row way f c = c\<lparr>c_Flags := (c_Flags c)(row := (c_Flags c row)(way := f))\<rparr>"

definition set_tag :: "nat \<Rightarrow> nat \<Rightarrow> u32 \<Rightarrow> cache \<Rightarrow> cache" where
  "set_tag row way t c = c\<lparr>c_Tags := (c_Tags c)(row := (c_Tags c row)(way := t))\<rparr>"

text \<open>Storing bytes in a line from an offset on.\<close>

definition set_line :: "nat \<Rightarrow> nat \<Rightarrow> nat \<Rightarrow> u8 list \<Rightarrow> cache \<Rightarrow> cache" where
  "set_line row way off bs c = c\<lparr>c_Lines := (c_Lines c)(row := (c_Lines c row)(way :=
     (\<lambda>i. if off \<le> i \<and> i < off + length bs then bs ! (i - off) else c_Lines c row way i)))\<rparr>"

text \<open>
  The part of an access that finds a victim: the way to use next, its dirty longwords
  written back when it was valid, the line read from memory when \<open>load\<close> is set (all
  accesses but the 128-bit write), the way marked valid and clean with the tag.
\<close>

definition cache_allocate :: "bool \<Rightarrow> nat \<Rightarrow> u32 \<Rightarrow> u32 \<Rightarrow> cache \<Rightarrow> memory \<Rightarrow> nat \<times> cache \<times> memory" where
  "cache_allocate load row tag address c m =
    (let way = cache_get_way c row;
         m = (if c_Flags c row way AND F_VALID \<noteq> 0 then write_back_line c row way m else m);
         c = (if load then set_line row way 0 (peek m (ucast (address AND 0xfffffff0)) 16) c else c)
     in (way, set_tag row way tag (set_flags row way F_VALID c), m))"

text \<open>The body of a read inside one line: the bytes at the address.\<close>

definition cache_fetch :: "cache_type \<Rightarrow> u32 \<Rightarrow> nat \<Rightarrow> cache_sys \<Rightarrow> u8 list \<times> cache_sys" where
  "cache_fetch type address n s =
    (let c = cache_of type s; tag = GET_TAG address; row = GET_SET address;
         (way, c, m) = (case find_way c row tag of Some way \<Rightarrow> (way, c, phys s)
           | None \<Rightarrow> cache_allocate True row tag address c (phys s));
         c = cache_mark_hit row way c
     in (line_bytes c row way (unat (address AND 15)) n, (with_cache type c s)\<lparr>phys := m\<rparr>))"

section \<open>Reads\<close>

definition cache_read_8 :: "cache_type \<Rightarrow> u32 \<Rightarrow> cache_sys \<Rightarrow> u8 \<times> cache_sys" where
  "cache_read_8 type address s =
    (if 0x01000000 \<le> address then (be_val (peek (phys s) (ucast address) 1), s)
     else let (bs, s) = cache_fetch type address 1 s in (be_val bs, s))"

definition cache_read_16 :: "cache_type \<Rightarrow> u32 \<Rightarrow> cache_sys \<Rightarrow> u16 \<times> cache_sys" where
  "cache_read_16 type address s =
    (if 0x01000000 \<le> address then (be_val (peek (phys s) (ucast address) 2), s)
     else if 14 < address AND 15 then
       (let (x, s) = cache_read_8 type address s;
            (y, s) = cache_read_8 type (address + 1) s
        in (push_bit 8 (ucast x) OR ucast y, s))
     else let (bs, s) = cache_fetch type address 2 s in (be_val bs, s))"

text \<open>Inside its switch a read calls itself on an address that lies in one line.\<close>

function cache_read_32 :: "cache_type \<Rightarrow> u32 \<Rightarrow> cache_sys \<Rightarrow> u32 \<times> cache_sys" where
  "cache_read_32 type address s =
    (if 0x01000000 \<le> address then (be_val (peek (phys s) (ucast address) 4), s)
     else if address AND 15 = 13 then
       (let (x, s) = cache_read_32 type (address - 1) s;
            (y, s) = cache_read_8 type (address + 3) s
        in (push_bit 8 x OR ucast y, s))
     else if address AND 15 = 14 then
       (let (x, s) = cache_read_16 type address s;
            (y, s) = cache_read_16 type (address + 2) s
        in (push_bit 16 (ucast x) OR ucast y, s))
     else if address AND 15 = 15 then
       (let (x, s) = cache_read_8 type address s;
            (y, s) = cache_read_32 type (address + 1) s
        in (push_bit 24 (ucast x) OR drop_bit 8 y, s))
     else let (bs, s) = cache_fetch type address 4 s in (be_val bs, s))"
  by pat_completeness auto

function cache_read_64 :: "cache_type \<Rightarrow> u32 \<Rightarrow> cache_sys \<Rightarrow> u64 \<times> cache_sys" where
  "cache_read_64 type address s =
    (if 0x01000000 \<le> address then (be_val (peek (phys s) (ucast address) 8), s)
     else if address AND 15 = 9 then
       (let (x, s) = cache_read_64 type (address - 1) s;
            (y, s) = cache_read_8 type (address + 7) s
        in (push_bit 8 x OR ucast y, s))
     else if address AND 15 = 10 then
       (let (x, s) = cache_read_64 type (address - 2) s;
            (y, s) = cache_read_16 type (address + 6) s
        in (push_bit 16 x OR ucast y, s))
     else if address AND 15 = 11 then
       (let (x, s) = cache_read_64 type (address - 3) s;
            (y, s) = cache_read_32 type (address + 5) s
        in (push_bit 24 x OR ucast (drop_bit 8 y), s))
     else if address AND 15 = 12 then
       (let (x, s) = cache_read_32 type address s;
            (y, s) = cache_read_32 type (address + 4) s
        in (push_bit 32 (ucast x) OR ucast y, s))
     else if address AND 15 = 13 then
       (let (x, s) = cache_read_16 type address s;
            (y, s) = cache_read_64 type (address + 3) s
        in (push_bit 40 (ucast x) OR drop_bit 24 y, s))
     else if address AND 15 = 14 then
       (let (x, s) = cache_read_16 type address s;
            (y, s) = cache_read_64 type (address + 2) s
        in (push_bit 48 (ucast x) OR drop_bit 16 y, s))
     else if address AND 15 = 15 then
       (let (x, s) = cache_read_8 type address s;
            (y, s) = cache_read_64 type (address + 1) s
        in (push_bit 56 (ucast x) OR drop_bit 8 y, s))
     else let (bs, s) = cache_fetch type address 8 s in (be_val bs, s))"
  by pat_completeness auto

definition cache_read_128 :: "cache_type \<Rightarrow> u32 \<Rightarrow> cache_sys \<Rightarrow> uint128 \<times> cache_sys" where
  "cache_read_128 type address s =
    (if 0x01000000 \<le> address then
       (\<lparr>u_hi = be_val (peek (phys s) (ucast address) 8),
         u_lo = be_val (peek (phys s) (ucast address + 8) 8)\<rparr>, s)
     else if address AND 15 \<noteq> 0 then
       (let (h, s) = cache_read_64 type address s;
            (l, s) = cache_read_64 type (address + 8) s
        in (\<lparr>u_hi = h, u_lo = l\<rparr>, s))
     else let (bs, s) = cache_fetch type address 16 s
       in (\<lparr>u_hi = be_val (take 8 bs), u_lo = be_val (drop 8 bs)\<rparr>, s))"

lemma unat_and_15: "unat ((a :: u32) AND 15) = unat a mod 16"
  unfolding mask_simps unsigned_take_bit_eq unfolding take_bit_eq_mod by simp

lemma offset_add: "(a :: u32) AND 15 = n \<Longrightarrow> (a + k) AND 15 = (n + k) AND 15"
  by (drule sym) (simp add: word_unat_eq_iff unat_and_15 unat_word_ariths mod_mod_cancel mod_simps)

lemma offset_sub: "(a :: u32) AND 15 = n \<Longrightarrow> (a - k) AND 15 = (n - k) AND 15"
  using offset_add [of a n "- k"] by simp

termination cache_read_32
  by (relation "measure (\<lambda>(_, a, _). unat ((a AND 15) AND 1))") (simp_all add: offset_add offset_sub)

termination cache_read_64
  by (relation "measure (\<lambda>(_, a, _). of_bool (8 < a AND 15))") (simp_all add: offset_add offset_sub)

declare cache_read_32.simps [simp del] cache_read_64.simps [simp del]

end
