(* ===== verification/Cache_Ops.thy ===== *)
theory Cache_Ops
  imports Cache
begin

text \<open>
  The writes of \<open>cache.c\<close> and the operations on whole lines: set-up, invalidation and
  flushing. A write returns 1 when it was done and 0 when the caller has to do it itself:
  the data crosses the end of the line, or the write-through cache missed.
\<close>

section \<open>Writes\<close>

text \<open>The way to write to: the hit, a fresh one for write-back, none for write-through.\<close>

definition cache_store_way ::
  "cache_type \<Rightarrow> u32 \<Rightarrow> u8 \<Rightarrow> bool \<Rightarrow> cache_sys \<Rightarrow> (nat \<times> cache \<times> memory) option" where
  "cache_store_way type address write_back load s =
    (let c = cache_of type s; tag = GET_TAG address; row = GET_SET address
     in case find_way c row tag of Some way \<Rightarrow> Some (way, c, phys s)
        | None \<Rightarrow> if write_back = 0 then None
            else Some (cache_allocate load row tag address c (phys s)))"

text \<open>The end of every write: the bytes go into the line, and then the longwords are
  marked dirty or the bytes are written through.\<close>

definition cache_put ::
  "cache_type \<Rightarrow> u32 \<Rightarrow> u8 list \<Rightarrow> u8 \<Rightarrow> (u8 \<Rightarrow> u8) \<Rightarrow> nat \<times> cache \<times> memory \<Rightarrow> cache_sys \<Rightarrow> cache_sys" where
  "cache_put type address bs write_back mark = (\<lambda>(way, c, m) s.
    (let row = GET_SET address;
         c = set_line row way (unat (address AND 15)) bs (cache_mark_hit row way c);
         (c, m) = (if write_back \<noteq> 0 then (set_flags row way (mark (c_Flags c row way)) c, m)
           else (c, poke m (ucast address) bs))
     in (with_cache type c s)\<lparr>phys := m\<rparr>))"

text \<open>The switches that choose the dirty bits, over the longword the address lies in.\<close>

definition dirty_64 :: "u32 \<Rightarrow> u8 \<Rightarrow> u8" where
  "dirty_64 address f =
    (let k = drop_bit 2 address AND 3; e = drop_bit 2 (address + 7) AND 3
     in if k = 0 then f OR (F_DIRTY0 OR F_DIRTY1) OR (if e = 2 then F_DIRTY2 else 0)
        else if k = 1 then f OR (F_DIRTY1 OR F_DIRTY2) OR (if e = 3 then F_DIRTY3 else 0)
        else if k = 2 then f OR (F_DIRTY2 OR F_DIRTY3) else f)"

definition dirty_32 :: "u32 \<Rightarrow> u8 \<Rightarrow> u8" where
  "dirty_32 address f =
    (let k = drop_bit 2 address AND 3; e = drop_bit 2 (address + 3) AND 3
     in if k = 0 then f OR F_DIRTY0 OR (if e = 1 then F_DIRTY1 else 0)
        else if k = 1 then f OR F_DIRTY1 OR (if e = 2 then F_DIRTY2 else 0)
        else if k = 2 then f OR F_DIRTY2 OR (if e = 3 then F_DIRTY3 else 0)
        else f OR F_DIRTY3)"

definition dirty_16 :: "u32 \<Rightarrow> u8 \<Rightarrow> u8" where
  "dirty_16 address f =
    (let k = drop_bit 2 address AND 3; e = drop_bit 2 (address + 1) AND 3
     in if k = 0 then f OR F_DIRTY0 OR (if e = 1 then F_DIRTY1 else 0)
        else if k = 1 then f OR F_DIRTY1 OR (if e = 2 then F_DIRTY2 else 0)
        else if k = 2 then f OR F_DIRTY2 OR (if e = 3 then F_DIRTY3 else 0)
        else f OR F_DIRTY3)"

definition dirty_8 :: "u32 \<Rightarrow> u8 \<Rightarrow> u8" where
  "dirty_8 address f =
    (let k = drop_bit 2 address AND 3
     in if k = 0 then f OR F_DIRTY0 else if k = 1 then f OR F_DIRTY1
        else if k = 2 then f OR F_DIRTY2 else f OR F_DIRTY3)"

definition cache_write_128 :: "cache_type \<Rightarrow> u32 \<Rightarrow> uint128 \<Rightarrow> u8 \<Rightarrow> cache_sys \<Rightarrow> int \<times> cache_sys" where
  "cache_write_128 type address data write_back s =
    (if address AND 15 \<noteq> 0 then (0, s)
     else case cache_store_way type address write_back False s of None \<Rightarrow> (0, s)
     | Some w \<Rightarrow> (1, cache_put type address (be_bytes 8 (u_hi data) @ be_bytes 8 (u_lo data)) write_back
         (\<lambda>f. f OR (F_DIRTY0 OR F_DIRTY1 OR F_DIRTY2 OR F_DIRTY3)) w s))"

definition cache_write_64 :: "cache_type \<Rightarrow> u32 \<Rightarrow> u64 \<Rightarrow> u8 \<Rightarrow> cache_sys \<Rightarrow> int \<times> cache_sys" where
  "cache_write_64 type address data write_back s =
    (if 8 < address AND 15 then (0, s)
     else case cache_store_way type address write_back True s of None \<Rightarrow> (0, s)
     | Some w \<Rightarrow> (1, cache_put type address (be_bytes 8 data) write_back (dirty_64 address) w s))"

definition cache_write_32 :: "cache_type \<Rightarrow> u32 \<Rightarrow> u32 \<Rightarrow> u8 \<Rightarrow> cache_sys \<Rightarrow> int \<times> cache_sys" where
  "cache_write_32 type address data write_back s =
    (if 12 < address AND 15 then (0, s)
     else case cache_store_way type address write_back True s of None \<Rightarrow> (0, s)
     | Some w \<Rightarrow> (1, cache_put type address (be_bytes 4 data) write_back (dirty_32 address) w s))"

definition cache_write_16 :: "cache_type \<Rightarrow> u32 \<Rightarrow> u16 \<Rightarrow> u8 \<Rightarrow> cache_sys \<Rightarrow> int \<times> cache_sys" where
  "cache_write_16 type address data write_back s =
    (if 14 < address AND 15 then (0, s)
     else case cache_store_way type address write_back True s of None \<Rightarrow> (0, s)
     | Some w \<Rightarrow> (1, cache_put type address (be_bytes 2 data) write_back (dirty_16 address) w s))"

definition cache_write_8 :: "cache_type \<Rightarrow> u32 \<Rightarrow> u8 \<Rightarrow> u8 \<Rightarrow> cache_sys \<Rightarrow> int \<times> cache_sys" where
  "cache_write_8 type address data write_back s =
    (case cache_store_way type address write_back True s of None \<Rightarrow> (0, s)
     | Some w \<Rightarrow> (1, cache_put type address (be_bytes 1 data) write_back (dirty_8 address) w s))"

section \<open>Lines as a whole\<close>

abbreviation rows :: "nat list" where "rows \<equiv> [0..<CACHE_SET_COUNT]"
abbreviation ways :: "nat list" where "ways \<equiv> [0..<CACHE_WAY_COUNT]"

definition set_ways :: "nat \<Rightarrow> u32 \<Rightarrow> cache \<Rightarrow> cache" where
  "set_ways row w c = c\<lparr>c_WaySelect := (c_WaySelect c)(row := w)\<rparr>"

definition cache_invalidate_all :: "cache_type \<Rightarrow> cache_sys \<Rightarrow> cache_sys" where
  "cache_invalidate_all type s =
    with_cache type (fold (\<lambda>row c. fold (\<lambda>way. set_flags row way 0) ways (set_ways row 0 c)) rows
      (cache_of type s)) s"

text \<open>The flush of one way: its dirty longwords are written back and it becomes invalid.\<close>

definition flush_way :: "nat \<Rightarrow> nat \<Rightarrow> cache \<times> memory \<Rightarrow> cache \<times> memory" where
  "flush_way row way = (\<lambda>(c, m).
    (set_flags row way 0 c,
     if c_Flags c row way AND F_VALID \<noteq> 0 \<and>
        c_Flags c row way AND (F_DIRTY0 OR F_DIRTY1 OR F_DIRTY2 OR F_DIRTY3) \<noteq> 0
     then write_back_line c row way m else m))"

definition cache_flush_all :: "cache_type \<Rightarrow> cache_sys \<Rightarrow> cache_sys" where
  "cache_flush_all type s =
    (let s = (if type = ICACHE then cache_invalidate_all type s else s);
         (c, m) = fold (\<lambda>row (c, m). fold (flush_way row) ways (set_ways row 0 c, m)) rows
           (cache_of type s, phys s)
     in (with_cache type c s)\<lparr>phys := m\<rparr>)"

definition invalidate_way :: "nat \<Rightarrow> u32 \<Rightarrow> nat \<Rightarrow> cache \<Rightarrow> cache" where
  "invalidate_way row tag i c =
    (if c_Tags c row i = tag \<and> c_Flags c row i AND F_VALID \<noteq> 0
     then set_ways row (c_WaySelect c row AND NOT (push_bit i 1)) (set_flags row i 0 c) else c)"

definition cache_invalidate_line :: "cache_type \<Rightarrow> u32 \<Rightarrow> cache_sys \<Rightarrow> cache_sys" where
  "cache_invalidate_line type address s =
    with_cache type (fold (invalidate_way (GET_SET address) (GET_TAG address)) ways (cache_of type s)) s"

text \<open>
  The loop counts in 64 bits while its bounds come from 32-bit arithmetic; the value is
  \<open>None\<close> where it would not end.
\<close>

partial_function (option) invalidate_from :: "cache_type \<Rightarrow> u64 \<Rightarrow> u64 \<Rightarrow> cache_sys \<Rightarrow> cache_sys option" where
  "invalidate_from type addr end' s =
    (if addr \<le> end' then invalidate_from type (addr + 16) end' (cache_invalidate_line type (ucast addr) s)
     else Some s)"

definition cache_invalidate_range :: "cache_type \<Rightarrow> u32 \<Rightarrow> u32 \<Rightarrow> cache_sys \<Rightarrow> cache_sys option" where
  "cache_invalidate_range type address len s =
    invalidate_from type (ucast (address AND 0xfffffff0)) (ucast ((address + len - 1) AND 0xfffffff0)) s"

definition flush_matching_way :: "nat \<Rightarrow> u32 \<Rightarrow> nat \<Rightarrow> cache \<times> memory \<Rightarrow> cache \<times> memory" where
  "flush_matching_way row tag i = (\<lambda>(c, m).
    if c_Tags c row i = tag \<and> c_Flags c row i AND F_VALID \<noteq> 0
    then (set_ways row (c_WaySelect c row AND NOT (push_bit i 1)) (set_flags row i 0 c),
          write_back_line c row i m)
    else (c, m))"

definition cache_flush_line :: "cache_type \<Rightarrow> u32 \<Rightarrow> cache_sys \<Rightarrow> cache_sys" where
  "cache_flush_line type address s =
    (let s = (if type = ICACHE then cache_invalidate_line type address s else s);
         (c, m) = fold (flush_matching_way (GET_SET address) (GET_TAG address)) ways
           (cache_of type s, phys s)
     in (with_cache type c s)\<lparr>phys := m\<rparr>)"

section \<open>Set-up\<close>

text \<open>
  \<open>ic\<close> and \<open>dc\<close> are the contents of the two blocks the allocator returns; the set-up
  clears flags and tags of the instruction cache only.
\<close>

definition cache_setup :: "cache \<Rightarrow> cache \<Rightarrow> cache_sys \<Rightarrow> cache_sys" where
  "cache_setup ic dc s =
    (if set_up s then cache_invalidate_all DCACHE (cache_invalidate_all ICACHE s)
     else let (ic, dc) = fold (\<lambda>i (ic, dc).
            (fold (\<lambda>j ic. set_tag i j 0 (set_flags i j 0 ic)) ways (set_ways i 0 ic), set_ways i 0 dc))
            rows (ic, dc)
          in s\<lparr>IC := ic, DC := dc, set_up := True\<rparr>)"

end
