(* ===== verification/Cache_Inv.thy ===== *)
theory Cache_Inv
  imports Cache_Ops
begin

text \<open>
  What a cache promises. \<open>view\<close> is the memory as seen through a cache: the byte of the
  line that holds the address, the byte of the memory where no line does. The invariant
  \<open>cache_inv\<close> says that a line is cached in one way only, under an aligned tag below the
  cached range's end, that a longword not marked dirty equals the memory, and that the
  replacement state always has a way to offer.
\<close>

section \<open>Addresses\<close>

lemma unat_GET_SET: "GET_SET a = unat a div 16 mod 128"
proof -
  have "(of_nat CACHE_SET_COUNT - 1 :: u32) = mask 7" by (simp add: mask_eq_exp_minus_1)
  then have "GET_SET a = unat (take_bit 7 (drop_bit 4 a))"
    by (simp only: GET_SET_def take_bit_eq_mask)
  then show ?thesis using unsigned_less [of a, where ?'a = nat]
    unfolding unsigned_take_bit_eq unsigned_drop_bit_eq unfolding take_bit_eq_mod drop_bit_eq_div by simp
qed

lemma GET_TAG_bits: "GET_TAG a = push_bit 11 (drop_bit 11 a)"
proof -
  have "(of_nat CACHE_SET_COUNT * 16 - 1 :: u32) = mask 11" by (simp add: mask_eq_exp_minus_1)
  then have "GET_TAG a = a AND NOT (mask 11)" by (simp only: GET_TAG_def)
  also have "\<dots> = push_bit 11 (drop_bit 11 a)"
    by (rule bit_word_eqI) (auto simp: bit_simps simp del: mask_numeral)
  finally show ?thesis .
qed

lemma unat_GET_TAG: "unat (GET_TAG a) = unat a div 2048 * 2048"
proof -
  have "unat a div 2048 * 2048 < 2 ^ 32"
    using unsigned_less [of a, where ?'a = nat] by (auto intro: le_less_trans [OF div_times_less_eq_dividend])
  then show ?thesis using unsigned_less [of a, where ?'a = nat]
    unfolding GET_TAG_bits unsigned_push_bit_eq unsigned_drop_bit_eq
    by (simp add: push_bit_eq_mult drop_bit_eq_div take_bit_eq_mod)
qed

lemma GET_SET_less [simp]: "GET_SET a < 128"
  by (simp add: unat_GET_SET)

abbreviation offset :: "u32 \<Rightarrow> nat" where "offset a \<equiv> unat (a AND 15)"

lemma offset_less: "offset a < 16"
  by (simp add: unat_and_15)

text \<open>A line address is the tag and the set together.\<close>

lemma aligned_tag:
  assumes "GET_TAG t = t"
  obtains k where "unat t = 2048 * k" "k < 2097152"
proof
  show "unat t = 2048 * (unat t div 2048)" using assms unat_GET_TAG [of t] by simp
  then show "unat t div 2048 < 2097152" using unsigned_less [of t, where ?'a = nat] by simp
qed

lemma line_address_iff:
  assumes "GET_TAG t = t" "row < 128"
  shows "unat t + 16 * row \<le> unat a \<and> unat a < unat t + 16 * row + 16 \<longleftrightarrow> GET_TAG a = t \<and> GET_SET a = row"
proof -
  obtain k where k: "unat t = 2048 * k" by (rule aligned_tag [OF assms(1)])
  let ?n = "unat a"
  have "2048 * k + 16 * row \<le> ?n \<and> ?n < 2048 * k + 16 * row + 16 \<longleftrightarrow> ?n div 16 = 128 * k + row"
    by auto
  also have "\<dots> \<longleftrightarrow> ?n div 16 div 128 = k \<and> ?n div 16 mod 128 = row"
    using assms(2) by auto
  finally show ?thesis unfolding word_unat_eq_iff unat_GET_TAG unat_GET_SET k
    by (simp flip: div_mult2_eq)
qed

lemma unat_line_address:
  assumes "GET_TAG (c_Tags c row way) = c_Tags c row way" "row < 128"
  shows "unat (line_address c row way) = unat (c_Tags c row way) + 16 * row"
    "unat (c_Tags c row way) + 16 * row + 16 \<le> 2 ^ 32"
proof -
  obtain k where k: "unat (c_Tags c row way) = 2048 * k" "k < 2097152" by (rule aligned_tag [OF assms(1)])
  show u: "unat (c_Tags c row way) + 16 * row + 16 \<le> 2 ^ 32" using assms(2) k by simp
  have "unat (push_bit 4 (of_nat row :: u32)) = 16 * row"
    using assms(2) unfolding unsigned_push_bit_eq by (simp add: push_bit_eq_mult take_bit_eq_mod unat_of_nat)
  then show "unat (line_address c row way) = unat (c_Tags c row way) + 16 * row"
    unfolding line_address_def using u by (simp add: unat_word_ariths)
qed

section \<open>Bits of the flags\<close>

lemma dirty_bits:
  "f AND F_DIRTY0 \<noteq> 0 \<longleftrightarrow> bit f 0" "f AND F_DIRTY1 \<noteq> 0 \<longleftrightarrow> bit f 1"
  "f AND F_DIRTY2 \<noteq> 0 \<longleftrightarrow> bit f 2" "f AND F_DIRTY3 \<noteq> 0 \<longleftrightarrow> bit f 3"
  "f AND F_VALID \<noteq> 0 \<longleftrightarrow> bit f 7"
  using and_exp_eq_0_iff_not_bit [of f 0] and_exp_eq_0_iff_not_bit [of f 1]
    and_exp_eq_0_iff_not_bit [of f 2] and_exp_eq_0_iff_not_bit [of f 3]
    and_exp_eq_0_iff_not_bit [of f 7]
  by (simp_all add: F_DIRTY0_def F_DIRTY1_def F_DIRTY2_def F_DIRTY3_def F_VALID_def)

lemma F_VALID_bits [simp]: "bit F_VALID 7" "k < 4 \<Longrightarrow> \<not> bit F_VALID k"
proof -
  have "F_VALID = 2 ^ 7" by (simp add: F_VALID_def)
  then show "bit F_VALID 7" "k < 4 \<Longrightarrow> \<not> bit F_VALID k"
    unfolding \<open>F_VALID = 2 ^ 7\<close> bit_exp_iff by simp_all
qed

section \<open>View and invariant\<close>

definition holds :: "cache \<Rightarrow> u32 \<Rightarrow> nat \<Rightarrow> bool" where
  "holds c a i \<longleftrightarrow> c_Tags c (GET_SET a) i = GET_TAG a \<and> bit (c_Flags c (GET_SET a) i) 7"

definition view :: "cache \<Rightarrow> memory \<Rightarrow> u32 \<Rightarrow> u8" where
  "view c m a = (case find_way c (GET_SET a) (GET_TAG a) of
     Some i \<Rightarrow> c_Lines c (GET_SET a) i (offset a) | None \<Rightarrow> m (ucast a))"

definition cache_ok :: "cache \<Rightarrow> bool" where
  "cache_ok c \<longleftrightarrow>
    (\<forall>row<128. c_WaySelect c row < 255) \<and>
    (\<forall>row<128. \<forall>i<8. \<forall>j<8. bit (c_Flags c row i) 7 \<and> bit (c_Flags c row j) 7 \<and>
      c_Tags c row i = c_Tags c row j \<longrightarrow> i = j) \<and>
    (\<forall>row<128. \<forall>i<8. bit (c_Flags c row i) 7 \<longrightarrow>
      GET_TAG (c_Tags c row i) = c_Tags c row i \<and> c_Tags c row i < 0x01000000)"

definition clean_on :: "(u32 \<Rightarrow> bool) \<Rightarrow> cache \<Rightarrow> memory \<Rightarrow> bool" where
  "clean_on P c m \<longleftrightarrow> (\<forall>a i. P a \<and> i < 8 \<and> holds c a i \<and> \<not> bit (c_Flags c (GET_SET a) i) (offset a div 4) \<longrightarrow>
     c_Lines c (GET_SET a) i (offset a) = m (ucast a))"

definition cache_inv :: "cache \<Rightarrow> memory \<Rightarrow> bool" where
  "cache_inv c m \<longleftrightarrow> cache_ok c \<and> clean_on (\<lambda>_. True) c m"

lemma find_way_iff: "cache_ok c \<Longrightarrow> find_way c (GET_SET a) (GET_TAG a) = Some i \<longleftrightarrow> i < 8 \<and> holds c a i"
proof
  assume "find_way c (GET_SET a) (GET_TAG a) = Some i"
  then show "i < 8 \<and> holds c a i"
    unfolding find_way_def by (auto dest!: find_upt_Some simp: holds_def dirty_bits)
next
  assume ok: "cache_ok c" and h: "i < 8 \<and> holds c a i"
  obtain j where "find_way c (GET_SET a) (GET_TAG a) = Some j"
    using h unfolding find_way_def holds_def
    by (cases "find (\<lambda>i. c_Tags c (GET_SET a) i = GET_TAG a \<and> c_Flags c (GET_SET a) i AND F_VALID \<noteq> 0) ways")
      (auto dest: find_upt_None simp: dirty_bits)
  moreover from this have "j < 8 \<and> holds c a j"
    unfolding find_way_def by (auto dest!: find_upt_Some simp: holds_def dirty_bits)
  ultimately show "find_way c (GET_SET a) (GET_TAG a) = Some i"
    using ok h GET_SET_less [of a] unfolding cache_ok_def holds_def by metis
qed

lemma find_way_None: "cache_ok c \<Longrightarrow> find_way c (GET_SET a) (GET_TAG a) = None \<longleftrightarrow> (\<forall>i<8. \<not> holds c a i)"
  using find_way_iff [of c a] by (metis not_None_eq)

lemma view_hit: "cache_ok c \<Longrightarrow> i < 8 \<Longrightarrow> holds c a i \<Longrightarrow> view c m a = c_Lines c (GET_SET a) i (offset a)"
  using find_way_iff [of c a i] by (simp add: view_def)

lemma view_miss: "cache_ok c \<Longrightarrow> \<forall>i<8. \<not> holds c a i \<Longrightarrow> view c m a = m (ucast a)"
  using find_way_None [of c a] by (simp add: view_def)

lemma holds_unique: "cache_ok c \<Longrightarrow> i < 8 \<Longrightarrow> j < 8 \<Longrightarrow> holds c a i \<Longrightarrow> holds c a j \<Longrightarrow> i = j"
  by (metis find_way_iff option.inject)

section \<open>Writing a line back\<close>

lemma unat_wide [simp]: "unat (ucast (a :: u32) :: u64) = unat a"
  using unsigned_less [of a, where ?'a = nat]
  by (simp add: unsigned_ucast_eq take_bit_nat_eq_self)

lemma poke_line_word:
  fixes la :: u32 and x :: u64
  assumes "unat la + 16 \<le> 2 ^ 32" "k \<le> 12"
  shows "poke m (ucast (la + of_nat k)) (line_bytes c row way k 4) x =
    (if unat la + k \<le> unat x \<and> unat x < unat la + k + 4
     then c_Lines c row way (unat x - unat la) else m x)"
proof -
  have u: "unat (ucast (la + of_nat k) :: u64) = unat la + k"
    using assms by (simp add: unat_word_ariths unat_of_nat)
  have "unat (x - ucast (la + of_nat k)) < 4 \<longleftrightarrow> unat la + k \<le> unat x \<and> unat x < unat la + k + 4"
    using unat_diff_small [of "ucast (la + of_nat k)" 4 x] assms unfolding u by simp
  moreover have "unat (x - ucast (la + of_nat k)) = unat x - unat la - k"
    if "unat la + k \<le> unat x"
    using that u by (simp add: unat_sub word_le_nat_alt)
  ultimately show ?thesis
    by (auto simp: poke_def line_bytes_def)
qed

lemma mod_line:
  fixes n :: nat
  assumes "la = 16 * l" "la \<le> n" "n < la + 16"
  shows "n mod 16 = n - la"
proof -
  obtain d where "n = 16 * l + d" using assms(1,2) le_Suc_ex by blast
  with assms show ?thesis by simp
qed

lemma write_back_line_bytes:
  fixes x :: u64
  assumes "GET_TAG (c_Tags c row way) = c_Tags c row way" "row < 128"
  defines "la \<equiv> unat (c_Tags c row way) + 16 * row"
  shows "write_back_line c row way m x =
    (if la \<le> unat x \<and> unat x < la + 16 \<and> bit (c_Flags c row way) ((unat x - la) div 4)
     then c_Lines c row way (unat x - la) else m x)"
proof -
  let ?la = "unat (line_address c row way)"
  note la = unat_line_address [OF assms(1,2)]
  have b: "?la + 16 \<le> 2 ^ 32" using la by simp
  define w where "w k = (?la + k \<le> unat x \<and> unat x < ?la + k + 4)" for k
  let ?v = "c_Lines c row way (unat x - ?la)"
  have p: "(if d then poke mm (ucast (line_address c row way + of_nat k)) (line_bytes c row way k 4) else mm) x =
      (if d \<and> w k then ?v else mm x)" if "k \<le> 12" for k d mm
    using poke_line_word [OF b that] by (simp add: w_def)
  have p0: "(if d then poke mm (ucast (line_address c row way)) (line_bytes c row way 0 4) else mm) x =
      (if d \<and> w 0 then ?v else mm x)" for d mm
    using p [of 0 d mm] by (simp cong: if_cong)
  have e: "write_back_line c row way m x =
    (if bit (c_Flags c row way) 3 \<and> w 12 then ?v else if bit (c_Flags c row way) 2 \<and> w 8 then ?v
     else if bit (c_Flags c row way) 1 \<and> w 4 then ?v else if bit (c_Flags c row way) 0 \<and> w 0 then ?v
     else m x)"
    using p0 p [of 4] p [of 8] p [of 12]
    by (simp only: write_back_line_def Let_def dirty_bits of_nat_0 of_nat_numeral add_0_right zero_le
        numeral_le_iff semiring_norm simp_thms)
  show ?thesis unfolding la_def la(1) [symmetric]
  proof (cases "?la \<le> unat x \<and> unat x < ?la + 16")
    case False
    then have "\<not> w 0" "\<not> w 4" "\<not> w 8" "\<not> w 12" by (auto simp: w_def)
    with e False show "write_back_line c row way m x =
      (if ?la \<le> unat x \<and> unat x < ?la + 16 \<and> bit (c_Flags c row way) ((unat x - ?la) div 4) then ?v else m x)"
      by auto
  next
    case True
    define d where "d = unat x - ?la"
    have d: "unat x = ?la + d" "d < 16" using True d_def by auto
    have q: "w 0 = (d div 4 = 0)" "w 4 = (d div 4 = 1)" "w 8 = (d div 4 = 2)" "w 12 = (d div 4 = 3)"
      using d by (auto simp: w_def)
    have "d div 4 \<in> {0, 1, 2, 3}" using d(2) by auto
    then show "write_back_line c row way m x =
      (if ?la \<le> unat x \<and> unat x < ?la + 16 \<and> bit (c_Flags c row way) ((unat x - ?la) div 4) then ?v else m x)"
      using True d(1) unfolding e q by (elim insertE) auto
  qed
qed

lemma write_back_line_at:
  assumes "GET_TAG (c_Tags c row way) = c_Tags c row way" "row < 128"
  shows "write_back_line c row way m (ucast a) =
    (if GET_TAG a = c_Tags c row way \<and> GET_SET a = row \<and> bit (c_Flags c row way) (offset a div 4)
     then c_Lines c row way (offset a) else m (ucast a))"
proof -
  let ?la = "unat (c_Tags c row way) + 16 * row"
  obtain k where k: "unat (c_Tags c row way) = 2048 * k" by (rule aligned_tag [OF assms(1)])
  have "?la = 16 * (128 * k + row)" by (simp add: k)
  then have o: "offset a = unat a - ?la" if "?la \<le> unat a" "unat a < ?la + 16"
    unfolding unat_and_15 by (rule mod_line [OF _ that])
  show ?thesis
  proof (cases "?la \<le> unat a \<and> unat a < ?la + 16")
    case True
    then show ?thesis using o line_address_iff [OF assms, of a]
      by (simp add: write_back_line_bytes [OF assms])
  next
    case False
    then have "\<not> (GET_TAG a = c_Tags c row way \<and> GET_SET a = row)" using line_address_iff [OF assms, of a] by blast
    with False show ?thesis by (auto simp: write_back_line_bytes [OF assms])
  qed
qed

text \<open>Writing back never touches the memory above the cached range.\<close>

lemma write_back_line_above:
  fixes x :: u64
  assumes "GET_TAG (c_Tags c row way) = c_Tags c row way" "row < 128"
    "c_Tags c row way < 0x01000000" "0x01000000 \<le> x"
  shows "write_back_line c row way m x = m x"
proof -
  obtain k where k: "unat (c_Tags c row way) = 2048 * k" by (rule aligned_tag [OF assms(1)])
  have "2048 * k < 16777216" using assms(3) k by (simp add: word_less_nat_alt)
  then have "k < 8192" by simp
  with assms(2,4) show ?thesis
    unfolding write_back_line_bytes [OF assms(1,2)] k by (simp add: word_le_nat_alt)
qed

section \<open>Operations on one way\<close>

text \<open>The flags, tags and lines a single-way update leaves.\<close>

lemma way_update_simps [simp]:
  "c_Flags (set_flags row i f c) row' i' = (if row' = row \<and> i' = i then f else c_Flags c row' i')"
  "c_Tags (set_flags row i f c) = c_Tags c" "c_Lines (set_flags row i f c) = c_Lines c"
  "c_WaySelect (set_flags row i f c) = c_WaySelect c"
  "c_Tags (set_tag row i t c) row' i' = (if row' = row \<and> i' = i then t else c_Tags c row' i')"
  "c_Flags (set_tag row i t c) = c_Flags c" "c_Lines (set_tag row i t c) = c_Lines c"
  "c_WaySelect (set_tag row i t c) = c_WaySelect c"
  "c_Tags (set_line row i off bs c) = c_Tags c" "c_Flags (set_line row i off bs c) = c_Flags c"
  "c_WaySelect (set_line row i off bs c) = c_WaySelect c"
  "c_Lines (set_line row i off bs c) row' i' j = (if row' = row \<and> i' = i \<and> off \<le> j \<and> j < off + length bs
     then bs ! (j - off) else c_Lines c row' i' j)"
  "c_Tags (set_ways row w c) = c_Tags c" "c_Flags (set_ways row w c) = c_Flags c"
  "c_Lines (set_ways row w c) = c_Lines c"
  "c_WaySelect (set_ways row w c) row' = (if row' = row then w else c_WaySelect c row')"
  "c_Tags (cache_mark_hit row i c) = c_Tags c" "c_Flags (cache_mark_hit row i c) = c_Flags c"
  "c_Lines (cache_mark_hit row i c) = c_Lines c"
  by (auto simp: set_flags_def set_tag_def set_line_def set_ways_def cache_mark_hit_def Let_def)

text \<open>Only the replacement state of one set changes when a hit is marked.\<close>

lemma view_congr:
  "c_Tags c' = c_Tags c \<Longrightarrow> c_Flags c' = c_Flags c \<Longrightarrow> c_Lines c' = c_Lines c \<Longrightarrow> view c' m a = view c m a"
  by (simp add: view_def find_way_def split: option.split)

lemma holds_congr: "c_Tags c' = c_Tags c \<Longrightarrow> c_Flags c' = c_Flags c \<Longrightarrow> holds c' a i = holds c a i"
  by (simp add: holds_def)

lemma clean_on_congr:
  "c_Tags c' = c_Tags c \<Longrightarrow> c_Flags c' = c_Flags c \<Longrightarrow> c_Lines c' = c_Lines c \<Longrightarrow>
   clean_on P c' m = clean_on P c m"
  by (simp add: clean_on_def holds_def)

lemma mark_hit_select:
  assumes "c_WaySelect c row < 255" "i < 8"
  shows "c_WaySelect (cache_mark_hit row i c) row < 255"
    "bit (c_WaySelect (cache_mark_hit row i c) row) i"
    "row' \<noteq> row \<Longrightarrow> c_WaySelect (cache_mark_hit row i c) row' = c_WaySelect c row'"
proof -
  let ?w = "c_WaySelect c row OR push_bit i 1"
  have f: "drop_bit (32 - 8) (0xffffffff :: u32) = 255" by simp
  have m: "(x :: u32) < 256 \<longleftrightarrow> take_bit 8 x = x" for x
    using less_mask_eq [of x 8] and_mask_less' [of 8 x]
    by (auto simp: take_bit_eq_mask)
  have "take_bit 8 (push_bit i 1 :: u32) = push_bit i 1"
    using assms(2) by (intro bit_word_eqI) (auto simp: bit_simps)
  moreover have "c_WaySelect c row < 256" using assms(1) by (auto intro: less_trans)
  ultimately have "?w < 256" unfolding m take_bit_or by simp
  then have l: "?w \<noteq> 255 \<Longrightarrow> ?w < 255"
    by (simp add: word_less_nat_alt word_unat_eq_iff)
  have o: "push_bit i 1 < (255 :: u32)"
  proof -
    have "i \<in> {0, 1, 2, 3, 4, 5, 6, 7}" using assms(2) by auto
    then show ?thesis by (elim insertE) auto
  qed
  have b: "bit (?w) i" "bit (push_bit i 1 :: u32) i" using assms(2) by (auto simp: bit_simps)
  show "c_WaySelect (cache_mark_hit row i c) row < 255"
    "bit (c_WaySelect (cache_mark_hit row i c) row) i"
    unfolding cache_mark_hit_def Let_def f using l o b by auto
  show "row' \<noteq> row \<Longrightarrow> c_WaySelect (cache_mark_hit row i c) row' = c_WaySelect c row'"
    by (simp add: cache_mark_hit_def Let_def)
qed

lemma get_way:
  assumes "c_WaySelect c row < 255"
  shows "cache_get_way c row < 8" "\<not> bit (c_WaySelect c row) (cache_get_way c row)"
proof -
  let ?w = "c_WaySelect c row"
  obtain i where i: "i < 8" "\<not> bit ?w i"
  proof (rule ccontr)
    assume n: "\<not> thesis"
    have "bit ?w k" if "k < 8" for k using n that \<open>\<And>i. i < 8 \<Longrightarrow> \<not> bit ?w i \<Longrightarrow> thesis\<close> by blast
    then have "take_bit 8 ?w = mask 8" by (intro bit_word_eqI) (auto simp: bit_simps simp del: mask_numeral)
    then have "unat (take_bit 8 ?w) = 255" by (simp add: mask_eq_exp_minus_1)
    then have "unat ?w mod 256 = 255" unfolding unsigned_take_bit_eq unfolding take_bit_eq_mod by simp
    then have "255 \<le> unat ?w" by (metis mod_less_eq_dividend)
    with assms show False by (simp add: word_less_nat_alt)
  qed
  have "bit (NOT ?w) i" using i by (simp add: bit_simps)
  then have "i \<in> set (filter (bit (NOT ?w)) [0..<32])" using i by simp
  then obtain j js where j: "filter (bit (NOT ?w)) [0..<32] = j # js" by (cases "filter (bit (NOT ?w)) [0..<32]") auto
  have "sorted (j # js)" unfolding j [symmetric] by (simp add: sorted_wrt_filter)
  moreover have "i \<in> set (j # js)" unfolding j [symmetric] using i by (simp add: bit_simps)
  ultimately have "j \<le> i" by auto
  have "j \<in> set (filter (bit (NOT ?w)) [0..<32])" unfolding j by simp
  then have "\<not> bit ?w j" by (simp add: bit_simps)
  with \<open>j \<le> i\<close> show "cache_get_way c row < 8" "\<not> bit ?w (cache_get_way c row)"
    using i(1) by (auto simp: cache_get_way_def ffs_def j bit_simps)
qed

section \<open>Emptying and filling a way\<close>

lemma cache_okD:
  assumes "cache_ok c" "row < 128"
  shows "c_WaySelect c row < 255"
    "i < 8 \<Longrightarrow> bit (c_Flags c row i) 7 \<Longrightarrow> GET_TAG (c_Tags c row i) = c_Tags c row i"
    "i < 8 \<Longrightarrow> bit (c_Flags c row i) 7 \<Longrightarrow> c_Tags c row i < 0x01000000"
    "i < 8 \<Longrightarrow> j < 8 \<Longrightarrow> bit (c_Flags c row i) 7 \<Longrightarrow> bit (c_Flags c row j) 7 \<Longrightarrow>
      c_Tags c row i = c_Tags c row j \<Longrightarrow> i = j"
  using assms unfolding cache_ok_def by blast+

text \<open>The memory once a way has been written back, and the cache once it is invalid.\<close>

definition drop_way :: "nat \<Rightarrow> nat \<Rightarrow> cache \<times> memory \<Rightarrow> cache \<times> memory" where
  "drop_way row i = (\<lambda>(c, m). (set_flags row i 0 c,
     if c_Flags c row i AND F_VALID \<noteq> 0 then write_back_line c row i m else m))"

lemma drop_way_ok: "cache_ok c \<Longrightarrow> cache_ok (set_flags row i 0 c)"
  unfolding cache_ok_def by simp

lemma holds_drop:
  "holds (set_flags row i 0 c) a j \<longleftrightarrow> holds c a j \<and> \<not> (GET_SET a = row \<and> j = i)"
  by (auto simp: holds_def)

lemma drop_way_memory:
  assumes "cache_ok c" "row < 128" "i < 8"
  shows "snd (drop_way row i (c, m)) (ucast a) =
    (if GET_SET a = row \<and> holds c a i \<and> bit (c_Flags c row i) (offset a div 4)
     then c_Lines c row i (offset a) else m (ucast a))"
  using write_back_line_at [of c row i m a] cache_okD(2) [OF assms(1,2), of i] assms(2,3)
  by (auto simp: drop_way_def dirty_bits holds_def)

lemma drop_way_above:
  fixes x :: u64
  assumes "cache_ok c" "row < 128" "i < 8" "0x01000000 \<le> x" "drop_way row i (c, m) = (c', m')"
  shows "m' x = m x"
  using write_back_line_above [of c row i x m] cache_okD(2,3) [OF assms(1,2), of i] assms(2-5)
  by (auto simp: drop_way_def dirty_bits)

lemma drop_way_inv:
  assumes "cache_inv c m" "row < 128" "i < 8" "drop_way row i (c, m) = (c', m')"
  shows "cache_inv c' m'" "view c' m' a = view c m a"
    "\<And>a. \<not> (GET_SET a = row \<and> holds c a i) \<Longrightarrow> m' (ucast a) = m (ucast a)"
proof -
  have ok: "cache_ok c" and cl: "clean_on (\<lambda>_. True) c m" using assms(1) by (auto simp: cache_inv_def)
  have c': "c' = set_flags row i 0 c" using assms(4) by (simp add: drop_way_def)
  have m': "m' (ucast a) = (if GET_SET a = row \<and> holds c a i \<and> bit (c_Flags c row i) (offset a div 4)
     then c_Lines c row i (offset a) else m (ucast a))" for a
    using drop_way_memory [OF ok assms(2,3), of m a] assms(4) by simp
  show m: "m' (ucast a) = m (ucast a)" if "\<not> (GET_SET a = row \<and> holds c a i)" for a
    using m' [of a] that by auto
  have ok': "cache_ok c'" unfolding c' by (rule drop_way_ok [OF ok])
  have "clean_on (\<lambda>_. True) c' m'"
    unfolding clean_on_def
  proof (intro allI impI, elim conjE)
    fix a j assume h: "j < 8" "holds c' a j" "\<not> bit (c_Flags c' (GET_SET a) j) (offset a div 4)"
    from h(2) have "holds c a j" "\<not> (GET_SET a = row \<and> j = i)" unfolding c' holds_drop by auto
    then have "m' (ucast a) = m (ucast a)"
      using holds_unique [OF ok h(1) assms(3), of a] by (intro m) blast
    with h \<open>holds c a j\<close> \<open>\<not> (GET_SET a = row \<and> j = i)\<close> cl
    show "c_Lines c' (GET_SET a) j (offset a) = m' (ucast a)"
      unfolding clean_on_def c' by auto
  qed
  with ok' show "cache_inv c' m'" by (simp add: cache_inv_def)
  show "view c' m' a = view c m a"
  proof (cases "\<exists>j<8. holds c a j")
    case False
    then have "\<forall>j<8. \<not> holds c' a j" unfolding c' holds_drop by blast
    moreover have "m' (ucast a) = m (ucast a)" using False m assms(3) by blast
    ultimately show ?thesis using False view_miss [OF ok] view_miss [OF ok'] by simp
  next
    case True
    then obtain j where j: "j < 8" "holds c a j" by blast
    show ?thesis
    proof (cases "GET_SET a = row \<and> j = i")
      case True
      then have "\<forall>k<8. \<not> holds c' a k"
        using holds_unique [OF ok _ assms(3)] j unfolding c' holds_drop by blast
      then have "view c' m' a = m' (ucast a)" by (rule view_miss [OF ok'])
      also have "\<dots> = c_Lines c row i (offset a)"
        using True j cl m' [of a] unfolding clean_on_def by auto
      finally show ?thesis using view_hit [OF ok j] True by simp
    next
      case False
      then have "holds c' a j" using j(2) unfolding c' holds_drop by blast
      then show ?thesis using view_hit [OF ok' j(1)] view_hit [OF ok j] unfolding c' by simp
    qed
  qed
qed

text \<open>A way that holds no line is given the line of an address.\<close>

definition same_line :: "u32 \<Rightarrow> u32 \<Rightarrow> bool" where
  "same_line a x \<longleftrightarrow> GET_SET x = GET_SET a \<and> GET_TAG x = GET_TAG a"

lemma GET_TAG_idem [simp]: "GET_TAG (GET_TAG a) = GET_TAG a"
  by (simp add: word_unat_eq_iff unat_GET_TAG)

lemma GET_TAG_le: "GET_TAG a \<le> a"
  by (simp add: word_le_nat_alt unat_GET_TAG)

lemma line_mask: "(a :: u32) AND 0xfffffff0 = push_bit 4 (drop_bit 4 a)"
proof -
  have "(0xfffffff0 :: u32) = NOT (mask 4)" by (simp add: mask_eq_exp_minus_1)
  then have "a AND 0xfffffff0 = a AND NOT (mask 4)" by (simp only:)
  also have "\<dots> = push_bit 4 (drop_bit 4 a)"
    by (rule bit_word_eqI) (auto simp: bit_simps simp del: mask_numeral)
  finally show ?thesis .
qed

lemma line_of_address: "unat ((a :: u32) AND 0xfffffff0) = 16 * (unat a div 16)"
proof -
  have "unat a div 16 * 16 < 2 ^ 32"
    using unsigned_less [of a, where ?'a = nat] by (auto intro: le_less_trans [OF div_times_less_eq_dividend])
  then show ?thesis
    using unsigned_less [of a, where ?'a = nat]
    unfolding line_mask unsigned_push_bit_eq unsigned_drop_bit_eq
    by (simp add: push_bit_eq_mult drop_bit_eq_div take_bit_eq_mod)
qed

lemma line_base:
  assumes "same_line a x"
  shows "ucast (a AND 0xfffffff0) + of_nat (offset x) = (ucast x :: u64)"
proof -
  note u = line_of_address [of a, unfolded mult.commute [of 16]]
  have "unat x div 16 div 128 = unat a div 16 div 128" "unat x div 16 mod 128 = unat a div 16 mod 128"
    using assms by (auto simp: same_line_def word_unat_eq_iff unat_GET_TAG unat_GET_SET simp flip: div_mult2_eq)
  then have "unat x div 16 = unat a div 16" by (metis div_mult_mod_eq)
  then have "unat a div 16 * 16 + unat x mod 16 = unat x" by (metis div_mult_mod_eq)
  moreover have "unat x < 2 ^ 32" using unsigned_less [of x, where ?'a = nat] by simp
  ultimately show ?thesis
    unfolding word_unat_eq_iff unat_and_15 by (simp add: unat_word_ariths unat_of_nat u)
qed

lemma fill_way:
  assumes "cache_ok c" "a < 0x01000000" "i < 8" "\<not> bit (c_Flags c (GET_SET a) i) 7" "\<forall>j<8. \<not> holds c a j"
    and e: "c_Flags c1 = (c_Flags c)(GET_SET a := (c_Flags c (GET_SET a))(i := F_VALID))"
      "c_Tags c1 = (c_Tags c)(GET_SET a := (c_Tags c (GET_SET a))(i := GET_TAG a))"
      "c_WaySelect c1 = c_WaySelect c"
      "\<forall>row j. \<not> (row = GET_SET a \<and> j = i) \<longrightarrow> c_Lines c1 row j = c_Lines c row j"
  shows "cache_ok c1" "holds c1 x j \<longleftrightarrow> (if GET_SET x = GET_SET a \<and> j = i then same_line a x else holds c x j)"
    "holds c1 a i" "\<not> same_line a x \<Longrightarrow> view c1 m x = view c m x"
    "same_line a x \<Longrightarrow> view c m x = m (ucast x)"
proof -
  have low: "GET_TAG a < 0x01000000" using assms(2) GET_TAG_le by (rule le_less_trans [rotated])
  have n: "\<not> (c_Tags c (GET_SET a) j = GET_TAG a \<and> bit (c_Flags c (GET_SET a) j) 7)" if "j < 8" for j
    using assms(5) that unfolding holds_def by blast
  note D = cache_okD [OF assms(1)]
  show ok1: "cache_ok c1"
    unfolding cache_ok_def
  proof (intro conjI allI impI, goal_cases)
    case (1 row) then show ?case using D(1) by (simp add: e)
  next
    case (2 row j k)
    then show ?case using n [of j] n [of k] D(4) [of row j k]
      by (cases "row = GET_SET a"; cases "j = i"; cases "k = i") (auto simp: e)
  next
    case (3 row j) then show ?case using D(2) [of row j] by (auto simp: e split: if_splits)
  next
    case (4 row j) then show ?case using D(3) [of row j] low by (auto simp: e split: if_splits)
  qed
  show h: "holds c1 x j \<longleftrightarrow> (if GET_SET x = GET_SET a \<and> j = i then same_line a x else holds c x j)" for x j
    by (auto simp: holds_def e same_line_def)
  show "holds c1 a i" by (simp add: h same_line_def)
  show "view c m x = m (ucast x)" if "same_line a x"
    using that assms(5) by (intro view_miss [OF assms(1)]) (auto simp: holds_def same_line_def)
  show "view c1 m x = view c m x" if x: "\<not> same_line a x"
  proof (cases "\<exists>j<8. holds c x j")
    case True
    then obtain j where j: "j < 8" "holds c x j" by blast
    then have "\<not> (GET_SET x = GET_SET a \<and> j = i)" using assms(4) by (auto simp: holds_def)
    then have "holds c1 x j" "c_Lines c1 (GET_SET x) j = c_Lines c (GET_SET x) j" using h j(2) e(4) by auto
    then show ?thesis using view_hit [OF ok1 j(1)] view_hit [OF assms(1) j] by simp
  next
    case False
    then have "\<forall>j<8. \<not> holds c1 x j" using h x by auto
    then show ?thesis using view_miss [OF ok1] view_miss [OF assms(1)] False by simp
  qed
qed

lemma cache_allocate:
  assumes "cache_inv c m" "a < 0x01000000" "\<forall>j<8. \<not> holds c a j"
    and al: "cache_allocate load (GET_SET a) (GET_TAG a) a c m = (i, c1, m1)"
  shows "i < 8" "cache_ok c1" "holds c1 a i" "clean_on (\<lambda>x. load \<or> \<not> same_line a x) c1 m1"
    "load \<or> \<not> same_line a x \<Longrightarrow> view c1 m1 x = view c m x" "c_WaySelect c1 = c_WaySelect c"
    "0x01000000 \<le> z \<Longrightarrow> m1 z = m z"
proof -
  let ?row = "GET_SET a"
  have ok: "cache_ok c" using assms(1) by (simp add: cache_inv_def)
  have i: "i = cache_get_way c ?row" using al by (simp add: cache_allocate_def Let_def)
  show i8: "i < 8" unfolding i by (rule get_way(1) [OF cache_okD(1) [OF ok]]) simp
  obtain c0 where d: "drop_way ?row i (c, m) = (c0, m1)"
    using al by (auto simp: cache_allocate_def Let_def drop_way_def i)
  then have c0: "c0 = set_flags ?row i 0 c" by (simp add: drop_way_def)
  note D = drop_way_inv [OF assms(1) GET_SET_less i8 d]
  show "0x01000000 \<le> z \<Longrightarrow> m1 z = m z" by (rule drop_way_above [OF ok GET_SET_less i8 _ d])
  have ok0: "cache_ok c0" and cl0: "clean_on (\<lambda>_. True) c0 m1" using D(1) by (auto simp: cache_inv_def)
  let ?bs = "peek m1 (ucast (a AND 0xfffffff0)) 16"
  have c1: "c1 = set_tag ?row i (GET_TAG a) (set_flags ?row i F_VALID (if load then set_line ?row i 0 ?bs c else c))"
    using al d by (auto simp: cache_allocate_def Let_def drop_way_def i)
  have n0: "\<forall>j<8. \<not> holds c0 a j" using assms(3) unfolding c0 holds_drop by blast
  have e: "c_Flags c1 = (c_Flags c0)(?row := (c_Flags c0 ?row)(i := F_VALID))"
    "c_Tags c1 = (c_Tags c0)(?row := (c_Tags c0 ?row)(i := GET_TAG a))"
    "c_WaySelect c1 = c_WaySelect c0"
    "\<forall>row j. \<not> (row = ?row \<and> j = i) \<longrightarrow> c_Lines c1 row j = c_Lines c0 row j"
    by (auto simp: c1 c0 fun_eq_iff)
  have f0: "\<not> bit (c_Flags c0 ?row i) 7" by (simp add: c0)
  note F = fill_way [OF ok0 assms(2) i8 f0 n0 e]
  show "cache_ok c1" by (rule F(1))
  show "holds c1 a i" by (rule F(3))
  show "c_WaySelect c1 = c_WaySelect c" by (simp add: c1)
  have ld: "c_Lines c1 ?row i (offset x) = m1 (ucast x)" if "same_line a x" load for x
    using line_base [OF that(1)] that(2) by (simp add: offset_less c1 peek_def)
  show "clean_on (\<lambda>x. load \<or> \<not> same_line a x) c1 m1"
    unfolding clean_on_def
  proof (intro allI impI, elim conjE)
    fix x j assume h: "load \<or> \<not> same_line a x" "j < 8" "holds c1 x j"
      "\<not> bit (c_Flags c1 (GET_SET x) j) (offset x div 4)"
    show "c_Lines c1 (GET_SET x) j (offset x) = m1 (ucast x)"
    proof (cases "GET_SET x = ?row \<and> j = i")
      case True
      with h F(2) [of x j] ld show ?thesis by auto
    next
      case False
      with h(3) have "holds c0 x j" using F(2) [of x j] by auto
      moreover have "c_Flags c1 (GET_SET x) j = c_Flags c0 (GET_SET x) j"
        "c_Lines c1 (GET_SET x) j = c_Lines c0 (GET_SET x) j"
        using False by (auto simp: e(1,4))
      ultimately show ?thesis using h cl0 unfolding clean_on_def by auto
    qed
  qed
  show "view c1 m1 x = view c m x" if "load \<or> \<not> same_line a x"
  proof (cases "same_line a x")
    case True
    then have "holds c1 x i" using F(2) [of x i] by (simp add: same_line_def)
    then have "view c1 m1 x = m1 (ucast x)"
      using view_hit [OF F(1) i8] ld [OF True] True that by (simp add: same_line_def)
    then show ?thesis using F(5) [OF True, of m1] D(2) [of x] by simp
  next
    case False
    then show ?thesis using F(4) [OF False] D(2) by simp
  qed
qed

end
