(* ===== verification/Cache_Access.thy ===== *)
theory Cache_Access
  imports Cache_Inv
begin

text \<open>
  Reads and writes through a cache. \<open>seen\<close> is the memory as an access through one of the
  caches sees it: through the cache below \<open>0x01000000\<close>, directly above. Every access
  keeps the invariant, every read returns the big-endian value of the bytes seen and
  changes nothing that is seen.
\<close>

section \<open>What an access sees\<close>

definition cache_ready :: "cache_type \<Rightarrow> cache_sys \<Rightarrow> bool" where
  "cache_ready type s \<longleftrightarrow> cache_inv (cache_of type s) (phys s)"

definition seen :: "cache_type \<Rightarrow> cache_sys \<Rightarrow> memory" where
  "seen type s x = (if x < 0x01000000 then view (cache_of type s) (phys s) (ucast x) else phys s x)"

definition others :: "cache_type \<Rightarrow> cache_sys \<Rightarrow> cache_sys \<Rightarrow> bool" where
  "others type s s' \<longleftrightarrow> (\<forall>t. t \<noteq> type \<longrightarrow> cache_of t s' = cache_of t s) \<and> set_up s' = set_up s"

definition kept :: "cache_type \<Rightarrow> cache_sys \<Rightarrow> cache_sys \<Rightarrow> bool" where
  "kept type s s' \<longleftrightarrow> cache_ready type s' \<and> seen type s' = seen type s \<and> others type s s'"

definition reads_ok :: "cache_type \<Rightarrow> cache_sys \<Rightarrow> u32 \<Rightarrow> nat \<Rightarrow> 'a::len word \<times> cache_sys \<Rightarrow> bool" where
  "reads_ok type s a n r \<longleftrightarrow> fst r = be_val (peek (seen type s) (ucast a) n) \<and> kept type s (snd r)"

lemma cache_of_with [simp]:
  "cache_of type (with_cache type c s) = c" "type \<noteq> t \<Longrightarrow> cache_of t (with_cache type c s) = cache_of t s"
  "phys (with_cache type c s) = phys s" "cache_of type (s\<lparr>phys := m\<rparr>) = cache_of type s"
  "set_up (with_cache type c s) = set_up s"
  by (cases type; cases t; simp add: cache_of_def with_cache_def)+

lemma kept_refl: "cache_ready type s \<Longrightarrow> kept type s s"
  by (simp add: kept_def others_def)

lemma kept_trans: "kept type s s1 \<Longrightarrow> kept type s1 s2 \<Longrightarrow> kept type s s2"
  by (simp add: kept_def others_def)

lemma narrow_wide [simp]: "(ucast (ucast (a :: u32) :: u64) :: u32) = a"
  by (rule bit_word_eqI) (auto simp: bit_simps)

lemma seen_low: "a < 0x01000000 \<Longrightarrow> seen type s (ucast a) = view (cache_of type s) (phys s) a"
  unfolding seen_def by (simp add: word_less_nat_alt)

lemma wide_add: "a < 0x01000000 \<Longrightarrow> k < 16 \<Longrightarrow> (ucast (a + k :: u32) :: u64) = ucast a + ucast k"
  by (simp add: word_unat_eq_iff word_less_nat_alt unat_word_ariths)

lemma wide_sub: "k \<le> a \<Longrightarrow> (ucast (a - k :: u32) :: u64) = ucast a - ucast k"
  by (simp add: word_unat_eq_iff word_le_nat_alt unat_sub)

lemma seen_high: "0x01000000 \<le> a \<Longrightarrow> peek (phys s) (ucast (a :: u32)) n = peek (seen type s) (ucast a) n" if "n \<le> 16"
proof (rule peek_cong)
  fix i assume a: "0x01000000 \<le> a" "i < n"
  have "unat a < 2 ^ 32" using unsigned_less [of a, where ?'a = nat] by simp
  with a that have "unat (ucast a + of_nat i :: u64) = unat a + i"
    by (simp add: unat_word_ariths unat_of_nat)
  with a show "phys s (ucast a + of_nat i) = seen type s (ucast a + of_nat i)"
    by (auto simp: seen_def word_less_nat_alt word_le_nat_alt)
qed

section \<open>Inside a line\<close>

lemma offset_plus:
  assumes "a < 0x01000000" "offset a + i < 16"
  shows "offset (a + of_nat i) = offset a + i" "same_line a (a + of_nat i)"
    "(ucast a :: u64) + of_nat i = ucast (a + of_nat i)" "a + of_nat i < 0x01000000"
    "unat (a + of_nat i) = unat a + i"
proof -
  have i: "i < 16" using assms(2) by simp
  have u: "unat (a + of_nat i) = unat a + i"
    using assms(1) i by (simp add: word_less_nat_alt unat_word_ariths unat_of_nat)
  then show "unat (a + of_nat i) = unat a + i" .
  show o: "offset (a + of_nat i) = offset a + i"
    using assms(2) unfolding unat_and_15 u by (metis mod_add_left_eq mod_less)
  have d: "(unat a + i) div 16 = unat a div 16"
    using assms(2) i unfolding unat_and_15 by (simp add: div_add1_eq [of "unat a" i])
  have q: "x div 2048 = x div 16 div 128" for x :: nat by (simp add: div_mult2_eq [symmetric])
  show "same_line a (a + of_nat i)"
    unfolding same_line_def word_unat_eq_iff unat_GET_SET unat_GET_TAG u unfolding q d by simp
  show "(ucast a :: u64) + of_nat i = ucast (a + of_nat i)"
    using assms(1) i u by (simp add: word_unat_eq_iff unat_word_ariths unat_of_nat word_less_nat_alt)
  have "unat a div 16 < 1048576" using assms(1) by (simp add: word_less_nat_alt)
  then have "(unat a + i) div 16 < 1048576" by (simp only: d)
  then show "a + of_nat i < 0x01000000" using u unfolding word_less_nat_alt by simp
qed

lemma mark_hit_ok:
  assumes "cache_ok c" "row < 128" "i < 8"
  shows "cache_ok (cache_mark_hit row i c)"
proof -
  have "c_WaySelect (cache_mark_hit row i c) row' < 255" if "row' < 128" for row'
    using mark_hit_select [OF cache_okD(1) [OF assms(1,2)] assms(3)] cache_okD(1) [OF assms(1) that]
    by (cases "row' = row") auto
  then show ?thesis using assms(1) unfolding cache_ok_def by simp
qed

text \<open>The way an access works on, after a hit or an allocation.\<close>

lemma chosen_way:
  assumes "cache_inv c m" "a < 0x01000000"
    and w: "(case find_way c (GET_SET a) (GET_TAG a) of Some way \<Rightarrow> (way, c, m)
       | None \<Rightarrow> cache_allocate load (GET_SET a) (GET_TAG a) a c m) = (i, c1, m1)"
  shows "i < 8" "cache_ok c1" "holds c1 a i" "clean_on (\<lambda>x. load \<or> \<not> same_line a x) c1 m1"
    "load \<or> \<not> same_line a x \<Longrightarrow> view c1 m1 x = view c m x" "0x01000000 \<le> z \<Longrightarrow> m1 z = m z"
proof -
  have ok: "cache_ok c" and cl: "clean_on (\<lambda>_. True) c m" using assms(1) by (auto simp: cache_inv_def)
  have "i < 8 \<and> cache_ok c1 \<and> holds c1 a i \<and> clean_on (\<lambda>x. load \<or> \<not> same_line a x) c1 m1 \<and>
    (load \<or> \<not> same_line a x \<longrightarrow> view c1 m1 x = view c m x) \<and> (0x01000000 \<le> z \<longrightarrow> m1 z = m z)"
  proof (cases "find_way c (GET_SET a) (GET_TAG a)")
    case None
    then have n: "\<forall>j<8. \<not> holds c a j" using find_way_None [OF ok] by blast
    have "cache_allocate load (GET_SET a) (GET_TAG a) a c m = (i, c1, m1)" using w None by simp
    note A = cache_allocate [OF assms(1,2) n this]
    show ?thesis using A(1-4) A(5) [of x] A(7) [of z] by blast
  next
    case (Some j)
    then have "i = j" "c1 = c" "m1 = m" using w by auto
    with Some ok cl find_way_iff [OF ok, of a j] show ?thesis by (auto simp: clean_on_def)
  qed
  then show "i < 8" "cache_ok c1" "holds c1 a i" "clean_on (\<lambda>x. load \<or> \<not> same_line a x) c1 m1"
    "load \<or> \<not> same_line a x \<Longrightarrow> view c1 m1 x = view c m x" "0x01000000 \<le> z \<Longrightarrow> m1 z = m z" by blast+
qed

lemma cache_fetch:
  assumes "cache_ready type s" "a < 0x01000000" "offset a + n \<le> 16" "cache_fetch type a n s = (bs, s')"
  shows "bs = peek (seen type s) (ucast a) n" "kept type s s'"
proof -
  let ?c = "cache_of type s" and ?m = "phys s"
  obtain i c1 m1 where w: "(case find_way ?c (GET_SET a) (GET_TAG a) of Some way \<Rightarrow> (way, ?c, ?m)
       | None \<Rightarrow> cache_allocate True (GET_SET a) (GET_TAG a) a ?c ?m) = (i, c1, m1)"
    using prod_cases3 by blast
  have inv: "cache_inv ?c ?m" using assms(1) by (simp add: cache_ready_def)
  note C = chosen_way [OF inv assms(2) w]
  have s': "s' = (with_cache type (cache_mark_hit (GET_SET a) i c1) s)\<lparr>phys := m1\<rparr>"
    and bs: "bs = line_bytes c1 (GET_SET a) i (offset a) n"
    using assms(4) w by (auto simp: cache_fetch_def Let_def line_bytes_def split: prod.splits)
  have v: "view c1 m1 x = view ?c ?m x" for x by (rule C(5)) simp
  show "bs = peek (seen type s) (ucast a) n"
  proof (rule nth_equalityI)
    fix k assume "k < length bs"
    then have k: "k < n" by (simp add: bs line_bytes_def)
    then have "offset a + k < 16" using assms(3) by simp
    note O = offset_plus [OF assms(2) this]
    have "holds c1 (a + of_nat k) i" using C(3) O(2) by (simp add: holds_def same_line_def)
    from view_hit [OF C(2,1) this, of m1] O v seen_low [OF O(4), of type s]
    have "c_Lines c1 (GET_SET a) i (offset a + k) = seen type s (ucast (a + of_nat k))"
      by (simp add: same_line_def)
    with k O(3) show "bs ! k = peek (seen type s) (ucast a) n ! k"
      by (simp add: bs line_bytes_def peek_def)
  qed (simp add: bs line_bytes_def)
  have "cache_inv (cache_mark_hit (GET_SET a) i c1) m1"
    unfolding cache_inv_def using mark_hit_ok [OF C(2) GET_SET_less C(1)] C(4)
    by (simp add: clean_on_congr [of "cache_mark_hit (GET_SET a) i c1" c1])
  moreover have "view (cache_mark_hit (GET_SET a) i c1) m1 x = view ?c ?m x" for x
    using view_congr [of "cache_mark_hit (GET_SET a) i c1" c1 m1 x] v by simp
  then have "seen type s' x = seen type s x" for x
    using C(6) [of x] by (cases "x < 0x01000000") (simp_all add: seen_def s')
  then have "seen type s' = seen type s" by blast
  ultimately show "kept type s s'"
    by (simp add: kept_def cache_ready_def others_def s')
qed

section \<open>Reads\<close>

text \<open>A read that lies in one line, or above the cached range.\<close>

lemma read_inside:
  assumes "cache_ready type s" "n \<le> 16" "0x01000000 \<le> a \<or> offset a + n \<le> 16"
  shows "reads_ok type s a n (if 0x01000000 \<le> a then (be_val (peek (phys s) (ucast a) n), s)
    else let (bs, s) = cache_fetch type a n s in (be_val bs, s))"
proof (cases "0x01000000 \<le> a")
  case True
  then show ?thesis using kept_refl [OF assms(1)] seen_high [OF assms(2)] by (simp add: reads_ok_def)
next
  case False
  obtain bs s' where f: "cache_fetch type a n s = (bs, s')" by fastforce
  have "a < 0x01000000" "offset a + n \<le> 16" using False assms(3) by auto
  from cache_fetch [OF assms(1) this f] f False show ?thesis by (simp add: reads_ok_def)
qed

text \<open>Putting a value together from two accesses.\<close>

lemma bytes_before:
  assumes "k \<le> a" "a < 0x01000000" "k \<le> 16"
  shows "peek m (ucast (a - k :: u32)) (unat k + n) = peek m (ucast (a - k)) (unat k) @ peek m (ucast a) n"
proof -
  have "ucast (a - k) + of_nat (unat k) = (ucast a :: u64)"
    using assms by (simp add: word_unat_eq_iff word_le_nat_alt unat_sub unat_word_ariths word_less_nat_alt)
  then show ?thesis by (simp add: peek_split)
qed

lemma bytes_after:
  assumes "a < 0x01000000" "k \<le> 16"
  shows "peek m (ucast a) (unat k + n) = peek m (ucast a) (unat k) @ peek m (ucast (a + k :: u32)) n"
proof -
  have "(ucast (a + k) :: u64) = ucast a + of_nat (unat k)"
    using assms by (simp add: word_unat_eq_iff word_less_nat_alt word_le_nat_alt unat_word_ariths)
  then show ?thesis by (simp add: peek_split)
qed

text \<open>
  The first access reads \<open>k\<close> bytes in its low end and the second one the \<open>n\<close> bytes after
  them at its high end, with \<open>p\<close> and \<open>e\<close> bytes around that are shifted out.
\<close>

lemma two_reads:
  fixes f :: "cache_sys \<Rightarrow> 'b::len word \<times> cache_sys" and g :: "cache_sys \<Rightarrow> 'c::len word \<times> cache_sys"
  assumes f: "reads_ok type s (a - p) M (f s)" and g: "\<And>s. cache_ready type s \<Longrightarrow> reads_ok type s (a + k) L (g s)"
    and N: "M = unat p + unat k" "L = n + e" "N = unat k + n"
    and a: "a < 0x01000000" "p \<le> a" "p \<le> 16" "k \<le> 16"
    and len: "8 * M \<le> LENGTH('b)" "8 * L \<le> LENGTH('c)" "LENGTH('a) = 8 * N"
  shows "reads_ok type s a N
    (let (x, s) = f s; (y, s) = g s in (push_bit (8 * n) (ucast x) OR ucast (drop_bit (8 * e) y) :: 'a::len word, s))"
proof -
  obtain x s1 where x: "f s = (x, s1)" by fastforce
  obtain y s2 where y: "g s1 = (y, s2)" by fastforce
  let ?m = "seen type s"
  note f = f [unfolded N] and g = g [unfolded N] and len = len [unfolded N]
  have k1: "kept type s s1" and xv: "x = be_val (peek ?m (ucast (a - p)) (unat p) @ peek ?m (ucast a) (unat k))"
    using f x bytes_before [OF a(2,1,3), of ?m "unat k"] by (auto simp: reads_ok_def)
  have "cache_ready type s1" using k1 by (simp add: kept_def)
  from g [OF this] y k1 have k2: "kept type s1 s2" and "y = be_val (peek ?m (ucast (a + k)) (n + e))"
    by (auto simp: reads_ok_def kept_def)
  then have yv: "y = be_val (peek ?m (ucast (a + k)) n @ peek ?m (ucast (a + k) + of_nat n) e)"
    by (simp add: peek_split)
  have "drop_bit (8 * e) y = be_val (peek ?m (ucast (a + k)) n)"
    using drop_be_val [of "peek ?m (ucast (a + k)) n" "peek ?m (ucast (a + k) + of_nat n) e", where 'a = 'c] len(2)
    unfolding yv by simp
  then have yd: "(ucast (drop_bit (8 * e) y) :: 'a word) = be_val (peek ?m (ucast (a + k)) n)"
    using len(2) by (simp add: ucast_be_val)
  have xd: "(ucast x :: 'a word) = be_val (peek ?m (ucast (a - p)) (unat p) @ peek ?m (ucast a) (unat k))"
    unfolding xv using len(1) by (simp add: ucast_be_val)
  have "push_bit (8 * n) (ucast x) OR ucast (drop_bit (8 * e) y) =
    (be_val (peek ?m (ucast a) (unat k) @ peek ?m (ucast (a + k)) n) :: 'a word)"
    using be_val_join [of "peek ?m (ucast a) (unat k)" "peek ?m (ucast (a + k)) n" "peek ?m (ucast (a - p)) (unat p)", where 'a = 'a]
    unfolding xd yd using len(3) by simp
  then show ?thesis
    using kept_trans [OF k1 k2] x y bytes_after [OF a(1,4), of ?m n]
    by (simp add: reads_ok_def N)
qed

lemma offset_eq: "a AND 15 = k \<longleftrightarrow> offset a = unat k" "k < a AND 15 \<longleftrightarrow> unat k < offset a"
  by (simp_all add: word_unat_eq_iff word_less_nat_alt)

lemma read_8: "cache_ready type s \<Longrightarrow> reads_ok type s a 1 (cache_read_8 type a s)"
  unfolding cache_read_8_def using offset_less [of a] by (intro read_inside) (auto simp: less_Suc_eq_le)

lemma off_le: "a AND 15 = k \<Longrightarrow> k \<le> a" for a k :: u32
  using word_and_le2 [of a 15] by (simp add: word_le_nat_alt)

lemma read_16:
  assumes "cache_ready type s"
  shows "reads_ok type s a 2 (cache_read_16 type a s)"
proof (cases "a < 0x01000000 \<and> 14 < a AND 15")
  case True
  then have "\<not> 0x01000000 \<le> a" by (simp add: not_le)
  with True show ?thesis
    using two_reads [of type s a 0 1 "cache_read_8 type a" 1 1 "cache_read_8 type (a + 1)" 1 0 2, where 'a = 16]
      read_8 [OF assms] read_8 [of type _ "a + 1"]
    by (simp add: cache_read_16_def)
next
  case False
  then have "0x01000000 \<le> a \<or> offset a + 2 \<le> 16" by (auto simp: offset_eq not_less)
  from read_inside [OF assms _ this, where 'a = 16] False show ?thesis
    by (auto simp: cache_read_16_def)
qed

lemma read_32_inside:
  assumes "cache_ready type s" "0x01000000 \<le> a \<or> offset a \<le> 12"
  shows "reads_ok type s a 4 (cache_read_32 type a s)"
proof -
  have "0x01000000 \<le> a \<or> offset a + 4 \<le> 16" using assms(2) by auto
  from read_inside [OF assms(1) _ this, where 'a = 32] assms(2) show ?thesis
    by (subst cache_read_32.simps) (auto simp: offset_eq)
qed

lemma read_32:
  assumes r: "cache_ready type s"
  shows "reads_ok type s a 4 (cache_read_32 type a s)"
proof (cases "0x01000000 \<le> a \<or> offset a \<le> 12")
  case True
  then show ?thesis by (rule read_32_inside [OF r])
next
  case False
  then have a: "a < 0x01000000" "\<not> 0x01000000 \<le> a" and "offset a \<in> {13, 14, 15}" using offset_less [of a] by auto
  then consider "a AND 15 = 13" | "a AND 15 = 14" | "a AND 15 = 15" by (auto simp: offset_eq)
  then show ?thesis
  proof cases
    case 1
    then have "offset (a - 1) \<le> 12" by (simp add: offset_sub)
    moreover have "1 \<le> a" using off_le [OF 1] by (rule order_trans [rotated]) simp
    moreover have "cache_read_32 type a s = (let (x, s) = cache_read_32 type (a - 1) s; (y, s) = cache_read_8 type (a + 3) s
      in (push_bit (8 * 1) (ucast x) OR ucast (drop_bit (8 * 0) y), s))"
      using 1 a by (subst cache_read_32.simps) simp
    ultimately show ?thesis using a(1) read_32_inside [OF r, of "a - 1"] read_8 [of type _ "a + 3"]
      by (simp only:) (rule two_reads [where p = 1 and k = 3 and M = 4 and L = 1]; simp)
  next
    case 2
    then have "cache_read_32 type a s = (let (x, s) = cache_read_16 type a s; (y, s) = cache_read_16 type (a + 2) s
      in (push_bit (8 * 2) (ucast x) OR ucast (drop_bit (8 * 0) y), s))"
      using a by (subst cache_read_32.simps) simp
    then show ?thesis using a(1) read_16 [OF r, of a] read_16 [of type _ "a + 2"]
      by (simp only:) (rule two_reads [where p = 0 and k = 2 and M = 2 and L = 2]; simp)
  next
    case 3
    then have "offset (a + 1) \<le> 12" by (simp add: offset_add)
    moreover have "cache_read_32 type a s = (let (x, s) = cache_read_8 type a s; (y, s) = cache_read_32 type (a + 1) s
      in (push_bit (8 * 3) (ucast x) OR ucast (drop_bit (8 * 1) y), s))"
      using a 3 by (subst cache_read_32.simps) simp
    ultimately show ?thesis using a(1) read_8 [OF r, of a] read_32_inside [of type _ "a + 1"]
      by (simp only:) (rule two_reads [where p = 0 and k = 1 and M = 1 and L = 4]; simp)
  qed
qed

lemma read_64_inside:
  assumes "cache_ready type s" "0x01000000 \<le> a \<or> offset a \<le> 8"
  shows "reads_ok type s a 8 (cache_read_64 type a s)"
proof -
  have "0x01000000 \<le> a \<or> offset a + 8 \<le> 16" using assms(2) by auto
  from read_inside [OF assms(1) _ this, where 'a = 64] assms(2) show ?thesis
    by (subst cache_read_64.simps) (auto simp: offset_eq)
qed

text \<open>Every straddling case of the 64-bit read but one has the shape of \<open>two_reads\<close>.\<close>

lemma read_64:
  assumes r: "cache_ready type s" and n13: "0x01000000 \<le> a \<or> a AND 15 \<noteq> 13"
  shows "reads_ok type s a 8 (cache_read_64 type a s)"
proof (cases "0x01000000 \<le> a \<or> offset a \<le> 8")
  case True
  then show ?thesis by (rule read_64_inside [OF r])
next
  case False
  then have a: "a < 0x01000000" "\<not> 0x01000000 \<le> a" and "offset a \<in> {9, 10, 11, 12, 13, 14, 15}"
    using offset_less [of a] by auto
  then consider "a AND 15 = 9" | "a AND 15 = 10" | "a AND 15 = 11" | "a AND 15 = 12" | "a AND 15 = 14" | "a AND 15 = 15"
    using n13 by (auto simp: offset_eq)
  then show ?thesis
  proof cases
    case 1
    then have "offset (a - 1) \<le> 8" by (simp add: offset_sub)
    moreover have "1 \<le> a" using off_le [OF 1] by (rule order_trans [rotated]) simp
    moreover have "cache_read_64 type a s = (let (x, s) = cache_read_64 type (a - 1) s; (y, s) = cache_read_8 type (a + 7) s
      in (push_bit (8 * 1) (ucast x) OR ucast (drop_bit (8 * 0) y), s))"
      using 1 a by (subst cache_read_64.simps) simp
    ultimately show ?thesis using a(1) read_64_inside [OF r, of "a - 1"] read_8 [of type _ "a + 7"]
      by (simp only:) (rule two_reads [where p = 1 and k = 7 and M = 8 and L = 1]; simp)
  next
    case 2
    then have "offset (a - 2) \<le> 8" by (simp add: offset_sub)
    moreover have "2 \<le> a" using off_le [OF 2] by (rule order_trans [rotated]) simp
    moreover have "cache_read_64 type a s = (let (x, s) = cache_read_64 type (a - 2) s; (y, s) = cache_read_16 type (a + 6) s
      in (push_bit (8 * 2) (ucast x) OR ucast (drop_bit (8 * 0) y), s))"
      using 2 a by (subst cache_read_64.simps) simp
    ultimately show ?thesis using a(1) read_64_inside [OF r, of "a - 2"] read_16 [of type _ "a + 6"]
      by (simp only:) (rule two_reads [where p = 2 and k = 6 and M = 8 and L = 2]; simp)
  next
    case 3
    then have "offset (a - 3) \<le> 8" by (simp add: offset_sub)
    moreover have "3 \<le> a" using off_le [OF 3] by (rule order_trans [rotated]) simp
    moreover have "cache_read_64 type a s = (let (x, s) = cache_read_64 type (a - 3) s; (y, s) = cache_read_32 type (a + 5) s
      in (push_bit (8 * 3) (ucast x) OR ucast (drop_bit (8 * 1) y), s))"
      using 3 a by (subst cache_read_64.simps) simp
    ultimately show ?thesis using a(1) read_64_inside [OF r, of "a - 3"] read_32 [of type _ "a + 5"]
      by (simp only:) (rule two_reads [where p = 3 and k = 5 and M = 8 and L = 4]; simp)
  next
    case 4
    then have "cache_read_64 type a s = (let (x, s) = cache_read_32 type a s; (y, s) = cache_read_32 type (a + 4) s
      in (push_bit (8 * 4) (ucast x) OR ucast (drop_bit (8 * 0) y), s))"
      using a by (subst cache_read_64.simps) simp
    then show ?thesis using a(1) read_32 [OF r, of a] read_32 [of type _ "a + 4"]
      by (simp only:) (rule two_reads [where p = 0 and k = 4 and M = 4 and L = 4]; simp)
  next
    case 5
    then have "offset (a + 2) \<le> 8" by (simp add: offset_add)
    moreover have "cache_read_64 type a s = (let (x, s) = cache_read_16 type a s; (y, s) = cache_read_64 type (a + 2) s
      in (push_bit (8 * 6) (ucast x) OR ucast (drop_bit (8 * 2) y), s))"
      using 5 a by (subst cache_read_64.simps) simp
    ultimately show ?thesis using a(1) read_16 [OF r, of a] read_64_inside [of type _ "a + 2"]
      by (simp only:) (rule two_reads [where p = 0 and k = 2 and M = 2 and L = 8]; simp)
  next
    case 6
    then have "offset (a + 1) \<le> 8" by (simp add: offset_add)
    moreover have "cache_read_64 type a s = (let (x, s) = cache_read_8 type a s; (y, s) = cache_read_64 type (a + 1) s
      in (push_bit (8 * 7) (ucast x) OR ucast (drop_bit (8 * 1) y), s))"
      using 6 a by (subst cache_read_64.simps) simp
    ultimately show ?thesis using a(1) read_8 [OF r, of a] read_64_inside [of type _ "a + 1"]
      by (simp only:) (rule two_reads [where p = 0 and k = 1 and M = 1 and L = 8]; simp)
  qed
qed

text \<open>
  At offset 13 the first two bytes are shifted by 40 and the third one is not read: the
  value is the one of a zero byte, the first two and the last five bytes.
\<close>

lemma read_64_at_13:
  assumes r: "cache_ready type s" and a: "a < 0x01000000" and o: "a AND 15 = 13"
  shows "fst (cache_read_64 type a s) =
      be_val ([0] @ peek (seen type s) (ucast a) 2 @ peek (seen type s) (ucast (a + 3)) 5)"
    "kept type s (snd (cache_read_64 type a s))"
proof -
  obtain x s1 where x: "cache_read_16 type a s = (x, s1)" by fastforce
  obtain y s2 where y: "cache_read_64 type (a + 3) s1 = (y, s2)" by fastforce
  let ?m = "seen type s"
  have e: "cache_read_64 type a s = (push_bit 40 (ucast x) OR drop_bit 24 y, s2)"
    using o not_le [THEN iffD2, OF a] x y by (subst cache_read_64.simps) simp
  have k1: "kept type s s1" and xv: "x = be_val (peek ?m (ucast a) 2)"
    using read_16 [OF r, of a] x by (auto simp: reads_ok_def)
  have r1: "cache_ready type s1" using k1 by (simp add: kept_def)
  have "offset (a + 3) \<le> 8" using o by (simp add: offset_add)
  with read_64_inside [OF r1, of "a + 3"] y k1 have k2: "kept type s1 s2"
    and yv: "y = be_val (peek ?m (ucast (a + 3)) (5 + 3))"
    by (auto simp: reads_ok_def kept_def)
  have "drop_bit 24 y = be_val (peek ?m (ucast (a + 3)) 5)"
    using drop_be_val [of "peek ?m (ucast (a + 3)) 5" "peek ?m (ucast (a + 3) + of_nat 5) 3", where 'a = 64]
    unfolding yv peek_split by simp
  moreover have "(ucast x :: u64) = be_val (peek ?m (ucast a) 2)" unfolding xv by (simp add: ucast_be_val)
  ultimately show "fst (cache_read_64 type a s) =
      be_val ([0] @ peek ?m (ucast a) 2 @ peek ?m (ucast (a + 3)) 5)"
    unfolding e by (simp add: be_val_append)
  show "kept type s (snd (cache_read_64 type a s))" unfolding e using kept_trans [OF k1 k2] by simp
qed

lemma read_128:
  assumes r: "cache_ready type s" and n: "0x01000000 \<le> a \<or> a AND 15 \<notin> {5, 13}"
  shows "u_hi (fst (cache_read_128 type a s)) = be_val (peek (seen type s) (ucast a) 8)"
    "u_lo (fst (cache_read_128 type a s)) = be_val (peek (seen type s) (ucast a + 8) 8)"
    "kept type s (snd (cache_read_128 type a s))"
proof -
  let ?m = "seen type s"
  have "u_hi (fst (cache_read_128 type a s)) = be_val (peek ?m (ucast a) 8) \<and>
    u_lo (fst (cache_read_128 type a s)) = be_val (peek ?m (ucast a + 8) 8) \<and>
    kept type s (snd (cache_read_128 type a s))"
  proof (cases "0x01000000 \<le> a")
    case True
    have "peek (phys s) (ucast a) (8 + 8) = peek ?m (ucast a) (8 + 8)"
      by (rule seen_high) (use True in simp_all)
    then show ?thesis using True kept_refl [OF r]
      unfolding peek_split by (simp add: cache_read_128_def)
  next
    case False
    then have a: "a < 0x01000000" by simp
    show ?thesis
    proof (cases "a AND 15 = 0")
      case True
      obtain bs s' where f: "cache_fetch type a 16 s = (bs, s')" by fastforce
      have "offset a + 16 \<le> 16" using True by simp
      note C = cache_fetch [OF r a this f]
      have "bs = peek ?m (ucast a) (8 + 8)" using C(1) by simp
      then show ?thesis using C(2) f True False unfolding peek_split
        by (simp add: cache_read_128_def)
    next
      case o: False
      obtain h s1 where h: "cache_read_64 type a s = (h, s1)" by fastforce
      obtain l s2 where l: "cache_read_64 type (a + 8) s1 = (l, s2)" by fastforce
      have "reads_ok type s a 8 (h, s1)" using read_64 [OF r, of a] n False h by auto
      then have k1: "kept type s s1" and hv: "h = be_val (peek ?m (ucast a) 8)" by (auto simp: reads_ok_def)
      have r1: "cache_ready type s1" using k1 by (simp add: kept_def)
      have "(a + 8) AND 15 \<noteq> 13"
      proof
        assume x: "(a + 8) AND 15 = 13"
        have "(a + 8 - 8) AND 15 = (13 - 8) AND 15" by (rule offset_sub [OF x])
        with n False show False by simp
      qed
      with read_64 [OF r1, of "a + 8"] l have "reads_ok type s1 (a + 8) 8 (l, s2)" by auto
      then have k2: "kept type s1 s2" and lv: "l = be_val (peek ?m (ucast (a + 8)) 8)"
        using k1 by (auto simp: reads_ok_def kept_def)
      moreover have "(ucast (a + 8) :: u64) = ucast a + 8" using wide_add [OF a, of 8] by simp
      ultimately show ?thesis using h l hv kept_trans [OF k1 k2] o False
        by (simp add: cache_read_128_def)
    qed
  qed
  then show "u_hi (fst (cache_read_128 type a s)) = be_val (peek ?m (ucast a) 8)"
    "u_lo (fst (cache_read_128 type a s)) = be_val (peek ?m (ucast a + 8) 8)"
    "kept type s (snd (cache_read_128 type a s))" by blast+
qed

end
