(* ===== verification/Cache_Store.thy ===== *)
theory Cache_Store
  imports Cache_Access
begin

text \<open>
  Writes through a cache: a write that is done is \<open>poke\<close> on the memory that is seen, and
  the invariant is kept because exactly the longwords it touches are marked dirty, or
  because the memory is written as well.
\<close>

section \<open>The bytes a write covers\<close>

definition covers :: "u32 \<Rightarrow> nat \<Rightarrow> u32 \<Rightarrow> bool" where
  "covers a n x \<longleftrightarrow> same_line a x \<and> offset a \<le> offset x \<and> offset x < offset a + n"

lemma same_line_div: "same_line a x \<longleftrightarrow> unat x div 16 = unat a div 16"
proof -
  have q: "y div 2048 = y div 16 div 128" for y :: nat by (simp add: div_mult2_eq [symmetric])
  show ?thesis unfolding same_line_def word_unat_eq_iff unat_GET_SET unat_GET_TAG q
    by (metis div_mult_mod_eq mult_cancel2 zero_neq_numeral)
qed

lemma same_block:
  fixes u v :: nat
  shows "u = 16 * q + i \<Longrightarrow> v = 16 * q + j \<Longrightarrow> u \<le> v \<and> v < u + n \<longleftrightarrow> i \<le> j \<and> j < i + n"
  by auto

lemma covers_iff:
  assumes "offset a + n \<le> 16"
  shows "covers a n x \<longleftrightarrow> unat a \<le> unat x \<and> unat x < unat a + n"
proof -
  have a: "unat a = 16 * (unat a div 16) + offset a" and x: "unat x = 16 * (unat x div 16) + offset x"
    by (simp_all add: unat_and_15)
  show ?thesis
  proof (cases "unat x div 16 = unat a div 16")
    case True
    have "unat a \<le> unat x \<and> unat x < unat a + n \<longleftrightarrow> offset a \<le> offset x \<and> offset x < offset a + n"
      by (rule same_block [OF a x [unfolded True]])
    with True show ?thesis by (simp add: covers_def same_line_div)
  next
    case False
    then have "unat x div 16 < unat a div 16 \<or> unat a div 16 < unat x div 16" by auto
    then have "\<not> (unat a \<le> unat x \<and> unat x < unat a + n)"
    proof
      assume "unat x div 16 < unat a div 16"
      then have "unat x < unat a" by (rule contrapos_pp) (simp add: div_le_mono not_less)
      then show ?thesis by simp
    next
      assume "unat a div 16 < unat x div 16"
      then have "unat a + n \<le> unat x" using a x assms by linarith
      then show ?thesis by simp
    qed
    with False show ?thesis by (simp add: covers_def same_line_div)
  qed
qed

lemma poke_seen:
  fixes x :: u64
  assumes "a < 0x01000000" "offset a + length bs \<le> 16"
  shows "poke m (ucast a) bs x =
    (if x < 0x01000000 \<and> covers a (length bs) (ucast x) then bs ! (offset (ucast x) - offset a) else m x)"
proof -
  have a: "unat a < 16777216" using assms(1) by (simp add: word_less_nat_alt)
  have r: "unat (x - ucast a) < length bs \<longleftrightarrow> unat a \<le> unat x \<and> unat x < unat a + length bs"
    using unat_diff_small [of "ucast a" "length bs" x] a assms(2) by simp
  have h: "unat x < 16777216" if "unat a \<le> unat x \<and> unat x < unat a + length bs"
  proof -
    have "offset a + (unat x - unat a) < 16" using that assms(2) by linarith
    from offset_plus(4,5) [OF assms(1) this] that show ?thesis
      unfolding word_less_nat_alt by simp
  qed
  show ?thesis
  proof (cases "unat a \<le> unat x \<and> unat x < unat a + length bs")
    case True
    let ?y = "ucast x :: u32"
    have y: "unat ?y = unat x" using h [OF True] by (simp add: unsigned_ucast_eq take_bit_nat_eq_self)
    have c: "covers a (length bs) ?y" using True covers_iff [OF assms(2)] y by simp
    then have "unat ?y div 16 = unat a div 16" by (simp add: covers_def same_line_div)
    then have "offset ?y - offset a = unat x - unat a"
      using div_mult_mod_eq [of "unat ?y" 16] div_mult_mod_eq [of "unat a" 16] unfolding unat_and_15 y by linarith
    moreover have "unat (x - ucast a) = unat x - unat a" using True by (simp add: unat_sub word_le_nat_alt)
    ultimately show ?thesis using True c h [OF True] r by (simp add: poke_def word_less_nat_alt)
  next
    case False
    have "\<not> covers a (length bs) (ucast x)" if "x < 0x01000000"
    proof -
      have "unat (ucast x :: u32) = unat x"
        using that by (simp add: word_less_nat_alt unsigned_ucast_eq take_bit_nat_eq_self)
      with False show ?thesis by (simp add: covers_iff [OF assms(2)])
    qed
    moreover have "\<not> unat (x - ucast a) < length bs" using r False by blast
    ultimately show ?thesis by (auto simp: poke_def)
  qed
qed

section \<open>Dirty bits\<close>

definition marks :: "(u8 \<Rightarrow> u8) \<Rightarrow> u32 \<Rightarrow> nat \<Rightarrow> bool" where
  "marks mark a n \<longleftrightarrow> (\<forall>f k. bit f k \<longrightarrow> bit (mark f) k) \<and>
     (\<forall>f. \<forall>q<4. offset a div 4 \<le> q \<and> q \<le> (offset a + n - 1) div 4 \<longrightarrow> bit (mark f) q)"

lemma word_of_address:
  "drop_bit 2 a AND 3 = of_nat (offset a div 4)"
  "k < 16 \<Longrightarrow> drop_bit 2 (a + of_nat k) AND 3 = (of_nat ((offset a + k) div 4 mod 4) :: u32)"
proof -
  have d: "unat (drop_bit 2 x AND 3) = unat x div 4 mod 4" for x :: u32
    using unsigned_less [of x, where ?'a = nat]
    unfolding mask_simps unsigned_take_bit_eq unsigned_drop_bit_eq unfolding take_bit_eq_mod drop_bit_eq_div by simp
  have m: "n div 4 mod 4 = n mod 16 div 4" for n :: nat
    by (simp add: mod_mult2_eq [of n 4 4, simplified] )
  show "drop_bit 2 a AND 3 = of_nat (offset a div 4)"
    unfolding word_unat_eq_iff d unat_and_15 m by (simp add: unat_of_nat)
  assume k: "k < 16"
  have "unat (a + of_nat k) mod 16 = (unat a mod 16 + k) mod 16"
    using k by (simp add: unat_word_ariths unat_of_nat mod_mod_cancel mod_simps)
  then have "unat (a + of_nat k) div 4 mod 4 = (unat a mod 16 + k) div 4 mod 4"
    unfolding m by simp
  then show "drop_bit 2 (a + of_nat k) AND 3 = (of_nat ((offset a + k) div 4 mod 4) :: u32)"
    unfolding word_unat_eq_iff d unat_and_15 by (simp add: unat_of_nat)
qed

lemma dirty_numerals:
  "bit F_DIRTY0 q \<longleftrightarrow> q = 0" "bit F_DIRTY1 q \<longleftrightarrow> q = 1" "bit F_DIRTY2 q \<longleftrightarrow> q = 2" "bit F_DIRTY3 q \<longleftrightarrow> q = 3"
proof -
  have v: "F_DIRTY0 = 2 ^ 0" "F_DIRTY1 = 2 ^ 1" "F_DIRTY2 = 2 ^ 2" "F_DIRTY3 = 2 ^ 3"
    by (simp_all add: F_DIRTY0_def F_DIRTY1_def F_DIRTY2_def F_DIRTY3_def)
  show "bit F_DIRTY0 q \<longleftrightarrow> q = 0" unfolding v bit_exp_iff by auto
  show "bit F_DIRTY1 q \<longleftrightarrow> q = 1" unfolding v bit_exp_iff by auto
  show "bit F_DIRTY2 q \<longleftrightarrow> q = 2" unfolding v bit_exp_iff by auto
  show "bit F_DIRTY3 q \<longleftrightarrow> q = 3" unfolding v bit_exp_iff by auto
qed

lemma all_less_4: "(\<forall>q<4::nat. P q) \<longleftrightarrow> P 0 \<and> P 1 \<and> P 2 \<and> P 3"
  by (auto simp: numeral_eq_Suc less_Suc_eq)

lemmas dirty_eval = marks_def all_less_4 bit_or_iff dirty_numerals Let_def word_of_address(1)

lemma marks_64: "offset a \<le> 8 \<Longrightarrow> marks (dirty_64 a) a 8"
proof -
  assume "offset a \<le> 8"
  then have "offset a \<in> {0, 1, 2, 3, 4, 5, 6, 7, 8}" by auto
  then show ?thesis using word_of_address(2) [of 7 a]
    by (elim insertE) (simp_all add: dirty_64_def dirty_eval)
qed

lemma marks_32: "offset a \<le> 12 \<Longrightarrow> marks (dirty_32 a) a 4"
proof -
  assume "offset a \<le> 12"
  then have "offset a \<in> {0, 1, 2, 3, 4, 5, 6, 7, 8, 9, 10, 11, 12}" by (auto simp: numeral_eq_Suc le_Suc_eq)
  then show ?thesis using word_of_address(2) [of 3 a]
    by (elim insertE) (simp_all add: dirty_32_def dirty_eval)
qed

lemma marks_16: "offset a \<le> 14 \<Longrightarrow> marks (dirty_16 a) a 2"
proof -
  assume "offset a \<le> 14"
  then have "offset a \<in> {0, 1, 2, 3, 4, 5, 6, 7, 8, 9, 10, 11, 12, 13, 14}" by (auto simp: numeral_eq_Suc le_Suc_eq)
  then show ?thesis using word_of_address(2) [of 1 a]
    by (elim insertE) (simp_all add: dirty_16_def dirty_eval)
qed

lemma marks_8: "marks (dirty_8 a) a 1"
proof -
  have "offset a \<le> 15" using offset_less [of a] by (simp add: less_Suc_eq_le)
  then have "offset a \<in> {0, 1, 2, 3, 4, 5, 6, 7, 8, 9, 10, 11, 12, 13, 14, 15}"
    by (auto simp: numeral_eq_Suc le_Suc_eq)
  then show ?thesis
    by (elim insertE) (simp_all add: dirty_8_def dirty_eval)
qed

lemma marks_128: "offset a = 0 \<Longrightarrow> marks (\<lambda>f. f OR (F_DIRTY0 OR F_DIRTY1 OR F_DIRTY2 OR F_DIRTY3)) a 16"
  by (simp add: dirty_eval)

section \<open>Writes\<close>

lemma cache_put:
  fixes s :: cache_sys and wb :: u8
  assumes c: "cache_ok c" "i < 8" "holds c a i" "clean_on (\<lambda>x. \<not> covers a (length bs) x) c m"
    and a: "a < 0x01000000" "offset a + length bs \<le> 16" "0 < length bs"
    and mk: "marks mark a (length bs)"
    and v: "\<And>x. \<not> covers a (length bs) x \<Longrightarrow> view c m x = view (cache_of type s) (phys s) x"
      "\<And>z. 0x01000000 \<le> z \<Longrightarrow> m z = phys s z"
  defines "s' \<equiv> cache_put type a bs wb mark (i, c, m) s"
  shows "cache_ready type s'" "seen type s' = poke (seen type s) (ucast a) bs" "others type s s'"
proof -
  let ?row = "GET_SET a"
  let ?c1 = "set_line ?row i (offset a) bs (cache_mark_hit ?row i c)"
  define c2 where "c2 = (if wb \<noteq> 0 then set_flags ?row i (mark (c_Flags ?c1 ?row i)) ?c1 else ?c1)"
  define m2 where "m2 = (if wb \<noteq> 0 then m else poke m (ucast a) bs)"
  have s': "s' = (with_cache type c2 s)\<lparr>phys := m2\<rparr>"
    by (simp add: s'_def cache_put_def c2_def m2_def Let_def)
  then show "others type s s'" by (simp add: others_def)
  have fl: "c_Flags c2 row j = (if row = ?row \<and> j = i \<and> wb \<noteq> 0 then mark (c_Flags c row j) else c_Flags c row j)"
    and tg: "c_Tags c2 = c_Tags c" for row j by (auto simp: c2_def)
  have ln: "c_Lines c2 row j k = (if row = ?row \<and> j = i \<and> offset a \<le> k \<and> k < offset a + length bs
     then bs ! (k - offset a) else c_Lines c row j k)" for row j k by (simp add: c2_def)
  have ws: "c_WaySelect c2 row < 255" if "row < 128" for row
    using mark_hit_select [OF cache_okD(1) [OF c(1) GET_SET_less] c(2)] cache_okD(1) [OF c(1) that]
    by (cases "row = ?row") (simp_all add: c2_def)
  have v7: "bit (c_Flags c ?row i) 7" using c(3) by (simp add: holds_def)
  then have f7: "bit (c_Flags c2 row j) 7 = bit (c_Flags c row j) 7" for row j
    using mk by (auto simp: fl marks_def)
  have ok2: "cache_ok c2" using c(1) ws unfolding cache_ok_def f7 tg by blast
  have h2: "holds c2 x j = holds c x j" for x j by (simp add: holds_def f7 tg)
  have at: "j = i \<and> GET_SET x = ?row" if "covers a (length bs) x" "j < 8" "holds c x j" for x j
  proof -
    have "holds c a j" using that by (simp add: covers_def same_line_def holds_def)
    then show ?thesis using holds_unique [OF c(1) that(2) c(2), of a] c(3) that(1)
      by (simp add: covers_def same_line_def)
  qed
  have m2: "m2 (ucast x) = (if wb = 0 \<and> x < 0x01000000 \<and> covers a (length bs) x
      then bs ! (offset x - offset a) else m (ucast x))" for x :: u32
    using poke_seen [OF a(1,2), of m "ucast x"] by (simp add: m2_def word_less_nat_alt)
  have low: "x < 0x01000000" if "covers a (length bs) x" for x
  proof -
    have "unat a \<le> unat x" "unat x < unat a + length bs" using that covers_iff [OF a(2)] by auto
    then have "offset a + (unat x - unat a) < 16" using a(2) by linarith
    from offset_plus(4,5) [OF a(1) this] \<open>unat a \<le> unat x\<close> show ?thesis unfolding word_less_nat_alt by simp
  qed
  have outside: "c_Lines c2 (GET_SET x) j (offset x) = c_Lines c (GET_SET x) j (offset x)"
    if "\<not> covers a (length bs) x" "holds c x j" for x j
    using that v7 c(3) by (auto simp: ln covers_def same_line_def holds_def)
  have inside: "c_Lines c2 (GET_SET x) i (offset x) = bs ! (offset x - offset a)"
    if "covers a (length bs) x" for x
    using that by (simp add: ln covers_def same_line_def)
  have "clean_on (\<lambda>_. True) c2 m2"
    unfolding clean_on_def h2
  proof (intro allI impI, elim conjE)
    fix x j assume h: "j < 8" "holds c x j" "\<not> bit (c_Flags c2 (GET_SET x) j) (offset x div 4)"
    show "c_Lines c2 (GET_SET x) j (offset x) = m2 (ucast x)"
    proof (cases "covers a (length bs) x")
      case True
      have q: "offset a div 4 \<le> offset x div 4" "offset x div 4 \<le> (offset a + length bs - 1) div 4" "offset x div 4 < 4"
        using True offset_less [of x] by (auto simp: covers_def intro!: div_le_mono)
      have "wb = 0"
      proof (rule ccontr)
        assume "wb \<noteq> 0"
        then have "c_Flags c2 (GET_SET x) j = mark (c_Flags c ?row i)" using at [OF True h(1,2)] by (simp add: fl)
        with mk q h(3) show False unfolding marks_def by auto
      qed
      then show ?thesis using inside [OF True] at [OF True h(1,2)] low [OF True] True by (simp add: m2)
    next
      case False
      have "\<not> bit (c_Flags c (GET_SET x) j) (offset x div 4)" using h(3) mk by (auto simp: fl marks_def split: if_splits)
      with c(4) False h have "c_Lines c (GET_SET x) j (offset x) = m (ucast x)" unfolding clean_on_def by blast
      then show ?thesis using outside [OF False h(2)] False by (simp add: m2)
    qed
  qed
  with ok2 show "cache_ready type s'" by (simp add: cache_ready_def cache_inv_def s')
  have w: "view c2 m2 x = (if covers a (length bs) x then bs ! (offset x - offset a)
      else view (cache_of type s) (phys s) x)" for x
  proof (cases "covers a (length bs) x")
    case True
    then have "holds c2 x i" using c(3) h2 by (simp add: covers_def same_line_def holds_def)
    from view_hit [OF ok2 c(2) this] show ?thesis using inside [OF True] True by simp
  next
    case False
    have "view c2 m2 x = view c m x"
    proof (cases "\<exists>j<8. holds c x j")
      case True
      then obtain j where "j < 8" "holds c x j" by blast
      then show ?thesis using view_hit [OF ok2, of j x] view_hit [OF c(1), of j x] outside [OF False] h2 by simp
    next
      case n: False
      then show ?thesis using view_miss [OF ok2, of x] view_miss [OF c(1), of x] h2 False by (simp add: m2)
    qed
    with False v(1) show ?thesis by simp
  qed
  show "seen type s' = poke (seen type s) (ucast a) bs"
  proof
    fix x :: u64
    have "m2 x = phys s x" if "\<not> x < 0x01000000"
      using that v(2) [of x] poke_seen [OF a(1,2), of m x] by (simp add: m2_def)
    then show "seen type s' x = poke (seen type s) (ucast a) bs x"
      unfolding poke_seen [OF a(1,2), of "seen type s" x] by (simp add: seen_def s' w)
  qed
qed

text \<open>
  What every write promises: it returns 0 and changes nothing when the data leaves the
  line or a write-through access misses, and otherwise returns 1 with the bytes stored.
\<close>

definition writes_ok :: "cache_type \<Rightarrow> cache_sys \<Rightarrow> u32 \<Rightarrow> u8 list \<Rightarrow> u8 \<Rightarrow> int \<times> cache_sys \<Rightarrow> bool" where
  "writes_ok type s a bs wb r \<longleftrightarrow>
    (if 16 < offset a + length bs \<or> (wb = 0 \<and> find_way (cache_of type s) (GET_SET a) (GET_TAG a) = None)
     then r = (0, s)
     else fst r = 1 \<and> cache_ready type (snd r) \<and> seen type (snd r) = poke (seen type s) (ucast a) bs \<and>
       others type s (snd r))"

lemma write_ok:
  assumes r: "cache_ready type s" and a: "a < 0x01000000" and bs: "0 < length bs"
    and mk: "offset a + length bs \<le> 16 \<Longrightarrow> marks mark a (length bs)"
    and l: "load \<or> length bs = 16"
    and w: "w = (if 16 < offset a + length bs then (0, s)
      else case cache_store_way type a wb load s of None \<Rightarrow> (0, s)
        | Some w \<Rightarrow> (1, cache_put type a bs wb mark w s))"
  shows "writes_ok type s a bs wb w"
proof (cases "16 < offset a + length bs \<or> (wb = 0 \<and> find_way (cache_of type s) (GET_SET a) (GET_TAG a) = None)")
  case True
  then show ?thesis by (auto simp: writes_ok_def w cache_store_way_def Let_def)
next
  case False
  let ?c = "cache_of type s"
  obtain i c1 m1 where ch: "(case find_way ?c (GET_SET a) (GET_TAG a) of Some way \<Rightarrow> (way, ?c, phys s)
       | None \<Rightarrow> cache_allocate load (GET_SET a) (GET_TAG a) a ?c (phys s)) = (i, c1, m1)"
    using prod_cases3 by blast
  have st: "cache_store_way type a wb load s = Some (i, c1, m1)"
    using ch False by (auto simp: cache_store_way_def Let_def split: option.splits)
  have len: "offset a + length bs \<le> 16" using False by simp
  have inv: "cache_inv ?c (phys s)" using r by (simp add: cache_ready_def)
  note C = chosen_way [OF inv a ch]
  have line: "load \<or> \<not> same_line a x" if "\<not> covers a (length bs) x" for x
    using that l len offset_less [of x] by (auto simp: covers_def)
  have cl: "clean_on (\<lambda>x. \<not> covers a (length bs) x) c1 m1"
    using C(4) line unfolding clean_on_def by blast
  note P = cache_put [OF C(2,1,3) cl a len bs mk [OF len] C(5) [OF line] C(6), of wb]
  from P False show ?thesis by (simp add: writes_ok_def w st)
qed

text \<open>Above the cached range, which the writes do not look at, no way ever holds the address.\<close>

definition write_lost :: "cache_type \<Rightarrow> cache_sys \<Rightarrow> u32 \<Rightarrow> nat \<Rightarrow> u8 \<Rightarrow> int \<times> cache_sys \<Rightarrow> bool" where
  "write_lost type s a n wb r \<longleftrightarrow>
    (if 16 < offset a + n \<or> wb = 0 then r = (0, s)
     else fst r = 1 \<and> (\<forall>x\<ge>0x01000000. seen type (snd r) x = seen type s x))"

lemma high_address_misses:
  assumes "cache_ok c" "0x01000000 \<le> a"
  shows "find_way c (GET_SET a) (GET_TAG a) = None"
proof -
  have "16777216 div 2048 \<le> unat a div 2048" using assms(2) by (intro div_le_mono) (simp add: word_le_nat_alt)
  then have "\<not> GET_TAG a < 0x01000000" by (simp add: word_less_nat_alt unat_GET_TAG)
  then have "\<forall>j<8. \<not> holds c a j"
    using cache_okD(3) [OF assms(1) GET_SET_less] unfolding holds_def by metis
  then show ?thesis using find_way_None [OF assms(1)] by blast
qed

lemma write_beyond:
  assumes r: "cache_ready type s" and a: "0x01000000 \<le> a"
    and w: "w = (if 16 < offset a + length bs then (0, s)
      else case cache_store_way type a wb load s of None \<Rightarrow> (0, s)
        | Some w \<Rightarrow> (1, cache_put type a bs wb mark w s))"
  shows "write_lost type s a (length bs) wb w"
proof -
  let ?c = "cache_of type s"
  have ok: "cache_ok ?c" using r by (simp add: cache_ready_def cache_inv_def)
  note n = high_address_misses [OF ok a]
  show ?thesis
  proof (cases "16 < offset a + length bs \<or> wb = 0")
    case True
    then show ?thesis by (auto simp: write_lost_def w cache_store_way_def n Let_def)
  next
    case False
    obtain i c1 m1 where al: "cache_allocate load (GET_SET a) (GET_TAG a) a ?c (phys s) = (i, c1, m1)" using prod_cases3 by blast
    have i: "i = cache_get_way ?c (GET_SET a)" using al by (simp add: cache_allocate_def Let_def)
    have i8: "i < 8" unfolding i by (rule get_way(1) [OF cache_okD(1) [OF ok GET_SET_less]])
    obtain c0 where d: "drop_way (GET_SET a) i (?c, phys s) = (c0, m1)"
      using al by (auto simp: cache_allocate_def Let_def drop_way_def i)
    have "m1 z = phys s z" if "0x01000000 \<le> z" for z by (rule drop_way_above [OF ok GET_SET_less i8 that d])
    moreover have "w = (1, cache_put type a bs wb mark (i, c1, m1) s)"
      using False n al by (simp add: w cache_store_way_def Let_def)
    moreover have "phys (cache_put type a bs wb mark (i, c1, m1) s) = m1" using False by (simp add: cache_put_def Let_def)
    moreover have "seen type s' x = phys s' x" if "0x01000000 \<le> x" for s' x using that by (simp add: seen_def leD)
    ultimately show ?thesis using False by (auto simp: write_lost_def)
  qed
qed

text \<open>The bytes of a value read back as the value.\<close>

lemma be_val_bytes:
  fixes w :: "'a::len word"
  assumes "LENGTH('a) \<le> 8 * n"
  shows "be_val (be_bytes n w) = w"
proof -
  have "be_val (map (\<lambda>i. ucast (drop_bit (8 * (n - Suc i)) w) :: u8) [n - k..<n]) = take_bit (8 * k) w"
    if "k \<le> n" for k
    using that
  proof (induction k)
    case (Suc k)
    have u: "[n - Suc k..<n] = (n - Suc k) # [n - k..<n]"
      using Suc.prems by (simp add: upt_conv_Cons Suc_diff_Suc)
    have "push_bit (8 * k) (ucast (ucast (drop_bit (8 * k) w) :: u8)) OR take_bit (8 * k) w = take_bit (8 * Suc k) w"
      by (rule bit_word_eqI) (auto simp: bit_simps)
    then show ?case using Suc by (simp add: u)
  qed simp
  from this [of n] assms show ?thesis by (simp add: be_bytes_def take_bit_word_eq_self)
qed

end
