(* ===== verification/Cache_Lines.thy ===== *)
theory Cache_Lines
  imports Cache_Store
begin

text \<open>
  Invalidation, flushing and set-up. Every one of them is a fold of a step that empties
  one way; the lemmas about a step say which lines it drops, and the ones about a fold
  collect them over the ways and the sets.
\<close>

section \<open>Dropping lines\<close>

text \<open>A cache that lost the lines \<open>Q\<close> and is otherwise as before.\<close>

definition dropped :: "(u32 \<Rightarrow> nat \<Rightarrow> bool) \<Rightarrow> cache \<Rightarrow> cache \<Rightarrow> bool" where
  "dropped Q c c' \<longleftrightarrow> c_Tags c' = c_Tags c \<and> c_Lines c' = c_Lines c \<and>
     (\<forall>row i. c_Flags c' row i = c_Flags c row i \<or> c_Flags c' row i = 0) \<and>
     (\<forall>x i. i < 8 \<longrightarrow> holds c' x i = (holds c x i \<and> \<not> Q x i)) \<and>
     ((\<forall>row<128. c_WaySelect c row < 255) \<longrightarrow> (\<forall>row<128. c_WaySelect c' row < 255))"

lemma dropped_refl: "dropped (\<lambda>_ _. False) c c"
  by (simp add: dropped_def)

lemma dropped_trans: "dropped P c c1 \<Longrightarrow> dropped Q c1 c2 \<Longrightarrow> dropped (\<lambda>x i. P x i \<or> Q x i) c c2"
  unfolding dropped_def by (intro conjI) (metis, metis, metis, metis, blast)

lemma dropped_cong: "dropped P c c' \<Longrightarrow> (\<And>x i. i < 8 \<Longrightarrow> holds c x i \<Longrightarrow> P x i = Q x i) \<Longrightarrow> dropped Q c c'"
  unfolding dropped_def by blast

lemma dropped_flags7: "dropped Q c c' \<Longrightarrow> bit (c_Flags c' row i) 7 \<Longrightarrow> c_Flags c' row i = c_Flags c row i"
  unfolding dropped_def by (metis bit_0_eq bot_apply bot_bool_def)

lemma dropped_ok: "cache_ok c \<Longrightarrow> dropped Q c c' \<Longrightarrow> cache_ok c'"
proof -
  assume c: "cache_ok c" and d: "dropped Q c c'"
  note f = dropped_flags7 [OF d]
  have t: "c_Tags c' = c_Tags c" and w: "\<forall>row<128. c_WaySelect c' row < 255"
    using d cache_okD(1) [OF c] unfolding dropped_def by blast+
  show ?thesis unfolding cache_ok_def t using w f cache_okD(2-4) [OF c] by metis
qed

lemma dropped_clean: "clean_on P c m \<Longrightarrow> dropped Q c c' \<Longrightarrow> clean_on P c' m"
proof -
  assume c: "clean_on P c m" and d: "dropped Q c c'"
  show ?thesis unfolding clean_on_def
  proof (intro allI impI, elim conjE)
    fix a i assume h: "P a" "i < 8" "holds c' a i" "\<not> bit (c_Flags c' (GET_SET a) i) (offset a div 4)"
    have "holds c a i" using d h(2,3) unfolding dropped_def by blast
    moreover have "c_Flags c' (GET_SET a) i = c_Flags c (GET_SET a) i"
      using h(3) dropped_flags7 [OF d] by (simp add: holds_def)
    ultimately have "c_Lines c (GET_SET a) i (offset a) = m (ucast a)"
      using c h unfolding clean_on_def by auto
    then show "c_Lines c' (GET_SET a) i (offset a) = m (ucast a)" using d by (simp add: dropped_def)
  qed
qed

lemma dropped_inv: "cache_inv c m \<Longrightarrow> dropped Q c c' \<Longrightarrow> cache_inv c' m"
  using dropped_ok dropped_clean unfolding cache_inv_def by blast

lemma dropped_view:
  assumes c: "cache_ok c" and d: "dropped Q c c'"
  shows "(\<And>i. i < 8 \<Longrightarrow> holds c x i \<Longrightarrow> Q x i) \<Longrightarrow> view c' m x = m (ucast x)"
    "(\<And>i. i < 8 \<Longrightarrow> \<not> Q x i) \<Longrightarrow> view c' m x = view c m x"
proof -
  have c': "cache_ok c'" by (rule dropped_ok [OF c d])
  have h: "i < 8 \<Longrightarrow> holds c' x i = (holds c x i \<and> \<not> Q x i)" and l: "c_Lines c' = c_Lines c" for i
    using d unfolding dropped_def by blast+
  show "view c' m x = m (ucast x)" if "\<And>i. i < 8 \<Longrightarrow> holds c x i \<Longrightarrow> Q x i"
    using that h by (intro view_miss [OF c']) blast
  show "view c' m x = view c m x" if n: "\<And>i. i < 8 \<Longrightarrow> \<not> Q x i"
  proof (cases "\<exists>i<8. holds c x i")
    case True
    then obtain i where "i < 8" "holds c x i" by blast
    then show ?thesis using view_hit [OF c'] view_hit [OF c] h n l by simp
  next
    case False
    then show ?thesis using view_miss [OF c'] view_miss [OF c] h by simp
  qed
qed

section \<open>Invalidation\<close>

lemma and_select: "(w :: u32) < 255 \<Longrightarrow> w AND k < 255"
  by (rule le_less_trans [OF word_and_le2])

lemma invalidate_way_dropped:
  assumes "row < 128"
  shows "dropped (\<lambda>x j. GET_SET x = row \<and> GET_TAG x = tag \<and> j = i) c (invalidate_way row tag i c)"
  unfolding dropped_def invalidate_way_def
  by (auto simp: dirty_bits holds_def intro: and_select)

lemma invalidate_ways_dropped:
  assumes "row < 128"
  shows "dropped (\<lambda>x j. GET_SET x = row \<and> GET_TAG x = tag \<and> j \<in> set L) c (fold (invalidate_way row tag) L c)"
proof (induction L arbitrary: c)
  case Nil
  show ?case using dropped_refl by simp
next
  case (Cons i L)
  from dropped_trans [OF invalidate_way_dropped [OF assms, of tag i c] Cons]
  show ?case by (auto elim: dropped_cong)
qed

text \<open>Emptying ways and sets without a look at the tags.\<close>

lemma set_ways_dropped: "dropped (\<lambda>_ _. False) c (set_ways row 0 c)"
  by (simp add: dropped_def holds_def)

lemma clear_way_dropped: "dropped (\<lambda>x j. GET_SET x = row \<and> j = i) c (set_flags row i 0 c)"
  by (auto simp: dropped_def holds_def)

lemma clear_ways_dropped:
  "dropped (\<lambda>x j. GET_SET x = row \<and> j \<in> set L) c (fold (\<lambda>way. set_flags row way 0) L c)"
proof (induction L arbitrary: c)
  case Nil
  show ?case using dropped_refl by simp
next
  case (Cons i L)
  from dropped_trans [OF clear_way_dropped [of row i c] Cons]
  show ?case by (auto elim: dropped_cong)
qed

lemma clear_rows_dropped:
  "dropped (\<lambda>x j. GET_SET x \<in> set R) c
     (fold (\<lambda>row c. fold (\<lambda>way. set_flags row way 0) ways (set_ways row 0 c)) R c)"
proof (induction R arbitrary: c)
  case Nil
  show ?case using dropped_refl by simp
next
  case (Cons row R)
  from dropped_trans [OF dropped_trans [OF set_ways_dropped [of c row] clear_ways_dropped [of row ways]] Cons]
  show ?case by (auto elim: dropped_cong)
qed

lemma wide_narrow: "(x :: u64) < 0x01000000 \<Longrightarrow> ucast (ucast x :: u32) = x"
proof -
  assume "x < 0x01000000"
  then have "unat (ucast x :: u32) = unat x"
    by (simp add: word_less_nat_alt unsigned_ucast_eq take_bit_nat_eq_self)
  then show ?thesis unfolding word_unat_eq_iff unat_wide .
qed

lemma seen_dropped:
  assumes "cache_ready type s" "dropped Q (cache_of type s) c'"
  defines "s' \<equiv> with_cache type c' s"
  shows "cache_ready type s'" "others type s s'" "phys s' = phys s"
    "(\<And>x. x < 0x01000000 \<Longrightarrow> (\<forall>i<8. holds (cache_of type s) (ucast x) i \<longrightarrow> Q (ucast x) i = P x)) \<Longrightarrow>
     seen type s' x = (if x < 0x01000000 \<and> P x then phys s x else seen type s x)"
proof -
  have inv: "cache_inv (cache_of type s) (phys s)" using assms(1) by (simp add: cache_ready_def)
  then have ok: "cache_ok (cache_of type s)" by (simp add: cache_inv_def)
  show "cache_ready type s'" unfolding cache_ready_def s'_def using dropped_inv [OF inv assms(2)] by simp
  show "others type s s'" "phys s' = phys s" by (simp_all add: others_def s'_def)
  assume q: "\<And>x. x < 0x01000000 \<Longrightarrow> (\<forall>i<8. holds (cache_of type s) (ucast x) i \<longrightarrow> Q (ucast x) i = P x)"
  define Q' where "Q' = (\<lambda>a i. Q a i \<and> holds (cache_of type s) a i)"
  have d: "dropped Q' (cache_of type s) c'" by (rule dropped_cong [OF assms(2)]) (simp add: Q'_def)
  note V = dropped_view [OF ok d, of "ucast x" "phys s"]
  show "seen type s' x = (if x < 0x01000000 \<and> P x then phys s x else seen type s x)"
  proof (cases "x < 0x01000000")
    case True
    have w: "ucast (ucast x :: u32) = x"
      by (rule wide_narrow [OF True])
    show ?thesis
    proof (cases "P x")
      case p: True
      have "view c' (phys s) (ucast x) = phys s (ucast (ucast x :: u32))"
        by (rule V(1)) (use q [OF True] p in \<open>auto simp: Q'_def\<close>)
      then show ?thesis using True p w by (simp add: seen_def s'_def)
    next
      case False
      have "view c' (phys s) (ucast x) = view (cache_of type s) (phys s) (ucast x)"
        by (rule V(2)) (use q [OF True] False in \<open>auto simp: Q'_def\<close>)
      then show ?thesis using True False by (simp add: seen_def s'_def)
    qed
  next
    case False
    then show ?thesis by (simp add: seen_def s'_def)
  qed
qed

lemma invalidate_line:
  assumes "cache_ready type s"
  shows "cache_ready type (cache_invalidate_line type a s)" "others type s (cache_invalidate_line type a s)"
    "phys (cache_invalidate_line type a s) = phys s"
    "seen type (cache_invalidate_line type a s) x =
      (if x < 0x01000000 \<and> same_line a (ucast x) then phys s x else seen type s x)"
proof -
  note D = seen_dropped [OF assms invalidate_ways_dropped [OF GET_SET_less [of a], of "GET_TAG a" ways],
      folded cache_invalidate_line_def]
  show "cache_ready type (cache_invalidate_line type a s)" "others type s (cache_invalidate_line type a s)"
    "phys (cache_invalidate_line type a s) = phys s" using D(1-3) by blast+
  show "seen type (cache_invalidate_line type a s) x =
      (if x < 0x01000000 \<and> same_line a (ucast x) then phys s x else seen type s x)"
    by (rule D(4)) (auto simp: same_line_def)
qed

lemma invalidate_all:
  assumes "cache_ready type s"
  shows "cache_ready type (cache_invalidate_all type s)" "others type s (cache_invalidate_all type s)"
    "phys (cache_invalidate_all type s) = phys s" "seen type (cache_invalidate_all type s) = phys s"
proof -
  note D = seen_dropped [OF assms clear_rows_dropped [of rows], folded cache_invalidate_all_def]
  show "cache_ready type (cache_invalidate_all type s)" "others type s (cache_invalidate_all type s)"
    "phys (cache_invalidate_all type s) = phys s" using D(1-3) by blast+
  show "seen type (cache_invalidate_all type s) = phys s"
  proof
    fix x
    have "seen type (cache_invalidate_all type s) x = (if x < 0x01000000 \<and> True then phys s x else seen type s x)"
      by (rule D(4)) simp
    then show "seen type (cache_invalidate_all type s) x = phys s x" by (simp add: seen_def)
  qed
qed

section \<open>Flushing\<close>

text \<open>
  A step that writes a way back and empties it keeps what is seen, changes the memory only
  to what is seen, and drops the way; \<open>flushes\<close> says so of a sequence of such steps.
\<close>

definition flushes :: "(u32 \<Rightarrow> nat \<Rightarrow> bool) \<Rightarrow> cache \<times> memory \<Rightarrow> cache \<times> memory \<Rightarrow> bool" where
  "flushes Q = (\<lambda>(c, m) (c', m'). dropped Q c c' \<and> (cache_inv c m \<longrightarrow> cache_inv c' m' \<and>
     (\<forall>x. view c' m' x = view c m x) \<and> (\<forall>z\<ge>0x01000000. m' z = m z) \<and>
     (\<forall>x. (\<forall>i<8. \<not> Q x i) \<longrightarrow> m' (ucast x) = m (ucast x))))"

lemma flushes_refl: "flushes (\<lambda>_ _. False) cm cm"
  by (cases cm) (simp add: flushes_def dropped_refl)

lemma flushes_trans: "flushes P cm cm1 \<Longrightarrow> flushes Q cm1 cm2 \<Longrightarrow> flushes (\<lambda>x i. P x i \<or> Q x i) cm cm2"
  by (cases cm; cases cm1; cases cm2) (auto simp: flushes_def intro: dropped_trans)

lemma flushes_cong: "flushes P cm cm' \<Longrightarrow> (\<And>x i. i < 8 \<Longrightarrow> P x i = Q x i) \<Longrightarrow> flushes Q cm cm'"
  unfolding flushes_def by (auto elim: dropped_cong)

lemma drop_way_flushes:
  assumes "row < 128" "i < 8"
  shows "flushes (\<lambda>x j. GET_SET x = row \<and> j = i) cm (drop_way row i cm)"
proof (cases cm)
  case (Pair c m)
  obtain c' m' where d: "drop_way row i (c, m) = (c', m')" by fastforce
  have "c' = set_flags row i 0 c" using d by (simp add: drop_way_def)
  then have "dropped (\<lambda>x j. GET_SET x = row \<and> j = i) c c'" by (simp add: clear_way_dropped)
  moreover have "cache_inv c' m' \<and> (\<forall>x. view c' m' x = view c m x) \<and> (\<forall>z\<ge>0x01000000. m' z = m z) \<and>
     (\<forall>x. (\<forall>j<8. \<not> (GET_SET x = row \<and> j = i)) \<longrightarrow> m' (ucast x) = m (ucast x))" if inv: "cache_inv c m"
    using drop_way_inv [OF inv assms d] drop_way_above [OF _ assms _ d] inv assms(2) unfolding cache_inv_def by blast
  ultimately show ?thesis unfolding flushes_def Pair d by simp
qed

lemma write_back_clean:
  "f AND (F_DIRTY0 OR F_DIRTY1 OR F_DIRTY2 OR F_DIRTY3) = 0 \<Longrightarrow> c_Flags c row i = f \<Longrightarrow> write_back_line c row i m = m"
proof -
  assume z: "f AND (F_DIRTY0 OR F_DIRTY1 OR F_DIRTY2 OR F_DIRTY3) = 0" and f: "c_Flags c row i = f"
  have "\<not> bit f k" if "k < 4" for k
  proof
    assume "bit f k"
    moreover have "bit (F_DIRTY0 OR F_DIRTY1 OR F_DIRTY2 OR F_DIRTY3) k"
      using that by (auto simp: bit_or_iff dirty_numerals)
    ultimately have "bit (f AND (F_DIRTY0 OR F_DIRTY1 OR F_DIRTY2 OR F_DIRTY3)) k" by (simp only: bit_and_iff)
    with z show False by simp
  qed
  then show ?thesis by (simp add: write_back_line_def f dirty_bits)
qed

lemma flush_way_drop: "flush_way row i = drop_way row i"
  by (auto simp: fun_eq_iff flush_way_def drop_way_def write_back_clean)

lemma flush_ways_flushes:
  "row < 128 \<Longrightarrow> set L \<subseteq> {..<8} \<Longrightarrow> flushes (\<lambda>x j. GET_SET x = row \<and> j \<in> set L) cm (fold (flush_way row) L cm)"
proof (induction L arbitrary: cm)
  case Nil
  show ?case using flushes_refl by simp
next
  case (Cons i L)
  then have "flushes (\<lambda>x j. GET_SET x = row \<and> j \<in> set L) (flush_way row i cm) (fold (flush_way row) L (flush_way row i cm))"
    by simp
  from flushes_trans [OF drop_way_flushes [OF Cons.prems(1), of i cm] this [unfolded flush_way_drop]] Cons.prems(2)
  show ?case unfolding flush_way_drop by (auto elim: flushes_cong)
qed

lemma reset_ways_flushes: "flushes (\<lambda>_ _. False) (c, m) (set_ways row 0 c, m)"
  using dropped_inv [OF _ set_ways_dropped] dropped_view(2) [OF _ set_ways_dropped]
  unfolding flushes_def cache_inv_def by (auto simp: set_ways_dropped)

lemma flush_rows_flushes:
  "set R \<subseteq> {..<128} \<Longrightarrow> flushes (\<lambda>x j. GET_SET x \<in> set R) cm
     (fold (\<lambda>row (c, m). fold (flush_way row) ways (set_ways row 0 c, m)) R cm)"
proof (induction R arbitrary: cm)
  case Nil
  show ?case using flushes_refl by simp
next
  case (Cons row R)
  obtain c m where cm: "cm = (c, m)" by fastforce
  have "row < 128" using Cons.prems by simp
  then have "flushes (\<lambda>x j. GET_SET x = row \<and> j < 8) cm (fold (flush_way row) ways (set_ways row 0 c, m))"
    using flushes_trans [OF reset_ways_flushes flush_ways_flushes [of row ways], of c m row] unfolding cm
    by (auto elim: flushes_cong simp: subset_eq)
  from flushes_trans [OF this Cons.IH] Cons.prems show ?case unfolding cm by (auto elim: flushes_cong)
qed

lemma flush_matching_flushes:
  assumes "row < 128" "i < 8"
  shows "flushes (\<lambda>x j. GET_SET x = row \<and> GET_TAG x = tag \<and> j = i) cm (flush_matching_way row tag i cm)"
proof (cases cm)
  case (Pair c m)
  show ?thesis
  proof (cases "c_Tags c row i = tag \<and> c_Flags c row i AND F_VALID \<noteq> 0")
    case False
    then have "dropped (\<lambda>x j. GET_SET x = row \<and> GET_TAG x = tag \<and> j = i) c c"
      by (auto simp: dropped_def holds_def dirty_bits)
    moreover have "flush_matching_way row tag i cm = (c, m)"
      unfolding Pair flush_matching_way_def prod.case using False by (simp only: if_False)
    ultimately show ?thesis by (simp add: Pair flushes_def)
  next
    case True
    let ?c = "set_flags row i 0 c" and ?w = "c_WaySelect c row AND NOT (push_bit i 1)"
    have e: "flush_matching_way row tag i cm = (set_ways row ?w ?c, write_back_line c row i m)"
      and d: "drop_way row i (c, m) = (?c, write_back_line c row i m)"
      using True by (simp_all add: Pair flush_matching_way_def drop_way_def)
    have w: "dropped (\<lambda>_ _. False) ?c (set_ways row ?w ?c)"
      by (auto simp: dropped_def holds_def intro: and_select)
    have dr: "dropped (\<lambda>x j. GET_SET x = row \<and> GET_TAG x = tag \<and> j = i) c (set_ways row ?w ?c)"
      by (rule dropped_cong [OF dropped_trans [OF clear_way_dropped w]]) (use True in \<open>auto simp: holds_def\<close>)
    have "cache_inv (set_ways row ?w ?c) (write_back_line c row i m) \<and>
      (\<forall>x. view (set_ways row ?w ?c) (write_back_line c row i m) x = view c m x) \<and>
      (\<forall>z\<ge>0x01000000. write_back_line c row i m z = m z) \<and>
      (\<forall>x. (\<forall>j<8. \<not> (GET_SET x = row \<and> GET_TAG x = tag \<and> j = i)) \<longrightarrow> write_back_line c row i m (ucast x) = m (ucast x))"
      if inv: "cache_inv c m"
    proof -
      note D = drop_way_inv [OF inv assms d]
      have ok: "cache_ok ?c" using D(1) by (simp add: cache_inv_def)
      have "\<not> (GET_SET x = row \<and> holds c x i)" if "\<forall>j<8. \<not> (GET_SET x = row \<and> GET_TAG x = tag \<and> j = i)" for x
        using that assms(2) True by (auto simp: holds_def)
      moreover have "cache_ok c" using inv by (simp add: cache_inv_def)
      ultimately show ?thesis
        using D dropped_inv [OF D(1) w] dropped_view(2) [OF ok w] drop_way_above [OF _ assms _ d] by simp
    qed
    with dr show ?thesis unfolding flushes_def e unfolding Pair prod.case by blast
  qed
qed

lemma flush_line_flushes:
  "row < 128 \<Longrightarrow> set L \<subseteq> {..<8} \<Longrightarrow>
   flushes (\<lambda>x j. GET_SET x = row \<and> GET_TAG x = tag \<and> j \<in> set L) cm (fold (flush_matching_way row tag) L cm)"
proof (induction L arbitrary: cm)
  case Nil
  show ?case using flushes_refl by simp
next
  case (Cons i L)
  from flushes_trans [OF flush_matching_flushes [OF Cons.prems(1), of i tag cm] Cons.IH] Cons.prems
  show ?case by (auto elim: flushes_cong)
qed

text \<open>What a flush of the data cache leaves in the memory.\<close>

lemma seen_flushes:
  assumes r: "cache_ready type s" and f: "flushes Q (cache_of type s, phys s) (c', m')"
  defines "s' \<equiv> (with_cache type c' s)\<lparr>phys := m'\<rparr>"
  shows "kept type s s'"
    "x < 0x01000000 \<Longrightarrow> (\<forall>i<8. Q (ucast x) i) \<Longrightarrow> phys s' x = seen type s x"
    "0x01000000 \<le> x \<or> (\<forall>i<8. \<not> Q (ucast x) i) \<Longrightarrow> phys s' x = phys s x"
proof -
  have inv: "cache_inv (cache_of type s) (phys s)" using r by (simp add: cache_ready_def)
  have d: "dropped Q (cache_of type s) c'" and inv': "cache_inv c' m'"
    and v: "view c' m' x = view (cache_of type s) (phys s) x"
    and hi: "0x01000000 \<le> z \<Longrightarrow> m' z = phys s z"
    and out: "\<forall>i<8. \<not> Q x i \<Longrightarrow> m' (ucast x) = phys s (ucast x)" for x z
    using f inv unfolding flushes_def by auto
  have ok': "cache_ok c'" using inv' by (simp add: cache_inv_def)
  have "seen type s' z = seen type s z" for z
    using v hi [of z] by (cases "z < 0x01000000") (simp_all add: seen_def s'_def)
  then show "kept type s s'"
    using inv' unfolding kept_def by (auto simp: cache_ready_def others_def s'_def)
  show "phys s' x = seen type s x" if x: "x < 0x01000000" and q: "\<forall>i<8. Q (ucast x) i"
  proof -
    have "\<forall>i<8. \<not> holds c' (ucast x) i" using d q unfolding dropped_def by blast
    then have "view c' m' (ucast x) = m' (ucast (ucast x :: u32))" by (rule view_miss [OF ok'])
    then show ?thesis using v x wide_narrow [OF x] by (simp add: seen_def s'_def)
  qed
  show "phys s' x = phys s x" if x: "0x01000000 \<le> x \<or> (\<forall>i<8. \<not> Q (ucast x) i)"
  proof (cases "0x01000000 \<le> x")
    case True
    then show ?thesis using hi by (simp add: s'_def)
  next
    case False
    then have "ucast (ucast x :: u32) = x" by (intro wide_narrow) simp
    with out [of "ucast x"] x False show ?thesis by (simp add: s'_def)
  qed
qed

lemma flush_all_data:
  assumes "cache_ready DCACHE s"
  shows "kept DCACHE s (cache_flush_all DCACHE s)" "phys (cache_flush_all DCACHE s) = seen DCACHE s"
proof -
  obtain c' m' where f: "fold (\<lambda>row (c, m). fold (flush_way row) ways (set_ways row 0 c, m)) rows
      (cache_of DCACHE s, phys s) = (c', m')" by fastforce
  have "flushes (\<lambda>x j. GET_SET x \<in> set rows) (cache_of DCACHE s, phys s) (c', m')"
    unfolding f [symmetric] by (rule flush_rows_flushes) auto
  note S = seen_flushes [OF assms this]
  have e: "cache_flush_all DCACHE s = (with_cache DCACHE c' s)\<lparr>phys := m'\<rparr>"
    using f by (simp add: cache_flush_all_def Let_def)
  show "kept DCACHE s (cache_flush_all DCACHE s)" unfolding e by (rule S(1))
  show "phys (cache_flush_all DCACHE s) = seen DCACHE s"
  proof
    fix x :: u64
    show "phys (cache_flush_all DCACHE s) x = seen DCACHE s x"
    proof (cases "x < 0x01000000")
      case True
      then show ?thesis using S(2) [of x] unfolding e by simp
    next
      case False
      then have "0x01000000 \<le> x" by simp
      then show ?thesis using S(3) [of x] False unfolding e seen_def by simp
    qed
  qed
qed

lemma flush_line_data:
  assumes "cache_ready DCACHE s"
  shows "kept DCACHE s (cache_flush_line DCACHE a s)"
    "phys (cache_flush_line DCACHE a s) x =
      (if x < 0x01000000 \<and> same_line a (ucast x) then seen DCACHE s x else phys s x)"
proof -
  obtain c' m' where f: "fold (flush_matching_way (GET_SET a) (GET_TAG a)) ways (cache_of DCACHE s, phys s) = (c', m')"
    by fastforce
  have "flushes (\<lambda>x j. GET_SET x = GET_SET a \<and> GET_TAG x = GET_TAG a \<and> j \<in> set ways) (cache_of DCACHE s, phys s) (c', m')"
    unfolding f [symmetric] by (rule flush_line_flushes) auto
  note S = seen_flushes [OF assms this]
  have e: "cache_flush_line DCACHE a s = (with_cache DCACHE c' s)\<lparr>phys := m'\<rparr>"
    using f by (simp add: cache_flush_line_def Let_def)
  show "kept DCACHE s (cache_flush_line DCACHE a s)" unfolding e by (rule S(1))
  show "phys (cache_flush_line DCACHE a s) x =
      (if x < 0x01000000 \<and> same_line a (ucast x) then seen DCACHE s x else phys s x)"
    using S(2,3) [of x] unfolding e by (auto simp: same_line_def not_less)
qed

section \<open>Ranges\<close>

lemma invalidate_lines:
  assumes "cache_ready type s"
  shows "cache_ready type (fold (cache_invalidate_line type) as s)" "others type s (fold (cache_invalidate_line type) as s)"
    "phys (fold (cache_invalidate_line type) as s) = phys s"
    "seen type (fold (cache_invalidate_line type) as s) x =
      (if x < 0x01000000 \<and> (\<exists>a\<in>set as. same_line a (ucast x)) then phys s x else seen type s x)"
proof -
  have "cache_ready type (fold (cache_invalidate_line type) as s) \<and> others type s (fold (cache_invalidate_line type) as s) \<and>
    phys (fold (cache_invalidate_line type) as s) = phys s \<and>
    seen type (fold (cache_invalidate_line type) as s) x =
      (if x < 0x01000000 \<and> (\<exists>a\<in>set as. same_line a (ucast x)) then phys s x else seen type s x)"
    using assms
  proof (induction as arbitrary: s)
    case Nil
    then show ?case by (simp add: others_def)
  next
    case (Cons a as)
    note I = invalidate_line [OF Cons.prems, of a]
    from Cons.IH [OF I(1)] I(2-4) show ?case by (auto simp: others_def)
  qed
  then show "cache_ready type (fold (cache_invalidate_line type) as s)" "others type s (fold (cache_invalidate_line type) as s)"
    "phys (fold (cache_invalidate_line type) as s) = phys s"
    "seen type (fold (cache_invalidate_line type) as s) x =
      (if x < 0x01000000 \<and> (\<exists>a\<in>set as. same_line a (ucast x)) then phys s x else seen type s x)" by blast+
qed

lemma unat_line_start: "j < 2 ^ 29 \<Longrightarrow> unat (of_nat (16 * j) :: u64) = 16 * j"
  unfolding unat_of_nat by simp

lemma invalidate_from_returns:
  "k \<le> Suc h \<Longrightarrow> h < 2 ^ 28 \<Longrightarrow> invalidate_from type (of_nat (16 * k)) (of_nat (16 * h)) s =
     Some (fold (cache_invalidate_line type) (map (\<lambda>j. of_nat (16 * j)) [k..<Suc h]) s)"
proof (induction "Suc h - k" arbitrary: k s)
  case 0
  then have "\<not> (of_nat (16 * k) \<le> (of_nat (16 * h) :: u64))"
    unfolding word_le_nat_alt using unat_line_start [of k] unat_line_start [of h] by simp
  then show ?case using 0 by (subst invalidate_from.simps) simp
next
  case (Suc n)
  then have k: "k \<le> h" by simp
  then have "of_nat (16 * k) \<le> (of_nat (16 * h) :: u64)"
    unfolding word_le_nat_alt using Suc.prems unat_line_start [of k] unat_line_start [of h] by simp
  moreover have "(of_nat (16 * k) + 16 :: u64) = of_nat (16 * Suc k)" by simp
  moreover have "(ucast (of_nat (16 * k) :: u64) :: u32) = of_nat (16 * k)"
    unfolding word_unat_eq_iff unsigned_ucast_eq
    using unat_line_start [of k] k Suc.prems(2) by (simp only: unat_of_nat) (simp add: take_bit_eq_mod)
  moreover have "[k..<Suc h] = k # [Suc k..<Suc h]" using k by (simp add: upt_conv_Cons)
  moreover have "invalidate_from type (of_nat (16 * Suc k)) (of_nat (16 * h)) s1 =
     Some (fold (cache_invalidate_line type) (map (\<lambda>j. of_nat (16 * j)) [Suc k..<Suc h]) s1)" for s1
    by (rule Suc.hyps(1)) (use Suc.hyps(2) k Suc.prems(2) in simp_all)
  ultimately show ?case
    by (subst invalidate_from.simps) (simp only: if_True list.map fold.simps comp_apply)
qed

lemma invalidate_range:
  fixes a n :: u32
  assumes "cache_ready type s"
  defines "lo \<equiv> unat a div 16" and "hi \<equiv> unat (a + n - 1) div 16"
  shows "\<exists>s'. cache_invalidate_range type a n s = Some s' \<and> cache_ready type s' \<and> others type s s' \<and> phys s' = phys s \<and>
    (\<forall>x. seen type s' x = (if x < 0x01000000 \<and> lo \<le> unat x div 16 \<and> unat x div 16 \<le> hi
       then phys s x else seen type s x))"
proof -
  have b: "unat (z :: u32) div 16 < 2 ^ 28" for z
    using unsigned_less [of z, where ?'a = nat] by (simp add: div_less_iff_less_mult)
  have w: "ucast (z AND 0xfffffff0 :: u32) = (of_nat (16 * (unat z div 16)) :: u64)" for z
    unfolding word_unat_eq_iff unat_wide line_of_address using unat_line_start [of "unat z div 16"] b [of z] by simp
  define as where "as = map (\<lambda>j. of_nat (16 * j) :: u32) [lo..<Suc hi]"
  have "cache_invalidate_range type a n s = Some (fold (cache_invalidate_line type) as s)"
  proof (cases "lo \<le> Suc hi")
    case True
    then show ?thesis unfolding cache_invalidate_range_def w lo_def [symmetric] hi_def [symmetric] as_def
      by (rule invalidate_from_returns) (use b in \<open>simp add: hi_def\<close>)
  next
    case False
    then have "\<not> of_nat (16 * lo) \<le> (of_nat (16 * hi) :: u64)"
      unfolding word_le_nat_alt using unat_line_start [of lo] unat_line_start [of hi] b [of a] b [of "a + n - 1"]
      by (simp add: lo_def hi_def)
    moreover have "as = []" using False by (simp add: as_def)
    ultimately show ?thesis unfolding cache_invalidate_range_def w lo_def [symmetric] hi_def [symmetric]
      by (subst invalidate_from.simps) simp
  qed
  moreover have "(\<exists>y\<in>set as. same_line y (ucast x)) \<longleftrightarrow> lo \<le> unat x div 16 \<and> unat x div 16 \<le> hi"
    if x: "x < 0x01000000" for x :: u64
  proof -
    have n: "unat (ucast x :: u32) = unat x" using wide_narrow [OF x] by (metis unat_wide)
    have u: "unat (of_nat (16 * j) :: u32) = 16 * j" if "j \<le> hi" for j
      using that b [of "a + n - 1"] unfolding unat_of_nat hi_def by simp
    show ?thesis unfolding same_line_div n as_def using u by auto
  qed
  ultimately show ?thesis using invalidate_lines [OF assms(1), of as] by auto
qed

section \<open>Set-up\<close>

lemma clear_tags_dropped:
  "c_Flags (fold (\<lambda>j c. set_tag i j 0 (set_flags i j 0 c)) L c) r w = (if r = i \<and> w \<in> set L then 0 else c_Flags c r w)"
  "c_WaySelect (fold (\<lambda>j c. set_tag i j 0 (set_flags i j 0 c)) L c) = c_WaySelect c"
  by (induction L arbitrary: c) auto

lemma setup_folds:
  assumes "fold (\<lambda>i (ic, dc). (fold (\<lambda>j ic. set_tag i j 0 (set_flags i j 0 ic)) ways (set_ways i 0 ic), set_ways i 0 dc))
      R (ic, dc) = (ic', dc')"
  shows "c_Flags ic' r w = (if r \<in> set R \<and> w < 8 then 0 else c_Flags ic r w)"
    "c_WaySelect ic' r = (if r \<in> set R then 0 else c_WaySelect ic r)"
    "c_WaySelect dc' r = (if r \<in> set R then 0 else c_WaySelect dc r)"
    "c_Flags dc' = c_Flags dc" "c_Tags dc' = c_Tags dc" "c_Lines dc' = c_Lines dc"
proof -
  have "c_Flags ic' r w = (if r \<in> set R \<and> w < 8 then 0 else c_Flags ic r w) \<and>
    c_WaySelect ic' r = (if r \<in> set R then 0 else c_WaySelect ic r) \<and>
    c_WaySelect dc' r = (if r \<in> set R then 0 else c_WaySelect dc r) \<and>
    c_Flags dc' = c_Flags dc \<and> c_Tags dc' = c_Tags dc \<and> c_Lines dc' = c_Lines dc"
    using assms
  proof (induction R arbitrary: ic dc)
    case (Cons i R)
    from Cons.IH [of "fold (\<lambda>j ic. set_tag i j 0 (set_flags i j 0 ic)) ways (set_ways i 0 ic)" "set_ways i 0 dc"] Cons.prems
    show ?case by (auto simp: clear_tags_dropped simp del: upt_Suc)
  qed simp
  then show "c_Flags ic' r w = (if r \<in> set R \<and> w < 8 then 0 else c_Flags ic r w)"
    "c_WaySelect ic' r = (if r \<in> set R then 0 else c_WaySelect ic r)"
    "c_WaySelect dc' r = (if r \<in> set R then 0 else c_WaySelect dc r)"
    "c_Flags dc' = c_Flags dc" "c_Tags dc' = c_Tags dc" "c_Lines dc' = c_Lines dc" by blast+
qed

text \<open>A cache without a valid way shows the memory.\<close>

lemma empty_cache:
  assumes "\<forall>row<128. c_WaySelect c row < 255" "\<forall>row<128. \<forall>i<8. \<not> bit (c_Flags c row i) 7"
  shows "cache_inv c m" "view c m a = m (ucast a)"
proof -
  have ok: "cache_ok c" using assms unfolding cache_ok_def by blast
  have h: "\<forall>i<8. \<not> holds c x i" for x using assms(2) GET_SET_less [of x] unfolding holds_def by blast
  show "view c m a = m (ucast a)" by (rule view_miss [OF ok h])
  show "cache_inv c m" using ok h unfolding cache_inv_def clean_on_def by blast
qed

end
