(* ===== verification/Cache_Theorems.thy ===== *)
theory Cache_Theorems
  imports Cache_Lines
begin

text \<open>
  The properties of the caches, and the contract under which the translator reads code:
  the locale \<open>byte_reader\<close>, interpreted on the reads of \<open>cache.c\<close>, says that what a read
  returns depends on the memory only, not on the reads before it.
\<close>

section \<open>Readers\<close>

locale byte_reader =
  fixes read :: "u32 \<Rightarrow> 's \<Rightarrow> 'v \<times> 's"
    and ok :: "'s \<Rightarrow> bool"
    and content :: "'s \<Rightarrow> memory"
    and val :: "memory \<Rightarrow> u32 \<Rightarrow> 'v"
  assumes read_value: "ok s \<Longrightarrow> fst (read a s) = val (content s) a"
    and read_ok: "ok s \<Longrightarrow> ok (snd (read a s))"
    and read_content: "ok s \<Longrightarrow> content (snd (read a s)) = content s"
begin

lemma after_reads:
  "ok s \<Longrightarrow> ok (fold (\<lambda>a s. snd (read a s)) as s) \<and> content (fold (\<lambda>a s. snd (read a s)) as s) = content s"
  by (induction as arbitrary: s) (simp_all add: read_ok read_content)

lemma stable: "ok s \<Longrightarrow> fst (read a (fold (\<lambda>a s. snd (read a s)) as s)) = fst (read a s)"
  using after_reads by (simp add: read_value)

end

lemma reads_ok_parts:
  "reads_ok type s a n r \<Longrightarrow> fst r = be_val (peek (seen type s) (ucast a) n)"
  "reads_ok type s a n r \<Longrightarrow> cache_ready type (snd r)"
  "reads_ok type s a n r \<Longrightarrow> seen type (snd r) = seen type s"
  by (simp_all add: reads_ok_def kept_def)

interpretation rd8: byte_reader "cache_read_8 type" "cache_ready type" "seen type" "\<lambda>m a. be_val (peek m (ucast a) 1)"
  for type
  by unfold_locales (use read_8 reads_ok_parts in blast)+

interpretation rd16: byte_reader "cache_read_16 type" "cache_ready type" "seen type" "\<lambda>m a. be_val (peek m (ucast a) 2)"
  for type
  by unfold_locales (use read_16 reads_ok_parts in blast)+

interpretation rd32: byte_reader "cache_read_32 type" "cache_ready type" "seen type" "\<lambda>m a. be_val (peek m (ucast a) 4)"
  for type
  by unfold_locales (use read_32 reads_ok_parts in blast)+

section \<open>Concrete states\<close>

text \<open>Empty caches over a memory whose bytes are the low bytes of their addresses.\<close>

definition blank :: cache where
  "blank = \<lparr>c_Lines = \<lambda>_ _ _. 0, c_Tags = \<lambda>_ _. 0, c_Flags = \<lambda>_ _. 0, c_WaySelect = \<lambda>_. 0\<rparr>"

definition blank_sys :: cache_sys where
  "blank_sys = \<lparr>IC = blank, DC = blank, phys = (\<lambda>x. ucast x), set_up = True\<rparr>"

lemma blank_sys:
  "cache_ready type blank_sys" "seen type blank_sys = phys blank_sys" "phys blank_sys x = ucast x"
proof -
  have b: "cache_of type blank_sys = blank" by (simp add: cache_of_def blank_sys_def)
  have e: "\<forall>row<128. c_WaySelect blank row < 255" "\<forall>row<128. \<forall>i<8. \<not> bit (c_Flags blank row i) 7"
    by (simp_all add: blank_def)
  show "cache_ready type blank_sys" by (simp add: cache_ready_def b empty_cache [OF e])
  show "seen type blank_sys = phys blank_sys"
    by (auto simp: fun_eq_iff seen_def b empty_cache [OF e] wide_narrow)
  show "phys blank_sys x = ucast x" by (simp add: blank_sys_def)
qed

lemma peek_eval:
  "peek m a 1 = [m a]" "peek m a 2 = [m a, m (a + 1)]" "peek m a 4 = [m a, m (a + 1), m (a + 2), m (a + 3)]"
  "peek m a 5 = [m a, m (a + 1), m (a + 2), m (a + 3), m (a + 4)]"
  "peek m a 8 = [m a, m (a + 1), m (a + 2), m (a + 3), m (a + 4), m (a + 5), m (a + 6), m (a + 7)]"
  by (simp_all add: peek_def upt_rec)

section \<open>Properties\<close>

text \<open>
  C21. A read of 8, 16 or 32 bits from any address, of 64 bits from any address but one at
  offset 13 of a line, and of 128 bits from any address but at offset 5 or 13, returns the
  big-endian value of the bytes seen at the address, whatever the cache holds; it keeps
  the invariant, everything that is seen and the other cache.
\<close>

theorem cache_reads_correct:
  assumes "cache_ready type s"
  shows "reads_ok type s a 1 (cache_read_8 type a s) \<and> reads_ok type s a 2 (cache_read_16 type a s) \<and>
    reads_ok type s a 4 (cache_read_32 type a s) \<and>
    (0x01000000 \<le> a \<or> a AND 15 \<noteq> 13 \<longrightarrow> reads_ok type s a 8 (cache_read_64 type a s)) \<and>
    (0x01000000 \<le> a \<or> a AND 15 \<notin> {5, 13} \<longrightarrow>
      u_hi (fst (cache_read_128 type a s)) = be_val (peek (seen type s) (ucast a) 8) \<and>
      u_lo (fst (cache_read_128 type a s)) = be_val (peek (seen type s) (ucast a + 8) 8) \<and>
      kept type s (snd (cache_read_128 type a s)))"
  using read_8 [OF assms] read_16 [OF assms] read_32 [OF assms] read_64 [OF assms] read_128 [OF assms]
  by blast

theorem cache_reads_correct_witness:
  "fst (cache_read_32 ICACHE 0x100d blank_sys) = 0x0d0e0f10 \<and>
   fst (cache_read_64 ICACHE 0x100f blank_sys) = 0x0f10111213141516 \<and>
   u_hi (fst (cache_read_128 ICACHE 0x1002 blank_sys)) = 0x0203040506070809"
proof -
  note C = cache_reads_correct [OF blank_sys(1), of ICACHE]
  have "fst (cache_read_32 ICACHE 0x100d blank_sys) = 0x0d0e0f10"
    using C [of "0x100d"] by (simp add: reads_ok_def blank_sys(2,3) peek_eval)
  moreover have "fst (cache_read_64 ICACHE 0x100f blank_sys) = 0x0f10111213141516"
    using C [of "0x100f"] by (simp add: reads_ok_def blank_sys(2,3) peek_eval)
  moreover have "u_hi (fst (cache_read_128 ICACHE 0x1002 blank_sys)) = 0x0203040506070809"
    using C [of "0x1002"] by (simp add: blank_sys(2,3) peek_eval)
  ultimately show ?thesis by blast
qed


text \<open>The reads through one cache, of any width and at any address.\<close>

datatype cache_read = Read8 u32 | Read16 u32 | Read32 u32 | Read64 u32 | Read128 u32

fun after_read :: "cache_type \<Rightarrow> cache_read \<Rightarrow> cache_sys \<Rightarrow> cache_sys" where
  "after_read type (Read8 a) s = snd (cache_read_8 type a s)"
| "after_read type (Read16 a) s = snd (cache_read_16 type a s)"
| "after_read type (Read32 a) s = snd (cache_read_32 type a s)"
| "after_read type (Read64 a) s = snd (cache_read_64 type a s)"
| "after_read type (Read128 a) s = snd (cache_read_128 type a s)"

lemma read_64_kept: "cache_ready type s \<Longrightarrow> kept type s (snd (cache_read_64 type a s))"
  using read_64 [of type s a] read_64_at_13(2) [of type s a] by (cases "0x01000000 \<le> a \<or> a AND 15 \<noteq> 13") (auto simp: reads_ok_def)

lemma read_128_kept:
  assumes "cache_ready type s"
  shows "kept type s (snd (cache_read_128 type a s))"
proof (cases "0x01000000 \<le> a \<or> a AND 15 = 0")
  case True
  then show ?thesis using read_128(3) [OF assms, of a] by auto
next
  case False
  let ?s1 = "snd (cache_read_64 type a s)"
  have k: "kept type s ?s1" by (rule read_64_kept [OF assms])
  then have "kept type ?s1 (snd (cache_read_64 type (a + 8) ?s1))" by (intro read_64_kept) (simp add: kept_def)
  moreover have "snd (cache_read_128 type a s) = snd (cache_read_64 type (a + 8) ?s1)"
    using False by (simp add: cache_read_128_def case_prod_beta Let_def)
  ultimately show ?thesis using kept_trans [OF k] by simp
qed

lemma after_read_kept: "cache_ready type s \<Longrightarrow> kept type s (after_read type r s)"
  using read_8 read_16 read_32 by (cases r) (simp_all add: reads_ok_def read_64_kept read_128_kept)

lemma after_reads_kept: "cache_ready type s \<Longrightarrow> kept type s (fold (after_read type) rs s)"
proof (induction rs arbitrary: s)
  case (Cons r rs)
  from after_read_kept [OF Cons.prems] have "kept type s (after_read type r s)" .
  then show ?case using Cons.IH [of "after_read type r s"] kept_trans by (auto simp: kept_def)
qed (simp add: kept_refl)

text \<open>
  What an opcode fetch returns does not depend on earlier reads through the same cache:
  after any sequence of reads of all five widths at any addresses, with all the evictions and
  line loads they cause, a 16-bit read returns what it would have returned before them.
\<close>

theorem code_fetch_stable:
  assumes "cache_ready type s"
  shows "fst (cache_read_16 type a (fold (after_read type) rs s)) = fst (cache_read_16 type a s)"
proof -
  have "kept type s (fold (after_read type) rs s)" by (rule after_reads_kept [OF assms])
  then show ?thesis using rd16.read_value [OF assms] rd16.read_value [of type "fold (after_read type) rs s"] by (simp add: kept_def)
qed

theorem code_fetch_stable_witness:
  "fst (cache_read_16 ICACHE 0x1002 (fold (after_read ICACHE) [Read64 0x200d, Read128 0x3005, Read8 0x1002] blank_sys)) =
   fst (cache_read_16 ICACHE 0x1002 blank_sys)"
  by (rule code_fetch_stable [OF blank_sys(1)])

text \<open>
  C16. A write of any width below \<open>0x01000000\<close>, the end of the cached range, either returns 0 and changes nothing (the data would cross the
  end of the line, or the access is write-through and misses) or returns 1, and then the
  memory as seen has the bytes of the value at the address, big endian, and is otherwise
  unchanged; both ways the invariant is kept, for write-back and write-through.
\<close>

theorem cache_writes_correct:
  assumes "cache_ready type s" "a < 0x01000000"
  shows "writes_ok type s a (be_bytes 1 d8) wb (cache_write_8 type a d8 wb s) \<and>
    writes_ok type s a (be_bytes 2 d16) wb (cache_write_16 type a d16 wb s) \<and>
    writes_ok type s a (be_bytes 4 d32) wb (cache_write_32 type a d32 wb s) \<and>
    writes_ok type s a (be_bytes 8 d64) wb (cache_write_64 type a d64 wb s) \<and>
    writes_ok type s a (be_bytes 8 (u_hi d) @ be_bytes 8 (u_lo d)) wb (cache_write_128 type a d wb s)"
proof (intro conjI)
  note W = write_ok [OF assms]
  have o: "offset a < 16" by (rule offset_less)
  show "writes_ok type s a (be_bytes 1 d8) wb (cache_write_8 type a d8 wb s)"
    by (rule W [where mark = "dirty_8 a" and load = True]) (use o marks_8 in \<open>auto simp: cache_write_8_def\<close>)
  show "writes_ok type s a (be_bytes 2 d16) wb (cache_write_16 type a d16 wb s)"
    by (rule W [where mark = "dirty_16 a" and load = True])
      (use marks_16 in \<open>auto simp: cache_write_16_def offset_eq less_Suc_eq_le\<close>)
  show "writes_ok type s a (be_bytes 4 d32) wb (cache_write_32 type a d32 wb s)"
    by (rule W [where mark = "dirty_32 a" and load = True])
      (use marks_32 in \<open>auto simp: cache_write_32_def offset_eq less_Suc_eq_le\<close>)
  show "writes_ok type s a (be_bytes 8 d64) wb (cache_write_64 type a d64 wb s)"
    by (rule W [where mark = "dirty_64 a" and load = True])
      (use marks_64 in \<open>auto simp: cache_write_64_def offset_eq less_Suc_eq_le\<close>)
  show "writes_ok type s a (be_bytes 8 (u_hi d) @ be_bytes 8 (u_lo d)) wb (cache_write_128 type a d wb s)"
    by (rule W [where mark = "\<lambda>f. f OR (F_DIRTY0 OR F_DIRTY1 OR F_DIRTY2 OR F_DIRTY3)" and load = False])
      (use marks_128 in \<open>auto simp: cache_write_128_def offset_eq\<close>)
qed

theorem cache_writes_correct_witness:
  "fst (cache_write_32 DCACHE 0x100a 0xcafebabe 1 blank_sys) = 1 \<and>
   seen DCACHE (snd (cache_write_32 DCACHE 0x100a 0xcafebabe 1 blank_sys)) 0x100b = 0xfe \<and>
   cache_write_32 DCACHE 0x100a 0xcafebabe 0 blank_sys = (0, blank_sys)"
proof -
  have c: "cache_of DCACHE blank_sys = blank" by (simp add: cache_of_def blank_sys_def)
  have f: "find_way blank r t = None" for r t by (simp add: find_way_def blank_def find_None_iff)
  have o: "offset 0x100a = 10" by simp
  have "writes_ok DCACHE blank_sys 0x100a (be_bytes 4 (0xcafebabe :: u32)) wb (cache_write_32 DCACHE 0x100a 0xcafebabe wb blank_sys)"
    for wb using cache_writes_correct [OF blank_sys(1), of "0x100a" DCACHE] by simp
  from this [of 1] this [of 0] show ?thesis
    unfolding writes_ok_def c f o by (simp add: poke_def be_bytes_def upt_rec)
qed



text \<open>
  Below \<open>0x01000000\<close>, what a 64-bit write-back write inside one line stored, the 64-bit read
  at the address returns.
\<close>

theorem cache_write_read:
  assumes "cache_ready type s" "a < 0x01000000" "a AND 15 \<le> 8" "wb \<noteq> 0"
  shows "fst (cache_read_64 type a (snd (cache_write_64 type a d wb s))) = d"
proof -
  have l: "offset a \<le> 8" using assms(3) by (simp add: word_le_nat_alt)
  have "writes_ok type s a (be_bytes 8 d) wb (cache_write_64 type a d wb s)"
    by (rule write_ok [OF assms(1,2), where mark = "dirty_64 a" and load = True])
      (use marks_64 in \<open>auto simp: cache_write_64_def offset_eq\<close>)
  then have "cache_ready type (snd (cache_write_64 type a d wb s))"
    and v: "seen type (snd (cache_write_64 type a d wb s)) = poke (seen type s) (ucast a) (be_bytes 8 d)"
    using l assms(4) by (auto simp: writes_ok_def)
  from read_64_inside [OF this(1), of a] l
  have "fst (cache_read_64 type a (snd (cache_write_64 type a d wb s))) =
      be_val (peek (poke (seen type s) (ucast a) (be_bytes 8 d)) (ucast a) (length (be_bytes 8 d)))"
    by (simp add: reads_ok_def v)
  also have "\<dots> = d" by (subst peek_poke_same) (simp_all add: be_val_bytes)
  finally show ?thesis .
qed

theorem cache_write_read_witness:
  "fst (cache_read_64 DCACHE 0x1003 (snd (cache_write_64 DCACHE 0x1003 0x123456789abcdef0 1 blank_sys))) =
   0x123456789abcdef0"
  by (rule cache_write_read [OF blank_sys(1)]) simp_all

text \<open>
  C40. The 64-bit read at offset 13 of a line, below the end of the cached range, does not
  return the eight bytes at the address: the third byte is lost, the first two stand one
  byte too low, and the top byte is zero.
\<close>

theorem cache_read_64_offset_13:
  assumes "cache_ready type s" "a < 0x01000000" "a AND 15 = 13"
  shows "fst (cache_read_64 type a s) =
    be_val ([0] @ peek (seen type s) (ucast a) 2 @ peek (seen type s) (ucast (a + 3)) 5)"
  by (rule read_64_at_13(1) [OF assms])

theorem cache_read_64_offset_13_witness:
  "fst (cache_read_64 ICACHE 0x100d blank_sys) = 0x000d0e1011121314 \<and>
   be_val (peek (phys blank_sys) 0x100d 8) = (0x0d0e0f1011121314 :: u64)"
  using cache_read_64_offset_13 [OF blank_sys(1), of "0x100d" ICACHE]
  by (simp add: blank_sys(2,3) peek_eval)

text \<open>
  C30. Flushing the data cache writes everything that is seen through it to the memory:
  afterwards the memory is what was seen before, and what is seen did not change.
  Invalidating a cache drops it: afterwards the memory as it was is seen.
\<close>

theorem cache_flush_all_refines:
  assumes "cache_ready type s"
  shows "(type = DCACHE \<longrightarrow> phys (cache_flush_all type s) = seen type s \<and> kept type s (cache_flush_all type s)) \<and>
    seen type (cache_invalidate_all type s) = phys s \<and> phys (cache_invalidate_all type s) = phys s \<and>
    cache_ready type (cache_invalidate_all type s) \<and> others type s (cache_invalidate_all type s)"
  using invalidate_all [OF assms] flush_all_data [of s] assms by auto

theorem cache_flush_all_refines_witness:
  "phys (cache_flush_all DCACHE (snd (cache_write_32 DCACHE 0x100a 0xcafebabe 1 blank_sys))) 0x100b = 0xfe"
proof -
  let ?s = "snd (cache_write_32 DCACHE 0x100a 0xcafebabe 1 blank_sys)"
  have c: "cache_of DCACHE blank_sys = blank" by (simp add: cache_of_def blank_sys_def)
  have f: "find_way blank r t = None" for r t by (simp add: find_way_def blank_def find_None_iff)
  have o: "offset 0x100a = 10" by simp
  have "writes_ok DCACHE blank_sys 0x100a (be_bytes 4 (0xcafebabe :: u32)) 1 (cache_write_32 DCACHE 0x100a 0xcafebabe 1 blank_sys)"
    by (rule write_ok [OF blank_sys(1), where mark = "dirty_32 0x100a" and load = True])
      (use marks_32 [of "0x100a"] in \<open>simp_all add: cache_write_32_def\<close>)
  then have r: "cache_ready DCACHE ?s" and v: "seen DCACHE ?s 0x100b = 0xfe"
    unfolding writes_ok_def c f o by (simp_all add: poke_def be_bytes_def upt_rec)
  from cache_flush_all_refines [OF r] v show ?thesis by simp
qed

text \<open>
  C31. Flushing one line of the data cache writes to the memory the sixteen bytes that were
  seen there and nothing else; invalidating it uncovers the memory there and nothing else.
  Both keep the invariant of the data cache.
\<close>

theorem cache_line_operations:
  assumes "cache_ready DCACHE s"
  shows "phys (cache_flush_line DCACHE a s) x =
      (if x < 0x01000000 \<and> unat x div 16 = unat a div 16 then seen DCACHE s x else phys s x) \<and>
    kept DCACHE s (cache_flush_line DCACHE a s) \<and>
    seen DCACHE (cache_invalidate_line DCACHE a s) x =
      (if x < 0x01000000 \<and> unat x div 16 = unat a div 16 then phys s x else seen DCACHE s x) \<and>
    phys (cache_invalidate_line DCACHE a s) = phys s \<and> cache_ready DCACHE (cache_invalidate_line DCACHE a s)"
proof -
  have "same_line a (ucast x) \<longleftrightarrow> unat x div 16 = unat a div 16" if "x < 0x01000000"
    using wide_narrow [OF that] unfolding same_line_div by (metis unat_wide)
  then show ?thesis using flush_line_data [OF assms, of a] invalidate_line [OF assms, of a] by auto
qed

theorem cache_line_operations_witness:
  "phys (cache_flush_line DCACHE 0x1000 blank_sys) 0x2345 = 0x45 \<and>
   seen DCACHE (cache_invalidate_line DCACHE 0x1000 blank_sys) 0x1002 = 2"
  using cache_line_operations [OF blank_sys(1), of "0x1000" "0x2345"]
    cache_line_operations [OF blank_sys(1), of "0x1000" "0x1002"]
  by (simp add: blank_sys(2,3))

text \<open>
  C32. Invalidating a range returns for every address and length, also where the last line
  is the last one of the address space (the loop counts in 64 bits), and it uncovers the
  memory exactly in the lines from the one of the first byte to the one of the last byte.
\<close>

theorem cache_invalidate_range_returns:
  assumes "cache_ready type s"
  shows "\<exists>s'. cache_invalidate_range type a n s = Some s' \<and> cache_ready type s' \<and> others type s s' \<and> phys s' = phys s \<and>
    (\<forall>x. seen type s' x = (if x < 0x01000000 \<and> unat a div 16 \<le> unat x div 16 \<and>
        unat x div 16 \<le> unat (a + n - 1) div 16 then phys s x else seen type s x))"
  by (rule invalidate_range [OF assms])

theorem cache_invalidate_range_returns_witness:
  "\<exists>s'. cache_invalidate_range DCACHE 0xfffffff8 8 blank_sys = Some s' \<and> seen DCACHE s' 0x1234 = 0x34"
proof -
  from cache_invalidate_range_returns [OF blank_sys(1), of DCACHE "0xfffffff8" 8]
  obtain s' where "cache_invalidate_range DCACHE 0xfffffff8 8 blank_sys = Some s'"
    "seen DCACHE s' 0x1234 = (if (0x1234 :: u64) < 0x01000000 \<and> unat (0xfffffff8 :: u32) div 16 \<le> unat (0x1234 :: u64) div 16 \<and>
        unat (0x1234 :: u64) div 16 \<le> unat (0xfffffff8 + 8 - 1 :: u32) div 16 then phys blank_sys 0x1234 else seen DCACHE blank_sys 0x1234)"
    by blast
  then show ?thesis by (simp add: blank_sys(2,3))
qed

text \<open>
  The replacement state always offers a way inside the set, and never the way that was
  just used: after any hit the next victim is another way, and the state stays in bounds.
\<close>

theorem cache_victim_in_bounds:
  assumes "c_WaySelect c row < 255" "way < 8"
  shows "cache_get_way c row < CACHE_WAY_COUNT \<and>
    c_WaySelect (cache_mark_hit row way c) row < 255 \<and>
    cache_get_way (cache_mark_hit row way c) row < CACHE_WAY_COUNT \<and>
    cache_get_way (cache_mark_hit row way c) row \<noteq> way"
  using get_way [OF assms(1)] mark_hit_select(1,2) [OF assms] get_way [OF mark_hit_select(1) [OF assms]] by auto

theorem cache_victim_in_bounds_witness:
  "cache_get_way (cache_mark_hit 3 7 (blank\<lparr>c_WaySelect := \<lambda>_. 0x7f\<rparr>)) 3 = 0 \<and>
   cache_get_way (cache_mark_hit 3 7 (blank\<lparr>c_WaySelect := \<lambda>_. 0x7f\<rparr>)) 3 \<noteq> 7"
proof -
  have "cache_get_way (cache_mark_hit 3 7 (blank\<lparr>c_WaySelect := \<lambda>_. 0x7f\<rparr>)) 3 = 0" by code_simp
  moreover have "cache_get_way (cache_mark_hit 3 7 (blank\<lparr>c_WaySelect := \<lambda>_. 0x7f\<rparr>)) 3 \<noteq> 7"
    using cache_victim_in_bounds [of "blank\<lparr>c_WaySelect := \<lambda>_. 0x7f\<rparr>" 3 7] by simp
  ultimately show ?thesis by blast
qed

lemma setup_first:
  assumes "\<not> set_up s"
  shows "cache_ready ICACHE (cache_setup ic dc s)" "seen ICACHE (cache_setup ic dc s) = phys s"
    "c_Flags (DC (cache_setup ic dc s)) = c_Flags dc" "c_Tags (DC (cache_setup ic dc s)) = c_Tags dc"
    "c_Lines (DC (cache_setup ic dc s)) = c_Lines dc"
    "\<forall>row<128. \<forall>i<8. \<not> bit (c_Flags dc row i) 7 \<Longrightarrow>
      cache_ready DCACHE (cache_setup ic dc s) \<and> seen DCACHE (cache_setup ic dc s) = phys s"
proof -
  obtain ic' dc' where f: "fold (\<lambda>i (ic, dc). (fold (\<lambda>j ic. set_tag i j 0 (set_flags i j 0 ic)) ways (set_ways i 0 ic), set_ways i 0 dc))
      rows (ic, dc) = (ic', dc')" by fastforce
  note S = setup_folds [OF f]
  have e: "cache_setup ic dc s = s\<lparr>IC := ic', DC := dc', set_up := True\<rparr>"
    using f assms by (simp add: cache_setup_def)
  have i: "\<forall>row<128. c_WaySelect ic' row < 255" "\<forall>row<128. \<forall>i<8. \<not> bit (c_Flags ic' row i) 7"
    using S(1,2) by auto
  show "cache_ready ICACHE (cache_setup ic dc s)" "seen ICACHE (cache_setup ic dc s) = phys s"
    by (auto simp: cache_ready_def seen_def cache_of_def e empty_cache [OF i] wide_narrow fun_eq_iff)
  show "c_Flags (DC (cache_setup ic dc s)) = c_Flags dc" "c_Tags (DC (cache_setup ic dc s)) = c_Tags dc"
    "c_Lines (DC (cache_setup ic dc s)) = c_Lines dc" using S(4-6) by (simp_all add: e)
  assume "\<forall>row<128. \<forall>i<8. \<not> bit (c_Flags dc row i) 7"
  then have d: "\<forall>row<128. c_WaySelect dc' row < 255" "\<forall>row<128. \<forall>i<8. \<not> bit (c_Flags dc' row i) 7"
    using S(3,4) by auto
  show "cache_ready DCACHE (cache_setup ic dc s) \<and> seen DCACHE (cache_setup ic dc s) = phys s"
    by (auto simp: cache_ready_def seen_def cache_of_def e empty_cache [OF d] wide_narrow fun_eq_iff)
qed

lemma read_first_way:
  assumes "c_Tags (DC s) 0 0 = 0" "c_Flags (DC s) 0 0 = F_VALID"
  shows "fst (cache_read_8 DCACHE 0 s) = c_Lines (DC s) 0 0 0"
proof -
  have "find_way (DC s) 0 0 = Some 0"
    using assms by (simp add: find_way_def upt_rec F_VALID_def)
  then show ?thesis
    by (simp add: cache_read_8_def cache_fetch_def cache_of_def GET_SET_def GET_TAG_def line_bytes_def Let_def)
qed

text \<open>
  The first set-up makes the instruction cache ready whatever the allocated block
  holds. It clears no flag of the data cache: when the block allocated for it happens to
  hold no valid bit the data cache is ready too, but there are blocks after which a read
  through it returns a byte that differs from the memory's.
\<close>

theorem cache_setup_ready:
  assumes "\<not> set_up s"
  shows "cache_ready ICACHE (cache_setup ic dc s) \<and> seen ICACHE (cache_setup ic dc s) = phys s \<and>
    ((\<forall>row<128. \<forall>i<8. \<not> bit (c_Flags dc row i) 7) \<longrightarrow>
      cache_ready DCACHE (cache_setup ic dc s) \<and> seen DCACHE (cache_setup ic dc s) = phys s) \<and>
    (\<exists>dc. fst (cache_read_8 DCACHE 0 (cache_setup ic dc s)) \<noteq> phys s 0)"
proof -
  note S = setup_first [OF assms, of ic]
  let ?dc = "blank\<lparr>c_Flags := \<lambda>_ _. F_VALID, c_Lines := \<lambda>_ _ _. phys s 0 + 1\<rparr>"
  have "fst (cache_read_8 DCACHE 0 (cache_setup ic ?dc s)) = phys s 0 + 1"
    by (subst read_first_way) (simp_all add: S blank_def)
  moreover have "phys s 0 + 1 \<noteq> phys s 0" by simp
  ultimately have "\<exists>dc. fst (cache_read_8 DCACHE 0 (cache_setup ic dc s)) \<noteq> phys s 0" by metis
  with S(1,2) setup_first(6) [OF assms, of dc ic] show ?thesis by blast
qed

theorem cache_setup_ready_witness:
  "cache_ready DCACHE (cache_setup blank blank (blank_sys\<lparr>set_up := False\<rparr>))"
  using cache_setup_ready [of "blank_sys\<lparr>set_up := False\<rparr>" blank blank] by (simp add: blank_def)

end
