(* ===== verification/Opcode_Tables.thy ===== *)
theory Opcode_Tables
  imports Prelude
begin

text \<open>
  The opcode tables of the instruction groups: for the low bits of the opcode word the
  emitter in charge, the flags the instruction needs and sets, its length in words
  without the extension words of an effective address, whether it has one, and its
  operand size. A row is a designated initialiser of the C array with its range of
  indices; an index without a row has a null emitter. The \<open>void *\<close> member, null in every
  row, is left out.
\<close>

section \<open>Rows\<close>

datatype 'e opcode_def =
  Row (od_first: nat) (od_last: nat) (od_Emit: 'e) (od_SRNeeds: u16) (od_SRSets: u16)
    (od_BaseLength: nat) (od_HasEA: nat) (od_OpSize: u8)

definition InsnTable_entry :: "'e opcode_def list \<Rightarrow> nat \<Rightarrow> 'e opcode_def option" where
  "InsnTable_entry t i = find (\<lambda>r. od_first r \<le> i \<and> i \<le> od_last r) t"

text \<open>The flag masks of \<open>emu68/include/M68k.h\<close> as the 16-bit members hold them.\<close>

abbreviation sr_C :: u16 where "sr_C \<equiv> 0x1"
abbreviation sr_V :: u16 where "sr_V \<equiv> 0x2"
abbreviation sr_Z :: u16 where "sr_Z \<equiv> 0x4"
abbreviation sr_ZC :: u16 where "sr_ZC \<equiv> 0x5"
abbreviation sr_N :: u16 where "sr_N \<equiv> 0x8"
abbreviation sr_NV :: u16 where "sr_NV \<equiv> 0xa"
abbreviation sr_NZV :: u16 where "sr_NZV \<equiv> 0xe"
abbreviation sr_NZVC :: u16 where "sr_NZVC \<equiv> 0xf"
abbreviation sr_X :: u16 where "sr_X \<equiv> 0x10"
abbreviation sr_XZ :: u16 where "sr_XZ \<equiv> 0x14"
abbreviation sr_XZC :: u16 where "sr_XZC \<equiv> 0x15"
abbreviation sr_CCR :: u16 where "sr_CCR \<equiv> 0x1f"
abbreviation sr_S :: u16 where "sr_S \<equiv> 0x2000"
abbreviation sr_ALL :: u16 where "sr_ALL \<equiv> 0xf71f"

section \<open>Group 0: immediate operations and bits\<close>

datatype handler_0 =
  H_ORI_TO_CCR | H_ORI_TO_SR | H_ANDI_TO_CCR | H_ANDI_TO_SR | H_EORI_TO_CCR | H_EORI_TO_SR
  | H_ORI | H_ANDI | H_SUBI | H_ADDI | H_BTST | H_BCHG
  | H_BCLR | H_BSET | H_EORI | H_CMPI | H_CAS | H_CAS2
  | H_CMP2 | H_MOVEP | H_MOVES

definition InsnTable_0_1 :: "handler_0 opcode_def list" where
  "InsnTable_0_1 = [
  Row 0x3c 0x3c H_ORI_TO_CCR sr_CCR sr_CCR 2 0 1,
  Row 0x7c 0x7c H_ORI_TO_SR sr_ALL sr_ALL 2 0 2,
  Row 0x23c 0x23c H_ANDI_TO_CCR sr_CCR sr_CCR 2 0 1,
  Row 0x27c 0x27c H_ANDI_TO_SR sr_ALL sr_ALL 2 0 2,
  Row 0xa3c 0xa3c H_EORI_TO_CCR sr_CCR sr_CCR 2 0 1,
  Row 0xa7c 0xa7c H_EORI_TO_SR sr_ALL sr_ALL 2 0 2,
  Row 0x0 0x7 H_ORI 0 sr_NZVC 2 0 1,
  Row 0x10 0x27 H_ORI 0 sr_NZVC 2 0 1,
  Row 0x28 0x39 H_ORI 0 sr_NZVC 2 1 1,
  Row 0x40 0x47 H_ORI 0 sr_NZVC 2 0 2,
  Row 0x50 0x67 H_ORI 0 sr_NZVC 2 0 2,
  Row 0x68 0x79 H_ORI 0 sr_NZVC 2 1 2,
  Row 0x80 0x87 H_ORI 0 sr_NZVC 3 0 4,
  Row 0x90 0xa7 H_ORI 0 sr_NZVC 3 0 4,
  Row 0xa8 0xb9 H_ORI 0 sr_NZVC 3 1 4,
  Row 0x200 0x207 H_ANDI 0 sr_NZVC 2 0 1,
  Row 0x210 0x227 H_ANDI 0 sr_NZVC 2 0 1,
  Row 0x228 0x239 H_ANDI 0 sr_NZVC 2 1 1,
  Row 0x240 0x247 H_ANDI 0 sr_NZVC 2 0 2,
  Row 0x250 0x267 H_ANDI 0 sr_NZVC 2 0 2,
  Row 0x268 0x279 H_ANDI 0 sr_NZVC 2 1 2,
  Row 0x280 0x287 H_ANDI 0 sr_NZVC 3 0 4,
  Row 0x290 0x2a7 H_ANDI 0 sr_NZVC 3 0 4,
  Row 0x2a8 0x2b9 H_ANDI 0 sr_NZVC 3 1 4,
  Row 0x400 0x407 H_SUBI 0 sr_CCR 2 0 1,
  Row 0x410 0x427 H_SUBI 0 sr_CCR 2 0 1,
  Row 0x428 0x439 H_SUBI 0 sr_CCR 2 1 1,
  Row 0x440 0x447 H_SUBI 0 sr_CCR 2 0 2,
  Row 0x450 0x467 H_SUBI 0 sr_CCR 2 0 2,
  Row 0x468 0x479 H_SUBI 0 sr_CCR 2 1 2,
  Row 0x480 0x487 H_SUBI 0 sr_CCR 3 0 4,
  Row 0x490 0x4a7 H_SUBI 0 sr_CCR 3 0 4,
  Row 0x4a8 0x4b9 H_SUBI 0 sr_CCR 3 1 4,
  Row 0x600 0x607 H_ADDI 0 sr_CCR 2 0 1,
  Row 0x610 0x627 H_ADDI 0 sr_CCR 2 0 1,
  Row 0x628 0x639 H_ADDI 0 sr_CCR 2 1 1,
  Row 0x640 0x647 H_ADDI 0 sr_CCR 2 0 2,
  Row 0x650 0x667 H_ADDI 0 sr_CCR 2 0 2,
  Row 0x668 0x679 H_ADDI 0 sr_CCR 2 1 2,
  Row 0x680 0x687 H_ADDI 0 sr_CCR 3 0 4,
  Row 0x690 0x6a7 H_ADDI 0 sr_CCR 3 0 4,
  Row 0x6a8 0x6b9 H_ADDI 0 sr_CCR 3 1 4,
  Row 0x800 0x807 H_BTST 0 sr_Z 2 0 4,
  Row 0x810 0x827 H_BTST 0 sr_Z 2 0 1,
  Row 0x828 0x83b H_BTST 0 sr_Z 2 1 1,
  Row 0x840 0x847 H_BCHG 0 sr_Z 2 0 4,
  Row 0x850 0x867 H_BCHG 0 sr_Z 2 1 1,
  Row 0x868 0x879 H_BCHG 0 sr_Z 2 1 1,
  Row 0x880 0x887 H_BCLR 0 sr_Z 2 0 4,
  Row 0x890 0x8a7 H_BCLR 0 sr_Z 2 0 1,
  Row 0x8a8 0x8b9 H_BCLR 0 sr_Z 2 1 1,
  Row 0x8c0 0x8c7 H_BSET 0 sr_Z 2 0 4,
  Row 0x8d0 0x8e7 H_BSET 0 sr_Z 2 0 1,
  Row 0x8e8 0x8f9 H_BSET 0 sr_Z 2 1 1,
  Row 0xa00 0xa07 H_EORI 0 sr_NZVC 2 0 1,
  Row 0xa10 0xa27 H_EORI 0 sr_NZVC 2 0 1,
  Row 0xa28 0xa39 H_EORI 0 sr_NZVC 2 1 1,
  Row 0xa40 0xa47 H_EORI 0 sr_NZVC 2 0 2,
  Row 0xa50 0xa67 H_EORI 0 sr_NZVC 2 0 2,
  Row 0xa68 0xa79 H_EORI 0 sr_NZVC 2 1 2,
  Row 0xa80 0xa87 H_EORI 0 sr_NZVC 3 0 4,
  Row 0xa90 0xaa7 H_EORI 0 sr_NZVC 3 0 4,
  Row 0xaa8 0xab9 H_EORI 0 sr_NZVC 3 1 4,
  Row 0xc00 0xc07 H_CMPI 0 sr_NZVC 2 0 1,
  Row 0xc10 0xc27 H_CMPI 0 sr_NZVC 2 0 1,
  Row 0xc28 0xc3b H_CMPI 0 sr_NZVC 2 1 1,
  Row 0xc40 0xc47 H_CMPI 0 sr_NZVC 2 0 2,
  Row 0xc50 0xc67 H_CMPI 0 sr_NZVC 2 0 2,
  Row 0xc68 0xc7b H_CMPI 0 sr_NZVC 2 1 2,
  Row 0xc80 0xc87 H_CMPI 0 sr_NZVC 3 0 4,
  Row 0xc90 0xca7 H_CMPI 0 sr_NZVC 3 0 4,
  Row 0xca8 0xcbb H_CMPI 0 sr_NZVC 3 1 4,
  Row 0x100 0x107 H_BTST 0 sr_Z 1 0 4,
  Row 0x110 0x127 H_BTST 0 sr_Z 1 0 1,
  Row 0x128 0x13c H_BTST 0 sr_Z 1 1 1,
  Row 0x300 0x307 H_BTST 0 sr_Z 1 0 4,
  Row 0x310 0x327 H_BTST 0 sr_Z 1 0 1,
  Row 0x328 0x33c H_BTST 0 sr_Z 1 1 1,
  Row 0x500 0x507 H_BTST 0 sr_Z 1 0 4,
  Row 0x510 0x527 H_BTST 0 sr_Z 1 0 1,
  Row 0x528 0x53c H_BTST 0 sr_Z 1 1 1,
  Row 0x700 0x707 H_BTST 0 sr_Z 1 0 4,
  Row 0x710 0x727 H_BTST 0 sr_Z 1 0 1,
  Row 0x728 0x73c H_BTST 0 sr_Z 1 1 1,
  Row 0x900 0x907 H_BTST 0 sr_Z 1 0 4,
  Row 0x910 0x927 H_BTST 0 sr_Z 1 0 1,
  Row 0x928 0x93c H_BTST 0 sr_Z 1 1 1,
  Row 0xb00 0xb07 H_BTST 0 sr_Z 1 0 4,
  Row 0xb10 0xb27 H_BTST 0 sr_Z 1 1 1,
  Row 0xb28 0xb3c H_BTST 0 sr_Z 1 1 1,
  Row 0xd00 0xd07 H_BTST 0 sr_Z 1 0 4,
  Row 0xd10 0xd27 H_BTST 0 sr_Z 1 0 1,
  Row 0xd28 0xd3c H_BTST 0 sr_Z 1 1 1,
  Row 0xf00 0xf07 H_BTST 0 sr_Z 1 0 4,
  Row 0xf10 0xf27 H_BTST 0 sr_Z 1 0 1,
  Row 0xf28 0xf3c H_BTST 0 sr_Z 1 1 1,
  Row 0x140 0x147 H_BCHG 0 sr_Z 1 0 4,
  Row 0x150 0x167 H_BCHG 0 sr_Z 1 0 1,
  Row 0x168 0x179 H_BCHG 0 sr_Z 1 1 1,
  Row 0x340 0x347 H_BCHG 0 sr_Z 1 0 4,
  Row 0x350 0x367 H_BCHG 0 sr_Z 1 0 1,
  Row 0x368 0x379 H_BCHG 0 sr_Z 1 1 1,
  Row 0x540 0x547 H_BCHG 0 sr_Z 1 0 4,
  Row 0x550 0x567 H_BCHG 0 sr_Z 1 0 1,
  Row 0x568 0x579 H_BCHG 0 sr_Z 1 1 1,
  Row 0x740 0x747 H_BCHG 0 sr_Z 1 0 4,
  Row 0x750 0x767 H_BCHG 0 sr_Z 1 0 1,
  Row 0x768 0x779 H_BCHG 0 sr_Z 1 1 1,
  Row 0x940 0x947 H_BCHG 0 sr_Z 1 0 4,
  Row 0x950 0x967 H_BCHG 0 sr_Z 1 0 1]"

definition InsnTable_0_2 :: "handler_0 opcode_def list" where
  "InsnTable_0_2 = [
  Row 0x968 0x979 H_BCHG 0 sr_Z 1 1 1,
  Row 0xb40 0xb47 H_BCHG 0 sr_Z 1 0 4,
  Row 0xb50 0xb67 H_BCHG 0 sr_Z 1 0 1,
  Row 0xb68 0xb79 H_BCHG 0 sr_Z 1 1 1,
  Row 0xd40 0xd47 H_BCHG 0 sr_Z 1 0 4,
  Row 0xd50 0xd67 H_BCHG 0 sr_Z 1 0 1,
  Row 0xd68 0xd79 H_BCHG 0 sr_Z 1 1 1,
  Row 0xf40 0xf47 H_BCHG 0 sr_Z 1 0 4,
  Row 0xf50 0xf67 H_BCHG 0 sr_Z 1 0 1,
  Row 0xf68 0xf79 H_BCHG 0 sr_Z 1 1 1,
  Row 0x180 0x187 H_BCLR 0 sr_Z 1 0 4,
  Row 0x190 0x1a7 H_BCLR 0 sr_Z 1 0 1,
  Row 0x1a8 0x1b9 H_BCLR 0 sr_Z 1 1 1,
  Row 0x380 0x387 H_BCLR 0 sr_Z 1 0 4,
  Row 0x390 0x3a7 H_BCLR 0 sr_Z 1 0 1,
  Row 0x3a8 0x3b9 H_BCLR 0 sr_Z 1 1 1,
  Row 0x580 0x587 H_BCLR 0 sr_Z 1 0 4,
  Row 0x590 0x5a7 H_BCLR 0 sr_Z 1 0 1,
  Row 0x5a8 0x5b9 H_BCLR 0 sr_Z 1 1 1,
  Row 0x780 0x787 H_BCLR 0 sr_Z 1 0 4,
  Row 0x790 0x7a7 H_BCLR 0 sr_Z 1 0 1,
  Row 0x7a8 0x7b9 H_BCLR 0 sr_Z 1 1 1,
  Row 0x980 0x987 H_BCLR 0 sr_Z 1 0 4,
  Row 0x990 0x9a7 H_BCLR 0 sr_Z 1 0 1,
  Row 0x9a8 0x9b9 H_BCLR 0 sr_Z 1 1 1,
  Row 0xb80 0xb87 H_BCLR 0 sr_Z 1 0 4,
  Row 0xb90 0xba7 H_BCLR 0 sr_Z 1 0 1,
  Row 0xba8 0xbb9 H_BCLR 0 sr_Z 1 1 1,
  Row 0xd80 0xd87 H_BCLR 0 sr_Z 1 0 4,
  Row 0xd90 0xda7 H_BCLR 0 sr_Z 1 0 1,
  Row 0xda8 0xdb9 H_BCLR 0 sr_Z 1 1 1,
  Row 0xf80 0xf87 H_BCLR 0 sr_Z 1 0 4,
  Row 0xf90 0xfa7 H_BCLR 0 sr_Z 1 0 1,
  Row 0xfa8 0xfb9 H_BCLR 0 sr_Z 1 1 1,
  Row 0x1c0 0x1c7 H_BSET 0 sr_Z 1 0 4,
  Row 0x1d0 0x1e7 H_BSET 0 sr_Z 1 0 1,
  Row 0x1e8 0x1f9 H_BSET 0 sr_Z 1 1 1,
  Row 0x3c0 0x3c7 H_BSET 0 sr_Z 1 0 4,
  Row 0x3d0 0x3e7 H_BSET 0 sr_Z 1 0 1,
  Row 0x3e8 0x3f9 H_BSET 0 sr_Z 1 1 1,
  Row 0x5c0 0x5c7 H_BSET 0 sr_Z 1 0 4,
  Row 0x5d0 0x5e7 H_BSET 0 sr_Z 1 0 1,
  Row 0x5e8 0x5f9 H_BSET 0 sr_Z 1 1 1,
  Row 0x7c0 0x7c7 H_BSET 0 sr_Z 1 0 4,
  Row 0x7d0 0x7e7 H_BSET 0 sr_Z 1 0 1,
  Row 0x7e8 0x7f9 H_BSET 0 sr_Z 1 1 1,
  Row 0x9c0 0x9c7 H_BSET 0 sr_Z 1 0 4,
  Row 0x9d0 0x9e7 H_BSET 0 sr_Z 1 0 1,
  Row 0x9e8 0x9f9 H_BSET 0 sr_Z 1 1 1,
  Row 0xbc0 0xbc7 H_BSET 0 sr_Z 1 0 4,
  Row 0xbd0 0xbe7 H_BSET 0 sr_Z 1 0 1,
  Row 0xbe8 0xbf9 H_BSET 0 sr_Z 1 1 1,
  Row 0xdc0 0xdc7 H_BSET 0 sr_Z 1 0 4,
  Row 0xdd0 0xde7 H_BSET 0 sr_Z 1 0 1,
  Row 0xde8 0xdf9 H_BSET 0 sr_Z 1 1 1,
  Row 0xfc0 0xfc7 H_BSET 0 sr_Z 1 0 4,
  Row 0xfd0 0xfe7 H_BSET 0 sr_Z 1 0 1,
  Row 0xfe8 0xff9 H_BSET 0 sr_Z 1 1 1,
  Row 0xad0 0xae7 H_CAS 0 sr_NZVC 2 0 1,
  Row 0xae8 0xaf9 H_CAS 0 sr_NZVC 2 1 1,
  Row 0xcd0 0xce7 H_CAS 0 sr_NZVC 2 0 2,
  Row 0xce8 0xcf9 H_CAS 0 sr_NZVC 2 1 2,
  Row 0xed0 0xee7 H_CAS 0 sr_NZVC 2 0 4,
  Row 0xee8 0xef9 H_CAS 0 sr_NZVC 2 1 4,
  Row 0xcfc 0xcfc H_CAS2 0 sr_NZVC 3 0 2,
  Row 0xefc 0xefc H_CAS2 0 sr_NZVC 3 0 4,
  Row 0xd0 0xd7 H_CMP2 sr_CCR sr_NZVC 2 0 1,
  Row 0xe8 0xfb H_CMP2 sr_CCR sr_NZVC 2 1 1,
  Row 0x2d0 0x2d7 H_CMP2 sr_CCR sr_NZVC 2 0 2,
  Row 0x2e8 0x2fb H_CMP2 sr_CCR sr_NZVC 2 1 2,
  Row 0x4d0 0x4d7 H_CMP2 sr_CCR sr_NZVC 2 0 4,
  Row 0x4e8 0x4fb H_CMP2 sr_CCR sr_NZVC 2 1 4,
  Row 0x108 0x10f H_MOVEP 0 0 2 0 2,
  Row 0x148 0x14f H_MOVEP 0 0 2 0 4,
  Row 0x188 0x18f H_MOVEP 0 0 2 0 2,
  Row 0x1c8 0x1cf H_MOVEP 0 0 2 0 4,
  Row 0x308 0x30f H_MOVEP 0 0 2 0 2,
  Row 0x348 0x34f H_MOVEP 0 0 2 0 4,
  Row 0x388 0x38f H_MOVEP 0 0 2 0 2,
  Row 0x3c8 0x3cf H_MOVEP 0 0 2 0 4,
  Row 0x508 0x50f H_MOVEP 0 0 2 0 2,
  Row 0x548 0x54f H_MOVEP 0 0 2 0 4,
  Row 0x588 0x58f H_MOVEP 0 0 2 0 2,
  Row 0x5c8 0x5cf H_MOVEP 0 0 2 0 4,
  Row 0x708 0x70f H_MOVEP 0 0 2 0 2,
  Row 0x748 0x74f H_MOVEP 0 0 2 0 4,
  Row 0x788 0x78f H_MOVEP 0 0 2 0 2,
  Row 0x7c8 0x7cf H_MOVEP 0 0 2 0 4,
  Row 0x908 0x90f H_MOVEP 0 0 2 0 2,
  Row 0x948 0x94f H_MOVEP 0 0 2 0 4,
  Row 0x988 0x98f H_MOVEP 0 0 2 0 2,
  Row 0x9c8 0x9cf H_MOVEP 0 0 2 0 4,
  Row 0xb08 0xb0f H_MOVEP 0 0 2 0 2,
  Row 0xb48 0xb4f H_MOVEP 0 0 2 0 4,
  Row 0xb88 0xb8f H_MOVEP 0 0 2 0 2,
  Row 0xbc8 0xbcf H_MOVEP 0 0 2 0 4,
  Row 0xd08 0xd0f H_MOVEP 0 0 2 0 2,
  Row 0xd48 0xd4f H_MOVEP 0 0 2 0 4,
  Row 0xd88 0xd8f H_MOVEP 0 0 2 0 2,
  Row 0xdc8 0xdcf H_MOVEP 0 0 2 0 4,
  Row 0xf08 0xf0f H_MOVEP 0 0 2 0 2,
  Row 0xf48 0xf4f H_MOVEP 0 0 2 0 4,
  Row 0xf88 0xf8f H_MOVEP 0 0 2 0 2,
  Row 0xfc8 0xfcf H_MOVEP 0 0 2 0 4,
  Row 0xe10 0xe27 H_MOVES sr_S 0 2 0 1,
  Row 0xe28 0xe39 H_MOVES sr_S 0 2 1 1,
  Row 0xe50 0xe67 H_MOVES sr_S 0 2 0 2,
  Row 0xe68 0xe79 H_MOVES sr_S 0 2 1 2,
  Row 0xe90 0xea7 H_MOVES sr_S 0 2 0 4,
  Row 0xea8 0xeb9 H_MOVES sr_S 0 2 1 4]"

definition InsnTable_0 :: "handler_0 opcode_def list" where
  "InsnTable_0 = InsnTable_0_1 @ InsnTable_0_2"


section \<open>Group 4: miscellaneous\<close>

datatype handler_4 =
  H_MOVEfromSR | H_MOVEfromCCR | H_MOVEtoSR | H_MOVEtoCCR | H_EXT | H_LINK32
  | H_LINK16 | H_SWAP | H_ILLEGAL | H_TRAP | H_UNLK | H_RESET
  | H_NOP | H_STOP | H_RTE | H_RTD | H_RTS | H_TRAPV
  | H_RTR | H_MOVEC | H_MOVEUSP | H_BKPT | H_JMP | H_JSR
  | H_NEGX | H_CLR | H_NEG | H_NOT | H_TST | H_NBCD
  | H_PEA | H_TAS | H_MUL_DIV | H_MOVEM | H_LEA | H_CHK

definition InsnTable_4_1 :: "handler_4 opcode_def list" where
  "InsnTable_4_1 = [
  Row 0xc0 0xc7 H_MOVEfromSR sr_ALL 0 1 0 2,
  Row 0xd0 0xe7 H_MOVEfromSR sr_ALL 0 1 0 2,
  Row 0xe8 0xf9 H_MOVEfromSR sr_ALL 0 1 1 2,
  Row 0x2c0 0x2c7 H_MOVEfromCCR sr_CCR 0 1 0 2,
  Row 0x2d0 0x2e7 H_MOVEfromCCR sr_CCR 0 1 0 2,
  Row 0x2e8 0x2f9 H_MOVEfromCCR sr_CCR 0 1 1 2,
  Row 0x6c0 0x6c7 H_MOVEtoSR sr_S sr_ALL 1 0 2,
  Row 0x6d0 0x6e7 H_MOVEtoSR sr_S sr_ALL 1 0 2,
  Row 0x6e8 0x6fc H_MOVEtoSR sr_S sr_ALL 1 1 2,
  Row 0x4c0 0x4c7 H_MOVEtoCCR 0 sr_CCR 1 0 2,
  Row 0x4d0 0x4e7 H_MOVEtoCCR 0 sr_CCR 1 0 2,
  Row 0x4e8 0x4fc H_MOVEtoCCR 0 sr_CCR 1 1 2,
  Row 0x880 0x887 H_EXT 0 sr_NZVC 1 0 0,
  Row 0x8c0 0x8c7 H_EXT 0 sr_NZVC 1 0 0,
  Row 0x9c0 0x9c7 H_EXT 0 sr_NZVC 1 0 0,
  Row 0x808 0x80f H_LINK32 0 0 3 0 0,
  Row 0xe50 0xe57 H_LINK16 0 0 2 0 0,
  Row 0x840 0x847 H_SWAP 0 sr_NZVC 1 0 0,
  Row 0xafc 0xafc H_ILLEGAL sr_CCR 0 1 0 0,
  Row 0xe40 0xe4f H_TRAP sr_CCR 0 1 0 0,
  Row 0xe58 0xe5f H_UNLK 0 0 1 0 0,
  Row 0xe70 0xe70 H_RESET sr_S 0 1 0 0,
  Row 0xe71 0xe71 H_NOP 0 0 1 0 0,
  Row 0xe72 0xe72 H_STOP sr_S sr_ALL 2 0 0,
  Row 0xe73 0xe73 H_RTE sr_S sr_ALL 1 0 0,
  Row 0xe74 0xe74 H_RTD 0 0 2 0 0,
  Row 0xe75 0xe75 H_RTS 0 0 1 0 0,
  Row 0xe76 0xe76 H_TRAPV sr_CCR 0 1 0 0,
  Row 0xe77 0xe77 H_RTR 0 sr_CCR 1 0 0,
  Row 0xe7a 0xe7b H_MOVEC sr_S 0 2 0 4,
  Row 0xe60 0xe6f H_MOVEUSP sr_S 0 1 0 4,
  Row 0x848 0x84f H_BKPT sr_ALL 0 1 0 0,
  Row 0xed0 0xed7 H_JMP 0 0 1 0 0,
  Row 0xee8 0xefb H_JMP 0 0 1 1 0,
  Row 0xe90 0xe97 H_JSR 0 0 1 0 0,
  Row 0xea8 0xebb H_JSR 0 0 1 1 0,
  Row 0x0 0x7 H_NEGX sr_XZ sr_CCR 1 0 1,
  Row 0x40 0x47 H_NEGX sr_XZ sr_CCR 1 0 2,
  Row 0x80 0x87 H_NEGX sr_XZ sr_CCR 1 0 4,
  Row 0x10 0x27 H_NEGX sr_XZ sr_CCR 1 0 1,
  Row 0x50 0x67 H_NEGX sr_XZ sr_CCR 1 0 2,
  Row 0x90 0xa7 H_NEGX sr_XZ sr_CCR 1 0 4,
  Row 0x28 0x39 H_NEGX sr_XZ sr_CCR 1 1 1,
  Row 0x68 0x79 H_NEGX sr_XZ sr_CCR 1 1 2,
  Row 0xa8 0xb9 H_NEGX sr_XZ sr_CCR 1 1 4,
  Row 0x200 0x207 H_CLR 0 sr_NZVC 1 0 1,
  Row 0x240 0x247 H_CLR 0 sr_NZVC 1 0 2,
  Row 0x280 0x287 H_CLR 0 sr_NZVC 1 0 4,
  Row 0x210 0x227 H_CLR 0 sr_NZVC 1 0 1,
  Row 0x250 0x267 H_CLR 0 sr_NZVC 1 0 2,
  Row 0x290 0x2a7 H_CLR 0 sr_NZVC 1 0 4,
  Row 0x228 0x239 H_CLR 0 sr_NZVC 1 1 1,
  Row 0x268 0x279 H_CLR 0 sr_NZVC 1 1 2,
  Row 0x2a8 0x2b9 H_CLR 0 sr_NZVC 1 1 4,
  Row 0x400 0x407 H_NEG 0 sr_CCR 1 0 1,
  Row 0x440 0x447 H_NEG 0 sr_CCR 1 0 2,
  Row 0x480 0x487 H_NEG 0 sr_CCR 1 0 4,
  Row 0x410 0x427 H_NEG 0 sr_CCR 1 0 1,
  Row 0x450 0x467 H_NEG 0 sr_CCR 1 0 2,
  Row 0x490 0x4a7 H_NEG 0 sr_CCR 1 0 4,
  Row 0x428 0x439 H_NEG 0 sr_CCR 1 1 1,
  Row 0x468 0x479 H_NEG 0 sr_CCR 1 1 2,
  Row 0x4a8 0x4b9 H_NEG 0 sr_CCR 1 1 4,
  Row 0x600 0x607 H_NOT 0 sr_NZVC 1 0 1,
  Row 0x640 0x647 H_NOT 0 sr_NZVC 1 0 2,
  Row 0x680 0x687 H_NOT 0 sr_NZVC 1 0 4,
  Row 0x610 0x627 H_NOT 0 sr_NZVC 1 0 1,
  Row 0x650 0x667 H_NOT 0 sr_NZVC 1 0 2,
  Row 0x690 0x6a7 H_NOT 0 sr_NZVC 1 0 4,
  Row 0x628 0x639 H_NOT 0 sr_NZVC 1 1 1,
  Row 0x668 0x679 H_NOT 0 sr_NZVC 1 1 2,
  Row 0x6a8 0x6b9 H_NOT 0 sr_NZVC 1 1 4,
  Row 0xa00 0xa07 H_TST 0 sr_NZVC 1 0 1,
  Row 0xa10 0xa27 H_TST 0 sr_NZVC 1 0 1,
  Row 0xa28 0xa3c H_TST 0 sr_NZVC 1 1 1,
  Row 0xa40 0xa67 H_TST 0 sr_NZVC 1 0 2,
  Row 0xa68 0xa7c H_TST 0 sr_NZVC 1 1 2,
  Row 0xa80 0xaa7 H_TST 0 sr_NZVC 1 0 4,
  Row 0xaa8 0xabc H_TST 0 sr_NZVC 1 1 4,
  Row 0x800 0x807 H_NBCD sr_XZ sr_XZC 1 0 1,
  Row 0x810 0x827 H_NBCD sr_XZ sr_XZC 1 0 1,
  Row 0x828 0x839 H_NBCD sr_XZ sr_XZC 1 1 1,
  Row 0x850 0x857 H_PEA 0 0 1 0 4,
  Row 0x868 0x87b H_PEA 0 0 1 1 4]"

definition InsnTable_4_2 :: "handler_4 opcode_def list" where
  "InsnTable_4_2 = [
  Row 0xac0 0xac7 H_TAS 0 sr_NZVC 1 0 1,
  Row 0xad0 0xae7 H_TAS 0 sr_NZVC 1 0 1,
  Row 0xae8 0xaf9 H_TAS 0 sr_NZVC 1 1 1,
  Row 0xc00 0xc07 H_MUL_DIV 0 sr_NZVC 2 0 4,
  Row 0xc10 0xc27 H_MUL_DIV 0 sr_NZVC 2 0 4,
  Row 0xc28 0xc3c H_MUL_DIV 0 sr_NZVC 2 1 4,
  Row 0xc40 0xc47 H_MUL_DIV 0 sr_NZVC 2 0 4,
  Row 0xc50 0xc67 H_MUL_DIV 0 sr_NZVC 2 0 4,
  Row 0xc68 0xc7c H_MUL_DIV 0 sr_NZVC 2 1 4,
  Row 0x890 0x897 H_MOVEM 0 0 2 0 2,
  Row 0x8d0 0x8d7 H_MOVEM 0 0 2 0 4,
  Row 0x8a0 0x8a7 H_MOVEM 0 0 2 0 2,
  Row 0x8e0 0x8e7 H_MOVEM 0 0 2 0 4,
  Row 0x8a8 0x8b9 H_MOVEM 0 0 2 1 2,
  Row 0x8e8 0x8f9 H_MOVEM 0 0 2 1 4,
  Row 0xc90 0xc9f H_MOVEM 0 0 2 0 2,
  Row 0xcd0 0xcdf H_MOVEM 0 0 2 0 4,
  Row 0xca8 0xcbb H_MOVEM 0 0 2 1 2,
  Row 0xce8 0xcfb H_MOVEM 0 0 2 1 4,
  Row 0x1d0 0x1d7 H_LEA 0 0 1 0 4,
  Row 0x1e8 0x1fb H_LEA 0 0 1 1 4,
  Row 0x3d0 0x3d7 H_LEA 0 0 1 0 4,
  Row 0x3e8 0x3fb H_LEA 0 0 1 1 4,
  Row 0x5d0 0x5d7 H_LEA 0 0 1 0 4,
  Row 0x5e8 0x5fb H_LEA 0 0 1 1 4,
  Row 0x7d0 0x7d7 H_LEA 0 0 1 0 4,
  Row 0x7e8 0x7fb H_LEA 0 0 1 1 4,
  Row 0x9d0 0x9d7 H_LEA 0 0 1 0 4,
  Row 0x9e8 0x9fb H_LEA 0 0 1 1 4,
  Row 0xbd0 0xbd7 H_LEA 0 0 1 0 4,
  Row 0xbe8 0xbfb H_LEA 0 0 1 1 4,
  Row 0xdd0 0xdd7 H_LEA 0 0 1 0 4,
  Row 0xde8 0xdfb H_LEA 0 0 1 1 4,
  Row 0xfd0 0xfd7 H_LEA 0 0 1 0 4,
  Row 0xfe8 0xffb H_LEA 0 0 1 1 4,
  Row 0x180 0x187 H_CHK sr_CCR sr_NZVC 1 0 2,
  Row 0x190 0x1a7 H_CHK sr_CCR sr_NZVC 1 0 2,
  Row 0x1a8 0x1bc H_CHK sr_CCR sr_NZVC 1 1 2,
  Row 0x100 0x107 H_CHK sr_CCR sr_NZVC 1 0 4,
  Row 0x110 0x127 H_CHK sr_CCR sr_NZVC 1 0 4,
  Row 0x128 0x13c H_CHK sr_CCR sr_NZVC 1 1 4,
  Row 0x380 0x387 H_CHK sr_CCR sr_NZVC 1 0 2,
  Row 0x390 0x3a7 H_CHK sr_CCR sr_NZVC 1 0 2,
  Row 0x3a8 0x3bc H_CHK sr_CCR sr_NZVC 1 1 2,
  Row 0x300 0x307 H_CHK sr_CCR sr_NZVC 1 0 4,
  Row 0x310 0x327 H_CHK sr_CCR sr_NZVC 1 0 4,
  Row 0x328 0x33c H_CHK sr_CCR sr_NZVC 1 1 4,
  Row 0x580 0x587 H_CHK sr_CCR sr_NZVC 1 0 2,
  Row 0x590 0x5a7 H_CHK sr_CCR sr_NZVC 1 0 2,
  Row 0x5a8 0x5bc H_CHK sr_CCR sr_NZVC 1 1 2,
  Row 0x500 0x507 H_CHK sr_CCR sr_NZVC 1 0 4,
  Row 0x510 0x527 H_CHK sr_CCR sr_NZVC 1 0 4,
  Row 0x528 0x53c H_CHK sr_CCR sr_NZVC 1 1 4,
  Row 0x780 0x787 H_CHK sr_CCR sr_NZVC 1 0 2,
  Row 0x790 0x7a7 H_CHK sr_CCR sr_NZVC 1 0 2,
  Row 0x7a8 0x7bc H_CHK sr_CCR sr_NZVC 1 1 2,
  Row 0x700 0x707 H_CHK sr_CCR sr_NZVC 1 0 4,
  Row 0x710 0x727 H_CHK sr_CCR sr_NZVC 1 0 4,
  Row 0x728 0x73c H_CHK sr_CCR sr_NZVC 1 1 4,
  Row 0x980 0x987 H_CHK sr_CCR sr_NZVC 1 0 2,
  Row 0x990 0x9a7 H_CHK sr_CCR sr_NZVC 1 0 2,
  Row 0x9a8 0x9bc H_CHK sr_CCR sr_NZVC 1 1 2,
  Row 0x900 0x907 H_CHK sr_CCR sr_NZVC 1 0 4,
  Row 0x910 0x927 H_CHK sr_CCR sr_NZVC 1 0 4,
  Row 0x928 0x93c H_CHK sr_CCR sr_NZVC 1 1 4,
  Row 0xb80 0xb87 H_CHK sr_CCR sr_NZVC 1 0 2,
  Row 0xb90 0xba7 H_CHK sr_CCR sr_NZVC 1 0 2,
  Row 0xba8 0xbbc H_CHK sr_CCR sr_NZVC 1 1 2,
  Row 0xb00 0xb07 H_CHK sr_CCR sr_NZVC 1 0 4,
  Row 0xb10 0xb27 H_CHK sr_CCR sr_NZVC 1 0 4,
  Row 0xb28 0xb3c H_CHK sr_CCR sr_NZVC 1 1 4,
  Row 0xd80 0xd87 H_CHK sr_CCR sr_NZVC 1 0 2,
  Row 0xd90 0xda7 H_CHK sr_CCR sr_NZVC 1 0 2,
  Row 0xda8 0xdbc H_CHK sr_CCR sr_NZVC 1 1 2,
  Row 0xd00 0xd07 H_CHK sr_CCR sr_NZVC 1 0 4,
  Row 0xd10 0xd27 H_CHK sr_CCR sr_NZVC 1 0 4,
  Row 0xd28 0xd3c H_CHK sr_CCR sr_NZVC 1 1 4,
  Row 0xf80 0xf87 H_CHK sr_CCR sr_NZVC 1 0 2,
  Row 0xf90 0xfa7 H_CHK sr_CCR sr_NZVC 1 0 2,
  Row 0xfa8 0xfbc H_CHK sr_CCR sr_NZVC 1 1 2,
  Row 0xf00 0xf07 H_CHK sr_CCR sr_NZVC 1 0 4,
  Row 0xf10 0xf27 H_CHK sr_CCR sr_NZVC 1 0 4,
  Row 0xf28 0xf3c H_CHK sr_CCR sr_NZVC 1 1 4]"

definition InsnTable_4 :: "handler_4 opcode_def list" where
  "InsnTable_4 = InsnTable_4_1 @ InsnTable_4_2"


section \<open>Group 5: ADDQ, SUBQ, Scc, DBcc, TRAPcc\<close>

datatype handler_5 =
  H_ADDQ | H_Scc | H_DBcc | H_TRAPcc | H_SUBQ

definition InsnTable_5 :: "handler_5 opcode_def list" where
  "InsnTable_5 = [
  Row 0x0 0x7 H_ADDQ 0 sr_CCR 1 0 1,
  Row 0x10 0x27 H_ADDQ 0 sr_CCR 1 0 1,
  Row 0x28 0x39 H_ADDQ 0 sr_CCR 1 1 1,
  Row 0x40 0x47 H_ADDQ 0 sr_CCR 1 0 2,
  Row 0x48 0x4f H_ADDQ 0 0 1 0 2,
  Row 0x50 0x67 H_ADDQ 0 sr_CCR 1 0 2,
  Row 0x68 0x79 H_ADDQ 0 sr_CCR 1 1 2,
  Row 0x80 0x87 H_ADDQ 0 sr_CCR 1 0 4,
  Row 0x88 0x8f H_ADDQ 0 0 1 0 4,
  Row 0x90 0xa7 H_ADDQ 0 sr_CCR 1 0 4,
  Row 0xa8 0xb9 H_ADDQ 0 sr_CCR 1 1 4,
  Row 0xc0 0xc7 H_Scc sr_NZVC 0 1 0 1,
  Row 0x1c8 0x1cf H_DBcc sr_NZVC 0 2 0 0,
  Row 0xd0 0xe7 H_Scc sr_NZVC 0 1 0 1,
  Row 0xe8 0xf9 H_Scc sr_NZVC 0 1 1 1,
  Row 0xfa 0xfa H_TRAPcc sr_CCR 0 2 0 0,
  Row 0xfb 0xfb H_TRAPcc sr_CCR 0 3 0 0,
  Row 0xfc 0xfc H_TRAPcc sr_CCR 0 1 0 0,
  Row 0x100 0x107 H_SUBQ 0 sr_CCR 1 0 1,
  Row 0x110 0x127 H_SUBQ 0 sr_CCR 1 0 1,
  Row 0x128 0x139 H_SUBQ 0 sr_CCR 1 1 1,
  Row 0x140 0x147 H_SUBQ 0 sr_CCR 1 0 2,
  Row 0x148 0x14f H_SUBQ 0 0 1 0 2,
  Row 0x150 0x167 H_SUBQ 0 sr_CCR 1 0 2,
  Row 0x168 0x179 H_SUBQ 0 sr_CCR 1 1 2,
  Row 0x180 0x187 H_SUBQ 0 sr_CCR 1 0 4,
  Row 0x188 0x18f H_SUBQ 0 0 1 0 4,
  Row 0x190 0x1a7 H_SUBQ 0 sr_CCR 1 0 4,
  Row 0x1a8 0x1b9 H_SUBQ 0 sr_CCR 1 1 4,
  Row 0x1c0 0x1c7 H_Scc sr_NZVC 0 1 0 1,
  Row 0xc8 0xcf H_DBcc sr_NZVC 0 2 0 0,
  Row 0x1d0 0x1e7 H_Scc sr_NZVC 0 1 0 1,
  Row 0x1e8 0x1f9 H_Scc sr_NZVC 0 1 1 1,
  Row 0x1fa 0x1fa H_TRAPcc sr_CCR 0 2 0 0,
  Row 0x1fb 0x1fb H_TRAPcc sr_CCR 0 3 0 0,
  Row 0x1fc 0x1fc H_TRAPcc sr_CCR 0 1 0 0]"


section \<open>Group 6: branches\<close>

datatype handler_6 =
  H_BRA | H_BSR | H_Bcc

definition InsnTable_6 :: "handler_6 opcode_def list" where
  "InsnTable_6 = [
  Row 0x0 0x0 H_BRA 0 0 0 0 0,
  Row 0x1 0x1 H_BSR 0 0 0 0 0,
  Row 0x2 0x2 H_Bcc sr_ZC 0 0 0 0,
  Row 0x3 0x3 H_Bcc sr_ZC 0 0 0 0,
  Row 0x4 0x4 H_Bcc sr_C 0 0 0 0,
  Row 0x5 0x5 H_Bcc sr_C 0 0 0 0,
  Row 0x6 0x6 H_Bcc sr_Z 0 0 0 0,
  Row 0x7 0x7 H_Bcc sr_Z 0 0 0 0,
  Row 0x8 0x8 H_Bcc sr_V 0 0 0 0,
  Row 0x9 0x9 H_Bcc sr_V 0 0 0 0,
  Row 0xa 0xa H_Bcc sr_N 0 0 0 0,
  Row 0xb 0xb H_Bcc sr_N 0 0 0 0,
  Row 0xc 0xc H_Bcc sr_NV 0 0 0 0,
  Row 0xd 0xd H_Bcc sr_NV 0 0 0 0,
  Row 0xe 0xe H_Bcc sr_NZV 0 0 0 0,
  Row 0xf 0xf H_Bcc sr_NZV 0 0 0 0]"


section \<open>Group 8: OR, DIV, SBCD\<close>

datatype handler_8 =
  H_OR_reg | H_OR_mem | H_OR_ext | H_DIVU_reg | H_DIVU_mem | H_DIVU_ext
  | H_SBCD_reg | H_SBCD_mem | H_PACK_reg | H_PACK_mem | H_UNPK_reg | H_UNPK_mem
  | H_DIVS_reg | H_DIVS_mem | H_DIVS_ext

definition InsnTable_8 :: "handler_8 opcode_def list" where
  "InsnTable_8 = [
  Row 0x0 0x7 H_OR_reg 0 sr_NZVC 1 0 1,
  Row 0x10 0x27 H_OR_mem 0 sr_NZVC 1 0 1,
  Row 0x28 0x3c H_OR_ext 0 sr_NZVC 1 1 1,
  Row 0x40 0x47 H_OR_reg 0 sr_NZVC 1 0 2,
  Row 0x50 0x67 H_OR_mem 0 sr_NZVC 1 0 2,
  Row 0x68 0x7c H_OR_ext 0 sr_NZVC 1 1 2,
  Row 0x80 0x87 H_OR_reg 0 sr_NZVC 1 0 4,
  Row 0x90 0xa7 H_OR_mem 0 sr_NZVC 1 0 4,
  Row 0xa8 0xbc H_OR_ext 0 sr_NZVC 1 1 4,
  Row 0xc0 0xc7 H_DIVU_reg 0 sr_NZVC 1 0 2,
  Row 0xd0 0xe7 H_DIVU_mem 0 sr_NZVC 1 0 2,
  Row 0xe8 0xfc H_DIVU_ext 0 sr_NZVC 1 1 2,
  Row 0x100 0x107 H_SBCD_reg sr_XZ sr_XZC 1 0 1,
  Row 0x108 0x10f H_SBCD_mem sr_XZ sr_XZC 1 0 1,
  Row 0x110 0x127 H_OR_mem 0 sr_NZVC 1 0 1,
  Row 0x128 0x139 H_OR_ext 0 sr_NZVC 1 1 1,
  Row 0x140 0x147 H_PACK_reg 0 0 2 0 2,
  Row 0x148 0x14f H_PACK_mem 0 0 2 0 2,
  Row 0x150 0x167 H_OR_mem 0 sr_NZVC 1 0 2,
  Row 0x168 0x179 H_OR_ext 0 sr_NZVC 1 1 2,
  Row 0x180 0x187 H_UNPK_reg 0 0 2 0 2,
  Row 0x188 0x18f H_UNPK_mem 0 0 2 0 2,
  Row 0x190 0x1a7 H_OR_mem 0 sr_NZVC 1 0 4,
  Row 0x1a8 0x1b9 H_OR_ext 0 sr_NZVC 1 1 4,
  Row 0x1c0 0x1c7 H_DIVS_reg 0 sr_NZVC 1 0 2,
  Row 0x1d0 0x1e7 H_DIVS_mem 0 sr_NZVC 1 0 2,
  Row 0x1e8 0x1fc H_DIVS_ext 0 sr_NZVC 1 1 2]"


section \<open>Group 9: SUB\<close>

datatype handler_9 =
  H_SUB_reg | H_SUB_mem | H_SUB_ext | H_SUBA_reg | H_SUBA_mem | H_SUBA_ext
  | H_SUBX_reg | H_SUBX_mem

definition InsnTable_9 :: "handler_9 opcode_def list" where
  "InsnTable_9 = [
  Row 0x0 0x7 H_SUB_reg 0 sr_CCR 1 0 1,
  Row 0x10 0x27 H_SUB_mem 0 sr_CCR 1 0 1,
  Row 0x28 0x3c H_SUB_ext 0 sr_CCR 1 1 1,
  Row 0x40 0x4f H_SUB_reg 0 sr_CCR 1 0 2,
  Row 0x50 0x67 H_SUB_mem 0 sr_CCR 1 0 2,
  Row 0x68 0x7c H_SUB_ext 0 sr_CCR 1 1 2,
  Row 0x80 0x8f H_SUB_reg 0 sr_CCR 1 0 4,
  Row 0x90 0xa7 H_SUB_mem 0 sr_CCR 1 0 4,
  Row 0xa8 0xbc H_SUB_ext 0 sr_CCR 1 1 4,
  Row 0xc0 0xcf H_SUBA_reg 0 0 1 0 2,
  Row 0xd0 0xe7 H_SUBA_mem 0 0 1 0 2,
  Row 0xe8 0xfc H_SUBA_ext 0 0 1 1 2,
  Row 0x100 0x107 H_SUBX_reg sr_XZ sr_CCR 1 0 1,
  Row 0x108 0x10f H_SUBX_mem sr_XZ sr_CCR 1 0 1,
  Row 0x140 0x147 H_SUBX_reg sr_XZ sr_CCR 1 0 2,
  Row 0x148 0x14f H_SUBX_mem sr_XZ sr_CCR 1 0 2,
  Row 0x180 0x187 H_SUBX_reg sr_XZ sr_CCR 1 0 4,
  Row 0x188 0x18f H_SUBX_mem sr_XZ sr_CCR 1 0 4,
  Row 0x110 0x127 H_SUB_mem 0 sr_CCR 1 0 1,
  Row 0x128 0x139 H_SUB_ext 0 sr_CCR 1 1 1,
  Row 0x150 0x167 H_SUB_mem 0 sr_CCR 1 0 2,
  Row 0x168 0x179 H_SUB_ext 0 sr_CCR 1 1 2,
  Row 0x190 0x1a7 H_SUB_mem 0 sr_CCR 1 0 4,
  Row 0x1a8 0x1b9 H_SUB_ext 0 sr_CCR 1 1 4,
  Row 0x1c0 0x1cf H_SUBA_reg 0 0 1 0 4,
  Row 0x1d0 0x1e7 H_SUBA_mem 0 0 1 0 4,
  Row 0x1e8 0x1fc H_SUBA_ext 0 0 1 1 4]"


section \<open>Group B: CMP, EOR\<close>

datatype handler_B =
  H_CMP_reg | H_CMP_mem | H_CMP_ext | H_CMPA_reg | H_CMPA_mem | H_CMPA_ext
  | H_EOR_reg | H_CMPM | H_EOR_mem | H_EOR_ext

definition InsnTable_B :: "handler_B opcode_def list" where
  "InsnTable_B = [
  Row 0x0 0x7 H_CMP_reg 0 sr_NZVC 1 0 1,
  Row 0x10 0x27 H_CMP_mem 0 sr_NZVC 1 0 1,
  Row 0x28 0x3c H_CMP_ext 0 sr_NZVC 1 1 1,
  Row 0x40 0x4f H_CMP_reg 0 sr_NZVC 1 0 2,
  Row 0x50 0x67 H_CMP_mem 0 sr_NZVC 1 0 2,
  Row 0x68 0x7c H_CMP_ext 0 sr_NZVC 1 1 2,
  Row 0x80 0x8f H_CMP_reg 0 sr_NZVC 1 0 4,
  Row 0x90 0xa7 H_CMP_mem 0 sr_NZVC 1 0 4,
  Row 0xa8 0xbc H_CMP_ext 0 sr_NZVC 1 1 4,
  Row 0xc0 0xcf H_CMPA_reg 0 sr_NZVC 1 0 2,
  Row 0xd0 0xe7 H_CMPA_mem 0 sr_NZVC 1 0 2,
  Row 0xe8 0xfc H_CMPA_ext 0 sr_NZVC 1 1 2,
  Row 0x100 0x107 H_EOR_reg 0 sr_NZVC 1 0 1,
  Row 0x108 0x10f H_CMPM 0 sr_NZVC 1 0 1,
  Row 0x110 0x127 H_EOR_mem 0 sr_NZVC 1 0 1,
  Row 0x128 0x139 H_EOR_ext 0 sr_NZVC 1 1 1,
  Row 0x140 0x147 H_EOR_reg 0 sr_NZVC 1 0 2,
  Row 0x148 0x14f H_CMPM 0 sr_NZVC 1 0 2,
  Row 0x150 0x167 H_EOR_mem 0 sr_NZVC 1 0 2,
  Row 0x168 0x179 H_EOR_ext 0 sr_NZVC 1 1 2,
  Row 0x180 0x187 H_EOR_reg 0 sr_NZVC 1 0 4,
  Row 0x188 0x18f H_CMPM 0 sr_NZVC 1 0 4,
  Row 0x190 0x1a7 H_EOR_mem 0 sr_NZVC 1 0 4,
  Row 0x1a8 0x1b9 H_EOR_ext 0 sr_NZVC 1 1 4,
  Row 0x1c0 0x1cf H_CMPA_reg 0 sr_NZVC 1 0 4,
  Row 0x1d0 0x1e7 H_CMPA_mem 0 sr_NZVC 1 0 4,
  Row 0x1e8 0x1fc H_CMPA_ext 0 sr_NZVC 1 1 4]"


section \<open>Group C: AND, MUL, ABCD, EXG\<close>

datatype handler_C =
  H_AND_reg | H_AND_mem | H_AND_ext | H_MULU | H_ABCD_reg | H_ABCD_mem
  | H_EXG | H_MULS

definition InsnTable_C :: "handler_C opcode_def list" where
  "InsnTable_C = [
  Row 0x0 0x7 H_AND_reg 0 sr_NZVC 1 0 1,
  Row 0x10 0x27 H_AND_mem 0 sr_NZVC 1 0 1,
  Row 0x28 0x3c H_AND_ext 0 sr_NZVC 1 1 1,
  Row 0x40 0x47 H_AND_reg 0 sr_NZVC 1 0 2,
  Row 0x50 0x67 H_AND_mem 0 sr_NZVC 1 0 2,
  Row 0x68 0x7c H_AND_ext 0 sr_NZVC 1 1 2,
  Row 0x80 0x87 H_AND_reg 0 sr_NZVC 1 0 4,
  Row 0x90 0xa7 H_AND_mem 0 sr_NZVC 1 0 4,
  Row 0xa8 0xbc H_AND_ext 0 sr_NZVC 1 1 4,
  Row 0xc0 0xc7 H_MULU 0 sr_NZVC 1 0 2,
  Row 0xd0 0xe7 H_MULU 0 sr_NZVC 1 0 2,
  Row 0xe8 0xfc H_MULU 0 sr_NZVC 1 1 2,
  Row 0x100 0x107 H_ABCD_reg sr_XZ sr_XZC 1 0 1,
  Row 0x108 0x10f H_ABCD_mem sr_XZ sr_XZC 1 0 1,
  Row 0x110 0x127 H_AND_mem 0 sr_NZVC 1 0 1,
  Row 0x128 0x139 H_AND_ext 0 sr_NZVC 1 1 1,
  Row 0x140 0x14f H_EXG 0 0 1 0 4,
  Row 0x150 0x167 H_AND_mem 0 sr_NZVC 1 0 2,
  Row 0x168 0x179 H_AND_ext 0 sr_NZVC 1 1 2,
  Row 0x188 0x18f H_EXG 0 0 1 0 4,
  Row 0x190 0x1a7 H_AND_mem 0 sr_NZVC 1 0 4,
  Row 0x1a8 0x1b9 H_AND_ext 0 sr_NZVC 1 1 4,
  Row 0x1c0 0x1c7 H_MULS 0 sr_NZVC 1 0 2,
  Row 0x1d0 0x1e7 H_MULS 0 sr_NZVC 1 0 2,
  Row 0x1e8 0x1fc H_MULS 0 sr_NZVC 1 1 2]"


section \<open>Group D: ADD\<close>

datatype handler_D =
  H_ADD_reg | H_ADD_mem | H_ADD_ext | H_ADDA_reg | H_ADDA_mem | H_ADDA_ext
  | H_ADDX_reg | H_ADDX_mem

definition InsnTable_D :: "handler_D opcode_def list" where
  "InsnTable_D = [
  Row 0x0 0x7 H_ADD_reg 0 sr_CCR 1 0 1,
  Row 0x10 0x27 H_ADD_mem 0 sr_CCR 1 0 1,
  Row 0x28 0x3c H_ADD_ext 0 sr_CCR 1 1 1,
  Row 0x40 0x4f H_ADD_reg 0 sr_CCR 1 0 2,
  Row 0x50 0x67 H_ADD_mem 0 sr_CCR 1 0 2,
  Row 0x68 0x7c H_ADD_ext 0 sr_CCR 1 1 2,
  Row 0x80 0x8f H_ADD_reg 0 sr_CCR 1 0 4,
  Row 0x90 0xa7 H_ADD_mem 0 sr_CCR 1 0 4,
  Row 0xa8 0xbc H_ADD_ext 0 sr_CCR 1 1 4,
  Row 0xc0 0xcf H_ADDA_reg 0 0 1 0 2,
  Row 0xd0 0xe7 H_ADDA_mem 0 0 1 0 2,
  Row 0xe8 0xfc H_ADDA_ext 0 0 1 1 2,
  Row 0x100 0x107 H_ADDX_reg sr_XZ sr_CCR 1 0 1,
  Row 0x108 0x10f H_ADDX_mem sr_XZ sr_CCR 1 0 1,
  Row 0x140 0x147 H_ADDX_reg sr_XZ sr_CCR 1 0 2,
  Row 0x148 0x14f H_ADDX_mem sr_XZ sr_CCR 1 0 2,
  Row 0x180 0x187 H_ADDX_reg sr_XZ sr_CCR 1 0 4,
  Row 0x188 0x18f H_ADDX_mem sr_XZ sr_CCR 1 0 4,
  Row 0x110 0x127 H_ADD_mem 0 sr_CCR 1 0 1,
  Row 0x128 0x139 H_ADD_ext 0 sr_CCR 1 1 1,
  Row 0x150 0x167 H_ADD_mem 0 sr_CCR 1 0 2,
  Row 0x168 0x179 H_ADD_ext 0 sr_CCR 1 1 2,
  Row 0x190 0x1a7 H_ADD_mem 0 sr_CCR 1 0 4,
  Row 0x1a8 0x1b9 H_ADD_ext 0 sr_CCR 1 1 4,
  Row 0x1c0 0x1cf H_ADDA_reg 0 0 1 0 4,
  Row 0x1d0 0x1e7 H_ADDA_mem 0 0 1 0 4,
  Row 0x1e8 0x1fc H_ADDA_ext 0 0 1 1 4]"


section \<open>Group E: shifts, rotates and bit fields\<close>

datatype handler_E =
  H_ASR | H_LSR | H_ROXR | H_ROR | H_ASR_reg | H_LSR_reg
  | H_ROXR_reg | H_ROR_reg | H_ASR_mem | H_LSR_mem | H_ROXR_mem | H_ROR_mem
  | H_ASL | H_LSL | H_ROXL | H_ROL | H_ASL_reg | H_LSL_reg
  | H_ROXL_reg | H_ROL_reg | H_ASL_mem | H_LSL_mem | H_ROXL_mem | H_ROL_mem
  | H_BFTST_reg | H_BFTST | H_BFCHG_reg | H_BFCHG | H_BFCLR_reg | H_BFCLR
  | H_BFSET_reg | H_BFSET | H_BFEXTU_reg | H_BFEXTU | H_BFEXTS_reg | H_BFEXTS
  | H_BFFFO_reg | H_BFFFO | H_BFINS_reg | H_BFINS

definition InsnTable_E_1 :: "handler_E opcode_def list" where
  "InsnTable_E_1 = [
  Row 0x0 0x7 H_ASR 0 sr_CCR 1 0 1,
  Row 0x8 0xf H_LSR 0 sr_CCR 1 0 1,
  Row 0x10 0x17 H_ROXR sr_X sr_CCR 1 0 1,
  Row 0x18 0x1f H_ROR 0 sr_NZVC 1 0 1,
  Row 0x20 0x27 H_ASR_reg sr_X sr_CCR 1 0 1,
  Row 0x28 0x2f H_LSR_reg sr_X sr_CCR 1 0 1,
  Row 0x30 0x37 H_ROXR_reg sr_X sr_CCR 1 0 1,
  Row 0x38 0x3f H_ROR_reg 0 sr_NZVC 1 0 1,
  Row 0x40 0x47 H_ASR 0 sr_CCR 1 0 2,
  Row 0x48 0x4f H_LSR 0 sr_CCR 1 0 2,
  Row 0x50 0x57 H_ROXR sr_X sr_CCR 1 0 2,
  Row 0x58 0x5f H_ROR 0 sr_NZVC 1 0 2,
  Row 0x60 0x67 H_ASR_reg sr_X sr_CCR 1 0 2,
  Row 0x68 0x6f H_LSR_reg sr_X sr_CCR 1 0 2,
  Row 0x70 0x77 H_ROXR_reg sr_X sr_CCR 1 0 2,
  Row 0x78 0x7f H_ROR_reg 0 sr_NZVC 1 0 2,
  Row 0x80 0x87 H_ASR 0 sr_CCR 1 0 4,
  Row 0x88 0x8f H_LSR 0 sr_CCR 1 0 4,
  Row 0x90 0x97 H_ROXR sr_X sr_CCR 1 0 4,
  Row 0x98 0x9f H_ROR 0 sr_NZVC 1 0 4,
  Row 0xa0 0xa7 H_ASR_reg sr_X sr_CCR 1 0 4,
  Row 0xa8 0xaf H_LSR_reg sr_X sr_CCR 1 0 4,
  Row 0xb0 0xb7 H_ROXR_reg sr_X sr_CCR 1 0 4,
  Row 0xb8 0xbf H_ROR_reg 0 sr_NZVC 1 0 4,
  Row 0x200 0x207 H_ASR 0 sr_CCR 1 0 1,
  Row 0x208 0x20f H_LSR 0 sr_CCR 1 0 1,
  Row 0x210 0x217 H_ROXR sr_X sr_CCR 1 0 1,
  Row 0x218 0x21f H_ROR 0 sr_NZVC 1 0 1,
  Row 0x220 0x227 H_ASR_reg sr_X sr_CCR 1 0 1,
  Row 0x228 0x22f H_LSR_reg sr_X sr_CCR 1 0 1,
  Row 0x230 0x237 H_ROXR_reg sr_X sr_CCR 1 0 1,
  Row 0x238 0x23f H_ROR_reg 0 sr_NZVC 1 0 1,
  Row 0x240 0x247 H_ASR 0 sr_CCR 1 0 2,
  Row 0x248 0x24f H_LSR 0 sr_CCR 1 0 2,
  Row 0x250 0x257 H_ROXR sr_X sr_CCR 1 0 2,
  Row 0x258 0x25f H_ROR 0 sr_NZVC 1 0 2,
  Row 0x260 0x267 H_ASR_reg sr_X sr_CCR 1 0 2,
  Row 0x268 0x26f H_LSR_reg sr_X sr_CCR 1 0 2,
  Row 0x270 0x277 H_ROXR_reg sr_X sr_CCR 1 0 2,
  Row 0x278 0x27f H_ROR_reg 0 sr_NZVC 1 0 2,
  Row 0x280 0x287 H_ASR 0 sr_CCR 1 0 4,
  Row 0x288 0x28f H_LSR 0 sr_CCR 1 0 4,
  Row 0x290 0x297 H_ROXR sr_X sr_CCR 1 0 4,
  Row 0x298 0x29f H_ROR 0 sr_NZVC 1 0 4,
  Row 0x2a0 0x2a7 H_ASR_reg sr_X sr_CCR 1 0 4,
  Row 0x2a8 0x2af H_LSR_reg sr_X sr_CCR 1 0 4,
  Row 0x2b0 0x2b7 H_ROXR_reg sr_X sr_CCR 1 0 4,
  Row 0x2b8 0x2bf H_ROR_reg 0 sr_NZVC 1 0 4,
  Row 0x400 0x407 H_ASR 0 sr_CCR 1 0 1,
  Row 0x408 0x40f H_LSR 0 sr_CCR 1 0 1,
  Row 0x410 0x417 H_ROXR sr_X sr_CCR 1 0 1,
  Row 0x418 0x41f H_ROR 0 sr_NZVC 1 0 1,
  Row 0x420 0x427 H_ASR_reg sr_X sr_CCR 1 0 1,
  Row 0x428 0x42f H_LSR_reg sr_X sr_CCR 1 0 1,
  Row 0x430 0x437 H_ROXR_reg sr_X sr_CCR 1 0 1,
  Row 0x438 0x43f H_ROR_reg 0 sr_NZVC 1 0 1,
  Row 0x440 0x447 H_ASR 0 sr_CCR 1 0 2,
  Row 0x448 0x44f H_LSR 0 sr_CCR 1 0 2,
  Row 0x450 0x457 H_ROXR sr_X sr_CCR 1 0 2,
  Row 0x458 0x45f H_ROR 0 sr_NZVC 1 0 2,
  Row 0x460 0x467 H_ASR_reg sr_X sr_CCR 1 0 2,
  Row 0x468 0x46f H_LSR_reg sr_X sr_CCR 1 0 2,
  Row 0x470 0x477 H_ROXR_reg sr_X sr_CCR 1 0 2,
  Row 0x478 0x47f H_ROR_reg 0 sr_NZVC 1 0 2,
  Row 0x480 0x487 H_ASR 0 sr_CCR 1 0 4,
  Row 0x488 0x48f H_LSR 0 sr_CCR 1 0 4,
  Row 0x490 0x497 H_ROXR sr_X sr_CCR 1 0 4,
  Row 0x498 0x49f H_ROR 0 sr_NZVC 1 0 4,
  Row 0x4a0 0x4a7 H_ASR_reg sr_X sr_CCR 1 0 4,
  Row 0x4a8 0x4af H_LSR_reg sr_X sr_CCR 1 0 4,
  Row 0x4b0 0x4b7 H_ROXR_reg sr_X sr_CCR 1 0 4,
  Row 0x4b8 0x4bf H_ROR_reg 0 sr_NZVC 1 0 4,
  Row 0x600 0x607 H_ASR 0 sr_CCR 1 0 1,
  Row 0x608 0x60f H_LSR 0 sr_CCR 1 0 1,
  Row 0x610 0x617 H_ROXR sr_X sr_CCR 1 0 1,
  Row 0x618 0x61f H_ROR 0 sr_NZVC 1 0 1,
  Row 0x620 0x627 H_ASR_reg sr_X sr_CCR 1 0 1,
  Row 0x628 0x62f H_LSR_reg sr_X sr_CCR 1 0 1,
  Row 0x630 0x637 H_ROXR_reg sr_X sr_CCR 1 0 1,
  Row 0x638 0x63f H_ROR_reg 0 sr_NZVC 1 0 1,
  Row 0x640 0x647 H_ASR 0 sr_CCR 1 0 2,
  Row 0x648 0x64f H_LSR 0 sr_CCR 1 0 2,
  Row 0x650 0x657 H_ROXR sr_X sr_CCR 1 0 2,
  Row 0x658 0x65f H_ROR 0 sr_NZVC 1 0 2,
  Row 0x660 0x667 H_ASR_reg sr_X sr_CCR 1 0 2,
  Row 0x668 0x66f H_LSR_reg sr_X sr_CCR 1 0 2,
  Row 0x670 0x677 H_ROXR_reg sr_X sr_CCR 1 0 2,
  Row 0x678 0x67f H_ROR_reg 0 sr_NZVC 1 0 2,
  Row 0x680 0x687 H_ASR 0 sr_CCR 1 0 4,
  Row 0x688 0x68f H_LSR 0 sr_CCR 1 0 4,
  Row 0x690 0x697 H_ROXR sr_X sr_CCR 1 0 4,
  Row 0x698 0x69f H_ROR 0 sr_NZVC 1 0 4,
  Row 0x6a0 0x6a7 H_ASR_reg sr_X sr_CCR 1 0 4,
  Row 0x6a8 0x6af H_LSR_reg sr_X sr_CCR 1 0 4,
  Row 0x6b0 0x6b7 H_ROXR_reg sr_X sr_CCR 1 0 4,
  Row 0x6b8 0x6bf H_ROR_reg 0 sr_NZVC 1 0 4,
  Row 0x800 0x807 H_ASR 0 sr_CCR 1 0 1,
  Row 0x808 0x80f H_LSR 0 sr_CCR 1 0 1,
  Row 0x810 0x817 H_ROXR sr_X sr_CCR 1 0 1,
  Row 0x818 0x81f H_ROR 0 sr_NZVC 1 0 1,
  Row 0x820 0x827 H_ASR_reg sr_X sr_CCR 1 0 1,
  Row 0x828 0x82f H_LSR_reg sr_X sr_CCR 1 0 1,
  Row 0x830 0x837 H_ROXR_reg sr_X sr_CCR 1 0 1,
  Row 0x838 0x83f H_ROR_reg 0 sr_NZVC 1 0 1]"

definition InsnTable_E_2 :: "handler_E opcode_def list" where
  "InsnTable_E_2 = [
  Row 0x840 0x847 H_ASR 0 sr_CCR 1 0 2,
  Row 0x848 0x84f H_LSR 0 sr_CCR 1 0 2,
  Row 0x850 0x857 H_ROXR sr_X sr_CCR 1 0 2,
  Row 0x858 0x85f H_ROR 0 sr_NZVC 1 0 2,
  Row 0x860 0x867 H_ASR_reg sr_X sr_CCR 1 0 2,
  Row 0x868 0x86f H_LSR_reg sr_X sr_CCR 1 0 2,
  Row 0x870 0x877 H_ROXR_reg sr_X sr_CCR 1 0 2,
  Row 0x878 0x87f H_ROR_reg 0 sr_NZVC 1 0 2,
  Row 0x880 0x887 H_ASR 0 sr_CCR 1 0 4,
  Row 0x888 0x88f H_LSR 0 sr_CCR 1 0 4,
  Row 0x890 0x897 H_ROXR sr_X sr_CCR 1 0 4,
  Row 0x898 0x89f H_ROR 0 sr_NZVC 1 0 4,
  Row 0x8a0 0x8a7 H_ASR_reg sr_X sr_CCR 1 0 4,
  Row 0x8a8 0x8af H_LSR_reg sr_X sr_CCR 1 0 4,
  Row 0x8b0 0x8b7 H_ROXR_reg sr_X sr_CCR 1 0 4,
  Row 0x8b8 0x8bf H_ROR_reg 0 sr_NZVC 1 0 4,
  Row 0xa00 0xa07 H_ASR 0 sr_CCR 1 0 1,
  Row 0xa08 0xa0f H_LSR 0 sr_CCR 1 0 1,
  Row 0xa10 0xa17 H_ROXR sr_X sr_CCR 1 0 1,
  Row 0xa18 0xa1f H_ROR 0 sr_NZVC 1 0 1,
  Row 0xa20 0xa27 H_ASR_reg sr_X sr_CCR 1 0 1,
  Row 0xa28 0xa2f H_LSR_reg sr_X sr_CCR 1 0 1,
  Row 0xa30 0xa37 H_ROXR_reg sr_X sr_CCR 1 0 1,
  Row 0xa38 0xa3f H_ROR_reg 0 sr_NZVC 1 0 1,
  Row 0xa40 0xa47 H_ASR 0 sr_CCR 1 0 2,
  Row 0xa48 0xa4f H_LSR 0 sr_CCR 1 0 2,
  Row 0xa50 0xa57 H_ROXR sr_X sr_CCR 1 0 2,
  Row 0xa58 0xa5f H_ROR 0 sr_NZVC 1 0 2,
  Row 0xa60 0xa67 H_ASR_reg sr_X sr_CCR 1 0 2,
  Row 0xa68 0xa6f H_LSR_reg sr_X sr_CCR 1 0 2,
  Row 0xa70 0xa77 H_ROXR_reg sr_X sr_CCR 1 0 2,
  Row 0xa78 0xa7f H_ROR_reg 0 sr_NZVC 1 0 2,
  Row 0xa80 0xa87 H_ASR 0 sr_CCR 1 0 4,
  Row 0xa88 0xa8f H_LSR 0 sr_CCR 1 0 4,
  Row 0xa90 0xa97 H_ROXR sr_X sr_CCR 1 0 4,
  Row 0xa98 0xa9f H_ROR 0 sr_NZVC 1 0 4,
  Row 0xaa0 0xaa7 H_ASR_reg sr_X sr_CCR 1 0 4,
  Row 0xaa8 0xaaf H_LSR_reg sr_X sr_CCR 1 0 4,
  Row 0xab0 0xab7 H_ROXR_reg sr_X sr_CCR 1 0 4,
  Row 0xab8 0xabf H_ROR_reg 0 sr_NZVC 1 0 4,
  Row 0xc00 0xc07 H_ASR 0 sr_CCR 1 0 1,
  Row 0xc08 0xc0f H_LSR 0 sr_CCR 1 0 1,
  Row 0xc10 0xc17 H_ROXR sr_X sr_CCR 1 0 1,
  Row 0xc18 0xc1f H_ROR 0 sr_NZVC 1 0 1,
  Row 0xc20 0xc27 H_ASR_reg sr_X sr_CCR 1 0 1,
  Row 0xc28 0xc2f H_LSR_reg sr_X sr_CCR 1 0 1,
  Row 0xc30 0xc37 H_ROXR_reg sr_X sr_CCR 1 0 1,
  Row 0xc38 0xc3f H_ROR_reg 0 sr_NZVC 1 0 1,
  Row 0xc40 0xc47 H_ASR 0 sr_CCR 1 0 2,
  Row 0xc48 0xc4f H_LSR 0 sr_CCR 1 0 2,
  Row 0xc50 0xc57 H_ROXR sr_X sr_CCR 1 0 2,
  Row 0xc58 0xc5f H_ROR 0 sr_NZVC 1 0 2,
  Row 0xc60 0xc67 H_ASR_reg sr_X sr_CCR 1 0 2,
  Row 0xc68 0xc6f H_LSR_reg sr_X sr_CCR 1 0 2,
  Row 0xc70 0xc77 H_ROXR_reg sr_X sr_CCR 1 0 2,
  Row 0xc78 0xc7f H_ROR_reg 0 sr_NZVC 1 0 2,
  Row 0xc80 0xc87 H_ASR 0 sr_CCR 1 0 4,
  Row 0xc88 0xc8f H_LSR 0 sr_CCR 1 0 4,
  Row 0xc90 0xc97 H_ROXR sr_X sr_CCR 1 0 4,
  Row 0xc98 0xc9f H_ROR 0 sr_NZVC 1 0 4,
  Row 0xca0 0xca7 H_ASR_reg sr_X sr_CCR 1 0 4,
  Row 0xca8 0xcaf H_LSR_reg sr_X sr_CCR 1 0 4,
  Row 0xcb0 0xcb7 H_ROXR_reg sr_X sr_CCR 1 0 4,
  Row 0xcb8 0xcbf H_ROR_reg 0 sr_NZVC 1 0 4,
  Row 0xe00 0xe07 H_ASR 0 sr_CCR 1 0 1,
  Row 0xe08 0xe0f H_LSR 0 sr_CCR 1 0 1,
  Row 0xe10 0xe17 H_ROXR sr_X sr_CCR 1 0 1,
  Row 0xe18 0xe1f H_ROR 0 sr_NZVC 1 0 1,
  Row 0xe20 0xe27 H_ASR_reg sr_X sr_CCR 1 0 1,
  Row 0xe28 0xe2f H_LSR_reg sr_X sr_CCR 1 0 1,
  Row 0xe30 0xe37 H_ROXR_reg sr_X sr_CCR 1 0 1,
  Row 0xe38 0xe3f H_ROR_reg 0 sr_NZVC 1 0 1,
  Row 0xe40 0xe47 H_ASR 0 sr_CCR 1 0 2,
  Row 0xe48 0xe4f H_LSR 0 sr_CCR 1 0 2,
  Row 0xe50 0xe57 H_ROXR sr_X sr_CCR 1 0 2,
  Row 0xe58 0xe5f H_ROR 0 sr_NZVC 1 0 2,
  Row 0xe60 0xe67 H_ASR_reg sr_X sr_CCR 1 0 2,
  Row 0xe68 0xe6f H_LSR_reg sr_X sr_CCR 1 0 2,
  Row 0xe70 0xe77 H_ROXR_reg sr_X sr_CCR 1 0 2,
  Row 0xe78 0xe7f H_ROR_reg 0 sr_NZVC 1 0 2,
  Row 0xe80 0xe87 H_ASR 0 sr_CCR 1 0 4,
  Row 0xe88 0xe8f H_LSR 0 sr_CCR 1 0 4,
  Row 0xe90 0xe97 H_ROXR sr_X sr_CCR 1 0 4,
  Row 0xe98 0xe9f H_ROR 0 sr_NZVC 1 0 4,
  Row 0xea0 0xea7 H_ASR_reg sr_X sr_CCR 1 0 4,
  Row 0xea8 0xeaf H_LSR_reg sr_X sr_CCR 1 0 4,
  Row 0xeb0 0xeb7 H_ROXR_reg sr_X sr_CCR 1 0 4,
  Row 0xeb8 0xebf H_ROR_reg 0 sr_NZVC 1 0 4,
  Row 0xd0 0xf9 H_ASR_mem 0 sr_CCR 1 1 2,
  Row 0x2d0 0x2f9 H_LSR_mem 0 sr_CCR 1 1 2,
  Row 0x4d0 0x4f9 H_ROXR_mem sr_X sr_CCR 1 1 2,
  Row 0x6d0 0x6f9 H_ROR_mem 0 sr_NZVC 1 1 2,
  Row 0x100 0x107 H_ASL 0 sr_CCR 1 0 1,
  Row 0x108 0x10f H_LSL 0 sr_CCR 1 0 1,
  Row 0x110 0x117 H_ROXL sr_X sr_CCR 1 0 1,
  Row 0x118 0x11f H_ROL 0 sr_NZVC 1 0 1,
  Row 0x120 0x127 H_ASL_reg sr_X sr_CCR 1 0 1,
  Row 0x128 0x12f H_LSL_reg sr_X sr_CCR 1 0 1,
  Row 0x130 0x137 H_ROXL_reg sr_X sr_CCR 1 0 1,
  Row 0x138 0x13f H_ROL_reg 0 sr_NZVC 1 0 1,
  Row 0x140 0x147 H_ASL 0 sr_CCR 1 0 2,
  Row 0x148 0x14f H_LSL 0 sr_CCR 1 0 2,
  Row 0x150 0x157 H_ROXL sr_X sr_CCR 1 0 2,
  Row 0x158 0x15f H_ROL 0 sr_NZVC 1 0 2]"

definition InsnTable_E_3 :: "handler_E opcode_def list" where
  "InsnTable_E_3 = [
  Row 0x160 0x167 H_ASL_reg sr_X sr_CCR 1 0 2,
  Row 0x168 0x16f H_LSL_reg sr_X sr_CCR 1 0 2,
  Row 0x170 0x177 H_ROXL_reg sr_X sr_CCR 1 0 2,
  Row 0x178 0x17f H_ROL_reg 0 sr_NZVC 1 0 2,
  Row 0x180 0x187 H_ASL 0 sr_CCR 1 0 4,
  Row 0x188 0x18f H_LSL 0 sr_CCR 1 0 4,
  Row 0x190 0x197 H_ROXL sr_X sr_CCR 1 0 4,
  Row 0x198 0x19f H_ROL 0 sr_NZVC 1 0 4,
  Row 0x1a0 0x1a7 H_ASL_reg sr_X sr_CCR 1 0 4,
  Row 0x1a8 0x1af H_LSL_reg sr_X sr_CCR 1 0 4,
  Row 0x1b0 0x1b7 H_ROXL_reg sr_X sr_CCR 1 0 4,
  Row 0x1b8 0x1bf H_ROL_reg 0 sr_NZVC 1 0 4,
  Row 0x300 0x307 H_ASL 0 sr_CCR 1 0 1,
  Row 0x308 0x30f H_LSL 0 sr_CCR 1 0 1,
  Row 0x310 0x317 H_ROXL sr_X sr_CCR 1 0 1,
  Row 0x318 0x31f H_ROL 0 sr_NZVC 1 0 1,
  Row 0x320 0x327 H_ASL_reg sr_X sr_CCR 1 0 1,
  Row 0x328 0x32f H_LSL_reg sr_X sr_CCR 1 0 1,
  Row 0x330 0x337 H_ROXL_reg sr_X sr_CCR 1 0 1,
  Row 0x338 0x33f H_ROL_reg 0 sr_NZVC 1 0 1,
  Row 0x340 0x347 H_ASL 0 sr_CCR 1 0 2,
  Row 0x348 0x34f H_LSL 0 sr_CCR 1 0 2,
  Row 0x350 0x357 H_ROXL sr_X sr_CCR 1 0 2,
  Row 0x358 0x35f H_ROL 0 sr_NZVC 1 0 2,
  Row 0x360 0x367 H_ASL_reg sr_X sr_CCR 1 0 2,
  Row 0x368 0x36f H_LSL_reg sr_X sr_CCR 1 0 2,
  Row 0x370 0x377 H_ROXL_reg sr_X sr_CCR 1 0 2,
  Row 0x378 0x37f H_ROL_reg 0 sr_NZVC 1 0 2,
  Row 0x380 0x387 H_ASL 0 sr_CCR 1 0 4,
  Row 0x388 0x38f H_LSL 0 sr_CCR 1 0 4,
  Row 0x390 0x397 H_ROXL sr_X sr_CCR 1 0 4,
  Row 0x398 0x39f H_ROL 0 sr_NZVC 1 0 4,
  Row 0x3a0 0x3a7 H_ASL_reg sr_X sr_CCR 1 0 4,
  Row 0x3a8 0x3af H_LSL_reg sr_X sr_CCR 1 0 4,
  Row 0x3b0 0x3b7 H_ROXL_reg sr_X sr_CCR 1 0 4,
  Row 0x3b8 0x3bf H_ROL_reg 0 sr_NZVC 1 0 4,
  Row 0x500 0x507 H_ASL 0 sr_CCR 1 0 1,
  Row 0x508 0x50f H_LSL 0 sr_CCR 1 0 1,
  Row 0x510 0x517 H_ROXL sr_X sr_CCR 1 0 1,
  Row 0x518 0x51f H_ROL 0 sr_NZVC 1 0 1,
  Row 0x520 0x527 H_ASL_reg sr_X sr_CCR 1 0 1,
  Row 0x528 0x52f H_LSL_reg sr_X sr_CCR 1 0 1,
  Row 0x530 0x537 H_ROXL_reg sr_X sr_CCR 1 0 1,
  Row 0x538 0x53f H_ROL_reg 0 sr_NZVC 1 0 1,
  Row 0x540 0x547 H_ASL 0 sr_CCR 1 0 2,
  Row 0x548 0x54f H_LSL 0 sr_CCR 1 0 2,
  Row 0x550 0x557 H_ROXL sr_X sr_CCR 1 0 2,
  Row 0x558 0x55f H_ROL 0 sr_NZVC 1 0 2,
  Row 0x560 0x567 H_ASL_reg sr_X sr_CCR 1 0 2,
  Row 0x568 0x56f H_LSL_reg sr_X sr_CCR 1 0 2,
  Row 0x570 0x577 H_ROXL_reg sr_X sr_CCR 1 0 2,
  Row 0x578 0x57f H_ROL_reg 0 sr_NZVC 1 0 2,
  Row 0x580 0x587 H_ASL 0 sr_CCR 1 0 4,
  Row 0x588 0x58f H_LSL 0 sr_CCR 1 0 4,
  Row 0x590 0x597 H_ROXL sr_X sr_CCR 1 0 4,
  Row 0x598 0x59f H_ROL 0 sr_NZVC 1 0 4,
  Row 0x5a0 0x5a7 H_ASL_reg sr_X sr_CCR 1 0 4,
  Row 0x5a8 0x5af H_LSL_reg sr_X sr_CCR 1 0 4,
  Row 0x5b0 0x5b7 H_ROXL_reg sr_X sr_CCR 1 0 4,
  Row 0x5b8 0x5bf H_ROL_reg 0 sr_NZVC 1 0 4,
  Row 0x700 0x707 H_ASL 0 sr_CCR 1 0 1,
  Row 0x708 0x70f H_LSL 0 sr_CCR 1 0 1,
  Row 0x710 0x717 H_ROXL sr_X sr_CCR 1 0 1,
  Row 0x718 0x71f H_ROL 0 sr_NZVC 1 0 1,
  Row 0x720 0x727 H_ASL_reg sr_X sr_CCR 1 0 1,
  Row 0x728 0x72f H_LSL_reg sr_X sr_CCR 1 0 1,
  Row 0x730 0x737 H_ROXL_reg sr_X sr_CCR 1 0 1,
  Row 0x738 0x73f H_ROL_reg 0 sr_NZVC 1 0 1,
  Row 0x740 0x747 H_ASL 0 sr_CCR 1 0 2,
  Row 0x748 0x74f H_LSL 0 sr_CCR 1 0 2,
  Row 0x750 0x757 H_ROXL sr_X sr_CCR 1 0 2,
  Row 0x758 0x75f H_ROL 0 sr_NZVC 1 0 2,
  Row 0x760 0x767 H_ASL_reg sr_X sr_CCR 1 0 2,
  Row 0x768 0x76f H_LSL_reg sr_X sr_CCR 1 0 2,
  Row 0x770 0x777 H_ROXL_reg sr_X sr_CCR 1 0 2,
  Row 0x778 0x77f H_ROL_reg 0 sr_NZVC 1 0 2,
  Row 0x780 0x787 H_ASL 0 sr_CCR 1 0 4,
  Row 0x788 0x78f H_LSL 0 sr_CCR 1 0 4,
  Row 0x790 0x797 H_ROXL sr_X sr_CCR 1 0 4,
  Row 0x798 0x79f H_ROL 0 sr_NZVC 1 0 4,
  Row 0x7a0 0x7a7 H_ASL_reg sr_X sr_CCR 1 0 4,
  Row 0x7a8 0x7af H_LSL_reg sr_X sr_CCR 1 0 4,
  Row 0x7b0 0x7b7 H_ROXL_reg sr_X sr_CCR 1 0 4,
  Row 0x7b8 0x7bf H_ROL_reg 0 sr_NZVC 1 0 4,
  Row 0x900 0x907 H_ASL 0 sr_CCR 1 0 1,
  Row 0x908 0x90f H_LSL 0 sr_CCR 1 0 1,
  Row 0x910 0x917 H_ROXL sr_X sr_CCR 1 0 1,
  Row 0x918 0x91f H_ROL 0 sr_NZVC 1 0 1,
  Row 0x920 0x927 H_ASL_reg sr_X sr_CCR 1 0 1,
  Row 0x928 0x92f H_LSL_reg sr_X sr_CCR 1 0 1,
  Row 0x930 0x937 H_ROXL_reg sr_X sr_CCR 1 0 1,
  Row 0x938 0x93f H_ROL_reg 0 sr_NZVC 1 0 1,
  Row 0x940 0x947 H_ASL 0 sr_CCR 1 0 2,
  Row 0x948 0x94f H_LSL 0 sr_CCR 1 0 2,
  Row 0x950 0x957 H_ROXL sr_X sr_CCR 1 0 2,
  Row 0x958 0x95f H_ROL 0 sr_NZVC 1 0 2,
  Row 0x960 0x967 H_ASL_reg sr_X sr_CCR 1 0 2,
  Row 0x968 0x96f H_LSL_reg sr_X sr_CCR 1 0 2,
  Row 0x970 0x977 H_ROXL_reg sr_X sr_CCR 1 0 2,
  Row 0x978 0x97f H_ROL_reg 0 sr_NZVC 1 0 2,
  Row 0x980 0x987 H_ASL 0 sr_CCR 1 0 4,
  Row 0x988 0x98f H_LSL 0 sr_CCR 1 0 4,
  Row 0x990 0x997 H_ROXL sr_X sr_CCR 1 0 4,
  Row 0x998 0x99f H_ROL 0 sr_NZVC 1 0 4]"

definition InsnTable_E_4 :: "handler_E opcode_def list" where
  "InsnTable_E_4 = [
  Row 0x9a0 0x9a7 H_ASL_reg sr_X sr_CCR 1 0 4,
  Row 0x9a8 0x9af H_LSL_reg sr_X sr_CCR 1 0 4,
  Row 0x9b0 0x9b7 H_ROXL_reg sr_X sr_CCR 1 0 4,
  Row 0x9b8 0x9bf H_ROL_reg 0 sr_NZVC 1 0 4,
  Row 0xb00 0xb07 H_ASL 0 sr_CCR 1 0 1,
  Row 0xb08 0xb0f H_LSL 0 sr_CCR 1 0 1,
  Row 0xb10 0xb17 H_ROXL sr_X sr_CCR 1 0 1,
  Row 0xb18 0xb1f H_ROL 0 sr_NZVC 1 0 1,
  Row 0xb20 0xb27 H_ASL_reg sr_X sr_CCR 1 0 1,
  Row 0xb28 0xb2f H_LSL_reg sr_X sr_CCR 1 0 1,
  Row 0xb30 0xb37 H_ROXL_reg sr_X sr_CCR 1 0 1,
  Row 0xb38 0xb3f H_ROL_reg 0 sr_NZVC 1 0 1,
  Row 0xb40 0xb47 H_ASL 0 sr_CCR 1 0 2,
  Row 0xb48 0xb4f H_LSL 0 sr_CCR 1 0 2,
  Row 0xb50 0xb57 H_ROXL sr_X sr_CCR 1 0 2,
  Row 0xb58 0xb5f H_ROL 0 sr_NZVC 1 0 2,
  Row 0xb60 0xb67 H_ASL_reg sr_X sr_CCR 1 0 2,
  Row 0xb68 0xb6f H_LSL_reg sr_X sr_CCR 1 0 2,
  Row 0xb70 0xb77 H_ROXL_reg sr_X sr_CCR 1 0 2,
  Row 0xb78 0xb7f H_ROL_reg 0 sr_NZVC 1 0 2,
  Row 0xb80 0xb87 H_ASL 0 sr_CCR 1 0 4,
  Row 0xb88 0xb8f H_LSL 0 sr_CCR 1 0 4,
  Row 0xb90 0xb97 H_ROXL sr_X sr_CCR 1 0 4,
  Row 0xb98 0xb9f H_ROL 0 sr_NZVC 1 0 4,
  Row 0xba0 0xba7 H_ASL_reg sr_X sr_CCR 1 0 4,
  Row 0xba8 0xbaf H_LSL_reg sr_X sr_CCR 1 0 4,
  Row 0xbb0 0xbb7 H_ROXL_reg sr_X sr_CCR 1 0 4,
  Row 0xbb8 0xbbf H_ROL_reg 0 sr_NZVC 1 0 4,
  Row 0xd00 0xd07 H_ASL 0 sr_CCR 1 0 1,
  Row 0xd08 0xd0f H_LSL 0 sr_CCR 1 0 1,
  Row 0xd10 0xd17 H_ROXL sr_X sr_CCR 1 0 1,
  Row 0xd18 0xd1f H_ROL 0 sr_NZVC 1 0 1,
  Row 0xd20 0xd27 H_ASL_reg sr_X sr_CCR 1 0 1,
  Row 0xd28 0xd2f H_LSL_reg sr_X sr_CCR 1 0 1,
  Row 0xd30 0xd37 H_ROXL_reg sr_X sr_CCR 1 0 1,
  Row 0xd38 0xd3f H_ROL_reg 0 sr_NZVC 1 0 1,
  Row 0xd40 0xd47 H_ASL 0 sr_CCR 1 0 2,
  Row 0xd48 0xd4f H_LSL 0 sr_CCR 1 0 2,
  Row 0xd50 0xd57 H_ROXL sr_X sr_CCR 1 0 2,
  Row 0xd58 0xd5f H_ROL 0 sr_NZVC 1 0 2,
  Row 0xd60 0xd67 H_ASL_reg sr_X sr_CCR 1 0 2,
  Row 0xd68 0xd6f H_LSL_reg sr_X sr_CCR 1 0 2,
  Row 0xd70 0xd77 H_ROXL_reg sr_X sr_CCR 1 0 2,
  Row 0xd78 0xd7f H_ROL_reg 0 sr_NZVC 1 0 2,
  Row 0xd80 0xd87 H_ASL 0 sr_CCR 1 0 4,
  Row 0xd88 0xd8f H_LSL 0 sr_CCR 1 0 4,
  Row 0xd90 0xd97 H_ROXL sr_X sr_CCR 1 0 4,
  Row 0xd98 0xd9f H_ROL 0 sr_NZVC 1 0 4,
  Row 0xda0 0xda7 H_ASL_reg sr_X sr_CCR 1 0 4,
  Row 0xda8 0xdaf H_LSL_reg sr_X sr_CCR 1 0 4,
  Row 0xdb0 0xdb7 H_ROXL_reg sr_X sr_CCR 1 0 4,
  Row 0xdb8 0xdbf H_ROL_reg 0 sr_NZVC 1 0 4,
  Row 0xf00 0xf07 H_ASL 0 sr_CCR 1 0 1,
  Row 0xf08 0xf0f H_LSL 0 sr_CCR 1 0 1,
  Row 0xf10 0xf17 H_ROXL sr_X sr_CCR 1 0 1,
  Row 0xf18 0xf1f H_ROL 0 sr_NZVC 1 0 1,
  Row 0xf20 0xf27 H_ASL_reg sr_X sr_CCR 1 0 1,
  Row 0xf28 0xf2f H_LSL_reg sr_X sr_CCR 1 0 1,
  Row 0xf30 0xf37 H_ROXL_reg sr_X sr_CCR 1 0 1,
  Row 0xf38 0xf3f H_ROL_reg 0 sr_NZVC 1 0 1,
  Row 0xf40 0xf47 H_ASL 0 sr_CCR 1 0 2,
  Row 0xf48 0xf4f H_LSL 0 sr_CCR 1 0 2,
  Row 0xf50 0xf57 H_ROXL sr_X sr_CCR 1 0 2,
  Row 0xf58 0xf5f H_ROL 0 sr_NZVC 1 0 2,
  Row 0xf60 0xf67 H_ASL_reg sr_X sr_CCR 1 0 2,
  Row 0xf68 0xf6f H_LSL_reg sr_X sr_CCR 1 0 2,
  Row 0xf70 0xf77 H_ROXL_reg sr_X sr_CCR 1 0 2,
  Row 0xf78 0xf7f H_ROL_reg 0 sr_NZVC 1 0 2,
  Row 0xf80 0xf87 H_ASL 0 sr_CCR 1 0 4,
  Row 0xf88 0xf8f H_LSL 0 sr_CCR 1 0 4,
  Row 0xf90 0xf97 H_ROXL sr_X sr_CCR 1 0 4,
  Row 0xf98 0xf9f H_ROL 0 sr_NZVC 1 0 4,
  Row 0xfa0 0xfa7 H_ASL_reg sr_X sr_CCR 1 0 4,
  Row 0xfa8 0xfaf H_LSL_reg sr_X sr_CCR 1 0 4,
  Row 0xfb0 0xfb7 H_ROXL_reg sr_X sr_CCR 1 0 4,
  Row 0xfb8 0xfbf H_ROL_reg 0 sr_NZVC 1 0 4,
  Row 0x1d0 0x1f9 H_ASL_mem 0 sr_CCR 1 1 2,
  Row 0x3d0 0x3f9 H_LSL_mem 0 sr_CCR 1 1 2,
  Row 0x5d0 0x5f9 H_ROXL_mem sr_X sr_CCR 1 1 2,
  Row 0x7d0 0x7f9 H_ROL_mem 0 sr_NZVC 1 1 2,
  Row 0x8c0 0x8c7 H_BFTST_reg 0 sr_NZVC 2 0 0,
  Row 0x8d0 0x8d7 H_BFTST 0 sr_NZVC 2 0 0,
  Row 0x8e8 0x8fb H_BFTST 0 sr_NZVC 2 1 0,
  Row 0xac0 0xac7 H_BFCHG_reg 0 sr_NZVC 2 0 0,
  Row 0xad0 0xad7 H_BFCHG 0 sr_NZVC 2 0 0,
  Row 0xae8 0xaf9 H_BFCHG 0 sr_NZVC 2 1 0,
  Row 0xcc0 0xcc7 H_BFCLR_reg 0 sr_NZVC 2 0 0,
  Row 0xcd0 0xcd7 H_BFCLR 0 sr_NZVC 2 0 0,
  Row 0xce8 0xcf9 H_BFCLR 0 sr_NZVC 2 1 0,
  Row 0xec0 0xec7 H_BFSET_reg 0 sr_NZVC 2 0 0,
  Row 0xed0 0xed7 H_BFSET 0 sr_NZVC 2 0 0,
  Row 0xee8 0xef9 H_BFSET 0 sr_NZVC 2 1 0,
  Row 0x9c0 0x9c7 H_BFEXTU_reg 0 sr_NZVC 2 0 0,
  Row 0x9d0 0x9d7 H_BFEXTU 0 sr_NZVC 2 0 0,
  Row 0x9e8 0x9fb H_BFEXTU 0 sr_NZVC 2 1 0,
  Row 0xbc0 0xbc7 H_BFEXTS_reg 0 sr_NZVC 2 0 0,
  Row 0xbd0 0xbd7 H_BFEXTS 0 sr_NZVC 2 0 0,
  Row 0xbe8 0xbfb H_BFEXTS 0 sr_NZVC 2 1 0,
  Row 0xdc0 0xdc7 H_BFFFO_reg 0 sr_NZVC 2 0 0,
  Row 0xdd0 0xdd7 H_BFFFO 0 sr_NZVC 2 0 0,
  Row 0xde8 0xdfb H_BFFFO 0 sr_NZVC 2 1 0,
  Row 0xfc0 0xfc7 H_BFINS_reg 0 sr_NZVC 2 0 0,
  Row 0xfd0 0xfd7 H_BFINS 0 sr_NZVC 2 0 0,
  Row 0xfe8 0xff9 H_BFINS 0 sr_NZVC 2 1 0]"

definition InsnTable_E :: "handler_E opcode_def list" where
  "InsnTable_E = InsnTable_E_1 @ InsnTable_E_2 @ InsnTable_E_3 @ InsnTable_E_4"

end
