(* ===== verification/Insn_Length.thy ===== *)
theory Insn_Length
  imports Opcode_Tables Cache_Ops
begin

text \<open>
  The length of an instruction in 16-bit words (\<open>M68k_SR.c\<close> and the length functions of the
  opcode groups). The code is read through the instruction cache. A read changes the cache
  but never what a later read returns (\<open>code_fetch_stable\<close>), so the functions that only
  look at code take the caches as they stand and leave them as they are. A pointer into
  the code is 64 bits wide, the address of a read is its low half.
\<close>

definition code16 :: "cache_sys \<Rightarrow> u64 \<Rightarrow> u16" where
  "code16 s p = fst (cache_read_16 ICACHE (ucast p) s)"

definition code32 :: "cache_sys \<Rightarrow> u64 \<Rightarrow> u32" where
  "code32 s p = fst (cache_read_32 ICACHE (ucast p) s)"

text \<open>The address of \<open>insn_stream[k]\<close>.\<close>

definition at :: "u64 \<Rightarrow> nat \<Rightarrow> u64" where
  "at p k = p + of_nat (2 * k)"

section \<open>Effective addresses\<close>

text \<open>The extension words of an indexed mode, from its first one.\<close>

definition brief_words :: "u16 \<Rightarrow> nat" where
  "brief_words brief = 1 +
    (if brief AND 0x100 \<noteq> 0 then
       (if brief AND 3 = 2 then 1 else if brief AND 3 = 3 then 2 else 0) +
       (if brief AND 0x30 = 0x20 then 1 else if brief AND 0x30 = 0x30 then 2 else 0)
     else 0)"

definition SR_GetEALength :: "cache_sys \<Rightarrow> u64 \<Rightarrow> u8 \<Rightarrow> u8 \<Rightarrow> nat" where
  "SR_GetEALength s insn_stream ea imm_size =
    (let mode = drop_bit 3 ea AND 7; reg = ea AND 7
     in if 4 < mode then
          (if mode = 5 then 1
           else if mode = 6 \<or> (mode = 7 \<and> reg = 3) then brief_words (code16 s insn_stream)
           else if mode = 7 then
             (if reg = 2 then 1 else if reg = 0 then 1 else if reg = 1 then 2
              else if reg = 4 then
                (if imm_size = 1 then 1 else if imm_size = 2 then 1 else if imm_size = 4 then 2
                 else if imm_size = 8 then 4 else if imm_size = 12 then 6 else 0)
              else 0)
           else 0)
        else 0)"

section \<open>Groups with a table\<close>

definition table_length :: "'e opcode_def list \<Rightarrow> u16 \<Rightarrow> cache_sys \<Rightarrow> u64 \<Rightarrow> nat" where
  "table_length t msk s insn_stream =
    (let opcode = code16 s insn_stream
     in case InsnTable_entry t (unat (opcode AND msk)) of None \<Rightarrow> 0
        | Some r \<Rightarrow> od_BaseLength r +
            (if od_HasEA r \<noteq> 0
             then SR_GetEALength s (at insn_stream (od_BaseLength r)) (ucast (opcode AND 0x3f)) (od_OpSize r)
             else 0))"

definition M68K_GetLine0Length :: "cache_sys \<Rightarrow> u64 \<Rightarrow> nat" where
  "M68K_GetLine0Length s p = table_length InsnTable_0 0xfff s p"

definition M68K_GetLine4Length :: "cache_sys \<Rightarrow> u64 \<Rightarrow> nat" where
  "M68K_GetLine4Length s p = table_length InsnTable_4 0xfff s p"

definition M68K_GetLine5Length :: "cache_sys \<Rightarrow> u64 \<Rightarrow> nat" where
  "M68K_GetLine5Length s p = table_length InsnTable_5 0x1ff s p"

definition M68K_GetLine8Length :: "cache_sys \<Rightarrow> u64 \<Rightarrow> nat" where
  "M68K_GetLine8Length s p = table_length InsnTable_8 0x1ff s p"

definition M68K_GetLine9Length :: "cache_sys \<Rightarrow> u64 \<Rightarrow> nat" where
  "M68K_GetLine9Length s p = table_length InsnTable_9 0x1ff s p"

definition M68K_GetLineBLength :: "cache_sys \<Rightarrow> u64 \<Rightarrow> nat" where
  "M68K_GetLineBLength s p = table_length InsnTable_B 0x1ff s p"

definition M68K_GetLineCLength :: "cache_sys \<Rightarrow> u64 \<Rightarrow> nat" where
  "M68K_GetLineCLength s p = table_length InsnTable_C 0x1ff s p"

definition M68K_GetLineDLength :: "cache_sys \<Rightarrow> u64 \<Rightarrow> nat" where
  "M68K_GetLineDLength s p = table_length InsnTable_D 0x1ff s p"

definition M68K_GetLineELength :: "cache_sys \<Rightarrow> u64 \<Rightarrow> nat" where
  "M68K_GetLineELength s p = table_length InsnTable_E 0xfff s p"

section \<open>Groups without one\<close>

definition M68K_GetLine6Length :: "cache_sys \<Rightarrow> u64 \<Rightarrow> nat" where
  "M68K_GetLine6Length s p =
    (let opcode = code16 s p
     in if opcode AND 0xff = 0 then 2 else if opcode AND 0xff = 0xff then 3 else 1)"

definition M68K_GetMoveLength :: "cache_sys \<Rightarrow> u64 \<Rightarrow> nat" where
  "M68K_GetMoveLength s p =
    (let opcode = code16 s p;
         size = (if opcode AND 0x3000 = 0x1000 then 1 else if opcode AND 0x3000 = 0x2000 then 4 else 2);
         length = 1 + SR_GetEALength s (at p 1) (ucast (opcode AND 0x3f)) size;
         ea = ucast (drop_bit 3 opcode AND 0x38) OR ucast (drop_bit 9 opcode AND 7)
     in length + SR_GetEALength s (at p length) ea size)"

text \<open>The operand size in words of a floating-point instruction, by its source format.\<close>

definition fpu_size :: "u16 \<Rightarrow> u8" where
  "fpu_size opcode2 =
    (let f = drop_bit 10 opcode2 AND 7
     in if f = 0 \<or> f = 1 then 2 else if f = 2 then 6 else if f = 3 then 6
        else if f = 4 \<or> f = 6 then 1 else if f = 5 then 4 else 0)"

text \<open>
  The body shared by the instructions with a register or a memory source: two words, and
  an effective address when the source is in memory.
\<close>

definition fpu_operand :: "u16 \<Rightarrow> nat \<times> bool \<times> u8" where
  "fpu_operand opcode2 = (if opcode2 AND 0x4000 \<noteq> 0 then (2, True, fpu_size opcode2) else (2, False, 0))"

text \<open>
  The chain of cases, in four parts: the length, whether there is an effective address,
  its size in words. Each part hands on to the next one.
\<close>

type_synonym lineF_insn = "nat \<times> bool \<times> u8"

abbreviation fpu_op :: "u16 \<Rightarrow> bool" where "fpu_op opcode \<equiv> opcode AND 0xffc0 = 0xf200"
abbreviation fpu_fn :: "u16 \<Rightarrow> u16" where "fpu_fn opcode2 \<equiv> opcode2 AND 0xa07f"
abbreviation fpu_rnd :: "u16 \<Rightarrow> u16" where "fpu_rnd opcode2 \<equiv> opcode2 AND 0xa07b"

definition lineF_MOVE16_to_FCMP :: "u16 \<Rightarrow> u16 \<Rightarrow> lineF_insn \<Rightarrow> lineF_insn" where
  "lineF_MOVE16_to_FCMP opcode opcode2 rest =
    (if opcode AND 0xfff8 = 0xf620 \<and> opcode2 AND 0x8fff = 0x8000 then (2, False, 0)
     else if opcode AND 0xffe0 = 0xf600 then (3, False, 0)
     else if opcode AND 0xff20 = 0xf400 then (1, False, 0)
     else if opcode AND 0xff20 = 0xf420 then (1, False, 0)
     else if opcode = 0xf200 \<and> opcode2 AND 0xfc00 = 0x5c00 then (2, False, 0)
     else if fpu_op opcode \<and> (fpu_fn opcode2 = 0x0018 \<or> fpu_rnd opcode2 = 0x0058) then fpu_operand opcode2
     else if fpu_op opcode \<and> (fpu_fn opcode2 = 0x0022 \<or> fpu_rnd opcode2 = 0x0062) then fpu_operand opcode2
     else if opcode AND 0xff80 = 0xf280 then (if opcode AND 0x40 \<noteq> 0 then (3, False, 0) else (2, False, 0))
     else if fpu_op opcode \<and> fpu_fn opcode2 = 0x0038 then fpu_operand opcode2
     else rest)"

definition lineF_FDIV_to_FLOGN :: "u16 \<Rightarrow> u16 \<Rightarrow> lineF_insn \<Rightarrow> lineF_insn" where
  "lineF_FDIV_to_FLOGN opcode opcode2 rest =
    (if fpu_op opcode \<and> (fpu_fn opcode2 = 0x0020 \<or> fpu_rnd opcode2 = 0x0060) then fpu_operand opcode2
     else if fpu_op opcode \<and> fpu_fn opcode2 = 0x0001 then fpu_operand opcode2
     else if fpu_op opcode \<and> fpu_fn opcode2 = 0x0003 then fpu_operand opcode2
     else if fpu_op opcode \<and> fpu_fn opcode2 = 0x0014 then fpu_operand opcode2
     else rest)"

definition lineF_FMOVE_to_FNEG :: "u16 \<Rightarrow> u16 \<Rightarrow> lineF_insn \<Rightarrow> lineF_insn" where
  "lineF_FMOVE_to_FNEG opcode opcode2 rest =
    (if fpu_op opcode \<and> (fpu_fn opcode2 = 0x0000 \<or> fpu_rnd opcode2 = 0x0040) then fpu_operand opcode2
     else if fpu_op opcode \<and> opcode2 AND 0xe07f = 0x6000 then
       (2, True, if drop_bit 10 opcode2 AND 7 = 7 then 6 else fpu_size opcode2)
     else if fpu_op opcode \<and> opcode2 AND 0xe3ff = 0xa000 then (2, True, 2)
     else if fpu_op opcode \<and> opcode2 AND 0xe3ff = 0x8000 then (2, True, 2)
     else if fpu_op opcode \<and> opcode2 AND 0xc700 = 0xc000 then (2, True, 0)
     else if fpu_op opcode \<and> (fpu_fn opcode2 = 0x0023 \<or> fpu_rnd opcode2 = 0x0063) then fpu_operand opcode2
     else if fpu_op opcode \<and> (fpu_fn opcode2 = 0x001a \<or> fpu_rnd opcode2 = 0x005a) then fpu_operand opcode2
     else rest)"

definition lineF_FTST_to_FCOS :: "u16 \<Rightarrow> u16 \<Rightarrow> lineF_insn \<Rightarrow> lineF_insn" where
  "lineF_FTST_to_FCOS opcode opcode2 rest =
    (if fpu_op opcode \<and> fpu_fn opcode2 = 0x003a then fpu_operand opcode2
     else if opcode AND 0xffc0 = 0xf240 \<and> opcode2 AND 0xffc0 = 0 then (2, True, 1)
     else if fpu_op opcode \<and> (fpu_fn opcode2 = 0x0004 \<or> fpu_rnd opcode2 = 0x0041) then fpu_operand opcode2
     else if fpu_op opcode \<and> (fpu_fn opcode2 = 0x0028 \<or> fpu_rnd opcode2 = 0x0068) then fpu_operand opcode2
     else if fpu_op opcode \<and> fpu_fn opcode2 = 0x000e then fpu_operand opcode2
     else if fpu_op opcode \<and> fpu_fn opcode2 = 0x001d then fpu_operand opcode2
     else rest)"

text \<open>\<open>FNOP\<close> and everything else have two words.\<close>

definition lineF_case :: "u16 \<Rightarrow> u16 \<Rightarrow> lineF_insn" where
  "lineF_case opcode opcode2 =
    lineF_MOVE16_to_FCMP opcode opcode2 (lineF_FDIV_to_FLOGN opcode opcode2
      (lineF_FMOVE_to_FNEG opcode opcode2 (lineF_FTST_to_FCOS opcode opcode2 (2, False, 0))))"

definition M68K_GetLineFLength :: "cache_sys \<Rightarrow> u64 \<Rightarrow> nat" where
  "M68K_GetLineFLength s p =
    (let opcode = code16 s p; opcode2 = code16 s (at p 1);
         (length, need_ea, opsize) = lineF_case opcode opcode2
     in if need_ea then length + SR_GetEALength s (at p length) (ucast (opcode AND 0x3f)) (opsize * 2) else length)"

section \<open>Any instruction\<close>

definition M68K_GetINSNLength :: "cache_sys \<Rightarrow> u64 \<Rightarrow> nat" where
  "M68K_GetINSNLength s p =
    (let line = unat (drop_bit 12 (code16 s p))
     in if line = 0 then M68K_GetLine0Length s p
        else if line = 1 \<or> line = 2 \<or> line = 3 then M68K_GetMoveLength s p
        else if line = 4 then M68K_GetLine4Length s p
        else if line = 5 then M68K_GetLine5Length s p
        else if line = 6 then M68K_GetLine6Length s p
        else if line = 7 then 1
        else if line = 8 then M68K_GetLine8Length s p
        else if line = 9 then M68K_GetLine9Length s p
        else if line = 10 then 1
        else if line = 11 then M68K_GetLineBLength s p
        else if line = 12 then M68K_GetLineCLength s p
        else if line = 13 then M68K_GetLineDLength s p
        else if line = 14 then M68K_GetLineELength s p
        else M68K_GetLineFLength s p)"

section \<open>Bounds\<close>

lemma SR_GetEALength_bound: "SR_GetEALength s p ea sz \<le> 6"
  by (auto simp: SR_GetEALength_def brief_words_def Let_def)

text \<open>An operand of at most four bytes has at most five extension words.\<close>

lemma SR_GetEALength_integer: "sz \<noteq> 12 \<Longrightarrow> SR_GetEALength s p ea sz \<le> 5"
  by (auto simp: SR_GetEALength_def brief_words_def Let_def)

lemma InsnTable_entry_in: "InsnTable_entry t i = Some r \<Longrightarrow> r \<in> set t"
  by (auto simp: InsnTable_entry_def find_Some_iff)

definition row_ok :: "'e opcode_def \<Rightarrow> bool" where
  "row_ok r \<longleftrightarrow> 1 \<le> od_BaseLength r \<and> od_BaseLength r \<le> 3 \<and> od_OpSize r \<noteq> 12"

lemma table_length_bound:
  assumes "list_all row_ok t"
  shows "table_length t msk s p \<le> 8"
    "InsnTable_entry t (unat (code16 s p AND msk)) \<noteq> None \<Longrightarrow> 1 \<le> table_length t msk s p"
proof -
  have b: "1 \<le> od_BaseLength r \<and> od_BaseLength r \<le> 3 \<and> od_OpSize r \<noteq> 12"
    if "InsnTable_entry t i = Some r" for i r
    using assms InsnTable_entry_in [OF that] by (auto simp: list_all_iff row_ok_def)
  have k: "od_BaseLength r + SR_GetEALength s q e (od_OpSize r) \<le> 8 \<and> od_BaseLength r \<le> 8"
    if "InsnTable_entry t i = Some r" for i r q e
    using b [OF that] SR_GetEALength_integer [of "od_OpSize r" s q e] by simp
  show "table_length t msk s p \<le> 8"
    using k by (simp add: table_length_def Let_def split: option.split)
  show "InsnTable_entry t (unat (code16 s p AND msk)) \<noteq> None \<Longrightarrow> 1 \<le> table_length t msk s p"
    using b by (auto simp: table_length_def Let_def split: option.split intro: trans_le_add1)
qed

text \<open>The tables of the groups satisfy the side condition.\<close>

lemmas table_parts = InsnTable_0_def InsnTable_0_1_def InsnTable_0_2_def InsnTable_4_def InsnTable_4_1_def
  InsnTable_4_2_def InsnTable_5_def InsnTable_8_def InsnTable_9_def InsnTable_B_def InsnTable_C_def InsnTable_D_def
  InsnTable_E_def InsnTable_E_1_def InsnTable_E_2_def InsnTable_E_3_def InsnTable_E_4_def

lemma table_rows:
  "list_all row_ok InsnTable_0" "list_all row_ok InsnTable_4" "list_all row_ok InsnTable_5" "list_all row_ok InsnTable_8"
  "list_all row_ok InsnTable_9" "list_all row_ok InsnTable_B" "list_all row_ok InsnTable_C" "list_all row_ok InsnTable_D"
  "list_all row_ok InsnTable_E"
  by (simp_all add: table_parts row_ok_def)

lemma move_length_bound: "M68K_GetMoveLength s p \<le> 11 \<and> 1 \<le> M68K_GetMoveLength s p"
proof -
  define sz :: u8 where "sz = (if code16 s p AND 0x3000 = 0x1000 then 1 else if code16 s p AND 0x3000 = 0x2000 then 4 else 2)"
  then have "sz \<noteq> 12" by simp
  then have b: "SR_GetEALength s q ea sz \<le> 5" for q ea by (rule SR_GetEALength_integer)
  show ?thesis
    unfolding M68K_GetMoveLength_def Let_def sz_def [symmetric] using add_mono [OF b b] by simp
qed

lemma lineF_case_length: "fst (lineF_case o1 o2) \<in> {1, 2, 3} \<and> (fst (snd (lineF_case o1 o2)) \<longrightarrow> fst (lineF_case o1 o2) = 2)"
  by (simp add: lineF_case_def lineF_MOVE16_to_FCMP_def lineF_FDIV_to_FLOGN_def lineF_FMOVE_to_FNEG_def
    lineF_FTST_to_FCOS_def fpu_operand_def)

lemma lineF_length_bound: "M68K_GetLineFLength s p \<le> 8" "1 \<le> M68K_GetLineFLength s p"
proof -
  obtain l n z where c: "lineF_case (code16 s p) (code16 s (at p 1)) = (l, n, z)" by (metis prod_cases3)
  have "l \<in> {1, 2, 3}" "n \<longrightarrow> l = 2" using lineF_case_length [of "code16 s p" "code16 s (at p 1)"] c by auto
  then show "M68K_GetLineFLength s p \<le> 8" "1 \<le> M68K_GetLineFLength s p"
    using SR_GetEALength_bound [of s "at p 2" _ "z * 2"] by (auto simp: M68K_GetLineFLength_def Let_def c [simplified])
qed

end
