(* ===== verification/SR_Scan.thy ===== *)
theory SR_Scan
  imports Insn_Length
begin

text \<open>
  The search for flags nobody will look at (\<open>M68k_SR.c\<close>): from an instruction that sets
  flags the translator follows the code, up to a depth, and finds the flags that are
  overwritten before any instruction needs them. The flags an instruction needs and sets
  come from the opcode tables of the groups.
\<close>

section \<open>Flags needed and set\<close>

definition table_SR :: "'e opcode_def list \<Rightarrow> nat \<Rightarrow> u32" where
  "table_SR t i = (case InsnTable_entry t i of
     Some r \<Rightarrow> push_bit 16 (ucast (od_SRNeeds r)) OR ucast (od_SRSets r)
   | None \<Rightarrow> push_bit 16 (ucast sr_CCR))"

definition GetSR_Line0 :: "u16 \<Rightarrow> u32" where
  "GetSR_Line0 opcode = table_SR InsnTable_0 (unat (opcode AND 0xfff))"

definition GetSR_Line1 :: "u16 \<Rightarrow> u32" where
  "GetSR_Line1 opcode =
    (if opcode AND 0x01c0 = 0x0040 then push_bit 16 (ucast sr_CCR)
     else if opcode AND 0x01c0 = 0x01c0 \<and> 0x0200 < opcode AND 0x0e00 then push_bit 16 (ucast sr_CCR)
     else if opcode AND 0x0038 = 0x0038 \<and> 4 < opcode AND 7 then push_bit 16 (ucast sr_CCR)
     else ucast sr_NZVC)"

definition GetSR_Line2 :: "u16 \<Rightarrow> u32" where
  "GetSR_Line2 opcode =
    (if opcode AND 0x01c0 = 0x0040 then 0
     else if opcode AND 0x01c0 = 0x01c0 \<and> 0x0200 < opcode AND 0x0e00 then push_bit 16 (ucast sr_CCR)
     else if opcode AND 0x0038 = 0x0038 \<and> 4 < opcode AND 7 then push_bit 16 (ucast sr_CCR)
     else ucast sr_NZVC)"

definition GetSR_Line3 :: "u16 \<Rightarrow> u32" where
  "GetSR_Line3 opcode = GetSR_Line2 opcode"

definition GetSR_Line4 :: "u16 \<Rightarrow> u32" where
  "GetSR_Line4 opcode = table_SR InsnTable_4 (unat (opcode AND 0xfff))"

text \<open>The flags a condition reads, in the order of the condition codes from true to less or equal.\<close>

definition CC_needs :: "u16 list" where
  "CC_needs = [0, 0, sr_ZC, sr_ZC, sr_C, sr_C, sr_Z, sr_Z, sr_V, sr_V, sr_N, sr_N, sr_NV, sr_NV, sr_NZV, sr_NZV]"

definition GetSR_Line5 :: "u16 \<Rightarrow> u32" where
  "GetSR_Line5 opcode = (case InsnTable_entry InsnTable_5 (unat (opcode AND 0x1ff)) of
     Some r \<Rightarrow> if od_Emit r = H_DBcc then push_bit 16 (ucast (CC_needs ! unat (drop_bit 8 (opcode AND 0x0f00))))
       else if od_Emit r = H_Scc then push_bit 16 (ucast (CC_needs ! unat (drop_bit 8 (opcode AND 0x0f00))))
       else push_bit 16 (ucast (od_SRNeeds r)) OR ucast (od_SRSets r)
   | None \<Rightarrow> push_bit 16 (ucast sr_CCR))"

text \<open>Group 6 has a row for each of its sixteen indices.\<close>

definition GetSR_Line6 :: "u16 \<Rightarrow> u32" where
  "GetSR_Line6 opcode = table_SR InsnTable_6 (unat (drop_bit 8 opcode AND 15))"

definition GetSR_Line7 :: "u16 \<Rightarrow> u32" where
  "GetSR_Line7 opcode = (if opcode AND 0x100 \<noteq> 0 then push_bit 16 (ucast sr_CCR) else ucast sr_NZVC)"

definition GetSR_Line8 :: "u16 \<Rightarrow> u32" where
  "GetSR_Line8 opcode = table_SR InsnTable_8 (unat (opcode AND 0x1ff))"

definition GetSR_Line9 :: "u16 \<Rightarrow> u32" where
  "GetSR_Line9 opcode = table_SR InsnTable_9 (unat (opcode AND 0x1ff))"

definition GetSR_def :: "u16 \<Rightarrow> u32" where
  "GetSR_def opcode = push_bit 16 (ucast sr_CCR) OR ucast sr_CCR"

definition GetSR_LineB :: "u16 \<Rightarrow> u32" where
  "GetSR_LineB opcode = table_SR InsnTable_B (unat (opcode AND 0x1ff))"

definition GetSR_LineC :: "u16 \<Rightarrow> u32" where
  "GetSR_LineC opcode = table_SR InsnTable_C (unat (opcode AND 0x1ff))"

definition GetSR_LineD :: "u16 \<Rightarrow> u32" where
  "GetSR_LineD opcode = table_SR InsnTable_D (unat (opcode AND 0x1ff))"

definition GetSR_LineE :: "u16 \<Rightarrow> u32" where
  "GetSR_LineE opcode = table_SR InsnTable_E (unat (opcode AND 0xfff))"

definition SRCheck :: "(u16 \<Rightarrow> u32) list" where
  "SRCheck = [GetSR_Line0, GetSR_Line1, GetSR_Line2, GetSR_Line3, GetSR_Line4, GetSR_Line5, GetSR_Line6,
     GetSR_Line7, GetSR_Line8, GetSR_Line9, GetSR_def, GetSR_LineB, GetSR_LineC, GetSR_LineD, GetSR_LineE,
     GetSR_def]"

definition SR_flags :: "u16 \<Rightarrow> u32" where
  "SR_flags opcode = (SRCheck ! unat (drop_bit 12 opcode)) opcode"

text \<open>The two halves as the search uses them.\<close>

definition SR_sets :: "u16 \<Rightarrow> u8" where
  "SR_sets opcode = ucast (SR_flags opcode) AND 0x1f"

definition SR_needs :: "u16 \<Rightarrow> u8" where
  "SR_needs opcode = ucast (drop_bit 16 (SR_flags opcode)) AND 0x1f"

section \<open>Branches\<close>

definition M68K_IsBranch :: "cache_sys \<Rightarrow> u64 \<Rightarrow> bool" where
  "M68K_IsBranch s p =
    (let opcode = code16 s p
     in opcode = 0x007c \<or> opcode = 0x027c \<or> opcode = 0x0a7c \<or> opcode AND 0xffc0 = 0x40c0 \<or>
        opcode AND 0xffc0 = 0x46c0 \<or> opcode AND 0xfff8 = 0x4848 \<or> opcode = 0x4afc \<or>
        opcode AND 0xfff0 = 0x4e40 \<or> opcode AND 0xfff0 = 0x4e60 \<or> opcode = 0x4e70 \<or> opcode = 0x4e72 \<or>
        opcode = 0x4e73 \<or> opcode = 0x4e74 \<or> opcode = 0x4e75 \<or> opcode = 0x4e76 \<or> opcode = 0x4e77 \<or>
        opcode AND 0xfffe = 0x4e7a \<or> opcode AND 0xff80 = 0x4e80 \<or> opcode AND 0xf0f8 = 0x50c8 \<or>
        opcode AND 0xf000 = 0x6000)"

text \<open>\<open>None\<close> is the null pointer. The offset is a signed 32-bit integer, added to the pointer.\<close>

definition M68K_TryFollowBranch :: "cache_sys \<Rightarrow> u64 \<Rightarrow> u64 option" where
  "M68K_TryFollowBranch s p =
    (let opcode = code16 s p; q = p + 2
     in if opcode AND 0xff00 = 0x6000 then
          (let bra_off = (if opcode AND 0x00ff = 0 then scast (code16 s q) :: u32
             else if opcode AND 0x00ff = 0xff then code32 s q
             else scast (ucast (opcode AND 0xff) :: u8))
           in Some (q + scast bra_off))
        else None)"

section \<open>The search\<close>

text \<open>The displacement of a branch of group 6, and where the search takes it to go.\<close>

definition bra_offset :: "cache_sys \<Rightarrow> u64 \<Rightarrow> u32" where
  "bra_offset s p =
    (let opcode = code16 s p
     in if opcode AND 0xff = 0 then scast (code16 s (at p 1))
        else if opcode AND 0xff = 0xff then ucast (code16 s (at p 2)) OR push_bit 16 (ucast (code16 s (at p 1)))
        else scast (ucast (opcode AND 0xff) :: u8))"

definition branch_to :: "u64 \<Rightarrow> u32 \<Rightarrow> u64" where
  "branch_to p offset = at p 1 + 2 * scast (signed_drop_bit 1 offset)"

datatype next_insn = Goto u64 | Split u64 u64 | Stop

text \<open>
  One step of the search. The displacement of \<open>DBcc\<close> is read through the pointer itself,
  not through the cache.
\<close>

definition scan_next :: "cache_sys \<Rightarrow> u64 \<Rightarrow> next_insn" where
  "scan_next s p =
    (let opcode = code16 s p
     in if M68K_IsBranch s p then
          (if opcode AND 0xfe00 = 0x6000 then Goto (branch_to p (bra_offset s p))
           else if opcode AND 0xffbe = 0x4eb8 then
             (if opcode AND 1 \<noteq> 0 then
                Goto (scast (ucast (code16 s (at p 2)) OR push_bit 16 (ucast (code16 s (at p 1))) :: u32))
              else Goto (ucast (ucast (code16 s (at p 1)) :: u32)))
           else if opcode AND 0xf000 = 0x6000 then
             Split (branch_to p (bra_offset s p))
               (at p (if opcode AND 0xff = 0 then 2 else if opcode AND 0xff = 0xff then 3 else 1))
           else if opcode AND 0xf0f8 = 0x50c8 then
             Split (branch_to p (scast (be_val (peek (phys s) (at p 1) 2) :: u16))) (at p 2)
           else Stop)
        else Goto (at p (M68K_GetINSNLength s p)))"

text \<open>
  The two inner loops, which stop at any branch. The first argument counts down from the
  depth that is left: the loop condition is that it is not used up.
\<close>

fun scan_path :: "nat \<Rightarrow> cache_sys \<Rightarrow> u64 \<Rightarrow> u8 \<Rightarrow> u8 \<Rightarrow> u8 \<times> u8" where
  "scan_path 0 s p msk needed = (msk, needed)"
| "scan_path (Suc k) s p msk needed =
    (if msk = 0 \<or> M68K_IsBranch s p then (msk, needed)
     else let opcode = code16 s p; needed' = needed OR (msk AND SR_needs opcode);
              msk' = msk AND NOT (SR_sets opcode)
          in if msk' AND SR_needs opcode = msk' then (msk', needed')
             else scan_path k s (at p (M68K_GetINSNLength s p)) msk' needed')"

fun scan :: "nat \<Rightarrow> cache_sys \<Rightarrow> u64 \<Rightarrow> u8 \<Rightarrow> u8 \<Rightarrow> u8" where
  "scan 0 s p msk needed = msk OR needed"
| "scan (Suc k) s p msk needed =
    (if msk = 0 then msk OR needed
     else case scan_next s p of
       Stop \<Rightarrow> msk OR needed
     | Split t n \<Rightarrow>
         (let needed = needed OR (msk AND SR_needs (code16 s p));
              (msk1, needed1) = scan_path k s t msk needed;
              (msk2, needed2) = scan_path k s n msk needed
          in msk1 OR needed1 OR msk2 OR needed2)
     | Goto q \<Rightarrow>
         (let opcode = code16 s q; needed' = needed OR (msk AND SR_needs opcode);
              msk' = msk AND NOT (SR_sets opcode)
          in if msk' AND SR_needs opcode = msk' then msk' OR needed' else scan k s q msk' needed'))"

text \<open>\<open>jit_control2\<close> is the control word of the emulator; five of its bits are the depth.\<close>

definition M68K_GetSRMask :: "u32 \<Rightarrow> cache_sys \<Rightarrow> u64 \<Rightarrow> u8" where
  "M68K_GetSRMask jit_control2 s p =
    scan (unat (drop_bit 3 jit_control2 AND 0x1f)) s p (SR_sets (code16 s p)) 0"

section \<open>Which flags are live\<close>

text \<open>
  The specification side. \<open>successors\<close> is where the processor may go after an instruction,
  \<open>None\<close> where the code does not tell: displacements are added as they are, a short
  absolute address is sign-extended. A flag is live before an instruction when the
  instruction needs it, or leaves it alone and it is live after it or control goes where
  the code does not tell.
\<close>

definition successors :: "cache_sys \<Rightarrow> u64 \<Rightarrow> u64 set option" where
  "successors s p =
    (let opcode = code16 s p
     in if \<not> M68K_IsBranch s p then Some {at p (M68K_GetINSNLength s p)}
        else if opcode AND 0xfe00 = 0x6000 then Some {p + 2 + scast (bra_offset s p)}
        else if opcode AND 0xffbe = 0x4eb8 then
          Some {if opcode AND 1 \<noteq> 0
                then scast (push_bit 16 (ucast (code16 s (at p 1))) OR ucast (code16 s (at p 2)) :: u32)
                else scast (code16 s (at p 1))}
        else if opcode AND 0xf000 = 0x6000 then
          Some {p + 2 + scast (bra_offset s p), at p (M68K_GetLine6Length s p)}
        else if opcode AND 0xf0f8 = 0x50c8 then Some {p + 2 + scast (code16 s (at p 1)), at p 2}
        else None)"

inductive live :: "cache_sys \<Rightarrow> nat \<Rightarrow> u64 \<Rightarrow> bool" for s f where
  needed: "bit (SR_needs (code16 s p)) f \<Longrightarrow> live s f p"
| unknown: "\<not> bit (SR_sets (code16 s p)) f \<Longrightarrow> successors s p = None \<Longrightarrow> live s f p"
| flows: "\<not> bit (SR_sets (code16 s p)) f \<Longrightarrow> successors s p = Some Q \<Longrightarrow> q \<in> Q \<Longrightarrow> live s f q \<Longrightarrow> live s f p"

inductive_cases live_cases: "live s f p"

text \<open>Live after an instruction.\<close>

definition live_after :: "cache_sys \<Rightarrow> nat \<Rightarrow> u64 \<Rightarrow> bool" where
  "live_after s f p \<longleftrightarrow> (case successors s p of None \<Rightarrow> True | Some Q \<Rightarrow> (\<exists>q\<in>Q. live s f q))"

lemma live_iff:
  "live s f p \<longleftrightarrow> bit (SR_needs (code16 s p)) f \<or> (\<not> bit (SR_sets (code16 s p)) f \<and> live_after s f p)"
  (is "?l \<longleftrightarrow> ?r")
proof
  show "?l \<Longrightarrow> ?r"
    by (erule live_cases; simp add: live_after_def; blast)
  show "?r \<Longrightarrow> ?l"
    unfolding live_after_def by (cases "successors s p") (auto intro: live.intros)
qed

text \<open>
  What the search takes for granted of the code: even displacements, no short absolute
  jump to the upper half of the address space, and a \<open>DBcc\<close> displacement in memory that
  is the one in the cache.
\<close>

definition ordinary_code :: "cache_sys \<Rightarrow> bool" where
  "ordinary_code s \<longleftrightarrow> (\<forall>p.
     (code16 s p AND 0xf000 = 0x6000 \<longrightarrow> \<not> bit (bra_offset s p) 0) \<and>
     (code16 s p AND 0xffbf = 0x4eb8 \<longrightarrow> \<not> bit (code16 s (at p 1)) 15) \<and>
     (code16 s p AND 0xf0f8 = 0x50c8 \<longrightarrow> \<not> bit (code16 s (at p 1)) 0 \<and>
        be_val (peek (phys s) (at p 1) 2) = code16 s (at p 1)))"

end
