(* ===== verification/SR_Theorems.thy ===== *)
theory SR_Theorems
  imports SR_Scan Cond_Test Cache_Theorems
begin

text \<open>
  The search for dead flags is sound: a flag it drops is dead on every path. The two loops
  are dealt with by induction on the depth that is left; what they keep adding to
  \<open>needed\<close> is never taken back, and a flag that leaves the mask is set by the instruction
  that took it out.
\<close>

section \<open>The targets of a step\<close>

lemma halved_offset: "\<not> bit x 0 \<Longrightarrow> 2 * scast (signed_drop_bit 1 x) = (scast x :: u64)" for x :: u32
proof -
  assume "\<not> bit x 0"
  then have "even (sint x)" using bit_sint_iff [of x 0] by (simp add: bit_0)
  moreover have "sint (signed_drop_bit 1 x) = sint x div 2" by (simp add: sint_signed_drop_bit_eq drop_bit_eq_div)
  ultimately have "2 * sint (signed_drop_bit 1 x) = sint x" by simp
  moreover have "2 * scast (signed_drop_bit 1 x) = (word_of_int (2 * sint (signed_drop_bit 1 x)) :: u64)"
    by (simp only: scast_eq of_int_mult of_int_numeral)
  ultimately show ?thesis by (simp only: scast_eq)
qed

lemma branch_to_even: "\<not> bit x 0 \<Longrightarrow> branch_to p x = p + 2 + scast x"
  by (simp add: branch_to_def at_def halved_offset del: One_nat_def)

lemma branch_to_word: "\<not> bit w 0 \<Longrightarrow> branch_to p (scast (w :: u16)) = p + 2 + scast w"
proof -
  assume w: "\<not> bit w 0"
  then have "\<not> bit (scast w :: u32) 0" by (simp add: bit_simps)
  then have "branch_to p (scast w) = p + 2 + scast (scast w :: u32)" by (rule branch_to_even)
  also have "(scast (scast w :: u32) :: u64) = scast w"
    by (rule bit_word_eqI) (auto simp: bit_simps min_def)
  finally show ?thesis .
qed

lemma abs_short: "\<not> bit w 15 \<Longrightarrow> (ucast (ucast (w :: u16) :: u32) :: u64) = scast w"
  by (rule bit_word_eqI)
    (use bit_imp_le_length [of w] in \<open>fastforce simp: bit_simps min_def not_less numeral_eq_Suc le_Suc_eq less_Suc_eq\<close>)

definition targets :: "next_insn \<Rightarrow> u64 set option" where
  "targets n = (case n of Goto q \<Rightarrow> Some {q} | Split t q \<Rightarrow> Some {t, q} | Stop \<Rightarrow> None)"

lemma short_jump: "opcode AND 0xffbe = 0x4eb8 \<Longrightarrow> opcode AND 1 = 0 \<Longrightarrow> opcode AND 0xffbf = 0x4eb8" for opcode :: u16
proof -
  assume a: "opcode AND 0xffbe = 0x4eb8" "opcode AND 1 = 0"
  have "opcode AND 0xffbf = (opcode AND 0xffbe) OR (opcode AND 1)"
    by (simp flip: bit.conj_disj_distrib)
  with a show ?thesis by simp
qed

lemma next_targets: "ordinary_code s \<Longrightarrow> scan_next s p \<noteq> Stop \<Longrightarrow> targets (scan_next s p) = successors s p"
proof -
  assume o: "ordinary_code s" and n: "scan_next s p \<noteq> Stop"
  let ?o = "code16 s p"
  consider "\<not> M68K_IsBranch s p" | (bra) "M68K_IsBranch s p" "?o AND 0xfe00 = 0x6000"
    | (jmp) "M68K_IsBranch s p" "?o AND 0xfe00 \<noteq> 0x6000" "?o AND 0xffbe = 0x4eb8"
    | (bcc) "M68K_IsBranch s p" "?o AND 0xfe00 \<noteq> 0x6000" "?o AND 0xffbe \<noteq> 0x4eb8" "?o AND 0xf000 = 0x6000"
    | (dbcc) "M68K_IsBranch s p" "?o AND 0xfe00 \<noteq> 0x6000" "?o AND 0xffbe \<noteq> 0x4eb8" "?o AND 0xf000 \<noteq> 0x6000"
        "?o AND 0xf0f8 = 0x50c8"
    using n by (fastforce simp: scan_next_def Let_def)
  then show ?thesis
  proof cases
    case 1
    then show ?thesis by (simp add: scan_next_def successors_def targets_def Let_def)
  next
    case bra
    have "?o AND 0xf000 = (?o AND 0xfe00) AND 0xf000" by (simp add: and.assoc)
    then have "?o AND 0xf000 = 0x6000" using bra by simp
    with o have "\<not> bit (bra_offset s p) 0" by (auto simp: ordinary_code_def)
    with bra show ?thesis by (simp add: scan_next_def successors_def targets_def Let_def branch_to_even)
  next
    case jmp
    then have "?o AND 1 = 0 \<Longrightarrow> \<not> bit (code16 s (at p 1)) 15"
      using o short_jump by (auto simp: ordinary_code_def)
    with jmp show ?thesis
      by (auto simp: scan_next_def successors_def targets_def Let_def abs_short or.commute)
  next
    case bcc
    then have "\<not> bit (bra_offset s p) 0" using o by (auto simp: ordinary_code_def)
    with bcc show ?thesis
      by (simp add: scan_next_def successors_def targets_def Let_def branch_to_even M68K_GetLine6Length_def)
  next
    case dbcc
    then have "\<not> bit (code16 s (at p 1)) 0" "be_val (peek (phys s) (at p 1) 2) = code16 s (at p 1)"
      using o by (auto simp: ordinary_code_def)
    with dbcc show ?thesis
      by (simp add: scan_next_def successors_def targets_def Let_def branch_to_word)
  qed
qed

section \<open>The loops\<close>

lemma dead_step:
  assumes "bit msk f" "\<not> bit (needed OR (msk AND SR_needs (code16 s p))) f"
    "bit (msk AND NOT (SR_sets (code16 s p))) f \<Longrightarrow> \<not> live_after s f p"
  shows "\<not> live s f p"
  using assms bit_imp_le_length [of msk f] by (auto simp: live_iff [of s f p] bit_simps)

lemma scan_path_needed: "bit needed f \<Longrightarrow> bit (snd (scan_path k s p msk needed)) f"
  by (induction k s p msk needed rule: scan_path.induct) (auto simp: Let_def bit_simps)

lemma scan_path_sound:
  assumes "bit msk f" "scan_path k s p msk needed = (msk', needed')" "\<not> bit msk' f" "\<not> bit needed' f"
  shows "\<not> live s f p"
  using assms
proof (induction k s p msk needed rule: scan_path.induct)
  case (2 k s p msk needed)
  let ?n = "needed OR (msk AND SR_needs (code16 s p))" and ?m = "msk AND NOT (SR_sets (code16 s p))"
  have c: "msk \<noteq> 0" "\<not> M68K_IsBranch s p" using "2.prems" by (auto split: if_splits)
  then have next1: "live_after s f p = live s f (at p (M68K_GetINSNLength s p))"
    by (simp add: live_after_def successors_def)
  show ?case
  proof (cases "?m AND SR_needs (code16 s p) = ?m")
    case True
    with "2.prems" c have "msk' = ?m" "needed' = ?n" by (auto simp: Let_def)
    with "2.prems" show ?thesis by (intro dead_step [of msk f needed]) auto
  next
    case False
    with "2.prems" c have r: "scan_path k s (at p (M68K_GetINSNLength s p)) ?m ?n = (msk', needed')"
      by (simp add: Let_def)
    then have n: "\<not> bit ?n f" using scan_path_needed [of ?n f] "2.prems"(4) by (metis snd_conv)
    have "\<not> live_after s f p" if "bit ?m f"
      using "2.IH" [OF _ refl refl refl False that r] c "2.prems" next1 by simp
    with "2.prems"(1) n show ?thesis by (rule dead_step)
  qed
qed simp

lemma scan_needed: "bit needed f \<Longrightarrow> bit (scan k s p msk needed) f"
proof (induction k s p msk needed rule: scan.induct)
  case (2 k s p msk needed)
  show ?case
  proof (cases "scan_next s p")
    case (Goto q)
    with 2 show ?thesis by (auto simp: Let_def bit_simps)
  next
    case (Split t n)
    let ?n = "needed OR (msk AND SR_needs (code16 s p))"
    have "bit (snd (scan_path k s t msk ?n)) f" using "2.prems" by (intro scan_path_needed) (simp add: bit_simps)
    with Split "2.prems" show ?thesis by (auto simp: Let_def bit_simps case_prod_beta)
  qed (use "2.prems" in \<open>auto simp: bit_simps\<close>)
qed (simp add: bit_simps)

lemma scan_sound:
  assumes "ordinary_code s" "bit msk f" "\<not> bit (scan k s p msk needed) f"
  shows "\<not> live_after s f p"
  using assms(2,3)
proof (induction k arbitrary: p msk needed)
  case (Suc k)
  have m: "msk \<noteq> 0" using Suc.prems by auto
  show ?case
  proof (cases "scan_next s p")
    case Stop
    with Suc.prems m show ?thesis by (simp add: bit_simps)
  next
    case (Goto q)
    let ?n = "needed OR (msk AND SR_needs (code16 s q))" and ?m = "msk AND NOT (SR_sets (code16 s q))"
    have r: "\<not> bit (if ?m AND SR_needs (code16 s q) = ?m then ?m OR ?n else scan k s q ?m ?n) f"
      using Suc.prems(2) Goto m by (simp add: Let_def)
    have "\<not> live s f q"
    proof (rule dead_step [OF Suc.prems(1)])
      show "\<not> bit ?n f" using r scan_needed [of ?n f k s q ?m] by (auto simp: bit_simps split: if_splits)
      show "\<not> live_after s f q" if "bit ?m f"
        using r Suc.IH [of ?m q ?n] that by (auto simp: bit_simps split: if_splits)
    qed
    moreover have "successors s p = Some {q}" using next_targets [OF assms(1), of p] Goto by (simp add: targets_def)
    ultimately show ?thesis by (simp add: live_after_def)
  next
    case (Split t n)
    let ?n = "needed OR (msk AND SR_needs (code16 s p))"
    obtain m1 n1 m2 n2 where sp: "scan_path k s t msk ?n = (m1, n1)" "scan_path k s n msk ?n = (m2, n2)"
      by (metis surj_pair)
    have "\<not> bit (m1 OR n1 OR m2 OR n2) f" using Suc.prems(2) Split m sp by (simp add: Let_def)
    then have "\<not> live s f t" "\<not> live s f n"
      using scan_path_sound [OF Suc.prems(1) sp(1)] scan_path_sound [OF Suc.prems(1) sp(2)] by (auto simp: bit_simps)
    moreover have "successors s p = Some {t, n}" using next_targets [OF assms(1), of p] Split by (simp add: targets_def)
    ultimately show ?thesis by (simp add: live_after_def)
  qed
qed (simp add: bit_simps)

section \<open>A concrete program\<close>

text \<open>A memory full of the word \<open>0xd041\<close>, \<open>ADD.W D1,D0\<close>.\<close>

definition adds_sys :: cache_sys where
  "adds_sys = blank_sys\<lparr>phys := \<lambda>x. if bit x 0 then 0x41 else 0xd0\<rparr>"

lemma adds_sys: "cache_ready ICACHE adds_sys" "seen ICACHE adds_sys = phys adds_sys"
proof -
  have b: "cache_of ICACHE adds_sys = blank" by (simp add: cache_of_def adds_sys_def blank_sys_def)
  have e: "\<forall>row<128. c_WaySelect blank row < 255" "\<forall>row<128. \<forall>i<8. \<not> bit (c_Flags blank row i) 7"
    by (simp_all add: blank_def)
  show "cache_ready ICACHE adds_sys" by (simp add: cache_ready_def b empty_cache [OF e])
  show "seen ICACHE adds_sys = phys adds_sys"
    by (auto simp: fun_eq_iff seen_def b empty_cache [OF e] wide_narrow)
qed

lemma adds_code: "code16 adds_sys p = (if bit p 0 then 0x41d0 else 0xd041)"
proof -
  let ?a = "ucast (ucast p :: u32) :: u64"
  have "code16 adds_sys p = be_val (peek (phys adds_sys) ?a 2)"
    using read_16 [OF adds_sys(1), of "ucast p"] by (simp add: code16_def reads_ok_def adds_sys(2))
  moreover have a: "bit ?a 0 = bit p 0" by (simp add: bit_unsigned_iff del: bit_0)
  moreover have "bit (?a + 1) 0 = (\<not> bit p 0)" unfolding a [symmetric] by (simp add: bit_0)
  ultimately show ?thesis by (simp add: adds_sys_def blank_sys_def peek_eval)
qed

lemma adds_ordinary: "ordinary_code adds_sys"
  by (simp add: ordinary_code_def adds_code)

section \<open>Properties\<close>

text \<open>
  C15. The search for dead flags is sound: whatever its depth, a flag that the instruction
  sets and \<open>M68K_GetSRMask\<close> leaves out of its answer is dead, that is, on every path of the
  code some instruction overwrites it before one needs it.
\<close>

theorem GetSRMask_sound:
  assumes "ordinary_code s" "bit (SR_sets (code16 s p)) f" "\<not> bit (M68K_GetSRMask jit_control2 s p) f"
  shows "\<not> live_after s f p"
  using scan_sound [OF assms(1,2)] assms(3) unfolding M68K_GetSRMask_def by blast

theorem GetSRMask_sound_witness:
  "M68K_GetSRMask 8 adds_sys 0x1000 = 0 \<and> \<not> live_after adds_sys 0 0x1000"
proof -
  have f: "SR_flags 0xd041 = 0x1f"
    by (simp add: SR_flags_def SRCheck_def GetSR_LineD_def table_SR_def InsnTable_entry_def InsnTable_D_def)
  then have f: "SR_sets 0xd041 = 0x1f" "SR_needs 0xd041 = 0" by (simp_all add: SR_sets_def SR_needs_def)
  have l: "scan_next adds_sys 0x1000 = Goto 0x1002"
  proof -
    have "M68K_GetINSNLength adds_sys 0x1000 = 1"
      by (simp add: M68K_GetINSNLength_def M68K_GetLineDLength_def table_length_def InsnTable_entry_def InsnTable_D_def adds_code)
    then show ?thesis by (simp add: scan_next_def M68K_IsBranch_def adds_code at_def)
  qed
  have "scan (Suc 0) adds_sys 0x1000 0x1f 0 = 0" by (simp add: l adds_code f)
  then have m: "M68K_GetSRMask 8 adds_sys 0x1000 = 0"
    by (simp add: M68K_GetSRMask_def adds_code f)
  moreover have "\<not> live_after adds_sys 0 0x1000"
    by (rule GetSRMask_sound [OF adds_ordinary, of _ _ 8]) (simp_all add: m adds_code f)
  ultimately show ?thesis ..
qed

end
