(* ===== verification/SR_Needs.thy ===== *)
theory SR_Needs
  imports SR_Scan Cond_Test
begin

text \<open>
  Two facts about the opcode tables as a whole: the conditional instructions need exactly
  the flags their conditions depend on, and an instruction has at most eleven words, none
  only when its group does not know it.
\<close>

section \<open>What the conditional instructions need\<close>

abbreviation cond_of :: "u16 \<Rightarrow> u8" where
  "cond_of opcode \<equiv> ucast (drop_bit 8 opcode) AND 15"

lemma upto_16: "(\<forall>n<16. P n) \<longleftrightarrow> list_all P [0..<16]" for P :: "nat \<Rightarrow> bool"
  by (auto simp: list_all_iff)

lemma cond_index: "unat (drop_bit 8 opcode AND 15) < 16" "cond_of opcode = of_nat (unat (drop_bit 8 opcode AND 15))"
  for opcode :: u16
proof -
  have "drop_bit 8 opcode AND 15 \<le> 15" by (rule word_and_le1)
  then show "unat (drop_bit 8 opcode AND 15) < 16" by (simp add: word_le_nat_alt)
  show "cond_of opcode = of_nat (unat (drop_bit 8 opcode AND 15))"
    by (simp only: of_nat_unat) (rule bit_word_eqI, auto simp: bit_simps)
qed

lemma branch_needs: "n < 16 \<Longrightarrow> ucast (drop_bit 16 (table_SR InsnTable_6 n)) AND 0x1f = (ucast (CC_needs ! n) :: u8)"
proof -
  have "list_all (\<lambda>n. ucast (drop_bit 16 (table_SR InsnTable_6 n)) AND 0x1f = (ucast (CC_needs ! n) :: u8)) [0..<16]"
    by (simp add: upt_rec table_SR_def InsnTable_entry_def InsnTable_6_def CC_needs_def)
  then show "n < 16 \<Longrightarrow> ?thesis" by (simp add: list_all_iff)
qed
text \<open>The branches of group 6, and \<open>Scc\<close> and \<open>DBcc\<close> of group 5.\<close>

definition conditional :: "u16 \<Rightarrow> bool" where
  "conditional opcode \<longleftrightarrow> opcode AND 0xf000 = 0x6000 \<or>
     (opcode AND 0xf000 = 0x5000 \<and>
      (case InsnTable_entry InsnTable_5 (unat (opcode AND 0x1ff)) of None \<Rightarrow> False
       | Some r \<Rightarrow> od_Emit r = H_DBcc \<or> od_Emit r = H_Scc))"

lemma group: "opcode AND 0xf000 = push_bit 12 n \<Longrightarrow> n < 16 \<Longrightarrow> drop_bit 12 opcode = n" for opcode :: u16
proof -
  assume a: "opcode AND 0xf000 = push_bit 12 n" "n < 16"
  have "drop_bit 12 opcode = drop_bit 12 (opcode AND 0xf000)"
  proof -
    have "drop_bit 12 (opcode AND 0xf000) = drop_bit 12 opcode AND 15" by (simp add: drop_bit_and)
    also have "\<dots> = drop_bit 12 opcode"
      unfolding and_mask_numerals by (rule bit_word_eqI) (auto simp: bit_simps dest: bit_imp_le_length)
    finally show ?thesis ..
  qed
  also have "\<dots> = drop_bit 12 (push_bit 12 n)" by (simp only: a)
  also have "\<dots> = take_bit 4 n" by (rule bit_word_eqI) (auto simp: bit_simps)
  also have "\<dots> = n" using a(2) less_mask_eq [of n 4] by (simp add: take_bit_eq_mask)
  finally show ?thesis .
qed

lemma conditional_needs: "conditional opcode \<Longrightarrow> SR_needs opcode = ucast (CC_needs ! unat (drop_bit 8 opcode AND 15))"
proof -
  assume c: "conditional opcode"
  have x: "drop_bit 8 (opcode AND 0x0f00) = drop_bit 8 opcode AND 15"
    by (simp add: drop_bit_and)
  have p: "ucast (drop_bit 16 (push_bit 16 (ucast (w :: u16)) :: u32)) AND 0x1f = (ucast w AND 0x1f :: u8)" for w
    by (rule bit_word_eqI) (auto simp: bit_simps)
  have "list_all (\<lambda>n. ucast (CC_needs ! n) AND 0x1f = (ucast (CC_needs ! n) :: u8)) [0..<16]"
    by (simp add: upt_rec CC_needs_def)
  then have k: "n < 16 \<Longrightarrow> ucast (CC_needs ! n) AND 0x1f = (ucast (CC_needs ! n) :: u8)" for n
    by (simp add: list_all_iff)
  show ?thesis
  proof (cases "opcode AND 0xf000 = 0x6000")
    case True
    then have "drop_bit 12 opcode = 6" by (intro group) simp_all
    then show ?thesis
      using branch_needs [OF cond_index(1), of opcode] by (simp add: SR_needs_def SR_flags_def SRCheck_def GetSR_Line6_def)
  next
    case False
    with c obtain r where r: "opcode AND 0xf000 = 0x5000" "InsnTable_entry InsnTable_5 (unat (opcode AND 0x1ff)) = Some r"
      "od_Emit r = H_DBcc \<or> od_Emit r = H_Scc"
      by (auto simp: conditional_def split: option.splits)
    then have "drop_bit 12 opcode = 5" by (intro group) simp_all
    then have "SR_flags opcode = push_bit 16 (ucast (CC_needs ! unat (drop_bit 8 opcode AND 15)))"
      using r(2,3) by (auto simp: SR_flags_def SRCheck_def GetSR_Line5_def x)
    then show ?thesis using k [OF cond_index(1)] by (simp only: SR_needs_def p)
  qed
qed

text \<open>Over all flags at once.\<close>

definition depends :: "nat \<Rightarrow> ccflag \<Rightarrow> bool" where
  "depends n f \<longleftrightarrow> (\<exists>g. m68k_cond (of_nat n) (g(f := \<not> g f)) \<noteq> m68k_cond (of_nat n) g)"

lemma ex_flags: "(\<exists>g. P g) \<longleftrightarrow> (\<exists>c v z n x. P (case_ccflag c v z n x))"
proof
  assume "\<exists>g. P g"
  then obtain g where "P g" ..
  moreover have "g = case_ccflag (g Cf) (g Vf) (g Zf) (g Nf) (g Xf)"
    by (simp add: fun_eq_iff split: ccflag.split)
  ultimately show "\<exists>c v z n x. P (case_ccflag c v z n x)" by metis
qed blast

lemma cond_cases:
  "m68k_cond 0 g = True" "m68k_cond 1 g = False" "m68k_cond 2 g = (\<not> g Cf \<and> \<not> g Zf)" "m68k_cond 3 g = (g Cf \<or> g Zf)"
  "m68k_cond 4 g = (\<not> g Cf)" "m68k_cond 5 g = g Cf" "m68k_cond 6 g = (\<not> g Zf)" "m68k_cond 7 g = g Zf"
  "m68k_cond 8 g = (\<not> g Vf)" "m68k_cond 9 g = g Vf" "m68k_cond 10 g = (\<not> g Nf)" "m68k_cond 11 g = g Nf"
  "m68k_cond 12 g = (g Nf = g Vf)" "m68k_cond 13 g = (g Nf \<noteq> g Vf)" "m68k_cond 14 g = (g Nf = g Vf \<and> \<not> g Zf)"
  "m68k_cond 15 g = (g Nf \<noteq> g Vf \<or> g Zf)"
  by (simp_all add: m68k_cond_def M_CC_T_def M_CC_F_def M_CC_HI_def M_CC_LS_def M_CC_CC_def M_CC_CS_def M_CC_NE_def
    M_CC_EQ_def M_CC_VC_def M_CC_VS_def M_CC_PL_def M_CC_MI_def M_CC_GE_def M_CC_LT_def M_CC_GT_def M_CC_LE_def)

text \<open>The flags each condition depends on, as a mask.\<close>

lemma depends_bits:
  "map (\<lambda>n. map (depends n) [Cf, Vf, Zf, Nf, Xf]) [0..<16] =
   map (\<lambda>w. map (\<lambda>f. bit (ucast w :: u8) (sr_bit f)) [Cf, Vf, Zf, Nf, Xf]) CC_needs"
proof -
  have d: "depends n f = (\<exists>c v z n' x. m68k_cond (of_nat n) ((case_ccflag c v z n' x)(f := \<not> case_ccflag c v z n' x f))
      \<noteq> m68k_cond (of_nat n) (case_ccflag c v z n' x))" for n f
    unfolding depends_def by (rule ex_flags)
  show ?thesis
    by (simp add: upt_rec CC_needs_def d cond_cases ex_bool_eq)
qed

lemma CC_needs_exact: "n < 16 \<Longrightarrow> bit (ucast (CC_needs ! n) :: u8) (sr_bit f) \<longleftrightarrow> depends n f"
proof -
  assume n: "n < 16"
  have l: "length CC_needs = 16" by (simp add: CC_needs_def)
  have "map (depends n) [Cf, Vf, Zf, Nf, Xf] =
      map (\<lambda>f. bit (ucast (CC_needs ! n) :: u8) (sr_bit f)) [Cf, Vf, Zf, Nf, Xf]"
    using arg_cong [OF depends_bits, of "\<lambda>l. l ! n"] n l by (simp del: list.map upt_conv_Cons)
  then show ?thesis by (cases f) simp_all
qed

section \<open>Lengths\<close>

text \<open>Opcodes with a row in the table of their group; the groups without a table know all of theirs.\<close>

definition listed :: "u16 \<Rightarrow> bool" where
  "listed opcode =
    (let line = unat (drop_bit 12 opcode); lo = unat (opcode AND 0xfff); nine = unat (opcode AND 0x1ff)
     in if line = 0 then InsnTable_entry InsnTable_0 lo \<noteq> None
        else if line = 4 then InsnTable_entry InsnTable_4 lo \<noteq> None
        else if line = 5 then InsnTable_entry InsnTable_5 nine \<noteq> None
        else if line = 8 then InsnTable_entry InsnTable_8 nine \<noteq> None
        else if line = 9 then InsnTable_entry InsnTable_9 nine \<noteq> None
        else if line = 11 then InsnTable_entry InsnTable_B nine \<noteq> None
        else if line = 12 then InsnTable_entry InsnTable_C nine \<noteq> None
        else if line = 13 then InsnTable_entry InsnTable_D nine \<noteq> None
        else if line = 14 then InsnTable_entry InsnTable_E lo \<noteq> None
        else True)"

lemma table_length_0: "list_all row_ok t \<Longrightarrow>
    table_length t msk s p = 0 \<longleftrightarrow> InsnTable_entry t (unat (code16 s p AND msk)) = None"
  using table_length_bound(2) [of t s p msk] by (auto simp: table_length_def Let_def split: option.splits)

lemma table_length_11: "list_all row_ok t \<Longrightarrow> table_length t msk s p \<le> 11"
  using table_length_bound(1) [of t msk s p] by simp

section \<open>Properties\<close>

text \<open>
  C29. A conditional instruction (\<open>Bcc\<close>, \<open>Scc\<close>, \<open>DBcc\<close>) is listed as needing a flag
  exactly when the outcome of its condition can depend on that flag.
\<close>

theorem condition_flags_needed:
  assumes "conditional opcode"
  shows "bit (SR_needs opcode) (sr_bit f) \<longleftrightarrow>
    (\<exists>g. m68k_cond (cond_of opcode) (g(f := \<not> g f)) \<noteq> m68k_cond (cond_of opcode) g)"
  using CC_needs_exact [OF cond_index(1), of opcode f]
  by (simp only: conditional_needs [OF assms] cond_index(2) depends_def)

theorem condition_flags_needed_witness:
  "bit (SR_needs 0x6e00) (sr_bit Zf) \<and> \<not> bit (SR_needs 0x51c8) (sr_bit Cf)"
proof -
  have "conditional 0x6e00" by (simp add: conditional_def)
  then have "bit (SR_needs 0x6e00) (sr_bit Zf)"
    unfolding condition_flags_needed [OF \<open>conditional 0x6e00\<close>]
    by (intro exI [of _ "\<lambda>_. False"]) (simp add: cond_cases)
  moreover have "conditional 0x51c8" by (simp add: conditional_def InsnTable_entry_def InsnTable_5_def)
  then have "\<not> bit (SR_needs 0x51c8) (sr_bit Cf)"
    unfolding condition_flags_needed [OF \<open>conditional 0x51c8\<close>] by (simp add: cond_cases)
  ultimately show ?thesis ..
qed

text \<open>
  C33. The length the emulator computes for an instruction is at most eleven words, the
  longest the processor has, and it is zero exactly for an opcode that has no row in the
  table of its group; so walking over listed code always advances.
\<close>

theorem insn_length_bounds:
  "M68K_GetINSNLength s p \<le> 11 \<and> (M68K_GetINSNLength s p = 0 \<longleftrightarrow> \<not> listed (code16 s p))"
proof -
  note z = table_length_0 [OF table_rows(1)] table_length_0 [OF table_rows(2)] table_length_0 [OF table_rows(3)]
    table_length_0 [OF table_rows(4)] table_length_0 [OF table_rows(5)] table_length_0 [OF table_rows(6)]
    table_length_0 [OF table_rows(7)] table_length_0 [OF table_rows(8)] table_length_0 [OF table_rows(9)]
  note b = table_rows [THEN table_length_11]
  note d = M68K_GetLine0Length_def M68K_GetLine4Length_def M68K_GetLine5Length_def M68K_GetLine8Length_def
    M68K_GetLine9Length_def M68K_GetLineBLength_def M68K_GetLineCLength_def M68K_GetLineDLength_def M68K_GetLineELength_def
  have l6: "M68K_GetLine6Length s p \<in> {1, 2, 3}" by (simp add: M68K_GetLine6Length_def Let_def)
  have l: "M68K_GetLine6Length s p \<noteq> 0" "M68K_GetLine6Length s p \<le> 11" using l6 by auto
  have m: "M68K_GetMoveLength s p \<noteq> 0" "M68K_GetLineFLength s p \<noteq> 0" "M68K_GetLineFLength s p \<le> 11"
    using move_length_bound [of s p] lineF_length_bound [of s p] by auto
  show ?thesis
    unfolding M68K_GetINSNLength_def listed_def Let_def d
    using z b l m move_length_bound [of s p] by simp
qed

end
