(* ===== verification/PC_Track.thy ===== *)
theory PC_Track
  imports Flag_Host
begin

text \<open>
  The emulated program counter (\<open>M68k_Translator.c\<close>). The translator does not advance
  \<open>REG_PC\<close> with every instruction: \<open>_pc_rel\<close> is how far the register is behind, and an
  emitter that needs the program counter asks for the offset to use with the register. The
  register is brought up to date when the distance gets too long for an addressing offset.
\<close>

section \<open>Operations\<close>

text \<open>The addition or subtraction that brings the register up to date.\<close>

definition catch_up :: "jit \<Rightarrow> jit" where
  "catch_up j =
    (if 0 < pc_rel j then EMIT [add_immed REG_PC REG_PC (word_of_int (pc_rel j))] j
     else EMIT [sub_immed REG_PC REG_PC (word_of_int (- pc_rel j))] j)"

text \<open>The offset is an 8-bit signed integer, passed by reference: the new value is returned.\<close>

definition EMIT_GetOffsetPC :: "u8 \<Rightarrow> jit \<Rightarrow> u8 \<times> jit" where
  "EMIT_GetOffsetPC offset j =
    (let new_offset = pc_rel j + sint offset
     in if 127 < new_offset \<or> new_offset < -127
        then (offset, (catch_up j)\<lparr>pc_rel := 0\<rparr>)
        else (word_of_int new_offset, j))"

definition EMIT_AdvancePC :: "u8 \<Rightarrow> jit \<Rightarrow> jit" where
  "EMIT_AdvancePC offset j =
    (let j = j\<lparr>pc_rel := pc_rel j + uint offset\<rparr>
     in if 120 < pc_rel j \<or> pc_rel j < -120 then (catch_up j)\<lparr>pc_rel := 0\<rparr> else j)"

definition EMIT_FlushPC :: "jit \<Rightarrow> jit" where
  "EMIT_FlushPC j = (if pc_rel j \<noteq> 0 then catch_up j else j)\<lparr>pc_rel := 0\<rparr>"

definition EMIT_ResetOffsetPC :: "jit \<Rightarrow> jit" where
  "EMIT_ResetOffsetPC j = j\<lparr>pc_rel := 0\<rparr>"

section \<open>The program counter that is meant\<close>

definition pc_view :: "jit \<Rightarrow> mstate \<Rightarrow> u32" where
  "pc_view j m = rdW m REG_PC + word_of_int (pc_rel j)"

definition pc_ok :: "jit \<Rightarrow> bool" where
  "pc_ok j \<longleftrightarrow> -120 \<le> pc_rel j \<and> pc_rel j \<le> 120"

lemma live_temps_pc [simp]: "live_temps (j\<lparr>pc_rel := k\<rparr>) = live_temps j"
  by (simp add: live_temps_def)

lemma status_part_pc [simp]: "status_part (j\<lparr>pc_rel := k\<rparr>) = status_part j"
  by (simp add: status_part_def)

lemma updates_pc [simp]: "updates S j m (j'\<lparr>pc_rel := k\<rparr>) m' = updates S j m j' m'"
  by (simp add: updates_def produces_def)

lemma REG_PC_reg: "is_reg REG_PC" "take_bit 5 REG_PC = REG_PC" "REG_PC \<noteq> 31"
  by (simp_all add: is_reg_def REG_PC_def)

lemma ucast_low: "ucast (x + ucast y :: u64) = (ucast x + y :: u32)" "ucast (x - ucast y :: u64) = (ucast x - y :: u32)"
  for y :: u32
proof -
  have y: "uint (ucast y :: u64) = uint y"
    using unsigned_less [of y, where ?'a = int] by (simp add: unsigned_ucast_eq take_bit_int_eq_self)
  show "ucast (x + ucast y :: u64) = (ucast x + y :: u32)" "ucast (x - ucast y :: u64) = (ucast x - y :: u32)"
    by (simp_all only: word_uint_eq_iff uint_word_ariths unsigned_ucast_eq take_bit_eq_mod [where ?'a = int] y)
      (simp_all add: mod_simps mod_mod_cancel)
qed

lemma wide_imm: "ucast (take_bit 12 (k :: u16)) = (ucast (ucast (take_bit 12 k) :: u32) :: u64)"
  by (rule bit_word_eqI) (auto simp: bit_simps)

lemma run_add_immed: "is_reg rd \<Longrightarrow> is_reg rn \<Longrightarrow>
    run (add_immed rd rn k # ws) m = run ws ((wrW rd (rdW m rn + ucast (take_bit 12 k)) m)\<lparr>m_pc := m_pc m + 4\<rparr>)"
  by (simp add: run.simps decode_add_immed exec_def is_regD Let_def wrXsp_def rdXsp_def wrW_def wrX_def rdW_def rdX_def
    wide_imm ucast_low)

lemma run_sub_immed: "is_reg rd \<Longrightarrow> is_reg rn \<Longrightarrow>
    run (sub_immed rd rn k # ws) m = run ws ((wrW rd (rdW m rn - ucast (take_bit 12 k)) m)\<lparr>m_pc := m_pc m + 4\<rparr>)"
  by (simp add: run.simps decode_sub_immed exec_def is_regD Let_def wrXsp_def rdXsp_def wrW_def wrX_def rdW_def rdX_def
    wide_imm ucast_low)

lemma catch_up_updates:
  assumes "-4096 < pc_rel j" "pc_rel j < 4096"
  shows "\<exists>m'. updates {REG_PC} j m (catch_up j) m' \<and> rdW m' REG_PC = pc_view j m \<and>
    rdX m' REG_PC = ucast (pc_view j m)"
proof -
  have k: "ucast (take_bit 12 (word_of_int i :: u16)) = (word_of_int i :: u32)" if "0 \<le> i" "i < 4096" for i
    using that
    by (simp add: word_uint_eq_iff unsigned_ucast_eq unsigned_take_bit_eq take_bit_eq_mod [where ?'a = int] uint_word_of_int)
  show ?thesis
  proof (cases "0 < pc_rel j")
    case True
    let ?m = "(wrW REG_PC (pc_view j m) m)\<lparr>m_pc := m_pc m + 4\<rparr>"
    have "run [add_immed REG_PC REG_PC (word_of_int (pc_rel j))] m = Some ?m"
      using k [of "pc_rel j"] True assms by (simp add: run_add_immed REG_PC_reg pc_view_def)
    then have "updates {REG_PC} j m (catch_up j) ?m"
      using True by (auto simp: catch_up_def no_branches_def decode_add_immed intro!: updates_EMIT)
    then show ?thesis using REG_PC_reg(3) by (intro exI [of _ ?m]) simp
  next
    case False
    let ?m = "(wrW REG_PC (pc_view j m) m)\<lparr>m_pc := m_pc m + 4\<rparr>"
    have "run [sub_immed REG_PC REG_PC (word_of_int (- pc_rel j))] m = Some ?m"
      using k [of "- pc_rel j"] False assms by (simp add: run_sub_immed REG_PC_reg pc_view_def)
    then have "updates {REG_PC} j m (catch_up j) ?m"
      using False by (auto simp: catch_up_def no_branches_def decode_sub_immed intro!: updates_EMIT)
    then show ?thesis using REG_PC_reg(3) by (intro exI [of _ ?m]) simp
  qed
qed

section \<open>What the operations do\<close>

text \<open>The code of an operation changes the register of the program counter at most, and nothing the distance allows for.\<close>

lemma EMIT_AdvancePC_tracks:
  assumes "pc_ok j"
  shows "\<exists>m'. updates {REG_PC} j m (EMIT_AdvancePC offset j) m' \<and>
    pc_view (EMIT_AdvancePC offset j) m' = pc_view j m + ucast offset" "pc_ok (EMIT_AdvancePC offset j)"
proof -
  define k where "k = pc_rel j + uint offset"
  let ?j = "j\<lparr>pc_rel := k\<rparr>"
  have b: "0 \<le> uint offset" "uint offset < 256" using unsigned_less [of offset, where ?'a = int] by simp_all
  have v: "pc_view ?j m = pc_view j m + ucast offset"
    by (simp add: pc_view_def k_def)
  show "pc_ok (EMIT_AdvancePC offset j)"
    using assms b by (auto simp: EMIT_AdvancePC_def pc_ok_def Let_def)
  have "-4096 < k" "k < 4096"
    using b assms unfolding pc_ok_def k_def by linarith+
  then have "-4096 < pc_rel ?j" "pc_rel ?j < 4096" by simp_all
  then obtain m' where c: "updates {REG_PC} ?j m (catch_up ?j) m'" "rdW m' REG_PC = pc_view ?j m"
    using catch_up_updates [of ?j m] by blast
  then have "updates {REG_PC} j m (catch_up ?j) m'" by (simp add: updates_def produces_def live_temps_def status_part_def)
  with c v show "\<exists>m'. updates {REG_PC} j m (EMIT_AdvancePC offset j) m' \<and>
      pc_view (EMIT_AdvancePC offset j) m' = pc_view j m + ucast offset"
    by (auto simp: EMIT_AdvancePC_def Let_def pc_view_def k_def [symmetric] intro: updates_refl)
qed

lemma EMIT_GetOffsetPC_tracks:
  assumes "pc_ok j" "EMIT_GetOffsetPC offset j = (offset', j')"
  shows "\<exists>m'. updates {REG_PC} j m j' m' \<and> pc_view j' m' = pc_view j m \<and>
    rdW m' REG_PC + scast offset' = pc_view j m + scast offset \<and>
    (rdX m REG_PC = ucast (rdW m REG_PC) \<longrightarrow> rdX m' REG_PC = ucast (rdW m' REG_PC))" "pc_ok j'"
proof -
  obtain m' where c: "updates {REG_PC} j m (catch_up j) m'" "rdW m' REG_PC = pc_view j m"
    "rdX m' REG_PC = ucast (pc_view j m)"
    using catch_up_updates [of j m] assms by (auto simp: pc_ok_def)
  have s: "sint (word_of_int i :: u8) = i" if "-128 \<le> i" "i < 128" for i
    using that by (simp add: sint_sbintrunc' signed_take_bit_int_eq_self)
  show "\<exists>m'. updates {REG_PC} j m j' m' \<and> pc_view j' m' = pc_view j m \<and>
      rdW m' REG_PC + scast offset' = pc_view j m + scast offset \<and>
      (rdX m REG_PC = ucast (rdW m REG_PC) \<longrightarrow> rdX m' REG_PC = ucast (rdW m' REG_PC))"
  proof (cases "127 < pc_rel j + sint offset \<or> pc_rel j + sint offset < -127")
    case True
    with assms c show ?thesis by (intro exI [of _ m']) (auto simp: EMIT_GetOffsetPC_def Let_def pc_view_def)
  next
    case False
    then have e: "j' = j" "offset' = word_of_int (pc_rel j + sint offset)"
      using assms by (auto simp: EMIT_GetOffsetPC_def Let_def)
    have "sint offset' = pc_rel j + sint offset" unfolding e by (rule s) (use False in auto)
    then have "scast offset' = (word_of_int (pc_rel j) + scast offset :: u32)" by (simp only: scast_eq of_int_add)
    then show ?thesis using e by (intro exI [of _ m]) (simp add: updates_refl pc_view_def)
  qed
  show "pc_ok j'" using assms by (auto simp: EMIT_GetOffsetPC_def Let_def pc_ok_def split: if_splits)
qed

lemma EMIT_FlushPC_tracks:
  assumes "pc_ok j"
  shows "\<exists>m'. updates {REG_PC} j m (EMIT_FlushPC j) m' \<and> rdW m' REG_PC = pc_view j m"
    "pc_rel (EMIT_FlushPC j) = 0"
proof -
  obtain m' where "updates {REG_PC} j m (catch_up j) m'" "rdW m' REG_PC = pc_view j m"
    using catch_up_updates [of j m] assms by (auto simp: pc_ok_def)
  then show "\<exists>m'. updates {REG_PC} j m (EMIT_FlushPC j) m' \<and> rdW m' REG_PC = pc_view j m"
    by (auto simp: EMIT_FlushPC_def pc_view_def intro: updates_refl)
qed (simp add: EMIT_FlushPC_def)

section \<open>Sequences\<close>

datatype pc_op = Advance u8 | Get_offset u8 | Flush

fun pc_step :: "pc_op \<Rightarrow> jit \<Rightarrow> jit" where
  "pc_step (Advance k) j = EMIT_AdvancePC k j"
| "pc_step (Get_offset k) j = snd (EMIT_GetOffsetPC k j)"
| "pc_step Flush j = EMIT_FlushPC j"

fun pc_delta :: "pc_op \<Rightarrow> u32" where
  "pc_delta (Advance k) = ucast k"
| "pc_delta _ = 0"

lemma pc_step_tracks:
  assumes "pc_ok j"
  shows "\<exists>m'. updates {REG_PC} j m (pc_step c j) m' \<and> pc_view (pc_step c j) m' = pc_view j m + pc_delta c"
    "pc_ok (pc_step c j)"
proof -
  show "\<exists>m'. updates {REG_PC} j m (pc_step c j) m' \<and> pc_view (pc_step c j) m' = pc_view j m + pc_delta c"
  proof (cases c)
    case (Get_offset k)
    obtain k' j' where "EMIT_GetOffsetPC k j = (k', j')" by fastforce
    with EMIT_GetOffsetPC_tracks(1) [OF assms this, of m] Get_offset show ?thesis by auto
  qed (use EMIT_AdvancePC_tracks(1) [OF assms] EMIT_FlushPC_tracks [OF assms] in \<open>auto simp: pc_view_def\<close>)
  show "pc_ok (pc_step c j)"
  proof (cases c)
    case (Get_offset k)
    then show ?thesis using EMIT_GetOffsetPC_tracks(2) [OF assms] by (metis pc_step.simps(2) prod.collapse)
  qed (use EMIT_AdvancePC_tracks(2) [OF assms] EMIT_FlushPC_tracks(2) [OF assms] in \<open>auto simp: pc_ok_def\<close>)
qed

lemma pc_steps_track:
  "pc_ok j \<Longrightarrow> \<exists>m'. updates {REG_PC} j m (fold pc_step cs j) m' \<and>
    pc_view (fold pc_step cs j) m' = pc_view j m + sum_list (map pc_delta cs) \<and> pc_ok (fold pc_step cs j)"
proof (induction cs arbitrary: j m)
  case Nil
  then show ?case by (intro exI [of _ m]) (simp add: updates_refl)
next
  case (Cons c cs)
  obtain m1 where 1: "updates {REG_PC} j m (pc_step c j) m1" "pc_view (pc_step c j) m1 = pc_view j m + pc_delta c"
    using pc_step_tracks(1) [OF Cons.prems] by blast
  obtain m2 where 2: "updates {REG_PC} (pc_step c j) m1 (fold pc_step cs (pc_step c j)) m2"
    "pc_view (fold pc_step cs (pc_step c j)) m2 = pc_view (pc_step c j) m1 + sum_list (map pc_delta cs)"
    "pc_ok (fold pc_step cs (pc_step c j))"
    using Cons.IH [OF pc_step_tracks(2) [OF Cons.prems]] by blast
  have "updates {REG_PC} j m (fold pc_step cs (pc_step c j)) m2" by (rule updates_trans [OF 1(1) 2(1)])
  with 1 2 show ?case by (intro exI [of _ m2]) (simp add: add.assoc)
qed

section \<open>Property\<close>

text \<open>
  C22. However the emitters of a translation unit advance the program counter, ask for
  offsets and flush, the code they emit changes no register but \<open>REG_PC\<close>; a flush then
  leaves the register at the start plus all advances, and an offset that was asked for leads
  from the register, as it then is, to that program counter plus the offset.
\<close>

theorem pc_tracking:
  assumes "pc_ok j"
  shows "(\<exists>m'. updates {REG_PC} j m (EMIT_FlushPC (fold pc_step cs j)) m' \<and>
      rdW m' REG_PC = pc_view j m + sum_list (map pc_delta cs)) \<and>
    (\<forall>k k' j'. EMIT_GetOffsetPC k (fold pc_step cs j) = (k', j') \<longrightarrow>
      (\<exists>m'. updates {REG_PC} j m j' m' \<and>
        rdW m' REG_PC + scast k' = pc_view j m + sum_list (map pc_delta cs) + scast k))"
proof -
  let ?j = "fold pc_step cs j" and ?v = "pc_view j m + sum_list (map pc_delta cs)"
  obtain m1 where 1: "updates {REG_PC} j m ?j m1" "pc_view ?j m1 = ?v" "pc_ok ?j"
    using pc_steps_track [OF assms] by blast
  obtain m2 where "updates {REG_PC} ?j m1 (EMIT_FlushPC ?j) m2" "rdW m2 REG_PC = ?v"
    using EMIT_FlushPC_tracks(1) [OF 1(3), of m1] 1(2) by auto
  with updates_trans [OF 1(1)] have "\<exists>m'. updates {REG_PC} j m (EMIT_FlushPC ?j) m' \<and> rdW m' REG_PC = ?v" by blast
  moreover have "\<exists>m'. updates {REG_PC} j m j' m' \<and> rdW m' REG_PC + scast k' = ?v + scast k"
    if g: "EMIT_GetOffsetPC k ?j = (k', j')" for k k' j'
    using EMIT_GetOffsetPC_tracks(1) [OF 1(3) g, of m1] 1(2) updates_trans [OF 1(1)] by auto
  ultimately show ?thesis by blast
qed

theorem pc_tracking_witness:
  "\<exists>m'. run (tc_code (EMIT_FlushPC (fold pc_step [Advance 2, Get_offset 0x80, Advance 200] (jit_init 8)))) m_reset =
      Some m' \<and> rdW m' REG_PC = 202"
proof -
  have "pc_ok (jit_init 8)" by (simp add: pc_ok_def jit_init_def)
  from pc_tracking [OF this, of m_reset "[Advance 2, Get_offset 0x80, Advance 200]"]
  show ?thesis by (auto simp: updates_def produces_def pc_view_def jit_init_def m_reset_def rdW_def rdX_def)
qed

end
