(* ===== verification/A64_Access.thy ===== *)
theory A64_Access
  imports PC_Track
begin

text \<open>
  Additions with flags, and loads and stores of 8, 16 and 32 bits: what their encoders
  decode to and what they do. The collections extend those of \<open>A64_Decode\<close>.
\<close>

section \<open>Additions and subtractions\<close>

lemma decode_adds_immed [a64_decode]:
  "decode (fetch (adds_immed rd rn imm12)) =
     Some (AddSubFlags False (take_bit 5 rd) (take_bit 5 rn) (take_bit 12 (ucast imm12)))"
  "decode (fetch (subs_immed rd rn imm12)) =
     Some (AddSubFlags True (take_bit 5 rd) (take_bit 5 rn) (take_bit 12 (ucast imm12)))"
  by (simp_all add: adds_immed_def subs_immed_def decode_simps dec_addsub_imm_def split del: if_split)

lemma decode_add_reg [a64_decode]:
  "k < 32 \<Longrightarrow> decode (fetch (add_reg rd rn rm LSL k)) =
     Some (AddSubReg False False (take_bit 5 rd) (take_bit 5 rn) (take_bit 5 rm) LSL (unat k))"
  "k < 32 \<Longrightarrow> decode (fetch (adds_reg rd rn rm LSL k)) =
     Some (AddSubReg False True (take_bit 5 rd) (take_bit 5 rn) (take_bit 5 rm) LSL (unat k))"
  "k < 32 \<Longrightarrow> decode (fetch (sub_reg rd rn rm LSL k)) =
     Some (AddSubReg True False (take_bit 5 rd) (take_bit 5 rn) (take_bit 5 rm) LSL (unat k))"
  "k < 32 \<Longrightarrow> decode (fetch (subs_reg rd rn rm LSL k)) =
     Some (AddSubReg True True (take_bit 5 rd) (take_bit 5 rn) (take_bit 5 rm) LSL (unat k))"
  by (simp_all add: add_reg_def adds_reg_def sub_reg_def subs_reg_def decode_log_reg_simps dec_addsub_reg_def split del: if_split)

lemma decode_barrier [a64_decode]: "decode (fetch dsb_sy) = Some Barrier"
  by (simp add: dsb_sy_def decode_simps)

section \<open>Loads and stores\<close>

lemma fld_9_u16: "ucast (take_bit 9 (scast (k :: u16) :: u32)) = (ucast k :: 9 word)"
  by (rule bit_word_eqI) (auto simp: bit_simps numeral_eq_Suc less_Suc_eq)

lemma decode_ldst_offset [a64_decode]:
  "decode (fetch (ldr_offset rn rt k)) =
     Some (LdSt 4 Ld (Off (4 * ucast (take_bit 12 (drop_bit 2 (ucast k :: u32))))) (take_bit 5 rt) (take_bit 5 rn))"
  "decode (fetch (ldrh_offset rn rt k)) =
     Some (LdSt 2 Ld (Off (2 * ucast (take_bit 12 (drop_bit 1 (ucast k :: u32))))) (take_bit 5 rt) (take_bit 5 rn))"
  "decode (fetch (ldrb_offset rn rt k)) =
     Some (LdSt 1 Ld (Off (ucast (take_bit 12 (ucast k :: u32)))) (take_bit 5 rt) (take_bit 5 rn))"
  "decode (fetch (ldrsh_offset rn rt k)) =
     Some (LdSt 2 Ld_s32 (Off (2 * ucast (take_bit 12 (drop_bit 1 (ucast k :: u32))))) (take_bit 5 rt) (take_bit 5 rn))"
  "decode (fetch (ldrsb_offset rn rt k)) =
     Some (LdSt 1 Ld_s32 (Off (ucast (take_bit 12 (ucast k :: u32)))) (take_bit 5 rt) (take_bit 5 rn))"
  "decode (fetch (str_offset rn rt k)) =
     Some (LdSt 4 St (Off (4 * ucast (take_bit 12 (drop_bit 2 (ucast k :: u32))))) (take_bit 5 rt) (take_bit 5 rn))"
  "decode (fetch (strh_offset rn rt k)) =
     Some (LdSt 2 St (Off (2 * ucast (take_bit 12 (drop_bit 1 (ucast k :: u32))))) (take_bit 5 rt) (take_bit 5 rn))"
  "decode (fetch (strb_offset rn rt k)) =
     Some (LdSt 1 St (Off (ucast (take_bit 12 (ucast k :: u32)))) (take_bit 5 rt) (take_bit 5 rn))"
  by (simp_all add: ldr_offset_def ldrh_offset_def ldrb_offset_def ldrsh_offset_def ldrsb_offset_def str_offset_def strh_offset_def strb_offset_def
    decode_simps dec_ldst64_def dec_ldst_def Let_def ldop_of_def split del: if_split)

lemma decode_ldst_postindex [a64_decode]:
  assumes "take_bit 5 rt \<noteq> take_bit 5 rn"
  shows
  "decode (fetch (ldr_offset_postindex rn rt k)) =
     Some (LdSt 4 Ld (Post (scast (ucast k :: 9 word))) (take_bit 5 rt) (take_bit 5 rn))"
  "decode (fetch (ldrh_offset_postindex rn rt k)) =
     Some (LdSt 2 Ld (Post (scast (ucast k :: 9 word))) (take_bit 5 rt) (take_bit 5 rn))"
  "decode (fetch (ldrb_offset_postindex rn rt k)) =
     Some (LdSt 1 Ld (Post (scast (ucast k :: 9 word))) (take_bit 5 rt) (take_bit 5 rn))"
  "decode (fetch (ldrsh_offset_postindex rn rt k)) =
     Some (LdSt 2 Ld_s32 (Post (scast (ucast k :: 9 word))) (take_bit 5 rt) (take_bit 5 rn))"
  "decode (fetch (ldrsb_offset_postindex rn rt k)) =
     Some (LdSt 1 Ld_s32 (Post (scast (ucast k :: 9 word))) (take_bit 5 rt) (take_bit 5 rn))"
  "decode (fetch (str_offset_postindex rn rt k)) =
     Some (LdSt 4 St (Post (scast (ucast k :: 9 word))) (take_bit 5 rt) (take_bit 5 rn))"
  "decode (fetch (strh_offset_postindex rn rt k)) =
     Some (LdSt 2 St (Post (scast (ucast k :: 9 word))) (take_bit 5 rt) (take_bit 5 rn))"
  "decode (fetch (strb_offset_postindex rn rt k)) =
     Some (LdSt 1 St (Post (scast (ucast k :: 9 word))) (take_bit 5 rt) (take_bit 5 rn))"
  using assms
  by (simp_all add: ldr_offset_postindex_def ldrh_offset_postindex_def ldrb_offset_postindex_def ldrsh_offset_postindex_def ldrsb_offset_postindex_def str_offset_postindex_def strh_offset_postindex_def strb_offset_postindex_def
    decode_simps dec_ldst64_def dec_ldst_def Let_def ldop_of_def imm9_def fld_9_u16 split del: if_split)

lemma decode_ldst_preindex [a64_decode]:
  assumes "take_bit 5 rt \<noteq> take_bit 5 rn"
  shows
  "decode (fetch (ldr_offset_preindex rn rt k)) =
     Some (LdSt 4 Ld (Pre (scast (ucast k :: 9 word))) (take_bit 5 rt) (take_bit 5 rn))"
  "decode (fetch (ldrh_offset_preindex rn rt k)) =
     Some (LdSt 2 Ld (Pre (scast (ucast k :: 9 word))) (take_bit 5 rt) (take_bit 5 rn))"
  "decode (fetch (ldrb_offset_preindex rn rt k)) =
     Some (LdSt 1 Ld (Pre (scast (ucast k :: 9 word))) (take_bit 5 rt) (take_bit 5 rn))"
  "decode (fetch (ldrsh_offset_preindex rn rt k)) =
     Some (LdSt 2 Ld_s32 (Pre (scast (ucast k :: 9 word))) (take_bit 5 rt) (take_bit 5 rn))"
  "decode (fetch (ldrsb_offset_preindex rn rt k)) =
     Some (LdSt 1 Ld_s32 (Pre (scast (ucast k :: 9 word))) (take_bit 5 rt) (take_bit 5 rn))"
  "decode (fetch (str_offset_preindex rn rt k)) =
     Some (LdSt 4 St (Pre (scast (ucast k :: 9 word))) (take_bit 5 rt) (take_bit 5 rn))"
  "decode (fetch (strh_offset_preindex rn rt k)) =
     Some (LdSt 2 St (Pre (scast (ucast k :: 9 word))) (take_bit 5 rt) (take_bit 5 rn))"
  "decode (fetch (strb_offset_preindex rn rt k)) =
     Some (LdSt 1 St (Pre (scast (ucast k :: 9 word))) (take_bit 5 rt) (take_bit 5 rn))"
  using assms
  by (simp_all add: ldr_offset_preindex_def ldrh_offset_preindex_def ldrb_offset_preindex_def ldrsh_offset_preindex_def ldrsb_offset_preindex_def str_offset_preindex_def strh_offset_preindex_def strb_offset_preindex_def
    decode_simps dec_ldst64_def dec_ldst_def Let_def ldop_of_def imm9_def fld_9_u16 split del: if_split)

lemma decode_ldst_unscaled [a64_decode]:
  "decode (fetch (ldur_offset rn rt k)) =
     Some (LdSt 4 Ld (Off (scast (ucast k :: 9 word))) (take_bit 5 rt) (take_bit 5 rn))"
  "decode (fetch (ldurh_offset rn rt k)) =
     Some (LdSt 2 Ld (Off (scast (ucast k :: 9 word))) (take_bit 5 rt) (take_bit 5 rn))"
  "decode (fetch (ldurb_offset rn rt k)) =
     Some (LdSt 1 Ld (Off (scast (ucast k :: 9 word))) (take_bit 5 rt) (take_bit 5 rn))"
  "decode (fetch (ldursh_offset rn rt k)) =
     Some (LdSt 2 Ld_s32 (Off (scast (ucast k :: 9 word))) (take_bit 5 rt) (take_bit 5 rn))"
  "decode (fetch (ldursb_offset rn rt k)) =
     Some (LdSt 1 Ld_s32 (Off (scast (ucast k :: 9 word))) (take_bit 5 rt) (take_bit 5 rn))"
  "decode (fetch (stur_offset rn rt k)) =
     Some (LdSt 4 St (Off (scast (ucast k :: 9 word))) (take_bit 5 rt) (take_bit 5 rn))"
  "decode (fetch (sturh_offset rn rt k)) =
     Some (LdSt 2 St (Off (scast (ucast k :: 9 word))) (take_bit 5 rt) (take_bit 5 rn))"
  "decode (fetch (sturb_offset rn rt k)) =
     Some (LdSt 1 St (Off (scast (ucast k :: 9 word))) (take_bit 5 rt) (take_bit 5 rn))"
  by (simp_all add: ldur_offset_def ldurh_offset_def ldurb_offset_def ldursh_offset_def ldursb_offset_def stur_offset_def sturh_offset_def sturb_offset_def
    decode_simps dec_ldst64_def dec_ldst_def Let_def ldop_of_def imm9_def fld_9_u16 split del: if_split)

end
