(* ===== verification/EA_Addr.thy ===== *)
theory EA_Addr
  imports A64_Access LoadImm Insn_Length
begin

text \<open>
  The first half of \<open>M68k_EA.c\<close>: moving a value between a host register and an address
  made of a base register and a displacement, or of a base register and a scaled index.
  A sz of 0 asks for the address itself. The base \<open>0xff\<close> stands for no base, a zero is
  loaded in its place. Displacements are signed 32-bit integers. The messages for sizes
  that do not occur are left out.
\<close>

definition RA_SetDirtyM68kRegister :: "u8 \<Rightarrow> jit \<Rightarrow> jit" where
  "RA_SetDirtyM68kRegister m68k_reg j = j"

definition load_s16_ext32 :: "u8 \<Rightarrow> u16 \<Rightarrow> jit \<Rightarrow> jit" where
  "load_s16_ext32 reg s16 j =
    (if s16 AND 0x8000 \<noteq> 0 then EMIT [movn_immed_u16 reg (NOT s16) 0] j
     else EMIT [mov_immed_u16 reg s16 0] j)"

section \<open>Shared pieces\<close>

text \<open>No base: a temporary with zero. The second component says whether it has to be freed.\<close>

definition zero_base :: "u8 \<Rightarrow> jit \<Rightarrow> u8 \<times> bool \<times> jit" where
  "zero_base base j =
    (if base = 0xff then (case RA_AllocARMRegister j of (b, j) \<Rightarrow> (b, True, EMIT [mov_reg b 31] j))
     else (base, False, j))"

definition load_displacement :: "u8 \<Rightarrow> int \<Rightarrow> bool \<Rightarrow> jit \<Rightarrow> jit" where
  "load_displacement reg_d16 displ wide_displ j =
    (if wide_displ then EMIT_LoadImmediate reg_d16 (word_of_int displ) j
     else if 0 < displ then EMIT [mov_immed_u16 reg_d16 (word_of_int displ) 0] j
     else EMIT [movn_immed_u16 reg_d16 (word_of_int (- displ - 1)) 0] j)"

text \<open>The loads and stores at an address that is in a register.\<close>

definition load_at :: "u8 \<Rightarrow> bool \<Rightarrow> u8 \<Rightarrow> u8 \<Rightarrow> u32 list" where
  "load_at sz sign_ext base reg =
    (if sz = 4 then [ldr_offset base reg 0]
     else if sz = 2 then [if sign_ext then ldrsh_offset base reg 0 else ldrh_offset base reg 0]
     else if sz = 1 then [if sign_ext then ldrsb_offset base reg 0 else ldrb_offset base reg 0]
     else [])"

definition store_at :: "u8 \<Rightarrow> u8 \<Rightarrow> u8 \<Rightarrow> u32 list" where
  "store_at sz base reg =
    (if sz = 4 then [str_offset base reg 0] else if sz = 2 then [strh_offset base reg 0]
     else if sz = 1 then [strb_offset base reg 0] else [])"

section \<open>Base and displacement\<close>

text \<open>The address itself (size 0), the same for loads and stores.\<close>

definition lea_offset :: "u8 \<Rightarrow> u8 \<Rightarrow> u8 \<Rightarrow> int \<Rightarrow> bool \<Rightarrow> jit \<Rightarrow> jit" where
  "lea_offset base reg reg_d16 displ wide_displ j =
    (if -4096 < displ \<and> displ < 4096 then
       (if displ < 0 then EMIT [sub_immed reg base (word_of_int (- displ))] j
        else EMIT [add_immed reg base (word_of_int displ)] j)
     else EMIT [add_reg reg base reg_d16 LSL 0] (load_displacement reg_d16 displ wide_displ j))"

text \<open>The access itself: near displacements fit the instruction, far ones go through \<open>reg_d16\<close>.\<close>

definition load_displaced :: "u8 \<Rightarrow> u8 \<Rightarrow> u8 \<Rightarrow> u8 \<Rightarrow> int \<Rightarrow> bool \<Rightarrow> bool \<Rightarrow> jit \<Rightarrow> jit" where
  "load_displaced sz base reg reg_d16 displ wide_displ sign_ext j =
    (let imm = word_of_int displ :: u16;
         far = EMIT (add_reg reg_d16 base reg_d16 LSL 0 # load_at sz sign_ext reg_d16 reg)
                 (load_displacement reg_d16 displ wide_displ j)
     in if sz = 4 then
          (if displ = 0 then EMIT [ldr_offset base reg 0] j
           else if -256 < displ \<and> displ < 256 then EMIT [ldur_offset base reg (imm AND 0x1ff)] j
           else if 0 < displ \<and> displ < 16384 \<and> imm AND 3 = 0 then EMIT [ldr_offset base reg imm] j
           else far)
        else if sz = 2 then
          (if -256 < displ \<and> displ < 256 then
             EMIT [if sign_ext then ldursh_offset base reg (imm AND 0x1ff) else ldurh_offset base reg (imm AND 0x1ff)] j
           else if 0 \<le> displ \<and> displ < 8192 \<and> imm AND 1 = 0 then
             EMIT [if sign_ext then ldrsh_offset base reg imm else ldrh_offset base reg imm] j
           else far)
        else if sz = 1 then
          (if -256 < displ \<and> displ < 256 then
             EMIT [if sign_ext then ldursb_offset base reg imm else ldurb_offset base reg imm] j
           else if 0 \<le> displ \<and> displ < 4096 then
             EMIT [if sign_ext then ldrsb_offset base reg imm else ldrb_offset base reg imm] j
           else far)
        else if sz = 0 then lea_offset base reg reg_d16 displ wide_displ j
        else j)"

definition load_reg_from_addr_offset :: "u8 \<Rightarrow> u8 \<Rightarrow> u8 \<Rightarrow> int \<Rightarrow> bool \<Rightarrow> bool \<Rightarrow> jit \<Rightarrow> jit" where
  "load_reg_from_addr_offset sz base reg displ wide_displ sign_ext j0 =
    (case RA_AllocARMRegister j0 of (reg_d16, j1) \<Rightarrow> case zero_base base j1 of (base, free_base, j) \<Rightarrow>
       let j = RA_FreeARMRegister reg_d16 (load_displaced sz base reg reg_d16 displ wide_displ sign_ext j)
       in if free_base then RA_FreeARMRegister base j else j)"

definition store_displaced :: "u8 \<Rightarrow> u8 \<Rightarrow> u8 \<Rightarrow> u8 \<Rightarrow> int \<Rightarrow> bool \<Rightarrow> jit \<Rightarrow> jit" where
  "store_displaced sz base reg reg_d16 displ wide_displ j =
    (let imm = word_of_int displ :: u16;
         far = EMIT (add_reg reg_d16 base reg_d16 LSL 0 # store_at sz reg_d16 reg)
                 (load_displacement reg_d16 displ wide_displ j)
     in if sz = 4 then
          (if displ = 0 then EMIT [str_offset base reg 0] j
           else if -256 < displ \<and> displ < 256 then EMIT [stur_offset base reg (imm AND 0x1ff)] j
           else if 0 < displ \<and> displ < 16384 \<and> imm AND 3 = 0 then EMIT [str_offset base reg imm] j
           else far)
        else if sz = 2 then
          (if -256 < displ \<and> displ < 256 then EMIT [sturh_offset base reg (imm AND 0x1ff)] j
           else if 0 \<le> displ \<and> displ < 8192 \<and> imm AND 1 = 0 then EMIT [strh_offset base reg imm] j
           else far)
        else if sz = 1 then
          (if -256 < displ \<and> displ < 256 then EMIT [sturb_offset base reg imm] j
           else if 0 \<le> displ \<and> displ < 4096 then EMIT [strb_offset base reg imm] j
           else far)
        else if sz = 0 then lea_offset base reg reg_d16 displ wide_displ j
        else j)"

definition store_reg_to_addr_offset :: "u8 \<Rightarrow> u8 \<Rightarrow> u8 \<Rightarrow> int \<Rightarrow> bool \<Rightarrow> jit \<Rightarrow> jit" where
  "store_reg_to_addr_offset sz base reg displ wide_displ j0 =
    (case RA_AllocARMRegister j0 of (reg_d16, j1) \<Rightarrow> case zero_base base j1 of (base, free_base, j) \<Rightarrow>
       let j = RA_FreeARMRegister reg_d16 (store_displaced sz base reg reg_d16 displ wide_displ j)
       in if free_base then RA_FreeARMRegister base j else j)"

section \<open>Base and index\<close>

definition load_reg_from_addr :: "u8 \<Rightarrow> u8 \<Rightarrow> u8 \<Rightarrow> u8 \<Rightarrow> u8 \<Rightarrow> bool \<Rightarrow> jit \<Rightarrow> jit" where
  "load_reg_from_addr sz base reg index shift sign_ext j0 =
    (case zero_base base j0 of (base, free_base, j) \<Rightarrow>
       let j = (if index = 0xff then
                  EMIT (if sz = 0 then [mov_reg reg base] else load_at sz sign_ext base reg) j
                else case RA_AllocARMRegister j of (tmp, j) \<Rightarrow>
                  RA_FreeARMRegister tmp
                    (if sz = 0 then EMIT [add_reg reg base index LSL shift] j
                     else if sz \<in> {1, 2, 4}
                     then EMIT (add_reg tmp base index LSL shift # load_at sz sign_ext tmp reg) j
                     else j))
       in if free_base then RA_FreeARMRegister base j else j)"

definition store_reg_to_addr :: "u8 \<Rightarrow> u8 \<Rightarrow> u8 \<Rightarrow> u8 \<Rightarrow> u8 \<Rightarrow> jit \<Rightarrow> jit" where
  "store_reg_to_addr sz base reg index shift j0 =
    (case zero_base base j0 of (base, free_base, j) \<Rightarrow>
       let j = (if index = 0xff then
                  EMIT (if sz = 0 then [mov_reg reg base] else store_at sz base reg) j
                else case RA_AllocARMRegister j of (tmp, j) \<Rightarrow>
                  RA_FreeARMRegister tmp
                    (if sz = 0 then EMIT [add_reg reg base index LSL shift] j
                     else if sz \<in> {1, 2, 4}
                     then EMIT (add_reg tmp base index LSL shift # store_at sz tmp reg) j
                     else j))
       in if free_base then RA_FreeARMRegister base j else j)"

end
