(* ===== verification/EA_Sem.thy ===== *)
theory EA_Sem
  imports EA_Addr
begin

text \<open>
  What the pieces of the effective address emitters do to the machine. \<open>acts S\<close> is the
  contract of emitted code that may change the registers in \<open>S\<close>, temporaries that were
  free, and memory; a host register holds an emulated one with its upper half clear.
\<close>

section \<open>The contract\<close>

definition acts :: "u8 set \<Rightarrow> jit \<Rightarrow> mstate \<Rightarrow> jit \<Rightarrow> mstate \<Rightarrow> bool" where
  "acts S j m j' m' \<longleftrightarrow> produces j m j' m' \<and>
     (\<forall>r. r \<notin> S \<longrightarrow> r \<notin> arm_temps - live_temps j \<longrightarrow> rdX m' r = rdX m r) \<and>
     m_simd m' = m_simd m \<and>
     m_n m' = m_n m \<and> m_z m' = m_z m \<and> m_c m' = m_c m \<and> m_v m' = m_v m \<and>
     live_temps j \<subseteq> live_temps j' \<and> status_part j' = status_part j \<and> (REG_PC \<notin> S \<longrightarrow> pc_rel j' = pc_rel j)"

lemma acts_refl: "tc_code j' = tc_code j \<Longrightarrow> live_temps j' = live_temps j \<Longrightarrow>
    status_part j' = status_part j \<Longrightarrow> pc_rel j' = pc_rel j \<Longrightarrow> acts S j m j' m"
  by (simp add: acts_def produces_same)

lemma acts_trans:
  assumes "acts S j m j1 m1" "acts S j1 m1 j2 m2"
  shows "acts S j m j2 m2"
proof -
  from assms have "produces j m j2 m2" unfolding acts_def using produces_trans by blast
  with assms show ?thesis by (auto simp: acts_def)
qed

lemma acts_mono: "acts S j m j' m' \<Longrightarrow> S \<subseteq> T \<Longrightarrow> acts T j m j' m'"
  by (auto simp: acts_def)

text \<open>A temporary that is allocated may be changed: freed again, or kept.\<close>

lemma acts_alloc:
  assumes "alloc_result j r j1" "acts (insert r S) j1 m j' m'"
  shows "acts S j m j' m'"
proof -
  have "r \<noteq> REG_PC" using assms(1) by (auto simp: alloc_result_def arm_temps_def REG_PC_def)
  then show ?thesis using assms by (auto simp: acts_def alloc_result_def produces_def)
qed

lemma live_Free_other: "r \<notin> arm_temps \<Longrightarrow> live_temps (RA_FreeARMRegister r j) = live_temps j"
  by (auto simp: live_temps_def RA_FreeARMRegister_def bit_simps arm_temps_def)

lemma live_Free_keep: "r \<notin> L \<Longrightarrow> L \<subseteq> live_temps j \<Longrightarrow> L \<subseteq> live_temps (RA_FreeARMRegister r j)"
  by (cases "r \<in> arm_temps") (auto simp: live_Free live_Free_other)

lemma acts_Free:
  assumes "acts S j m j' m'" "r \<notin> live_temps j"
  shows "acts S j m (RA_FreeARMRegister r j') m'"
  using assms live_Free_keep [OF assms(2)] by (auto simp: acts_def produces_def)

lemma acts_temp:
  assumes "alloc_result j r j1" "acts (insert r S) j1 m j' m'"
  shows "acts S j m (RA_FreeARMRegister r j') m'"
  using acts_Free [OF acts_alloc [OF assms]] assms(1) by (simp add: alloc_result_def)

lemma acts_EMIT:
  assumes "no_branches ws" "run ws m = Some m'" "\<And>s. s \<notin> S \<Longrightarrow> rdX m' s = rdX m s"
    "m_simd m' = m_simd m" "m_n m' = m_n m" "m_z m' = m_z m" "m_c m' = m_c m" "m_v m' = m_v m"
  shows "acts S j m (EMIT ws j) m'"
  using assms by (simp add: acts_def produces_def)

lemma acts_keeps: "acts S j m j' m' \<Longrightarrow> r \<notin> S \<Longrightarrow> r \<notin> arm_temps - live_temps j \<Longrightarrow> rdX m' r = rdX m r"
  by (simp add: acts_def)

lemma updates_acts: "updates S j m j' m' \<Longrightarrow> REG_PC \<in> S \<Longrightarrow> acts S j m j' m'"
  by (simp add: updates_def acts_def)

text \<open>Registers that hold 32 bits.\<close>

definition reg_is :: "mstate \<Rightarrow> u8 \<Rightarrow> u32 \<Rightarrow> bool" where
  "reg_is m r v \<longleftrightarrow> rdX m r = ucast v"

lemma reg_is_rdW: "reg_is m r v \<Longrightarrow> rdW m r = v"
  by (simp add: reg_is_def rdW_def)

lemma reg_is_wrW [simp]: "reg_is (wrW r v m) s w = (if r = s \<and> r \<noteq> 31 then v = w else reg_is m s w)"
proof -
  have "(ucast v :: u64) = ucast w \<longleftrightarrow> v = w" by (metis ucast_u32_u64)
  then show ?thesis by (auto simp: reg_is_def)
qed

lemma reg_is_wrX [simp]:
  "reg_is (wrX r v m) s w = (if r = s \<and> r \<noteq> 31 then v = ucast w else reg_is m s w)"
  by (auto simp: reg_is_def)

lemma reg_is_updates [simp]: "reg_is (m\<lparr>m_pc := p\<rparr>) r v = reg_is m r v" "reg_is (m\<lparr>m_mem := f\<rparr>) r v = reg_is m r v"
  by (simp_all add: reg_is_def)

lemma reg_is_keeps:
  "acts S j m j' m' \<Longrightarrow> r \<notin> S \<Longrightarrow> r \<notin> arm_temps - live_temps j \<Longrightarrow> reg_is m' r v = reg_is m r v"
  by (simp add: reg_is_def acts_keeps)

section \<open>Single instructions\<close>

lemma run_decoded: "decode (fetch w) = Some i \<Longrightarrow> \<not> is_branch i \<Longrightarrow> run (w # ws) m = run ws (exec i m)"
  by (rule run_step)

lemma no_branches_decoded: "decode (fetch w) = Some i \<Longrightarrow> \<not> is_branch i \<Longrightarrow> no_branches [w]"
  by (simp add: no_branches_def)

lemma acts_decoded:
  assumes "decode (fetch w) = Some i" "\<not> is_branch i" "\<And>s. s \<notin> S \<Longrightarrow> rdX (exec i m) s = rdX m s"
    "m_simd (exec i m) = m_simd m" "m_n (exec i m) = m_n m" "m_z (exec i m) = m_z m"
    "m_c (exec i m) = m_c m" "m_v (exec i m) = m_v m"
  shows "acts S j m (EMIT [w] j) (exec i m)"
  by (rule acts_EMIT) (use assms in \<open>simp_all add: run_decoded [OF assms(1,2)] no_branches_decoded [OF assms(1,2)]\<close>)

text \<open>What a load of \<open>n\<close> bytes leaves in its register.\<close>

definition extended :: "nat \<Rightarrow> bool \<Rightarrow> u32 \<Rightarrow> u32" where
  "extended n sx v = (if sx then signed_take_bit (8 * n - 1) v else v)"

definition loaded :: "nat \<Rightarrow> bool \<Rightarrow> mstate \<Rightarrow> u64 \<Rightarrow> u32" where
  "loaded n sx m a = extended n sx (rd_be (m_mem m) a n)"

lemma extended_4 [simp]: "extended 4 sx v = v"
  by (rule bit_word_eqI) (auto simp: extended_def bit_simps min_def numeral_eq_Suc less_Suc_eq)

lemma ld_val_extended: "p = (if sx then Ld_s32 else Ld) \<Longrightarrow> ld_val p n v = ucast (extended n sx v)"
  by (simp add: extended_def)

text \<open>One load instruction, with a plain offset or with an update of the base.\<close>

lemma load_offset:
  assumes "decode (fetch w) = Some (LdSt n p (Off k) t b)" "is_reg t" "is_reg b" "p = Ld \<or> p = Ld_s32"
  shows "\<exists>m'. acts {t} j m (EMIT [w] j) m' \<and>
    reg_is m' t (loaded n (p = Ld_s32) m (rdX m b + k)) \<and> m_mem m' = m_mem m"
proof -
  have "acts {t} j m (EMIT [w] j) (exec (LdSt n p (Off k) t b) m)"
    by (rule acts_decoded) (use assms in \<open>auto simp: exec_def Let_def\<close>)
  moreover have "reg_is (exec (LdSt n p (Off k) t b) m) t (loaded n (p = Ld_s32) m (rdX m b + k))"
    using assms is_regD(2) [OF assms(2)] is_regD(2) [OF assms(3)]
    by (auto simp: exec_def Let_def loaded_def extended_def rdX_def rdXsp_def)
  moreover have "m_mem (exec (LdSt n p (Off k) t b) m) = m_mem m"
    using assms(4) by (auto simp: exec_def Let_def)
  ultimately show ?thesis by blast
qed

lemma store_offset:
  assumes "decode (fetch w) = Some (LdSt n St (Off k) t b)" "is_reg b"
  shows "\<exists>m'. acts {} j m (EMIT [w] j) m' \<and>
    m_mem m' = wr_be (m_mem m) (rdX m b + k) n (rdW m t)"
proof -
  have "acts {} j m (EMIT [w] j) (exec (LdSt n St (Off k) t b) m)"
    by (rule acts_decoded) (use assms in \<open>auto simp: exec_def Let_def\<close>)
  moreover have "m_mem (exec (LdSt n St (Off k) t b) m) = wr_be (m_mem m) (rdX m b + k) n (rdW m t)"
    using is_regD(2) [OF assms(2)] by (simp add: exec_def Let_def rdX_def rdXsp_def)
  ultimately show ?thesis by blast
qed

section \<open>Displacements\<close>

lemma near_offset:
  assumes "-256 \<le> d" "d < 256"
  shows "scast (ucast (word_of_int d :: u16) :: 9 word) = (word_of_int d :: u64)"
    "scast (ucast ((word_of_int d :: u16) AND 0x1ff) :: 9 word) = (word_of_int d :: u64)"
proof -
  have u: "ucast (word_of_int d :: u16) = (word_of_int d :: 9 word)"
    by (simp add: word_uint_eq_iff unsigned_ucast_eq uint_word_of_int take_bit_eq_mod [where ?'a = int] mod_mod_cancel)
  have a: "ucast ((k :: u16) AND 0x1ff) = (ucast k :: 9 word)" for k
    by (rule bit_word_eqI) (auto simp: bit_simps numeral_eq_Suc less_Suc_eq)
  have "sint (word_of_int d :: 9 word) = d"
    using assms by (simp add: sint_sbintrunc' signed_take_bit_int_eq_self)
  then show "scast (ucast (word_of_int d :: u16) :: 9 word) = (word_of_int d :: u64)"
    "scast (ucast ((word_of_int d :: u16) AND 0x1ff) :: 9 word) = (word_of_int d :: u64)"
    unfolding a u by (simp_all only: scast_eq)
qed

lemma scaled_offset:
  assumes "0 \<le> d" "d < 16384" "(word_of_int d :: u16) AND 3 = 0"
  shows "4 * ucast (take_bit 12 (drop_bit 2 (ucast (word_of_int d :: u16) :: u32))) = (word_of_int d :: u64)"
proof -
  have m: "(3 :: u16) = mask 2" by (simp add: mask_eq_exp_minus_1)
  have four_pow: "(4 :: int) = 2 ^ 2" by simp
  have u: "uint (word_of_int d :: u16) = d"
    using assms by (simp add: uint_word_of_int)
  then have "d mod 4 = 0" using assms(3) unfolding m take_bit_eq_mask [symmetric]
    by (metis take_bit_eq_mod [where ?'a = int] unsigned_take_bit_eq four_pow unsigned_0 [where ?'a = int])
  then obtain q where q: "d = 4 * q" by auto
  define k where "k = (word_of_int d :: u16)"
  have k: "uint k = 4 * q" using u q k_def by simp
  have "uint (ucast (take_bit 12 (drop_bit 2 (ucast k :: u32))) :: u64) = q"
    using assms(1,2) q
    by (simp add: unsigned_ucast_eq unsigned_take_bit_eq unsigned_drop_bit_eq take_bit_eq_mod [where ?'a = int] drop_bit_eq_div [where ?'a = int] k)
  then have "ucast (take_bit 12 (drop_bit 2 (ucast k :: u32))) = (word_of_int q :: u64)"
    by (metis word_of_int_uint)
  then show ?thesis by (simp add: k_def [symmetric]) (simp add: q)
qed


lemma scaled_offset_2:
  assumes "0 \<le> d" "d < 8192" "(word_of_int d :: u16) AND 1 = 0"
  shows "2 * ucast (take_bit 12 (drop_bit 1 (ucast (word_of_int d :: u16) :: u32))) = (word_of_int d :: u64)"
proof -
  define k where "k = (word_of_int d :: u16)"
  have u: "uint k = d" using assms(1,2) by (simp add: k_def uint_word_of_int)
  have m: "(1 :: u16) = mask 1" by (simp add: mask_eq_exp_minus_1)
  have "take_bit 1 k = 0" using assms(3) unfolding m take_bit_eq_mask [symmetric] k_def .
  then have "take_bit 1 (uint k) = 0" by (metis unsigned_take_bit_eq unsigned_0 [where ?'a = int])
  then have "even (uint k)" by (simp add: take_bit_eq_mod [where ?'a = int] even_iff_mod_2_eq_zero)
  then obtain q where q: "uint k = 2 * q" by (rule evenE)
  have "uint (ucast (take_bit 12 (drop_bit 1 (ucast k :: u32))) :: u64) = q"
    using assms(1,2) u q
    by (simp add: unsigned_ucast_eq unsigned_take_bit_eq unsigned_drop_bit_eq take_bit_eq_mod [where ?'a = int] drop_bit_eq_div [where ?'a = int])
  then have "ucast (take_bit 12 (drop_bit 1 (ucast k :: u32))) = (word_of_int q :: u64)"
    by (metis word_of_int_uint)
  moreover have "(word_of_int d :: u64) = 2 * word_of_int q" unfolding u [symmetric] q by simp
  ultimately show ?thesis unfolding k_def [symmetric] by simp
qed

lemma plain_offset:
  assumes "0 \<le> d" "d < 4096"
  shows "ucast (take_bit 12 (ucast (word_of_int d :: u16) :: u32)) = (word_of_int d :: u64)"
proof -
  have "uint (ucast (take_bit 12 (ucast (word_of_int d :: u16) :: u32)) :: u64) = d"
    using assms by (simp add: unsigned_ucast_eq unsigned_take_bit_eq take_bit_eq_mod [where ?'a = int] uint_word_of_int)
  then show ?thesis by (metis word_of_int_uint)
qed

text \<open>An address that does not leave the 32-bit range.\<close>

definition in_range :: "u32 \<Rightarrow> int \<Rightarrow> bool" where
  "in_range a d \<longleftrightarrow> 0 \<le> uint a + d \<and> uint a + d < 2 ^ 32"

lemma in_range_add: "in_range a d \<Longrightarrow> (ucast a :: u64) + word_of_int d = ucast (a + word_of_int d :: u32)"
proof -
  assume r: "in_range a d"
  have w: "a + word_of_int d = (word_of_int (uint a + d) :: u32)" by simp
  have "uint (word_of_int x :: u32) = x" if "0 \<le> x" "x < 2 ^ 32" for x
    using that by (simp add: uint_word_of_int)
  then have u: "uint (a + word_of_int d) = uint a + d" using r unfolding w in_range_def by blast
  have "ucast (a + word_of_int d) = (word_of_int (uint (a + word_of_int d)) :: u64)" by simp
  also have "\<dots> = word_of_int (uint a) + word_of_int d" unfolding u by simp
  finally show ?thesis by simp
qed

section \<open>Immediates, sums and plain accesses\<close>

lemma load_number_acts:
  assumes "is_reg rd"
  shows "\<exists>m'. acts {rd} j m (EMIT_LoadImmediate rd v j) m' \<and> reg_is m' rd v \<and> m_mem m' = m_mem m"
proof -
  obtain ws m' where c: "EMIT_LoadImmediate rd v j = EMIT ws j" "no_branches ws" "run ws m = Some m'"
    "loads_number rd v m m'" using EMIT_LoadImmediate_code [OF assms] by blast
  then have "acts {rd} j m (EMIT ws j) m'" by (intro acts_EMIT) (auto simp: loads_number_def)
  with c show ?thesis by (auto simp: loads_number_def reg_is_def)
qed

lemma step_acts:
  assumes "decode (fetch w) = Some i" "\<not> is_branch i" "exec_data i m = wrW rd v m" "is_reg rd"
  shows "\<exists>m'. acts {rd} j m (EMIT [w] j) m' \<and> reg_is m' rd v \<and> m_mem m' = m_mem m"
proof -
  have e: "exec i m = (wrW rd v m)\<lparr>m_pc := m_pc m + 4\<rparr>" using assms(2,3) by (simp add: exec_def)
  have "acts {rd} j m (EMIT [w] j) (exec i m)"
    by (rule acts_decoded [OF assms(1,2)]) (auto simp: e)
  then show ?thesis using is_regD(2) [OF assms(4)] by (intro exI [of _ "exec i m"]) (simp add: e)
qed

lemma add_reg_acts:
  assumes "is_reg rd" "is_reg rn" "is_reg rm" "k < 32"
  shows "\<exists>m'. acts {rd} j m (EMIT [add_reg rd rn rm LSL k] j) m' \<and>
    reg_is m' rd (rdW m rn + push_bit (unat k) (rdW m rm)) \<and> m_mem m' = m_mem m"
  by (rule step_acts [OF decode_add_reg(1) [OF assms(4)]]) (use assms in \<open>simp_all add: is_regD Let_def\<close>)

lemma mov_u16_acts:
  "is_reg rd \<Longrightarrow> \<exists>m'. acts {rd} j m (EMIT [mov_immed_u16 rd v 0] j) m' \<and> reg_is m' rd (ucast v) \<and> m_mem m' = m_mem m"
  "is_reg rd \<Longrightarrow> \<exists>m'. acts {rd} j m (EMIT [movn_immed_u16 rd v 0] j) m' \<and> reg_is m' rd (NOT (ucast v)) \<and> m_mem m' = m_mem m"
proof -
  have z: "(0 :: u8) < 2" by simp
  show "is_reg rd \<Longrightarrow> \<exists>m'. acts {rd} j m (EMIT [mov_immed_u16 rd v 0] j) m' \<and> reg_is m' rd (ucast v) \<and> m_mem m' = m_mem m"
    by (rule step_acts [OF decode_mov_immed_u16 [OF z]]) (simp_all add: is_regD)
  show "is_reg rd \<Longrightarrow> \<exists>m'. acts {rd} j m (EMIT [movn_immed_u16 rd v 0] j) m' \<and> reg_is m' rd (NOT (ucast v)) \<and> m_mem m' = m_mem m"
    by (rule step_acts [OF decode_movn_immed_u16 [OF z]]) (simp_all add: is_regD)
qed

lemma mov_reg_acts:
  "is_reg rd \<Longrightarrow> rm = 31 \<or> is_reg rm \<Longrightarrow>
    \<exists>m'. acts {rd} j m (EMIT [mov_reg rd rm] j) m' \<and> reg_is m' rd (rdW m rm) \<and> m_mem m' = m_mem m"
  by (rule step_acts [OF decode_mov_reg]) (auto simp: is_regD)

lemma load_at_acts:
  assumes "sz \<in> {1, 2, 4}" "is_reg t" "is_reg b"
  shows "\<exists>m'. acts {t} j m (EMIT (load_at sz sx b t) j) m' \<and>
    reg_is m' t (loaded (unat sz) sx m (rdX m b)) \<and> m_mem m' = m_mem m"
proof -
  have z: "loaded 4 sx m a = loaded 4 False m a" for a by (simp add: loaded_def)
  show ?thesis
    using assms(1) load_offset [OF decode_ldst_offset(1) [of b t 0], of j m] load_offset [OF decode_ldst_offset(2) [of b t 0], of j m]
      load_offset [OF decode_ldst_offset(3) [of b t 0], of j m] load_offset [OF decode_ldst_offset(4) [of b t 0], of j m]
      load_offset [OF decode_ldst_offset(5) [of b t 0], of j m] assms(2,3)
    by (auto simp: load_at_def is_regD z)
qed

lemma store_at_acts:
  assumes "sz \<in> {1, 2, 4}" "is_reg t" "is_reg b"
  shows "\<exists>m'. acts {} j m (EMIT (store_at sz b t) j) m' \<and> m_mem m' = wr_be (m_mem m) (rdX m b) (unat sz) (rdW m t)"
  using assms(1) store_offset [OF decode_ldst_offset(6) [of b t 0], of j m] store_offset [OF decode_ldst_offset(7) [of b t 0], of j m]
    store_offset [OF decode_ldst_offset(8) [of b t 0], of j m] assms(2,3)
  by (auto simp: store_at_def is_regD)

end
