(* ===== verification/EA_Disp.thy ===== *)
theory EA_Disp
  imports EA_Sem
begin

text \<open>
  Loads and stores at a base register plus a displacement or plus a scaled index
  (\<open>EA_Addr\<close>): the address they reach is the base plus the displacement, in 32 bits.
\<close>

section \<open>The base register\<close>

text \<open>\<open>base_ok\<close>: the base the caller names holds \<open>B\<close>; no base stands for zero.\<close>

definition base_ok :: "jit \<Rightarrow> mstate \<Rightarrow> u8 \<Rightarrow> u32 \<Rightarrow> bool" where
  "base_ok j m base B \<longleftrightarrow>
     (if base = 0xff then B = 0 else is_reg base \<and> base \<notin> arm_temps - live_temps j \<and> reg_is m base B)"

lemma base_okD: "base_ok j m base B \<Longrightarrow> base \<noteq> 0xff \<Longrightarrow> is_reg base"
  "base_ok j m base B \<Longrightarrow> base \<noteq> 0xff \<Longrightarrow> base \<notin> arm_temps - live_temps j"
  "base_ok j m base B \<Longrightarrow> base \<noteq> 0xff \<Longrightarrow> reg_is m base B"
  by (simp_all add: base_ok_def)

lemma base_ok_alloc: "base_ok j m base B \<Longrightarrow> alloc_result j r j1 \<Longrightarrow> base_ok j1 m base B"
  by (simp add: base_ok_def alloc_result_def split: if_splits)

lemma temp_not_ff: "r \<in> arm_temps \<Longrightarrow> r \<noteq> 0xff"
  by (drule arm_temps_less) simp

lemma alloc_reg: "alloc_result j r j1 \<Longrightarrow> is_reg r" "alloc_result j r j1 \<Longrightarrow> r \<notin> live_temps j"
  "alloc_result j r j1 \<Longrightarrow> r \<noteq> 0xff" "alloc_result j r j1 \<Longrightarrow> r \<in> arm_temps - live_temps j"
  "alloc_result j r j1 \<Longrightarrow> RA_AllocARMRegister j = (r, j1)"
  "alloc_result j r j1 \<Longrightarrow> live_temps j1 = insert r (live_temps j)"
  by (auto simp: alloc_result_def arm_temps_is_reg temp_not_ff)

lemma zero_base_acts:
  assumes "base_ok j m base B" "free_temps 1 j"
  obtains b fb j' m' where "zero_base base j = (b, fb, j')" "acts {} j m j' m'" "reg_is m' b B"
    "m_mem m' = m_mem m" "is_reg b" "b \<notin> arm_temps - live_temps j'"
    "fb \<longleftrightarrow> base = 0xff" "\<not> fb \<longrightarrow> b = base \<and> live_temps j' = live_temps j"
    "fb \<longrightarrow> b \<in> arm_temps - live_temps j \<and> live_temps j' = insert b (live_temps j)"
proof (cases "base = 0xff")
  case True
  obtain b j1 where a: "alloc_result j b j1" using free_temps_1 [OF assms(2)] by blast
  obtain m' where m': "acts {b} j1 m (EMIT [mov_reg b 31] j1) m'" "reg_is m' b 0" "m_mem m' = m_mem m"
    using mov_reg_acts [of b 31 j1 m] alloc_reg(1) [OF a] by auto
  show thesis
    by (rule that [of b True "EMIT [mov_reg b 31] j1" m'])
      (use True assms(1) m' acts_alloc [OF a m'(1)] alloc_reg [OF a] in
        \<open>auto simp: zero_base_def base_ok_def\<close>)
next
  case False
  show thesis
    by (rule that [of base False j m])
      (use False assms(1) in \<open>auto simp: zero_base_def base_ok_def intro: acts_refl\<close>)
qed

section \<open>Base and displacement\<close>

lemma load_displacement_acts:
  assumes "is_reg r" "wide \<or> (-32768 \<le> d \<and> d < 32768 \<and> d \<noteq> 0)"
  shows "\<exists>m'. acts {r} j m (load_displacement r d wide j) m' \<and> reg_is m' r (word_of_int d) \<and> m_mem m' = m_mem m"
proof -
  have n: "NOT (ucast (word_of_int (- d - 1) :: u16)) = (word_of_int d :: u32)" if "-32768 \<le> d" "d < 0"
  proof -
    define k where "k = - d - 1"
    have "0 \<le> k" "k < 65536" using that by (simp_all add: k_def)
    then have "ucast (word_of_int k :: u16) = (word_of_int k :: u32)"
      by (simp add: word_uint_eq_iff unsigned_ucast_eq uint_word_of_int take_bit_int_eq_self)
    then show ?thesis unfolding k_def [symmetric] by (simp add: not_eq_complement k_def)
  qed
  have p: "ucast (word_of_int d :: u16) = (word_of_int d :: u32)" if "0 < d" "d < 32768"
    using that by (simp add: word_uint_eq_iff unsigned_ucast_eq uint_word_of_int take_bit_int_eq_self)
  show ?thesis
    using load_number_acts [OF assms(1), of j m "word_of_int d"]
      mov_u16_acts(1) [OF assms(1), of j m "word_of_int d"]
      mov_u16_acts(2) [OF assms(1), of j m "word_of_int (- d - 1)"] n p assms(2)
    by (auto simp: load_displacement_def)
qed

text \<open>The sum of a base and a far displacement, in the temporary for the displacement.\<close>

lemma EMIT_Cons: "EMIT (w # ws) j = EMIT ws (EMIT [w] j)" for j :: jit
proof -
  have "(k < n + length (w # ws)) = (k < n + length [w] \<or> k < n + length [w] + length ws)" for k n :: nat
    by auto
  then show ?thesis unfolding EMIT_def by (simp only:) (simp add: append_assoc [symmetric])
qed

lemma far_address_acts:
  assumes "is_reg r" "is_reg b" "b \<noteq> r" "b \<notin> arm_temps - live_temps j" "reg_is m b B"
    "wide \<or> (-32768 \<le> d \<and> d < 32768 \<and> d \<noteq> 0)"
  shows "\<exists>m'. acts {r} j m (EMIT [add_reg r b r LSL 0] (load_displacement r d wide j)) m' \<and>
    reg_is m' r (B + word_of_int d) \<and> m_mem m' = m_mem m"
proof -
  obtain m1 where m1: "acts {r} j m (load_displacement r d wide j) m1" "reg_is m1 r (word_of_int d)" "m_mem m1 = m_mem m"
    using load_displacement_acts [OF assms(1,6)] by blast
  have b: "reg_is m1 b B" using reg_is_keeps [OF m1(1)] assms(3,4,5) by simp
  have k: "(0 :: u8) < 32" by simp
  obtain m2 where m2: "acts {r} (load_displacement r d wide j) m1 (EMIT [add_reg r b r LSL 0] (load_displacement r d wide j)) m2"
    "reg_is m2 r (rdW m1 b + push_bit (unat (0 :: u8)) (rdW m1 r))" "m_mem m2 = m_mem m1"
    using add_reg_acts [OF assms(1,2,1) k] by blast
  with m1 b acts_trans [OF m1(1) m2(1)] show ?thesis by (auto simp: reg_is_rdW)
qed

text \<open>One access with a near displacement, given what its instruction decodes to.\<close>

lemma near_load_acts:
  assumes "decode (fetch w) = Some (LdSt n p (Off k) (take_bit 5 t) (take_bit 5 b))" "is_reg t" "is_reg b" "reg_is m b B"
    "p = (if sx then Ld_s32 else Ld)" "k = word_of_int d" "in_range B d"
  shows "\<exists>m'. acts {t} j m (EMIT [w] j) m' \<and>
    reg_is m' t (loaded n sx m (ucast (B + word_of_int d))) \<and> m_mem m' = m_mem m"
proof -
  have "rdX m b + k = ucast (B + word_of_int d)"
    using assms(4,6) in_range_add [OF assms(7)] by (simp add: reg_is_def)
  then show ?thesis
    using load_offset [OF assms(1) [unfolded is_regD(3) [OF assms(2)] is_regD(3) [OF assms(3)]] assms(2,3), of j m] assms(5)
    by (cases sx) auto
qed

lemma near_store_acts:
  assumes "decode (fetch w) = Some (LdSt n St (Off k) (take_bit 5 t) (take_bit 5 b))" "is_reg t" "is_reg b" "reg_is m b B"
    "k = word_of_int d" "in_range B d"
  shows "\<exists>m'. acts {} j m (EMIT [w] j) m' \<and>
    m_mem m' = wr_be (m_mem m) (ucast (B + word_of_int d)) n (rdW m t)"
proof -
  have "rdX m b + k = ucast (B + word_of_int d)"
    using assms(4,5) in_range_add [OF assms(6)] by (simp add: reg_is_def)
  then show ?thesis
    using store_offset [OF assms(1) [unfolded is_regD(3) [OF assms(2)] is_regD(3) [OF assms(3)]] assms(3), of j m] by simp
qed

lemma far_load_acts:
  assumes "is_reg r" "is_reg b" "is_reg t" "b \<noteq> r" "b \<notin> arm_temps - live_temps j" "reg_is m b B"
    "wide \<or> (-32768 \<le> d \<and> d < 32768 \<and> d \<noteq> 0)" "sz \<in> {1, 2, 4}"
  shows "\<exists>m'. acts {r, t} j m (EMIT (add_reg r b r LSL 0 # load_at sz sx r t) (load_displacement r d wide j)) m' \<and>
    reg_is m' t (loaded (unat sz) sx m (ucast (B + word_of_int d))) \<and> m_mem m' = m_mem m"
proof -
  let ?j = "EMIT [add_reg r b r LSL 0] (load_displacement r d wide j)"
  obtain m1 where m1: "acts {r} j m ?j m1" "reg_is m1 r (B + word_of_int d)" "m_mem m1 = m_mem m"
    using far_address_acts [OF assms(1,2,4-7)] by blast
  obtain m2 where m2: "acts {t} ?j m1 (EMIT (load_at sz sx r t) ?j) m2"
    "reg_is m2 t (loaded (unat sz) sx m1 (rdX m1 r))" "m_mem m2 = m_mem m1"
    using load_at_acts [OF assms(8,3,1)] by blast
  have "acts {r, t} j m (EMIT (load_at sz sx r t) ?j) m2"
    using acts_trans [OF acts_mono [OF m1(1)] acts_mono [OF m2(1)], of "{r, t}"] by blast
  then show ?thesis using m1(2,3) m2(2,3)
    by (intro exI [of _ m2]) (simp add: EMIT_Cons [of "add_reg r b r LSL 0" "load_at sz sx r t"] loaded_def reg_is_def)
qed

lemma far_store_acts:
  assumes "is_reg r" "is_reg b" "is_reg t" "b \<noteq> r" "b \<notin> arm_temps - live_temps j" "reg_is m b B"
    "wide \<or> (-32768 \<le> d \<and> d < 32768 \<and> d \<noteq> 0)" "sz \<in> {1, 2, 4}" "t \<noteq> r" "t \<notin> arm_temps - live_temps j"
  shows "\<exists>m'. acts {r} j m (EMIT (add_reg r b r LSL 0 # store_at sz r t) (load_displacement r d wide j)) m' \<and>
    m_mem m' = wr_be (m_mem m) (ucast (B + word_of_int d)) (unat sz) (rdW m t)"
proof -
  let ?j = "EMIT [add_reg r b r LSL 0] (load_displacement r d wide j)"
  obtain m1 where m1: "acts {r} j m ?j m1" "reg_is m1 r (B + word_of_int d)" "m_mem m1 = m_mem m"
    using far_address_acts [OF assms(1,2,4-7)] by blast
  obtain m2 where m2: "acts {} ?j m1 (EMIT (store_at sz r t) ?j) m2"
    "m_mem m2 = wr_be (m_mem m1) (rdX m1 r) (unat sz) (rdW m1 t)"
    using store_at_acts [OF assms(8,3,1)] by blast
  have "acts {r} j m (EMIT (store_at sz r t) ?j) m2"
    using acts_trans [OF m1(1) acts_mono [OF m2(1)]] by blast
  moreover have "rdW m1 t = rdW m t" using acts_keeps [OF m1(1), of t] assms(9,10) by (simp add: rdW_def)
  ultimately show ?thesis using m1(2,3) m2(2)
    by (intro exI [of _ m2]) (simp add: EMIT_Cons [of "add_reg r b r LSL 0" "store_at sz r t"] reg_is_def)
qed

text \<open>The instruction for a near displacement, for every size.\<close>

definition near_load :: "u8 \<Rightarrow> bool \<Rightarrow> u8 \<Rightarrow> u8 \<Rightarrow> int \<Rightarrow> u32 \<Rightarrow> bool" where
  "near_load sz sx t b d w \<longleftrightarrow> decode (fetch w) =
     Some (LdSt (unat sz) (if sx \<and> sz \<noteq> 4 then Ld_s32 else Ld) (Off (word_of_int d)) (take_bit 5 t) (take_bit 5 b))"

definition near_store :: "u8 \<Rightarrow> u8 \<Rightarrow> u8 \<Rightarrow> int \<Rightarrow> u32 \<Rightarrow> bool" where
  "near_store sz t b d w \<longleftrightarrow> decode (fetch w) =
     Some (LdSt (unat sz) St (Off (word_of_int d)) (take_bit 5 t) (take_bit 5 b))"

lemma near_words:
  "near_load 4 sx t b 0 (ldr_offset b t 0)" "near_store 4 t b 0 (str_offset b t 0)"
  by (simp_all add: near_load_def near_store_def decode_ldst_offset)

lemma near_words_256:
  assumes "-256 < d" "d < 256"
  shows "near_load 4 sx t b d (ldur_offset b t (word_of_int d AND 0x1ff))"
    "near_load 2 False t b d (ldurh_offset b t (word_of_int d AND 0x1ff))"
    "near_load 2 True t b d (ldursh_offset b t (word_of_int d AND 0x1ff))"
    "near_load 1 False t b d (ldurb_offset b t (word_of_int d))"
    "near_load 1 True t b d (ldursb_offset b t (word_of_int d))"
    "near_store 4 t b d (stur_offset b t (word_of_int d AND 0x1ff))"
    "near_store 2 t b d (sturh_offset b t (word_of_int d AND 0x1ff))"
    "near_store 1 t b d (sturb_offset b t (word_of_int d))"
proof -
  have "-256 \<le> d" using assms(1) by simp
  note n = near_offset [OF this assms(2)]
  show "near_load 4 sx t b d (ldur_offset b t (word_of_int d AND 0x1ff))"
    "near_load 2 False t b d (ldurh_offset b t (word_of_int d AND 0x1ff))"
    "near_load 2 True t b d (ldursh_offset b t (word_of_int d AND 0x1ff))"
    "near_load 1 False t b d (ldurb_offset b t (word_of_int d))"
    "near_load 1 True t b d (ldursb_offset b t (word_of_int d))"
    "near_store 4 t b d (stur_offset b t (word_of_int d AND 0x1ff))"
    "near_store 2 t b d (sturh_offset b t (word_of_int d AND 0x1ff))"
    "near_store 1 t b d (sturb_offset b t (word_of_int d))"
    unfolding near_load_def near_store_def decode_ldst_unscaled n by simp_all
qed

lemma near_words_scaled:
  "0 \<le> d \<Longrightarrow> d < 16384 \<Longrightarrow> (word_of_int d :: u16) AND 3 = 0 \<Longrightarrow> near_load 4 sx t b d (ldr_offset b t (word_of_int d))"
  "0 \<le> d \<Longrightarrow> d < 8192 \<Longrightarrow> (word_of_int d :: u16) AND 1 = 0 \<Longrightarrow> near_load 2 False t b d (ldrh_offset b t (word_of_int d))"
  "0 \<le> d \<Longrightarrow> d < 8192 \<Longrightarrow> (word_of_int d :: u16) AND 1 = 0 \<Longrightarrow> near_load 2 True t b d (ldrsh_offset b t (word_of_int d))"
  "0 \<le> d \<Longrightarrow> d < 4096 \<Longrightarrow> near_load 1 False t b d (ldrb_offset b t (word_of_int d))"
  "0 \<le> d \<Longrightarrow> d < 4096 \<Longrightarrow> near_load 1 True t b d (ldrsb_offset b t (word_of_int d))"
  "0 \<le> d \<Longrightarrow> d < 16384 \<Longrightarrow> (word_of_int d :: u16) AND 3 = 0 \<Longrightarrow> near_store 4 t b d (str_offset b t (word_of_int d))"
  "0 \<le> d \<Longrightarrow> d < 8192 \<Longrightarrow> (word_of_int d :: u16) AND 1 = 0 \<Longrightarrow> near_store 2 t b d (strh_offset b t (word_of_int d))"
  "0 \<le> d \<Longrightarrow> d < 4096 \<Longrightarrow> near_store 1 t b d (strb_offset b t (word_of_int d))"
  unfolding near_load_def near_store_def decode_ldst_offset
  by (simp_all only: scaled_offset scaled_offset_2 plain_offset) simp_all

lemma load_displaced_cases:
  assumes "sz \<in> {1, 2, 4}"
    and near: "\<And>w. near_load sz sx t b d w \<Longrightarrow> P (EMIT [w] j)"
    and far: "d \<noteq> 0 \<Longrightarrow> P (EMIT (add_reg r b r LSL 0 # load_at sz sx r t) (load_displacement r d wide j))"
  shows "P (load_displaced sz b t r d wide sx j)"
proof -
  from assms(1) consider "sz = 1" | "sz = 2" | "sz = 4" by blast
  then show ?thesis
  proof cases
    case 1
    then show ?thesis
      by (cases sx) (use 1 near far in \<open>auto simp: load_displaced_def Let_def near_words_256 near_words_scaled\<close>)
  next
    case 2
    then show ?thesis
      by (cases sx) (use 2 near far in \<open>auto simp: load_displaced_def Let_def near_words_256 near_words_scaled\<close>)
  next
    case 3
    then show ?thesis
      using near far by (auto simp: load_displaced_def Let_def near_words near_words_256 near_words_scaled)
  qed
qed

lemma store_displaced_cases:
  assumes "sz \<in> {1, 2, 4}"
    and near: "\<And>w. near_store sz t b d w \<Longrightarrow> P (EMIT [w] j)"
    and far: "d \<noteq> 0 \<Longrightarrow> P (EMIT (add_reg r b r LSL 0 # store_at sz r t) (load_displacement r d wide j))"
  shows "P (store_displaced sz b t r d wide j)"
proof -
  from assms(1) consider "sz = 1" | "sz = 2" | "sz = 4" by blast
  then show ?thesis
    by cases (use near far in \<open>auto simp: store_displaced_def Let_def near_words near_words_256 near_words_scaled\<close>)
qed

lemma load_displaced_acts:
  assumes "sz \<in> {1, 2, 4}" "is_reg r" "is_reg b" "is_reg t" "b \<noteq> r" "b \<notin> arm_temps - live_temps j" "reg_is m b B"
    "wide \<or> (-32768 \<le> d \<and> d < 32768)" "in_range B d"
  shows "\<exists>m'. acts {r, t} j m (load_displaced sz b t r d wide sx j) m' \<and>
    reg_is m' t (loaded (unat sz) sx m (ucast (B + word_of_int d))) \<and> m_mem m' = m_mem m"
proof (rule load_displaced_cases [OF assms(1)])
  have l4: "loaded 4 sx m a = loaded 4 False m a" for a by (simp add: loaded_def)
  fix w assume w: "near_load sz sx t b d w"
  then have "\<exists>m'. acts {t} j m (EMIT [w] j) m' \<and>
      reg_is m' t (loaded (unat sz) (sx \<and> sz \<noteq> 4) m (ucast (B + word_of_int d))) \<and> m_mem m' = m_mem m"
    unfolding near_load_def by (rule near_load_acts) (use assms in auto)
  then show "\<exists>m'. acts {r, t} j m (EMIT [w] j) m' \<and>
      reg_is m' t (loaded (unat sz) sx m (ucast (B + word_of_int d))) \<and> m_mem m' = m_mem m"
    using acts_mono [of "{t}" j m _ _ "{r, t}"] l4 by (cases "sz = 4") auto
qed (use far_load_acts [OF assms(2,3,4,5,6,7) _ assms(1)] assms(8) in blast)

lemma store_displaced_acts:
  assumes "sz \<in> {1, 2, 4}" "is_reg r" "is_reg b" "is_reg t" "b \<noteq> r" "b \<notin> arm_temps - live_temps j" "reg_is m b B"
    "wide \<or> (-32768 \<le> d \<and> d < 32768)" "in_range B d" "t \<noteq> r" "t \<notin> arm_temps - live_temps j"
  shows "\<exists>m'. acts {r} j m (store_displaced sz b t r d wide j) m' \<and>
    m_mem m' = wr_be (m_mem m) (ucast (B + word_of_int d)) (unat sz) (rdW m t)"
proof (rule store_displaced_cases [OF assms(1)])
  fix w assume w: "near_store sz t b d w"
  then have "\<exists>m'. acts {} j m (EMIT [w] j) m' \<and> m_mem m' = wr_be (m_mem m) (ucast (B + word_of_int d)) (unat sz) (rdW m t)"
    unfolding near_store_def by (rule near_store_acts) (use assms in auto)
  then show "\<exists>m'. acts {r} j m (EMIT [w] j) m' \<and> m_mem m' = wr_be (m_mem m) (ucast (B + word_of_int d)) (unat sz) (rdW m t)"
    using acts_mono [of "{}" j m _ _ "{r}"] by blast
qed (use far_store_acts [OF assms(2,3,4,5,6,7) _ assms(1,10,11)] assms(8) in blast)

section \<open>With the temporaries\<close>

lemma live_number [simp]: "live_temps (EMIT_LoadImmediate r v j) = live_temps j"
  by (simp add: EMIT_LoadImmediate_def Let_def)

lemma live_displacement [simp]: "live_temps (load_displacement r d wide j) = live_temps j"
  by (simp add: load_displacement_def)

lemma live_displaced [simp]: "live_temps (load_displaced sz b t r d wide sx j) = live_temps j"
  "live_temps (store_displaced sz b t r d wide j) = live_temps j"
  by (simp_all add: load_displaced_def store_displaced_def lea_offset_def Let_def)

text \<open>Around an access: a temporary and, when there is no base, a second one for it.\<close>

lemma with_temps:
  assumes "base_ok j m base B" "free_temps 2 j"
  obtains r j1 b fb j2 m1 where "alloc_result j r j1" "zero_base base j1 = (b, fb, j2)" "reg_is m1 b B"
    "m_mem m1 = m_mem m" "is_reg b" "is_reg r" "b \<noteq> r" "b \<notin> arm_temps - live_temps j2" "r \<in> live_temps j2"
    "live_temps j \<subseteq> live_temps j2" "r \<notin> live_temps j" "r \<in> arm_temps" "acts {} j1 m j2 m1"
    "\<And>T j3 m3. acts (insert r T) j2 m1 j3 m3 \<Longrightarrow> live_temps j3 = live_temps j2 \<Longrightarrow>
      acts T j m (if fb then RA_FreeARMRegister b (RA_FreeARMRegister r j3) else RA_FreeARMRegister r j3) m3 \<and>
      live_temps (if fb then RA_FreeARMRegister b (RA_FreeARMRegister r j3) else RA_FreeARMRegister r j3) = live_temps j"
proof -
  have "free_temps (Suc 1) j" using assms(2) by (simp add: numeral_2_eq_2)
  then obtain r j1 where a: "alloc_result j r j1" and f: "free_temps 1 j1" by (rule free_temps_alloc)
  note ra = alloc_reg [OF a]
  obtain b fb j2 m1 where z: "zero_base base j1 = (b, fb, j2)" "acts {} j1 m j2 m1" "reg_is m1 b B" "m_mem m1 = m_mem m"
    "is_reg b" "b \<notin> arm_temps - live_temps j2" "fb \<longleftrightarrow> base = 0xff"
    "\<not> fb \<longrightarrow> b = base \<and> live_temps j2 = live_temps j1"
    "fb \<longrightarrow> b \<in> arm_temps - live_temps j1 \<and> live_temps j2 = insert b (live_temps j1)"
    by (rule zero_base_acts [OF base_ok_alloc [OF assms(1) a] f])
  have br: "b \<noteq> r"
  proof (cases fb)
    case True
    with z(9) ra(6) show ?thesis by auto
  next
    case False
    with z(7,8) base_okD(2) [OF assms(1)] ra(4) show ?thesis by auto
  qed
  have rest: "acts T j m (if fb then RA_FreeARMRegister b (RA_FreeARMRegister r j3) else RA_FreeARMRegister r j3) m3 \<and>
      live_temps (if fb then RA_FreeARMRegister b (RA_FreeARMRegister r j3) else RA_FreeARMRegister r j3) = live_temps j"
    if t: "acts (insert r T) j2 m1 j3 m3" "live_temps j3 = live_temps j2" for T j3 m3
  proof -
    have "acts (insert r T) j1 m j3 m3" using acts_trans [OF acts_mono [OF z(2)] t(1)] by simp
    then have 1: "acts T j m (RA_FreeARMRegister r j3) m3" by (rule acts_temp [OF a])
    have lr: "live_temps (RA_FreeARMRegister r j3) = live_temps j2 - {r}" using live_Free [of r j3] ra(4) t(2) by simp
    show ?thesis
    proof (cases fb)
      case True
      then have b: "b \<in> arm_temps" "b \<notin> live_temps j1" using z(9) by simp_all
      then have "b \<notin> live_temps j" using ra(6) by simp
      from acts_Free [OF 1 this] show ?thesis
        using True b ra(2,6) z(9) br lr live_Free [of b "RA_FreeARMRegister r j3"] by auto
    next
      case False
      with 1 lr ra(2,6) z(8) show ?thesis by auto
    qed
  qed
  have l: "live_temps j2 = (if fb then insert b (live_temps j1) else live_temps j1)" using z(8,9) by auto
  show thesis
    by (rule that [OF a z(1,3,4,5) ra(1) br z(6) _ _ ra(2) _ z(2) rest]) (use l ra(4,6) in auto)
qed

lemma load_reg_from_addr_offset_acts:
  assumes "sz \<in> {1, 2, 4}" "base_ok j m base B" "is_reg t" "t \<notin> arm_temps - live_temps j" "free_temps 2 j"
    "wide \<or> (-32768 \<le> d \<and> d < 32768)" "in_range B d"
  shows "\<exists>m'. acts {t} j m (load_reg_from_addr_offset sz base t d wide sx j) m' \<and>
    reg_is m' t (loaded (unat sz) sx m (ucast (B + word_of_int d))) \<and> m_mem m' = m_mem m \<and>
    live_temps (load_reg_from_addr_offset sz base t d wide sx j) = live_temps j"
proof -
  obtain r j1 b fb j2 m1 where c: "alloc_result j r j1" "zero_base base j1 = (b, fb, j2)" "reg_is m1 b B"
    "m_mem m1 = m_mem m" "is_reg b" "is_reg r" "b \<noteq> r" "b \<notin> arm_temps - live_temps j2"
    and rest: "\<And>T j3 m3. acts (insert r T) j2 m1 j3 m3 \<Longrightarrow> live_temps j3 = live_temps j2 \<Longrightarrow>
      acts T j m (if fb then RA_FreeARMRegister b (RA_FreeARMRegister r j3) else RA_FreeARMRegister r j3) m3 \<and>
      live_temps (if fb then RA_FreeARMRegister b (RA_FreeARMRegister r j3) else RA_FreeARMRegister r j3) = live_temps j"
    by (rule with_temps [OF assms(2,5)]) blast
  obtain m2 where m2: "acts {r, t} j2 m1 (load_displaced sz b t r d wide sx j2) m2"
    "reg_is m2 t (loaded (unat sz) sx m1 (ucast (B + word_of_int d)))" "m_mem m2 = m_mem m1"
    using load_displaced_acts [OF assms(1) c(6,5) assms(3) c(7,8,3) assms(6,7)] by blast
  have "load_reg_from_addr_offset sz base t d wide sx j =
      (let j = RA_FreeARMRegister r (load_displaced sz b t r d wide sx j2) in if fb then RA_FreeARMRegister b j else j)"
    by (simp add: load_reg_from_addr_offset_def alloc_reg(5) [OF c(1)] c(2))
  with rest [OF m2(1) live_displaced(1)] m2 c(4) show ?thesis
    by (intro exI [of _ m2]) (simp add: Let_def loaded_def)
qed

lemma store_reg_to_addr_offset_acts:
  assumes "sz \<in> {1, 2, 4}" "base_ok j m base B" "is_reg t" "t \<notin> arm_temps - live_temps j" "free_temps 2 j"
    "wide \<or> (-32768 \<le> d \<and> d < 32768)" "in_range B d"
  shows "\<exists>m'. acts {} j m (store_reg_to_addr_offset sz base t d wide j) m' \<and>
    m_mem m' = wr_be (m_mem m) (ucast (B + word_of_int d)) (unat sz) (rdW m t) \<and>
    live_temps (store_reg_to_addr_offset sz base t d wide j) = live_temps j"
proof -
  obtain r j1 b fb j2 m1 where c: "alloc_result j r j1" "zero_base base j1 = (b, fb, j2)" "reg_is m1 b B"
    "m_mem m1 = m_mem m" "is_reg b" "is_reg r" "b \<noteq> r" "b \<notin> arm_temps - live_temps j2"
    "live_temps j \<subseteq> live_temps j2" "r \<notin> live_temps j" "r \<in> arm_temps" "acts {} j1 m j2 m1"
    and rest: "\<And>T j3 m3. acts (insert r T) j2 m1 j3 m3 \<Longrightarrow> live_temps j3 = live_temps j2 \<Longrightarrow>
      acts T j m (if fb then RA_FreeARMRegister b (RA_FreeARMRegister r j3) else RA_FreeARMRegister r j3) m3 \<and>
      live_temps (if fb then RA_FreeARMRegister b (RA_FreeARMRegister r j3) else RA_FreeARMRegister r j3) = live_temps j"
    by (rule with_temps [OF assms(2,5)]) blast
  have t: "t \<noteq> r" "t \<notin> arm_temps - live_temps j2" "t \<notin> arm_temps - live_temps j1"
    using assms(4) c(9,10,11) alloc_reg(6) [OF c(1)] by auto
  have tv: "rdW m1 t = rdW m t" using acts_keeps [OF c(12), of t] t(3) by (simp add: rdW_def)
  obtain m2 where m2: "acts {r} j2 m1 (store_displaced sz b t r d wide j2) m2"
    "m_mem m2 = wr_be (m_mem m1) (ucast (B + word_of_int d)) (unat sz) (rdW m1 t)"
    using store_displaced_acts [OF assms(1) c(6,5) assms(3) c(7,8,3) assms(6,7) t(1,2)] by blast
  have "store_reg_to_addr_offset sz base t d wide j =
      (let j = RA_FreeARMRegister r (store_displaced sz b t r d wide j2) in if fb then RA_FreeARMRegister b j else j)"
    by (simp add: store_reg_to_addr_offset_def alloc_reg(5) [OF c(1)] c(2))
  with rest [OF m2(1) live_displaced(2)] m2 c(4) tv show ?thesis
    by (intro exI [of _ m2]) (simp add: Let_def)
qed

section \<open>Base and index\<close>

text \<open>The same for the base alone.\<close>

lemma with_base:
  assumes "base_ok j m base B" "free_temps 1 j"
  obtains b fb j1 m1 where "zero_base base j = (b, fb, j1)" "acts {} j m j1 m1" "reg_is m1 b B" "m_mem m1 = m_mem m"
    "is_reg b" "b \<notin> arm_temps - live_temps j1" "live_temps j \<subseteq> live_temps j1"
    "live_temps j1 \<subseteq> insert b (live_temps j)"
    "\<And>T j3 m3. acts T j1 m1 j3 m3 \<Longrightarrow> live_temps j3 = live_temps j1 \<Longrightarrow>
      acts T j m (if fb then RA_FreeARMRegister b j3 else j3) m3 \<and>
      live_temps (if fb then RA_FreeARMRegister b j3 else j3) = live_temps j"
proof -
  obtain b fb j1 m1 where z: "zero_base base j = (b, fb, j1)" "acts {} j m j1 m1" "reg_is m1 b B" "m_mem m1 = m_mem m"
    "is_reg b" "b \<notin> arm_temps - live_temps j1" "fb \<longleftrightarrow> base = 0xff"
    "\<not> fb \<longrightarrow> b = base \<and> live_temps j1 = live_temps j"
    "fb \<longrightarrow> b \<in> arm_temps - live_temps j \<and> live_temps j1 = insert b (live_temps j)"
    by (rule zero_base_acts [OF assms])
  have rest: "acts T j m (if fb then RA_FreeARMRegister b j3 else j3) m3 \<and>
      live_temps (if fb then RA_FreeARMRegister b j3 else j3) = live_temps j"
    if t: "acts T j1 m1 j3 m3" "live_temps j3 = live_temps j1" for T j3 m3
  proof -
    have 1: "acts T j m j3 m3" using acts_trans [OF acts_mono [OF z(2)] t(1)] by simp
    show ?thesis
    proof (cases fb)
      case True
      then have b: "b \<in> arm_temps" "b \<notin> live_temps j" using z(9) by simp_all
      from acts_Free [OF 1 b(2)] show ?thesis using True b z(9) t(2) live_Free [of b j3] by auto
    next
      case False
      with 1 t(2) z(8) show ?thesis by auto
    qed
  qed
  show thesis
    by (rule that [OF z(1-6) _ _ rest]) (use z(8,9) in auto)
qed

text \<open>The sum of base and index in a temporary that lives for the access only.\<close>

definition indexed :: "(u8 \<Rightarrow> u32 list) \<Rightarrow> u8 \<Rightarrow> u8 \<Rightarrow> u8 \<Rightarrow> jit \<Rightarrow> jit" where
  "indexed access b index shift j =
    (if index = 0xff then EMIT (access b) j
     else case RA_AllocARMRegister j of (tmp, j) \<Rightarrow>
       RA_FreeARMRegister tmp (EMIT (add_reg tmp b index LSL shift # access tmp) j))"

lemma indexed_acts:
  assumes "is_reg b" "b \<notin> arm_temps - live_temps j" "reg_is m b B" "base_ok j m index I" "unat shift < 4"
    "free_temps 1 j" "\<And>k. k \<in> keep \<Longrightarrow> k \<notin> arm_temps - live_temps j"
    and access: "\<And>r j1 m1 A. is_reg r \<Longrightarrow> reg_is m1 r A \<Longrightarrow> m_mem m1 = m_mem m \<Longrightarrow>
      (\<And>k. k \<in> keep \<Longrightarrow> rdX m1 k = rdX m k) \<Longrightarrow> \<exists>m'. acts T j1 m1 (EMIT (access r) j1) m' \<and> Q A m'"
  shows "\<exists>m'. acts T j m (indexed access b index shift j) m' \<and> Q (B + push_bit (unat shift) I) m' \<and>
    live_temps (indexed access b index shift j) = live_temps j"
proof (cases "index = 0xff")
  case True
  then show ?thesis using access [OF assms(1,3), of j] assms(4) by (auto simp: indexed_def base_ok_def)
next
  case False
  obtain r j1 where a: "alloc_result j r j1" using free_temps_1 [OF assms(6)] by blast
  note ra = alloc_reg [OF a] and ix = base_okD [OF assms(4) False]
  have r: "b \<noteq> r" "index \<noteq> r" using ra(4) assms(2) ix(2) by auto
  have sh: "shift < 32" using assms(5) by (simp add: word_less_nat_alt)
  obtain m1 where m1: "acts {r} j1 m (EMIT [add_reg r b index LSL shift] j1) m1"
    "reg_is m1 r (rdW m b + push_bit (unat shift) (rdW m index))" "m_mem m1 = m_mem m"
    using add_reg_acts [OF ra(1) assms(1) ix(1) sh] by blast
  have h: "reg_is m1 r (B + push_bit (unat shift) I)"
    using m1(2) reg_is_rdW [OF assms(3)] reg_is_rdW [OF ix(3)] by simp
  have "rdX m1 k = rdX m k" if "k \<in> keep" for k
    using acts_keeps [OF m1(1), of k] assms(7) [OF that] ra(4,6) by auto
  from access [OF ra(1) h m1(3) this] obtain m2 where
    m2: "acts T (EMIT [add_reg r b index LSL shift] j1) m1 (EMIT (access r) (EMIT [add_reg r b index LSL shift] j1)) m2"
    "Q (B + push_bit (unat shift) I) m2" by blast
  let ?j = "EMIT (add_reg r b index LSL shift # access r) j1"
  have "acts (insert r T) j1 m ?j m2"
    using acts_trans [OF acts_mono [OF m1(1)] acts_mono [OF m2(1)], of "insert r T"] by (auto simp: EMIT_Cons [of _ "access r"])
  from acts_temp [OF a this] m2(2) False ra(2,4,5,6) live_Free [of r ?j] show ?thesis
    by (auto simp: indexed_def)
qed

lemma load_reg_from_addr_indexed:
  "sz \<in> {1, 2, 4} \<Longrightarrow> load_reg_from_addr sz base t index shift sx j =
    (case zero_base base j of (b, fb, j) \<Rightarrow>
      let j = indexed (\<lambda>r. load_at sz sx r t) b index shift j in if fb then RA_FreeARMRegister b j else j)"
  "sz \<in> {1, 2, 4} \<Longrightarrow> store_reg_to_addr sz base t index shift j =
    (case zero_base base j of (b, fb, j) \<Rightarrow>
      let j = indexed (\<lambda>r. store_at sz r t) b index shift j in if fb then RA_FreeARMRegister b j else j)"
  by (auto simp: load_reg_from_addr_def store_reg_to_addr_def indexed_def split: prod.split)

lemma base_ok_acts: "acts S j m j1 m1 \<Longrightarrow> base_ok j m b B \<Longrightarrow> b \<notin> S \<Longrightarrow> base_ok j1 m1 b B"
  by (auto simp: base_ok_def acts_def reg_is_def)

lemma free_temps_insert:
  assumes "free_temps (Suc n) j" "live_temps j1 \<subseteq> insert b (live_temps j)"
  shows "free_temps n j1"
proof -
  have "card (arm_temps - live_temps j) \<le> card (insert b (arm_temps - live_temps j1))"
    by (rule card_mono) (use assms(2) finite_arm_temps in auto)
  also have "\<dots> \<le> Suc (card (arm_temps - live_temps j1))" using card_insert_le_m1 by (simp add: card_insert_if finite_arm_temps)
  finally show ?thesis using assms(1) by (simp add: free_temps_def)
qed

lemma load_reg_from_addr_acts:
  assumes "sz \<in> {1, 2, 4}" "base_ok j m base B" "base_ok j m index I" "is_reg t" "unat shift < 4" "free_temps 2 j"
  shows "\<exists>m'. acts {t} j m (load_reg_from_addr sz base t index shift sx j) m' \<and>
    reg_is m' t (loaded (unat sz) sx m (ucast (B + push_bit (unat shift) I))) \<and> m_mem m' = m_mem m \<and>
    live_temps (load_reg_from_addr sz base t index shift sx j) = live_temps j"
proof -
  have f: "free_temps (Suc 1) j" "free_temps 1 j" using assms(6) by (simp_all add: numeral_2_eq_2 free_temps_def)
  obtain b fb j1 m1 where c: "zero_base base j = (b, fb, j1)" "acts {} j m j1 m1" "reg_is m1 b B" "m_mem m1 = m_mem m"
    "is_reg b" "b \<notin> arm_temps - live_temps j1" "live_temps j1 \<subseteq> insert b (live_temps j)"
    and rest: "\<And>T j3 m3. acts T j1 m1 j3 m3 \<Longrightarrow> live_temps j3 = live_temps j1 \<Longrightarrow>
      acts T j m (if fb then RA_FreeARMRegister b j3 else j3) m3 \<and>
      live_temps (if fb then RA_FreeARMRegister b j3 else j3) = live_temps j"
    by (rule with_base [OF assms(2) f(2)]) blast
  note ix = base_ok_acts [OF c(2) assms(3), simplified]
  let ?Q = "\<lambda>A m'. reg_is m' t (loaded (unat sz) sx m (ucast A)) \<and> m_mem m' = m_mem m"
  let ?j = "indexed (\<lambda>r. load_at sz sx r t) b index shift j1"
  have "\<exists>m'. acts {t} j1 m1 ?j m' \<and> ?Q (B + push_bit (unat shift) I) m' \<and> live_temps ?j = live_temps j1"
  proof (rule indexed_acts [OF c(5,6,3) ix assms(5) free_temps_insert [OF f(1) c(7)], where keep = "{}"])
    fix r j2 m2 A assume "is_reg r" "reg_is m2 r A" "m_mem m2 = m_mem m1"
    then show "\<exists>m'. acts {t} j2 m2 (EMIT (load_at sz sx r t) j2) m' \<and> ?Q A m'"
      using load_at_acts [OF assms(1,4), of r j2 m2 sx] c(4) by (simp add: reg_is_def loaded_def)
  qed simp
  then obtain m' where m': "acts {t} j1 m1 ?j m'" "?Q (B + push_bit (unat shift) I) m'" "live_temps ?j = live_temps j1" by blast
  from rest [OF m'(1,3)] m'(2) show ?thesis
    by (intro exI [of _ m']) (simp add: load_reg_from_addr_indexed(1) [OF assms(1)] c(1) Let_def)
qed

lemma store_reg_to_addr_acts:
  assumes "sz \<in> {1, 2, 4}" "base_ok j m base B" "base_ok j m index I" "is_reg t" "unat shift < 4" "free_temps 2 j"
    "t \<notin> arm_temps - live_temps j"
  shows "\<exists>m'. acts {} j m (store_reg_to_addr sz base t index shift j) m' \<and>
    m_mem m' = wr_be (m_mem m) (ucast (B + push_bit (unat shift) I)) (unat sz) (rdW m t) \<and>
    live_temps (store_reg_to_addr sz base t index shift j) = live_temps j"
proof -
  have f: "free_temps (Suc 1) j" "free_temps 1 j" using assms(6) by (simp_all add: numeral_2_eq_2 free_temps_def)
  obtain b fb j1 m1 where c: "zero_base base j = (b, fb, j1)" "acts {} j m j1 m1" "reg_is m1 b B" "m_mem m1 = m_mem m"
    "is_reg b" "b \<notin> arm_temps - live_temps j1" "live_temps j1 \<subseteq> insert b (live_temps j)" "live_temps j \<subseteq> live_temps j1"
    and rest: "\<And>T j3 m3. acts T j1 m1 j3 m3 \<Longrightarrow> live_temps j3 = live_temps j1 \<Longrightarrow>
      acts T j m (if fb then RA_FreeARMRegister b j3 else j3) m3 \<and>
      live_temps (if fb then RA_FreeARMRegister b j3 else j3) = live_temps j"
    by (rule with_base [OF assms(2) f(2)]) blast
  note ix = base_ok_acts [OF c(2) assms(3), simplified]
  have t: "t \<notin> arm_temps - live_temps j1" "rdX m1 t = rdX m t"
    using assms(7) c(8) acts_keeps [OF c(2), of t] by auto
  let ?Q = "\<lambda>A m'. m_mem m' = wr_be (m_mem m) (ucast A) (unat sz) (rdW m t)"
  let ?j = "indexed (\<lambda>r. store_at sz r t) b index shift j1"
  have "\<exists>m'. acts {} j1 m1 ?j m' \<and> ?Q (B + push_bit (unat shift) I) m' \<and> live_temps ?j = live_temps j1"
  proof (rule indexed_acts [OF c(5,6,3) ix assms(5) free_temps_insert [OF f(1) c(7)], where keep = "{t}"])
    fix r j2 m2 A assume "is_reg r" "reg_is m2 r A" "m_mem m2 = m_mem m1" and k: "\<And>k. k \<in> {t} \<Longrightarrow> rdX m2 k = rdX m1 k"
    moreover have "rdW m2 t = rdW m t" using k [of t] t(2) by (simp add: rdW_def)
    ultimately show "\<exists>m'. acts {} j2 m2 (EMIT (store_at sz r t) j2) m' \<and> ?Q A m'"
      using store_at_acts [OF assms(1,4), of r j2 m2] c(4) by (simp add: reg_is_def)
  qed (use t in simp)
  then obtain m' where m': "acts {} j1 m1 ?j m'" "?Q (B + push_bit (unat shift) I) m'" "live_temps ?j = live_temps j1" by blast
  from rest [OF m'(1,3)] m'(2) show ?thesis
    by (intro exI [of _ m']) (simp add: load_reg_from_addr_indexed(2) [OF assms(1)] c(1) Let_def)
qed

end
