(* ===== verification/EA_Load.thy ===== *)
theory EA_Load
  imports EA_Addr
begin

text \<open>
  \<open>EMIT_LoadFromEffectiveAddress\<close> (\<open>M68k_EA.c\<close>). The code pointer and the caches it is
  read through are arguments, the number of extension words consumed so far goes in and
  comes out. \<open>imm_offset\<close> is a pointer that may be null: the flag \<open>has_imm\<close> says that it is
  not, the value stored through it is the second result. The result is the register, that
  offset, the extension words and the state.
\<close>

type_synonym ea_result = "u8 \<times> int \<times> nat \<times> jit"

section \<open>Index registers and displacements\<close>

text \<open>The index register of an extension word: a word index is extended into a temporary.\<close>

definition index_register :: "u16 \<Rightarrow> jit \<Rightarrow> u8 \<times> jit" where
  "index_register brief j =
    (let extra_reg = ucast (drop_bit 12 brief) AND 7;
         r = RA_MapM68kRegister (if brief AND 0x8000 \<noteq> 0 then 8 + extra_reg else extra_reg)
     in if brief AND 0x800 \<noteq> 0 then (r, j)
        else case RA_AllocARMRegister j of (tmp3, j) \<Rightarrow> (tmp3, RA_FreeARMRegister r (EMIT [sxth tmp3 r] j)))"

definition index_scale :: "u16 \<Rightarrow> u8" where
  "index_scale brief = ucast (drop_bit 9 brief) AND 3"

text \<open>
  A displacement of one or two extension words in a fresh temporary, by its two-bit size
  field; \<open>0xff\<close> when there is none.
\<close>

definition displacement :: "u16 \<Rightarrow> cache_sys \<Rightarrow> u64 \<Rightarrow> nat \<Rightarrow> jit \<Rightarrow> u8 \<times> nat \<times> jit" where
  "displacement field s p e j =
    (if field = 2 then
       (case RA_AllocARMRegister j of (r, j) \<Rightarrow> (r, e + 1, load_s16_ext32 r (code16 s (at p e)) j))
     else if field = 3 then
       (case RA_AllocARMRegister j of (r, j) \<Rightarrow>
          (r, e + 2, EMIT_LoadImmediate r
             (push_bit 16 (ucast (code16 s (at p e))) OR ucast (code16 s (at p (e + 1)))) j))
     else (0xff, e, j))"

definition free_registers :: "u8 list \<Rightarrow> jit \<Rightarrow> jit" where
  "free_registers rs j = fold (\<lambda>r j. if r \<noteq> 0xff then RA_FreeARMRegister r j else j) rs j"

text \<open>The base and the base displacement joined, for an address without indirection.\<close>

definition join_base :: "u8 \<Rightarrow> u8 \<Rightarrow> jit \<Rightarrow> u8 \<times> jit" where
  "join_base base_reg bd_reg j =
    (if base_reg \<noteq> 0xff \<and> bd_reg \<noteq> 0xff then (bd_reg, EMIT [add_reg bd_reg base_reg bd_reg LSL 0] j)
     else if bd_reg = 0xff \<and> base_reg \<noteq> 0xff then (base_reg, j)
     else (bd_reg, j))"

definition add_outer :: "u8 \<Rightarrow> u8 \<Rightarrow> jit \<Rightarrow> jit" where
  "add_outer bd_reg outer_reg j =
    (if outer_reg \<noteq> 0xff then EMIT [add_reg bd_reg bd_reg outer_reg LSL 0] j else j)"

section \<open>Brief format\<close>

text \<open>The displacement added to an address register; \<open>0xff\<close> in the second place when it is zero.\<close>

definition brief_base :: "u8 \<Rightarrow> u16 \<Rightarrow> jit \<Rightarrow> u8 \<times> u8 \<times> jit" where
  "brief_base reg_An brief j =
    (let displ = sint (ucast brief :: u8)
     in if displ = 0 then (reg_An, 0xff, j)
        else case RA_AllocARMRegister j of (tmp1, j) \<Rightarrow>
          (tmp1, tmp1,
            if 0 < displ then EMIT [add_immed tmp1 reg_An (word_of_int displ)] j
            else EMIT [sub_immed tmp1 reg_An (word_of_int (- displ))] j))"

definition brief_load :: "u8 \<Rightarrow> u8 \<Rightarrow> u8 \<Rightarrow> u16 \<Rightarrow> bool \<Rightarrow> jit \<Rightarrow> jit" where
  "brief_load sz arm_reg reg_An brief sign_ext j0 =
    (case brief_base reg_An brief j0 of (base, tmp1, j) \<Rightarrow> case index_register brief j of (tmp2, j) \<Rightarrow>
       let j = load_reg_from_addr sz base arm_reg tmp2 (index_scale brief) sign_ext j
       in RA_FreeARMRegister tmp2 (if tmp1 \<noteq> 0xff then RA_FreeARMRegister tmp1 j else j))"

text \<open>The same on the program counter.\<close>

definition brief_base_PC :: "u8 \<Rightarrow> u16 \<Rightarrow> jit \<Rightarrow> u8 \<times> jit" where
  "brief_base_PC off brief j0 =
    (case RA_AllocARMRegister j0 of (tmp1, j) \<Rightarrow> case EMIT_GetOffsetPC off j of (off, j) \<Rightarrow>
       let full_off = sint off + sint (ucast brief :: u8)
       in (tmp1, if 0 \<le> full_off then EMIT [add_immed tmp1 REG_PC (word_of_int full_off)] j
                 else EMIT [sub_immed tmp1 REG_PC (word_of_int (- full_off))] j))"

definition brief_load_PC :: "u8 \<Rightarrow> u8 \<Rightarrow> u16 \<Rightarrow> nat \<Rightarrow> bool \<Rightarrow> jit \<Rightarrow> jit" where
  "brief_load_PC sz arm_reg brief ext_words sign_ext j0 =
    (case brief_base_PC (of_nat (2 + 2 * (ext_words - 1))) brief j0 of (tmp1, j) \<Rightarrow>
     case index_register brief j of (tmp2, j) \<Rightarrow>
       RA_FreeARMRegister tmp2 (RA_FreeARMRegister tmp1
         (load_reg_from_addr sz tmp1 arm_reg tmp2 (index_scale brief) sign_ext j)))"

section \<open>Full format\<close>

text \<open>Base register, index register, base and outer displacement, each \<open>0xff\<close> when suppressed.\<close>

definition full_parts ::
  "u8 \<Rightarrow> u16 \<Rightarrow> cache_sys \<Rightarrow> u64 \<Rightarrow> nat \<Rightarrow> jit \<Rightarrow> u8 \<times> u8 \<times> u8 \<times> u8 \<times> nat \<times> jit" where
  "full_parts src_reg brief s p e j0 =
    (let base_reg = (if brief AND 0x80 = 0 then RA_MapM68kRegister (8 + src_reg) else 0xff)
     in case (if brief AND 0x40 = 0 then index_register brief j0 else (0xff, j0)) of (index_reg, j) \<Rightarrow>
        case displacement (drop_bit 4 (brief AND 0x30)) s p e j of (bd_reg, e, j) \<Rightarrow>
        case displacement (brief AND 3) s p e j of (outer_reg, e, j) \<Rightarrow>
          (base_reg, index_reg, bd_reg, outer_reg, e, j))"

text \<open>Without base displacement the indirection starts from a copy of the base, or from zero.\<close>

definition indirect_base :: "u8 \<Rightarrow> u8 \<Rightarrow> jit \<Rightarrow> u8 \<times> u8 \<times> jit" where
  "indirect_base base_reg bd_reg j =
    (if bd_reg = 0xff then
       (case RA_AllocARMRegister j of (bd_reg, j) \<Rightarrow>
          (bd_reg, 0xff, EMIT [mov_reg bd_reg (if base_reg = 0xff then 31 else base_reg)] j))
     else (bd_reg, base_reg, j))"

definition full_load :: "u8 \<Rightarrow> u8 \<Rightarrow> u16 \<Rightarrow> u8 \<Rightarrow> u8 \<Rightarrow> u8 \<Rightarrow> u8 \<Rightarrow> bool \<Rightarrow> jit \<Rightarrow> jit" where
  "full_load sz arm_reg brief base_reg index_reg bd_reg outer_reg sign_ext j0 =
    (if brief AND 0x0f = 0 then
       (case join_base base_reg bd_reg j0 of (bd_reg, j) \<Rightarrow>
          free_registers [bd_reg, outer_reg, base_reg, index_reg]
            (load_reg_from_addr sz bd_reg arm_reg index_reg (index_scale brief) sign_ext j))
     else
       (case indirect_base base_reg bd_reg j0 of (bd_reg, base_reg, j) \<Rightarrow>
          if brief AND 0x04 \<noteq> 0 then
            let j = EMIT [if base_reg = 0xff then ldr_offset bd_reg bd_reg 0
                          else ldr_regoffset bd_reg bd_reg base_reg UXTW 0] j
            in free_registers [bd_reg, outer_reg, base_reg, index_reg]
                 (load_reg_from_addr sz bd_reg arm_reg index_reg (index_scale brief) sign_ext
                   (add_outer bd_reg outer_reg j))
          else
            (case (if brief AND 0x40 \<noteq> 0 then
                     (if bd_reg = 0xff then
                        (case RA_AllocARMRegister j of (bd_reg, j) \<Rightarrow> (bd_reg, EMIT [ldr_offset base_reg bd_reg 0] j))
                      else (bd_reg, load_reg_from_addr 4 base_reg bd_reg bd_reg 0 False j))
                   else
                     (bd_reg, load_reg_from_addr 4 bd_reg bd_reg index_reg (index_scale brief) False
                        (if bd_reg \<noteq> 0xff \<and> base_reg \<noteq> 0xff then EMIT [add_reg bd_reg base_reg bd_reg LSL 0] j
                         else j))) of (bd_reg, j) \<Rightarrow>
               free_registers [bd_reg, outer_reg, base_reg, index_reg]
                 (load_reg_from_addr sz bd_reg arm_reg 0xff 0 sign_ext (add_outer bd_reg outer_reg j)))))"

text \<open>
  On the program counter the base is an address in a temporary, and the displacements are
  read by the emitted code, relative to the program counter.
\<close>

definition displacement_PC :: "u16 \<Rightarrow> nat \<Rightarrow> jit \<Rightarrow> u8 \<times> nat \<times> jit" where
  "displacement_PC field e j0 =
    (case EMIT_GetOffsetPC (of_nat (2 + e * 2)) j0 of (pc_off, j) \<Rightarrow>
       if field = 2 then
         (case RA_AllocARMRegister j of (r, j) \<Rightarrow> (r, e + 1, EMIT [ldrsh_offset REG_PC r (scast pc_off)] j))
       else if field = 3 then
         (case RA_AllocARMRegister j of (r, j) \<Rightarrow>
            (r, e + 2, EMIT [if pc_off AND 2 \<noteq> 0 then ldur_offset REG_PC r (scast pc_off)
                             else ldr_offset REG_PC r (scast pc_off)] j))
       else (0xff, e, j))"

definition full_parts_PC ::
  "u16 \<Rightarrow> nat \<Rightarrow> jit \<Rightarrow> u8 \<times> u8 \<times> u8 \<times> u8 \<times> nat \<times> jit" where
  "full_parts_PC brief e j0 =
    (case (if brief AND 0x80 = 0 then
             (case RA_AllocARMRegister j0 of (base_reg, j) \<Rightarrow>
              case EMIT_GetOffsetPC (of_nat (2 + 2 * (e - 1))) j of (off, j) \<Rightarrow>
                (base_reg, if 0 <s off then EMIT [add_immed base_reg REG_PC (scast off)] j
                           else EMIT [sub_immed base_reg REG_PC (- scast off)] j))
           else (0xff, j0)) of (base_reg, j) \<Rightarrow>
     case (if brief AND 0x40 = 0 then index_register brief j else (0xff, j)) of (index_reg, j) \<Rightarrow>
     case displacement_PC (drop_bit 4 (brief AND 0x30)) e j of (bd_reg, e, j) \<Rightarrow>
     case displacement_PC (brief AND 3) e j of (outer_reg, e, j) \<Rightarrow>
       (base_reg, index_reg, bd_reg, outer_reg, e, j))"

definition full_load_PC :: "u8 \<Rightarrow> u8 \<Rightarrow> u16 \<Rightarrow> u8 \<Rightarrow> u8 \<Rightarrow> u8 \<Rightarrow> u8 \<Rightarrow> bool \<Rightarrow> jit \<Rightarrow> jit" where
  "full_load_PC sz arm_reg brief base_reg index_reg bd_reg outer_reg sign_ext j0 =
    (if brief AND 0x0f = 0 then
       (case join_base base_reg bd_reg j0 of (bd_reg, j) \<Rightarrow>
          free_registers [bd_reg, outer_reg, base_reg, index_reg]
            (load_reg_from_addr sz bd_reg arm_reg index_reg (index_scale brief) sign_ext j))
     else
       (case (case indirect_base base_reg bd_reg j0 of (b, base', j) \<Rightarrow>
                (b, base', if bd_reg = 0xff then RA_FreeARMRegister base_reg j else j)) of (bd_reg, base_reg, j) \<Rightarrow>
          if brief AND 0x04 \<noteq> 0 then
            let j = EMIT [if base_reg = 0xff then ldr_offset bd_reg bd_reg 0
                          else ldr_regoffset bd_reg bd_reg base_reg UXTW 0] j
            in free_registers [bd_reg, outer_reg, base_reg, index_reg]
                 (load_reg_from_addr sz bd_reg arm_reg index_reg (index_scale brief) sign_ext
                   (add_outer bd_reg outer_reg j))
          else
            (case (if brief AND 0x40 \<noteq> 0 then
                     (if bd_reg = 0xff then
                        (case RA_AllocARMRegister j of (bd_reg, j) \<Rightarrow> (bd_reg, EMIT [ldr_offset base_reg bd_reg 0] j))
                      else if base_reg = 0xff then
                        (case RA_AllocARMRegister j of (t, j) \<Rightarrow>
                           (bd_reg, RA_FreeARMRegister t
                              (EMIT [mov_reg t 31, ldr_regoffset t bd_reg bd_reg UXTW 0] j)))
                      else (bd_reg, EMIT [ldr_regoffset base_reg bd_reg bd_reg UXTW 0] j))
                   else
                     (bd_reg, load_reg_from_addr 4 bd_reg bd_reg index_reg (index_scale brief) False
                        (if bd_reg \<noteq> 0xff \<and> base_reg \<noteq> 0xff then EMIT [add_reg bd_reg base_reg bd_reg LSL 0] j
                         else j))) of (bd_reg, j) \<Rightarrow>
               free_registers [bd_reg, outer_reg, base_reg, index_reg]
                 (load_reg_from_addr_offset sz bd_reg arm_reg 0 False sign_ext (add_outer bd_reg outer_reg j)))))"

section \<open>The modes\<close>

text \<open>Modes 0 and 1, a register: \<open>r\<close> is the number of the m68k register.\<close>

definition load_register :: "u8 \<Rightarrow> u8 \<Rightarrow> u8 \<Rightarrow> bool \<Rightarrow> bool \<Rightarrow> jit \<Rightarrow> u8 \<times> jit" where
  "load_register sz arm_reg r read_only sign_ext j =
    (let whole = (if read_only then (RA_MapM68kRegister r, j) else RA_CopyFromM68kRegister r j);
         extended = (\<lambda>ext. case (if arm_reg = 0xff then RA_AllocARMRegister j else (arm_reg, j)) of
           (arm_reg, j) \<Rightarrow> (arm_reg, EMIT [ext arm_reg (RA_MapM68kRegister r)] j))
     in if sz = 4 then whole
        else if sz = 2 then (if sign_ext then extended sxth else whole)
        else if sz = 1 \<and> r < 8 then (if sign_ext then extended sxtb else whole)
        else (arm_reg, j))"

text \<open>Modes 2, 3 and 4 with a size: at the address register, after which or before which it moves.\<close>

definition load_postindex :: "u8 \<Rightarrow> u8 \<Rightarrow> u8 \<Rightarrow> bool \<Rightarrow> u16 \<Rightarrow> u32 list" where
  "load_postindex sz reg_An arm_reg sign_ext byte_step =
    (if sz = 4 \<and> reg_An = arm_reg then [ldr_offset reg_An arm_reg 0]
     else if sz = 4 then [ldr_offset_postindex reg_An arm_reg 4]
     else if sz = 2 then
       [if sign_ext then ldrsh_offset_postindex reg_An arm_reg 2 else ldrh_offset_postindex reg_An arm_reg 2]
     else if sz = 1 then
       [if sign_ext then ldrsb_offset_postindex reg_An arm_reg byte_step else ldrb_offset_postindex reg_An arm_reg byte_step]
     else [])"

definition load_preindex :: "u8 \<Rightarrow> u8 \<Rightarrow> u8 \<Rightarrow> bool \<Rightarrow> u16 \<Rightarrow> u32 list" where
  "load_preindex sz reg_An arm_reg sign_ext byte_step =
    (if sz = 4 \<and> reg_An = arm_reg then [ldur_offset reg_An arm_reg (- 4)]
     else if sz = 4 then [ldr_offset_preindex reg_An arm_reg (- 4)]
     else if sz = 2 then
       [if sign_ext then ldrsh_offset_preindex reg_An arm_reg (- 2) else ldrh_offset_preindex reg_An arm_reg (- 2)]
     else if sz = 1 then
       [if sign_ext then ldrsb_offset_preindex reg_An arm_reg (- byte_step)
        else ldrb_offset_preindex reg_An arm_reg (- byte_step)]
     else [])"

text \<open>Mode 7 with a register field of 4, an immediate. Size 0 gives its address.\<close>

definition load_immediate :: "u8 \<Rightarrow> u8 \<Rightarrow> bool \<Rightarrow> cache_sys \<Rightarrow> u64 \<Rightarrow> nat \<Rightarrow> jit \<Rightarrow> nat \<times> jit" where
  "load_immediate sz arm_reg sign_ext s p e j =
    (if sz = 4 then
       (e + 2, EMIT_LoadImmediate arm_reg (push_bit 16 (ucast (code16 s (at p e))) OR ucast (code16 s (at p (e + 1)))) j)
     else if sz = 2 then
       (let off = code16 s (at p e)
        in (e + 1, EMIT [if sign_ext \<and> off AND 0x8000 \<noteq> 0 then movn_immed_u16 arm_reg (NOT off) 0
                         else mov_immed_u16 arm_reg off 0] j))
     else if sz = 1 then
       (let off = code16 s (at p e) AND 0xff
        in (e + 1, EMIT [if sign_ext \<and> off AND 0x80 \<noteq> 0 then movn_immed_u16 arm_reg (NOT (off OR 0xff00)) 0
                         else mov_immed_u16 arm_reg off 0] j))
     else if sz = 0 then
       (case EMIT_GetOffsetPC (of_nat (2 + 2 * e)) j of (pc_off, j) \<Rightarrow>
          (e, EMIT [add_immed arm_reg REG_PC (scast pc_off)] j))
     else (e, j))"

section \<open>The emitter\<close>

text \<open>Modes 2 to 6, on the address register \<open>src_reg\<close>; \<open>arm_reg\<close> is a register by now.\<close>

definition load_from_An ::
  "u8 \<Rightarrow> bool \<Rightarrow> u8 \<Rightarrow> u8 \<Rightarrow> u8 \<Rightarrow> nat \<Rightarrow> bool \<Rightarrow> bool \<Rightarrow> cache_sys \<Rightarrow> u64 \<Rightarrow> jit \<Rightarrow> ea_result" where
  "load_from_An sz sign_ext arm_reg mode src_reg e read_only has_imm s p j =
    (let reg_An = RA_MapM68kRegister (src_reg + 8);
         byte_step = (if src_reg = 7 then 2 else 1)
     in if mode = 2 then
          (if sz = 0 then
             (if read_only then (reg_An, 0, e, RA_FreeARMRegister arm_reg j)
              else (arm_reg, 0, e, EMIT [mov_reg arm_reg reg_An] j))
           else (arm_reg, 0, e, EMIT (load_at sz sign_ext reg_An arm_reg) j))
        else if mode = 3 then
          (if sz = 0 then (reg_An, 0, e, RA_FreeARMRegister arm_reg j)
           else (arm_reg, 0, e, EMIT (load_postindex sz reg_An arm_reg sign_ext byte_step)
                  (RA_SetDirtyM68kRegister (8 + src_reg) j)))
        else if mode = 4 then
          (if sz = 0 then (reg_An, 0, e, RA_FreeARMRegister arm_reg j)
           else (arm_reg, 0, e, EMIT (load_preindex sz reg_An arm_reg sign_ext byte_step)
                  (RA_SetDirtyM68kRegister (8 + src_reg) j)))
        else if mode = 5 then
          (if has_imm \<and> sz = 0 \<and> read_only then
             (reg_An, sint (code16 s (at p e)), e + 1, RA_FreeARMRegister arm_reg j)
           else (arm_reg, 0, e + 1,
                  load_reg_from_addr_offset sz reg_An arm_reg (sint (code16 s (at p e))) False sign_ext j))
        else
          (let brief = code16 s (at p e)
           in if brief AND 0x0100 = 0 then (arm_reg, 0, e + 1, brief_load sz arm_reg reg_An brief sign_ext j)
              else case full_parts src_reg brief s p (e + 1) j of (base_reg, index_reg, bd_reg, outer_reg, e, j) \<Rightarrow>
                (arm_reg, 0, e, full_load sz arm_reg brief base_reg index_reg bd_reg outer_reg sign_ext j)))"

text \<open>Mode 7: the program counter, absolute addresses, immediates.\<close>

definition load_from_special ::
  "u8 \<Rightarrow> bool \<Rightarrow> u8 \<Rightarrow> u8 \<Rightarrow> nat \<Rightarrow> bool \<Rightarrow> bool \<Rightarrow> cache_sys \<Rightarrow> u64 \<Rightarrow> jit \<Rightarrow> ea_result" where
  "load_from_special sz sign_ext arm_reg src_reg e read_only has_imm s p j0 =
    (if src_reg = 2 then
       (case EMIT_GetOffsetPC (of_nat (2 + 2 * e)) j0 of (off8, j) \<Rightarrow>
          let off = sint off8 + sint (code16 s (at p e))
          in if has_imm \<and> sz = 0 \<and> read_only then (REG_PC, off, e + 1, RA_FreeARMRegister arm_reg j)
             else (arm_reg, 0, e + 1, load_reg_from_addr_offset sz REG_PC arm_reg off True sign_ext j))
     else if src_reg = 3 then
       (let brief = code16 s (at p e)
        in if brief AND 0x0100 = 0 then (arm_reg, 0, e + 1, brief_load_PC sz arm_reg brief (e + 1) sign_ext j0)
           else case full_parts_PC brief (e + 1) j0 of (base_reg, index_reg, bd_reg, outer_reg, e, j) \<Rightarrow>
             (arm_reg, 0, e, full_load_PC sz arm_reg brief base_reg index_reg bd_reg outer_reg sign_ext j))
     else if src_reg = 0 then
       (let lo16 = code16 s (at p e)
        in if sz = 0 then (arm_reg, 0, e + 1, load_s16_ext32 arm_reg lo16 j0)
           else case RA_AllocARMRegister j0 of (tmp_reg, j) \<Rightarrow>
             (arm_reg, 0, e + 1, RA_FreeARMRegister tmp_reg
                (load_reg_from_addr_offset sz tmp_reg arm_reg 0 False sign_ext (load_s16_ext32 tmp_reg lo16 j))))
     else if src_reg = 1 then
       (let address = push_bit 16 (ucast (code16 s (at p e))) OR ucast (code16 s (at p (e + 1)))
        in if sz = 0 then (arm_reg, 0, e + 2, EMIT_LoadImmediate arm_reg address j0)
           else case RA_AllocARMRegister j0 of (tmp_reg, j) \<Rightarrow>
             (arm_reg, 0, e + 2, RA_FreeARMRegister tmp_reg
                (EMIT (load_at sz sign_ext tmp_reg arm_reg) (EMIT_LoadImmediate tmp_reg address j))))
     else if src_reg = 4 then
       (case load_immediate sz arm_reg sign_ext s p e j0 of (e, j) \<Rightarrow> (arm_reg, 0, e, j))
     else (arm_reg, 0, e, j0))"

text \<open>The highest bit of the size asks for sign extension.\<close>

definition EMIT_LoadFromEffectiveAddress ::
  "u8 \<Rightarrow> u8 \<Rightarrow> u8 \<Rightarrow> nat \<Rightarrow> bool \<Rightarrow> bool \<Rightarrow> cache_sys \<Rightarrow> u64 \<Rightarrow> jit \<Rightarrow> ea_result" where
  "EMIT_LoadFromEffectiveAddress size_in arm_reg ea ext_words read_only has_imm s p j0 =
    (let mode = drop_bit 3 ea; src_reg = ea AND 7; sign_ext = (size_in AND 0x80 \<noteq> 0); sz = size_in AND 0x7f
     in if mode = 0 then
          (case load_register sz arm_reg src_reg read_only sign_ext j0 of (r, j) \<Rightarrow> (r, 0, ext_words, j))
        else if mode = 1 then
          (case load_register sz arm_reg (src_reg + 8) read_only sign_ext j0 of (r, j) \<Rightarrow> (r, 0, ext_words, j))
        else
          (case (if arm_reg = 0xff then RA_AllocARMRegister j0 else (arm_reg, j0)) of (arm_reg, j) \<Rightarrow>
             if mode < 7 then load_from_An sz sign_ext arm_reg mode src_reg ext_words read_only has_imm s p j
             else if mode = 7 then load_from_special sz sign_ext arm_reg src_reg ext_words read_only has_imm s p j
             else (arm_reg, 0, ext_words, j)))"

end
