(* ===== verification/EA_Store.thy ===== *)
theory EA_Store
  imports EA_Load
begin

text \<open>
  \<open>EMIT_StoreToEffectiveAddress\<close> (\<open>M68k_EA.c\<close>). It has the same modes as the load of
  \<open>EA_Load\<close>, in code of its own: the memory indirect forms fetch their pointers
  differently, and the offsets to the program counter do not count the extension words
  that were consumed before. The result is the register, the extension words and the state.
\<close>

type_synonym store_result = "u8 \<times> nat \<times> jit"

section \<open>Register direct\<close>

text \<open>Modes 0 and 1; \<open>r\<close> is the number of the m68k register.\<close>

definition store_register :: "u8 \<Rightarrow> u8 \<Rightarrow> u8 \<Rightarrow> bool \<Rightarrow> jit \<Rightarrow> jit" where
  "store_register sz arm_reg r sign_ext j =
    (let merged = (\<lambda>width. EMIT [bfi (RA_MapM68kRegister r) arm_reg 0 width] (RA_SetDirtyM68kRegister r j));
         reg_dest = RA_MapM68kRegisterForWrite r
     in if sz = 4 then EMIT [mov_reg reg_dest arm_reg] j
        else if sz = 2 then (if sign_ext then EMIT [sxth reg_dest arm_reg] j else merged 16)
        else if sz = 1 \<and> r < 8 then (if sign_ext then EMIT [sxtb reg_dest arm_reg] j else merged 8)
        else j)"

section \<open>Address register indirect\<close>

definition store_postindex :: "u8 \<Rightarrow> u8 \<Rightarrow> u8 \<Rightarrow> u16 \<Rightarrow> u32 list" where
  "store_postindex sz reg_An arm_reg byte_step =
    (if sz = 4 then [str_offset_postindex reg_An arm_reg 4]
     else if sz = 2 then [strh_offset_postindex reg_An arm_reg 2]
     else if sz = 1 then [strb_offset_postindex reg_An arm_reg byte_step]
     else [])"

definition store_preindex :: "u8 \<Rightarrow> u8 \<Rightarrow> u8 \<Rightarrow> u16 \<Rightarrow> u32 list" where
  "store_preindex sz reg_An arm_reg byte_step =
    (if sz = 4 then [str_offset_preindex reg_An arm_reg (- 4)]
     else if sz = 2 then [strh_offset_preindex reg_An arm_reg (- 2)]
     else if sz = 1 then [strb_offset_preindex reg_An arm_reg (- byte_step)]
     else [])"

section \<open>Index and memory indirection\<close>

definition brief_store :: "u8 \<Rightarrow> u8 \<Rightarrow> u8 \<Rightarrow> u16 \<Rightarrow> jit \<Rightarrow> jit" where
  "brief_store sz arm_reg reg_An brief j0 =
    (case brief_base reg_An brief j0 of (base, tmp1, j) \<Rightarrow> case index_register brief j of (tmp2, j) \<Rightarrow>
       let j = store_reg_to_addr sz base arm_reg tmp2 (index_scale brief) j
       in RA_FreeARMRegister tmp2 (if tmp1 \<noteq> 0xff then RA_FreeARMRegister tmp1 j else j))"

definition full_store :: "u8 \<Rightarrow> u8 \<Rightarrow> u16 \<Rightarrow> u8 \<Rightarrow> u8 \<Rightarrow> u8 \<Rightarrow> u8 \<Rightarrow> jit \<Rightarrow> jit" where
  "full_store sz arm_reg brief base_reg index_reg bd_reg outer_reg j0 =
    (if brief AND 0x0f = 0 then
       (case join_base base_reg bd_reg j0 of (bd_reg, j) \<Rightarrow>
          free_registers [bd_reg, outer_reg, base_reg, index_reg]
            (store_reg_to_addr sz bd_reg arm_reg index_reg (index_scale brief) j))
     else
       (case indirect_base base_reg bd_reg j0 of (bd_reg, base_reg, j) \<Rightarrow>
          if brief AND 0x04 \<noteq> 0 then
            let j = EMIT [if base_reg = 0xff then ldr_offset bd_reg bd_reg 0
                          else ldr_regoffset bd_reg bd_reg base_reg UXTW 0] j
            in free_registers [bd_reg, outer_reg, base_reg, index_reg]
                 (store_reg_to_addr sz bd_reg arm_reg index_reg (index_scale brief) (add_outer bd_reg outer_reg j))
          else
            (case (if brief AND 0x40 \<noteq> 0 then
                     (if bd_reg = 0xff then
                        (case RA_AllocARMRegister j of (bd_reg, j) \<Rightarrow> (bd_reg, EMIT [ldr_offset base_reg bd_reg 0] j))
                      else if base_reg = 0xff then
                        (case RA_AllocARMRegister j of (t, j) \<Rightarrow>
                           (bd_reg, RA_FreeARMRegister t
                              (EMIT [mov_reg t 31, ldr_regoffset t bd_reg bd_reg UXTW 0] j)))
                      else (bd_reg, EMIT [ldr_regoffset base_reg bd_reg bd_reg UXTW 0] j))
                   else
                     (bd_reg, load_reg_from_addr 4 bd_reg bd_reg index_reg (index_scale brief) False
                        (if bd_reg \<noteq> 0xff \<and> base_reg \<noteq> 0xff then EMIT [add_reg bd_reg base_reg bd_reg LSL 0] j
                         else j))) of (bd_reg, j) \<Rightarrow>
               free_registers [bd_reg, outer_reg, base_reg, index_reg]
                 (store_reg_to_addr sz bd_reg arm_reg 0xff 0 (add_outer bd_reg outer_reg j)))))"

text \<open>On the program counter.\<close>

definition brief_store_PC :: "u8 \<Rightarrow> u8 \<Rightarrow> u16 \<Rightarrow> jit \<Rightarrow> jit" where
  "brief_store_PC sz arm_reg brief j0 =
    (case brief_base_PC 2 brief j0 of (tmp1, j) \<Rightarrow> case index_register brief j of (tmp2, j) \<Rightarrow>
       RA_FreeARMRegister tmp2 (RA_FreeARMRegister tmp1
         (store_reg_to_addr sz tmp1 arm_reg tmp2 (index_scale brief) j)))"

definition full_parts_store_PC ::
  "u16 \<Rightarrow> cache_sys \<Rightarrow> u64 \<Rightarrow> nat \<Rightarrow> jit \<Rightarrow> u8 \<times> u8 \<times> u8 \<times> u8 \<times> nat \<times> jit" where
  "full_parts_store_PC brief s p e j0 =
    (case (if brief AND 0x80 = 0 then
             (case RA_AllocARMRegister j0 of (base_reg, j) \<Rightarrow> case EMIT_GetOffsetPC 2 j of (off, j) \<Rightarrow>
                (base_reg, if 0 <s off then EMIT [add_immed base_reg REG_PC (scast off)] j
                           else EMIT [sub_immed base_reg REG_PC (- scast off)] j))
           else (0xff, j0)) of (base_reg, j) \<Rightarrow>
     case (if brief AND 0x40 = 0 then index_register brief j else (0xff, j)) of (index_reg, j) \<Rightarrow>
     case displacement (drop_bit 4 (brief AND 0x30)) s p e j of (bd_reg, e, j) \<Rightarrow>
     case displacement (brief AND 3) s p e j of (outer_reg, e, j) \<Rightarrow>
       (base_reg, index_reg, bd_reg, outer_reg, e, j))"

definition full_store_PC :: "u8 \<Rightarrow> u8 \<Rightarrow> u16 \<Rightarrow> u8 \<Rightarrow> u8 \<Rightarrow> u8 \<Rightarrow> u8 \<Rightarrow> jit \<Rightarrow> jit" where
  "full_store_PC sz arm_reg brief base_reg index_reg bd_reg outer_reg j0 =
    (if brief AND 0x0f = 0 then
       (case join_base base_reg bd_reg j0 of (bd_reg, j) \<Rightarrow>
          free_registers [bd_reg, outer_reg, base_reg, index_reg]
            (store_reg_to_addr sz bd_reg arm_reg index_reg (index_scale brief) j))
     else
       (case (if bd_reg = 0xff then
                (case RA_AllocARMRegister j0 of (bd_reg, j) \<Rightarrow> (bd_reg, 0xff, EMIT [mov_reg bd_reg base_reg] j))
              else (bd_reg, base_reg, j0)) of (bd_reg, base_reg, j) \<Rightarrow>
          if brief AND 0x04 \<noteq> 0 then
            let j = (if base_reg = 0xff then EMIT [ldr_offset bd_reg bd_reg 0] j
                     else load_reg_from_addr 4 bd_reg bd_reg base_reg 0 False j)
            in free_registers [bd_reg, outer_reg, base_reg, index_reg]
                 (store_reg_to_addr sz bd_reg arm_reg index_reg (index_scale brief) (add_outer bd_reg outer_reg j))
          else
            (case (if brief AND 0x40 \<noteq> 0 then
                     (if bd_reg = 0xff then
                        (case RA_AllocARMRegister j of (bd_reg, j) \<Rightarrow> (bd_reg, EMIT [ldr_offset base_reg bd_reg 0] j))
                      else (bd_reg, load_reg_from_addr 4 base_reg bd_reg bd_reg 0 False j))
                   else
                     (bd_reg, load_reg_from_addr 4 bd_reg bd_reg index_reg (index_scale brief) False
                        (if bd_reg \<noteq> 0xff then EMIT [add_reg bd_reg base_reg bd_reg LSL 0] j else j))) of (bd_reg, j) \<Rightarrow>
               free_registers [bd_reg, outer_reg, base_reg, index_reg]
                 (store_reg_to_addr sz bd_reg arm_reg 0xff 0 (add_outer bd_reg outer_reg j)))))"

section \<open>The emitter\<close>

definition store_to_An :: "u8 \<Rightarrow> bool \<Rightarrow> u8 \<Rightarrow> u8 \<Rightarrow> u8 \<Rightarrow> nat \<Rightarrow> cache_sys \<Rightarrow> u64 \<Rightarrow> jit \<Rightarrow> store_result" where
  "store_to_An sz sign_ext arm_reg mode src_reg e s p j =
    (let reg_An = RA_MapM68kRegister (src_reg + 8);
         byte_step = (if src_reg = 7 then 2 else 1)
     in if mode = 2 then
          (arm_reg, e, if sz = 0 then EMIT [mov_reg arm_reg reg_An] j
                       else store_reg_to_addr_offset sz reg_An arm_reg 0 False j)
        else if mode = 3 then
          (if sz = 0 then (reg_An, e, RA_FreeARMRegister arm_reg j)
           else (arm_reg, e, EMIT (store_postindex sz reg_An arm_reg byte_step) (RA_SetDirtyM68kRegister (8 + src_reg) j)))
        else if mode = 4 then
          (if sz = 0 then (reg_An, e, RA_FreeARMRegister arm_reg j)
           else (arm_reg, e, EMIT (store_preindex sz reg_An arm_reg byte_step) (RA_SetDirtyM68kRegister (8 + src_reg) j)))
        else if mode = 5 then
          (arm_reg, e + 1, store_reg_to_addr_offset sz reg_An arm_reg (sint (code16 s (at p e))) False j)
        else
          (let brief = code16 s (at p e)
           in if brief AND 0x0100 = 0 then (arm_reg, e + 1, brief_store sz arm_reg reg_An brief j)
              else case full_parts src_reg brief s p (e + 1) j of (base_reg, index_reg, bd_reg, outer_reg, e, j) \<Rightarrow>
                (arm_reg, e, full_store sz arm_reg brief base_reg index_reg bd_reg outer_reg j)))"

definition store_to_special :: "u8 \<Rightarrow> u8 \<Rightarrow> u8 \<Rightarrow> nat \<Rightarrow> cache_sys \<Rightarrow> u64 \<Rightarrow> jit \<Rightarrow> store_result" where
  "store_to_special sz arm_reg src_reg e s p j0 =
    (if src_reg = 2 then
       (case EMIT_GetOffsetPC 2 j0 of (off, j) \<Rightarrow>
          (arm_reg, e + 1,
            store_reg_to_addr_offset sz REG_PC arm_reg (sint (code16 s (at p e)) + sint off) True j))
     else if src_reg = 3 then
       (let brief = code16 s (at p e)
        in if brief AND 0x0100 = 0 then (arm_reg, e + 1, brief_store_PC sz arm_reg brief j0)
           else case full_parts_store_PC brief s p (e + 1) j0 of (base_reg, index_reg, bd_reg, outer_reg, e, j) \<Rightarrow>
             (arm_reg, e, full_store_PC sz arm_reg brief base_reg index_reg bd_reg outer_reg j))
     else if src_reg = 0 then
       (let lo16 = code16 s (at p e)
        in (arm_reg, e + 1,
             if sz = 0 then load_s16_ext32 arm_reg lo16 j0
             else case RA_AllocARMRegister j0 of (tmp_reg, j) \<Rightarrow>
               RA_FreeARMRegister tmp_reg
                 (store_reg_to_addr sz tmp_reg arm_reg 0xff 0 (load_s16_ext32 tmp_reg lo16 j))))
     else if src_reg = 1 then
       (let address = push_bit 16 (ucast (code16 s (at p e))) OR ucast (code16 s (at p (e + 1)))
        in (arm_reg, e + 2,
             if sz = 0 then EMIT_LoadImmediate arm_reg address j0
             else case RA_AllocARMRegister j0 of (tmp_reg, j) \<Rightarrow>
               RA_FreeARMRegister tmp_reg
                 (store_reg_to_addr sz tmp_reg arm_reg 0xff 0 (EMIT_LoadImmediate tmp_reg address j))))
     else (arm_reg, e, j0))"

text \<open>With size 0 a temporary is allocated first, and the address itself is asked for.\<close>

definition EMIT_StoreToEffectiveAddress ::
  "u8 \<Rightarrow> u8 \<Rightarrow> u8 \<Rightarrow> nat \<Rightarrow> bool \<Rightarrow> cache_sys \<Rightarrow> u64 \<Rightarrow> jit \<Rightarrow> store_result" where
  "EMIT_StoreToEffectiveAddress sz arm_reg ea ext_words sign_ext s p j0 =
    (let mode = drop_bit 3 ea; src_reg = ea AND 7
     in case (if sz = 0 then RA_AllocARMRegister j0 else (arm_reg, j0)) of (arm_reg, j) \<Rightarrow>
          if mode = 0 then (arm_reg, ext_words, store_register sz arm_reg src_reg sign_ext j)
          else if mode = 1 then (arm_reg, ext_words, store_register sz arm_reg (src_reg + 8) sign_ext j)
          else if mode < 7 then store_to_An sz sign_ext arm_reg mode src_reg ext_words s p j
          else if mode = 7 then store_to_special sz arm_reg src_reg ext_words s p j
          else (arm_reg, ext_words, j))"

end
