(* ===== verification/EA_Modes.thy ===== *)
theory EA_Modes
  imports EA_Disp EA_Store
begin

text \<open>
  The addressing modes. \<open>ea_address\<close> is the address the M68000 family's manual gives a
  mode; the lemmas show that the pieces of the emitters build it.
\<close>

section \<open>The emulated registers\<close>

abbreviation host :: "u8 \<Rightarrow> u8" where "host \<equiv> RA_MapM68kRegister"

lemma host_reg: "is_reg (host k)" "host k \<noteq> 31" "host k \<notin> arm_temps" "host k \<noteq> REG_PC" "host k \<noteq> 0xff" "11 < host k"
proof -
  have 1: "host k \<notin> arm_temps" "host k \<noteq> REG_PC" "host k < 30" using m68k_register_map [of 0 k] by blast+
  show "is_reg (host k)" using less_trans [OF 1(3), of 31] by (simp add: is_reg_def)
  then show "host k \<noteq> 31" by (rule is_regD)
  show "host k \<notin> arm_temps" "host k \<noteq> REG_PC" using 1 by simp_all
  show "host k \<noteq> 0xff" using 1(3) by auto
  have "host k \<in> set reg_map_m68k_to_arm"
  proof -
    have "k AND 15 = take_bit 4 k" by (simp add: take_bit_eq_mask mask_eq_exp_minus_1)
    then have "unat (k AND 15) < 16"
      using take_bit_nat_less_exp [of 4 "unat k"] by (simp add: unsigned_take_bit_eq)
    moreover have "length reg_map_m68k_to_arm = 16" by (simp add: reg_map_m68k_to_arm_def)
    ultimately show ?thesis unfolding RA_MapM68kRegister_def by (metis nth_mem)
  qed
  then show "11 < host k" by (auto simp: reg_map_m68k_to_arm_def)
qed

lemma Free_host [simp]: "RA_FreeARMRegister (host k) j = j"
  using host_reg(6) by (simp add: RA_FreeARMRegister_def)

lemma small_listed: "k < (16 :: u8) \<Longrightarrow> k \<in> set (map of_nat [0..<16])"
proof -
  assume "k < 16"
  then have "unat k \<in> {0..<16}" by (simp add: word_less_nat_alt)
  then have "of_nat (unat k) \<in> set (map (of_nat :: nat \<Rightarrow> u8) [0..<16])" unfolding set_map set_upt by (rule imageI)
  then show ?thesis by simp
qed

lemma host_inj: "host k = host l \<Longrightarrow> k < 16 \<Longrightarrow> l < 16 \<Longrightarrow> k = l"
proof -
  assume a: "host k = host l" "k < 16" "l < 16"
  have "distinct (map host (map of_nat [0..<16]))" using m68k_register_map [of 0 0] by blast
  then have "inj_on host (set (map of_nat [0..<16]))" by (simp only: distinct_map)
  then show "k = l" using a(1) small_listed [OF a(2)] small_listed [OF a(3)] by (rule inj_onD)
qed

text \<open>All sixteen registers hold 32-bit values: the file of the emulated processor.\<close>

definition m68k_regs :: "mstate \<Rightarrow> (u8 \<Rightarrow> u32) \<Rightarrow> bool" where
  "m68k_regs m R \<longleftrightarrow> (\<forall>k<16. reg_is m (host k) (R k))"

lemma m68k_regsD: "m68k_regs m R \<Longrightarrow> k < 16 \<Longrightarrow> reg_is m (host k) (R k)" "m68k_regs m R \<Longrightarrow> k < 16 \<Longrightarrow> rdW m (host k) = R k"
  by (simp_all add: m68k_regs_def reg_is_rdW)

lemma host_base_ok: "m68k_regs m R \<Longrightarrow> k < 16 \<Longrightarrow> base_ok j m (host k) (R k)"
  by (simp add: base_ok_def host_reg m68k_regsD)

lemma m68k_regs_acts: "acts S j m j' m' \<Longrightarrow> m68k_regs m R \<Longrightarrow> (\<And>k. host k \<notin> S) \<Longrightarrow> m68k_regs m' R"
  unfolding m68k_regs_def using reg_is_keeps host_reg(3) by blast

section \<open>Index registers\<close>

definition index_value :: "u16 \<Rightarrow> (u8 \<Rightarrow> u32) \<Rightarrow> u32" where
  "index_value ext R = (let x = R (ucast (drop_bit 12 ext)) in if bit ext 11 then x else scast (ucast x :: u16))"

lemma run_sxth: "is_reg rd \<Longrightarrow> is_reg rn \<Longrightarrow>
    \<exists>m'. acts {rd} j m (EMIT [sxth rd rn] j) m' \<and> reg_is m' rd (scast (ucast (rdW m rn) :: u16)) \<and> m_mem m' = m_mem m"
proof -
  have z: "(0 :: u8) < 32" "(15 :: u8) < 32" by simp_all
  have s: "scast (ucast x :: u16) = (signed_take_bit 15 x :: u32)" for x :: u32
    by (rule bit_word_eqI) (auto simp: bit_simps min_def)
  show "is_reg rd \<Longrightarrow> is_reg rn \<Longrightarrow> ?thesis"
    unfolding sxth_def by (rule step_acts [OF decode_sbfm [OF z]]) (simp_all add: is_regD s)
qed

lemma bit_test: "(w :: 'a :: len word) AND push_bit n 1 \<noteq> 0 \<longleftrightarrow> bit w n"
  using bit_iff_and_push_bit_not_eq_0 [of w n] by simp

lemma index_bits: "(ext :: u16) AND 0x8000 \<noteq> 0 \<longleftrightarrow> bit ext 15" "ext AND 0x800 \<noteq> 0 \<longleftrightarrow> bit ext 11"
  using bit_test [of ext 15] bit_test [of ext 11] by simp_all

lemma index_small: "ucast (drop_bit 12 (ext :: u16)) < (16 :: u8)"
proof -
  define y :: u8 where "y = ucast (drop_bit 12 ext)"
  have "bit y n \<Longrightarrow> n < 4" for n using bit_imp_le_length [of ext "12 + n"] by (auto simp: y_def bit_simps)
  then have "take_bit 4 y = y" by (intro bit_word_eqI) (auto simp: bit_simps)
  then have "unat y < 16" using take_bit_nat_less_exp [of 4 "unat y"] by (simp add: unsigned_take_bit_eq [symmetric])
  then show ?thesis by (simp add: y_def word_less_nat_alt)
qed

lemma index_number:
  "(if ext AND 0x8000 \<noteq> 0 then 8 + (ucast (drop_bit 12 ext) AND 7) else ucast (drop_bit 12 ext) AND 7) =
    (ucast (drop_bit 12 (ext :: u16)) :: u8)"
proof -
  define y :: u8 where "y = ucast (drop_bit 12 ext)"
  have "list_all (\<lambda>y. (if bit y 3 then 8 + (y AND 7) else y AND 7) = (y :: u8)) (map of_nat [0..<16])" by code_simp
  moreover have "y \<in> set (map of_nat [0..<16])" unfolding y_def by (rule small_listed [OF index_small])
  ultimately have "(if bit y 3 then 8 + (y AND 7) else y AND 7) = y" unfolding list_all_iff by blast
  moreover have "bit y 3 \<longleftrightarrow> bit ext 15" by (simp add: y_def bit_simps)
  ultimately show ?thesis unfolding index_bits y_def by simp
qed

lemma index_register_acts:
  assumes "m68k_regs m R" "free_temps 1 j"
  obtains x j' m' where "index_register ext j = (x, j')" "acts {} j m j' m'" "base_ok j' m' x (index_value ext R)"
    "m_mem m' = m_mem m" "live_temps j' \<subseteq> insert x (live_temps j)"
    "\<And>T j3 m3. acts T j m j3 m3 \<Longrightarrow> live_temps j3 = live_temps j' \<Longrightarrow>
      acts T j m (RA_FreeARMRegister x j3) m3 \<and> live_temps (RA_FreeARMRegister x j3) = live_temps j"
proof (cases "bit ext 11")
  case True
  show thesis
    by (rule that [of "host (ucast (drop_bit 12 ext))" j m])
      (use True host_base_ok [OF assms(1) index_small] in
        \<open>auto simp: index_register_def Let_def index_bits index_number [unfolded index_bits] index_value_def intro: acts_refl\<close>)
next
  case False
  let ?r = "host (ucast (drop_bit 12 ext))"
  obtain x j1 where a: "alloc_result j x j1" using free_temps_1 [OF assms(2)] by blast
  note ra = alloc_reg [OF a]
  obtain m' where m': "acts {x} j1 m (EMIT [sxth x ?r] j1) m'"
    "reg_is m' x (scast (ucast (rdW m ?r) :: u16))" "m_mem m' = m_mem m"
    using run_sxth [OF ra(1) host_reg(1)] by blast
  let ?j = "EMIT [sxth x ?r] j1"
  have e: "index_register ext j = (x, ?j)"
    using False by (simp add: index_register_def Let_def index_bits index_number [unfolded index_bits] ra(5))
  have ac: "acts {} j m ?j m'" using acts_alloc [OF a m'(1)] .
  have rest: "acts T j m (RA_FreeARMRegister x j3) m3 \<and> live_temps (RA_FreeARMRegister x j3) = live_temps j"
    if "acts T j m j3 m3" "live_temps j3 = live_temps ?j" for T j3 m3
    using acts_Free [OF that(1) ra(2)] that(2) ra(2,4,6) live_Free [of x j3] by auto
  show thesis
    by (rule that [OF e ac _ m'(3) _ rest])
      (use m'(2) ra m68k_regsD(2) [OF assms(1) index_small] False in \<open>auto simp: base_ok_def index_value_def Let_def\<close>)
qed

section \<open>Brief extension words\<close>

lemma Free_commute: "RA_FreeARMRegister a (RA_FreeARMRegister b j) = RA_FreeARMRegister b (RA_FreeARMRegister a j)"
  by (simp add: RA_FreeARMRegister_def and.assoc and.commute and.left_commute)

lemma add_immed_acts:
  "is_reg rd \<Longrightarrow> is_reg rn \<Longrightarrow> \<exists>m'. acts {rd} j m (EMIT [add_immed rd rn k] j) m' \<and>
    reg_is m' rd (rdW m rn + ucast (take_bit 12 k)) \<and> m_mem m' = m_mem m"
  "is_reg rd \<Longrightarrow> is_reg rn \<Longrightarrow> \<exists>m'. acts {rd} j m (EMIT [sub_immed rd rn k] j) m' \<and>
    reg_is m' rd (rdW m rn - ucast (take_bit 12 k)) \<and> m_mem m' = m_mem m"
proof -
  assume r: "is_reg rd" "is_reg rn"
  let ?a = "(wrW rd (rdW m rn + ucast (take_bit 12 k)) m)\<lparr>m_pc := m_pc m + 4\<rparr>"
  let ?s = "(wrW rd (rdW m rn - ucast (take_bit 12 k)) m)\<lparr>m_pc := m_pc m + 4\<rparr>"
  have "acts {rd} j m (EMIT [add_immed rd rn k] j) ?a" "acts {rd} j m (EMIT [sub_immed rd rn k] j) ?s"
    by (rule acts_EMIT; use r in \<open>simp add: run_add_immed run_sub_immed no_branches_def decode_add_immed decode_sub_immed\<close>)+
  moreover have "reg_is ?a rd (rdW m rn + ucast (take_bit 12 k))" "reg_is ?s rd (rdW m rn - ucast (take_bit 12 k))"
    using is_regD(2) [OF r(1)] by simp_all
  ultimately show "\<exists>m'. acts {rd} j m (EMIT [add_immed rd rn k] j) m' \<and>
      reg_is m' rd (rdW m rn + ucast (take_bit 12 k)) \<and> m_mem m' = m_mem m"
    "\<exists>m'. acts {rd} j m (EMIT [sub_immed rd rn k] j) m' \<and>
      reg_is m' rd (rdW m rn - ucast (take_bit 12 k)) \<and> m_mem m' = m_mem m"
    by (auto intro: exI [of _ ?a] exI [of _ ?s])
qed

text \<open>Adding a signed number by an addition or a subtraction of its size.\<close>

lemma signed_immed_acts:
  assumes "is_reg rd" "is_reg rn" "-4096 < d" "d < 4096"
  shows "\<exists>m'. acts {rd} j m (if 0 \<le> d then EMIT [add_immed rd rn (word_of_int d)] j
      else EMIT [sub_immed rd rn (word_of_int (- d))] j) m' \<and>
    reg_is m' rd (rdW m rn + word_of_int d) \<and> m_mem m' = m_mem m"
proof -
  have k: "ucast (take_bit 12 (word_of_int i :: u16)) = (word_of_int i :: u32)" if "0 \<le> i" "i < 4096" for i
    using that
    by (simp add: word_uint_eq_iff unsigned_ucast_eq unsigned_take_bit_eq take_bit_eq_mod [where ?'a = int] uint_word_of_int)
  show ?thesis
  proof (cases "0 \<le> d")
    case True
    with k [of d] add_immed_acts(1) [OF assms(1,2), of j m "word_of_int d"] assms(4) show ?thesis by simp
  next
    case False
    with k [of "- d"] add_immed_acts(2) [OF assms(1,2), of j m "word_of_int (- d)"] assms(3) show ?thesis by simp
  qed
qed

lemma sint_u8_range: "-4096 < sint (x :: u8)" "sint x < 4096"
  using sint_greater_eq [of x] sint_lt [of x] by simp_all

lemma brief_base_acts:
  assumes "m68k_regs m R" "free_temps 1 j" "k < 16"
  obtains base tmp j1 m1 where "brief_base (host k) ext j = (base, tmp, j1)" "acts {} j m j1 m1"
    "base_ok j1 m1 base (R k + scast (ucast ext :: u8))" "m_mem m1 = m_mem m" "live_temps j1 \<subseteq> insert base (live_temps j)"
    "\<And>T j3 m3. acts T j m j3 m3 \<Longrightarrow> live_temps j3 = live_temps j1 \<Longrightarrow>
      acts T j m (if tmp \<noteq> 0xff then RA_FreeARMRegister tmp j3 else j3) m3 \<and>
      live_temps (if tmp \<noteq> 0xff then RA_FreeARMRegister tmp j3 else j3) = live_temps j"
proof (cases "sint (ucast ext :: u8) = 0")
  case True
  then have z: "ucast ext = (0 :: u8)" by (simp add: signed_eq_0_iff)
  show thesis
    by (rule that [of "host k" "0xff" j m]) (use True z host_base_ok [OF assms(1,3)] in \<open>simp_all add: brief_base_def acts_refl subset_insertI\<close>)
next
  case False
  let ?d = "sint (ucast ext :: u8)"
  obtain x j1 where a: "alloc_result j x j1" using free_temps_1 [OF assms(2)] by blast
  note ra = alloc_reg [OF a]
  let ?j = "if 0 \<le> ?d then EMIT [add_immed x (host k) (word_of_int ?d)] j1
      else EMIT [sub_immed x (host k) (word_of_int (- ?d))] j1"
  obtain m' where m': "acts {x} j1 m ?j m'" "reg_is m' x (rdW m (host k) + word_of_int ?d)" "m_mem m' = m_mem m"
    using signed_immed_acts [OF ra(1) host_reg(1) sint_u8_range] by blast
  have e: "brief_base (host k) ext j = (x, x, ?j)"
    using False by (auto simp: brief_base_def Let_def ra(5))
  have ac: "acts {} j m ?j m'" using acts_alloc [OF a m'(1)] .
  have lj: "live_temps ?j = insert x (live_temps j)" using ra(6) by simp
  have rest: "acts T j m (if x \<noteq> 0xff then RA_FreeARMRegister x j3 else j3) m3 \<and>
      live_temps (if x \<noteq> 0xff then RA_FreeARMRegister x j3 else j3) = live_temps j"
    if "acts T j m j3 m3" "live_temps j3 = live_temps ?j" for T j3 m3
    using acts_Free [OF that(1) ra(2)] that(2) lj ra(2,3,4) live_Free [of x j3] by auto
  have "R k + scast (ucast ext :: u8) = rdW m (host k) + word_of_int ?d"
    by (simp only: m68k_regsD(2) [OF assms(1,3)] scast_eq)
  then have bo: "base_ok ?j m' x (R k + scast (ucast ext :: u8))"
    using m'(2) ra(1,3) lj by (simp only: base_ok_def) simp
  show thesis
    by (rule that [OF e ac bo m'(3) _ rest]) (simp_all only: lj order_refl)
qed

lemma index_scale_less: "unat (index_scale ext) < 4" "unat (index_scale ext) = unat (take_bit 2 (drop_bit 9 ext))"
proof -
  have m: "(3 :: u8) = mask 2" by (simp add: mask_eq_exp_minus_1)
  have e: "index_scale ext = take_bit 2 (ucast (drop_bit 9 ext))"
    unfolding index_scale_def m take_bit_eq_mask ..
  show "unat (index_scale ext) < 4"
    unfolding e using take_bit_nat_less_exp [of 2 "unat (ucast (drop_bit 9 ext) :: u8)"] by (simp add: unsigned_take_bit_eq)
  have "ucast (take_bit 2 (drop_bit 9 ext)) = (take_bit 2 (ucast (drop_bit 9 ext)) :: u8)"
    by (rule bit_word_eqI) (auto simp: bit_simps)
  moreover have "unat (ucast (take_bit 2 w) :: u8) = unat (take_bit 2 w)" for w :: u16
    using take_bit_nat_less_exp [of 2 "unat w"]
    by (simp add: unsigned_ucast_eq unsigned_take_bit_eq)
  ultimately show "unat (index_scale ext) = unat (take_bit 2 (drop_bit 9 ext))" unfolding e by metis
qed

text \<open>What a brief extension word adds to its base.\<close>

definition brief_value :: "u16 \<Rightarrow> (u8 \<Rightarrow> u32) \<Rightarrow> u32" where
  "brief_value ext R = scast (ucast ext :: u8) + push_bit (unat (take_bit 2 (drop_bit 9 ext))) (index_value ext R)"

lemma brief_load_acts:
  assumes "sz \<in> {1, 2, 4}" "m68k_regs m R" "is_reg t" "free_temps 4 j" "k < 16"
  shows "\<exists>m'. acts {t} j m (brief_load sz t (host k) ext sx j) m' \<and>
    reg_is m' t (loaded (unat sz) sx m (ucast (R k + brief_value ext R))) \<and> m_mem m' = m_mem m \<and>
    live_temps (brief_load sz t (host k) ext sx j) = live_temps j"
proof -
  have f: "free_temps 1 j" "free_temps (Suc 3) j" using assms(4) by (simp_all add: free_temps_def numeral_eq_Suc)
  obtain base tmp j1 m1 where b: "brief_base (host k) ext j = (base, tmp, j1)" "acts {} j m j1 m1"
    "base_ok j1 m1 base (R k + scast (ucast ext :: u8))" "m_mem m1 = m_mem m" "live_temps j1 \<subseteq> insert base (live_temps j)"
    and rest1: "\<And>T j3 m3. acts T j m j3 m3 \<Longrightarrow> live_temps j3 = live_temps j1 \<Longrightarrow>
      acts T j m (if tmp \<noteq> 0xff then RA_FreeARMRegister tmp j3 else j3) m3 \<and>
      live_temps (if tmp \<noteq> 0xff then RA_FreeARMRegister tmp j3 else j3) = live_temps j"
    by (rule brief_base_acts [OF assms(2) f(1) assms(5)]) blast
  have f1: "free_temps 3 j1" by (rule free_temps_insert [OF f(2) b(5)])
  then have f2: "free_temps 1 j1" "free_temps (Suc 2) j1" by (simp_all add: free_temps_def numeral_eq_Suc)
  have R1: "m68k_regs m1 R" using m68k_regs_acts [OF b(2) assms(2)] by simp
  obtain x j2 m2 where x: "index_register ext j1 = (x, j2)" "acts {} j1 m1 j2 m2" "base_ok j2 m2 x (index_value ext R)"
    "m_mem m2 = m_mem m1" "live_temps j2 \<subseteq> insert x (live_temps j1)"
    and rest2: "\<And>T j3 m3. acts T j1 m1 j3 m3 \<Longrightarrow> live_temps j3 = live_temps j2 \<Longrightarrow>
      acts T j1 m1 (RA_FreeARMRegister x j3) m3 \<and> live_temps (RA_FreeARMRegister x j3) = live_temps j1"
    by (rule index_register_acts [OF R1 f2(1)]) blast
  have f3: "free_temps 2 j2" by (rule free_temps_insert [OF f2(2) x(5)])
  have b2: "base_ok j2 m2 base (R k + scast (ucast ext :: u8))" using base_ok_acts [OF x(2) b(3)] by simp
  let ?j3 = "load_reg_from_addr sz base t x (index_scale ext) sx j2"
  obtain m3 where m3: "acts {t} j2 m2 ?j3 m3"
    "reg_is m3 t (loaded (unat sz) sx m2 (ucast (R k + scast (ucast ext :: u8) + push_bit (unat (index_scale ext)) (index_value ext R))))"
    "m_mem m3 = m_mem m2" "live_temps ?j3 = live_temps j2"
    using load_reg_from_addr_acts [OF assms(1) b2 x(3) assms(3) index_scale_less(1) f3] by blast
  have "acts {t} j1 m1 ?j3 m3" using acts_trans [OF acts_mono [OF x(2)] m3(1)] by simp
  note 1 = rest2 [OF this m3(4)]
  have "acts {t} j m (RA_FreeARMRegister x ?j3) m3"
    using acts_trans [OF acts_mono [OF b(2)] conjunct1 [OF 1]] by simp
  note 2 = rest1 [OF this conjunct2 [OF 1]]
  have "brief_load sz t (host k) ext sx j =
      (if tmp \<noteq> 0xff then RA_FreeARMRegister tmp (RA_FreeARMRegister x ?j3) else RA_FreeARMRegister x ?j3)"
    by (simp add: brief_load_def b(1) x(1) Let_def Free_commute [of x tmp])
  with 2 m3 b(4) x(4) show ?thesis
    by (intro exI [of _ m3]) (simp add: brief_value_def index_scale_less(2) loaded_def add.assoc)
qed

lemma brief_store_acts:
  assumes "sz \<in> {1, 2, 4}" "m68k_regs m R" "is_reg t" "free_temps 4 j" "k < 16" "t \<notin> arm_temps - live_temps j"
  shows "\<exists>m'. acts {} j m (brief_store sz t (host k) ext j) m' \<and>
    m_mem m' = wr_be (m_mem m) (ucast (R k + brief_value ext R)) (unat sz) (rdW m t) \<and>
    live_temps (brief_store sz t (host k) ext j) = live_temps j"
proof -
  have f: "free_temps 1 j" "free_temps (Suc 3) j" using assms(4) by (simp_all add: free_temps_def numeral_eq_Suc)
  obtain base tmp j1 m1 where b: "brief_base (host k) ext j = (base, tmp, j1)" "acts {} j m j1 m1"
    "base_ok j1 m1 base (R k + scast (ucast ext :: u8))" "m_mem m1 = m_mem m" "live_temps j1 \<subseteq> insert base (live_temps j)"
    and rest1: "\<And>T j3 m3. acts T j m j3 m3 \<Longrightarrow> live_temps j3 = live_temps j1 \<Longrightarrow>
      acts T j m (if tmp \<noteq> 0xff then RA_FreeARMRegister tmp j3 else j3) m3 \<and>
      live_temps (if tmp \<noteq> 0xff then RA_FreeARMRegister tmp j3 else j3) = live_temps j"
    by (rule brief_base_acts [OF assms(2) f(1) assms(5)]) blast
  have f1: "free_temps 3 j1" by (rule free_temps_insert [OF f(2) b(5)])
  then have f2: "free_temps 1 j1" "free_temps (Suc 2) j1" by (simp_all add: free_temps_def numeral_eq_Suc)
  have R1: "m68k_regs m1 R" using m68k_regs_acts [OF b(2) assms(2)] by simp
  obtain x j2 m2 where x: "index_register ext j1 = (x, j2)" "acts {} j1 m1 j2 m2" "base_ok j2 m2 x (index_value ext R)"
    "m_mem m2 = m_mem m1" "live_temps j2 \<subseteq> insert x (live_temps j1)"
    and rest2: "\<And>T j3 m3. acts T j1 m1 j3 m3 \<Longrightarrow> live_temps j3 = live_temps j2 \<Longrightarrow>
      acts T j1 m1 (RA_FreeARMRegister x j3) m3 \<and> live_temps (RA_FreeARMRegister x j3) = live_temps j1"
    by (rule index_register_acts [OF R1 f2(1)]) blast
  have f3: "free_temps 2 j2" by (rule free_temps_insert [OF f2(2) x(5)])
  have b2: "base_ok j2 m2 base (R k + scast (ucast ext :: u8))" using base_ok_acts [OF x(2) b(3)] by simp
  have 12: "acts {} j m j2 m2" by (rule acts_trans [OF b(2) x(2)])
  then have t: "t \<notin> arm_temps - live_temps j2" "rdX m2 t = rdX m t"
    using assms(6) acts_keeps [OF 12, of t] by (auto simp: acts_def)
  let ?j3 = "store_reg_to_addr sz base t x (index_scale ext) j2"
  obtain m3 where m3: "acts {} j2 m2 ?j3 m3"
    "m_mem m3 = wr_be (m_mem m2) (ucast (R k + scast (ucast ext :: u8) + push_bit (unat (index_scale ext)) (index_value ext R)))
      (unat sz) (rdW m2 t)" "live_temps ?j3 = live_temps j2"
    using store_reg_to_addr_acts [OF assms(1) b2 x(3) assms(3) index_scale_less(1) f3 t(1)] by blast
  have "acts {} j1 m1 ?j3 m3" by (rule acts_trans [OF x(2) m3(1)])
  note 1 = rest2 [OF this m3(3)]
  have "acts {} j m (RA_FreeARMRegister x ?j3) m3" by (rule acts_trans [OF b(2) conjunct1 [OF 1]])
  note 2 = rest1 [OF this conjunct2 [OF 1]]
  have "brief_store sz t (host k) ext j =
      (if tmp \<noteq> 0xff then RA_FreeARMRegister tmp (RA_FreeARMRegister x ?j3) else RA_FreeARMRegister x ?j3)"
    by (simp add: brief_store_def b(1) x(1) Let_def Free_commute [of x tmp])
  with 2 m3 b(4) x(4) t(2) show ?thesis
    by (intro exI [of _ m3]) (simp add: brief_value_def index_scale_less(2) rdW_def add.assoc)
qed

end
