(* ===== verification/EA_Theorems.thy ===== *)
theory EA_Theorems
  imports EA_Modes SR_Theorems
begin

text \<open>
  The effective address emitters against the addressing modes of the manual: what the code
  they emit loads, stores and leaves behind.
\<close>

section \<open>The addressing modes\<close>

text \<open>
  The address of a memory operand: \<open>ext\<close> are the extension words, \<open>R\<close> the registers, \<open>pc\<close>
  the address of the first extension word, \<open>step\<close> how far an updating mode moves.
\<close>

definition ea_address :: "u8 \<Rightarrow> u8 \<Rightarrow> (nat \<Rightarrow> u16) \<Rightarrow> (u8 \<Rightarrow> u32) \<Rightarrow> u32 \<Rightarrow> u32 \<Rightarrow> u32" where
  "ea_address mode r ext R pc step =
    (if mode = 2 \<or> mode = 3 then R (r + 8)
     else if mode = 4 then R (r + 8) - step
     else if mode = 5 then R (r + 8) + scast (ext 0)
     else if mode = 6 then R (r + 8) + brief_value (ext 0) R
     else if r = 0 then scast (ext 0)
     else if r = 1 then push_bit 16 (ucast (ext 0)) OR ucast (ext 1)
     else if r = 2 then pc + scast (ext 0)
     else pc + brief_value (ext 0) R)"

definition ea_words :: "u8 \<Rightarrow> u8 \<Rightarrow> nat" where
  "ea_words mode r = (if mode < 5 then 0 else if mode = 7 \<and> r = 1 then 2 else 1)"

definition ea_step :: "u8 \<Rightarrow> u8 \<Rightarrow> u32" where
  "ea_step sz r = (if sz = 1 \<and> r = 7 then 2 else ucast sz)"

text \<open>What the address register holds after the access.\<close>

definition ea_after :: "u8 \<Rightarrow> u8 \<Rightarrow> u32 \<Rightarrow> (u8 \<Rightarrow> u32) \<Rightarrow> u8 \<Rightarrow> u32" where
  "ea_after mode r step R =
    (if mode = 3 then R(r + 8 := R (r + 8) + step) else if mode = 4 then R(r + 8 := R (r + 8) - step) else R)"

text \<open>
  The memory modes, with a brief extension word where they have one, and the condition that
  a host address, which has 64 bits, does not leave the 32 bits of the emulated processor.
\<close>

definition ea_memory :: "u8 \<Rightarrow> u8 \<Rightarrow> (nat \<Rightarrow> u16) \<Rightarrow> bool" where
  "ea_memory mode r ext \<longleftrightarrow> r < 8 \<and>
     (mode \<in> {2, 3, 4, 5} \<or> (mode = 6 \<and> ext 0 AND 0x0100 = 0) \<or>
      (mode = 7 \<and> (r \<in> {0, 1, 2} \<or> (r = 3 \<and> ext 0 AND 0x0100 = 0))))"

definition ea_fits :: "u8 \<Rightarrow> u8 \<Rightarrow> (nat \<Rightarrow> u16) \<Rightarrow> (u8 \<Rightarrow> u32) \<Rightarrow> u32 \<Rightarrow> u32 \<Rightarrow> bool" where
  "ea_fits mode r ext R pc step \<longleftrightarrow>
     (mode = 3 \<longrightarrow> in_range (R (r + 8)) (uint step)) \<and>
     (mode = 4 \<longrightarrow> in_range (R (r + 8)) (- uint step)) \<and>
     (mode = 5 \<longrightarrow> in_range (R (r + 8)) (sint (ext 0))) \<and>
     (mode = 7 \<and> r = 2 \<longrightarrow> 2 ^ 16 \<le> uint pc \<and> uint pc < 2 ^ 32 - 2 ^ 16)"

section \<open>Updating modes\<close>

lemma step_value: "sz \<in> {1, 2, 4} \<Longrightarrow> ea_step sz r \<in> {1, 2, 4}"
  by (auto simp: ea_step_def)

lemma updating_load:
  assumes "decode (fetch w) = Some (LdSt n p am t b)" "is_reg t" "is_reg b" "t \<noteq> b" "p = Ld \<or> p = Ld_s32"
    "reg_is m b B" "in_range B d" "(am = Post (word_of_int d) \<and> A = B) \<or> (am = Pre (word_of_int d) \<and> A = B + word_of_int d)"
  shows "\<exists>m'. acts {t, b} j m (EMIT [w] j) m' \<and> reg_is m' t (loaded n (p = Ld_s32) m (ucast A)) \<and>
    reg_is m' b (B + word_of_int d) \<and> m_mem m' = m_mem m"
proof -
  have b: "rdXsp m b = ucast B" using assms(6) is_regD(2) [OF assms(3)] by (simp add: reg_is_def rdX_def rdXsp_def)
  let ?m = "exec (LdSt n p am t b) m"
  have "acts {t, b} j m (EMIT [w] j) ?m"
    by (rule acts_decoded [OF assms(1)]) (use assms(5,8) is_regD(2) [OF assms(3)] in \<open>auto simp: exec_def Let_def\<close>)
  moreover have "reg_is ?m t (loaded n (p = Ld_s32) m (ucast A)) \<and> reg_is ?m b (B + word_of_int d)"
    using assms(5,8,4) is_regD(2) [OF assms(2)] is_regD(2) [OF assms(3)] in_range_add [OF assms(7)] b
    by (auto simp: exec_def Let_def loaded_def extended_def reg_is_def)
  moreover have "m_mem ?m = m_mem m"
    using assms(5,8) by (auto simp: exec_def Let_def)
  ultimately show ?thesis by blast
qed

lemma updating_store:
  assumes "decode (fetch w) = Some (LdSt n St am t b)" "is_reg b" "t \<noteq> b"
    "reg_is m b B" "in_range B d" "(am = Post (word_of_int d) \<and> A = B) \<or> (am = Pre (word_of_int d) \<and> A = B + word_of_int d)"
  shows "\<exists>m'. acts {b} j m (EMIT [w] j) m' \<and> m_mem m' = wr_be (m_mem m) (ucast A) n (rdW m t) \<and>
    reg_is m' b (B + word_of_int d)"
proof -
  have b: "rdXsp m b = ucast B" using assms(4) is_regD(2) [OF assms(2)] by (simp add: reg_is_def rdX_def rdXsp_def)
  let ?m = "exec (LdSt n St am t b) m"
  have u: "rdXsp (m\<lparr>m_mem := f\<rparr>) b = ucast B" for f using b by (simp add: rdXsp_def split: if_splits)
  have "acts {b} j m (EMIT [w] j) ?m"
    by (rule acts_decoded [OF assms(1)]) (use assms(6) is_regD(2) [OF assms(2)] in \<open>auto simp: exec_def Let_def\<close>)
  moreover have "reg_is ?m b (B + word_of_int d)"
    using assms(6) is_regD(2) [OF assms(2)] in_range_add [OF assms(5)] u
    by (auto simp: exec_def Let_def reg_is_def)
  moreover have "m_mem ?m = wr_be (m_mem m) (ucast A) n (rdW m t)"
    using assms(6) in_range_add [OF assms(5)] b by (auto simp: exec_def Let_def)
  ultimately show ?thesis by blast
qed

text \<open>The offsets of the updating instructions.\<close>

lemma step_offsets:
  "(scast (ucast (4 :: u16) :: 9 word) :: u64) = word_of_int 4" "(scast (ucast (2 :: u16) :: 9 word) :: u64) = word_of_int 2"
  "(scast (ucast (1 :: u16) :: 9 word) :: u64) = word_of_int 1" "(scast (ucast (- 4 :: u16) :: 9 word) :: u64) = word_of_int (- 4)"
  "(scast (ucast (- 2 :: u16) :: 9 word) :: u64) = word_of_int (- 2)" "(scast (ucast (- 1 :: u16) :: 9 word) :: u64) = word_of_int (- 1)"
  by code_simp+

lemma postindex_words:
  assumes "sz \<in> {1, 2, 4}" "is_reg t" "is_reg b" "t \<noteq> b"
  shows "\<exists>w. load_postindex sz b t sx (if r = 7 then 2 else 1) = [w] \<and> decode (fetch w) =
      Some (LdSt (unat sz) (if sx \<and> sz \<noteq> 4 then Ld_s32 else Ld) (Post (word_of_int (uint (ea_step sz r)))) t b)"
    "\<exists>w. store_postindex sz b t (if r = 7 then 2 else 1) = [w] \<and> decode (fetch w) =
      Some (LdSt (unat sz) St (Post (word_of_int (uint (ea_step sz r)))) t b)"
proof -
  have t5: "take_bit 5 t \<noteq> take_bit 5 b" using is_regD(3) assms(2,3,4) by simp
  note d = decode_ldst_postindex [OF t5, unfolded is_regD(3) [OF assms(2)] is_regD(3) [OF assms(3)]]
  have n: "b \<noteq> t" using assms(4) by simp
  show "\<exists>w. load_postindex sz b t sx (if r = 7 then 2 else 1) = [w] \<and> decode (fetch w) =
      Some (LdSt (unat sz) (if sx \<and> sz \<noteq> 4 then Ld_s32 else Ld) (Post (word_of_int (uint (ea_step sz r)))) t b)"
    using assms(1) n by (cases sx; cases "r = 7") (auto simp: load_postindex_def d ea_step_def step_offsets [simplified])
  show "\<exists>w. store_postindex sz b t (if r = 7 then 2 else 1) = [w] \<and> decode (fetch w) =
      Some (LdSt (unat sz) St (Post (word_of_int (uint (ea_step sz r)))) t b)"
    using assms(1) by (cases "r = 7") (auto simp: store_postindex_def d ea_step_def step_offsets [simplified])
qed

lemma preindex_words:
  assumes "sz \<in> {1, 2, 4}" "is_reg t" "is_reg b" "t \<noteq> b"
  shows "\<exists>w. load_preindex sz b t sx (if r = 7 then 2 else 1) = [w] \<and> decode (fetch w) =
      Some (LdSt (unat sz) (if sx \<and> sz \<noteq> 4 then Ld_s32 else Ld) (Pre (word_of_int (- uint (ea_step sz r)))) t b)"
    "\<exists>w. store_preindex sz b t (if r = 7 then 2 else 1) = [w] \<and> decode (fetch w) =
      Some (LdSt (unat sz) St (Pre (word_of_int (- uint (ea_step sz r)))) t b)"
proof -
  have t5: "take_bit 5 t \<noteq> take_bit 5 b" using is_regD(3) assms(2,3,4) by simp
  note d = decode_ldst_preindex [OF t5, unfolded is_regD(3) [OF assms(2)] is_regD(3) [OF assms(3)]]
  have n: "b \<noteq> t" using assms(4) by simp
  show "\<exists>w. load_preindex sz b t sx (if r = 7 then 2 else 1) = [w] \<and> decode (fetch w) =
      Some (LdSt (unat sz) (if sx \<and> sz \<noteq> 4 then Ld_s32 else Ld) (Pre (word_of_int (- uint (ea_step sz r)))) t b)"
    using assms(1) n by (cases sx; cases "r = 7") (auto simp: load_preindex_def d ea_step_def step_offsets [simplified])
  show "\<exists>w. store_preindex sz b t (if r = 7 then 2 else 1) = [w] \<and> decode (fetch w) =
      Some (LdSt (unat sz) St (Pre (word_of_int (- uint (ea_step sz r)))) t b)"
    using assms(1) by (cases "r = 7") (auto simp: store_preindex_def d ea_step_def step_offsets [simplified])
qed

lemma loaded_sx: "loaded (unat sz) (sx \<and> sz \<noteq> 4) m a = loaded (unat sz) sx m a" for sz :: u8
  by (cases "sz = 4") (simp_all add: loaded_def)

lemma updating_load_acts:
  assumes "sz \<in> {1, 2, 4}" "is_reg t" "is_reg b" "t \<noteq> b" "reg_is m b B"
  shows "in_range B (uint (ea_step sz r)) \<Longrightarrow>
      \<exists>m'. acts {t, b} j m (EMIT (load_postindex sz b t sx (if r = 7 then 2 else 1)) j) m' \<and>
        reg_is m' t (loaded (unat sz) sx m (ucast B)) \<and> reg_is m' b (B + ea_step sz r) \<and> m_mem m' = m_mem m"
    "in_range B (- uint (ea_step sz r)) \<Longrightarrow>
      \<exists>m'. acts {t, b} j m (EMIT (load_preindex sz b t sx (if r = 7 then 2 else 1)) j) m' \<and>
        reg_is m' t (loaded (unat sz) sx m (ucast (B - ea_step sz r))) \<and> reg_is m' b (B - ea_step sz r) \<and> m_mem m' = m_mem m"
proof -
  let ?p = "if sx \<and> sz \<noteq> 4 then Ld_s32 else Ld"
  have p: "?p = Ld \<or> ?p = Ld_s32" "(?p = Ld_s32) = (sx \<and> sz \<noteq> 4)" by auto
  {
    assume i: "in_range B (uint (ea_step sz r))"
    obtain w where w: "load_postindex sz b t sx (if r = 7 then 2 else 1) = [w]" "decode (fetch w) =
      Some (LdSt (unat sz) ?p (Post (word_of_int (uint (ea_step sz r)))) t b)"
      using postindex_words(1) [OF assms(1-4)] by blast
    then show "\<exists>m'. acts {t, b} j m (EMIT (load_postindex sz b t sx (if r = 7 then 2 else 1)) j) m' \<and>
        reg_is m' t (loaded (unat sz) sx m (ucast B)) \<and> reg_is m' b (B + ea_step sz r) \<and> m_mem m' = m_mem m"
      using updating_load [OF w(2) assms(2-4) p(1) assms(5) i, of B j] unfolding p(2) loaded_sx by simp
  }
  {
    assume i: "in_range B (- uint (ea_step sz r))"
    obtain w where w: "load_preindex sz b t sx (if r = 7 then 2 else 1) = [w]" "decode (fetch w) =
      Some (LdSt (unat sz) ?p (Pre (word_of_int (- uint (ea_step sz r)))) t b)"
      using preindex_words(1) [OF assms(1-4)] by blast
    then show "\<exists>m'. acts {t, b} j m (EMIT (load_preindex sz b t sx (if r = 7 then 2 else 1)) j) m' \<and>
        reg_is m' t (loaded (unat sz) sx m (ucast (B - ea_step sz r))) \<and> reg_is m' b (B - ea_step sz r) \<and> m_mem m' = m_mem m"
      using updating_load [OF w(2) assms(2-4) p(1) assms(5) i, of "B - ea_step sz r" j] unfolding p(2) loaded_sx by simp
  }
qed

lemma updating_store_acts:
  assumes "sz \<in> {1, 2, 4}" "is_reg t" "is_reg b" "t \<noteq> b" "reg_is m b B"
  shows "in_range B (uint (ea_step sz r)) \<Longrightarrow>
      \<exists>m'. acts {b} j m (EMIT (store_postindex sz b t (if r = 7 then 2 else 1)) j) m' \<and>
        m_mem m' = wr_be (m_mem m) (ucast B) (unat sz) (rdW m t) \<and> reg_is m' b (B + ea_step sz r)"
    "in_range B (- uint (ea_step sz r)) \<Longrightarrow>
      \<exists>m'. acts {b} j m (EMIT (store_preindex sz b t (if r = 7 then 2 else 1)) j) m' \<and>
        m_mem m' = wr_be (m_mem m) (ucast (B - ea_step sz r)) (unat sz) (rdW m t) \<and> reg_is m' b (B - ea_step sz r)"
proof -
  {
    assume i: "in_range B (uint (ea_step sz r))"
    obtain w where w: "store_postindex sz b t (if r = 7 then 2 else 1) = [w]" "decode (fetch w) =
      Some (LdSt (unat sz) St (Post (word_of_int (uint (ea_step sz r)))) t b)"
      using postindex_words(2) [OF assms(1-4)] by blast
    then show "\<exists>m'. acts {b} j m (EMIT (store_postindex sz b t (if r = 7 then 2 else 1)) j) m' \<and>
        m_mem m' = wr_be (m_mem m) (ucast B) (unat sz) (rdW m t) \<and> reg_is m' b (B + ea_step sz r)"
      using updating_store [OF w(2) assms(3-5) i, of B j] by simp
  }
  {
    assume i: "in_range B (- uint (ea_step sz r))"
    obtain w where w: "store_preindex sz b t (if r = 7 then 2 else 1) = [w]" "decode (fetch w) =
      Some (LdSt (unat sz) St (Pre (word_of_int (- uint (ea_step sz r)))) t b)"
      using preindex_words(2) [OF assms(1-4)] by blast
    then show "\<exists>m'. acts {b} j m (EMIT (store_preindex sz b t (if r = 7 then 2 else 1)) j) m' \<and>
        m_mem m' = wr_be (m_mem m) (ucast (B - ea_step sz r)) (unat sz) (rdW m t) \<and> reg_is m' b (B - ea_step sz r)"
      using updating_store [OF w(2) assms(3-5) i, of "B - ea_step sz r" j] by simp
  }
qed

section \<open>Address register indirect\<close>

text \<open>The registers that updating modes change, and what is left of the register file.\<close>

definition ea_updates :: "u8 \<Rightarrow> u8 \<Rightarrow> u8 set" where
  "ea_updates mode r = (if mode = 3 \<or> mode = 4 then {host (r + 8)}
     else if mode = 7 \<and> (r = 2 \<or> r = 3) then {REG_PC} else {})"

lemma plus8_less: "r < 8 \<Longrightarrow> r + 8 < (16 :: u8)"
proof -
  assume "r < 8"
  then have "r \<in> {0, 1, 2, 3, 4, 5, 6, 7}" by (auto simp: word_less_nat_alt word_unat_eq_iff)
  then show ?thesis by auto
qed

lemma regs_after:
  assumes "m68k_regs m R" "acts (insert t (ea_updates mode r)) j m j' m'" "\<And>k. k < 16 \<Longrightarrow> host k \<noteq> t" "r < 8"
    "mode = 3 \<longrightarrow> reg_is m' (host (r + 8)) (R (r + 8) + step)" "mode = 4 \<longrightarrow> reg_is m' (host (r + 8)) (R (r + 8) - step)"
  shows "m68k_regs m' (ea_after mode r step R)"
  unfolding m68k_regs_def
proof (intro allI impI)
  fix k :: u8 assume k: "k < 16"
  show "reg_is m' (host k) (ea_after mode r step R k)"
  proof (cases "k = r + 8 \<and> (mode = 3 \<or> mode = 4)")
    case True
    with assms(5,6) show ?thesis by (auto simp: ea_after_def)
  next
    case False
    then have "host k \<notin> insert t (ea_updates mode r)"
      using assms(3) [OF k] host_inj [OF _ k plus8_less [OF assms(4)]] host_reg(4) [of k] by (auto simp: ea_updates_def)
    moreover have "ea_after mode r step R k = R k" using False by (auto simp: ea_after_def)
    ultimately show ?thesis using reg_is_keeps [OF assms(2)] host_reg(3) m68k_regsD(1) [OF assms(1) k] by simp
  qed
qed

lemma load_from_An_acts:
  assumes "sz \<in> {1, 2, 4}" "m68k_regs m R" "is_reg t" "t \<notin> arm_temps - live_temps j" "\<And>k. k < 16 \<Longrightarrow> host k \<noteq> t"
    "free_temps 4 j" "ea_memory mode r (\<lambda>i. code16 s (at p (e + i)))" "mode \<noteq> 7"
    "ea_fits mode r (\<lambda>i. code16 s (at p (e + i))) R pc (ea_step sz r)"
  shows "\<exists>m' j'. load_from_An sz sx t mode r e ro has_imm s p j = (t, 0, e + ea_words mode r, j') \<and>
    acts (insert t (ea_updates mode r)) j m j' m' \<and> m_mem m' = m_mem m \<and> live_temps j' = live_temps j \<and>
    reg_is m' t (loaded (unat sz) sx m (ucast (ea_address mode r (\<lambda>i. code16 s (at p (e + i))) R pc (ea_step sz r)))) \<and>
    m68k_regs m' (ea_after mode r (ea_step sz r) R)"
proof -
  let ?A = "host (r + 8)" and ?ext = "\<lambda>i. code16 s (at p (e + i))"
  have r: "r < 8" using assms(7) by (simp add: ea_memory_def)
  have A: "is_reg ?A" "t \<noteq> ?A" "reg_is m ?A (R (r + 8))" "base_ok j m ?A (R (r + 8))"
    using host_reg(1) assms(5) [OF plus8_less [OF r]] m68k_regsD(1) [OF assms(2) plus8_less [OF r]]
      host_base_ok [OF assms(2) plus8_less [OF r]] by auto
  have sz: "sz \<noteq> 0" using assms(1) by auto
  have f2: "free_temps 2 j" using assms(6) by (simp add: free_temps_def)
  let ?Q = "\<lambda>m' j'. acts (insert t (ea_updates mode r)) j m j' m' \<and> m_mem m' = m_mem m \<and> live_temps j' = live_temps j \<and>
      reg_is m' t (loaded (unat sz) sx m (ucast (ea_address mode r ?ext R pc (ea_step sz r)))) \<and>
      (mode = 3 \<longrightarrow> reg_is m' ?A (R (r + 8) + ea_step sz r)) \<and> (mode = 4 \<longrightarrow> reg_is m' ?A (R (r + 8) - ea_step sz r))"
  from assms(7,8) consider "mode = 2" | "mode = 3" | "mode = 4" | "mode = 5" | "mode = 6" "?ext 0 AND 0x0100 = 0"
    by (auto simp: ea_memory_def)
  then have "\<exists>m' j'. load_from_An sz sx t mode r e ro has_imm s p j = (t, 0, e + ea_words mode r, j') \<and> ?Q m' j'"
  proof cases
    case 1
    have "rdX m ?A = ucast (R (r + 8))" using A(3) by (simp add: reg_is_def)
    then show ?thesis using load_at_acts [OF assms(1,3) A(1), of j m sx] 1 sz
      by (auto simp: load_from_An_def Let_def ea_words_def ea_updates_def ea_address_def)
  next
    case 2
    have i: "in_range (R (r + 8)) (uint (ea_step sz r))" using assms(9) 2 by (simp add: ea_fits_def)
    then show ?thesis using updating_load_acts(1) [OF assms(1,3) A(1,2,3) i, of j sx] 2 sz
      by (auto simp: load_from_An_def Let_def ea_words_def ea_updates_def ea_address_def RA_SetDirtyM68kRegister_def)
  next
    case 3
    have i: "in_range (R (r + 8)) (- uint (ea_step sz r))" using assms(9) 3 by (simp add: ea_fits_def)
    then show ?thesis using updating_load_acts(2) [OF assms(1,3) A(1,2,3) i, of j sx] 3 sz
      by (auto simp: load_from_An_def Let_def ea_words_def ea_updates_def ea_address_def RA_SetDirtyM68kRegister_def)
  next
    case 4
    let ?d = "sint (code16 s (at p e))"
    have d: "-32768 \<le> ?d" "?d < 32768" using sint_greater_eq [of "code16 s (at p e)"] sint_lt [of "code16 s (at p e)"] by simp_all
    then have w: "False \<or> (-32768 \<le> ?d \<and> ?d < 32768)" by simp
    have i: "in_range (R (r + 8)) ?d" using assms(9) 4 by (simp add: ea_fits_def)
    have c: "(word_of_int ?d :: u32) = scast (code16 s (at p e))" by (rule scast_eq [symmetric])
    have l: "load_from_An sz sx t mode r e ro has_imm s p j =
        (t, 0, e + ea_words mode r, load_reg_from_addr_offset sz ?A t ?d False sx j)"
      using 4 sz by (simp add: load_from_An_def Let_def ea_words_def)
    show ?thesis
      using load_reg_from_addr_offset_acts [OF assms(1) A(4) assms(3,4) f2 w i, of sx] 4
      unfolding l c by (auto simp: ea_updates_def ea_address_def)
  next
    case 5
    then have b: "code16 s (at p e) AND 0x0100 = 0" by simp
    have l: "load_from_An sz sx t mode r e ro has_imm s p j =
        (t, 0, e + ea_words mode r, brief_load sz t ?A (code16 s (at p e)) sx j)"
      using 5(1) by (simp add: load_from_An_def Let_def b ea_words_def)
    show ?thesis
      using brief_load_acts [OF assms(1,2,3,6) plus8_less [OF r], of "code16 s (at p e)" sx] 5(1)
      unfolding l by (auto simp: ea_updates_def ea_address_def)
  qed
  then obtain m' j' where q: "load_from_An sz sx t mode r e ro has_imm s p j = (t, 0, e + ea_words mode r, j')" "?Q m' j'" by blast
  moreover have "m68k_regs m' (ea_after mode r (ea_step sz r) R)"
    by (rule regs_after [OF assms(2) _ assms(5) r]) (use q(2) in blast)+
  ultimately show ?thesis by blast
qed

section \<open>Absolute and program counter modes\<close>

lemma load_s16_acts:
  "is_reg r \<Longrightarrow> \<exists>m'. acts {r} j m (load_s16_ext32 r v j) m' \<and> reg_is m' r (scast v) \<and> m_mem m' = m_mem m"
proof -
  assume r: "is_reg r"
  have b: "v AND 0x8000 \<noteq> 0 \<longleftrightarrow> bit v 15" using bit_test [of v 15] by simp
  have n: "NOT (ucast (NOT v)) = (scast v :: u32)" if "bit v 15"
  proof (rule bit_word_eqI)
    fix k assume "k < LENGTH(32)"
    then show "bit (NOT (ucast (NOT v)) :: u32) k = bit (scast v :: u32) k"
      using that by (cases "k = 15") (auto simp: bit_simps min_def)
  qed
  have p: "ucast v = (scast v :: u32)" if "\<not> bit v 15"
  proof (rule bit_word_eqI)
    fix k assume "k < LENGTH(32)"
    then show "bit (ucast v :: u32) k = bit (scast v :: u32) k"
      using that bit_imp_le_length [of v k] by (cases "k = 15") (auto simp: bit_simps min_def not_le)
  qed
  show ?thesis
    using mov_u16_acts(1) [OF r, of j m v] mov_u16_acts(2) [OF r, of j m "NOT v"] n p
    unfolding load_s16_ext32_def b by (cases "bit v 15") simp_all
qed

lemma live_s16 [simp]: "live_temps (load_s16_ext32 r v j) = live_temps j"
  by (simp add: load_s16_ext32_def)

text \<open>A temporary for an address that is set up first.\<close>

lemma with_address:
  assumes "free_temps (Suc n) j"
  obtains r j1 where "alloc_result j r j1" "free_temps n j1" "is_reg r" "r \<noteq> 0xff" "r \<in> live_temps j1"
    "\<And>T m j3 m3. acts (insert r T) j1 m j3 m3 \<Longrightarrow> live_temps j3 = live_temps j1 \<Longrightarrow>
      acts T j m (RA_FreeARMRegister r j3) m3 \<and> live_temps (RA_FreeARMRegister r j3) = live_temps j"
proof -
  obtain r j1 where a: "alloc_result j r j1" "free_temps n j1" by (rule free_temps_alloc [OF assms])
  note ra = alloc_reg [OF a(1)]
  have "acts T j m (RA_FreeARMRegister r j3) m3 \<and> live_temps (RA_FreeARMRegister r j3) = live_temps j"
    if "acts (insert r T) j1 m j3 m3" "live_temps j3 = live_temps j1" for T m j3 m3
    using acts_temp [OF a(1) that(1)] that(2) ra(2,4,6) live_Free [of r j3] by auto
  note rest = this
  show thesis by (rule that [OF a ra(1,3) _ rest]) (use ra(6) in auto)
qed

lemma load_absolute_acts:
  assumes "sz \<in> {1, 2, 4}" "is_reg t" "t \<notin> arm_temps - live_temps j" "free_temps 3 j" "r = 0 \<or> r = 1"
  shows "\<exists>m' j'. load_from_special sz sx t r e ro has_imm s p j = (t, 0, e + ea_words 7 r, j') \<and>
    acts {t} j m j' m' \<and> m_mem m' = m_mem m \<and> live_temps j' = live_temps j \<and>
    reg_is m' t (loaded (unat sz) sx m (ucast (ea_address 7 r (\<lambda>i. code16 s (at p (e + i))) R pc step)))"
proof -
  have sz: "sz \<noteq> 0" using assms(1) by auto
  have f: "free_temps (Suc 2) j" using assms(4) by (simp add: numeral_eq_Suc)
  obtain x j1 where x: "alloc_result j x j1" "free_temps 2 j1" "is_reg x" "x \<noteq> 0xff" "x \<in> live_temps j1"
    and rest: "\<And>T m j3 m3. acts (insert x T) j1 m j3 m3 \<Longrightarrow> live_temps j3 = live_temps j1 \<Longrightarrow>
      acts T j m (RA_FreeARMRegister x j3) m3 \<and> live_temps (RA_FreeARMRegister x j3) = live_temps j"
    by (rule with_address [OF f]) blast
  have al: "RA_AllocARMRegister j = (x, j1)" using alloc_reg(5) [OF x(1)] .
  have tx: "t \<notin> arm_temps - live_temps j1" using assms(3) alloc_reg(6) [OF x(1)] by auto
  show ?thesis
  proof (cases "r = 0")
    case True
    let ?v = "scast (code16 s (at p e)) :: u32" and ?j = "load_s16_ext32 x (code16 s (at p e)) j1"
    let ?j' = "load_reg_from_addr_offset sz x t 0 False sx ?j"
    obtain m1 where m1: "acts {x} j1 m ?j m1" "reg_is m1 x ?v" "m_mem m1 = m_mem m"
      using load_s16_acts [OF x(3)] by blast
    have b: "base_ok ?j m1 x ?v" "in_range ?v 0" "free_temps 2 ?j" "t \<notin> arm_temps - live_temps ?j"
      "False \<or> (-32768 \<le> (0 :: int) \<and> 0 < (32768 :: int))"
      using x m1(2) tx unsigned_less [of ?v, where ?'a = int] by (simp_all add: base_ok_def in_range_def free_temps_def)
    obtain m2 where m2: "acts {t} ?j m1 ?j' m2" "reg_is m2 t (loaded (unat sz) sx m1 (ucast ?v))"
      "m_mem m2 = m_mem m1" "live_temps ?j' = live_temps ?j"
      using load_reg_from_addr_offset_acts [OF assms(1) b(1) assms(2) b(4,3,5,2), of sx] by auto
    have "acts (insert x {t}) j1 m ?j' m2"
      using acts_trans [OF acts_mono [OF m1(1)] acts_mono [OF m2(1)], of "{x, t}"] by simp
    from rest [OF this] m1(3) m2 True sz show ?thesis
      by (auto simp: load_from_special_def Let_def al ea_words_def ea_address_def loaded_def)
  next
    case False
    let ?v = "push_bit 16 (ucast (code16 s (at p e))) OR ucast (code16 s (at p (e + 1))) :: u32"
    let ?j = "EMIT_LoadImmediate x ?v j1"
    let ?j' = "EMIT (load_at sz sx x t) ?j"
    obtain m1 where m1: "acts {x} j1 m ?j m1" "reg_is m1 x ?v" "m_mem m1 = m_mem m"
      using load_number_acts [OF x(3)] by blast
    obtain m2 where m2: "acts {t} ?j m1 ?j' m2" "reg_is m2 t (loaded (unat sz) sx m1 (rdX m1 x))" "m_mem m2 = m_mem m1"
      using load_at_acts [OF assms(1,2) x(3)] by blast
    have "acts (insert x {t}) j1 m ?j' m2"
      using acts_trans [OF acts_mono [OF m1(1)] acts_mono [OF m2(1)], of "{x, t}"] by simp
    from rest [OF this] have "acts {t} j m (RA_FreeARMRegister x ?j') m2 \<and> live_temps (RA_FreeARMRegister x ?j') = live_temps j"
      by simp
    moreover have "load_from_special sz sx t r e ro has_imm s p j = (t, 0, e + ea_words 7 r, RA_FreeARMRegister x ?j')"
      using False assms(5) sz by (simp add: load_from_special_def Let_def al ea_words_def)
    ultimately show ?thesis using m1(2,3) m2(2,3) False assms(5)
      by (auto simp: ea_address_def loaded_def reg_is_def)
  qed
qed

text \<open>What asking for an offset leaves to work with.\<close>

lemma sint_small: "e < 60 \<Longrightarrow> sint (of_nat (2 + 2 * e) :: u8) = 2 + 2 * int e"
proof -
  assume "e < 60"
  have "(of_nat (2 + 2 * e) :: u8) = word_of_int (2 + 2 * int e)" by simp
  then show ?thesis using \<open>e < 60\<close> by (simp add: sint_sbintrunc' signed_take_bit_int_eq_self del: of_int_add of_nat_add)
qed

lemma offset_acts:
  assumes "pc_ok j" "reg_is m REG_PC (rdW m REG_PC)" "e < 60"
  obtains off j1 m1 where "EMIT_GetOffsetPC (of_nat (2 + 2 * e)) j = (off, j1)" "acts {REG_PC} j m j1 m1"
    "m_mem m1 = m_mem m" "live_temps j1 = live_temps j" "pc_ok j1" "pc_view j1 m1 = pc_view j m"
    "reg_is m1 REG_PC (rdW m1 REG_PC)" "rdW m1 REG_PC + word_of_int (sint off) = pc_view j m + of_nat (2 + 2 * e)"
proof -
  obtain off j1 where g: "EMIT_GetOffsetPC (of_nat (2 + 2 * e)) j = (off, j1)" by fastforce
  note t = EMIT_GetOffsetPC_tracks [OF assms(1) g]
  obtain m1 where m1: "updates {REG_PC} j m j1 m1" "pc_view j1 m1 = pc_view j m"
    "rdW m1 REG_PC + scast off = pc_view j m + scast (of_nat (2 + 2 * e) :: u8)"
    "rdX m REG_PC = ucast (rdW m REG_PC) \<longrightarrow> rdX m1 REG_PC = ucast (rdW m1 REG_PC)"
    using t(1) [of m] by blast
  have "scast (of_nat (2 + 2 * e) :: u8) = (of_nat (2 + 2 * e) :: u32)"
    unfolding scast_eq sint_small [OF assms(3)] by simp
  with m1(3) have p: "rdW m1 REG_PC + word_of_int (sint off) = pc_view j m + of_nat (2 + 2 * e)"
    by (simp only: scast_eq)
  have u: "acts {REG_PC} j m j1 m1" "m_mem m1 = m_mem m" "live_temps j1 = live_temps j"
    using updates_acts [OF m1(1)] m1(1) by (simp_all add: updates_def)
  have h: "reg_is m1 REG_PC (rdW m1 REG_PC)" using m1(4) assms(2) by (simp add: reg_is_def)
  show thesis by (rule that [OF g u t(2) m1(2) h p])
qed

lemma in_range_moved:
  assumes "2 ^ 16 \<le> uint p" "uint p < 2 ^ 32 - 2 ^ 16" "b + word_of_int (sint (off :: u8)) = (p :: u32)"
    "-32768 \<le> d" "d < 32768"
  shows "in_range b (sint off + d)"
proof -
  have s: "-128 \<le> sint off" "sint off < 128" using sint_greater_eq [of off] sint_lt [of off] by simp_all
  have "b = p - word_of_int (sint off)" using assms(3) by (simp add: algebra_simps)
  also have "\<dots> = word_of_int (uint p - sint off)" by simp
  finally have "uint b = (uint p - sint off) mod 2 ^ 32" by (simp only: uint_word_of_int) simp
  also have "\<dots> = uint p - sint off" using assms(1,2) s by (intro mod_pos_pos_trivial) simp_all
  finally have "uint b = uint p - sint off" .
  then show ?thesis using assms(1,2,4,5) unfolding in_range_def by simp
qed

lemma pc_keeps:
  assumes "acts S j m j' m'" "REG_PC \<notin> S"
  shows "pc_view j' m' = pc_view j m" "pc_ok j' = pc_ok j" "reg_is m' REG_PC v = reg_is m REG_PC v" "rdW m' REG_PC = rdW m REG_PC"
proof -
  have "REG_PC \<notin> arm_temps" by (simp add: arm_temps_def REG_PC_def)
  then have x: "rdX m' REG_PC = rdX m REG_PC" using acts_keeps [OF assms] by simp
  moreover have "pc_rel j' = pc_rel j" using assms by (simp add: acts_def)
  ultimately show "pc_view j' m' = pc_view j m" "pc_ok j' = pc_ok j" "reg_is m' REG_PC v = reg_is m REG_PC v" "rdW m' REG_PC = rdW m REG_PC"
    by (simp_all add: pc_view_def pc_ok_def reg_is_def rdW_def)
qed

text \<open>The brief form: base, index and access, with the temporaries of both.\<close>

lemma brief_base_PC_acts:
  assumes "pc_ok j" "reg_is m REG_PC (rdW m REG_PC)" "e < 60" "free_temps (Suc n) j"
  obtains x j' m' where "brief_base_PC (of_nat (2 + 2 * e)) ext j = (x, j')" "free_temps n j'" "acts {REG_PC} j m j' m'"
    "base_ok j' m' x (pc_view j m + of_nat (2 + 2 * e) + scast (ucast ext :: u8))" "m_mem m' = m_mem m"
    "pc_ok j'" "pc_view j' m' = pc_view j m" "reg_is m' REG_PC (rdW m' REG_PC)"
    "\<And>T j3 m3. acts T j m j3 m3 \<Longrightarrow> live_temps j3 = live_temps j' \<Longrightarrow>
      acts T j m (RA_FreeARMRegister x j3) m3 \<and> live_temps (RA_FreeARMRegister x j3) = live_temps j"
proof -
  obtain x j1 where a: "alloc_result j x j1" "free_temps n j1" by (rule free_temps_alloc [OF assms(4)])
  note ra = alloc_reg [OF a(1)]
  have v1: "pc_view j1 m = pc_view j m" "pc_ok j1"
    using a(1) assms(1) by (simp_all add: alloc_result_def pc_view_def pc_ok_def)
  obtain off j2 m2 where g: "EMIT_GetOffsetPC (of_nat (2 + 2 * e)) j1 = (off, j2)" "acts {REG_PC} j1 m j2 m2"
    "m_mem m2 = m_mem m" "live_temps j2 = live_temps j1" "pc_ok j2" "pc_view j2 m2 = pc_view j1 m"
    "reg_is m2 REG_PC (rdW m2 REG_PC)" "rdW m2 REG_PC + word_of_int (sint off) = pc_view j1 m + of_nat (2 + 2 * e)"
    by (rule offset_acts [OF v1(2) assms(2,3)]) blast
  define d where "d = sint off + sint (ucast ext :: u8)"
  have d: "-4096 < d" "d < 4096"
    using sint_greater_eq [of off] sint_lt [of off] sint_greater_eq [of "ucast ext :: u8"] sint_lt [of "ucast ext :: u8"]
    by (simp_all add: d_def)
  let ?j = "if 0 \<le> d then EMIT [add_immed x REG_PC (word_of_int d)] j2 else EMIT [sub_immed x REG_PC (word_of_int (- d))] j2"
  obtain m3 where m3: "acts {x} j2 m2 ?j m3" "reg_is m3 x (rdW m2 REG_PC + word_of_int d)" "m_mem m3 = m_mem m2"
    using signed_immed_acts [OF ra(1) REG_PC_reg(1) d] by blast
  have xp: "REG_PC \<notin> {x}" using ra(4) by (auto simp: arm_temps_def REG_PC_def)
  note k = pc_keeps [OF m3(1) xp]
  have "rdW m2 REG_PC + word_of_int d = pc_view j m + of_nat (2 + 2 * e) + scast (ucast ext :: u8)"
  proof -
    have "(word_of_int d :: u32) = word_of_int (sint off) + word_of_int (sint (ucast ext :: u8))" by (simp add: d_def)
    then show ?thesis using g(8) v1(1) by (simp only: scast_eq add.assoc [symmetric])
  qed
  then have b: "base_ok ?j m3 x (pc_view j m + of_nat (2 + 2 * e) + scast (ucast ext :: u8))"
    using m3(2) ra(1,3) g(4) ra(6) by (simp only: base_ok_def) simp
  have ac: "acts {REG_PC} j m ?j m3"
    by (rule acts_alloc [OF a(1)])
      (use acts_trans [OF acts_mono [OF g(2)] acts_mono [OF m3(1)], of "{x, REG_PC}"] in simp)
  have f: "free_temps n ?j" using a(2) g(4) by (simp add: free_temps_def)
  have e: "brief_base_PC (of_nat (2 + 2 * e)) ext j = (x, ?j)"
    by (simp only: brief_base_PC_def ra(5) g(1) prod.case Let_def d_def)
  have lj: "live_temps ?j = insert x (live_temps j)" using g(4) ra(6) by simp
  have rest: "acts T j m (RA_FreeARMRegister x j3) m3 \<and> live_temps (RA_FreeARMRegister x j3) = live_temps j"
    if "acts T j m j3 m3" "live_temps j3 = live_temps ?j" for T j3 m3
    using acts_Free [OF that(1) ra(2)] that(2) lj ra(2,4) live_Free [of x j3] by auto
  show thesis
    by (rule that [OF e f ac b _ _ _ _ rest]) (use m3(3) g(3,5,6,7) k v1 in \<open>simp_all only:\<close>)
qed

lemma brief_load_PC_acts:
  assumes "sz \<in> {1, 2, 4}" "m68k_regs m R" "is_reg t" "t \<noteq> REG_PC" "free_temps 4 j" "e < 60"
    "pc_ok j" "reg_is m REG_PC (rdW m REG_PC)"
  shows "\<exists>m'. acts {REG_PC, t} j m (brief_load_PC sz t ext (e + 1) sx j) m' \<and> m_mem m' = m_mem m \<and>
    live_temps (brief_load_PC sz t ext (e + 1) sx j) = live_temps j \<and>
    reg_is m' t (loaded (unat sz) sx m (ucast (pc_view j m + of_nat (2 + 2 * e) + brief_value ext R))) \<and>
    pc_ok (brief_load_PC sz t ext (e + 1) sx j) \<and> pc_view (brief_load_PC sz t ext (e + 1) sx j) m' = pc_view j m \<and>
    reg_is m' REG_PC (rdW m' REG_PC)"
proof -
  have f: "free_temps (Suc 3) j" using assms(5) by (simp add: numeral_eq_Suc)
  obtain b j1 m1 where b: "brief_base_PC (of_nat (2 + 2 * e)) ext j = (b, j1)" "free_temps 3 j1" "acts {REG_PC} j m j1 m1"
    "base_ok j1 m1 b (pc_view j m + of_nat (2 + 2 * e) + scast (ucast ext :: u8))" "m_mem m1 = m_mem m"
    "pc_ok j1" "pc_view j1 m1 = pc_view j m" "reg_is m1 REG_PC (rdW m1 REG_PC)"
    and rest1: "\<And>T j3 m3. acts T j m j3 m3 \<Longrightarrow> live_temps j3 = live_temps j1 \<Longrightarrow>
      acts T j m (RA_FreeARMRegister b j3) m3 \<and> live_temps (RA_FreeARMRegister b j3) = live_temps j"
    by (rule brief_base_PC_acts [OF assms(7,8,6) f]) blast
  have f2: "free_temps 1 j1" "free_temps (Suc 2) j1" using b(2) by (simp_all add: free_temps_def numeral_eq_Suc)
  have R1: "m68k_regs m1 R" using m68k_regs_acts [OF b(3) assms(2)] host_reg(4) by simp
  obtain x j2 m2 where x: "index_register ext j1 = (x, j2)" "acts {} j1 m1 j2 m2" "base_ok j2 m2 x (index_value ext R)"
    "m_mem m2 = m_mem m1" "live_temps j2 \<subseteq> insert x (live_temps j1)"
    and rest2: "\<And>T j3 m3. acts T j1 m1 j3 m3 \<Longrightarrow> live_temps j3 = live_temps j2 \<Longrightarrow>
      acts T j1 m1 (RA_FreeARMRegister x j3) m3 \<and> live_temps (RA_FreeARMRegister x j3) = live_temps j1"
    by (rule index_register_acts [OF R1 f2(1)]) blast
  have f3: "free_temps 2 j2" by (rule free_temps_insert [OF f2(2) x(5)])
  have b2: "base_ok j2 m2 b (pc_view j m + of_nat (2 + 2 * e) + scast (ucast ext :: u8))" using base_ok_acts [OF x(2) b(4)] by simp
  let ?j3 = "load_reg_from_addr sz b t x (index_scale ext) sx j2"
  obtain m3 where m3: "acts {t} j2 m2 ?j3 m3"
    "reg_is m3 t (loaded (unat sz) sx m2 (ucast (pc_view j m + of_nat (2 + 2 * e) + scast (ucast ext :: u8) +
      push_bit (unat (index_scale ext)) (index_value ext R))))"
    "m_mem m3 = m_mem m2" "live_temps ?j3 = live_temps j2"
    using load_reg_from_addr_acts [OF assms(1) b2 x(3) assms(3) index_scale_less(1) f3] by blast
  have t1: "acts {t} j1 m1 ?j3 m3" using acts_trans [OF acts_mono [OF x(2)] m3(1)] by simp
  note 1 = rest2 [OF t1 m3(4)]
  have "acts {REG_PC, t} j m (RA_FreeARMRegister x ?j3) m3"
    using acts_trans [OF acts_mono [OF b(3)] acts_mono [OF conjunct1 [OF 1]], of "{REG_PC, t}"] by simp
  note 2 = rest1 [OF this conjunct2 [OF 1]]
  have "REG_PC \<notin> {t}" using assms(4) by simp
  note k = pc_keeps [OF t1 this]
  let ?j = "RA_FreeARMRegister b (RA_FreeARMRegister x ?j3)"
  have e: "brief_load_PC sz t ext (e + 1) sx j = ?j"
    using b(1) by (simp add: brief_load_PC_def x(1) Free_commute [of x b])
  have p: "pc_rel ?j = pc_rel ?j3" by simp
  then have "pc_ok ?j = pc_ok ?j3" "pc_view ?j m3 = pc_view ?j3 m3" by (simp_all add: pc_ok_def pc_view_def)
  with 2 m3(2,3) b(5,6,7,8) x(4) k show ?thesis
    unfolding e by (intro exI [of _ m3]) (simp add: brief_value_def index_scale_less(2) loaded_def add.assoc)
qed

lemma load_PC_acts:
  assumes "sz \<in> {1, 2, 4}" "m68k_regs m R" "is_reg t" "t \<notin> arm_temps - live_temps j" "t \<noteq> REG_PC" "free_temps 4 j"
    "ea_memory 7 r (\<lambda>i. code16 s (at p (e + i)))" "r = 2 \<or> r = 3" "e < 60" "pc_ok j" "reg_is m REG_PC (rdW m REG_PC)"
    "pc = pc_view j m + of_nat (2 + 2 * e)" "ea_fits 7 r (\<lambda>i. code16 s (at p (e + i))) R pc step"
    "ro \<longrightarrow> has_imm \<longrightarrow> sz \<noteq> 0"
  shows "\<exists>m' j'. load_from_special sz sx t r e ro has_imm s p j = (t, 0, e + ea_words 7 r, j') \<and>
    acts {REG_PC, t} j m j' m' \<and> m_mem m' = m_mem m \<and> live_temps j' = live_temps j \<and>
    reg_is m' t (loaded (unat sz) sx m (ucast (ea_address 7 r (\<lambda>i. code16 s (at p (e + i))) R pc step))) \<and>
    pc_ok j' \<and> pc_view j' m' = pc_view j m \<and> reg_is m' REG_PC (rdW m' REG_PC)"
proof (cases "r = 2")
  case True
  have sz: "sz \<noteq> 0" using assms(1) by auto
  obtain off j1 m1 where g: "EMIT_GetOffsetPC (of_nat (2 + 2 * e)) j = (off, j1)" "acts {REG_PC} j m j1 m1"
    "m_mem m1 = m_mem m" "live_temps j1 = live_temps j" "pc_ok j1" "pc_view j1 m1 = pc_view j m"
    "reg_is m1 REG_PC (rdW m1 REG_PC)" "rdW m1 REG_PC + word_of_int (sint off) = pc_view j m + of_nat (2 + 2 * e)"
    by (rule offset_acts [OF assms(10,11,9)]) blast
  let ?w = "code16 s (at p e)"
  let ?d = "sint off + sint ?w"
  have d: "-32768 \<le> sint ?w" "sint ?w < 32768" using sint_greater_eq [of ?w] sint_lt [of ?w] by simp_all
  have pc: "2 ^ 16 \<le> uint pc" "uint pc < 2 ^ 32 - 2 ^ 16" using assms(13) True by (simp_all add: ea_fits_def)
  have b: "rdW m1 REG_PC + word_of_int (sint off) = pc" using g(8) assms(12) by simp
  have i: "in_range (rdW m1 REG_PC) ?d" by (rule in_range_moved [OF pc b d])
  have bo: "base_ok j1 m1 REG_PC (rdW m1 REG_PC)"
    using g(7) REG_PC_reg(1) by (simp add: base_ok_def arm_temps_def) (simp add: REG_PC_def)
  have f: "free_temps 2 j1" "t \<notin> arm_temps - live_temps j1" using assms(4,6) g(4) by (simp_all add: free_temps_def)
  let ?j = "load_reg_from_addr_offset sz REG_PC t ?d True sx j1"
  obtain m2 where m2: "acts {t} j1 m1 ?j m2" "m_mem m2 = m_mem m1" "live_temps ?j = live_temps j1"
    "reg_is m2 t (loaded (unat sz) sx m1 (ucast (rdW m1 REG_PC + word_of_int ?d)))"
    using load_reg_from_addr_offset_acts [OF assms(1) bo assms(3) f(2,1) _ i, of True sx] by blast
  have "REG_PC \<notin> {t}" using assms(5) by simp
  note k = pc_keeps [OF m2(1) this]
  have q: "rdW m1 REG_PC + word_of_int ?d = pc + scast ?w"
  proof -
    have "(word_of_int ?d :: u32) = word_of_int (sint off) + word_of_int (sint ?w)" by simp
    then show ?thesis using b by (simp only: scast_eq add.assoc [symmetric])
  qed
  have h: "reg_is m2 t (loaded (unat sz) sx m (ucast (pc + scast ?w)))"
    using m2(4) g(3) unfolding q by (simp add: loaded_def)
  have ac: "acts {REG_PC, t} j m ?j m2"
    using acts_trans [OF acts_mono [OF g(2)] acts_mono [OF m2(1)], of "{REG_PC, t}"] by simp
  have e: "load_from_special sz sx t r e ro has_imm s p j = (t, 0, e + ea_words 7 r, ?j)"
    using True assms(14) sz g(1) by (auto simp: load_from_special_def Let_def ea_words_def)
  show ?thesis unfolding e
    by (intro exI [of _ m2] exI [of _ ?j]) (use ac h m2(2,3) g(3,4,5,6,7) k True in \<open>simp add: ea_address_def\<close>)
next
  case False
  then have r: "r = 3" "code16 s (at p e) AND 0x0100 = 0" using assms(7,8) by (auto simp: ea_memory_def)
  have e: "load_from_special sz sx t r e ro has_imm s p j =
      (t, 0, e + ea_words 7 r, brief_load_PC sz t (code16 s (at p e)) (e + 1) sx j)"
    by (simp add: load_from_special_def Let_def ea_words_def r)
  show ?thesis
    using brief_load_PC_acts [OF assms(1,2,3,5,6,9,10,11), of "code16 s (at p e)" sx]
    unfolding e using r(1) assms(12) by (auto simp: ea_address_def)
qed

section \<open>Loads\<close>

text \<open>
  The state of the emulated processor between two emitters: sixteen 32-bit registers \<open>R\<close> in
  their host registers, and the program counter, as far as the register and the distance
  kept by the translator say, at \<open>pc\<close>.
\<close>

definition cpu :: "jit \<Rightarrow> mstate \<Rightarrow> (u8 \<Rightarrow> u32) \<Rightarrow> u32 \<Rightarrow> bool" where
  "cpu j m R pc \<longleftrightarrow> m68k_regs m R \<and> reg_is m REG_PC (rdW m REG_PC) \<and> pc_ok j \<and> pc_view j m = pc"

text \<open>The fields of an effective address byte, and of a size byte with the flag for sign extension.\<close>

lemma ea_fields:
  assumes "mode < 8" "r < 8"
  shows "drop_bit 3 (push_bit 3 mode OR r) = mode" "(push_bit 3 mode OR r) AND 7 = (r :: u8)"
proof -
  have m: "(7 :: u8) = mask 3" "(8 :: u8) = 2 ^ 3" by (simp_all add: mask_eq_exp_minus_1)
  have t: "take_bit 3 mode = mode" "take_bit 3 r = r"
    using less_mask_eq [of mode 3] less_mask_eq [of r 3] assms unfolding m(2) by (simp_all add: take_bit_eq_mask)
  have bm: "bit mode k \<Longrightarrow> k < 3" "bit r k \<Longrightarrow> k < 3" for k using t by (metis bit_take_bit_iff)+
  show "drop_bit 3 (push_bit 3 mode OR r) = mode"
    by (rule bit_word_eqI) (use bm in \<open>fastforce simp: bit_simps\<close>)
  show "(push_bit 3 mode OR r) AND 7 = r"
    unfolding m by (rule bit_word_eqI) (use bm in \<open>fastforce simp: bit_simps\<close>)
qed

lemma size_fields:
  assumes "sz \<in> {1, 2, 4 :: u8}"
  shows "(if sx then sz OR 0x80 else sz) AND 0x80 \<noteq> 0 \<longleftrightarrow> sx" "(if sx then sz OR 0x80 else sz) AND 0x7f = sz"
  using assms by (cases sx; auto)+

lemma ea_memory_bounds: "ea_memory mode r ext \<Longrightarrow> mode < 8" "ea_memory mode r ext \<Longrightarrow> r < 8"
  "ea_memory mode r ext \<Longrightarrow> mode \<noteq> 0" "ea_memory mode r ext \<Longrightarrow> mode \<noteq> 1" "ea_memory mode r ext \<Longrightarrow> mode = 7 \<or> mode < 7"
  by (auto simp: ea_memory_def)

lemma temp_regs: "t \<in> arm_temps \<Longrightarrow> host k \<noteq> t" "t \<in> arm_temps \<Longrightarrow> t \<noteq> REG_PC"
  using host_reg(3) by (auto simp: arm_temps_def REG_PC_def)

lemma load_memory_operand:
  assumes "cpu j m R pc" "free_temps 5 j" "sz \<in> {1, 2, 4}" "e < 60"
    "ea_memory mode r (\<lambda>i. code16 s (at p (e + i)))"
    "ea_fits mode r (\<lambda>i. code16 s (at p (e + i))) R (pc + of_nat (2 + 2 * e)) (ea_step sz r)"
  shows "\<exists>t j' m'. EMIT_LoadFromEffectiveAddress (if sx then sz OR 0x80 else sz) 0xff (push_bit 3 mode OR r) e ro has_imm s p j =
      (t, 0, e + ea_words mode r, j') \<and>
    acts (ea_updates mode r) j m j' m' \<and> m_mem m' = m_mem m \<and>
    t \<in> arm_temps - live_temps j \<and> live_temps j' = insert t (live_temps j) \<and>
    reg_is m' t (loaded (unat sz) sx m
      (ucast (ea_address mode r (\<lambda>i. code16 s (at p (e + i))) R (pc + of_nat (2 + 2 * e)) (ea_step sz r)))) \<and>
    cpu j' m' (ea_after mode r (ea_step sz r) R) pc"
proof -
  let ?ext = "\<lambda>i. code16 s (at p (e + i))" and ?pc = "pc + of_nat (2 + 2 * e)"
  let ?A = "ea_address mode r ?ext R ?pc (ea_step sz r)"
  note mb = ea_memory_bounds [OF assms(5)]
  note c = assms(1) [unfolded cpu_def]
  have sz: "sz \<noteq> 0" using assms(3) by auto
  have f: "free_temps (Suc 4) j" using assms(2) by (simp add: numeral_eq_Suc)
  obtain t j1 where a: "alloc_result j t j1" "free_temps 4 j1" by (rule free_temps_alloc [OF f])
  note ra = alloc_reg [OF a(1)]
  have t: "t \<in> arm_temps" "t \<notin> arm_temps - live_temps j1" using ra(4,6) by auto
  note tr = temp_regs [OF t(1)]
  have v1: "pc_view j1 m = pc" "pc_ok j1"
    using a(1) c by (simp_all add: alloc_result_def pc_view_def pc_ok_def)
  have f3: "free_temps 3 j1" using a(2) by (simp add: free_temps_def)
  define load where "load = (if mode < 7 then load_from_An sz sx t mode r e ro has_imm s p j1
    else load_from_special sz sx t r e ro has_imm s p j1)"
  have e: "EMIT_LoadFromEffectiveAddress (if sx then sz OR 0x80 else sz) 0xff (push_bit 3 mode OR r) e ro has_imm s p j = load"
    unfolding EMIT_LoadFromEffectiveAddress_def Let_def ea_fields [OF mb(1,2)] size_fields [OF assms(3)]
    using mb(3,4,5) by (auto simp: ra(5) load_def)
  have "\<exists>m' j'. load = (t, 0, e + ea_words mode r, j') \<and> acts (insert t (ea_updates mode r)) j1 m j' m' \<and>
      m_mem m' = m_mem m \<and> live_temps j' = live_temps j1 \<and> reg_is m' t (loaded (unat sz) sx m (ucast ?A)) \<and>
      m68k_regs m' (ea_after mode r (ea_step sz r) R) \<and> pc_ok j' \<and> pc_view j' m' = pc \<and> reg_is m' REG_PC (rdW m' REG_PC)"
  proof (cases "mode = 7")
    case False
    then have m7: "mode < 7" using mb(5) by simp
    have up: "REG_PC \<notin> insert t (ea_updates mode r)" using tr(2) host_reg(4) [of "r + 8"] False by (auto simp: ea_updates_def)
    obtain m' j' where q: "load = (t, 0, e + ea_words mode r, j')" "acts (insert t (ea_updates mode r)) j1 m j' m'"
      "m_mem m' = m_mem m" "live_temps j' = live_temps j1" "reg_is m' t (loaded (unat sz) sx m (ucast ?A))"
      "m68k_regs m' (ea_after mode r (ea_step sz r) R)"
      using load_from_An_acts [OF assms(3) conjunct1 [OF c] ra(1) t(2) tr(1) a(2) assms(5) False assms(6), of sx ro has_imm] m7
      unfolding load_def by auto
    have "pc_ok j'" "pc_view j' m' = pc" "reg_is m' REG_PC (rdW m' REG_PC)"
      using pc_keeps [OF q(2) up] v1 c by simp_all
    with q show ?thesis by blast
  next
    case 7: True
    then have l: "load = load_from_special sz sx t r e ro has_imm s p j1" by (simp add: load_def)
    have af: "ea_after mode r (ea_step sz r) R = R" using 7 by (simp add: ea_after_def)
    show ?thesis
    proof (cases "r = 0 \<or> r = 1")
      case True
      then have up: "ea_updates mode r = {}" using 7 by (auto simp: ea_updates_def)
      have pt: "REG_PC \<notin> {t}" using tr(2) by simp
      obtain m' j' where q: "load = (t, 0, e + ea_words 7 r, j')" "acts {t} j1 m j' m'" "m_mem m' = m_mem m"
        "live_temps j' = live_temps j1" "reg_is m' t (loaded (unat sz) sx m (ucast ?A))"
        using load_absolute_acts [OF assms(3) ra(1) t(2) f3 True, of sx e ro has_imm s p m R ?pc "ea_step sz r"] l 7 by blast
      have "m68k_regs m' R" by (rule m68k_regs_acts [OF q(2)]) (use c tr(1) in auto)
      moreover have "pc_ok j'" "pc_view j' m' = pc" "reg_is m' REG_PC (rdW m' REG_PC)"
        using pc_keeps [OF q(2) pt] v1 c by simp_all
      moreover have "load = (t, 0, e + ea_words mode r, j')" using q(1) 7 by simp
      ultimately show ?thesis using q(2-5) unfolding af up by blast
    next
      case False
      then have r: "r = 2 \<or> r = 3" using assms(5) 7 by (auto simp: ea_memory_def)
      have ro: "ro \<longrightarrow> has_imm \<longrightarrow> sz \<noteq> 0" using sz by simp
      have up: "insert t (ea_updates mode r) = {REG_PC, t}" using 7 r by (auto simp: ea_updates_def)
      have pcv: "?pc = pc_view j1 m + of_nat (2 + 2 * e)" by (simp only: v1)
      note lp = load_PC_acts [OF assms(3) conjunct1 [OF c] ra(1) t(2) tr(2) a(2) assms(5) [unfolded 7] r assms(4) v1(2) _
          pcv assms(6) [unfolded 7] ro, of sx]
      obtain m' j' where q: "load = (t, 0, e + ea_words 7 r, j')" "acts {REG_PC, t} j1 m j' m'" "m_mem m' = m_mem m"
        "live_temps j' = live_temps j1" "reg_is m' t (loaded (unat sz) sx m (ucast ?A))"
        "pc_ok j'" "pc_view j' m' = pc_view j1 m" "reg_is m' REG_PC (rdW m' REG_PC)"
        using lp c unfolding l [symmetric] 7 by blast
      have "m68k_regs m' R" by (rule m68k_regs_acts [OF q(2)]) (use c tr(1) host_reg(4) in auto)
      moreover have "pc_view j' m' = pc" using q(7) v1 by simp
      moreover have "load = (t, 0, e + ea_words mode r, j')" using q(1) 7 by simp
      ultimately show ?thesis using q(2-6,8) unfolding af up by blast
    qed
  qed
  then obtain m' j' where q: "load = (t, 0, e + ea_words mode r, j')" "acts (insert t (ea_updates mode r)) j1 m j' m'"
      "m_mem m' = m_mem m" "live_temps j' = live_temps j1" "reg_is m' t (loaded (unat sz) sx m (ucast ?A))"
      "m68k_regs m' (ea_after mode r (ea_step sz r) R)" "pc_ok j'" "pc_view j' m' = pc" "reg_is m' REG_PC (rdW m' REG_PC)" by blast
  have live: "live_temps j' = insert t (live_temps j)" using q(4) ra(6) by simp
  show ?thesis unfolding e cpu_def
    by (intro exI [of _ t] exI [of _ j'] exI [of _ m'] conjI)
      (rule q(1) q(3) q(5-9) acts_alloc [OF a(1) q(2)] ra(4) live)+
qed

text \<open>
  C12. Loading from a memory operand: the register returned is a fresh temporary that holds
  the operand at the address the addressing mode names, with the sign or zeros in the rest;
  the code changes no memory, no host flag and no other register than a free temporary, the
  address register the mode updates, which moves by the size of the operand (by 2 for a byte
  at the stack pointer), and \<open>REG_PC\<close>, which keeps the program counter; the extension
  words are counted; all other temporaries are given back.
\<close>

theorem EMIT_LoadFromEffectiveAddress_memory:
  assumes "cpu j m R pc" "free_temps 5 j" "sz \<in> {1, 2, 4}" "e < 60"
    "ea_memory mode r (\<lambda>i. code16 s (at p (e + i)))"
    "ea_fits mode r (\<lambda>i. code16 s (at p (e + i))) R (pc + of_nat (2 + 2 * e)) (ea_step sz r)"
  shows "\<exists>t j' m'. EMIT_LoadFromEffectiveAddress (if sx then sz OR 0x80 else sz) 0xff (push_bit 3 mode OR r) e ro has_imm s p j =
      (t, 0, e + ea_words mode r, j') \<and>
    acts (ea_updates mode r) j m j' m' \<and> m_mem m' = m_mem m \<and>
    t \<in> arm_temps - live_temps j \<and> live_temps j' = insert t (live_temps j) \<and>
    reg_is m' t (loaded (unat sz) sx m
      (ucast (ea_address mode r (\<lambda>i. code16 s (at p (e + i))) R (pc + of_nat (2 + 2 * e)) (ea_step sz r)))) \<and>
    cpu j' m' (ea_after mode r (ea_step sz r) R) pc"
  by (rule load_memory_operand [OF assms])

text \<open>A word load at a displacement of \<open>0xd041\<close> from an address register.\<close>

definition example_regs :: "u8 \<Rightarrow> u32" where
  "example_regs = (\<lambda>_. 0)(8 := 0x10000)"

definition example_machine :: mstate where
  "example_machine = m_reset\<lparr>m_x := (\<lambda>_. 0)(13 := 0x10000)\<rparr>"

lemma example_cpu: "cpu (jit_init 64) example_machine example_regs 0"
proof -
  have "list_all (\<lambda>k. reg_is example_machine (host k) (example_regs k)) (map of_nat [0..<16])" by code_simp
  then have "reg_is example_machine (host k) (example_regs k)" if "k < 16" for k
    using small_listed [OF that] unfolding list_all_iff by blast
  then show ?thesis
    by (simp add: cpu_def m68k_regs_def pc_ok_def pc_view_def jit_init_def reg_is_def rdW_def rdX_def example_machine_def
        m_reset_def REG_PC_def)
qed

lemma example_temps: "live_temps (jit_init k) = {}" "free_temps 5 (jit_init k)"
proof -
  show l: "live_temps (jit_init k) = {}" by (simp add: live_temps_def jit_init_def)
  have "{4, 5, 6, 7, 8} \<subseteq> arm_temps" by (simp add: arm_temps_def)
  then have "card {4, 5, 6, 7, 8 :: u8} \<le> card arm_temps" by (intro card_mono finite_arm_temps)
  then show "free_temps 5 (jit_init k)" by (simp add: free_temps_def l)
qed

theorem EMIT_LoadFromEffectiveAddress_memory_witness:
  "\<exists>t j' m'. EMIT_LoadFromEffectiveAddress 2 0xff 0x28 0 True False adds_sys 0x1000 (jit_init 64) = (t, 0, 1, j') \<and>
    run (tc_code j') example_machine = Some m' \<and> rdX m' t = ucast (rd_be (m_mem example_machine) 0xd041 2)"
proof -
  have x: "code16 adds_sys (at 0x1000 (0 + 0)) = 0xd041" by (simp add: adds_code at_def)
  have "\<exists>t j' m'. EMIT_LoadFromEffectiveAddress (if False then 2 OR 0x80 else 2) 0xff (push_bit 3 5 OR 0) 0 True False
        adds_sys 0x1000 (jit_init 64) = (t, 0, 0 + ea_words 5 0, j') \<and>
      acts (ea_updates 5 0) (jit_init 64) example_machine j' m' \<and> m_mem m' = m_mem example_machine \<and>
      t \<in> arm_temps - live_temps (jit_init 64) \<and> live_temps j' = insert t (live_temps (jit_init 64)) \<and>
      reg_is m' t (loaded (unat (2 :: u8)) False example_machine
        (ucast (ea_address 5 0 (\<lambda>i. code16 adds_sys (at 0x1000 (0 + i))) example_regs (0 + of_nat (2 + 2 * 0)) (ea_step 2 0)))) \<and>
      cpu j' m' (ea_after 5 0 (ea_step 2 0) example_regs) 0"
    by (rule EMIT_LoadFromEffectiveAddress_memory [OF example_cpu example_temps(2)])
      (use x in \<open>simp_all add: ea_memory_def ea_fits_def in_range_def example_regs_def\<close>)
  then obtain t j' m' where q: "EMIT_LoadFromEffectiveAddress 2 0xff 0x28 0 True False adds_sys 0x1000 (jit_init 64) = (t, 0, 1, j')"
    "acts (ea_updates 5 0) (jit_init 64) example_machine j' m'"
    "reg_is m' t (loaded 2 False example_machine (ucast (example_regs 8 + scast (0xd041 :: u16))))"
    using x by (auto simp: ea_words_def ea_address_def)
  moreover have "run (tc_code j') example_machine = Some m'"
    using q(2) by (auto simp: acts_def produces_def jit_init_def)
  moreover have "(ucast (example_regs 8 + scast (0xd041 :: u16)) :: u64) = 0xd041" by (simp add: example_regs_def) 
  ultimately show ?thesis by (auto simp: reg_is_def loaded_def extended_def)
qed

end
