(* ===== verification/EA_Operands.thy ===== *)
theory EA_Operands
  imports EA_Theorems
begin

text \<open>
  Stores to memory operands, and operands that are not in memory: registers and immediates.
\<close>

section \<open>Stores\<close>

lemma in_range_0: "in_range a 0"
  using unsigned_less [of a, where ?'a = int] by (simp add: in_range_def)

lemma store_to_An_acts:
  assumes "sz \<in> {1, 2, 4}" "m68k_regs m R" "is_reg t" "t \<notin> arm_temps - live_temps j"
    "mode = 3 \<or> mode = 4 \<longrightarrow> t \<noteq> host (r + 8)"
    "free_temps 4 j" "ea_memory mode r (\<lambda>i. code16 s (at p (e + i)))" "mode \<noteq> 7"
    "ea_fits mode r (\<lambda>i. code16 s (at p (e + i))) R pc (ea_step sz r)"
  shows "\<exists>m' j'. store_to_An sz sx t mode r e s p j = (t, e + ea_words mode r, j') \<and>
    acts (ea_updates mode r) j m j' m' \<and> live_temps j' = live_temps j \<and>
    m_mem m' = wr_be (m_mem m) (ucast (ea_address mode r (\<lambda>i. code16 s (at p (e + i))) R pc (ea_step sz r)))
      (unat sz) (rdW m t) \<and>
    m68k_regs m' (ea_after mode r (ea_step sz r) R)"
proof -
  let ?A = "host (r + 8)" and ?ext = "\<lambda>i. code16 s (at p (e + i))"
  have r: "r < 8" using assms(7) by (simp add: ea_memory_def)
  have A: "is_reg ?A" "reg_is m ?A (R (r + 8))" "base_ok j m ?A (R (r + 8))"
    using host_reg(1) m68k_regsD(1) [OF assms(2) plus8_less [OF r]] host_base_ok [OF assms(2) plus8_less [OF r]] by auto
  have sz: "sz \<noteq> 0" using assms(1) by auto
  have f2: "free_temps 2 j" using assms(6) by (simp add: free_temps_def)
  let ?Q = "\<lambda>m' j'. acts (ea_updates mode r) j m j' m' \<and> live_temps j' = live_temps j \<and>
      m_mem m' = wr_be (m_mem m) (ucast (ea_address mode r ?ext R pc (ea_step sz r))) (unat sz) (rdW m t) \<and>
      (mode = 3 \<longrightarrow> reg_is m' ?A (R (r + 8) + ea_step sz r)) \<and> (mode = 4 \<longrightarrow> reg_is m' ?A (R (r + 8) - ea_step sz r))"
  from assms(7,8) consider "mode = 2" | "mode = 3" | "mode = 4" | "mode = 5" | "mode = 6" "?ext 0 AND 0x0100 = 0"
    by (auto simp: ea_memory_def)
  then have "\<exists>m' j'. store_to_An sz sx t mode r e s p j = (t, e + ea_words mode r, j') \<and> ?Q m' j'"
  proof cases
    case 1
    have w: "False \<or> (-32768 \<le> (0 :: int) \<and> 0 < (32768 :: int))" by simp
    have l: "store_to_An sz sx t mode r e s p j = (t, e + ea_words mode r, store_reg_to_addr_offset sz ?A t 0 False j)"
      using 1 sz by (simp add: store_to_An_def Let_def ea_words_def)
    show ?thesis
      using store_reg_to_addr_offset_acts [OF assms(1) A(3) assms(3,4) f2 w in_range_0] 1
      unfolding l by (auto simp: ea_updates_def ea_address_def)
  next
    case 2
    have i: "in_range (R (r + 8)) (uint (ea_step sz r))" using assms(9) 2 by (simp add: ea_fits_def)
    have n: "t \<noteq> ?A" using assms(5) 2 by simp
    show ?thesis using updating_store_acts(1) [OF assms(1,3) A(1) n A(2) i, of j] 2 sz
      by (auto simp: store_to_An_def Let_def ea_words_def ea_updates_def ea_address_def RA_SetDirtyM68kRegister_def)
  next
    case 3
    have i: "in_range (R (r + 8)) (- uint (ea_step sz r))" using assms(9) 3 by (simp add: ea_fits_def)
    have n: "t \<noteq> ?A" using assms(5) 3 by simp
    show ?thesis using updating_store_acts(2) [OF assms(1,3) A(1) n A(2) i, of j] 3 sz
      by (auto simp: store_to_An_def Let_def ea_words_def ea_updates_def ea_address_def RA_SetDirtyM68kRegister_def)
  next
    case 4
    let ?d = "sint (code16 s (at p e))"
    have d: "-32768 \<le> ?d" "?d < 32768" using sint_greater_eq [of "code16 s (at p e)"] sint_lt [of "code16 s (at p e)"] by simp_all
    then have w: "False \<or> (-32768 \<le> ?d \<and> ?d < 32768)" by simp
    have i: "in_range (R (r + 8)) ?d" using assms(9) 4 by (simp add: ea_fits_def)
    have c: "(word_of_int ?d :: u32) = scast (code16 s (at p e))" by (rule scast_eq [symmetric])
    have l: "store_to_An sz sx t mode r e s p j = (t, e + ea_words mode r, store_reg_to_addr_offset sz ?A t ?d False j)"
      using 4 sz by (simp add: store_to_An_def Let_def ea_words_def)
    show ?thesis
      using store_reg_to_addr_offset_acts [OF assms(1) A(3) assms(3,4) f2 w i] 4
      unfolding l c by (auto simp: ea_updates_def ea_address_def)
  next
    case 5
    then have b: "code16 s (at p e) AND 0x0100 = 0" by simp
    have l: "store_to_An sz sx t mode r e s p j = (t, e + ea_words mode r, brief_store sz t ?A (code16 s (at p e)) j)"
      using 5(1) by (simp add: store_to_An_def Let_def b ea_words_def)
    show ?thesis
      using brief_store_acts [OF assms(1,2,3,6) plus8_less [OF r] assms(4), of "code16 s (at p e)"] 5(1)
      unfolding l by (auto simp: ea_updates_def ea_address_def)
  qed
  then obtain m' j' where q: "store_to_An sz sx t mode r e s p j = (t, e + ea_words mode r, j')" "?Q m' j'" by blast
  moreover have "m68k_regs m' (ea_after mode r (ea_step sz r) R)"
  proof -
    have "acts (insert 31 (ea_updates mode r)) j m j' m'" using q(2) acts_mono by blast
    then show ?thesis
      by (rule regs_after [OF assms(2) _ _ r]) (use q(2) host_reg(2) in blast)+
  qed
  ultimately show ?thesis by blast
qed

lemma store_absolute_acts:
  assumes "sz \<in> {1, 2, 4}" "is_reg t" "t \<notin> arm_temps - live_temps j" "free_temps 3 j" "r = 0 \<or> r = 1"
  shows "\<exists>m' j'. store_to_special sz t r e s p j = (t, e + ea_words 7 r, j') \<and>
    acts {} j m j' m' \<and> live_temps j' = live_temps j \<and>
    m_mem m' = wr_be (m_mem m) (ucast (ea_address 7 r (\<lambda>i. code16 s (at p (e + i))) R pc step)) (unat sz) (rdW m t)"
proof -
  have sz: "sz \<noteq> 0" using assms(1) by auto
  have f: "free_temps (Suc 2) j" using assms(4) by (simp add: numeral_eq_Suc)
  obtain x j1 where x: "alloc_result j x j1" "free_temps 2 j1" "is_reg x" "x \<noteq> 0xff" "x \<in> live_temps j1"
    and rest: "\<And>T m j3 m3. acts (insert x T) j1 m j3 m3 \<Longrightarrow> live_temps j3 = live_temps j1 \<Longrightarrow>
      acts T j m (RA_FreeARMRegister x j3) m3 \<and> live_temps (RA_FreeARMRegister x j3) = live_temps j"
    by (rule with_address [OF f]) blast
  have al: "RA_AllocARMRegister j = (x, j1)" using alloc_reg(5) [OF x(1)] .
  have tx: "t \<notin> arm_temps - live_temps j1" "t \<noteq> x"
    using assms(3) alloc_reg(4,6) [OF x(1)] by auto
  have store: "\<exists>m'. acts {} j m (RA_FreeARMRegister x (store_reg_to_addr sz x t 0xff 0 j2)) m' \<and>
      live_temps (RA_FreeARMRegister x (store_reg_to_addr sz x t 0xff 0 j2)) = live_temps j \<and>
      m_mem m' = wr_be (m_mem m) (ucast v) (unat sz) (rdW m t)"
    if s: "acts {x} j1 m j2 m1" "reg_is m1 x v" "m_mem m1 = m_mem m" "live_temps j2 = live_temps j1" for j2 m1 v
  proof -
    have b: "base_ok j2 m1 x v" "base_ok j2 m1 0xff 0" "free_temps 2 j2" "t \<notin> arm_temps - live_temps j2" "unat (0 :: u8) < 4"
      using x s tx(1) by (simp_all add: base_ok_def free_temps_def)
    have tv: "rdW m1 t = rdW m t" using acts_keeps [OF s(1), of t] tx by (simp add: rdW_def)
    let ?j = "store_reg_to_addr sz x t 0xff 0 j2"
    obtain m2 where m2: "acts {} j2 m1 ?j m2" "m_mem m2 = wr_be (m_mem m1) (ucast v) (unat sz) (rdW m1 t)"
      "live_temps ?j = live_temps j2"
      using store_reg_to_addr_acts [OF assms(1) b(1,2) assms(2) b(5,3,4)] by auto
    have "acts (insert x {}) j1 m ?j m2" by (rule acts_trans [OF s(1) acts_mono [OF m2(1)]]) simp
    from rest [OF this] m2(2,3) s(3,4) tv show ?thesis by auto
  qed
  show ?thesis
  proof (cases "r = 0")
    case True
    let ?v = "scast (code16 s (at p e)) :: u32" and ?j = "load_s16_ext32 x (code16 s (at p e)) j1"
    obtain m1 where "acts {x} j1 m ?j m1" "reg_is m1 x ?v" "m_mem m1 = m_mem m"
      using load_s16_acts [OF x(3)] by blast
    from store [OF this live_s16] True sz show ?thesis
      by (auto simp: store_to_special_def Let_def al ea_words_def ea_address_def)
  next
    case False
    let ?v = "push_bit 16 (ucast (code16 s (at p e))) OR ucast (code16 s (at p (e + 1))) :: u32"
    let ?j = "EMIT_LoadImmediate x ?v j1"
    obtain m1 where "acts {x} j1 m ?j m1" "reg_is m1 x ?v" "m_mem m1 = m_mem m"
      using load_number_acts [OF x(3)] by blast
    note st = store [OF this live_number]
    have "store_to_special sz t r e s p j =
        (t, e + ea_words 7 r, RA_FreeARMRegister x (store_reg_to_addr sz x t 0xff 0 ?j))"
      using False assms(5) sz by (simp add: store_to_special_def Let_def al ea_words_def)
    with st False assms(5) show ?thesis by (auto simp: ea_address_def)
  qed
qed

text \<open>
  C13. Storing a register to a memory operand (the alterable modes, those on the program
  counter are not among them): memory changes at the address of the addressing mode and
  nowhere else, where the low part of the register is written with the high byte first; no
  host flag and no register changes except free temporaries and the address register that
  an updating mode moves; the program counter and the count of extension words are kept, and
  all temporaries are given back. An updating mode needs another register to store than the
  one it updates.
\<close>

theorem EMIT_StoreToEffectiveAddress_memory:
  assumes "cpu j m R pc" "free_temps 4 j" "sz \<in> {1, 2, 4}" "is_reg t" "t \<notin> arm_temps - live_temps j"
    "mode = 3 \<or> mode = 4 \<longrightarrow> t \<noteq> host (r + 8)"
    "ea_memory mode r (\<lambda>i. code16 s (at p (e + i)))" "mode = 7 \<longrightarrow> r < 2"
    "ea_fits mode r (\<lambda>i. code16 s (at p (e + i))) R pc' (ea_step sz r)"
  shows "\<exists>j' m'. EMIT_StoreToEffectiveAddress sz t (push_bit 3 mode OR r) e sx s p j = (t, e + ea_words mode r, j') \<and>
    acts (ea_updates mode r) j m j' m' \<and> live_temps j' = live_temps j \<and>
    m_mem m' = wr_be (m_mem m) (ucast (ea_address mode r (\<lambda>i. code16 s (at p (e + i))) R pc' (ea_step sz r)))
      (unat sz) (rdW m t) \<and>
    cpu j' m' (ea_after mode r (ea_step sz r) R) pc"
proof -
  let ?ext = "\<lambda>i. code16 s (at p (e + i))"
  let ?A = "ea_address mode r ?ext R pc' (ea_step sz r)"
  note mb = ea_memory_bounds [OF assms(7)]
  note c = assms(1) [unfolded cpu_def]
  have sz: "sz \<noteq> 0" using assms(3) by auto
  have f3: "free_temps 3 j" using assms(2) by (simp add: free_temps_def)
  define store where "store = (if mode < 7 then store_to_An sz sx t mode r e s p j else store_to_special sz t r e s p j)"
  have e: "EMIT_StoreToEffectiveAddress sz t (push_bit 3 mode OR r) e sx s p j = store"
    unfolding EMIT_StoreToEffectiveAddress_def Let_def ea_fields [OF mb(1,2)]
    using mb(3,4,5) sz by (auto simp: store_def)
  have "\<exists>m' j'. store = (t, e + ea_words mode r, j') \<and> acts (ea_updates mode r) j m j' m' \<and> live_temps j' = live_temps j \<and>
      m_mem m' = wr_be (m_mem m) (ucast ?A) (unat sz) (rdW m t) \<and> m68k_regs m' (ea_after mode r (ea_step sz r) R)"
  proof (cases "mode = 7")
    case False
    then show ?thesis
      using store_to_An_acts [OF assms(3) conjunct1 [OF c] assms(4,5,6,2,7) False assms(9), of sx] mb(5)
      unfolding store_def by simp
  next
    case 7: True
    have "r \<in> {0, 1}" using assms(7,8) 7 by (auto simp: ea_memory_def)
    then have r: "r = 0 \<or> r = 1" by simp
    then have up: "ea_updates mode r = {}" "ea_after mode r (ea_step sz r) R = R"
      using 7 by (auto simp: ea_updates_def ea_after_def)
    have l: "store = store_to_special sz t r e s p j" using 7 by (simp add: store_def)
    obtain m' j' where q: "store = (t, e + ea_words 7 r, j')" "acts {} j m j' m'" "live_temps j' = live_temps j"
      "m_mem m' = wr_be (m_mem m) (ucast ?A) (unat sz) (rdW m t)"
      using store_absolute_acts [OF assms(3,4,5) f3 r, of e s p m R pc' "ea_step sz r"] unfolding l 7 by blast
    have "m68k_regs m' R" by (rule m68k_regs_acts [OF q(2)]) (use c in auto)
    moreover have "store = (t, e + ea_words mode r, j')" using q(1) 7 by simp
    ultimately show ?thesis using q(2-4) unfolding up by blast
  qed
  then obtain m' j' where q: "store = (t, e + ea_words mode r, j')" "acts (ea_updates mode r) j m j' m'"
      "live_temps j' = live_temps j" "m_mem m' = wr_be (m_mem m) (ucast ?A) (unat sz) (rdW m t)"
      "m68k_regs m' (ea_after mode r (ea_step sz r) R)" by blast
  have up: "REG_PC \<notin> ea_updates mode r" using assms(8) host_reg(4) [of "r + 8"] by (auto simp: ea_updates_def)
  have "pc_ok j'" "pc_view j' m' = pc" "reg_is m' REG_PC (rdW m' REG_PC)"
    using pc_keeps [OF q(2) up] c by simp_all
  then show ?thesis unfolding e cpu_def using q by blast
qed

theorem EMIT_StoreToEffectiveAddress_memory_witness:
  "\<exists>j' m'. EMIT_StoreToEffectiveAddress 4 13 0x10 0 False adds_sys 0x1000 (jit_init 64) = (13, 0, j') \<and>
    run (tc_code j') example_machine = Some m' \<and> m_mem m' = wr_be (m_mem example_machine) 0x10000 4 0x10000"
proof -
  have "\<exists>j' m'. EMIT_StoreToEffectiveAddress 4 13 (push_bit 3 2 OR 0) 0 False adds_sys 0x1000 (jit_init 64) =
        (13, 0 + ea_words 2 0, j') \<and>
      acts (ea_updates 2 0) (jit_init 64) example_machine j' m' \<and> live_temps j' = live_temps (jit_init 64) \<and>
      m_mem m' = wr_be (m_mem example_machine)
        (ucast (ea_address 2 0 (\<lambda>i. code16 adds_sys (at 0x1000 (0 + i))) example_regs 0 (ea_step 4 0)))
        (unat (4 :: u8)) (rdW example_machine 13) \<and>
      cpu j' m' (ea_after 2 0 (ea_step 4 0) example_regs) 0"
    by (rule EMIT_StoreToEffectiveAddress_memory [OF example_cpu free_temps_mono [OF example_temps(2)]])
      (simp_all add: ea_memory_def ea_fits_def is_reg_def arm_temps_def)
  then obtain j' m' where q: "EMIT_StoreToEffectiveAddress 4 13 0x10 0 False adds_sys 0x1000 (jit_init 64) = (13, 0, j')"
    "acts (ea_updates 2 0) (jit_init 64) example_machine j' m'"
    "m_mem m' = wr_be (m_mem example_machine) (ucast (example_regs 8)) 4 (rdW example_machine 13)"
    by (auto simp: ea_words_def ea_address_def)
  moreover have "run (tc_code j') example_machine = Some m'"
    using q(2) by (auto simp: acts_def produces_def jit_init_def)
  ultimately show ?thesis by (simp add: example_regs_def example_machine_def rdW_def rdX_def)
qed

section \<open>Registers and immediates\<close>

text \<open>
  The operand of a mode that names no memory, as a number of which the operation uses the
  low bytes. There is no byte operation on an address register.
\<close>

definition ea_direct :: "u8 \<Rightarrow> u8 \<Rightarrow> u8 \<Rightarrow> bool" where
  "ea_direct sz mode r \<longleftrightarrow> r < 8 \<and> (mode = 0 \<or> (mode = 1 \<and> sz \<noteq> 1) \<or> (mode = 7 \<and> r = 4))"

definition direct_operand :: "u8 \<Rightarrow> u8 \<Rightarrow> u8 \<Rightarrow> (nat \<Rightarrow> u16) \<Rightarrow> (u8 \<Rightarrow> u32) \<Rightarrow> u32" where
  "direct_operand sz mode r ext R =
    (if mode = 0 then R r else if mode = 1 then R (r + 8)
     else if sz = 4 then push_bit 16 (ucast (ext 0)) OR ucast (ext 1)
     else if sz = 2 then ucast (ext 0) else ucast (ext 0 AND 0xff))"

definition direct_words :: "u8 \<Rightarrow> u8 \<Rightarrow> nat" where
  "direct_words sz mode = (if mode < 7 then 0 else if sz = 4 then 2 else 1)"

lemma sign_extends:
  "is_reg rd \<Longrightarrow> is_reg rn \<Longrightarrow> \<exists>m'. acts {rd} j m (EMIT [sxth rd rn] j) m' \<and>
    reg_is m' rd (extended 2 True (rdW m rn)) \<and> m_mem m' = m_mem m"
  "is_reg rd \<Longrightarrow> is_reg rn \<Longrightarrow> \<exists>m'. acts {rd} j m (EMIT [sxtb rd rn] j) m' \<and>
    reg_is m' rd (extended 1 True (rdW m rn)) \<and> m_mem m' = m_mem m"
proof -
  have z: "(0 :: u8) < 32" "(15 :: u8) < 32" "(7 :: u8) < 32" by simp_all
  show "is_reg rd \<Longrightarrow> is_reg rn \<Longrightarrow> \<exists>m'. acts {rd} j m (EMIT [sxth rd rn] j) m' \<and>
      reg_is m' rd (extended 2 True (rdW m rn)) \<and> m_mem m' = m_mem m"
    unfolding sxth_def by (rule step_acts [OF decode_sbfm [OF z(1,2)]]) (simp_all add: is_regD extended_def)
  show "is_reg rd \<Longrightarrow> is_reg rn \<Longrightarrow> \<exists>m'. acts {rd} j m (EMIT [sxtb rd rn] j) m' \<and>
      reg_is m' rd (extended 1 True (rdW m rn)) \<and> m_mem m' = m_mem m"
    unfolding sxtb_def by (rule step_acts [OF decode_sbfm [OF z(1,3)]]) (simp_all add: is_regD extended_def)
qed

lemma load_register_acts:
  assumes "sz \<in> {1, 2, 4}" "sz = 1 \<longrightarrow> k < 8" "k < 16" "m68k_regs m R" "free_temps 1 j"
  shows "\<exists>t j' m'. load_register sz 0xff k ro sx j = (t, j') \<and> acts {} j m j' m' \<and> m_mem m' = m_mem m \<and>
    (if ro \<and> (sx \<longrightarrow> sz = 4) then t = host k \<and> j' = j
     else t \<in> arm_temps - live_temps j \<and> live_temps j' = insert t (live_temps j)) \<and>
    reg_is m' t (extended (unat sz) sx (R k))"
proof -
  obtain t j1 where a: "alloc_result j t j1" using free_temps_1 [OF assms(5)] by blast
  note ra = alloc_reg [OF a] and Rk = m68k_regsD [OF assms(4,3)]
  have fresh: "acts {} j m (EMIT [w] j1) m' \<and> t \<in> arm_temps - live_temps j \<and> live_temps (EMIT [w] j1) = insert t (live_temps j)"
    if "acts {t} j1 m (EMIT [w] j1) m'" for w m'
    using acts_alloc [OF a that] ra(4,6) by simp
  show ?thesis
  proof (cases "sx \<and> sz \<noteq> 4")
    case True
    define ext where "ext = (if sz = 2 then sxth else sxtb)"
    have "\<exists>m'. acts {t} j1 m (EMIT [ext t (host k)] j1) m' \<and> reg_is m' t (extended (unat sz) True (R k)) \<and> m_mem m' = m_mem m"
      using sign_extends [OF ra(1) host_reg(1), of j1 m k] assms(1) True Rk(2) by (auto simp: ext_def)
    then obtain m' where m': "acts {t} j1 m (EMIT [ext t (host k)] j1) m'" "reg_is m' t (extended (unat sz) True (R k))"
      "m_mem m' = m_mem m" by blast
    have e: "load_register sz 0xff k ro sx j = (t, EMIT [ext t (host k)] j1)"
      using True assms(1,2) by (auto simp: load_register_def Let_def ext_def ra(5))
    show ?thesis unfolding e
      by (intro exI [of _ t] exI [of _ "EMIT [ext t (host k)] j1"] exI [of _ m']) (use True m' fresh [OF m'(1)] in auto)
  next
    case False
    then have x: "extended (unat sz) sx (R k) = R k" by (auto simp: extended_def [of _ False])
    have e: "load_register sz 0xff k ro sx j = (if ro then (host k, j) else RA_CopyFromM68kRegister k j)"
      using False assms(1,2) by (auto simp: load_register_def Let_def)
    show ?thesis
    proof (cases ro)
      case True
      with False e x Rk(1) show ?thesis
        by (intro exI [of _ "host k"] exI [of _ j] exI [of _ m]) (auto simp: acts_refl)
    next
      case nro: False
      obtain m' where m': "acts {t} j1 m (EMIT [mov_reg t (host k)] j1) m'" "reg_is m' t (R k)" "m_mem m' = m_mem m"
        using mov_reg_acts [OF ra(1) disjI2 [OF host_reg(1)], of j1 m k] Rk(2) by auto
      have c: "RA_CopyFromM68kRegister k j = (t, EMIT [mov_reg t (host k)] j1)"
        by (simp add: RA_CopyFromM68kRegister_def ra(5) RA_MapM68kRegister_def)
      show ?thesis unfolding e
        by (intro exI [of _ t] exI [of _ "EMIT [mov_reg t (host k)] j1"] exI [of _ m'])
          (use nro m' fresh [OF m'(1)] c x in auto)
    qed
  qed
qed

lemma load_immediate_acts:
  assumes "sz \<in> {1, 2, 4}" "is_reg t"
  shows "\<exists>j' m'. load_immediate sz t sx s p e j = (e + direct_words sz 7, j') \<and> acts {t} j m j' m' \<and>
    reg_is m' t (extended (unat sz) sx (direct_operand sz 7 4 (\<lambda>i. code16 s (at p (e + i))) R)) \<and>
    m_mem m' = m_mem m \<and> live_temps j' = live_temps j"
proof -
  let ?w = "code16 s (at p e)"
  have b: "?w AND 0x8000 \<noteq> 0 \<longleftrightarrow> bit ?w 15" "(?w AND 0xff) AND 0x80 \<noteq> 0 \<longleftrightarrow> bit (?w AND 0xff) 7"
    using bit_test [of ?w 15] bit_test [of "?w AND 0xff" 7] by simp_all
  have x2: "extended 2 True (ucast v) = (if bit v 15 then NOT (ucast (NOT v)) else ucast v)" for v :: u16
  proof (rule bit_word_eqI)
    fix k assume "k < LENGTH(32)"
    then show "bit (extended 2 True (ucast v)) k = bit (if bit v 15 then NOT (ucast (NOT v)) else ucast v :: u32) k"
      using bit_imp_le_length [of v k] by (cases "k = 15") (auto simp: extended_def bit_simps min_def not_le)
  qed
  have x1: "extended 1 True (ucast (v AND 0xff)) =
      (if bit (v AND 0xff) 7 then NOT (ucast (NOT ((v AND 0xff) OR 0xff00))) else ucast (v AND 0xff))" for v :: u16
  proof (rule bit_word_eqI)
    have m: "(0xff :: u16) = mask 8" "(0xff00 :: u16) = push_bit 8 (mask 8)" by (simp_all add: mask_eq_exp_minus_1)
    fix k assume "k < LENGTH(32)"
    then show "bit (extended 1 True (ucast (v AND 0xff))) k =
        bit (if bit (v AND 0xff) 7 then NOT (ucast (NOT ((v AND 0xff) OR 0xff00))) else ucast (v AND 0xff) :: u32) k"
      unfolding m by (cases "k = 7") (auto simp: extended_def bit_simps min_def not_le)
  qed
  note mz = mov_u16_acts(1) [OF assms(2), of j m] and mn = mov_u16_acts(2) [OF assms(2), of j m]
  from assms(1) consider "sz = 4" | "sz = 2" | "sz = 1" by blast
  then show ?thesis
  proof cases
    case 1
    then show ?thesis
      using load_number_acts [OF assms(2), of j m "push_bit 16 (ucast ?w) OR ucast (code16 s (at p (e + 1)))"]
      by (simp add: load_immediate_def direct_words_def direct_operand_def)
  next
    case 2
    let ?x = "if sx \<and> bit ?w 15 then movn_immed_u16 t (NOT ?w) 0 else mov_immed_u16 t ?w 0"
    have "load_immediate sz t sx s p e j = (e + direct_words sz 7, EMIT [?x] j)"
      using 2 by (simp add: load_immediate_def direct_words_def Let_def b)
    moreover have "extended 2 sx (ucast ?w) = (if sx \<and> bit ?w 15 then NOT (ucast (NOT ?w)) else ucast ?w)"
      using x2 [of ?w] by (cases sx) (simp_all add: extended_def)
    then have "\<exists>m'. acts {t} j m (EMIT [?x] j) m' \<and> reg_is m' t (extended 2 sx (ucast ?w)) \<and> m_mem m' = m_mem m"
      using mz [of ?w] mn [of "NOT ?w"] by simp
    ultimately show ?thesis using 2 by (auto simp: direct_operand_def)
  next
    case 3
    let ?u = "?w AND 0xff"
    let ?x = "if sx \<and> bit ?u 7 then movn_immed_u16 t (NOT (?u OR 0xff00)) 0 else mov_immed_u16 t ?u 0"
    have "load_immediate sz t sx s p e j = (e + direct_words sz 7, EMIT [?x] j)"
      using 3 unfolding load_immediate_def Let_def b by (simp add: direct_words_def)
    moreover have "extended 1 sx (ucast ?u) = (if sx \<and> bit ?u 7 then NOT (ucast (NOT (?u OR 0xff00))) else ucast ?u)"
      using x1 [of ?w] by (cases sx) (simp_all only: extended_def if_False if_True simp_thms)
    then have "\<exists>m'. acts {t} j m (EMIT [?x] j) m' \<and> reg_is m' t (extended 1 sx (ucast ?u)) \<and> m_mem m' = m_mem m"
      using mz [of ?u] mn [of "NOT (?u OR 0xff00)"] by presburger
    moreover have "direct_operand sz 7 4 (\<lambda>i. code16 s (at p (e + i))) R = ucast ?u"
      using 3 by (simp add: direct_operand_def)
    moreover have "unat sz = 1" using 3 by simp
    moreover have "live_temps (EMIT ws j) = live_temps j" for ws by simp
    ultimately show ?thesis by metis
  qed
qed

lemma load_direct_operand:
  assumes "cpu j m R pc" "free_temps 1 j" "sz \<in> {1, 2, 4}" "ea_direct sz mode r"
  shows "\<exists>t j' m'. EMIT_LoadFromEffectiveAddress (if sx then sz OR 0x80 else sz) 0xff (push_bit 3 mode OR r) e ro has_imm s p j =
      (t, 0, e + direct_words sz mode, j') \<and>
    acts {} j m j' m' \<and> m_mem m' = m_mem m \<and>
    reg_is m' t (extended (unat sz) sx (direct_operand sz mode r (\<lambda>i. code16 s (at p (e + i))) R)) \<and>
    (if mode < 2 \<and> ro \<and> (sx \<longrightarrow> sz = 4) then t = host (8 * mode + r) \<and> j' = j
     else t \<in> arm_temps - live_temps j \<and> live_temps j' = insert t (live_temps j)) \<and>
    cpu j' m' R pc"
proof -
  note c = assms(1) [unfolded cpu_def]
  have m: "mode < 8" "r < 8" "mode = 0 \<or> mode = 1 \<or> (mode = 7 \<and> r = 4)" using assms(4) by (auto simp: ea_direct_def)
  let ?op = "direct_operand sz mode r (\<lambda>i. code16 s (at p (e + i))) R"
  define load where "load = EMIT_LoadFromEffectiveAddress (if sx then sz OR 0x80 else sz) 0xff (push_bit 3 mode OR r) e ro has_imm s p j"
  have ld: "load = (if mode < 2 then (case load_register sz 0xff (8 * mode + r) ro sx j of (t, j) \<Rightarrow> (t, 0, e, j))
      else case RA_AllocARMRegister j of (t, j) \<Rightarrow> load_from_special sz sx t r e ro has_imm s p j)"
    unfolding load_def EMIT_LoadFromEffectiveAddress_def Let_def ea_fields [OF m(1,2)] size_fields [OF assms(3)]
    using m(3) by (auto simp: add.commute [of r 8])
  have "\<exists>t j' m'. load = (t, 0, e + direct_words sz mode, j') \<and> acts {} j m j' m' \<and> m_mem m' = m_mem m \<and>
      reg_is m' t (extended (unat sz) sx ?op) \<and>
      (if mode < 2 \<and> ro \<and> (sx \<longrightarrow> sz = 4) then t = host (8 * mode + r) \<and> j' = j
       else t \<in> arm_temps - live_temps j \<and> live_temps j' = insert t (live_temps j))"
  proof (cases "mode < 2")
    case True
    then have md: "mode = 0 \<or> mode = 1" using m(3) by auto
    then have k: "8 * mode + r < 16" "sz = 1 \<longrightarrow> 8 * mode + r < 8" "R (8 * mode + r) = ?op" "direct_words sz mode = 0"
      using plus8_less [OF m(2)] less_trans [OF m(2), of 16] m(2) assms(4)
      by (auto simp: ea_direct_def direct_operand_def direct_words_def add.commute [of r 8])
    show ?thesis using load_register_acts [OF assms(3) k(2,1) conjunct1 [OF c] assms(2), of ro sx] True k(3,4)
      unfolding ld by fastforce
  next
    case False
    then have md: "mode = 7" "r = 4" using m(3) by auto
    obtain t j1 where a: "alloc_result j t j1" using free_temps_1 [OF assms(2)] by blast
    note ra = alloc_reg [OF a]
    obtain j' m' where q: "load_immediate sz t sx s p e j1 = (e + direct_words sz 7, j')" "acts {t} j1 m j' m'"
      "reg_is m' t (extended (unat sz) sx (direct_operand sz 7 4 (\<lambda>i. code16 s (at p (e + i))) R))"
      "m_mem m' = m_mem m" "live_temps j' = live_temps j1"
      using load_immediate_acts [OF assms(3) ra(1)] by blast
    have l: "load = (t, 0, e + direct_words sz mode, j')"
      unfolding ld using md q(1) by (simp add: ra(5) load_from_special_def)
    show ?thesis unfolding l
      by (intro exI [of _ t] exI [of _ j'] exI [of _ m'])
        (use md q acts_alloc [OF a q(2)] ra(4,6) in simp)
  qed
  then obtain t j' m' where q: "load = (t, 0, e + direct_words sz mode, j')" "acts {} j m j' m'" "m_mem m' = m_mem m"
      "reg_is m' t (extended (unat sz) sx ?op)"
      "if mode < 2 \<and> ro \<and> (sx \<longrightarrow> sz = 4) then t = host (8 * mode + r) \<and> j' = j
       else t \<in> arm_temps - live_temps j \<and> live_temps j' = insert t (live_temps j)" by blast
  have "m68k_regs m' R" by (rule m68k_regs_acts [OF q(2)]) (use c in auto)
  moreover have "pc_ok j'" "pc_view j' m' = pc" "reg_is m' REG_PC (rdW m' REG_PC)"
    using pc_keeps [OF q(2)] c by simp_all
  ultimately show ?thesis unfolding load_def [symmetric] cpu_def using q by blast
qed

text \<open>
  C23. Loading an operand that is a register or an immediate: the register returned holds
  the operand, sign-extended when that is asked for. A register that may only be read and
  needs no extension is returned itself, without any code; in all other cases the result is
  a fresh temporary. Nothing else changes, and the extension words are counted.
\<close>

theorem EMIT_LoadFromEffectiveAddress_direct:
  assumes "cpu j m R pc" "free_temps 1 j" "sz \<in> {1, 2, 4}" "ea_direct sz mode r"
  shows "\<exists>t j' m'. EMIT_LoadFromEffectiveAddress (if sx then sz OR 0x80 else sz) 0xff (push_bit 3 mode OR r) e ro has_imm s p j =
      (t, 0, e + direct_words sz mode, j') \<and>
    acts {} j m j' m' \<and> m_mem m' = m_mem m \<and>
    reg_is m' t (extended (unat sz) sx (direct_operand sz mode r (\<lambda>i. code16 s (at p (e + i))) R)) \<and>
    (if mode < 2 \<and> ro \<and> (sx \<longrightarrow> sz = 4) then t = host (8 * mode + r) \<and> j' = j
     else t \<in> arm_temps - live_temps j \<and> live_temps j' = insert t (live_temps j)) \<and>
    cpu j' m' R pc"
  by (rule load_direct_operand [OF assms])

theorem EMIT_LoadFromEffectiveAddress_direct_witness:
  "\<exists>t j' m'. EMIT_LoadFromEffectiveAddress 0x82 0xff 0x3c 0 True False adds_sys 0x1000 (jit_init 64) = (t, 0, 1, j') \<and>
    run (tc_code j') example_machine = Some m' \<and> rdX m' t = 0xffffd041"
proof -
  have x: "code16 adds_sys 0x1000 = 0xd041" by (simp add: adds_code)
  have "\<exists>t j' m'. EMIT_LoadFromEffectiveAddress (if True then 2 OR 0x80 else 2) 0xff (push_bit 3 7 OR 4) 0 True False
        adds_sys 0x1000 (jit_init 64) = (t, 0, 0 + direct_words 2 7, j') \<and>
      acts {} (jit_init 64) example_machine j' m' \<and> m_mem m' = m_mem example_machine \<and>
      reg_is m' t (extended (unat (2 :: u8)) True (direct_operand 2 7 4 (\<lambda>i. code16 adds_sys (at 0x1000 (0 + i))) example_regs)) \<and>
      (if 7 < (2 :: u8) \<and> True \<and> (True \<longrightarrow> 2 = (4 :: u8)) then t = host (8 * 7 + 4) \<and> j' = jit_init 64
       else t \<in> arm_temps - live_temps (jit_init 64) \<and> live_temps j' = insert t (live_temps (jit_init 64))) \<and>
      cpu j' m' example_regs 0"
    by (rule EMIT_LoadFromEffectiveAddress_direct [OF example_cpu free_temps_mono [OF example_temps(2)]])
      (simp_all add: ea_direct_def)
  then obtain t j' m' where q: "EMIT_LoadFromEffectiveAddress 0x82 0xff 0x3c 0 True False adds_sys 0x1000 (jit_init 64) = (t, 0, 1, j')"
    "acts {} (jit_init 64) example_machine j' m'" "reg_is m' t (extended 2 True 0xd041)"
    by (auto simp: direct_words_def direct_operand_def at_def x)
  moreover have "run (tc_code j') example_machine = Some m'"
    using q(2) by (auto simp: acts_def produces_def jit_init_def)
  moreover have "(ucast (extended 2 True 0xd041) :: u64) = 0xffffd041" by code_simp
  ultimately show ?thesis by (auto simp: reg_is_def)
qed

end
