(* ===== verification/Insn_Arith.thy ===== *)
theory Insn_Arith
  imports EA_Load Flags SR_Scan PC_Track
begin

text \<open>
  The emitters of whole instructions: addition (\<open>M68k_LINED.c\<close>) and subtraction
  (\<open>M68k_LINE9.c\<close>). A handler gets the control word that bounds the search for needed flags, the code it is
  translating, the opcode and the code pointer behind it, and returns the code pointer
  behind the instruction with the state of the translator. The two sources for addition
  and subtraction differ in the encoders they call and in the tail for the flags, which
  are arguments here. Code with an encoder that sets the host's flags is emitted by
  \<open>EMIT_rf\<close>, since these encoders run \<open>RESET_FLAGS\<close>.
\<close>

type_synonym reg_op = "u8 \<Rightarrow> u8 \<Rightarrow> u8 \<Rightarrow> shift_t \<Rightarrow> u8 \<Rightarrow> u32"
type_synonym handler_result = "u64 \<times> jit"

section \<open>Operands in memory that are read and written back\<close>

text \<open>The address is in \<open>base\<close>; predecrement moves it with the load, postincrement with the store.\<close>

definition fetch_operand :: "u8 \<Rightarrow> u8 \<Rightarrow> u8 \<Rightarrow> u8 \<Rightarrow> u8 \<Rightarrow> jit \<Rightarrow> jit" where
  "fetch_operand sz mode r base tmp j =
    (if sz = 4 then
       (if mode = 4 then RA_SetDirtyM68kRegister (8 + r) (EMIT [ldr_offset_preindex base tmp (- 4)] j)
        else EMIT [ldr_offset base tmp 0] j)
     else if sz = 2 then
       (if mode = 4 then RA_SetDirtyM68kRegister (8 + r) (EMIT [ldrh_offset_preindex base tmp (- 2)] j)
        else EMIT [ldrh_offset base tmp 0] j)
     else if sz = 1 then
       (if mode = 4
        then RA_SetDirtyM68kRegister (8 + r) (EMIT [ldrb_offset_preindex base tmp (if r = 7 then - 2 else - 1)] j)
        else EMIT [ldrb_offset base tmp 0] j)
     else j)"

definition write_operand :: "u8 \<Rightarrow> u8 \<Rightarrow> u8 \<Rightarrow> u8 \<Rightarrow> u8 \<Rightarrow> jit \<Rightarrow> jit" where
  "write_operand sz mode r base tmp j =
    (if sz = 4 then
       (if mode = 3 then RA_SetDirtyM68kRegister (8 + r) (EMIT [str_offset_postindex base tmp 4] j)
        else EMIT [str_offset base tmp 0] j)
     else if sz = 2 then
       (if mode = 3 then RA_SetDirtyM68kRegister (8 + r) (EMIT [strh_offset_postindex base tmp 2] j)
        else EMIT [strh_offset base tmp 0] j)
     else if sz = 1 then
       (if mode = 3
        then RA_SetDirtyM68kRegister (8 + r) (EMIT [strb_offset_postindex base tmp (if r = 7 then 2 else 1)] j)
        else EMIT [strb_offset base tmp 0] j)
     else j)"

section \<open>A single flag\<close>

text \<open>
  No flag, or just Z or just N: then bytes and words are computed with the plain operation
  and the one flag comes from a test of the result.
\<close>

definition few_flags :: "u8 \<Rightarrow> bool" where
  "few_flags um \<longleftrightarrow> um = 0 \<or> um = SR_Z \<or> um = SR_N"

definition test_zero :: "u8 \<Rightarrow> u8 \<Rightarrow> u32 list" where
  "test_zero sz r = (if sz = 2 then [ands_immed 31 r 16 0] else if sz = 1 then [ands_immed 31 r 8 0] else [])"

definition test_sign :: "u8 \<Rightarrow> u8 \<Rightarrow> u32 list" where
  "test_sign sz r =
    (if sz = 2 then [ands_immed 31 r 1 (32 - 15)] else if sz = 1 then [ands_immed 31 r 1 (32 - 7)] else [])"

text \<open>The result is the mask that is left to do.\<close>

definition single_flag :: "u8 \<Rightarrow> u8 \<Rightarrow> u8 \<Rightarrow> jit \<Rightarrow> u8 \<times> jit" where
  "single_flag sz um r j0 =
    (if sz < 4 \<and> um = SR_Z then
       (0, case RA_ModifyCC j0 of (cc, j) \<Rightarrow>
          EMIT_SetFlagsConditional cc SR_Z A64_CC_EQ (EMIT_rf (test_zero sz r) (EMIT_ClearFlags cc SR_Z j)))
     else if sz < 4 \<and> um = SR_N then
       (0, case RA_ModifyCC j0 of (cc, j) \<Rightarrow>
          EMIT_SetFlagsConditional cc SR_N A64_CC_NE (EMIT_rf (test_sign sz r) (EMIT_ClearFlags cc SR_N j)))
     else (um, j0))"

section \<open>ADD and SUB\<close>

text \<open>The operation on the data register \<open>dest\<close>; \<open>opf\<close> sets the host's flags, \<open>opn\<close> does not.\<close>

definition arith_register :: "reg_op \<Rightarrow> reg_op \<Rightarrow> u8 \<Rightarrow> u8 \<Rightarrow> u8 \<Rightarrow> u8 \<Rightarrow> jit \<Rightarrow> jit" where
  "arith_register opn opf sz um dest src j0 =
    (if sz = 4 then
       (if um = 0 then EMIT [opn dest dest src LSL 0] j0 else EMIT_rf [opf dest dest src LSL 0] j0)
     else if sz = 2 then
       (case RA_AllocARMRegister j0 of (tmp, j) \<Rightarrow> RA_FreeARMRegister tmp
         (if few_flags um then EMIT [opn tmp dest src LSL 0, bfxil dest tmp 0 16] j
          else EMIT_rf [lsl_i tmp dest 16, opf src tmp src LSL 16, bfxil dest src 16 16] j))
     else if sz = 1 then
       (case RA_AllocARMRegister j0 of (tmp, j) \<Rightarrow> RA_FreeARMRegister tmp
         (if few_flags um then EMIT [opn tmp dest src LSL 0, bfxil dest tmp 0 8] j
          else EMIT_rf [lsl_i tmp dest 24, opf src tmp src LSL 24, bfxil dest src 24 8] j))
     else j0)"

text \<open>The operation on the value that was read from memory.\<close>

definition arith_memory :: "reg_op \<Rightarrow> reg_op \<Rightarrow> u8 \<Rightarrow> u8 \<Rightarrow> u8 \<Rightarrow> u8 \<Rightarrow> jit \<Rightarrow> jit" where
  "arith_memory opn opf sz um tmp src j =
    (if sz = 4 then (if um = 0 then EMIT [opn tmp tmp src LSL 0] j else EMIT_rf [opf tmp tmp src LSL 0] j)
     else if sz = 2 then
       (if few_flags um then EMIT [opn tmp tmp src LSL 0] j
        else EMIT_rf [lsl_i tmp tmp 16, opf tmp tmp src LSL 16, lsr_i tmp tmp 16] j)
     else if sz = 1 then
       (if few_flags um then EMIT [opn tmp tmp src LSL 0] j
        else EMIT_rf [lsl_i tmp tmp 24, opf tmp tmp src LSL 24, lsr_i tmp tmp 24] j)
     else j)"

definition operand_size :: "u16 \<Rightarrow> u8" where
  "operand_size opcode = push_bit (unat (drop_bit 6 opcode AND 3)) 1"

definition field_9 :: "u16 \<Rightarrow> u8" where
  "field_9 opcode = ucast (drop_bit 9 opcode AND 7)"

definition ea_field :: "u16 \<Rightarrow> u8" where
  "ea_field opcode = ucast (opcode AND 0x3f)"

definition ea_mode :: "u16 \<Rightarrow> u8" where
  "ea_mode opcode = ucast (drop_bit 3 (opcode AND 0x38))"

definition reg_field :: "u16 \<Rightarrow> u8" where
  "reg_field opcode = ucast (opcode AND 7)"

text \<open>Direction 0: the operand is combined into the data register.\<close>

definition arith_to_register ::
  "reg_op \<Rightarrow> reg_op \<Rightarrow> u8 \<Rightarrow> cache_sys \<Rightarrow> u16 \<Rightarrow> u64 \<Rightarrow> jit \<Rightarrow> u8 \<times> nat \<times> jit" where
  "arith_to_register opn opf update_mask s opcode p j0 =
    (let sz = operand_size opcode; dn = field_9 opcode; dest = RA_MapM68kRegister dn;
         j = RA_SetDirtyM68kRegister dn j0
     in case EMIT_LoadFromEffectiveAddress sz 0xff (ea_field opcode) 0 (sz = 4 \<or> few_flags update_mask) False s p j of
          (src, _, ext_words, j) \<Rightarrow>
        case single_flag sz update_mask dest (arith_register opn opf sz update_mask dest src j) of (um, j) \<Rightarrow>
          (um, ext_words, RA_FreeARMRegister src j))"

text \<open>Direction 1: the data register is combined into the operand, which is in memory.\<close>

definition arith_to_memory ::
  "reg_op \<Rightarrow> reg_op \<Rightarrow> u8 \<Rightarrow> cache_sys \<Rightarrow> u16 \<Rightarrow> u64 \<Rightarrow> jit \<Rightarrow> u8 \<times> nat \<times> jit" where
  "arith_to_memory opn opf update_mask s opcode p j0 =
    (let sz = operand_size opcode; src = RA_MapM68kRegister (field_9 opcode); mode = ea_mode opcode; r = reg_field opcode
     in case RA_AllocARMRegister j0 of (tmp, j) \<Rightarrow>
        case EMIT_LoadFromEffectiveAddress 0 0xff (ea_field opcode) 0 (\<not> (mode = 4 \<or> mode = 3)) False s p j of
          (dest, _, ext_words, j) \<Rightarrow>
        let j = write_operand sz mode r dest tmp
                  (arith_memory opn opf sz update_mask tmp src (fetch_operand sz mode r dest tmp j))
        in case single_flag sz update_mask tmp j of (um, j) \<Rightarrow>
          (um, ext_words, RA_FreeARMRegister tmp (RA_FreeARMRegister dest j)))"

definition arith_handler ::
  "reg_op \<Rightarrow> reg_op \<Rightarrow> (u8 \<Rightarrow> jit \<Rightarrow> jit) \<Rightarrow> u32 \<Rightarrow> cache_sys \<Rightarrow> u16 \<Rightarrow> u64 \<Rightarrow> jit \<Rightarrow> handler_result" where
  "arith_handler opn opf update_flags jit_control2 s opcode p j0 =
    (let update_mask = M68K_GetSRMask jit_control2 s (p - 2)
     in case (if drop_bit 8 opcode AND 1 = 0 then arith_to_register opn opf update_mask s opcode p j0
              else arith_to_memory opn opf update_mask s opcode p j0) of (um, ext_words, j) \<Rightarrow>
       (at p ext_words, update_flags um (EMIT_AdvancePC (of_nat (2 * (ext_words + 1))) j)))"

definition EMIT_ADD_ext :: "u32 \<Rightarrow> cache_sys \<Rightarrow> u16 \<Rightarrow> u64 \<Rightarrow> jit \<Rightarrow> handler_result" where
  "EMIT_ADD_ext = arith_handler add_reg adds_reg update_flags_add"

definition EMIT_SUB_reg :: "u32 \<Rightarrow> cache_sys \<Rightarrow> u16 \<Rightarrow> u64 \<Rightarrow> jit \<Rightarrow> handler_result" where
  "EMIT_SUB_reg = arith_handler sub_reg subs_reg update_flags_sub"

end
