(* ===== verification/Insn_Logic.thy ===== *)
theory Insn_Logic
  imports Insn_Arith
begin

text \<open>
  The emitters of the logic operations, \<open>EMIT_AND_ext\<close> (\<open>M68k_LINEC.c\<close>), \<open>EMIT_OR_reg\<close>
  (\<open>M68k_LINE8.c\<close>) and \<open>EMIT_EOR_ext\<close> (\<open>M68k_LINEB.c\<close>), and of the comparisons \<open>EMIT_CMP_ext\<close>,
  \<open>EMIT_CMPA_ext\<close> and \<open>EMIT_CMPM\<close> (\<open>M68k_LINEB.c\<close>). The arguments are those of the emitters of \<open>Insn_Arith\<close>.
\<close>

section \<open>AND, OR and EOR\<close>

text \<open>
  The operation on long words: AND sets the host's flags when the instruction has to set any.
\<close>

definition emit_op :: "reg_op \<Rightarrow> u8 \<Rightarrow> u8 \<Rightarrow> jit \<Rightarrow> jit" where
  "emit_op op dest src = EMIT [op dest dest src LSL 0]"

definition emit_AND :: "u8 \<Rightarrow> u8 \<Rightarrow> u8 \<Rightarrow> jit \<Rightarrow> jit" where
  "emit_AND update_mask dest src =
    (if update_mask \<noteq> 0 then EMIT_rf [ands_reg dest dest src LSL 0] else EMIT [and_reg dest dest src LSL 0])"

text \<open>
  The direction that writes the operand in memory, the same code in all three; \<open>long_op\<close>
  emits the operation on long words. The result tells which register to test.
\<close>

definition logic_to_memory ::
  "(u8 \<Rightarrow> u8 \<Rightarrow> jit \<Rightarrow> jit) \<Rightarrow> reg_op \<Rightarrow> cache_sys \<Rightarrow> u16 \<Rightarrow> u64 \<Rightarrow> jit \<Rightarrow> u8 \<times> nat \<times> jit" where
  "logic_to_memory long_op op s opcode p j0 =
    (let sz = operand_size opcode; src = RA_MapM68kRegister (field_9 opcode); mode = ea_mode opcode; r = reg_field opcode
     in case RA_AllocARMRegister j0 of (tmp, j) \<Rightarrow>
        case EMIT_LoadFromEffectiveAddress 0 0xff (ea_field opcode) 0 (\<not> (mode = 4 \<or> mode = 3)) False s p j of
          (dest, _, ext_words, j) \<Rightarrow>
        let j = fetch_operand sz mode r dest tmp j;
            j = (if sz = 4 then long_op tmp src j
                 else if sz = 2 \<or> sz = 1 then EMIT [op tmp tmp src LSL 0] j else j);
            j = write_operand sz mode r dest tmp j
        in (tmp, ext_words, RA_FreeARMRegister dest j))"

definition AND_to_register :: "u8 \<Rightarrow> cache_sys \<Rightarrow> u16 \<Rightarrow> u64 \<Rightarrow> jit \<Rightarrow> u8 \<times> nat \<times> jit" where
  "AND_to_register update_mask s opcode p j0 =
    (let sz = operand_size opcode; dn = field_9 opcode; dest = RA_MapM68kRegister dn
     in case RA_AllocARMRegister j0 of (tmp_reg, j) \<Rightarrow>
        case EMIT_LoadFromEffectiveAddress sz 0xff (ea_field opcode) 0 True False s p (RA_SetDirtyM68kRegister dn j) of
          (src, _, ext_words, j) \<Rightarrow>
        let j = (if sz = 4 then emit_AND update_mask dest src j
                 else if sz = 2 then EMIT [and_reg tmp_reg src dest LSL 0, bfi dest tmp_reg 0 16] j
                 else if sz = 1 then EMIT [and_reg tmp_reg src dest LSL 0, bfi dest tmp_reg 0 8] j
                 else j)
        in (dest, ext_words, RA_FreeARMRegister tmp_reg (RA_FreeARMRegister src j)))"

definition OR_to_register :: "cache_sys \<Rightarrow> u16 \<Rightarrow> u64 \<Rightarrow> jit \<Rightarrow> u8 \<times> nat \<times> jit" where
  "OR_to_register s opcode p j0 =
    (let sz = operand_size opcode; dn = field_9 opcode; dest = RA_MapM68kRegister dn
     in case EMIT_LoadFromEffectiveAddress sz 0xff (ea_field opcode) 0 True False s p (RA_SetDirtyM68kRegister dn j0) of
          (src, _, ext_words, j) \<Rightarrow>
        let narrow = (\<lambda>uxt. if opcode AND 0x38 = 0 then
              (case RA_AllocARMRegister j of (tmp, j) \<Rightarrow> (tmp, RA_FreeARMRegister src (EMIT [uxt tmp src] j)))
              else (src, j))
        in case (if sz = 4 then (src, EMIT [orr_reg dest dest src LSL 0] j)
                 else if sz = 2 then (case narrow uxth of (src, j) \<Rightarrow> (src, EMIT [orr_reg dest src dest LSL 0] j))
                 else if sz = 1 then (case narrow uxtb of (src, j) \<Rightarrow> (src, EMIT [orr_reg dest src dest LSL 0] j))
                 else (src, j)) of
            (src, j) \<Rightarrow> (dest, ext_words, RA_FreeARMRegister src j))"

definition EOR_to_register :: "u16 \<Rightarrow> jit \<Rightarrow> u8 \<times> nat \<times> jit" where
  "EOR_to_register opcode j0 =
    (let sz = operand_size opcode; src = RA_MapM68kRegister (field_9 opcode);
         dest = RA_MapM68kRegister (reg_field opcode); j = RA_SetDirtyM68kRegister (reg_field opcode) j0;
         insert_part = (\<lambda>w. case RA_AllocARMRegister j of (tmp, j) \<Rightarrow>
           RA_FreeARMRegister tmp (EMIT [eor_reg tmp src dest LSL 0, bfi dest tmp 0 w] j));
         j = (if sz = 4 then EMIT [eor_reg dest dest src LSL 0] j
              else if sz = 2 then insert_part 16 else if sz = 1 then insert_part 8 else j)
     in (dest, 0, RA_FreeARMRegister src j))"

text \<open>
  The end of a logic operation: words and bytes are tested as the upper part of a long word,
  long words too unless the operation itself has set the host's flags.
\<close>

definition test_result :: "bool \<Rightarrow> u8 \<Rightarrow> u8 \<Rightarrow> jit \<Rightarrow> jit" where
  "test_result test_long sz r j =
    (if sz = 4 then (if test_long then EMIT_rf [cmn_reg 31 r LSL 0] j else j)
     else if sz = 2 then EMIT_rf [cmn_reg 31 r LSL 16] j
     else if sz = 1 then EMIT_rf [cmn_reg 31 r LSL 24] j
     else j)"

definition update_flags_logic :: "u8 \<Rightarrow> jit \<Rightarrow> jit" where
  "update_flags_logic update_mask j0 =
    (case RA_ModifyCC j0 of (cc, j) \<Rightarrow>
     case EMIT_GetNZ00 cc update_mask j of (um, j) \<Rightarrow>
       let j = (if um AND SR_Z \<noteq> 0 then EMIT_SetFlagsConditional cc SR_Z A64_CC_EQ j else j)
       in if um AND SR_N \<noteq> 0 then EMIT_SetFlagsConditional cc SR_N A64_CC_MI j else j)"

definition logic_tail :: "bool \<Rightarrow> u8 \<Rightarrow> u8 \<Rightarrow> u8 \<Rightarrow> jit \<Rightarrow> jit" where
  "logic_tail test_long sz update_mask r j =
    RA_FreeARMRegister r (if update_mask \<noteq> 0 then update_flags_logic update_mask (test_result test_long sz r j) else j)"

definition logic_handler :: "bool \<Rightarrow> (u8 \<Rightarrow> jit \<Rightarrow> u8 \<times> nat \<times> jit) \<Rightarrow> u32 \<Rightarrow> cache_sys \<Rightarrow> u16 \<Rightarrow> u64 \<Rightarrow> jit \<Rightarrow> handler_result" where
  "logic_handler test_long body jit_control2 s opcode p j0 =
    (let update_mask = M68K_GetSRMask jit_control2 s (p - 2)
     in case body update_mask j0 of (test_register, ext_words, j) \<Rightarrow>
       (at p ext_words, logic_tail test_long (operand_size opcode) update_mask test_register
          (EMIT_AdvancePC (of_nat (2 * (ext_words + 1))) j)))"

definition EMIT_AND_ext :: "u32 \<Rightarrow> cache_sys \<Rightarrow> u16 \<Rightarrow> u64 \<Rightarrow> jit \<Rightarrow> handler_result" where
  "EMIT_AND_ext jit_control2 s opcode p =
    logic_handler False (\<lambda>update_mask.
      if drop_bit 8 opcode AND 1 = 0 then AND_to_register update_mask s opcode p
      else logic_to_memory (emit_AND update_mask) and_reg s opcode p) jit_control2 s opcode p"

definition EMIT_OR_reg :: "u32 \<Rightarrow> cache_sys \<Rightarrow> u16 \<Rightarrow> u64 \<Rightarrow> jit \<Rightarrow> handler_result" where
  "EMIT_OR_reg jit_control2 s opcode p =
    logic_handler True (\<lambda>_. if drop_bit 8 opcode AND 1 = 0 then OR_to_register s opcode p
      else logic_to_memory (emit_op orr_reg) orr_reg s opcode p) jit_control2 s opcode p"

definition EMIT_EOR_ext :: "u32 \<Rightarrow> cache_sys \<Rightarrow> u16 \<Rightarrow> u64 \<Rightarrow> jit \<Rightarrow> handler_result" where
  "EMIT_EOR_ext jit_control2 s opcode p =
    logic_handler True (\<lambda>_. if opcode AND 0x38 = 0 then EOR_to_register opcode
      else logic_to_memory (emit_op eor_reg) eor_reg s opcode p) jit_control2 s opcode p"

section \<open>Comparisons\<close>

definition update_flags_cmp :: "u8 \<Rightarrow> jit \<Rightarrow> jit" where
  "update_flags_cmp update_mask j0 =
    (if update_mask \<noteq> 0 then
       (case RA_ModifyCC j0 of (cc, j) \<Rightarrow>
        if popcount update_mask \<noteq> 0 then
          (case EMIT_GetNZnCV cc update_mask j of (um, j) \<Rightarrow>
            let j = (if um AND SR_Z \<noteq> 0 then EMIT_SetFlagsConditional cc SR_Z A64_CC_EQ j else j);
                j = (if um AND SR_N \<noteq> 0 then EMIT_SetFlagsConditional cc SR_N A64_CC_MI j else j);
                j = (if um AND SR_V \<noteq> 0 then EMIT_SetFlagsConditional cc SR_Valt A64_CC_VS j else j)
            in if um AND SR_C \<noteq> 0 then EMIT_SetFlagsConditional cc SR_Calt A64_CC_CC j else j)
        else j)
     else j0)"

definition EMIT_CMP_ext :: "u32 \<Rightarrow> cache_sys \<Rightarrow> u16 \<Rightarrow> u64 \<Rightarrow> jit \<Rightarrow> handler_result" where
  "EMIT_CMP_ext jit_control2 s opcode p j0 =
    (let update_mask = M68K_GetSRMask jit_control2 s (p - 2); sz = operand_size opcode;
         dst = RA_MapM68kRegister (field_9 opcode)
     in case RA_AllocARMRegister j0 of (tmp, j) \<Rightarrow>
        case EMIT_LoadFromEffectiveAddress sz 0xff (ea_field opcode) 0 True False s p j of (src, _, ext_words, j) \<Rightarrow>
        let j = (if sz = 4 then EMIT_rf [subs_reg 31 dst src LSL 0] j
                 else if sz = 2 then EMIT_rf [lsl_i tmp dst 16, subs_reg 31 tmp src LSL 16] j
                 else if sz = 1 then EMIT_rf [lsl_i tmp dst 24, subs_reg 31 tmp src LSL 24] j
                 else j)
        in (at p ext_words, update_flags_cmp update_mask (EMIT_AdvancePC (of_nat (2 * (ext_words + 1)))
              (RA_FreeARMRegister src (RA_FreeARMRegister tmp j)))))"

definition EMIT_CMPA_ext :: "u32 \<Rightarrow> cache_sys \<Rightarrow> u16 \<Rightarrow> u64 \<Rightarrow> jit \<Rightarrow> handler_result" where
  "EMIT_CMPA_ext jit_control2 s opcode p j0 =
    (let update_mask = M68K_GetSRMask jit_control2 s (p - 2); sz = (if drop_bit 8 opcode AND 1 \<noteq> 0 then 4 else 2) :: u8;
         dst = RA_MapM68kRegister (8 + field_9 opcode)
     in case (if sz = 4 then EMIT_LoadFromEffectiveAddress sz 0xff (ea_field opcode) 0 True False s p j0
              else EMIT_LoadFromEffectiveAddress (0x80 OR sz) 0xff (ea_field opcode) 0 False False s p j0) of
          (src, _, ext_words, j) \<Rightarrow>
        (at p ext_words, update_flags_cmp update_mask (EMIT_AdvancePC (of_nat (2 * (ext_words + 1)))
           (RA_FreeARMRegister src (EMIT_rf [cmp_reg dst src LSL 0] j)))))"

definition EMIT_CMPM :: "u32 \<Rightarrow> cache_sys \<Rightarrow> u16 \<Rightarrow> u64 \<Rightarrow> jit \<Rightarrow> handler_result" where
  "EMIT_CMPM jit_control2 s opcode p j0 =
    (let update_mask = M68K_GetSRMask jit_control2 s (p - 2); sz = operand_size opcode
     in case RA_AllocARMRegister j0 of (tmp, j) \<Rightarrow>
        case EMIT_LoadFromEffectiveAddress sz 0xff (0x18 OR reg_field opcode) 0 True False s p j of (src, _, ext_words, j) \<Rightarrow>
        case EMIT_LoadFromEffectiveAddress sz 0xff (0x18 OR field_9 opcode) ext_words True False s p j of (dst, _, ext_words, j) \<Rightarrow>
        let j = (if sz = 4 then EMIT_rf [subs_reg tmp dst src LSL 0] j
                 else if sz = 2 then EMIT_rf [lsl_i tmp dst 16, subs_reg tmp tmp src LSL 16] j
                 else if sz = 1 then EMIT_rf [lsl_i tmp dst 24, subs_reg tmp tmp src LSL 24] j
                 else j)
        in (at p ext_words, update_flags_cmp update_mask (EMIT_AdvancePC (of_nat (2 * (ext_words + 1)))
              (RA_FreeARMRegister dst (RA_FreeARMRegister src (RA_FreeARMRegister tmp j))))))"

end
