(* ===== verification/Insn_Move.thy ===== *)
theory Insn_Move
  imports Insn_Arith
begin

text \<open>
  \<open>EMIT_moveq\<close> of \<open>M68k_MOVE.c\<close>: the value is part of the opcode, and so are the flags. The
  function gets the address of the opcode itself. The result is \<open>None\<close> for the opcodes with bit
  8 set, which raise an exception.
\<close>

definition moveq_flags :: "u8 \<Rightarrow> u8 \<Rightarrow> jit \<Rightarrow> jit" where
  "moveq_flags update_mask val j0 =
    (if update_mask \<noteq> 0 then
       (case RA_ModifyCC j0 of (cc, j) \<Rightarrow>
        let alt_mask = (if update_mask AND 3 \<noteq> 0 \<and> update_mask AND 3 < 3 then update_mask XOR 3 else update_mask);
            j = EMIT_ClearFlags cc alt_mask j
        in if val <s 0 then EMIT_SetFlags cc SR_N j
           else if val = 0 then EMIT_SetFlags cc SR_Z j
           else j)
     else j0)"

definition EMIT_moveq :: "u32 \<Rightarrow> cache_sys \<Rightarrow> u64 \<Rightarrow> jit \<Rightarrow> handler_result option" where
  "EMIT_moveq jit_control2 s p j =
    (let update_mask = M68K_GetSRMask jit_control2 s p; opcode = code16 s p; val = ucast (opcode AND 0xff) :: u8;
         tmp_reg = RA_MapM68kRegisterForWrite (field_9 opcode)
     in if opcode AND 0x100 \<noteq> 0 then None
        else
          let j = (if val = 0 then EMIT [mov_reg tmp_reg 31] j else EMIT [mov_immed_s8 tmp_reg val] j)
          in Some (p + 2, moveq_flags update_mask val (EMIT_AdvancePC 2 j)))"

end
