(* ===== verification/Dispatch.thy ===== *)
theory Dispatch
  imports Insn_Logic Insn_Move SR_Scan
begin

text \<open>
  From an opcode to its emitter: \<open>EmitINSN\<close> of \<open>M68k_Translator.c\<close>, and the functions of the opcode
  groups 8, 9, B, C and D, which look the opcode up in their table and call the emitter of the
  row. The result is \<open>None\<close> where the program goes on with code outside the model: the emitters
  of other instructions, and the exception that an opcode without a row raises.
\<close>

section \<open>Groups\<close>

type_synonym emitter = "cache_sys \<Rightarrow> u16 \<Rightarrow> u64 \<Rightarrow> jit \<Rightarrow> handler_result"

text \<open>The emitter that a name in a table stands for; most names are aliases.\<close>

fun emitter_8 :: "u32 \<Rightarrow> handler_8 \<Rightarrow> emitter option" where
  "emitter_8 c H_OR_reg = Some (EMIT_OR_reg c)"
| "emitter_8 c H_OR_mem = Some (EMIT_OR_reg c)"
| "emitter_8 c H_OR_ext = Some (EMIT_OR_reg c)"
| "emitter_8 c _ = None"

fun emitter_9 :: "u32 \<Rightarrow> handler_9 \<Rightarrow> emitter option" where
  "emitter_9 c H_SUB_reg = Some (EMIT_SUB_reg c)"
| "emitter_9 c H_SUB_mem = Some (EMIT_SUB_reg c)"
| "emitter_9 c H_SUB_ext = Some (EMIT_SUB_reg c)"
| "emitter_9 c _ = None"

fun emitter_B :: "u32 \<Rightarrow> handler_B \<Rightarrow> emitter option" where
  "emitter_B c H_CMP_reg = Some (EMIT_CMP_ext c)"
| "emitter_B c H_CMP_mem = Some (EMIT_CMP_ext c)"
| "emitter_B c H_CMP_ext = Some (EMIT_CMP_ext c)"
| "emitter_B c H_CMPA_reg = Some (EMIT_CMPA_ext c)"
| "emitter_B c H_CMPA_mem = Some (EMIT_CMPA_ext c)"
| "emitter_B c H_CMPA_ext = Some (EMIT_CMPA_ext c)"
| "emitter_B c H_CMPM = Some (EMIT_CMPM c)"
| "emitter_B c H_EOR_reg = Some (EMIT_EOR_ext c)"
| "emitter_B c H_EOR_mem = Some (EMIT_EOR_ext c)"
| "emitter_B c H_EOR_ext = Some (EMIT_EOR_ext c)"

fun emitter_C :: "u32 \<Rightarrow> handler_C \<Rightarrow> emitter option" where
  "emitter_C c H_AND_reg = Some (EMIT_AND_ext c)"
| "emitter_C c H_AND_mem = Some (EMIT_AND_ext c)"
| "emitter_C c H_AND_ext = Some (EMIT_AND_ext c)"
| "emitter_C c _ = None"

fun emitter_D :: "u32 \<Rightarrow> handler_D \<Rightarrow> emitter option" where
  "emitter_D c H_ADD_reg = Some (EMIT_ADD_ext c)"
| "emitter_D c H_ADD_mem = Some (EMIT_ADD_ext c)"
| "emitter_D c H_ADD_ext = Some (EMIT_ADD_ext c)"
| "emitter_D c _ = None"

text \<open>The functions of the groups are the same but for the table.\<close>

definition line_group :: "'e opcode_def list \<Rightarrow> ('e \<Rightarrow> emitter option) \<Rightarrow> cache_sys \<Rightarrow> u64 \<Rightarrow> jit \<Rightarrow> handler_result option" where
  "line_group t emitter s p j =
    (let opcode = code16 s p
     in case InsnTable_entry t (unat (opcode AND 0x1ff)) of
          None \<Rightarrow> None
        | Some row \<Rightarrow> map_option (\<lambda>emit. emit s opcode (p + 2) j) (emitter (od_Emit row)))"

definition EMIT_line8 :: "u32 \<Rightarrow> cache_sys \<Rightarrow> u64 \<Rightarrow> jit \<Rightarrow> handler_result option" where
  "EMIT_line8 c = line_group InsnTable_8 (emitter_8 c)"

definition EMIT_line9 :: "u32 \<Rightarrow> cache_sys \<Rightarrow> u64 \<Rightarrow> jit \<Rightarrow> handler_result option" where
  "EMIT_line9 c = line_group InsnTable_9 (emitter_9 c)"

definition EMIT_lineB :: "u32 \<Rightarrow> cache_sys \<Rightarrow> u64 \<Rightarrow> jit \<Rightarrow> handler_result option" where
  "EMIT_lineB c = line_group InsnTable_B (emitter_B c)"

definition EMIT_lineC :: "u32 \<Rightarrow> cache_sys \<Rightarrow> u64 \<Rightarrow> jit \<Rightarrow> handler_result option" where
  "EMIT_lineC c = line_group InsnTable_C (emitter_C c)"

definition EMIT_lineD :: "u32 \<Rightarrow> cache_sys \<Rightarrow> u64 \<Rightarrow> jit \<Rightarrow> handler_result option" where
  "EMIT_lineD c = line_group InsnTable_D (emitter_D c)"

definition line_array :: "u32 \<Rightarrow> u16 \<Rightarrow> cache_sys \<Rightarrow> u64 \<Rightarrow> jit \<Rightarrow> handler_result option" where
  "line_array c grp =
    (if grp = 7 then EMIT_moveq c else if grp = 8 then EMIT_line8 c else if grp = 9 then EMIT_line9 c else if grp = 11 then EMIT_lineB c
     else if grp = 12 then EMIT_lineC c else if grp = 13 then EMIT_lineD c else (\<lambda>_ _ _. None))"

section \<open>One instruction\<close>

text \<open>
  What is emitted before an instruction: marks for the debugger, an event for the performance
  counter, and a read that slows down code in chip memory. The counter of the latter is a
  static variable of the function.
\<close>

definition debug_marks :: "nat \<Rightarrow> u16 \<Rightarrow> u64 \<Rightarrow> jit \<Rightarrow> jit" where
  "debug_marks debug opcode p j =
    (let j = (if 2 < debug then EMIT [hint_i 0, mov_immed_u16 31 opcode 0, movk_immed_u16 31 (ucast (drop_bit 16 p)) 1,
                 movk_immed_u16 31 (ucast p) 0] j else j)
     in if 1 < debug then EMIT [hint_i 1] j else j)"

definition debug_event :: "u32 \<Rightarrow> jit \<Rightarrow> jit" where
  "debug_event debug_cnt j =
    (if debug_cnt AND 1 \<noteq> 0 then
       (case RA_AllocARMRegister j of (reg, j) \<Rightarrow>
          RA_FreeARMRegister reg (EMIT [mov_immed_u16 reg 1 0, msr_i reg 3 3 9 12 4] j))
     else j)"

definition chip_slowdown :: "u32 \<Rightarrow> u64 \<Rightarrow> u32 \<Rightarrow> jit \<Rightarrow> u32 \<times> jit" where
  "chip_slowdown jit_control2 p counter j =
    (if jit_control2 AND 1 \<noteq> 0 \<and> p < 0x200000 then
       (let repeat_every = 1 + (drop_bit 8 jit_control2 AND 7)
        in (counter + 1,
            if counter mod repeat_every = 0 then
              (case EMIT_GetOffsetPC 0 j of (off, j) \<Rightarrow> EMIT [ldurh_offset REG_PC 0 (scast off)] j)
            else j))
     else (counter, j))"

definition EmitINSN ::
  "nat \<Rightarrow> u32 \<Rightarrow> u32 \<Rightarrow> cache_sys \<Rightarrow> u64 \<Rightarrow> u32 \<times> jit \<Rightarrow> (u64 \<times> u32 \<times> jit) option" where
  "EmitINSN debug debug_cnt jit_control2 s p cj =
    (let opcode = code16 s p; grp = drop_bit 12 opcode;
         j = debug_event debug_cnt (debug_marks debug opcode p (RESET_FLAGS (snd cj)))
     in case chip_slowdown jit_control2 p (fst cj) j of
          (counter, j) \<Rightarrow> map_option (\<lambda>(p, j). (p, counter, j)) (line_array jit_control2 grp s p j))"

end
