(* ===== verification/Arith_Flags.thy ===== *)
theory Arith_Flags
  imports Flag_Host
begin

text \<open>
  The condition codes of additions and subtractions of bytes, words and long words as the
  processor's manual gives them, and the flags the host sets for the same operation on
  operands shifted to the top of its registers.
\<close>

section \<open>The manual\<close>

text \<open>Operands of \<open>n\<close> bytes, read without and with sign.\<close>

definition uval :: "nat \<Rightarrow> u32 \<Rightarrow> int" where
  "uval n x = uint (take_bit (8 * n) x)"

definition sval :: "nat \<Rightarrow> u32 \<Rightarrow> int" where
  "sval n x = sint (signed_take_bit (8 * n - 1) x)"

definition in_signed :: "nat \<Rightarrow> int \<Rightarrow> bool" where
  "in_signed n i \<longleftrightarrow> - (2 ^ (8 * n - 1)) \<le> i \<and> i < 2 ^ (8 * n - 1)"

fun add_ccr :: "nat \<Rightarrow> u32 \<Rightarrow> u32 \<Rightarrow> ccflag \<Rightarrow> bool" where
  "add_ccr n x y Zf = (take_bit (8 * n) (x + y) = 0)"
| "add_ccr n x y Nf = bit (x + y) (8 * n - 1)"
| "add_ccr n x y Vf = (\<not> in_signed n (sval n x + sval n y))"
| "add_ccr n x y Cf = (2 ^ (8 * n) \<le> uval n x + uval n y)"
| "add_ccr n x y Xf = (2 ^ (8 * n) \<le> uval n x + uval n y)"

fun sub_ccr :: "nat \<Rightarrow> u32 \<Rightarrow> u32 \<Rightarrow> ccflag \<Rightarrow> bool" where
  "sub_ccr n x y Zf = (take_bit (8 * n) (x - y) = 0)"
| "sub_ccr n x y Nf = bit (x - y) (8 * n - 1)"
| "sub_ccr n x y Vf = (\<not> in_signed n (sval n x - sval n y))"
| "sub_ccr n x y Cf = (uval n x < uval n y)"
| "sub_ccr n x y Xf = (uval n x < uval n y)"

section \<open>Operands at the top of a register\<close>

lemma uint_push:
  assumes "k \<le> 32"
  shows "uint (push_bit k x :: u32) = 2 ^ k * uint (take_bit (32 - k) x)"
proof -
  have "uint (push_bit k x) = take_bit 32 (push_bit k (uint x))"
    by (simp add: unsigned_push_bit_eq)
  also have "\<dots> = push_bit k (take_bit (32 - k) (uint x))"
    using assms by (simp add: take_bit_push_bit)
  finally show ?thesis by (simp add: unsigned_take_bit_eq push_bit_eq_mult mult.commute)
qed

lemma sint_push:
  assumes "k < 32"
  shows "sint (push_bit k x :: u32) = 2 ^ k * sint (signed_take_bit (31 - k) x)"
proof -
  have "signed_take_bit 31 (push_bit k (uint x)) = push_bit k (signed_take_bit (31 - k) (uint x))"
    using assms by (intro bit_eqI) (auto simp: bit_simps min_def)
  moreover have "sint (signed_take_bit (31 - k) x) = signed_take_bit (31 - k) (uint x)"
    using assms by (intro bit_eqI) (auto simp: bit_simps min_def)
  moreover have "sint (push_bit k x) = signed_take_bit 31 (push_bit k (uint x))"
    by (intro bit_eqI) (auto simp: bit_simps min_def)
  ultimately show ?thesis by (simp add: push_bit_eq_mult mult.commute)
qed

lemma push_0_iff:
  assumes "k \<le> 32"
  shows "push_bit k x = (0 :: u32) \<longleftrightarrow> take_bit (32 - k) x = 0"
proof -
  have "push_bit k x = 0 \<longleftrightarrow> uint (push_bit k x) = 0" by (simp only: unsigned_eq_0_iff)
  also have "\<dots> \<longleftrightarrow> uint (take_bit (32 - k) x) = 0" by (simp add: uint_push [OF assms])
  finally show ?thesis by (simp only: unsigned_eq_0_iff)
qed

lemma push_add: "push_bit k (x + y :: u32) = push_bit k x + push_bit k y" "push_bit k (x - y :: u32) = push_bit k x - push_bit k y"
  by (simp_all add: push_bit_eq_mult algebra_simps)

lemma sval_range: "0 < n \<Longrightarrow> n \<le> 4 \<Longrightarrow> in_signed n (sval n x)"
proof -
  assume n: "0 < n" "n \<le> 4"
  have "sval n x = signed_take_bit (8 * n - 1) (uint x)"
    unfolding sval_def using n by (intro bit_eqI) (auto simp: bit_simps min_def)
  then show ?thesis
    using signed_take_bit_int_less_exp [of "8 * n - 1" "uint x"] signed_take_bit_int_greater_eq_minus_exp [of "8 * n - 1" "uint x"]
    by (simp add: in_signed_def)
qed

lemma fits_iff:
  fixes i :: int
  assumes "0 < n" "n \<le> 4" "sval n z = signed_take_bit (8 * n - 1) i"
  shows "i = sval n z \<longleftrightarrow> in_signed n i"
proof
  show "i = sval n z \<Longrightarrow> in_signed n i" using sval_range [OF assms(1,2)] by simp
  assume "in_signed n i"
  then show "i = sval n z" unfolding assms(3) in_signed_def by (simp add: signed_take_bit_int_eq_self)
qed

lemma sval_uint: "0 < n \<Longrightarrow> n \<le> 4 \<Longrightarrow> sval n x = signed_take_bit (8 * n - 1) (uint x)"
  unfolding sval_def by (intro bit_eqI) (auto simp: bit_simps min_def)

lemma sval_take: "0 < n \<Longrightarrow> n \<le> 4 \<Longrightarrow> take_bit (8 * n) (sval n x) = take_bit (8 * n) (uint x)"
  by (simp add: sval_uint take_bit_signed_take_bit)

lemma uint_take_sum:
  assumes "n \<le> 4"
  shows "take_bit (8 * n) (uint (x + y :: u32)) = take_bit (8 * n) (uint x + uint y)"
    "take_bit (8 * n) (uint (x - y :: u32)) = take_bit (8 * n) (uint x - uint y)"
proof -
  have "take_bit (8 * n) (take_bit 32 i) = take_bit (8 * n) i" for i :: int
    using assms by (simp add: min_def)
  then show "take_bit (8 * n) (uint (x + y :: u32)) = take_bit (8 * n) (uint x + uint y)"
    "take_bit (8 * n) (uint (x - y :: u32)) = take_bit (8 * n) (uint x - uint y)"
    by (simp_all add: uint_word_ariths take_bit_eq_mod [where ?'a = int, of 32, symmetric, simplified])
qed

lemma sval_sum:
  assumes "0 < n" "n \<le> 4"
  shows "sval n x + sval n y = sval n (x + y) \<longleftrightarrow> in_signed n (sval n x + sval n y)"
    "sval n x - sval n y = sval n (x - y) \<longleftrightarrow> in_signed n (sval n x - sval n y)"
proof -
  let ?t = "take_bit (8 * n) :: int \<Rightarrow> int"
  have a: "?t (sval n x + sval n y) = ?t (uint (x + y))"
    by (metis sval_take [OF assms] uint_take_sum(1) [OF assms(2)] take_bit_add)
  have d: "?t (sval n x - sval n y) = ?t (uint (x - y))"
    by (metis sval_take [OF assms] uint_take_sum(2) [OF assms(2)] take_bit_diff)
  have e: "Suc (8 * n - 1) = 8 * n" using assms(1) by simp
  show "sval n x + sval n y = sval n (x + y) \<longleftrightarrow> in_signed n (sval n x + sval n y)"
    by (rule fits_iff [OF assms]) (simp only: sval_uint [OF assms, of "x + y"] signed_take_bit_eq_iff_take_bit_eq e a)
  show "sval n x - sval n y = sval n (x - y) \<longleftrightarrow> in_signed n (sval n x - sval n y)"
    by (rule fits_iff [OF assms]) (simp only: sval_uint [OF assms, of "x - y"] signed_take_bit_eq_iff_take_bit_eq e d)
qed

section \<open>The host's flags\<close>

lemma shifted_operands:
  assumes "0 < n" "n \<le> 4"
  shows "uint (push_bit (32 - 8 * n) x :: u32) = 2 ^ (32 - 8 * n) * uval n x"
    "sint (push_bit (32 - 8 * n) x :: u32) = 2 ^ (32 - 8 * n) * sval n x"
    "push_bit (32 - 8 * n) x = (0 :: u32) \<longleftrightarrow> take_bit (8 * n) x = 0"
    "bit (push_bit (32 - 8 * n) x :: u32) 31 = bit x (8 * n - 1)"
proof -
  have e: "32 - (32 - 8 * n) = 8 * n" "31 - (32 - 8 * n) = 8 * n - 1" using assms by simp_all
  show "uint (push_bit (32 - 8 * n) x :: u32) = 2 ^ (32 - 8 * n) * uval n x"
    using uint_push [of "32 - 8 * n" x] by (simp add: uval_def e)
  show "sint (push_bit (32 - 8 * n) x :: u32) = 2 ^ (32 - 8 * n) * sval n x"
    using sint_push [of "32 - 8 * n" x] assms by (simp add: sval_def e)
  show "push_bit (32 - 8 * n) x = (0 :: u32) \<longleftrightarrow> take_bit (8 * n) x = 0"
    using push_0_iff [of "32 - 8 * n" x] by (simp add: e)
  show "bit (push_bit (32 - 8 * n) x :: u32) 31 = bit x (8 * n - 1)"
    using assms by (auto simp: bit_simps)
qed

lemma add_host_flags:
  assumes "0 < n" "n \<le> 4"
  shows "host_flag (add_flags (push_bit (32 - 8 * n) x) (push_bit (32 - 8 * n) y) False m) f = add_ccr n x y f"
proof -
  let ?k = "32 - 8 * n"
  note o = shifted_operands [OF assms]
  have "(2 :: int) ^ 32 = 2 ^ ?k * 2 ^ (8 * n)" using assms by (simp flip: power_add)
  then have c: "2 ^ 32 \<le> unat (push_bit ?k x) + unat (push_bit ?k y) \<longleftrightarrow> 2 ^ (8 * n) \<le> uval n x + uval n y"
  proof -
    assume p: "(2 :: int) ^ 32 = 2 ^ ?k * 2 ^ (8 * n)"
    have "2 ^ 32 \<le> unat (push_bit ?k x) + unat (push_bit ?k y) \<longleftrightarrow>
        (2 :: int) ^ 32 \<le> uint (push_bit ?k x) + uint (push_bit ?k y)"
      by (simp only: unat_eq_nat_uint flip: of_nat_le_iff [where ?'a = int]) (simp)
    also have "\<dots> \<longleftrightarrow> 2 ^ ?k * 2 ^ (8 * n) \<le> 2 ^ ?k * (uval n x + uval n y)"
      unfolding o p by (simp only: distrib_left)
    finally show ?thesis by (simp only: mult_le_cancel_left_pos zero_less_power zero_less_numeral)
  qed
  have "sint (push_bit ?k x) + sint (push_bit ?k y) = sint (push_bit ?k (x + y)) \<longleftrightarrow> sval n x + sval n y = sval n (x + y)"
    unfolding o by (simp flip: distrib_left)
  then show ?thesis
    using c sval_sum(1) [OF assms, of x y] o(3,4) [of "x + y"]
    by (cases f) (simp_all add: add_flags_def Let_def push_add)
qed

lemma sub_host_flags:
  assumes "0 < n" "n \<le> 4"
  shows "host_flag_sub (add_flags (push_bit (32 - 8 * n) x) (NOT (push_bit (32 - 8 * n) y)) True m) f = sub_ccr n x y f"
proof -
  let ?k = "32 - 8 * n" and ?x = "push_bit (32 - 8 * n) x" and ?y = "push_bit (32 - 8 * n) y"
  note o = shifted_operands [OF assms]
  have r: "?x + NOT ?y + 1 = push_bit ?k (x - y)" by (simp add: push_add not_eq_complement)
  have "take_bit 32 (uint ?y) = uint ?y" using unsigned_less [of ?y, where ?'a = int] by (simp add: take_bit_int_eq_self)
  then have u: "uint (NOT ?y) = 2 ^ 32 - 1 - uint ?y"
    by (simp add: unsigned_not_eq take_bit_not_eq_mask_diff mask_eq_exp_minus_1)
  have c: "2 ^ 32 \<le> unat ?x + unat (NOT ?y) + 1 \<longleftrightarrow> \<not> uval n x < uval n y"
  proof -
    have "2 ^ 32 \<le> unat ?x + unat (NOT ?y) + 1 \<longleftrightarrow> (2 :: int) ^ 32 \<le> uint ?x + uint (NOT ?y) + 1"
      by (simp only: unat_eq_nat_uint flip: of_nat_le_iff [where ?'a = int]) (simp)
    also have "\<dots> \<longleftrightarrow> \<not> 2 ^ ?k * uval n x < 2 ^ ?k * uval n y" unfolding u o by auto
    finally show ?thesis by simp
  qed
  have "sint (NOT ?y) = NOT (sint ?y)" by (intro bit_eqI) (auto simp: bit_simps min_def)
  then have "sint (NOT ?y) = - 1 - sint ?y" by (simp add: not_int_def)
  then have "sint ?x + sint (NOT ?y) + 1 = sint (push_bit ?k (x - y)) \<longleftrightarrow> sval n x - sval n y = sval n (x - y)"
    unfolding o by (simp flip: right_diff_distrib)
  then show ?thesis
    using c sval_sum(2) [OF assms, of x y] o(3,4) [of "x - y"]
    by (cases f) (simp_all add: add_flags_def Let_def r)
qed

end
