(* ===== verification/Insn_Sem.thy ===== *)
theory Insn_Sem
  imports Insn_Arith Arith_Flags EA_Theorems Flag_Theorems
begin

text \<open>
  The contracts that the correctness of whole instructions is composed of: code that may
  change the host's flags, code that updates the CCR, and the condition codes that the
  processor's manual gives to an addition or subtraction of bytes, words and long words,
  with the proof that the host's flags after the operation on shifted operands agree.
\<close>

section \<open>Code that changes registers and the host's flags\<close>

definition opers :: "u8 set \<Rightarrow> jit \<Rightarrow> mstate \<Rightarrow> jit \<Rightarrow> mstate \<Rightarrow> bool" where
  "opers S j m j' m' \<longleftrightarrow> produces j m j' m' \<and>
     (\<forall>r. r \<notin> S \<longrightarrow> r \<notin> arm_temps - live_temps j \<longrightarrow> rdX m' r = rdX m r) \<and>
     m_simd m' = m_simd m \<and>
     live_temps j \<subseteq> live_temps j' \<and> status_part j' = status_part j \<and> (REG_PC \<notin> S \<longrightarrow> pc_rel j' = pc_rel j)"

lemma acts_opers: "acts S j m j' m' \<Longrightarrow> opers S j m j' m'"
  by (simp add: acts_def opers_def)

lemma opers_trans:
  assumes "opers S j m j1 m1" "opers S j1 m1 j2 m2"
  shows "opers S j m j2 m2"
proof -
  from assms have "produces j m j2 m2" unfolding opers_def using produces_trans by blast
  with assms show ?thesis by (auto simp: opers_def)
qed

lemma opers_mono: "opers S j m j' m' \<Longrightarrow> S \<subseteq> T \<Longrightarrow> opers T j m j' m'"
  by (auto simp: opers_def)

lemma opers_alloc:
  assumes "alloc_result j r j1" "opers (insert r S) j1 m j' m'"
  shows "opers S j m j' m'"
proof -
  have "r \<noteq> REG_PC" using assms(1) by (auto simp: alloc_result_def arm_temps_def REG_PC_def)
  then show ?thesis using assms by (auto simp: opers_def alloc_result_def produces_def)
qed

lemma opers_Free:
  assumes "opers S j m j' m'" "r \<notin> live_temps j"
  shows "opers S j m (RA_FreeARMRegister r j') m'"
  using assms live_Free_keep [OF assms(2)] by (auto simp: opers_def produces_def)

lemma opers_temp:
  assumes "alloc_result j r j1" "opers (insert r S) j1 m j' m'"
  shows "opers S j m (RA_FreeARMRegister r j') m'"
  using opers_Free [OF opers_alloc [OF assms]] assms(1) by (simp add: alloc_result_def)

lemma opers_decoded:
  assumes "decode (fetch w) = Some i" "\<not> is_branch i" "\<And>s. s \<notin> S \<Longrightarrow> rdX (exec i m) s = rdX m s"
    "m_simd (exec i m) = m_simd m"
  shows "opers S j m (EMIT [w] j) (exec i m)"
  using assms by (simp add: opers_def produces_def run_decoded [OF assms(1,2)] no_branches_decoded [OF assms(1,2)])

text \<open>Clearing \<open>host_flags\<close> is seen by none of the relations.\<close>

lemma EMIT_rf_RESET: "EMIT_rf ws j = RESET_FLAGS (EMIT ws j)"
  by (simp add: EMIT_rf_def RESET_FLAGS_def EMIT_def)

lemma RESET_view [simp]:
  "live_temps (RESET_FLAGS j) = live_temps j" "status_part (RESET_FLAGS j) = status_part j" "tc_code (RESET_FLAGS j) = tc_code j"
  "pc_rel (RESET_FLAGS j) = pc_rel j" "RA_FreeARMRegister r (RESET_FLAGS j) = RESET_FLAGS (RA_FreeARMRegister r j)"
  "free_temps n (RESET_FLAGS j) = free_temps n j" "EMIT ws (RESET_FLAGS j) = RESET_FLAGS (EMIT ws j)"
  by (simp_all add: RESET_FLAGS_def live_temps_def status_part_def RA_FreeARMRegister_def free_temps_def EMIT_def)

lemma EMIT_rf_view [simp]:
  "live_temps (EMIT_rf ws j) = live_temps j" "status_part (EMIT_rf ws j) = status_part j" "free_temps n (EMIT_rf ws j) = free_temps n j"
  by (simp_all add: EMIT_rf_RESET free_temps_def)

lemma RESET_relations [simp]:
  "produces (RESET_FLAGS j) m j' m' = produces j m j' m'" "produces j m (RESET_FLAGS j') m' = produces j m j' m'"
  "opers S (RESET_FLAGS j) m j' m' = opers S j m j' m'" "opers S j m (RESET_FLAGS j') m' = opers S j m j' m'"
  "acts S (RESET_FLAGS j) m j' m' = acts S j m j' m'" "acts S j m (RESET_FLAGS j') m' = acts S j m j' m'"
  by (simp_all add: produces_def opers_def acts_def)

lemma opers_keeps: "opers S j m j' m' \<Longrightarrow> r \<notin> S \<Longrightarrow> r \<notin> arm_temps - live_temps j \<Longrightarrow> rdX m' r = rdX m r"
  by (simp add: opers_def)

lemma opers_reg_is:
  "opers S j m j' m' \<Longrightarrow> r \<notin> S \<Longrightarrow> r \<notin> arm_temps - live_temps j \<Longrightarrow> reg_is m' r v = reg_is m r v"
  by (simp add: reg_is_def opers_keeps)

text \<open>
  Such code keeps the status registers, cached or not, as long as it leaves the registers
  that cache them alone: these are temporaries in use.
\<close>

lemma opers_status:
  assumes "opers S j m j' m'" "S \<inter> live_temps j = {}" "ra_wf j" "coherent j m"
  shows "ra_wf j'" "coherent j' m'" "same_status j m j' m'" "reg_CC j' = reg_CC j"
proof -
  have s: "status_part j' = status_part j" using assms(1) by (simp add: opers_def)
  then have f: "reg_CC j' = reg_CC j" "mod_CC j' = mod_CC j" "reg_FPCR j' = reg_FPCR j" "mod_FPCR j' = mod_FPCR j"
      "reg_FPSR j' = reg_FPSR j" "mod_FPSR j' = mod_FPSR j"
    by (simp_all add: status_part_def)
  show "reg_CC j' = reg_CC j" by (rule f)
  show "ra_wf j'" using assms(1,3) status_part_regs [OF s] by (auto simp: ra_wf_live opers_def)
  have k: "rdX m' x = rdX m x" if "x \<in> {reg_CC j, reg_FPCR j, reg_FPSR j}" "x \<noteq> 0xff" for x
  proof -
    have "x \<in> live_temps j" using status_reg_temp [OF assms(3), of x] that by blast
    then show ?thesis using opers_keeps [OF assms(1)] assms(2) by blast
  qed
  have "m_simd m' = m_simd m" using assms(1) by (simp add: opers_def)
  then have v: "cc_view j' m' = cc_view j m" "fpcr_view j' m' = fpcr_view j m" "fpsr_view j' m' = fpsr_view j m"
    using k f by (simp_all add: cc_view_def fpcr_view_def fpsr_view_def)
  then show "same_status j m j' m'" by (simp add: same_status_def)
  show "coherent j' m'" using assms(4) f v \<open>m_simd m' = m_simd m\<close> by (simp add: coherent_def)
qed

text \<open>A register that was free at the start may be changed later on.\<close>

lemma opers_fresh:
  assumes "opers S j m j1 m1" "opers (S \<union> T) j1 m1 j2 m2" "T \<subseteq> arm_temps - live_temps j"
  shows "opers S j m j2 m2"
proof -
  have "REG_PC \<notin> arm_temps" by (simp add: arm_temps_def REG_PC_def)
  moreover have "produces j m j2 m2" using assms(1,2) unfolding opers_def using produces_trans by blast
  ultimately show ?thesis using assms unfolding opers_def by auto
qed

section \<open>Code that also updates the CCR\<close>

text \<open>A flag as the program sees it.\<close>

definition ccf :: "jit \<Rightarrow> mstate \<Rightarrow> ccflag \<Rightarrow> bool" where
  "ccf j m f = bit (cc_view j m) (alt_bit f)"

text \<open>
  Code that may change the registers in \<open>S\<close>, temporaries and the flags in the mask \<open>T\<close>,
  and keeps the allocator's invariants and the rest of the status registers. A register
  that caches the CCR keeps doing so.
\<close>

definition effect :: "u8 set \<Rightarrow> u8 \<Rightarrow> jit \<Rightarrow> mstate \<Rightarrow> jit \<Rightarrow> mstate \<Rightarrow> bool" where
  "effect S T j m j' m' \<longleftrightarrow> produces j m j' m' \<and> ra_wf j' \<and> coherent j' m' \<and>
     (\<forall>f. \<not> in_mask f T \<longrightarrow> ccf j' m' f = ccf j m f) \<and> drop_bit 5 (cc_view j' m') = drop_bit 5 (cc_view j m) \<and>
     fpcr_view j' m' = fpcr_view j m \<and> fpsr_view j' m' = fpsr_view j m \<and>
     (\<forall>r. r \<notin> S \<longrightarrow> r \<notin> arm_temps \<longrightarrow> rdX m' r = rdX m r) \<and> (REG_PC \<notin> S \<longrightarrow> pc_rel j' = pc_rel j) \<and>
     (reg_CC j \<noteq> 0xff \<longrightarrow> reg_CC j' = reg_CC j)"

lemma effect_refl: "ra_wf j \<Longrightarrow> coherent j m \<Longrightarrow> effect S T j m j m"
  by (simp add: effect_def produces_same)

lemma effect_trans:
  assumes "effect S T j m j1 m1" "effect S T j1 m1 j2 m2"
  shows "effect S T j m j2 m2"
proof -
  from assms have "produces j m j2 m2" unfolding effect_def using produces_trans by blast
  with assms show ?thesis unfolding effect_def by metis
qed

lemma effect_mono:
  assumes "effect S T j m j' m'" "S \<subseteq> S'" "\<And>f. in_mask f T \<Longrightarrow> in_mask f T'"
  shows "effect S' T' j m j' m'"
  using assms unfolding effect_def by blast

lemma effect_keeps: "effect S T j m j' m' \<Longrightarrow> r \<notin> S \<Longrightarrow> r \<notin> arm_temps \<Longrightarrow> rdX m' r = rdX m r"
  by (simp add: effect_def)

lemma effect_reg_is: "effect S T j m j' m' \<Longrightarrow> r \<notin> S \<Longrightarrow> r \<notin> arm_temps \<Longrightarrow> reg_is m' r v = reg_is m r v"
  by (simp add: effect_keeps reg_is_def)

lemma effect_wf: "effect S T j m j' m' \<Longrightarrow> ra_wf j' \<and> coherent j' m'"
  by (simp add: effect_def)

lemma opers_effect:
  assumes "opers S j m j' m'" "S \<inter> live_temps j = {}" "ra_wf j" "coherent j m"
  shows "effect S T j m j' m'"
proof -
  note s = opers_status [OF assms]
  show ?thesis
    using s assms(1) unfolding effect_def opers_def same_status_def ccf_def by auto
qed

lemma updates_effect:
  assumes "updates {REG_PC} j m j' m'" "ra_wf j" "coherent j m"
  shows "effect {REG_PC} T j m j' m'"
proof -
  have "opers {REG_PC} j m j' m'" using assms(1) by (simp add: updates_def opers_def)
  moreover have "REG_PC \<notin> live_temps j" using live_temps_arm [of REG_PC j] by (auto simp: arm_temps_def REG_PC_def)
  ultimately show ?thesis using opers_effect assms(2,3) by blast
qed

lemma effect_Free:
  assumes "effect S T j m j' m'" "r \<in> arm_temps \<Longrightarrow> r \<notin> set (status_regs j')"
  shows "effect S T j m (RA_FreeARMRegister r j') m'"
proof -
  have "ra_wf (RA_FreeARMRegister r j')"
  proof (cases "r \<in> arm_temps")
    case True
    then show ?thesis using ra_wf_Free assms by (simp add: effect_def)
  next
    case False
    then show ?thesis using assms(1) by (simp add: effect_def ra_wf_live live_Free_other)
  qed
  moreover have "coherent (RA_FreeARMRegister r j') m' = coherent j' m'" "ccf (RA_FreeARMRegister r j') m' = ccf j' m'"
    by (simp_all add: coherent_def ccf_def fun_eq_iff)
  ultimately show ?thesis using assms(1) unfolding effect_def by simp
qed

section \<open>The distance of the program counter\<close>

lemma pc_Flush [simp]: "pc_rel (RA_FlushCC j) = pc_rel j" "pc_rel (RA_FlushFPCR j) = pc_rel j" "pc_rel (RA_FlushFPSR j) = pc_rel j"
  by (simp_all add: RA_FlushCC_def RA_FlushFPCR_def RA_FlushFPSR_def Let_def)

lemma pc_int_alloc [simp]: "pc_rel (snd (int_arm_alloc_reg j)) = pc_rel j"
  using int_alloc_fields(9) [of j] by (metis prod.collapse)

lemma pc_alloc [simp]: "pc_rel (snd (RA_AllocARMRegister j)) = pc_rel j"
  by (simp add: RA_AllocARMRegister_def case_prod_beta)

lemma pc_ModifyCC [simp]: "pc_rel (snd (RA_ModifyCC j)) = pc_rel j"
  by (simp add: RA_ModifyCC_def RA_GetCC_def case_prod_beta)

lemma pc_ClearFlags [simp]: "pc_rel (EMIT_ClearFlags cc k j) = pc_rel j"
  by (simp add: EMIT_ClearFlags_alt case_prod_beta split: option.splits)

lemma pc_SetFlags [simp]: "pc_rel (EMIT_SetFlags cc k j) = pc_rel j"
  by (simp add: EMIT_SetFlags_alt case_prod_beta split: option.splits)

lemma pc_SetFlagsConditional [simp]: "pc_rel (EMIT_SetFlagsConditional cc k c j) = pc_rel j"
  by (simp add: EMIT_SetFlagsConditional_alt case_prod_beta split: option.splits)

lemma pc_set_rest [simp]: "pc_rel (set_rest c cc um j) = pc_rel j"
  by (simp add: set_rest_def Let_def)

lemma pc_clear_rest [simp]: "pc_rel (clear_rest cc nd j) = pc_rel j"
  by (simp add: clear_rest_def)

lemma pc_GetFlags [simp]:
  "pc_rel (snd (EMIT_GetNZCV cc nd j)) = pc_rel j" "pc_rel (snd (EMIT_GetNZCVX cc nd j)) = pc_rel j"
  "pc_rel (snd (EMIT_GetNZnCV cc nd j)) = pc_rel j" "pc_rel (snd (EMIT_GetNZnCVX cc nd j)) = pc_rel j"
  "pc_rel (snd (EMIT_GetNZ00 cc nd j)) = pc_rel j"
  by (simp_all add: EMIT_GetNZCV_def EMIT_GetNZCVX_def EMIT_GetNZnCV_def EMIT_GetNZnCVX_def EMIT_GetNZ00_def Let_def
      case_prod_beta)

lemma pc_update_flags [simp]: "pc_rel (update_flags_add um j) = pc_rel j" "pc_rel (update_flags_sub um j) = pc_rel j"
  by (simp_all add: update_flags_add_def update_flags_sub_def case_prod_beta)

section \<open>Updating the CCR register\<close>

lemma opers_cc_views:
  assumes "opers {cc} j m j' m'" "ra_wf j" "coherent j m" "reg_CC j = cc" "cc \<noteq> 0xff" "mod_CC j = 1"
  shows "ra_wf j'" "coherent j' m'" "fpcr_view j' m' = fpcr_view j m" "fpsr_view j' m' = fpsr_view j m"
    "reg_CC j' = cc"
proof -
  have s: "status_part j' = status_part j" using assms(1) by (simp add: opers_def)
  then have f: "reg_CC j' = cc" "mod_CC j' = 1" "reg_FPCR j' = reg_FPCR j" "mod_FPCR j' = mod_FPCR j"
      "reg_FPSR j' = reg_FPSR j" "mod_FPSR j' = mod_FPSR j"
    using assms(4,6) by (simp_all add: status_part_def)
  show "ra_wf j'" using assms(1,2) status_part_regs [OF s] by (auto simp: ra_wf_live opers_def)
  have d: "distinct (status_regs j)" using assms(2) by (simp add: ra_wf_def)
  have r: "rdX m' x = rdX m x" if "x \<in> {reg_FPCR j, reg_FPSR j}" "x \<noteq> 0xff" for x
  proof -
    have "x \<in> live_temps j" using status_reg_temp [OF assms(2), of x] that by blast
    moreover have "x \<noteq> cc" using d that assms(4,5) unfolding distinct_status by auto
    ultimately show ?thesis using assms(1) by (simp add: opers_def)
  qed
  have simd: "m_simd m' = m_simd m" using assms(1) by (simp add: opers_def)
  show v: "fpcr_view j' m' = fpcr_view j m" "fpsr_view j' m' = fpsr_view j m"
    using r f simd by (simp_all add: fpcr_view_def fpsr_view_def)
  show "coherent j' m'" using assms(3) f v simd by (simp add: coherent_def)
  show "reg_CC j' = cc" by (rule f)
qed

text \<open>The temporaries in use after the CCR may have been cached, in a register that was free.\<close>

definition cc_live :: "jit \<Rightarrow> jit \<Rightarrow> bool" where
  "cc_live j j' \<longleftrightarrow> live_temps j' = live_temps j \<union> ({reg_CC j'} - {0xff}) \<and>
     (reg_CC j \<noteq> 0xff \<longrightarrow> reg_CC j' = reg_CC j) \<and> (reg_CC j' \<in> live_temps j \<longrightarrow> reg_CC j' = reg_CC j) \<and>
     set (status_regs j') \<subseteq> insert (reg_CC j') (set (status_regs j))"

lemma cc_live_refl: "ra_wf j \<Longrightarrow> cc_live j j"
  using status_reg_temp [of j "reg_CC j"] unfolding cc_live_def by blast

lemma cc_live_cong:
  assumes "live_temps j1 = live_temps j" "status_part j1 = status_part j"
  shows "cc_live j1 j' = cc_live j j'" "cc_live j' j1 = cc_live j' j"
proof -
  have "reg_CC j1 = reg_CC j" using assms(2) by (simp add: status_part_def)
  then show "cc_live j1 j' = cc_live j j'" "cc_live j' j1 = cc_live j' j"
    using assms(1) status_part_regs [OF assms(2)] by (simp_all add: cc_live_def)
qed

lemma cc_liveD:
  assumes "cc_live j j'"
  shows "live_temps j' = live_temps j \<union> ({reg_CC j'} - {0xff})" "reg_CC j \<noteq> 0xff \<Longrightarrow> reg_CC j' = reg_CC j"
    "reg_CC j' \<in> live_temps j \<Longrightarrow> reg_CC j' = reg_CC j" "set (status_regs j') \<subseteq> insert (reg_CC j') (set (status_regs j))"
  using assms unfolding cc_live_def by blast+

lemma cc_liveI:
  assumes "live_temps j' = live_temps j \<union> ({reg_CC j'} - {0xff})" "reg_CC j \<noteq> 0xff \<Longrightarrow> reg_CC j' = reg_CC j"
    "reg_CC j' \<in> live_temps j \<Longrightarrow> reg_CC j' = reg_CC j" "set (status_regs j') \<subseteq> insert (reg_CC j') (set (status_regs j))"
  shows "cc_live j j'"
  using assms unfolding cc_live_def by blast

lemma cc_live_trans:
  assumes "cc_live j j1" "cc_live j1 j2"
  shows "cc_live j j2"
proof (cases "reg_CC j1 = 0xff")
  case True
  then have e: "live_temps j1 = live_temps j" "reg_CC j = 0xff" using cc_liveD(1,2) [OF assms(1)] by auto
  have "set (status_regs j1) \<subseteq> set (status_regs j)"
    using cc_liveD(4) [OF assms(1)] set_status [of j1] True by auto
  then have 4: "set (status_regs j2) \<subseteq> insert (reg_CC j2) (set (status_regs j))" using cc_liveD(4) [OF assms(2)] by blast
  show ?thesis
  proof (rule cc_liveI [OF _ _ _ 4])
    show "live_temps j2 = live_temps j \<union> ({reg_CC j2} - {0xff})" using cc_liveD(1) [OF assms(2)] e(1) by simp
    show "reg_CC j2 = reg_CC j" if "reg_CC j \<noteq> 0xff" using that e(2) by simp
    show "reg_CC j2 = reg_CC j" if "reg_CC j2 \<in> live_temps j" using cc_liveD(3) [OF assms(2)] that True e by simp
  qed
next
  case False
  then have c: "reg_CC j2 = reg_CC j1" using cc_liveD(2) [OF assms(2)] by blast
  have "live_temps j2 = live_temps j1" using cc_liveD(1) [OF assms(2)] cc_liveD(1) [OF assms(1)] unfolding c by blast
  moreover have "set (status_regs j2) \<subseteq> insert (reg_CC j1) (set (status_regs j))"
    using cc_liveD(4) [OF assms(2)] cc_liveD(4) [OF assms(1)] unfolding c by blast
  ultimately show ?thesis
    using cc_liveD [OF assms(1)] by - (rule cc_liveI; unfold c; blast)
qed

lemma cc_live_Free:
  assumes "cc_live j1 j2" "live_temps j1 = insert t (live_temps j)" "t \<in> arm_temps - live_temps j"
    "status_part j1 = status_part j" "ra_wf j"
  shows "t \<notin> set (status_regs j2)" "cc_live j (RA_FreeARMRegister t j2)"
proof -
  have s: "reg_CC j1 = reg_CC j" "status_regs j1 = status_regs j"
    using assms(4) status_part_regs [OF assms(4)] by (simp_all add: status_part_def)
  have l: "set (status_regs j) \<subseteq> live_temps j" using assms(5) by (simp add: ra_wf_live)
  have t: "t \<noteq> 0xff" using temp_not_ff assms(3) by blast
  have "t \<noteq> reg_CC j2"
  proof
    assume e: "t = reg_CC j2"
    then have "reg_CC j2 = reg_CC j" using assms(1,2) s(1) by (simp add: cc_live_def)
    then show False using e t status_reg_temp [OF assms(5), of t] assms(3) by auto
  qed
  then show "t \<notin> set (status_regs j2)" using cc_liveD(4) [OF assms(1)] assms(3) s(2) l by auto
  have "live_temps (RA_FreeARMRegister t j2) = live_temps j2 - {t}" using assms(3) by (simp add: live_Free)
  also have "\<dots> = live_temps j \<union> ({reg_CC j2} - {0xff})"
    using cc_liveD(1) [OF assms(1)] assms(2,3) \<open>t \<noteq> reg_CC j2\<close> by auto
  finally have l2: "live_temps (RA_FreeARMRegister t j2) = live_temps j \<union> ({reg_CC j2} - {0xff})" .
  show "cc_live j (RA_FreeARMRegister t j2)"
  proof (rule cc_liveI)
    show "live_temps (RA_FreeARMRegister t j2) = live_temps j \<union> ({reg_CC (RA_FreeARMRegister t j2)} - {0xff})"
      using l2 by simp
    show "reg_CC (RA_FreeARMRegister t j2) = reg_CC j" if "reg_CC j \<noteq> 0xff"
      using cc_liveD(2) [OF assms(1)] that s(1) by simp
    show "reg_CC (RA_FreeARMRegister t j2) = reg_CC j" if "reg_CC (RA_FreeARMRegister t j2) \<in> live_temps j"
      using cc_liveD(3) [OF assms(1)] that s(1) assms(2) by simp
    show "set (status_regs (RA_FreeARMRegister t j2)) \<subseteq> insert (reg_CC (RA_FreeARMRegister t j2)) (set (status_regs j))"
      using cc_liveD(4) [OF assms(1)] s(2) by simp
  qed
qed

lemma ModifyCC_live:
  assumes "ra_wf j" "free_temps 1 j" "RA_ModifyCC j = (cc, j1)"
  shows "live_temps j1 = live_temps j \<union> {cc}" "reg_CC j \<noteq> 0xff \<Longrightarrow> cc = reg_CC j" "cc \<notin> live_temps j \<or> cc = reg_CC j"
    "set (status_regs j1) \<subseteq> insert cc (set (status_regs j))"
proof -
  obtain j0 where g: "RA_GetCC j = (cc, j0)" and j1: "j1 = j0\<lparr>mod_CC := 1\<rparr>"
    using assms(3) by (auto simp: RA_ModifyCC_def split: prod.splits)
  have l1: "live_temps j1 = live_temps j0" by (simp add: j1 live_temps_def)
  have "live_temps j1 = live_temps j \<union> {cc} \<and> (reg_CC j \<noteq> 0xff \<longrightarrow> cc = reg_CC j) \<and>
      (cc \<notin> live_temps j \<or> cc = reg_CC j) \<and> set (status_regs j1) \<subseteq> insert cc (set (status_regs j))"
  proof (cases "reg_CC j = 0xff")
    case True
    obtain r j2 where a: "alloc_result j r j2" using free_temps_1 [OF assms(2)] by blast
    then have e: "cc = r" "j0 = (EMIT [mov_simd_to_reg r 19 TS_H 5] (j2\<lparr>reg_CC := r\<rparr>))\<lparr>mod_CC := 0\<rparr>"
      using RA_GetCC_cases(2) [OF True, of r j2] g by (simp_all add: alloc_result_def)
    have "live_temps j0 = live_temps j2" unfolding e by (simp add: live_temps_def)
    moreover have "set (status_regs j1) \<subseteq> insert cc (set (status_regs j))"
      using a unfolding j1 e by (auto simp: status_regs_def alloc_result_def status_part_def)
    ultimately show ?thesis using a True by (auto simp: l1 e(1) alloc_result_def)
  next
    case False
    then have e: "cc = reg_CC j" "j0 = j" using RA_GetCC_cases(1) [OF False] g by simp_all
    have "cc \<in> live_temps j" using status_reg_temp [OF assms(1), of cc] False e(1) by simp
    moreover have "status_regs j1 = status_regs j" by (simp add: j1 e(2) status_regs_def)
    ultimately show ?thesis using e l1 by auto
  qed
  then show "live_temps j1 = live_temps j \<union> {cc}" "reg_CC j \<noteq> 0xff \<Longrightarrow> cc = reg_CC j"
    "cc \<notin> live_temps j \<or> cc = reg_CC j" "set (status_regs j1) \<subseteq> insert cc (set (status_regs j))" by blast+
qed

text \<open>
  A piece of code behind \<open>RA_ModifyCC\<close> that rewrites the flags in the register, and what
  that means for the program. Its own premises are that the CCR's register is known, and
  that nothing else changed since.
\<close>

lemma ModifyCC_effect:
  assumes "ra_wf j" "coherent j m" "free_temps (Suc n) j" "RA_ModifyCC j = (cc, j1)"
    and segment: "\<And>m1. cc \<in> live_temps j1 \<Longrightarrow> free_temps n j1 \<Longrightarrow> \<forall>s. s \<noteq> cc \<longrightarrow> rdX m1 s = rdX m s \<Longrightarrow>
      \<forall>f. host_flag m1 f = host_flag m f \<Longrightarrow>
      \<exists>m2. opers {cc} j1 m1 j2 m2 \<and> m_mem m2 = m_mem m1 \<and> live_temps j2 = live_temps j1 \<and>
        (\<forall>f. in_mask f um \<longrightarrow> ccr (rdW m2 cc) f = F f) \<and>
        (\<forall>f. \<not> in_mask f T \<longrightarrow> ccr (rdW m2 cc) f = ccr (rdW m1 cc) f) \<and> same_upper (rdW m2 cc) (rdW m1 cc)"
  shows "\<exists>m2. effect {} T j m j2 m2 \<and> (\<forall>f. in_mask f um \<longrightarrow> ccf j2 m2 f = F f) \<and> m_mem m2 = m_mem m \<and>
    cc_live j j2"
proof -
  note g = RA_ModifyCC_free [OF assms(1-4)]
  have f1: "free_temps 1 j" by (rule free_temps_mono [OF assms(3)]) simp
  note lv = ModifyCC_live [OF assms(1) f1 assms(4)]
  obtain m1 where l: "loads cc j m j1 m1" "ucast (rdX m1 cc) = cc_view j m" using g(1) by blast
  then have ld: "ra_wf j1" "coherent j1 m1" "same_status j m j1 m1" "produces j m j1 m1" "cc \<in> arm_temps"
      "\<forall>s. s \<noteq> cc \<longrightarrow> rdX m1 s = rdX m s" "m_mem m1 = m_mem m" "\<forall>f. host_flag m1 f = host_flag m f"
    unfolding loads_def ccflag_all by simp_all
  obtain m2 where o: "opers {cc} j1 m1 j2 m2" "m_mem m2 = m_mem m1" "live_temps j2 = live_temps j1"
      "\<forall>f. in_mask f um \<longrightarrow> ccr (rdW m2 cc) f = F f" "\<forall>f. \<not> in_mask f T \<longrightarrow> ccr (rdW m2 cc) f = ccr (rdW m1 cc) f"
      "same_upper (rdW m2 cc) (rdW m1 cc)"
    using segment [OF g(5,6) ld(6,8)] by blast
  note v = opers_cc_views [OF o(1) ld(1,2) g(2,4,3)]
  have b1: "cc_view j1 m1 = cc_view j m" using ld(3) by (simp add: same_status_def)
  have c: "ccf j2 m2 f = ccr (rdW m2 cc) f" "ccf j m f = ccr (rdW m1 cc) f" for f
    using cc_bits(1) [OF v(5) g(4), of m2 f] cc_bits(1) [OF g(2,4), of m1 f] b1 by (simp_all add: ccf_def)
  have "produces j m j2 m2" using produces_trans [OF ld(4)] o(1) by (simp add: opers_def)
  moreover have "drop_bit 5 (cc_view j2 m2) = drop_bit 5 (cc_view j m)"
    using cc_bits(2) [OF g(2,4) o(6)] v(5) g(2,4) unfolding b1 [symmetric] by (simp add: cc_view_def)
  moreover have "rdX m2 s = rdX m s" if "s \<notin> arm_temps" for s
    using opers_keeps [OF o(1), of s] ld(5,6) that by auto
  moreover have "pc_rel j2 = pc_rel j"
  proof -
    have "REG_PC \<noteq> cc" using ld(5) by (auto simp: arm_temps_def REG_PC_def)
    moreover have "pc_rel j1 = pc_rel j" using pc_ModifyCC [of j] assms(4) by simp
    ultimately show ?thesis using o(1) by (simp add: opers_def)
  qed
  ultimately have "effect {} T j m j2 m2"
    using v ld(3) o(5) c lv(2) unfolding effect_def same_status_def by metis
  moreover have "cc_live j j2"
  proof -
    have "status_regs j2 = status_regs j1" using o(1) by (intro status_part_regs) (simp add: opers_def)
    then have "set (status_regs j2) \<subseteq> insert cc (set (status_regs j))" using lv(4) by simp
    moreover have "live_temps j2 = live_temps j \<union> {cc}" using o(3) lv(1) by simp
    ultimately show ?thesis by (intro cc_liveI) (use lv(2,3) g(4) v(5) in auto)
  qed
  moreover have "m_mem m2 = m_mem m" using o(2) ld(7) by simp
  ultimately show ?thesis using c o(4) by blast
qed

section \<open>The flags of an addition and a subtraction\<close>

lemma updates_opers: "updates S j m j' m' \<Longrightarrow> pc_rel j' = pc_rel j \<Longrightarrow> opers S j m j' m'"
  by (simp add: updates_def opers_def)

lemma cc_not_PC: "cc \<in> live_temps j \<Longrightarrow> cc \<noteq> REG_PC"
  using live_temps_arm [of cc j] by (auto simp: arm_temps_def REG_PC_def)

lemma outside_nzvc: "\<not> in_mask f (um OR 15) \<longleftrightarrow> f = Xf \<and> \<not> in_mask Xf um"
proof -
  have "bit (15 :: u8) n \<longleftrightarrow> n < 4" for n
    using bit_mask_iff [of 4 n, where ?'a = "8 word"] by (auto simp: mask_eq_exp_minus_1 dest: bit_imp_le_length)
  then show ?thesis by (cases f) (simp_all add: in_mask_def bit_or_iff)
qed

lemma tail_segment:
  assumes "cc \<in> live_temps j1" "free_temps 2 j1" "updates {cc} j1 m1 j2 m2"
    "copied h m1 um um' (rdW m1 cc) (rdW m2 cc)" "um' < 32" "c < 14" "\<And>m f. tail_flag (cond_holds c m) m f = h m f"
    "pc_rel j2 = pc_rel j1"
  shows "\<exists>m3. opers {cc} j1 m1 (set_rest c cc um' j2) m3 \<and> m_mem m3 = m_mem m1 \<and>
    live_temps (set_rest c cc um' j2) = live_temps j1 \<and>
    (\<forall>f. in_mask f um \<longrightarrow> ccr (rdW m3 cc) f = h m1 f) \<and>
    (\<forall>f. \<not> in_mask f (um OR 15) \<longrightarrow> ccr (rdW m3 cc) f = ccr (rdW m1 cc) f) \<and> same_upper (rdW m3 cc) (rdW m1 cc)"
proof -
  have lv: "cc \<in> live_temps j2" "free_temps 1 j2" using assms(1-3) by (simp_all add: updates_def free_temps_def)
  obtain m3 where u: "updates {cc} j2 m2 (set_rest c cc um' j2) m3"
    and t: "\<And>f. ccr (rdW m3 cc) f \<longleftrightarrow> ccr (rdW m2 cc) f \<or> (in_mask f um' \<and> tail_flag (cond_holds c m2) m2 f)"
    and up: "same_upper (rdW m3 cc) (rdW m2 cc)"
    using set_rest_updates [OF lv assms(6,5), of m2] by blast
  have "m_n m2 = m_n m1 \<and> m_z m2 = m_z m1 \<and> m_c m2 = m_c m1 \<and> m_v m2 = m_v m1" using assms(3) by (simp add: updates_def)
  then have "tail_flag (cond_holds c m2) m2 f = tail_flag (cond_holds c m1) m1 f" for f
    using cond_holds_cong [of m2 m1 c] by (simp add: tail_flag_cong [of m2 m1])
  then have "(\<forall>f. in_mask f um \<longrightarrow> ccr (rdW m3 cc) f = h m1 f) \<and> (\<not> in_mask Xf um \<longrightarrow> ccr (rdW m3 cc) Xf = ccr (rdW m1 cc) Xf) \<and>
      same_upper (rdW m3 cc) (rdW m1 cc)"
    by (intro copied_tail [OF assms(4,7)]) (use t up in simp_all)
  moreover have v: "updates {cc} j1 m1 (set_rest c cc um' j2) m3" by (rule updates_trans [OF assms(3) u])
  moreover have "opers {cc} j1 m1 (set_rest c cc um' j2) m3" by (rule updates_opers [OF v]) (simp add: assms(8))
  ultimately show ?thesis using v unfolding outside_nzvc by (auto simp: updates_def)
qed

lemma update_flags_add_effect:
  assumes "ra_wf j" "coherent j m" "free_temps 3 j" "um < 32"
  shows "\<exists>m'. effect {} (um OR 15) j m (update_flags_add um j) m' \<and>
    (\<forall>f. in_mask f um \<longrightarrow> ccf (update_flags_add um j) m' f = host_flag m f) \<and> m_mem m' = m_mem m \<and>
    (um \<noteq> 0 \<longrightarrow> cc_live j (update_flags_add um j)) \<and> (um = 0 \<longrightarrow> update_flags_add um j = j)"
proof (cases "um = 0")
  case True
  then show ?thesis using effect_refl [OF assms(1,2)] by (auto simp: update_flags_add_def in_mask_def)
next
  case False
  obtain cc j1 where g: "RA_ModifyCC j = (cc, j1)" by fastforce
  obtain um' j2 where e: "(if um AND SR_X \<noteq> 0 then EMIT_GetNZCVX cc um j1 else EMIT_GetNZCV cc um j1) = (um', j2)"
    by fastforce
  have pc: "pc_rel j2 = pc_rel j1" using arg_cong [OF e, of "\<lambda>x. pc_rel (snd x)"] by (simp split: if_splits)
  have c: "A64_CC_CS < 14" by (simp add: A64_CC_CS_def)
  have f3: "free_temps (Suc 2) j" using assms(3) by simp
  note s = EMIT_GetNZCV_copies [of cc j1 um] EMIT_GetNZCVX_copies [of cc j1 um]
  have "\<exists>m2. effect {} (um OR 15) j m (set_rest A64_CC_CS cc um' j2) m2 \<and>
      (\<forall>f. in_mask f um \<longrightarrow> ccf (set_rest A64_CC_CS cc um' j2) m2 f = host_flag m f) \<and> m_mem m2 = m_mem m \<and>
      cc_live j (set_rest A64_CC_CS cc um' j2)"
  proof (rule ModifyCC_effect [OF assms(1,2) f3 g])
    fix m1 assume m1: "cc \<in> live_temps j1" "free_temps 2 j1" "\<forall>s. s \<noteq> cc \<longrightarrow> rdX m1 s = rdX m s"
      "\<forall>f. host_flag m1 f = host_flag m f"
    have "(\<exists>m2. updates {cc} j1 m1 j2 m2 \<and> copied host_flag m1 um um' (rdW m1 cc) (rdW m2 cc)) \<and> um' < 32"
      using s [OF m1(1,2) assms(4)] e assms(4) and16_less [of um] by (auto split: if_splits)
    then obtain m2 where u: "updates {cc} j1 m1 j2 m2" "copied host_flag m1 um um' (rdW m1 cc) (rdW m2 cc)" "um' < 32"
      by blast
    show "\<exists>m3. opers {cc} j1 m1 (set_rest A64_CC_CS cc um' j2) m3 \<and> m_mem m3 = m_mem m1 \<and>
        live_temps (set_rest A64_CC_CS cc um' j2) = live_temps j1 \<and>
        (\<forall>f. in_mask f um \<longrightarrow> ccr (rdW m3 cc) f = host_flag m f) \<and>
        (\<forall>f. \<not> in_mask f (um OR 15) \<longrightarrow> ccr (rdW m3 cc) f = ccr (rdW m1 cc) f) \<and> same_upper (rdW m3 cc) (rdW m1 cc)"
      using tail_segment [OF m1(1,2) u c tail_host(1) pc] m1(4) by simp
  qed
  with e g False show ?thesis by (simp add: update_flags_add_def)
qed

lemma update_flags_sub_effect:
  assumes "ra_wf j" "coherent j m" "free_temps 3 j" "um < 32"
  shows "\<exists>m'. effect {} (um OR 15) j m (update_flags_sub um j) m' \<and>
    (\<forall>f. in_mask f um \<longrightarrow> ccf (update_flags_sub um j) m' f = host_flag_sub m f) \<and> m_mem m' = m_mem m \<and>
    (um \<noteq> 0 \<longrightarrow> cc_live j (update_flags_sub um j)) \<and> (um = 0 \<longrightarrow> update_flags_sub um j = j)"
proof (cases "um = 0")
  case True
  then show ?thesis using effect_refl [OF assms(1,2)] by (auto simp: update_flags_sub_def in_mask_def)
next
  case False
  obtain cc j1 where g: "RA_ModifyCC j = (cc, j1)" by fastforce
  obtain um' j2 where e: "(if um AND SR_X \<noteq> 0 then EMIT_GetNZnCVX cc um j1 else EMIT_GetNZnCV cc um j1) = (um', j2)"
    by fastforce
  have pc: "pc_rel j2 = pc_rel j1" using arg_cong [OF e, of "\<lambda>x. pc_rel (snd x)"] by (simp split: if_splits)
  have c: "A64_CC_CC < 14" by (simp add: A64_CC_CC_def)
  have f3: "free_temps (Suc 2) j" using assms(3) by simp
  note s = EMIT_GetNZnCV_copies [of cc j1 um] EMIT_GetNZnCVX_copies [of cc j1 um]
  have "\<exists>m2. effect {} (um OR 15) j m (set_rest A64_CC_CC cc um' j2) m2 \<and>
      (\<forall>f. in_mask f um \<longrightarrow> ccf (set_rest A64_CC_CC cc um' j2) m2 f = host_flag_sub m f) \<and> m_mem m2 = m_mem m \<and>
      cc_live j (set_rest A64_CC_CC cc um' j2)"
  proof (rule ModifyCC_effect [OF assms(1,2) f3 g])
    fix m1 assume m1: "cc \<in> live_temps j1" "free_temps 2 j1" "\<forall>s. s \<noteq> cc \<longrightarrow> rdX m1 s = rdX m s"
      "\<forall>f. host_flag m1 f = host_flag m f"
    have "host_flag m1 Cf = host_flag m Cf" "host_flag m1 Vf = host_flag m Vf" "host_flag m1 Zf = host_flag m Zf"
        "host_flag m1 Nf = host_flag m Nf" using m1(4) by blast+
    then have h: "host_flag_sub m1 f = host_flag_sub m f" for f by (cases f) simp_all
    have "(\<exists>m2. updates {cc} j1 m1 j2 m2 \<and> copied host_flag_sub m1 um um' (rdW m1 cc) (rdW m2 cc)) \<and> um' < 32"
      using s [OF m1(1,2) assms(4)] e assms(4) and16_less [of um] by (auto split: if_splits)
    then obtain m2 where u: "updates {cc} j1 m1 j2 m2" "copied host_flag_sub m1 um um' (rdW m1 cc) (rdW m2 cc)" "um' < 32"
      by blast
    show "\<exists>m3. opers {cc} j1 m1 (set_rest A64_CC_CC cc um' j2) m3 \<and> m_mem m3 = m_mem m1 \<and>
        live_temps (set_rest A64_CC_CC cc um' j2) = live_temps j1 \<and>
        (\<forall>f. in_mask f um \<longrightarrow> ccr (rdW m3 cc) f = host_flag_sub m f) \<and>
        (\<forall>f. \<not> in_mask f (um OR 15) \<longrightarrow> ccr (rdW m3 cc) f = ccr (rdW m1 cc) f) \<and> same_upper (rdW m3 cc) (rdW m1 cc)"
      using tail_segment [OF m1(1,2) u c tail_host(2) pc] h by simp
  qed
  with e g False show ?thesis by (simp add: update_flags_sub_def)
qed

end
