(* ===== verification/Insn_Ops.thy ===== *)
theory Insn_Ops
  imports Insn_Sem EA_Operands
begin

text \<open>
  The pieces of an arithmetic instruction: its operand, whatever its addressing mode, the
  operation on the bytes of a register, and the flags.
\<close>

section \<open>Operands\<close>

text \<open>
  The value of a source operand, the extension words it takes, and the modes covered: those
  that name no memory, and the memory modes with a brief extension word.
\<close>

definition operand_direct :: "u8 \<Rightarrow> u8 \<Rightarrow> bool" where
  "operand_direct mode r \<longleftrightarrow> mode < 2 \<or> (mode = 7 \<and> r = 4)"

definition operand_value ::
  "u8 \<Rightarrow> u8 \<Rightarrow> u8 \<Rightarrow> (nat \<Rightarrow> u16) \<Rightarrow> (u8 \<Rightarrow> u32) \<Rightarrow> u32 \<Rightarrow> (u64 \<Rightarrow> u8) \<Rightarrow> u32" where
  "operand_value sz mode r ext R pc mem =
    (if operand_direct mode r then direct_operand sz mode r ext R
     else rd_be mem (ucast (ea_address mode r ext R pc (ea_step sz r))) (unat sz))"

definition operand_words :: "u8 \<Rightarrow> u8 \<Rightarrow> u8 \<Rightarrow> nat" where
  "operand_words sz mode r = (if operand_direct mode r then direct_words sz mode else ea_words mode r)"

definition operand_ok :: "u8 \<Rightarrow> u8 \<Rightarrow> u8 \<Rightarrow> (nat \<Rightarrow> u16) \<Rightarrow> (u8 \<Rightarrow> u32) \<Rightarrow> u32 \<Rightarrow> bool" where
  "operand_ok sz mode r ext R pc \<longleftrightarrow>
    ea_direct sz mode r \<or> (ea_memory mode r ext \<and> ea_fits mode r ext R pc (ea_step sz r))"

lemma load_operand:
  assumes "cpu j m R pc" "free_temps 5 j" "sz \<in> {1, 2, 4}"
    "operand_ok sz mode r (\<lambda>i. code16 s (at p i)) R (pc + 2)"
  shows "\<exists>t j' m'. EMIT_LoadFromEffectiveAddress sz 0xff (push_bit 3 mode OR r) 0 ro False s p j =
      (t, 0, operand_words sz mode r, j') \<and>
    acts (ea_updates mode r) j m j' m' \<and> m_mem m' = m_mem m \<and>
    reg_is m' t (operand_value sz mode r (\<lambda>i. code16 s (at p i)) R (pc + 2) (m_mem m)) \<and>
    (if mode < 2 \<and> ro then t = host (8 * mode + r) \<and> j' = j
     else t \<in> arm_temps - live_temps j \<and> live_temps j' = insert t (live_temps j)) \<and>
    cpu j' m' (ea_after mode r (ea_step sz r) R) pc"
proof (cases "ea_direct sz mode r")
  case True
  then have o: "operand_direct mode r" "ea_updates mode r = {}" "\<And>k. ea_after mode r k R = R"
    by (auto simp: ea_direct_def operand_direct_def ea_updates_def ea_after_def)
  have f: "free_temps 1 j" using assms(2) by (rule free_temps_mono) simp
  show ?thesis
    using load_direct_operand [OF assms(1) f assms(3) True, where sx = False and e = 0 and has_imm = False and ro = ro and s = s and p = p] o
    by (simp add: operand_words_def operand_value_def extended_def)
next
  case False
  then have k: "ea_memory mode r (\<lambda>i. code16 s (at p (0 + i)))"
    "ea_fits mode r (\<lambda>i. code16 s (at p (0 + i))) R (pc + of_nat (2 + 2 * 0)) (ea_step sz r)"
    using assms(4) by (simp_all add: operand_ok_def)
  then have o: "\<not> operand_direct mode r" "\<not> mode < 2"
    by (auto simp: ea_memory_def operand_direct_def)
  have e: "(0 :: nat) < 60" by simp
  show ?thesis
    using load_memory_operand [OF assms(1,2,3) e k, where sx = False and has_imm = False and ro = ro] o
    by (auto simp: operand_words_def operand_value_def loaded_def extended_def)
qed

lemma bits_below: "(\<And>n. k \<le> n \<Longrightarrow> \<not> bit (x :: u8) n) \<Longrightarrow> k < 8 \<Longrightarrow> x < 2 ^ k"
proof -
  assume a: "\<And>n. k \<le> n \<Longrightarrow> \<not> bit x n" and k: "k < 8"
  have "take_bit k x = x" by (rule bit_word_eqI) (use a in \<open>auto simp: bit_simps not_le [symmetric]\<close>)
  then show ?thesis using and_mask_less' [of k x] k by (simp add: take_bit_eq_mask)
qed

lemma opcode_fields:
  "ea_field opcode = push_bit 3 (ea_mode opcode) OR reg_field opcode" "ea_mode opcode < 8" "reg_field opcode < 8"
  "field_9 opcode < 8" "drop_bit 6 opcode AND 3 \<noteq> 3 \<Longrightarrow> operand_size opcode \<in> {1, 2, 4}"
proof -
  have c: "(7 :: u16) = mask 3" "(0x3f :: u16) = mask 6" "(0x38 :: u16) = push_bit 3 (mask 3)"
    by (simp_all add: mask_eq_exp_minus_1)
  show "ea_field opcode = push_bit 3 (ea_mode opcode) OR reg_field opcode"
    unfolding ea_field_def ea_mode_def reg_field_def c by (rule bit_word_eqI) (auto simp: bit_simps)
  have "ea_mode opcode < 2 ^ 3" "reg_field opcode < 2 ^ 3" "field_9 opcode < 2 ^ 3"
    unfolding ea_mode_def reg_field_def field_9_def c by (rule bits_below; auto simp: bit_simps)+
  then show "ea_mode opcode < 8" "reg_field opcode < 8" "field_9 opcode < 8" by simp_all
  assume n: "drop_bit 6 opcode AND 3 \<noteq> 3"
  have "drop_bit 6 opcode AND 3 \<in> {0, 1, 2, 3 :: u16}"
  proof -
    have "(3 :: u16) = mask 2" by (simp add: mask_eq_exp_minus_1)
    then have "drop_bit 6 opcode AND 3 < 2 ^ 2" using and_mask_less' [of 2 "drop_bit 6 opcode"] by simp
    then have "unat (drop_bit 6 opcode AND 3) < 4" by (simp add: word_less_nat_alt)
    then have "unat (drop_bit 6 opcode AND 3) \<in> {0, 1, 2, 3}" by auto
    then show ?thesis by (auto simp: word_unat_eq_iff)
  qed
  then show "operand_size opcode \<in> {1, 2, 4}" using n by (auto simp: operand_size_def)
qed

section \<open>Part of a register\<close>

definition low_part :: "nat \<Rightarrow> u32 \<Rightarrow> u32 \<Rightarrow> u32" where
  "low_part n x v = (x AND NOT (mask (8 * n))) OR take_bit (8 * n) v"

lemma low_part_4 [simp]: "low_part 4 x v = v"
  by (rule bit_word_eqI) (auto simp: low_part_def bit_simps)

lemma take_low_part [simp]: "n \<le> 4 \<Longrightarrow> take_bit (8 * n) (low_part n x v) = take_bit (8 * n) v"
  by (rule bit_word_eqI) (auto simp: low_part_def bit_simps)

lemma bfxil_acts:
  assumes "is_reg rd" "is_reg rn" "sz \<in> {1, 2}"
  shows "\<exists>m'. acts {rd} j m (EMIT [bfxil rd rn 0 (8 * sz)] j) m' \<and>
      reg_is m' rd (low_part (unat sz) (rdW m rd) (rdW m rn)) \<and> m_mem m' = m_mem m" (is "?plain")
    "\<exists>m'. acts {rd} j m (EMIT [bfxil rd rn (32 - 8 * sz) (8 * sz)] j) m' \<and>
      reg_is m' rd (low_part (unat sz) (rdW m rd) (drop_bit (32 - 8 * unat sz) (rdW m rn))) \<and> m_mem m' = m_mem m" (is "?top")
proof -
  have d: "decode (fetch (bfxil rd rn 0 (8 * sz))) = Some (Bitfield Bfm_op rd rn 0 (8 * unat sz - 1))"
    "decode (fetch (bfxil rd rn (32 - 8 * sz) (8 * sz))) = Some (Bitfield Bfm_op rd rn (32 - 8 * unat sz) 31)"
    using assms by (auto simp: bfxil_def decode_bfm is_regD)
  show ?plain
    by (rule step_acts [OF d(1)]) (use assms in \<open>auto simp: low_part_def\<close>)
  show ?top
    by (rule step_acts [OF d(2)]) (use assms in \<open>auto simp: low_part_def\<close>)
qed

lemma lsl_acts:
  assumes "is_reg rd" "is_reg rn" "sz \<in> {1, 2}"
  shows "\<exists>m'. acts {rd} j m (EMIT [lsl_i rd rn (32 - 8 * sz)] j) m' \<and>
    reg_is m' rd (push_bit (32 - 8 * unat sz) (rdW m rn)) \<and> m_mem m' = m_mem m"
proof -
  have d: "decode (fetch (lsl_i rd rn (32 - 8 * sz))) = Some (Bitfield Ubfm_op rd rn (8 * unat sz) (8 * unat sz - 1))"
    using assms by (auto simp: lsl_i_def decode_ubfm is_regD)
  have p: "push_bit 24 (take_bit 8 x) = push_bit 24 x" "push_bit 16 (take_bit 16 x) = push_bit 16 x" for x :: u32
    by (rule bit_word_eqI; auto simp: bit_simps)+
  show ?thesis
    by (rule step_acts [OF d]) (use assms p in auto)
qed

lemma lsr_acts:
  assumes "is_reg rd" "is_reg rn" "sz \<in> {1, 2}"
  shows "\<exists>m'. acts {rd} j m (EMIT [lsr_i rd rn (32 - 8 * sz)] j) m' \<and>
    reg_is m' rd (drop_bit (32 - 8 * unat sz) (rdW m rn)) \<and> m_mem m' = m_mem m"
proof -
  have d: "decode (fetch (lsr_i rd rn (32 - 8 * sz))) = Some (Bitfield Ubfm_op rd rn (32 - 8 * unat sz) 31)"
    using assms by (auto simp: lsr_i_def decode_ubfm is_regD)
  have p: "take_bit 8 (drop_bit 24 x) = drop_bit 24 x" "take_bit 16 (drop_bit 16 x) = drop_bit 16 x" for x :: u32
    by (rule bit_word_eqI; auto simp: bit_simps dest: bit_imp_le_length)+
  show ?thesis
    by (rule step_acts [OF d]) (use assms p in auto)
qed

section \<open>One flag from a test of the result\<close>

lemma run_ands_opers:
  assumes "imm_mask w k = Some x" "is_reg r"
  shows "\<exists>m'. opers {} j m (EMIT [ands_immed 31 r w k] j) m' \<and> m_z m' = (rdW m r AND x = 0) \<and> m_mem m' = m_mem m \<and>
    (\<forall>s. rdX m' s = rdX m s)"
proof -
  let ?i = "LogImm Ands_op 31 r x"
  have "take_bit 5 (31 :: u8) = 31" by simp
  then have d: "decode (fetch (ands_immed 31 r w k)) = Some ?i"
    using assms by (simp add: decode_ands_immed is_regD)
  have e: "exec ?i m = (set_nz (rdW m r AND x) m)\<lparr>m_pc := m_pc m + 4\<rparr>"
    by (simp add: exec_def Let_def wrW_def wrX_def)
  have "opers {} j m (EMIT [ands_immed 31 r w k] j) (exec ?i m)"
    by (rule opers_decoded [OF d]) (simp_all add: e)
  then show ?thesis by (intro exI [of _ "exec ?i m"]) (simp add: e)
qed

lemma test_masks:
  "imm_mask 16 0 = Some (mask 16)" "imm_mask 8 0 = Some (mask 8)" "imm_mask 1 (32 - 15) = Some (push_bit 15 1)"
  "imm_mask 1 (32 - 7) = Some (push_bit 7 1)"
  by code_simp+

lemma test_opers:
  assumes "sz \<in> {1, 2}" "is_reg r"
  shows "\<exists>m'. opers {} j m (EMIT_rf (test_zero sz r) j) m' \<and> m_z m' = (take_bit (8 * unat sz) (rdW m r) = 0) \<and>
      m_mem m' = m_mem m \<and> (\<forall>s. rdX m' s = rdX m s)"
    "\<exists>m'. opers {} j m (EMIT_rf (test_sign sz r) j) m' \<and> m_z m' = (\<not> bit (rdW m r) (8 * unat sz - 1)) \<and>
      m_mem m' = m_mem m \<and> (\<forall>s. rdX m' s = rdX m s)"
proof -
  have b: "v AND push_bit k 1 = 0 \<longleftrightarrow> \<not> bit v k" for v :: u32 and k
    by (metis bit_test)
  show "\<exists>m'. opers {} j m (EMIT_rf (test_zero sz r) j) m' \<and> m_z m' = (take_bit (8 * unat sz) (rdW m r) = 0) \<and>
      m_mem m' = m_mem m \<and> (\<forall>s. rdX m' s = rdX m s)"
    using assms(1) run_ands_opers [OF test_masks(1) assms(2), of j m] run_ands_opers [OF test_masks(2) assms(2), of j m]
    unfolding take_bit_eq_mask [symmetric] by (auto simp: test_zero_def EMIT_rf_RESET)
  show "\<exists>m'. opers {} j m (EMIT_rf (test_sign sz r) j) m' \<and> m_z m' = (\<not> bit (rdW m r) (8 * unat sz - 1)) \<and>
      m_mem m' = m_mem m \<and> (\<forall>s. rdX m' s = rdX m s)"
    using assms(1) run_ands_opers [OF test_masks(3) assms(2), of j m] run_ands_opers [OF test_masks(4) assms(2), of j m]
    unfolding b by (auto simp: test_sign_def EMIT_rf_RESET)
qed

text \<open>A conditional set of a flag that was cleared before.\<close>

lemma cleared_and_set:
  "bit ((w AND NOT (ucast x)) OR ucast y) k \<longleftrightarrow> (bit w k \<and> \<not> bit x k) \<or> bit (y :: u8) k" if "k < 32" for w :: u32 and x :: u8
  using that by (auto simp: bit_simps dest: bit_imp_le_length)

lemma flag_segment:
  assumes "cc \<in> live_temps j1" "free_temps 1 j1" "x \<in> {4, 8}" "c < 14"
    and test: "\<And>j m. rdX m r = rdX m1 r \<Longrightarrow> \<exists>m'. opers {} j m (EMIT_rf ws j) m' \<and> cond_holds c m' = b \<and> m_mem m' = m_mem m \<and>
      (\<forall>s. rdX m' s = rdX m s)"
    and "r \<notin> arm_temps - live_temps j1" "r \<noteq> cc"
  shows "\<exists>m2. opers {cc} j1 m1 (EMIT_SetFlagsConditional cc x c (EMIT_rf ws (EMIT_ClearFlags cc x j1))) m2 \<and> m_mem m2 = m_mem m1 \<and>
    live_temps (EMIT_SetFlagsConditional cc x c (EMIT_rf ws (EMIT_ClearFlags cc x j1))) = live_temps j1 \<and>
    (\<forall>f. in_mask f x \<longrightarrow> ccr (rdW m2 cc) f = b) \<and>
    (\<forall>f. \<not> in_mask f x \<longrightarrow> ccr (rdW m2 cc) f = ccr (rdW m1 cc) f) \<and> same_upper (rdW m2 cc) (rdW m1 cc)"
proof -
  let ?j2 = "EMIT_ClearFlags cc x j1"
  obtain m2 where 2: "updates {cc} j1 m1 ?j2 m2" "rdW m2 cc = rdW m1 cc AND NOT (ucast x)"
    using EMIT_ClearFlags_updates [OF assms(1,2)] by blast
  have "rdX m2 r = rdX m1 r" using 2(1) assms(6,7) by (auto simp: updates_def)
  from test [OF this, of ?j2] obtain m3 where 3: "opers {} ?j2 m2 (EMIT_rf ws ?j2) m3" "cond_holds c m3 = b" "m_mem m3 = m_mem m2"
    "\<forall>s. rdX m3 s = rdX m2 s" by blast
  let ?j3 = "EMIT_rf ws ?j2" and ?j4 = "EMIT_SetFlagsConditional cc x c (EMIT_rf ws (EMIT_ClearFlags cc x j1))"
  have l: "live_temps ?j2 = live_temps j1" "live_temps ?j3 = live_temps j1" using 2(1) by (simp_all add: updates_def)
  then have "cc \<in> live_temps ?j3" "free_temps 1 ?j3" using assms(1,2) by (simp_all add: free_temps_def)
  from EMIT_SetFlagsConditional_updates [OF this assms(4), of m3 x] obtain m4 where
    4: "updates {cc} ?j3 m3 ?j4 m4" "rdW m4 cc = (if b then rdW m3 cc OR ucast (cond_mask x) else rdW m3 cc)"
    using 3(2) by auto
  have cm: "cond_mask x = x" using assms(3) by (auto simp: cond_mask_def)
  have "rdW m3 cc = rdW m2 cc" using 3(4) by (simp add: rdW_def)
  then have w: "rdW m4 cc = (rdW m1 cc AND NOT (ucast x)) OR ucast (if b then x else 0)"
    using 4(2) 2(2) cm by simp
  have bits: "bit (rdW m4 cc) k \<longleftrightarrow> (bit (rdW m1 cc) k \<and> \<not> bit x k) \<or> (b \<and> bit x k)" if "k < 32" for k
    unfolding w cleared_and_set [OF that] by simp
  have x4: "x = 2 ^ 2 \<or> x = 2 ^ 3" using assms(3) by auto
  then have xs: "in_mask f x \<longleftrightarrow> bit x (alt_bit f)" for f by (cases f) (auto simp: in_mask_def bit_exp_iff)
  have xk: "\<not> bit x k" if "5 \<le> k" for k using x4 that by (elim disjE) (simp_all only: bit_exp_iff, simp_all)
  have "alt_bit f < 32" for f by (cases f) simp_all
  then have c: "ccr (rdW m4 cc) f \<longleftrightarrow> (ccr (rdW m1 cc) f \<and> \<not> in_mask f x) \<or> (b \<and> in_mask f x)" for f
    unfolding ccr_def xs using bits by blast
  have u: "same_upper (rdW m4 cc) (rdW m1 cc)" unfolding same_upper_iff using bits xk by metis
  have "opers {cc} j1 m1 ?j2 m2" by (rule updates_opers [OF 2(1)]) simp
  moreover have "opers {cc} ?j2 m2 ?j3 m3" by (rule opers_mono [OF 3(1)]) simp
  moreover have "opers {cc} ?j3 m3 ?j4 m4" by (rule updates_opers [OF 4(1)]) simp
  ultimately have "opers {cc} j1 m1 ?j4 m4" using opers_trans by blast
  moreover have "live_temps ?j4 = live_temps j1" using 4(1) l by (simp add: updates_def)
  moreover have "m_mem m4 = m_mem m1" using 4(1) 3(3) 2(1) by (simp add: updates_def)
  ultimately show ?thesis using c u by blast
qed

lemma single_flag_effect:
  assumes "sz \<in> {1, 2}" "um = SR_Z \<or> um = SR_N" "ra_wf j" "coherent j m" "free_temps 2 j" "is_reg r"
    "r \<notin> arm_temps \<or> (r \<in> live_temps j \<and> r \<noteq> reg_CC j)"
  shows "fst (single_flag sz um r j) = 0"
    "\<exists>m'. effect {} um j m (snd (single_flag sz um r j)) m' \<and>
      (\<forall>f. in_mask f um \<longrightarrow> ccf (snd (single_flag sz um r j)) m' f =
        (if um = SR_Z then take_bit (8 * unat sz) (rdW m r) = 0 else bit (rdW m r) (8 * unat sz - 1))) \<and>
      m_mem m' = m_mem m \<and> cc_live j (snd (single_flag sz um r j))"
proof -
  have s4: "sz < 4" using assms(1) by auto
  then show "fst (single_flag sz um r j) = 0" using assms(2) by (auto simp: single_flag_def)
  let ?c = "if um = SR_Z then A64_CC_EQ else A64_CC_NE" and ?ws = "if um = SR_Z then test_zero sz r else test_sign sz r"
  let ?b = "if um = SR_Z then take_bit (8 * unat sz) (rdW m r) = 0 else bit (rdW m r) (8 * unat sz - 1)"
  obtain cc j1 where g: "RA_ModifyCC j = (cc, j1)" by fastforce
  have ne: "SR_Z \<noteq> SR_N" by (simp add: sr_defs)
  have e: "snd (single_flag sz um r j) = EMIT_SetFlagsConditional cc um ?c (EMIT_rf ?ws (EMIT_ClearFlags cc um j1))"
    using assms(2) s4 g ne by (auto simp: single_flag_def)
  have f: "free_temps (Suc 1) j" "free_temps 1 j" using assms(5) by (simp_all add: numeral_2_eq_2 free_temps_def)
  note lv = ModifyCC_live [OF assms(3) f(2) g]
  have cc: "cc \<in> arm_temps" using RA_ModifyCC_free(5) [OF assms(3,4) f(1) g] live_temps_arm by blast
  have r: "r \<notin> arm_temps - live_temps j1" "r \<noteq> cc" using assms(7) lv(1,3) cc by auto
  have c14: "?c < 14" by simp
  have um: "um \<in> {4, 8}" using assms(2) by (auto simp: sr_defs)
  have "\<exists>m2. effect {} um j m (EMIT_SetFlagsConditional cc um ?c (EMIT_rf ?ws (EMIT_ClearFlags cc um j1))) m2 \<and>
      (\<forall>f. in_mask f um \<longrightarrow> ccf (EMIT_SetFlagsConditional cc um ?c (EMIT_rf ?ws (EMIT_ClearFlags cc um j1))) m2 f = ?b) \<and>
      m_mem m2 = m_mem m \<and> cc_live j (EMIT_SetFlagsConditional cc um ?c (EMIT_rf ?ws (EMIT_ClearFlags cc um j1)))"
  proof (rule ModifyCC_effect [OF assms(3,4) f(1) g])
    fix m1 assume m1: "cc \<in> live_temps j1" "free_temps 1 j1" "\<forall>s. s \<noteq> cc \<longrightarrow> rdX m1 s = rdX m s"
    have "rdW m0 r = rdW m r" if "rdX m0 r = rdX m1 r" for m0 using that m1(3) r(2) by (simp add: rdW_def)
    then have "\<exists>m'. opers {} j0 m0 (EMIT_rf ?ws j0) m' \<and> cond_holds ?c m' = ?b \<and> m_mem m' = m_mem m0 \<and> (\<forall>s. rdX m' s = rdX m0 s)"
      if "rdX m0 r = rdX m1 r" for j0 m0
      using test_opers [OF assms(1,6), of j0 m0] that by auto
    from flag_segment [OF m1(1,2) um c14 this r]
    show "\<exists>m2. opers {cc} j1 m1 (EMIT_SetFlagsConditional cc um ?c (EMIT_rf ?ws (EMIT_ClearFlags cc um j1))) m2 \<and> m_mem m2 = m_mem m1 \<and>
        live_temps (EMIT_SetFlagsConditional cc um ?c (EMIT_rf ?ws (EMIT_ClearFlags cc um j1))) = live_temps j1 \<and>
        (\<forall>f. in_mask f um \<longrightarrow> ccr (rdW m2 cc) f = ?b) \<and>
        (\<forall>f. \<not> in_mask f um \<longrightarrow> ccr (rdW m2 cc) f = ccr (rdW m1 cc) f) \<and> same_upper (rdW m2 cc) (rdW m1 cc)" .
  qed
  then show "\<exists>m'. effect {} um j m (snd (single_flag sz um r j)) m' \<and>
      (\<forall>f. in_mask f um \<longrightarrow> ccf (snd (single_flag sz um r j)) m' f = ?b) \<and>
      m_mem m' = m_mem m \<and> cc_live j (snd (single_flag sz um r j))"
    unfolding e .
qed

section \<open>The emulated processor after a piece of code\<close>

lemma cc_live_free:
  assumes "cc_live j j'" "free_temps (Suc n) j"
  shows "free_temps n j'"
proof -
  have "arm_temps - live_temps j \<subseteq> insert (reg_CC j') (arm_temps - live_temps j')"
    using cc_liveD(1) [OF assms(1)] by auto
  then have "card (arm_temps - live_temps j) \<le> card (insert (reg_CC j') (arm_temps - live_temps j'))"
    by (rule card_mono [rotated]) (simp add: finite_arm_temps)
  also have "\<dots> \<le> Suc (card (arm_temps - live_temps j'))"
    by (rule card_insert_le_m1 [of "Suc _", simplified]) simp
  finally show ?thesis using assms(2) by (simp add: free_temps_def)
qed

lemma ea_updates_live: "({host dn} \<union> ea_updates mode r) \<inter> live_temps j = {}"
proof -
  have "({host dn} \<union> ea_updates mode r) \<inter> arm_temps = {}"
    using host_reg(3) by (auto simp: ea_updates_def arm_temps_def REG_PC_def)
  moreover have "live_temps j \<subseteq> arm_temps" using live_temps_arm by blast
  ultimately show ?thesis by blast
qed

text \<open>
  The register of an operand: a register of the emulated processor, or a temporary that was
  free before.
\<close>

definition held :: "u8 \<Rightarrow> jit \<Rightarrow> jit \<Rightarrow> bool" where
  "held t j j1 \<longleftrightarrow> t \<notin> arm_temps \<and> live_temps j1 = live_temps j \<or>
     t \<in> arm_temps - live_temps j \<and> live_temps j1 = insert t (live_temps j)"

lemma held_temps:
  assumes "held t j j1" "free_temps (Suc n) j"
  shows "free_temps n j1"
proof (cases "t \<in> arm_temps")
  case True
  then have "arm_temps - live_temps j1 = (arm_temps - live_temps j) - {t}" "t \<in> arm_temps - live_temps j"
    using assms(1) by (auto simp: held_def)
  then have "card (arm_temps - live_temps j1) = card (arm_temps - live_temps j) - 1" by (simp add: card_Diff_singleton)
  with assms(2) show ?thesis by (simp add: free_temps_def)
qed (use assms in \<open>simp add: held_def free_temps_def\<close>)

lemma held_status:
  assumes "held t j j1" "ra_wf j" "t \<in> arm_temps"
  shows "t \<noteq> reg_CC j"
proof
  assume e: "t = reg_CC j"
  have "t \<noteq> 0xff" using assms(3) temp_not_ff by blast
  then show False using status_reg_temp [OF assms(2), of t] e assms(1,3) by (simp add: held_def)
qed

lemma held_live:
  assumes "held t j j1"
  shows "live_temps (RA_FreeARMRegister t j1) = live_temps j"
  using assms live_Free_insert [of t "live_temps j" j1] live_Free_other [of t j1] by (auto simp: held_def)

lemma held_Free:
  assumes "held t j j1" "status_part j1 = status_part j" "cc_live j1 j2" "ra_wf j"
  shows "t \<in> arm_temps \<Longrightarrow> t \<notin> set (status_regs j2)" "cc_live j (RA_FreeARMRegister t j2)"
proof -
  have "(t \<in> arm_temps \<longrightarrow> t \<notin> set (status_regs j2)) \<and> cc_live j (RA_FreeARMRegister t j2)"
  proof (cases "t \<in> arm_temps")
    case True
    then have "live_temps j1 = insert t (live_temps j)" "t \<in> arm_temps - live_temps j" using assms(1) by (auto simp: held_def)
    from cc_live_Free [OF assms(3) this assms(2,4)] show ?thesis by blast
  next
    case False
    then have "live_temps j1 = live_temps j" using assms(1) by (simp add: held_def)
    then have "cc_live j j2" using assms(3) cc_live_cong(1) [OF _ assms(2), of j2] by simp
    moreover have "status_part (RA_FreeARMRegister t j2) = status_part j2" by (simp add: status_part_def)
    ultimately show ?thesis using cc_live_cong(2) [OF live_Free_other, of t j2 j] False by simp
  qed
  then show "t \<in> arm_temps \<Longrightarrow> t \<notin> set (status_regs j2)" "cc_live j (RA_FreeARMRegister t j2)" by blast+
qed

lemma cpu_kept:
  assumes "cpu j m R pc" "\<And>r. r \<in> insert REG_PC (host ` {k. k < 16}) \<Longrightarrow> rdX m' r = rdX m r" "pc_rel j' = pc_rel j"
  shows "cpu j' m' R pc"
proof -
  have "rdX m' (host k) = rdX m (host k)" if "k < 16" for k using assms(2) that by blast
  moreover have "rdX m' REG_PC = rdX m REG_PC" using assms(2) by blast
  ultimately show ?thesis using assms(1,3)
    by (simp add: cpu_def m68k_regs_def reg_is_def pc_ok_def pc_view_def rdW_def)
qed

lemma cpu_effect:
  assumes "cpu j m R pc" "effect S T j m j' m'" "S \<inter> insert REG_PC (host ` {k. k < 16}) = {}"
  shows "cpu j' m' R pc"
proof (rule cpu_kept [OF assms(1)])
  fix r assume r: "r \<in> insert REG_PC (host ` {k. k < 16})"
  then have "r \<notin> arm_temps" using host_reg(3) by (auto simp: arm_temps_def REG_PC_def)
  then show "rdX m' r = rdX m r" using effect_keeps [OF assms(2)] r assms(3) by blast
qed (use assms(2,3) in \<open>auto simp: effect_def\<close>)

lemma cpu_Free:
  assumes "cpu j m R pc"
  shows "cpu (RA_FreeARMRegister t j) m R pc"
  by (rule cpu_kept [OF assms]) simp_all

lemma plus8_ge: "r < 8 \<Longrightarrow> n < 8 \<Longrightarrow> n \<noteq> r + (8 :: u8)"
proof
  assume r: "r < 8" "n < 8" "n = r + 8"
  have "unat (r + 8) = unat r + 8" using unat_add_lem [of r 8] r(1) by (simp add: word_less_nat_alt)
  then show False using r(2,3) by (simp add: word_less_nat_alt)
qed

lemma cpu_write:
  assumes "cpu j m R pc" "opers ({host k} \<union> T) j m j' m'" "T \<subseteq> arm_temps" "k < 16" "reg_is m' (host k) v"
  shows "cpu j' m' (R(k := v)) pc"
proof -
  have keep: "rdX m' r = rdX m r" if "r \<noteq> host k" "r \<notin> arm_temps" for r
    using opers_keeps [OF assms(2), of r] that assms(3) by blast
  have "reg_is m' (host i) ((R(k := v)) i)" if "i < 16" for i
  proof (cases "i = k")
    case True
    with assms(5) show ?thesis by simp
  next
    case False
    then have "host i \<noteq> host k" using host_inj [OF _ that assms(4)] by blast
    then show ?thesis using keep [of "host i"] host_reg(3) m68k_regsD(1) [of m R i] assms(1) that False
      by (simp add: cpu_def reg_is_def)
  qed
  moreover have "rdX m' REG_PC = rdX m REG_PC" using keep [of REG_PC] host_reg(4) [of k] by (auto simp: arm_temps_def REG_PC_def)
  moreover have "REG_PC \<notin> {host k} \<union> T" using host_reg(4) [of k] assms(3) by (auto simp: arm_temps_def REG_PC_def)
  then have "pc_rel j' = pc_rel j" using assms(2) by (simp add: opers_def)
  ultimately show ?thesis using assms(1)
    by (simp add: cpu_def m68k_regs_def reg_is_def pc_ok_def pc_view_def rdW_def)
qed

lemma advance_code:
  assumes "pc_ok j" "reg_is m REG_PC (rdW m REG_PC)"
  shows "\<exists>m'. updates {REG_PC} j m (EMIT_AdvancePC k j) m' \<and> pc_view (EMIT_AdvancePC k j) m' = pc_view j m + ucast k \<and>
    reg_is m' REG_PC (rdW m' REG_PC)"
proof -
  let ?j = "j\<lparr>pc_rel := pc_rel j + uint k\<rparr>"
  have v: "pc_view ?j m = pc_view j m + ucast k" by (simp add: pc_view_def)
  have k: "0 \<le> uint k" "uint k < 256" using unsigned_less [of k, where ?'a = int] by simp_all
  have "-4096 < pc_rel j + uint k" "pc_rel j + uint k < 4096" using k assms(1) unfolding pc_ok_def by linarith+
  then have b: "-4096 < pc_rel ?j" "pc_rel ?j < 4096" by simp_all
  obtain m' where c: "updates {REG_PC} ?j m (catch_up ?j) m'" "rdW m' REG_PC = pc_view ?j m" "rdX m' REG_PC = ucast (pc_view ?j m)"
    using catch_up_updates [OF b, of m] by blast
  have u: "updates {REG_PC} j m (catch_up ?j) m'"
    using c(1) by (simp add: updates_def produces_def live_temps_def status_part_def)
  show ?thesis
  proof (cases "120 < pc_rel ?j \<or> pc_rel ?j < -120")
    case True
    then have "EMIT_AdvancePC k j = (catch_up ?j)\<lparr>pc_rel := 0\<rparr>" by (simp add: EMIT_AdvancePC_def Let_def)
    then show ?thesis using u c(2,3) v by (intro exI [of _ m']) (simp add: reg_is_def pc_view_def)
  next
    case False
    then have "EMIT_AdvancePC k j = ?j" by (simp add: EMIT_AdvancePC_def Let_def)
    then show ?thesis using v assms(2) by (intro exI [of _ m]) (simp add: updates_refl)
  qed
qed

lemma cpu_advance:
  assumes "cpu j m R pc" "ra_wf j" "coherent j m"
  shows "\<exists>m'. effect {REG_PC} T j m (EMIT_AdvancePC k j) m' \<and> m_mem m' = m_mem m \<and> cpu (EMIT_AdvancePC k j) m' R (pc + ucast k) \<and>
    live_temps (EMIT_AdvancePC k j) = live_temps j \<and> status_part (EMIT_AdvancePC k j) = status_part j \<and>
    m_n m' = m_n m \<and> m_z m' = m_z m \<and> m_c m' = m_c m \<and> m_v m' = m_v m \<and>
    (\<forall>r. r \<noteq> REG_PC \<longrightarrow> r \<notin> arm_temps - live_temps j \<longrightarrow> rdX m' r = rdX m r)"
proof -
  note c = assms(1) [unfolded cpu_def]
  obtain m' where u: "updates {REG_PC} j m (EMIT_AdvancePC k j) m'" "pc_view (EMIT_AdvancePC k j) m' = pc_view j m + ucast k"
    "reg_is m' REG_PC (rdW m' REG_PC)" using advance_code [of j m k] c by blast
  have "rdX m' (host i) = rdX m (host i)" for i using u(1) host_reg(3,4) [of i] by (simp add: updates_def)
  then have "m68k_regs m' R" using c by (simp add: m68k_regs_def reg_is_def)
  moreover have "pc_ok (EMIT_AdvancePC k j)" using EMIT_AdvancePC_tracks(2) c by blast
  ultimately have "cpu (EMIT_AdvancePC k j) m' R (pc + ucast k)" using u(2,3) c by (simp add: cpu_def)
  with u(1) updates_effect [OF u(1) assms(2,3)] show ?thesis by (auto simp: updates_def)
qed

section \<open>The flags that are asked for\<close>

lemma scan_path_within:
  "scan_path k s p msk needed = (a, b) \<Longrightarrow> bit (a OR b) f \<Longrightarrow> bit (msk OR needed) f"
  by (induction k s p msk needed arbitrary: a b rule: scan_path.induct)
    (auto simp: Let_def bit_simps split: if_splits)

lemma scan_within: "bit (scan k s p msk needed) f \<Longrightarrow> bit (msk OR needed) f"
proof (induction k arbitrary: p msk needed)
  case (Suc k)
  show ?case
  proof (cases "scan_next s p")
    case (Goto q)
    with Suc show ?thesis by (fastforce simp: Let_def bit_simps split: if_splits)
  next
    case (Split t n)
    let ?n = "needed OR (msk AND SR_needs (code16 s p))"
    obtain m1 n1 m2 n2 where sp: "scan_path k s t msk ?n = (m1, n1)" "scan_path k s n msk ?n = (m2, n2)"
      by (metis surj_pair)
    then have "msk = 0 \<or> bit ((m1 OR n1) OR (m2 OR n2)) f" using Suc.prems Split by (auto simp: Let_def bit_simps)
    then show ?thesis
      using Suc.prems scan_path_within [OF sp(1), of f] scan_path_within [OF sp(2), of f] by (auto simp: bit_or_iff bit_and_iff)
  qed (use Suc.prems in \<open>simp split: if_splits\<close>)
qed simp

lemma GetSRMask_less: "M68K_GetSRMask c s p < 32"
proof -
  have "\<not> bit (M68K_GetSRMask c s p) n" if "5 \<le> n" for n
  proof
    assume "bit (M68K_GetSRMask c s p) n"
    then have "bit (SR_sets (code16 s p)) n" unfolding M68K_GetSRMask_def using scan_within by fastforce
    moreover have "(0x1f :: u8) = mask 5" by (simp add: mask_eq_exp_minus_1)
    ultimately show False using that by (simp add: SR_sets_def bit_simps)
  qed
  then show ?thesis using bits_below [of 5 "M68K_GetSRMask c s p"] by simp
qed

lemma operand_words_le: "operand_words sz mode r \<le> 2"
  by (simp add: operand_words_def direct_words_def ea_words_def)

text \<open>Enough temporaries for an instruction, counting the one that will cache the CCR.\<close>

definition enough_temps :: "jit \<Rightarrow> bool" where
  "enough_temps j \<longleftrightarrow> free_temps (if reg_CC j = 0xff then 7 else 6) j"

lemma enough_temps_free: "enough_temps j \<Longrightarrow> free_temps 6 j"
  by (auto simp: enough_temps_def free_temps_def split: if_splits)

lemma enough_temps_live:
  assumes "cc_live j j'" "enough_temps j" "ra_wf j"
  shows "enough_temps j'"
proof (cases "reg_CC j = 0xff")
  case True
  then have "free_temps (Suc 6) j" using assms(2) by (simp add: enough_temps_def)
  from cc_live_free [OF assms(1) this] have f: "free_temps 6 j'" .
  show ?thesis
  proof (cases "reg_CC j' = 0xff")
    case True
    then have "live_temps j' = live_temps j" using cc_liveD(1) [OF assms(1)] by simp
    then show ?thesis using assms(2) True \<open>reg_CC j = 0xff\<close> by (simp add: enough_temps_def free_temps_def)
  qed (use f in \<open>simp add: enough_temps_def\<close>)
next
  case False
  then have c: "reg_CC j' = reg_CC j" using cc_liveD(2) [OF assms(1)] by simp
  have "reg_CC j \<in> live_temps j" using status_reg_temp [OF assms(3), of "reg_CC j"] False by simp
  then have "live_temps j' = live_temps j" using cc_liveD(1) [OF assms(1)] c by auto
  then show ?thesis using assms(2) c by (simp add: enough_temps_def free_temps_def)
qed

section \<open>The frame of an instruction\<close>

text \<open>
  Loading the operand of an instruction into a register \<open>t\<close>, a piece of code \<open>f\<close> that combines it
  into the data register \<open>dn\<close> (or leaves that alone), and freeing \<open>t\<close>.
\<close>

lemma load_operate:
  fixes f :: "u8 \<Rightarrow> jit \<Rightarrow> jit"
  assumes "cpu j m R pc" "free_temps 5 j" "sz \<in> {1, 2, 4}" "operand_ok sz mode r (\<lambda>i. code16 s (at p i)) R (pc + 2)"
    "y = operand_value sz mode r (\<lambda>i. code16 s (at p i)) R (pc + 2) (m_mem m)" "dn < 8" "r < 8" "X \<subseteq> arm_temps"
    and op: "\<And>t j1 m1. is_reg t \<Longrightarrow> t \<notin> arm_temps - live_temps j1 \<Longrightarrow> reg_is m1 t y \<Longrightarrow> reg_is m1 (host dn) (R dn) \<Longrightarrow>
      free_temps 4 j1 \<Longrightarrow> live_temps j \<subseteq> live_temps j1 \<Longrightarrow>
      (if mode < 2 \<and> ro then t = host (8 * mode + r) else t \<in> live_temps j1 - live_temps j \<and> t \<in> arm_temps) \<Longrightarrow>
      \<exists>m2. opers ({host dn} \<union> X \<union> ({t} \<inter> arm_temps)) j1 m1 (f t j1) m2 \<and> reg_is m2 (host dn) v \<and>
        m_mem m2 = m_mem m1 \<and> live_temps (f t j1) = live_temps j1 \<and> P m2"
  shows "\<exists>t j1 m2. EMIT_LoadFromEffectiveAddress sz 0xff (push_bit 3 mode OR r) 0 ro False s p j =
      (t, 0, operand_words sz mode r, j1) \<and>
    opers ({host dn} \<union> X \<union> ea_updates mode r) j m (RA_FreeARMRegister t (f t j1)) m2 \<and> m_mem m2 = m_mem m \<and>
    live_temps (RA_FreeARMRegister t (f t j1)) = live_temps j \<and>
    cpu (RA_FreeARMRegister t (f t j1)) m2 ((ea_after mode r (ea_step sz r) R)(dn := v)) pc \<and> P m2 \<and>
    (mode < 2 \<and> ro \<longrightarrow> t = host (8 * mode + r))"
proof -
  let ?R = "ea_after mode r (ea_step sz r) R" and ?U = "ea_updates mode r"
  obtain t j1 m1 where ld: "EMIT_LoadFromEffectiveAddress sz 0xff (push_bit 3 mode OR r) 0 ro False s p j = (t, 0, operand_words sz mode r, j1)"
    "acts ?U j m j1 m1" "m_mem m1 = m_mem m" "reg_is m1 t y"
    "if mode < 2 \<and> ro then t = host (8 * mode + r) \<and> j1 = j else t \<in> arm_temps - live_temps j \<and> live_temps j1 = insert t (live_temps j)"
    "cpu j1 m1 ?R pc"
    using load_operand [OF assms(1-4), of ro] unfolding assms(5) by blast
  let ?Z = "{t} \<inter> arm_temps" and ?S = "{host dn} \<union> X \<union> ?U"
  have dn: "dn < 16" using assms(6) by (rule less_trans) simp
  have "dn \<noteq> r + 8" by (rule plus8_ge [OF assms(7,6)])
  then have "?R dn = R dn" by (simp add: ea_after_def)
  then have d: "reg_is m1 (host dn) (R dn)" using ld(6) m68k_regsD(1) [of m1 ?R dn] dn by (simp add: cpu_def)
  have lv: "live_temps j \<subseteq> live_temps j1" using ld(5) by (auto split: if_splits)
  have t: "is_reg t" "t \<notin> arm_temps - live_temps j1" "?Z \<subseteq> arm_temps - live_temps j"
    "if mode < 2 \<and> ro then t = host (8 * mode + r) else t \<in> live_temps j1 - live_temps j \<and> t \<in> arm_temps"
    using ld(5) host_reg(1,3) arm_temps_is_reg by (auto split: if_splits)
  have "held t j j1" using ld(5) host_reg(3) by (auto simp: held_def split: if_splits)
  then have f4: "free_temps 4 j1" by (rule held_temps) (use assms(2) in simp)
  obtain m2 where o: "opers ({host dn} \<union> X \<union> ?Z) j1 m1 (f t j1) m2" "reg_is m2 (host dn) v" "m_mem m2 = m_mem m1"
    "live_temps (f t j1) = live_temps j1" "P m2"
    using op [OF t(1,2) ld(4) d f4 lv t(4)] by blast
  have "opers ?S j m j1 m1" by (rule opers_mono [OF acts_opers [OF ld(2)]]) blast
  moreover have "opers (?S \<union> ?Z) j1 m1 (f t j1) m2" by (rule opers_mono [OF o(1)]) blast
  ultimately have o2: "opers ?S j m (f t j1) m2" using t(3) by (rule opers_fresh)
  have t0: "t \<notin> live_temps j" using ld(5) host_reg(3) live_temps_arm by (auto split: if_splits)
  have "cpu (f t j1) m2 (?R(dn := v)) pc"
    by (rule cpu_write [OF ld(6) _ _ dn o(2), where T = "X \<union> ?Z"]) (use o(1) assms(8) in \<open>auto simp: Un_assoc\<close>)
  then have "cpu (RA_FreeARMRegister t (f t j1)) m2 (?R(dn := v)) pc" by (rule cpu_Free)
  moreover have "live_temps (RA_FreeARMRegister t (f t j1)) = live_temps j"
  proof (cases "mode < 2 \<and> ro")
    case True
    then show ?thesis using o(4) ld(5) live_Free_other [of t "f t j1"] host_reg(3) by simp
  next
    case False
    then have "t \<in> arm_temps - live_temps j" "live_temps j1 = insert t (live_temps j)" using ld(5) by (simp_all split: if_splits)
    then show ?thesis using o(4) live_Free_insert [of t "live_temps j" "f t j1"] by simp
  qed
  moreover have "mode < 2 \<and> ro \<longrightarrow> t = host (8 * mode + r)" using ld(5) by (simp split: if_splits)
  ultimately show ?thesis using ld(1,3) opers_Free [OF o2 t0] o(3,5) by auto
qed

text \<open>Code that keeps the temporaries in use, as an effect.\<close>

lemma balanced_effect:
  assumes "opers S j m j' m'" "live_temps j' = live_temps j" "S \<inter> live_temps j = {}" "ra_wf j" "coherent j m"
  shows "effect S T j m j' m'" "cc_live j j'"
proof -
  show "effect S T j m j' m'" by (rule opers_effect [OF assms(1,3,4,5)])
  have "status_part j' = status_part j" using assms(1) by (simp add: opers_def)
  then show "cc_live j j'" using cc_live_cong(2) [OF assms(2), of j] cc_live_refl [OF assms(4)] by simp
qed

text \<open>The end of an instruction: the program counter advances, then the flags are updated.\<close>

definition after_advance :: "jit \<Rightarrow> mstate \<Rightarrow> jit \<Rightarrow> mstate \<Rightarrow> bool" where
  "after_advance j m j' m' \<longleftrightarrow> ra_wf j' \<and> coherent j' m' \<and> free_temps 5 j' \<and> m_mem m' = m_mem m \<and>
     (\<forall>r. r \<noteq> REG_PC \<longrightarrow> r \<notin> arm_temps - live_temps j \<longrightarrow> rdX m' r = rdX m r) \<and> live_temps j' = live_temps j \<and> status_part j' = status_part j \<and>
     m_n m' = m_n m \<and> m_z m' = m_z m \<and> m_c m' = m_c m \<and> m_v m' = m_v m \<and> (\<forall>f. ccf j' m' f = ccf j m f)"

lemma finish_insn_any:
  assumes "cpu j1 m1 R pc" "effect S T j m j1 m1" "free_temps 5 j1" "enough_temps j" "ra_wf j" "w \<le> 2"
    and tail: "\<And>j2 m2. after_advance j1 m1 j2 m2 \<Longrightarrow>
      \<exists>m3. effect {} T j2 m2 (fin j2) m3 \<and> m_mem m3 = m_mem m2 \<and> cc_live j (fin j2) \<and> P (fin j2) m3"
  shows "\<exists>m3. effect (insert REG_PC S) T j m (fin (EMIT_AdvancePC (of_nat (2 * (w + 1))) j1)) m3 \<and> m_mem m3 = m_mem m1 \<and>
    enough_temps (fin (EMIT_AdvancePC (of_nat (2 * (w + 1))) j1)) \<and>
    cpu (fin (EMIT_AdvancePC (of_nat (2 * (w + 1))) j1)) m3 R (pc + of_nat (2 * (w + 1))) \<and>
    P (fin (EMIT_AdvancePC (of_nat (2 * (w + 1))) j1)) m3"
proof -
  let ?k = "of_nat (2 * (w + 1)) :: u8" and ?S = "insert REG_PC S"
  let ?j2 = "EMIT_AdvancePC ?k j1"
  note w1 = effect_wf [OF assms(2), THEN conjunct1] effect_wf [OF assms(2), THEN conjunct2]
  obtain m2 where 2: "effect {REG_PC} 0 j1 m1 ?j2 m2" "m_mem m2 = m_mem m1" "cpu ?j2 m2 R (pc + ucast ?k)"
    "live_temps ?j2 = live_temps j1" "status_part ?j2 = status_part j1"
    "m_n m2 = m_n m1" "m_z m2 = m_z m1" "m_c m2 = m_c m1" "m_v m2 = m_v m1"
    "\<forall>r. r \<noteq> REG_PC \<longrightarrow> r \<notin> arm_temps - live_temps j1 \<longrightarrow> rdX m2 r = rdX m1 r"
    using cpu_advance [OF assms(1) w1, where T = 0 and k = ?k] by blast
  have "after_advance j1 m1 ?j2 m2"
    using 2 assms(3) effect_wf [OF 2(1)] by (simp add: after_advance_def effect_def in_mask_def free_temps_def)
  then obtain m3 where 3: "effect {} T ?j2 m2 (fin ?j2) m3" "m_mem m3 = m_mem m2" "cc_live j (fin ?j2)" "P (fin ?j2) m3"
    using tail by blast
  have "effect ?S T j m j1 m1" by (rule effect_mono [OF assms(2)]) auto
  moreover have "effect ?S T j1 m1 ?j2 m2" by (rule effect_mono [OF 2(1)]) (auto simp: in_mask_def)
  moreover have "effect ?S T ?j2 m2 (fin ?j2) m3" by (rule effect_mono [OF 3(1)]) auto
  ultimately have e: "effect ?S T j m (fin ?j2) m3" using effect_trans by blast
  have k: "ucast ?k = (of_nat (2 * (w + 1)) :: u32)"
  proof -
    have "w = 0 \<or> w = 1 \<or> w = 2" using assms(6) by linarith
    then show ?thesis by (elim disjE) simp_all
  qed
  have "cpu (fin ?j2) m3 R (pc + of_nat (2 * (w + 1)))" by (rule cpu_effect [OF 2(3) [unfolded k] 3(1)]) simp
  moreover have "enough_temps (fin ?j2)" by (rule enough_temps_live [OF 3(3) assms(4,5)])
  ultimately show ?thesis using e 3(2,4) 2(2) by auto
qed

text \<open>The case of code that has freed its temporaries before the program counter advances.\<close>

lemma finish_insn:
  assumes "cpu j1 m1 R pc" "effect S T j m j1 m1" "cc_live j j1" "enough_temps j" "ra_wf j" "w \<le> 2"
    and tail: "\<And>j2 m2. after_advance j1 m1 j2 m2 \<Longrightarrow>
      \<exists>m3. effect {} T j2 m2 (fin j2) m3 \<and> m_mem m3 = m_mem m2 \<and> cc_live j2 (fin j2) \<and> P (fin j2) m3"
  shows "\<exists>m3. effect (insert REG_PC S) T j m (fin (EMIT_AdvancePC (of_nat (2 * (w + 1))) j1)) m3 \<and> m_mem m3 = m_mem m1 \<and>
    enough_temps (fin (EMIT_AdvancePC (of_nat (2 * (w + 1))) j1)) \<and>
    cpu (fin (EMIT_AdvancePC (of_nat (2 * (w + 1))) j1)) m3 R (pc + of_nat (2 * (w + 1))) \<and>
    P (fin (EMIT_AdvancePC (of_nat (2 * (w + 1))) j1)) m3"
proof (rule finish_insn_any [OF assms(1,2) _ assms(4,5,6)])
  show "free_temps 5 j1"
    by (rule free_temps_mono [OF enough_temps_free [OF enough_temps_live [OF assms(3,4,5)]]]) simp
  fix j2 m2 assume a: "after_advance j1 m1 j2 m2"
  then have "cc_live j j2" using assms(3) cc_live_cong(2) [of j2 j1 j] by (simp add: after_advance_def)
  then show "\<exists>m3. effect {} T j2 m2 (fin j2) m3 \<and> m_mem m3 = m_mem m2 \<and> cc_live j (fin j2) \<and> P (fin j2) m3"
    using tail [OF a] cc_live_trans by blast
qed

end
