(* ===== verification/Insn_Add.thy ===== *)
theory Insn_Add
  imports Insn_Ops
begin

text \<open>
  \<open>EMIT_ADD_ext\<close> and \<open>EMIT_SUB_reg\<close>: the two are proved correct at once, in a locale that
  says what the encoders and the tail for the flags they pass to the common code have in
  common, interpreted on those of addition and of subtraction.
\<close>

section \<open>The interface\<close>

locale arith =
  fixes neg :: bool and opn :: reg_op and opf :: reg_op and update_flags :: "u8 \<Rightarrow> jit \<Rightarrow> jit"
    and calc :: "u32 \<Rightarrow> u32 \<Rightarrow> u32" and codes :: "nat \<Rightarrow> u32 \<Rightarrow> u32 \<Rightarrow> ccflag \<Rightarrow> bool"
    and flag_of :: "mstate \<Rightarrow> ccflag \<Rightarrow> bool"
  assumes decode_opn: "k < 32 \<Longrightarrow> decode (fetch (opn rd rn rm LSL k)) =
      Some (AddSubReg neg False (take_bit 5 rd) (take_bit 5 rn) (take_bit 5 rm) LSL (unat k))"
    and decode_opf: "k < 32 \<Longrightarrow> decode (fetch (opf rd rn rm LSL k)) =
      Some (AddSubReg neg True (take_bit 5 rd) (take_bit 5 rn) (take_bit 5 rm) LSL (unat k))"
    and calc_eq: "calc x y = x + (if neg then NOT y else y) + of_bool neg"
    and calc_push: "push_bit i (calc x y) = calc (push_bit i x) (push_bit i y)"
    and calc_codes: "0 < n \<Longrightarrow> n \<le> 4 \<Longrightarrow> flag_of (add_flags (push_bit (32 - 8 * n) x)
      (if neg then NOT (push_bit (32 - 8 * n) y) else push_bit (32 - 8 * n) y) neg m) f = codes n x y f"
    and codes_zero: "codes n x y Zf = (take_bit (8 * n) (calc x y) = 0)"
    and codes_sign: "codes n x y Nf = bit (calc x y) (8 * n - 1)"
    and flag_cong: "m_n m' = m_n m \<Longrightarrow> m_z m' = m_z m \<Longrightarrow> m_c m' = m_c m \<Longrightarrow> m_v m' = m_v m \<Longrightarrow>
      flag_of m' f = flag_of m f"
    and update_effect: "ra_wf j \<Longrightarrow> coherent j m \<Longrightarrow> free_temps 3 j \<Longrightarrow> um < 32 \<Longrightarrow>
      \<exists>m'. effect {} (um OR 15) j m (update_flags um j) m' \<and>
        (\<forall>f. in_mask f um \<longrightarrow> ccf (update_flags um j) m' f = flag_of m f) \<and> m_mem m' = m_mem m \<and>
        (um \<noteq> 0 \<longrightarrow> cc_live j (update_flags um j)) \<and> (um = 0 \<longrightarrow> update_flags um j = j)"
begin

text \<open>The operation with and without flags.\<close>

lemma opn_acts:
  assumes "is_reg rd" "is_reg rn" "is_reg rm"
  shows "\<exists>m'. acts {rd} j m (EMIT [opn rd rn rm LSL 0] j) m' \<and> reg_is m' rd (calc (rdW m rn) (rdW m rm)) \<and> m_mem m' = m_mem m"
proof -
  have z: "(0 :: u8) < 32" by simp
  show ?thesis
    by (rule step_acts [OF decode_opn [OF z]]) (use assms in \<open>simp_all add: is_regD Let_def calc_eq\<close>)
qed

lemma opf_opers:
  assumes "is_reg rd" "is_reg rn" "is_reg rm" "k < 32"
  shows "\<exists>m'. opers {rd} j m (EMIT [opf rd rn rm LSL k] j) m' \<and>
    reg_is m' rd (calc (rdW m rn) (push_bit (unat k) (rdW m rm))) \<and> m_mem m' = m_mem m \<and>
    (\<forall>f. flag_of m' f = flag_of (add_flags (rdW m rn)
       (if neg then NOT (push_bit (unat k) (rdW m rm)) else push_bit (unat k) (rdW m rm)) neg m) f)"
proof -
  let ?i = "AddSubReg neg True rd rn rm LSL (unat k)" and ?y = "push_bit (unat k) (rdW m rm)"
  have d: "decode (fetch (opf rd rn rm LSL k)) = Some ?i" using decode_opf [OF assms(4)] assms by (simp add: is_regD)
  let ?x = "add_flags (rdW m rn) (if neg then NOT ?y else ?y) neg m"
  have e: "exec ?i m = (wrW rd (calc (rdW m rn) ?y) ?x)\<lparr>m_pc := m_pc m + 4\<rparr>"
    by (simp add: exec_def Let_def calc_eq)
  have r: "rdX (add_flags a b c m) s = rdX m s" "m_simd (add_flags a b c m) = m_simd m" "m_mem (add_flags a b c m) = m_mem m" for a b c s
    by (simp_all add: add_flags_def Let_def)
  have "opers {rd} j m (EMIT [opf rd rn rm LSL k] j) (exec ?i m)"
    by (rule opers_decoded [OF d]) (auto simp: e r)
  moreover have "reg_is (exec ?i m) rd (calc (rdW m rn) ?y)" using is_regD(2) [OF assms(1)] by (simp add: e)
  moreover have "flag_of (exec ?i m) f = flag_of ?x f" for f by (rule flag_cong) (simp_all add: e)
  ultimately show ?thesis using e r by (intro exI [of _ "exec ?i m"]) simp
qed

text \<open>On a part of the register, with the flags of that part.\<close>

lemma sized_opf:
  assumes "sz \<in> {1, 2}" "is_reg dest" "is_reg src" "is_reg tmp" "distinct [dest, src, tmp]" "reg_is m dest x" "reg_is m src y"
    "dest \<notin> arm_temps - live_temps j" "src \<notin> arm_temps - live_temps j" "tmp \<notin> arm_temps - live_temps j"
  shows "\<exists>m'. opers {dest, src, tmp} j m (EMIT [lsl_i tmp dest (32 - 8 * sz), opf src tmp src LSL (32 - 8 * sz),
      bfxil dest src (32 - 8 * sz) (8 * sz)] j) m' \<and>
    reg_is m' dest (low_part (unat sz) x (calc x y)) \<and> m_mem m' = m_mem m \<and>
    (\<forall>f. flag_of m' f = codes (unat sz) x y f)"
proof -
  let ?k = "32 - 8 * sz" and ?n = "32 - 8 * unat sz" and ?S = "{dest, src, tmp}"
  have k: "?k < 32" "unat ?k = ?n" "0 < unat sz" "unat sz \<le> 4" using assms(1) by auto
  obtain m1 where 1: "acts {tmp} j m (EMIT [lsl_i tmp dest ?k] j) m1" "reg_is m1 tmp (push_bit ?n (rdW m dest))" "m_mem m1 = m_mem m"
    using lsl_acts [OF assms(4,2,1)] by blast
  have r1: "reg_is m1 dest x" "reg_is m1 src y" "reg_is m1 tmp (push_bit ?n x)"
    using reg_is_keeps [OF 1(1), of dest] reg_is_keeps [OF 1(1), of src] 1(2) assms(5-9) reg_is_rdW [OF assms(6)] by auto
  let ?j1 = "EMIT [lsl_i tmp dest ?k] j" and ?j2 = "EMIT [opf src tmp src LSL ?k] (EMIT [lsl_i tmp dest ?k] j)"
  obtain m2 where 2: "opers {src} ?j1 m1 ?j2 m2" "reg_is m2 src (calc (push_bit ?n x) (push_bit ?n y))" "m_mem m2 = m_mem m1"
    "\<forall>f. flag_of m2 f = flag_of (add_flags (push_bit ?n x) (if neg then NOT (push_bit ?n y) else push_bit ?n y) neg m1) f"
    using opf_opers [OF assms(3,4,3) k(1), of ?j1 m1] unfolding k(2) reg_is_rdW [OF r1(2)] reg_is_rdW [OF r1(3)] by blast
  have fl: "flag_of m2 f = codes (unat sz) x y f" for f using 2(4) calc_codes [OF k(3,4), of x y m1 f] by simp
  have r2: "reg_is m2 dest x" "reg_is m2 src (push_bit ?n (calc x y))"
    using opers_reg_is [OF 2(1), of dest] r1(1) 2(2) assms(5,8) by (auto simp: calc_push)
  obtain m3 where 3: "acts {dest} ?j2 m2 (EMIT [bfxil dest src ?k (8 * sz)] ?j2) m3"
    "reg_is m3 dest (low_part (unat sz) x (drop_bit ?n (push_bit ?n (calc x y))))" "m_mem m3 = m_mem m2"
    using bfxil_acts(2) [OF assms(2,3,1), of ?j2 m2] unfolding reg_is_rdW [OF r2(1)] reg_is_rdW [OF r2(2)] by blast
  have low: "low_part (unat sz) x (drop_bit ?n (push_bit ?n v)) = low_part (unat sz) x v" for v
    using k(4) by (intro bit_word_eqI) (auto simp: low_part_def bit_simps)
  have "opers ?S j m ?j1 m1" by (rule opers_mono [OF acts_opers [OF 1(1)]]) auto
  moreover have "opers ?S ?j1 m1 ?j2 m2" by (rule opers_mono [OF 2(1)]) auto
  moreover have "opers ?S ?j2 m2 (EMIT [bfxil dest src ?k (8 * sz)] ?j2) m3" by (rule opers_mono [OF acts_opers [OF 3(1)]]) auto
  ultimately have "opers ?S j m (EMIT [bfxil dest src ?k (8 * sz)] ?j2) m3" using opers_trans by blast
  moreover have "flag_of m3 f = codes (unat sz) x y f" for f
    using flag_cong [of m3 m2 f] 3(1) fl by (simp add: acts_def)
  ultimately show ?thesis using 1(3) 2(3) 3(2,3) unfolding low
    by (intro exI [of _ m3]) (simp add: EMIT_Cons [of "lsl_i tmp dest ?k" "[opf src tmp src LSL ?k, bfxil dest src ?k (8 * sz)]"]
      EMIT_Cons [of "opf src tmp src LSL ?k" "[bfxil dest src ?k (8 * sz)]"])
qed

text \<open>The same without flags, through a temporary.\<close>

lemma sized_opn:
  assumes "sz \<in> {1, 2}" "is_reg dest" "is_reg src" "is_reg tmp" "dest \<noteq> tmp" "reg_is m dest x" "reg_is m src y"
    "dest \<notin> arm_temps - live_temps j" "tmp \<notin> arm_temps - live_temps j"
  shows "\<exists>m'. opers {dest, tmp} j m (EMIT [opn tmp dest src LSL 0, bfxil dest tmp 0 (8 * sz)] j) m' \<and>
    reg_is m' dest (low_part (unat sz) x (calc x y)) \<and> m_mem m' = m_mem m"
proof -
  let ?j1 = "EMIT [opn tmp dest src LSL 0] j"
  obtain m1 where 1: "acts {tmp} j m ?j1 m1" "reg_is m1 tmp (calc x y)" "m_mem m1 = m_mem m"
    using opn_acts [OF assms(4,2,3), of j m] unfolding reg_is_rdW [OF assms(6)] reg_is_rdW [OF assms(7)] by blast
  have r1: "reg_is m1 dest x" using reg_is_keeps [OF 1(1), of dest] assms(5,6,8) by auto
  obtain m2 where 2: "acts {dest} ?j1 m1 (EMIT [bfxil dest tmp 0 (8 * sz)] ?j1) m2"
    "reg_is m2 dest (low_part (unat sz) x (calc x y))" "m_mem m2 = m_mem m1"
    using bfxil_acts(1) [OF assms(2,4,1), of ?j1 m1] unfolding reg_is_rdW [OF r1] reg_is_rdW [OF 1(2)] by blast
  have "opers {dest, tmp} j m ?j1 m1" by (rule opers_mono [OF acts_opers [OF 1(1)]]) auto
  moreover have "opers {dest, tmp} ?j1 m1 (EMIT [bfxil dest tmp 0 (8 * sz)] ?j1) m2"
    by (rule opers_mono [OF acts_opers [OF 2(1)]]) auto
  ultimately have "opers {dest, tmp} j m (EMIT [bfxil dest tmp 0 (8 * sz)] ?j1) m2" by (rule opers_trans)
  then show ?thesis using 1(3) 2(2,3)
    by (intro exI [of _ m2]) (simp add: EMIT_Cons [of "opn tmp dest src LSL 0" "[bfxil dest tmp 0 (8 * sz)]"])
qed

text \<open>The operation on a data register, whatever its size and the flags asked for.\<close>

lemma arith_register_opers:
  assumes "sz \<in> {1, 2, 4}" "is_reg dest" "dest \<notin> arm_temps" "is_reg src" "reg_is m dest x" "reg_is m src y" "free_temps 1 j"
    "src \<notin> arm_temps - live_temps j" "sz = 4 \<or> few_flags um \<or> (src \<in> live_temps j \<and> src \<noteq> dest)"
  shows "\<exists>m'. opers ({dest} \<union> (if sz = 4 \<or> few_flags um then {} else {src})) j m (arith_register opn opf sz um dest src j) m' \<and>
    reg_is m' dest (low_part (unat sz) x (calc x y)) \<and> m_mem m' = m_mem m \<and>
    live_temps (arith_register opn opf sz um dest src j) = live_temps j \<and>
    (um \<noteq> 0 \<and> (sz = 4 \<or> \<not> few_flags um) \<longrightarrow> (\<forall>f. flag_of m' f = codes (unat sz) x y f))"
proof (cases "sz = 4")
  case True
  have z: "(0 :: u8) < 32" by simp
  obtain m1 where 1: "acts {dest} j m (EMIT [opn dest dest src LSL 0] j) m1" "reg_is m1 dest (calc x y)" "m_mem m1 = m_mem m"
    using opn_acts [OF assms(2,2,4), of j m] unfolding reg_is_rdW [OF assms(5)] reg_is_rdW [OF assms(6)] by blast
  obtain m2 where 2: "opers {dest} j m (EMIT [opf dest dest src LSL 0] j) m2" "reg_is m2 dest (calc x (push_bit 0 y))" "m_mem m2 = m_mem m"
    "\<forall>f. flag_of m2 f = flag_of (add_flags x (if neg then NOT (push_bit 0 y) else push_bit 0 y) neg m) f"
    using opf_opers [OF assms(2,2,4) z, of j m] unfolding reg_is_rdW [OF assms(5)] reg_is_rdW [OF assms(6)] unsigned_0 by blast
  have "flag_of m2 f = codes 4 x y f" for f using 2(4) calc_codes [of 4 x y m f] by (cases neg) simp_all
  note fl = this
  have low: "low_part (unat (4 :: u8)) x v = v" for v by (rule bit_word_eqI) (auto simp: low_part_def bit_simps)
  show ?thesis
  proof (cases "um = 0")
    case um: True
    show ?thesis by (rule exI [of _ m1]) (use True um 1 acts_opers [OF 1(1)] low in \<open>simp add: arith_register_def\<close>)
  next
    case um: False
    show ?thesis by (rule exI [of _ m2]) (use True um 2 fl low in \<open>simp add: arith_register_def EMIT_rf_RESET\<close>)
  qed
next
  case False
  then have sz: "sz \<in> {1, 2}" using assms(1) by blast
  obtain tmp j1 where a: "alloc_result j tmp j1" using free_temps_1 [OF assms(7)] by blast
  note ra = alloc_reg [OF a]
  have n: "dest \<noteq> tmp" "src \<noteq> tmp" "dest \<notin> arm_temps - live_temps j1" "src \<notin> arm_temps - live_temps j1"
      "tmp \<notin> arm_temps - live_temps j1" using assms(3,8) ra(2,4,6) by auto
  have free: "opers S j m (RA_FreeARMRegister tmp (EMIT ws j1)) m' \<and>
      live_temps (RA_FreeARMRegister tmp (EMIT ws j1)) = live_temps j"
    if "opers (insert tmp S) j1 m (EMIT ws j1) m'" for S ws m'
    using opers_temp [OF a that] live_Free_insert [of tmp "live_temps j" "EMIT ws j1"] ra(4,6) by simp
  let ?n = "[opn tmp dest src LSL 0, bfxil dest tmp 0 (8 * sz)]"
  let ?f = "[lsl_i tmp dest (32 - 8 * sz), opf src tmp src LSL (32 - 8 * sz), bfxil dest src (32 - 8 * sz) (8 * sz)]"
  let ?r = "if few_flags um then (\<lambda>j. j) else RESET_FLAGS"
  have e: "arith_register opn opf sz um dest src j = ?r (RA_FreeARMRegister tmp (EMIT (if few_flags um then ?n else ?f) j1))"
    using sz by (auto simp: arith_register_def ra(5) EMIT_rf_RESET)
  show ?thesis
  proof (cases "few_flags um")
    case True
    obtain m' where m': "opers {dest, tmp} j1 m (EMIT ?n j1) m'" "reg_is m' dest (low_part (unat sz) x (calc x y))"
      "m_mem m' = m_mem m" using sized_opn [OF sz assms(2,4) ra(1) n(1) assms(5,6) n(3,5)] by blast
    then have "opers (insert tmp {dest}) j1 m (EMIT ?n j1) m'" by (simp add: insert_commute)
    from free [OF this] show ?thesis unfolding e using True m'(2,3) False by (intro exI [of _ m']) simp
  next
    case many: False
    then have s: "src \<in> live_temps j" "src \<noteq> dest" using assms(9) False by auto
    then have d: "distinct [dest, src, tmp]" using n by auto
    obtain m' where m': "opers {dest, src, tmp} j1 m (EMIT ?f j1) m'" "reg_is m' dest (low_part (unat sz) x (calc x y))"
      "m_mem m' = m_mem m" "\<forall>f. flag_of m' f = codes (unat sz) x y f"
      using sized_opf [OF sz assms(2,4) ra(1) d assms(5,6) n(3-5)] by blast
    then have "opers (insert tmp {dest, src}) j1 m (EMIT ?f j1) m'" by (simp add: insert_commute)
    note fr = free [OF this]
    have "{dest} \<union> (if sz = 4 \<or> few_flags um then {} else {src}) = {dest, src}" using many False by auto
    then show ?thesis unfolding e using many m'(2-4) fr by (intro exI [of _ m']) (simp only: if_False RESET_view RESET_relations, blast)
  qed
qed

text \<open>
  After the operation: a single flag is tested and done with, all others are in the host's
  flags.
\<close>

lemma single_rest:
  assumes "sz \<in> {1, 2, 4}" "ra_wf j" "coherent j m" "free_temps 2 j" "is_reg r" "r \<notin> arm_temps \<or> (r \<in> live_temps j \<and> r \<noteq> reg_CC j)"
    "reg_is m r v" "take_bit (8 * unat sz) v = take_bit (8 * unat sz) (calc x y)"
    "um \<noteq> 0 \<and> (sz = 4 \<or> \<not> few_flags um) \<longrightarrow> (\<forall>f. flag_of m f = codes (unat sz) x y f)" "single_flag sz um r j = (um', j')"
  shows "\<exists>m'. effect {} um j m j' m' \<and> m_mem m' = m_mem m \<and> cc_live j j' \<and>
     (um' = 0 \<and> (\<forall>f. in_mask f um \<longrightarrow> ccf j' m' f = codes (unat sz) x y f) \<or>
      um' = um \<and> um \<noteq> 0 \<and> (\<forall>f. flag_of m' f = codes (unat sz) x y f))"
proof (cases "sz < 4 \<and> (um = SR_Z \<or> um = SR_N)")
  case True
  then have s: "sz \<in> {1, 2}" "um = SR_Z \<or> um = SR_N" using assms(1) by auto
  let ?n = "unat sz"
  note sf = single_flag_effect [OF s assms(2-6), unfolded reg_is_rdW [OF assms(7)] assms(10) fst_conv snd_conv]
  obtain m' where m': "effect {} um j m j' m'" "m_mem m' = m_mem m" "cc_live j j'"
    "\<forall>f. in_mask f um \<longrightarrow> ccf j' m' f = (if um = SR_Z then take_bit (8 * ?n) v = 0 else bit v (8 * ?n - 1))" using sf(2) by blast
  have "8 * ?n - 1 < 8 * ?n" using s(1) by auto
  then have "bit v (8 * ?n - 1) = bit (calc x y) (8 * ?n - 1)" using assms(8) by (metis bit_take_bit_iff)
  moreover have "in_mask f SR_Z \<longleftrightarrow> f = Zf" "in_mask f SR_N \<longleftrightarrow> f = Nf" for f by (cases f; simp add: in_mask_def sr_defs)+
  moreover have "SR_Z \<noteq> SR_N" by (simp add: sr_defs)
  ultimately have "\<forall>f. in_mask f um \<longrightarrow> ccf j' m' f = codes ?n x y f"
    using s(2) m'(4) assms(8) codes_zero codes_sign by auto
  then show ?thesis using m' sf(1) by blast
next
  case False
  then have e: "um' = um" "j' = j" using assms(10) by (auto simp: single_flag_def)
  have "um \<noteq> 0 \<longrightarrow> sz = 4 \<or> \<not> few_flags um" using False assms(1) by (auto simp: few_flags_def)
  then have "um = 0 \<or> (\<forall>f. flag_of m f = codes (unat sz) x y f)" using assms(9) by blast
  moreover have "\<not> in_mask f 0" for f by (simp add: in_mask_def)
  ultimately show ?thesis unfolding e using effect_refl [OF assms(2,3)] cc_live_refl [OF assms(2)] by blast
qed

text \<open>The operand is in \<open>t\<close>: the operation on the data register, which it may not be.\<close>

lemma operate_register:
  assumes "acts (ea_updates mode r) j m j1 m1" "cpu j1 m1 (ea_after mode r st R) pc" "reg_is m1 t y" "is_reg t" "held t j j1"
    "sz \<in> {1, 2, 4}" "r < 8" "dn < 8" "free_temps 5 j" "x = R dn" "\<not> (sz = 4 \<or> few_flags um) \<longrightarrow> t \<in> arm_temps"
    "j2 = arith_register opn opf sz um (host dn) t j1"
  shows "\<exists>m2. opers (insert (host dn) (ea_updates mode r)) j m j2 m2 \<and> reg_is m2 (host dn) (low_part (unat sz) x (calc x y)) \<and>
    m_mem m2 = m_mem m1 \<and> live_temps j2 = live_temps j1 \<and>
    cpu j2 m2 ((ea_after mode r st R)(dn := low_part (unat sz) x (calc x y))) pc \<and>
    (um \<noteq> 0 \<and> (sz = 4 \<or> \<not> few_flags um) \<longrightarrow> (\<forall>f. flag_of m2 f = codes (unat sz) x y f))"
proof -
  let ?ro = "sz = 4 \<or> few_flags um" and ?R = "ea_after mode r st R"
  let ?T = "if ?ro then {} else {t}" and ?S = "insert (host dn) (ea_updates mode r)"
  have dn: "dn < 16" using assms(8) by (rule less_trans) simp
  have "dn \<noteq> r + 8" by (rule plus8_ge [OF assms(7,8)])
  then have Rdn: "?R dn = x" by (simp add: ea_after_def assms(10))
  have dest: "is_reg (host dn)" "host dn \<notin> arm_temps" "reg_is m1 (host dn) x"
    using host_reg(1,3) assms(2) m68k_regsD(1) [of m1 ?R dn] dn Rdn by (auto simp: cpu_def)
  have t: "t \<notin> arm_temps - live_temps j1" "?ro \<or> (t \<in> live_temps j1 \<and> t \<noteq> host dn)" "?T \<subseteq> arm_temps - live_temps j" "?T \<subseteq> arm_temps"
    using assms(5,11) dest(2) by (auto simp: held_def)
  have f: "free_temps 1 j1" by (rule free_temps_mono [OF held_temps [OF assms(5), of 4]]) (use assms(9) in simp_all)
  have tt: "sz = 4 \<or> few_flags um \<or> (t \<in> live_temps j1 \<and> t \<noteq> host dn)" using t(2) by blast
  obtain m2 where ar: "opers ({host dn} \<union> ?T) j1 m1 j2 m2" "reg_is m2 (host dn) (low_part (unat sz) x (calc x y))"
    "m_mem m2 = m_mem m1" "live_temps j2 = live_temps j1"
    "um \<noteq> 0 \<and> (sz = 4 \<or> \<not> few_flags um) \<longrightarrow> (\<forall>f. flag_of m2 f = codes (unat sz) x y f)"
    using arith_register_opers [OF assms(6) dest(1,2) assms(4) dest(3) assms(3) f t(1) tt] unfolding assms(12) by blast
  have "opers ?S j m j1 m1" by (rule opers_mono [OF acts_opers [OF assms(1)]]) blast
  moreover have "opers (?S \<union> ?T) j1 m1 j2 m2" by (rule opers_mono [OF ar(1)]) blast
  ultimately have "opers ?S j m j2 m2" using t(3) by (rule opers_fresh)
  moreover have "cpu j2 m2 (?R(dn := low_part (unat sz) x (calc x y))) pc" by (rule cpu_write [OF assms(2) ar(1) t(4) dn ar(2)])
  ultimately show ?thesis using ar(2-5) by blast
qed

text \<open>
  Direction 0 up to the update of the remaining flags: the mask returned is empty when its
  flags are done, and unchanged when they are in the host's flags.
\<close>

lemma arith_to_register_effect:
  assumes "cpu j m R pc" "ra_wf j" "coherent j m" "free_temps 5 j" "um < 32"
    "operand_size opcode = sz" "field_9 opcode = dn" "ea_mode opcode = mode" "reg_field opcode = r" "sz \<in> {1, 2, 4}"
    "operand_ok sz mode r (\<lambda>i. code16 s (at p i)) R (pc + 2)"
    "y = operand_value sz mode r (\<lambda>i. code16 s (at p i)) R (pc + 2) (m_mem m)" "x = R dn"
  shows "\<exists>um' j' m'. arith_to_register opn opf um s opcode p j = (um', operand_words sz mode r, j') \<and>
    effect (insert (host dn) (ea_updates mode r)) um j m j' m' \<and> m_mem m' = m_mem m \<and> cc_live j j' \<and>
    cpu j' m' ((ea_after mode r (ea_step sz r) R)(dn := low_part (unat sz) x (calc x y))) pc \<and>
    (um' = 0 \<and> (\<forall>f. in_mask f um \<longrightarrow> ccf j' m' f = codes (unat sz) x y f) \<or>
     um' = um \<and> um \<noteq> 0 \<and> (\<forall>f. flag_of m' f = codes (unat sz) x y f))"
proof -
  let ?ro = "sz = 4 \<or> few_flags um" and ?S = "insert (host dn) (ea_updates mode r)" and ?v = "low_part (unat sz) x (calc x y)"
  note fields = opcode_fields [of opcode, unfolded assms(6-9)]
  obtain t j1 m1 where ld: "EMIT_LoadFromEffectiveAddress sz 0xff (push_bit 3 mode OR r) 0 ?ro False s p j = (t, 0, operand_words sz mode r, j1)"
    "acts (ea_updates mode r) j m j1 m1" "m_mem m1 = m_mem m" "reg_is m1 t y"
    "if mode < 2 \<and> ?ro then t = host (8 * mode + r) \<and> j1 = j else t \<in> arm_temps - live_temps j \<and> live_temps j1 = insert t (live_temps j)"
    "cpu j1 m1 (ea_after mode r (ea_step sz r) R) pc"
    using load_operand [OF assms(1,4,10,11), of ?ro] unfolding assms(12) by blast
  have t: "is_reg t" "held t j j1" "\<not> (sz = 4 \<or> few_flags um) \<longrightarrow> t \<in> arm_temps"
    using ld(5) host_reg(1,3) arm_temps_is_reg by (auto simp: held_def split: if_splits)
  define j2 where "j2 = arith_register opn opf sz um (host dn) t j1"
  obtain m2 where 2: "opers ?S j m j2 m2" "reg_is m2 (host dn) ?v" "m_mem m2 = m_mem m1" "live_temps j2 = live_temps j1"
    "cpu j2 m2 ((ea_after mode r (ea_step sz r) R)(dn := ?v)) pc"
    "um \<noteq> 0 \<and> (sz = 4 \<or> \<not> few_flags um) \<longrightarrow> (\<forall>f. flag_of m2 f = codes (unat sz) x y f)"
    using operate_register [OF ld(2,6,4) t(1,2) assms(10) fields(3,4) assms(4,13) t(3) j2_def] by blast
  have S: "?S \<inter> live_temps j = {}" using ea_updates_live [of dn mode r j] by simp
  note st = opers_status [OF 2(1) S assms(2,3)]
  have sp: "status_part j2 = status_part j" using 2(1) by (simp add: opers_def)
  have h: "held t j j2" using t(2) 2(4) by (simp add: held_def)
  have f2: "free_temps 2 j2" by (rule free_temps_mono [OF held_temps [OF h, of 4]]) (use assms(4) in simp_all)
  have low: "take_bit (8 * unat sz) ?v = take_bit (8 * unat sz) (calc x y)"
    by (rule bit_word_eqI) (auto simp: low_part_def bit_simps)
  have dest: "is_reg (host dn)" "host dn \<notin> arm_temps \<or> (host dn \<in> live_temps j2 \<and> host dn \<noteq> reg_CC j2)" using host_reg(1,3) by auto
  obtain um' j3 where sf: "single_flag sz um (host dn) j2 = (um', j3)" by fastforce
  obtain m3 where m3: "effect {} um j2 m2 j3 m3" "m_mem m3 = m_mem m2" "cc_live j2 j3"
    "um' = 0 \<and> (\<forall>f. in_mask f um \<longrightarrow> ccf j3 m3 f = codes (unat sz) x y f) \<or>
      um' = um \<and> um \<noteq> 0 \<and> (\<forall>f. flag_of m3 f = codes (unat sz) x y f)"
    using single_rest [OF assms(10) st(1,2) f2 dest 2(2) low 2(6) sf] by blast
  note fr = held_Free [OF h sp m3(3) assms(2)]
  let ?j' = "RA_FreeARMRegister t j3"
  have e': "effect {} um j2 m2 ?j' m3" by (rule effect_Free [OF m3(1) fr(1)])
  have "effect ?S um j m ?j' m3"
    by (rule effect_trans [OF opers_effect [OF 2(1) S assms(2,3)] effect_mono [OF e']]) simp_all
  moreover have "cpu ?j' m3 ((ea_after mode r (ea_step sz r) R)(dn := ?v)) pc" by (rule cpu_effect [OF 2(5) e']) simp
  moreover have "um' = 0 \<and> (\<forall>f. in_mask f um \<longrightarrow> ccf ?j' m3 f = codes (unat sz) x y f) \<or>
      um' = um \<and> um \<noteq> 0 \<and> (\<forall>f. flag_of m3 f = codes (unat sz) x y f)"
    using m3(4) by (simp add: ccf_def)
  moreover have "arith_to_register opn opf um s opcode p j = (um', operand_words sz mode r, ?j')"
    using ld(1) sf by (simp add: arith_to_register_def assms(6,7) fields(1) RA_SetDirtyM68kRegister_def j2_def [symmetric])
  ultimately show ?thesis using fr(2) m3(2) 2(3) ld(3) by auto
qed

text \<open>
  The end of the instruction: the flags that are left are taken from the host's, the others
  are done already.
\<close>

lemma arith_tail:
  assumes "after_advance j1 m1 j2 m2" "um < 32"
    "um' = 0 \<and> (\<forall>f. in_mask f um \<longrightarrow> ccf j1 m1 f = F f) \<or> um' = um \<and> um \<noteq> 0 \<and> (\<forall>f. flag_of m1 f = F f)"
  shows "\<exists>m3. effect {} (um OR 15) j2 m2 (update_flags um' j2) m3 \<and> m_mem m3 = m_mem m2 \<and> cc_live j2 (update_flags um' j2) \<and>
      (\<forall>f. in_mask f um \<longrightarrow> ccf (update_flags um' j2) m3 f = F f)"
proof -
  note w2 = assms(1) [unfolded after_advance_def]
  have f3: "free_temps 3 j2" by (rule free_temps_mono [of 5]) (use w2 in simp_all)
  have um': "um' < 32" using assms(2,3) by auto
  obtain m3 where 3: "effect {} (um' OR 15) j2 m2 (update_flags um' j2) m3"
    "\<forall>f. in_mask f um' \<longrightarrow> ccf (update_flags um' j2) m3 f = flag_of m2 f"
    "m_mem m3 = m_mem m2" "um' \<noteq> 0 \<longrightarrow> cc_live j2 (update_flags um' j2)" "um' = 0 \<longrightarrow> update_flags um' j2 = j2"
    using update_effect [OF _ _ f3 um', of m2] w2 by blast
  show ?thesis
  proof (cases "um' = 0")
    case True
    have "update_flags um' j2 = j2" using 3(5) True by blast
    moreover have "\<forall>f. in_mask f um \<longrightarrow> ccf j2 m2 f = F f" using assms(3) w2 True by auto
    ultimately show ?thesis using effect_refl [of j2 m2 "{}" "um OR 15"] cc_live_refl [of j2] w2 by metis
  next
    case False
    then have "um' = um" "\<forall>f. flag_of m2 f = F f" using assms(3) flag_cong [of m2 m1] w2 by auto
    then show ?thesis using 3 False by auto
  qed
qed

text \<open>The whole instruction, direction 0.\<close>

lemma arith_handler_register:
  assumes "cpu j m R pc" "ra_wf j" "coherent j m" "enough_temps j" "um = M68K_GetSRMask c s (p - 2)"
    "operand_size opcode = sz" "field_9 opcode = dn" "ea_mode opcode = mode" "reg_field opcode = r" "sz \<in> {1, 2, 4}"
    "drop_bit 8 opcode AND 1 = 0" "operand_ok sz mode r (\<lambda>i. code16 s (at p i)) R (pc + 2)"
    "y = operand_value sz mode r (\<lambda>i. code16 s (at p i)) R (pc + 2) (m_mem m)"
  shows "\<exists>j' m'. arith_handler opn opf update_flags c s opcode p j = (at p (operand_words sz mode r), j') \<and>
    effect ({host dn, REG_PC} \<union> ea_updates mode r) (um OR 15) j m j' m' \<and> m_mem m' = m_mem m \<and> enough_temps j' \<and>
    cpu j' m' ((ea_after mode r (ea_step sz r) R)(dn := low_part (unat sz) (R dn) (calc (R dn) y)))
      (pc + of_nat (2 * (operand_words sz mode r + 1))) \<and>
    (\<forall>f. in_mask f um \<longrightarrow> ccf j' m' f = codes (unat sz) (R dn) y f)"
proof -
  let ?S = "{host dn, REG_PC} \<union> ea_updates mode r" and ?T = "um OR 15" and ?w = "operand_words sz mode r"
  let ?R = "(ea_after mode r (ea_step sz r) R)(dn := low_part (unat sz) (R dn) (calc (R dn) y))" and ?k = "of_nat (2 * (?w + 1)) :: u8"
  let ?c = "\<lambda>f. codes (unat sz) (R dn) y f"
  have um: "um < 32" using GetSRMask_less assms(5) by simp
  have f5: "free_temps 5 j" by (rule free_temps_mono [OF enough_temps_free [OF assms(4)]]) simp
  obtain um' j1 m1 where 1: "arith_to_register opn opf um s opcode p j = (um', ?w, j1)"
    "effect (insert (host dn) (ea_updates mode r)) um j m j1 m1" "m_mem m1 = m_mem m" "cc_live j j1" "cpu j1 m1 ?R pc"
    "um' = 0 \<and> (\<forall>f. in_mask f um \<longrightarrow> ccf j1 m1 f = ?c f) \<or> um' = um \<and> um \<noteq> 0 \<and> (\<forall>f. flag_of m1 f = ?c f)"
    using arith_to_register_effect [OF assms(1-3) f5 um assms(6-10,12,13) refl] by blast
  have e1: "effect (insert (host dn) (ea_updates mode r)) ?T j m j1 m1"
    by (rule effect_mono [OF 1(2)]) (auto simp: in_mask_def bit_simps)
  have tail: "\<exists>m3. effect {} ?T j2 m2 (update_flags um' j2) m3 \<and> m_mem m3 = m_mem m2 \<and> cc_live j2 (update_flags um' j2) \<and>
      (\<forall>f. in_mask f um \<longrightarrow> ccf (update_flags um' j2) m3 f = ?c f)" if "after_advance j1 m1 j2 m2" for j2 m2
    by (rule arith_tail [OF that um 1(6)])
  have "?S = insert REG_PC (insert (host dn) (ea_updates mode r))" by blast
  moreover have "arith_handler opn opf update_flags c s opcode p j = (at p ?w, update_flags um' (EMIT_AdvancePC ?k j1))"
    by (simp add: arith_handler_def assms(5) [symmetric] assms(11) 1(1) Let_def)
  ultimately show ?thesis
    using finish_insn [OF 1(5) e1 1(4) assms(4,2) operand_words_le tail] 1(3) by simp
qed

end

interpretation add: arith False add_reg adds_reg update_flags_add "(+)" add_ccr host_flag
proof
  show "host_flag (add_flags (push_bit (32 - 8 * n) x)
      (if False then NOT (push_bit (32 - 8 * n) y) else push_bit (32 - 8 * n) y) False m) f = add_ccr n x y f"
    if "0 < n" "n \<le> 4" for n x y m f
    using add_host_flags [OF that] by simp
  show "host_flag m' f = host_flag m f" if "m_n m' = m_n m" "m_z m' = m_z m" "m_c m' = m_c m" "m_v m' = m_v m" for m' m f
    using that by (cases f) simp_all
qed (rule update_flags_add_effect; assumption | simp add: decode_add_reg push_add)+

interpretation sub: arith True sub_reg subs_reg update_flags_sub "(-)" sub_ccr host_flag_sub
proof
  show "host_flag_sub (add_flags (push_bit (32 - 8 * n) x)
      (if True then NOT (push_bit (32 - 8 * n) y) else push_bit (32 - 8 * n) y) True m) f = sub_ccr n x y f"
    if "0 < n" "n \<le> 4" for n x y m f
    using sub_host_flags [OF that] by simp
  show "host_flag_sub m' f = host_flag_sub m f" if "m_n m' = m_n m" "m_z m' = m_z m" "m_c m' = m_c m" "m_v m' = m_v m" for m' m f
    using that by (cases f) simp_all
  show "x - y = x + (if True then NOT y else y) + of_bool True" for x y :: u32
    by (simp add: not_eq_complement)
qed (rule update_flags_sub_effect; assumption | simp add: decode_add_reg push_add)+

end
