(* ===== verification/Emulation.thy ===== *)
theory Emulation
  imports Insn_Ops SR_Theorems
begin

text \<open>
  The emulated processor as a state of its own, the relation of the translator's state and
  the host machine to it, and what it takes for the code of an instruction to take related
  states to related states. Flags that no later instruction looks at are exempt, so the
  relation rests on the search for dead flags.
\<close>

section \<open>Opcode fields and tables\<close>

lemma take_fields:
  "ea_mode opcode = ucast (take_bit 3 (drop_bit 3 opcode))" "reg_field opcode = ucast (take_bit 3 opcode)"
  "drop_bit 6 opcode AND 3 = take_bit 2 (drop_bit 6 opcode)" "drop_bit 8 opcode AND 1 = take_bit 1 (drop_bit 8 opcode)"
  "opcode AND 0x1ff = take_bit 9 opcode"
proof -
  have c: "(7 :: u16) = mask 3" "(3 :: u16) = mask 2" "(1 :: u16) = mask 1" "(0x1ff :: u16) = mask 9"
      "(0x38 :: u16) = push_bit 3 (mask 3)"
    by (simp_all add: mask_eq_exp_minus_1)
  show "ea_mode opcode = ucast (take_bit 3 (drop_bit 3 opcode))" "reg_field opcode = ucast (take_bit 3 opcode)"
    unfolding ea_mode_def reg_field_def c by (rule bit_word_eqI; auto simp: bit_simps)+
  show "drop_bit 6 opcode AND 3 = take_bit 2 (drop_bit 6 opcode)" "drop_bit 8 opcode AND 1 = take_bit 1 (drop_bit 8 opcode)"
    "opcode AND 0x1ff = take_bit 9 opcode"
    unfolding take_bit_eq_mask c [symmetric] by (rule refl)+
qed

lemma index_fields:
  "unat (opcode AND 0x1ff) = 256 * unat (drop_bit 8 opcode AND 1) + 64 * unat (drop_bit 6 opcode AND 3) +
     8 * unat (ea_mode opcode) + unat (reg_field opcode)"
proof -
  let ?n = "unat opcode"
  have u: "unat (take_bit k (drop_bit i opcode)) = ?n div 2 ^ i mod 2 ^ k" for i k
    by (simp only: unsigned_take_bit_eq unat_drop_bit_eq) (simp only: take_bit_eq_mod drop_bit_eq_div)
  have c: "unat (ucast (take_bit 3 x) :: u8) = unat (take_bit 3 x)" for x :: u16
    by (simp add: unsigned_ucast_eq unsigned_take_bit_eq)
  have "unat (opcode AND 0x1ff) = ?n mod 512" unfolding take_fields using u [of 9 0] by simp
  also have "\<dots> = 256 * (?n div 256 mod 2) + ?n mod 256" using mod_mult2_eq [of ?n 256 2] by simp
  also have "?n mod 256 = 64 * (?n div 64 mod 4) + ?n mod 64" using mod_mult2_eq [of ?n 64 4] by simp
  also have "?n mod 64 = 8 * (?n div 8 mod 8) + ?n mod 8" using mod_mult2_eq [of ?n 8 8] by simp
  finally show ?thesis unfolding take_fields c u [of 2 6] u [of 3 3] using u [of 3 0] u [of 1 8] by simp
qed

lemma ea_parts: "drop_bit 3 (ea_field opcode) AND 7 = ea_mode opcode" "ea_field opcode AND 7 = reg_field opcode"
proof -
  have c: "(7 :: u16) = mask 3" "(7 :: u8) = mask 3" "(0x3f :: u16) = mask 6" "(0x38 :: u16) = push_bit 3 (mask 3)"
    by (simp_all add: mask_eq_exp_minus_1)
  show "drop_bit 3 (ea_field opcode) AND 7 = ea_mode opcode" "ea_field opcode AND 7 = reg_field opcode"
    unfolding ea_field_def ea_mode_def reg_field_def c by (rule bit_word_eqI; auto simp: bit_simps)+
qed

lemma operand_length:
  assumes "operand_ok sz mode r (\<lambda>i. code16 s (at q i)) R pc" "sz = 1 \<or> sz = 2 \<or> sz = 4"
    "drop_bit 3 ea AND 7 = mode" "ea AND 7 = r"
  shows "SR_GetEALength s q ea sz = operand_words sz mode r" "\<not> (sz = 1 \<and> mode = 1)" "\<not> (mode = 7 \<and> 4 < r)"
proof -
  let ?e = "code16 s q"
  have q: "at q 0 = q" by (simp add: at_def)
  have "(mode = 0 \<or> mode = 1 \<and> sz \<noteq> 1 \<or> mode = 7 \<and> r = 4) \<or> mode = 2 \<or> mode = 3 \<or> mode = 4 \<or> mode = 5 \<or> mode = 6 \<and> ?e AND 0x0100 = 0 \<or>
      mode = 7 \<and> (r = 0 \<or> r = 1 \<or> r = 2) \<or> mode = 7 \<and> r = 3 \<and> ?e AND 0x0100 = 0"
    using assms(1) by (auto simp: operand_ok_def ea_direct_def ea_memory_def q)
  then show "SR_GetEALength s q ea sz = operand_words sz mode r" "\<not> (sz = 1 \<and> mode = 1)" "\<not> (mode = 7 \<and> 4 < r)"
    using assms(2) unfolding SR_GetEALength_def assms(3,4) Let_def
    by (elim disjE conjE; simp add: operand_words_def operand_direct_def direct_words_def ea_words_def brief_words_def)+
qed

text \<open>
  What a table says of a form with an operand: the flags it sets, its length, and its emitter.
  \<open>b\<close> is bit 8 of the opcode, \<open>ok\<close> the operands the form takes.
\<close>

definition plain_row :: "u16 \<Rightarrow> 'e opcode_def \<Rightarrow> nat \<Rightarrow> nat \<Rightarrow> bool" where
  "plain_row sets row k mode \<longleftrightarrow> od_SRSets row = sets \<and> od_BaseLength row = 1 \<and> od_OpSize row = 2 ^ k \<and>
     (od_HasEA row = 0 \<longrightarrow> mode < 5)"

definition plain_rows :: "u16 \<Rightarrow> 'e set \<Rightarrow> 'e opcode_def list \<Rightarrow> nat \<Rightarrow> (nat \<Rightarrow> nat \<Rightarrow> nat \<Rightarrow> bool) \<Rightarrow> bool" where
  "plain_rows sets E t b ok \<longleftrightarrow> (\<forall>k mode r. k < 3 \<longrightarrow> mode < 8 \<longrightarrow> r < 8 \<longrightarrow> \<not> (k = 0 \<and> mode = 1) \<longrightarrow> \<not> (mode = 7 \<and> 4 < r) \<longrightarrow> ok k mode r \<longrightarrow>
     (\<exists>row. InsnTable_entry t (256 * b + 64 * k + 8 * mode + r) = Some row \<and> plain_row sets row k mode \<and> od_Emit row \<in> E))"

lemma plain_rowsI:
  assumes "\<And>k mode r. k = 0 \<or> k = 1 \<or> k = 2 \<Longrightarrow>
      mode = 0 \<or> mode = 1 \<or> mode = 2 \<or> mode = 3 \<or> mode = 4 \<or> mode = 5 \<or> mode = 6 \<or> mode = 7 \<Longrightarrow> r < 8 \<Longrightarrow>
      \<not> (k = 0 \<and> mode = 1) \<Longrightarrow> \<not> (mode = 7 \<and> 4 < r) \<Longrightarrow> ok k mode r \<Longrightarrow>
      \<exists>row. InsnTable_entry t (256 * b + 64 * k + 8 * mode + r) = Some row \<and> plain_row sets row k mode \<and> od_Emit row \<in> E"
  shows "plain_rows sets E t b ok"
  unfolding plain_rows_def
proof (intro allI impI)
  fix k mode r :: nat
  assume a: "k < 3" "mode < 8" "r < 8" "\<not> (k = 0 \<and> mode = 1)" "\<not> (mode = 7 \<and> 4 < r)" "ok k mode r"
  have "k = 0 \<or> k = 1 \<or> k = 2" using a(1) by linarith
  moreover have "mode = 0 \<or> mode = 1 \<or> mode = 2 \<or> mode = 3 \<or> mode = 4 \<or> mode = 5 \<or> mode = 6 \<or> mode = 7" using a(2) by linarith
  ultimately show "\<exists>row. InsnTable_entry t (256 * b + 64 * k + 8 * mode + r) = Some row \<and> plain_row sets row k mode \<and> od_Emit row \<in> E"
    using assms a(3-6) by blast
qed

definition insn_words :: "u16 \<Rightarrow> nat" where
  "insn_words opcode = operand_words (operand_size opcode) (ea_mode opcode) (reg_field opcode) + 1"

lemma plain_facts:
  assumes "unat (drop_bit 8 opcode AND 1) = b" "drop_bit 6 opcode AND 3 \<noteq> 3" "opcode = code16 s p"
    "operand_ok (operand_size opcode) (ea_mode opcode) (reg_field opcode) (\<lambda>i. code16 s (at (p + 2) i)) R pc"
    "plain_rows sets E t b ok" "ok (unat (drop_bit 6 opcode AND 3)) (unat (ea_mode opcode)) (unat (reg_field opcode))"
  shows "ucast (table_SR t (unat (opcode AND 0x1ff))) AND 0x1f = (ucast sets AND 0x1f :: u8)"
    "table_length t 0x1ff s p = insn_words opcode"
    "\<exists>row. InsnTable_entry t (unat (opcode AND 0x1ff)) = Some row \<and> od_Emit row \<in> E"
proof -
  let ?k = "unat (drop_bit 6 opcode AND 3)" and ?m = "unat (ea_mode opcode)" and ?r = "unat (reg_field opcode)"
  have sz: "operand_size opcode = 2 ^ ?k" by (simp add: operand_size_def push_bit_eq_mult)
  have s3: "operand_size opcode \<in> {1, 2, 4}" using opcode_fields(5) assms(2) by simp
  then have s3': "operand_size opcode = 1 \<or> operand_size opcode = 2 \<or> operand_size opcode = 4" by blast
  note l = operand_length [OF assms(4) s3' ea_parts]
  have "drop_bit 6 opcode AND 3 \<le> 3" by (rule word_and_le1)
  then have k3: "?k < 3" using assms(2) by (simp add: word_le_nat_alt word_unat_eq_iff)
  have mr: "?m < 8" "?r < 8" using opcode_fields(2,3) [of opcode] by (simp_all add: word_less_nat_alt)
  have n: "\<not> (?k = 0 \<and> ?m = 1)" "\<not> (?m = 7 \<and> 4 < ?r)"
    using l(2,3) sz by (auto simp: word_unat_eq_iff word_less_nat_alt)
  obtain row where row: "InsnTable_entry t (unat (opcode AND 0x1ff)) = Some row" "plain_row sets row ?k ?m" "od_Emit row \<in> E"
    using assms(5) k3 mr n assms(6) unfolding plain_rows_def index_fields assms(1) by blast
  then show "\<exists>row. InsnTable_entry t (unat (opcode AND 0x1ff)) = Some row \<and> od_Emit row \<in> E" by blast
  have "(ucast (push_bit 16 x OR ucast sets :: u32) :: u8) AND mask 5 = ucast sets AND mask 5" for x
    by (rule bit_word_eqI) (auto simp: bit_simps)
  moreover have "(0x1f :: u8) = mask 5" by (simp add: mask_eq_exp_minus_1)
  ultimately show "ucast (table_SR t (unat (opcode AND 0x1ff))) AND 0x1f = (ucast sets AND 0x1f :: u8)"
    using row unfolding table_SR_def plain_row_def by simp
  have a: "at p (Suc 0) = p + 2" by (simp add: at_def)
  have m5: "?m < 5 \<Longrightarrow> ea_mode opcode < 5" by (simp add: word_less_nat_alt)
  have w0: "operand_words (operand_size opcode) (ea_mode opcode) (reg_field opcode) = 0" if "ea_mode opcode < 5"
  proof -
    have "ea_mode opcode < 7" using that by (rule less_trans) simp
    then show ?thesis using that by (auto simp: operand_words_def direct_words_def ea_words_def)
  qed
  show "table_length t 0x1ff s p = insn_words opcode"
    using row l(1) sz w0 m5 unfolding table_length_def plain_row_def Let_def assms(3) [symmetric] insn_words_def
    by (auto simp: a ea_field_def)
qed

section \<open>Branches\<close>

lemma top_masked: "drop_bit 12 msk = 15 \<Longrightarrow> drop_bit 12 (opcode AND msk) = drop_bit 12 opcode" for opcode :: u16
proof -
  assume "drop_bit 12 msk = (15 :: u16)"
  then have "drop_bit 12 (opcode AND msk) = drop_bit 12 opcode AND mask 4" by (simp add: mask_eq_exp_minus_1)
  also have "\<dots> = drop_bit 12 opcode" by (rule bit_word_eqI) (auto simp: bit_simps dest: bit_imp_le_length)
  finally show ?thesis .
qed

lemma branch_groups: "M68K_IsBranch s p \<Longrightarrow> drop_bit 12 (code16 s p) \<in> {0, 4, 5, 6}"
proof -
  have "opcode AND msk = v \<Longrightarrow> drop_bit 12 msk = 15 \<Longrightarrow> drop_bit 12 opcode = drop_bit 12 v" for opcode msk v :: u16
    using top_masked [of msk opcode] by simp
  note d = this
  assume "M68K_IsBranch s p"
  then show ?thesis
    unfolding M68K_IsBranch_def Let_def by (elim disjE) (simp | drule d)+
qed

section \<open>The emulated processor\<close>

text \<open>Registers 0 to 7 are D0 to D7, registers 8 to 15 A0 to A7.\<close>

record m68k =
  gpr :: "u8 \<Rightarrow> u32"
  sr_flag :: "ccflag \<Rightarrow> bool"
  ram :: "u64 \<Rightarrow> u8"
  pcount :: u32

definition emulates :: "cache_sys \<Rightarrow> jit \<Rightarrow> mstate \<Rightarrow> m68k \<Rightarrow> bool" where
  "emulates s j m \<sigma> \<longleftrightarrow> cpu j m (gpr \<sigma>) (pcount \<sigma>) \<and> ra_wf j \<and> coherent j m \<and> enough_temps j \<and> m_mem m = ram \<sigma> \<and>
     (\<forall>f. live s (sr_bit f) (ucast (pcount \<sigma>)) \<longrightarrow> ccf j m f = sr_flag \<sigma> f)"

text \<open>
  An instruction of the group \<open>g\<close> that combines an operand into a data register: in
  each of the addressing modes proved for the loads, with the program counter away from
  the end of the address space.
\<close>

definition into_register :: "u16 \<Rightarrow> cache_sys \<Rightarrow> m68k \<Rightarrow> bool" where
  "into_register g s \<sigma> \<longleftrightarrow>
    (let p = ucast (pcount \<sigma>); opcode = code16 s p
     in drop_bit 12 opcode = g \<and> drop_bit 8 opcode AND 1 = 0 \<and> drop_bit 6 opcode AND 3 \<noteq> 3 \<and>
        operand_ok (operand_size opcode) (ea_mode opcode) (reg_field opcode) (\<lambda>i. code16 s (at (p + 2) i)) (gpr \<sigma>) (pcount \<sigma> + 2) \<and>
        uint (pcount \<sigma>) + 6 < 2 ^ 32)"

lemma code_pointer:
  assumes "uint pc + 6 < 2 ^ 32" "w \<le> 2"
  shows "at (ucast pc + 2) w = ucast (pc + of_nat (2 * (w + 1)) :: u32)" "at (ucast pc) (w + 1) = ucast (pc + of_nat (2 * (w + 1)) :: u32)"
proof -
  have "w = 0 \<or> w = 1 \<or> w = 2" using assms(2) by linarith
  then have "ucast (pc + of_nat (2 * (w + 1)) :: u32) = (ucast pc + of_nat (2 * (w + 1)) :: u64)"
    using assms(1) in_range_add [of pc 2] in_range_add [of pc 4] in_range_add [of pc 6]
    by (elim disjE) (simp_all add: in_range_def)
  then show "at (ucast pc + 2) w = ucast (pc + of_nat (2 * (w + 1)) :: u32)" "at (ucast pc) (w + 1) = ucast (pc + of_nat (2 * (w + 1)) :: u32)"
    by (simp_all add: at_def)
qed

text \<open>
  An instruction whose code has the effect of the processor's step is simulated. A flag the
  instruction sets has to be right when the search for dead flags asks for it; the others
  were right before and are left alone.
\<close>

lemma emulates_step:
  assumes "ordinary_code s" "emulates s j m \<sigma>" "p = ucast (pcount \<sigma>)" "opcode = code16 s p" "\<not> M68K_IsBranch s p"
    "at p (M68K_GetINSNLength s p) = ucast (pcount \<sigma>')" "effect S T j m j' m'" "cpu j' m' (gpr \<sigma>') (pcount \<sigma>')"
    "enough_temps j'" "m_mem m' = ram \<sigma>'"
    "\<And>f. in_mask f T \<Longrightarrow> in_mask f (SR_sets opcode)"
    "\<And>f. in_mask f (M68K_GetSRMask c s p) \<Longrightarrow> ccf j' m' f = sr_flag \<sigma>' f"
    "\<And>f. \<not> in_mask f (SR_sets opcode) \<Longrightarrow> sr_flag \<sigma>' f = sr_flag \<sigma> f"
  shows "produces j m j' m' \<and> emulates s j' m' \<sigma>'"
proof -
  have "ccf j' m' f = sr_flag \<sigma>' f" if "live s (sr_bit f) (ucast (pcount \<sigma>'))" for f
  proof -
    have la: "live_after s (sr_bit f) p" using that assms(5,6) by (auto simp: live_after_def successors_def)
    show ?thesis
    proof (cases "in_mask f (SR_sets opcode)")
      case True
      then have "bit (SR_sets (code16 s p)) (sr_bit f)" by (simp add: in_mask_def assms(4))
      then have "in_mask f (M68K_GetSRMask c s p)"
        using scan_sound [OF assms(1)] la unfolding in_mask_def M68K_GetSRMask_def by blast
      then show ?thesis by (rule assms(12))
    next
      case False
      then have "live s (sr_bit f) p" using la by (simp add: live_iff [of s _ p] in_mask_def assms(4))
      then have "ccf j m f = sr_flag \<sigma> f" using assms(2) by (simp add: emulates_def assms(3))
      moreover have "ccf j' m' f = ccf j m f" using assms(7,11) False unfolding effect_def by blast
      ultimately show ?thesis using assms(13) [OF False] by simp
    qed
  qed
  then show ?thesis using assms(7-10) by (simp add: emulates_def effect_def)
qed

lemma all_five: "in_mask f 0x1f"
proof -
  have "(0x1f :: u8) = mask 5" by (simp add: mask_eq_exp_minus_1)
  then show ?thesis by (cases f) (simp_all add: in_mask_def bit_mask_iff)
qed

lemma GetSRMask_within: "in_mask f (M68K_GetSRMask c s p) \<Longrightarrow> in_mask f (SR_sets (code16 s p))"
  unfolding in_mask_def M68K_GetSRMask_def using scan_within by fastforce

lemma register_form:
  assumes "emulates s j m \<sigma>" "into_register g s \<sigma>" "opcode = code16 s (ucast (pcount \<sigma>))"
  shows "operand_size opcode \<in> {1, 2, 4}" "field_9 opcode < 16" "free_temps 6 j"
    "operand_ok (operand_size opcode) (ea_mode opcode) (reg_field opcode) (\<lambda>i. code16 s (at (ucast (pcount \<sigma>) + 2) i)) (gpr \<sigma>) (pcount \<sigma> + 2)"
    "cpu j m (gpr \<sigma>) (pcount \<sigma>)" "m_mem m = ram \<sigma>" "uint (pcount \<sigma>) + 6 < 2 ^ 32" "drop_bit 12 opcode = g"
    "drop_bit 8 opcode AND 1 = 0"
proof -
  note fm = assms(2) [unfolded into_register_def Let_def, folded assms(3)] and em = assms(1) [unfolded emulates_def]
  show "operand_ok (operand_size opcode) (ea_mode opcode) (reg_field opcode) (\<lambda>i. code16 s (at (ucast (pcount \<sigma>) + 2) i)) (gpr \<sigma>) (pcount \<sigma> + 2)"
    "uint (pcount \<sigma>) + 6 < 2 ^ 32" "drop_bit 12 opcode = g" "drop_bit 8 opcode AND 1 = 0" using fm by blast+
  show "cpu j m (gpr \<sigma>) (pcount \<sigma>)" "m_mem m = ram \<sigma>" using em by blast+
  show "free_temps 6 j" by (rule enough_temps_free) (use em in blast)
  show "operand_size opcode \<in> {1, 2, 4}" "field_9 opcode < 16" using fm opcode_fields(4,5) [of opcode] by (auto intro: less_trans)
qed

section \<open>Examples\<close>

text \<open>A memory full of one instruction word, and D0 = 0x7fff, D1 = 1.\<close>

definition filled :: "u8 \<Rightarrow> u8 \<Rightarrow> cache_sys" where
  "filled hi lo = blank_sys\<lparr>phys := \<lambda>x. if bit x 0 then lo else hi\<rparr>"

lemma filled_code: "code16 (filled hi lo) p = (if bit p 0 then be_val [lo, hi] else be_val [hi, lo])"
proof -
  let ?a = "ucast (ucast p :: u32) :: u64" and ?s = "filled hi lo"
  have b: "cache_of ICACHE ?s = blank" by (simp add: cache_of_def filled_def blank_sys_def)
  have e: "\<forall>row<128. c_WaySelect blank row < 255" "\<forall>row<128. \<forall>i<8. \<not> bit (c_Flags blank row i) 7"
    by (simp_all add: blank_def)
  have r: "cache_ready ICACHE ?s" by (simp add: cache_ready_def b empty_cache [OF e])
  have "seen ICACHE ?s = phys ?s" by (auto simp: fun_eq_iff seen_def b empty_cache [OF e] wide_narrow)
  then have "code16 ?s p = be_val (peek (phys ?s) ?a 2)"
    using read_16 [OF r, of "ucast p"] by (simp add: code16_def reads_ok_def)
  moreover have a: "bit ?a 0 = bit p 0" by (simp add: bit_unsigned_iff del: bit_0)
  moreover have "bit (?a + 1) 0 = (\<not> bit p 0)" unfolding a [symmetric] by (simp add: bit_0)
  ultimately show ?thesis by (simp add: filled_def blank_sys_def peek_eval)
qed

definition two_regs :: "u8 \<Rightarrow> u32" where
  "two_regs = (\<lambda>_. 0)(0 := 0x7fff, 1 := 1)"

definition two_machine :: mstate where
  "two_machine = m_reset\<lparr>m_x := (\<lambda>_. 0)(host 0 := 0x7fff, host 1 := 1)\<rparr>"

definition two_cpu :: m68k where
  "two_cpu = \<lparr>gpr = two_regs, sr_flag = (\<lambda>_. False), ram = m_mem two_machine, pcount = 0\<rparr>"

lemma two_emulates: "emulates s (jit_init 64) two_machine two_cpu"
proof -
  have "list_all (\<lambda>k. reg_is two_machine (host k) (two_regs k)) (map of_nat [0..<16])" by code_simp
  then have "reg_is two_machine (host k) (two_regs k)" if "k < 16" for k
    using small_listed [OF that] unfolding list_all_iff by blast
  moreover have "rdX two_machine REG_PC = 0"
    using host_reg(4) by (auto simp: two_machine_def rdX_def REG_PC_def m_reset_def)
  ultimately have "cpu (jit_init 64) two_machine two_regs 0"
    by (simp add: cpu_def m68k_regs_def pc_ok_def pc_view_def jit_init_def reg_is_def rdW_def)
  moreover have "coherent (jit_init 64) two_machine"
    by (simp add: coherent_def jit_init_def cc_view_def fpcr_view_def fpsr_view_def)
  moreover have "enough_temps (jit_init 64)"
  proof -
    have "{4, 5, 6, 7, 8, 9, 10} \<subseteq> arm_temps" by (simp add: arm_temps_def)
    then have "card {4, 5, 6, 7, 8, 9, 10 :: u8} \<le> card arm_temps" by (intro card_mono finite_arm_temps)
    then show ?thesis by (simp add: enough_temps_def free_temps_def example_temps(1)) 
  qed
  moreover have "ccf (jit_init 64) two_machine f = False" for f
    by (simp add: ccf_def cc_view_def jit_init_def two_machine_def m_reset_def lane_cc_def lane_get_def)
  ultimately show ?thesis by (simp add: emulates_def two_cpu_def jit_init_wf)
qed

end
