(* ===== verification/Insn_Step.thy ===== *)
theory Insn_Step
  imports Insn_Add Emulation
begin

text \<open>
  The simulation for \<open>ADD <ea>,Dn\<close> and \<open>SUB <ea>,Dn\<close>: the code that their emitters produce
  takes a host that represents the emulated processor to one that represents it after the
  instruction.
\<close>

section \<open>The step of the processor\<close>

text \<open>What the processor does with it: \<open>calc\<close> is the operation, \<open>codes\<close> the flags it defines.\<close>

definition arith_step ::
  "(u32 \<Rightarrow> u32 \<Rightarrow> u32) \<Rightarrow> (nat \<Rightarrow> u32 \<Rightarrow> u32 \<Rightarrow> ccflag \<Rightarrow> bool) \<Rightarrow> cache_sys \<Rightarrow> m68k \<Rightarrow> m68k" where
  "arith_step calc codes s \<sigma> =
    (let p = ucast (pcount \<sigma>); opcode = code16 s p; sz = operand_size opcode; mode = ea_mode opcode; r = reg_field opcode;
         dn = field_9 opcode; x = gpr \<sigma> dn;
         y = operand_value sz mode r (\<lambda>i. code16 s (at (p + 2) i)) (gpr \<sigma>) (pcount \<sigma> + 2) (ram \<sigma>)
     in \<sigma>\<lparr>gpr := (ea_after mode r (ea_step sz r) (gpr \<sigma>))(dn := low_part (unat sz) x (calc x y)),
          sr_flag := codes (unat sz) x y, pcount := pcount \<sigma> + of_nat (2 * insn_words opcode)\<rparr>)"

context arith
begin

lemma simulates:
  assumes "ordinary_code s" "emulates s j m \<sigma>" "into_register g s \<sigma>" "opcode = code16 s (ucast (pcount \<sigma>))"
    "SR_sets opcode = 0x1f" "M68K_GetINSNLength s (ucast (pcount \<sigma>)) = insn_words opcode" "\<not> M68K_IsBranch s (ucast (pcount \<sigma>))"
  shows "\<exists>j' m'. arith_handler opn opf update_flags c s opcode (ucast (pcount \<sigma>) + 2) j =
      (ucast (pcount (arith_step calc codes s \<sigma>)), j') \<and>
    produces j m j' m' \<and> emulates s j' m' (arith_step calc codes s \<sigma>)"
proof -
  let ?p = "ucast (pcount \<sigma>) :: u64" and ?sz = "operand_size opcode" and ?mode = "ea_mode opcode" and ?r = "reg_field opcode"
  let ?w = "operand_words ?sz ?mode ?r" and ?um = "M68K_GetSRMask c s ?p" and ?n = "arith_step calc codes s \<sigma>"
  note em = assms(2) [unfolded emulates_def] and fm = assms(3) [unfolded into_register_def Let_def, folded assms(4)]
  have s3: "?sz \<in> {1, 2, 4}" using opcode_fields(5) fm by blast
  define y where "y = operand_value ?sz ?mode ?r (\<lambda>i. code16 s (at (?p + 2) i)) (gpr \<sigma>) (pcount \<sigma> + 2) (m_mem m)"
  have um: "?um = M68K_GetSRMask c s (?p + 2 - 2)" by simp
  obtain j' m' where h: "arith_handler opn opf update_flags c s opcode (?p + 2) j = (at (?p + 2) ?w, j')"
    "effect ({host (field_9 opcode), REG_PC} \<union> ea_updates ?mode ?r) (?um OR 15) j m j' m'" "m_mem m' = m_mem m" "enough_temps j'"
    "cpu j' m' ((ea_after ?mode ?r (ea_step ?sz ?r) (gpr \<sigma>))(field_9 opcode :=
        low_part (unat ?sz) (gpr \<sigma> (field_9 opcode)) (calc (gpr \<sigma> (field_9 opcode)) y)))
      (pcount \<sigma> + of_nat (2 * (?w + 1)))"
    "\<forall>f. in_mask f ?um \<longrightarrow> ccf j' m' f = codes (unat ?sz) (gpr \<sigma> (field_9 opcode)) y f"
    using arith_handler_register [OF _ _ _ _ um refl refl refl refl s3 _ _ y_def] em fm by blast
  have st: "gpr ?n = (ea_after ?mode ?r (ea_step ?sz ?r) (gpr \<sigma>))(field_9 opcode :=
        low_part (unat ?sz) (gpr \<sigma> (field_9 opcode)) (calc (gpr \<sigma> (field_9 opcode)) y))"
      "pcount ?n = pcount \<sigma> + of_nat (2 * (?w + 1))" "ram ?n = ram \<sigma>"
      "sr_flag ?n = codes (unat ?sz) (gpr \<sigma> (field_9 opcode)) y"
    using em by (simp_all add: arith_step_def Let_def assms(4) [symmetric] y_def insn_words_def)
  note cp = code_pointer [OF _ operand_words_le, of "pcount \<sigma>" ?sz ?mode ?r]
  have p': "at (?p + 2) ?w = ucast (pcount ?n)" "at ?p (insn_words opcode) = ucast (pcount ?n)"
    using cp fm unfolding st insn_words_def by blast+
  have "produces j m j' m' \<and> emulates s j' m' ?n"
    by (rule emulates_step [OF assms(1,2) refl assms(4) assms(7) _ h(2) _ h(4), where c = c])
      (use h(3,5,6) em in \<open>simp_all add: assms(5,6) p'(2) st all_five\<close>)
  then show ?thesis using h(1) p'(1) by auto
qed

end

text \<open>The groups D and 9.\<close>

definition ADD_step :: "cache_sys \<Rightarrow> m68k \<Rightarrow> m68k" where
  "ADD_step = arith_step (+) add_ccr"

definition SUB_step :: "cache_sys \<Rightarrow> m68k \<Rightarrow> m68k" where
  "SUB_step = arith_step (-) sub_ccr"

lemma plain_D: "plain_rows sr_CCR {H_ADD_reg, H_ADD_mem, H_ADD_ext} InsnTable_D 0 (\<lambda>_ _ _. True)" "plain_rows sr_CCR {H_SUB_reg, H_SUB_mem, H_SUB_ext} InsnTable_9 0 (\<lambda>_ _ _. True)"
proof -
  show "plain_rows sr_CCR {H_ADD_reg, H_ADD_mem, H_ADD_ext} InsnTable_D 0 (\<lambda>_ _ _. True)"
    by (rule plain_rowsI, elim disjE) (simp_all add: InsnTable_entry_def InsnTable_D_def plain_row_def)
  show "plain_rows sr_CCR {H_SUB_reg, H_SUB_mem, H_SUB_ext} InsnTable_9 0 (\<lambda>_ _ _. True)"
    by (rule plain_rowsI, elim disjE) (simp_all add: InsnTable_entry_def InsnTable_9_def plain_row_def)
qed

lemma group_facts:
  assumes "into_register g s \<sigma>" "p = ucast (pcount \<sigma>)" "opcode = code16 s p" "g = 13 \<or> g = 9"
  shows "SR_sets opcode = 0x1f" "M68K_GetINSNLength s p = insn_words opcode" "\<not> M68K_IsBranch s p"
    "g = 13 \<Longrightarrow> \<exists>row. InsnTable_entry InsnTable_D (unat (opcode AND 0x1ff)) = Some row \<and> od_Emit row \<in> {H_ADD_reg, H_ADD_mem, H_ADD_ext}"
    "g = 9 \<Longrightarrow> \<exists>row. InsnTable_entry InsnTable_9 (unat (opcode AND 0x1ff)) = Some row \<and> od_Emit row \<in> {H_SUB_reg, H_SUB_mem, H_SUB_ext}"
proof -
  note fm = assms(1) [unfolded into_register_def Let_def, folded assms(2,3)]
  have d: "unat (drop_bit 8 opcode AND 1) = 0" "drop_bit 6 opcode AND 3 \<noteq> 3" "drop_bit 12 opcode = g" using fm by simp_all
  show "\<not> M68K_IsBranch s p" using branch_groups [of s p] d(3) assms(3,4) by auto
  have ok: "operand_ok (operand_size opcode) (ea_mode opcode) (reg_field opcode) (\<lambda>i. code16 s (at (p + 2) i)) (gpr \<sigma>) (pcount \<sigma> + 2)"
    using fm by simp
  note D = plain_facts [OF d(1,2) assms(3) ok plain_D(1) TrueI] and N = plain_facts [OF d(1,2) assms(3) ok plain_D(2) TrueI]
  show "\<exists>row. InsnTable_entry InsnTable_D (unat (opcode AND 0x1ff)) = Some row \<and> od_Emit row \<in> {H_ADD_reg, H_ADD_mem, H_ADD_ext}" by (rule D(3))
  show "\<exists>row. InsnTable_entry InsnTable_9 (unat (opcode AND 0x1ff)) = Some row \<and> od_Emit row \<in> {H_SUB_reg, H_SUB_mem, H_SUB_ext}" by (rule N(3))
  show "SR_sets opcode = 0x1f"
    using assms(4) d(3) D(1) N(1) by (auto simp: SR_sets_def SR_flags_def SRCheck_def GetSR_LineD_def GetSR_Line9_def)
  show "M68K_GetINSNLength s p = insn_words opcode"
    using assms(4) d(3) D(2) N(2) unfolding M68K_GetINSNLength_def Let_def assms(3) [symmetric]
    by (auto simp: M68K_GetLineDLength_def M68K_GetLine9Length_def)
qed

section \<open>Properties\<close>

lemma ADD_simulated:
  assumes "ordinary_code s" "emulates s j m \<sigma>" "into_register 13 s \<sigma>" "opcode = code16 s (ucast (pcount \<sigma>))"
  shows "\<exists>j' m'. EMIT_ADD_ext c s opcode (ucast (pcount \<sigma>) + 2) j = (ucast (pcount (ADD_step s \<sigma>)), j') \<and>
    produces j m j' m' \<and> emulates s j' m' (ADD_step s \<sigma>)"
  unfolding EMIT_ADD_ext_def ADD_step_def
  by (rule add.simulates [OF assms]) (simp_all add: group_facts [OF assms(3) refl assms(4)] group_facts(3) [OF assms(3) refl refl])

text \<open>
  C2. \<open>EMIT_ADD_ext\<close> is correct in direction 0: for \<open>ADD <ea>,Dn\<close> of each size and
  addressing mode with at most a brief extension word, run on a host that represents the
  emulated processor, the code it emits leaves the host representing the processor after
  the instruction. Registers, memory, program counter and every flag that is live after it
  are those the processor's manual gives.
\<close>

theorem EMIT_ADD_ext_simulates:
  assumes "ordinary_code s" "emulates s j m \<sigma>" "into_register 13 s \<sigma>" "opcode = code16 s (ucast (pcount \<sigma>))"
  shows "\<exists>j' m'. EMIT_ADD_ext c s opcode (ucast (pcount \<sigma>) + 2) j = (ucast (pcount (ADD_step s \<sigma>)), j') \<and>
    produces j m j' m' \<and> emulates s j' m' (ADD_step s \<sigma>)"
  by (rule ADD_simulated [OF assms])

theorem EMIT_ADD_ext_simulates_witness:
  "\<exists>j' m'. EMIT_ADD_ext 8 adds_sys 0xd041 2 (jit_init 64) = (2, j') \<and> run (tc_code j') two_machine = Some m' \<and>
    rdX m' (host 0) = 0x8000"
proof -
  have x: "code16 adds_sys 0 = 0xd041" by (simp add: adds_code)
  have f: "operand_size 0xd041 = 2" "ea_mode 0xd041 = 0" "reg_field 0xd041 = 1" "field_9 0xd041 = 0"
    by (simp_all add: operand_size_def ea_mode_def reg_field_def field_9_def)
  have i: "into_register 13 adds_sys two_cpu"
    by (simp add: into_register_def two_cpu_def x f operand_ok_def ea_direct_def)
  have "gpr (ADD_step adds_sys two_cpu) 0 = 0x8000" "pcount (ADD_step adds_sys two_cpu) = 2"
    by (simp_all add: ADD_step_def arith_step_def two_cpu_def x f insn_words_def operand_words_def operand_direct_def direct_words_def
      operand_value_def direct_operand_def two_regs_def ea_after_def low_part_def mask_eq_exp_minus_1)
  moreover obtain j' m' where q: "EMIT_ADD_ext 8 adds_sys 0xd041 (ucast (pcount two_cpu) + 2) (jit_init 64) =
      (ucast (pcount (ADD_step adds_sys two_cpu)), j')"
    "produces (jit_init 64) two_machine j' m'" "emulates adds_sys j' m' (ADD_step adds_sys two_cpu)"
    using EMIT_ADD_ext_simulates [OF adds_ordinary two_emulates i, of "0xd041" 8] x by (auto simp: two_cpu_def)
  moreover have "run (tc_code j') two_machine = Some m'" using q(2) by (simp add: produces_def jit_init_def)
  moreover have "reg_is m' (host 0) (gpr (ADD_step adds_sys two_cpu) 0)"
    using q(3) m68k_regsD(1) [of m' _ 0] by (simp add: emulates_def cpu_def)
  ultimately show ?thesis by (auto simp: two_cpu_def reg_is_def)
qed

lemma SUB_simulated:
  assumes "ordinary_code s" "emulates s j m \<sigma>" "into_register 9 s \<sigma>" "opcode = code16 s (ucast (pcount \<sigma>))"
  shows "\<exists>j' m'. EMIT_SUB_reg c s opcode (ucast (pcount \<sigma>) + 2) j = (ucast (pcount (SUB_step s \<sigma>)), j') \<and>
    produces j m j' m' \<and> emulates s j' m' (SUB_step s \<sigma>)"
  unfolding EMIT_SUB_reg_def SUB_step_def
  by (rule sub.simulates [OF assms]) (simp_all add: group_facts [OF assms(3) refl assms(4)] group_facts(3) [OF assms(3) refl refl])

text \<open>
  C3. \<open>EMIT_SUB_reg\<close> is correct in direction 0, in the same sense, for \<open>SUB <ea>,Dn\<close>.
\<close>

theorem EMIT_SUB_reg_simulates:
  assumes "ordinary_code s" "emulates s j m \<sigma>" "into_register 9 s \<sigma>" "opcode = code16 s (ucast (pcount \<sigma>))"
  shows "\<exists>j' m'. EMIT_SUB_reg c s opcode (ucast (pcount \<sigma>) + 2) j = (ucast (pcount (SUB_step s \<sigma>)), j') \<and>
    produces j m j' m' \<and> emulates s j' m' (SUB_step s \<sigma>)"
  by (rule SUB_simulated [OF assms])

theorem EMIT_SUB_reg_simulates_witness:
  "\<exists>j' m'. EMIT_SUB_reg 0 (filled 0x90 0x41) 0x9041 2 (jit_init 64) = (2, j') \<and> run (tc_code j') two_machine = Some m' \<and>
    rdX m' (host 0) = 0x7ffe"
proof -
  let ?s = "filled 0x90 0x41"
  have c: "code16 ?s p = (if bit p 0 then 0x4190 else 0x9041)" for p by (simp add: filled_code)
  have x: "code16 ?s 0 = 0x9041" by (simp add: c)
  have o: "ordinary_code ?s" by (simp add: ordinary_code_def c)
  have f: "operand_size 0x9041 = 2" "ea_mode 0x9041 = 0" "reg_field 0x9041 = 1" "field_9 0x9041 = 0"
    by (simp_all add: operand_size_def ea_mode_def reg_field_def field_9_def)
  have i: "into_register 9 ?s two_cpu"
    by (simp add: into_register_def two_cpu_def x f operand_ok_def ea_direct_def)
  have "gpr (SUB_step ?s two_cpu) 0 = 0x7ffe" "pcount (SUB_step ?s two_cpu) = 2"
    by (simp_all add: SUB_step_def arith_step_def two_cpu_def x f insn_words_def operand_words_def operand_direct_def direct_words_def
      operand_value_def direct_operand_def two_regs_def ea_after_def low_part_def mask_eq_exp_minus_1)
  moreover obtain j' m' where q: "EMIT_SUB_reg 0 ?s 0x9041 (ucast (pcount two_cpu) + 2) (jit_init 64) =
      (ucast (pcount (SUB_step ?s two_cpu)), j')"
    "produces (jit_init 64) two_machine j' m'" "emulates ?s j' m' (SUB_step ?s two_cpu)"
    using EMIT_SUB_reg_simulates [OF o two_emulates i, of "0x9041" 0] x by (auto simp: two_cpu_def)
  moreover have "run (tc_code j') two_machine = Some m'" using q(2) by (simp add: produces_def jit_init_def)
  moreover have "reg_is m' (host 0) (gpr (SUB_step ?s two_cpu) 0)"
    using q(3) m68k_regsD(1) [of m' _ 0] by (simp add: emulates_def cpu_def)
  ultimately show ?thesis by (auto simp: two_cpu_def reg_is_def)
qed

end
