(* ===== verification/Mem_Ops.thy ===== *)
theory Mem_Ops
  imports Emulation
begin

text \<open>
  Operands in memory that are read, changed and written back: the address, the read, the
  write, for the modes that compute no address on the host (an address register, with or
  without an update) and for absolute addresses.
\<close>

definition alterable :: "u8 \<Rightarrow> u8 \<Rightarrow> bool" where
  "alterable mode r \<longleftrightarrow> r < 8 \<and> (mode = 2 \<or> mode = 3 \<or> mode = 4 \<or> mode = 7 \<and> (r = 0 \<or> r = 1))"

text \<open>What the register holds that the emitter returns for the address, before a predecrement.\<close>

definition address_base :: "u8 \<Rightarrow> u8 \<Rightarrow> (nat \<Rightarrow> u16) \<Rightarrow> (u8 \<Rightarrow> u32) \<Rightarrow> u32" where
  "address_base mode r ext R = (if mode = 7 then ea_address 7 r ext R 0 0 else R (r + 8))"

lemma alterableD:
  assumes "alterable mode r"
  shows "r < 8" "mode < 8" "mode \<noteq> 0" "mode \<noteq> 1" "ea_memory mode r ext" "\<not> operand_direct mode r"
    "ea_updates mode r = (if mode = 3 \<or> mode = 4 then {host (r + 8)} else {})"
  using assms by (auto simp: alterable_def ea_memory_def operand_direct_def ea_updates_def)

lemma address_of_base:
  "alterable mode r \<Longrightarrow> ea_address mode r ext R pc step = (if mode = 4 then address_base mode r ext R - step else address_base mode r ext R)"
  by (auto simp: alterable_def address_base_def ea_address_def)

lemma address_operand:
  assumes "cpu j m R pc" "free_temps 1 j" "alterable mode r"
  shows "\<exists>t j1 m1. EMIT_LoadFromEffectiveAddress 0 0xff (push_bit 3 mode OR r) 0 (\<not> (mode = 4 \<or> mode = 3)) False s p j =
      (t, 0, ea_words mode r, j1) \<and> acts {} j m j1 m1 \<and> m_mem m1 = m_mem m \<and> cpu j1 m1 R pc \<and> is_reg t \<and>
    reg_is m1 t (address_base mode r (\<lambda>i. code16 s (at p i)) R) \<and>
    (if mode = 7 then t \<in> arm_temps - live_temps j \<and> live_temps j1 = insert t (live_temps j)
     else t = host (r + 8) \<and> live_temps j1 = live_temps j)"
proof -
  note ad = alterableD [OF assms(3)] and c = assms(1) [unfolded cpu_def]
  obtain x ja where a: "alloc_result j x ja" using free_temps_1 [OF assms(2)] by blast
  note ra = alloc_reg [OF a]
  have f: "drop_bit 3 (push_bit 3 mode OR r) = mode" "(push_bit 3 mode OR r) AND 7 = r" by (rule ea_fields [OF ad(2,1)])+
  have pcx: "REG_PC \<notin> {x}" using ra(4) by (auto simp: arm_temps_def REG_PC_def)
  have keep: "cpu j1 m1 R pc" if o: "acts {} j m j1 m1" for j1 m1
    by (rule cpu_kept [OF assms(1)]) (use o host_reg(3) in \<open>auto simp: acts_def arm_temps_def REG_PC_def\<close>)
  show ?thesis
  proof (cases "mode = 7")
    case False
    then have m: "mode = 2 \<or> mode = 3 \<or> mode = 4" using assms(3) by (auto simp: alterable_def)
    have e: "EMIT_LoadFromEffectiveAddress 0 0xff (push_bit 3 mode OR r) 0 (\<not> (mode = 4 \<or> mode = 3)) False s p j =
        (host (r + 8), 0, ea_words mode r, RA_FreeARMRegister x ja)"
      unfolding EMIT_LoadFromEffectiveAddress_def Let_def f
      using m by (elim disjE) (simp_all add: ra(5) load_from_An_def ea_words_def)
    have "acts {x} ja m ja m" by (rule acts_refl) simp_all
    then have o: "acts {} j m (RA_FreeARMRegister x ja) m" using acts_temp [OF a] by simp
    moreover have "live_temps (RA_FreeARMRegister x ja) = live_temps j" using live_Free_insert [of x "live_temps j" ja] ra(4,6) by simp
    moreover have "reg_is m (host (r + 8)) (R (r + 8))" using m68k_regsD(1) [of m R] c plus8_less [OF ad(1)] by blast
    ultimately show ?thesis using False keep [OF o] host_reg(1) unfolding e by (auto simp: address_base_def)
  next
    case True
    then have r: "r = 0 \<or> r = 1" using assms(3) by (auto simp: alterable_def)
    let ?j = "if r = 0 then load_s16_ext32 x (code16 s (at p 0)) ja
      else EMIT_LoadImmediate x (push_bit 16 (ucast (code16 s (at p 0))) OR ucast (code16 s (at p 1))) ja"
    have e: "EMIT_LoadFromEffectiveAddress 0 0xff (push_bit 3 mode OR r) 0 (\<not> (mode = 4 \<or> mode = 3)) False s p j =
        (x, 0, ea_words mode r, ?j)"
      unfolding EMIT_LoadFromEffectiveAddress_def Let_def f
      using r by (elim disjE) (simp_all add: True ra(5) load_from_special_def ea_words_def)
    have "\<exists>m1. acts {x} ja m ?j m1 \<and> reg_is m1 x (address_base mode r (\<lambda>i. code16 s (at p i)) R) \<and> m_mem m1 = m_mem m"
      using r load_s16_acts [OF ra(1), of ja m "code16 s (at p 0)"]
        load_number_acts [OF ra(1), of ja m "push_bit 16 (ucast (code16 s (at p 0))) OR ucast (code16 s (at p 1))"]
      by (elim disjE) (simp_all add: True address_base_def ea_address_def)
    then obtain m1 where 1: "acts {x} ja m ?j m1" "reg_is m1 x (address_base mode r (\<lambda>i. code16 s (at p i)) R)" "m_mem m1 = m_mem m"
      by blast
    have o: "acts {} j m ?j m1" by (rule acts_alloc [OF a 1(1)])
    have "live_temps ?j = live_temps ja" by simp
    then show ?thesis using True 1(2,3) keep [OF o] o ra(1,4,6) unfolding e by auto
  qed
qed

lemma fetch_operand_acts:
  assumes "sz \<in> {1, 2, 4}" "is_reg t" "is_reg tmp" "tmp \<noteq> t" "reg_is m t B" "mode = 4 \<longrightarrow> in_range B (- uint (ea_step sz r))"
  shows "\<exists>m'. acts (insert tmp (if mode = 4 then {t} else {})) j m (fetch_operand sz mode r t tmp j) m' \<and>
    reg_is m' tmp (rd_be (m_mem m) (ucast (if mode = 4 then B - ea_step sz r else B)) (unat sz)) \<and> m_mem m' = m_mem m \<and>
    (mode = 4 \<longrightarrow> reg_is m' t (B - ea_step sz r))"
proof (cases "mode = 4")
  case True
  have "fetch_operand sz mode r t tmp j = EMIT (load_preindex sz t tmp False (if r = 7 then 2 else 1)) j"
    using assms(1,4) True by (auto simp: fetch_operand_def load_preindex_def RA_SetDirtyM68kRegister_def)
  then show ?thesis using updating_load_acts(2) [OF assms(1,3,2,4,5), where sx = False and j = j and r = r] assms(6) True
    by (auto simp: loaded_def extended_def)
next
  case False
  have "fetch_operand sz mode r t tmp j = EMIT (load_at sz False t tmp) j"
    using assms(1) False by (auto simp: fetch_operand_def load_at_def)
  moreover have "rdX m t = ucast B" using assms(5) by (simp add: reg_is_def)
  ultimately show ?thesis using load_at_acts [OF assms(1,3,2), where sx = False and j = j and m = m] False
    by (auto simp: loaded_def extended_def)
qed

lemma write_operand_acts:
  assumes "sz \<in> {1, 2, 4}" "is_reg t" "is_reg tmp" "tmp \<noteq> t" "reg_is m t B" "reg_is m tmp v" "mode = 3 \<longrightarrow> in_range B (uint (ea_step sz r))"
  shows "\<exists>m'. acts (if mode = 3 then {t} else {}) j m (write_operand sz mode r t tmp j) m' \<and>
    m_mem m' = wr_be (m_mem m) (ucast B) (unat sz) v \<and> (mode = 3 \<longrightarrow> reg_is m' t (B + ea_step sz r))"
proof (cases "mode = 3")
  case True
  have "write_operand sz mode r t tmp j = EMIT (store_postindex sz t tmp (if r = 7 then 2 else 1)) j"
    using assms(1) True by (auto simp: write_operand_def store_postindex_def RA_SetDirtyM68kRegister_def)
  then show ?thesis using updating_store_acts(1) [OF assms(1,3,2,4,5), where j = j and r = r] assms(7) True reg_is_rdW [OF assms(6)]
    by auto
next
  case False
  have "write_operand sz mode r t tmp j = EMIT (store_at sz t tmp) j"
    using assms(1) False by (auto simp: write_operand_def store_at_def)
  moreover have "rdX m t = ucast B" using assms(5) by (simp add: reg_is_def)
  ultimately show ?thesis using store_at_acts [OF assms(1,3,2), where j = j and m = m] False reg_is_rdW [OF assms(6)]
    by auto
qed

text \<open>A write looks at the bytes it writes only.\<close>

lemma wr_be_cong: "n \<le> 4 \<Longrightarrow> take_bit (8 * n) v = take_bit (8 * n) w \<Longrightarrow> wr_be f a n v = wr_be f a n w"
proof -
  assume n: "n \<le> 4" and e: "take_bit (8 * n) v = take_bit (8 * n) w"
  have b: "bit v k = bit w k" if "k < 8 * n" for k using e that by (metis bit_take_bit_iff)
  have "ucast (drop_bit (8 * (n - Suc i)) v) = (ucast (drop_bit (8 * (n - Suc i)) w) :: u8)" if "i < n" for i
  proof (rule bit_word_eqI)
    fix k assume "k < LENGTH(8)"
    then have "8 * (n - Suc i) + k < 8 * n" using that by simp
    then show "bit (ucast (drop_bit (8 * (n - Suc i)) v) :: u8) k = bit (ucast (drop_bit (8 * (n - Suc i)) w) :: u8) k"
      using b by (simp add: bit_simps)
  qed
  then show ?thesis by (simp add: wr_be_def fun_eq_iff)
qed

text \<open>
  Read into \<open>tmp\<close>, change by a piece of code \<open>F\<close> whose outcome \<open>v\<close> has the low part of \<open>w\<close>, and write
  back. \<open>P\<close> is what \<open>F\<close> leaves in the host's flags.
\<close>

lemma memory_altered:
  fixes F :: "jit \<Rightarrow> jit"
  assumes "cpu j m R pc" "sz \<in> {1, 2, 4}" "alterable mode r" "dn < 8" "is_reg t" "is_reg tmp" "tmp \<in> live_temps j" "tmp \<noteq> t"
    "reg_is m t B" "if mode = 7 then t \<in> live_temps j else t = host (r + 8) \<and> B = R (r + 8)"
    "mode = 3 \<longrightarrow> in_range B (uint (ea_step sz r))" "mode = 4 \<longrightarrow> in_range B (- uint (ea_step sz r))"
    "A = (if mode = 4 then B - ea_step sz r else B)" "x = rd_be (m_mem m) (ucast A) (unat sz)"
    "j' = write_operand sz mode r t tmp (F (fetch_operand sz mode r t tmp j))" "\<And>j. live_temps (F j) = live_temps j"
    and op: "\<And>j1 m1. live_temps j1 = live_temps j \<Longrightarrow> reg_is m1 tmp x \<Longrightarrow> reg_is m1 (host dn) (R dn) \<Longrightarrow>
      \<exists>m2 v. opers {tmp} j1 m1 (F j1) m2 \<and> reg_is m2 tmp v \<and> take_bit (8 * unat sz) v = take_bit (8 * unat sz) w \<and>
        m_mem m2 = m_mem m1 \<and> P v m2"
    and P: "\<And>v m m'. m_n m' = m_n m \<Longrightarrow> m_z m' = m_z m \<Longrightarrow> m_c m' = m_c m \<Longrightarrow> m_v m' = m_v m \<Longrightarrow> P v m \<Longrightarrow> P v m'"
  shows "\<exists>m' v. opers ({tmp} \<union> ea_updates mode r) j m j' m' \<and> reg_is m' tmp v \<and>
    take_bit (8 * unat sz) v = take_bit (8 * unat sz) w \<and>
    m_mem m' = wr_be (m_mem m) (ucast A) (unat sz) w \<and> cpu j' m' (ea_after mode r (ea_step sz r) R) pc \<and> P v m'"
proof -
  note ad = alterableD [OF assms(3)]
  let ?U = "ea_updates mode r" and ?j1 = "fetch_operand sz mode r t tmp j"
  let ?j2 = "F ?j1" and ?R = "ea_after mode r (ea_step sz r) R"
  have dn: "dn < 16" using assms(4) by (rule less_trans) simp
  have tmp: "tmp \<in> arm_temps" using assms(7) live_temps_arm by blast
  have n: "tmp \<noteq> host k" for k using tmp host_reg(3) by auto
  have lv: "live_temps ?j1 = live_temps j" "live_temps ?j2 = live_temps j"
    by (simp_all add: fetch_operand_def assms(16) RA_SetDirtyM68kRegister_def)
  obtain m1 where 1: "acts (insert tmp (if mode = 4 then {t} else {})) j m ?j1 m1" "reg_is m1 tmp x" "m_mem m1 = m_mem m"
    "mode = 4 \<longrightarrow> reg_is m1 t (B - ea_step sz r)"
    using fetch_operand_acts [OF assms(2,5,6,8,9,12), of j] unfolding assms(13) [symmetric] assms(14) by blast
  have t7: "t \<notin> arm_temps - live_temps j" using assms(10) host_reg(3) by (auto split: if_splits)
  have t1: "reg_is m1 t A"
  proof (cases "mode = 4")
    case False
    then show ?thesis using reg_is_keeps [OF 1(1), of t] assms(8,9,13) t7 by simp
  qed (use 1(4) assms(13) in simp)
  have "host dn \<noteq> t"
  proof
    assume e: "host dn = t"
    then have "mode \<noteq> 7" using assms(10) live_temps_arm [of t j] host_reg(3) [of dn] by auto
    then have "dn = r + 8" using assms(10) e host_inj [OF _ dn plus8_less [OF ad(1)]] by simp
    then show False using plus8_ge [OF ad(1) assms(4)] by blast
  qed
  then have s1: "reg_is m1 (host dn) (R dn)"
    using reg_is_keeps [OF 1(1), of "host dn"] n [of dn] host_reg(3) m68k_regsD(1) [of m R dn] dn assms(1) by (auto simp: cpu_def)
  obtain m2 v where 2: "opers {tmp} ?j1 m1 ?j2 m2" "reg_is m2 tmp v" "take_bit (8 * unat sz) v = take_bit (8 * unat sz) w"
    "m_mem m2 = m_mem m1" "P v m2"
    using op [OF lv(1) 1(2) s1] by blast
  have t2: "reg_is m2 t A" using opers_reg_is [OF 2(1), of t] assms(8) t1 t7 lv by auto
  have r3: "mode = 3 \<longrightarrow> in_range A (uint (ea_step sz r))" using assms(11,13) by simp
  obtain m3 where 3: "acts (if mode = 3 then {t} else {}) ?j2 m2 j' m3" "m_mem m3 = wr_be (m_mem m2) (ucast A) (unat sz) v"
    "mode = 3 \<longrightarrow> reg_is m3 t (A + ea_step sz r)"
    using write_operand_acts [OF assms(2,5,6,8) t2 2(2) r3, of ?j2] assms(15) by blast
  have U: "(if mode = 4 then {t} else {}) \<subseteq> ?U" "(if mode = 3 then {t} else {}) \<subseteq> ?U" using assms(10) ad(7) by auto
  have "opers ({tmp} \<union> ?U) j m ?j1 m1" by (rule opers_mono [OF acts_opers [OF 1(1)]]) (use U in auto)
  moreover have "opers ({tmp} \<union> ?U) ?j1 m1 ?j2 m2" by (rule opers_mono [OF 2(1)]) blast
  moreover have "opers ({tmp} \<union> ?U) ?j2 m2 j' m3" by (rule opers_mono [OF acts_opers [OF 3(1)]]) (use U in auto)
  ultimately have o: "opers ({tmp} \<union> ?U) j m j' m3" using opers_trans by blast
  have sz: "unat sz \<le> 4" using assms(2) by auto
  have "reg_is m3 tmp v" using reg_is_keeps [OF 3(1), of tmp] 2(2) assms(7,8) lv by simp
  moreover have "m_mem m3 = wr_be (m_mem m) (ucast A) (unat sz) w"
    using 3(2) 2(4) 1(3) wr_be_cong [OF sz 2(3)] by simp
  moreover have "P v m3" by (rule P [OF _ _ _ _ 2(5)]) (use 3(1) in \<open>simp_all add: acts_def\<close>)
  moreover have "cpu j' m3 ?R pc"
  proof -
    let ?k = "r + 8"
    have An: "reg_is m (host ?k) (R ?k)" using m68k_regsD(1) [of m R ?k] assms(1) plus8_less [OF ad(1)] by (simp add: cpu_def)
    have "reg_is m3 (host ?k) (?R ?k)"
    proof (cases "mode = 3 \<or> mode = 4")
      case True
      then have e: "t = host ?k" "B = R ?k" using assms(10) by auto
      have "mode = 4 \<Longrightarrow> reg_is m3 t A" using reg_is_keeps [OF 3(1), of t] t2 t7 lv by simp
      then show ?thesis using True 3(3) e assms(13) by (auto simp: ea_after_def)
    next
      case False
      then have "?U = {}" using ad(7) by simp
      then show ?thesis using False opers_reg_is [OF o, of "host ?k"] An n host_reg(3) by (auto simp: ea_after_def)
    qed
    note An' = this
    have e: "R(?k := ?R ?k) = ?R" by (auto simp: ea_after_def)
    have "opers ({host ?k} \<union> {tmp}) j m j' m3" by (rule opers_mono [OF o]) (use ad(7) in auto)
    from cpu_write [OF assms(1) this _ plus8_less [OF ad(1)] An'] show ?thesis using tmp unfolding e by blast
  qed
  ultimately show ?thesis using o 2(3) by (intro exI [of _ m3] exI [of _ v]) simp
qed

text \<open>The same with the allocation of \<open>tmp\<close> and the address before it.\<close>

lemma alter_memory:
  fixes F :: "u8 \<Rightarrow> jit \<Rightarrow> jit"
  assumes "cpu j m R pc" "free_temps 5 j" "sz \<in> {1, 2, 4}" "alterable mode r" "dn < 8"
    "ea_fits mode r (\<lambda>i. code16 s (at p i)) R (pc + 2) (ea_step sz r)"
    "A = ea_address mode r (\<lambda>i. code16 s (at p i)) R (pc + 2) (ea_step sz r)" "x = rd_be (m_mem m) (ucast A) (unat sz)"
    "\<And>tmp j. live_temps (F tmp j) = live_temps j"
    and op: "\<And>tmp j1 m1. is_reg tmp \<Longrightarrow> tmp \<in> arm_temps \<Longrightarrow> tmp \<in> live_temps j1 \<Longrightarrow> reg_is m1 tmp x \<Longrightarrow> reg_is m1 (host dn) (R dn) \<Longrightarrow>
      \<exists>m2 v. opers {tmp} j1 m1 (F tmp j1) m2 \<and> reg_is m2 tmp v \<and> take_bit (8 * unat sz) v = take_bit (8 * unat sz) w \<and>
        m_mem m2 = m_mem m1 \<and> P v m2"
    and keep: "\<And>v m m'. m_n m' = m_n m \<Longrightarrow> m_z m' = m_z m \<Longrightarrow> m_c m' = m_c m \<Longrightarrow> m_v m' = m_v m \<Longrightarrow> P v m \<Longrightarrow> P v m'"
  shows "\<exists>tmp ja t j1 j2 m2 v. alloc_result j tmp ja \<and>
    EMIT_LoadFromEffectiveAddress 0 0xff (push_bit 3 mode OR r) 0 (\<not> (mode = 4 \<or> mode = 3)) False s p ja = (t, 0, ea_words mode r, j1) \<and>
    j2 = write_operand sz mode r t tmp (F tmp (fetch_operand sz mode r t tmp j1)) \<and>
    held t ja j2 \<and> tmp \<in> live_temps j2 \<and> opers (ea_updates mode r) j m j2 m2 \<and> reg_is m2 tmp v \<and>
    take_bit (8 * unat sz) v = take_bit (8 * unat sz) w \<and> m_mem m2 = wr_be (m_mem m) (ucast A) (unat sz) w \<and>
    cpu j2 m2 (ea_after mode r (ea_step sz r) R) pc \<and> P v m2"
proof -
  let ?U = "ea_updates mode r"
  have f5: "free_temps (Suc 4) j" using assms(2) by simp
  obtain tmp ja where a: "alloc_result j tmp ja" and fa: "free_temps 4 ja" using free_temps_alloc [OF f5] by blast
  note ra = alloc_reg [OF a]
  have f1: "free_temps 1 ja" by (rule free_temps_mono [OF fa]) simp
  have ca: "cpu ja m R pc" by (rule cpu_kept [OF assms(1)]) (use a in \<open>simp_all add: alloc_result_def\<close>)
  let ?B = "address_base mode r (\<lambda>i. code16 s (at p i)) R"
  obtain t j1 m1 where ld: "EMIT_LoadFromEffectiveAddress 0 0xff (push_bit 3 mode OR r) 0 (\<not> (mode = 4 \<or> mode = 3)) False s p ja =
      (t, 0, ea_words mode r, j1)" "acts {} ja m j1 m1" "m_mem m1 = m_mem m" "cpu j1 m1 R pc" "is_reg t" "reg_is m1 t ?B"
    "if mode = 7 then t \<in> arm_temps - live_temps ja \<and> live_temps j1 = insert t (live_temps ja) else t = host (r + 8) \<and> live_temps j1 = live_temps ja"
    using address_operand [OF ca f1 assms(4)] by blast
  have tmp: "tmp \<in> arm_temps" "tmp \<in> live_temps j1" "tmp \<noteq> t" "is_reg tmp"
    using ra(1,4,6) ld(7) host_reg(3) by (auto split: if_splits)
  have tB: "if mode = 7 then t \<in> live_temps j1 else t = host (r + 8) \<and> ?B = R (r + 8)" using ld(7) by (auto simp: address_base_def)
  have rg: "mode = 3 \<longrightarrow> in_range ?B (uint (ea_step sz r))" "mode = 4 \<longrightarrow> in_range ?B (- uint (ea_step sz r))"
    using assms(6) by (auto simp: ea_fits_def address_base_def)
  have A: "A = (if mode = 4 then ?B - ea_step sz r else ?B)" unfolding assms(7) by (rule address_of_base [OF assms(4)])
  have x: "x = rd_be (m_mem m1) (ucast A) (unat sz)" using assms(8) ld(3) by simp
  define j2 where "j2 = write_operand sz mode r t tmp (F tmp (fetch_operand sz mode r t tmp j1))"
  have op': "\<exists>m2 v. opers {tmp} j0 m0 (F tmp j0) m2 \<and> reg_is m2 tmp v \<and> take_bit (8 * unat sz) v = take_bit (8 * unat sz) w \<and>
      m_mem m2 = m_mem m0 \<and> P v m2"
    if "live_temps j0 = live_temps j1" "reg_is m0 tmp x" "reg_is m0 (host dn) (R dn)" for j0 m0
    by (rule op [OF tmp(4,1) _ that(2,3)]) (use tmp(2) that(1) in simp)
  have "\<exists>m2 v. opers ({tmp} \<union> ?U) j1 m1 j2 m2 \<and> reg_is m2 tmp v \<and> take_bit (8 * unat sz) v = take_bit (8 * unat sz) w \<and>
      m_mem m2 = wr_be (m_mem m1) (ucast A) (unat sz) w \<and> cpu j2 m2 (ea_after mode r (ea_step sz r) R) pc \<and> P v m2"
    by (rule memory_altered [where F = "F tmp" and w = w and P = P, OF ld(4) assms(3,4,5) ld(5) tmp(4,2,3) ld(6) tB rg A x j2_def assms(9)])
      (rule op', assumption+, rule keep, assumption+)
  then obtain m2 v where 2: "opers ({tmp} \<union> ?U) j1 m1 j2 m2" "reg_is m2 tmp v" "take_bit (8 * unat sz) v = take_bit (8 * unat sz) w"
    "m_mem m2 = wr_be (m_mem m1) (ucast A) (unat sz) w" "cpu j2 m2 (ea_after mode r (ea_step sz r) R) pc" "P v m2"
    by blast
  have lv: "live_temps j2 = live_temps j1"
    by (simp add: j2_def fetch_operand_def write_operand_def assms(9) RA_SetDirtyM68kRegister_def)
  have h: "held t ja j2" using ld(7) host_reg(3) lv by (auto simp: held_def split: if_splits)
  have "opers (insert tmp ?U) ja m j1 m1" by (rule opers_mono [OF acts_opers [OF ld(2)]]) blast
  moreover have "opers (insert tmp ?U) j1 m1 j2 m2" by (rule opers_mono [OF 2(1)]) blast
  ultimately have "opers (insert tmp ?U) ja m j2 m2" by (rule opers_trans)
  note op2 = opers_alloc [OF a this]
  have "m_mem m2 = wr_be (m_mem m) (ucast A) (unat sz) w" using 2(4) ld(3) by simp
  moreover have "tmp \<in> live_temps j2" using tmp(2) lv by simp
  ultimately show ?thesis using a ld(1) j2_def h op2 2(2,3,5,6) by blast
qed

section \<open>The form\<close>

text \<open>
  An instruction of the group \<open>g\<close> whose destination is in memory, in the modes \<open>(An)\<close>,
  \<open>(An)+\<close>, \<open>-(An)\<close> and the two absolute ones.
\<close>

definition into_memory :: "u16 \<Rightarrow> cache_sys \<Rightarrow> m68k \<Rightarrow> bool" where
  "into_memory g s \<sigma> \<longleftrightarrow>
    (let p = ucast (pcount \<sigma>); opcode = code16 s p; sz = operand_size opcode; mode = ea_mode opcode; r = reg_field opcode
     in drop_bit 12 opcode = g \<and> drop_bit 8 opcode AND 1 = 1 \<and> drop_bit 6 opcode AND 3 \<noteq> 3 \<and> alterable mode r \<and>
        ea_fits mode r (\<lambda>i. code16 s (at (p + 2) i)) (gpr \<sigma>) (pcount \<sigma> + 2) (ea_step sz r) \<and> uint (pcount \<sigma>) + 6 < 2 ^ 32)"

lemma memory_form:
  assumes "into_memory g s \<sigma>" "opcode = code16 s (ucast (pcount \<sigma>))"
  shows "operand_size opcode \<in> {1, 2, 4}" "insn_words opcode = ea_words (ea_mode opcode) (reg_field opcode) + 1"
    "operand_ok (operand_size opcode) (ea_mode opcode) (reg_field opcode) (\<lambda>i. code16 s (at (ucast (pcount \<sigma>) + 2) i)) (gpr \<sigma>) (pcount \<sigma> + 2)"
    "unat (drop_bit 8 opcode AND 1) = 1" "drop_bit 8 opcode AND 1 \<noteq> 0" "drop_bit 6 opcode AND 3 \<noteq> 3" "drop_bit 12 opcode = g"
    "alterable (ea_mode opcode) (reg_field opcode)" "uint (pcount \<sigma>) + 6 < 2 ^ 32"
    "ea_fits (ea_mode opcode) (reg_field opcode) (\<lambda>i. code16 s (at (ucast (pcount \<sigma>) + 2) i)) (gpr \<sigma>) (pcount \<sigma> + 2)
      (ea_step (operand_size opcode) (reg_field opcode))"
proof -
  note fm = assms(1) [unfolded into_memory_def Let_def, folded assms(2)]
  have al: "alterable (ea_mode opcode) (reg_field opcode)" using fm by blast
  then show "alterable (ea_mode opcode) (reg_field opcode)" .
  show "operand_size opcode \<in> {1, 2, 4}" using opcode_fields(5) fm by blast
  show "insn_words opcode = ea_words (ea_mode opcode) (reg_field opcode) + 1"
    using alterableD(6) [OF al] by (simp add: insn_words_def operand_words_def)
  show "operand_ok (operand_size opcode) (ea_mode opcode) (reg_field opcode) (\<lambda>i. code16 s (at (ucast (pcount \<sigma>) + 2) i)) (gpr \<sigma>) (pcount \<sigma> + 2)"
    using alterableD(5) [OF al] fm by (auto simp: operand_ok_def)
  show "unat (drop_bit 8 opcode AND 1) = 1" "drop_bit 8 opcode AND 1 \<noteq> 0" using fm by simp_all
  show "drop_bit 6 opcode AND 3 \<noteq> 3" "drop_bit 12 opcode = g" "uint (pcount \<sigma>) + 6 < 2 ^ 32"
    "ea_fits (ea_mode opcode) (reg_field opcode) (\<lambda>i. code16 s (at (ucast (pcount \<sigma>) + 2) i)) (gpr \<sigma>) (pcount \<sigma> + 2)
      (ea_step (operand_size opcode) (reg_field opcode))"
    using fm by blast+
qed

end
