(* ===== verification/Insn_Mem.thy ===== *)
theory Insn_Mem
  imports Insn_Add Mem_Ops
begin

text \<open>
  \<open>EMIT_ADD_ext\<close> and \<open>EMIT_SUB_reg\<close> in direction 1: the operand is in memory, is changed and
  written back.
\<close>

context arith
begin

lemma sized_memory:
  assumes "sz \<in> {1, 2}" "is_reg tmp" "is_reg src" "tmp \<noteq> src" "tmp \<notin> arm_temps - live_temps j" "src \<notin> arm_temps - live_temps j"
    "reg_is m tmp x" "reg_is m src y"
  shows "\<exists>m'. opers {tmp} j m (EMIT [lsl_i tmp tmp (32 - 8 * sz), opf tmp tmp src LSL (32 - 8 * sz), lsr_i tmp tmp (32 - 8 * sz)] j) m' \<and>
    reg_is m' tmp (take_bit (8 * unat sz) (calc x y)) \<and> m_mem m' = m_mem m \<and> (\<forall>f. flag_of m' f = codes (unat sz) x y f)"
proof -
  let ?k = "32 - 8 * sz" and ?n = "32 - 8 * unat sz"
  have k: "?k < 32" "unat ?k = ?n" "0 < unat sz" "unat sz \<le> 4" using assms(1) by auto
  let ?j1 = "EMIT [lsl_i tmp tmp ?k] j"
  let ?j2 = "EMIT [opf tmp tmp src LSL ?k] ?j1"
  obtain m1 where 1: "acts {tmp} j m ?j1 m1" "reg_is m1 tmp (push_bit ?n x)" "m_mem m1 = m_mem m"
    using lsl_acts [OF assms(2,2,1), of j m] unfolding reg_is_rdW [OF assms(7)] by blast
  have r1: "reg_is m1 src y" using reg_is_keeps [OF 1(1), of src] assms(4,6,8) by auto
  obtain m2 where 2: "opers {tmp} ?j1 m1 ?j2 m2" "reg_is m2 tmp (calc (push_bit ?n x) (push_bit ?n y))" "m_mem m2 = m_mem m1"
    "\<forall>f. flag_of m2 f = flag_of (add_flags (push_bit ?n x) (if neg then NOT (push_bit ?n y) else push_bit ?n y) neg m1) f"
    using opf_opers [OF assms(2,2,3) k(1), of ?j1 m1] unfolding k(2) reg_is_rdW [OF r1] reg_is_rdW [OF 1(2)] by blast
  have fl: "flag_of m2 f = codes (unat sz) x y f" for f using 2(4) calc_codes [OF k(3,4), of x y m1 f] by simp
  have r2: "reg_is m2 tmp (push_bit ?n (calc x y))" using 2(2) by (simp add: calc_push)
  obtain m3 where 3: "acts {tmp} ?j2 m2 (EMIT [lsr_i tmp tmp ?k] ?j2) m3" "reg_is m3 tmp (drop_bit ?n (push_bit ?n (calc x y)))"
    "m_mem m3 = m_mem m2"
    using lsr_acts [OF assms(2,2,1), of ?j2 m2] unfolding reg_is_rdW [OF r2] by blast
  have low: "drop_bit ?n (push_bit ?n v) = take_bit (8 * unat sz) v" for v :: u32
    using k(3,4) by (intro bit_word_eqI) (auto simp: bit_simps)
  have "opers {tmp} j m (EMIT [lsr_i tmp tmp ?k] ?j2) m3"
    using opers_trans [OF acts_opers [OF 1(1)] opers_trans [OF 2(1) acts_opers [OF 3(1)]]] .
  moreover have "flag_of m3 f = codes (unat sz) x y f" for f using flag_cong [of m3 m2 f] 3(1) fl by (simp add: acts_def)
  ultimately show ?thesis using 1(3) 2(3) 3(2,3) unfolding low
    by (intro exI [of _ m3]) (simp add: EMIT_Cons [of "lsl_i tmp tmp ?k" "[opf tmp tmp src LSL ?k, lsr_i tmp tmp ?k]"]
      EMIT_Cons [of "opf tmp tmp src LSL ?k" "[lsr_i tmp tmp ?k]"])
qed

lemma arith_memory_opers:
  assumes "sz \<in> {1, 2, 4}" "is_reg tmp" "is_reg src" "tmp \<noteq> src" "tmp \<notin> arm_temps - live_temps j" "src \<notin> arm_temps - live_temps j"
    "reg_is m tmp x" "reg_is m src y"
  shows "\<exists>m' v. opers {tmp} j m (arith_memory opn opf sz um tmp src j) m' \<and> reg_is m' tmp v \<and>
    take_bit (8 * unat sz) v = take_bit (8 * unat sz) (calc x y) \<and> m_mem m' = m_mem m \<and>
    (um \<noteq> 0 \<and> (sz = 4 \<or> \<not> few_flags um) \<longrightarrow> (\<forall>f. flag_of m' f = codes (unat sz) x y f))"
proof -
  have z: "(0 :: u8) < 32" by simp
  obtain m1 where 1: "acts {tmp} j m (EMIT [opn tmp tmp src LSL 0] j) m1" "reg_is m1 tmp (calc x y)" "m_mem m1 = m_mem m"
    using opn_acts [OF assms(2,2,3), of j m] unfolding reg_is_rdW [OF assms(7)] reg_is_rdW [OF assms(8)] by blast
  show ?thesis
  proof (cases "sz = 4")
    case True
    obtain m2 where 2: "opers {tmp} j m (EMIT [opf tmp tmp src LSL 0] j) m2" "reg_is m2 tmp (calc x (push_bit 0 y))" "m_mem m2 = m_mem m"
      "\<forall>f. flag_of m2 f = flag_of (add_flags x (if neg then NOT (push_bit 0 y) else push_bit 0 y) neg m) f"
      using opf_opers [OF assms(2,2,3) z, of j m] unfolding reg_is_rdW [OF assms(7)] reg_is_rdW [OF assms(8)] unsigned_0 by blast
    have "flag_of m2 f = codes 4 x y f" for f using 2(4) calc_codes [of 4 x y m f] by (cases neg) simp_all
    note fl = this
    show ?thesis
    proof (cases "um = 0")
      case um: True
      then have "arith_memory opn opf sz um tmp src j = EMIT [opn tmp tmp src LSL 0] j" using True by (simp add: arith_memory_def)
      then show ?thesis using 1 acts_opers [OF 1(1)] um by (intro exI [of _ m1] exI [of _ "calc x y"]) simp
    next
      case um: False
      then have "arith_memory opn opf sz um tmp src j = RESET_FLAGS (EMIT [opf tmp tmp src LSL 0] j)"
        using True by (simp add: arith_memory_def EMIT_rf_RESET)
      then show ?thesis using 2 fl True by (intro exI [of _ m2] exI [of _ "calc x y"]) simp
    qed
  next
    case False
    then have sz: "sz \<in> {1, 2}" using assms(1) by blast
    obtain m3 where 3: "opers {tmp} j m (EMIT [lsl_i tmp tmp (32 - 8 * sz), opf tmp tmp src LSL (32 - 8 * sz), lsr_i tmp tmp (32 - 8 * sz)] j) m3"
      "reg_is m3 tmp (take_bit (8 * unat sz) (calc x y))" "m_mem m3 = m_mem m" "\<forall>f. flag_of m3 f = codes (unat sz) x y f"
      using sized_memory [OF sz assms(2-8)] by blast
    show ?thesis
    proof (cases "few_flags um")
      case True
      then have "arith_memory opn opf sz um tmp src j = EMIT [opn tmp tmp src LSL 0] j" using sz by (auto simp: arith_memory_def)
      then show ?thesis using 1 acts_opers [OF 1(1)] True False by auto
    next
      case many: False
      then have "arith_memory opn opf sz um tmp src j =
          RESET_FLAGS (EMIT [lsl_i tmp tmp (32 - 8 * sz), opf tmp tmp src LSL (32 - 8 * sz), lsr_i tmp tmp (32 - 8 * sz)] j)"
        using sz by (auto simp: arith_memory_def EMIT_rf_RESET)
      then show ?thesis using 3 by (intro exI [of _ m3] exI [of _ "take_bit (8 * unat sz) (calc x y)"]) simp
    qed
  qed
qed

text \<open>Direction 1 up to the update of the remaining flags.\<close>

lemma arith_to_memory_effect:
  assumes "cpu j m R pc" "ra_wf j" "coherent j m" "free_temps 5 j"
    "operand_size opcode = sz" "field_9 opcode = dn" "ea_mode opcode = mode" "reg_field opcode = r" "sz \<in> {1, 2, 4}"
    "alterable mode r" "ea_fits mode r (\<lambda>i. code16 s (at p i)) R (pc + 2) (ea_step sz r)"
    "A = ea_address mode r (\<lambda>i. code16 s (at p i)) R (pc + 2) (ea_step sz r)" "x = rd_be (m_mem m) (ucast A) (unat sz)"
  shows "\<exists>um' j' m'. arith_to_memory opn opf um s opcode p j = (um', ea_words mode r, j') \<and>
    effect (ea_updates mode r) um j m j' m' \<and> m_mem m' = wr_be (m_mem m) (ucast A) (unat sz) (calc x (R dn)) \<and> cc_live j j' \<and>
    cpu j' m' (ea_after mode r (ea_step sz r) R) pc \<and>
    (um' = 0 \<and> (\<forall>f. in_mask f um \<longrightarrow> ccf j' m' f = codes (unat sz) x (R dn) f) \<or>
     um' = um \<and> um \<noteq> 0 \<and> (\<forall>f. flag_of m' f = codes (unat sz) x (R dn) f))"
proof -
  note fields = opcode_fields [of opcode, unfolded assms(5-8)]
  let ?U = "ea_updates mode r" and ?R = "ea_after mode r (ea_step sz r) R" and ?c = "\<lambda>f. codes (unat sz) x (R dn) f"
  let ?F = "\<lambda>tmp. arith_memory opn opf sz um tmp (host dn)"
  let ?P = "\<lambda>m. um \<noteq> 0 \<and> (sz = 4 \<or> \<not> few_flags um) \<longrightarrow> (\<forall>f. flag_of m f = ?c f)"
  have lF: "live_temps (?F tmp j) = live_temps j" for tmp j by (simp add: arith_memory_def)
  have op: "\<exists>m2 v. opers {tmp} j1 m1 (?F tmp j1) m2 \<and> reg_is m2 tmp v \<and>
      take_bit (8 * unat sz) v = take_bit (8 * unat sz) (calc x (R dn)) \<and> m_mem m2 = m_mem m1 \<and> ?P m2"
    if "is_reg tmp" "tmp \<in> arm_temps" "tmp \<in> live_temps j1" "reg_is m1 tmp x" "reg_is m1 (host dn) (R dn)" for tmp j1 m1
    by (rule arith_memory_opers [OF assms(9) that(1) host_reg(1) _ _ _ that(4,5)]) (use that(2,3) host_reg(3) in auto)
  have P: "?P m'" if "m_n m' = m_n m" "m_z m' = m_z m" "m_c m' = m_c m" "m_v m' = m_v m" "?P m" for m m'
    using that(5) flag_cong [OF that(1-4)] by simp
  have "\<exists>tmp ja t j1 j2 m2 v. alloc_result j tmp ja \<and>
      EMIT_LoadFromEffectiveAddress 0 0xff (push_bit 3 mode OR r) 0 (\<not> (mode = 4 \<or> mode = 3)) False s p ja = (t, 0, ea_words mode r, j1) \<and>
      j2 = write_operand sz mode r t tmp (?F tmp (fetch_operand sz mode r t tmp j1)) \<and>
      held t ja j2 \<and>
      tmp \<in> live_temps j2 \<and>
      opers ?U j m j2 m2 \<and>
      reg_is m2 tmp v \<and>
      take_bit (8 * unat sz) v = take_bit (8 * unat sz) (calc x (R dn)) \<and>
      m_mem m2 = wr_be (m_mem m) (ucast A) (unat sz) (calc x (R dn)) \<and>
      cpu j2 m2 ?R pc \<and>
      ?P m2"
    by (rule alter_memory [OF assms(1,4,9,10) fields(4) assms(11-13), where F = ?F and P = "\<lambda>_. ?P", OF lF])
      (rule op, assumption+, rule P, assumption+)
  then obtain tmp ja t j1 j2 m2 v where 2: "alloc_result j tmp ja"
    "EMIT_LoadFromEffectiveAddress 0 0xff (push_bit 3 mode OR r) 0 (\<not> (mode = 4 \<or> mode = 3)) False s p ja = (t, 0, ea_words mode r, j1)"
    "j2 = write_operand sz mode r t tmp (?F tmp (fetch_operand sz mode r t tmp j1))"
    "held t ja j2" "tmp \<in> live_temps j2" "opers ?U j m j2 m2" "reg_is m2 tmp v"
    "take_bit (8 * unat sz) v = take_bit (8 * unat sz) (calc x (R dn))" "m_mem m2 = wr_be (m_mem m) (ucast A) (unat sz) (calc x (R dn))"
    "cpu j2 m2 ?R pc" "?P m2"
    by blast
  note ra = alloc_reg [OF 2(1)]
  have sa: "status_part ja = status_part j" using 2(1) by (simp add: alloc_result_def status_part_def)
  have ht: "held tmp j ja" using ra(1,4,6) 2(1) by (auto simp: held_def alloc_result_def)
  have wa: "ra_wf ja" using assms(2) status_part_regs [OF sa] ra(6) by (auto simp: ra_wf_live)
  have S: "?U \<inter> live_temps j = {}" using ea_updates_live [of dn mode r j] by blast
  note st = opers_status [OF 2(6) S assms(2,3)]
  have sp: "status_part j2 = status_part ja" using 2(6) sa by (simp add: opers_def)
  have tmp: "is_reg tmp" "tmp \<notin> arm_temps \<or> (tmp \<in> live_temps j2 \<and> tmp \<noteq> reg_CC j2)"
    using ra(1) 2(5) held_status [OF ht assms(2)] sp sa by (simp_all add: status_part_def)
  have "free_temps 4 ja" using held_temps [OF ht, of 4] assms(4) by simp
  then have "free_temps 3 j2" using held_temps [OF 2(4), of 3] by simp
  then have f2: "free_temps 2 j2" by (rule free_temps_mono) simp
  obtain um' j3 where sf: "single_flag sz um tmp j2 = (um', j3)" by fastforce
  obtain m3 where m3: "effect {} um j2 m2 j3 m3" "m_mem m3 = m_mem m2" "cc_live j2 j3"
    "um' = 0 \<and> (\<forall>f. in_mask f um \<longrightarrow> ccf j3 m3 f = ?c f) \<or> um' = um \<and> um \<noteq> 0 \<and> (\<forall>f. flag_of m3 f = ?c f)"
    using single_rest [OF assms(9) st(1,2) f2 tmp 2(7,8,11) sf] by blast
  let ?j' = "RA_FreeARMRegister tmp (RA_FreeARMRegister t j3)"
  note fr = held_Free [OF 2(4) sp m3(3) wa]
  note ft = held_Free [OF ht sa fr(2) assms(2)]
  have e': "effect {} um j2 m2 ?j' m3" by (rule effect_Free [OF effect_Free [OF m3(1) fr(1)] ft(1)])
  have "effect ?U um j m ?j' m3"
    by (rule effect_trans [OF opers_effect [OF 2(6) S assms(2,3)] effect_mono [OF e']]) simp_all
  moreover have "cpu ?j' m3 ?R pc" by (rule cpu_effect [OF 2(10) e']) simp
  moreover have "um' = 0 \<and> (\<forall>f. in_mask f um \<longrightarrow> ccf ?j' m3 f = ?c f) \<or> um' = um \<and> um \<noteq> 0 \<and> (\<forall>f. flag_of m3 f = ?c f)"
    using m3(4) by (simp add: ccf_def)
  moreover have "m_mem m3 = wr_be (m_mem m) (ucast A) (unat sz) (calc x (R dn))" using m3(2) 2(9) by simp
  moreover have "arith_to_memory opn opf um s opcode p j = (um', ea_words mode r, ?j')"
    using 2(2) sf by (simp add: arith_to_memory_def assms(5-8) fields(1) ra(5) 2(3) [symmetric])
  ultimately show ?thesis using ft(2) by blast
qed

text \<open>The whole instruction, direction 1.\<close>

lemma arith_handler_memory:
  assumes "cpu j m R pc" "ra_wf j" "coherent j m" "enough_temps j" "um = M68K_GetSRMask c s (p - 2)"
    "operand_size opcode = sz" "field_9 opcode = dn" "ea_mode opcode = mode" "reg_field opcode = r" "sz \<in> {1, 2, 4}"
    "drop_bit 8 opcode AND 1 \<noteq> 0" "alterable mode r" "ea_fits mode r (\<lambda>i. code16 s (at p i)) R (pc + 2) (ea_step sz r)"
    "A = ea_address mode r (\<lambda>i. code16 s (at p i)) R (pc + 2) (ea_step sz r)" "x = rd_be (m_mem m) (ucast A) (unat sz)"
  shows "\<exists>j' m'. arith_handler opn opf update_flags c s opcode p j = (at p (ea_words mode r), j') \<and>
    effect (insert REG_PC (ea_updates mode r)) (um OR 15) j m j' m' \<and>
    m_mem m' = wr_be (m_mem m) (ucast A) (unat sz) (calc x (R dn)) \<and> enough_temps j' \<and>
    cpu j' m' (ea_after mode r (ea_step sz r) R) (pc + of_nat (2 * (ea_words mode r + 1))) \<and>
    (\<forall>f. in_mask f um \<longrightarrow> ccf j' m' f = codes (unat sz) x (R dn) f)"
proof -
  let ?c = "\<lambda>f. codes (unat sz) x (R dn) f"
  have um: "um < 32" using GetSRMask_less assms(5) by simp
  have f5: "free_temps 5 j" by (rule free_temps_mono [OF enough_temps_free [OF assms(4)]]) simp
  obtain um' j1 m1 where 1: "arith_to_memory opn opf um s opcode p j = (um', ea_words mode r, j1)"
    "effect (ea_updates mode r) um j m j1 m1" "m_mem m1 = wr_be (m_mem m) (ucast A) (unat sz) (calc x (R dn))" "cc_live j j1"
    "cpu j1 m1 (ea_after mode r (ea_step sz r) R) pc"
    "um' = 0 \<and> (\<forall>f. in_mask f um \<longrightarrow> ccf j1 m1 f = ?c f) \<or> um' = um \<and> um \<noteq> 0 \<and> (\<forall>f. flag_of m1 f = ?c f)"
    using arith_to_memory_effect [OF assms(1-3) f5 assms(6-10,12-15), where um = um] by blast
  have e1: "effect (ea_updates mode r) (um OR 15) j m j1 m1"
    by (rule effect_mono [OF 1(2)]) (auto simp: in_mask_def bit_simps)
  have w2: "ea_words mode r \<le> 2" by (simp add: ea_words_def)
  have tail: "\<exists>m3. effect {} (um OR 15) j2 m2 (update_flags um' j2) m3 \<and> m_mem m3 = m_mem m2 \<and> cc_live j2 (update_flags um' j2) \<and>
      (\<forall>f. in_mask f um \<longrightarrow> ccf (update_flags um' j2) m3 f = ?c f)" if "after_advance j1 m1 j2 m2" for j2 m2
    by (rule arith_tail [OF that um 1(6)])
  have "arith_handler opn opf update_flags c s opcode p j =
      (at p (ea_words mode r), update_flags um' (EMIT_AdvancePC (of_nat (2 * (ea_words mode r + 1))) j1))"
    using assms(11) by (simp add: arith_handler_def assms(5) [symmetric] 1(1) Let_def)
  then show ?thesis
    using finish_insn [OF 1(5) e1 1(4) assms(4,2) w2 tail] 1(3) by simp
qed

end

end
