(* ===== verification/Mem_Step.thy ===== *)
theory Mem_Step
  imports Insn_Mem Insn_Step
begin

text \<open>
  The simulation for \<open>ADD Dn,<ea>\<close> and \<open>SUB Dn,<ea>\<close>: the operand in memory is read, changed
  and written back.
\<close>

section \<open>The step of the processor\<close>

definition arith_memory_step ::
  "(u32 \<Rightarrow> u32 \<Rightarrow> u32) \<Rightarrow> (nat \<Rightarrow> u32 \<Rightarrow> u32 \<Rightarrow> ccflag \<Rightarrow> bool) \<Rightarrow> cache_sys \<Rightarrow> m68k \<Rightarrow> m68k" where
  "arith_memory_step calc codes s \<sigma> =
    (let p = ucast (pcount \<sigma>); opcode = code16 s p; sz = operand_size opcode; mode = ea_mode opcode; r = reg_field opcode;
         a = ucast (ea_address mode r (\<lambda>i. code16 s (at (p + 2) i)) (gpr \<sigma>) (pcount \<sigma> + 2) (ea_step sz r));
         x = rd_be (ram \<sigma>) a (unat sz); y = gpr \<sigma> (field_9 opcode)
     in \<sigma>\<lparr>gpr := ea_after mode r (ea_step sz r) (gpr \<sigma>), ram := wr_be (ram \<sigma>) a (unat sz) (calc x y),
          sr_flag := codes (unat sz) x y, pcount := pcount \<sigma> + of_nat (2 * insn_words opcode)\<rparr>)"

context arith
begin

lemma memory_simulates:
  assumes "ordinary_code s" "emulates s j m \<sigma>" "into_memory g s \<sigma>" "opcode = code16 s (ucast (pcount \<sigma>))"
    "SR_sets opcode = 0x1f" "M68K_GetINSNLength s (ucast (pcount \<sigma>)) = insn_words opcode" "\<not> M68K_IsBranch s (ucast (pcount \<sigma>))"
  shows "\<exists>j' m'. arith_handler opn opf update_flags c s opcode (ucast (pcount \<sigma>) + 2) j =
      (ucast (pcount (arith_memory_step calc codes s \<sigma>)), j') \<and>
    produces j m j' m' \<and> emulates s j' m' (arith_memory_step calc codes s \<sigma>)"
proof -
  let ?p = "ucast (pcount \<sigma>) :: u64" and ?sz = "operand_size opcode" and ?mode = "ea_mode opcode" and ?r = "reg_field opcode"
  let ?w = "ea_words ?mode ?r" and ?um = "M68K_GetSRMask c s ?p" and ?n = "arith_memory_step calc codes s \<sigma>"
  let ?a = "ea_address ?mode ?r (\<lambda>i. code16 s (at (?p + 2) i)) (gpr \<sigma>) (pcount \<sigma> + 2) (ea_step ?sz ?r)"
  note em = assms(2) [unfolded emulates_def] and fm = memory_form [OF assms(3,4)]
  define x where "x = rd_be (m_mem m) (ucast ?a) (unat ?sz)"
  define y where "y = gpr \<sigma> (field_9 opcode)"
  have um: "?um = M68K_GetSRMask c s (?p + 2 - 2)" by simp
  obtain j' m' where h: "arith_handler opn opf update_flags c s opcode (?p + 2) j = (at (?p + 2) ?w, j')"
    "effect (insert REG_PC (ea_updates ?mode ?r)) (?um OR 15) j m j' m'"
    "m_mem m' = wr_be (m_mem m) (ucast ?a) (unat ?sz) (calc x y)" "enough_temps j'"
    "cpu j' m' (ea_after ?mode ?r (ea_step ?sz ?r) (gpr \<sigma>)) (pcount \<sigma> + of_nat (2 * (?w + 1)))"
    "\<forall>f. in_mask f ?um \<longrightarrow> ccf j' m' f = codes (unat ?sz) x y f"
    unfolding y_def
    using arith_handler_memory [OF _ _ _ _ um refl refl refl refl fm(1,5,8,10) refl x_def] em by blast
  have st: "gpr ?n = ea_after ?mode ?r (ea_step ?sz ?r) (gpr \<sigma>)" "pcount ?n = pcount \<sigma> + of_nat (2 * (?w + 1))"
      "ram ?n = wr_be (m_mem m) (ucast ?a) (unat ?sz) (calc x y)" "sr_flag ?n = codes (unat ?sz) x y"
    using em fm(2) by (simp_all add: arith_memory_step_def Let_def assms(4) [symmetric] x_def y_def)
  have w2: "?w \<le> 2" by (simp add: ea_words_def)
  have p': "at (?p + 2) ?w = ucast (pcount ?n)" "at ?p (insn_words opcode) = ucast (pcount ?n)"
    using code_pointer [OF fm(9) w2] unfolding st fm(2) by blast+
  have "produces j m j' m' \<and> emulates s j' m' ?n"
    by (rule emulates_step [OF assms(1,2) refl assms(4) assms(7) _ h(2) _ h(4), where c = c])
      (use h(3,5,6) em in \<open>simp_all add: assms(5,6) p'(2) st all_five\<close>)
  then show ?thesis using h(1) p'(1) by auto
qed

end

text \<open>The groups D and 9.\<close>

definition ADD_memory_step :: "cache_sys \<Rightarrow> m68k \<Rightarrow> m68k" where
  "ADD_memory_step = arith_memory_step (+) add_ccr"

definition SUB_memory_step :: "cache_sys \<Rightarrow> m68k \<Rightarrow> m68k" where
  "SUB_memory_step = arith_memory_step (-) sub_ccr"

lemma plain_memory:
  "plain_rows sr_CCR {H_ADD_mem, H_ADD_ext} InsnTable_D 1 (\<lambda>_ mode r. mode = 2 \<or> mode = 3 \<or> mode = 4 \<or> mode = 7 \<and> r < 2)"
  "plain_rows sr_CCR {H_SUB_mem, H_SUB_ext} InsnTable_9 1 (\<lambda>_ mode r. mode = 2 \<or> mode = 3 \<or> mode = 4 \<or> mode = 7 \<and> r < 2)"
proof -
  show "plain_rows sr_CCR {H_ADD_mem, H_ADD_ext} InsnTable_D 1 (\<lambda>_ mode r. mode = 2 \<or> mode = 3 \<or> mode = 4 \<or> mode = 7 \<and> r < 2)"
    by (rule plain_rowsI, elim disjE) (simp_all add: InsnTable_entry_def InsnTable_D_def plain_row_def)
  show "plain_rows sr_CCR {H_SUB_mem, H_SUB_ext} InsnTable_9 1 (\<lambda>_ mode r. mode = 2 \<or> mode = 3 \<or> mode = 4 \<or> mode = 7 \<and> r < 2)"
    by (rule plain_rowsI, elim disjE) (simp_all add: InsnTable_entry_def InsnTable_9_def plain_row_def)
qed

lemma memory_facts:
  assumes "into_memory g s \<sigma>" "p = ucast (pcount \<sigma>)" "opcode = code16 s p" "g = 13 \<or> g = 9"
  shows "SR_sets opcode = 0x1f" "M68K_GetINSNLength s p = insn_words opcode" "\<not> M68K_IsBranch s p"
    "g = 13 \<Longrightarrow> \<exists>row. InsnTable_entry InsnTable_D (unat (opcode AND 0x1ff)) = Some row \<and> od_Emit row \<in> {H_ADD_mem, H_ADD_ext}"
    "g = 9 \<Longrightarrow> \<exists>row. InsnTable_entry InsnTable_9 (unat (opcode AND 0x1ff)) = Some row \<and> od_Emit row \<in> {H_SUB_mem, H_SUB_ext}"
proof -
  note fm = memory_form [OF assms(1), of opcode, folded assms(2), OF assms(3)]
  have d: "drop_bit 12 opcode = g" by (rule fm(7))
  show "\<not> M68K_IsBranch s p" using branch_groups [of s p] d assms(3,4) by auto
  have ok: "unat (ea_mode opcode) = 2 \<or> unat (ea_mode opcode) = 3 \<or> unat (ea_mode opcode) = 4 \<or>
      unat (ea_mode opcode) = 7 \<and> unat (reg_field opcode) < 2"
    using fm(8) by (auto simp: alterable_def)
  note D = plain_facts [OF fm(4,6) assms(3) fm(3) plain_memory(1) ok] and N = plain_facts [OF fm(4,6) assms(3) fm(3) plain_memory(2) ok]
  show "\<exists>row. InsnTable_entry InsnTable_D (unat (opcode AND 0x1ff)) = Some row \<and> od_Emit row \<in> {H_ADD_mem, H_ADD_ext}" by (rule D(3))
  show "\<exists>row. InsnTable_entry InsnTable_9 (unat (opcode AND 0x1ff)) = Some row \<and> od_Emit row \<in> {H_SUB_mem, H_SUB_ext}" by (rule N(3))
  show "SR_sets opcode = 0x1f"
    using assms(4) d D(1) N(1) by (auto simp: SR_sets_def SR_flags_def SRCheck_def GetSR_LineD_def GetSR_Line9_def)
  show "M68K_GetINSNLength s p = insn_words opcode"
    using assms(4) d D(2) N(2) unfolding M68K_GetINSNLength_def Let_def assms(3) [symmetric]
    by (auto simp: M68K_GetLineDLength_def M68K_GetLine9Length_def)
qed

section \<open>Properties\<close>

lemma ADD_memory_simulated:
  assumes "ordinary_code s" "emulates s j m \<sigma>" "into_memory 13 s \<sigma>" "opcode = code16 s (ucast (pcount \<sigma>))"
  shows "\<exists>j' m'. EMIT_ADD_ext c s opcode (ucast (pcount \<sigma>) + 2) j = (ucast (pcount (ADD_memory_step s \<sigma>)), j') \<and>
    produces j m j' m' \<and> emulates s j' m' (ADD_memory_step s \<sigma>)"
  unfolding EMIT_ADD_ext_def ADD_memory_step_def
  by (rule add.memory_simulates [OF assms]) (simp_all add: memory_facts [OF assms(3) refl assms(4)] memory_facts(3) [OF assms(3) refl refl])

lemma SUB_memory_simulated:
  assumes "ordinary_code s" "emulates s j m \<sigma>" "into_memory 9 s \<sigma>" "opcode = code16 s (ucast (pcount \<sigma>))"
  shows "\<exists>j' m'. EMIT_SUB_reg c s opcode (ucast (pcount \<sigma>) + 2) j = (ucast (pcount (SUB_memory_step s \<sigma>)), j') \<and>
    produces j m j' m' \<and> emulates s j' m' (SUB_memory_step s \<sigma>)"
  unfolding EMIT_SUB_reg_def SUB_memory_step_def
  by (rule sub.memory_simulates [OF assms]) (simp_all add: memory_facts [OF assms(3) refl assms(4)] memory_facts(3) [OF assms(3) refl refl])

text \<open>
  C9. \<open>EMIT_ADD_ext\<close> is correct in direction 1: for \<open>ADD Dn,<ea>\<close> of each size, with the
  destination at an address register, with or without an update, or at an absolute address,
  the code it emits leaves the host representing the processor after the instruction: the
  sum is in memory, and nothing else of memory has changed.
\<close>

theorem EMIT_ADD_ext_memory_simulates:
  assumes "ordinary_code s" "emulates s j m \<sigma>" "into_memory 13 s \<sigma>" "opcode = code16 s (ucast (pcount \<sigma>))"
  shows "\<exists>j' m'. EMIT_ADD_ext c s opcode (ucast (pcount \<sigma>) + 2) j = (ucast (pcount (ADD_memory_step s \<sigma>)), j') \<and>
    produces j m j' m' \<and> emulates s j' m' (ADD_memory_step s \<sigma>)"
  by (rule ADD_memory_simulated [OF assms])

theorem EMIT_ADD_ext_memory_simulates_witness:
  "\<exists>j' m'. EMIT_ADD_ext 0 (filled 0xd1 0x50) 0xd150 2 (jit_init 64) = (2, j') \<and> run (tc_code j') two_machine = Some m' \<and>
    m_mem m' 0 = 0x7f \<and> m_mem m' 1 = 0xff"
proof -
  let ?s = "filled 0xd1 0x50"
  have c: "code16 ?s p = (if bit p 0 then 0x50d1 else 0xd150)" for p by (simp add: filled_code)
  have x: "code16 ?s 0 = 0xd150" by (simp add: c)
  have o: "ordinary_code ?s" by (simp add: ordinary_code_def c)
  have f: "operand_size 0xd150 = 2" "ea_mode 0xd150 = 2" "reg_field 0xd150 = 0" "field_9 0xd150 = 0"
    by (simp_all add: operand_size_def ea_mode_def reg_field_def field_9_def)
  have i: "into_memory 13 ?s two_cpu"
    by (simp add: into_memory_def two_cpu_def x f alterable_def ea_fits_def)
  have z: "rd_be (m_mem two_machine) a 2 = 0" for a
    by (simp add: rd_be_def two_machine_def m_reset_def numeral_2_eq_2)
  have "ram (ADD_memory_step ?s two_cpu) 0 = 0x7f" "ram (ADD_memory_step ?s two_cpu) 1 = 0xff" "pcount (ADD_memory_step ?s two_cpu) = 2"
    by (simp_all add: ADD_memory_step_def arith_memory_step_def two_cpu_def x f insn_words_def operand_words_def operand_direct_def ea_words_def
      ea_address_def two_regs_def wr_be_def z Let_def)
  moreover obtain j' m' where q: "EMIT_ADD_ext 0 ?s 0xd150 (ucast (pcount two_cpu) + 2) (jit_init 64) =
      (ucast (pcount (ADD_memory_step ?s two_cpu)), j')"
    "produces (jit_init 64) two_machine j' m'" "emulates ?s j' m' (ADD_memory_step ?s two_cpu)"
    using EMIT_ADD_ext_memory_simulates [OF o two_emulates i, of "0xd150" 0] x by (auto simp: two_cpu_def)
  moreover have "run (tc_code j') two_machine = Some m'" using q(2) by (simp add: produces_def jit_init_def)
  moreover have "m_mem m' = ram (ADD_memory_step ?s two_cpu)" using q(3) by (simp add: emulates_def)
  ultimately show ?thesis by (auto simp: two_cpu_def)
qed

text \<open>
  C10. \<open>EMIT_SUB_reg\<close> is correct in direction 1, \<open>SUB Dn,<ea>\<close>, in the same sense: the difference
  is in memory, the flags are those of the subtraction.
\<close>

theorem EMIT_SUB_reg_memory_simulates:
  assumes "ordinary_code s" "emulates s j m \<sigma>" "into_memory 9 s \<sigma>" "opcode = code16 s (ucast (pcount \<sigma>))"
  shows "\<exists>j' m'. EMIT_SUB_reg c s opcode (ucast (pcount \<sigma>) + 2) j = (ucast (pcount (SUB_memory_step s \<sigma>)), j') \<and>
    produces j m j' m' \<and> emulates s j' m' (SUB_memory_step s \<sigma>)"
  by (rule SUB_memory_simulated [OF assms])

theorem EMIT_SUB_reg_memory_simulates_witness:
  "\<exists>j' m'. EMIT_SUB_reg 0 (filled 0x91 0x50) 0x9150 2 (jit_init 64) = (2, j') \<and> run (tc_code j') two_machine = Some m' \<and>
    m_mem m' 0 = 0x80 \<and> m_mem m' 1 = 1"
proof -
  let ?s = "filled 0x91 0x50"
  have c: "code16 ?s p = (if bit p 0 then 0x5091 else 0x9150)" for p by (simp add: filled_code)
  have x: "code16 ?s 0 = 0x9150" by (simp add: c)
  have o: "ordinary_code ?s" by (simp add: ordinary_code_def c)
  have f: "operand_size 0x9150 = 2" "ea_mode 0x9150 = 2" "reg_field 0x9150 = 0" "field_9 0x9150 = 0"
    by (simp_all add: operand_size_def ea_mode_def reg_field_def field_9_def)
  have i: "into_memory 9 ?s two_cpu"
    by (simp add: into_memory_def two_cpu_def x f alterable_def ea_fits_def)
  have z: "rd_be (m_mem two_machine) a 2 = 0" for a
    by (simp add: rd_be_def two_machine_def m_reset_def numeral_2_eq_2)
  have "ram (SUB_memory_step ?s two_cpu) 0 = 0x80" "ram (SUB_memory_step ?s two_cpu) 1 = 1" "pcount (SUB_memory_step ?s two_cpu) = 2"
    by (simp_all add: SUB_memory_step_def arith_memory_step_def two_cpu_def x f insn_words_def operand_words_def operand_direct_def ea_words_def
      ea_address_def two_regs_def wr_be_def z Let_def)
  moreover obtain j' m' where q: "EMIT_SUB_reg 0 ?s 0x9150 (ucast (pcount two_cpu) + 2) (jit_init 64) =
      (ucast (pcount (SUB_memory_step ?s two_cpu)), j')"
    "produces (jit_init 64) two_machine j' m'" "emulates ?s j' m' (SUB_memory_step ?s two_cpu)"
    using EMIT_SUB_reg_memory_simulates [OF o two_emulates i, of "0x9150" 0] x by (auto simp: two_cpu_def)
  moreover have "run (tc_code j') two_machine = Some m'" using q(2) by (simp add: produces_def jit_init_def)
  moreover have "m_mem m' = ram (SUB_memory_step ?s two_cpu)" using q(3) by (simp add: emulates_def)
  ultimately show ?thesis by (auto simp: two_cpu_def)
qed

end
