(* ===== verification/Logic_Ops.thy ===== *)
theory Logic_Ops
  imports Insn_Logic Emulation Cond_FPU
begin

text \<open>
  What the code of the logic operations does: the operation on the low part of a register,
  the test of the result, and the flags.
\<close>

section \<open>The condition codes of a logic operation\<close>

fun logic_ccr :: "nat \<Rightarrow> u32 \<Rightarrow> ccflag \<Rightarrow> bool" where
  "logic_ccr n v Zf = (take_bit (8 * n) v = 0)"
| "logic_ccr n v Nf = bit v (8 * n - 1)"
| "logic_ccr n v _ = False"

lemma in_signed_sval: "0 < n \<Longrightarrow> n \<le> 4 \<Longrightarrow> in_signed n (sval n 0 + sval n v)"
  using sval_range [of n v] by (simp add: sval_def)

lemma cmn_flags:
  assumes "0 < n" "n \<le> 4"
  shows "host_flag_logic (add_flags 0 (push_bit (32 - 8 * n) v) False m) f = logic_ccr n v f"
    "\<not> m_v (add_flags 0 (push_bit (32 - 8 * n) v) False m)"
proof -
  have a: "host_flag (add_flags 0 (push_bit (32 - 8 * n) v) False m) f = add_ccr n 0 v f" for f
    using add_host_flags [OF assms, of 0 v m f] by simp
  show "host_flag_logic (add_flags 0 (push_bit (32 - 8 * n) v) False m) f = logic_ccr n v f"
    using a [of Zf] a [of Nf] by (cases f) simp_all
  show "\<not> m_v (add_flags 0 (push_bit (32 - 8 * n) v) False m)"
    using a [of Vf] in_signed_sval [OF assms] by simp
qed

lemma not_n_z: "\<not> (logic_ccr n v Nf \<and> logic_ccr n v Zf)" if "0 < n"
proof -
  have "bit (take_bit (8 * n) v) (8 * n - 1) = bit v (8 * n - 1)" using that by (simp add: bit_take_bit_iff)
  then show ?thesis by auto
qed

text \<open>The host's flags hold the outcome \<open>v\<close> of a logic operation of \<open>n\<close> bytes.\<close>

definition tested :: "nat \<Rightarrow> u32 \<Rightarrow> mstate \<Rightarrow> bool" where
  "tested n v m \<longleftrightarrow> (\<forall>f. host_flag_logic m f = logic_ccr n v f) \<and> \<not> m_v m"

lemma tested_cong: "m_n m' = m_n m \<Longrightarrow> m_z m' = m_z m \<Longrightarrow> m_v m' = m_v m \<Longrightarrow> tested n v m' = tested n v m"
proof -
  assume e: "m_n m' = m_n m" "m_z m' = m_z m" "m_v m' = m_v m"
  then have "host_flag_logic m' f = host_flag_logic m f" for f by (cases f) simp_all
  with e show ?thesis by (simp add: tested_def)
qed

lemma cmn_opers:
  assumes "is_reg r" "0 < n" "n \<le> 4" "k = 32 - 8 * of_nat n"
  shows "\<exists>m'. opers {} j m (EMIT [cmn_reg 31 r LSL k] j) m' \<and> tested n (rdW m r) m' \<and> m_mem m' = m_mem m"
proof -
  have "n = 1 \<or> n = 2 \<or> n = 3 \<or> n = 4" using assms(2,3) by linarith
  then have k: "k < 32" "unat k = 32 - 8 * n" by (elim disjE; simp add: assms(4))+
  let ?i = "AddSubReg False True 31 31 r LSL (unat k)"
  have "take_bit 5 (31 :: u8) = 31" by simp
  then have d: "decode (fetch (cmn_reg 31 r LSL k)) = Some ?i"
    using assms(1) decode_add_reg(2) [OF k(1)] by (simp add: cmn_reg_def is_regD)
  have e: "exec ?i m = (add_flags 0 (push_bit (unat k) (rdW m r)) False m)\<lparr>m_pc := m_pc m + 4\<rparr>"
    by (simp add: exec_def Let_def wrW_def wrX_def rdW_def rdX_def add_flags_def)
  have r: "rdX (add_flags a b c m) s = rdX m s" "m_simd (add_flags a b c m) = m_simd m" "m_mem (add_flags a b c m) = m_mem m" for a b c s
    by (simp_all add: add_flags_def Let_def)
  have "opers {} j m (EMIT [cmn_reg 31 r LSL k] j) (exec ?i m)"
    by (rule opers_decoded [OF d]) (simp_all add: e r)
  moreover have "tested n (rdW m r) (exec ?i m) = tested n (rdW m r) (add_flags 0 (push_bit (unat k) (rdW m r)) False m)"
    by (rule tested_cong) (simp_all add: e)
  then have "tested n (rdW m r) (exec ?i m)" using cmn_flags [OF assms(2,3)] by (simp add: tested_def k(2))
  ultimately show ?thesis by (intro exI [of _ "exec ?i m"]) (simp add: e r)
qed

lemma test_result_opers:
  assumes "is_reg r" "sz \<in> {1, 2, 4}" "sz = 4 \<and> \<not> long \<longrightarrow> tested 4 (rdW m r) m"
  shows "\<exists>m'. opers {} j m (test_result long sz r j) m' \<and> tested (unat sz) (rdW m r) m' \<and> m_mem m' = m_mem m"
proof (cases "sz = 4 \<and> \<not> long")
  case True
  then show ?thesis using assms(3) by (intro exI [of _ m]) (simp add: test_result_def opers_def produces_same)
next
  case False
  have "32 - 8 * of_nat (unat sz) = (32 - 8 * sz :: u8)" by simp
  then have "\<exists>m'. opers {} j m (EMIT [cmn_reg 31 r LSL (32 - 8 * sz)] j) m' \<and> tested (unat sz) (rdW m r) m' \<and> m_mem m' = m_mem m"
    using assms(2) by (intro cmn_opers [OF assms(1)]) auto
  then show ?thesis using assms(2) False by (auto simp: test_result_def EMIT_rf_RESET)
qed

section \<open>The update of the flags\<close>

lemma less16_no_X: "um < 16 \<Longrightarrow> \<not> in_mask Xf um" for um :: u8
proof -
  assume "um < 16"
  then have "um < 2 ^ 4" by simp
  then have "\<not> bit um 4" using less_mask_eq [of um 4] by (metis bit_and_iff bit_mask_iff less_irrefl)
  then show ?thesis by (simp add: in_mask_def)
qed

text \<open>The search for dead flags only asks for flags that the instruction sets.\<close>

lemma GetSRMask_less_16: "SR_sets (code16 s p) = 15 \<Longrightarrow> M68K_GetSRMask c s p < 16"
proof -
  assume a: "SR_sets (code16 s p) = 15"
  have "\<not> bit (M68K_GetSRMask c s p) n" if "4 \<le> n" for n
  proof
    assume "bit (M68K_GetSRMask c s p) n"
    then have "bit (15 :: u8) n" using scan_within a unfolding M68K_GetSRMask_def by fastforce
    moreover have "(15 :: u8) = mask 4" by (simp add: mask_eq_exp_minus_1)
    ultimately show False using that by (simp add: bit_mask_iff)
  qed
  then show ?thesis using bits_below [of 4 "M68K_GetSRMask c s p"] by simp
qed

lemma in_nzvc: "in_mask f 15 \<longleftrightarrow> f \<noteq> Xf"
proof -
  have "\<not> in_mask Xf 0" by (simp add: in_mask_def)
  then show ?thesis using outside_nzvc [of f 0] by auto
qed

lemma update_flags_logic_effect:
  assumes "ra_wf j" "coherent j m" "free_temps 3 j" "um < 16" "um \<noteq> 3" "tested n v m" "0 < n"
  shows "\<exists>m'. effect {} 15 j m (update_flags_logic um j) m' \<and> m_mem m' = m_mem m \<and> cc_live j (update_flags_logic um j) \<and>
    (\<forall>f. in_mask f um \<longrightarrow> ccf (update_flags_logic um j) m' f = logic_ccr n v f)"
proof -
  obtain cc j1 where g: "RA_ModifyCC j = (cc, j1)" by fastforce
  have f3: "free_temps (Suc 2) j" using assms(3) by simp
  let ?j2 = "snd (EMIT_GetNZ00 cc um j1)"
  have pc: "pc_rel ?j2 = pc_rel j1" by simp
  have t: "host_flag_logic m f = logic_ccr n v f" "\<not> m_v m" for f using assms(6) by (simp_all add: tested_def)
  have nz: "\<not> (m_n m \<and> m_z m)" using t(1) [of Nf] t(1) [of Zf] not_n_z [OF assms(7), of v] by simp
  have X: "\<not> in_mask f 15 \<longleftrightarrow> f = Xf" for f using outside_nzvc [of f 0] by (simp add: in_mask_def)
  have "\<exists>m2. effect {} 15 j m ?j2 m2 \<and> (\<forall>f. in_mask f um \<longrightarrow> ccf ?j2 m2 f = logic_ccr n v f) \<and> m_mem m2 = m_mem m \<and> cc_live j ?j2"
  proof (rule ModifyCC_effect [OF assms(1,2) f3 g])
    fix m1 assume m1: "cc \<in> live_temps j1" "free_temps 2 j1" "\<forall>s. s \<noteq> cc \<longrightarrow> rdX m1 s = rdX m s"
      "\<forall>f. host_flag m1 f = host_flag m f"
    have h: "host_flag m1 Vf = host_flag m Vf" "host_flag m1 Zf = host_flag m Zf" "host_flag m1 Nf = host_flag m Nf" using m1(4) by blast+
    then have hl: "host_flag_logic m1 f = logic_ccr n v f" for f using t(1) [of f] by (cases f) simp_all
    have v: "\<not> m_v m1" "\<not> (m_n m1 \<and> m_z m1)" using h t(2) nz by simp_all
    obtain m2 where u: "updates {cc} j1 m1 ?j2 m2" "copied host_flag_logic m1 um 0 (rdW m1 cc) (rdW m2 cc)"
      using EMIT_GetNZ00_copies(2) [OF m1(1,2) assms(4,5) v] by blast
    have o: "opers {cc} j1 m1 ?j2 m2" by (rule updates_opers [OF u(1) pc])
    have c: "\<forall>f. in_mask f um \<longrightarrow> ccr (rdW m2 cc) f = logic_ccr n v f" "ccr (rdW m2 cc) Xf = ccr (rdW m1 cc) Xf"
      "same_upper (rdW m2 cc) (rdW m1 cc)"
      using u(2) less16_no_X [OF assms(4)] hl by (simp_all add: copied_def copying_def in_mask_def)
    show "\<exists>m2. opers {cc} j1 m1 ?j2 m2 \<and> m_mem m2 = m_mem m1 \<and> live_temps ?j2 = live_temps j1 \<and>
        (\<forall>f. in_mask f um \<longrightarrow> ccr (rdW m2 cc) f = logic_ccr n v f) \<and>
        (\<forall>f. \<not> in_mask f 15 \<longrightarrow> ccr (rdW m2 cc) f = ccr (rdW m1 cc) f) \<and> same_upper (rdW m2 cc) (rdW m1 cc)"
      using o c u(1) unfolding X updates_def by blast
  qed
  moreover have "update_flags_logic um j = ?j2"
  proof -
    obtain m1 where l: "cc \<in> live_temps j1" "free_temps 2 j1"
      using RA_ModifyCC_free(5,6) [OF assms(1,2) f3 g] by blast
    have "fst (EMIT_GetNZ00 cc um j1) = 0" by (rule EMIT_GetNZ00_copies(1) [OF l assms(4,5) t(2) nz])
    then show ?thesis by (simp add: update_flags_logic_def g case_prod_beta)
  qed
  ultimately show ?thesis by auto
qed

lemma logic_test_effect:
  assumes "after_advance j1 m1 j2 m2" "is_reg r" "r \<notin> arm_temps - live_temps j1" "r \<noteq> REG_PC" "sz \<in> {1, 2, 4}" "um < 16" "um \<noteq> 3" "reg_is m1 r v"
    "um \<noteq> 0 \<and> sz = 4 \<and> \<not> long \<longrightarrow> tested 4 v m1" "j4 = (if um \<noteq> 0 then update_flags_logic um (test_result long sz r j2) else j2)"
  shows "\<exists>m3. effect {} 15 j2 m2 j4 m3 \<and> m_mem m3 = m_mem m2 \<and> cc_live j2 j4 \<and>
    (\<forall>f. in_mask f um \<longrightarrow> ccf j4 m3 f = logic_ccr (unat sz) v f)"
proof -
  note w2 = assms(1) [unfolded after_advance_def]
  let ?j3 = "test_result long sz r j2"
  let ?j4 = "if um \<noteq> 0 then update_flags_logic um ?j3 else j2"
  have "rdW m2 r = v"
  proof -
    have "rdX m2 r = rdX m1 r" using w2 assms(3,4) by blast
    then show ?thesis using assms(8) reg_is_rdW [of m2 r v] by (simp add: reg_is_def)
  qed
  moreover have "tested 4 v m2 = tested 4 v m1" by (rule tested_cong) (use w2 in simp_all)
  ultimately have tt: "um \<noteq> 0 \<Longrightarrow> sz = 4 \<and> \<not> long \<longrightarrow> tested 4 (rdW m2 r) m2" using assms(9) by simp
  have "\<exists>m3. effect {} 15 j2 m2 ?j4 m3 \<and> m_mem m3 = m_mem m2 \<and> cc_live j2 ?j4 \<and>
      (\<forall>f. in_mask f um \<longrightarrow> ccf ?j4 m3 f = logic_ccr (unat sz) v f)"
  proof (cases "um = 0")
    case True
    then show ?thesis using effect_refl [of j2 m2 "{}" 15] cc_live_refl [of j2] w2 by (intro exI [of _ m2]) (simp add: in_mask_def)
  next
    case False
    obtain m3 where 3: "opers {} j2 m2 ?j3 m3" "tested (unat sz) v m3" "m_mem m3 = m_mem m2"
      using test_result_opers [OF assms(2,5) tt [OF False], of j2] \<open>rdW m2 r = v\<close> by blast
    have w: "ra_wf j2" "coherent j2 m2" using w2 by blast+
    have lv: "live_temps ?j3 = live_temps j2" by (simp add: test_result_def)
    note b = balanced_effect [OF 3(1) lv Int_empty_left w]
    have "free_temps 3 j2" by (rule free_temps_mono [of 5]) (use w2 in simp_all)
    then have f3: "free_temps 3 ?j3" using lv by (simp add: free_temps_def)
    have z: "0 < unat sz" using assms(5) by auto
    obtain m4 where 4: "effect {} 15 ?j3 m3 (update_flags_logic um ?j3) m4" "m_mem m4 = m_mem m3"
      "cc_live ?j3 (update_flags_logic um ?j3)" "\<forall>f. in_mask f um \<longrightarrow> ccf (update_flags_logic um ?j3) m4 f = logic_ccr (unat sz) v f"
      using update_flags_logic_effect [OF _ _ f3 assms(6,7) 3(2) z] effect_wf [OF b(1)] by blast
    have e: "effect {} 15 j2 m2 (update_flags_logic um ?j3) m4" by (rule effect_trans [OF b(1) 4(1)])
    have "cc_live j2 (update_flags_logic um ?j3)" by (rule cc_live_trans [OF b(2) 4(3)])
    then show ?thesis using e 4(2,4) 3(3) False by (intro exI [of _ m4]) simp
  qed
  then show ?thesis unfolding assms(10) .
qed

lemma logic_tail_effect:
  assumes "after_advance j1 m1 j2 m2" "is_reg r" "r \<notin> arm_temps" "r \<noteq> REG_PC" "sz \<in> {1, 2, 4}" "um < 16" "um \<noteq> 3" "reg_is m1 r v"
    "um \<noteq> 0 \<and> sz = 4 \<and> \<not> long \<longrightarrow> tested 4 v m1"
  shows "\<exists>m3. effect {} 15 j2 m2 (logic_tail long sz um r j2) m3 \<and> m_mem m3 = m_mem m2 \<and> cc_live j2 (logic_tail long sz um r j2) \<and>
    (\<forall>f. in_mask f um \<longrightarrow> ccf (logic_tail long sz um r j2) m3 f = logic_ccr (unat sz) v f)"
proof -
  let ?j4 = "if um \<noteq> 0 then update_flags_logic um (test_result long sz r j2) else j2"
  have n: "r \<notin> arm_temps - live_temps j1" using assms(3) by blast
  obtain m3 where 3: "effect {} 15 j2 m2 ?j4 m3" "m_mem m3 = m_mem m2" "cc_live j2 ?j4"
    "\<forall>f. in_mask f um \<longrightarrow> ccf ?j4 m3 f = logic_ccr (unat sz) v f"
    using logic_test_effect [OF assms(1,2) n assms(4-9) refl] by blast
  have t: "logic_tail long sz um r j2 = RA_FreeARMRegister r ?j4" by (simp add: logic_tail_def)
  have "status_part (RA_FreeARMRegister r ?j4) = status_part ?j4" by (simp add: status_part_def)
  then have "cc_live j2 (RA_FreeARMRegister r ?j4)"
    using 3(3) cc_live_cong(2) [OF live_Free_other [OF assms(3)], of ?j4 j2] by simp
  moreover have "effect {} 15 j2 m2 (RA_FreeARMRegister r ?j4) m3" by (rule effect_Free [OF 3(1)]) (use assms(3) in simp)
  ultimately show ?thesis unfolding t using 3(2,4) by (intro exI [of _ m3]) (simp add: ccf_def)
qed

end
