(* ===== verification/Logic_Step.thy ===== *)
theory Logic_Step
  imports Logic_Ops
begin

text \<open>
  The simulation for \<open>AND <ea>,Dn\<close>, \<open>OR <ea>,Dn\<close> and \<open>EOR Dn,Dm\<close>.
\<close>

section \<open>The operation\<close>

definition computes :: "reg_op \<Rightarrow> (u32 \<Rightarrow> u32 \<Rightarrow> u32) \<Rightarrow> bool" where
  "computes opn g \<longleftrightarrow> (\<forall>rd rn rm j m. is_reg rd \<longrightarrow> is_reg rn \<longrightarrow> is_reg rm \<longrightarrow>
     (\<exists>m'. acts {rd} j m (EMIT [opn rd rn rm LSL 0] j) m' \<and> reg_is m' rd (g (rdW m rn) (rdW m rm)) \<and> m_mem m' = m_mem m))"

lemma computesD:
  "computes opn g \<Longrightarrow> is_reg rd \<Longrightarrow> is_reg rn \<Longrightarrow> is_reg rm \<Longrightarrow> reg_is m rn x \<Longrightarrow> reg_is m rm y \<Longrightarrow>
    \<exists>m'. acts {rd} j m (EMIT [opn rd rn rm LSL 0] j) m' \<and> reg_is m' rd (g x y) \<and> m_mem m' = m_mem m"
  unfolding computes_def using reg_is_rdW by metis

lemma decode_eor_reg:
  "k < 32 \<Longrightarrow> decode (fetch (eor_reg rd rn rm sh k)) =
     Some (LogReg Eor_op False (take_bit 5 rd) (take_bit 5 rn) (take_bit 5 rm) sh (unat k))"
  by (cases sh; simp add: eor_reg_def decode_log_reg_simps split del: if_split)

lemma computes_logic: "computes and_reg (AND)" "computes orr_reg (OR)" "computes eor_reg (XOR)"
proof -
  have z: "(0 :: u8) < 32" by simp
  show "computes and_reg (AND)"
    unfolding computes_def by (intro allI impI, rule step_acts [OF decode_and_reg [OF z]]) (simp_all add: is_regD Let_def)
  show "computes orr_reg (OR)"
    unfolding computes_def by (intro allI impI, rule step_acts [OF decode_orr_reg [OF z]]) (simp_all add: is_regD Let_def)
  show "computes eor_reg (XOR)"
    unfolding computes_def by (intro allI impI, rule step_acts [OF decode_eor_reg [OF z]]) (simp_all add: is_regD Let_def)
qed

lemma ands_opers:
  assumes "is_reg rd" "is_reg rn" "is_reg rm" "reg_is m rn x" "reg_is m rm y"
  shows "\<exists>m'. opers {rd} j m (EMIT [ands_reg rd rn rm LSL 0] j) m' \<and> reg_is m' rd (x AND y) \<and> m_mem m' = m_mem m \<and> tested 4 (x AND y) m'"
proof -
  have z: "(0 :: u8) < 32" by simp
  let ?i = "LogReg Ands_op False rd rn rm LSL 0"
  have d: "decode (fetch (ands_reg rd rn rm LSL 0)) = Some ?i" using decode_ands_reg [OF z] assms by (simp add: is_regD)
  have e: "exec ?i m = (wrW rd (x AND y) (set_nz (x AND y) m))\<lparr>m_pc := m_pc m + 4\<rparr>"
    by (simp add: exec_def Let_def reg_is_rdW [OF assms(4)] reg_is_rdW [OF assms(5)])
  have "opers {rd} j m (EMIT [ands_reg rd rn rm LSL 0] j) (exec ?i m)"
    by (rule opers_decoded [OF d]) (auto simp: e)
  moreover have "reg_is (exec ?i m) rd (x AND y)" using is_regD(2) [OF assms(1)] by (simp add: e)
  moreover have "tested 4 (x AND y) (exec ?i m)"
  proof -
    have "take_bit 32 (x AND y) = x AND y" by (rule bit_word_eqI) (simp add: bit_simps)
    then have "host_flag_logic (exec ?i m) f = logic_ccr 4 (x AND y) f" for f
      by (cases f) (simp_all add: e wrW_def wrX_def set_nz_def)
    moreover have "\<not> m_v (exec ?i m)" by (simp add: e wrW_def wrX_def set_nz_def)
    ultimately show ?thesis by (simp add: tested_def)
  qed
  ultimately show ?thesis using e by (intro exI [of _ "exec ?i m"]) (simp add: set_nz_def)
qed

lemma bfi_low: "sz \<in> {1, 2} \<Longrightarrow> bfi rd rn 0 (8 * sz) = bfxil rd rn 0 (8 * sz)"
  by (auto simp: bfi_def bfxil_def)

text \<open>The result of an operation on a temporary, inserted into the register.\<close>

lemma inserted_opers:
  assumes "computes opn g" "sz \<in> {1, 2}" "is_reg dest" "is_reg src" "is_reg tmp" "dest \<noteq> tmp" "reg_is m dest x" "reg_is m src y"
    "dest \<notin> arm_temps - live_temps j" "tmp \<notin> arm_temps - live_temps j"
  shows "\<exists>m'. opers {dest, tmp} j m (EMIT [opn tmp src dest LSL 0, bfi dest tmp 0 (8 * sz)] j) m' \<and>
    reg_is m' dest (low_part (unat sz) x (g y x)) \<and> m_mem m' = m_mem m"
proof -
  let ?j1 = "EMIT [opn tmp src dest LSL 0] j"
  obtain m1 where 1: "acts {tmp} j m ?j1 m1" "reg_is m1 tmp (g y x)" "m_mem m1 = m_mem m"
    using computesD [OF assms(1,5,4,3,8,7)] by blast
  have r1: "reg_is m1 dest x" using reg_is_keeps [OF 1(1), of dest] assms(6,7,9) by auto
  obtain m2 where 2: "acts {dest} ?j1 m1 (EMIT [bfi dest tmp 0 (8 * sz)] ?j1) m2"
    "reg_is m2 dest (low_part (unat sz) x (g y x))" "m_mem m2 = m_mem m1"
    using bfxil_acts(1) [OF assms(3,5,2), of ?j1 m1] unfolding reg_is_rdW [OF r1] reg_is_rdW [OF 1(2)] bfi_low [OF assms(2)] by blast
  have "opers {dest, tmp} j m ?j1 m1" by (rule opers_mono [OF acts_opers [OF 1(1)]]) auto
  moreover have "opers {dest, tmp} ?j1 m1 (EMIT [bfi dest tmp 0 (8 * sz)] ?j1) m2"
    by (rule opers_mono [OF acts_opers [OF 2(1)]]) auto
  ultimately have "opers {dest, tmp} j m (EMIT [bfi dest tmp 0 (8 * sz)] ?j1) m2" by (rule opers_trans)
  then show ?thesis using 1(3) 2(2,3)
    by (intro exI [of _ m2]) (simp add: EMIT_Cons [of "opn tmp src dest LSL 0" "[bfi dest tmp 0 (8 * sz)]"])
qed

section \<open>The register forms\<close>

text \<open>What the part of a logic instruction before its tail does, \<open>v\<close> being the result.\<close>

definition combined ::
  "u8 \<Rightarrow> u8 \<Rightarrow> u8 \<Rightarrow> u8 \<Rightarrow> u32 \<Rightarrow> (mstate \<Rightarrow> bool) \<Rightarrow> jit \<Rightarrow> mstate \<Rightarrow> (u8 \<Rightarrow> u32) \<Rightarrow> u32 \<Rightarrow> jit \<Rightarrow> mstate \<Rightarrow> bool" where
  "combined sz mode r dn v Q j m R pc j' m' \<longleftrightarrow>
     opers ({host dn} \<union> ea_updates mode r) j m j' m' \<and> m_mem m' = m_mem m \<and> live_temps j' = live_temps j \<and>
     cpu j' m' ((ea_after mode r (ea_step sz r) R)(dn := v)) pc \<and> Q m'"

lemma AND_to_register_combined:
  assumes "cpu j m R pc" "free_temps 6 j" "operand_size opcode = sz" "field_9 opcode = dn" "ea_mode opcode = mode" "reg_field opcode = r"
    "sz \<in> {1, 2, 4}" "operand_ok sz mode r (\<lambda>i. code16 s (at p i)) R (pc + 2)"
    "y = operand_value sz mode r (\<lambda>i. code16 s (at p i)) R (pc + 2) (m_mem m)" "v = low_part (unat sz) (R dn) (R dn AND y)"
  shows "\<exists>j' m'. AND_to_register um s opcode p j = (host dn, operand_words sz mode r, j') \<and>
    combined sz mode r dn v (\<lambda>m. um \<noteq> 0 \<and> sz = 4 \<longrightarrow> tested 4 v m) j m R pc j' m'"
proof -
  note fields = opcode_fields [of opcode, unfolded assms(3-6)]
  have f6: "free_temps (Suc 5) j" using assms(2) by simp
  obtain tmp ja where a: "alloc_result j tmp ja" and f5: "free_temps 5 ja" using free_temps_alloc [OF f6] by blast
  note ra = alloc_reg [OF a]
  have tmp: "tmp \<in> arm_temps" "tmp \<in> live_temps ja" "tmp \<notin> live_temps j" "pc_rel ja = pc_rel j" "is_reg tmp"
    "live_temps ja = insert tmp (live_temps j)"
    using a arm_temps_is_reg by (auto simp: alloc_result_def)
  have c: "cpu ja m R pc" by (rule cpu_kept [OF assms(1)]) (simp_all add: tmp(4))
  let ?f = "\<lambda>t j. if sz = 4 then emit_AND um (host dn) t j
      else EMIT [and_reg tmp t (host dn) LSL 0, bfi (host dn) tmp 0 (8 * sz)] j"
  have X: "{tmp} \<subseteq> arm_temps" using tmp(1) by simp
  have d: "is_reg (host dn)" "host dn \<notin> arm_temps" "host dn \<noteq> tmp" using host_reg(1,3) tmp(1) by auto
  have op: "\<exists>m2. opers ({host dn} \<union> {tmp} \<union> ({t} \<inter> arm_temps)) j1 m1 (?f t j1) m2 \<and> reg_is m2 (host dn) v \<and>
      m_mem m2 = m_mem m1 \<and> live_temps (?f t j1) = live_temps j1 \<and> (um \<noteq> 0 \<and> sz = 4 \<longrightarrow> tested 4 v m2)"
    if t: "is_reg t" "reg_is m1 t y" "reg_is m1 (host dn) (R dn)" "live_temps ja \<subseteq> live_temps j1" for t j1 m1
  proof (cases "sz = 4")
    case True
    then have v: "v = R dn AND y" using assms(10) by simp
    obtain m2 where 2: "acts {host dn} j1 m1 (EMIT [and_reg (host dn) (host dn) t LSL 0] j1) m2" "reg_is m2 (host dn) v" "m_mem m2 = m_mem m1"
      using computesD [OF computes_logic(1) d(1,1) t(1,3,2)] v by blast
    obtain m3 where 3: "opers {host dn} j1 m1 (EMIT [ands_reg (host dn) (host dn) t LSL 0] j1) m3" "reg_is m3 (host dn) v"
      "m_mem m3 = m_mem m1" "tested 4 v m3"
      using ands_opers [OF d(1,1) t(1,3,2)] v by blast
    show ?thesis
    proof (cases "um = 0")
      case True
      then show ?thesis using 2 \<open>sz = 4\<close> opers_mono [OF acts_opers [OF 2(1)], of "{host dn} \<union> {tmp} \<union> ({t} \<inter> arm_temps)"]
        by (intro exI [of _ m2]) (simp add: emit_AND_def)
    next
      case False
      then show ?thesis using 3 \<open>sz = 4\<close> opers_mono [OF 3(1), of "{host dn} \<union> {tmp} \<union> ({t} \<inter> arm_temps)"]
        by (intro exI [of _ m3]) (simp add: emit_AND_def EMIT_rf_RESET)
    qed
  next
    case False
    then have s: "sz \<in> {1, 2}" using assms(7) by blast
    have n: "host dn \<notin> arm_temps - live_temps j1" "tmp \<notin> arm_temps - live_temps j1" using d(2) tmp(2) t(4) by auto
    obtain m2 where 2: "opers {host dn, tmp} j1 m1 (EMIT [and_reg tmp t (host dn) LSL 0, bfi (host dn) tmp 0 (8 * sz)] j1) m2"
      "reg_is m2 (host dn) (low_part (unat sz) (R dn) (y AND R dn))" "m_mem m2 = m_mem m1"
      using inserted_opers [OF computes_logic(1) s d(1) t(1) tmp(5) d(3) t(3,2) n] by blast
    then show ?thesis using opers_mono [OF 2(1), of "{host dn} \<union> {tmp} \<union> ({t} \<inter> arm_temps)"] False assms(10)
      by (intro exI [of _ m2]) (simp add: and.commute)
  qed
  obtain t j1 m2 where l: "EMIT_LoadFromEffectiveAddress sz 0xff (push_bit 3 mode OR r) 0 True False s p ja = (t, 0, operand_words sz mode r, j1)"
    "opers ({host dn} \<union> {tmp} \<union> ea_updates mode r) ja m (RA_FreeARMRegister t (?f t j1)) m2" "m_mem m2 = m_mem m"
    "live_temps (RA_FreeARMRegister t (?f t j1)) = live_temps ja"
    "cpu (RA_FreeARMRegister t (?f t j1)) m2 ((ea_after mode r (ea_step sz r) R)(dn := v)) pc" "um \<noteq> 0 \<and> sz = 4 \<longrightarrow> tested 4 v m2"
    using load_operate [OF c f5 assms(7,8,9) fields(4,3) X, where ro = True and f = ?f and v = v and P = "\<lambda>m. um \<noteq> 0 \<and> sz = 4 \<longrightarrow> tested 4 v m"] op
    by blast
  let ?j' = "RA_FreeARMRegister tmp (RA_FreeARMRegister t (?f t j1))"
  have o: "opers ({host dn} \<union> ea_updates mode r) j m ?j' m2"
    by (rule opers_temp [OF a]) (use l(2) in \<open>simp add: insert_commute\<close>)
  have lv: "live_temps ?j' = live_temps j" using live_Free_insert [OF tmp(1,3), of "RA_FreeARMRegister t (?f t j1)"] l(4) tmp(6) by simp
  have "AND_to_register um s opcode p j = (host dn, operand_words sz mode r, ?j')"
    using assms(7) l(1) ra(5) by (auto simp: AND_to_register_def assms(3,4) fields(1) RA_SetDirtyM68kRegister_def Let_def)
  then show ?thesis using o lv l(3,6) cpu_Free [OF l(5)] unfolding combined_def by blast
qed

text \<open>A byte or word operand that is not a register is zero-extended.\<close>

lemma operand_small:
  assumes "sz \<in> {1, 2}" "\<not> mode < 2"
  shows "take_bit (8 * unat sz) (operand_value sz mode r ext R pc mem) = operand_value sz mode r ext R pc mem"
proof -
  have b: "take_bit 8 (ucast (c :: u8) :: u32) = ucast c" "take_bit 16 (push_bit 8 (ucast (d :: u8)) OR ucast c :: u32) = push_bit 8 (ucast d) OR ucast c"
    "take_bit 16 (ucast (w :: u16) :: u32) = ucast w" for c d w
    by (rule bit_word_eqI; auto simp: bit_simps dest: bit_imp_le_length)+
  have m: "(0xff :: u16) = mask 8" by (simp add: mask_eq_exp_minus_1)
  have b2: "take_bit 8 (ucast (w AND 0xff :: u16) :: u32) = ucast (w AND 0xff)" for w
    unfolding m by (rule bit_word_eqI) (auto simp: bit_simps)
  have u: "[0..<Suc 0] = [0]" "[0..<2] = [0, Suc 0]" by (simp_all add: numeral_2_eq_2)
  have r: "take_bit 8 (rd_be mem a 1) = rd_be mem a 1" "take_bit 16 (rd_be mem a 2) = rd_be mem a 2" for a
    by (simp_all add: rd_be_def u b del: take_bit_or)
  have o: "mode \<noteq> 0" "mode \<noteq> 1" using assms(2) by auto
  have "take_bit (8 * unat sz) (direct_operand sz mode r ext R) = direct_operand sz mode r ext R"
    using assms(1) o b(3) b2 by (auto simp: direct_operand_def)
  moreover have "take_bit (8 * unat sz) (rd_be mem a (unat sz)) = rd_be mem a (unat sz)" for a
    using assms(1) r by auto
  ultimately show ?thesis by (simp add: operand_value_def)
qed

lemma low_part_or: "take_bit (8 * n) y = y \<Longrightarrow> low_part n x (x OR y) = x OR y"
proof -
  assume y: "take_bit (8 * n) y = y"
  have "low_part n x (x OR take_bit (8 * n) y) = x OR take_bit (8 * n) y"
    by (rule bit_word_eqI) (auto simp: low_part_def bit_simps)
  then show ?thesis by (simp add: y)
qed

lemma low_part_take: "low_part n x (x OR take_bit (8 * n) y) = low_part n x (x OR y)"
  by (rule bit_word_eqI) (auto simp: low_part_def bit_simps)

lemma uxt_acts:
  assumes "is_reg rd" "is_reg rn"
  shows "\<exists>m'. acts {rd} j m (EMIT [uxth rd rn] j) m' \<and> reg_is m' rd (take_bit 16 (rdW m rn)) \<and> m_mem m' = m_mem m"
    "\<exists>m'. acts {rd} j m (EMIT [uxtb rd rn] j) m' \<and> reg_is m' rd (take_bit 8 (rdW m rn)) \<and> m_mem m' = m_mem m"
proof -
  have d: "decode (fetch (uxth rd rn)) = Some (Bitfield Ubfm_op rd rn 0 15)" "decode (fetch (uxtb rd rn)) = Some (Bitfield Ubfm_op rd rn 0 7)"
    using assms by (simp_all add: uxth_def uxtb_def decode_ubfm is_regD)
  show "\<exists>m'. acts {rd} j m (EMIT [uxth rd rn] j) m' \<and> reg_is m' rd (take_bit 16 (rdW m rn)) \<and> m_mem m' = m_mem m"
    by (rule step_acts [OF d(1)]) (use assms in auto)
  show "\<exists>m'. acts {rd} j m (EMIT [uxtb rd rn] j) m' \<and> reg_is m' rd (take_bit 8 (rdW m rn)) \<and> m_mem m' = m_mem m"
    by (rule step_acts [OF d(2)]) (use assms in auto)
qed

lemma mode_bits: "opcode AND 0x38 = 0 \<longleftrightarrow> ea_mode opcode = 0" for opcode :: u16
proof -
  have c: "(0x38 :: u16) = push_bit 3 (mask 3)" by (simp add: mask_eq_exp_minus_1)
  have "opcode AND 0x38 = push_bit 3 (ucast (ea_mode opcode))"
    unfolding ea_mode_def c by (rule bit_word_eqI) (auto simp: bit_simps dest: bit_imp_le_length)
  moreover have "ucast (drop_bit 3 (opcode AND 0x38)) = ea_mode opcode" by (simp add: ea_mode_def)
  ultimately show ?thesis by auto
qed

text \<open>A byte or word from a register is zero-extended to a temporary first.\<close>

definition or_narrow :: "(u8 \<Rightarrow> u8 \<Rightarrow> u32) \<Rightarrow> u8 \<Rightarrow> u8 \<Rightarrow> jit \<Rightarrow> jit" where
  "or_narrow uxt dest t j1 = (case RA_AllocARMRegister j1 of (tmp, j) \<Rightarrow>
     RA_FreeARMRegister tmp (EMIT [orr_reg dest tmp dest LSL 0] (EMIT [uxt tmp t] j)))"

lemma or_narrow_opers:
  assumes "\<And>rd rn j m. is_reg rd \<Longrightarrow> is_reg rn \<Longrightarrow>
      \<exists>m'. acts {rd} j m (EMIT [uxt rd rn] j) m' \<and> reg_is m' rd (take_bit k (rdW m rn)) \<and> m_mem m' = m_mem m"
    "is_reg dest" "dest \<notin> arm_temps" "is_reg t" "free_temps 1 j" "reg_is m dest x" "reg_is m t y"
  shows "\<exists>m'. opers {dest} j m (or_narrow uxt dest t j) m' \<and> reg_is m' dest (x OR take_bit k y) \<and> m_mem m' = m_mem m \<and>
    live_temps (or_narrow uxt dest t j) = live_temps j"
proof -
  obtain tmp ja where a: "alloc_result j tmp ja" using free_temps_1 [OF assms(5)] by blast
  note ra = alloc_reg [OF a]
  have tmp: "tmp \<in> arm_temps" "tmp \<in> live_temps ja" "tmp \<notin> live_temps j" "is_reg tmp" "live_temps ja = insert tmp (live_temps j)"
    using a arm_temps_is_reg by (auto simp: alloc_result_def)
  let ?j1 = "EMIT [uxt tmp t] ja" and ?j2 = "EMIT [orr_reg dest tmp dest LSL 0] (EMIT [uxt tmp t] ja)"
  obtain m1 where 1: "acts {tmp} ja m ?j1 m1" "reg_is m1 tmp (take_bit k y)" "m_mem m1 = m_mem m"
    using assms(1) [OF tmp(4) assms(4), of ja m] unfolding reg_is_rdW [OF assms(7)] by blast
  have d: "reg_is m1 dest x" using reg_is_keeps [OF 1(1), of dest] assms(3,6) tmp(1) by auto
  obtain m2 where 2: "acts {dest} ?j1 m1 ?j2 m2" "reg_is m2 dest (take_bit k y OR x)" "m_mem m2 = m_mem m1"
    using computesD [OF computes_logic(2) assms(2) tmp(4) assms(2) 1(2) d] by blast
  have "opers {tmp, dest} ja m ?j1 m1" by (rule opers_mono [OF acts_opers [OF 1(1)]]) auto
  moreover have "opers {tmp, dest} ?j1 m1 ?j2 m2" by (rule opers_mono [OF acts_opers [OF 2(1)]]) auto
  ultimately have "opers {tmp, dest} ja m ?j2 m2" by (rule opers_trans)
  then have "opers {dest} j m (RA_FreeARMRegister tmp ?j2) m2" using opers_temp [OF a] by blast
  moreover have "live_temps (RA_FreeARMRegister tmp ?j2) = live_temps j"
    using live_Free_insert [OF tmp(1,3), of ?j2] tmp(5) by simp
  ultimately show ?thesis using 2(2,3) 1(3) ra(5) by (intro exI [of _ m2]) (simp add: or_narrow_def or.commute)
qed

lemma two_modes: "mode \<noteq> 1 \<Longrightarrow> mode \<noteq> 0 \<Longrightarrow> \<not> mode < (2 :: u8)"
  by (simp add: word_less_nat_alt word_unat_eq_iff)

lemma OR_to_register_combined:
  assumes "cpu j m R pc" "free_temps 6 j" "operand_size opcode = sz" "field_9 opcode = dn" "ea_mode opcode = mode" "reg_field opcode = r"
    "sz \<in> {1, 2, 4}" "operand_ok sz mode r (\<lambda>i. code16 s (at p i)) R (pc + 2)"
    "y = operand_value sz mode r (\<lambda>i. code16 s (at p i)) R (pc + 2) (m_mem m)" "v = low_part (unat sz) (R dn) (R dn OR y)" "mode \<noteq> 1"
  shows "\<exists>j' m'. OR_to_register s opcode p j = (host dn, operand_words sz mode r, j') \<and>
    combined sz mode r dn v (\<lambda>_. True) j m R pc j' m'"
proof -
  note fields = opcode_fields [of opcode, unfolded assms(3-6)]
  have f5: "free_temps 5 j" by (rule free_temps_mono [OF assms(2)]) simp
  let ?n = "mode = 0 \<and> sz \<noteq> 4"
  let ?f = "\<lambda>t j. if ?n then or_narrow (if sz = 2 then uxth else uxtb) (host dn) t j
      else if sz = 4 then EMIT [orr_reg (host dn) (host dn) t LSL 0] j else EMIT [orr_reg (host dn) t (host dn) LSL 0] j"
  have X: "{} \<subseteq> arm_temps" by simp
  have d: "is_reg (host dn)" "host dn \<notin> arm_temps" using host_reg(1,3) by auto
  have op: "\<exists>m2. opers ({host dn} \<union> {} \<union> ({t} \<inter> arm_temps)) j1 m1 (?f t j1) m2 \<and> reg_is m2 (host dn) v \<and>
      m_mem m2 = m_mem m1 \<and> live_temps (?f t j1) = live_temps j1 \<and> True"
    if t: "is_reg t" "reg_is m1 t y" "reg_is m1 (host dn) (R dn)" "free_temps 4 j1" for t j1 m1
  proof -
    have mono: "opers {host dn} j1 m1 (?f t j1) m2 \<Longrightarrow> opers ({host dn} \<union> {} \<union> ({t} \<inter> arm_temps)) j1 m1 (?f t j1) m2" for m2
      by (rule opers_mono) auto
    show ?thesis
    proof (cases ?n)
      case True
      then have s: "sz = 1 \<or> sz = 2" using assms(7) by blast
      have f1: "free_temps 1 j1" by (rule free_temps_mono [OF t(4)]) simp
      have "\<exists>m2. opers {host dn} j1 m1 (?f t j1) m2 \<and> reg_is m2 (host dn) (R dn OR take_bit (8 * unat sz) y) \<and> m_mem m2 = m_mem m1 \<and>
          live_temps (?f t j1) = live_temps j1"
        using s True or_narrow_opers [OF uxt_acts(1) d t(1) f1 t(3,2)] or_narrow_opers [OF uxt_acts(2) d t(1) f1 t(3,2)] by auto
      moreover have "R dn OR take_bit (8 * unat sz) y = v"
        using low_part_take [of "unat sz" "R dn" y] low_part_or [of "unat sz" "take_bit (8 * unat sz) y" "R dn"] assms(10) by simp
      ultimately show ?thesis using mono by metis
    next
      case False
      have v: "v = R dn OR y"
      proof (cases "sz = 4")
        case True
        then show ?thesis using assms(10) by simp
      next
        case n4: False
        then have s: "sz \<in> {1, 2}" using assms(7) by blast
        have "mode \<noteq> 0" using False n4 by blast
        with assms(11) have "\<not> mode < 2"
          by (rule two_modes)
        then show ?thesis using operand_small [OF s, of mode r] assms(9,10) low_part_or by metis
      qed
      obtain m2 where 2: "acts {host dn} j1 m1 (EMIT [orr_reg (host dn) (host dn) t LSL 0] j1) m2" "reg_is m2 (host dn) v" "m_mem m2 = m_mem m1"
        using computesD [OF computes_logic(2) d(1,1) t(1,3,2)] v by blast
      obtain m3 where 3: "acts {host dn} j1 m1 (EMIT [orr_reg (host dn) t (host dn) LSL 0] j1) m3" "reg_is m3 (host dn) (y OR R dn)" "m_mem m3 = m_mem m1"
        using computesD [OF computes_logic(2) d(1) t(1) d(1) t(2,3)] by blast
      show ?thesis
      proof (cases "sz = 4")
        case True
        then show ?thesis using 2 mono [of m2] acts_opers [OF 2(1)] by (intro exI [of _ m2]) simp
      next
        case n4: False
        then have "mode \<noteq> 0" using False by blast
        then show ?thesis using 3 mono [of m3] acts_opers [OF 3(1)] v n4 by (intro exI [of _ m3]) (simp add: or.commute)
      qed
    qed
  qed
  obtain t j1 m2 where l: "EMIT_LoadFromEffectiveAddress sz 0xff (push_bit 3 mode OR r) 0 True False s p j = (t, 0, operand_words sz mode r, j1)"
    "opers ({host dn} \<union> {} \<union> ea_updates mode r) j m (RA_FreeARMRegister t (?f t j1)) m2" "m_mem m2 = m_mem m"
    "live_temps (RA_FreeARMRegister t (?f t j1)) = live_temps j"
    "cpu (RA_FreeARMRegister t (?f t j1)) m2 ((ea_after mode r (ea_step sz r) R)(dn := v)) pc" "mode < 2 \<and> True \<longrightarrow> t = host (8 * mode + r)"
    using load_operate [OF assms(1) f5 assms(7,8,9) fields(4,3) X, where ro = True and f = ?f and v = v and P = "\<lambda>_. True"] op
    by blast
  have m: "opcode AND 0x38 = 0 \<longleftrightarrow> mode = 0" using mode_bits [of opcode] assms(5) by simp
  have "RA_FreeARMRegister t j' = j'" if "mode = 0" for j' using l(6) that by simp
  then have "OR_to_register s opcode p j = (host dn, operand_words sz mode r, RA_FreeARMRegister t (?f t j1))"
    using assms(7) l(1) by (auto simp: OR_to_register_def assms(3,4) fields(1) RA_SetDirtyM68kRegister_def m or_narrow_def case_prod_beta Let_def)
  then show ?thesis using l(2-5) unfolding combined_def by auto
qed

lemma EOR_to_register_combined:
  assumes "cpu j m R pc" "free_temps 6 j" "operand_size opcode = sz" "field_9 opcode = dn" "reg_field opcode = r"
    "sz \<in> {1, 2, 4}" "v = low_part (unat sz) (R r) (R r XOR R dn)"
  shows "\<exists>j' m'. EOR_to_register opcode j = (host r, 0, j') \<and> combined sz 0 r r v (\<lambda>_. True) j m R pc j' m'"
proof -
  note fields = opcode_fields [of opcode, unfolded assms(3-5)]
  have r: "dn < 16" "r < 16" using fields(3,4) by (auto intro: less_trans)
  have d: "is_reg (host r)" "is_reg (host dn)" "host r \<notin> arm_temps" "reg_is m (host r) (R r)" "reg_is m (host dn) (R dn)"
    using host_reg(1,3) r m68k_regsD(1) [of m R] assms(1) by (auto simp: cpu_def)
  have "\<exists>j' m'. EOR_to_register opcode j = (host r, 0, j') \<and> opers {host r} j m j' m' \<and> reg_is m' (host r) v \<and> m_mem m' = m_mem m \<and>
      live_temps j' = live_temps j"
  proof (cases "sz = 4")
    case True
    obtain m2 where 2: "acts {host r} j m (EMIT [eor_reg (host r) (host r) (host dn) LSL 0] j) m2" "reg_is m2 (host r) (R r XOR R dn)" "m_mem m2 = m_mem m"
      using computesD [OF computes_logic(3) d(1,1,2,4,5)] by blast
    have "EOR_to_register opcode j = (host r, 0, EMIT [eor_reg (host r) (host r) (host dn) LSL 0] j)"
      by (simp add: EOR_to_register_def assms(3-5) True Let_def RA_SetDirtyM68kRegister_def)
    then show ?thesis using 2 acts_opers [OF 2(1)] assms(7) True by (intro exI [of _ "EMIT [eor_reg (host r) (host r) (host dn) LSL 0] j"] exI [of _ m2]) simp
  next
    case False
    then have s: "sz \<in> {1, 2}" using assms(6) by blast
    have f1: "free_temps 1 j" by (rule free_temps_mono [OF assms(2)]) simp
    obtain tmp ja where a: "alloc_result j tmp ja" using free_temps_1 [OF f1] by blast
    note ra = alloc_reg [OF a]
    have tmp: "tmp \<in> arm_temps" "tmp \<in> live_temps ja" "tmp \<notin> live_temps j" "is_reg tmp" "live_temps ja = insert tmp (live_temps j)"
      using a arm_temps_is_reg by (auto simp: alloc_result_def)
    have n: "host r \<noteq> tmp" "host r \<notin> arm_temps - live_temps ja" "tmp \<notin> arm_temps - live_temps ja" using tmp(1,2) d(3) by auto
    let ?j2 = "EMIT [eor_reg tmp (host dn) (host r) LSL 0, bfi (host r) tmp 0 (8 * sz)] ja"
    obtain m2 where 2: "opers {host r, tmp} ja m ?j2 m2" "reg_is m2 (host r) (low_part (unat sz) (R r) (R dn XOR R r))" "m_mem m2 = m_mem m"
      using inserted_opers [OF computes_logic(3) s d(1,2) tmp(4) n(1) d(4,5) n(2,3)] by blast
    have "opers {host r} j m (RA_FreeARMRegister tmp ?j2) m2" by (rule opers_temp [OF a]) (use 2(1) in \<open>simp add: insert_commute\<close>)
    moreover have "live_temps (RA_FreeARMRegister tmp ?j2) = live_temps j" using live_Free_insert [OF tmp(1,3), of ?j2] tmp(5) by simp
    moreover have "EOR_to_register opcode j = (host r, 0, RA_FreeARMRegister tmp ?j2)"
      using s ra(5) by (auto simp: EOR_to_register_def assms(3-5) Let_def RA_SetDirtyM68kRegister_def)
    ultimately show ?thesis using 2(2,3) assms(7)
      by (intro exI [of _ "RA_FreeARMRegister tmp ?j2"] exI [of _ m2]) (simp add: xor.commute)
  qed
  then obtain j' m' where o: "EOR_to_register opcode j = (host r, 0, j')" "opers {host r} j m j' m'" "reg_is m' (host r) v" "m_mem m' = m_mem m"
      "live_temps j' = live_temps j" by blast
  have "cpu j' m' (R(r := v)) pc" by (rule cpu_write [OF assms(1) _ _ r(2) o(3), of "{}"]) (use o(2) in simp_all)
  then show ?thesis using o by (intro exI [of _ j'] exI [of _ m']) (simp add: combined_def ea_updates_def ea_after_def)
qed

section \<open>The step of the processor\<close>

text \<open>The result goes to the low part of a data register; the flag X is left alone.\<close>

definition logic_result :: "u16 \<Rightarrow> u8 \<Rightarrow> u32 \<Rightarrow> m68k \<Rightarrow> m68k" where
  "logic_result opcode dn w \<sigma> =
    (let sz = operand_size opcode; mode = ea_mode opcode; r = reg_field opcode
     in \<sigma>\<lparr>gpr := (ea_after mode r (ea_step sz r) (gpr \<sigma>))(dn := low_part (unat sz) (gpr \<sigma> dn) w),
          sr_flag := (logic_ccr (unat sz) w)(Xf := sr_flag \<sigma> Xf), pcount := pcount \<sigma> + of_nat (2 * insn_words opcode)\<rparr>)"

definition logic_step :: "(u32 \<Rightarrow> u32 \<Rightarrow> u32) \<Rightarrow> cache_sys \<Rightarrow> m68k \<Rightarrow> m68k" where
  "logic_step g s \<sigma> =
    (let p = ucast (pcount \<sigma>); opcode = code16 s p; sz = operand_size opcode; mode = ea_mode opcode; r = reg_field opcode;
         dn = field_9 opcode
     in logic_result opcode dn (g (gpr \<sigma> dn)
          (operand_value sz mode r (\<lambda>i. code16 s (at (p + 2) i)) (gpr \<sigma>) (pcount \<sigma> + 2) (ram \<sigma>))) \<sigma>)"

definition AND_step :: "cache_sys \<Rightarrow> m68k \<Rightarrow> m68k" where
  "AND_step = logic_step (AND)"

definition OR_step :: "cache_sys \<Rightarrow> m68k \<Rightarrow> m68k" where
  "OR_step = logic_step (OR)"

definition EOR_step :: "cache_sys \<Rightarrow> m68k \<Rightarrow> m68k" where
  "EOR_step s \<sigma> =
    (let opcode = code16 s (ucast (pcount \<sigma>)); r = reg_field opcode
     in logic_result opcode r (gpr \<sigma> r XOR gpr \<sigma> (field_9 opcode)) \<sigma>)"

lemma logic_ccr_low: "0 < n \<Longrightarrow> n \<le> 4 \<Longrightarrow> logic_ccr n (low_part n x w) f = logic_ccr n w f"
proof (cases f)
  case Nf
  assume "0 < n" "n \<le> 4"
  with Nf show ?thesis by (simp add: low_part_def bit_simps)
qed simp_all

lemma logic_simulates:
  assumes "ordinary_code s" "emulates s j m \<sigma>" "p = ucast (pcount \<sigma>)" "opcode = code16 s p" "um = M68K_GetSRMask c s p" "um \<noteq> 3"
    "operand_size opcode \<in> {1, 2, 4}" "uint (pcount \<sigma>) + 6 < 2 ^ 32"
    "SR_sets opcode = 15" "M68K_GetINSNLength s p = insn_words opcode" "\<not> M68K_IsBranch s p"
    "body um j = (host dn, operand_words (operand_size opcode) (ea_mode opcode) (reg_field opcode), j1)"
    "combined (operand_size opcode) (ea_mode opcode) (reg_field opcode) dn (low_part (unat (operand_size opcode)) (gpr \<sigma> dn) w)
      (\<lambda>m. um \<noteq> 0 \<and> operand_size opcode = 4 \<and> \<not> long \<longrightarrow> tested 4 w m) j m (gpr \<sigma>) (pcount \<sigma>) j1 m1" "dn < 16"
  shows "\<exists>j' m'. logic_handler long body c s opcode (p + 2) j = (ucast (pcount (logic_result opcode dn w \<sigma>)), j') \<and>
    produces j m j' m' \<and> emulates s j' m' (logic_result opcode dn w \<sigma>)"
proof -
  let ?sz = "operand_size opcode" and ?mode = "ea_mode opcode" and ?r = "reg_field opcode" and ?n = "logic_result opcode dn w \<sigma>"
  let ?w = "operand_words ?sz ?mode ?r" and ?v = "low_part (unat ?sz) (gpr \<sigma> dn) w" and ?S = "{host dn} \<union> ea_updates ?mode ?r"
  let ?R = "(ea_after ?mode ?r (ea_step ?sz ?r) (gpr \<sigma>))(dn := ?v)"
  note em = assms(2) [unfolded emulates_def] and cb = assms(13) [unfolded combined_def]
  have w: "ra_wf j" "coherent j m" "enough_temps j" using em by blast+
  have k: "0 < unat ?sz" "unat ?sz \<le> 4" using assms(7) by auto
  have um: "um < 16" using GetSRMask_less_16 assms(4,5,9) by simp
  note b = balanced_effect [OF _ _ ea_updates_live w(1,2)]
  have e1: "effect ?S 15 j m j1 m1" "cc_live j j1" using b cb by blast+
  have rv: "reg_is m1 (host dn) ?v" using cb m68k_regsD(1) [of m1 ?R dn] assms(14) by (simp add: cpu_def)
  have tail: "\<exists>m3. effect {} 15 j2 m2 (logic_tail long ?sz um (host dn) j2) m3 \<and> m_mem m3 = m_mem m2 \<and>
      cc_live j2 (logic_tail long ?sz um (host dn) j2) \<and>
      (\<forall>f. in_mask f um \<longrightarrow> ccf (logic_tail long ?sz um (host dn) j2) m3 f = logic_ccr (unat ?sz) ?v f)"
    if "after_advance j1 m1 j2 m2" for j2 m2
    by (rule logic_tail_effect [OF that host_reg(1,3,4) assms(7) um assms(6) rv]) (use cb in auto)
  let ?j' = "logic_tail long ?sz um (host dn) (EMIT_AdvancePC (of_nat (2 * (?w + 1))) j1)"
  have c1: "cpu j1 m1 ?R (pcount \<sigma>)" using cb by blast
  obtain m' where f: "effect (insert REG_PC ?S) 15 j m ?j' m'" "m_mem m' = m_mem m1" "enough_temps ?j'"
    "cpu ?j' m' ?R (pcount \<sigma> + of_nat (2 * (?w + 1)))" "\<forall>f. in_mask f um \<longrightarrow> ccf ?j' m' f = logic_ccr (unat ?sz) ?v f"
    using finish_insn [OF c1 e1 w(3,1) operand_words_le tail] by blast
  have st: "gpr ?n = ?R" "pcount ?n = pcount \<sigma> + of_nat (2 * (?w + 1))" "ram ?n = ram \<sigma>"
    "sr_flag ?n = (logic_ccr (unat ?sz) w)(Xf := sr_flag \<sigma> Xf)"
    by (simp_all add: logic_result_def Let_def insn_words_def)
  note cp = code_pointer [OF _ operand_words_le, of "pcount \<sigma>" ?sz ?mode ?r]
  have p': "at (p + 2) ?w = ucast (pcount ?n)" "at p (insn_words opcode) = ucast (pcount ?n)"
    using cp assms(8) unfolding st insn_words_def assms(3) by blast+
  have "produces j m ?j' m' \<and> emulates s ?j' m' ?n"
    by (rule emulates_step [OF assms(1-4,11) _ f(1) _ f(3), where c = c])
      (use f(2,4,5) cb em less16_no_X [OF um] k in \<open>auto simp: assms(9,10) assms(5) [symmetric] p'(2) st in_nzvc logic_ccr_low\<close>)
  moreover have "logic_handler long body c s opcode (p + 2) j = (at (p + 2) ?w, ?j')"
    by (simp add: logic_handler_def assms(5) [symmetric] assms(12) Let_def)
  ultimately show ?thesis using p'(1) by auto
qed

text \<open>The groups C, 8 and B.\<close>

definition exclusive_or :: "cache_sys \<Rightarrow> m68k \<Rightarrow> bool" where
  "exclusive_or s \<sigma> \<longleftrightarrow>
    (let opcode = code16 s (ucast (pcount \<sigma>))
     in drop_bit 12 opcode = 11 \<and> drop_bit 8 opcode AND 1 = 1 \<and> drop_bit 6 opcode AND 3 \<noteq> 3 \<and> ea_mode opcode = 0 \<and>
        uint (pcount \<sigma>) + 6 < 2 ^ 32)"

lemma plain_logic: "plain_rows sr_NZVC {H_AND_reg, H_AND_mem, H_AND_ext} InsnTable_C 0 (\<lambda>_ mode _. mode \<noteq> 1)" "plain_rows sr_NZVC {H_OR_reg, H_OR_mem, H_OR_ext} InsnTable_8 0 (\<lambda>_ mode _. mode \<noteq> 1)"
  "plain_rows sr_NZVC {H_EOR_reg} InsnTable_B 1 (\<lambda>_ mode _. mode = 0)"
proof -
  show "plain_rows sr_NZVC {H_AND_reg, H_AND_mem, H_AND_ext} InsnTable_C 0 (\<lambda>_ mode _. mode \<noteq> 1)"
    by (rule plain_rowsI, elim disjE) (simp_all add: InsnTable_entry_def InsnTable_C_def plain_row_def)
  show "plain_rows sr_NZVC {H_OR_reg, H_OR_mem, H_OR_ext} InsnTable_8 0 (\<lambda>_ mode _. mode \<noteq> 1)"
    by (rule plain_rowsI, elim disjE) (simp_all add: InsnTable_entry_def InsnTable_8_def plain_row_def)
  show "plain_rows sr_NZVC {H_EOR_reg} InsnTable_B 1 (\<lambda>_ mode _. mode = 0)"
    by (rule plain_rowsI, elim disjE) (simp_all add: InsnTable_entry_def InsnTable_B_def plain_row_def)
qed

lemma logic_facts:
  assumes "into_register g s \<sigma>" "p = ucast (pcount \<sigma>)" "opcode = code16 s p" "g = 12 \<or> g = 8" "ea_mode opcode \<noteq> 1"
  shows "SR_sets opcode = 15" "M68K_GetINSNLength s p = insn_words opcode" "\<not> M68K_IsBranch s p"
    "g = 12 \<Longrightarrow> \<exists>row. InsnTable_entry InsnTable_C (unat (opcode AND 0x1ff)) = Some row \<and> od_Emit row \<in> {H_AND_reg, H_AND_mem, H_AND_ext}"
    "g = 8 \<Longrightarrow> \<exists>row. InsnTable_entry InsnTable_8 (unat (opcode AND 0x1ff)) = Some row \<and> od_Emit row \<in> {H_OR_reg, H_OR_mem, H_OR_ext}"
proof -
  note fm = assms(1) [unfolded into_register_def Let_def, folded assms(2,3)]
  have d: "unat (drop_bit 8 opcode AND 1) = 0" "drop_bit 6 opcode AND 3 \<noteq> 3" "drop_bit 12 opcode = g" using fm by simp_all
  show "\<not> M68K_IsBranch s p" using branch_groups [of s p] d(3) assms(3,4) by auto
  have ok: "operand_ok (operand_size opcode) (ea_mode opcode) (reg_field opcode) (\<lambda>i. code16 s (at (p + 2) i)) (gpr \<sigma>) (pcount \<sigma> + 2)"
    using fm by simp
  have m: "unat (ea_mode opcode) \<noteq> 1" using assms(5) by (simp add: word_unat_eq_iff)
  note C = plain_facts [OF d(1,2) assms(3) ok plain_logic(1) m] and O = plain_facts [OF d(1,2) assms(3) ok plain_logic(2) m]
  show "\<exists>row. InsnTable_entry InsnTable_C (unat (opcode AND 0x1ff)) = Some row \<and> od_Emit row \<in> {H_AND_reg, H_AND_mem, H_AND_ext}" by (rule C(3))
  show "\<exists>row. InsnTable_entry InsnTable_8 (unat (opcode AND 0x1ff)) = Some row \<and> od_Emit row \<in> {H_OR_reg, H_OR_mem, H_OR_ext}" by (rule O(3))
  show "SR_sets opcode = 15"
    using assms(4) d(3) C(1) O(1) by (auto simp: SR_sets_def SR_flags_def SRCheck_def GetSR_LineC_def GetSR_Line8_def)
  show "M68K_GetINSNLength s p = insn_words opcode"
    using assms(4) d(3) C(2) O(2) unfolding M68K_GetINSNLength_def Let_def assms(3) [symmetric]
    by (auto simp: M68K_GetLineCLength_def M68K_GetLine8Length_def)
qed

lemma eor_facts:
  assumes "exclusive_or s \<sigma>" "p = ucast (pcount \<sigma>)" "opcode = code16 s p"
  shows "SR_sets opcode = 15" "M68K_GetINSNLength s p = insn_words opcode" "\<not> M68K_IsBranch s p" "operand_size opcode \<in> {1, 2, 4}"
    "\<exists>row. InsnTable_entry InsnTable_B (unat (opcode AND 0x1ff)) = Some row \<and> od_Emit row \<in> {H_EOR_reg}"
proof -
  note fm = assms(1) [unfolded exclusive_or_def Let_def, folded assms(2,3)]
  have d: "unat (drop_bit 8 opcode AND 1) = 1" "drop_bit 6 opcode AND 3 \<noteq> 3" "drop_bit 12 opcode = 11" using fm by simp_all
  show "\<not> M68K_IsBranch s p" using branch_groups [of s p] d(3) assms(3) by auto
  show "operand_size opcode \<in> {1, 2, 4}" by (rule opcode_fields(5) [OF d(2)])
  have ok: "operand_ok (operand_size opcode) (ea_mode opcode) (reg_field opcode) (\<lambda>i. code16 s (at (p + 2) i)) (gpr \<sigma>) (pcount \<sigma> + 2)"
    using fm opcode_fields(3) [of opcode] by (simp add: operand_ok_def ea_direct_def)
  have m: "unat (ea_mode opcode) = 0" using fm by simp
  note B = plain_facts [OF d(1,2) assms(3) ok plain_logic(3) m]
  show "\<exists>row. InsnTable_entry InsnTable_B (unat (opcode AND 0x1ff)) = Some row \<and> od_Emit row \<in> {H_EOR_reg}" by (rule B(3))
  show "SR_sets opcode = 15" using d(3) B(1) by (simp add: SR_sets_def SR_flags_def SRCheck_def GetSR_LineB_def)
  show "M68K_GetINSNLength s p = insn_words opcode"
    using d(3) B(2) unfolding M68K_GetINSNLength_def Let_def assms(3) [symmetric] by (simp add: M68K_GetLineBLength_def)
qed

section \<open>Properties\<close>

lemma AND_simulated:
  assumes "ordinary_code s" "emulates s j m \<sigma>" "into_register 12 s \<sigma>" "opcode = code16 s (ucast (pcount \<sigma>))"
    "ea_mode opcode \<noteq> 1" "M68K_GetSRMask c s (ucast (pcount \<sigma>)) \<noteq> 3"
  shows "\<exists>j' m'. EMIT_AND_ext c s opcode (ucast (pcount \<sigma>) + 2) j = (ucast (pcount (AND_step s \<sigma>)), j') \<and>
    produces j m j' m' \<and> emulates s j' m' (AND_step s \<sigma>)"
proof -
  note rf = register_form [OF assms(2-4)] and fa = logic_facts [OF assms(3) refl assms(4) _ assms(5)]
  define y where "y = operand_value (operand_size opcode) (ea_mode opcode) (reg_field opcode) (\<lambda>i. code16 s (at (ucast (pcount \<sigma>) + 2) i))
    (gpr \<sigma>) (pcount \<sigma> + 2) (m_mem m)"
  obtain j1 m1 where b: "AND_to_register (M68K_GetSRMask c s (ucast (pcount \<sigma>))) s opcode (ucast (pcount \<sigma>) + 2) j =
      (host (field_9 opcode), operand_words (operand_size opcode) (ea_mode opcode) (reg_field opcode), j1)"
    "combined (operand_size opcode) (ea_mode opcode) (reg_field opcode) (field_9 opcode)
       (low_part (unat (operand_size opcode)) (gpr \<sigma> (field_9 opcode)) (gpr \<sigma> (field_9 opcode) AND y))
       (\<lambda>m. M68K_GetSRMask c s (ucast (pcount \<sigma>)) \<noteq> 0 \<and> operand_size opcode = 4 \<longrightarrow>
          tested 4 (low_part (unat (operand_size opcode)) (gpr \<sigma> (field_9 opcode)) (gpr \<sigma> (field_9 opcode) AND y)) m)
       j m (gpr \<sigma>) (pcount \<sigma>) j1 m1"
    using AND_to_register_combined [OF rf(5,3) refl refl refl refl rf(1,4) y_def refl] by blast
  have st: "AND_step s \<sigma> = logic_result opcode (field_9 opcode) (gpr \<sigma> (field_9 opcode) AND y) \<sigma>"
    by (simp add: AND_step_def logic_step_def Let_def assms(4) [symmetric] y_def rf(6))
  show ?thesis
    unfolding st EMIT_AND_ext_def
    by (rule logic_simulates [OF assms(1,2) refl assms(4) refl assms(6) rf(1), where dn = "field_9 opcode" and ?j1.0 = j1 and ?m1.0 = m1])
      (use fa rf b in \<open>auto simp: combined_def\<close>)
qed

text \<open>
  C4. \<open>EMIT_AND_ext\<close> is correct in direction 0, \<open>AND <ea>,Dn\<close>, in the sense of the property of
  \<open>EMIT_ADD_ext\<close>, unless exactly V and C are live afterwards (then they are left unchanged).
\<close>

theorem EMIT_AND_ext_simulates:
  assumes "ordinary_code s" "emulates s j m \<sigma>" "into_register 12 s \<sigma>" "opcode = code16 s (ucast (pcount \<sigma>))"
    "ea_mode opcode \<noteq> 1" "M68K_GetSRMask c s (ucast (pcount \<sigma>)) \<noteq> 3"
  shows "\<exists>j' m'. EMIT_AND_ext c s opcode (ucast (pcount \<sigma>) + 2) j = (ucast (pcount (AND_step s \<sigma>)), j') \<and>
    produces j m j' m' \<and> emulates s j' m' (AND_step s \<sigma>)"
  by (rule AND_simulated [OF assms])

theorem EMIT_AND_ext_simulates_witness:
  "\<exists>j' m'. EMIT_AND_ext 0 (filled 0xc0 0x41) 0xc041 2 (jit_init 64) = (2, j') \<and> run (tc_code j') two_machine = Some m' \<and>
    rdX m' (host 0) = 1"
proof -
  let ?s = "filled 0xc0 0x41"
  have c: "code16 ?s p = (if bit p 0 then 0x41c0 else 0xc041)" for p by (simp add: filled_code)
  have x: "code16 ?s 0 = 0xc041" by (simp add: c)
  have o: "ordinary_code ?s" by (simp add: ordinary_code_def c)
  have f: "operand_size 0xc041 = 2" "ea_mode 0xc041 = 0" "reg_field 0xc041 = 1" "field_9 0xc041 = 0"
    by (simp_all add: operand_size_def ea_mode_def reg_field_def field_9_def)
  have i: "into_register 12 ?s two_cpu"
    by (simp add: into_register_def operand_ok_def ea_direct_def two_cpu_def x f)
  have z: "M68K_GetSRMask 0 ?s 0 = 15" 
    by (simp add: M68K_GetSRMask_def x SR_sets_def SR_flags_def SRCheck_def GetSR_LineC_def table_SR_def InsnTable_entry_def InsnTable_C_def)
  have "gpr (AND_step ?s two_cpu) 0 = 1" "pcount (AND_step ?s two_cpu) = 2"
    by (simp_all add: AND_step_def logic_step_def logic_result_def two_cpu_def x f insn_words_def operand_words_def operand_direct_def direct_words_def
      operand_value_def direct_operand_def two_regs_def ea_after_def low_part_def mask_eq_exp_minus_1 Let_def)
  moreover obtain j' m' where q: "EMIT_AND_ext 0 ?s 0xc041 (ucast (pcount two_cpu) + 2) (jit_init 64) =
      (ucast (pcount (AND_step ?s two_cpu)), j')"
    "produces (jit_init 64) two_machine j' m'" "emulates ?s j' m' (AND_step ?s two_cpu)"
    using EMIT_AND_ext_simulates [OF o two_emulates i, of "0xc041" 0] x z f by (auto simp: two_cpu_def)
  moreover have "run (tc_code j') two_machine = Some m'" using q(2) by (simp add: produces_def jit_init_def)
  moreover have "reg_is m' (host 0) (gpr (AND_step ?s two_cpu) 0)"
    using q(3) m68k_regsD(1) [of m' _ 0] by (simp add: emulates_def cpu_def)
  ultimately show ?thesis by (auto simp: two_cpu_def reg_is_def)
qed

lemma OR_simulated:
  assumes "ordinary_code s" "emulates s j m \<sigma>" "into_register 8 s \<sigma>" "opcode = code16 s (ucast (pcount \<sigma>))"
    "ea_mode opcode \<noteq> 1" "M68K_GetSRMask c s (ucast (pcount \<sigma>)) \<noteq> 3"
  shows "\<exists>j' m'. EMIT_OR_reg c s opcode (ucast (pcount \<sigma>) + 2) j = (ucast (pcount (OR_step s \<sigma>)), j') \<and>
    produces j m j' m' \<and> emulates s j' m' (OR_step s \<sigma>)"
proof -
  note rf = register_form [OF assms(2-4)] and fa = logic_facts [OF assms(3) refl assms(4) _ assms(5)]
  define y where "y = operand_value (operand_size opcode) (ea_mode opcode) (reg_field opcode) (\<lambda>i. code16 s (at (ucast (pcount \<sigma>) + 2) i))
    (gpr \<sigma>) (pcount \<sigma> + 2) (m_mem m)"
  obtain j1 m1 where b: "OR_to_register s opcode (ucast (pcount \<sigma>) + 2) j =
      (host (field_9 opcode), operand_words (operand_size opcode) (ea_mode opcode) (reg_field opcode), j1)"
    "combined (operand_size opcode) (ea_mode opcode) (reg_field opcode) (field_9 opcode)
       (low_part (unat (operand_size opcode)) (gpr \<sigma> (field_9 opcode)) (gpr \<sigma> (field_9 opcode) OR y))
       (\<lambda>_. True)
       j m (gpr \<sigma>) (pcount \<sigma>) j1 m1"
    using OR_to_register_combined [OF rf(5,3) refl refl refl refl rf(1,4) y_def refl assms(5)] by blast
  have st: "OR_step s \<sigma> = logic_result opcode (field_9 opcode) (gpr \<sigma> (field_9 opcode) OR y) \<sigma>"
    by (simp add: OR_step_def logic_step_def Let_def assms(4) [symmetric] y_def rf(6))
  show ?thesis
    unfolding st EMIT_OR_reg_def
    by (rule logic_simulates [OF assms(1,2) refl assms(4) refl assms(6) rf(1), where dn = "field_9 opcode" and ?j1.0 = j1 and ?m1.0 = m1])
      (use fa rf b in \<open>auto simp: combined_def\<close>)
qed

text \<open>
  C5. \<open>EMIT_OR_reg\<close> is correct in direction 0, \<open>OR <ea>,Dn\<close>, in the same sense.
\<close>

theorem EMIT_OR_reg_simulates:
  assumes "ordinary_code s" "emulates s j m \<sigma>" "into_register 8 s \<sigma>" "opcode = code16 s (ucast (pcount \<sigma>))"
    "ea_mode opcode \<noteq> 1" "M68K_GetSRMask c s (ucast (pcount \<sigma>)) \<noteq> 3"
  shows "\<exists>j' m'. EMIT_OR_reg c s opcode (ucast (pcount \<sigma>) + 2) j = (ucast (pcount (OR_step s \<sigma>)), j') \<and>
    produces j m j' m' \<and> emulates s j' m' (OR_step s \<sigma>)"
  by (rule OR_simulated [OF assms])

theorem EMIT_OR_reg_simulates_witness:
  "\<exists>j' m'. EMIT_OR_reg 0 (filled 0x80 0x41) 0x8041 2 (jit_init 64) = (2, j') \<and> run (tc_code j') two_machine = Some m' \<and>
    rdX m' (host 0) = 0x7fff"
proof -
  let ?s = "filled 0x80 0x41"
  have c: "code16 ?s p = (if bit p 0 then 0x4180 else 0x8041)" for p by (simp add: filled_code)
  have x: "code16 ?s 0 = 0x8041" by (simp add: c)
  have o: "ordinary_code ?s" by (simp add: ordinary_code_def c)
  have f: "operand_size 0x8041 = 2" "ea_mode 0x8041 = 0" "reg_field 0x8041 = 1" "field_9 0x8041 = 0"
    by (simp_all add: operand_size_def ea_mode_def reg_field_def field_9_def)
  have i: "into_register 8 ?s two_cpu"
    by (simp add: into_register_def operand_ok_def ea_direct_def two_cpu_def x f)
  have z: "M68K_GetSRMask 0 ?s 0 = 15" 
    by (simp add: M68K_GetSRMask_def x SR_sets_def SR_flags_def SRCheck_def GetSR_Line8_def table_SR_def InsnTable_entry_def InsnTable_8_def)
  have "gpr (OR_step ?s two_cpu) 0 = 0x7fff" "pcount (OR_step ?s two_cpu) = 2"
    by (simp_all add: OR_step_def logic_step_def logic_result_def two_cpu_def x f insn_words_def operand_words_def operand_direct_def direct_words_def
      operand_value_def direct_operand_def two_regs_def ea_after_def low_part_def mask_eq_exp_minus_1 Let_def)
  moreover obtain j' m' where q: "EMIT_OR_reg 0 ?s 0x8041 (ucast (pcount two_cpu) + 2) (jit_init 64) =
      (ucast (pcount (OR_step ?s two_cpu)), j')"
    "produces (jit_init 64) two_machine j' m'" "emulates ?s j' m' (OR_step ?s two_cpu)"
    using EMIT_OR_reg_simulates [OF o two_emulates i, of "0x8041" 0] x z f by (auto simp: two_cpu_def)
  moreover have "run (tc_code j') two_machine = Some m'" using q(2) by (simp add: produces_def jit_init_def)
  moreover have "reg_is m' (host 0) (gpr (OR_step ?s two_cpu) 0)"
    using q(3) m68k_regsD(1) [of m' _ 0] by (simp add: emulates_def cpu_def)
  ultimately show ?thesis by (auto simp: two_cpu_def reg_is_def)
qed

lemma EOR_simulated:
  assumes "ordinary_code s" "emulates s j m \<sigma>" "exclusive_or s \<sigma>" "opcode = code16 s (ucast (pcount \<sigma>))"
    "M68K_GetSRMask c s (ucast (pcount \<sigma>)) \<noteq> 3"
  shows "\<exists>j' m'. EMIT_EOR_ext c s opcode (ucast (pcount \<sigma>) + 2) j = (ucast (pcount (EOR_step s \<sigma>)), j') \<and>
    produces j m j' m' \<and> emulates s j' m' (EOR_step s \<sigma>)"
proof -
  note fm = assms(3) [unfolded exclusive_or_def Let_def, folded assms(4)] and em = assms(2) [unfolded emulates_def]
  note fa = eor_facts [OF assms(3) refl assms(4)]
  have c: "cpu j m (gpr \<sigma>) (pcount \<sigma>)" "free_temps 6 j" using em enough_temps_free by blast+
  have r: "reg_field opcode < 16" using opcode_fields(3) [of opcode] by (rule less_trans) simp
  have mode: "ea_mode opcode = 0" "opcode AND 0x38 = 0" "uint (pcount \<sigma>) + 6 < 2 ^ 32" using fm mode_bits by blast+
  have w: "operand_words (operand_size opcode) (ea_mode opcode) (reg_field opcode) = 0"
    by (simp add: mode operand_words_def operand_direct_def direct_words_def)
  obtain j1 m1 where b: "EOR_to_register opcode j = (host (reg_field opcode), 0, j1)"
    "combined (operand_size opcode) 0 (reg_field opcode) (reg_field opcode) (low_part (unat (operand_size opcode)) (gpr \<sigma> (reg_field opcode))
        (gpr \<sigma> (reg_field opcode) XOR gpr \<sigma> (field_9 opcode))) (\<lambda>_. True) j m (gpr \<sigma>) (pcount \<sigma>) j1 m1"
    using EOR_to_register_combined [OF c refl refl refl fa(4) refl] by blast
  have st: "EOR_step s \<sigma> = logic_result opcode (reg_field opcode) (gpr \<sigma> (reg_field opcode) XOR gpr \<sigma> (field_9 opcode)) \<sigma>"
    by (simp add: EOR_step_def Let_def assms(4) [symmetric])
  show ?thesis
    unfolding st EMIT_EOR_ext_def
    by (rule logic_simulates [OF assms(1,2) refl assms(4) refl assms(5) fa(4), where dn = "reg_field opcode" and ?j1.0 = j1 and ?m1.0 = m1])
      (use fa(1-3) b r mode w in \<open>auto simp: combined_def\<close>)
qed

text \<open>
  C6. \<open>EMIT_EOR_ext\<close> is correct for registers, \<open>EOR Dn,Dm\<close>, in the same sense.
\<close>

theorem EMIT_EOR_ext_simulates:
  assumes "ordinary_code s" "emulates s j m \<sigma>" "exclusive_or s \<sigma>" "opcode = code16 s (ucast (pcount \<sigma>))"
    "M68K_GetSRMask c s (ucast (pcount \<sigma>)) \<noteq> 3"
  shows "\<exists>j' m'. EMIT_EOR_ext c s opcode (ucast (pcount \<sigma>) + 2) j = (ucast (pcount (EOR_step s \<sigma>)), j') \<and>
    produces j m j' m' \<and> emulates s j' m' (EOR_step s \<sigma>)"
  by (rule EOR_simulated [OF assms])

theorem EMIT_EOR_ext_simulates_witness:
  "\<exists>j' m'. EMIT_EOR_ext 0 (filled 0xb3 0x40) 0xb340 2 (jit_init 64) = (2, j') \<and> run (tc_code j') two_machine = Some m' \<and>
    rdX m' (host 0) = 0x7ffe"
proof -
  let ?s = "filled 0xb3 0x40"
  have c: "code16 ?s p = (if bit p 0 then 0x40b3 else 0xb340)" for p by (simp add: filled_code)
  have x: "code16 ?s 0 = 0xb340" by (simp add: c)
  have o: "ordinary_code ?s" by (simp add: ordinary_code_def c)
  have f: "operand_size 0xb340 = 2" "ea_mode 0xb340 = 0" "reg_field 0xb340 = 0" "field_9 0xb340 = 1"
    by (simp_all add: operand_size_def ea_mode_def reg_field_def field_9_def)
  have i: "exclusive_or ?s two_cpu"
    by (simp add: exclusive_or_def two_cpu_def x f)
  have z: "M68K_GetSRMask 0 ?s 0 = 15" 
    by (simp add: M68K_GetSRMask_def x SR_sets_def SR_flags_def SRCheck_def GetSR_LineB_def table_SR_def InsnTable_entry_def InsnTable_B_def)
  have "gpr (EOR_step ?s two_cpu) 0 = 0x7ffe" "pcount (EOR_step ?s two_cpu) = 2"
    by (simp_all add: EOR_step_def logic_step_def logic_result_def two_cpu_def x f insn_words_def operand_words_def operand_direct_def direct_words_def
      operand_value_def direct_operand_def two_regs_def ea_after_def low_part_def mask_eq_exp_minus_1 Let_def)
  moreover obtain j' m' where q: "EMIT_EOR_ext 0 ?s 0xb340 (ucast (pcount two_cpu) + 2) (jit_init 64) =
      (ucast (pcount (EOR_step ?s two_cpu)), j')"
    "produces (jit_init 64) two_machine j' m'" "emulates ?s j' m' (EOR_step ?s two_cpu)"
    using EMIT_EOR_ext_simulates [OF o two_emulates i, of "0xb340" 0] x z f by (auto simp: two_cpu_def)
  moreover have "run (tc_code j') two_machine = Some m'" using q(2) by (simp add: produces_def jit_init_def)
  moreover have "reg_is m' (host 0) (gpr (EOR_step ?s two_cpu) 0)"
    using q(3) m68k_regsD(1) [of m' _ 0] by (simp add: emulates_def cpu_def)
  ultimately show ?thesis by (auto simp: two_cpu_def reg_is_def)
qed

end
