(* ===== verification/Logic_Mem.thy ===== *)
theory Logic_Mem
  imports Logic_Step Mem_Ops
begin

text \<open>
  The simulation for \<open>AND Dn,<ea>\<close>, \<open>OR Dn,<ea>\<close> and \<open>EOR Dn,<ea>\<close>: the operand in memory is
  read, changed and written back, and the result is tested in the temporary that held it.
\<close>

section \<open>The operation\<close>

text \<open>
  What \<open>long_op\<close>, the operation on long words, has to do: leave the result of \<open>g\<close> in the first
  register, and in the host's flags when \<open>Q\<close> holds.
\<close>

definition long_computes :: "(u8 \<Rightarrow> u8 \<Rightarrow> jit \<Rightarrow> jit) \<Rightarrow> (u32 \<Rightarrow> u32 \<Rightarrow> u32) \<Rightarrow> bool \<Rightarrow> bool" where
  "long_computes long_op g Q \<longleftrightarrow> (\<forall>rd rm j m x y. is_reg rd \<longrightarrow> is_reg rm \<longrightarrow> reg_is m rd x \<longrightarrow> reg_is m rm y \<longrightarrow>
     live_temps (long_op rd rm j) = live_temps j \<and>
     (\<exists>m'. opers {rd} j m (long_op rd rm j) m' \<and> reg_is m' rd (g x y) \<and> m_mem m' = m_mem m \<and> (Q \<longrightarrow> tested 4 (g x y) m')))"

lemma emit_op_live [simp]: "live_temps (emit_op op rd rm j) = live_temps j" "live_temps (emit_AND um rd rm j) = live_temps j"
  by (simp_all add: emit_op_def emit_AND_def)

lemma long_computes_op: "computes opn g \<Longrightarrow> long_computes (emit_op opn) g False"
  unfolding long_computes_def using computesD [of opn g] acts_opers by (fastforce simp: emit_op_def)

lemma long_computes_AND: "long_computes (emit_AND um) (AND) (um \<noteq> 0)"
proof -
  have "\<exists>m'. opers {rd} j m (emit_AND um rd rm j) m' \<and> reg_is m' rd (x AND y) \<and> m_mem m' = m_mem m \<and> (um \<noteq> 0 \<longrightarrow> tested 4 (x AND y) m')"
    if t: "is_reg rd" "is_reg rm" "reg_is m rd x" "reg_is m rm y" for rd rm j m x y
  proof (cases "um = 0")
    case True
    obtain m' where m': "acts {rd} j m (EMIT [and_reg rd rd rm LSL 0] j) m'" "reg_is m' rd (x AND y)" "m_mem m' = m_mem m"
      using computesD [OF computes_logic(1) t(1,1,2,3,4)] by blast
    then show ?thesis using True acts_opers [OF m'(1)] by (intro exI [of _ m']) (simp add: emit_AND_def)
  next
    case False
    then show ?thesis using ands_opers [OF t(1,1,2,3,4), of j] by (simp add: emit_AND_def EMIT_rf_RESET)
  qed
  then show ?thesis by (simp add: long_computes_def)
qed

lemma sized_op:
  assumes "computes opn g" "long_computes long_op g Q" "sz \<in> {1, 2, 4}" "is_reg tmp" "is_reg src" "reg_is m tmp x" "reg_is m src y"
    "j' = (if sz = 4 then long_op tmp src j else if sz = 2 \<or> sz = 1 then EMIT [opn tmp tmp src LSL 0] j else j)"
  shows "\<exists>m' v. opers {tmp} j m j' m' \<and> reg_is m' tmp v \<and> take_bit (8 * unat sz) v = take_bit (8 * unat sz) (g x y) \<and>
    m_mem m' = m_mem m \<and> (Q \<and> sz = 4 \<longrightarrow> tested 4 (g x y) m')"
proof (cases "sz = 4")
  case True
  then obtain m' where "opers {tmp} j m j' m'" "reg_is m' tmp (g x y)" "m_mem m' = m_mem m" "Q \<longrightarrow> tested 4 (g x y) m'"
    using assms(2,4-8) unfolding long_computes_def by (metis (full_types))
  then show ?thesis by blast
next
  case False
  then have e: "j' = EMIT [opn tmp tmp src LSL 0] j" using assms(3,8) by auto
  obtain m' where "acts {tmp} j m j' m'" "reg_is m' tmp (g x y)" "m_mem m' = m_mem m"
    using computesD [OF assms(1,4,4,5,6,7)] unfolding e by blast
  then show ?thesis using acts_opers False by blast
qed

lemma logic_ccr_cong: "0 < n \<Longrightarrow> take_bit (8 * n) v = take_bit (8 * n) w \<Longrightarrow> logic_ccr n v f = logic_ccr n w f"
proof (cases f)
  case Nf
  assume n: "0 < n" and e: "take_bit (8 * n) v = take_bit (8 * n) w"
  have "bit v (8 * n - 1) = bit w (8 * n - 1)"
    using arg_cong [OF e, of "\<lambda>x. bit x (8 * n - 1)"] n by (simp add: bit_take_bit_iff)
  with Nf show ?thesis by simp
qed simp_all

text \<open>The instruction up to the advance of the program counter.\<close>

lemma logic_to_memory_effect:
  assumes "cpu j m R pc" "ra_wf j" "coherent j m" "free_temps 6 j"
    "operand_size opcode = sz" "field_9 opcode = dn" "ea_mode opcode = mode" "reg_field opcode = r" "sz \<in> {1, 2, 4}"
    "alterable mode r" "ea_fits mode r (\<lambda>i. code16 s (at p i)) R (pc + 2) (ea_step sz r)"
    "A = ea_address mode r (\<lambda>i. code16 s (at p i)) R (pc + 2) (ea_step sz r)" "x = rd_be (m_mem m) (ucast A) (unat sz)"
    "computes opn g" "long_computes long_op g Q" "\<And>a b j. live_temps (long_op a b j) = live_temps j"
  shows "\<exists>tmp j' m' v. logic_to_memory long_op opn s opcode p j = (tmp, ea_words mode r, j') \<and>
    opers (ea_updates mode r) j m j' m' \<and> m_mem m' = wr_be (m_mem m) (ucast A) (unat sz) (g x (R dn)) \<and>
    tmp \<in> arm_temps \<and> held tmp j j' \<and> free_temps 5 j' \<and> reg_is m' tmp v \<and>
    take_bit (8 * unat sz) v = take_bit (8 * unat sz) (g x (R dn)) \<and>
    cpu j' m' (ea_after mode r (ea_step sz r) R) pc \<and> (Q \<and> sz = 4 \<longrightarrow> tested 4 (g x (R dn)) m')"
proof -
  note fields = opcode_fields [of opcode, unfolded assms(5-8)]
  let ?U = "ea_updates mode r" and ?R = "ea_after mode r (ea_step sz r) R" and ?w = "g x (R dn)"
  let ?F = "\<lambda>tmp j. if sz = 4 then long_op tmp (host dn) j else if sz = 2 \<or> sz = 1 then EMIT [opn tmp tmp (host dn) LSL 0] j else j"
  let ?P = "\<lambda>m. Q \<and> sz = 4 \<longrightarrow> tested 4 ?w m"
  have lF: "live_temps (?F tmp j) = live_temps j" for tmp j by (simp add: assms(16))
  have op: "\<exists>m2 v. opers {tmp} j1 m1 (?F tmp j1) m2 \<and> reg_is m2 tmp v \<and>
      take_bit (8 * unat sz) v = take_bit (8 * unat sz) ?w \<and> m_mem m2 = m_mem m1 \<and> ?P m2"
    if "is_reg tmp" "tmp \<in> arm_temps" "tmp \<in> live_temps j1" "reg_is m1 tmp x" "reg_is m1 (host dn) (R dn)" for tmp j1 m1
    by (rule sized_op [OF assms(14,15,9) that(1) host_reg(1) that(4,5) refl])
  have P: "?P m'" if "m_n m' = m_n m" "m_z m' = m_z m" "m_c m' = m_c m" "m_v m' = m_v m" "?P m" for m m'
    using that(5) tested_cong [OF that(1,2,4)] by simp
  have f5: "free_temps 5 j" by (rule free_temps_mono [OF assms(4)]) simp
  have "\<exists>tmp ja t j1 j2 m2 v. alloc_result j tmp ja \<and>
      EMIT_LoadFromEffectiveAddress 0 0xff (push_bit 3 mode OR r) 0 (\<not> (mode = 4 \<or> mode = 3)) False s p ja = (t, 0, ea_words mode r, j1) \<and>
      j2 = write_operand sz mode r t tmp (?F tmp (fetch_operand sz mode r t tmp j1)) \<and>
      held t ja j2 \<and> tmp \<in> live_temps j2 \<and> opers ?U j m j2 m2 \<and> reg_is m2 tmp v \<and>
      take_bit (8 * unat sz) v = take_bit (8 * unat sz) ?w \<and> m_mem m2 = wr_be (m_mem m) (ucast A) (unat sz) ?w \<and>
      cpu j2 m2 ?R pc \<and> ?P m2"
    by (rule alter_memory [OF assms(1) f5 assms(9,10) fields(4) assms(11-13), where F = ?F and P = "\<lambda>_. ?P", OF lF])
      (rule op, assumption+, rule P, assumption+)
  then obtain tmp ja t j1 j2 m2 v where 2: "alloc_result j tmp ja"
    "EMIT_LoadFromEffectiveAddress 0 0xff (push_bit 3 mode OR r) 0 (\<not> (mode = 4 \<or> mode = 3)) False s p ja = (t, 0, ea_words mode r, j1)"
    "j2 = write_operand sz mode r t tmp (?F tmp (fetch_operand sz mode r t tmp j1))"
    "held t ja j2" "tmp \<in> live_temps j2" "opers ?U j m j2 m2" "reg_is m2 tmp v"
    "take_bit (8 * unat sz) v = take_bit (8 * unat sz) ?w" "m_mem m2 = wr_be (m_mem m) (ucast A) (unat sz) ?w"
    "cpu j2 m2 ?R pc" "?P m2"
    by blast
  note ra = alloc_reg [OF 2(1)]
  let ?j' = "RA_FreeARMRegister t j2"
  have tmp: "tmp \<in> arm_temps - live_temps j" "live_temps ja = insert tmp (live_temps j)" using ra(4,6) by simp_all
  have lv: "live_temps ?j' = live_temps ja" by (rule held_live [OF 2(4)])
  have ht: "held tmp j ?j'" using tmp lv by (simp add: held_def)
  have "t \<notin> live_temps j" using 2(4) tmp by (auto simp: held_def dest: live_temps_arm)
  then have o: "opers ?U j m ?j' m2" by (rule opers_Free [OF 2(6)])
  have c: "cpu ?j' m2 ?R pc" by (rule cpu_Free [OF 2(10)])
  have f: "free_temps 5 ?j'" by (rule held_temps [OF ht]) (use assms(4) in simp)
  have "logic_to_memory long_op opn s opcode p j = (tmp, ea_words mode r, ?j')"
    using 2(2) by (simp add: logic_to_memory_def assms(5-8) fields(1) ra(5) 2(3) Let_def)
  then show ?thesis using o c f ht tmp 2(7-9,11) by blast
qed

section \<open>The step of the processor\<close>

definition logic_memory_step :: "(u32 \<Rightarrow> u32 \<Rightarrow> u32) \<Rightarrow> cache_sys \<Rightarrow> m68k \<Rightarrow> m68k" where
  "logic_memory_step g s \<sigma> =
    (let p = ucast (pcount \<sigma>); opcode = code16 s p; sz = operand_size opcode; mode = ea_mode opcode; r = reg_field opcode;
         a = ucast (ea_address mode r (\<lambda>i. code16 s (at (p + 2) i)) (gpr \<sigma>) (pcount \<sigma> + 2) (ea_step sz r));
         w = g (rd_be (ram \<sigma>) a (unat sz)) (gpr \<sigma> (field_9 opcode))
     in \<sigma>\<lparr>gpr := ea_after mode r (ea_step sz r) (gpr \<sigma>), ram := wr_be (ram \<sigma>) a (unat sz) w,
          sr_flag := (logic_ccr (unat sz) w)(Xf := sr_flag \<sigma> Xf), pcount := pcount \<sigma> + of_nat (2 * insn_words opcode)\<rparr>)"

definition AND_memory_step :: "cache_sys \<Rightarrow> m68k \<Rightarrow> m68k" where
  "AND_memory_step = logic_memory_step (AND)"

definition OR_memory_step :: "cache_sys \<Rightarrow> m68k \<Rightarrow> m68k" where
  "OR_memory_step = logic_memory_step (OR)"

definition EOR_memory_step :: "cache_sys \<Rightarrow> m68k \<Rightarrow> m68k" where
  "EOR_memory_step = logic_memory_step (XOR)"

lemma logic_memory_simulates:
  assumes "ordinary_code s" "emulates s j m \<sigma>" "into_memory k s \<sigma>" "p = ucast (pcount \<sigma>)" "opcode = code16 s p"
    "um = M68K_GetSRMask c s p" "um \<noteq> 3"
    "SR_sets opcode = 15" "M68K_GetINSNLength s p = insn_words opcode" "\<not> M68K_IsBranch s p"
    "computes opn g" "long_computes long_op g Q" "\<And>a b j. live_temps (long_op a b j) = live_temps j"
    "body um = logic_to_memory long_op opn s opcode (p + 2)" "um \<noteq> 0 \<and> \<not> long \<Longrightarrow> Q"
  shows "\<exists>j' m'. logic_handler long body c s opcode (p + 2) j = (ucast (pcount (logic_memory_step g s \<sigma>)), j') \<and>
    produces j m j' m' \<and> emulates s j' m' (logic_memory_step g s \<sigma>)"
proof -
  let ?sz = "operand_size opcode" and ?mode = "ea_mode opcode" and ?r = "reg_field opcode" and ?n = "logic_memory_step g s \<sigma>"
  let ?w = "ea_words ?mode ?r" and ?U = "ea_updates ?mode ?r" and ?R = "ea_after ?mode ?r (ea_step ?sz ?r) (gpr \<sigma>)"
  let ?a = "ea_address ?mode ?r (\<lambda>i. code16 s (at (p + 2) i)) (gpr \<sigma>) (pcount \<sigma> + 2) (ea_step ?sz ?r)"
  note em = assms(2) [unfolded emulates_def] and fm = memory_form [OF assms(3), of opcode, folded assms(4), OF assms(5)]
  have w: "ra_wf j" "coherent j m" "enough_temps j" "cpu j m (gpr \<sigma>) (pcount \<sigma>)" using em by blast+
  have z: "0 < unat ?sz" using fm(1) by auto
  have um: "um < 16" using GetSRMask_less_16 assms(5,6,8) by simp
  define x where "x = rd_be (m_mem m) (ucast ?a) (unat ?sz)"
  define v where "v = g x (gpr \<sigma> (field_9 opcode))"
  obtain tmp j1 m1 u where 1: "logic_to_memory long_op opn s opcode (p + 2) j = (tmp, ?w, j1)"
    "opers ?U j m j1 m1" "m_mem m1 = wr_be (m_mem m) (ucast ?a) (unat ?sz) v"
    "tmp \<in> arm_temps" "held tmp j j1" "free_temps 5 j1" "reg_is m1 tmp u" "take_bit (8 * unat ?sz) u = take_bit (8 * unat ?sz) v"
    "cpu j1 m1 ?R (pcount \<sigma>)" "Q \<and> ?sz = 4 \<longrightarrow> tested 4 v m1"
    unfolding v_def using logic_to_memory_effect [OF w(4,1,2) enough_temps_free [OF w(3)] refl refl refl refl fm(1,8,10) refl x_def assms(11-13)]
    by blast
  have S: "?U \<inter> live_temps j = {}" using ea_updates_live [of 0 ?mode ?r j] by blast
  have e1: "effect ?U 15 j m j1 m1" by (rule opers_effect [OF 1(2) S w(1,2)])
  have sp: "status_part j1 = status_part j" using 1(2) by (simp add: opers_def)
  have r: "is_reg tmp" "tmp \<noteq> REG_PC" "tmp \<notin> arm_temps - live_temps j1"
    using 1(4,5) arm_temps_is_reg by (auto simp: held_def arm_temps_def REG_PC_def)
  have f: "logic_ccr (unat ?sz) u f = logic_ccr (unat ?sz) v f" for f by (rule logic_ccr_cong [OF z 1(8)])
  have "take_bit 32 y = y" for y :: u32 by (rule bit_word_eqI) (simp add: bit_simps)
  then have tt: "um \<noteq> 0 \<and> ?sz = 4 \<and> \<not> long \<longrightarrow> tested 4 u m1" using 1(8,10) assms(15) by auto
  let ?fin = "\<lambda>j2. logic_tail long ?sz um tmp j2"
  have tail: "\<exists>m3. effect {} 15 j2 m2 (?fin j2) m3 \<and> m_mem m3 = m_mem m2 \<and> cc_live j (?fin j2) \<and>
      (\<forall>f. in_mask f um \<longrightarrow> ccf (?fin j2) m3 f = logic_ccr (unat ?sz) v f)"
    if a: "after_advance j1 m1 j2 m2" for j2 m2
  proof -
    let ?j4 = "if um \<noteq> 0 then update_flags_logic um (test_result long ?sz tmp j2) else j2"
    obtain m3 where 3: "effect {} 15 j2 m2 ?j4 m3" "m_mem m3 = m_mem m2" "cc_live j2 ?j4"
      "\<forall>f. in_mask f um \<longrightarrow> ccf ?j4 m3 f = logic_ccr (unat ?sz) u f"
      using logic_test_effect [OF a r(1,3,2) fm(1) um assms(7) 1(7) tt refl] by blast
    have h: "held tmp j j2" "status_part j2 = status_part j" using a 1(5) sp by (simp_all add: after_advance_def held_def)
    note fr = held_Free [OF h 3(3) w(1)]
    have t: "?fin j2 = RA_FreeARMRegister tmp ?j4" by (simp add: logic_tail_def)
    show ?thesis unfolding t using effect_Free [OF 3(1) fr(1)] fr(2) 3(2,4) f by (intro exI [of _ m3]) (simp add: ccf_def)
  qed
  have w2: "?w \<le> 2" by (simp add: ea_words_def)
  let ?j' = "?fin (EMIT_AdvancePC (of_nat (2 * (?w + 1))) j1)"
  obtain m' where q: "effect (insert REG_PC ?U) 15 j m ?j' m'" "m_mem m' = m_mem m1" "enough_temps ?j'"
    "cpu ?j' m' ?R (pcount \<sigma> + of_nat (2 * (?w + 1)))" "\<forall>f. in_mask f um \<longrightarrow> ccf ?j' m' f = logic_ccr (unat ?sz) v f"
    using finish_insn_any [OF 1(9) e1 1(6) w(3,1) w2 tail] by blast
  have st: "gpr ?n = ?R" "pcount ?n = pcount \<sigma> + of_nat (2 * (?w + 1))" "ram ?n = wr_be (m_mem m) (ucast ?a) (unat ?sz) v"
      "sr_flag ?n = (logic_ccr (unat ?sz) v)(Xf := sr_flag \<sigma> Xf)"
    using em fm(2) by (simp_all add: logic_memory_step_def Let_def assms(4) [symmetric] assms(5) [symmetric] x_def v_def)
  have p': "at (p + 2) ?w = ucast (pcount ?n)" "at p (insn_words opcode) = ucast (pcount ?n)"
    using code_pointer [OF fm(9) w2] unfolding st fm(2) assms(4) by blast+
  have "produces j m ?j' m' \<and> emulates s ?j' m' ?n"
    by (rule emulates_step [OF assms(1,2,4,5,10) _ q(1) _ q(3), where c = c])
      (use q(2,4,5) 1(3) less16_no_X [OF um] in \<open>auto simp: assms(8,9) assms(6) [symmetric] p'(2) st in_nzvc\<close>)
  moreover have "logic_handler long body c s opcode (p + 2) j = (at (p + 2) ?w, ?j')"
    by (simp add: logic_handler_def assms(6) [symmetric] assms(14) 1(1) Let_def)
  ultimately show ?thesis using p'(1) by auto
qed

text \<open>The groups C, 8 and B.\<close>

lemma plain_logic_memory:
  "plain_rows sr_NZVC {H_AND_mem, H_AND_ext} InsnTable_C 1 (\<lambda>_ mode r. mode = 2 \<or> mode = 3 \<or> mode = 4 \<or> mode = 7 \<and> r < 2)"
  "plain_rows sr_NZVC {H_OR_mem, H_OR_ext} InsnTable_8 1 (\<lambda>_ mode r. mode = 2 \<or> mode = 3 \<or> mode = 4 \<or> mode = 7 \<and> r < 2)"
  "plain_rows sr_NZVC {H_EOR_mem, H_EOR_ext} InsnTable_B 1 (\<lambda>_ mode r. mode = 2 \<or> mode = 3 \<or> mode = 4 \<or> mode = 7 \<and> r < 2)"
proof -
  show "plain_rows sr_NZVC {H_AND_mem, H_AND_ext} InsnTable_C 1 (\<lambda>_ mode r. mode = 2 \<or> mode = 3 \<or> mode = 4 \<or> mode = 7 \<and> r < 2)"
    by (rule plain_rowsI, elim disjE) (simp_all add: InsnTable_entry_def InsnTable_C_def plain_row_def)
  show "plain_rows sr_NZVC {H_OR_mem, H_OR_ext} InsnTable_8 1 (\<lambda>_ mode r. mode = 2 \<or> mode = 3 \<or> mode = 4 \<or> mode = 7 \<and> r < 2)"
    by (rule plain_rowsI, elim disjE) (simp_all add: InsnTable_entry_def InsnTable_8_def plain_row_def)
  show "plain_rows sr_NZVC {H_EOR_mem, H_EOR_ext} InsnTable_B 1 (\<lambda>_ mode r. mode = 2 \<or> mode = 3 \<or> mode = 4 \<or> mode = 7 \<and> r < 2)"
    by (rule plain_rowsI, elim disjE) (simp_all add: InsnTable_entry_def InsnTable_B_def plain_row_def)
qed

lemma logic_memory_facts:
  assumes "into_memory g s \<sigma>" "p = ucast (pcount \<sigma>)" "opcode = code16 s p" "g = 12 \<or> g = 8 \<or> g = 11"
  shows "SR_sets opcode = 15" "M68K_GetINSNLength s p = insn_words opcode" "\<not> M68K_IsBranch s p"
    "g = 12 \<Longrightarrow> \<exists>row. InsnTable_entry InsnTable_C (unat (opcode AND 0x1ff)) = Some row \<and> od_Emit row \<in> {H_AND_mem, H_AND_ext}"
    "g = 8 \<Longrightarrow> \<exists>row. InsnTable_entry InsnTable_8 (unat (opcode AND 0x1ff)) = Some row \<and> od_Emit row \<in> {H_OR_mem, H_OR_ext}"
    "g = 11 \<Longrightarrow> \<exists>row. InsnTable_entry InsnTable_B (unat (opcode AND 0x1ff)) = Some row \<and> od_Emit row \<in> {H_EOR_mem, H_EOR_ext}"
proof -
  note fm = memory_form [OF assms(1), of opcode, folded assms(2), OF assms(3)]
  have d: "drop_bit 12 opcode = g" by (rule fm(7))
  show "\<not> M68K_IsBranch s p" using branch_groups [of s p] d assms(3,4) by auto
  have ok: "unat (ea_mode opcode) = 2 \<or> unat (ea_mode opcode) = 3 \<or> unat (ea_mode opcode) = 4 \<or>
      unat (ea_mode opcode) = 7 \<and> unat (reg_field opcode) < 2"
    using fm(8) by (auto simp: alterable_def)
  note C = plain_facts [OF fm(4,6) assms(3) fm(3) plain_logic_memory(1) ok] and O = plain_facts [OF fm(4,6) assms(3) fm(3) plain_logic_memory(2) ok]
    and B = plain_facts [OF fm(4,6) assms(3) fm(3) plain_logic_memory(3) ok]
  show "\<exists>row. InsnTable_entry InsnTable_C (unat (opcode AND 0x1ff)) = Some row \<and> od_Emit row \<in> {H_AND_mem, H_AND_ext}" by (rule C(3))
  show "\<exists>row. InsnTable_entry InsnTable_8 (unat (opcode AND 0x1ff)) = Some row \<and> od_Emit row \<in> {H_OR_mem, H_OR_ext}" by (rule O(3))
  show "\<exists>row. InsnTable_entry InsnTable_B (unat (opcode AND 0x1ff)) = Some row \<and> od_Emit row \<in> {H_EOR_mem, H_EOR_ext}" by (rule B(3))
  show "SR_sets opcode = 15"
    using assms(4) d C(1) O(1) B(1)
    by (auto simp: SR_sets_def SR_flags_def SRCheck_def GetSR_LineC_def GetSR_Line8_def GetSR_LineB_def)
  show "M68K_GetINSNLength s p = insn_words opcode"
    using assms(4) d C(2) O(2) B(2) unfolding M68K_GetINSNLength_def Let_def assms(3) [symmetric]
    by (auto simp: M68K_GetLineCLength_def M68K_GetLine8Length_def M68K_GetLineBLength_def)
qed

section \<open>Properties\<close>

lemma AND_memory_simulated:
  assumes "ordinary_code s" "emulates s j m \<sigma>" "into_memory 12 s \<sigma>" "opcode = code16 s (ucast (pcount \<sigma>))"
    "M68K_GetSRMask c s (ucast (pcount \<sigma>)) \<noteq> 3"
  shows "\<exists>j' m'. EMIT_AND_ext c s opcode (ucast (pcount \<sigma>) + 2) j = (ucast (pcount (AND_memory_step s \<sigma>)), j') \<and>
    produces j m j' m' \<and> emulates s j' m' (AND_memory_step s \<sigma>)"
proof -
  note fm = memory_form [OF assms(3,4)] and fa = logic_memory_facts [OF assms(3) refl assms(4)]
  show ?thesis
    unfolding EMIT_AND_ext_def AND_memory_step_def
    by (rule logic_memory_simulates [OF assms(1-3) refl assms(4) refl assms(5) _ _ _ computes_logic(1) long_computes_AND])
      (use fm(5) fa(1-3) in \<open>simp_all add: fun_eq_iff\<close>)
qed

lemma OR_memory_simulated:
  assumes "ordinary_code s" "emulates s j m \<sigma>" "into_memory 8 s \<sigma>" "opcode = code16 s (ucast (pcount \<sigma>))"
    "M68K_GetSRMask c s (ucast (pcount \<sigma>)) \<noteq> 3"
  shows "\<exists>j' m'. EMIT_OR_reg c s opcode (ucast (pcount \<sigma>) + 2) j = (ucast (pcount (OR_memory_step s \<sigma>)), j') \<and>
    produces j m j' m' \<and> emulates s j' m' (OR_memory_step s \<sigma>)"
proof -
  note fm = memory_form [OF assms(3,4)] and fa = logic_memory_facts [OF assms(3) refl assms(4)]
  show ?thesis
    unfolding EMIT_OR_reg_def OR_memory_step_def
    by (rule logic_memory_simulates [OF assms(1-3) refl assms(4) refl assms(5) _ _ _ computes_logic(2) long_computes_op [OF computes_logic(2)]])
      (use fm(5) fa(1-3) in \<open>simp_all add: fun_eq_iff\<close>)
qed

lemma EOR_memory_simulated:
  assumes "ordinary_code s" "emulates s j m \<sigma>" "into_memory 11 s \<sigma>" "opcode = code16 s (ucast (pcount \<sigma>))"
    "M68K_GetSRMask c s (ucast (pcount \<sigma>)) \<noteq> 3"
  shows "\<exists>j' m'. EMIT_EOR_ext c s opcode (ucast (pcount \<sigma>) + 2) j = (ucast (pcount (EOR_memory_step s \<sigma>)), j') \<and>
    produces j m j' m' \<and> emulates s j' m' (EOR_memory_step s \<sigma>)"
proof -
  note fm = memory_form [OF assms(3,4)] and fa = logic_memory_facts [OF assms(3) refl assms(4)]
  show ?thesis
    unfolding EMIT_EOR_ext_def EOR_memory_step_def
    by (rule logic_memory_simulates [OF assms(1-3) refl assms(4) refl assms(5) _ _ _ computes_logic(3) long_computes_op [OF computes_logic(3)]])
      (use fm(5) fa(1-3) in \<open>simp_all add: fun_eq_iff mode_bits alterableD(3) [OF memory_form(8) [OF assms(3,4)]]\<close>)
qed

end
