(* ===== verification/Cmp_Step.thy ===== *)
theory Cmp_Step
  imports Logic_Ops
begin

text \<open>
  The simulation for \<open>CMP <ea>,Dn\<close>: a subtraction on the upper part of a long word whose
  result goes nowhere, and the flags of a subtraction without X.
\<close>

section \<open>The flags\<close>

lemma GetNZnCV_within: "nd AND SR_X = 0 \<Longrightarrow> fst (EMIT_GetNZnCV cc nd j) AND SR_X = 0"
proof -
  assume a: "nd AND SR_X = 0"
  have "(nd AND x) AND SR_X = 0" for x using a by (metis and.commute and.left_commute and_zero_eq)
  then show ?thesis using a by (simp add: EMIT_GetNZnCV_def Let_def case_prod_beta SR_X_def)
qed

lemma popcount_pos: "popcount x \<noteq> 0" if "x \<noteq> 0" for x :: u8
proof
  assume "popcount x = 0"
  then have "\<forall>n < 8. \<not> bit x n" by (simp add: popcount_def filter_empty_conv)
  then have "x = 0" by (intro bit_word_eqI) simp
  with that show False ..
qed

lemma set_rest_no_X:
  assumes "um AND SR_X = 0"
  shows "set_rest c cc um j =
    (let j = (if um AND SR_Z \<noteq> 0 then EMIT_SetFlagsConditional cc SR_Z A64_CC_EQ j else j);
         j = (if um AND SR_N \<noteq> 0 then EMIT_SetFlagsConditional cc SR_N A64_CC_MI j else j);
         j = (if um AND SR_V \<noteq> 0 then EMIT_SetFlagsConditional cc SR_Valt A64_CC_VS j else j)
     in if um AND SR_C \<noteq> 0 then EMIT_SetFlagsConditional cc SR_Calt c j else j)"
proof -
  have e: "um AND (SR_X OR SR_C) = um AND SR_C" using assms by (simp add: bit.conj_disj_distrib)
  have c: "um AND SR_C = 0 \<or> um AND SR_C = SR_C" by (auto simp: SR_C_def and_one_eq)
  have n: "SR_C \<noteq> SR_X" by (simp add: SR_C_def SR_X_def)
  show ?thesis
  proof (cases "um AND SR_C = 0")
    case True
    then show ?thesis unfolding set_rest_def Let_def e by simp
  next
    case False
    then have "um AND SR_C = SR_C" using c by blast
    then show ?thesis using False n unfolding set_rest_def Let_def e by (simp only: if_True if_False refl simp_thms)
  qed
qed

lemma update_flags_cmp_sub: "um AND SR_X = 0 \<Longrightarrow> update_flags_cmp um j = update_flags_sub um j"
proof (cases "um = 0")
  case True
  then show ?thesis by (simp add: update_flags_cmp_def update_flags_sub_def)
next
  case False
  assume a: "um AND SR_X = 0"
  obtain cc j1 where g: "RA_ModifyCC j = (cc, j1)" by fastforce
  obtain um' j2 where e: "EMIT_GetNZnCV cc um j1 = (um', j2)" by fastforce
  have x: "um' AND SR_X = 0" using GetNZnCV_within [OF a, of cc j1] e by simp
  have "update_flags_sub um j = set_rest A64_CC_CC cc um' j2" using False a g e by (simp add: update_flags_sub_def)
  also have "\<dots> = update_flags_cmp um j"
    unfolding set_rest_no_X [OF x] using False popcount_pos [OF False] g e by (simp add: update_flags_cmp_def)
  finally show ?thesis ..
qed

section \<open>The comparison\<close>

lemma subs_zero_opers:
  assumes "is_reg rn" "is_reg rm" "k < 32" "reg_is m rn a" "reg_is m rm b"
  shows "\<exists>m'. opers {} j m (EMIT [subs_reg 31 rn rm LSL k] j) m' \<and> m_mem m' = m_mem m \<and>
    (\<forall>f. host_flag_sub m' f = host_flag_sub (add_flags a (NOT (push_bit (unat k) b)) True m) f)"
proof -
  let ?i = "AddSubReg True True 31 rn rm LSL (unat k)"
  have "take_bit 5 (31 :: u8) = 31" by simp
  then have d: "decode (fetch (subs_reg 31 rn rm LSL k)) = Some ?i" using decode_add_reg(4) [OF assms(3)] assms by (simp add: is_regD)
  have e: "exec ?i m = (add_flags a (NOT (push_bit (unat k) b)) True m)\<lparr>m_pc := m_pc m + 4\<rparr>"
    by (simp add: exec_def Let_def wrW_def wrX_def reg_is_rdW [OF assms(4)] reg_is_rdW [OF assms(5)] add_flags_def)
  have r: "rdX (add_flags x y c m) s = rdX m s" "m_simd (add_flags x y c m) = m_simd m" "m_mem (add_flags x y c m) = m_mem m" for x y c s
    by (simp_all add: add_flags_def Let_def)
  have "opers {} j m (EMIT [subs_reg 31 rn rm LSL k] j) (exec ?i m)"
    by (rule opers_decoded [OF d]) (simp_all add: e r)
  moreover have "host_flag_sub (exec ?i m) f = host_flag_sub (add_flags a (NOT (push_bit (unat k) b)) True m) f" for f
    by (cases f) (simp_all add: e)
  ultimately show ?thesis by (intro exI [of _ "exec ?i m"]) (simp add: e r)
qed

lemma compare_opers:
  assumes "is_reg dst" "is_reg src" "is_reg tmp" "tmp \<in> arm_temps" "tmp \<noteq> src" "sz \<in> {1, 2, 4}" "reg_is m dst x" "reg_is m src y"
    "src \<notin> arm_temps - live_temps j"
  shows "\<exists>m'. opers {tmp} j m (if sz = 4 then EMIT_rf [subs_reg 31 dst src LSL 0] j
        else EMIT_rf [lsl_i tmp dst (32 - 8 * sz), subs_reg 31 tmp src LSL (32 - 8 * sz)] j) m' \<and> m_mem m' = m_mem m \<and>
    (\<forall>f. host_flag_sub m' f = sub_ccr (unat sz) x y f)"
proof (cases "sz = 4")
  case True
  have z: "(0 :: u8) < 32" by simp
  obtain m' where m': "opers {} j m (EMIT [subs_reg 31 dst src LSL 0] j) m'" "m_mem m' = m_mem m"
    "\<forall>f. host_flag_sub m' f = host_flag_sub (add_flags x (NOT (push_bit (unat (0 :: u8)) y)) True m) f"
    using subs_zero_opers [OF assms(1,2) z assms(7,8)] by blast
  have "host_flag_sub (add_flags x (NOT y) True m) f = sub_ccr 4 x y f" for f
    using sub_host_flags [of 4 x y m f] by simp
  then show ?thesis using True m' opers_mono [OF m'(1), of "{tmp}"] by (intro exI [of _ m']) (simp add: EMIT_rf_RESET)
next
  case False
  then have s: "sz \<in> {1, 2}" using assms(6) by blast
  let ?k = "32 - 8 * sz" and ?n = "32 - 8 * unat sz"
  have k: "?k < 32" "unat ?k = ?n" "0 < unat sz" "unat sz \<le> 4" using s by auto
  let ?j1 = "EMIT [lsl_i tmp dst ?k] j"
  obtain m1 where 1: "acts {tmp} j m ?j1 m1" "reg_is m1 tmp (push_bit ?n x)" "m_mem m1 = m_mem m"
    using lsl_acts [OF assms(3,1) s, of j m] unfolding reg_is_rdW [OF assms(7)] by blast
  have r: "reg_is m1 src y" using reg_is_keeps [OF 1(1), of src] assms(5,8,9) by auto
  obtain m2 where 2: "opers {} ?j1 m1 (EMIT [subs_reg 31 tmp src LSL ?k] ?j1) m2" "m_mem m2 = m_mem m1"
    "\<forall>f. host_flag_sub m2 f = host_flag_sub (add_flags (push_bit ?n x) (NOT (push_bit ?n y)) True m1) f"
    using subs_zero_opers [OF assms(3,2) k(1) 1(2) r, of ?j1] unfolding k(2) by blast
  have "opers {tmp} j m (EMIT [subs_reg 31 tmp src LSL ?k] ?j1) m2"
    by (rule opers_trans [OF acts_opers [OF 1(1)] opers_mono [OF 2(1)]]) simp
  then show ?thesis using False 1(3) 2(2,3) sub_host_flags [OF k(3,4)]
    by (intro exI [of _ m2]) (simp add: EMIT_rf_RESET EMIT_Cons [of "lsl_i tmp dst ?k" "[subs_reg 31 tmp src LSL ?k]"])
qed

section \<open>The instruction\<close>

definition CMP_step :: "cache_sys \<Rightarrow> m68k \<Rightarrow> m68k" where
  "CMP_step s \<sigma> =
    (let p = ucast (pcount \<sigma>); opcode = code16 s p; sz = operand_size opcode; mode = ea_mode opcode; r = reg_field opcode;
         y = operand_value sz mode r (\<lambda>i. code16 s (at (p + 2) i)) (gpr \<sigma>) (pcount \<sigma> + 2) (ram \<sigma>)
     in \<sigma>\<lparr>gpr := ea_after mode r (ea_step sz r) (gpr \<sigma>),
          sr_flag := (sub_ccr (unat sz) (gpr \<sigma> (field_9 opcode)) y)(Xf := sr_flag \<sigma> Xf),
          pcount := pcount \<sigma> + of_nat (2 * insn_words opcode)\<rparr>)"

lemma compare_operand:
  assumes "cpu j m R pc" "free_temps 6 j" "sz \<in> {1, 2, 4}" "operand_ok sz mode r (\<lambda>i. code16 s (at p i)) R (pc + 2)"
    "y = operand_value sz mode r (\<lambda>i. code16 s (at p i)) R (pc + 2) (m_mem m)" "dn < 8" "r < 8"
  shows "\<exists>tmp ja t j1 m2. RA_AllocARMRegister j = (tmp, ja) \<and>
    EMIT_LoadFromEffectiveAddress sz 0xff (push_bit 3 mode OR r) 0 True False s p ja = (t, 0, operand_words sz mode r, j1) \<and>
    (let j' = RA_FreeARMRegister t (RA_FreeARMRegister tmp (if sz = 4 then EMIT_rf [subs_reg 31 (host dn) t LSL 0] j1
        else EMIT_rf [lsl_i tmp (host dn) (32 - 8 * sz), subs_reg 31 tmp t LSL (32 - 8 * sz)] j1))
     in opers ({host dn} \<union> ea_updates mode r) j m j' m2 \<and> m_mem m2 = m_mem m \<and> live_temps j' = live_temps j \<and>
       cpu j' m2 (ea_after mode r (ea_step sz r) R) pc \<and> (\<forall>f. host_flag_sub m2 f = sub_ccr (unat sz) (R dn) y f))"
proof -
  have f6: "free_temps (Suc 5) j" using assms(2) by simp
  obtain tmp ja where a: "alloc_result j tmp ja" and f5: "free_temps 5 ja" using free_temps_alloc [OF f6] by blast
  have tmp: "tmp \<in> arm_temps" "tmp \<in> live_temps ja" "tmp \<notin> live_temps j" "pc_rel ja = pc_rel j" "is_reg tmp"
    "live_temps ja = insert tmp (live_temps j)" "RA_AllocARMRegister j = (tmp, ja)"
    using a arm_temps_is_reg by (auto simp: alloc_result_def)
  have c: "cpu ja m R pc" by (rule cpu_kept [OF assms(1)]) (simp_all add: tmp(4))
  let ?f = "\<lambda>t j. if sz = 4 then EMIT_rf [subs_reg 31 (host dn) t LSL 0] j
        else EMIT_rf [lsl_i tmp (host dn) (32 - 8 * sz), subs_reg 31 tmp t LSL (32 - 8 * sz)] j"
  let ?P = "\<lambda>m. \<forall>f. host_flag_sub m f = sub_ccr (unat sz) (R dn) y f"
  have X: "{tmp} \<subseteq> arm_temps" using tmp(1) by simp
  have d: "is_reg (host dn)" "host dn \<notin> arm_temps" "host dn \<noteq> tmp" using host_reg(1,3) tmp(1) by auto
  have op: "\<exists>m2. opers ({host dn} \<union> {tmp} \<union> ({t} \<inter> arm_temps)) j1 m1 (?f t j1) m2 \<and> reg_is m2 (host dn) (R dn) \<and>
      m_mem m2 = m_mem m1 \<and> live_temps (?f t j1) = live_temps j1 \<and> ?P m2"
    if t: "is_reg t" "t \<notin> arm_temps - live_temps j1" "reg_is m1 t y" "reg_is m1 (host dn) (R dn)" "free_temps 4 j1"
      "live_temps ja \<subseteq> live_temps j1"
      "if mode < 2 \<and> True then t = host (8 * mode + r) else t \<in> live_temps j1 - live_temps ja \<and> t \<in> arm_temps" for t j1 m1
  proof -
    have n: "tmp \<noteq> t" using t(7) tmp(1,2) host_reg(3) by (auto split: if_splits)
    obtain m2 where 2: "opers {tmp} j1 m1 (?f t j1) m2" "m_mem m2 = m_mem m1" "?P m2"
      using compare_opers [OF d(1) t(1) tmp(5,1) n assms(3) t(4,3,2)] by blast
    have "reg_is m2 (host dn) (R dn)" using opers_reg_is [OF 2(1), of "host dn"] d(2,3) t(4) by simp
    then show ?thesis using 2 opers_mono [OF 2(1), of "{host dn} \<union> {tmp} \<union> ({t} \<inter> arm_temps)"] by (intro exI [of _ m2]) auto
  qed
  obtain t j1 m2 where l: "EMIT_LoadFromEffectiveAddress sz 0xff (push_bit 3 mode OR r) 0 True False s p ja = (t, 0, operand_words sz mode r, j1)"
    "opers ({host dn} \<union> {tmp} \<union> ea_updates mode r) ja m (RA_FreeARMRegister t (?f t j1)) m2" "m_mem m2 = m_mem m"
    "live_temps (RA_FreeARMRegister t (?f t j1)) = live_temps ja"
    "cpu (RA_FreeARMRegister t (?f t j1)) m2 ((ea_after mode r (ea_step sz r) R)(dn := R dn)) pc" "?P m2"
    using load_operate [OF c f5 assms(3,4,5,6,7) X, where ro = True and f = ?f and v = "R dn" and P = ?P, OF op] by blast
  let ?j' = "RA_FreeARMRegister tmp (RA_FreeARMRegister t (?f t j1))"
  have o: "opers ({host dn} \<union> ea_updates mode r) j m ?j' m2"
    by (rule opers_temp [OF a]) (use l(2) in \<open>simp add: insert_commute\<close>)
  have lv: "live_temps ?j' = live_temps j" using live_Free_insert [OF tmp(1,3), of "RA_FreeARMRegister t (?f t j1)"] l(4) tmp(6) by simp
  have "dn \<noteq> r + 8" by (rule plus8_ge [OF assms(7,6)])
  then have "(ea_after mode r (ea_step sz r) R)(dn := R dn) = ea_after mode r (ea_step sz r) R" by (auto simp: ea_after_def)
  then have "cpu ?j' m2 (ea_after mode r (ea_step sz r) R) pc" using cpu_Free [OF l(5)] by simp
  then show ?thesis using o lv l(1,3,6) tmp(7) unfolding Free_commute [of tmp] Let_def by blast
qed

lemma cmp_tail_effect:
  assumes "after_advance j1 m1 j2 m2" "um < 16" "\<forall>f. host_flag_sub m1 f = c f"
  shows "\<exists>m3. effect {} 15 j2 m2 (update_flags_cmp um j2) m3 \<and> m_mem m3 = m_mem m2 \<and> cc_live j2 (update_flags_cmp um j2) \<and>
    (\<forall>f. in_mask f um \<longrightarrow> ccf (update_flags_cmp um j2) m3 f = c f)"
proof -
  note w2 = assms(1) [unfolded after_advance_def]
  have "um AND SR_X = 0" using less16_no_X [OF assms(2)] by (simp add: in_mask_Xf SR_X_def)
  then have u: "update_flags_cmp um j2 = update_flags_sub um j2" by (rule update_flags_cmp_sub)
  have f3: "free_temps 3 j2" by (rule free_temps_mono [of 5]) (use w2 in simp_all)
  have um: "um < 32" using assms(2) by (rule less_trans) simp
  obtain m3 where 3: "effect {} (um OR 15) j2 m2 (update_flags_sub um j2) m3" "m_mem m3 = m_mem m2"
    "\<forall>f. in_mask f um \<longrightarrow> ccf (update_flags_sub um j2) m3 f = host_flag_sub m2 f"
    "um \<noteq> 0 \<longrightarrow> cc_live j2 (update_flags_sub um j2)" "um = 0 \<longrightarrow> update_flags_sub um j2 = j2"
    using update_flags_sub_effect [OF _ _ f3 um, of m2] w2 by blast
  have "in_mask f 15" if "in_mask f (um OR 15)" for f
    using that less16_no_X [OF assms(2)] outside_nzvc [of f um] in_nzvc [of f] by blast
  then have "effect {} 15 j2 m2 (update_flags_sub um j2) m3" by (rule effect_mono [OF 3(1) subset_refl])
  moreover have "cc_live j2 (update_flags_sub um j2)"
    using 3(4,5) cc_live_refl [of j2] w2 by (cases "um = 0") simp_all
  moreover have "host_flag_sub m2 f = c f" for f
    using assms(3) [rule_format, of f] w2 by (cases f) simp_all
  ultimately show ?thesis unfolding u using 3(2,3) by auto
qed

text \<open>The end of a comparison: only the flags, the address registers and the program counter change.\<close>

definition compared :: "(u8 \<Rightarrow> u32) \<Rightarrow> (ccflag \<Rightarrow> bool) \<Rightarrow> nat \<Rightarrow> m68k \<Rightarrow> m68k" where
  "compared R F w \<sigma> =
    \<sigma>\<lparr>gpr := R, sr_flag := F(Xf := sr_flag \<sigma> Xf), pcount := pcount \<sigma> + of_nat (2 * (w + 1))\<rparr>"

lemma compare_finish:
  assumes "ordinary_code s" "emulates s j m \<sigma>" "p = ucast (pcount \<sigma>)" "opcode = code16 s p"
    "opers S j m j1 m1" "S \<inter> live_temps j = {}" "m_mem m1 = m_mem m" "live_temps j1 = live_temps j" "cpu j1 m1 R (pcount \<sigma>)"
    "\<forall>f. host_flag_sub m1 f = F f" "w \<le> 2" "uint (pcount \<sigma>) + 6 < 2 ^ 32" "SR_sets opcode = 15"
    "M68K_GetINSNLength s p = w + 1" "\<not> M68K_IsBranch s p"
  shows "\<exists>m'. let j' = update_flags_cmp (M68K_GetSRMask c s p) (EMIT_AdvancePC (of_nat (2 * (w + 1))) j1)
    in at (p + 2) w = ucast (pcount (compared R F w \<sigma>)) \<and> produces j m j' m' \<and> emulates s j' m' (compared R F w \<sigma>)"
proof -
  let ?um = "M68K_GetSRMask c s p" and ?n = "compared R F w \<sigma>"
  let ?j' = "update_flags_cmp ?um (EMIT_AdvancePC (of_nat (2 * (w + 1))) j1)"
  note em = assms(2) [unfolded emulates_def]
  have e: "ra_wf j" "coherent j m" "enough_temps j" using em by blast+
  have um: "?um < 16" using GetSRMask_less_16 assms(4,13) by simp
  note b = balanced_effect [OF assms(5,8,6) e(1,2)]
  have tail: "\<exists>m3. effect {} 15 j2 m2 (update_flags_cmp ?um j2) m3 \<and> m_mem m3 = m_mem m2 \<and> cc_live j2 (update_flags_cmp ?um j2) \<and>
      (\<forall>f. in_mask f ?um \<longrightarrow> ccf (update_flags_cmp ?um j2) m3 f = F f)"
    if "after_advance j1 m1 j2 m2" for j2 m2
    by (rule cmp_tail_effect [OF that um assms(10)])
  obtain m' where f: "effect (insert REG_PC S) 15 j m ?j' m'" "m_mem m' = m_mem m1" "enough_temps ?j'"
    "cpu ?j' m' R (pcount \<sigma> + of_nat (2 * (w + 1)))" "\<forall>f. in_mask f ?um \<longrightarrow> ccf ?j' m' f = F f"
    using finish_insn [OF assms(9) b e(3,1) assms(11) tail] by blast
  have st: "gpr ?n = R" "pcount ?n = pcount \<sigma> + of_nat (2 * (w + 1))" "ram ?n = ram \<sigma>" "sr_flag ?n = F(Xf := sr_flag \<sigma> Xf)"
    by (simp_all add: compared_def)
  have p': "at (p + 2) w = ucast (pcount ?n)" "at p (w + 1) = ucast (pcount ?n)"
    using code_pointer [OF assms(12,11)] unfolding st assms(3) by blast+
  have "produces j m ?j' m' \<and> emulates s ?j' m' ?n"
    by (rule emulates_step [OF assms(1-4,15) _ f(1) _ f(3), where c = c])
      (use f(2,4,5) assms(7) em less16_no_X [OF um] in \<open>auto simp: assms(13,14) p'(2) [simplified] st in_nzvc\<close>)
  then show ?thesis using p'(1) by (intro exI [of _ m']) (simp add: Let_def)
qed

lemma cmp_facts:
  assumes "into_register 11 s \<sigma>" "p = ucast (pcount \<sigma>)" "opcode = code16 s p"
  shows "SR_sets opcode = 15" "M68K_GetINSNLength s p = insn_words opcode" "\<not> M68K_IsBranch s p"
    "\<exists>row. InsnTable_entry InsnTable_B (unat (opcode AND 0x1ff)) = Some row \<and> od_Emit row \<in> {H_CMP_reg, H_CMP_mem, H_CMP_ext}"
proof -
  note fm = assms(1) [unfolded into_register_def Let_def, folded assms(2,3)]
  have d: "unat (drop_bit 8 opcode AND 1) = 0" "drop_bit 6 opcode AND 3 \<noteq> 3" "drop_bit 12 opcode = 11" using fm by simp_all
  show "\<not> M68K_IsBranch s p" using branch_groups [of s p] d(3) assms(3) by auto
  have ok: "operand_ok (operand_size opcode) (ea_mode opcode) (reg_field opcode) (\<lambda>i. code16 s (at (p + 2) i)) (gpr \<sigma>) (pcount \<sigma> + 2)"
    using fm by simp
  have rows: "plain_rows sr_NZVC {H_CMP_reg, H_CMP_mem, H_CMP_ext} InsnTable_B 0 (\<lambda>_ _ _. True)"
    by (rule plain_rowsI, elim disjE) (simp_all add: InsnTable_entry_def InsnTable_B_def plain_row_def)
  note B = plain_facts [OF d(1,2) assms(3) ok rows TrueI]
  show "\<exists>row. InsnTable_entry InsnTable_B (unat (opcode AND 0x1ff)) = Some row \<and> od_Emit row \<in> {H_CMP_reg, H_CMP_mem, H_CMP_ext}" by (rule B(3))
  show "SR_sets opcode = 15" using d(3) B(1) by (simp add: SR_sets_def SR_flags_def SRCheck_def GetSR_LineB_def)
  show "M68K_GetINSNLength s p = insn_words opcode"
    using d(3) B(2) unfolding M68K_GetINSNLength_def Let_def assms(3) [symmetric] by (simp add: M68K_GetLineBLength_def)
qed

section \<open>Properties\<close>

lemma CMP_simulated:
  assumes "ordinary_code s" "emulates s j m \<sigma>" "into_register 11 s \<sigma>" "opcode = code16 s (ucast (pcount \<sigma>))"
  shows "\<exists>j' m'. EMIT_CMP_ext c s opcode (ucast (pcount \<sigma>) + 2) j = (ucast (pcount (CMP_step s \<sigma>)), j') \<and>
    produces j m j' m' \<and> emulates s j' m' (CMP_step s \<sigma>)"
proof -
  let ?p = "ucast (pcount \<sigma>) :: u64" and ?sz = "operand_size opcode" and ?mode = "ea_mode opcode" and ?r = "reg_field opcode"
  let ?w = "operand_words ?sz ?mode ?r" and ?um = "M68K_GetSRMask c s ?p" and ?n = "CMP_step s \<sigma>" and ?dn = "field_9 opcode"
  let ?R = "ea_after ?mode ?r (ea_step ?sz ?r) (gpr \<sigma>)" and ?S = "{host ?dn} \<union> ea_updates ?mode ?r"
  note rf = register_form [OF assms(2-4)] and fa = cmp_facts [OF assms(3) refl assms(4)] and em = assms(2) [unfolded emulates_def]
  note fields = opcode_fields [of opcode]
  have w: "ra_wf j" "coherent j m" "enough_temps j" using em by blast+
  define y where "y = operand_value ?sz ?mode ?r (\<lambda>i. code16 s (at (?p + 2) i)) (gpr \<sigma>) (pcount \<sigma> + 2) (m_mem m)"
  define cmp where "cmp = (\<lambda>tmp t j. if ?sz = 4 then EMIT_rf [subs_reg 31 (host ?dn) t LSL 0] j
    else EMIT_rf [lsl_i tmp (host ?dn) (32 - 8 * ?sz), subs_reg 31 tmp t LSL (32 - 8 * ?sz)] j)"
  obtain tmp ja t j0 m1 where l: "RA_AllocARMRegister j = (tmp, ja)"
    "EMIT_LoadFromEffectiveAddress ?sz 0xff (push_bit 3 ?mode OR ?r) 0 True False s (?p + 2) ja = (t, 0, ?w, j0)"
    and "let j' = RA_FreeARMRegister t (RA_FreeARMRegister tmp (cmp tmp t j0))
     in opers ?S j m j' m1 \<and> m_mem m1 = m_mem m \<and> live_temps j' = live_temps j \<and> cpu j' m1 ?R (pcount \<sigma>) \<and>
       (\<forall>f. host_flag_sub m1 f = sub_ccr (unat ?sz) (gpr \<sigma> ?dn) y f)"
    using compare_operand [OF rf(5,3,1,4) y_def fields(4,3)] unfolding cmp_def by blast
  then obtain j1 where j1: "j1 = RA_FreeARMRegister t (RA_FreeARMRegister tmp (cmp tmp t j0))" "opers ?S j m j1 m1" "m_mem m1 = m_mem m"
    "live_temps j1 = live_temps j" "cpu j1 m1 ?R (pcount \<sigma>)" "\<forall>f. host_flag_sub m1 f = sub_ccr (unat ?sz) (gpr \<sigma> ?dn) y f"
    unfolding Let_def by blast
  let ?j' = "update_flags_cmp ?um (EMIT_AdvancePC (of_nat (2 * (?w + 1))) j1)"
  have n: "compared ?R (sub_ccr (unat ?sz) (gpr \<sigma> ?dn) y) ?w \<sigma> = ?n"
    by (simp add: CMP_step_def compared_def Let_def assms(4) [symmetric] y_def insn_words_def rf(6))
  have l1: "M68K_GetINSNLength s ?p = ?w + 1" using fa(2) by (simp add: insn_words_def)
  obtain m' where "at (?p + 2) ?w = ucast (pcount ?n)" "produces j m ?j' m'" "emulates s ?j' m' ?n"
    using compare_finish [OF assms(1,2) refl assms(4) j1(2) ea_updates_live j1(3-6) operand_words_le rf(7) fa(1) l1 fa(3), where c = c]
    unfolding n Let_def by blast
  moreover have "EMIT_CMP_ext c s opcode (?p + 2) j = (at (?p + 2) ?w, ?j')"
    using rf(1) l by (auto simp: EMIT_CMP_ext_def j1(1) cmp_def fields(1) Let_def)
  ultimately show ?thesis by auto
qed

text \<open>
  C7. \<open>EMIT_CMP_ext\<close> is correct, \<open>CMP <ea>,Dn\<close>: run on a host that represents the emulated
  processor, the code it emits changes no register but an address register that its addressing
  mode updates, and leaves every live flag as the manual gives it, X as it was.
\<close>

theorem EMIT_CMP_ext_simulates:
  assumes "ordinary_code s" "emulates s j m \<sigma>" "into_register 11 s \<sigma>" "opcode = code16 s (ucast (pcount \<sigma>))"
  shows "\<exists>j' m'. EMIT_CMP_ext c s opcode (ucast (pcount \<sigma>) + 2) j = (ucast (pcount (CMP_step s \<sigma>)), j') \<and>
    produces j m j' m' \<and> emulates s j' m' (CMP_step s \<sigma>)"
  by (rule CMP_simulated [OF assms])

theorem EMIT_CMP_ext_simulates_witness:
  "\<exists>j' m'. EMIT_CMP_ext 0 (filled 0xb0 0x41) 0xb041 2 (jit_init 64) = (2, j') \<and> run (tc_code j') two_machine = Some m' \<and>
    rdX m' (host 0) = 0x7fff"
proof -
  let ?s = "filled 0xb0 0x41"
  have c: "code16 ?s p = (if bit p 0 then 0x41b0 else 0xb041)" for p by (simp add: filled_code)
  have x: "code16 ?s 0 = 0xb041" by (simp add: c)
  have o: "ordinary_code ?s" by (simp add: ordinary_code_def c)
  have f: "operand_size 0xb041 = 2" "ea_mode 0xb041 = 0" "reg_field 0xb041 = 1" "field_9 0xb041 = 0"
    by (simp_all add: operand_size_def ea_mode_def reg_field_def field_9_def)
  have i: "into_register 11 ?s two_cpu"
    by (simp add: into_register_def operand_ok_def ea_direct_def two_cpu_def x f)
  have "gpr (CMP_step ?s two_cpu) 0 = 0x7fff" "pcount (CMP_step ?s two_cpu) = 2"
    by (simp_all add: CMP_step_def two_cpu_def x f insn_words_def operand_words_def operand_direct_def direct_words_def
      two_regs_def ea_after_def Let_def)
  moreover obtain j' m' where q: "EMIT_CMP_ext 0 ?s 0xb041 (ucast (pcount two_cpu) + 2) (jit_init 64) =
      (ucast (pcount (CMP_step ?s two_cpu)), j')"
    "produces (jit_init 64) two_machine j' m'" "emulates ?s j' m' (CMP_step ?s two_cpu)"
    using EMIT_CMP_ext_simulates [OF o two_emulates i, of "0xb041" 0] x by (auto simp: two_cpu_def)
  moreover have "run (tc_code j') two_machine = Some m'" using q(2) by (simp add: produces_def jit_init_def)
  moreover have "reg_is m' (host 0) (gpr (CMP_step ?s two_cpu) 0)"
    using q(3) m68k_regsD(1) [of m' _ 0] by (simp add: emulates_def cpu_def)
  ultimately show ?thesis by (auto simp: two_cpu_def reg_is_def)
qed

end
