(* ===== verification/Cmpa_Step.thy ===== *)
theory Cmpa_Step
  imports Cmp_Step Insn_Add
begin

text \<open>
  The simulation for \<open>CMPA <ea>,An\<close>, which compares long words after a sign extension, and
  \<open>CMPM (Ay)+,(Ax)+\<close>, which compares two operands in memory.
\<close>

section \<open>Operands\<close>

text \<open>A source operand, sign-extended or not.\<close>

lemma load_any_operand:
  assumes "cpu j m R pc" "free_temps 5 j" "sz \<in> {1, 2, 4}" "operand_ok sz mode r (\<lambda>i. code16 s (at p i)) R (pc + 2)"
  shows "\<exists>t j' m'. EMIT_LoadFromEffectiveAddress (if sx then sz OR 0x80 else sz) 0xff (push_bit 3 mode OR r) 0 ro False s p j =
      (t, 0, operand_words sz mode r, j') \<and>
    acts (ea_updates mode r) j m j' m' \<and> m_mem m' = m_mem m \<and> is_reg t \<and> held t j j' \<and>
    reg_is m' t (extended (unat sz) sx (operand_value sz mode r (\<lambda>i. code16 s (at p i)) R (pc + 2) (m_mem m))) \<and>
    cpu j' m' (ea_after mode r (ea_step sz r) R) pc"
proof (cases "ea_direct sz mode r")
  case True
  then have o: "operand_direct mode r" "ea_updates mode r = {}" "\<And>k. ea_after mode r k R = R"
    by (auto simp: ea_direct_def operand_direct_def ea_updates_def ea_after_def)
  have f: "free_temps 1 j" using assms(2) by (rule free_temps_mono) simp
  obtain t j' m' where "EMIT_LoadFromEffectiveAddress (if sx then sz OR 0x80 else sz) 0xff (push_bit 3 mode OR r) 0 ro False s p j =
      (t, 0, 0 + direct_words sz mode, j')" "acts {} j m j' m'" "m_mem m' = m_mem m"
    "reg_is m' t (extended (unat sz) sx (direct_operand sz mode r (\<lambda>i. code16 s (at p (0 + i))) R))"
    "if mode < 2 \<and> ro \<and> (sx \<longrightarrow> sz = 4) then t = host (8 * mode + r) \<and> j' = j
     else t \<in> arm_temps - live_temps j \<and> live_temps j' = insert t (live_temps j)" "cpu j' m' R pc"
    using load_direct_operand [OF assms(1) f assms(3) True] by blast
  then show ?thesis using o host_reg(1,3) arm_temps_is_reg
    by (intro exI [of _ t] exI [of _ j'] exI [of _ m'])
      (auto simp: operand_words_def operand_value_def held_def split: if_splits)
next
  case False
  then have k: "ea_memory mode r (\<lambda>i. code16 s (at p (0 + i)))"
    "ea_fits mode r (\<lambda>i. code16 s (at p (0 + i))) R (pc + of_nat (2 + 2 * 0)) (ea_step sz r)"
    using assms(4) by (simp_all add: operand_ok_def)
  then have o: "\<not> operand_direct mode r" by (auto simp: ea_memory_def operand_direct_def)
  have e: "(0 :: nat) < 60" by simp
  show ?thesis
    using load_memory_operand [OF assms(1,2,3) e k, where sx = sx and has_imm = False and ro = ro] o arm_temps_is_reg
    by (fastforce simp: operand_words_def operand_value_def loaded_def held_def)
qed

text \<open>What a table says of an opcode, given its row.\<close>

lemma row_facts:
  assumes "InsnTable_entry t (unat (opcode AND 0x1ff)) = Some row" "opcode = code16 s p" "od_BaseLength row = 1"
    "od_HasEA row = 0 \<longrightarrow> w = 0" "od_HasEA row \<noteq> 0 \<longrightarrow> SR_GetEALength s (p + 2) (ea_field opcode) (od_OpSize row) = w"
  shows "ucast (table_SR t (unat (opcode AND 0x1ff))) AND 0x1f = (ucast (od_SRSets row) AND 0x1f :: u8)"
    "table_length t 0x1ff s p = w + 1"
proof -
  have "(ucast (push_bit 16 x OR ucast sets :: u32) :: u8) AND mask 5 = ucast sets AND mask 5" for x and sets :: u16
    by (rule bit_word_eqI) (auto simp: bit_simps)
  moreover have "(0x1f :: u8) = mask 5" by (simp add: mask_eq_exp_minus_1)
  ultimately show "ucast (table_SR t (unat (opcode AND 0x1ff))) AND 0x1f = (ucast (od_SRSets row) AND 0x1f :: u8)"
    using assms(1) unfolding table_SR_def by simp
  have a: "at p (Suc 0) = p + 2" by (simp add: at_def)
  show "table_length t 0x1ff s p = w + 1"
    using assms(1,3-5) unfolding table_length_def Let_def assms(2) [symmetric] by (auto simp: a ea_field_def)
qed

section \<open>CMPA\<close>

definition cmpa_size :: "u16 \<Rightarrow> u8" where
  "cmpa_size opcode = (if drop_bit 8 opcode AND 1 \<noteq> 0 then 4 else 2)"

definition CMPA_step :: "cache_sys \<Rightarrow> m68k \<Rightarrow> m68k" where
  "CMPA_step s \<sigma> =
    (let p = ucast (pcount \<sigma>); opcode = code16 s p; sz = cmpa_size opcode; mode = ea_mode opcode; r = reg_field opcode;
         y = operand_value sz mode r (\<lambda>i. code16 s (at (p + 2) i)) (gpr \<sigma>) (pcount \<sigma> + 2) (ram \<sigma>);
         R = ea_after mode r (ea_step sz r) (gpr \<sigma>)
     in compared R (sub_ccr 4 (R (8 + field_9 opcode)) (if sz = 2 then signed_take_bit 15 y else y)) (operand_words sz mode r) \<sigma>)"

definition compares_address :: "cache_sys \<Rightarrow> m68k \<Rightarrow> bool" where
  "compares_address s \<sigma> \<longleftrightarrow>
    (let p = ucast (pcount \<sigma>); opcode = code16 s p
     in drop_bit 12 opcode = 11 \<and> drop_bit 6 opcode AND 3 = 3 \<and>
        operand_ok (cmpa_size opcode) (ea_mode opcode) (reg_field opcode) (\<lambda>i. code16 s (at (p + 2) i)) (gpr \<sigma>) (pcount \<sigma> + 2) \<and>
        uint (pcount \<sigma>) + 6 < 2 ^ 32)"

lemma compare_address:
  assumes "cpu j m R pc" "free_temps 5 j" "sz = 2 \<or> sz = 4" "operand_ok sz mode r (\<lambda>i. code16 s (at p i)) R (pc + 2)"
    "y = operand_value sz mode r (\<lambda>i. code16 s (at p i)) R (pc + 2) (m_mem m)" "k < 16" "R' = ea_after mode r (ea_step sz r) R"
  shows "\<exists>t j1 m2. (if sz = 4 then EMIT_LoadFromEffectiveAddress sz 0xff (push_bit 3 mode OR r) 0 True False s p j
      else EMIT_LoadFromEffectiveAddress (0x80 OR sz) 0xff (push_bit 3 mode OR r) 0 False False s p j) = (t, 0, operand_words sz mode r, j1) \<and>
    (let j' = RA_FreeARMRegister t (EMIT_rf [cmp_reg (host k) t LSL 0] j1)
     in opers (ea_updates mode r) j m j' m2 \<and> m_mem m2 = m_mem m \<and> live_temps j' = live_temps j \<and> cpu j' m2 R' pc \<and>
       (\<forall>f. host_flag_sub m2 f = sub_ccr 4 (R' k) (if sz = 2 then signed_take_bit 15 y else y) f))"
proof -
  let ?y = "if sz = 2 then signed_take_bit 15 y else y" and ?U = "ea_updates mode r"
  have sz: "sz \<in> {1, 2, 4}" using assms(3) by blast
  obtain t j1 m1 where 1: "EMIT_LoadFromEffectiveAddress (if sz = 2 then sz OR 0x80 else sz) 0xff (push_bit 3 mode OR r) 0 (sz = 4) False s p j =
      (t, 0, operand_words sz mode r, j1)" "acts ?U j m j1 m1" "m_mem m1 = m_mem m" "is_reg t" "held t j j1"
    "reg_is m1 t (extended (unat sz) (sz = 2) y)" "cpu j1 m1 R' pc"
    using load_any_operand [OF assms(1,2) sz assms(4), where sx = "sz = 2" and ro = "sz = 4"] unfolding assms(5,7) by blast
  have y: "extended (unat sz) (sz = 2) y = ?y" using assms(3) by (auto simp: extended_def)
  have d: "reg_is m1 (host k) (R' k)" using 1(7) m68k_regsD(1) [of m1 R' k] assms(6) by (simp add: cpu_def)
  have z: "(0 :: u8) < 32" by simp
  obtain m2 where 2: "opers {} j1 m1 (EMIT [subs_reg 31 (host k) t LSL 0] j1) m2" "m_mem m2 = m_mem m1"
    "\<forall>f. host_flag_sub m2 f = host_flag_sub (add_flags (R' k) (NOT (push_bit (unat (0 :: u8)) ?y)) True m1) f"
    using subs_zero_opers [OF host_reg(1) 1(4) z d 1(6) [unfolded y]] by blast
  let ?j2 = "EMIT_rf [cmp_reg (host k) t LSL 0] j1"
  let ?j' = "RA_FreeARMRegister t ?j2"
  have lv: "live_temps ?j' = live_temps j" by (rule held_live) (use 1(5) in \<open>simp add: held_def\<close>)
  have "opers ?U j1 m1 ?j2 m2" using opers_mono [OF 2(1), of ?U] by (simp add: EMIT_rf_RESET cmp_reg_def)
  then have "opers ?U j m ?j2 m2" by (rule opers_trans [OF acts_opers [OF 1(2)]])
  moreover have "t \<notin> live_temps j" using 1(5) live_temps_arm by (auto simp: held_def)
  ultimately have o: "opers ?U j m ?j' m2" by (rule opers_Free)
  have "cpu ?j2 m2 R' pc"
  proof (rule cpu_kept [OF 1(7)])
    fix x assume "x \<in> insert REG_PC (host ` {k. k < 16})"
    then have "x \<notin> arm_temps" using host_reg(3) by (auto simp: arm_temps_def REG_PC_def)
    then show "rdX m2 x = rdX m1 x" using opers_keeps [OF 2(1)] by simp
  qed (simp add: EMIT_rf_RESET)
  then have c: "cpu ?j' m2 R' pc" by (rule cpu_Free)
  have "host_flag_sub m2 f = sub_ccr 4 (R' k) ?y f" for f using 2(3) sub_host_flags [of 4 "R' k" ?y m1 f] by simp
  then show ?thesis using 1(1,3) 2(2) o lv c assms(3) unfolding Let_def
    by (intro exI [of _ t] exI [of _ j1] exI [of _ m2]) (auto simp: or.commute)
qed

lemma cmpa_rows:
  assumes "b = 0 \<or> b = 1" "mode < 8" "r < 8" "\<not> (mode = 7 \<and> 4 < r)"
  shows "\<exists>row. InsnTable_entry InsnTable_B (256 * b + 64 * 3 + 8 * mode + r) = Some row \<and> od_SRSets row = sr_NZVC \<and> od_BaseLength row = 1 \<and>
    od_OpSize row = (if b = 1 then 4 else 2) \<and> (od_HasEA row = 0 \<longrightarrow> mode < 5) \<and> od_Emit row \<in> {H_CMPA_reg, H_CMPA_mem, H_CMPA_ext}"
proof -
  have "mode = 0 \<or> mode = 1 \<or> mode = 2 \<or> mode = 3 \<or> mode = 4 \<or> mode = 5 \<or> mode = 6 \<or> mode = 7" using assms(2) by linarith
  with assms(1) show ?thesis using assms(3,4)
    by (elim disjE) (simp_all add: InsnTable_entry_def InsnTable_B_def)
qed

lemma cmpa_facts:
  assumes "compares_address s \<sigma>" "p = ucast (pcount \<sigma>)" "opcode = code16 s p"
  shows "SR_sets opcode = 15" "M68K_GetINSNLength s p = operand_words (cmpa_size opcode) (ea_mode opcode) (reg_field opcode) + 1"
    "\<not> M68K_IsBranch s p"
    "\<exists>row. InsnTable_entry InsnTable_B (unat (opcode AND 0x1ff)) = Some row \<and> od_Emit row \<in> {H_CMPA_reg, H_CMPA_mem, H_CMPA_ext}"
proof -
  note fm = assms(1) [unfolded compares_address_def Let_def, folded assms(2,3)]
  let ?b = "unat (drop_bit 8 opcode AND 1)" and ?m = "unat (ea_mode opcode)" and ?r = "unat (reg_field opcode)" and ?sz = "cmpa_size opcode"
  let ?w = "operand_words ?sz (ea_mode opcode) (reg_field opcode)"
  have d: "drop_bit 12 opcode = 11" "unat (drop_bit 6 opcode AND 3) = 3" using fm by simp_all
  show "\<not> M68K_IsBranch s p" using branch_groups [of s p] d(1) assms(3) by auto
  have ok: "operand_ok ?sz (ea_mode opcode) (reg_field opcode) (\<lambda>i. code16 s (at (p + 2) i)) (gpr \<sigma>) (pcount \<sigma> + 2)" using fm by blast
  have sz: "?sz = 1 \<or> ?sz = 2 \<or> ?sz = 4" by (simp add: cmpa_size_def)
  note l = operand_length [OF ok sz ea_parts]
  have "drop_bit 8 opcode AND 1 = 0 \<or> drop_bit 8 opcode AND 1 = 1" by (auto simp: and_one_eq)
  then have b: "?b = 0 \<or> ?b = 1" "?sz = (if ?b = 1 then 4 else 2)" by (auto simp: cmpa_size_def)
  have mr: "?m < 8" "?r < 8" using opcode_fields(2,3) [of opcode] by (simp_all add: word_less_nat_alt)
  have n: "\<not> (?m = 7 \<and> 4 < ?r)" using l(3) by (auto simp: word_unat_eq_iff word_less_nat_alt)
  have "unat (opcode AND 0x1ff) = 256 * ?b + 64 * 3 + 8 * ?m + ?r" unfolding index_fields d(2) by (rule refl)
  then obtain row where row: "InsnTable_entry InsnTable_B (unat (opcode AND 0x1ff)) = Some row" "od_SRSets row = sr_NZVC" "od_BaseLength row = 1"
    "od_OpSize row = ?sz" "od_HasEA row = 0 \<longrightarrow> ?m < 5" "od_Emit row \<in> {H_CMPA_reg, H_CMPA_mem, H_CMPA_ext}"
    using cmpa_rows [OF b(1) mr n, folded b(2)] by (elim exE conjE) simp
  then show "\<exists>row. InsnTable_entry InsnTable_B (unat (opcode AND 0x1ff)) = Some row \<and> od_Emit row \<in> {H_CMPA_reg, H_CMPA_mem, H_CMPA_ext}" by blast
  have "?w = 0" if "od_HasEA row = 0"
  proof -
    have m: "ea_mode opcode < 5" using that row(5) by (simp add: word_less_nat_alt)
    have "ea_mode opcode < 7" using m by (rule less_trans) simp
    then show ?thesis using m by (auto simp: operand_words_def direct_words_def ea_words_def)
  qed
  then have w: "od_HasEA row = 0 \<longrightarrow> ?w = 0" "od_HasEA row \<noteq> 0 \<longrightarrow> SR_GetEALength s (p + 2) (ea_field opcode) (od_OpSize row) = ?w"
    using l(1) row(4) by simp_all
  note rf = row_facts [OF row(1) assms(3) row(3) w]
  show "SR_sets opcode = 15" using d(1) rf(1) row(2) by (simp add: SR_sets_def SR_flags_def SRCheck_def GetSR_LineB_def)
  show "M68K_GetINSNLength s p = ?w + 1"
    using d(1) rf(2) unfolding M68K_GetINSNLength_def Let_def assms(3) [symmetric] by (simp add: M68K_GetLineBLength_def)
qed

lemma CMPA_simulated:
  assumes "ordinary_code s" "emulates s j m \<sigma>" "compares_address s \<sigma>" "opcode = code16 s (ucast (pcount \<sigma>))"
  shows "\<exists>j' m'. EMIT_CMPA_ext c s opcode (ucast (pcount \<sigma>) + 2) j = (ucast (pcount (CMPA_step s \<sigma>)), j') \<and>
    produces j m j' m' \<and> emulates s j' m' (CMPA_step s \<sigma>)"
proof -
  let ?p = "ucast (pcount \<sigma>) :: u64" and ?sz = "cmpa_size opcode" and ?mode = "ea_mode opcode" and ?r = "reg_field opcode"
  let ?w = "operand_words ?sz ?mode ?r" and ?k = "8 + field_9 opcode" and ?R = "ea_after ?mode ?r (ea_step ?sz ?r) (gpr \<sigma>)"
  note fm = assms(3) [unfolded compares_address_def Let_def, folded assms(4)] and em = assms(2) [unfolded emulates_def]
  note fa = cmpa_facts [OF assms(3) refl assms(4)] and fields = opcode_fields [of opcode]
  have c: "cpu j m (gpr \<sigma>) (pcount \<sigma>)" "enough_temps j" "m_mem m = ram \<sigma>" using em by blast+
  have f: "free_temps 5 j" by (rule free_temps_mono [OF enough_temps_free [OF c(2)]]) simp
  have sz: "?sz = 2 \<or> ?sz = 4" by (simp add: cmpa_size_def)
  have ok: "operand_ok ?sz ?mode ?r (\<lambda>i. code16 s (at (?p + 2) i)) (gpr \<sigma>) (pcount \<sigma> + 2)" "uint (pcount \<sigma>) + 6 < 2 ^ 32" using fm by blast+
  have k: "?k < 16" using plus8_less [OF fields(4)] by (simp add: add.commute)
  define y where "y = operand_value ?sz ?mode ?r (\<lambda>i. code16 s (at (?p + 2) i)) (gpr \<sigma>) (pcount \<sigma> + 2) (m_mem m)"
  obtain t j0 m1 where 1: "(if ?sz = 4 then EMIT_LoadFromEffectiveAddress ?sz 0xff (push_bit 3 ?mode OR ?r) 0 True False s (?p + 2) j
      else EMIT_LoadFromEffectiveAddress (0x80 OR ?sz) 0xff (push_bit 3 ?mode OR ?r) 0 False False s (?p + 2) j) = (t, 0, ?w, j0)"
    and "let j' = RA_FreeARMRegister t (EMIT_rf [cmp_reg (host ?k) t LSL 0] j0)
     in opers (ea_updates ?mode ?r) j m j' m1 \<and> m_mem m1 = m_mem m \<and> live_temps j' = live_temps j \<and> cpu j' m1 ?R (pcount \<sigma>) \<and>
       (\<forall>f. host_flag_sub m1 f = sub_ccr 4 (?R ?k) (if ?sz = 2 then signed_take_bit 15 y else y) f)"
    using compare_address [OF c(1) f sz ok(1) y_def k refl] by blast
  then obtain j1 where j1: "j1 = RA_FreeARMRegister t (EMIT_rf [cmp_reg (host ?k) t LSL 0] j0)" "opers (ea_updates ?mode ?r) j m j1 m1"
    "m_mem m1 = m_mem m" "live_temps j1 = live_temps j" "cpu j1 m1 ?R (pcount \<sigma>)"
    "\<forall>f. host_flag_sub m1 f = sub_ccr 4 (?R ?k) (if ?sz = 2 then signed_take_bit 15 y else y) f"
    unfolding Let_def by blast
  have S: "ea_updates ?mode ?r \<inter> live_temps j = {}" using ea_updates_live [of 0 ?mode ?r j] by blast
  let ?j' = "update_flags_cmp (M68K_GetSRMask c s ?p) (EMIT_AdvancePC (of_nat (2 * (?w + 1))) j1)"
  have n: "compared ?R (sub_ccr 4 (?R ?k) (if ?sz = 2 then signed_take_bit 15 y else y)) ?w \<sigma> = CMPA_step s \<sigma>"
    by (simp add: CMPA_step_def Let_def assms(4) [symmetric] y_def c(3))
  obtain m' where "at (?p + 2) ?w = ucast (pcount (CMPA_step s \<sigma>))" "produces j m ?j' m'" "emulates s ?j' m' (CMPA_step s \<sigma>)"
    using compare_finish [OF assms(1,2) refl assms(4) j1(2) S j1(3-6) operand_words_le ok(2) fa(1-3), where c = c]
    unfolding n Let_def by blast
  moreover have "EMIT_CMPA_ext c s opcode (?p + 2) j = (at (?p + 2) ?w, ?j')"
    unfolding EMIT_CMPA_ext_def Let_def cmpa_size_def [symmetric] fields(1) 1 by (simp add: j1(1))
  ultimately show ?thesis by auto
qed

section \<open>CMPM\<close>

text \<open>The operand at an address register that moves on after the access.\<close>

lemma postincrement_load:
  assumes "cpu j m R pc" "free_temps 1 j" "sz \<in> {1, 2, 4}" "r < 8" "in_range (R (r + 8)) (uint (ea_step sz r))"
  shows "\<exists>t j' m'. EMIT_LoadFromEffectiveAddress sz 0xff (0x18 OR r) e True False s p j = (t, 0, e, j') \<and>
    acts {host (r + 8)} j m j' m' \<and> m_mem m' = m_mem m \<and> t \<in> arm_temps - live_temps j \<and> live_temps j' = insert t (live_temps j) \<and>
    reg_is m' t (rd_be (m_mem m) (ucast (R (r + 8))) (unat sz)) \<and> cpu j' m' (ea_after 3 r (ea_step sz r) R) pc"
proof -
  let ?k = "r + 8" and ?R = "ea_after 3 r (ea_step sz r) R"
  obtain t ja where a: "alloc_result j t ja" using free_temps_1 [OF assms(2)] by blast
  note ra = alloc_reg [OF a]
  have t: "t \<in> arm_temps - live_temps j" "live_temps ja = insert t (live_temps j)" "is_reg t" using ra(1,4,6) by simp_all
  have k: "?k < 16" by (rule plus8_less [OF assms(4)])
  have h: "t \<noteq> host ?k" using t(1) host_reg(3) by auto
  have B: "reg_is m (host ?k) (R ?k)" using m68k_regsD(1) [of m R ?k] assms(1) k by (simp add: cpu_def)
  let ?j' = "EMIT (load_postindex sz (host ?k) t False (if r = 7 then 2 else 1)) ja"
  obtain m' where 1: "acts {t, host ?k} ja m ?j' m'" "reg_is m' t (loaded (unat sz) False m (ucast (R ?k)))"
    "reg_is m' (host ?k) (R ?k + ea_step sz r)" "m_mem m' = m_mem m"
    using updating_load_acts(1) [OF assms(3) t(3) host_reg(1) h B assms(5), where sx = False and j = ja] by blast
  have o: "acts {host ?k} j m ?j' m'" by (rule acts_alloc [OF a 1(1)])
  have e: "EMIT_LoadFromEffectiveAddress sz 0xff (0x18 OR r) e True False s p j = (t, 0, e, ?j')"
  proof -
    have m: "(0x18 :: u8) = push_bit 3 3" "(3 :: u8) < 8" by simp_all
    show ?thesis
      using assms(3) unfolding EMIT_LoadFromEffectiveAddress_def Let_def m(1) ea_fields [OF m(2) assms(4)]
      by (auto simp: ra(5) load_from_An_def RA_SetDirtyM68kRegister_def)
  qed
  have R: "?R = R(?k := R ?k + ea_step sz r)" by (simp add: ea_after_def)
  have "cpu ?j' m' ?R pc" unfolding R
    by (rule cpu_write [OF assms(1) _ _ k 1(3), of "{}"]) (use acts_opers [OF o] in simp_all)
  moreover have "live_temps ?j' = insert t (live_temps j)" using t(2) by simp
  ultimately show ?thesis using e o 1(2,4) t(1) by (auto simp: loaded_def extended_def)
qed

text \<open>The comparison leaves its difference in a temporary.\<close>

lemma compare_temp:
  assumes "is_reg dst" "is_reg src" "is_reg tmp" "tmp \<noteq> src" "sz \<in> {1, 2, 4}" "reg_is m dst x" "reg_is m src y"
    "src \<notin> arm_temps - live_temps j"
  shows "\<exists>m'. opers {tmp} j m (if sz = 4 then EMIT_rf [subs_reg tmp dst src LSL 0] j
        else EMIT_rf [lsl_i tmp dst (32 - 8 * sz), subs_reg tmp tmp src LSL (32 - 8 * sz)] j) m' \<and> m_mem m' = m_mem m \<and>
    (\<forall>f. host_flag_sub m' f = sub_ccr (unat sz) x y f)"
proof (cases "sz = 4")
  case True
  have z: "(0 :: u8) < 32" by simp
  obtain m' where m': "opers {tmp} j m (EMIT [subs_reg tmp dst src LSL 0] j) m'" "m_mem m' = m_mem m"
    "\<forall>f. host_flag_sub m' f = host_flag_sub (add_flags x (if True then NOT (push_bit (unat (0 :: u8)) y) else push_bit (unat (0 :: u8)) y) True m) f"
    using sub.opf_opers [OF assms(3,1,2) z, of j m] unfolding reg_is_rdW [OF assms(6)] reg_is_rdW [OF assms(7)] by blast
  have "host_flag_sub (add_flags x (NOT y) True m) f = sub_ccr 4 x y f" for f
    using sub_host_flags [of 4 x y m f] by simp
  then show ?thesis using True m' by (intro exI [of _ m']) (simp add: EMIT_rf_RESET)
next
  case False
  then have s: "sz \<in> {1, 2}" using assms(5) by blast
  let ?k = "32 - 8 * sz" and ?n = "32 - 8 * unat sz"
  have k: "?k < 32" "unat ?k = ?n" "0 < unat sz" "unat sz \<le> 4" using s by auto
  let ?j1 = "EMIT [lsl_i tmp dst ?k] j"
  obtain m1 where 1: "acts {tmp} j m ?j1 m1" "reg_is m1 tmp (push_bit ?n x)" "m_mem m1 = m_mem m"
    using lsl_acts [OF assms(3,1) s, of j m] unfolding reg_is_rdW [OF assms(6)] by blast
  have r: "reg_is m1 src y" using reg_is_keeps [OF 1(1), of src] assms(4,7,8) by auto
  obtain m2 where 2: "opers {tmp} ?j1 m1 (EMIT [subs_reg tmp tmp src LSL ?k] ?j1) m2" "m_mem m2 = m_mem m1"
    "\<forall>f. host_flag_sub m2 f = host_flag_sub (add_flags (push_bit ?n x) (if True then NOT (push_bit ?n y) else push_bit ?n y) True m1) f"
    using sub.opf_opers [OF assms(3,3,2) k(1), of ?j1 m1] unfolding k(2) reg_is_rdW [OF 1(2)] reg_is_rdW [OF r] by blast
  have "opers {tmp} j m (EMIT [subs_reg tmp tmp src LSL ?k] ?j1) m2"
    by (rule opers_trans [OF acts_opers [OF 1(1)] 2(1)])
  then show ?thesis using False 1(3) 2(2,3) sub_host_flags [OF k(3,4)]
    by (intro exI [of _ m2]) (simp add: EMIT_rf_RESET EMIT_Cons [of "lsl_i tmp dst ?k" "[subs_reg tmp tmp src LSL ?k]"])
qed

definition CMPM_step :: "cache_sys \<Rightarrow> m68k \<Rightarrow> m68k" where
  "CMPM_step s \<sigma> =
    (let opcode = code16 s (ucast (pcount \<sigma>)); sz = operand_size opcode; ay = reg_field opcode; ax = field_9 opcode;
         y = rd_be (ram \<sigma>) (ucast (gpr \<sigma> (ay + 8))) (unat sz);
         R = ea_after 3 ay (ea_step sz ay) (gpr \<sigma>);
         x = rd_be (ram \<sigma>) (ucast (R (ax + 8))) (unat sz)
     in compared (ea_after 3 ax (ea_step sz ax) R) (sub_ccr (unat sz) x y) 0 \<sigma>)"

definition compares_memory :: "cache_sys \<Rightarrow> m68k \<Rightarrow> bool" where
  "compares_memory s \<sigma> \<longleftrightarrow>
    (let opcode = code16 s (ucast (pcount \<sigma>)); sz = operand_size opcode; ay = reg_field opcode; ax = field_9 opcode
     in drop_bit 12 opcode = 11 \<and> drop_bit 8 opcode AND 1 = 1 \<and> drop_bit 6 opcode AND 3 \<noteq> 3 \<and> ea_mode opcode = 1 \<and>
        in_range (gpr \<sigma> (ay + 8)) (uint (ea_step sz ay)) \<and>
        in_range (ea_after 3 ay (ea_step sz ay) (gpr \<sigma>) (ax + 8)) (uint (ea_step sz ax)) \<and> uint (pcount \<sigma>) + 6 < 2 ^ 32)"

lemma compare_memory:
  assumes "cpu j m R pc" "free_temps 6 j" "sz \<in> {1, 2, 4}" "ay < 8" "ax < 8" "in_range (R (ay + 8)) (uint (ea_step sz ay))"
    "R1 = ea_after 3 ay (ea_step sz ay) R" "in_range (R1 (ax + 8)) (uint (ea_step sz ax))"
    "y = rd_be (m_mem m) (ucast (R (ay + 8))) (unat sz)" "x = rd_be (m_mem m) (ucast (R1 (ax + 8))) (unat sz)"
  shows "\<exists>tmp ja src j1 dst j2 m3. RA_AllocARMRegister j = (tmp, ja) \<and>
    EMIT_LoadFromEffectiveAddress sz 0xff (0x18 OR ay) 0 True False s p ja = (src, 0, 0, j1) \<and>
    EMIT_LoadFromEffectiveAddress sz 0xff (0x18 OR ax) 0 True False s p j1 = (dst, 0, 0, j2) \<and>
    (let j' = RA_FreeARMRegister dst (RA_FreeARMRegister src (RA_FreeARMRegister tmp
        (if sz = 4 then EMIT_rf [subs_reg tmp dst src LSL 0] j2
         else EMIT_rf [lsl_i tmp dst (32 - 8 * sz), subs_reg tmp tmp src LSL (32 - 8 * sz)] j2)))
     in opers {host (ay + 8), host (ax + 8)} j m j' m3 \<and> m_mem m3 = m_mem m \<and> live_temps j' = live_temps j \<and>
       cpu j' m3 (ea_after 3 ax (ea_step sz ax) R1) pc \<and> (\<forall>f. host_flag_sub m3 f = sub_ccr (unat sz) x y f))"
proof -
  let ?b1 = "host (ay + 8)" and ?b2 = "host (ax + 8)" and ?R2 = "ea_after 3 ax (ea_step sz ax) R1"
  have f6: "free_temps (Suc 5) j" using assms(2) by simp
  obtain tmp ja where a: "alloc_result j tmp ja" and f5: "free_temps 5 ja" using free_temps_alloc [OF f6] by blast
  note ra = alloc_reg [OF a]
  have ca: "cpu ja m R pc" by (rule cpu_kept [OF assms(1)]) (use a in \<open>simp_all add: alloc_result_def\<close>)
  have fa: "free_temps 1 ja" by (rule free_temps_mono [OF f5]) simp
  obtain src j1 m1 where 1: "EMIT_LoadFromEffectiveAddress sz 0xff (0x18 OR ay) 0 True False s p ja = (src, 0, 0, j1)"
    "acts {?b1} ja m j1 m1" "m_mem m1 = m_mem m" "src \<in> arm_temps - live_temps ja" "live_temps j1 = insert src (live_temps ja)"
    "reg_is m1 src y" "cpu j1 m1 R1 pc"
    using postincrement_load [OF ca fa assms(3,4,6), where e = 0 and s = s and p = p] unfolding assms(7,9) by blast
  have "held src ja j1" using 1(4,5) by (simp add: held_def)
  then have "free_temps 4 j1" by (rule held_temps) (use f5 in simp)
  then have f1: "free_temps 1 j1" by (rule free_temps_mono) simp
  obtain dst j2 m2 where 2: "EMIT_LoadFromEffectiveAddress sz 0xff (0x18 OR ax) 0 True False s p j1 = (dst, 0, 0, j2)"
    "acts {?b2} j1 m1 j2 m2" "m_mem m2 = m_mem m1" "dst \<in> arm_temps - live_temps j1" "live_temps j2 = insert dst (live_temps j1)"
    "reg_is m2 dst x" "cpu j2 m2 ?R2 pc"
    using postincrement_load [OF 1(7) f1 assms(3,5,8), where e = 0 and s = s and p = p] unfolding assms(10) 1(3) [symmetric] by blast
  have tmp: "tmp \<in> arm_temps - live_temps j" "live_temps ja = insert tmp (live_temps j)" "is_reg tmp" using ra(1,4,6) by simp_all
  have n: "src \<noteq> ?b2" "is_reg src" "is_reg dst" "tmp \<noteq> src" "src \<notin> arm_temps - live_temps j1" "src \<notin> arm_temps - live_temps j2"
    using 1(4,5) 2(4,5) tmp host_reg(3) arm_temps_is_reg by auto
  have s2: "reg_is m2 src y" using reg_is_keeps [OF 2(2), of src] n(1,5) 1(6) by simp
  let ?j3 = "if sz = 4 then EMIT_rf [subs_reg tmp dst src LSL 0] j2
    else EMIT_rf [lsl_i tmp dst (32 - 8 * sz), subs_reg tmp tmp src LSL (32 - 8 * sz)] j2"
  obtain m3 where 3: "opers {tmp} j2 m2 ?j3 m3" "m_mem m3 = m_mem m2" "\<forall>f. host_flag_sub m3 f = sub_ccr (unat sz) x y f"
    using compare_temp [OF n(3,2) tmp(3) n(4) assms(3) 2(6) s2 n(6)] by blast
  let ?j' = "RA_FreeARMRegister dst (RA_FreeARMRegister src (RA_FreeARMRegister tmp ?j3))"
  have "opers (insert tmp {?b1, ?b2}) ja m j1 m1" by (rule opers_mono [OF acts_opers [OF 1(2)]]) blast
  moreover have "opers (insert tmp {?b1, ?b2}) j1 m1 j2 m2" by (rule opers_mono [OF acts_opers [OF 2(2)]]) blast
  moreover have "opers (insert tmp {?b1, ?b2}) j2 m2 ?j3 m3" by (rule opers_mono [OF 3(1)]) blast
  ultimately have "opers (insert tmp {?b1, ?b2}) ja m ?j3 m3" using opers_trans by blast
  then have o: "opers {?b1, ?b2} j m ?j3 m3" by (rule opers_alloc [OF a])
  have fresh: "tmp \<notin> live_temps j" "src \<notin> live_temps j" "dst \<notin> live_temps j" using tmp 1(4,5) 2(4) by auto
  have o': "opers {?b1, ?b2} j m ?j' m3" by (rule opers_Free [OF opers_Free [OF opers_Free [OF o fresh(1)] fresh(2)] fresh(3)])
  have "live_temps ?j3 = insert dst (insert src (insert tmp (live_temps j)))" using 1(5) 2(5) tmp(2) by simp
  then have lv: "live_temps ?j' = live_temps j" using fresh tmp(1) 1(4) 2(4) by (simp add: live_Free insert_Diff_if) 
  have "cpu ?j3 m3 ?R2 pc"
  proof (rule cpu_kept [OF 2(7)])
    fix r assume "r \<in> insert REG_PC (host ` {k. k < 16})"
    then have r: "r \<notin> arm_temps" using host_reg(3) by (auto simp: arm_temps_def REG_PC_def)
    then have "r \<noteq> tmp" using tmp(1) by blast
    then show "rdX m3 r = rdX m2 r" using opers_keeps [OF 3(1)] r by simp
  qed (simp add: EMIT_rf_RESET)
  then have c: "cpu ?j' m3 ?R2 pc" by (intro cpu_Free)
  show ?thesis using ra(5) 1(1,3) 2(1,3) 3(2,3) o' lv c unfolding Let_def
    by (intro exI [of _ tmp] exI [of _ ja] exI [of _ src] exI [of _ j1] exI [of _ dst] exI [of _ j2] exI [of _ m3] conjI) simp_all
qed

lemma cmpm_rows:
  assumes "k < 3" "r < 8"
  shows "\<exists>row. InsnTable_entry InsnTable_B (256 * 1 + 64 * k + 8 * 1 + r) = Some row \<and> od_SRSets row = sr_NZVC \<and> od_BaseLength row = 1 \<and>
    od_HasEA row = 0 \<and> od_Emit row = H_CMPM"
proof -
  have "k = 0 \<or> k = 1 \<or> k = 2" using assms(1) by linarith
  then show ?thesis using assms(2) by (elim disjE) (simp_all add: InsnTable_entry_def InsnTable_B_def)
qed

lemma cmpm_facts:
  assumes "compares_memory s \<sigma>" "p = ucast (pcount \<sigma>)" "opcode = code16 s p"
  shows "SR_sets opcode = 15" "M68K_GetINSNLength s p = 0 + 1" "\<not> M68K_IsBranch s p" "operand_size opcode \<in> {1, 2, 4}"
    "\<exists>row. InsnTable_entry InsnTable_B (unat (opcode AND 0x1ff)) = Some row \<and> od_Emit row \<in> {H_CMPM}"
proof -
  note fm = assms(1) [unfolded compares_memory_def Let_def, folded assms(2), folded assms(3)]
  let ?k = "unat (drop_bit 6 opcode AND 3)" and ?r = "unat (reg_field opcode)"
  have d: "drop_bit 12 opcode = 11" "drop_bit 8 opcode AND 1 = 1" "drop_bit 6 opcode AND 3 \<noteq> 3" "ea_mode opcode = 1" using fm by blast+
  show "\<not> M68K_IsBranch s p" using branch_groups [of s p] d(1) assms(3) by auto
  show "operand_size opcode \<in> {1, 2, 4}" by (rule opcode_fields(5) [OF d(3)])
  have "drop_bit 6 opcode AND 3 \<le> 3" by (rule word_and_le1)
  then have k: "?k < 3" using d(3) by (simp add: word_le_nat_alt word_unat_eq_iff)
  have r: "?r < 8" using opcode_fields(3) [of opcode] by (simp add: word_less_nat_alt)
  have "unat (opcode AND 0x1ff) = 256 * 1 + 64 * ?k + 8 * 1 + ?r" unfolding index_fields d(2,4) by simp
  then obtain row where row: "InsnTable_entry InsnTable_B (unat (opcode AND 0x1ff)) = Some row" "od_SRSets row = sr_NZVC" "od_BaseLength row = 1"
    "od_HasEA row = 0" "od_Emit row = H_CMPM"
    using cmpm_rows [OF k r] by (elim exE conjE) simp
  then show "\<exists>row. InsnTable_entry InsnTable_B (unat (opcode AND 0x1ff)) = Some row \<and> od_Emit row \<in> {H_CMPM}" by blast
  have rf: "ucast (table_SR InsnTable_B (unat (opcode AND 0x1ff))) AND 0x1f = (ucast (od_SRSets row) AND 0x1f :: u8)"
    "table_length InsnTable_B 0x1ff s p = 0 + 1"
    using row_facts [OF row(1) assms(3) row(3), of 0] row(4) by simp_all
  show "SR_sets opcode = 15" using d(1) rf(1) row(2) by (simp add: SR_sets_def SR_flags_def SRCheck_def GetSR_LineB_def)
  show "M68K_GetINSNLength s p = 0 + 1"
    using d(1) rf(2) unfolding M68K_GetINSNLength_def Let_def assms(3) [symmetric] by (simp add: M68K_GetLineBLength_def)
qed

lemma CMPM_simulated:
  assumes "ordinary_code s" "emulates s j m \<sigma>" "compares_memory s \<sigma>" "opcode = code16 s (ucast (pcount \<sigma>))"
  shows "\<exists>j' m'. EMIT_CMPM c s opcode (ucast (pcount \<sigma>) + 2) j = (ucast (pcount (CMPM_step s \<sigma>)), j') \<and>
    produces j m j' m' \<and> emulates s j' m' (CMPM_step s \<sigma>)"
proof -
  let ?p = "ucast (pcount \<sigma>) :: u64" and ?sz = "operand_size opcode" and ?ay = "reg_field opcode" and ?ax = "field_9 opcode"
  note fm = assms(3) [unfolded compares_memory_def Let_def, folded assms(4)] and em = assms(2) [unfolded emulates_def]
  note fa = cmpm_facts [OF assms(3) refl assms(4)] and fields = opcode_fields [of opcode]
  have c: "cpu j m (gpr \<sigma>) (pcount \<sigma>)" "free_temps 6 j" "m_mem m = ram \<sigma>" using em enough_temps_free by blast+
  define R1 where "R1 = ea_after 3 ?ay (ea_step ?sz ?ay) (gpr \<sigma>)"
  define y where "y = rd_be (m_mem m) (ucast (gpr \<sigma> (?ay + 8))) (unat ?sz)"
  define x where "x = rd_be (m_mem m) (ucast (R1 (?ax + 8))) (unat ?sz)"
  have rg: "in_range (gpr \<sigma> (?ay + 8)) (uint (ea_step ?sz ?ay))" "in_range (R1 (?ax + 8)) (uint (ea_step ?sz ?ax))" "uint (pcount \<sigma>) + 6 < 2 ^ 32"
    using fm unfolding R1_def by blast+
  define cmp where "cmp = (\<lambda>tmp dst src j. if ?sz = 4 then EMIT_rf [subs_reg tmp dst src LSL 0] j
    else EMIT_rf [lsl_i tmp dst (32 - 8 * ?sz), subs_reg tmp tmp src LSL (32 - 8 * ?sz)] j)"
  let ?R = "ea_after 3 ?ax (ea_step ?sz ?ax) R1" and ?S = "{host (?ay + 8), host (?ax + 8)}"
  obtain tmp ja src j1 dst j2 m3 where l: "RA_AllocARMRegister j = (tmp, ja)"
    "EMIT_LoadFromEffectiveAddress ?sz 0xff (0x18 OR ?ay) 0 True False s (?p + 2) ja = (src, 0, 0, j1)"
    "EMIT_LoadFromEffectiveAddress ?sz 0xff (0x18 OR ?ax) 0 True False s (?p + 2) j1 = (dst, 0, 0, j2)"
    and "let j' = RA_FreeARMRegister dst (RA_FreeARMRegister src (RA_FreeARMRegister tmp (cmp tmp dst src j2)))
     in opers ?S j m j' m3 \<and> m_mem m3 = m_mem m \<and> live_temps j' = live_temps j \<and>
       cpu j' m3 ?R (pcount \<sigma>) \<and> (\<forall>f. host_flag_sub m3 f = sub_ccr (unat ?sz) x y f)"
    using compare_memory [OF c(1,2) fa(4) fields(3,4) rg(1) R1_def rg(2) y_def x_def, of s "?p + 2"] unfolding cmp_def by blast
  then obtain j3 where j3: "j3 = RA_FreeARMRegister dst (RA_FreeARMRegister src (RA_FreeARMRegister tmp (cmp tmp dst src j2)))"
    "opers ?S j m j3 m3" "m_mem m3 = m_mem m" "live_temps j3 = live_temps j" "cpu j3 m3 ?R (pcount \<sigma>)"
    "\<forall>f. host_flag_sub m3 f = sub_ccr (unat ?sz) x y f"
    unfolding Let_def by blast
  have S: "?S \<inter> live_temps j = {}" using host_reg(3) live_temps_arm by blast
  let ?j' = "update_flags_cmp (M68K_GetSRMask c s ?p) (EMIT_AdvancePC (of_nat (2 * (0 + 1))) j3)"
  have n: "compared ?R (sub_ccr (unat ?sz) x y) 0 \<sigma> = CMPM_step s \<sigma>"
    by (simp add: CMPM_step_def Let_def assms(4) [symmetric] x_def y_def R1_def c(3))
  have z: "0 \<le> (2 :: nat)" by simp
  obtain m' where "at (?p + 2) 0 = ucast (pcount (CMPM_step s \<sigma>))" "produces j m ?j' m'" "emulates s ?j' m' (CMPM_step s \<sigma>)"
    using compare_finish [OF assms(1,2) refl assms(4) j3(2) S j3(3-6) z rg(3) fa(1-3), where c = c] unfolding n Let_def by blast
  moreover have "EMIT_CMPM c s opcode (?p + 2) j = (at (?p + 2) 0, ?j')"
    using fa(4) l by (auto simp: EMIT_CMPM_def j3(1) cmp_def Let_def)
  ultimately show ?thesis by auto
qed

end
