(* ===== verification/Move_Step.thy ===== *)
theory Move_Step
  imports Insn_Move Logic_Ops
begin

text \<open>The simulation for \<open>MOVEQ #<data>,Dn\<close>.\<close>

section \<open>The value\<close>

lemma negative_iff: "(x :: u8) <s 0 \<longleftrightarrow> bit x 7"
  using bit_last_iff [of x] by (simp add: word_sless_alt)

lemma moved_opers:
  assumes "is_reg rd"
  shows "\<exists>m'. opers {rd} j m (if val = 0 then EMIT [mov_reg rd 31] j else EMIT [mov_immed_s8 rd val] j) m' \<and>
    reg_is m' rd (scast val) \<and> m_mem m' = m_mem m"
proof (cases "val = 0")
  case True
  obtain m' where "acts {rd} j m (EMIT [mov_reg rd 31] j) m'" "reg_is m' rd (rdW m 31)" "m_mem m' = m_mem m"
    using mov_reg_acts [OF assms disjI1 [OF refl], of j m] by blast
  then show ?thesis using True acts_opers by (intro exI [of _ m']) (auto simp: rdW_def rdX_def)
next
  case False
  show ?thesis
  proof (cases "val <s 0")
    case True
    have "- x - 1 = NOT (x :: u32)" for x by (simp add: not_eq_complement)
    then have "NOT (ucast (ucast (- (scast val) - 1 :: u32) :: u16)) = (scast val :: u32)"
      using True unfolding negative_iff by (intro bit_word_eqI) (auto simp: bit_simps)
    then show ?thesis using True False mov_u16_acts(2) [OF assms, of j m] acts_opers
      by (simp add: mov_immed_s8_def) metis
  next
    case pos: False
    then have "ucast (ucast (scast val :: u32) :: u16) = (scast val :: u32)"
      unfolding negative_iff by (intro bit_word_eqI) (auto simp: bit_simps min_def split: if_splits)
    then show ?thesis using pos False mov_u16_acts(1) [OF assms, of j m] acts_opers
      by (simp add: mov_immed_s8_def) metis
  qed
qed

section \<open>The flags\<close>

text \<open>After the flags of the mask are cleared, the one that the value calls for is set.\<close>

lemma seg_one:
  assumes "cc \<in> live_temps j" "free_temps 1 j" "g = Nf \<and> flags = SR_N \<or> g = Zf \<and> flags = SR_Z"
  shows "\<exists>m'. updates {cc} j m (EMIT_SetFlags cc flags j) m' \<and>
    (\<forall>f. ccr (rdW m' cc) f \<longleftrightarrow> ccr (rdW m cc) f \<or> f = g) \<and> same_upper (rdW m' cc) (rdW m cc)"
proof -
  obtain m' where u: "updates {cc} j m (EMIT_SetFlags cc flags j) m'" and v: "rdW m' cc = rdW m cc OR ucast flags"
    using EMIT_SetFlags_updates [OF assms(1,2)] by blast
  have b: "bit (ucast flags :: u32) k \<longleftrightarrow> k = alt_bit g" for k
  proof -
    have e: "(8 :: u32) = 2 ^ 3" "(4 :: u32) = 2 ^ 2" by simp_all
    have b: "bit (8 :: u32) k \<longleftrightarrow> k = 3" "bit (4 :: u32) k \<longleftrightarrow> k = 2" unfolding e bit_exp_iff possible_bit_word by auto
    have u: "ucast SR_N = (8 :: u32)" "ucast SR_Z = (4 :: u32)" by (simp_all add: SR_N_def SR_Z_def)
    show ?thesis using assms(3) by (elim disjE conjE) (simp_all only: u b alt_bit.simps)
  qed
  have "ccr (rdW m' cc) f \<longleftrightarrow> ccr (rdW m cc) f \<or> f = g" for f
    by (cases f; cases g) (simp_all add: ccr_def v bit_or_iff b)
  moreover have "same_upper (rdW m' cc) (rdW m cc)"
    using assms(3) by (auto simp: same_upper_iff v bit_or_iff b)
  ultimately show ?thesis using u by blast
qed

lemma moved_ccr: "f \<noteq> Xf \<Longrightarrow> logic_ccr 4 (scast (val :: u8)) f \<longleftrightarrow> f = Nf \<and> val <s 0 \<or> f = Zf \<and> val = 0"
proof -
  have z: "(scast val :: u32) = 0 \<longleftrightarrow> val = 0"
  proof
    assume "(scast val :: u32) = 0"
    then have "bit (scast val :: u32) n \<longleftrightarrow> bit (0 :: u32) n" for n by simp
    then have b: "n < 32 \<Longrightarrow> \<not> bit val (min 7 n)" for n by (simp add: bit_simps)
    have "\<not> bit val n" if "n < 8" for n
    proof -
      have "min 7 n = n" using that by simp
      then show ?thesis using b [of n] that by simp
    qed
    then show "val = 0" by (intro bit_word_eqI) simp
  qed simp
  have "bit (scast val :: u32) 31 \<longleftrightarrow> val <s 0" unfolding negative_iff by (simp add: bit_simps)
  moreover have "take_bit 32 (x :: u32) = x" for x by (rule bit_word_eqI) (simp add: bit_simps)
  ultimately show "f \<noteq> Xf \<Longrightarrow> ?thesis" using z by (cases f) simp_all
qed

lemma moveq_flags_effect:
  assumes "ra_wf j" "coherent j m" "free_temps 3 j" "um < 16"
  shows "\<exists>m'. effect {} 15 j m (moveq_flags um val j) m' \<and> m_mem m' = m_mem m \<and> cc_live j (moveq_flags um val j) \<and>
    (\<forall>f. in_mask f um \<longrightarrow> ccf (moveq_flags um val j) m' f = logic_ccr 4 (scast val) f)"
proof (cases "um = 0")
  case True
  then show ?thesis using effect_refl [OF assms(1,2)] cc_live_refl [OF assms(1)]
    by (intro exI [of _ m]) (auto simp: moveq_flags_def in_mask_def)
next
  case False
  obtain cc j1 where g: "RA_ModifyCC j = (cc, j1)" by fastforce
  have f3: "free_temps (Suc 2) j" using assms(3) by simp
  have um: "um < 32" using assms(4) by (rule less_trans) simp
  note noX = less16_no_X [OF assms(4)]
  let ?c = "clear_rest cc um j1"
  let ?j2 = "if val <s 0 then EMIT_SetFlags cc SR_N ?c else if val = 0 then EMIT_SetFlags cc SR_Z ?c else ?c"
  have eq: "moveq_flags um val j = ?j2" using False g by (simp add: moveq_flags_def clear_rest_def swap_vc_def)
  have "\<exists>m2. effect {} 15 j m ?j2 m2 \<and> (\<forall>f. in_mask f um \<longrightarrow> ccf ?j2 m2 f = logic_ccr 4 (scast val) f) \<and> m_mem m2 = m_mem m \<and> cc_live j ?j2"
  proof (rule ModifyCC_effect [OF assms(1,2) f3 g])
    fix m1 assume m1: "cc \<in> live_temps j1" "free_temps 2 j1"
    have f1: "free_temps 1 j1" by (rule free_temps_mono [OF m1(2)]) simp
    obtain m2 where 2: "updates {cc} j1 m1 ?c m2" "\<forall>f. ccr (rdW m2 cc) f \<longleftrightarrow> ccr (rdW m1 cc) f \<and> \<not> in_mask f um"
      "same_upper (rdW m2 cc) (rdW m1 cc)"
      using seg_clear [OF m1(1) f1 um] by blast
    have lv: "live_temps ?c = live_temps j1" using 2(1) by (simp add: updates_def)
    then have l2: "cc \<in> live_temps ?c" "free_temps 1 ?c" using m1(1) f1 by (simp_all add: free_temps_def)
    let ?one = "\<lambda>f. f = Nf \<and> val <s 0 \<or> f = Zf \<and> val = 0"
    have "\<not> (0 :: u8) <s 0" unfolding negative_iff by simp
    then have "\<exists>m3. updates {cc} ?c m2 ?j2 m3 \<and> (\<forall>f. ccr (rdW m3 cc) f \<longleftrightarrow> ccr (rdW m2 cc) f \<or> ?one f) \<and> same_upper (rdW m3 cc) (rdW m2 cc)"
      using seg_one [OF l2, of Nf SR_N m2] seg_one [OF l2, of Zf SR_Z m2] updates_refl [of ?c ?c "{cc}" m2]
      by (cases "val <s 0"; cases "val = 0") (auto simp: same_upper_def)
    then obtain m3 where 3: "updates {cc} ?c m2 ?j2 m3" "\<forall>f. ccr (rdW m3 cc) f \<longleftrightarrow> ccr (rdW m2 cc) f \<or> ?one f"
      "same_upper (rdW m3 cc) (rdW m2 cc)" by blast
    have u: "updates {cc} j1 m1 ?j2 m3" by (rule updates_trans [OF 2(1) 3(1)])
    have "opers {cc} j1 m1 ?j2 m3" by (rule updates_opers [OF u]) (simp add: clear_rest_def)
    moreover have "ccr (rdW m3 cc) f = logic_ccr 4 (scast val) f" if "in_mask f um" for f
    proof -
      have "f \<noteq> Xf" using that noX by blast
      then show ?thesis using that 2(2) 3(2) moved_ccr by blast
    qed
    moreover have "ccr (rdW m3 cc) f = ccr (rdW m1 cc) f" if "\<not> in_mask f 15" for f
    proof -
      have "f = Xf" using that in_nzvc by blast
      then show ?thesis using 2(2) 3(2) noX by simp
    qed
    ultimately show "\<exists>m2. opers {cc} j1 m1 ?j2 m2 \<and> m_mem m2 = m_mem m1 \<and> live_temps ?j2 = live_temps j1 \<and>
        (\<forall>f. in_mask f um \<longrightarrow> ccr (rdW m2 cc) f = logic_ccr 4 (scast val) f) \<and>
        (\<forall>f. \<not> in_mask f 15 \<longrightarrow> ccr (rdW m2 cc) f = ccr (rdW m1 cc) f) \<and> same_upper (rdW m2 cc) (rdW m1 cc)"
      using u 2(3) 3(3) by (intro exI [of _ m3]) (simp add: updates_def same_upper_def)
  qed
  then show ?thesis unfolding eq by blast
qed

section \<open>The instruction\<close>

definition move_quick :: "cache_sys \<Rightarrow> m68k \<Rightarrow> bool" where
  "move_quick s \<sigma> \<longleftrightarrow>
    (let opcode = code16 s (ucast (pcount \<sigma>))
     in drop_bit 12 opcode = 7 \<and> opcode AND 0x100 = 0 \<and> uint (pcount \<sigma>) + 6 < 2 ^ 32)"

definition MOVEQ_step :: "cache_sys \<Rightarrow> m68k \<Rightarrow> m68k" where
  "MOVEQ_step s \<sigma> =
    (let opcode = code16 s (ucast (pcount \<sigma>)); v = scast (ucast (opcode AND 0xff) :: u8)
     in \<sigma>\<lparr>gpr := (gpr \<sigma>)(field_9 opcode := v), sr_flag := (logic_ccr 4 v)(Xf := sr_flag \<sigma> Xf), pcount := pcount \<sigma> + 2\<rparr>)"

lemma moveq_facts:
  assumes "drop_bit 12 opcode = 7" "opcode AND 0x100 = 0" "opcode = code16 s p"
  shows "SR_sets opcode = 15" "M68K_GetINSNLength s p = 1" "\<not> M68K_IsBranch s p"
proof -
  show "SR_sets opcode = 15" using assms(1,2) by (simp add: SR_sets_def SR_flags_def SRCheck_def GetSR_Line7_def)
  show "M68K_GetINSNLength s p = 1" using assms(1,3) by (simp add: M68K_GetINSNLength_def Let_def)
  show "\<not> M68K_IsBranch s p" using branch_groups [of s p] assms(1,3) by auto
qed

section \<open>Property\<close>

lemma MOVEQ_simulated:
  assumes "ordinary_code s" "emulates s j m \<sigma>" "move_quick s \<sigma>"
  shows "\<exists>j' m'. EMIT_moveq c s (ucast (pcount \<sigma>)) j = Some (ucast (pcount (MOVEQ_step s \<sigma>)), j') \<and>
    produces j m j' m' \<and> emulates s j' m' (MOVEQ_step s \<sigma>)"
proof -
  let ?p = "ucast (pcount \<sigma>) :: u64" and ?n = "MOVEQ_step s \<sigma>"
  let ?op = "code16 s ?p" and ?um = "M68K_GetSRMask c s ?p"
  let ?dn = "field_9 ?op" and ?v = "ucast (?op AND 0xff) :: u8"
  note em = assms(2) [unfolded emulates_def] and fm = assms(3) [unfolded move_quick_def Let_def]
  note fa = moveq_facts [OF fm [THEN conjunct1] fm [THEN conjunct2, THEN conjunct1] refl]
  have w: "ra_wf j" "coherent j m" "enough_temps j" and cp: "cpu j m (gpr \<sigma>) (pcount \<sigma>)" using em by blast+
  have dn: "?dn < 16" using opcode_fields(4) [of ?op] by (auto intro: less_trans)
  let ?j1 = "if ?v = 0 then EMIT [mov_reg (host ?dn) 31] j else EMIT [mov_immed_s8 (host ?dn) ?v] j"
  obtain m1 where 1: "opers {host ?dn} j m ?j1 m1" "reg_is m1 (host ?dn) (scast ?v)" "m_mem m1 = m_mem m"
    using moved_opers [OF host_reg(1)] by blast
  have lv: "live_temps ?j1 = live_temps j" by simp
  have di: "{host ?dn} \<inter> live_temps j = {}" using ea_updates_live [of ?dn 0 0 j] by blast
  have c1: "cpu ?j1 m1 ((gpr \<sigma>)(?dn := scast ?v)) (pcount \<sigma>)"
    by (rule cpu_write [OF cp _ _ dn 1(2), of "{}"]) (use 1(1) in simp_all)
  note b = balanced_effect [OF 1(1) lv di w(1,2)]
  have um: "?um < 16" by (rule GetSRMask_less_16) (rule fa(1))
  let ?j' = "moveq_flags ?um ?v (EMIT_AdvancePC 2 ?j1)"
  have tail: "\<exists>m3. effect {} 15 j2 m2 (moveq_flags ?um ?v j2) m3 \<and> m_mem m3 = m_mem m2 \<and> cc_live j2 (moveq_flags ?um ?v j2) \<and>
      (\<forall>f. in_mask f ?um \<longrightarrow> ccf (moveq_flags ?um ?v j2) m3 f = logic_ccr 4 (scast ?v) f)"
    if "after_advance ?j1 m1 j2 m2" for j2 m2
  proof -
    note w2 = that [unfolded after_advance_def]
    have "free_temps 3 j2" by (rule free_temps_mono [of 5]) (use w2 in simp_all)
    then show ?thesis using moveq_flags_effect [OF _ _ _ um] w2 by blast
  qed
  have z: "of_nat (2 * (0 + 1)) = (2 :: u8)" "of_nat (2 * (0 + 1)) = (2 :: u32)" "0 \<le> (2 :: nat)" by simp_all
  obtain m' where f: "effect (insert REG_PC {host ?dn}) 15 j m ?j' m'" "m_mem m' = m_mem m1" "enough_temps ?j'"
    "cpu ?j' m' ((gpr \<sigma>)(?dn := scast ?v)) (pcount \<sigma> + 2)"
    "\<forall>f. in_mask f ?um \<longrightarrow> ccf ?j' m' f = logic_ccr 4 (scast ?v) f"
    using finish_insn [OF c1 b w(3,1) z(3) tail] unfolding z(1,2) by blast
  have st: "gpr ?n = (gpr \<sigma>)(?dn := scast ?v)" "pcount ?n = pcount \<sigma> + 2" "ram ?n = ram \<sigma>"
    "sr_flag ?n = (logic_ccr 4 (scast ?v))(Xf := sr_flag \<sigma> Xf)"
    by (simp_all add: MOVEQ_step_def Let_def)
  have pc: "uint (pcount \<sigma>) + 6 < 2 ^ 32" using fm by blast
  have p': "at ?p 1 = ucast (pcount ?n)" "?p + 2 = ucast (pcount ?n)"
    using code_pointer [OF pc z(3)] unfolding st by (simp_all add: at_def)
  have "produces j m ?j' m' \<and> emulates s ?j' m' ?n"
    by (rule emulates_step [OF assms(1,2) refl refl fa(3) _ f(1) _ f(3), where c = c])
      (use f(2,4,5) 1(3) em less16_no_X [OF um] p' in \<open>auto simp: fa(1,2) st in_nzvc\<close>)
  moreover have "EMIT_moveq c s ?p j = Some (?p + 2, ?j')"
    using fm by (simp add: EMIT_moveq_def Let_def RA_MapM68kRegisterForWrite_def RA_MapM68kRegister_def)
  ultimately show ?thesis using p'(2) by auto
qed

text \<open>
  C8. \<open>EMIT_moveq\<close> is correct: run on a host that represents the emulated processor, the code it
  emits puts the sign-extended byte into the data register and leaves every live flag as the
  manual gives it.
\<close>

theorem EMIT_moveq_simulates:
  assumes "ordinary_code s" "emulates s j m \<sigma>" "move_quick s \<sigma>"
  shows "\<exists>j' m'. EMIT_moveq c s (ucast (pcount \<sigma>)) j = Some (ucast (pcount (MOVEQ_step s \<sigma>)), j') \<and>
    produces j m j' m' \<and> emulates s j' m' (MOVEQ_step s \<sigma>)"
  by (rule MOVEQ_simulated [OF assms])

theorem EMIT_moveq_simulates_witness:
  "\<exists>j' m'. EMIT_moveq 0 (filled 0x70 0xfe) 0 (jit_init 64) = Some (2, j') \<and> run (tc_code j') two_machine = Some m' \<and>
    rdX m' (host 0) = 0xfffffffe"
proof -
  let ?s = "filled 0x70 0xfe"
  have c: "code16 ?s p = (if bit p 0 then 0xfe70 else 0x70fe)" for p by (simp add: filled_code)
  have x: "code16 ?s 0 = 0x70fe" by (simp add: c)
  have o: "ordinary_code ?s" by (simp add: ordinary_code_def c)
  have i: "move_quick ?s two_cpu" by (simp add: move_quick_def two_cpu_def x)
  have "gpr (MOVEQ_step ?s two_cpu) 0 = 0xfffffffe" "pcount (MOVEQ_step ?s two_cpu) = 2"
    by (simp_all add: MOVEQ_step_def two_cpu_def x field_9_def)
  moreover obtain j' m' where q: "EMIT_moveq 0 ?s (ucast (pcount two_cpu)) (jit_init 64) = Some (ucast (pcount (MOVEQ_step ?s two_cpu)), j')"
    "produces (jit_init 64) two_machine j' m'" "emulates ?s j' m' (MOVEQ_step ?s two_cpu)"
    using EMIT_moveq_simulates [OF o two_emulates i, of 0] by blast
  moreover have "run (tc_code j') two_machine = Some m'" using q(2) by (simp add: produces_def jit_init_def)
  moreover have "reg_is m' (host 0) (gpr (MOVEQ_step ?s two_cpu) 0)"
    using q(3) m68k_regsD(1) [of m' _ 0] by (simp add: emulates_def cpu_def)
  ultimately show ?thesis by (auto simp: two_cpu_def reg_is_def)
qed

end
