(* ===== verification/Block_Step.thy ===== *)
theory Block_Step
  imports Dispatch Insn_Step Mem_Step Logic_Mem Cmpa_Step Move_Step
begin

text \<open>
  The simulation for runs of instructions: the emulated processor as a step relation, one
  call of \<open>EmitINSN\<close> per step, and a run of calls for a run of steps.
\<close>

section \<open>The processor\<close>

inductive m68k_step :: "cache_sys \<Rightarrow> m68k \<Rightarrow> m68k \<Rightarrow> bool" for s where
  step_ADD: "into_register 13 s \<sigma> \<Longrightarrow> m68k_step s \<sigma> (ADD_step s \<sigma>)"
| step_SUB: "into_register 9 s \<sigma> \<Longrightarrow> m68k_step s \<sigma> (SUB_step s \<sigma>)"
| step_AND: "into_register 12 s \<sigma> \<Longrightarrow> ea_mode (code16 s (ucast (pcount \<sigma>))) \<noteq> 1 \<Longrightarrow> m68k_step s \<sigma> (AND_step s \<sigma>)"
| step_OR: "into_register 8 s \<sigma> \<Longrightarrow> ea_mode (code16 s (ucast (pcount \<sigma>))) \<noteq> 1 \<Longrightarrow> m68k_step s \<sigma> (OR_step s \<sigma>)"
| step_EOR: "exclusive_or s \<sigma> \<Longrightarrow> m68k_step s \<sigma> (EOR_step s \<sigma>)"
| step_CMP: "into_register 11 s \<sigma> \<Longrightarrow> m68k_step s \<sigma> (CMP_step s \<sigma>)"
| step_CMPA: "compares_address s \<sigma> \<Longrightarrow> m68k_step s \<sigma> (CMPA_step s \<sigma>)"
| step_CMPM: "compares_memory s \<sigma> \<Longrightarrow> m68k_step s \<sigma> (CMPM_step s \<sigma>)"
| step_MOVEQ: "move_quick s \<sigma> \<Longrightarrow> m68k_step s \<sigma> (MOVEQ_step s \<sigma>)"
| step_ADD_memory: "into_memory 13 s \<sigma> \<Longrightarrow> m68k_step s \<sigma> (ADD_memory_step s \<sigma>)"
| step_SUB_memory: "into_memory 9 s \<sigma> \<Longrightarrow> m68k_step s \<sigma> (SUB_memory_step s \<sigma>)"
| step_AND_memory: "into_memory 12 s \<sigma> \<Longrightarrow> m68k_step s \<sigma> (AND_memory_step s \<sigma>)"
| step_OR_memory: "into_memory 8 s \<sigma> \<Longrightarrow> m68k_step s \<sigma> (OR_memory_step s \<sigma>)"
| step_EOR_memory: "into_memory 11 s \<sigma> \<Longrightarrow> m68k_step s \<sigma> (EOR_memory_step s \<sigma>)"

text \<open>
  A run of \<open>n\<close> steps. At an AND, OR or EOR the search for dead flags must not find exactly V and
  C live, the one mask that the flag emitter of the logic operations gets wrong.
\<close>

definition logic_opcode :: "u16 \<Rightarrow> bool" where
  "logic_opcode opcode \<longleftrightarrow> drop_bit 12 opcode = 8 \<or> drop_bit 12 opcode = 12 \<or>
     drop_bit 12 opcode = 11 \<and> drop_bit 8 opcode AND 1 \<noteq> 0 \<and> ea_mode opcode \<noteq> 1"

inductive m68k_steps :: "u32 \<Rightarrow> cache_sys \<Rightarrow> nat \<Rightarrow> m68k \<Rightarrow> m68k \<Rightarrow> bool" for c s where
  no_step: "m68k_steps c s 0 \<sigma> \<sigma>"
| more_steps: "m68k_step s \<sigma> \<sigma>1 \<Longrightarrow>
    (logic_opcode (code16 s (ucast (pcount \<sigma>))) \<Longrightarrow> M68K_GetSRMask c s (ucast (pcount \<sigma>)) \<noteq> 3) \<Longrightarrow> m68k_steps c s n \<sigma>1 \<sigma>2 \<Longrightarrow>
    m68k_steps c s (Suc n) \<sigma> \<sigma>2"

inductive_cases m68k_steps_SucE: "m68k_steps c s (Suc n) \<sigma> \<sigma>2"

section \<open>One instruction\<close>

lemma line_group_row:
  assumes "\<exists>row. InsnTable_entry t (unat (opcode AND 0x1ff)) = Some row \<and> od_Emit row \<in> E" "opcode = code16 s p"
    "\<And>e. e \<in> E \<Longrightarrow> emitter e = Some emit"
  shows "line_group t emitter s p j = Some (emit s opcode (p + 2) j)"
  using assms(1,3) by (auto simp: line_group_def Let_def assms(2) [symmetric])

lemma emulates_RESET: "emulates s j m \<sigma> \<Longrightarrow> emulates s (RESET_FLAGS j) m \<sigma>"
proof -
  have v: "status_regs (RESET_FLAGS j) = status_regs j" "cc_view (RESET_FLAGS j) m = cc_view j m" "fpcr_view (RESET_FLAGS j) m = fpcr_view j m"
    "fpsr_view (RESET_FLAGS j) m = fpsr_view j m" "live_temps (RESET_FLAGS j) = live_temps j"
    by (simp_all add: RESET_FLAGS_def status_regs_def cc_view_def fpcr_view_def fpsr_view_def live_temps_def)
  have "cpu (RESET_FLAGS j) m R pc = cpu j m R pc" for R pc by (simp add: cpu_def pc_ok_def pc_view_def RESET_FLAGS_def)
  moreover have "ra_wf (RESET_FLAGS j) = ra_wf j" by (simp add: ra_wf_live v)
  moreover have "coherent (RESET_FLAGS j) m = coherent j m" by (simp add: coherent_def v) (simp add: RESET_FLAGS_def)
  moreover have "enough_temps (RESET_FLAGS j) = enough_temps j" by (simp add: enough_temps_def free_temps_def v) (simp add: RESET_FLAGS_def)
  moreover have "ccf (RESET_FLAGS j) m f = ccf j m f" for f by (simp add: ccf_def v)
  ultimately show "emulates s j m \<sigma> \<Longrightarrow> emulates s (RESET_FLAGS j) m \<sigma>" by (simp add: emulates_def)
qed

lemma produces_RESET: "produces (RESET_FLAGS j) m j' m' = produces j m j' m'"
  by (simp add: produces_def RESET_FLAGS_def)

lemma line_array_groups:
  "line_array c 8 = line_group InsnTable_8 (emitter_8 c)" "line_array c 9 = line_group InsnTable_9 (emitter_9 c)"
  "line_array c 11 = line_group InsnTable_B (emitter_B c)" "line_array c 12 = line_group InsnTable_C (emitter_C c)"
  "line_array c 13 = line_group InsnTable_D (emitter_D c)" "line_array c 7 = EMIT_moveq c"
  by (simp_all add: line_array_def EMIT_line8_def EMIT_line9_def EMIT_lineB_def EMIT_lineC_def EMIT_lineD_def)

lemma line_array_simulates:
  assumes "m68k_step s \<sigma> \<sigma>'" "ordinary_code s" "emulates s j m \<sigma>"
    "logic_opcode (code16 s (ucast (pcount \<sigma>))) \<Longrightarrow> M68K_GetSRMask c s (ucast (pcount \<sigma>)) \<noteq> 3"
  shows "\<exists>j' m'. line_array c (drop_bit 12 (code16 s (ucast (pcount \<sigma>)))) s (ucast (pcount \<sigma>)) j = Some (ucast (pcount \<sigma>'), j') \<and>
    produces j m j' m' \<and> emulates s j' m' \<sigma>'"
proof -
  let ?p = "ucast (pcount \<sigma>) :: u64"
  let ?op = "code16 s ?p"
  show ?thesis using assms(1)
  proof cases
    case step_ADD
    have g: "drop_bit 12 ?op = 13" using step_ADD(2) by (simp add: into_register_def Let_def)
    have row: "\<exists>row. InsnTable_entry InsnTable_D (unat (?op AND 0x1ff)) = Some row \<and> od_Emit row \<in> {H_ADD_reg, H_ADD_mem, H_ADD_ext}"
      by (rule group_facts(4) [OF step_ADD(2) refl refl]) simp_all
    have "line_array c 13 s ?p j = Some (EMIT_ADD_ext c s ?op (?p + 2) j)"
      unfolding line_array_groups by (rule line_group_row [OF row refl]) auto
    then show ?thesis using ADD_simulated [OF assms(2,3) step_ADD(2) refl, of c] step_ADD(1) unfolding g by auto
  next
    case step_SUB
    have g: "drop_bit 12 ?op = 9" using step_SUB(2) by (simp add: into_register_def Let_def)
    have row: "\<exists>row. InsnTable_entry InsnTable_9 (unat (?op AND 0x1ff)) = Some row \<and> od_Emit row \<in> {H_SUB_reg, H_SUB_mem, H_SUB_ext}"
      by (rule group_facts(5) [OF step_SUB(2) refl refl]) simp_all
    have "line_array c 9 s ?p j = Some (EMIT_SUB_reg c s ?op (?p + 2) j)"
      unfolding line_array_groups by (rule line_group_row [OF row refl]) auto
    then show ?thesis using SUB_simulated [OF assms(2,3) step_SUB(2) refl, of c] step_SUB(1) unfolding g by auto
  next
    case step_AND
    have g: "drop_bit 12 ?op = 12" using step_AND(2) by (simp add: into_register_def Let_def)
    have l: "M68K_GetSRMask c s ?p \<noteq> 3" by (rule assms(4)) (simp add: logic_opcode_def g)
    have row: "\<exists>row. InsnTable_entry InsnTable_C (unat (?op AND 0x1ff)) = Some row \<and> od_Emit row \<in> {H_AND_reg, H_AND_mem, H_AND_ext}"
      by (rule logic_facts(4) [OF step_AND(2) refl refl]) (use step_AND(3) in simp_all)
    have "line_array c 12 s ?p j = Some (EMIT_AND_ext c s ?op (?p + 2) j)"
      unfolding line_array_groups by (rule line_group_row [OF row refl]) auto
    then show ?thesis using AND_simulated [OF assms(2,3) step_AND(2) refl step_AND(3) l] step_AND(1) unfolding g by auto
  next
    case step_OR
    have g: "drop_bit 12 ?op = 8" using step_OR(2) by (simp add: into_register_def Let_def)
    have l: "M68K_GetSRMask c s ?p \<noteq> 3" by (rule assms(4)) (simp add: logic_opcode_def g)
    have row: "\<exists>row. InsnTable_entry InsnTable_8 (unat (?op AND 0x1ff)) = Some row \<and> od_Emit row \<in> {H_OR_reg, H_OR_mem, H_OR_ext}"
      by (rule logic_facts(5) [OF step_OR(2) refl refl]) (use step_OR(3) in simp_all)
    have "line_array c 8 s ?p j = Some (EMIT_OR_reg c s ?op (?p + 2) j)"
      unfolding line_array_groups by (rule line_group_row [OF row refl]) auto
    then show ?thesis using OR_simulated [OF assms(2,3) step_OR(2) refl step_OR(3) l] step_OR(1) unfolding g by auto
  next
    case step_EOR
    have g: "drop_bit 12 ?op = 11" using step_EOR(2) by (simp add: exclusive_or_def Let_def)
    have l: "M68K_GetSRMask c s ?p \<noteq> 3" by (rule assms(4)) (use step_EOR(2) in \<open>simp add: logic_opcode_def exclusive_or_def Let_def\<close>)
    have row: "\<exists>row. InsnTable_entry InsnTable_B (unat (?op AND 0x1ff)) = Some row \<and> od_Emit row \<in> {H_EOR_reg}"
      by (rule eor_facts(5) [OF step_EOR(2) refl refl]) 
    have "line_array c 11 s ?p j = Some (EMIT_EOR_ext c s ?op (?p + 2) j)"
      unfolding line_array_groups by (rule line_group_row [OF row refl]) auto
    then show ?thesis using EOR_simulated [OF assms(2,3) step_EOR(2) refl l] step_EOR(1) unfolding g by auto
  next
    case step_CMP
    have g: "drop_bit 12 ?op = 11" using step_CMP(2) by (simp add: into_register_def Let_def)
    have row: "\<exists>row. InsnTable_entry InsnTable_B (unat (?op AND 0x1ff)) = Some row \<and> od_Emit row \<in> {H_CMP_reg, H_CMP_mem, H_CMP_ext}"
      by (rule cmp_facts(4) [OF step_CMP(2) refl refl]) 
    have "line_array c 11 s ?p j = Some (EMIT_CMP_ext c s ?op (?p + 2) j)"
      unfolding line_array_groups by (rule line_group_row [OF row refl]) auto
    then show ?thesis using CMP_simulated [OF assms(2,3) step_CMP(2) refl, of c] step_CMP(1) unfolding g by auto
  next
    case step_CMPA
    have g: "drop_bit 12 ?op = 11" using step_CMPA(2) by (simp add: compares_address_def Let_def)
    have row: "\<exists>row. InsnTable_entry InsnTable_B (unat (?op AND 0x1ff)) = Some row \<and> od_Emit row \<in> {H_CMPA_reg, H_CMPA_mem, H_CMPA_ext}"
      by (rule cmpa_facts(4) [OF step_CMPA(2) refl refl])
    have "line_array c 11 s ?p j = Some (EMIT_CMPA_ext c s ?op (?p + 2) j)"
      unfolding line_array_groups by (rule line_group_row [OF row refl]) auto
    then show ?thesis using CMPA_simulated [OF assms(2,3) step_CMPA(2) refl, of c] step_CMPA(1) unfolding g by auto
  next
    case step_CMPM
    have g: "drop_bit 12 ?op = 11" using step_CMPM(2) by (simp add: compares_memory_def Let_def)
    have row: "\<exists>row. InsnTable_entry InsnTable_B (unat (?op AND 0x1ff)) = Some row \<and> od_Emit row \<in> {H_CMPM}"
      by (rule cmpm_facts(5) [OF step_CMPM(2) refl refl])
    have "line_array c 11 s ?p j = Some (EMIT_CMPM c s ?op (?p + 2) j)"
      unfolding line_array_groups by (rule line_group_row [OF row refl]) auto
    then show ?thesis using CMPM_simulated [OF assms(2,3) step_CMPM(2) refl, of c] step_CMPM(1) unfolding g by auto
  next
    case step_ADD_memory
    have g: "drop_bit 12 ?op = 13" by (rule memory_form(7) [OF step_ADD_memory(2) refl])
    have row: "\<exists>row. InsnTable_entry InsnTable_D (unat (?op AND 0x1ff)) = Some row \<and> od_Emit row \<in> {H_ADD_mem, H_ADD_ext}"
      by (rule memory_facts(4) [OF step_ADD_memory(2) refl refl]) simp_all
    have "line_array c 13 s ?p j = Some (EMIT_ADD_ext c s ?op (?p + 2) j)"
      unfolding line_array_groups by (rule line_group_row [OF row refl]) auto
    then show ?thesis using ADD_memory_simulated [OF assms(2,3) step_ADD_memory(2) refl, of c] step_ADD_memory(1) unfolding g by auto
  next
    case step_SUB_memory
    have g: "drop_bit 12 ?op = 9" by (rule memory_form(7) [OF step_SUB_memory(2) refl])
    have row: "\<exists>row. InsnTable_entry InsnTable_9 (unat (?op AND 0x1ff)) = Some row \<and> od_Emit row \<in> {H_SUB_mem, H_SUB_ext}"
      by (rule memory_facts(5) [OF step_SUB_memory(2) refl refl]) simp_all
    have "line_array c 9 s ?p j = Some (EMIT_SUB_reg c s ?op (?p + 2) j)"
      unfolding line_array_groups by (rule line_group_row [OF row refl]) auto
    then show ?thesis using SUB_memory_simulated [OF assms(2,3) step_SUB_memory(2) refl, of c] step_SUB_memory(1) unfolding g by auto
  next
    case step_AND_memory
    have g: "drop_bit 12 ?op = 12" by (rule memory_form(7) [OF step_AND_memory(2) refl])
    have l: "M68K_GetSRMask c s ?p \<noteq> 3" by (rule assms(4)) (use g memory_form(5) [OF step_AND_memory(2) refl] alterableD(3,4) [OF memory_form(8) [OF step_AND_memory(2) refl]] in \<open>simp add: logic_opcode_def\<close>)
    have row: "\<exists>row. InsnTable_entry InsnTable_C (unat (?op AND 0x1ff)) = Some row \<and> od_Emit row \<in> {H_AND_mem, H_AND_ext}"
      by (rule logic_memory_facts(4) [OF step_AND_memory(2) refl refl]) simp_all
    have "line_array c 12 s ?p j = Some (EMIT_AND_ext c s ?op (?p + 2) j)"
      unfolding line_array_groups by (rule line_group_row [OF row refl]) auto
    then show ?thesis using AND_memory_simulated [OF assms(2,3) step_AND_memory(2) refl l] step_AND_memory(1) unfolding g by auto
  next
    case step_OR_memory
    have g: "drop_bit 12 ?op = 8" by (rule memory_form(7) [OF step_OR_memory(2) refl])
    have l: "M68K_GetSRMask c s ?p \<noteq> 3" by (rule assms(4)) (use g memory_form(5) [OF step_OR_memory(2) refl] alterableD(3,4) [OF memory_form(8) [OF step_OR_memory(2) refl]] in \<open>simp add: logic_opcode_def\<close>)
    have row: "\<exists>row. InsnTable_entry InsnTable_8 (unat (?op AND 0x1ff)) = Some row \<and> od_Emit row \<in> {H_OR_mem, H_OR_ext}"
      by (rule logic_memory_facts(5) [OF step_OR_memory(2) refl refl]) simp_all
    have "line_array c 8 s ?p j = Some (EMIT_OR_reg c s ?op (?p + 2) j)"
      unfolding line_array_groups by (rule line_group_row [OF row refl]) auto
    then show ?thesis using OR_memory_simulated [OF assms(2,3) step_OR_memory(2) refl l] step_OR_memory(1) unfolding g by auto
  next
    case step_EOR_memory
    have g: "drop_bit 12 ?op = 11" by (rule memory_form(7) [OF step_EOR_memory(2) refl])
    have l: "M68K_GetSRMask c s ?p \<noteq> 3" by (rule assms(4)) (use g memory_form(5) [OF step_EOR_memory(2) refl] alterableD(3,4) [OF memory_form(8) [OF step_EOR_memory(2) refl]] in \<open>simp add: logic_opcode_def\<close>)
    have row: "\<exists>row. InsnTable_entry InsnTable_B (unat (?op AND 0x1ff)) = Some row \<and> od_Emit row \<in> {H_EOR_mem, H_EOR_ext}"
      by (rule logic_memory_facts(6) [OF step_EOR_memory(2) refl refl]) simp_all
    have "line_array c 11 s ?p j = Some (EMIT_EOR_ext c s ?op (?p + 2) j)"
      unfolding line_array_groups by (rule line_group_row [OF row refl]) auto
    then show ?thesis using EOR_memory_simulated [OF assms(2,3) step_EOR_memory(2) refl l] step_EOR_memory(1) unfolding g by auto
  next
    case step_MOVEQ
    have g: "drop_bit 12 ?op = 7" using step_MOVEQ(2) by (simp add: move_quick_def Let_def)
    show ?thesis using MOVEQ_simulated [OF assms(2,3) step_MOVEQ(2), of c] step_MOVEQ(1) unfolding g line_array_groups by auto
  qed
qed

text \<open>The logic operations that write to memory, by the group of the opcode.\<close>

definition logic_memory :: "u16 \<Rightarrow> cache_sys \<Rightarrow> m68k \<Rightarrow> m68k" where
  "logic_memory g = (if g = 12 then AND_memory_step else if g = 8 then OR_memory_step else EOR_memory_step)"

text \<open>
  C11. \<open>AND Dn,<ea>\<close>, \<open>OR Dn,<ea>\<close> and \<open>EOR Dn,<ea>\<close> are correct, from the table of the groups on:
  for each size, with the destination at an address register, with or without an update, or
  at an absolute address, the emitter that the tables lead to produces code that leaves the
  host representing the processor after the instruction, unless exactly V and C are live.
\<close>

theorem logic_memory_simulates_dispatch:
  assumes "ordinary_code s" "emulates s j m \<sigma>" "g = 12 \<or> g = 8 \<or> g = 11" "into_memory g s \<sigma>"
    "M68K_GetSRMask c s (ucast (pcount \<sigma>)) \<noteq> 3"
  shows "\<exists>j' m'. line_array c g s (ucast (pcount \<sigma>)) j = Some (ucast (pcount (logic_memory g s \<sigma>)), j') \<and>
    produces j m j' m' \<and> emulates s j' m' (logic_memory g s \<sigma>)"
proof -
  have "m68k_step s \<sigma> (logic_memory g s \<sigma>)"
    using assms(3,4) step_AND_memory step_OR_memory step_EOR_memory by (auto simp: logic_memory_def)
  then show ?thesis
    using line_array_simulates [OF _ assms(1,2) assms(5)] memory_form(7) [OF assms(4) refl] by simp
qed

theorem logic_memory_simulates_dispatch_witness:
  "\<exists>j' m'. line_array 0 11 (filled 0xb1 0x50) 0 (jit_init 64) = Some (2, j') \<and> run (tc_code j') two_machine = Some m' \<and>
    m_mem m' 0 = 0x7f \<and> m_mem m' 1 = 0xff"
proof -
  let ?s = "filled 0xb1 0x50"
  have c: "code16 ?s p = (if bit p 0 then 0x50b1 else 0xb150)" for p by (simp add: filled_code)
  have x: "code16 ?s 0 = 0xb150" by (simp add: c)
  have o: "ordinary_code ?s" by (simp add: ordinary_code_def c)
  have f: "operand_size 0xb150 = 2" "ea_mode 0xb150 = 2" "reg_field 0xb150 = 0" "field_9 0xb150 = 0"
    by (simp_all add: operand_size_def ea_mode_def reg_field_def field_9_def)
  have i: "into_memory 11 ?s two_cpu"
    by (simp add: into_memory_def two_cpu_def x f alterable_def ea_fits_def)
  have z: "rd_be (m_mem two_machine) a 2 = 0" for a
    by (simp add: rd_be_def two_machine_def m_reset_def numeral_2_eq_2)
  have q0: "M68K_GetSRMask 0 ?s 0 = 15"
    by (simp add: M68K_GetSRMask_def x SR_sets_def SR_flags_def SRCheck_def GetSR_LineB_def table_SR_def InsnTable_entry_def InsnTable_B_def)
  have e: "logic_memory 11 = EOR_memory_step" by (simp add: logic_memory_def)
  have "ram (EOR_memory_step ?s two_cpu) 0 = 0x7f" "ram (EOR_memory_step ?s two_cpu) 1 = 0xff" "pcount (EOR_memory_step ?s two_cpu) = 2"
    by (simp_all add: EOR_memory_step_def logic_memory_step_def two_cpu_def x f insn_words_def operand_words_def operand_direct_def ea_words_def
      ea_address_def two_regs_def wr_be_def z Let_def)
  moreover obtain j' m' where q: "line_array 0 11 ?s (ucast (pcount two_cpu)) (jit_init 64) = Some (ucast (pcount (EOR_memory_step ?s two_cpu)), j')"
    "produces (jit_init 64) two_machine j' m'" "emulates ?s j' m' (EOR_memory_step ?s two_cpu)"
    using logic_memory_simulates_dispatch [OF o two_emulates _ i, of 0] q0 unfolding e by (auto simp: two_cpu_def)
  moreover have "run (tc_code j') two_machine = Some m'" using q(2) by (simp add: produces_def jit_init_def)
  moreover have "m_mem m' = ram (EOR_memory_step ?s two_cpu)" using q(3) by (simp add: emulates_def)
  ultimately show ?thesis by (auto simp: two_cpu_def)
qed

text \<open>
  With the debugging aids and the slow mode off, \<open>EmitINSN\<close> only forgets the host's flags
  before it calls the emitter.
\<close>

lemma EmitINSN_plain:
  assumes "debug \<le> 1" "debug_cnt AND 1 = 0" "c AND 1 = 0"
  shows "EmitINSN debug debug_cnt c s p (n, j) =
    map_option (\<lambda>(p, j). (p, n, j)) (line_array c (drop_bit 12 (code16 s p)) s p (RESET_FLAGS j))"
  using assms by (simp add: EmitINSN_def debug_marks_def debug_event_def chip_slowdown_def Let_def)

lemma EmitINSN_simulated:
  assumes "m68k_step s \<sigma> \<sigma>'" "ordinary_code s" "emulates s j m \<sigma>"
    "logic_opcode (code16 s (ucast (pcount \<sigma>))) \<Longrightarrow> M68K_GetSRMask c s (ucast (pcount \<sigma>)) \<noteq> 3"
    "debug \<le> 1" "debug_cnt AND 1 = 0" "c AND 1 = 0"
  shows "\<exists>j' m'. EmitINSN debug debug_cnt c s (ucast (pcount \<sigma>)) (n, j) = Some (ucast (pcount \<sigma>'), n, j') \<and>
    produces j m j' m' \<and> emulates s j' m' \<sigma>'"
  using line_array_simulates [OF assms(1,2) emulates_RESET [OF assms(3)] assms(4)]
  unfolding EmitINSN_plain [OF assms(5-7)] produces_RESET by auto

section \<open>Runs of instructions\<close>

text \<open>The calls of the translator's loop for \<open>k\<close> instructions in a row.\<close>

fun EmitINSNs :: "nat \<Rightarrow> nat \<Rightarrow> u32 \<Rightarrow> u32 \<Rightarrow> cache_sys \<Rightarrow> u64 \<times> u32 \<times> jit \<Rightarrow> (u64 \<times> u32 \<times> jit) option" where
  "EmitINSNs 0 debug debug_cnt c s r = Some r"
| "EmitINSNs (Suc k) debug debug_cnt c s r =
    (case EmitINSN debug debug_cnt c s (fst r) (snd r) of None \<Rightarrow> None | Some r' \<Rightarrow> EmitINSNs k debug debug_cnt c s r')"

text \<open>
  C1. A run of instructions is translated correctly: when the emulated processor makes \<open>k\<close>
  steps from a state that the host represents, \<open>k\<close> calls of \<open>EmitINSN\<close> in a row emit code that
  takes the host to one that represents the state after the steps, whatever the calls in
  between have left in registers, cached flags and the distance of the program counter. The
  steps (\<open>m68k_step\<close>) are ADD, SUB, AND, OR and CMP of an operand to a data register, EOR of
  two data registers, CMPA, CMPM, MOVEQ, and ADD, SUB, AND, OR and EOR of a data register to
  memory in the modes of \<open>alterable\<close>; at no AND, OR or EOR does the search for dead flags find
  exactly V and C live (\<open>m68k_steps\<close>). The debugging aids and the slow mode for chip memory are off.
\<close>

theorem EmitINSN_run_simulates:
  assumes "m68k_steps c s k \<sigma> \<sigma>'" "ordinary_code s" "emulates s j m \<sigma>" "debug \<le> 1" "debug_cnt AND 1 = 0" "c AND 1 = 0"
  shows "\<exists>j' m'. EmitINSNs k debug debug_cnt c s (ucast (pcount \<sigma>), n, j) = Some (ucast (pcount \<sigma>'), n, j') \<and>
    produces j m j' m' \<and> emulates s j' m' \<sigma>'"
  using assms(1,3)
proof (induction k \<sigma> \<sigma>' arbitrary: j m)
  case (no_step \<sigma>)
  then show ?case using produces_same [of j j m] by auto
next
  case (more_steps \<sigma> \<sigma>1 k \<sigma>2)
  obtain j1 m1 where 1: "EmitINSN debug debug_cnt c s (ucast (pcount \<sigma>)) (n, j) = Some (ucast (pcount \<sigma>1), n, j1)"
    "produces j m j1 m1" "emulates s j1 m1 \<sigma>1"
    using EmitINSN_simulated [OF more_steps(1) assms(2) more_steps.prems more_steps(2) assms(4-6)] by blast
  obtain j2 m2 where 2: "EmitINSNs k debug debug_cnt c s (ucast (pcount \<sigma>1), n, j1) = Some (ucast (pcount \<sigma>2), n, j2)"
    "produces j1 m1 j2 m2" "emulates s j2 m2 \<sigma>2"
    using more_steps.IH [OF 1(3)] by blast
  show ?case using 1(1) 2(1,3) produces_trans [OF 1(2) 2(2)] by auto
qed

theorem EmitINSN_run_simulates_witness:
  "\<exists>j' m'. EmitINSNs 2 0 0 0 (filled 0xd0 0x41) (0, 0, jit_init 64) = Some (4, 0, j') \<and>
    run (tc_code j') two_machine = Some m' \<and> rdX m' (host 0) = 0x8001"
proof -
  let ?s = "filled 0xd0 0x41"
  have c: "code16 ?s p = (if bit p 0 then 0x41d0 else 0xd041)" for p by (simp add: filled_code)
  have x: "code16 ?s 0 = 0xd041" "code16 ?s 2 = 0xd041" by (simp_all add: c)
  have o: "ordinary_code ?s" by (simp add: ordinary_code_def c)
  have f: "operand_size 0xd041 = 2" "ea_mode 0xd041 = 0" "reg_field 0xd041 = 1" "field_9 0xd041 = 0"
    by (simp_all add: operand_size_def ea_mode_def reg_field_def field_9_def)
  have st: "gpr (ADD_step ?s \<sigma>) 0 = low_part 2 (gpr \<sigma> 0) (gpr \<sigma> 0 + gpr \<sigma> 1)" "gpr (ADD_step ?s \<sigma>) 1 = gpr \<sigma> 1"
    "pcount (ADD_step ?s \<sigma>) = pcount \<sigma> + 2" if "code16 ?s (ucast (pcount \<sigma>)) = 0xd041" for \<sigma>
    using that by (simp_all add: ADD_step_def arith_step_def f insn_words_def operand_words_def operand_direct_def direct_words_def
      operand_value_def direct_operand_def ea_after_def Let_def)
  let ?one = "ADD_step ?s two_cpu"
  let ?two = "ADD_step ?s ?one"
  have p: "pcount two_cpu = 0" "gpr two_cpu 0 = 0x7fff" "gpr two_cpu 1 = 1" by (simp_all add: two_cpu_def two_regs_def)
  have 1: "gpr ?one 0 = 0x8000" "gpr ?one 1 = 1" "pcount ?one = 2"
    using st [of two_cpu] by (simp_all add: p x low_part_def mask_eq_exp_minus_1)
  have 2: "gpr ?two 0 = 0x8001" "pcount ?two = 4"
    using st [of ?one] by (simp_all add: 1 x low_part_def mask_eq_exp_minus_1)
  have i: "into_register 13 ?s two_cpu" "into_register 13 ?s ?one"
    by (simp_all add: into_register_def 1 p x f operand_ok_def ea_direct_def)
  have m: "M68K_GetSRMask 0 ?s 0 = 31" "M68K_GetSRMask 0 ?s 2 = 31"
    by (simp_all add: M68K_GetSRMask_def x SR_sets_def SR_flags_def SRCheck_def GetSR_LineD_def table_SR_def InsnTable_entry_def InsnTable_D_def)
  have "m68k_steps 0 ?s (Suc (Suc 0)) two_cpu ?two"
    by (rule more_steps [OF step_ADD [OF i(1)] _ more_steps [OF step_ADD [OF i(2)] _ no_step]]) (simp_all add: p 1 m)
  then have r: "m68k_steps 0 ?s 2 two_cpu ?two" by (simp add: numeral_2_eq_2)
  obtain j' m' where q: "EmitINSNs 2 0 0 0 ?s (ucast (pcount two_cpu), 0, jit_init 64) = Some (ucast (pcount ?two), 0, j')"
    "produces (jit_init 64) two_machine j' m'" "emulates ?s j' m' ?two"
    using EmitINSN_run_simulates [OF r o two_emulates, of 0 0 0] by auto
  have "run (tc_code j') two_machine = Some m'" using q(2) by (simp add: produces_def jit_init_def)
  moreover have "reg_is m' (host 0) (gpr ?two 0)"
    using q(3) m68k_regsD(1) [of m' _ 0] by (simp add: emulates_def cpu_def)
  ultimately show ?thesis using q(1) 2 p by (auto simp: reg_is_def)
qed

end
